(* ===== verification/Prelude.thy ===== *)
theory Prelude
  imports Main "HOL-Library.Word" "HOL-Library.Monad_Syntax"
begin

text \<open>
  What the components of the Orochi DB extension share: the names of the C integer types, byte
  buffers and the little-endian layout that a \<^verbatim>\<open>memcpy\<close> of an integer produces, the interface of a
  self-delimiting byte encoding with its lifting to sequences, and the generic notion of a state
  machine with its reachable states and invariants.

  A C operation whose behaviour is undefined (a write or a read outside an array) is modelled as
  \<^const>\<open>None\<close> of the \<^typ>\<open>'a option\<close> monad, so that a theorem that an operation returns
  \<^const>\<open>Some\<close> value also says that it stays inside its buffers.
\<close>

named_theorems wf_intros \<open>operations keep the well-formedness of their component\<close>
named_theorems frame_simps \<open>fields that an operation leaves alone\<close>
named_theorems codec_simps \<open>decoding what was encoded\<close>

section \<open>C integers and bytes\<close>

type_synonym u8 = "8 word"
type_synonym u16 = "16 word"
type_synonym u32 = "32 word"
type_synonym u64 = "64 word"
type_synonym bytes = "u8 list"

abbreviation (input) INT32_MAX :: int where "INT32_MAX \<equiv> 2147483647"
abbreviation (input) INT32_MIN :: int where "INT32_MIN \<equiv> - 2147483648"

definition wrap_i32 :: "int \<Rightarrow> int" where
  "wrap_i32 x = (x + 2147483648) mod 4294967296 - 2147483648"

definition c_div :: "int \<Rightarrow> int \<Rightarrow> int" where
  "c_div a b = sgn a * sgn b * (\<bar>a\<bar> div \<bar>b\<bar>)"

lemma wrap_i32_range: "INT32_MIN \<le> wrap_i32 x \<and> wrap_i32 x \<le> INT32_MAX"
  using pos_mod_bound [of 4294967296 "x + 2147483648"] pos_mod_sign [of 4294967296 "x + 2147483648"]
  unfolding wrap_i32_def by linarith

lemma wrap_i32_id [simp]: "INT32_MIN \<le> x \<Longrightarrow> x \<le> INT32_MAX \<Longrightarrow> wrap_i32 x = x"
  by (simp add: wrap_i32_def mod_pos_pos_trivial)

lemma le_zdiv_iff: "0 < (n::int) \<Longrightarrow> i \<le> x div n \<longleftrightarrow> i * n \<le> x"
proof
  assume n: "0 < n" and "i \<le> x div n"
  then have "i * n \<le> x div n * n" by (simp add: mult_right_mono)
  also have "\<dots> \<le> x" using n pos_mod_sign [of n x] div_mult_mod_eq [of x n] by linarith
  finally show "i * n \<le> x" .
next
  assume "0 < n" and "i * n \<le> x"
  then show "i \<le> x div n" using zdiv_mono1 [of "i * n" x n] by simp
qed

lemma zdiv_le_iff: "0 < (n::int) \<Longrightarrow> x div n \<le> i \<longleftrightarrow> x < (i + 1) * n"
  using le_zdiv_iff [of n "i + 1" x] by linarith

lemma c_div_nonneg [simp]: "0 \<le> a \<Longrightarrow> 0 < b \<Longrightarrow> c_div a b = a div b"
  by (cases "a = 0") (simp_all add: c_div_def)

text \<open>\<^verbatim>\<open>ereport(ERROR)\<close> and \<^verbatim>\<open>elog(ERROR)\<close> abort the statement with a message.\<close>

datatype pg_error = ERROR string

text \<open>The result of a statement that may abort with an error or run into undefined behaviour.\<close>

type_synonym 'a outcome = "(pg_error + 'a) option"

text \<open>A loop over \<open>xs\<close> that stops at the first error, and a list with the elements that satisfy a
  condition changed (\<^verbatim>\<open>UPDATE ... WHERE\<close>).\<close>

fun fold_err :: "('a \<Rightarrow> 's \<Rightarrow> 'e + 's) \<Rightarrow> 'a list \<Rightarrow> 's \<Rightarrow> 'e + 's" where
  "fold_err f [] s = Inr s"
| "fold_err f (x # xs) s = (case f x s of Inl e \<Rightarrow> Inl e | Inr s' \<Rightarrow> fold_err f xs s')"

definition update_where :: "('a \<Rightarrow> bool) \<Rightarrow> ('a \<Rightarrow> 'a) \<Rightarrow> 'a list \<Rightarrow> 'a list" where
  "update_where P f xs = map (\<lambda>x. if P x then f x else x) xs"

lemma fold_err_append:
  "fold_err f (xs @ ys) s = (case fold_err f xs s of Inl e \<Rightarrow> Inl e | Inr s' \<Rightarrow> fold_err f ys s')"
  by (induction xs arbitrary: s) (auto split: sum.splits)

lemma length_update_where [simp]: "length (update_where P f xs) = length xs"
  by (simp add: update_where_def)

lemma update_where_Nil [simp]: "update_where P f [] = []"
  by (simp add: update_where_def)

lemma update_where_Cons [simp]:
  "update_where P f (x # xs) = (if P x then f x else x) # update_where P f xs"
  by (simp add: update_where_def)

lemma map_update_where: "(\<And>x. g (f x) = g x) \<Longrightarrow> map g (update_where P f xs) = map g xs"
  by (simp add: update_where_def)

lemma update_where_none: "\<forall>x \<in> set xs. \<not> P x \<Longrightarrow> update_where P f xs = xs"
  by (induction xs) auto

section \<open>Little-endian integers\<close>

text \<open>\<open>le_bytes k n\<close> is what \<^verbatim>\<open>memcpy\<close> of a \<open>k\<close>-byte unsigned integer of value \<open>n\<close> writes on a
  little-endian machine, \<open>le_nat\<close> what reading it back gives.\<close>

fun le_bytes :: "nat \<Rightarrow> nat \<Rightarrow> bytes" where
  "le_bytes 0 n = []"
| "le_bytes (Suc k) n = word_of_nat n # le_bytes k (n div 256)"

fun le_nat :: "bytes \<Rightarrow> nat" where
  "le_nat [] = 0"
| "le_nat (b # bs) = unat b + 256 * le_nat bs"

lemma length_le_bytes [simp]: "length (le_bytes k n) = k"
  by (induction k arbitrary: n) auto

lemma le_bytes_numeral: "le_bytes (numeral k) n = word_of_nat n # le_bytes (pred_numeral k) (n div 256)"
  by (simp only: numeral_eq_Suc le_bytes.simps)

lemma unat_byte_of_nat: "unat (word_of_nat n :: u8) = n mod 256"
  by (simp add: unat_of_nat)

lemma le_nat_le_bytes: "le_nat (le_bytes k n) = n mod 256 ^ k"
proof (induction k arbitrary: n)
  case 0
  then show ?case by simp
next
  case (Suc k)
  have "le_nat (le_bytes (Suc k) n) = n mod 256 + 256 * (n div 256 mod 256 ^ k)"
    by (simp add: unat_byte_of_nat Suc.IH)
  also have "\<dots> = n mod (256 * 256 ^ k)"
    by (simp add: mod_mult2_eq)
  finally show ?case by simp
qed

lemma le_nat_le_bytes_id [codec_simps]: "n < 256 ^ k \<Longrightarrow> le_nat (le_bytes k n) = n"
  by (simp add: le_nat_le_bytes)

text \<open>Signed fields are stored in two's complement.\<close>

definition i32_bytes :: "int \<Rightarrow> bytes" where
  "i32_bytes i = le_bytes 4 (nat (i mod 4294967296))"

definition i32_value :: "bytes \<Rightarrow> int" where
  "i32_value bs = wrap_i32 (int (le_nat bs))"

definition i64_bytes :: "int \<Rightarrow> bytes" where
  "i64_bytes i = le_bytes 8 (nat (i mod 18446744073709551616))"

definition i64_value :: "bytes \<Rightarrow> int" where
  "i64_value bs = (int (le_nat bs) + 9223372036854775808) mod 18446744073709551616 - 9223372036854775808"

abbreviation is_i32 :: "int \<Rightarrow> bool" where
  "is_i32 i \<equiv> INT32_MIN \<le> i \<and> i \<le> INT32_MAX"

abbreviation is_i64 :: "int \<Rightarrow> bool" where
  "is_i64 i \<equiv> - 9223372036854775808 \<le> i \<and> i < 9223372036854775808"

abbreviation is_u64 :: "nat \<Rightarrow> bool" where
  "is_u64 n \<equiv> n < 18446744073709551616"

lemma length_i32_bytes [simp]: "length (i32_bytes i) = 4"
  by (simp add: i32_bytes_def)

lemma length_i64_bytes [simp]: "length (i64_bytes i) = 8"
  by (simp add: i64_bytes_def)

lemma i32_value_bytes [codec_simps]: "is_i32 i \<Longrightarrow> i32_value (i32_bytes i) = i"
  by (simp add: i32_value_def i32_bytes_def le_nat_le_bytes wrap_i32_def nat_less_iff mod_simps
      mod_pos_pos_trivial nat_mod_distrib)

lemma i64_value_bytes [codec_simps]: "is_i64 i \<Longrightarrow> i64_value (i64_bytes i) = i"
  by (simp add: i64_value_def i64_bytes_def le_nat_le_bytes nat_less_iff mod_simps
      mod_pos_pos_trivial nat_mod_distrib)

lemma le_nat_u64 [codec_simps]: "is_u64 n \<Longrightarrow> le_nat (le_bytes 8 n) = n"
  by (simp add: le_nat_le_bytes_id)

section \<open>Reading a buffer front to back\<close>

text \<open>\<open>take_bytes k bs\<close> reads the next \<open>k\<close> bytes and returns the rest; reading past the end of the
  buffer is undefined behaviour.\<close>

definition take_bytes :: "nat \<Rightarrow> bytes \<Rightarrow> (bytes \<times> bytes) option" where
  "take_bytes k bs = (if k \<le> length bs then Some (take k bs, drop k bs) else None)"

lemma take_bytes_append [simp]: "length xs = k \<Longrightarrow> take_bytes k (xs @ ys) = Some (xs, ys)"
  by (simp add: take_bytes_def)

lemma take_bytes_Some:
  "take_bytes k bs = Some (xs, ys) \<longleftrightarrow> bs = xs @ ys \<and> length xs = k"
  by (auto simp: take_bytes_def)

text \<open>\<open>dec_many d n\<close> applies a reader \<open>n\<close> times, as the \<^verbatim>\<open>for\<close> loops over counted arrays do.\<close>

fun dec_many :: "(bytes \<Rightarrow> ('a \<times> bytes) option) \<Rightarrow> nat \<Rightarrow> bytes \<Rightarrow> ('a list \<times> bytes) option" where
  "dec_many d 0 bs = Some ([], bs)"
| "dec_many d (Suc n) bs =
     (case d bs of None \<Rightarrow> None
      | Some (x, bs') \<Rightarrow>
          (case dec_many d n bs' of None \<Rightarrow> None | Some (xs, bs'') \<Rightarrow> Some (x # xs, bs'')))"

text \<open>The interface of a self-delimiting encoding: decoding stops exactly where the encoding of a
  valid value ends, whatever follows.\<close>

locale prefix_codec =
  fixes enc :: "'a \<Rightarrow> bytes"
    and dec :: "bytes \<Rightarrow> ('a \<times> bytes) option"
    and ok :: "'a \<Rightarrow> bool"
  assumes dec_enc: "ok a \<Longrightarrow> dec (enc a @ rest) = Some (a, rest)"
begin

lemma dec_many_concat:
  "list_all ok as \<Longrightarrow> dec_many dec (length as) (concat (map enc as) @ rest) = Some (as, rest)"
  by (induction as) (auto simp: dec_enc)

lemma enc_inj:
  assumes "ok a" "ok b" "enc a = enc b"
  shows "a = b"
proof -
  have "Some (a, [] :: bytes) = Some (b, [])"
    using dec_enc [OF assms(1), of "[]"] dec_enc [OF assms(2), of "[]"] assms(3) by metis
  then show ?thesis by simp
qed

lemma enc_prefix_free:
  assumes "ok a" "ok b" "enc a @ xs = enc b @ ys"
  shows "a = b \<and> xs = ys"
proof -
  have "Some (a, xs) = Some (b, ys)"
    using dec_enc [OF assms(1), of xs] dec_enc [OF assms(2), of ys] assms(3) by metis
  then show ?thesis by simp
qed

end

definition dec_u64 :: "bytes \<Rightarrow> (nat \<times> bytes) option" where
  "dec_u64 bs = map_option (\<lambda>(x, r). (le_nat x, r)) (take_bytes 8 bs)"

definition dec_i32 :: "bytes \<Rightarrow> (int \<times> bytes) option" where
  "dec_i32 bs = map_option (\<lambda>(x, r). (i32_value x, r)) (take_bytes 4 bs)"

definition dec_u32 :: "bytes \<Rightarrow> (nat \<times> bytes) option" where
  "dec_u32 bs = map_option (\<lambda>(x, r). (le_nat x, r)) (take_bytes 4 bs)"

definition dec_i64 :: "bytes \<Rightarrow> (int \<times> bytes) option" where
  "dec_i64 bs = map_option (\<lambda>(x, r). (i64_value x, r)) (take_bytes 8 bs)"

interpretation u64c: prefix_codec "le_bytes 8" dec_u64 is_u64
  by unfold_locales (simp add: dec_u64_def codec_simps)

interpretation u32c: prefix_codec "le_bytes 4" dec_u32 "\<lambda>n. n < 4294967296"
  by unfold_locales (simp add: dec_u32_def codec_simps)

interpretation i32c: prefix_codec i32_bytes dec_i32 is_i32
  by unfold_locales (simp add: dec_i32_def codec_simps)

interpretation i64c: prefix_codec i64_bytes dec_i64 is_i64
  by unfold_locales (simp add: dec_i64_def codec_simps)

lemmas int_codecs [codec_simps] = u64c.dec_enc u32c.dec_enc i32c.dec_enc i64c.dec_enc

section \<open>Arrays\<close>

text \<open>A store into a C array of \<open>length xs\<close> elements: outside its bounds it is undefined.\<close>

definition array_store :: "'a list \<Rightarrow> nat \<Rightarrow> 'a \<Rightarrow> 'a list option" where
  "array_store xs i v = (if i < length xs then Some (xs[i := v]) else None)"

lemma array_store_Some [simp]:
  "array_store xs i v = Some ys \<longleftrightarrow> i < length xs \<and> ys = xs[i := v]"
  by (auto simp: array_store_def)

lemma take_Suc_update: "i < length xs \<Longrightarrow> take (Suc i) (xs[i := v]) = take i xs @ [v]"
  by (simp add: take_Suc_conv_app_nth)

text \<open>A read of an array, a loop whose body may be undefined, and a loop that takes \<open>L\<close> elements of an
  array at a time as long as that many of the first \<open>n\<close> are left; it gives the index it stopped at.\<close>

definition array_get :: "'a list \<Rightarrow> nat \<Rightarrow> 'a option" where
  "array_get xs i = (if i < length xs then Some (xs ! i) else None)"

fun fold_opt :: "('a \<Rightarrow> 's \<Rightarrow> 's option) \<Rightarrow> 'a list \<Rightarrow> 's \<Rightarrow> 's option" where
  "fold_opt f [] s = Some s"
| "fold_opt f (x # xs) s = (case f x s of None \<Rightarrow> None | Some s' \<Rightarrow> fold_opt f xs s')"

function lane_loop ::
  "nat \<Rightarrow> ('a list \<Rightarrow> 's \<Rightarrow> pg_error + 's) \<Rightarrow> 'a list \<Rightarrow> nat \<Rightarrow> nat \<Rightarrow> 's \<Rightarrow> (nat \<times> 's) outcome" where
  "lane_loop L body xs n i s =
     (if L = 0 then None
      else if i + L \<le> n then
        (if i + L \<le> length xs then
           (case body (take L (drop i xs)) s of
              Inl e \<Rightarrow> Some (Inl e)
            | Inr s' \<Rightarrow> lane_loop L body xs n (i + L) s')
         else None)
      else Some (Inr (i, s)))"
  by pat_completeness auto
termination by (relation "measure (\<lambda>(L, body, xs, n, i, s). n - i)") auto

declare lane_loop.simps [simp del]

lemma array_get_Some [simp]: "array_get xs i = Some x \<longleftrightarrow> i < length xs \<and> x = xs ! i"
  by (auto simp: array_get_def)

lemma array_get_less: "i < length xs \<Longrightarrow> array_get xs i = Some (xs ! i)"
  by simp

lemma fold_opt_append: "fold_opt f (xs @ ys) s = Option.bind (fold_opt f xs s) (fold_opt f ys)"
  by (induction xs arbitrary: s) (auto split: option.splits)

lemma fold_opt_total: "\<forall>x \<in> set xs. \<forall>s. f x s = Some (g x s) \<Longrightarrow> fold_opt f xs s = Some (fold g xs s)"
  by (induction xs arbitrary: s) auto

lemma fold_snoc_map: "fold (\<lambda>x m. m @ [g x]) xs m = m @ map g xs"
  by (induction xs arbitrary: m) auto

text \<open>A loop that writes one element after another.\<close>

lemma fold_opt_stores:
  assumes "n \<le> length xs" and "\<And>i ys. i < n \<Longrightarrow> length ys = length xs \<Longrightarrow> ys ! i = xs ! i \<Longrightarrow> f i ys = Some (ys[i := g i])"
  shows "fold_opt f [0..<n] xs = Some (map g [0..<n] @ drop n xs)"
  using assms
proof (induction n)
  case (Suc n)
  let ?ys = "map g [0..<n] @ drop n xs"
  have "fold_opt f [0..<n] xs = Some ?ys" using Suc by simp
  moreover have "f n ?ys = Some (?ys[n := g n])"
    using Suc.prems(1) by (intro Suc.prems(2)) (auto simp: nth_append)
  moreover have "drop n xs = xs ! n # drop (Suc n) xs"
    using Suc.prems(1) by (simp add: Cons_nth_drop_Suc)
  ultimately show ?case by (simp add: fold_opt_append list_update_append)
qed simp

text \<open>The loop over groups of \<open>L\<close> stops at the last multiple of \<open>L\<close>; a step that extends an invariant by
  one group extends it up to there.\<close>

lemma lane_loop_induct:
  assumes L: "0 < L" and n: "n \<le> length xs" and i: "L dvd i" "i \<le> n" and start: "P i s"
    and step: "\<And>k s. L dvd k \<Longrightarrow> k + L \<le> n \<Longrightarrow> P k s \<Longrightarrow>
                 \<exists>s'. body (take L (drop k xs)) s = Inr s' \<and> P (k + L) s'"
  shows "\<exists>s'. lane_loop L body xs n i s = Some (Inr (n - n mod L, s')) \<and> P (n - n mod L) s'"
  using i start
proof (induction "n - i" arbitrary: i s rule: less_induct)
  case less
  show ?case
  proof (cases "i + L \<le> n")
    case True
    then obtain s' where s': "body (take L (drop i xs)) s = Inr s'" "P (i + L) s'"
      using step less.prems by blast
    have "L dvd i + L" using less.prems(1) by simp
    with less.hyps [of "i + L" s'] True L s' show ?thesis
      using n by (subst lane_loop.simps) simp
  next
    case False
    from less.prems(1) obtain q where q: "i = L * q" by (rule dvdE)
    have "n = L * q + (n - i)" using less.prems(2) q by simp
    then have "n mod L = n - i" using False L less.prems(2)
      by (metis add.commute mod_less mod_mult_self2 less_diff_conv2 not_le)
    then have "n - n mod L = i" using less.prems(2) by simp
    with False L less.prems(3) show ?thesis by (subst lane_loop.simps) simp
  qed
qed

text \<open>A bounded quantifier over indices as a test that can be evaluated.\<close>

lemma all_less_upt: "(\<forall>k < n. P k) \<longleftrightarrow> list_all P [0 ..< n]"
  by (auto simp: list_all_iff)

section \<open>Text\<close>

text \<open>The bytes of a string literal, \<^verbatim>\<open>%lu\<close> and \<^verbatim>\<open>%ld\<close>, and the longest prefix of decimal digits with its value.\<close>

definition ascii :: "string \<Rightarrow> bytes" where
  "ascii s = map of_char s"

fun decimal :: "nat \<Rightarrow> bytes" where
  "decimal n = (if n < 10 then [48 + word_of_nat n] else decimal (n div 10) @ [48 + word_of_nat (n mod 10)])"

declare decimal.simps [simp del]

definition decimal_int :: "int \<Rightarrow> bytes" where
  "decimal_int i = (if i < 0 then [45] else []) @ decimal (nat \<bar>i\<bar>)"

definition is_digit :: "u8 \<Rightarrow> bool" where
  "is_digit c \<longleftrightarrow> 48 \<le> c \<and> c \<le> 57"

definition digits_value :: "bytes \<Rightarrow> nat" where
  "digits_value ds = foldl (\<lambda>n d. 10 * n + (unat d - 48)) 0 ds"

lemma digit_byte: "n < 10 \<Longrightarrow> is_digit (48 + word_of_nat n) \<and> unat (48 + word_of_nat n :: u8) = 48 + n"
  by (simp add: is_digit_def word_le_nat_alt unat_word_ariths unat_of_nat)

lemma decimal_digits: "list_all is_digit (decimal n) \<and> decimal n \<noteq> [] \<and> digits_value (decimal n) = n"
proof (induction n rule: decimal.induct)
  case (1 n)
  show ?case
  proof (cases "n < 10")
    case True
    then show ?thesis using digit_byte [of n] by (subst (1 2 3) decimal.simps) (simp add: digits_value_def)
  next
    case False
    then show ?thesis using 1 digit_byte [of "n mod 10"]
      by (subst (1 2 3) decimal.simps) (simp add: digits_value_def)
  qed
qed

lemma takeWhile_decimal: "\<not> is_digit c \<Longrightarrow> takeWhile is_digit (decimal n @ c # cs) = decimal n"
  using decimal_digits [of n] by (simp add: list_all_iff takeWhile_append2)

section \<open>State machines\<close>

inductive reach :: "('s \<Rightarrow> bool) \<Rightarrow> ('s \<Rightarrow> 's \<Rightarrow> bool) \<Rightarrow> 's \<Rightarrow> bool"
  for initial :: "'s \<Rightarrow> bool" and step :: "'s \<Rightarrow> 's \<Rightarrow> bool" where
  reach_init: "initial s \<Longrightarrow> reach initial step s"
| reach_step: "reach initial step s \<Longrightarrow> step s t \<Longrightarrow> reach initial step t"

text \<open>An inductive invariant of a transition system holds in every reachable state.\<close>

locale invariant_system =
  fixes initial :: "'s \<Rightarrow> bool"
    and step :: "'s \<Rightarrow> 's \<Rightarrow> bool"
    and inv :: "'s \<Rightarrow> bool"
  assumes inv_init: "initial s \<Longrightarrow> inv s"
    and inv_step: "inv s \<Longrightarrow> step s t \<Longrightarrow> inv t"
begin

lemma inv_reach: "reach initial step s \<Longrightarrow> inv s"
  by (induction rule: reach.induct) (auto intro: inv_init inv_step)

end

end
