(* ===== verification/Raft_Types.thy ===== *)
theory Raft_Types
  imports Prelude
begin

text \<open>
  The data of the Raft component (\<^verbatim>\<open>consensus/raft.h\<close>): enums as datatypes, structs as records.
  Terms and log indices (\<^verbatim>\<open>uint64\<close>) are \<^typ>\<open>nat\<close>: they only grow by one per election or per
  entry, and every subtraction of the code is written so that it agrees with the modular one under
  the well-formedness predicate of the log. Node ids and timestamps are \<^typ>\<open>int\<close>; the id \<open>-1\<close>
  stands for ``none'' as in the code. A pointer that may be \<^verbatim>\<open>NULL\<close> is an option. A counted
  array (\<^verbatim>\<open>entries\<close> with \<^verbatim>\<open>entries_count\<close>, \<^verbatim>\<open>peers\<close> with \<^verbatim>\<open>peer_count\<close>) is a list.

  Two records carry what the C code keeps outside of the struct: \<open>wal_files\<close> and \<open>snap_files\<close> are
  the files of the directory \<^verbatim>\<open>wal_path\<close> (by the index in their name), \<open>state_file\<close> is the file
  \<^verbatim>\<open>raft_state_<id>.dat\<close>, the \<open>snapshot_\<close> fields are the static variables of
  \<^verbatim>\<open>raft_install_snapshot\<close>, and \<open>applied\<close> is the sequence of entries handed to the apply callback.
\<close>

section \<open>Configuration\<close>

abbreviation (input) RAFT_ELECTION_TIMEOUT_MIN_MS :: int where "RAFT_ELECTION_TIMEOUT_MIN_MS \<equiv> 150"
abbreviation (input) RAFT_ELECTION_TIMEOUT_MAX_MS :: int where "RAFT_ELECTION_TIMEOUT_MAX_MS \<equiv> 300"
abbreviation (input) RAFT_HEARTBEAT_INTERVAL_MS :: int where "RAFT_HEARTBEAT_INTERVAL_MS \<equiv> 50"
abbreviation (input) RAFT_MAX_LOG_ENTRIES :: nat where "RAFT_MAX_LOG_ENTRIES \<equiv> 10000"
abbreviation (input) RAFT_MAX_ENTRIES_PER_APPEND :: nat where "RAFT_MAX_ENTRIES_PER_APPEND \<equiv> 100"
abbreviation (input) RAFT_SNAPSHOT_THRESHOLD :: nat where "RAFT_SNAPSHOT_THRESHOLD \<equiv> 1000"
abbreviation (input) RAFT_MAX_CLUSTER_SIZE :: nat where "RAFT_MAX_CLUSTER_SIZE \<equiv> 32"

section \<open>States, entries and the log\<close>

datatype RaftState = RAFT_STATE_FOLLOWER | RAFT_STATE_CANDIDATE | RAFT_STATE_LEADER

datatype RaftLogEntryType = RAFT_LOG_COMMAND | RAFT_LOG_CONFIG_CHANGE | RAFT_LOG_NOOP

record RaftLogEntry =
  e_index :: nat
  e_term :: nat
  e_type :: RaftLogEntryType
  command_size :: int
  command_data :: "bytes option"
  created_at :: int

record RaftLog =
  entries :: "RaftLogEntry list"
  first_index :: nat
  last_index :: nat
  commit_index :: nat
  last_applied :: nat
  capacity :: nat
  wal_path :: "string option"
  persistence_enabled :: bool
  wal_files :: "nat \<Rightarrow> bytes option"
  snap_files :: "nat \<Rightarrow> bytes option"

section \<open>RPC messages\<close>

record RequestVoteRequest =
  rv_term :: nat
  candidate_id :: int
  last_log_index :: nat
  last_log_term :: nat

record RequestVoteResponse =
  rvr_term :: nat
  vote_granted :: bool
  voter_id :: int

record AppendEntriesRequest =
  ae_term :: nat
  ae_leader_id :: int
  prev_log_index :: nat
  prev_log_term :: nat
  ae_entries :: "RaftLogEntry list"
  leader_commit :: nat

record AppendEntriesResponse =
  aer_term :: nat
  aer_success :: bool
  match_index :: nat
  aer_node_id :: int

record InstallSnapshotRequest =
  is_term :: nat
  is_leader_id :: int
  last_included_index :: nat
  last_included_term :: nat
  is_offset :: int
  is_data :: "bytes option"
  data_size :: int
  is_done :: bool

record InstallSnapshotResponse =
  isr_term :: nat
  isr_node_id :: int
  bytes_received :: int
  isr_success :: bool

section \<open>Cluster and node\<close>

record RaftPeer =
  peer_id :: int
  hostname :: string
  port :: int
  is_active :: bool
  next_index :: nat
  peer_match_index :: nat
  last_contact :: int
  connection :: bool
  peer_vote_granted :: bool

record RaftCluster =
  peers :: "RaftPeer list"
  quorum_size :: nat
  my_node_id :: int

record RaftNode =
  current_term :: nat
  voted_for :: int
  log :: RaftLog
  state :: RaftState
  node_id :: int
  leader_id :: int
  cluster :: RaftCluster
  election_timeout :: int
  last_heartbeat :: int
  is_leader :: bool
  apply_callback :: bool
  elections_started :: nat
  elections_won :: nat
  append_entries_sent :: nat
  votes_received :: nat
  initialized :: bool
  running :: bool
  applied :: "RaftLogEntry list"
  state_file :: "bytes option"
  snapshot_buffer :: "bytes option"
  snapshot_buffer_size :: int
  snapshot_offset :: int
  snapshot_last_index :: nat

text \<open>\<^verbatim>\<open>peer_count\<close> is the number of used slots of the peer array.\<close>

abbreviation peer_count :: "RaftNode \<Rightarrow> nat" where
  "peer_count n \<equiv> length (peers (cluster n))"

section \<open>The environment of a call\<close>

text \<open>
  What the operating system answers during one call of an operation: \<open>now\<close> is the clock,
  \<open>rand_value\<close> the next value of \<^verbatim>\<open>rand()\<close>, \<open>disk\<close> what happens to file writes. A failed write
  leaves the first \<open>k\<close> bytes of what was to be written.
\<close>

datatype io_outcome = IO_ok | IO_open_fails | IO_write_fails nat

record env =
  now :: int
  rand_value :: nat
  disk :: io_outcome

text \<open>What a remote call over libpq gives: no connection, a failed query, or a row.\<close>

datatype 'r rpc_outcome = RPC_no_connection | RPC_query_failed | RPC_reply 'r

end
