(* ===== verification/Raft_WAL.thy ===== *)
theory Raft_WAL
  imports Raft_Types
begin

unbundle bit_operations_syntax

text \<open>
  The write-ahead log of the Raft log (\<^verbatim>\<open>consensus/raft_log.c\<close>): the checksum, the byte layout of
  the file header and of the records (structs are written with their padding, whose four bytes are
  taken to be zero), and \<^verbatim>\<open>raft_log_persist\<close>, which appends a full dump of the log to the file named
  after its first index. The reader of one record is here as well; recovery is in the theory
  \<open>Raft_Recovery\<close>.
\<close>

section \<open>Reading the in-memory log\<close>

definition zero_entry :: RaftLogEntry where
  "zero_entry = \<lparr>e_index = 0, e_term = 0, e_type = RAFT_LOG_COMMAND, command_size = 0,
     command_data = None, created_at = 0\<rparr>"

definition raft_log_get :: "RaftLog \<Rightarrow> nat \<Rightarrow> RaftLogEntry option" where
  "raft_log_get l i =
     (if i < first_index l \<or> i > last_index l then None
      else Some (entries l ! (i - first_index l)))"

definition raft_log_term_at :: "RaftLog \<Rightarrow> nat \<Rightarrow> nat" where
  "raft_log_term_at l i =
     (if i = 0 then 0 else case raft_log_get l i of None \<Rightarrow> 0 | Some e \<Rightarrow> e_term e)"

section \<open>The checksum\<close>

definition crc_table :: "u32 list" where
  "crc_table = [
     0x00000000, 0x77073096, 0xee0e612c, 0x990951ba, 0x076dc419, 0x706af48f, 0xe963a535,
     0x9e6495a3, 0x0edb8832, 0x79dcb8a4, 0xe0d5e91e, 0x97d2d988, 0x09b64c2b, 0x7eb17cbd,
     0xe7b82d07, 0x90bf1d91, 0x1db71064, 0x6ab020f2, 0xf3b97148, 0x84be41de, 0x1adad47d,
     0x6ddde4eb, 0xf4d4b551, 0x83d385c7, 0x136c9856, 0x646ba8c0, 0xfd62f97a, 0x8a65c9ec,
     0x14015c4f, 0x63066cd9, 0xfa0f3d63, 0x8d080df5, 0x3b6e20c8, 0x4c69105e, 0xd56041e4,
     0xa2677172, 0x3c03e4d1, 0x4b04d447, 0xd20d85fd, 0xa50ab56b, 0x35b5a8fa, 0x42b2986c,
     0xdbbbc9d6, 0xacbcf940, 0x32d86ce3, 0x45df5c75, 0xdcd60dcf, 0xabd13d59, 0x26d930ac,
     0x51de003a, 0xc8d75180, 0xbfd06116, 0x21b4f4b5, 0x56b3c423, 0xcfba9599, 0xb8bda50f,
     0x2802b89e, 0x5f058808, 0xc60cd9b2, 0xb10be924, 0x2f6f7c87, 0x58684c11, 0xc1611dab,
     0xb6662d3d, 0x76dc4190, 0x01db7106, 0x98d220bc, 0xefd5102a, 0x71b18589, 0x06b6b51f,
     0x9fbfe4a5, 0xe8b8d433, 0x7807c9a2, 0x0f00f934, 0x9609a88e, 0xe10e9818, 0x7f6a0dbb,
     0x086d3d2d, 0x91646c97, 0xe6635c01, 0x6b6b51f4, 0x1c6c6162, 0x856530d8, 0xf262004e,
     0x6c0695ed, 0x1b01a57b, 0x8208f4c1, 0xf50fc457, 0x65b0d9c6, 0x12b7e950, 0x8bbeb8ea,
     0xfcb9887c, 0x62dd1ddf, 0x15da2d49, 0x8cd37cf3, 0xfbd44c65, 0x4db26158, 0x3ab551ce,
     0xa3bc0074, 0xd4bb30e2, 0x4adfa541, 0x3dd895d7, 0xa4d1c46d, 0xd3d6f4fb, 0x4369e96a,
     0x346ed9fc, 0xad678846, 0xda60b8d0, 0x44042d73, 0x33031de5, 0xaa0a4c5f, 0xdd0d7cc9,
     0x5005713c, 0x270241aa, 0xbe0b1010, 0xc90c2086, 0x5768b525, 0x206f85b3, 0xb966d409,
     0xce61e49f, 0x5edef90e, 0x29d9c998, 0xb0d09822, 0xc7d7a8b4, 0x59b33d17, 0x2eb40d81,
     0xb7bd5c3b, 0xc0ba6cad, 0xedb88320, 0x9abfb3b6, 0x03b6e20c, 0x74b1d29a, 0xead54739,
     0x9dd277af, 0x04db2615, 0x73dc1683, 0xe3630b12, 0x94643b84, 0x0d6d6a3e, 0x7a6a5aa8,
     0xe40ecf0b, 0x9309ff9d, 0x0a00ae27, 0x7d079eb1, 0xf00f9344, 0x8708a3d2, 0x1e01f268,
     0x6906c2fe, 0xf762575d, 0x806567cb, 0x196c3671, 0x6e6b06e7, 0xfed41b76, 0x89d32be0,
     0x10da7a5a, 0x67dd4acc, 0xf9b9df6f, 0x8ebeeff9, 0x17b7be43, 0x60b08ed5, 0xd6d6a3e8,
     0xa1d1937e, 0x38d8c2c4, 0x4fdff252, 0xd1bb67f1, 0xa6bc5767, 0x3fb506dd, 0x48b2364b,
     0xd80d2bda, 0xaf0a1b4c, 0x36034af6, 0x41047a60, 0xdf60efc3, 0xa867df55, 0x316e8eef,
     0x4669be79, 0xcb61b38c, 0xbc66831a, 0x256fd2a0, 0x5268e236, 0xcc0c7795, 0xbb0b4703,
     0x220216b9, 0x5505262f, 0xc5ba3bbe, 0xb2bd0b28, 0x2bb45a92, 0x5cb36a04, 0xc2d7ffa7,
     0xb5d0cf31, 0x2cd99e8b, 0x5bdeae1d, 0x9b64c2b0, 0xec63f226, 0x756aa39c, 0x026d930a,
     0x9c0906a9, 0xeb0e363f, 0x72076785, 0x05005713, 0x95bf4a82, 0xe2b87a14, 0x7bb12bae,
     0x0cb61b38, 0x92d28e9b, 0xe5d5be0d, 0x7cdcefb7, 0x0bdbdf21, 0x86d3d2d4, 0xf1d4e242,
     0x68ddb3f8, 0x1fda836e, 0x81be16cd, 0xf6b9265b, 0x6fb077e1, 0x18b74777, 0x88085ae6,
     0xff0f6a70, 0x66063bca, 0x11010b5c, 0x8f659eff, 0xf862ae69, 0x616bffd3, 0x166ccf45,
     0xa00ae278, 0xd70dd2ee, 0x4e048354, 0x3903b3c2, 0xa7672661, 0xd06016f7, 0x4969474d,
     0x3e6e77db, 0xaed16a4a, 0xd9d65adc, 0x40df0b66, 0x37d83bf0, 0xa9bcae53, 0xdebb9ec5,
     0x47b2cf7f, 0x30b5ffe9, 0xbdbdf21c, 0xcabac28a, 0x53b39330, 0x24b4a3a6, 0xbad03605,
     0xcdd706b3, 0x54de5729, 0x23d967bf, 0xb3667a2e, 0xc4614ab8, 0x5d681b02, 0x2a6f2b94,
     0xb40bbe37, 0xc30c8ea1, 0x5a05df1b, 0x2d02ef8d]"

definition crc_step :: "u32 \<Rightarrow> u8 \<Rightarrow> u32" where
  "crc_step crc b = crc_table ! unat ((crc XOR ucast b) AND 0xFF) XOR drop_bit 8 crc"

definition raft_log_compute_crc :: "bytes \<Rightarrow> u32" where
  "raft_log_compute_crc data = foldl crc_step 0xFFFFFFFF data XOR 0xFFFFFFFF"

section \<open>Records and headers\<close>

abbreviation (input) RAFT_WAL_MAGIC :: nat where "RAFT_WAL_MAGIC \<equiv> 0x52414654"
abbreviation (input) RAFT_WAL_VERSION :: nat where "RAFT_WAL_VERSION \<equiv> 1"

datatype RaftWALRecordType = RAFT_WAL_ENTRY | RAFT_WAL_TRUNCATE | RAFT_WAL_COMMIT | RAFT_WAL_SNAPSHOT

fun wal_type_code :: "RaftWALRecordType \<Rightarrow> nat" where
  "wal_type_code RAFT_WAL_ENTRY = 1"
| "wal_type_code RAFT_WAL_TRUNCATE = 2"
| "wal_type_code RAFT_WAL_COMMIT = 3"
| "wal_type_code RAFT_WAL_SNAPSHOT = 4"

fun entry_type_code :: "RaftLogEntryType \<Rightarrow> int" where
  "entry_type_code RAFT_LOG_COMMAND = 0"
| "entry_type_code RAFT_LOG_CONFIG_CHANGE = 1"
| "entry_type_code RAFT_LOG_NOOP = 2"

text \<open>Copying an integer into a field of an enum type: the code never writes another value than the
  three constants; reading one is left undefined.\<close>

definition entry_type_of :: "int \<Rightarrow> RaftLogEntryType option" where
  "entry_type_of c = (if c = 0 then Some RAFT_LOG_COMMAND else if c = 1 then Some RAFT_LOG_CONFIG_CHANGE
     else if c = 2 then Some RAFT_LOG_NOOP else None)"

lemma entry_type_of_code [simp]: "entry_type_of (entry_type_code t) = Some t"
  by (cases t) (simp_all add: entry_type_of_def)

lemma entry_type_code_i32 [simp]: "is_i32 (entry_type_code t)"
  by (cases t) simp_all

lemma wal_type_code_inject [simp]: "wal_type_code s = wal_type_code t \<longleftrightarrow> s = t"
  by (cases s; cases t) simp_all

definition padding :: bytes where
  "padding = [0, 0, 0, 0]"

definition raft_log_write_wal_header :: "RaftLog \<Rightarrow> int \<Rightarrow> bytes" where
  "raft_log_write_wal_header l t =
     le_bytes 4 RAFT_WAL_MAGIC @ le_bytes 4 RAFT_WAL_VERSION @ i32_bytes 0 @ padding @
     le_bytes 8 (first_index l) @ i64_bytes t"

definition raft_log_write_wal_record :: "RaftWALRecordType \<Rightarrow> bytes \<Rightarrow> nat \<Rightarrow> bytes" where
  "raft_log_write_wal_record ty data index =
     le_bytes 4 (wal_type_code ty) @ le_bytes 4 (length data) @
     le_bytes 4 (unat (raft_log_compute_crc data)) @ padding @ le_bytes 8 index @ data"

text \<open>The payload of an entry record.\<close>

definition wal_entry_payload :: "RaftLogEntry \<Rightarrow> bytes" where
  "wal_entry_payload e =
     le_bytes 8 (e_term e) @ i32_bytes (entry_type_code (e_type e)) @ i32_bytes (command_size e) @
     i64_bytes (created_at e) @
     (case command_data e of None \<Rightarrow> []
      | Some d \<Rightarrow> if command_size e > 0 then take (nat (command_size e)) d else [])"

section \<open>Appending to the file\<close>

text \<open>\<^verbatim>\<open>raft_log_write_full\<close> retries partial writes, so a write either completes or fails; a failure
  ends \<^verbatim>\<open>raft_log_persist\<close> with what was written so far left in the file.\<close>

definition append_file :: "io_outcome \<Rightarrow> bytes option \<Rightarrow> bytes \<Rightarrow> bytes option" where
  "append_file io f new =
     (case io of IO_open_fails \<Rightarrow> f
      | IO_write_fails k \<Rightarrow> Some (case_option [] id f @ take k new)
      | IO_ok \<Rightarrow> Some (case_option [] id f @ new))"

definition wal_dump :: "RaftLog \<Rightarrow> bytes" where
  "wal_dump l =
     concat (map (\<lambda>i. case raft_log_get l i of None \<Rightarrow> []
                   | Some e \<Rightarrow> raft_log_write_wal_record RAFT_WAL_ENTRY (wal_entry_payload e) (e_index e))
               [first_index l ..< Suc (last_index l)]) @
     raft_log_write_wal_record RAFT_WAL_COMMIT (le_bytes 8 (commit_index l)) (commit_index l)"

definition raft_log_persist :: "env \<Rightarrow> RaftLog \<Rightarrow> RaftLog" where
  "raft_log_persist ev l =
     (if \<not> persistence_enabled l \<or> wal_path l = None then l
      else let f = wal_files l (first_index l);
               new = (if f = None then raft_log_write_wal_header l (now ev) else []) @ wal_dump l
           in l\<lparr>wal_files := (wal_files l)(first_index l := append_file (disk ev) f new)\<rparr>)"

section \<open>Reading one record\<close>

definition raft_log_read_wal_record :: "bytes \<Rightarrow> ((nat \<times> nat \<times> bytes) \<times> bytes) option" where
  "raft_log_read_wal_record bs =
     (case take_bytes 24 bs of None \<Rightarrow> None
      | Some (h, bs1) \<Rightarrow>
          let ty = le_nat (take 4 h); size = le_nat (take 4 (drop 4 h));
              crc = le_nat (take 4 (drop 8 h)); index = le_nat (drop 16 h)
          in if size = 0 then Some ((ty, index, []), bs1)
             else (case take_bytes size bs1 of None \<Rightarrow> None
                   | Some (data, bs2) \<Rightarrow>
                       if unat (raft_log_compute_crc data) \<noteq> crc then None
                       else Some ((ty, index, data), bs2)))"

lemma length_wal_header [simp]: "length (raft_log_write_wal_header l t) = 32"
  by (simp add: raft_log_write_wal_header_def padding_def)

lemma read_wal_record_shorter:
  "raft_log_read_wal_record bs = Some (r, rest) \<Longrightarrow> length rest < length bs"
  by (auto simp: raft_log_read_wal_record_def take_bytes_def Let_def split: if_splits option.splits)

lemma read_write_wal_record [codec_simps]:
  assumes "length data < 4294967296" "is_u64 index"
  shows "raft_log_read_wal_record (raft_log_write_wal_record ty data index @ rest) =
           Some ((wal_type_code ty, index, data), rest)"
proof -
  have ty: "wal_type_code ty < 4294967296" by (cases ty) simp_all
  have crc: "unat (raft_log_compute_crc data) < 4294967296"
    using unsigned_less [of "raft_log_compute_crc data", where ?'a = nat] by simp
  show ?thesis
    using assms ty crc
    by (simp add: raft_log_read_wal_record_def raft_log_write_wal_record_def padding_def
        take_bytes_def Let_def le_nat_le_bytes)
qed

lemma persist_frame [frame_simps]:
  "entries (raft_log_persist ev l) = entries l"
  "first_index (raft_log_persist ev l) = first_index l"
  "last_index (raft_log_persist ev l) = last_index l"
  "commit_index (raft_log_persist ev l) = commit_index l"
  "last_applied (raft_log_persist ev l) = last_applied l"
  "capacity (raft_log_persist ev l) = capacity l"
  "persistence_enabled (raft_log_persist ev l) = persistence_enabled l"
  "wal_path (raft_log_persist ev l) = wal_path l"
  "snap_files (raft_log_persist ev l) = snap_files l"
  by (simp_all add: raft_log_persist_def Let_def)

lemma get_persist [frame_simps]: "raft_log_get (raft_log_persist ev l) = raft_log_get l"
  by (simp add: raft_log_get_def frame_simps fun_eq_iff)

lemma term_at_persist [frame_simps]: "raft_log_term_at (raft_log_persist ev l) = raft_log_term_at l"
  by (simp add: raft_log_term_at_def frame_simps fun_eq_iff)

end
