(* ===== verification/Raft_Log.thy ===== *)
theory Raft_Log
  imports Raft_WAL
begin

text \<open>
  The in-memory Raft log (\<^verbatim>\<open>consensus/raft_log.c\<close>): an array of entries that holds the indices
  \<^verbatim>\<open>first_index .. last_index\<close> from its first cell on, doubled on demand up to
  \<^verbatim>\<open>RAFT_MAX_LOG_ENTRIES\<close> cells. Operations that index the array outside its bounds give
  \<^const>\<open>None\<close>. The abstraction \<open>log_entries\<close> is the list of live entries; the interface
  \<open>indexed_log\<close> states what the consensus code relies on, and is interpreted on the operations
  below.
\<close>

section \<open>Operations\<close>

definition raft_log_init :: "string option \<Rightarrow> (nat \<Rightarrow> bytes option) \<Rightarrow> (nat \<Rightarrow> bytes option) \<Rightarrow> RaftLog" where
  "raft_log_init path wal snap =
     \<lparr>entries = replicate 1024 zero_entry, first_index = 1, last_index = 0, commit_index = 0,
      last_applied = 0, capacity = 1024, wal_path = path, persistence_enabled = (path \<noteq> None),
      wal_files = wal, snap_files = snap\<rparr>"

text \<open>The doubling loop. With \<^verbatim>\<open>capacity\<close> zero it would not end; \<^verbatim>\<open>raft_log_init\<close> starts at 1024.\<close>

function grow_capacity :: "nat \<Rightarrow> nat \<Rightarrow> nat" where
  "grow_capacity c needed = (if 0 < c \<and> c < needed then grow_capacity (2 * c) needed else c)"
  by pat_completeness auto
termination
  by (relation "measure (\<lambda>(c, needed). needed - c)") auto

declare grow_capacity.simps [simp del]

definition raft_log_ensure_capacity :: "RaftLog \<Rightarrow> nat \<Rightarrow> RaftLog" where
  "raft_log_ensure_capacity l needed =
     (if needed \<le> capacity l then l
      else let c = min (grow_capacity (capacity l) needed) RAFT_MAX_LOG_ENTRIES
           in l\<lparr>capacity := c,
                entries := take c (entries l) @ replicate (c - length (entries l)) zero_entry\<rparr>)"

definition copy_entry :: "int \<Rightarrow> nat \<Rightarrow> RaftLogEntry \<Rightarrow> RaftLogEntry" where
  "copy_entry t i src =
     \<lparr>e_index = i, e_term = e_term src, e_type = e_type src,
      command_size = (if command_size src > 0 \<and> command_data src \<noteq> None then command_size src else 0),
      command_data = (case command_data src of None \<Rightarrow> None
        | Some d \<Rightarrow> if command_size src > 0 then Some (take (nat (command_size src)) d) else None),
      created_at = (if created_at src \<noteq> 0 then created_at src else t)\<rparr>"

fun append_loop :: "int \<Rightarrow> RaftLog \<Rightarrow> nat \<Rightarrow> RaftLogEntry list \<Rightarrow> RaftLog option" where
  "append_loop t l i [] = Some l"
| "append_loop t l i (src # es) =
     (case array_store (entries l) (i - first_index l) (copy_entry t i src) of None \<Rightarrow> None
      | Some a \<Rightarrow> append_loop t (l\<lparr>entries := a\<rparr>) (Suc i) es)"

definition raft_log_append :: "env \<Rightarrow> RaftLog \<Rightarrow> RaftLogEntry list \<Rightarrow> RaftLog option" where
  "raft_log_append ev l es =
     (if es = [] then Some l
      else let l1 = raft_log_ensure_capacity l (last_index l + 1 - first_index l + length es)
           in (case append_loop (now ev) l1 (last_index l1 + 1) es of None \<Rightarrow> None
               | Some l2 \<Rightarrow>
                   let l3 = l2\<lparr>last_index := last_index l1 + length es\<rparr>
                   in Some (if persistence_enabled l3 then raft_log_persist ev l3 else l3)))"

definition raft_log_get_range :: "RaftLog \<Rightarrow> nat \<Rightarrow> nat \<Rightarrow> RaftLogEntry list option" where
  "raft_log_get_range l start_index end_index =
     (if start_index > end_index \<or> start_index < first_index l \<or> end_index > last_index l then None
      else those (map (raft_log_get l) [start_index ..< Suc end_index]))"

text \<open>Freeing the command data of the cells \<open>lo .. hi - 1\<close>.\<close>

definition free_data :: "nat \<Rightarrow> nat \<Rightarrow> RaftLogEntry list \<Rightarrow> RaftLogEntry list" where
  "free_data lo hi es =
     map (\<lambda>(k, e). if lo \<le> k \<and> k < hi then e\<lparr>command_data := None\<rparr> else e) (enumerate 0 es)"

definition raft_log_truncate :: "env \<Rightarrow> RaftLog \<Rightarrow> nat \<Rightarrow> RaftLog" where
  "raft_log_truncate ev l after_index =
     (if after_index \<ge> last_index l then l
      else if after_index < first_index l - 1 then l
      else let l1 = l\<lparr>entries := free_data (after_index + 1 - first_index l)
                          (last_index l + 1 - first_index l) (entries l),
                      last_index := after_index,
                      commit_index := (if commit_index l > after_index then after_index
                                       else commit_index l),
                      last_applied := (if last_applied l > after_index then after_index
                                       else last_applied l)\<rparr>
           in if persistence_enabled l1 then raft_log_persist ev l1 else l1)"

text \<open>When \<^verbatim>\<open>up_to_index\<close> ends up below \<open>first_index - 1\<close>, the unsigned count of entries to remove
  wraps around and the clearing loop leaves the array.\<close>

definition raft_log_compact :: "RaftLog \<Rightarrow> nat \<Rightarrow> RaftLog option" where
  "raft_log_compact l up_to_index =
     (if up_to_index < first_index l then Some l
      else let u1 = (if up_to_index > last_index l then last_index l else up_to_index);
               u2 = (if u1 > commit_index l then commit_index l else u1);
               u3 = (if u2 > last_applied l then last_applied l else u2)
           in if u3 + 1 < first_index l then None
              else let n = u3 + 1 - first_index l; remaining = last_index l - u3
                   in Some (l\<lparr>entries := take remaining (drop n (entries l)) @
                                replicate n zero_entry @ drop (remaining + n) (entries l),
                              first_index := u3 + 1\<rparr>))"

definition raft_log_get_stats :: "RaftLog \<Rightarrow> nat \<times> nat \<times> nat \<times> nat \<times> nat \<times> nat" where
  "raft_log_get_stats l =
     (first_index l, last_index l, commit_index l, last_applied l,
      (if last_index l \<ge> first_index l then last_index l - first_index l + 1 else 0), capacity l)"

section \<open>Abstraction and well-formedness\<close>

definition log_entries :: "RaftLog \<Rightarrow> RaftLogEntry list" where
  "log_entries l = take (last_index l + 1 - first_index l) (entries l)"

definition log_wf :: "RaftLog \<Rightarrow> bool" where
  "log_wf l \<longleftrightarrow>
     1 \<le> first_index l \<and> first_index l \<le> last_applied l + 1 \<and> last_applied l \<le> commit_index l \<and>
     commit_index l \<le> last_index l \<and> last_index l + 1 - first_index l \<le> capacity l \<and>
     length (entries l) = capacity l \<and> 0 < capacity l \<and> capacity l \<le> RAFT_MAX_LOG_ENTRIES \<and>
     (\<forall>k < last_index l + 1 - first_index l. e_index (entries l ! k) = first_index l + k)"

abbreviation log_length :: "RaftLog \<Rightarrow> nat" where
  "log_length l \<equiv> last_index l + 1 - first_index l"

lemma log_wf_bounds:
  assumes "log_wf l"
  shows "1 \<le> first_index l" "first_index l \<le> last_index l + 1" "commit_index l \<le> last_index l"
    "last_applied l \<le> commit_index l" "first_index l \<le> last_applied l + 1"
    "log_length l \<le> length (entries l)" "length (entries l) = capacity l" "0 < capacity l"
    "capacity l \<le> RAFT_MAX_LOG_ENTRIES"
  using assms by (auto simp: log_wf_def)

lemma length_log_entries [simp]: "log_wf l \<Longrightarrow> length (log_entries l) = log_length l"
  by (simp add: log_entries_def log_wf_def)

lemma log_wf_init [wf_intros]: "log_wf (raft_log_init path wal snap)"
  by (simp add: log_wf_def raft_log_init_def)

lemma log_wf_persist [wf_intros]: "log_wf l \<Longrightarrow> log_wf (raft_log_persist ev l)"
  by (simp add: log_wf_def frame_simps)

lemma log_entries_persist [frame_simps]: "log_entries (raft_log_persist ev l) = log_entries l"
  by (simp add: log_entries_def frame_simps)

lemma get_log_entries:
  assumes "log_wf l"
  shows "raft_log_get l i =
    (if first_index l \<le> i \<and> i < first_index l + length (log_entries l)
     then Some (log_entries l ! (i - first_index l)) else None)"
  using log_wf_bounds [OF assms] assms
  by (auto simp: raft_log_get_def log_entries_def)

section \<open>Growing the array\<close>

lemma grow_capacity_ge: "0 < c \<Longrightarrow> needed \<le> grow_capacity c needed \<and> c \<le> grow_capacity c needed"
proof (induction c needed rule: grow_capacity.induct)
  case (1 c needed)
  then show ?case by (cases "c < needed") (auto simp: grow_capacity.simps [of c needed])
qed

lemma ensure_capacity_frame [simp]:
  "first_index (raft_log_ensure_capacity l n) = first_index l"
  "last_index (raft_log_ensure_capacity l n) = last_index l"
  "commit_index (raft_log_ensure_capacity l n) = commit_index l"
  "last_applied (raft_log_ensure_capacity l n) = last_applied l"
  "persistence_enabled (raft_log_ensure_capacity l n) = persistence_enabled l"
  "wal_path (raft_log_ensure_capacity l n) = wal_path l"
  "wal_files (raft_log_ensure_capacity l n) = wal_files l"
  "snap_files (raft_log_ensure_capacity l n) = snap_files l"
  by (simp_all add: raft_log_ensure_capacity_def Let_def)

lemma ensure_capacity_spec:
  fixes needed :: nat
  assumes "log_wf l"
  defines "m \<equiv> raft_log_ensure_capacity l needed"
  shows "log_wf m" "min needed RAFT_MAX_LOG_ENTRIES \<le> length (entries m)"
    "log_entries m = log_entries l"
proof -
  note b = log_wf_bounds [OF assms(1)]
  have g: "needed \<le> grow_capacity (capacity l) needed \<and> capacity l \<le> grow_capacity (capacity l) needed"
    using grow_capacity_ge b(8) by blast
  have len: "length (entries m) = capacity m" "capacity l \<le> capacity m" "capacity m \<le> RAFT_MAX_LOG_ENTRIES"
    using b g by (auto simp: m_def raft_log_ensure_capacity_def Let_def)
  have cells: "\<forall>k < length (entries l). entries m ! k = entries l ! k"
    using b g by (auto simp: m_def raft_log_ensure_capacity_def Let_def nth_append)
  show wf: "log_wf m"
    using assms(1) len cells b unfolding log_wf_def by (auto simp: m_def)
  show "min needed RAFT_MAX_LOG_ENTRIES \<le> length (entries m)"
    using b g by (auto simp: m_def raft_log_ensure_capacity_def Let_def)
  show "log_entries m = log_entries l"
    using length_log_entries [OF wf] length_log_entries [OF assms(1)] cells b(6)
    by (intro nth_equalityI) (auto simp: log_entries_def m_def)
qed

section \<open>Appending\<close>

lemma append_loop_spec:
  assumes "first_index l \<le> i"
  shows "append_loop t l i es =
    (if es = [] \<or> i - first_index l + length es \<le> length (entries l)
     then Some (l\<lparr>entries := take (i - first_index l) (entries l) @
              map (\<lambda>(k, e). copy_entry t k e) (enumerate i es) @
              drop (i - first_index l + length es) (entries l)\<rparr>)
     else None)"
  using assms
proof (induction es arbitrary: l i)
  case Nil
  then show ?case by simp
next
  case (Cons e es)
  let ?j = "i - first_index l"
  show ?case
  proof (cases "?j < length (entries l)")
    case False
    then show ?thesis by (auto simp: array_store_def)
  next
    case True
    let ?l = "l\<lparr>entries := (entries l)[?j := copy_entry t i e]\<rparr>"
    have j: "Suc i - first_index l = Suc ?j" using Cons.prems by simp
    have drp: "drop (Suc ?j + length es) ((entries l)[?j := copy_entry t i e]) =
        drop (Suc ?j + length es) (entries l)"
      by simp
    have "append_loop t l i (e # es) = append_loop t ?l (Suc i) es"
      using True by (simp add: array_store_def)
    also have "\<dots> = (if es = [] \<or> Suc ?j + length es \<le> length (entries l)
       then Some (l\<lparr>entries := take (Suc ?j) ((entries l)[?j := copy_entry t i e]) @
              map (\<lambda>(k, e). copy_entry t k e) (enumerate (Suc i) es) @
              drop (Suc ?j + length es) (entries l)\<rparr>)
       else None)"
      using Cons.IH [of ?l "Suc i"] Cons.prems j by simp
    finally show ?thesis
      using True by (auto simp: take_Suc_update)
  qed
qed

text \<open>Writing entries with consecutive indices behind the live ones.\<close>

lemma log_entries_extend:
  assumes wf: "log_wf m" and fit: "log_length m + length new \<le> length (entries m)"
  defines "m' \<equiv> m\<lparr>entries := take (log_length m) (entries m) @ new @
                         drop (log_length m + length new) (entries m),
                  last_index := last_index m + length new\<rparr>"
  shows "log_entries m' = log_entries m @ new"
proof -
  have "last_index m + length new + 1 - first_index m = log_length m + length new"
    using log_wf_bounds [OF wf] by simp
  then show ?thesis using fit by (simp add: m'_def log_entries_def)
qed

lemma log_wf_extend:
  assumes wf: "log_wf m" and fit: "log_length m + length new \<le> length (entries m)"
    and idx: "\<And>k. k < length new \<Longrightarrow> e_index (new ! k) = last_index m + 1 + k"
  defines "m' \<equiv> m\<lparr>entries := take (log_length m) (entries m) @ new @
                         drop (log_length m + length new) (entries m),
                  last_index := last_index m + length new\<rparr>"
  shows "log_wf m'"
proof -
  note b = log_wf_bounds [OF wf]
  have len: "last_index m' + 1 - first_index m' = log_length m + length new"
    using b by (simp add: m'_def)
  have old: "e_index (entries m ! k) = first_index m + k" if "k < log_length m" for k
    using wf that by (simp add: log_wf_def)
  have "e_index (entries m' ! k) = first_index m' + k" if "k < log_length m + length new" for k
    using that old [of k] idx [of "k - log_length m"] fit b
    by (cases "k < log_length m") (auto simp: m'_def nth_append)
  then show ?thesis
    using b fit len unfolding log_wf_def by (auto simp: m'_def)
qed

lemma raft_log_append_spec:
  assumes wf: "log_wf l" and room: "log_length l + length es \<le> RAFT_MAX_LOG_ENTRIES"
  obtains l' where "raft_log_append ev l es = Some l'" "log_wf l'"
    "log_entries l' = log_entries l @
       map (\<lambda>(k, e). copy_entry (now ev) k e) (enumerate (last_index l + 1) es)"
    "first_index l' = first_index l" "last_index l' = last_index l + length es"
    "commit_index l' = commit_index l" "last_applied l' = last_applied l"
    "persistence_enabled l' = persistence_enabled l"
proof (cases "es = []")
  case True
  then show ?thesis using that [of l] wf by (simp add: raft_log_append_def)
next
  case False
  let ?m = "raft_log_ensure_capacity l (log_length l + length es)"
  let ?new = "map (\<lambda>(k, e). copy_entry (now ev) k e) (enumerate (last_index l + 1) es)"
  let ?l2 = "?m\<lparr>entries := take (log_length ?m) (entries ?m) @ ?new @
                         drop (log_length ?m + length ?new) (entries ?m)\<rparr>"
  let ?l3 = "?l2\<lparr>last_index := last_index ?m + length ?new\<rparr>"
  let ?r = "if persistence_enabled ?l3 then raft_log_persist ev ?l3 else ?l3"
  note ec = ensure_capacity_spec [OF wf, of "log_length l + length es"]
  have fit: "log_length ?m + length ?new \<le> length (entries ?m)"
    using ec(2) room by simp
  have loop: "append_loop (now ev) ?m (last_index ?m + 1) es = Some ?l2"
    using append_loop_spec [of ?m "last_index l + 1" "now ev" es] log_wf_bounds [OF wf] fit by simp
  have idx: "e_index (?new ! k) = last_index ?m + 1 + k" if "k < length ?new" for k
    using that by (simp add: nth_enumerate_eq copy_entry_def)
  have "log_wf ?l3" "log_entries ?l3 = log_entries l @ ?new"
    using log_wf_extend [OF ec(1) fit idx] log_entries_extend [OF ec(1) fit] ec(3) by simp_all
  then have r: "log_wf ?r" "log_entries ?r = log_entries l @ ?new"
    by (simp_all add: wf_intros frame_simps)
  have eq: "raft_log_append ev l es = Some ?r"
    using False loop by (simp add: raft_log_append_def Let_def)
  show ?thesis
    by (rule that [OF eq r]) (simp_all add: frame_simps)
qed

text \<open>An append that would need more cells than \<^verbatim>\<open>RAFT_MAX_LOG_ENTRIES\<close> writes outside the array.\<close>

lemma raft_log_append_overflow:
  assumes wf: "log_wf l" and over: "log_length l + length es > RAFT_MAX_LOG_ENTRIES" and "es \<noteq> []"
  shows "raft_log_append ev l es = None"
proof -
  let ?m = "raft_log_ensure_capacity l (log_length l + length es)"
  note b = log_wf_bounds [OF wf]
  have "length (entries ?m) \<le> RAFT_MAX_LOG_ENTRIES"
    using log_wf_bounds [OF ensure_capacity_spec(1) [OF wf]] by simp
  then show ?thesis
    using append_loop_spec [of ?m "last_index l + 1" "now ev" es] b over assms(3)
    by (simp add: raft_log_append_def Let_def)
qed

section \<open>Truncation\<close>

lemma length_free_data [simp]: "length (free_data lo hi es) = length es"
  by (simp add: free_data_def)

lemma nth_free_data:
  "k < length es \<Longrightarrow> free_data lo hi es ! k =
     (if lo \<le> k \<and> k < hi then (es ! k)\<lparr>command_data := None\<rparr> else es ! k)"
  by (simp add: free_data_def nth_enumerate_eq)

lemma take_free_data [simp]: "take lo (free_data lo hi es) = take lo es"
  by (rule nth_equalityI) (auto simp: nth_free_data)

lemma truncate_noop: "last_index l \<le> i \<Longrightarrow> raft_log_truncate ev l i = l"
  by (simp add: raft_log_truncate_def)

lemma raft_log_truncate_spec:
  assumes wf: "log_wf l" and i: "first_index l \<le> i + 1"
  shows "log_wf (raft_log_truncate ev l i)"
    "log_entries (raft_log_truncate ev l i) = take (i + 1 - first_index l) (log_entries l)"
    "first_index (raft_log_truncate ev l i) = first_index l"
    "last_index (raft_log_truncate ev l i) = min (last_index l) i"
    "commit_index (raft_log_truncate ev l i) = min (commit_index l) i"
    "last_applied (raft_log_truncate ev l i) = min (last_applied l) i"
proof -
  note b = log_wf_bounds [OF wf]
  let ?l1 = "l\<lparr>entries := free_data (i + 1 - first_index l) (log_length l) (entries l),
               last_index := i, commit_index := min (commit_index l) i,
               last_applied := min (last_applied l) i\<rparr>"
  have tr: "raft_log_truncate ev l i =
      (if persistence_enabled ?l1 then raft_log_persist ev ?l1 else ?l1)" if "i < last_index l"
    using that i by (simp add: raft_log_truncate_def Let_def min_def not_le)
  have wf1: "log_wf ?l1" if "i < last_index l"
    using wf i that b unfolding log_wf_def by (auto simp: nth_free_data)
  have e1: "log_entries ?l1 = take (i + 1 - first_index l) (log_entries l)" if "i < last_index l"
    using that by (simp add: log_entries_def min_absorb1 diff_le_mono)
  show "log_wf (raft_log_truncate ev l i)"
    by (cases "i < last_index l") (use tr wf wf1 in \<open>auto simp: truncate_noop wf_intros\<close>)
  show "log_entries (raft_log_truncate ev l i) = take (i + 1 - first_index l) (log_entries l)"
    by (cases "i < last_index l") (use tr e1 wf in \<open>auto simp: truncate_noop frame_simps\<close>)
  show "first_index (raft_log_truncate ev l i) = first_index l"
    "last_index (raft_log_truncate ev l i) = min (last_index l) i"
    "commit_index (raft_log_truncate ev l i) = min (commit_index l) i"
    "last_applied (raft_log_truncate ev l i) = min (last_applied l) i"
    using b by (cases "i < last_index l"; use tr in \<open>auto simp: truncate_noop frame_simps\<close>)+
qed

text \<open>Below the compacted prefix nothing is truncated, whatever the caller goes on to do.\<close>

lemma raft_log_truncate_refused: "i + 1 < first_index l \<Longrightarrow> raft_log_truncate ev l i = l"
  by (auto simp: raft_log_truncate_def)

section \<open>Compaction\<close>

lemma raft_log_compact_spec:
  assumes wf: "log_wf l"
  obtains l' where "raft_log_compact l u = Some l'" "log_wf l'"
    "log_entries l' = drop (first_index l' - first_index l) (log_entries l)"
    "first_index l' = (if u < first_index l then first_index l else min u (last_applied l) + 1)"
    "last_index l' = last_index l" "commit_index l' = commit_index l" "last_applied l' = last_applied l"
proof (cases "u < first_index l")
  case True
  then show ?thesis using that [of l] wf by (simp add: raft_log_compact_def)
next
  case False
  note b = log_wf_bounds [OF wf]
  define v where "v = min u (last_applied l)"
  define n where "n = v + 1 - first_index l"
  define r where "r = last_index l - v"
  let ?l' = "l\<lparr>entries := take r (drop n (entries l)) @ replicate n zero_entry @
                  drop (r + n) (entries l), first_index := v + 1\<rparr>"
  have v: "first_index l \<le> v + 1" "v \<le> last_index l" "v \<le> last_applied l"
    using False b by (auto simp: v_def)
  let ?u1 = "if u > last_index l then last_index l else u"
  let ?u2 = "if ?u1 > commit_index l then commit_index l else ?u1"
  have u3: "(if ?u2 > last_applied l then last_applied l else ?u2) = v"
    using b(3,4) by (simp add: v_def min_def)
  have c: "raft_log_compact l u = Some ?l'"
    unfolding raft_log_compact_def Let_def u3 n_def r_def using False v(1) by simp
  have sum: "n + r = log_length l" using v by (simp add: n_def r_def)
  have fits: "n + r \<le> length (entries l)" using sum b by simp
  have "log_entries ?l' = take r (drop n (entries l))"
    using fits v by (simp add: log_entries_def r_def)
  also have "\<dots> = drop n (log_entries l)"
    unfolding log_entries_def sum [symmetric] by (simp add: drop_take)
  finally have ents: "log_entries ?l' = drop n (log_entries l)" .
  have idx: "e_index (entries ?l' ! k) = v + 1 + k" if "k < r" for k
  proof -
    have "n + k < log_length l" using that sum by simp
    then have "e_index (entries l ! (n + k)) = first_index l + (n + k)"
      using wf by (simp add: log_wf_def)
    then show ?thesis using that fits v by (simp add: nth_append n_def)
  qed
  have "log_wf ?l'"
    unfolding log_wf_def
  proof (intro conjI allI impI)
    show "length (entries ?l') = capacity ?l'" using fits b by simp
    fix k assume "k < last_index ?l' + 1 - first_index ?l'"
    then show "e_index (entries ?l' ! k) = first_index ?l' + k" using idx [of k] by (simp add: r_def)
  qed (use b v sum in \<open>auto simp: r_def\<close>)
  then show ?thesis
    by (rule that [OF c]) (use False ents in \<open>simp_all add: n_def v_def\<close>)
qed

section \<open>The interface to the consensus code\<close>

text \<open>
  A log over the indices \<open>base l .. base l + length (ents l) - 1\<close>: lookups read the list, an append
  stores a copy under the next index or, when \<open>cap\<close> entries are held, is undefined; truncation
  keeps a prefix.
\<close>

locale indexed_log =
  fixes inv :: "'l \<Rightarrow> bool"
    and ents :: "'l \<Rightarrow> 'e list"
    and base :: "'l \<Rightarrow> nat"
    and get :: "'l \<Rightarrow> nat \<Rightarrow> 'e option"
    and app :: "'l \<Rightarrow> 'e \<Rightarrow> 'l option"
    and trunc :: "'l \<Rightarrow> nat \<Rightarrow> 'l"
    and cp :: "nat \<Rightarrow> 'e \<Rightarrow> 'e"
    and cap :: nat
  assumes get_ents: "inv l \<Longrightarrow> get l i =
      (if base l \<le> i \<and> i < base l + length (ents l) then Some (ents l ! (i - base l)) else None)"
    and app_some: "inv l \<Longrightarrow> length (ents l) < cap \<Longrightarrow>
      \<exists>l'. app l e = Some l' \<and> inv l' \<and> base l' = base l \<and>
           ents l' = ents l @ [cp (base l + length (ents l)) e]"
    and app_none: "inv l \<Longrightarrow> cap \<le> length (ents l) \<Longrightarrow> app l e = None"
    and trunc_inv: "inv l \<Longrightarrow> base l \<le> i + 1 \<Longrightarrow> inv (trunc l i)"
    and trunc_base: "inv l \<Longrightarrow> base l \<le> i + 1 \<Longrightarrow> base (trunc l i) = base l"
    and trunc_ents: "inv l \<Longrightarrow> base l \<le> i + 1 \<Longrightarrow> ents (trunc l i) = take (i + 1 - base l) (ents l)"
begin

lemma app_SomeD:
  assumes "inv l" "app l e = Some l'"
  shows "inv l'" "base l' = base l" "ents l' = ents l @ [cp (base l + length (ents l)) e]"
    "length (ents l) < cap"
proof -
  show cap: "length (ents l) < cap" using app_none [OF assms(1)] assms(2) by (cases "length (ents l) < cap") auto
  show "inv l'" "base l' = base l" "ents l' = ents l @ [cp (base l + length (ents l)) e]"
    using app_some [OF assms(1) cap, of e] assms(2) by auto
qed

lemma get_app:
  assumes "inv l" "app l e = Some l'"
  shows "get l' i = (if i = base l + length (ents l) then Some (cp i e) else get l i)"
  using app_SomeD [OF assms] assms(1) by (auto simp: get_ents nth_append)

lemma get_trunc:
  assumes "inv l" "base l \<le> i + 1"
  shows "get (trunc l i) j = (if j \<le> i then get l j else None)"
  using trunc_inv [OF assms] trunc_base [OF assms] trunc_ents [OF assms] assms by (auto simp: get_ents)

text \<open>Replacing the entry at \<open>i\<close> and everything behind it.\<close>

lemma get_overwrite:
  assumes "inv l" "base l \<le> i + 1" "i < base l + length (ents l)" "app (trunc l i) e = Some l'"
  shows "get l' j = (if j = i + 1 then Some (cp j e) else if j \<le> i then get l j else None)"
    "inv l'" "base l' = base l" "base l' + length (ents l') = i + 2"
proof -
  note t = trunc_inv [OF assms(1,2)] trunc_base [OF assms(1,2)] trunc_ents [OF assms(1,2)]
  have len: "base l + length (ents (trunc l i)) = i + 1" using t(3) assms(2,3) by simp
  show "get l' j = (if j = i + 1 then Some (cp j e) else if j \<le> i then get l j else None)"
    using get_app [OF t(1) assms(4), of j] get_trunc [OF assms(1,2)] len t(2) by simp
  show "inv l'" "base l' = base l" "base l' + length (ents l') = i + 2"
    using app_SomeD [OF t(1) assms(4)] len t(2) by simp_all
qed

end

interpretation lg: indexed_log log_wf log_entries first_index raft_log_get
  "\<lambda>l e. raft_log_append ev l [e]" "raft_log_truncate ev" "copy_entry (now ev)" RAFT_MAX_LOG_ENTRIES
  for ev
proof
  fix l :: RaftLog and e :: RaftLogEntry and i :: nat
  assume wf: "log_wf l"
  show "raft_log_get l i = (if first_index l \<le> i \<and> i < first_index l + length (log_entries l)
      then Some (log_entries l ! (i - first_index l)) else None)"
    using wf by (rule get_log_entries)
  show "\<exists>l'. raft_log_append ev l [e] = Some l' \<and> log_wf l' \<and> first_index l' = first_index l \<and>
      log_entries l' = log_entries l @ [copy_entry (now ev) (first_index l + length (log_entries l)) e]"
    if "length (log_entries l) < RAFT_MAX_LOG_ENTRIES"
    using that wf log_wf_bounds [OF wf]
    by (auto intro: raft_log_append_spec [OF wf, of "[e]" ev])
  show "raft_log_append ev l [e] = None" if "RAFT_MAX_LOG_ENTRIES \<le> length (log_entries l)"
    using that wf by (intro raft_log_append_overflow) auto
  assume i: "first_index l \<le> i + 1"
  note tr = raft_log_truncate_spec [OF wf i, of ev]
  show "log_wf (raft_log_truncate ev l i)" by (rule tr(1))
  show "first_index (raft_log_truncate ev l i) = first_index l" by (rule tr(3))
  show "log_entries (raft_log_truncate ev l i) = take (i + 1 - first_index l) (log_entries l)"
    by (rule tr(2))
qed

lemma term_at_outside:
  "i < first_index l \<or> last_index l < i \<Longrightarrow> raft_log_term_at l i = 0"
  by (auto simp: raft_log_term_at_def raft_log_get_def)

lemma get_range_spec:
  assumes wf: "log_wf l" and "first_index l \<le> a" "a \<le> b" "b \<le> last_index l"
  shows "raft_log_get_range l a b =
    Some (take (b + 1 - a) (drop (a - first_index l) (log_entries l)))"
proof -
  let ?r = "take (b + 1 - a) (drop (a - first_index l) (log_entries l))"
  have "map (raft_log_get l) [a ..< Suc b] = map Some ?r"
    using assms by (intro nth_equalityI) (auto simp: get_log_entries add.commute simp del: upt_Suc)
  moreover have "those (map Some xs) = Some xs" for xs :: "RaftLogEntry list"
    by (induction xs) simp_all
  ultimately show ?thesis using assms by (simp add: raft_log_get_range_def del: map_map upt_Suc)
qed

end
