(* ===== verification/Raft_Node.thy ===== *)
theory Raft_Node
  imports Raft_Log
begin

text \<open>
  A Raft node as it receives messages (\<^verbatim>\<open>consensus/raft.c\<close>): persistent term and vote, the role
  transitions, and the handlers of the RequestVote and AppendEntries calls. A handler takes the
  environment of the call and returns the new node with the response; the AppendEntries handler
  writes to the log array and is therefore partial. The theorems: terms never decrease, a vote is
  given at most once per term and only to a candidate whose log is at least as up to date, the log
  entries of a successful AppendEntries are those of the leader, and the state on disk mirrors the
  state in memory.
\<close>

section \<open>Persistent state\<close>

definition state_bytes :: "nat \<Rightarrow> int \<Rightarrow> bytes" where
  "state_bytes t v = le_bytes 8 t @ i32_bytes v"

text \<open>The file is opened for writing, which empties it, and both fields are written.\<close>

definition raft_persist_state :: "env \<Rightarrow> RaftNode \<Rightarrow> RaftNode" where
  "raft_persist_state ev n =
     n\<lparr>state_file := (case disk ev of IO_open_fails \<Rightarrow> state_file n
        | IO_write_fails k \<Rightarrow> Some (take k (state_bytes (current_term n) (voted_for n)))
        | IO_ok \<Rightarrow> Some (state_bytes (current_term n) (voted_for n)))\<rparr>"

text \<open>The fields are read one after the other straight into the node, so a file that ends after the
  term restores the term without the vote.\<close>

definition raft_load_state :: "RaftNode \<Rightarrow> RaftNode" where
  "raft_load_state n =
     (case state_file n of None \<Rightarrow> n
      | Some f \<Rightarrow>
          if length f < 8 then n
          else let n1 = n\<lparr>current_term := le_nat (take 8 f)\<rparr>
               in if length f < 12 then n1
                  else n1\<lparr>voted_for := i32_value (take 4 (drop 8 f))\<rparr>)"

section \<open>Role transitions\<close>

definition raft_random_election_timeout :: "env \<Rightarrow> int" where
  "raft_random_election_timeout ev =
     RAFT_ELECTION_TIMEOUT_MIN_MS +
     int (rand_value ev) mod (RAFT_ELECTION_TIMEOUT_MAX_MS - RAFT_ELECTION_TIMEOUT_MIN_MS)"

definition raft_reset_election_timeout :: "env \<Rightarrow> RaftNode \<Rightarrow> RaftNode" where
  "raft_reset_election_timeout ev n =
     n\<lparr>election_timeout := now ev + raft_random_election_timeout ev * 1000\<rparr>"

definition raft_become_follower :: "env \<Rightarrow> RaftNode \<Rightarrow> nat \<Rightarrow> RaftNode" where
  "raft_become_follower ev n t =
     raft_persist_state ev (raft_reset_election_timeout ev
       (n\<lparr>state := RAFT_STATE_FOLLOWER, is_leader := False, current_term := t, voted_for := -1\<rparr>))"

definition raft_become_candidate :: "env \<Rightarrow> RaftNode \<Rightarrow> RaftNode" where
  "raft_become_candidate ev n =
     raft_persist_state ev (raft_reset_election_timeout ev
       (n\<lparr>state := RAFT_STATE_CANDIDATE, is_leader := False, current_term := current_term n + 1,
          voted_for := node_id n, votes_received := 1, leader_id := -1,
          cluster := (cluster n)\<lparr>peers := map (\<lambda>p. p\<lparr>peer_vote_granted := False\<rparr>)
                                   (peers (cluster n))\<rparr>\<rparr>))"

section \<open>RequestVote\<close>

definition raft_is_log_up_to_date :: "RaftNode \<Rightarrow> nat \<Rightarrow> nat \<Rightarrow> bool" where
  "raft_is_log_up_to_date n llindex llterm =
     (let my_last_term = raft_log_term_at (log n) (last_index (log n));
          my_last_index = last_index (log n)
      in if llterm \<noteq> my_last_term then llterm > my_last_term else llindex \<ge> my_last_index)"

definition raft_request_vote ::
  "env \<Rightarrow> RaftNode \<Rightarrow> RequestVoteRequest \<Rightarrow> RaftNode \<times> RequestVoteResponse" where
  "raft_request_vote ev n rq =
     (if rv_term rq < current_term n
      then (n, \<lparr>rvr_term = current_term n, vote_granted = False, voter_id = node_id n\<rparr>)
      else let n1 = (if rv_term rq > current_term n then raft_become_follower ev n (rv_term rq) else n)
           in if (voted_for n1 = -1 \<or> voted_for n1 = candidate_id rq) \<and>
                 raft_is_log_up_to_date n1 (last_log_index rq) (last_log_term rq)
              then (raft_persist_state ev (raft_reset_election_timeout ev
                      (n1\<lparr>voted_for := candidate_id rq\<rparr>)),
                    \<lparr>rvr_term = current_term n1, vote_granted = True, voter_id = node_id n\<rparr>)
              else (n1, \<lparr>rvr_term = current_term n1, vote_granted = False, voter_id = node_id n\<rparr>))"

section \<open>AppendEntries\<close>

fun append_entries_loop :: "env \<Rightarrow> RaftLog \<Rightarrow> nat \<Rightarrow> RaftLogEntry list \<Rightarrow> RaftLog option" where
  "append_entries_loop ev l i [] = Some l"
| "append_entries_loop ev l i (e # es) =
     (if i \<le> last_index l \<and> raft_log_term_at l i = e_term e
      then append_entries_loop ev l (Suc i) es
      else let l1 = (if i \<le> last_index l then raft_log_truncate ev l (i - 1) else l)
           in (case raft_log_append ev l1 [e\<lparr>e_index := i\<rparr>] of None \<Rightarrow> None
               | Some l2 \<Rightarrow> append_entries_loop ev l2 (Suc i) es))"

definition raft_append_entries ::
  "env \<Rightarrow> RaftNode \<Rightarrow> AppendEntriesRequest \<Rightarrow> (RaftNode \<times> AppendEntriesResponse) option" where
  "raft_append_entries ev n rq =
     (if ae_term rq < current_term n
      then Some (n, \<lparr>aer_term = current_term n, aer_success = False, match_index = 0,
                     aer_node_id = node_id n\<rparr>)
      else
        let n1 = (if ae_term rq > current_term n \<or>
                     (ae_term rq = current_term n \<and> state n = RAFT_STATE_CANDIDATE)
                  then raft_become_follower ev n (ae_term rq) else n);
            n2 = (raft_reset_election_timeout ev n1)\<lparr>leader_id := ae_leader_id rq\<rparr>
        in if prev_log_index rq > 0 \<and>
              (prev_log_index rq > last_index (log n2) \<or>
               raft_log_term_at (log n2) (prev_log_index rq) \<noteq> prev_log_term rq)
           then Some (n2, \<lparr>aer_term = current_term n2, aer_success = False,
                           match_index = min (last_index (log n2)) (prev_log_index rq - 1),
                           aer_node_id = node_id n\<rparr>)
           else (case append_entries_loop ev (log n2) (prev_log_index rq + 1) (ae_entries rq) of
                   None \<Rightarrow> None
                 | Some l \<Rightarrow>
                     let l' = (if leader_commit rq > commit_index l
                               then l\<lparr>commit_index := min (leader_commit rq) (last_index l)\<rparr> else l)
                     in Some (n2\<lparr>log := l'\<rparr>,
                              \<lparr>aer_term = current_term n2, aer_success = True,
                               match_index = last_index l', aer_node_id = node_id n\<rparr>)))"

section \<open>Applying committed entries\<close>

definition apply_one :: "RaftNode \<Rightarrow> RaftNode" where
  "apply_one n =
     (let i = last_applied (log n) + 1; n1 = n\<lparr>log := (log n)\<lparr>last_applied := i\<rparr>\<rparr>
      in case raft_log_get (log n1) i of None \<Rightarrow> n1
         | Some e \<Rightarrow> if e_type e = RAFT_LOG_NOOP then n1
                      else if apply_callback n1 then n1\<lparr>applied := applied n1 @ [e]\<rparr> else n1)"

lemma apply_one_frame [simp]:
  "last_applied (log (apply_one n)) = last_applied (log n) + 1"
  "commit_index (log (apply_one n)) = commit_index (log n)"
  "raft_log_get (log (apply_one n)) = raft_log_get (log n)"
  "apply_callback (apply_one n) = apply_callback n"
  by (simp_all add: apply_one_def Let_def raft_log_get_def fun_eq_iff split: option.splits)

function raft_apply_committed_entries :: "RaftNode \<Rightarrow> RaftNode" where
  "raft_apply_committed_entries n =
     (if last_applied (log n) < commit_index (log n) then raft_apply_committed_entries (apply_one n)
      else n)"
  by pat_completeness auto
termination
  by (relation "measure (\<lambda>n. commit_index (log n) - last_applied (log n))") auto

declare raft_apply_committed_entries.simps [simp del]

section \<open>Accessors\<close>

definition raft_get_leader :: "RaftNode \<Rightarrow> int" where "raft_get_leader n = leader_id n"
definition raft_is_leader :: "RaftNode \<Rightarrow> bool" where "raft_is_leader n = is_leader n"
definition raft_get_term :: "RaftNode \<Rightarrow> nat" where "raft_get_term n = current_term n"
definition raft_is_committed :: "RaftNode \<Rightarrow> nat \<Rightarrow> bool" where
  "raft_is_committed n i = (i \<le> commit_index (log n))"

fun raft_state_name :: "RaftState \<Rightarrow> string" where
  "raft_state_name RAFT_STATE_FOLLOWER = ''follower''"
| "raft_state_name RAFT_STATE_CANDIDATE = ''candidate''"
| "raft_state_name RAFT_STATE_LEADER = ''leader''"

definition raft_get_stats :: "RaftNode \<Rightarrow> nat \<times> RaftState \<times> int \<times> nat \<times> nat" where
  "raft_get_stats n =
     (current_term n, state n, leader_id n, commit_index (log n), last_applied (log n))"

section \<open>Frame facts\<close>

lemma persist_state_frame [simp]:
  "current_term (raft_persist_state ev n) = current_term n"
  "voted_for (raft_persist_state ev n) = voted_for n"
  "log (raft_persist_state ev n) = log n"
  "state (raft_persist_state ev n) = state n"
  "node_id (raft_persist_state ev n) = node_id n"
  "leader_id (raft_persist_state ev n) = leader_id n"
  "cluster (raft_persist_state ev n) = cluster n"
  "is_leader (raft_persist_state ev n) = is_leader n"
  "votes_received (raft_persist_state ev n) = votes_received n"
  "running (raft_persist_state ev n) = running n"
  "applied (raft_persist_state ev n) = applied n"
  "election_timeout (raft_persist_state ev n) = election_timeout n"
  "last_heartbeat (raft_persist_state ev n) = last_heartbeat n"
  by (simp_all add: raft_persist_state_def)

lemma reset_timeout_frame [simp]:
  "current_term (raft_reset_election_timeout ev n) = current_term n"
  "voted_for (raft_reset_election_timeout ev n) = voted_for n"
  "log (raft_reset_election_timeout ev n) = log n"
  "state (raft_reset_election_timeout ev n) = state n"
  "node_id (raft_reset_election_timeout ev n) = node_id n"
  "leader_id (raft_reset_election_timeout ev n) = leader_id n"
  "cluster (raft_reset_election_timeout ev n) = cluster n"
  "is_leader (raft_reset_election_timeout ev n) = is_leader n"
  "votes_received (raft_reset_election_timeout ev n) = votes_received n"
  "running (raft_reset_election_timeout ev n) = running n"
  "applied (raft_reset_election_timeout ev n) = applied n"
  "state_file (raft_reset_election_timeout ev n) = state_file n"
  "last_heartbeat (raft_reset_election_timeout ev n) = last_heartbeat n"
  by (simp_all add: raft_reset_election_timeout_def)

lemma become_follower_fields [simp]:
  "current_term (raft_become_follower ev n t) = t"
  "voted_for (raft_become_follower ev n t) = -1"
  "log (raft_become_follower ev n t) = log n"
  "state (raft_become_follower ev n t) = RAFT_STATE_FOLLOWER"
  "node_id (raft_become_follower ev n t) = node_id n"
  "cluster (raft_become_follower ev n t) = cluster n"
  "is_leader (raft_become_follower ev n t) = False"
  "votes_received (raft_become_follower ev n t) = votes_received n"
  "running (raft_become_follower ev n t) = running n"
  "applied (raft_become_follower ev n t) = applied n"
  by (simp_all add: raft_become_follower_def)

lemma become_candidate_fields [simp]:
  "current_term (raft_become_candidate ev n) = current_term n + 1"
  "voted_for (raft_become_candidate ev n) = node_id n"
  "log (raft_become_candidate ev n) = log n"
  "state (raft_become_candidate ev n) = RAFT_STATE_CANDIDATE"
  "node_id (raft_become_candidate ev n) = node_id n"
  "is_leader (raft_become_candidate ev n) = False"
  "votes_received (raft_become_candidate ev n) = 1"
  "running (raft_become_candidate ev n) = running n"
  "quorum_size (cluster (raft_become_candidate ev n)) = quorum_size (cluster n)"
  "peers (cluster (raft_become_candidate ev n)) =
     map (\<lambda>p. p\<lparr>peer_vote_granted := False\<rparr>) (peers (cluster n))"
  by (simp_all add: raft_become_candidate_def)

section \<open>Durability\<close>

definition disk_ok :: "env \<Rightarrow> bool" where
  "disk_ok ev \<longleftrightarrow> disk ev = IO_ok"

definition mirrored :: "RaftNode \<Rightarrow> bool" where
  "mirrored n \<longleftrightarrow> state_file n = Some (state_bytes (current_term n) (voted_for n))"

lemma mirrored_persist [simp]: "disk_ok ev \<Longrightarrow> mirrored (raft_persist_state ev n)"
  by (simp add: mirrored_def raft_persist_state_def disk_ok_def)

lemma mirrored_become [simp]:
  "disk_ok ev \<Longrightarrow> mirrored (raft_become_follower ev n t)"
  "disk_ok ev \<Longrightarrow> mirrored (raft_become_candidate ev n)"
  by (simp_all add: raft_become_follower_def raft_become_candidate_def)

lemma mirrored_cong:
  "state_file m = state_file n \<Longrightarrow> current_term m = current_term n \<Longrightarrow> voted_for m = voted_for n \<Longrightarrow>
   mirrored m = mirrored n"
  by (simp add: mirrored_def)

lemma load_state_mirrored:
  assumes "state_file n = Some (state_bytes t v)" "is_u64 t" "is_i32 v"
  shows "raft_load_state n = n\<lparr>current_term := t, voted_for := v\<rparr>"
  using assms by (simp add: raft_load_state_def state_bytes_def codec_simps)

section \<open>Votes\<close>

lemma up_to_date_cong:
  "log m = log n \<Longrightarrow> raft_is_log_up_to_date m i t = raft_is_log_up_to_date n i t"
  by (simp add: raft_is_log_up_to_date_def)

lemma request_vote_cases [case_names stale reject grant]:
  assumes "raft_request_vote ev n rq = (n', rsp)"
  obtains "rv_term rq < current_term n" "n' = n" "\<not> vote_granted rsp" "rvr_term rsp = current_term n"
  | n1 where "current_term n \<le> rv_term rq"
      "n1 = (if rv_term rq > current_term n then raft_become_follower ev n (rv_term rq) else n)"
      "n' = n1" "\<not> vote_granted rsp" "rvr_term rsp = rv_term rq" "current_term n1 = rv_term rq"
  | n1 where "current_term n \<le> rv_term rq"
      "n1 = (if rv_term rq > current_term n then raft_become_follower ev n (rv_term rq) else n)"
      "voted_for n1 = -1 \<or> voted_for n1 = candidate_id rq"
      "raft_is_log_up_to_date n1 (last_log_index rq) (last_log_term rq)"
      "n' = raft_persist_state ev (raft_reset_election_timeout ev (n1\<lparr>voted_for := candidate_id rq\<rparr>))"
      "vote_granted rsp" "rvr_term rsp = rv_term rq" "current_term n1 = rv_term rq"
proof (cases "rv_term rq < current_term n")
  case True
  then show ?thesis by (intro that(1)) (use assms in \<open>auto simp: raft_request_vote_def\<close>)
next
  case False
  define n1 where "n1 = (if rv_term rq > current_term n then raft_become_follower ev n (rv_term rq) else n)"
  have t: "current_term n1 = rv_term rq" using False by (auto simp: n1_def)
  define c where "c \<longleftrightarrow> (voted_for n1 = -1 \<or> voted_for n1 = candidate_id rq) \<and>
                raft_is_log_up_to_date n1 (last_log_index rq) (last_log_term rq)"
  have eq: "raft_request_vote ev n rq =
      (if c then (raft_persist_state ev (raft_reset_election_timeout ev (n1\<lparr>voted_for := candidate_id rq\<rparr>)),
                  \<lparr>rvr_term = current_term n1, vote_granted = True, voter_id = node_id n\<rparr>)
       else (n1, \<lparr>rvr_term = current_term n1, vote_granted = False, voter_id = node_id n\<rparr>))"
    using False by (simp only: raft_request_vote_def Let_def n1_def c_def if_False)
  show ?thesis
  proof (cases c)
    case True
    then show ?thesis using that(3) [OF _ n1_def] eq False t assms by (simp add: c_def)
  next
    case no: False
    then show ?thesis using that(2) [OF _ n1_def] eq False t assms by simp
  qed
qed

lemma request_vote_frame:
  assumes "raft_request_vote ev n rq = (n', rsp)"
  shows "log n' = log n" "node_id n' = node_id n" "cluster n' = cluster n"
    "current_term n' = max (current_term n) (rv_term rq)"
    "running n' = running n" "votes_received n' = votes_received n"
  by (cases rule: request_vote_cases [OF assms]; auto split: if_splits)+

lemma request_vote_same_term:
  assumes h: "raft_request_vote ev n rq = (n', rsp)" and t: "current_term n' = current_term n"
  shows "state n' = state n" "is_leader n' = is_leader n"
    "voted_for n \<noteq> -1 \<Longrightarrow> voted_for n' = voted_for n"
proof -
  have le: "\<not> rv_term rq > current_term n" using request_vote_frame(4) [OF h] t by simp
  show "state n' = state n" "is_leader n' = is_leader n"
    "voted_for n \<noteq> -1 \<Longrightarrow> voted_for n' = voted_for n"
    by (cases rule: request_vote_cases [OF h]; use le in auto)+
qed

lemma request_vote_granted:
  assumes "raft_request_vote ev n rq = (n', rsp)" "vote_granted rsp"
  shows "current_term n' = rv_term rq" "voted_for n' = candidate_id rq" "rvr_term rsp = rv_term rq"
    "current_term n \<le> rv_term rq"
    "current_term n = rv_term rq \<Longrightarrow> voted_for n = -1 \<or> voted_for n = candidate_id rq"
    "raft_is_log_up_to_date n (last_log_index rq) (last_log_term rq)"
  using assms(2) up_to_date_cong [OF become_follower_fields(3), of ev n "rv_term rq"]
  by (cases rule: request_vote_cases [OF assms(1)]; simp split: if_splits)+

lemma mirrored_request_vote:
  assumes "raft_request_vote ev n rq = (n', rsp)" "disk_ok ev" "mirrored n"
  shows "mirrored n'"
  by (cases rule: request_vote_cases [OF assms(1)]) (use assms(2,3) in auto)

text \<open>A node that answers a sequence of vote requests.\<close>

fun vote_run :: "RaftNode \<Rightarrow> (env \<times> RequestVoteRequest) list \<Rightarrow>
    RaftNode \<times> (RequestVoteRequest \<times> RequestVoteResponse) list" where
  "vote_run n [] = (n, [])"
| "vote_run n ((ev, rq) # rqs) =
     (let (n1, rsp) = raft_request_vote ev n rq; (n2, out) = vote_run n1 rqs in (n2, (rq, rsp) # out))"

lemma vote_run_granted:
  assumes "vote_run n rqs = (n', out)" "(rq, rsp) \<in> set out" "vote_granted rsp"
  shows "current_term n \<le> rv_term rq \<and>
    (rv_term rq = current_term n \<longrightarrow> voted_for n = -1 \<or> voted_for n = candidate_id rq)"
  using assms
proof (induction rqs arbitrary: n n' out)
  case Nil
  then show ?case by simp
next
  case (Cons x rqs)
  obtain ev rq0 where x: "x = (ev, rq0)" by (cases x)
  obtain n1 rsp0 where h: "raft_request_vote ev n rq0 = (n1, rsp0)" by fastforce
  obtain n2 out0 where r: "vote_run n1 rqs = (n2, out0)" by fastforce
  have out: "out = (rq0, rsp0) # out0" using Cons.prems(1) h r x by simp
  show ?case
  proof (cases "(rq, rsp) \<in> set out0")
    case False
    then show ?thesis
      using Cons.prems(2,3) out request_vote_granted(4,5) [OF h] by auto
  next
    case True
    note IH = Cons.IH [OF r True Cons.prems(3)]
    show ?thesis
      using IH request_vote_frame(4) [OF h] request_vote_same_term(3) [OF h] by fastforce
  qed
qed

section \<open>AppendEntries\<close>

text \<open>
  What the handler's loop does to the part of the log from the first sent index on: entries whose
  terms agree are kept, and from the first disagreement on the local entries are replaced.
\<close>

fun merge_entries :: "int \<Rightarrow> nat \<Rightarrow> RaftLogEntry list \<Rightarrow> RaftLogEntry list \<Rightarrow> RaftLogEntry list" where
  "merge_entries t i xs [] = xs"
| "merge_entries t i [] (e # es) = copy_entry t i e # merge_entries t (Suc i) [] es"
| "merge_entries t i (x # xs) (e # es) =
     (if e_term x = e_term e then x # merge_entries t (Suc i) xs es
      else copy_entry t i e # merge_entries t (Suc i) [] es)"

lemma length_merge_entries: "length (merge_entries t i xs es) \<le> max (length xs) (length es)"
  "length es \<le> length (merge_entries t i xs es)"
  by (induction t i xs es rule: merge_entries.induct) auto

lemma merge_entries_terms:
  "k < length es \<Longrightarrow> e_term (merge_entries t i xs es ! k) = e_term (es ! k)"
  by (induction t i xs es arbitrary: k rule: merge_entries.induct)
    (auto simp: nth_Cons copy_entry_def split: nat.splits)

lemma merge_entries_agree:
  assumes "length es \<le> length xs" "\<And>k. k < length es \<Longrightarrow> e_term (xs ! k) = e_term (es ! k)"
  shows "merge_entries t i xs es = xs"
  using assms by (induction t i xs es rule: merge_entries.induct) (fastforce simp: nth_Cons)+

lemma copy_entry_index [simp]: "copy_entry t i (e\<lparr>e_index := j\<rparr>) = copy_entry t i e"
  by (simp add: copy_entry_def split: option.splits)

lemma term_at_entries:
  assumes "log_wf l" "first_index l \<le> i" "i \<le> last_index l"
  shows "raft_log_term_at l i = e_term (log_entries l ! (i - first_index l))"
  using assms log_wf_bounds(1) [OF assms(1)] by (simp add: raft_log_term_at_def get_log_entries)

definition ae_post :: "env \<Rightarrow> RaftLog \<Rightarrow> nat \<Rightarrow> RaftLogEntry list \<Rightarrow> RaftLog \<Rightarrow> bool" where
  "ae_post ev l i es l' \<longleftrightarrow>
     log_wf l' \<and> first_index l' = first_index l \<and>
     log_entries l' = take (i - first_index l) (log_entries l) @
       merge_entries (now ev) i (drop (i - first_index l) (log_entries l)) es \<and>
     (commit_index l' = commit_index l \<or>
      (\<exists>k < length es. i + k \<le> commit_index l \<and> commit_index l' + 1 = i + k \<and>
         raft_log_term_at l (i + k) \<noteq> e_term (es ! k)))"

text \<open>Storing one entry at index \<open>i\<close>, after cutting off what conflicts.\<close>

lemma append_entries_store:
  fixes ev :: env
  assumes wf: "log_wf l" and i: "first_index l \<le> i" "i \<le> last_index l + 1"
    and room: "i - first_index l < RAFT_MAX_LOG_ENTRIES"
  defines "l1 \<equiv> (if i \<le> last_index l then raft_log_truncate ev l (i - 1) else l)"
  obtains l2 where "raft_log_append ev l1 [e] = Some l2" "log_wf l2"
    "log_entries l2 = take (i - first_index l) (log_entries l) @ [copy_entry (now ev) i e]"
    "first_index l2 = first_index l" "last_index l2 = i" "commit_index l2 = min (commit_index l) (i - 1)"
proof -
  note b = log_wf_bounds [OF wf]
  have i': "first_index l \<le> (i - 1) + 1" using i b(1) by simp
  note tr = raft_log_truncate_spec [OF wf i', of ev]
  have l1: "log_wf l1" "log_entries l1 = take (i - first_index l) (log_entries l)"
    "first_index l1 = first_index l" "last_index l1 = i - 1" "commit_index l1 = min (commit_index l) (i - 1)"
    using tr i b wf by (auto simp: l1_def)
  have "log_length l1 + length [e] \<le> RAFT_MAX_LOG_ENTRIES" using l1 i b room by simp
  then show ?thesis
    by (rule raft_log_append_spec [OF l1(1), of "[e]" ev]) (use that l1 i b in auto)
qed

lemma append_entries_loop_spec:
  assumes "log_wf l" "first_index l \<le> i" "i \<le> last_index l + 1"
    and "i - first_index l + length es \<le> RAFT_MAX_LOG_ENTRIES"
  shows "\<exists>l'. append_entries_loop ev l i es = Some l' \<and> ae_post ev l i es l'"
  using assms
proof (induction es arbitrary: l i)
  case Nil
  then show ?case by (simp add: ae_post_def)
next
  case (Cons e es)
  note wf = Cons.prems(1) and i = Cons.prems(2,3)
  let ?k = "i - first_index l"
  have room: "Suc i - first_index l + length es \<le> RAFT_MAX_LOG_ENTRIES"
    using i(1) Cons.prems(4) by (simp add: Suc_diff_le)
  show ?case
  proof (cases "i \<le> last_index l \<and> raft_log_term_at l i = e_term e")
    case True
    have k: "?k < length (log_entries l)" using True wf i by simp linarith
    obtain l' where l': "append_entries_loop ev l (Suc i) es = Some l'" "ae_post ev l (Suc i) es l'"
      using Cons.IH [OF wf _ _ room] i True by auto
    have "log_entries l' = take ?k (log_entries l) @
        merge_entries (now ev) i (drop ?k (log_entries l)) (e # es)"
      using l'(2) True term_at_entries [OF wf i(1)] i(1) k
      by (simp add: ae_post_def Cons_nth_drop_Suc [symmetric] Suc_diff_le take_Suc_conv_app_nth)
    moreover have "commit_index l' = commit_index l \<or>
      (\<exists>k < length (e # es). i + k \<le> commit_index l \<and> commit_index l' + 1 = i + k \<and>
         raft_log_term_at l (i + k) \<noteq> e_term ((e # es) ! k))"
      using l'(2) by (force simp: ae_post_def)
    ultimately show ?thesis using l' True by (simp add: ae_post_def)
  next
    case False
    obtain l2 where l2: "raft_log_append ev
        (if i \<le> last_index l then raft_log_truncate ev l (i - 1) else l) [e\<lparr>e_index := i\<rparr>] = Some l2"
      "log_wf l2" "log_entries l2 = take ?k (log_entries l) @ [copy_entry (now ev) i e]"
      "first_index l2 = first_index l" "last_index l2 = i" "commit_index l2 = min (commit_index l) (i - 1)"
      using append_entries_store [OF wf i, of ev "e\<lparr>e_index := i\<rparr>"] Cons.prems(4) by auto
    obtain l' where l': "append_entries_loop ev l2 (Suc i) es = Some l'" "ae_post ev l2 (Suc i) es l'"
      using Cons.IH [of l2 "Suc i"] l2 i room by auto
    have len: "length (log_entries l2) = Suc ?k"
      using length_log_entries [OF l2(2)] l2(4,5) i(1) by (simp add: Suc_diff_le)
    have "merge_entries (now ev) i (drop ?k (log_entries l)) (e # es) =
        copy_entry (now ev) i e # merge_entries (now ev) (Suc i) [] es"
    proof (cases "drop ?k (log_entries l)")
      case (Cons x xs)
      then have "?k < length (log_entries l)" "x = log_entries l ! ?k"
        by (metis drop_eq_Nil2 linorder_not_le list.distinct(1), metis nth_via_drop)
      then have "e_term x \<noteq> e_term e" using False wf i term_at_entries [OF wf i(1)] by auto
      then show ?thesis using Cons by simp
    qed simp
    then have "log_entries l' = take ?k (log_entries l) @
        merge_entries (now ev) i (drop ?k (log_entries l)) (e # es)"
      using l'(2) l2 len i by (simp add: ae_post_def Suc_diff_le)
    moreover have "commit_index l' = min (commit_index l) (i - 1)"
      using l'(2) l2(6) by (auto simp: ae_post_def)
    ultimately have "ae_post ev l i (e # es) l'"
      using l'(2) l2(4) i False log_wf_bounds(1,3) [OF wf] by (force simp: ae_post_def min_def)
    then show ?thesis using l'(1) l2(1) False by (auto simp: Let_def)
  qed
qed

text \<open>The handler when the request is current and the log holds the preceding entry.\<close>

definition ae_accepts :: "RaftNode \<Rightarrow> AppendEntriesRequest \<Rightarrow> bool" where
  "ae_accepts n rq \<longleftrightarrow>
     current_term n \<le> ae_term rq \<and>
     (prev_log_index rq = 0 \<or>
      prev_log_index rq \<le> last_index (log n) \<and>
      raft_log_term_at (log n) (prev_log_index rq) = prev_log_term rq)"

lemma append_entries_frame:
  assumes "raft_append_entries ev n rq = Some (n', rsp)"
  shows "node_id n' = node_id n" "cluster n' = cluster n" "running n' = running n"
    "current_term n' = max (current_term n) (ae_term rq)" "aer_success rsp = ae_accepts n rq"
    "aer_term rsp = current_term n'" "votes_received n' = votes_received n"
    "ae_term rq < current_term n \<Longrightarrow> n' = n"
    "current_term n' = current_term n \<Longrightarrow> state n \<noteq> RAFT_STATE_CANDIDATE \<Longrightarrow>
       state n' = state n \<and> voted_for n' = voted_for n \<and> is_leader n' = is_leader n"
    "current_term n' \<noteq> current_term n \<or> state n = RAFT_STATE_CANDIDATE \<and> ae_term rq = current_term n
       \<Longrightarrow> state n' = RAFT_STATE_FOLLOWER \<and> voted_for n' = -1 \<and> \<not> is_leader n'"
  using assms
  by (auto simp: raft_append_entries_def ae_accepts_def Let_def split: if_splits option.splits)

lemma append_entries_log:
  assumes "ae_accepts n rq"
  shows "map_option (\<lambda>(n', rsp). (log n', match_index rsp)) (raft_append_entries ev n rq) =
    map_option (\<lambda>l. let l' = (if leader_commit rq > commit_index l
                              then l\<lparr>commit_index := min (leader_commit rq) (last_index l)\<rparr> else l)
                     in (l', last_index l'))
      (append_entries_loop ev (log n) (prev_log_index rq + 1) (ae_entries rq))"
  using assms
  by (auto simp: raft_append_entries_def ae_accepts_def Let_def split: option.splits)

lemma append_entries_rejected_log:
  "\<not> ae_accepts n rq \<Longrightarrow> raft_append_entries ev n rq = Some (n', rsp) \<Longrightarrow> log n' = log n"
  by (auto simp: raft_append_entries_def ae_accepts_def Let_def split: if_splits option.splits)

lemma append_entries_accepted:
  assumes wf: "log_wf (log n)" and acc: "ae_accepts n rq"
    and first: "first_index (log n) \<le> prev_log_index rq + 1"
    and room: "prev_log_index rq + 1 - first_index (log n) + length (ae_entries rq) \<le> RAFT_MAX_LOG_ENTRIES"
  obtains n' rsp l where "raft_append_entries ev n rq = Some (n', rsp)" "aer_success rsp"
    "ae_post ev (log n) (prev_log_index rq + 1) (ae_entries rq) l"
    "log n' = (if leader_commit rq > commit_index l
               then l\<lparr>commit_index := min (leader_commit rq) (last_index l)\<rparr> else l)"
    "match_index rsp = last_index l" "log_wf (log n')"
proof -
  have i: "prev_log_index rq + 1 \<le> last_index (log n) + 1" using acc by (auto simp: ae_accepts_def)
  obtain l where l: "append_entries_loop ev (log n) (prev_log_index rq + 1) (ae_entries rq) = Some l"
    "ae_post ev (log n) (prev_log_index rq + 1) (ae_entries rq) l"
    using append_entries_loop_spec [OF wf first i room] by blast
  let ?l' = "if leader_commit rq > commit_index l
             then l\<lparr>commit_index := min (leader_commit rq) (last_index l)\<rparr> else l"
  have "log_wf l" using l(2) by (simp add: ae_post_def)
  then have wf': "log_wf ?l'" by (auto simp: log_wf_def)
  obtain n' rsp where r: "raft_append_entries ev n rq = Some (n', rsp)" "log n' = ?l'"
    "match_index rsp = last_index l"
    using append_entries_log [OF acc, of ev] l(1)
    by (cases "raft_append_entries ev n rq") (auto simp: Let_def split: if_splits)
  show ?thesis
    by (rule that [OF r(1) _ l(2) r(2,3)]) (use acc append_entries_frame(5) [OF r(1)] wf' r(2) in simp_all)
qed

lemma ae_post_get:
  assumes wf: "log_wf l" and post: "ae_post ev l i es l'" and i: "first_index l \<le> i" "i \<le> last_index l + 1"
  shows "j < i \<Longrightarrow> raft_log_get l' j = raft_log_get l j"
    "k < length es \<Longrightarrow> raft_log_term_at l' (i + k) = e_term (es ! k)"
    "i + length es \<le> last_index l' + 1"
proof -
  let ?k = "i - first_index l"
  let ?m = "merge_entries (now ev) i (drop ?k (log_entries l)) es"
  have wf': "log_wf l'" and f: "first_index l' = first_index l"
    and e: "log_entries l' = take ?k (log_entries l) @ ?m"
    using post by (simp_all add: ae_post_def)
  have k: "length (take ?k (log_entries l)) = ?k" using wf i by simp
  have len: "last_index l' + 1 = i + length ?m"
    using length_log_entries [OF wf'] log_wf_bounds(2) [OF wf'] e k f i(1) by simp
  show "i + length es \<le> last_index l' + 1"
    using len length_merge_entries(2) [of es "now ev" i "drop ?k (log_entries l)"] by simp
  show "raft_log_get l' j = raft_log_get l j" if "j < i"
    using that f e k i wf wf' len
    by (auto simp: get_log_entries nth_append)
  show "raft_log_term_at l' (i + k) = e_term (es ! k)" if "k < length es"
  proof -
    have km: "k < length ?m"
      using that length_merge_entries(2) [of es "now ev" i "drop ?k (log_entries l)"] by linarith
    have "i + k \<le> last_index l'" using len km by simp
    then have "raft_log_term_at l' (i + k) = e_term (log_entries l' ! (i + k - first_index l))"
      using term_at_entries [OF wf'] f i(1) by simp
    also have "i + k - first_index l = length (take ?k (log_entries l)) + k" using k i(1) by simp
    finally show ?thesis unfolding e nth_append_length_plus using merge_entries_terms [OF that] by simp
  qed
qed

text \<open>Entries that agree with the committed prefix leave it in place.\<close>

lemma merge_entries_prefix:
  assumes "\<And>k. k < length es \<Longrightarrow> k < m \<Longrightarrow> e_term (xs ! k) = e_term (es ! k)" "m \<le> length xs"
  shows "take m (merge_entries t i xs es) = take m xs"
  using assms
proof (induction t i xs es arbitrary: m rule: merge_entries.induct)
  case (3 t i x xs e es)
  show ?case
  proof (cases m)
    case (Suc m')
    have "e_term x = e_term e" using "3.prems"(1) [of 0] Suc by simp
    moreover have "take m' (merge_entries t (Suc i) xs es) = take m' xs"
    proof (rule "3.IH"(1) [OF \<open>e_term x = e_term e\<close>])
      show "e_term (xs ! k) = e_term (es ! k)" if "k < length es" "k < m'" for k
        using "3.prems"(1) [of "Suc k"] that Suc by simp
      show "m' \<le> length xs" using "3.prems"(2) Suc by simp
    qed
    ultimately show ?thesis using Suc by simp
  qed simp
qed simp_all

lemma get_prefix_cong:
  assumes wf: "log_wf l" and wf': "log_wf l'" and f: "first_index l' = first_index l"
    and pfx: "take (c + 1 - first_index l) (log_entries l') = take (c + 1 - first_index l) (log_entries l)"
    and "j \<le> c"
  shows "raft_log_get l' j = raft_log_get l j"
proof (cases "first_index l \<le> j")
  case True
  let ?m = "c + 1 - first_index l" and ?j = "j - first_index l"
  have j: "?j < ?m" using True \<open>j \<le> c\<close> by simp
  have len: "min (length (log_entries l')) ?m = min (length (log_entries l)) ?m"
    using arg_cong [OF pfx, of length] by simp
  have "log_entries l' ! ?j = log_entries l ! ?j"
    using arg_cong [OF pfx, of "\<lambda>xs. xs ! ?j"] j by simp
  moreover have "?j < length (log_entries l') \<longleftrightarrow> ?j < length (log_entries l)"
    using len j by linarith
  ultimately show ?thesis
    using True f by (simp add: get_log_entries [OF wf] get_log_entries [OF wf'] less_diff_conv2 add.commute)
qed (use f in \<open>simp add: raft_log_get_def\<close>)

lemma ae_post_committed:
  assumes wf: "log_wf l" and post: "ae_post ev l i es l'" and i: "first_index l \<le> i" "i \<le> last_index l + 1"
    and agree: "\<forall>k < length es. i + k \<le> commit_index l \<longrightarrow> raft_log_term_at l (i + k) = e_term (es ! k)"
  shows "commit_index l \<le> commit_index l'"
    "j \<le> commit_index l \<Longrightarrow> raft_log_get l' j = raft_log_get l j"
proof -
  let ?k = "i - first_index l" and ?c = "commit_index l + 1 - i"
  let ?xs = "drop ?k (log_entries l)"
  note b = log_wf_bounds [OF wf]
  have wf': "log_wf l'" and f: "first_index l' = first_index l"
    and e: "log_entries l' = take ?k (log_entries l) @ merge_entries (now ev) i ?xs es"
    using post by (simp_all add: ae_post_def)
  have len: "?c \<le> length ?xs" using wf b i by simp
  have "e_term (?xs ! k) = e_term (es ! k)" if "k < length es" "k < ?c" for k
  proof -
    have ik: "i + k \<le> commit_index l" using that(2) by simp
    have "e_term (log_entries l ! (i + k - first_index l)) = e_term (es ! k)"
      using agree that(1) ik term_at_entries [OF wf, of "i + k"] b i by simp
    moreover have "?xs ! k = log_entries l ! (i + k - first_index l)"
      using i len that(2) by simp
    ultimately show ?thesis by simp
  qed
  then have pre: "take ?c (merge_entries (now ev) i ?xs es) = take ?c ?xs"
    using merge_entries_prefix len by blast
  let ?m = "commit_index l + 1 - first_index l"
  have k: "length (take ?k (log_entries l)) = ?k" using wf i by simp
  have c: "?m - ?k = ?c" using i(1) by simp
  have "take ?m (log_entries l') = take ?m (take ?k (log_entries l) @ ?xs)"
    unfolding e take_append k c pre ..
  then have pfx: "take ?m (log_entries l') = take ?m (log_entries l)" by simp
  show "raft_log_get l' j = raft_log_get l j" if "j \<le> commit_index l"
    by (rule get_prefix_cong [OF wf wf' f pfx that])
  show "commit_index l \<le> commit_index l'"
    using post agree by (auto simp: ae_post_def)
qed

section \<open>Applying committed entries\<close>

definition committed_commands :: "RaftNode \<Rightarrow> RaftLogEntry list" where
  "committed_commands n =
     filter (\<lambda>e. e_type e \<noteq> RAFT_LOG_NOOP)
       (List.map_filter (raft_log_get (log n)) [last_applied (log n) + 1 ..< commit_index (log n) + 1])"

lemma apply_committed_spec:
  assumes "apply_callback n" "last_applied (log n) \<le> commit_index (log n)"
  shows "applied (raft_apply_committed_entries n) = applied n @ committed_commands n"
    "log (raft_apply_committed_entries n) = (log n)\<lparr>last_applied := commit_index (log n)\<rparr>"
  using assms
proof (induction n rule: raft_apply_committed_entries.induct)
  case (1 n)
  {
    case 1
    show ?case
    proof (cases "last_applied (log n) < commit_index (log n)")
      case True
      have "committed_commands n = (case raft_log_get (log n) (last_applied (log n) + 1) of None \<Rightarrow> []
           | Some e \<Rightarrow> if e_type e = RAFT_LOG_NOOP then [] else [e]) @ committed_commands (apply_one n)"
        using True by (simp add: committed_commands_def upt_conv_Cons map_filter_simps del: upt_Suc
            split: option.split)
      moreover have "applied (apply_one n) = applied n @
          (case raft_log_get (log n) (last_applied (log n) + 1) of None \<Rightarrow> []
           | Some e \<Rightarrow> if e_type e = RAFT_LOG_NOOP then [] else [e])"
        using 1(1) by (simp add: apply_one_def Let_def raft_log_get_def split: option.split)
      ultimately show ?thesis
        using "1.IH"(1) [OF True] True 1 by (simp add: raft_apply_committed_entries.simps [of n])
    next
      case False
      then show ?thesis
        by (simp add: raft_apply_committed_entries.simps [of n] committed_commands_def map_filter_simps)
    qed
  next
    case 2
    have "log (apply_one n) = (log n)\<lparr>last_applied := last_applied (log n) + 1\<rparr>"
      by (simp add: apply_one_def Let_def split: option.split)
    then show ?case
      using "1.IH"(2) 2 by (auto simp: raft_apply_committed_entries.simps [of n])
  }
qed

section \<open>Sample states\<close>

text \<open>Small concrete nodes for the instances below: no files, the given entries, all of them live.\<close>

definition sample_entry :: "nat \<Rightarrow> nat \<Rightarrow> RaftLogEntry" where
  "sample_entry i t = \<lparr>e_index = i, e_term = t, e_type = RAFT_LOG_COMMAND, command_size = 1,
     command_data = Some [7], created_at = 5\<rparr>"

definition sample_log :: "nat \<Rightarrow> nat list \<Rightarrow> nat \<Rightarrow> RaftLog" where
  "sample_log first ts c =
     \<lparr>entries = map (\<lambda>(i, t). sample_entry i t) (enumerate first ts) @ [zero_entry],
      first_index = first, last_index = first + length ts - 1, commit_index = c, last_applied = c,
      capacity = length ts + 1, wal_path = None, persistence_enabled = False,
      wal_files = (\<lambda>_. None), snap_files = (\<lambda>_. None)\<rparr>"

definition sample_node :: "int \<Rightarrow> nat \<Rightarrow> RaftLog \<Rightarrow> RaftNode" where
  "sample_node me t l =
     \<lparr>current_term = t, voted_for = -1, log = l, state = RAFT_STATE_FOLLOWER, node_id = me,
      leader_id = -1, cluster = \<lparr>peers = [], quorum_size = 1, my_node_id = me\<rparr>,
      election_timeout = 0, last_heartbeat = 0, is_leader = False, apply_callback = True,
      elections_started = 0, elections_won = 0, append_entries_sent = 0, votes_received = 0,
      initialized = True, running = True, applied = [], state_file = None,
      snapshot_buffer = None, snapshot_buffer_size = 0, snapshot_offset = 0, snapshot_last_index = 0\<rparr>"

definition sample_env :: env where
  "sample_env = \<lparr>now = 1000, rand_value = 7, disk = IO_ok\<rparr>"

lemmas sample_defs = sample_entry_def sample_log_def sample_node_def sample_env_def zero_entry_def

section \<open>Properties\<close>

text \<open>C25: among any sequence of RequestVote calls handled by a node, two granted votes of the same
  term are for the same candidate (candidate ids are not negative, \<open>-1\<close> meaning ``no vote'').\<close>

theorem vote_once_per_term:
  assumes "vote_run n rqs = (n', out)" "\<forall>(ev, rq) \<in> set rqs. 0 \<le> candidate_id rq"
    and "(rq1, r1) \<in> set out" "(rq2, r2) \<in> set out" "vote_granted r1" "vote_granted r2"
    and "rv_term rq1 = rv_term rq2"
  shows "candidate_id rq1 = candidate_id rq2"
  using assms
proof (induction rqs arbitrary: n n' out)
  case Nil
  then show ?case by simp
next
  case (Cons x rqs)
  obtain ev rq0 where x: "x = (ev, rq0)" by (cases x)
  obtain n1 rsp0 where h: "raft_request_vote ev n rq0 = (n1, rsp0)" by fastforce
  obtain n2 out0 where r: "vote_run n1 rqs = (n2, out0)" by fastforce
  have out: "out = (rq0, rsp0) # out0" using Cons.prems(1) h r x by simp
  have nn: "0 \<le> candidate_id rq0" using Cons.prems(2) x by simp
  have later: "candidate_id rq = candidate_id rq0"
    if "(rq, rsp) \<in> set out0" "vote_granted rsp" "vote_granted rsp0" "rv_term rq = rv_term rq0" for rq rsp
    using vote_run_granted [OF r that(1,2)] request_vote_granted(1,2) [OF h that(3)] that(4) nn by auto
  show ?case
    using Cons.prems(3-7) Cons.IH [OF r] Cons.prems(2) later [of rq1 r1] later [of rq2 r2] out
    by (auto dest: sym)
qed

definition sample_vote :: "nat \<Rightarrow> int \<Rightarrow> RequestVoteRequest" where
  "sample_vote t c = \<lparr>rv_term = t, candidate_id = c, last_log_index = 0, last_log_term = 0\<rparr>"

lemma vote_once_per_term_witness:
  "vote_granted (snd (snd (vote_run (sample_node 1 0 (sample_log 1 [] 0))
      [(sample_env, sample_vote 3 2), (sample_env, sample_vote 3 5), (sample_env, sample_vote 3 2)]) ! 0)) \<and>
   \<not> vote_granted (snd (snd (vote_run (sample_node 1 0 (sample_log 1 [] 0))
      [(sample_env, sample_vote 3 2), (sample_env, sample_vote 3 5), (sample_env, sample_vote 3 2)]) ! 1)) \<and>
   candidate_id (sample_vote 3 2) = candidate_id (sample_vote 3 2)"
proof -
  let ?rqs = "[(sample_env, sample_vote 3 2), (sample_env, sample_vote 3 5), (sample_env, sample_vote 3 2)]"
  let ?run = "vote_run (sample_node 1 0 (sample_log 1 [] 0)) ?rqs"
  have run: "map (\<lambda>(rq, r). (rq, vote_granted r)) (snd ?run) =
      [(sample_vote 3 2, True), (sample_vote 3 5, False), (sample_vote 3 2, True)]"
    by (simp add: sample_defs sample_vote_def raft_request_vote_def raft_become_follower_def
        raft_is_log_up_to_date_def raft_log_term_at_def)
  obtain a b c where out: "snd ?run = [(sample_vote 3 2, a), (sample_vote 3 5, b), (sample_vote 3 2, c)]"
    and g: "vote_granted a" "\<not> vote_granted b" "vote_granted c"
    using run by (auto simp: map_eq_Cons_conv)
  have nn: "\<forall>(ev, rq) \<in> set ?rqs. 0 \<le> candidate_id rq" by (simp add: sample_vote_def)
  have pair: "vote_run (sample_node 1 0 (sample_log 1 [] 0)) ?rqs = (fst ?run, snd ?run)"
    by (rule prod.collapse [symmetric])
  have "(sample_vote 3 2, a) \<in> set (snd ?run)" "(sample_vote 3 2, c) \<in> set (snd ?run)"
    unfolding out by simp_all
  then have "candidate_id (sample_vote 3 2) = candidate_id (sample_vote 3 2)"
    by (rule vote_once_per_term [OF pair nn]) (rule g refl)+
  then show ?thesis unfolding out using g by simp
qed

text \<open>C3: when an AppendEntries request is accepted (its term is not stale and the log holds the
  preceding entry) and its entries start behind the compacted prefix and fit, the handler returns
  success, leaves every entry up to \<^verbatim>\<open>prev_log_index\<close> alone, and afterwards the log holds at each
  index of the request an entry of the term the leader sent; the log stays well-formed.\<close>

theorem append_entries_installs:
  assumes "log_wf (log n)" "ae_accepts n rq" "first_index (log n) \<le> prev_log_index rq + 1"
    and "prev_log_index rq + 1 - first_index (log n) + length (ae_entries rq) \<le> RAFT_MAX_LOG_ENTRIES"
  shows "\<exists>n' rsp. raft_append_entries ev n rq = Some (n', rsp) \<and> aer_success rsp \<and> log_wf (log n') \<and>
    current_term n' = ae_term rq \<and>
    (\<forall>i \<le> prev_log_index rq. raft_log_get (log n') i = raft_log_get (log n) i) \<and>
    (\<forall>k < length (ae_entries rq).
       raft_log_term_at (log n') (prev_log_index rq + 1 + k) = e_term (ae_entries rq ! k)) \<and>
    prev_log_index rq + length (ae_entries rq) \<le> match_index rsp \<and> match_index rsp = last_index (log n')"
proof -
  obtain n' rsp l where r: "raft_append_entries ev n rq = Some (n', rsp)" "aer_success rsp"
    and post: "ae_post ev (log n) (prev_log_index rq + 1) (ae_entries rq) l"
    and l: "log n' = (if leader_commit rq > commit_index l
                      then l\<lparr>commit_index := min (leader_commit rq) (last_index l)\<rparr> else l)"
    and m: "match_index rsp = last_index l" and wf: "log_wf (log n')"
    using append_entries_accepted [OF assms] by metis
  have i: "prev_log_index rq + 1 \<le> last_index (log n) + 1" using assms(2) by (auto simp: ae_accepts_def)
  note g = ae_post_get [OF assms(1) post assms(3) i]
  have same: "raft_log_get (log n') = raft_log_get l" "raft_log_term_at (log n') = raft_log_term_at l"
    "last_index (log n') = last_index l"
    by (auto simp: l raft_log_term_at_def raft_log_get_def fun_eq_iff)
  have "current_term n' = ae_term rq"
    using append_entries_frame(4) [OF r(1)] assms(2) by (simp add: ae_accepts_def)
  then show ?thesis using r m wf same g by (intro exI [of _ n'] exI [of _ rsp]) auto
qed

definition sample_append :: "nat \<Rightarrow> nat \<Rightarrow> nat \<Rightarrow> nat list \<Rightarrow> nat \<Rightarrow> AppendEntriesRequest" where
  "sample_append t p pt ts c = \<lparr>ae_term = t, ae_leader_id = 9, prev_log_index = p, prev_log_term = pt,
     ae_entries = map (\<lambda>(i, t). sample_entry i t) (enumerate (p + 1) ts), leader_commit = c\<rparr>"

lemma sample_log_wf: "log_wf (sample_log 1 [1, 1, 2] 1)"
  by code_simp

lemma append_entries_installs_witness:
  "\<exists>n' rsp. raft_append_entries sample_env (sample_node 1 2 (sample_log 1 [1, 1, 2] 1))
        (sample_append 3 1 1 [3, 3] 2) = Some (n', rsp) \<and> aer_success rsp \<and>
     raft_log_term_at (log n') 2 = 3 \<and> raft_log_term_at (log n') 3 = 3 \<and> 3 \<le> match_index rsp"
proof -
  let ?n = "sample_node 1 2 (sample_log 1 [1, 1, 2] 1)" and ?rq = "sample_append 3 1 1 [3, 3] 2"
  have h: "log_wf (log ?n)" "ae_accepts ?n ?rq" "first_index (log ?n) \<le> prev_log_index ?rq + 1"
    "prev_log_index ?rq + 1 - first_index (log ?n) + length (ae_entries ?rq) \<le> RAFT_MAX_LOG_ENTRIES"
    by code_simp+
  have es: "length (ae_entries ?rq) = 2" "e_term (ae_entries ?rq ! 0) = 3" "e_term (ae_entries ?rq ! 1) = 3"
    "prev_log_index ?rq = 1"
    by code_simp+
  obtain n' rsp where r: "raft_append_entries sample_env ?n ?rq = Some (n', rsp)" "aer_success rsp"
    and t: "\<forall>k < length (ae_entries ?rq).
       raft_log_term_at (log n') (prev_log_index ?rq + 1 + k) = e_term (ae_entries ?rq ! k)"
    and m: "prev_log_index ?rq + length (ae_entries ?rq) \<le> match_index rsp"
    using append_entries_installs [OF h, of sample_env] by blast
  have "raft_log_term_at (log n') (1 + 1 + 0) = 3" "raft_log_term_at (log n') (1 + 1 + 1) = 3"
    "1 + 2 \<le> match_index rsp"
    using t [unfolded es(1,4), rule_format, of 0] t [unfolded es(1,4), rule_format, of 1] m [unfolded es(1,4)]
    unfolding es(2,3) by simp_all
  then show ?thesis using r by (intro exI conjI) (simp_all add: numeral_eq_Suc)
qed

text \<open>The condition on the compacted prefix is needed. A request whose \<^verbatim>\<open>prev_log_index\<close> is 0 is accepted whatever the log holds;
  when the log was compacted, an entry for index 1 finds no entry to compare with, the truncation is refused, and the entry is
  appended behind the last one: the handler reports success and the log holds the leader's first entry at an index of its own.\<close>

theorem entry_before_compacted_prefix_lands_at_the_end:
  assumes wf: "log_wf (log n)" and rq: "current_term n \<le> ae_term rq" "prev_log_index rq = 0" "ae_entries rq = [e]" "e_term e \<noteq> 0"
    and compacted: "1 < first_index (log n)"
    and room: "log_length (log n) < RAFT_MAX_LOG_ENTRIES"
  shows "\<exists>n' rsp. raft_append_entries ev n rq = Some (n', rsp) \<and> aer_success rsp \<and>
    raft_log_get (log n') 1 = None \<and> last_index (log n') = last_index (log n) + 1 \<and>
    raft_log_term_at (log n') (last_index (log n) + 1) = e_term e"
proof -
  let ?l = "log n" and ?e = "e\<lparr>e_index := 1\<rparr>"
  note b = log_wf_bounds [OF wf]
  obtain l' where l': "raft_log_append ev ?l [?e] = Some l'" "log_wf l'"
      "log_entries l' = log_entries ?l @ [copy_entry (now ev) (last_index ?l + 1) ?e]"
      "first_index l' = first_index ?l" "last_index l' = last_index ?l + 1"
    using raft_log_append_spec [OF wf, of "[?e]" ev] room by auto
  have t: "raft_log_term_at ?l 1 = 0" using compacted by (simp add: raft_log_term_at_def raft_log_get_def)
  have loop: "append_entries_loop ev ?l (Suc 0) [e] = Some l'"
    using l'(1) t rq(4) compacted by (simp add: raft_log_truncate_refused Let_def)
  have new: "raft_log_term_at l' (last_index ?l + 1) = e_term e"
    using l' b length_log_entries [OF wf]
    by (simp add: raft_log_term_at_def get_log_entries [OF l'(2)] nth_append copy_entry_def)
  have none: "raft_log_get l' 1 = None" using l'(4) compacted by (simp add: raft_log_get_def)
  let ?r = "if leader_commit rq > commit_index l' then l'\<lparr>commit_index := min (leader_commit rq) (last_index l')\<rparr> else l'"
  have "\<exists>n' rsp. raft_append_entries ev n rq = Some (n', rsp) \<and> aer_success rsp \<and> log n' = ?r"
    using rq(1) by (simp add: raft_append_entries_def Let_def frame_simps rq(2,3) loop del: append_entries_loop.simps)
  moreover have "raft_log_get ?r = raft_log_get l'" "raft_log_term_at ?r = raft_log_term_at l'" "last_index ?r = last_index l'"
    by (auto simp: raft_log_term_at_def raft_log_get_def fun_eq_iff)
  ultimately show ?thesis using new none l'(5) by metis
qed

lemma entry_before_compacted_prefix_lands_at_the_end_witness:
  "\<exists>n' rsp. raft_append_entries sample_env (sample_node 1 2 (sample_log 3 [1, 1] 3)) (sample_append 3 0 0 [2] 0) = Some (n', rsp) \<and>
     aer_success rsp \<and> raft_log_get (log n') 1 = None \<and> raft_log_term_at (log n') 5 = 2"
proof -
  let ?n = "sample_node 1 2 (sample_log 3 [1, 1] 3)" and ?rq = "sample_append 3 0 0 [2] 0"
  have h: "log_wf (log ?n)" "current_term ?n \<le> ae_term ?rq" "prev_log_index ?rq = 0" "ae_entries ?rq = [sample_entry 1 2]"
      "e_term (sample_entry 1 2) \<noteq> 0" "1 < first_index (log ?n)" "log_length (log ?n) < RAFT_MAX_LOG_ENTRIES"
    by code_simp+
  have "last_index (log ?n) + 1 = 5" "e_term (sample_entry 1 2) = 2" by code_simp+
  with entry_before_compacted_prefix_lands_at_the_end [OF h, of sample_env] show ?thesis by metis
qed

text \<open>C26: if the entries of an accepted request agree with the log on every committed index, no
  committed entry changes and the commit index does not go back.\<close>

theorem append_entries_keeps_committed:
  assumes wf: "log_wf (log n)" and "ae_accepts n rq" "first_index (log n) \<le> prev_log_index rq + 1"
    and "prev_log_index rq + 1 - first_index (log n) + length (ae_entries rq) \<le> RAFT_MAX_LOG_ENTRIES"
    and agree: "\<forall>k < length (ae_entries rq). prev_log_index rq + 1 + k \<le> commit_index (log n) \<longrightarrow>
      raft_log_term_at (log n) (prev_log_index rq + 1 + k) = e_term (ae_entries rq ! k)"
  shows "\<exists>n' rsp. raft_append_entries ev n rq = Some (n', rsp) \<and>
    commit_index (log n) \<le> commit_index (log n') \<and>
    (\<forall>i \<le> commit_index (log n). raft_log_get (log n') i = raft_log_get (log n) i)"
proof -
  let ?i = "prev_log_index rq + 1" and ?es = "ae_entries rq" and ?l = "log n"
  obtain n' rsp l where r: "raft_append_entries ev n rq = Some (n', rsp)"
    and post: "ae_post ev ?l ?i ?es l"
    and l: "log n' = (if leader_commit rq > commit_index l
                      then l\<lparr>commit_index := min (leader_commit rq) (last_index l)\<rparr> else l)"
    using append_entries_accepted [OF assms(1-4)] by metis
  have i: "?i \<le> last_index ?l + 1" using assms(2) by (auto simp: ae_accepts_def)
  have get: "raft_log_get (log n') = raft_log_get l" "commit_index l \<le> commit_index (log n')"
    using post log_wf_bounds(3) [of l] by (auto simp: l raft_log_get_def fun_eq_iff ae_post_def)
  show ?thesis
    using ae_post_committed [OF wf post assms(3) i] agree r get by fastforce
qed

lemma append_entries_keeps_committed_witness:
  "\<exists>n' rsp. raft_append_entries sample_env (sample_node 1 2 (sample_log 1 [1, 1, 2] 1))
        (sample_append 3 0 0 [1, 3, 3] 2) = Some (n', rsp) \<and> 1 \<le> commit_index (log n') \<and>
     (\<forall>i \<le> 1. raft_log_get (log n') i = raft_log_get (sample_log 1 [1, 1, 2] 1) i)"
proof -
  let ?n = "sample_node 1 2 (sample_log 1 [1, 1, 2] 1)" and ?rq = "sample_append 3 0 0 [1, 3, 3] 2"
  have h: "log_wf (log ?n)" "ae_accepts ?n ?rq" "first_index (log ?n) \<le> prev_log_index ?rq + 1"
    "prev_log_index ?rq + 1 - first_index (log ?n) + length (ae_entries ?rq) \<le> RAFT_MAX_LOG_ENTRIES"
    by code_simp+
  have a: "\<forall>k < length (ae_entries ?rq). prev_log_index ?rq + 1 + k \<le> commit_index (log ?n) \<longrightarrow>
      raft_log_term_at (log ?n) (prev_log_index ?rq + 1 + k) = e_term (ae_entries ?rq ! k)"
    unfolding all_less_upt by code_simp
  have c: "log ?n = sample_log 1 [1, 1, 2] 1" "commit_index (sample_log 1 [1, 1, 2] 1) = 1"
    by (simp_all add: sample_node_def sample_log_def)
  show ?thesis using append_entries_keeps_committed [OF h a, of sample_env] unfolding c .
qed

text \<open>C27: applying the committed entries hands to the callback exactly the entries in
  \<^verbatim>\<open>(last_applied, commit_index]\<close> that are not no-ops, each once and in index order, after what was
  applied before; \<^verbatim>\<open>last_applied\<close> catches up with \<^verbatim>\<open>commit_index\<close>, so a second call applies nothing.\<close>

theorem apply_in_order_once:
  assumes "apply_callback n" "last_applied (log n) \<le> commit_index (log n)"
  shows "applied (raft_apply_committed_entries n) = applied n @ committed_commands n \<and>
    last_applied (log (raft_apply_committed_entries n)) = commit_index (log n) \<and>
    entries (log (raft_apply_committed_entries n)) = entries (log n) \<and>
    raft_apply_committed_entries (raft_apply_committed_entries n) = raft_apply_committed_entries n"
proof -
  note spec = apply_committed_spec [OF assms]
  have "raft_apply_committed_entries (raft_apply_committed_entries n) = raft_apply_committed_entries n"
    by (subst raft_apply_committed_entries.simps) (simp add: spec(2))
  then show ?thesis using spec by simp
qed

lemma apply_in_order_once_witness:
  "applied (raft_apply_committed_entries
      (sample_node 1 2 ((sample_log 1 [1, 1, 2] 3)\<lparr>last_applied := 1\<rparr>))) = [sample_entry 2 1, sample_entry 3 2]"
proof -
  let ?n = "sample_node 1 2 ((sample_log 1 [1, 1, 2] 3)\<lparr>last_applied := 1\<rparr>)"
  have h: "apply_callback ?n" "last_applied (log ?n) \<le> commit_index (log ?n)" by code_simp+
  have "applied ?n @ committed_commands ?n = [sample_entry 2 1, sample_entry 3 2]" by code_simp
  then show ?thesis using apply_in_order_once [OF h] by simp
qed

end
