(* ===== verification/Raft_Leader.thy ===== *)
theory Raft_Leader
  imports Raft_Node
begin

text \<open>
  A Raft node as it acts on its own (\<^verbatim>\<open>consensus/raft.c\<close>): elections, replication, the commit rule,
  the tick of the event loop, client commands, reads, and the peer table. A remote call is a
  parameter: \<open>net\<close> gives, for each peer slot and request, what the connection to that peer answers.
  One call of an operation reads one clock value and one random value, those of its environment.
  Becoming leader appends to the log, so the operations that can lead there are partial. The
  theorems: the commit index only moves to an index of the current term that a quorum holds, and to
  the highest such index; a submitted command is stored at the index that is returned; the quorum is
  a majority after every change of the peer table; a read index is only returned with the
  acknowledgement of a quorum; every operation keeps a node well-formed.
\<close>

section \<open>Remote calls\<close>

record net =
  rv_out :: "nat \<Rightarrow> RequestVoteRequest \<Rightarrow> (nat \<times> bool) rpc_outcome"
  ae_out :: "nat \<Rightarrow> AppendEntriesRequest \<Rightarrow> (nat \<times> bool \<times> nat) rpc_outcome"

definition raft_send_request_vote ::
  "(nat \<times> bool) rpc_outcome \<Rightarrow> RaftPeer \<Rightarrow> RaftPeer \<times> RequestVoteResponse" where
  "raft_send_request_vote out p =
     (let rsp = \<lparr>rvr_term = 0, vote_granted = False, voter_id = peer_id p\<rparr>
      in case out of
           RPC_no_connection \<Rightarrow> (p\<lparr>connection := False\<rparr>, rsp)
         | RPC_query_failed \<Rightarrow> (p\<lparr>connection := True, is_active := False\<rparr>, rsp)
         | RPC_reply (t, g) \<Rightarrow> (p\<lparr>connection := True\<rparr>, rsp\<lparr>rvr_term := t, vote_granted := g\<rparr>))"

definition raft_send_append_entries ::
  "env \<Rightarrow> (nat \<times> bool \<times> nat) rpc_outcome \<Rightarrow> RaftPeer \<Rightarrow> RaftPeer \<times> AppendEntriesResponse" where
  "raft_send_append_entries ev out p =
     (let rsp = \<lparr>aer_term = 0, aer_success = False, match_index = 0, aer_node_id = peer_id p\<rparr>
      in case out of
           RPC_no_connection \<Rightarrow> (p\<lparr>connection := False\<rparr>, rsp)
         | RPC_query_failed \<Rightarrow> (p\<lparr>connection := True, is_active := False\<rparr>, rsp)
         | RPC_reply (t, s, m) \<Rightarrow> (p\<lparr>connection := True, last_contact := now ev\<rparr>,
                                     rsp\<lparr>aer_term := t, aer_success := s, match_index := m\<rparr>))"

definition peer_at :: "RaftNode \<Rightarrow> nat \<Rightarrow> RaftPeer" where
  "peer_at n i = peers (cluster n) ! i"

definition set_peer :: "RaftNode \<Rightarrow> nat \<Rightarrow> RaftPeer \<Rightarrow> RaftNode" where
  "set_peer n i p = n\<lparr>cluster := (cluster n)\<lparr>peers := (peers (cluster n))[i := p]\<rparr>\<rparr>"

text \<open>The loops over the peers of elections and of replication have the same shape: inactive peers are
  passed over, \<open>one\<close> deals with a peer, and its flag says that the loop ends with a step down.\<close>

fun peer_loop :: "(RaftNode \<Rightarrow> nat \<Rightarrow> RaftNode \<times> bool) \<Rightarrow> nat list \<Rightarrow> RaftNode \<Rightarrow> RaftNode \<times> bool" where
  "peer_loop one [] n = (n, False)"
| "peer_loop one (i # is) n =
     (if \<not> is_active (peer_at n i) then peer_loop one is n
      else case one n i of (n1, True) \<Rightarrow> (n1, True) | (n1, False) \<Rightarrow> peer_loop one is n1)"

section \<open>Replication\<close>

definition heartbeat_request :: "RaftNode \<Rightarrow> RaftPeer \<Rightarrow> AppendEntriesRequest" where
  "heartbeat_request n p =
     \<lparr>ae_term = current_term n, ae_leader_id = node_id n, prev_log_index = next_index p - 1,
      prev_log_term = raft_log_term_at (log n) (next_index p - 1), ae_entries = [],
      leader_commit = commit_index (log n)\<rparr>"

definition replicate_request :: "RaftNode \<Rightarrow> RaftPeer \<Rightarrow> AppendEntriesRequest" where
  "replicate_request n p =
     (heartbeat_request n p)\<lparr>ae_entries :=
        (if next_index p \<le> last_index (log n)
         then let end_index = min (next_index p + RAFT_MAX_ENTRIES_PER_APPEND - 1) (last_index (log n))
              in (case raft_log_get_range (log n) (next_index p) end_index of None \<Rightarrow> [] | Some es \<Rightarrow> es)
         else [])\<rparr>"

definition replicate_peer :: "env \<Rightarrow> net \<Rightarrow> RaftNode \<Rightarrow> nat \<Rightarrow> RaftNode \<times> bool" where
  "replicate_peer ev nt n i =
     (let rq = replicate_request n (peer_at n i);
          n0 = n\<lparr>append_entries_sent := append_entries_sent n + 1\<rparr>;
          (p, rsp) = raft_send_append_entries ev (ae_out nt i rq) (peer_at n i);
          n1 = set_peer n0 i p
      in if aer_term rsp > current_term n1 then (raft_become_follower ev n1 (aer_term rsp), True)
         else if aer_success rsp
              then let p1 = (if ae_entries rq \<noteq> []
                             then p\<lparr>next_index := match_index rsp + 1,
                                    peer_match_index := match_index rsp\<rparr> else p)
                   in (set_peer n1 i (p1\<lparr>last_contact := now ev\<rparr>), False)
              else (set_peer n1 i (if next_index p > 1 then p\<lparr>next_index := next_index p - 1\<rparr> else p), False))"

definition replicate_loop :: "env \<Rightarrow> net \<Rightarrow> nat list \<Rightarrow> RaftNode \<Rightarrow> RaftNode \<times> bool" where
  "replicate_loop ev nt = peer_loop (replicate_peer ev nt)"

definition replicated_count :: "RaftNode \<Rightarrow> nat \<Rightarrow> nat" where
  "replicated_count n c = 1 + length (filter (\<lambda>p. peer_match_index p \<ge> c) (peers (cluster n)))"

text \<open>The downward search of \<^verbatim>\<open>raft_update_commit_index\<close> from index \<open>c\<close>; the result is the new
  commit index.\<close>

fun commit_scan :: "RaftNode \<Rightarrow> nat \<Rightarrow> nat" where
  "commit_scan n 0 = commit_index (log n)"
| "commit_scan n (Suc c) =
     (if Suc c > commit_index (log n)
      then if raft_log_term_at (log n) (Suc c) \<noteq> current_term n then commit_scan n c
           else if replicated_count n (Suc c) \<ge> quorum_size (cluster n) then Suc c
           else commit_scan n c
      else commit_index (log n))"

definition raft_update_commit_index :: "RaftNode \<Rightarrow> RaftNode" where
  "raft_update_commit_index n =
     (if \<not> is_leader n then n
      else n\<lparr>log := (log n)\<lparr>commit_index := commit_scan n (last_index (log n))\<rparr>\<rparr>)"

definition raft_replicate :: "env \<Rightarrow> net \<Rightarrow> RaftNode \<Rightarrow> RaftNode" where
  "raft_replicate ev nt n =
     (if \<not> is_leader n then n
      else case replicate_loop ev nt [0 ..< peer_count n] n of
             (n1, True) \<Rightarrow> n1
           | (n1, False) \<Rightarrow> raft_update_commit_index n1)"

definition raft_heartbeat :: "env \<Rightarrow> net \<Rightarrow> RaftNode \<Rightarrow> RaftNode" where
  "raft_heartbeat ev nt n = (if \<not> is_leader n then n else raft_replicate ev nt n)"

section \<open>Elections\<close>

definition raft_initialize_leader_state :: "RaftNode \<Rightarrow> RaftNode" where
  "raft_initialize_leader_state n =
     n\<lparr>cluster := (cluster n)\<lparr>peers :=
        map (\<lambda>p. p\<lparr>next_index := last_index (log n) + 1, peer_match_index := 0\<rparr>) (peers (cluster n))\<rparr>\<rparr>"

definition noop_entry :: "env \<Rightarrow> RaftNode \<Rightarrow> RaftLogEntry" where
  "noop_entry ev n = \<lparr>e_index = 0, e_term = current_term n, e_type = RAFT_LOG_NOOP, command_size = 0,
     command_data = None, created_at = now ev\<rparr>"

definition raft_become_leader :: "env \<Rightarrow> net \<Rightarrow> RaftNode \<Rightarrow> RaftNode option" where
  "raft_become_leader ev nt n =
     (let n1 = n\<lparr>state := RAFT_STATE_LEADER, is_leader := True, leader_id := node_id n,
                 elections_won := elections_won n + 1\<rparr>;
          n2 = raft_initialize_leader_state n1
      in case raft_log_append ev (log n2) [noop_entry ev n2] of None \<Rightarrow> None
         | Some l \<Rightarrow> Some (raft_heartbeat ev nt (n2\<lparr>log := l\<rparr>)))"

definition election_begin :: "env \<Rightarrow> RaftNode \<Rightarrow> RaftNode" where
  "election_begin ev n = raft_become_candidate ev (n\<lparr>elections_started := elections_started n + 1\<rparr>)"

definition election_request :: "RaftNode \<Rightarrow> RequestVoteRequest" where
  "election_request n =
     \<lparr>rv_term = current_term n, candidate_id = node_id n, last_log_index = last_index (log n),
      last_log_term = raft_log_term_at (log n) (last_index (log n))\<rparr>"

definition election_peer ::
  "env \<Rightarrow> (nat \<times> bool) rpc_outcome \<Rightarrow> RaftNode \<Rightarrow> nat \<Rightarrow> RaftNode \<times> bool" where
  "election_peer ev out n i =
     (let (p, rsp) = raft_send_request_vote out (peer_at n i); n1 = set_peer n i p
      in if rvr_term rsp > current_term n1 then (raft_become_follower ev n1 (rvr_term rsp), True)
         else if vote_granted rsp
              then ((set_peer n1 i (p\<lparr>peer_vote_granted := True\<rparr>))\<lparr>votes_received := votes_received n1 + 1\<rparr>,
                    False)
              else (n1, False))"

definition election_loop :: "env \<Rightarrow> net \<Rightarrow> RequestVoteRequest \<Rightarrow> nat list \<Rightarrow> RaftNode \<Rightarrow> RaftNode \<times> bool" where
  "election_loop ev nt rq = peer_loop (\<lambda>n i. election_peer ev (rv_out nt i rq) n i)"

definition election_won :: "RaftNode \<Rightarrow> bool" where
  "election_won n \<longleftrightarrow> votes_received n \<ge> quorum_size (cluster n)"

definition raft_start_election :: "env \<Rightarrow> net \<Rightarrow> RaftNode \<Rightarrow> RaftNode option" where
  "raft_start_election ev nt n =
     (if \<not> running n then Some n
      else let n1 = election_begin ev n
           in case election_loop ev nt (election_request n1) [0 ..< peer_count n1] n1 of
                (n2, True) \<Rightarrow> Some n2
              | (n2, False) \<Rightarrow> if election_won n2 then raft_become_leader ev nt n2 else Some n2)"

section \<open>The event loop\<close>

definition raft_tick :: "env \<Rightarrow> net \<Rightarrow> RaftNode \<Rightarrow> RaftNode option" where
  "raft_tick ev nt n =
     (if \<not> running n then Some n
      else do {
        n1 \<leftarrow> (case state n of
          RAFT_STATE_LEADER \<Rightarrow>
            Some (if now ev - last_heartbeat n \<ge> RAFT_HEARTBEAT_INTERVAL_MS * 1000
                  then (raft_heartbeat ev nt n)\<lparr>last_heartbeat := now ev\<rparr> else n)
        | _ \<Rightarrow> if now ev \<ge> election_timeout n then raft_start_election ev nt n else Some n);
        Some (raft_apply_committed_entries n1)
      })"

definition raft_start :: "env \<Rightarrow> RaftNode \<Rightarrow> pg_error + RaftNode" where
  "raft_start ev n =
     (if \<not> initialized n then Inl (ERROR ''Cannot start uninitialized Raft node'')
      else Inr (raft_reset_election_timeout ev (n\<lparr>running := True, state := RAFT_STATE_FOLLOWER\<rparr>)))"

definition raft_stop :: "env \<Rightarrow> RaftNode \<Rightarrow> RaftNode" where
  "raft_stop ev n =
     (if \<not> running n then n
      else let n1 = raft_persist_state ev (n\<lparr>running := False, is_leader := False\<rparr>)
           in n1\<lparr>log := raft_log_persist ev (log n1)\<rparr>)"

section \<open>Client commands\<close>

definition raft_submit_command :: "env \<Rightarrow> net \<Rightarrow> RaftNode \<Rightarrow> bytes \<Rightarrow> (RaftNode \<times> nat) option" where
  "raft_submit_command ev nt n command =
     (if \<not> is_leader n then Some (n, 0)
      else let e = \<lparr>e_index = 0, e_term = current_term n, e_type = RAFT_LOG_COMMAND,
                    command_size = int (length command), command_data = Some command,
                    created_at = now ev\<rparr>
           in case raft_log_append ev (log n) [e] of None \<Rightarrow> None
              | Some l \<Rightarrow> let n1 = raft_replicate ev nt (n\<lparr>log := l\<rparr>) in Some (n1, last_index (log n1)))"

text \<open>The waiting loop. \<open>inp k\<close> is the environment of round \<open>k\<close>; a loop that runs into an undefined
  tick or never sees the deadline has no result.\<close>

partial_function (option) wait_loop ::
  "(nat \<Rightarrow> env \<times> net) \<Rightarrow> int \<Rightarrow> nat \<Rightarrow> nat \<Rightarrow> RaftNode \<Rightarrow> (RaftNode \<times> bool) option" where
  "wait_loop inp deadline i k n =
     (if now (fst (inp k)) < deadline
      then if raft_is_committed n i then Some (n, True)
           else do { n1 \<leftarrow> raft_tick (fst (inp k)) (snd (inp k)) n; wait_loop inp deadline i (Suc k) n1 }
      else Some (n, False))"

definition raft_wait_for_commit ::
  "env \<Rightarrow> (nat \<Rightarrow> env \<times> net) \<Rightarrow> RaftNode \<Rightarrow> nat \<Rightarrow> int \<Rightarrow> (RaftNode \<times> bool) option" where
  "raft_wait_for_commit ev inp n i timeout_ms = wait_loop inp (now ev + timeout_ms * 1000) i 0 n"

section \<open>The peer table\<close>

definition raft_add_peer :: "RaftNode \<Rightarrow> int \<Rightarrow> string \<Rightarrow> int \<Rightarrow> pg_error + RaftNode" where
  "raft_add_peer n pid host prt =
     (if peer_count n \<ge> RAFT_MAX_CLUSTER_SIZE then Inl (ERROR ''Raft cluster at maximum size'')
      else let p = \<lparr>peer_id = pid, hostname = host, port = prt, is_active = True,
                    next_index = last_index (log n) + 1, peer_match_index = 0, last_contact = 0,
                    connection = False, peer_vote_granted = False\<rparr>
           in Inr (n\<lparr>cluster := (cluster n)\<lparr>peers := peers (cluster n) @ [p],
                                    quorum_size := (peer_count n + 1 + 1) div 2 + 1\<rparr>\<rparr>))"

fun remove_first :: "int \<Rightarrow> RaftPeer list \<Rightarrow> RaftPeer list option" where
  "remove_first pid [] = None"
| "remove_first pid (p # ps) =
     (if peer_id p = pid then Some ps else map_option (Cons p) (remove_first pid ps))"

definition raft_remove_peer :: "RaftNode \<Rightarrow> int \<Rightarrow> RaftNode" where
  "raft_remove_peer n pid =
     (case remove_first pid (peers (cluster n)) of None \<Rightarrow> n
      | Some ps \<Rightarrow> n\<lparr>cluster := (cluster n)\<lparr>peers := ps, quorum_size := (length ps + 1) div 2 + 1\<rparr>\<rparr>)"

text \<open>\<open>alive\<close> is the status of the existing connections, \<open>connect\<close> whether a new one succeeds.\<close>

definition raft_connect_peers :: "(RaftPeer \<Rightarrow> bool) \<Rightarrow> (RaftPeer \<Rightarrow> bool) \<Rightarrow> RaftNode \<Rightarrow> RaftNode" where
  "raft_connect_peers alive connect n =
     n\<lparr>cluster := (cluster n)\<lparr>peers := map (\<lambda>p.
        if \<not> connection p \<or> \<not> alive p then p\<lparr>connection := connect p, is_active := connect p\<rparr> else p)
        (peers (cluster n))\<rparr>\<rparr>"

definition raft_disconnect_peers :: "RaftNode \<Rightarrow> RaftNode" where
  "raft_disconnect_peers n =
     n\<lparr>cluster := (cluster n)\<lparr>peers := map (\<lambda>p. p\<lparr>connection := False, is_active := False\<rparr>)
        (peers (cluster n))\<rparr>\<rparr>"

section \<open>Reads\<close>

definition raft_should_snapshot :: "RaftNode \<Rightarrow> bool" where
  "raft_should_snapshot n =
     (if last_applied (log n) < first_index (log n) then False
      else last_applied (log n) - first_index (log n) + 1 \<ge> RAFT_SNAPSHOT_THRESHOLD)"

definition raft_can_serve_read :: "RaftNode \<Rightarrow> nat \<Rightarrow> bool" where
  "raft_can_serve_read n read_index = (last_applied (log n) \<ge> read_index)"

definition raft_follower_read :: "env \<Rightarrow> RaftNode \<Rightarrow> int \<Rightarrow> bool" where
  "raft_follower_read ev n max_staleness_ms =
     (if is_leader n then True else \<not> now ev - last_heartbeat n > max_staleness_ms * 1000)"

definition raft_lease_read :: "env \<Rightarrow> RaftNode \<Rightarrow> nat" where
  "raft_lease_read ev n =
     (if \<not> is_leader n then 0
      else if election_timeout n - now ev > RAFT_ELECTION_TIMEOUT_MIN_MS * 500 then commit_index (log n)
      else 0)"

text \<open>The round of heartbeats of \<^verbatim>\<open>raft_read_index\<close>: the acknowledgements, or a step down.\<close>

definition read_index_peer :: "env \<Rightarrow> net \<Rightarrow> RaftNode \<Rightarrow> nat \<Rightarrow> RaftNode \<times> nat \<times> bool" where
  "read_index_peer ev nt n i =
     (let (p, rsp) = raft_send_append_entries ev (ae_out nt i (heartbeat_request n (peer_at n i))) (peer_at n i);
          n1 = set_peer n i p
      in if aer_term rsp > current_term n1 then (raft_become_follower ev n1 (aer_term rsp), 0, True)
         else if aer_success rsp then (set_peer n1 i (p\<lparr>last_contact := now ev\<rparr>), 1, False)
         else (n1, 0, False))"

fun read_index_loop :: "env \<Rightarrow> net \<Rightarrow> nat list \<Rightarrow> nat \<Rightarrow> RaftNode \<Rightarrow> RaftNode \<times> nat \<times> bool" where
  "read_index_loop ev nt [] acks n = (n, acks, False)"
| "read_index_loop ev nt (i # is) acks n =
     (if \<not> is_active (peer_at n i) then read_index_loop ev nt is acks n
      else case read_index_peer ev nt n i of
             (n1, a, True) \<Rightarrow> (n1, acks, True)
           | (n1, a, False) \<Rightarrow> read_index_loop ev nt is (acks + a) n1)"

text \<open>The answer of the leader to \<^verbatim>\<open>raft_leader_read_index\<close> is 0 when the field is empty.\<close>

definition raft_request_read_index_from_leader :: "env \<Rightarrow> nat rpc_outcome \<Rightarrow> RaftPeer \<Rightarrow> RaftPeer \<times> nat" where
  "raft_request_read_index_from_leader ev out p =
     (case out of RPC_no_connection \<Rightarrow> (p\<lparr>connection := False\<rparr>, 0)
      | RPC_query_failed \<Rightarrow> (p\<lparr>connection := True\<rparr>, 0)
      | RPC_reply r \<Rightarrow> (p\<lparr>connection := True, last_contact := now ev\<rparr>, r))"

fun find_peer :: "int \<Rightarrow> RaftPeer list \<Rightarrow> nat option" where
  "find_peer pid [] = None"
| "find_peer pid (p # ps) = (if peer_id p = pid then Some 0 else map_option Suc (find_peer pid ps))"

partial_function (option) read_wait_loop ::
  "(nat \<Rightarrow> env \<times> net) \<Rightarrow> int \<Rightarrow> nat \<Rightarrow> nat \<Rightarrow> RaftNode \<Rightarrow> (RaftNode \<times> nat) option" where
  "read_wait_loop inp deadline r k n =
     (if last_applied (log n) < r
      then if now (fst (inp k)) \<ge> deadline then Some (n, 0)
           else do { n1 \<leftarrow> raft_tick (fst (inp k)) (snd (inp k)) n; read_wait_loop inp deadline r (Suc k) n1 }
      else Some (n, r))"

definition raft_read_index ::
  "env \<Rightarrow> net \<Rightarrow> nat rpc_outcome \<Rightarrow> (nat \<Rightarrow> env \<times> net) \<Rightarrow> RaftNode \<Rightarrow> int \<Rightarrow> (RaftNode \<times> nat) option" where
  "raft_read_index ev nt leader_out inp n timeout_ms =
     (if \<not> running n then Some (n, 0)
      else let deadline = now ev + timeout_ms * 1000
      in if is_leader n
         then let read_index = commit_index (log n)
              in if peer_count n = 0 then Some (n, read_index)
                 else case read_index_loop ev nt [0 ..< peer_count n] 0 n of
                        (n1, _, True) \<Rightarrow> Some (n1, 0)
                      | (n1, acks, False) \<Rightarrow>
                          if acks \<ge> quorum_size (cluster n) - 1 then Some (n1, read_index) else Some (n1, 0)
         else if leader_id n < 0 then Some (n, 0)
         else case find_peer (leader_id n) (peers (cluster n)) of
                None \<Rightarrow> read_wait_loop inp deadline 0 0 n
              | Some i \<Rightarrow>
                  (case raft_request_read_index_from_leader ev leader_out (peer_at n i) of
                     (p, r) \<Rightarrow> let n1 = set_peer n i p
                               in if r = 0 then Some (n1, 0) else read_wait_loop inp deadline r 0 n1))"

section \<open>What a round of remote calls does to the node\<close>

definition peers_ok :: "RaftNode \<Rightarrow> bool" where
  "peers_ok n \<longleftrightarrow> (\<forall>p \<in> set (peers (cluster n)). 1 \<le> next_index p)"

definition same_cluster :: "RaftNode \<Rightarrow> RaftNode \<Rightarrow> bool" where
  "same_cluster n m \<longleftrightarrow> map peer_id (peers (cluster m)) = map peer_id (peers (cluster n)) \<and>
     quorum_size (cluster m) = quorum_size (cluster n)"

text \<open>A round leaves the log alone. It either keeps term, vote and role, or ends as a follower of a
  higher term.\<close>

definition rpc_round :: "env \<Rightarrow> bool \<Rightarrow> RaftNode \<Rightarrow> RaftNode \<Rightarrow> bool" where
  "rpc_round ev stop n m \<longleftrightarrow>
     log m = log n \<and> node_id m = node_id n \<and> running m = running n \<and> applied m = applied n \<and>
     apply_callback m = apply_callback n \<and> last_heartbeat m = last_heartbeat n \<and>
     same_cluster n m \<and> (peers_ok n \<longrightarrow> peers_ok m) \<and>
     (if stop then current_term n < current_term m \<and> voted_for m = -1 \<and>
                   state m = RAFT_STATE_FOLLOWER \<and> \<not> is_leader m \<and> (disk_ok ev \<longrightarrow> mirrored m)
      else current_term m = current_term n \<and> voted_for m = voted_for n \<and> state m = state n \<and>
           is_leader m = is_leader n \<and> state_file m = state_file n)"

lemma rpc_round_refl [simp]: "rpc_round ev False n n"
  by (simp add: rpc_round_def same_cluster_def)

lemma rpc_round_trans: "rpc_round ev False n m \<Longrightarrow> rpc_round ev stop m k \<Longrightarrow> rpc_round ev stop n k"
  by (auto simp: rpc_round_def same_cluster_def split: if_splits)

lemma same_cluster_count: "same_cluster n m \<Longrightarrow> peer_count m = peer_count n"
  using map_eq_imp_length_eq by (auto simp: same_cluster_def)

text \<open>The interface of a loop over the peers: whatever deals with one peer makes a round.\<close>

locale rpc_loop =
  fixes ev :: env
    and one :: "RaftNode \<Rightarrow> nat \<Rightarrow> RaftNode \<times> bool"
  assumes one_round: "one n i = (m, stop) \<Longrightarrow> rpc_round ev stop n m"
begin

lemma loop_round: "peer_loop one is n = (m, stop) \<Longrightarrow> rpc_round ev stop n m"
proof (induction "is" arbitrary: n)
  case (Cons i "is")
  obtain n1 s where h: "one n i = (n1, s)" by fastforce
  show ?case
    using Cons.prems Cons.IH [of n] Cons.IH [of n1] one_round [OF h] h rpc_round_trans
    by (cases "is_active (peer_at n i)"; cases s) auto
qed simp

end

lemma set_peer_frame [simp]:
  "current_term (set_peer n i p) = current_term n" "voted_for (set_peer n i p) = voted_for n"
  "log (set_peer n i p) = log n" "state (set_peer n i p) = state n"
  "node_id (set_peer n i p) = node_id n" "is_leader (set_peer n i p) = is_leader n"
  "running (set_peer n i p) = running n" "applied (set_peer n i p) = applied n"
  "apply_callback (set_peer n i p) = apply_callback n" "state_file (set_peer n i p) = state_file n"
  "votes_received (set_peer n i p) = votes_received n" "last_heartbeat (set_peer n i p) = last_heartbeat n"
  "quorum_size (cluster (set_peer n i p)) = quorum_size (cluster n)"
  "peers (cluster (set_peer n i p)) = (peers (cluster n))[i := p]"
  by (simp_all add: set_peer_def)

lemma map_update_same: "f p = f (xs ! i) \<Longrightarrow> map f (xs[i := p]) = map f xs"
  by (cases "i < length xs") (simp_all add: map_update list_update_same_conv not_less list_update_beyond)

lemma rpc_round_set_peer:
  assumes "peer_id p = peer_id (peer_at n i)" "1 \<le> next_index (peer_at n i) \<longrightarrow> 1 \<le> next_index p"
  shows "rpc_round ev False n (set_peer n i p)"
proof (cases "i < peer_count n")
  case True
  have "peers_ok n \<longrightarrow> peers_ok (set_peer n i p)"
    using assms(2) True set_update_subset_insert [of "peers (cluster n)" i p]
    by (auto simp: peers_ok_def peer_at_def)
  then show ?thesis
    using assms(1) by (simp add: rpc_round_def same_cluster_def peer_at_def map_update_same)
next
  case False
  then have "set_peer n i p = n" by (simp add: set_peer_def not_less list_update_beyond)
  then show ?thesis by simp
qed

lemma rpc_round_follower:
  "current_term n < t \<Longrightarrow> rpc_round ev True n (raft_become_follower ev n t)"
  by (simp add: rpc_round_def same_cluster_def peers_ok_def raft_become_follower_def
      raft_persist_state_def raft_reset_election_timeout_def mirrored_def disk_ok_def)

lemma send_frame:
  "raft_send_request_vote out p = (p', rsp) \<Longrightarrow> peer_id p' = peer_id p \<and> next_index p' = next_index p"
  "raft_send_append_entries ev out' p = (p', rsp') \<Longrightarrow> peer_id p' = peer_id p \<and> next_index p' = next_index p"
  by (auto simp: raft_send_request_vote_def raft_send_append_entries_def Let_def
      split: rpc_outcome.splits prod.splits)

lemma rpc_round_peer:
  assumes "peer_id p = peer_id (peer_at n i)" "next_index p = next_index (peer_at n i)"
    and "peer_id q = peer_id p" "1 \<le> next_index p \<longrightarrow> 1 \<le> next_index q"
  shows "rpc_round ev False n (set_peer (set_peer n i p) i q)"
proof -
  have "set_peer (set_peer n i p) i q = set_peer n i q" by (simp add: set_peer_def)
  then show ?thesis using rpc_round_set_peer [of q n i ev] assms by simp
qed

lemma rpc_round_sent:
  "rpc_round ev s (n\<lparr>append_entries_sent := k\<rparr>) m \<Longrightarrow> rpc_round ev s n m"
  "rpc_round ev s n m \<Longrightarrow> rpc_round ev s n (m\<lparr>votes_received := k\<rparr>)"
  by (simp_all add: rpc_round_def same_cluster_def peers_ok_def mirrored_def split: if_splits)

lemma replicate_peer_round: "replicate_peer ev nt n i = (m, stop) \<Longrightarrow> rpc_round ev stop n m"
proof -
  assume h: "replicate_peer ev nt n i = (m, stop)"
  let ?rq = "replicate_request n (peer_at n i)"
  let ?n0 = "n\<lparr>append_entries_sent := append_entries_sent n + 1\<rparr>"
  obtain p rsp where s: "raft_send_append_entries ev (ae_out nt i ?rq) (peer_at n i) = (p, rsp)" by fastforce
  have p: "peer_id p = peer_id (peer_at ?n0 i)" "next_index p = next_index (peer_at ?n0 i)"
    using send_frame(2) [OF s] by (simp_all add: peer_at_def)
  have one: "rpc_round ev False ?n0 (set_peer ?n0 i p)"
    using p by (simp add: rpc_round_set_peer)
  have two: "rpc_round ev False ?n0 (set_peer (set_peer ?n0 i p) i q)"
    if "peer_id q = peer_id p" "1 \<le> next_index p \<longrightarrow> 1 \<le> next_index q" for q
    using rpc_round_peer [OF p that] .
  have down: "rpc_round ev True ?n0 (raft_become_follower ev (set_peer ?n0 i p) t)" if "current_term n < t" for t
    using that by (intro rpc_round_trans [OF one rpc_round_follower]) simp
  have "rpc_round ev stop ?n0 m"
    using h two down unfolding replicate_peer_def by (auto simp: s Let_def split: if_splits)
  then show ?thesis by (rule rpc_round_sent)
qed

lemma election_peer_round: "election_peer ev out n i = (m, stop) \<Longrightarrow> rpc_round ev stop n m"
proof -
  assume h: "election_peer ev out n i = (m, stop)"
  obtain p rsp where s: "raft_send_request_vote out (peer_at n i) = (p, rsp)" by fastforce
  have p: "peer_id p = peer_id (peer_at n i)" "next_index p = next_index (peer_at n i)"
    using send_frame(1) [OF s] by simp_all
  have one: "rpc_round ev False n (set_peer n i p)"
    using p by (simp add: rpc_round_set_peer)
  have two: "rpc_round ev False n ((set_peer (set_peer n i p) i (p\<lparr>peer_vote_granted := True\<rparr>))
      \<lparr>votes_received := k\<rparr>)" for k
    by (rule rpc_round_sent(2) [OF rpc_round_peer [OF p]]) simp_all
  have down: "rpc_round ev True n (raft_become_follower ev (set_peer n i p) t)" if "current_term n < t" for t
    using that by (intro rpc_round_trans [OF one rpc_round_follower]) simp
  show ?thesis
    using h one two down unfolding election_peer_def by (auto simp: s Let_def split: if_splits)
qed

interpretation repl: rpc_loop ev "replicate_peer ev nt" for ev nt
  by unfold_locales (rule replicate_peer_round)

interpretation elec: rpc_loop ev "\<lambda>n i. election_peer ev (rv_out nt i rq) n i" for ev nt rq
  by unfold_locales (rule election_peer_round)

lemma replicate_loop_round: "replicate_loop ev nt is n = (m, stop) \<Longrightarrow> rpc_round ev stop n m"
  unfolding replicate_loop_def by (rule repl.loop_round)

lemma election_loop_round: "election_loop ev nt rq is n = (m, stop) \<Longrightarrow> rpc_round ev stop n m"
  unfolding election_loop_def by (rule elec.loop_round)

section \<open>The commit rule\<close>

text \<open>The index \<open>c\<close> may be committed: it is of the current term and a quorum (the leader included)
  reports to hold it.\<close>

definition committable :: "RaftNode \<Rightarrow> nat \<Rightarrow> bool" where
  "committable n c \<longleftrightarrow> raft_log_term_at (log n) c = current_term n \<and>
     replicated_count n c \<ge> quorum_size (cluster n)"

lemma commit_scan_bounds:
  "commit_index (log n) \<le> commit_scan n c"
  "commit_scan n c = commit_index (log n) \<or>
     commit_index (log n) < commit_scan n c \<and> commit_scan n c \<le> c \<and> committable n (commit_scan n c)"
  by (induction c) (auto simp: committable_def)

lemma commit_scan_max:
  "commit_scan n c < d \<Longrightarrow> d \<le> c \<Longrightarrow> \<not> committable n d"
proof (induction c)
  case (Suc c)
  show ?case
  proof (cases "d = Suc c")
    case True
    then show ?thesis using Suc.prems commit_scan_bounds(1) [of n c] by (auto simp: committable_def split: if_splits)
  next
    case False
    then show ?thesis using Suc commit_scan_bounds(1) [of n c] by (auto split: if_splits)
  qed
qed simp

lemma update_commit_frame [simp]:
  "current_term (raft_update_commit_index n) = current_term n"
  "voted_for (raft_update_commit_index n) = voted_for n"
  "state (raft_update_commit_index n) = state n" "is_leader (raft_update_commit_index n) = is_leader n"
  "node_id (raft_update_commit_index n) = node_id n" "cluster (raft_update_commit_index n) = cluster n"
  "running (raft_update_commit_index n) = running n" "applied (raft_update_commit_index n) = applied n"
  "apply_callback (raft_update_commit_index n) = apply_callback n"
  "state_file (raft_update_commit_index n) = state_file n"
  "last_heartbeat (raft_update_commit_index n) = last_heartbeat n"
  "last_applied (log (raft_update_commit_index n)) = last_applied (log n)"
  "first_index (log (raft_update_commit_index n)) = first_index (log n)"
  "last_index (log (raft_update_commit_index n)) = last_index (log n)"
  "entries (log (raft_update_commit_index n)) = entries (log n)"
  by (simp_all add: raft_update_commit_index_def)

lemma update_commit_wf: "log_wf (log n) \<Longrightarrow> log_wf (log (raft_update_commit_index n))"
  using commit_scan_bounds [of n "last_index (log n)"]
  by (auto simp: raft_update_commit_index_def log_wf_def)

section \<open>Well-formed nodes\<close>

definition node_wf :: "RaftNode \<Rightarrow> bool" where
  "node_wf n \<longleftrightarrow> 0 \<le> node_id n \<and> log_wf (log n) \<and> peers_ok n \<and> peer_count n \<le> RAFT_MAX_CLUSTER_SIZE \<and>
     quorum_size (cluster n) = (peer_count n + 1) div 2 + 1 \<and>
     (is_leader n \<longrightarrow> state n = RAFT_STATE_LEADER) \<and>
     (state n = RAFT_STATE_CANDIDATE \<longrightarrow> voted_for n = node_id n)"

lemma node_wf_log: "node_wf n \<Longrightarrow> log_wf (log n)"
  by (simp add: node_wf_def)

lemma node_wf_round: "node_wf n \<Longrightarrow> rpc_round ev stop n m \<Longrightarrow> node_wf m"
  using same_cluster_count [of n m]
  by (auto simp: node_wf_def rpc_round_def same_cluster_def split: if_splits)

lemma node_wf_update_commit: "node_wf n \<Longrightarrow> node_wf (raft_update_commit_index n)"
  using update_commit_wf [of n] by (simp add: node_wf_def peers_ok_def)

text \<open>What replication does: a round of calls, then possibly a new commit index.\<close>

lemma replicate_cases [case_names follower stepped_down replicated]:
  obtains "\<not> is_leader n" "raft_replicate ev nt n = n"
  | "is_leader n" "rpc_round ev True n (raft_replicate ev nt n)"
  | m where "is_leader n" "rpc_round ev False n m" "raft_replicate ev nt n = raft_update_commit_index m"
proof -
  obtain m stop where "replicate_loop ev nt [0 ..< peer_count n] n = (m, stop)" by fastforce
  then show ?thesis
    using that replicate_loop_round [of ev nt "[0 ..< peer_count n]" n m stop]
    by (cases "is_leader n"; cases stop) (auto simp: raft_replicate_def)
qed

lemma replicate_frame:
  assumes m: "m = raft_replicate ev nt n"
  shows "node_id m = node_id n" "running m = running n" "applied m = applied n"
    "apply_callback m = apply_callback n" "last_heartbeat m = last_heartbeat n"
    "first_index (log m) = first_index (log n)" "last_index (log m) = last_index (log n)"
    "entries (log m) = entries (log n)" "last_applied (log m) = last_applied (log n)"
    "commit_index (log n) \<le> commit_index (log m)" "same_cluster n m" "current_term n \<le> current_term m"
    "current_term m = current_term n \<Longrightarrow> voted_for m = voted_for n \<and> state m = state n \<and> is_leader m = is_leader n"
    "current_term m \<noteq> current_term n \<Longrightarrow> state m = RAFT_STATE_FOLLOWER \<and> \<not> is_leader m"
  unfolding m
  by (cases rule: replicate_cases [of n ev nt];
      simp add: rpc_round_def same_cluster_def raft_update_commit_index_def;
      metis commit_scan_bounds(1))+

lemma node_wf_replicate [wf_intros]: "node_wf n \<Longrightarrow> node_wf (raft_replicate ev nt n)"
  by (cases rule: replicate_cases [of n ev nt]) (auto intro: node_wf_update_commit node_wf_round)

lemma heartbeat_replicate [simp]: "raft_heartbeat ev nt n = raft_replicate ev nt n"
  by (simp add: raft_heartbeat_def raft_replicate_def)

lemma initialize_leader_frame [simp]:
  "log (raft_initialize_leader_state n) = log n" "node_id (raft_initialize_leader_state n) = node_id n"
  "current_term (raft_initialize_leader_state n) = current_term n"
  "voted_for (raft_initialize_leader_state n) = voted_for n"
  "state (raft_initialize_leader_state n) = state n" "is_leader (raft_initialize_leader_state n) = is_leader n"
  "running (raft_initialize_leader_state n) = running n" "applied (raft_initialize_leader_state n) = applied n"
  "apply_callback (raft_initialize_leader_state n) = apply_callback n"
  "state_file (raft_initialize_leader_state n) = state_file n"
  "peers_ok (raft_initialize_leader_state n)" "same_cluster n (raft_initialize_leader_state n)"
  "peer_count (raft_initialize_leader_state n) = peer_count n"
  "quorum_size (cluster (raft_initialize_leader_state n)) = quorum_size (cluster n)"
  by (simp_all add: raft_initialize_leader_state_def peers_ok_def same_cluster_def)

definition new_leader :: "RaftNode \<Rightarrow> RaftLog \<Rightarrow> RaftNode" where
  "new_leader n l = (raft_initialize_leader_state (n\<lparr>state := RAFT_STATE_LEADER, is_leader := True,
     leader_id := node_id n, elections_won := elections_won n + 1\<rparr>))\<lparr>log := l\<rparr>"

lemma new_leader_frame [simp]:
  "log (new_leader n l) = l" "node_id (new_leader n l) = node_id n"
  "current_term (new_leader n l) = current_term n" "voted_for (new_leader n l) = voted_for n"
  "state (new_leader n l) = RAFT_STATE_LEADER" "is_leader (new_leader n l)"
  "running (new_leader n l) = running n" "applied (new_leader n l) = applied n"
  "apply_callback (new_leader n l) = apply_callback n" "state_file (new_leader n l) = state_file n"
  "same_cluster n (new_leader n l)"
  by (simp_all add: new_leader_def same_cluster_def raft_initialize_leader_state_def)

lemma new_leader_wf: "node_wf n \<Longrightarrow> log_wf l \<Longrightarrow> node_wf (new_leader n l)"
  by (simp add: new_leader_def node_wf_def peers_ok_def raft_initialize_leader_state_def)

lemma become_leader_eq:
  "raft_become_leader ev nt n =
     map_option (\<lambda>l. raft_replicate ev nt (new_leader n l)) (raft_log_append ev (log n) [noop_entry ev n])"
  by (simp add: raft_become_leader_def new_leader_def noop_entry_def Let_def split: option.split)

lemma append_SomeD:
  assumes "log_wf l" "raft_log_append ev l es = Some l'"
  shows "log_wf l'" "first_index l' = first_index l" "last_index l' = last_index l + length es"
    "commit_index l' = commit_index l" "last_applied l' = last_applied l"
    "log_entries l' = log_entries l @
       map (\<lambda>(k, e). copy_entry (now ev) k e) (enumerate (last_index l + 1) es)"
proof -
  have room: "log_length l + length es \<le> RAFT_MAX_LOG_ENTRIES"
    using raft_log_append_overflow [OF assms(1), of es ev] assms(2) log_wf_bounds(6,7,9) [OF assms(1)]
    by (cases "es = []") (auto simp: not_less [symmetric])
  show "log_wf l'" "first_index l' = first_index l" "last_index l' = last_index l + length es"
    "commit_index l' = commit_index l" "last_applied l' = last_applied l"
    "log_entries l' = log_entries l @
       map (\<lambda>(k, e). copy_entry (now ev) k e) (enumerate (last_index l + 1) es)"
    using raft_log_append_spec [OF assms(1) room, of ev] assms(2) by (metis option.inject)+
qed

lemma become_leader_wf [wf_intros]:
  assumes "node_wf n" "raft_become_leader ev nt n = Some m"
  shows "node_wf m"
proof -
  obtain l where l: "raft_log_append ev (log n) [noop_entry ev n] = Some l"
    and m: "m = raft_replicate ev nt (new_leader n l)"
    using assms(2) by (auto simp: become_leader_eq)
  show ?thesis
    unfolding m by (intro node_wf_replicate new_leader_wf assms(1) append_SomeD(1) [OF node_wf_log [OF assms(1)] l])
qed

lemma election_begin_wf: "node_wf n \<Longrightarrow> node_wf (election_begin ev n)"
  by (simp add: election_begin_def node_wf_def peers_ok_def)

text \<open>An election ends in one of three ways.\<close>

lemma start_election_cases [consumes 1, case_names idle stepped_down lost won]:
  assumes "raft_start_election ev nt n = Some m"
  obtains "\<not> running n" "m = n"
  | "running n" "rpc_round ev True (election_begin ev n) m"
  | "running n" "rpc_round ev False (election_begin ev n) m" "\<not> election_won m"
  | k where "running n" "rpc_round ev False (election_begin ev n) k" "election_won k"
      "raft_become_leader ev nt k = Some m"
proof -
  let ?b = "election_begin ev n"
  obtain k stop where l: "election_loop ev nt (election_request ?b) [0 ..< peer_count ?b] ?b = (k, stop)"
    by fastforce
  note round = election_loop_round [OF l]
  show ?thesis
  proof (cases "running n")
    case False
    then show ?thesis using that(1) assms by (simp add: raft_start_election_def)
  next
    case True
    then have r: "(if stop then Some k else if election_won k then raft_become_leader ev nt k else Some k) = Some m"
      using assms l by (cases stop) (simp_all add: raft_start_election_def Let_def)
    show ?thesis
    proof (cases stop)
      case True
      then show ?thesis using that(2) r round \<open>running n\<close> by simp
    next
      case False
      then show ?thesis using that(3,4) r round \<open>running n\<close> by (cases "election_won k") simp_all
    qed
  qed
qed

lemma start_election_wf [wf_intros]:
  assumes "node_wf n" "raft_start_election ev nt n = Some m"
  shows "node_wf m"
  using assms(2)
proof (cases rule: start_election_cases)
  case (won k)
  then show ?thesis using become_leader_wf node_wf_round election_begin_wf assms(1) by blast
qed (use assms(1) node_wf_round election_begin_wf in blast)+

lemma apply_committed_frame [simp]:
  fixes n :: RaftNode
  shows "current_term (raft_apply_committed_entries n) = current_term n"
    "voted_for (raft_apply_committed_entries n) = voted_for n"
    "state (raft_apply_committed_entries n) = state n"
    "is_leader (raft_apply_committed_entries n) = is_leader n"
    "node_id (raft_apply_committed_entries n) = node_id n"
    "cluster (raft_apply_committed_entries n) = cluster n"
    "running (raft_apply_committed_entries n) = running n"
    "state_file (raft_apply_committed_entries n) = state_file n"
  by (induction n rule: raft_apply_committed_entries.induct;
      subst raft_apply_committed_entries.simps; simp add: apply_one_def Let_def split: option.split)+

lemma apply_committed_log:
  "last_applied (log n) \<le> commit_index (log n) \<Longrightarrow>
   log (raft_apply_committed_entries n) = (log n)\<lparr>last_applied := commit_index (log n)\<rparr>"
proof (induction n rule: raft_apply_committed_entries.induct)
  case (1 n)
  have "log (apply_one n) = (log n)\<lparr>last_applied := last_applied (log n) + 1\<rparr>"
    by (simp add: apply_one_def Let_def split: option.split)
  then show ?case
    using 1 by (auto simp: raft_apply_committed_entries.simps [of n])
qed

lemma apply_committed_wf [wf_intros]: "node_wf n \<Longrightarrow> node_wf (raft_apply_committed_entries n)"
  using apply_committed_log [of n] log_wf_bounds(4) [OF node_wf_log, of n]
  by (auto simp: node_wf_def peers_ok_def log_wf_def)

lemma tick_wf [wf_intros]:
  assumes "node_wf n" "raft_tick ev nt n = Some m"
  shows "node_wf m"
proof -
  have hb: "node_wf (raft_replicate ev nt n\<lparr>last_heartbeat := t\<rparr>)" for t
    using node_wf_replicate [OF assms(1), of ev nt] by (simp add: node_wf_def peers_ok_def)
  show ?thesis
    using assms hb start_election_wf [OF assms(1), of ev nt]
    by (auto simp: raft_tick_def Option.bind_eq_Some_conv intro!: apply_committed_wf
        split: RaftState.splits if_splits)
qed

lemma request_vote_wf [wf_intros]:
  assumes "node_wf n" "raft_request_vote ev n rq = (m, rsp)"
  shows "node_wf m"
proof (cases rule: request_vote_cases [OF assms(2)])
  case 1
  then show ?thesis using assms(1) by simp
next
  case (2 n1)
  then show ?thesis using assms(1) by (auto simp: node_wf_def peers_ok_def)
next
  case (3 n1)
  have "state n1 = RAFT_STATE_CANDIDATE \<longrightarrow> voted_for n1 = node_id n1 \<and> node_id n1 = candidate_id rq \<or> voted_for n1 = -1"
    using 3(2,3) assms(1) by (auto simp: node_wf_def)
  then show ?thesis using 3 assms(1) by (auto simp: node_wf_def peers_ok_def)
qed

text \<open>The requests a log can take: they do not start below the compacted prefix and fit the array.\<close>

definition ae_fits :: "RaftNode \<Rightarrow> AppendEntriesRequest \<Rightarrow> bool" where
  "ae_fits n rq \<longleftrightarrow> first_index (log n) \<le> prev_log_index rq + 1 \<and>
     prev_log_index rq + 1 - first_index (log n) + length (ae_entries rq) \<le> RAFT_MAX_LOG_ENTRIES"

lemma append_entries_wf [wf_intros]:
  assumes "node_wf n" "raft_append_entries ev n rq = Some (m, rsp)" "ae_accepts n rq \<longrightarrow> ae_fits n rq"
  shows "node_wf m"
proof -
  note f = append_entries_frame [OF assms(2)]
  have "log_wf (log m)"
  proof (cases "ae_accepts n rq")
    case True
    then have fits: "first_index (log n) \<le> prev_log_index rq + 1"
      "prev_log_index rq + 1 - first_index (log n) + length (ae_entries rq) \<le> RAFT_MAX_LOG_ENTRIES"
      using assms(3) unfolding ae_fits_def by blast+
    obtain n' rsp' where "raft_append_entries ev n rq = Some (n', rsp')" "log_wf (log n')"
      using append_entries_accepted [OF node_wf_log [OF assms(1)] True fits] by metis
    then show ?thesis using assms(2) by simp
  next
    case False
    then show ?thesis using append_entries_rejected_log [OF _ assms(2)] node_wf_log [OF assms(1)] by simp
  qed
  moreover have "m = n \<or> state m = RAFT_STATE_FOLLOWER \<and> \<not> is_leader m \<or>
      state m = state n \<and> voted_for m = voted_for n \<and> is_leader m = is_leader n"
  proof (cases "ae_term rq < current_term n")
    case False
    then have "ae_term rq = current_term n" if "current_term m = current_term n" using f(4) that by simp
    then show ?thesis
      using f(9,10) by (cases "current_term m = current_term n"; cases "state n = RAFT_STATE_CANDIDATE") simp_all
  qed (use f(8) in simp)
  ultimately show ?thesis
    using assms(1) f(1,2) by (elim disjE) (auto simp: node_wf_def peers_ok_def)
qed

lemma peer_table_wf [wf_intros]:
  "node_wf n \<Longrightarrow> raft_add_peer n pid host prt = Inr m \<Longrightarrow> node_wf m"
  "node_wf n \<Longrightarrow> node_wf (raft_remove_peer n pid)"
  "node_wf n \<Longrightarrow> node_wf (raft_connect_peers alive connect n)"
  "node_wf n \<Longrightarrow> node_wf (raft_disconnect_peers n)"
proof -
  show "node_wf n \<Longrightarrow> raft_add_peer n pid host prt = Inr m \<Longrightarrow> node_wf m"
    by (auto simp: raft_add_peer_def Let_def node_wf_def peers_ok_def split: if_splits)
  have "remove_first pid ps = Some qs \<Longrightarrow> length ps = Suc (length qs) \<and> set qs \<subseteq> set ps" for ps qs
    by (induction ps arbitrary: qs) (auto split: if_splits)
  then show "node_wf n \<Longrightarrow> node_wf (raft_remove_peer n pid)"
    by (fastforce simp: raft_remove_peer_def node_wf_def peers_ok_def split: option.splits)
  show "node_wf n \<Longrightarrow> node_wf (raft_connect_peers alive connect n)"
    "node_wf n \<Longrightarrow> node_wf (raft_disconnect_peers n)"
    by (auto simp: raft_connect_peers_def raft_disconnect_peers_def node_wf_def peers_ok_def)
qed

lemma stop_wf [wf_intros]: "node_wf n \<Longrightarrow> node_wf (raft_stop ev n)"
  by (simp add: raft_stop_def node_wf_def peers_ok_def Let_def wf_intros)

lemma start_wf [wf_intros]: "node_wf n \<Longrightarrow> \<not> is_leader n \<Longrightarrow> raft_start ev n = Inr m \<Longrightarrow> node_wf m"
  by (auto simp: raft_start_def node_wf_def peers_ok_def split: if_splits)

section \<open>Commands\<close>

lemma submit_command_spec:
  assumes wf: "node_wf n" and lead: "is_leader n" and room: "log_length (log n) < RAFT_MAX_LOG_ENTRIES"
    and cmd: "command \<noteq> []"
  obtains m where "raft_submit_command ev nt n command = Some (m, last_index (log n) + 1)" "node_wf m"
    "raft_log_get (log m) (last_index (log n) + 1) =
       Some (copy_entry (now ev) (last_index (log n) + 1)
         \<lparr>e_index = 0, e_term = current_term n, e_type = RAFT_LOG_COMMAND,
          command_size = int (length command), command_data = Some command, created_at = now ev\<rparr>)"
    "\<forall>i \<le> last_index (log n). raft_log_get (log m) i = raft_log_get (log n) i"
    "commit_index (log n) \<le> commit_index (log m)"
proof -
  let ?e = "\<lparr>e_index = 0, e_term = current_term n, e_type = RAFT_LOG_COMMAND,
    command_size = int (length command), command_data = Some command, created_at = now ev\<rparr>"
  let ?i = "last_index (log n) + 1"
  note lwf = node_wf_log [OF wf]
  obtain l where l: "raft_log_append ev (log n) [?e] = Some l"
    using lg.app_some [OF lwf, of ev ?e] room lwf by auto
  note a = append_SomeD [OF lwf l]
  let ?m = "raft_replicate ev nt (n\<lparr>log := l\<rparr>)"
  note f = replicate_frame [of _ ev nt "n\<lparr>log := l\<rparr>", OF refl]
  have get: "raft_log_get (log ?m) = raft_log_get l"
    using f by (simp add: raft_log_get_def fun_eq_iff)
  have base: "first_index (log n) + length (log_entries (log n)) = ?i"
    using lwf log_wf_bounds [OF lwf] by simp
  have gl: "raft_log_get l i = (if i = ?i then Some (copy_entry (now ev) i ?e) else raft_log_get (log n) i)" for i
    using lg.get_app [OF lwf l, of i] base by simp
  have nwf: "node_wf (n\<lparr>log := l\<rparr>)" using wf a(1) by (simp add: node_wf_def peers_ok_def)
  show ?thesis
  proof (rule that [of ?m])
    show "raft_submit_command ev nt n command = Some (?m, ?i)"
      using lead l f a(3) by (simp add: raft_submit_command_def Let_def)
    show "node_wf ?m" by (rule node_wf_replicate [OF nwf])
    show "commit_index (log n) \<le> commit_index (log ?m)" using f(10) a(4) by simp
  qed (use get gl in auto)
qed

section \<open>Waiting for a commit\<close>

text \<open>With a free cell in the log a tick is defined; it uses at most that cell.\<close>

lemma start_election_defined:
  assumes "node_wf n" "log_length (log n) < RAFT_MAX_LOG_ENTRIES"
  obtains m where "raft_start_election ev nt n = Some m" "log_length (log m) \<le> log_length (log n) + 1"
proof -
  let ?b = "election_begin ev n"
  obtain k stop where l: "election_loop ev nt (election_request ?b) [0 ..< peer_count ?b] ?b = (k, stop)"
    by fastforce
  have k: "log k = log n" using election_loop_round [OF l] by (simp add: rpc_round_def election_begin_def)
  have lwf: "log_wf (log n)" by (rule node_wf_log [OF assms(1)])
  obtain l' where l': "raft_log_append ev (log k) [noop_entry ev k] = Some l'"
    using lg.app_some [OF lwf, of ev "noop_entry ev k"] assms(2) lwf k by auto
  have len: "log_length l' = log_length (log n) + 1"
    using append_SomeD(2,3) [OF _ l'] k lwf log_wf_bounds(2) [OF lwf] by simp
  let ?m = "raft_replicate ev nt (new_leader k l')"
  have bl: "raft_become_leader ev nt k = Some ?m" using l' by (simp add: become_leader_eq)
  have "log_length (log ?m) = log_length l'"
    using replicate_frame(6,7) [of ?m ev nt "new_leader k l'", OF refl] by simp
  then have "raft_start_election ev nt n \<in> {Some n, Some k, Some ?m}"
    "\<forall>x \<in> {n, k, ?m}. log_length (log x) \<le> log_length (log n) + 1"
    using l bl k len by (auto simp: raft_start_election_def Let_def split: bool.split)
  then show ?thesis using that by blast
qed

lemma tick_defined:
  assumes "node_wf n" "log_length (log n) < RAFT_MAX_LOG_ENTRIES"
  obtains m where "raft_tick ev nt n = Some m" "log_length (log m) \<le> log_length (log n) + 1"
proof -
  have ap: "log_length (log (raft_apply_committed_entries k)) = log_length (log k)" if "node_wf k" for k
    using apply_committed_log [of k] log_wf_bounds(4) [OF node_wf_log [OF that]] by simp
  obtain k where k: "raft_start_election ev nt n = Some k" "log_length (log k) \<le> log_length (log n) + 1"
    using start_election_defined [OF assms] by blast
  note kwf = start_election_wf [OF assms(1) k(1)]
  let ?h = "(raft_replicate ev nt n)\<lparr>last_heartbeat := now ev\<rparr>"
  have h: "node_wf ?h" "log_length (log ?h) = log_length (log n)"
    using node_wf_replicate [OF assms(1), of ev nt] replicate_frame(6,7) [of "raft_replicate ev nt n" ev nt n, OF refl]
    by (simp_all add: node_wf_def peers_ok_def)
  have "\<exists>m. raft_tick ev nt n = Some m \<and> log_length (log m) \<le> log_length (log n) + 1"
    using k ap [OF kwf] ap [OF assms(1)] ap [OF h(1)] h(2)
    by (cases "state n") (auto simp: raft_tick_def)
  then show ?thesis using that by blast
qed

lemma wait_loop_returns:
  assumes "node_wf n" "log_length (log n) + j \<le> RAFT_MAX_LOG_ENTRIES" "deadline \<le> now (fst (inp (k + j)))"
  shows "\<exists>m b. wait_loop inp deadline i k n = Some (m, b) \<and> node_wf m \<and> (b \<longrightarrow> raft_is_committed m i)"
  using assms
proof (induction j arbitrary: k n)
  case 0
  then show ?case by (subst wait_loop.simps) auto
next
  case (Suc j)
  have room: "log_length (log n) < RAFT_MAX_LOG_ENTRIES" using Suc.prems(2) by linarith
  obtain m where m: "raft_tick (fst (inp k)) (snd (inp k)) n = Some m" "log_length (log m) \<le> log_length (log n) + 1"
    using tick_defined [OF Suc.prems(1) room] by blast
  have room': "log_length (log m) + j \<le> RAFT_MAX_LOG_ENTRIES" using Suc.prems(2) m(2) by linarith
  have dl: "deadline \<le> now (fst (inp (Suc k + j)))" using Suc.prems(3) by simp
  note ih = Suc.IH [OF tick_wf [OF Suc.prems(1) m(1)] room' dl]
  show ?case
    by (subst wait_loop.simps) (use ih m(1) Suc.prems(1) in auto)
qed

section \<open>Read index\<close>

text \<open>Peer \<open>i\<close> acknowledges the leader's heartbeat.\<close>

definition acked :: "net \<Rightarrow> RaftNode \<Rightarrow> nat \<Rightarrow> bool" where
  "acked nt n i \<longleftrightarrow> is_active (peer_at n i) \<and>
     (case ae_out nt i (heartbeat_request n (peer_at n i)) of
        RPC_reply (t, s, _) \<Rightarrow> s \<and> t \<le> current_term n | _ \<Rightarrow> False)"

lemma read_index_peer_spec:
  assumes "read_index_peer ev nt n i = (m, a, False)" "is_active (peer_at n i)"
  shows "a = (if acked nt n i then 1 else 0)" "current_term m = current_term n"
    "j \<noteq> i \<Longrightarrow> acked nt m j = acked nt n j" "log m = log n"
proof -
  obtain p rsp where s:
    "raft_send_append_entries ev (ae_out nt i (heartbeat_request n (peer_at n i))) (peer_at n i) = (p, rsp)"
    by fastforce
  have pa: "j \<noteq> i \<Longrightarrow> peer_at (set_peer k i q) j = peer_at k j" for q j and k :: RaftNode
    by (simp add: peer_at_def)
  have hr: "heartbeat_request (set_peer k i q) = heartbeat_request k" for k q
    by (simp add: heartbeat_request_def fun_eq_iff)
  have ac: "j \<noteq> i \<Longrightarrow> acked nt (set_peer k i q) j = acked nt k j" for k q j
    by (simp add: acked_def pa hr split: rpc_outcome.split)
  show "current_term m = current_term n" "log m = log n" "j \<noteq> i \<Longrightarrow> acked nt m j = acked nt n j"
    using assms(1) by (auto simp: read_index_peer_def s Let_def ac split: if_splits)
  show "a = (if acked nt n i then 1 else 0)"
    using assms s by (auto simp: read_index_peer_def Let_def acked_def raft_send_append_entries_def
        split: if_splits rpc_outcome.splits prod.splits)
qed

lemma read_index_loop_acks:
  assumes "read_index_loop ev nt is a n = (m, b, False)" "distinct is"
  shows "b = a + card {i \<in> set is. acked nt n i}" "current_term m = current_term n" "log m = log n"
proof -
  have "b = a + card {i \<in> set is. acked nt n i} \<and> current_term m = current_term n \<and> log m = log n"
    using assms
  proof (induction "is" arbitrary: a n)
    case (Cons i "is")
    show ?case
    proof (cases "is_active (peer_at n i)")
      case False
      then have "\<not> acked nt n i" by (simp add: acked_def)
      then have "{j \<in> set (i # is). acked nt n j} = {j \<in> set is. acked nt n j}" by auto
      then show ?thesis using Cons.IH [of a n] Cons.prems False by simp
    next
      case True
      obtain n1 a1 s where one: "read_index_peer ev nt n i = (n1, a1, s)" by (rule prod_cases3)
      have s: "\<not> s" using Cons.prems(1) True one by (cases s) auto
      have one': "read_index_peer ev nt n i = (n1, a1, False)" using one s by simp
      have loop: "read_index_loop ev nt is (a + a1) n1 = (m, b, False)" using Cons.prems(1) True one s by simp
      note sp = read_index_peer_spec [OF one' True]
      have "i \<notin> set is" using Cons.prems(2) by simp
      then have "{j \<in> set is. acked nt n1 j} = {j \<in> set is. acked nt n j}"
        using sp(3) by (intro Collect_cong) metis
      moreover have "{j \<in> set (i # is). acked nt n j} =
          (if acked nt n i then insert i {j \<in> set is. acked nt n j} else {j \<in> set is. acked nt n j})" by auto
      ultimately show ?thesis
        using Cons.IH [OF loop] Cons.prems(2) sp \<open>i \<notin> set is\<close> by simp
    qed
  qed simp
  then show "b = a + card {i \<in> set is. acked nt n i}" "current_term m = current_term n" "log m = log n"
    by auto
qed

section \<open>Properties\<close>

text \<open>C2: the commit rule. On a leader the commit index moves to the highest index between the old
  commit index and the end of the log that is of the current term and reported held by a quorum, the
  leader counted; without such an index, or on another node, nothing changes.\<close>

theorem commit_rule:
  "raft_update_commit_index n =
     (if is_leader n
      then n\<lparr>log := (log n)\<lparr>commit_index := Max (insert (commit_index (log n))
             {c. commit_index (log n) < c \<and> c \<le> last_index (log n) \<and> committable n c})\<rparr>\<rparr>
      else n)"
proof -
  let ?c = "commit_index (log n)" and ?l = "last_index (log n)"
  let ?C = "{c. ?c < c \<and> c \<le> ?l \<and> committable n c}"
  have fin: "finite (insert ?c ?C)" by (rule finite_subset [of _ "insert ?c {..?l}"]) auto
  have "commit_scan n ?l \<in> insert ?c ?C"
    using commit_scan_bounds(2) [of n ?l] by auto
  moreover have "c \<le> commit_scan n ?l" if "c \<in> insert ?c ?C" for c
    using that commit_scan_bounds(1) [of n ?l] commit_scan_max [of n ?l c] by (auto simp: not_less [symmetric])
  ultimately have "Max (insert ?c ?C) = commit_scan n ?l" using fin by (intro Max_eqI) auto
  then show ?thesis by (simp add: raft_update_commit_index_def)
qed

text \<open>a leader with a free cell in its log stores a submitted command under the index it returns,
  as a command entry of its current term with exactly the submitted bytes; no earlier entry changes,
  the commit index does not go back, and a node that is not leader returns 0 and does nothing.\<close>

theorem submitted_command_is_stored:
  assumes "node_wf n" "is_leader n" "log_length (log n) < RAFT_MAX_LOG_ENTRIES" "command \<noteq> []"
  shows "\<exists>m e. raft_submit_command ev nt n command = Some (m, last_index (log n) + 1) \<and>
    raft_log_get (log m) (last_index (log n) + 1) = Some e \<and> e_index e = last_index (log n) + 1 \<and>
    e_term e = current_term n \<and> e_type e = RAFT_LOG_COMMAND \<and> command_data e = Some command \<and>
    (\<forall>i \<le> last_index (log n). raft_log_get (log m) i = raft_log_get (log n) i) \<and>
    commit_index (log n) \<le> commit_index (log m) \<and>
    raft_submit_command ev nt (n\<lparr>is_leader := False\<rparr>) command = Some (n\<lparr>is_leader := False\<rparr>, 0)"
proof -
  obtain m where "raft_submit_command ev nt n command = Some (m, last_index (log n) + 1)"
    "raft_log_get (log m) (last_index (log n) + 1) =
       Some (copy_entry (now ev) (last_index (log n) + 1)
         \<lparr>e_index = 0, e_term = current_term n, e_type = RAFT_LOG_COMMAND,
          command_size = int (length command), command_data = Some command, created_at = now ev\<rparr>)"
    "\<forall>i \<le> last_index (log n). raft_log_get (log m) i = raft_log_get (log n) i"
    "commit_index (log n) \<le> commit_index (log m)"
    using submit_command_spec [OF assms] by blast
  then show ?thesis using assms(4) by (auto simp: copy_entry_def raft_submit_command_def)
qed

definition sample_leader :: "RaftNode" where
  "sample_leader = (sample_node 1 2 (sample_log 1 [1, 1, 2] 1))\<lparr>state := RAFT_STATE_LEADER, is_leader := True\<rparr>"

definition quiet_net :: net where
  "quiet_net = \<lparr>rv_out = (\<lambda>_ _. RPC_no_connection), ae_out = (\<lambda>_ _. RPC_no_connection)\<rparr>"

lemma sample_leader_wf: "node_wf sample_leader"
  unfolding node_wf_def peers_ok_def using sample_log_wf
  by (simp add: sample_leader_def sample_node_def)

lemma submitted_command_is_stored_witness:
  "\<exists>m e. raft_submit_command sample_env quiet_net sample_leader [65, 66] = Some (m, 4) \<and>
    raft_log_get (log m) 4 = Some e \<and> e_term e = 2 \<and> command_data e = Some [65, 66]"
proof -
  have h: "is_leader sample_leader" "log_length (log sample_leader) < RAFT_MAX_LOG_ENTRIES"
    "[65, 66 :: u8] \<noteq> []" by code_simp+
  have v: "last_index (log sample_leader) + 1 = 4" "current_term sample_leader = 2" by code_simp+
  show ?thesis
    using submitted_command_is_stored [OF sample_leader_wf h, of sample_env quiet_net] unfolding v by blast
qed

text \<open>C34: waiting for a commit ends. If the clock has reached the deadline by round \<open>j\<close> and the log has
  room for the \<open>j\<close> no-op entries that elections on the way may append, the call returns, and it
  returns true only when the entry is committed.\<close>

theorem wait_for_commit_returns:
  assumes "node_wf n" "log_length (log n) + j \<le> RAFT_MAX_LOG_ENTRIES"
    and "now ev + timeout_ms * 1000 \<le> now (fst (inp j))"
  shows "\<exists>m b. raft_wait_for_commit ev inp n i timeout_ms = Some (m, b) \<and> node_wf m \<and>
    (b \<longrightarrow> i \<le> commit_index (log m))"
  using wait_loop_returns [of n j "now ev + timeout_ms * 1000" inp 0 i] assms
  by (simp add: raft_wait_for_commit_def raft_is_committed_def)

lemma wait_for_commit_returns_witness:
  "\<exists>m b. raft_wait_for_commit sample_env (\<lambda>k. (sample_env\<lparr>now := 1000 + 700 * int k\<rparr>, quiet_net))
      sample_leader 2 1 = Some (m, b) \<and> node_wf m \<and> (b \<longrightarrow> 2 \<le> commit_index (log m))"
  by (rule wait_for_commit_returns [of _ 2])
     (simp_all add: sample_leader_wf, simp_all add: sample_leader_def sample_defs)

text \<open>a read index is confirmed by a quorum. When a running leader with peers returns a read index
  other than 0, the index is its commit index, its term has not changed, and together with the leader
  a quorum acknowledged its heartbeat in a term that is not higher.\<close>

theorem read_index_needs_quorum:
  assumes "running n" "is_leader n" "0 < peer_count n"
    and "raft_read_index ev nt out inp n timeout_ms = Some (m, r)" "r \<noteq> 0"
  shows "r = commit_index (log n) \<and> current_term m = current_term n \<and> log m = log n \<and>
    quorum_size (cluster n) \<le> 1 + card {i. i < peer_count n \<and> acked nt n i}"
proof -
  obtain k a s where l: "read_index_loop ev nt [0 ..< peer_count n] 0 n = (k, a, s)" by (rule prod_cases3)
  have s: "\<not> s" and a: "quorum_size (cluster n) - 1 \<le> a" and r: "r = commit_index (log n)" and m: "m = k"
    using assms l by (auto simp: raft_read_index_def Let_def split: if_splits bool.splits)
  have l': "read_index_loop ev nt [0 ..< peer_count n] 0 n = (k, a, False)" using l s by simp
  have "{i \<in> set [0 ..< peer_count n]. acked nt n i} = {i. i < peer_count n \<and> acked nt n i}" by auto
  then show ?thesis using read_index_loop_acks [OF l'] a r m by simp
qed

definition sample_peer :: "int \<Rightarrow> nat \<Rightarrow> RaftPeer" where
  "sample_peer i nxt = \<lparr>peer_id = i, hostname = ''h'', port = 5432, is_active = True, next_index = nxt,
     peer_match_index = 0, last_contact = 0, connection = True, peer_vote_granted = False\<rparr>"

definition sample_trio :: RaftNode where
  "sample_trio = sample_leader\<lparr>cluster := \<lparr>peers = [sample_peer 2 4, sample_peer 3 4], quorum_size = 2,
     my_node_id = 1\<rparr>\<rparr>"

definition half_net :: net where
  "half_net = \<lparr>rv_out = (\<lambda>_ _. RPC_no_connection),
     ae_out = (\<lambda>i rq. if i = 0 then RPC_reply (ae_term rq, True, prev_log_index rq) else RPC_no_connection)\<rparr>"

lemma read_index_needs_quorum_witness:
  "quorum_size (cluster sample_trio) \<le> 1 + card {i. i < peer_count sample_trio \<and> acked half_net sample_trio i} \<and>
   map_option snd (raft_read_index sample_env half_net RPC_no_connection (\<lambda>_. (sample_env, half_net))
     sample_trio 10) = Some 1"
proof -
  let ?call = "raft_read_index sample_env half_net RPC_no_connection (\<lambda>_. (sample_env, half_net)) sample_trio 10"
  have h: "running sample_trio" "is_leader sample_trio" "0 < peer_count sample_trio" by code_simp+
  have r: "map_option snd ?call = Some 1" 
    by (simp add: raft_read_index_def sample_trio_def sample_leader_def sample_node_def sample_log_def
        sample_peer_def half_net_def read_index_peer_def raft_send_append_entries_def heartbeat_request_def
        peer_at_def set_peer_def sample_env_def upt_rec)
  then obtain m where "?call = Some (m, 1)" by auto
  from read_index_needs_quorum [OF h this] r show ?thesis by simp
qed

text \<open>heartbeats do not refresh bounded-stale reads. A follower that accepts or rejects
  AppendEntries decides on follower reads exactly as before the call, however recent the leader's
  message: \<^verbatim>\<open>last_heartbeat\<close> is written by leaders only.\<close>

theorem follower_read_ignores_heartbeats:
  assumes "raft_append_entries ev n rq = Some (m, rsp)" "\<not> is_leader n"
  shows "raft_follower_read ev' m k = raft_follower_read ev' n k"
proof -
  have "last_heartbeat m = last_heartbeat n \<and> (is_leader m \<longrightarrow> is_leader n)"
    using assms(1) by (auto simp: raft_append_entries_def Let_def raft_become_follower_def
        split: if_splits option.splits)
  then show ?thesis using assms(2) by (simp add: raft_follower_read_def)
qed

lemma follower_read_ignores_heartbeats_witness:
  "\<exists>m rsp. raft_append_entries (sample_env\<lparr>now := 900000\<rparr>) (sample_node 1 2 (sample_log 1 [1, 1, 2] 1))
      (sample_append 3 3 2 [] 3) = Some (m, rsp) \<and> aer_success rsp \<and>
    \<not> raft_follower_read (sample_env\<lparr>now := 900001\<rparr>) m 500"
proof -
  let ?n = "sample_node 1 2 (sample_log 1 [1, 1, 2] 1)" and ?ev = "sample_env\<lparr>now := 900000\<rparr>"
  have "map_option (\<lambda>(m, r). aer_success r) (raft_append_entries ?ev ?n (sample_append 3 3 2 [] 3)) = Some True"
    by (simp add: raft_append_entries_def sample_defs sample_append_def raft_log_term_at_def raft_log_get_def
        raft_become_follower_def Let_def)
  then obtain m rsp where r: "raft_append_entries ?ev ?n (sample_append 3 3 2 [] 3) = Some (m, rsp)" "aer_success rsp"
    by auto
  have "\<not> is_leader ?n" "\<not> raft_follower_read (sample_env\<lparr>now := 900001\<rparr>) ?n 500" by code_simp+
  then show ?thesis using follower_read_ignores_heartbeats [OF r(1)] r by blast
qed

end
