(* ===== verification/Raft_Txn.thy ===== *)
theory Raft_Txn
  imports Raft_Leader
begin

text \<open>
  Distributed transactions over the Raft log (\<^verbatim>\<open>consensus/raft_integration.c\<close>): the shared state that the
  worker publishes, the tracker of submitted transactions, the callback that applies committed
  entries, and the entry points for submitting, preparing, committing and aborting a transaction and
  for the two remote calls. A global transaction id is a C string, its bytes without the closing zero;
  the tracker's hash table compares the first 64 of them. The pointers \<^verbatim>\<open>raft_shared_state\<close>,
  \<^verbatim>\<open>local_raft_node\<close> and \<^verbatim>\<open>transaction_tracker\<close> may be null. Calls of the user's apply callback are
  recorded in \<open>user_calls\<close>.
\<close>

section \<open>State\<close>

datatype RaftTransactionStatus =
  RAFT_TXN_UNKNOWN | RAFT_TXN_PENDING | RAFT_TXN_PREPARED | RAFT_TXN_COMMITTED | RAFT_TXN_ABORTED

record RaftTransactionEntry =
  te_gid :: bytes
  te_log_index :: nat
  te_term :: nat
  te_status :: RaftTransactionStatus
  submitted_at :: int
  committed_at :: int
  te_command_size :: int
  te_command_hash :: u32

record RaftSharedState =
  sh_my_node_id :: int
  current_leader_id :: int
  sh_current_term :: nat
  current_state :: RaftState
  cluster_size :: int
  sh_quorum_size :: int
  commands_submitted :: nat
  commands_committed :: nat
  elections_held :: nat
  pending_commands :: int
  last_committed_index :: nat

record txn_state =
  shared_state :: "RaftSharedState option"
  local_raft_node :: "RaftNode option"
  transaction_tracker :: "(bytes \<rightharpoonup> RaftTransactionEntry) option"
  user_callback :: bool
  user_calls :: "(bytes \<times> bytes \<times> int) list"

text \<open>The key under which the table stores a gid.\<close>

definition gid_key :: "bytes \<Rightarrow> bytes" where
  "gid_key g = take 64 g"

definition raft_shmem_init :: "int \<Rightarrow> RaftSharedState" where
  "raft_shmem_init me =
     \<lparr>sh_my_node_id = me, current_leader_id = -1, sh_current_term = 0, current_state = RAFT_STATE_FOLLOWER,
      cluster_size = 1, sh_quorum_size = 1, commands_submitted = 0, commands_committed = 0,
      elections_held = 0, pending_commands = 0, last_committed_index = 0\<rparr>"

definition raft_update_shared_state :: "RaftNode \<Rightarrow> RaftSharedState \<Rightarrow> RaftSharedState" where
  "raft_update_shared_state n sh =
     sh\<lparr>current_leader_id := leader_id n, sh_current_term := current_term n, current_state := state n,
        cluster_size := int (peer_count n) + 1, sh_quorum_size := int (quorum_size (cluster n)),
        last_committed_index := commit_index (log n), elections_held := elections_started n\<rparr>"

section \<open>The tracker\<close>

definition command_hash :: "bytes option \<Rightarrow> int \<Rightarrow> u32" where
  "command_hash data sz =
     (case data of None \<Rightarrow> 0
      | Some d \<Rightarrow> if sz \<le> 0 then 0
                 else foldl (\<lambda>h b. (push_bit 5 h + h) + ucast b) 5381 (take (nat sz) d))"

definition expired :: "int \<Rightarrow> RaftTransactionEntry \<Rightarrow> bool" where
  "expired t e \<longleftrightarrow> (te_status e = RAFT_TXN_COMMITTED \<or> te_status e = RAFT_TXN_ABORTED) \<and>
     committed_at e \<noteq> 0 \<and> committed_at e < t - 5 * 60 * 1000000"

definition transaction_tracker_remove_old ::
  "int \<Rightarrow> (bytes \<rightharpoonup> RaftTransactionEntry) \<Rightarrow> (bytes \<rightharpoonup> RaftTransactionEntry)" where
  "transaction_tracker_remove_old t m = (\<lambda>g. case m g of None \<Rightarrow> None | Some e \<Rightarrow> if expired t e then None else Some e)"

definition transaction_tracker_add ::
  "int \<Rightarrow> bytes \<Rightarrow> nat \<Rightarrow> nat \<Rightarrow> bytes \<Rightarrow> txn_state \<Rightarrow> txn_state" where
  "transaction_tracker_add t gid log_index tm command s =
     (let m = transaction_tracker_remove_old t (case_option Map.empty id (transaction_tracker s));
          e = (case m (gid_key gid) of
                 None \<Rightarrow> \<lparr>te_gid = gid_key gid, te_log_index = log_index, te_term = tm, te_status = RAFT_TXN_PENDING,
                          submitted_at = t, committed_at = 0, te_command_size = int (length command),
                          te_command_hash = command_hash (Some command) (int (length command))\<rparr>
               | Some e \<Rightarrow> e\<lparr>te_log_index := log_index, te_term := tm, te_status := RAFT_TXN_PENDING, submitted_at := t\<rparr>)
      in s\<lparr>transaction_tracker := Some (m(gid_key gid \<mapsto> e))\<rparr>)"

definition transaction_tracker_find :: "bytes \<Rightarrow> txn_state \<Rightarrow> RaftTransactionEntry option" where
  "transaction_tracker_find gid s = (case transaction_tracker s of None \<Rightarrow> None | Some m \<Rightarrow> m (gid_key gid))"

definition transaction_tracker_update_status :: "int \<Rightarrow> bytes \<Rightarrow> RaftTransactionStatus \<Rightarrow> txn_state \<Rightarrow> txn_state" where
  "transaction_tracker_update_status t gid st s =
     (case transaction_tracker s of None \<Rightarrow> s
      | Some m \<Rightarrow>
          (case m (gid_key gid) of None \<Rightarrow> s
           | Some e \<Rightarrow>
               let e1 = e\<lparr>te_status := st\<rparr>;
                   e2 = (if st = RAFT_TXN_COMMITTED \<or> st = RAFT_TXN_ABORTED then e1\<lparr>committed_at := t\<rparr> else e1)
               in s\<lparr>transaction_tracker := Some (m(gid_key gid \<mapsto> e2))\<rparr>))"

definition transaction_tracker_verify_commit :: "int \<Rightarrow> bytes \<Rightarrow> RaftNode \<Rightarrow> txn_state \<Rightarrow> txn_state \<times> bool" where
  "transaction_tracker_verify_commit t gid n s =
     (case transaction_tracker_find gid s of None \<Rightarrow> (s, False)
      | Some e \<Rightarrow>
          if te_status e = RAFT_TXN_COMMITTED then (s, True)
          else if te_log_index e > commit_index (log n) then (s, False)
          else (case raft_log_get (log n) (te_log_index e) of None \<Rightarrow> (s, False)
                | Some le \<Rightarrow>
                    if e_term le \<noteq> te_term e
                    then (transaction_tracker_update_status t gid RAFT_TXN_ABORTED s, False)
                    else if command_hash (command_data le) (command_size le) \<noteq> te_command_hash e \<or>
                            command_size le \<noteq> te_command_size e
                    then (transaction_tracker_update_status t gid RAFT_TXN_ABORTED s, False)
                    else (transaction_tracker_update_status t gid RAFT_TXN_COMMITTED s, True)))"

section \<open>Applying entries\<close>

definition c_prefix :: "string \<Rightarrow> bytes \<Rightarrow> bool" where
  "c_prefix p d \<longleftrightarrow> take (length p) d = map of_char p"

text \<open>The gid at the start of a command: up to 64 bytes, ending before the first zero byte.\<close>

definition entry_gid :: "bytes \<Rightarrow> bytes" where
  "entry_gid d = takeWhile (\<lambda>b. b \<noteq> 0) (take 64 d)"

definition apply_status :: "bytes \<Rightarrow> RaftTransactionStatus" where
  "apply_status d =
     (if c_prefix ''COMMIT:'' d then RAFT_TXN_COMMITTED
      else if c_prefix ''ABORT:'' d then RAFT_TXN_ABORTED
      else if c_prefix ''PREPARE:'' d then RAFT_TXN_PREPARED
      else RAFT_TXN_COMMITTED)"

definition raft_apply_entry_callback :: "int \<Rightarrow> RaftLogEntry \<Rightarrow> txn_state \<Rightarrow> txn_state" where
  "raft_apply_entry_callback t entry s =
     (let s1 = s\<lparr>shared_state := map_option (\<lambda>sh. sh\<lparr>commands_committed := commands_committed sh + 1,
                    last_committed_index := e_index entry,
                    pending_commands := (if pending_commands sh > 0 then pending_commands sh - 1
                                         else pending_commands sh)\<rparr>) (shared_state s)\<rparr>
      in case command_data entry of None \<Rightarrow> s1
         | Some d \<Rightarrow>
             if command_size entry > 0
             then let s2 = transaction_tracker_update_status t (entry_gid d) (apply_status d) s1
                  in if user_callback s2
                     then s2\<lparr>user_calls := user_calls s2 @ [(entry_gid d, d, command_size entry)]\<rparr> else s2
             else s1)"

section \<open>Entry points\<close>

definition orochi_raft_is_leader :: "txn_state \<Rightarrow> bool" where
  "orochi_raft_is_leader s = (case shared_state s of None \<Rightarrow> False | Some sh \<Rightarrow> current_state sh = RAFT_STATE_LEADER)"

definition orochi_raft_get_leader :: "txn_state \<Rightarrow> int" where
  "orochi_raft_get_leader s = (case shared_state s of None \<Rightarrow> -1 | Some sh \<Rightarrow> current_leader_id sh)"

definition orochi_raft_get_term :: "txn_state \<Rightarrow> nat" where
  "orochi_raft_get_term s = (case shared_state s of None \<Rightarrow> 0 | Some sh \<Rightarrow> sh_current_term sh)"

definition orochi_raft_get_state_name :: "txn_state \<Rightarrow> string" where
  "orochi_raft_get_state_name s =
     (case shared_state s of None \<Rightarrow> ''not initialized'' | Some sh \<Rightarrow> raft_state_name (current_state sh))"

definition orochi_raft_submit_transaction :: "env \<Rightarrow> net \<Rightarrow> bytes \<Rightarrow> bytes \<Rightarrow> txn_state \<Rightarrow> (txn_state \<times> bool) option" where
  "orochi_raft_submit_transaction ev nt gid command s =
     (if \<not> orochi_raft_is_leader s then Some (s, False)
      else case local_raft_node s of None \<Rightarrow> Some (s, False)
      | Some n \<Rightarrow>
          let full_command = gid @ [0] @ command
          in (case raft_submit_command ev nt n full_command of None \<Rightarrow> None
              | Some (n1, log_index) \<Rightarrow>
                  let s1 = s\<lparr>local_raft_node := Some n1\<rparr>
                  in if log_index = 0 then Some (s1, False)
                     else let s2 = transaction_tracker_add (now ev) gid log_index (current_term n1) full_command s1
                          in Some (s2\<lparr>shared_state := map_option (\<lambda>sh. sh\<lparr>commands_submitted := commands_submitted sh + 1,
                                       pending_commands := pending_commands sh + 1\<rparr>) (shared_state s2)\<rparr>, True)))"

definition to_bytes :: "string \<Rightarrow> bytes" where
  "to_bytes s = map of_char s"

text \<open>\<open>shards\<close> is the text of the shard ids, each followed by a comma.\<close>

definition orochi_raft_prepare_transaction :: "env \<Rightarrow> net \<Rightarrow> bytes \<Rightarrow> bytes \<Rightarrow> txn_state \<Rightarrow> (txn_state \<times> bool) option" where
  "orochi_raft_prepare_transaction ev nt gid shards s =
     orochi_raft_submit_transaction ev nt gid (to_bytes ''PREPARE:'' @ gid @ to_bytes '':'' @ shards) s"

definition orochi_raft_commit_transaction :: "env \<Rightarrow> net \<Rightarrow> bytes \<Rightarrow> txn_state \<Rightarrow> (txn_state \<times> bool) option" where
  "orochi_raft_commit_transaction ev nt gid s = orochi_raft_submit_transaction ev nt gid (to_bytes ''COMMIT:'' @ gid) s"

definition orochi_raft_abort_transaction :: "env \<Rightarrow> net \<Rightarrow> bytes \<Rightarrow> txn_state \<Rightarrow> (txn_state \<times> bool) option" where
  "orochi_raft_abort_transaction ev nt gid s = orochi_raft_submit_transaction ev nt gid (to_bytes ''ABORT:'' @ gid) s"

text \<open>The polling loop: \<open>inp k\<close> is the clock and the shared commit index in round \<open>k\<close>. A loop whose clock never
  reaches the deadline has no result.\<close>

partial_function (option) wait_poll :: "(nat \<Rightarrow> int \<times> nat) \<Rightarrow> int \<Rightarrow> bytes \<Rightarrow> nat \<Rightarrow> nat \<Rightarrow> txn_state \<Rightarrow> (txn_state \<times> bool) option" where
  "wait_poll inp deadline gid idx k s =
     (if fst (inp k) < deadline
      then if snd (inp k) \<ge> idx
           then (case local_raft_node s of
                   Some n \<Rightarrow>
                     (case transaction_tracker_verify_commit (fst (inp k)) gid n s of
                        (s1, ok) \<Rightarrow>
                          if ok then Some (s1, True)
                          else (case transaction_tracker_find gid s1 of
                                  Some e \<Rightarrow> if te_status e = RAFT_TXN_ABORTED then Some (s1, False)
                                            else wait_poll inp deadline gid (te_log_index e) (Suc k) s1
                                | None \<Rightarrow> None))
                 | None \<Rightarrow> Some (transaction_tracker_update_status (fst (inp k)) gid RAFT_TXN_COMMITTED s, True))
           else wait_poll inp deadline gid idx (Suc k) s
      else Some (s, False))"

definition orochi_raft_wait_for_commit :: "env \<Rightarrow> (nat \<Rightarrow> int \<times> nat) \<Rightarrow> bytes \<Rightarrow> int \<Rightarrow> txn_state \<Rightarrow> (txn_state \<times> bool) option" where
  "orochi_raft_wait_for_commit ev inp gid timeout_ms s =
     (case shared_state s of None \<Rightarrow> Some (s, False)
      | Some _ \<Rightarrow>
          (case transaction_tracker_find gid s of None \<Rightarrow> Some (s, False)
           | Some e \<Rightarrow>
               if te_status e = RAFT_TXN_COMMITTED then Some (s, True)
               else if te_status e = RAFT_TXN_ABORTED then Some (s, False)
               else wait_poll inp (now ev + timeout_ms * 1000) gid (te_log_index e) 0 s))"

definition orochi_raft_get_transaction_status :: "int \<Rightarrow> bytes \<Rightarrow> txn_state \<Rightarrow> txn_state \<times> RaftTransactionStatus" where
  "orochi_raft_get_transaction_status t gid s =
     (case transaction_tracker_find gid s of None \<Rightarrow> (s, RAFT_TXN_UNKNOWN)
      | Some e \<Rightarrow>
          (case (te_status e, local_raft_node s, shared_state s) of
             (RAFT_TXN_PENDING, Some n, Some sh) \<Rightarrow>
               if last_committed_index sh \<ge> te_log_index e
               then (case transaction_tracker_verify_commit t gid n s of
                       (s1, ok) \<Rightarrow> (case transaction_tracker_find gid s1 of
                          Some e1 \<Rightarrow> (s1, te_status e1)
                        | None \<Rightarrow> (s1, if ok then RAFT_TXN_COMMITTED else te_status e)))
               else (s, te_status e)
           | _ \<Rightarrow> (s, te_status e)))"

definition orochi_raft_add_cluster_node :: "int \<Rightarrow> string \<Rightarrow> int \<Rightarrow> txn_state \<Rightarrow> pg_error + txn_state" where
  "orochi_raft_add_cluster_node pid host prt s =
     (case local_raft_node s of None \<Rightarrow> Inr s
      | Some n \<Rightarrow>
          (case raft_add_peer n pid host prt of Inl e \<Rightarrow> Inl e
           | Inr n1 \<Rightarrow> Inr (s\<lparr>local_raft_node := Some n1,
                               shared_state := map_option (raft_update_shared_state n1) (shared_state s)\<rparr>)))"

definition orochi_raft_remove_cluster_node :: "int \<Rightarrow> txn_state \<Rightarrow> txn_state" where
  "orochi_raft_remove_cluster_node pid s =
     (case local_raft_node s of None \<Rightarrow> s
      | Some n \<Rightarrow> let n1 = raft_remove_peer n pid
                 in s\<lparr>local_raft_node := Some n1,
                      shared_state := map_option (raft_update_shared_state n1) (shared_state s)\<rparr>)"

section \<open>Remote calls\<close>

definition orochi_raft_request_vote_sql ::
  "env \<Rightarrow> RequestVoteRequest \<Rightarrow> txn_state \<Rightarrow> pg_error + (txn_state \<times> nat \<times> bool)" where
  "orochi_raft_request_vote_sql ev rq s =
     (case local_raft_node s of None \<Rightarrow> Inl (ERROR ''Raft node is not available'')
      | Some n \<Rightarrow>
          (case raft_request_vote ev n rq of
             (n1, rsp) \<Rightarrow> Inr (s\<lparr>local_raft_node := Some n1,
                                 shared_state := map_option (raft_update_shared_state n1) (shared_state s)\<rparr>,
                               rvr_term rsp, vote_granted rsp)))"

text \<open>The entries argument is not parsed: whatever it holds, the call is handled as a heartbeat.\<close>

definition orochi_raft_append_entries_sql ::
  "env \<Rightarrow> AppendEntriesRequest \<Rightarrow> txn_state \<Rightarrow> (pg_error + (txn_state \<times> nat \<times> bool \<times> nat)) option" where
  "orochi_raft_append_entries_sql ev rq s =
     (case local_raft_node s of None \<Rightarrow> Some (Inl (ERROR ''Raft node is not available''))
      | Some n \<Rightarrow>
          (case raft_append_entries ev n (rq\<lparr>ae_entries := []\<rparr>) of None \<Rightarrow> None
           | Some (n1, rsp) \<Rightarrow>
               Some (Inr (s\<lparr>local_raft_node := Some n1,
                           shared_state := map_option (raft_update_shared_state n1) (shared_state s)\<rparr>,
                         aer_term rsp, aer_success rsp, match_index rsp))))"

section \<open>The worker\<close>

text \<open>One round of the worker's loop: a tick, whose newly applied entries go through the callback, and the
  publication of the node's state.\<close>

definition orochi_raft_worker_round :: "env \<Rightarrow> net \<Rightarrow> txn_state \<Rightarrow> txn_state option" where
  "orochi_raft_worker_round ev nt s =
     (case local_raft_node s of None \<Rightarrow> None
      | Some n \<Rightarrow>
          (case raft_tick ev nt n of None \<Rightarrow> None
           | Some n1 \<Rightarrow>
               let s1 = foldl (\<lambda>s e. raft_apply_entry_callback (now ev) e s) (s\<lparr>local_raft_node := Some n1\<rparr>)
                          (drop (length (applied n)) (applied n1))
               in Some (s1\<lparr>shared_state := map_option (raft_update_shared_state n1) (shared_state s1)\<rparr>)))"

section \<open>The tracker as a keyed store\<close>

text \<open>What the entry points rely on: an update reaches the entries with the same key and no others, and
  does not create one.\<close>

locale keyed_status =
  fixes find :: "'g \<Rightarrow> 's \<Rightarrow> 'e option"
    and upd :: "'g \<Rightarrow> 'v \<Rightarrow> 's \<Rightarrow> 's"
    and same :: "'g \<Rightarrow> 'g \<Rightarrow> bool"
    and val :: "'e \<Rightarrow> 'v"
  assumes find_same: "same g h \<Longrightarrow> find g (upd h v s) = None \<longleftrightarrow> find g s = None"
    and val_same: "same g h \<Longrightarrow> find g (upd h v s) = Some e \<Longrightarrow> val e = v"
    and find_other: "\<not> same g h \<Longrightarrow> find g (upd h v s) = find g s"
begin

text \<open>After a run of updates an entry carries the value of the last update of its key.\<close>

lemma val_run:
  assumes "find g s = Some e" "us = as @ (h, v) # bs" "same g h" "\<forall>(k, w) \<in> set bs. \<not> same g k"
  shows "\<exists>e'. find g (foldl (\<lambda>s (h, v). upd h v s) s us) = Some e' \<and> val e' = v"
proof -
  have keep: "\<exists>e'. find g (foldl (\<lambda>s (h, v). upd h v s) s xs) = Some e'" if "find g s = Some e" for s e xs
    using that
  proof (induction xs arbitrary: s e)
    case (Cons x xs)
    obtain h v where x: "x = (h, v)" by (cases x)
    have "\<exists>e1. find g (upd h v s) = Some e1"
      using Cons.prems find_same [of g h v s] find_other [of g h v s] by (cases "same g h") auto
    then show ?case using Cons.IH x by auto
  qed auto
  have rest: "find g (foldl (\<lambda>s (h, v). upd h v s) s bs) = find g s" for s
    using assms(4) by (induction bs arbitrary: s) (auto simp: find_other)
  let ?s = "foldl (\<lambda>s (h, v). upd h v s) s as"
  obtain e1 where "find g ?s = Some e1" using keep [OF assms(1)] by blast
  then obtain e2 where "find g (upd h v ?s) = Some e2" using find_same [OF assms(3), of v ?s] by auto
  then show ?thesis using val_same [OF assms(3)] rest assms(2) by auto
qed

end

definition same_gid :: "bytes \<Rightarrow> bytes \<Rightarrow> bool" where
  "same_gid g h \<longleftrightarrow> gid_key g = gid_key h"

interpretation trk: keyed_status transaction_tracker_find "transaction_tracker_update_status t" same_gid te_status for t
  by unfold_locales
     (auto simp: same_gid_def transaction_tracker_find_def transaction_tracker_update_status_def Let_def
       split: option.splits if_splits)

lemma update_status_frame [simp]:
  "local_raft_node (transaction_tracker_update_status t g st s) = local_raft_node s"
  "shared_state (transaction_tracker_update_status t g st s) = shared_state s"
  "user_callback (transaction_tracker_update_status t g st s) = user_callback s"
  by (simp_all add: transaction_tracker_update_status_def Let_def split: option.split)

lemma find_cong: "transaction_tracker s = transaction_tracker s' \<Longrightarrow>
    transaction_tracker_find g s = transaction_tracker_find g s'"
  by (simp add: transaction_tracker_find_def)

lemma update_cong: "transaction_tracker s = transaction_tracker s' \<Longrightarrow>
    transaction_tracker (transaction_tracker_update_status t g st s) =
    transaction_tracker (transaction_tracker_update_status t g st s')"
  by (simp add: transaction_tracker_update_status_def Let_def split: option.split)

text \<open>For the tracker, applying an entry is an update of the status under the gid in its command.\<close>

definition is_command :: "RaftLogEntry \<Rightarrow> bool" where
  "is_command e \<longleftrightarrow> command_data e \<noteq> None \<and> command_size e > 0"

lemma apply_callback_tracker:
  assumes "command_data e = Some d" "command_size e > 0"
  shows "transaction_tracker (raft_apply_entry_callback t e s) =
    transaction_tracker (transaction_tracker_update_status t (entry_gid d) (apply_status d) s)"
proof -
  let ?s1 = "s\<lparr>shared_state := map_option (\<lambda>sh. sh\<lparr>commands_committed := commands_committed sh + 1,
                    last_committed_index := e_index e,
                    pending_commands := (if pending_commands sh > 0 then pending_commands sh - 1
                                         else pending_commands sh)\<rparr>) (shared_state s)\<rparr>"
  have "transaction_tracker (raft_apply_entry_callback t e s) =
      transaction_tracker (transaction_tracker_update_status t (entry_gid d) (apply_status d) ?s1)"
    using assms by (simp add: raft_apply_entry_callback_def Let_def)
  then show ?thesis using update_cong [of ?s1 s] by simp
qed

lemma entry_gid_command:
  assumes "0 \<notin> set gid" "length gid \<le> 64"
  shows "entry_gid (gid @ [0] @ rest) = gid"
proof -
  have "takeWhile (\<lambda>b. b \<noteq> 0) (gid @ ys) = gid @ takeWhile (\<lambda>b. b \<noteq> 0) ys" for ys
    using assms(1) by (intro takeWhile_append2) auto
  note tw = this this [of "[]", simplified]
  show ?thesis using assms tw by (cases "64 - length gid") (auto simp: entry_gid_def)
qed

section \<open>Properties\<close>

text \<open>a transaction is reported committed on evidence. When verification turns a transaction that was
  not committed into a committed one, the log holds, at an index that is committed, an entry of the term
  in which the transaction was submitted, with the command size and the command hash recorded then.\<close>

theorem verified_commit_has_evidence:
  assumes "transaction_tracker_find gid s = Some e" "te_status e \<noteq> RAFT_TXN_COMMITTED"
    and "transaction_tracker_verify_commit t gid n s = (s', True)"
  shows "te_log_index e \<le> commit_index (log n) \<and>
    (\<exists>le. raft_log_get (log n) (te_log_index e) = Some le \<and> e_term le = te_term e \<and>
       command_size le = te_command_size e \<and> command_hash (command_data le) (command_size le) = te_command_hash e) \<and>
    (\<exists>e'. transaction_tracker_find gid s' = Some e' \<and> te_status e' = RAFT_TXN_COMMITTED)"
proof -
  obtain le where le: "raft_log_get (log n) (te_log_index e) = Some le" "te_log_index e \<le> commit_index (log n)"
    "e_term le = te_term e" "command_size le = te_command_size e"
    "command_hash (command_data le) (command_size le) = te_command_hash e"
    and s': "s' = transaction_tracker_update_status t gid RAFT_TXN_COMMITTED s"
    using assms by (auto simp: transaction_tracker_verify_commit_def not_less split: if_splits option.splits)
  have "transaction_tracker_find gid s' \<noteq> None"
    using trk.find_same [of gid gid t RAFT_TXN_COMMITTED s] assms(1) s' by (simp add: same_gid_def)
  then obtain e' where "transaction_tracker_find gid s' = Some e'" by blast
  then show ?thesis
    using le trk.val_same [of gid gid t RAFT_TXN_COMMITTED s e'] s' by (auto simp: same_gid_def)
qed

definition sample_txn :: "RaftNode \<Rightarrow> txn_state" where
  "sample_txn n = \<lparr>shared_state = Some ((raft_shmem_init 1)\<lparr>current_state := RAFT_STATE_LEADER\<rparr>),
     local_raft_node = Some n, transaction_tracker = None, user_callback = False, user_calls = []\<rparr>"

definition sample_gid :: bytes where
  "sample_gid = [103, 49]"

lemma verified_commit_has_evidence_witness:
  "\<exists>le. raft_log_get (log (sample_node 1 2 (sample_log 1 [1, 1, 2] 2))) 2 = Some le \<and> e_term le = 1 \<and>
     command_hash (command_data le) (command_size le) = command_hash (Some [7]) 1"
proof -
  let ?n = "sample_node 1 2 (sample_log 1 [1, 1, 2] 2)"
  let ?s = "transaction_tracker_add 0 sample_gid 2 1 [7] (sample_txn ?n)"
  let ?e = "\<lparr>te_gid = gid_key sample_gid, te_log_index = 2, te_term = 1, te_status = RAFT_TXN_PENDING,
     submitted_at = 0, committed_at = 0, te_command_size = 1, te_command_hash = command_hash (Some [7]) 1\<rparr>"
  have f: "transaction_tracker_find sample_gid ?s = Some ?e"
    by (simp add: transaction_tracker_find_def transaction_tracker_add_def sample_txn_def
        transaction_tracker_remove_old_def Let_def)
  have g: "raft_log_get (log ?n) 2 = Some (sample_entry 2 1)" "commit_index (log ?n) = 2"
    by (simp_all add: raft_log_get_def sample_node_def sample_log_def numeral_2_eq_2)
  have v: "transaction_tracker_verify_commit 0 sample_gid ?n ?s =
      (transaction_tracker_update_status 0 sample_gid RAFT_TXN_COMMITTED ?s, True)"
    using f g by (simp add: transaction_tracker_verify_commit_def sample_entry_def)
  from verified_commit_has_evidence [OF f _ v] show ?thesis by auto
qed

text \<open>a submitted transaction can be verified. When a leader with room in its log accepts a transaction
  whose gid is not tracked, the call returns true, the tracker records it as pending at the index where
  the log now holds the command, and, if the leader kept its term while replicating, once that index is
  committed with the entry still in place verification succeeds.\<close>

theorem submitted_transaction_verifies:
  assumes "orochi_raft_is_leader s" "local_raft_node s = Some n" "node_wf n" "is_leader n"
    and "log_length (log n) < RAFT_MAX_LOG_ENTRIES"
    and "transaction_tracker_find gid s = None"
  shows "\<exists>s' m e. orochi_raft_submit_transaction ev nt gid command s = Some (s', True) \<and>
    local_raft_node s' = Some m \<and> transaction_tracker_find gid s' = Some e \<and> te_status e = RAFT_TXN_PENDING \<and>
    te_log_index e = last_index (log n) + 1 \<and>
    (\<forall>k t. current_term m = current_term n \<longrightarrow> te_log_index e \<le> commit_index (log k) \<longrightarrow>
       raft_log_get (log k) (te_log_index e) = raft_log_get (log m) (te_log_index e) \<longrightarrow>
       snd (transaction_tracker_verify_commit t gid k s'))"
proof -
  let ?c = "gid @ [0] @ command" and ?i = "last_index (log n) + 1"
  have "?c \<noteq> []" by simp
  then obtain m where m: "raft_submit_command ev nt n ?c = Some (m, ?i)"
    and get: "raft_log_get (log m) ?i = Some (copy_entry (now ev) ?i
       \<lparr>e_index = 0, e_term = current_term n, e_type = RAFT_LOG_COMMAND, command_size = int (length ?c),
        command_data = Some ?c, created_at = now ev\<rparr>)"
    using submit_command_spec [OF assms(3-5), of ?c ev nt] by blast
  then obtain le where le: "raft_log_get (log m) ?i = Some le" "e_term le = current_term n"
    "command_data le = Some ?c" "command_size le = int (length ?c)"
    by (simp add: copy_entry_def)
  let ?s1 = "s\<lparr>local_raft_node := Some m\<rparr>"
  let ?s2 = "transaction_tracker_add (now ev) gid ?i (current_term m) ?c ?s1"
  let ?s' = "?s2\<lparr>shared_state := map_option (\<lambda>sh. sh\<lparr>commands_submitted := commands_submitted sh + 1,
               pending_commands := pending_commands sh + 1\<rparr>) (shared_state ?s2)\<rparr>"
  let ?e = "\<lparr>te_gid = gid_key gid, te_log_index = ?i, te_term = current_term m, te_status = RAFT_TXN_PENDING,
     submitted_at = now ev, committed_at = 0, te_command_size = int (length ?c),
     te_command_hash = command_hash (Some ?c) (int (length ?c))\<rparr>"
  have sub: "orochi_raft_submit_transaction ev nt gid command s = Some (?s', True)"
    using assms(1,2) m by (simp add: orochi_raft_submit_transaction_def Let_def)
  have none: "transaction_tracker_remove_old (now ev) (case_option Map.empty id (transaction_tracker s)) (gid_key gid) = None"
    using assms(6) by (auto simp: transaction_tracker_find_def transaction_tracker_remove_old_def split: option.splits)
  then have f: "transaction_tracker_find gid ?s' = Some ?e"
    by (simp add: transaction_tracker_find_def transaction_tracker_add_def Let_def)
  have "snd (transaction_tracker_verify_commit t gid k ?s')"
    if "current_term m = current_term n" "?i \<le> commit_index (log k)"
      "raft_log_get (log k) ?i = raft_log_get (log m) ?i" for k t
    unfolding transaction_tracker_verify_commit_def f using that le by simp
  moreover have "local_raft_node ?s' = Some m" by (simp add: transaction_tracker_add_def Let_def)
  ultimately show ?thesis using sub f by (intro exI [of _ ?s'] exI [of _ m] exI [of _ ?e]) simp
qed

lemma submitted_transaction_verifies_witness:
  "\<exists>s' e. orochi_raft_submit_transaction sample_env quiet_net sample_gid [1, 2] (sample_txn sample_leader) = Some (s', True) \<and>
     transaction_tracker_find sample_gid s' = Some e \<and> te_status e = RAFT_TXN_PENDING \<and> te_log_index e = 4"
proof -
  let ?s = "sample_txn sample_leader"
  have h: "orochi_raft_is_leader ?s" "local_raft_node ?s = Some sample_leader"
    "transaction_tracker_find sample_gid ?s = None"
    by (simp_all add: orochi_raft_is_leader_def sample_txn_def transaction_tracker_find_def)
  have l: "is_leader sample_leader" "log_length (log sample_leader) < RAFT_MAX_LOG_ENTRIES" by code_simp+
  have v: "last_index (log sample_leader) + 1 = 4" by code_simp
  show ?thesis
    using submitted_transaction_verifies [OF h(1,2) sample_leader_wf l h(3), of sample_env quiet_net "[1, 2]"]
    unfolding v by blast
qed

text \<open>an applied abort counts as a commit. The callback looks for the command word at the start of the
  entry, where \<^verbatim>\<open>orochi_raft_submit_transaction\<close> has put the gid: unless the gid itself starts with a
  command word, applying a transaction's ABORT entry, or its PREPARE entry, sets its status to
  committed.\<close>

theorem applied_abort_is_marked_committed:
  assumes "transaction_tracker_find gid s = Some e" "0 \<notin> set gid" "length gid \<le> 64"
    and "command_data entry = Some (gid @ [0] @ to_bytes ''ABORT:'' @ gid)" "command_size entry > 0"
    and "\<not> c_prefix ''ABORT:'' (gid @ [0] @ to_bytes ''ABORT:'' @ gid)"
    and "\<not> c_prefix ''PREPARE:'' (gid @ [0] @ to_bytes ''ABORT:'' @ gid)"
  shows "\<exists>e'. transaction_tracker_find gid (raft_apply_entry_callback t entry s) = Some e' \<and>
    te_status e' = RAFT_TXN_COMMITTED"
proof -
  let ?d = "gid @ [0] @ to_bytes ''ABORT:'' @ gid"
  have st: "apply_status ?d = RAFT_TXN_COMMITTED" using assms(6,7) by (simp add: apply_status_def)
  have "transaction_tracker (raft_apply_entry_callback t entry s) =
      transaction_tracker (transaction_tracker_update_status t gid RAFT_TXN_COMMITTED s)"
    using apply_callback_tracker [OF assms(4,5)] entry_gid_command [OF assms(2,3)] st by simp
  then show ?thesis
    using find_cong trk.find_same [of gid gid t RAFT_TXN_COMMITTED s] trk.val_same [of gid gid t RAFT_TXN_COMMITTED s] assms(1)
    by (metis option.distinct(1) option.exhaust same_gid_def)
qed

definition sample_abort :: RaftLogEntry where
  "sample_abort = (sample_entry 2 1)\<lparr>command_size := 11, command_data := Some (sample_gid @ [0] @ to_bytes ''ABORT:'' @ sample_gid)\<rparr>"

lemma applied_abort_is_marked_committed_witness:
  "\<exists>e'. transaction_tracker_find sample_gid (raft_apply_entry_callback 0 sample_abort
       (transaction_tracker_add 0 sample_gid 2 1 [7] (sample_txn sample_leader))) = Some e' \<and>
     te_status e' = RAFT_TXN_COMMITTED"
proof (rule applied_abort_is_marked_committed)
  show "transaction_tracker_find sample_gid (transaction_tracker_add 0 sample_gid 2 1 [7] (sample_txn sample_leader)) =
    Some \<lparr>te_gid = gid_key sample_gid, te_log_index = 2, te_term = 1, te_status = RAFT_TXN_PENDING,
     submitted_at = 0, committed_at = 0, te_command_size = 1, te_command_hash = command_hash (Some [7]) 1\<rparr>"
    by (simp add: transaction_tracker_find_def transaction_tracker_add_def sample_txn_def
        transaction_tracker_remove_old_def Let_def)
qed (simp_all add: sample_gid_def sample_abort_def c_prefix_def)

text \<open>a transaction that is prepared and then committed fails verification. Submitting a second
  command under a tracked gid moves the entry to the new index but keeps the size and hash of the first
  command; if the committed entry there has another size, verification marks the transaction aborted.\<close>

theorem resubmitted_transaction_is_aborted:
  assumes "transaction_tracker_find gid s = Some e" "\<not> expired t e" "te_command_size e \<noteq> int (length command)"
    and "s' = transaction_tracker_add t gid i tm command s"
    and "i \<le> commit_index (log n)" "raft_log_get (log n) i = Some le" "e_term le = tm"
    and "command_size le = int (length command)"
  shows "\<exists>s'' e'. transaction_tracker_verify_commit t' gid n s' = (s'', False) \<and>
    transaction_tracker_find gid s'' = Some e' \<and> te_status e' = RAFT_TXN_ABORTED"
proof -
  obtain m where m: "transaction_tracker s = Some m" "m (gid_key gid) = Some e"
    using assms(1) by (auto simp: transaction_tracker_find_def split: option.splits)
  have "transaction_tracker_remove_old t m (gid_key gid) = Some e"
    using m(2) assms(2) by (simp add: transaction_tracker_remove_old_def)
  then have f: "transaction_tracker_find gid s' = Some (e\<lparr>te_log_index := i, te_term := tm,
      te_status := RAFT_TXN_PENDING, submitted_at := t\<rparr>)"
    using m(1) by (simp add: assms(4) transaction_tracker_find_def transaction_tracker_add_def Let_def)
  let ?s'' = "transaction_tracker_update_status t' gid RAFT_TXN_ABORTED s'"
  have "transaction_tracker_verify_commit t' gid n s' = (?s'', False)"
    using f assms(3,5-8) by (simp add: transaction_tracker_verify_commit_def)
  moreover have "transaction_tracker_find gid ?s'' \<noteq> None"
    using trk.find_same [of gid gid t' RAFT_TXN_ABORTED s'] f by (simp add: same_gid_def)
  ultimately show ?thesis
    using trk.val_same [of gid gid t' RAFT_TXN_ABORTED s'] by (auto simp: same_gid_def)
qed

lemma resubmitted_transaction_is_aborted_witness:
  "\<exists>s'' e'. transaction_tracker_verify_commit 0 sample_gid (sample_node 1 2 (sample_log 1 [1, 1, 2] 2))
       (transaction_tracker_add 0 sample_gid 2 1 [7]
          (transaction_tracker_add 0 sample_gid 1 1 [7, 7] (sample_txn sample_leader))) = (s'', False) \<and>
     transaction_tracker_find sample_gid s'' = Some e' \<and> te_status e' = RAFT_TXN_ABORTED"
proof (rule resubmitted_transaction_is_aborted [OF _ _ _ refl])
  let ?n = "sample_node 1 2 (sample_log 1 [1, 1, 2] 2)"
  let ?e = "\<lparr>te_gid = gid_key sample_gid, te_log_index = 1, te_term = 1, te_status = RAFT_TXN_PENDING,
     submitted_at = 0, committed_at = 0, te_command_size = 2, te_command_hash = command_hash (Some [7, 7]) 2\<rparr>"
  show "transaction_tracker_find sample_gid (transaction_tracker_add 0 sample_gid 1 1 [7, 7] (sample_txn sample_leader)) = Some ?e"
    by (simp add: transaction_tracker_find_def transaction_tracker_add_def sample_txn_def
        transaction_tracker_remove_old_def Let_def)
  show "\<not> expired 0 ?e" "te_command_size ?e \<noteq> int (length [7 :: u8])" by (simp_all add: expired_def)
  show "raft_log_get (log ?n) 2 = Some (sample_entry 2 1)" "2 \<le> commit_index (log ?n)"
    by (simp_all add: raft_log_get_def sample_node_def sample_log_def numeral_2_eq_2)
  show "e_term (sample_entry 2 1) = 1" "command_size (sample_entry 2 1) = int (length [7 :: u8])"
    by (simp_all add: sample_entry_def)
qed

text \<open>the remote AppendEntries entry point stores no entries. Whatever entries the leader sends, the
  log of the node that answers through SQL keeps its length, its entries and its indices, apart from
  the commit index.\<close>

theorem append_entries_sql_drops_entries:
  assumes "orochi_raft_append_entries_sql ev rq s = Some (Inr (s', t, ok, mi))" "local_raft_node s = Some n"
  shows "\<exists>n'. local_raft_node s' = Some n' \<and> entries (log n') = entries (log n) \<and>
    first_index (log n') = first_index (log n) \<and> last_index (log n') = last_index (log n)"
proof -
  obtain n' rsp where r: "raft_append_entries ev n (rq\<lparr>ae_entries := []\<rparr>) = Some (n', rsp)"
    and s': "local_raft_node s' = Some n'"
    using assms by (auto simp: orochi_raft_append_entries_sql_def split: option.splits)
  have "entries (log n') = entries (log n) \<and> first_index (log n') = first_index (log n) \<and> last_index (log n') = last_index (log n)"
    using r by (auto simp: raft_append_entries_def Let_def split: if_splits)
  then show ?thesis using s' by blast
qed

lemma append_entries_sql_drops_entries_witness:
  "\<exists>s' t ok mi n'. orochi_raft_append_entries_sql sample_env (sample_append 3 1 1 [3, 3] 2)
       (sample_txn (sample_node 1 2 (sample_log 1 [1, 1, 2] 1))) = Some (Inr (s', t, ok, mi)) \<and>
     ok \<and> local_raft_node s' = Some n' \<and> entries (log n') = entries (sample_log 1 [1, 1, 2] 1)"
proof -
  let ?n = "sample_node 1 2 (sample_log 1 [1, 1, 2] 1)" and ?rq = "sample_append 3 1 1 [3, 3] 2"
  have n: "local_raft_node (sample_txn ?n) = Some ?n" "log ?n = sample_log 1 [1, 1, 2] 1"
    by (simp_all add: sample_txn_def sample_node_def)
  have "\<exists>n1 rsp. raft_append_entries sample_env ?n (?rq\<lparr>ae_entries := []\<rparr>) = Some (n1, rsp) \<and> aer_success rsp"
    by (simp add: raft_append_entries_def sample_append_def sample_defs raft_log_term_at_def raft_log_get_def
        raft_become_follower_def Let_def)
  then obtain s' t mi where r: "orochi_raft_append_entries_sql sample_env ?rq (sample_txn ?n) = Some (Inr (s', t, True, mi))"
    using n by (auto simp: orochi_raft_append_entries_sql_def)
  from append_entries_sql_drops_entries [OF r n(1)] show ?thesis using r n(2) by auto
qed

end
