(* ===== verification/Raft_Wire.thy ===== *)
theory Raft_Wire
  imports Raft_Leader
begin

text \<open>
  The two encodings of Raft messages in \<^verbatim>\<open>consensus/raft.c\<close>: the binary layout of RequestVote and
  AppendEntries, and the JSON text in which \<^verbatim>\<open>raft_send_append_entries\<close> passes log entries to the
  remote \<^verbatim>\<open>raft_append_entries\<close>. Reading past the end of a buffer is undefined. The theorems: both
  binary encodings are read back, entry by entry through the interface \<open>prefix_codec\<close>; an escaped
  command is one JSON string, read back as the bytes before its first zero byte.
\<close>

section \<open>Binary messages\<close>

definition raft_serialize_request_vote :: "RequestVoteRequest \<Rightarrow> bytes" where
  "raft_serialize_request_vote rq =
     le_bytes 8 (rv_term rq) @ i32_bytes (candidate_id rq) @ le_bytes 8 (last_log_index rq) @
     le_bytes 8 (last_log_term rq)"

text \<open>The result is absent for a null pointer.\<close>

definition raft_deserialize_request_vote :: "bytes \<Rightarrow> RequestVoteRequest option" where
  "raft_deserialize_request_vote bs =
     (if length bs < 28 then None
      else do {
        (t, b1) \<leftarrow> dec_u64 bs;
        (c, b2) \<leftarrow> dec_i32 b1;
        (i, b3) \<leftarrow> dec_u64 b2;
        (lt, b4) \<leftarrow> dec_u64 b3;
        Some \<lparr>rv_term = t, candidate_id = c, last_log_index = i, last_log_term = lt\<rparr>
      })"

definition serialize_entry :: "RaftLogEntry \<Rightarrow> bytes" where
  "serialize_entry e =
     le_bytes 8 (e_index e) @ le_bytes 8 (e_term e) @ i32_bytes (entry_type_code (e_type e)) @
     i32_bytes (command_size e) @
     (case command_data e of None \<Rightarrow> [] | Some d \<Rightarrow> if command_size e > 0 then take (nat (command_size e)) d else [])"

definition raft_serialize_append_entries :: "AppendEntriesRequest \<Rightarrow> bytes" where
  "raft_serialize_append_entries rq =
     le_bytes 8 (ae_term rq) @ i32_bytes (ae_leader_id rq) @ le_bytes 8 (prev_log_index rq) @
     le_bytes 8 (prev_log_term rq) @ i32_bytes (int (length (ae_entries rq))) @ le_bytes 8 (leader_commit rq) @
     concat (map serialize_entry (ae_entries rq))"

text \<open>\<^verbatim>\<open>created_at\<close> is not transmitted, and the entries are allocated without clearing them: \<open>junk\<close> is
  what the memory holds.\<close>

definition deserialize_entry :: "int \<Rightarrow> bytes \<Rightarrow> (RaftLogEntry \<times> bytes) option" where
  "deserialize_entry junk bs = do {
     (i, b1) \<leftarrow> dec_u64 bs;
     (t, b2) \<leftarrow> dec_u64 b1;
     (ty, b3) \<leftarrow> dec_i32 b2;
     (sz, b4) \<leftarrow> dec_i32 b3;
     ety \<leftarrow> entry_type_of ty;
     if sz > 0
     then do {
       (d, b5) \<leftarrow> take_bytes (nat sz) b4;
       Some (\<lparr>e_index = i, e_term = t, e_type = ety, command_size = sz, command_data = Some d, created_at = junk\<rparr>, b5)
     }
     else Some (\<lparr>e_index = i, e_term = t, e_type = ety, command_size = sz, command_data = None, created_at = junk\<rparr>, b4)
   }"

definition raft_deserialize_append_entries :: "int \<Rightarrow> bytes \<Rightarrow> AppendEntriesRequest option" where
  "raft_deserialize_append_entries junk bs = do {
     (t, b1) \<leftarrow> dec_u64 bs;
     (ldr, b2) \<leftarrow> dec_i32 b1;
     (p, b3) \<leftarrow> dec_u64 b2;
     (pt, b4) \<leftarrow> dec_u64 b3;
     (cnt, b5) \<leftarrow> dec_i32 b4;
     (c, b6) \<leftarrow> dec_u64 b5;
     (es, b7) \<leftarrow> dec_many (deserialize_entry junk) (nat cnt) b6;
     Some \<lparr>ae_term = t, ae_leader_id = ldr, prev_log_index = p, prev_log_term = pt, ae_entries = es, leader_commit = c\<rparr>
   }"

section \<open>JSON entries\<close>

abbreviation (input) QUOTE :: u8 where "QUOTE \<equiv> 34"
abbreviation (input) BACKSLASH :: u8 where "BACKSLASH \<equiv> 92"

definition hex_digit :: "nat \<Rightarrow> u8" where
  "hex_digit k = (if k < 10 then 48 + word_of_nat k else 87 + word_of_nat k)"

definition escape_char :: "u8 \<Rightarrow> bytes" where
  "escape_char c =
     (if c = QUOTE then [BACKSLASH, QUOTE]
      else if c = BACKSLASH then [BACKSLASH, BACKSLASH]
      else if c = 10 then [BACKSLASH, 110]
      else if c = 13 then [BACKSLASH, 114]
      else if c = 9 then [BACKSLASH, 116]
      else if c = 8 then [BACKSLASH, 98]
      else if c = 12 then [BACKSLASH, 102]
      else if unat c < 32 then [BACKSLASH, 117, 48, 48, hex_digit (unat c div 16), hex_digit (unat c mod 16)]
      else [c])"

text \<open>The loop runs up to the first zero byte; without one it leaves the buffer.\<close>

fun escape_loop :: "bytes \<Rightarrow> bytes option" where
  "escape_loop [] = None"
| "escape_loop (c # cs) = (if c = 0 then Some [] else map_option ((@) (escape_char c)) (escape_loop cs))"

definition escape_json_string :: "bytes option \<Rightarrow> bytes option" where
  "escape_json_string inp = (case inp of None \<Rightarrow> Some [] | Some s \<Rightarrow> escape_loop s)"

text \<open>\<^verbatim>\<open>{"term":..,"type":..,"data":".."}\<close>; an entry type is not negative.\<close>

definition entry_json :: "RaftLogEntry \<Rightarrow> bytes option" where
  "entry_json e =
     map_option (\<lambda>d. [123, QUOTE] @ ascii ''term'' @ [QUOTE, 58] @ decimal (e_term e) @ [44, QUOTE] @ ascii ''type'' @
         [QUOTE, 58] @ decimal (nat (entry_type_code (e_type e))) @ [44, QUOTE] @ ascii ''data'' @ [QUOTE, 58, QUOTE] @
         d @ [QUOTE, 125])
       (escape_json_string (command_data e))"

fun join_comma :: "bytes list \<Rightarrow> bytes" where
  "join_comma [] = []"
| "join_comma [x] = x"
| "join_comma (x # y # ys) = x @ [44] @ join_comma (y # ys)"

definition entries_json :: "RaftLogEntry list \<Rightarrow> bytes option" where
  "entries_json es = map_option (\<lambda>js. [91] @ join_comma js @ [93]) (those (map entry_json es))"

section \<open>Round trips of the binary messages\<close>

definition wire_entry_ok :: "int \<Rightarrow> RaftLogEntry \<Rightarrow> bool" where
  "wire_entry_ok junk e \<longleftrightarrow> is_u64 (e_index e) \<and> is_u64 (e_term e) \<and> created_at e = junk \<and>
     (case command_data e of None \<Rightarrow> command_size e = 0
      | Some d \<Rightarrow> 0 < command_size e \<and> command_size e = int (length d) \<and> length d \<le> 2147483647)"

interpretation entryc: prefix_codec serialize_entry "deserialize_entry junk" "wire_entry_ok junk" for junk
proof
  fix e rest assume ok: "wire_entry_ok junk e"
  show "deserialize_entry junk (serialize_entry e @ rest) = Some (e, rest)"
  proof (cases "command_data e")
    case None
    then show ?thesis
      using ok by (simp add: wire_entry_ok_def deserialize_entry_def serialize_entry_def codec_simps)
  next
    case (Some d)
    then have sz: "command_size e = int (length d)" "0 < length d" "length d \<le> 2147483647"
      using ok by (auto simp: wire_entry_ok_def)
    show ?thesis
      using ok Some sz by (simp add: wire_entry_ok_def deserialize_entry_def serialize_entry_def codec_simps)
  qed
qed

text \<open>a serialized RequestVote is read back, and buffers shorter than a message are refused.\<close>

theorem request_vote_wire_roundtrip:
  assumes "is_u64 (rv_term rq)" "is_i32 (candidate_id rq)" "is_u64 (last_log_index rq)" "is_u64 (last_log_term rq)"
  shows "raft_deserialize_request_vote (raft_serialize_request_vote rq) = Some rq \<and>
    (length bs < 28 \<longrightarrow> raft_deserialize_request_vote bs = None)"
  using assms u64c.dec_enc [of "last_log_term rq" "[]"]
  by (simp add: raft_deserialize_request_vote_def raft_serialize_request_vote_def codec_simps)

lemma request_vote_wire_roundtrip_witness:
  "raft_deserialize_request_vote (raft_serialize_request_vote (sample_vote 3 2)) = Some (sample_vote 3 2)"
  using request_vote_wire_roundtrip [of "sample_vote 3 2" "[]"] by (simp add: sample_vote_def)

text \<open>C36: a serialized AppendEntries is read back with all its entries, whatever bytes follow it, except
  for the creation times, which are not transmitted.\<close>

theorem append_entries_wire_roundtrip:
  assumes "is_u64 (ae_term rq)" "is_i32 (ae_leader_id rq)" "is_u64 (prev_log_index rq)" "is_u64 (prev_log_term rq)"
    and "is_u64 (leader_commit rq)" "length (ae_entries rq) \<le> 2147483647"
    and "list_all (\<lambda>e. wire_entry_ok (created_at e) e) (ae_entries rq)"
  shows "raft_deserialize_append_entries junk (raft_serialize_append_entries rq @ rest) =
    Some (rq\<lparr>ae_entries := map (\<lambda>e. e\<lparr>created_at := junk\<rparr>) (ae_entries rq)\<rparr>)"
proof -
  let ?es = "map (\<lambda>e. e\<lparr>created_at := junk\<rparr>) (ae_entries rq)"
  have ok: "list_all (wire_entry_ok junk) ?es"
    using assms(7) by (auto simp: list_all_iff wire_entry_ok_def cong: option.case_cong)
  have same: "map serialize_entry ?es = map serialize_entry (ae_entries rq)"
    by (simp add: serialize_entry_def split: option.split)
  have "dec_many (deserialize_entry junk) (length (ae_entries rq))
      (concat (map serialize_entry (ae_entries rq)) @ rest) = Some (?es, rest)"
    using entryc.dec_many_concat [OF ok, of rest] unfolding same by simp
  then show ?thesis
    using assms(1-6)
    by (simp add: raft_deserialize_append_entries_def raft_serialize_append_entries_def codec_simps)
qed

lemma append_entries_wire_roundtrip_witness:
  "raft_deserialize_append_entries 5 (raft_serialize_append_entries (sample_append 3 1 1 [2, 3] 2) @ [7]) =
    Some (sample_append 3 1 1 [2, 3] 2)"
proof -
  have "map (\<lambda>e. e\<lparr>created_at := 5\<rparr>) (ae_entries (sample_append 3 1 1 [2, 3] 2)) = ae_entries (sample_append 3 1 1 [2, 3] 2)"
    by (simp add: sample_append_def sample_entry_def)
  then have "(sample_append 3 1 1 [2, 3] 2)\<lparr>ae_entries := map (\<lambda>e. e\<lparr>created_at := 5\<rparr>)
      (ae_entries (sample_append 3 1 1 [2, 3] 2))\<rparr> = sample_append 3 1 1 [2, 3] 2" by simp
  moreover have "raft_deserialize_append_entries 5 (raft_serialize_append_entries (sample_append 3 1 1 [2, 3] 2) @ [7]) =
    Some ((sample_append 3 1 1 [2, 3] 2)\<lparr>ae_entries := map (\<lambda>e. e\<lparr>created_at := 5\<rparr>)
      (ae_entries (sample_append 3 1 1 [2, 3] 2))\<rparr>)"
    by (rule append_entries_wire_roundtrip)
       (simp_all add: sample_append_def sample_entry_def wire_entry_ok_def)
  ultimately show ?thesis by simp
qed

section \<open>Escaped strings\<close>

text \<open>Reading the body of a JSON string up to its closing quote, for code points below 256.\<close>

definition hex_value :: "u8 \<Rightarrow> nat option" where
  "hex_value c = (if 48 \<le> unat c \<and> unat c \<le> 57 then Some (unat c - 48)
     else if 97 \<le> unat c \<and> unat c \<le> 102 then Some (unat c - 87) else None)"

definition simple_escape :: "u8 \<Rightarrow> u8 option" where
  "simple_escape c = (if c = QUOTE \<or> c = BACKSLASH \<or> c = 47 then Some c else if c = 110 then Some 10
     else if c = 114 then Some 13 else if c = 116 then Some 9 else if c = 98 then Some 8
     else if c = 102 then Some 12 else None)"

definition json_char :: "bytes \<Rightarrow> (u8 \<times> bytes) option" where
  "json_char s =
     (case s of [] \<Rightarrow> None
      | c # r \<Rightarrow>
          if c = BACKSLASH
          then (case r of [] \<Rightarrow> None
                | e # r1 \<Rightarrow>
                    if e = 117
                    then (case r1 of
                            h1 # h2 # h3 # h4 # r2 \<Rightarrow>
                              if h1 = 48 \<and> h2 = 48
                              then (case (hex_value h3, hex_value h4) of
                                      (Some x, Some y) \<Rightarrow> Some (word_of_nat (16 * x + y), r2) | _ \<Rightarrow> None)
                              else None
                          | _ \<Rightarrow> None)
                    else map_option (\<lambda>x. (x, r1)) (simple_escape e))
          else if unat c < 32 then None else Some (c, r))"

lemma json_char_shorter: "json_char s = Some (c, r) \<Longrightarrow> length r < length s"
  by (auto simp: json_char_def split: list.splits if_splits option.splits)

function json_string :: "bytes \<Rightarrow> (bytes \<times> bytes) option" where
  "json_string s =
     (case s of [] \<Rightarrow> None
      | c # r \<Rightarrow> if c = QUOTE then Some ([], r)
                 else (case json_char s of None \<Rightarrow> None
                       | Some (x, r1) \<Rightarrow> map_option (\<lambda>(xs, r2). (x # xs, r2)) (json_string r1)))"
  by pat_completeness auto
termination
  by (relation "measure length") (auto dest: json_char_shorter)

declare json_string.simps [simp del]

lemma hex_digit_value: "k < 16 \<Longrightarrow> hex_value (hex_digit k) = Some k"
proof -
  have "list_all (\<lambda>k. hex_value (hex_digit k) = Some k) [0 ..< 16]" by code_simp
  then show "k < 16 \<Longrightarrow> hex_value (hex_digit k) = Some k" by (simp add: list_all_iff)
qed

lemma json_char_escape: "c \<noteq> 0 \<Longrightarrow> json_char (escape_char c @ rest) = Some (c, rest)"
proof -
  have "word_of_nat (16 * (unat c div 16) + unat c mod 16) = c"
    by (simp add: mult_div_mod_eq)
  moreover have "unat c div 16 < 16" "unat c mod 16 < 16"
    using unsigned_less [of c, where ?'a = nat] by (simp_all add: less_mult_imp_div_less)
  ultimately show "json_char (escape_char c @ rest) = Some (c, rest)"
    by (auto simp: escape_char_def json_char_def simple_escape_def hex_digit_value)
qed

lemma escape_char_start: "\<exists>x xs. escape_char c = x # xs \<and> x \<noteq> QUOTE"
  by (auto simp: escape_char_def)

lemma json_string_escape:
  "escape_loop s = Some e \<Longrightarrow> json_string (e @ QUOTE # rest) = Some (takeWhile (\<lambda>c. c \<noteq> 0) s, rest)"
proof (induction s arbitrary: e)
  case (Cons c cs)
  show ?case
  proof (cases "c = 0")
    case True
    then show ?thesis using Cons.prems by (simp add: json_string.simps)
  next
    case False
    then obtain e' where e': "escape_loop cs = Some e'" "e = escape_char c @ e'" using Cons.prems by auto
    obtain x xs where x: "escape_char c = x # xs" "x \<noteq> QUOTE" using escape_char_start by blast
    have "json_string (e @ QUOTE # rest) =
        map_option (\<lambda>(ys, r2). (c # ys, r2)) (json_string (e' @ QUOTE # rest))"
      using json_char_escape [OF False, of "e' @ QUOTE # rest"] e'(2) x by (subst json_string.simps) simp
    then show ?thesis using Cons.IH [OF e'(1)] False by simp
  qed
qed simp

text \<open>an escaped command cannot break out of its JSON string. When the command has a zero byte, the
  text that \<^verbatim>\<open>escape_json_string\<close> produces, followed by the closing quote, is exactly one JSON string,
  and its value is the command up to the first zero byte; what follows the zero byte is not sent.
  Without a zero byte the scan leaves the buffer.\<close>

theorem escaped_command_is_one_json_string:
  "if 0 \<in> set s
   then \<exists>e. escape_json_string (Some s) = Some e \<and>
          json_string (e @ QUOTE # rest) = Some (takeWhile (\<lambda>c. c \<noteq> 0) s, rest)
   else escape_json_string (Some s) = None"
proof (cases "0 \<in> set s")
  case True
  have "\<exists>e. escape_loop s = Some e" using True by (induction s) auto
  then show ?thesis using json_string_escape True by (auto simp: escape_json_string_def)
next
  case False
  then have "escape_loop s = None" by (induction s) auto
  then show ?thesis using False by (simp add: escape_json_string_def)
qed

end
