(* ===== verification/Raft_Election.thy ===== *)
theory Raft_Election
  imports Raft_Leader
begin

text \<open>
  A cluster of Raft nodes with a fixed set of members \<open>M\<close>, and the proof that a term has at most one
  leader. The nodes run the handlers of \<^verbatim>\<open>consensus/raft.c\<close> as modelled in \<open>Raft_Node\<close> and
  \<open>Raft_Leader\<close>. Messages are kept in pools from which they are never removed, so that delay, loss,
  reordering and repeated delivery of requests are all covered; a reply reaches the candidate only
  as the answer to the request it is waiting on, as with a query on a connection. An election runs
  in several steps, one per peer, so that other nodes act in between; the candidate itself does not
  handle other calls until \<^verbatim>\<open>raft_start_election\<close> returns. A node may crash at any point and come
  back with what its state file holds; file writes succeed
  (\<open>torn_state_write_forgets_vote\<close> of \<open>Raft_Recovery\<close> shows what a failing write does).

  The state keeps three histories: \<open>ballots\<close> (who voted for whom in which term), \<open>winners\<close>, and
  \<open>resets\<close>, the candidates whose vote was cleared by an AppendEntries of their own term.
\<close>

section \<open>Quorums\<close>

locale quorum_system =
  fixes quorum :: "'a set \<Rightarrow> bool"
  assumes quorum_meet: "quorum Q \<Longrightarrow> quorum R \<Longrightarrow> \<exists>v. v \<in> Q \<and> v \<in> R"
begin

text \<open>Two values that are each chosen by all members of a quorum are equal, if members choose once.\<close>

lemma chosen_unique:
  assumes "quorum Q" "\<And>v. v \<in> Q \<Longrightarrow> chose v a" "quorum R" "\<And>v. v \<in> R \<Longrightarrow> chose v b"
    and once: "\<And>v. v \<in> Q \<or> v \<in> R \<Longrightarrow> chose v a \<Longrightarrow> chose v b \<Longrightarrow> a = b"
  shows "a = b"
  using quorum_meet [OF assms(1,3)] assms(2,4) once by blast

end

definition majority :: "'a set \<Rightarrow> 'a set \<Rightarrow> bool" where
  "majority M Q \<longleftrightarrow> finite M \<and> Q \<subseteq> M \<and> card M div 2 + 1 \<le> card Q"

interpretation maj: quorum_system "majority M" for M
proof
  fix Q R assume q: "majority M Q" and r: "majority M R"
  have fin: "finite Q" "finite R" using q r by (auto simp: majority_def intro: finite_subset)
  have "card M < 2 * (card M div 2 + 1)" by presburger
  then have "card M < card Q + card R" using q r unfolding majority_def by linarith
  then have "\<not> card (Q \<union> R) + 0 = card Q + card R"
    using q r card_mono [of M "Q \<union> R"] by (auto simp: majority_def)
  then show "\<exists>v. v \<in> Q \<and> v \<in> R" using card_Un_disjoint [OF fin] by auto
qed

section \<open>The cluster\<close>

record raft_cluster =
  nodes :: "int \<Rightarrow> RaftNode"
  pend :: "int \<Rightarrow> (RequestVoteRequest \<times> nat) option"
  rv_reqs :: "RequestVoteRequest set"
  rv_replies :: "(int \<times> RequestVoteRequest \<times> nat \<times> bool) set"
  ae_reqs :: "AppendEntriesRequest set"
  ballots :: "(int \<times> nat \<times> int) set"
  winners :: "(nat \<times> int) set"
  resets :: "(int \<times> nat) set"

text \<open>A node of the cluster \<open>M\<close>: its peer table lists the other members once, and its quorum is the
  one \<^verbatim>\<open>raft_add_peer\<close> computes.\<close>

definition member :: "int set \<Rightarrow> int \<Rightarrow> RaftNode \<Rightarrow> bool" where
  "member M a n \<longleftrightarrow> node_id n = a \<and> distinct (map peer_id (peers (cluster n))) \<and>
     set (map peer_id (peers (cluster n))) = M - {a} \<and>
     quorum_size (cluster n) = (peer_count n + 1) div 2 + 1"

text \<open>A node that has just been initialised: no vote, no term, a follower.\<close>

definition fresh_node :: "RaftNode \<Rightarrow> bool" where
  "fresh_node n \<longleftrightarrow> current_term n = 0 \<and> voted_for n = -1 \<and> state n = RAFT_STATE_FOLLOWER \<and> \<not> is_leader n"

definition members_ok :: "int set \<Rightarrow> bool" where
  "members_ok M \<longleftrightarrow> finite M \<and> (\<forall>a \<in> M. 0 \<le> a \<and> is_i32 a)"

definition cluster_init :: "int set \<Rightarrow> raft_cluster \<Rightarrow> bool" where
  "cluster_init M s \<longleftrightarrow> members_ok M \<and>
     (\<forall>a \<in> M. member M a (nodes s a) \<and> fresh_node (nodes s a) \<and> state_file (nodes s a) = None) \<and>
     pend s = (\<lambda>_. None) \<and> rv_reqs s = {} \<and> rv_replies s = {} \<and> ae_reqs s = {} \<and>
     ballots s = {} \<and> winners s = {} \<and> resets s = {}"

text \<open>The AppendEntries requests a leader may send in its term, with any entries.\<close>

definition leader_msgs :: "RaftNode \<Rightarrow> AppendEntriesRequest set" where
  "leader_msgs n = {rq. ae_term rq = current_term n \<and> ae_leader_id rq = node_id n}"

text \<open>What the query to peer slot \<open>i\<close> of candidate \<open>n\<close> can give.\<close>

definition possible_reply :: "raft_cluster \<Rightarrow> RequestVoteRequest \<Rightarrow> RaftNode \<Rightarrow> nat \<Rightarrow> (nat \<times> bool) rpc_outcome \<Rightarrow> bool" where
  "possible_reply s rq n i out \<longleftrightarrow>
     (case out of RPC_reply (t, g) \<Rightarrow> (peer_id (peer_at n i), rq, t, g) \<in> rv_replies s | _ \<Rightarrow> True)"

abbreviation set_node :: "raft_cluster \<Rightarrow> int \<Rightarrow> RaftNode \<Rightarrow> raft_cluster" where
  "set_node s a n \<equiv> s\<lparr>nodes := (nodes s)(a := n)\<rparr>"

abbreviation set_pend :: "raft_cluster \<Rightarrow> int \<Rightarrow> (RequestVoteRequest \<times> nat) option \<Rightarrow> raft_cluster" where
  "set_pend s a p \<equiv> s\<lparr>pend := (pend s)(a := p)\<rparr>"

inductive cluster_step :: "int set \<Rightarrow> raft_cluster \<Rightarrow> raft_cluster \<Rightarrow> bool" for M where
  start_election:
  "a \<in> M \<Longrightarrow> pend s a = None \<Longrightarrow> running (nodes s a) \<Longrightarrow> disk_ok ev \<Longrightarrow>
   n = election_begin ev (nodes s a) \<Longrightarrow>
   cluster_step M s ((set_pend (set_node s a n) a (Some (election_request n, 0)))
     \<lparr>rv_reqs := insert (election_request n) (rv_reqs s), ballots := insert (a, current_term n, a) (ballots s)\<rparr>)"
| skip_peer:
  "a \<in> M \<Longrightarrow> pend s a = Some (rq, i) \<Longrightarrow> i < peer_count (nodes s a) \<Longrightarrow>
   \<not> is_active (peer_at (nodes s a) i) \<Longrightarrow>
   cluster_step M s (set_pend s a (Some (rq, Suc i)))"
| ask_peer:
  "a \<in> M \<Longrightarrow> pend s a = Some (rq, i) \<Longrightarrow> i < peer_count (nodes s a) \<Longrightarrow>
   is_active (peer_at (nodes s a) i) \<Longrightarrow> disk_ok ev \<Longrightarrow> possible_reply s rq (nodes s a) i out \<Longrightarrow>
   election_peer ev out (nodes s a) i = (n, stop) \<Longrightarrow>
   cluster_step M s (set_pend (set_node s a n) a (if stop then None else Some (rq, Suc i)))"
| lose:
  "a \<in> M \<Longrightarrow> pend s a = Some (rq, peer_count (nodes s a)) \<Longrightarrow> \<not> election_won (nodes s a) \<Longrightarrow>
   cluster_step M s (set_pend s a None)"
| win:
  "a \<in> M \<Longrightarrow> pend s a = Some (rq, peer_count (nodes s a)) \<Longrightarrow> election_won (nodes s a) \<Longrightarrow> disk_ok ev \<Longrightarrow>
   raft_become_leader ev nt (nodes s a) = Some n \<Longrightarrow>
   cluster_step M s ((set_pend (set_node s a n) a None)
     \<lparr>winners := insert (current_term (nodes s a), a) (winners s), ae_reqs := leader_msgs (nodes s a) \<union> ae_reqs s\<rparr>)"
| vote:
  "b \<in> M \<Longrightarrow> pend s b = None \<Longrightarrow> rq \<in> rv_reqs s \<Longrightarrow> disk_ok ev \<Longrightarrow>
   raft_request_vote ev (nodes s b) rq = (n, rsp) \<Longrightarrow>
   cluster_step M s ((set_node s b n)
     \<lparr>rv_replies := insert (b, rq, rvr_term rsp, vote_granted rsp) (rv_replies s),
      ballots := (if vote_granted rsp then insert (b, rv_term rq, candidate_id rq) (ballots s) else ballots s)\<rparr>)"
| append:
  "b \<in> M \<Longrightarrow> pend s b = None \<Longrightarrow> rq \<in> ae_reqs s \<Longrightarrow> disk_ok ev \<Longrightarrow>
   raft_append_entries ev (nodes s b) rq = Some (n, rsp) \<Longrightarrow>
   cluster_step M s ((set_node s b n)
     \<lparr>resets := (if state (nodes s b) = RAFT_STATE_CANDIDATE \<and> ae_term rq = current_term (nodes s b)
                 then insert (b, ae_term rq) (resets s) else resets s)\<rparr>)"
| replicate:
  "a \<in> M \<Longrightarrow> pend s a = None \<Longrightarrow> disk_ok ev \<Longrightarrow> is_leader (nodes s a) \<Longrightarrow> n = raft_replicate ev nt (nodes s a) \<Longrightarrow>
   cluster_step M s ((set_node s a n)\<lparr>ae_reqs := leader_msgs (nodes s a) \<union> ae_reqs s\<rparr>)"
| submit:
  "a \<in> M \<Longrightarrow> pend s a = None \<Longrightarrow> disk_ok ev \<Longrightarrow> is_leader (nodes s a) \<Longrightarrow>
   raft_submit_command ev nt (nodes s a) cmd = Some (n, i) \<Longrightarrow>
   cluster_step M s ((set_node s a n)\<lparr>ae_reqs := leader_msgs (nodes s a) \<union> ae_reqs s\<rparr>)"
| apply_committed:
  "a \<in> M \<Longrightarrow> pend s a = None \<Longrightarrow> n = raft_apply_committed_entries (nodes s a) \<Longrightarrow>
   cluster_step M s (set_node s a n)"
| restart:
  "a \<in> M \<Longrightarrow> fresh_node n0 \<Longrightarrow> member M a n0 \<Longrightarrow> state_file n0 = state_file (nodes s a) \<Longrightarrow>
   is_u64 (current_term (nodes s a)) \<Longrightarrow> n = raft_load_state n0 \<Longrightarrow>
   cluster_step M s (set_pend (set_node s a n) a None)"

inductive_cases cluster_stepE: "cluster_step M s t"

section \<open>The invariant\<close>

definition durable :: "RaftNode \<Rightarrow> bool" where
  "durable n \<longleftrightarrow> mirrored n \<or> state_file n = None \<and> current_term n = 0 \<and> voted_for n = -1"

definition nodes_inv :: "int set \<Rightarrow> raft_cluster \<Rightarrow> bool" where
  "nodes_inv M s \<longleftrightarrow> members_ok M \<and>
     (\<forall>a \<in> M. let n = nodes s a in
        member M a n \<and> durable n \<and> (voted_for n = -1 \<or> (a, current_term n, voted_for n) \<in> ballots s) \<and>
        (state n = RAFT_STATE_CANDIDATE \<longrightarrow> voted_for n = a) \<and>
        (is_leader n \<longrightarrow> (current_term n, a) \<in> winners s))"

definition ballots_inv :: "int set \<Rightarrow> raft_cluster \<Rightarrow> bool" where
  "ballots_inv M s \<longleftrightarrow>
     (\<forall>a t c. (a, t, c) \<in> ballots s \<longrightarrow> a \<in> M \<and> c \<in> M \<and> t \<le> current_term (nodes s a) \<and>
        (t = current_term (nodes s a) \<and> voted_for (nodes s a) = -1 \<longrightarrow> (a, t) \<in> resets s)) \<and>
     (\<forall>a t c c'. (a, t, c) \<in> ballots s \<longrightarrow> (a, t, c') \<in> ballots s \<longrightarrow> c \<noteq> c' \<longrightarrow> (a, t) \<in> resets s)"

definition resets_inv :: "raft_cluster \<Rightarrow> bool" where
  "resets_inv s \<longleftrightarrow> (\<forall>a t. (a, t) \<in> resets s \<longrightarrow>
     (a, t, a) \<in> ballots s \<and> (\<exists>w. (t, w) \<in> winners s) \<and> (t, a) \<notin> winners s \<and>
     (t = current_term (nodes s a) \<longrightarrow> state (nodes s a) \<noteq> RAFT_STATE_CANDIDATE))"

text \<open>A majority voted for \<open>a\<close> in term \<open>t\<close> and never had its vote cleared.\<close>

definition elected :: "int set \<Rightarrow> raft_cluster \<Rightarrow> nat \<Rightarrow> int \<Rightarrow> bool" where
  "elected M s t a \<longleftrightarrow> (\<exists>Q. majority M Q \<and> (\<forall>v \<in> Q. (v, t) \<notin> resets s \<and> (v, t, a) \<in> ballots s))"

definition winners_inv :: "int set \<Rightarrow> raft_cluster \<Rightarrow> bool" where
  "winners_inv M s \<longleftrightarrow> (\<forall>t a. (t, a) \<in> winners s \<longrightarrow>
     (a, t, a) \<in> ballots s \<and>
     (t = current_term (nodes s a) \<longrightarrow> state (nodes s a) \<noteq> RAFT_STATE_CANDIDATE) \<and>
     elected M s t a)"

definition pend_ok :: "raft_cluster \<Rightarrow> int \<Rightarrow> RequestVoteRequest \<Rightarrow> nat \<Rightarrow> bool" where
  "pend_ok s a rq i \<longleftrightarrow>
     (let n = nodes s a in
        state n = RAFT_STATE_CANDIDATE \<and> rv_term rq = current_term n \<and> candidate_id rq = a \<and>
        i \<le> peer_count n \<and>
        (\<exists>S. S \<subseteq> set (take i (map peer_id (peers (cluster n)))) \<and>
           votes_received n = 1 + card S \<and> (\<forall>v \<in> S. (v, current_term n, a) \<in> ballots s)))"

definition pend_inv :: "int set \<Rightarrow> raft_cluster \<Rightarrow> bool" where
  "pend_inv M s \<longleftrightarrow> (\<forall>a \<in> M. \<forall>rq i. pend s a = Some (rq, i) \<longrightarrow> pend_ok s a rq i)"

definition msgs_inv :: "int set \<Rightarrow> raft_cluster \<Rightarrow> bool" where
  "msgs_inv M s \<longleftrightarrow> (\<forall>rq \<in> rv_reqs s. candidate_id rq \<in> M) \<and>
     (\<forall>v rq t. (v, rq, t, True) \<in> rv_replies s \<longrightarrow> (v, rv_term rq, candidate_id rq) \<in> ballots s) \<and>
     (\<forall>rq \<in> ae_reqs s. \<exists>w. (ae_term rq, w) \<in> winners s)"

definition cluster_inv :: "int set \<Rightarrow> raft_cluster \<Rightarrow> bool" where
  "cluster_inv M s \<longleftrightarrow> nodes_inv M s \<and> ballots_inv M s \<and> resets_inv s \<and> winners_inv M s \<and>
     pend_inv M s \<and> msgs_inv M s"

lemmas inv_defs = nodes_inv_def ballots_inv_def resets_inv_def winners_inv_def pend_inv_def msgs_inv_def

lemma cluster_inv_init: "cluster_init M s \<Longrightarrow> cluster_inv M s"
  by (auto simp: cluster_inv_def inv_defs cluster_init_def durable_def fresh_node_def Let_def)

lemma elected_mono:
  "elected M s t a \<Longrightarrow> ballots s \<subseteq> ballots s' \<Longrightarrow> resets s' = resets s \<Longrightarrow> elected M s' t a"
  unfolding elected_def by blast

lemma pend_ok_mono:
  "pend_ok s a rq i \<Longrightarrow> nodes s' a = nodes s a \<Longrightarrow> ballots s \<subseteq> ballots s' \<Longrightarrow> pend_ok s' a rq i"
  unfolding pend_ok_def Let_def by (simp add: subset_iff) metis

lemma inv_memberD:
  assumes "cluster_inv M s" "a \<in> M"
  shows "member M a (nodes s a)" "node_id (nodes s a) = a" "durable (nodes s a)" "0 \<le> a" "finite M"
    "state (nodes s a) = RAFT_STATE_CANDIDATE \<Longrightarrow> voted_for (nodes s a) = a"
    "is_leader (nodes s a) \<Longrightarrow> (current_term (nodes s a), a) \<in> winners s"
    "voted_for (nodes s a) \<noteq> -1 \<Longrightarrow> (a, current_term (nodes s a), voted_for (nodes s a)) \<in> ballots s"
    "is_i32 a"
  using assms by (auto simp: cluster_inv_def nodes_inv_def members_ok_def Let_def member_def)

lemma inv_ballotD:
  assumes "cluster_inv M s" "(a, t, c) \<in> ballots s"
  shows "a \<in> M" "c \<in> M" "t \<le> current_term (nodes s a)"
    "t = current_term (nodes s a) \<Longrightarrow> voted_for (nodes s a) = -1 \<Longrightarrow> (a, t) \<in> resets s"
    "(a, t, c') \<in> ballots s \<Longrightarrow> c \<noteq> c' \<Longrightarrow> (a, t) \<in> resets s"
  using assms unfolding cluster_inv_def ballots_inv_def by blast+

lemma inv_winnerD:
  assumes "cluster_inv M s" "(t, a) \<in> winners s"
  shows "(a, t, a) \<in> ballots s" "t = current_term (nodes s a) \<Longrightarrow> state (nodes s a) \<noteq> RAFT_STATE_CANDIDATE"
    "elected M s t a"
  using assms unfolding cluster_inv_def winners_inv_def by blast+

section \<open>Steps that leave the histories alone\<close>

text \<open>A node keeps its term and vote and does not gain a role, or moves to a higher term as a follower
  without a vote.\<close>

definition calm :: "RaftNode \<Rightarrow> RaftNode \<Rightarrow> bool" where
  "calm n m \<longleftrightarrow> durable m \<and>
     (current_term m = current_term n \<and> voted_for m = voted_for n \<and>
        (state m = RAFT_STATE_CANDIDATE \<longrightarrow> state n = RAFT_STATE_CANDIDATE) \<and> (is_leader m \<longrightarrow> is_leader n) \<or>
      current_term n < current_term m \<and> voted_for m = -1 \<and> state m \<noteq> RAFT_STATE_CANDIDATE \<and> \<not> is_leader m)"

lemma calm_refl [simp]: "durable n \<Longrightarrow> calm n n"
  by (simp add: calm_def)

lemma member_same: "member M a n \<Longrightarrow> node_id m = node_id n \<Longrightarrow> same_cluster n m \<Longrightarrow> member M a m"
  using same_cluster_count [of n m] by (simp add: member_def same_cluster_def flip: set_map)

lemma calm_inv:
  assumes inv: "cluster_inv M s" and a: "a \<in> M" and calm: "calm (nodes s a) m" and mem: "member M a m"
  shows "cluster_inv M (set_pend (set_node s a m) a None)"
proof -
  let ?s = "set_pend (set_node s a m) a None"
  note i = inv [unfolded cluster_inv_def]
  have new: "t < current_term m" if "(a, t, c) \<in> ballots s" "current_term (nodes s a) < current_term m" for t c
    using inv_ballotD(3) [OF inv that(1)] that(2) by linarith
  have "ballots_inv M ?s"
    using i calm by (auto simp: ballots_inv_def calm_def dest: new)
  moreover have "nodes_inv M ?s"
    using i calm mem by (auto simp: nodes_inv_def calm_def Let_def)
  moreover have "resets_inv ?s"
    using i calm a by (auto simp: resets_inv_def ballots_inv_def calm_def)
  moreover have "winners_inv M ?s"
    using i calm a by (auto simp: winners_inv_def ballots_inv_def calm_def intro: elected_mono [of M s])
  moreover have "pend_inv M ?s"
    using i by (auto simp: pend_inv_def pend_ok_def Let_def)
  moreover have "msgs_inv M ?s"
    using i by (auto simp: msgs_inv_def)
  ultimately show ?thesis by (simp add: cluster_inv_def)
qed

lemma set_pend_None [simp]: "pend s a = None \<Longrightarrow> (pend s)(a := None) = pend s"
  by (simp add: fun_upd_idem)

lemma calm_inv_idle:
  assumes "cluster_inv M s" "a \<in> M" "calm (nodes s a) m" "pend s a = None"
    "node_id m = node_id (nodes s a)" "same_cluster (nodes s a) m"
  shows "cluster_inv M (set_node s a m)"
  using calm_inv [OF assms(1-3) member_same [OF inv_memberD(1) [OF assms(1,2)] assms(5,6)]] assms(4) by simp

text \<open>Pools may grow by what the histories justify.\<close>

lemma grow_msgs:
  assumes "cluster_inv M s" "\<forall>rq \<in> A. \<exists>w. (ae_term rq, w) \<in> winners s"
  shows "cluster_inv M (s\<lparr>ae_reqs := A \<union> ae_reqs s\<rparr>)"
  using assms by (auto simp: cluster_inv_def inv_defs pend_ok_def elected_def Let_def)

lemma grow_replies:
  assumes "cluster_inv M s" "g \<longrightarrow> (v, rv_term rq, candidate_id rq) \<in> ballots s"
  shows "cluster_inv M (s\<lparr>rv_replies := insert (v, rq, t, g) (rv_replies s)\<rparr>)"
  using assms by (auto simp: cluster_inv_def inv_defs pend_ok_def elected_def Let_def)

text \<open>A pending election may be recorded when its votes are accounted for.\<close>

lemma set_pend_inv:
  assumes "cluster_inv M (set_pend s a None)" "pend_ok s a rq i"
  shows "cluster_inv M (set_pend s a (Some (rq, i)))"
  using assms by (auto simp: cluster_inv_def inv_defs pend_ok_def elected_def Let_def)

section \<open>The handlers as calm steps\<close>

lemma durable_cong:
  "state_file m = state_file n \<Longrightarrow> current_term m = current_term n \<Longrightarrow> voted_for m = voted_for n \<Longrightarrow>
   durable m = durable n"
  by (simp add: durable_def mirrored_def)

lemma calm_round: "rpc_round ev stop n m \<Longrightarrow> disk_ok ev \<Longrightarrow> durable n \<Longrightarrow> calm n m"
  using durable_cong [of m n] by (auto simp: rpc_round_def calm_def durable_def split: if_splits)

lemma calm_update_commit: "calm n m \<Longrightarrow> calm n (raft_update_commit_index m)"
  using durable_cong [of "raft_update_commit_index m" m] by (simp add: calm_def)

lemma calm_replicate:
  assumes "disk_ok ev" "durable n"
  shows "calm n (raft_replicate ev nt n)"
  by (cases rule: replicate_cases [of n ev nt]) (use assms calm_round calm_update_commit in auto)

lemma calm_submit:
  assumes "raft_submit_command ev nt n cmd = Some (m, i)" "is_leader n" "disk_ok ev" "durable n"
  shows "calm n m" "node_id m = node_id n" "same_cluster n m"
proof -
  obtain l where m: "m = raft_replicate ev nt (n\<lparr>log := l\<rparr>)"
    using assms(1,2) by (auto simp: raft_submit_command_def Let_def split: option.splits)
  have "durable (n\<lparr>log := l\<rparr>)" using assms(4) durable_cong [of "n\<lparr>log := l\<rparr>" n] by simp
  then show "calm n m" using calm_replicate [OF assms(3), of "n\<lparr>log := l\<rparr>" nt] m by (simp add: calm_def)
  show "node_id m = node_id n" "same_cluster n m"
    using replicate_frame(1,11) [OF m] by (simp_all add: same_cluster_def)
qed

lemma calm_apply: "durable n \<Longrightarrow> calm n (raft_apply_committed_entries n)"
  using durable_cong [of "raft_apply_committed_entries n" n] by (simp add: calm_def)

lemma calm_vote_rejected:
  assumes "raft_request_vote ev n rq = (m, rsp)" "\<not> vote_granted rsp" "disk_ok ev" "durable n"
  shows "calm n m"
  by (cases rule: request_vote_cases [OF assms(1)]) (use assms(2-4) in \<open>auto simp: calm_def durable_def\<close>)

lemma append_entries_file:
  assumes "raft_append_entries ev n rq = Some (m, rsp)" "disk_ok ev"
  shows "mirrored m \<or> state_file m = state_file n \<and> current_term m = current_term n \<and> voted_for m = voted_for n"
  using assms by (auto simp: raft_append_entries_def Let_def mirrored_def raft_become_follower_def
      raft_persist_state_def disk_ok_def split: if_splits option.splits)

lemma durable_append:
  assumes "raft_append_entries ev n rq = Some (m, rsp)" "disk_ok ev" "durable n"
  shows "durable m"
  using append_entries_file [OF assms(1,2)] assms(3) durable_cong [of m n] by (auto simp: durable_def)

lemma calm_append:
  assumes "raft_append_entries ev n rq = Some (m, rsp)" "disk_ok ev" "durable n"
    and "\<not> (state n = RAFT_STATE_CANDIDATE \<and> ae_term rq = current_term n)"
  shows "calm n m"
proof (cases "ae_term rq < current_term n")
  case True
  then show ?thesis using append_entries_frame(8) [OF assms(1)] assms(3) by simp
next
  case False
  then show ?thesis
    using append_entries_frame(4,9,10) [OF assms(1)] durable_append [OF assms(1-3)] assms(4)
    by (cases "current_term m = current_term n") (auto simp: calm_def)
qed

lemma calm_restart:
  assumes "durable n" "fresh_node n0" "state_file n0 = state_file n" "is_u64 (current_term n)" "is_i32 (voted_for n)"
  shows "calm n (raft_load_state n0)" "node_id (raft_load_state n0) = node_id n0" "same_cluster n0 (raft_load_state n0)"
proof -
  have "raft_load_state n0 = n0\<lparr>current_term := current_term n, voted_for := voted_for n\<rparr>"
  proof (cases "mirrored n")
    case True
    then show ?thesis using load_state_mirrored assms(3-5) by (simp add: mirrored_def)
  next
    case False
    then show ?thesis using assms(1-3) by (simp add: durable_def fresh_node_def raft_load_state_def)
  qed
  then show "calm n (raft_load_state n0)" "node_id (raft_load_state n0) = node_id n0"
    "same_cluster n0 (raft_load_state n0)"
    using assms(1-3) durable_cong [of "n0\<lparr>current_term := current_term n, voted_for := voted_for n\<rparr>" n]
    by (simp_all add: calm_def same_cluster_def fresh_node_def)
qed

section \<open>Steps that write the histories\<close>

lemma start_election_inv:
  assumes inv: "cluster_inv M s" and a: "a \<in> M" and p: "pend s a = None" and d: "disk_ok ev"
    and n: "n = election_begin ev (nodes s a)"
  shows "cluster_inv M ((set_pend (set_node s a n) a (Some (election_request n, 0)))
     \<lparr>rv_reqs := insert (election_request n) (rv_reqs s), ballots := insert (a, current_term n, a) (ballots s)\<rparr>)"
proof -
  let ?t = "current_term n"
  let ?r = "(set_node s a n)\<lparr>rv_reqs := insert (election_request n) (rv_reqs s),
               ballots := insert (a, ?t, a) (ballots s)\<rparr>"
  note i = inv [unfolded cluster_inv_def] and m = inv_memberD [OF inv a]
  have f: "?t = current_term (nodes s a) + 1" "voted_for n = a" "state n = RAFT_STATE_CANDIDATE"
    "\<not> is_leader n" "node_id n = a" "votes_received n = 1" "durable n"
    using d m(2) by (simp_all add: n election_begin_def durable_def)
  have vn: "voted_for n \<noteq> -1" using f(2) m(4) by simp
  have mem: "member M a n"
    using m(1) by (simp add: n election_begin_def member_def comp_def)
  have new: "t < ?t" if "(a, t, c) \<in> ballots s" for t c
    using inv_ballotD(3) [OF inv that] f(1) by simp
  have nw: "t < ?t" if "(t, a) \<in> winners s" for t
    using that i new by (auto simp: winners_inv_def)
  have nr: "t < ?t" if "(a, t) \<in> resets s" for t
    using that i new by (auto simp: resets_inv_def)
  have "cluster_inv M (set_pend ?r a None)"
    unfolding cluster_inv_def
  proof (intro conjI)
    show "nodes_inv M (set_pend ?r a None)" using i f mem by (auto simp: nodes_inv_def Let_def)
    show "ballots_inv M (set_pend ?r a None)"
      using i a vn by (auto simp: ballots_inv_def dest: new)
    show "resets_inv (set_pend ?r a None)" using i by (auto simp: resets_inv_def dest: nr)
    show "winners_inv M (set_pend ?r a None)"
      using i by (auto simp: winners_inv_def dest: nw intro: elected_mono [of M s])
    show "pend_inv M (set_pend ?r a None)" using i by (auto simp: pend_inv_def pend_ok_def Let_def; blast)
    show "msgs_inv M (set_pend ?r a None)" using i a f by (auto simp: msgs_inv_def election_request_def)
  qed
  moreover have "pend_ok ?r a (election_request n) 0"
    using f by (auto simp: pend_ok_def election_request_def Let_def)
  ultimately have "cluster_inv M (set_pend ?r a (Some (election_request n, 0)))" by (rule set_pend_inv)
  then show ?thesis by (rule back_subst [of "cluster_inv M"]) (simp add: raft_cluster.equality)
qed

lemma skip_peer_inv:
  assumes inv: "cluster_inv M s" and a: "a \<in> M" and p: "pend s a = Some (rq, i)" "i < peer_count (nodes s a)"
  shows "cluster_inv M (set_pend s a (Some (rq, Suc i)))"
proof (rule set_pend_inv)
  show "cluster_inv M (set_pend s a None)"
    using calm_inv [OF inv a calm_refl [OF inv_memberD(3) [OF inv a]] inv_memberD(1) [OF inv a]] by simp
  have "pend_ok s a rq i" using inv a p by (simp add: cluster_inv_def pend_inv_def)
  then show "pend_ok s a rq (Suc i)"
    using p(2) set_take_subset_set_take [of i "Suc i" "map peer_id (peers (cluster (nodes s a)))"]
    unfolding pend_ok_def Let_def by (meson Suc_leI le_SucI lessI less_imp_le subset_trans)
qed

text \<open>Asking one peer: a granted vote is one more distinct voter with a ballot for the candidate.\<close>

lemma election_peer_votes:
  assumes "election_peer ev out n i = (m, False)"
  shows "votes_received m = votes_received n + (case out of RPC_reply (t, True) \<Rightarrow> 1 | _ \<Rightarrow> 0)"
  using assms by (auto simp: election_peer_def raft_send_request_vote_def Let_def
      split: if_splits rpc_outcome.splits prod.splits bool.splits)

lemma ask_peer_inv:
  assumes inv: "cluster_inv M s" and a: "a \<in> M" and p: "pend s a = Some (rq, i)" "i < peer_count (nodes s a)"
    and d: "disk_ok ev" and r: "possible_reply s rq (nodes s a) i out"
    and e: "election_peer ev out (nodes s a) i = (n, stop)"
  shows "cluster_inv M (set_pend (set_node s a n) a (if stop then None else Some (rq, Suc i)))"
proof -
  let ?n = "nodes s a" and ?ids = "map peer_id (peers (cluster (nodes s a)))"
  note round = election_peer_round [OF e]
  note mem = member_same [OF inv_memberD(1) [OF inv a], of n]
  have same: "node_id n = node_id ?n" "same_cluster ?n n" using round by (simp_all add: rpc_round_def)
  have none: "cluster_inv M (set_pend (set_node s a n) a None)"
    by (rule calm_inv [OF inv a calm_round [OF round d inv_memberD(3) [OF inv a]] mem [OF same]])
  have ok: "pend_ok (set_node s a n) a rq (Suc i)" if "\<not> stop"
  proof -
    have old: "pend_ok s a rq i" using inv a p by (simp add: cluster_inv_def pend_inv_def)
    then obtain S where S: "S \<subseteq> set (take i ?ids)" "votes_received ?n = 1 + card S"
      "\<forall>v \<in> S. (v, current_term ?n, a) \<in> ballots s"
      by (auto simp: pend_ok_def Let_def)
    have dist: "distinct ?ids" using inv_memberD(1) [OF inv a] by (simp add: member_def)
    have tk: "set (take (Suc i) ?ids) = insert (?ids ! i) (set (take i ?ids))"
      using p(2) by (simp add: take_Suc_conv_app_nth)
    have fin: "finite S" using S(1) finite_subset by blast
    have notin: "?ids ! i \<notin> S"
      using S(1) dist p(2) by (auto simp: in_set_conv_nth nth_eq_iff_index_eq simp del: nth_map dest!: subsetD)
    have e': "election_peer ev out ?n i = (n, False)" using e that by simp
    note votes = election_peer_votes [OF e']
    define S' where "S' = (case out of RPC_reply (t, True) \<Rightarrow> insert (?ids ! i) S | _ \<Rightarrow> S)"
    have "(?ids ! i, current_term ?n, a) \<in> ballots s" if "out = RPC_reply (t, True)" for t
    proof -
      have "(?ids ! i, rq, t, True) \<in> rv_replies s"
        using r that p(2) by (simp add: possible_reply_def peer_at_def)
      then have "(?ids ! i, rv_term rq, candidate_id rq) \<in> ballots s"
        using inv unfolding cluster_inv_def msgs_inv_def by blast
      then show ?thesis using old by (simp add: pend_ok_def Let_def)
    qed
    then have "S' \<subseteq> set (take (Suc i) ?ids)" "votes_received n = 1 + card S'"
      "\<forall>v \<in> S'. (v, current_term ?n, a) \<in> ballots s"
      using S tk fin notin votes by (auto simp: S'_def split: rpc_outcome.splits prod.splits bool.splits)
    moreover have "map peer_id (peers (cluster n)) = ?ids" "current_term n = current_term ?n" "state n = state ?n"
      "peer_count n = peer_count ?n"
      using round that same_cluster_count [OF same(2)] by (auto simp: rpc_round_def same_cluster_def)
    ultimately show ?thesis using old p(2) by (auto simp: pend_ok_def Let_def)
  qed
  show ?thesis using none ok set_pend_inv [of M "set_node s a n" a rq "Suc i"] by (cases stop) simp_all
qed

text \<open>A candidate of term \<open>t\<close> that holds the votes of a majority: nobody has won \<open>t\<close> before.\<close>

lemma no_earlier_winner:
  assumes inv: "cluster_inv M s" and a: "a \<in> M"
    and c: "state (nodes s a) = RAFT_STATE_CANDIDATE" "current_term (nodes s a) = t"
    and Q: "majority M Q" "\<forall>v \<in> Q. (v, t, a) \<in> ballots s"
  shows "(t, w) \<notin> winners s"
proof
  assume w: "(t, w) \<in> winners s"
  then obtain R where R: "majority M R" "\<forall>v \<in> R. (v, t) \<notin> resets s \<and> (v, t, w) \<in> ballots s"
    using inv unfolding cluster_inv_def winners_inv_def elected_def by blast
  obtain v where "v \<in> Q" "v \<in> R" using maj.quorum_meet [OF Q(1) R(1)] by blast
  then have "w = a" using inv_ballotD(5) [OF inv, of v t a w] Q(2) R(2) by blast
  then show False using w c inv by (auto simp: cluster_inv_def winners_inv_def)
qed

lemma pend_votes:
  assumes inv: "cluster_inv M s" and a: "a \<in> M" and p: "pend s a = Some (rq, i)"
    and won: "election_won (nodes s a)"
  obtains Q where "majority M Q" "\<forall>v \<in> Q. (v, current_term (nodes s a), a) \<in> ballots s"
    "state (nodes s a) = RAFT_STATE_CANDIDATE"
proof -
  let ?n = "nodes s a" and ?ids = "map peer_id (peers (cluster (nodes s a)))"
  have ok: "pend_ok s a rq i" using inv a p by (simp add: cluster_inv_def pend_inv_def)
  then obtain S where S: "S \<subseteq> set (take i ?ids)" "votes_received ?n = 1 + card S"
    "\<forall>v \<in> S. (v, current_term ?n, a) \<in> ballots s"
    by (auto simp: pend_ok_def Let_def)
  note m = inv_memberD [OF inv a]
  have mem: "distinct ?ids" "set ?ids = M - {a}" "quorum_size (cluster ?n) = (peer_count ?n + 1) div 2 + 1"
    using m(1) by (simp_all add: member_def)
  have "card (M - {a}) = peer_count ?n" using distinct_card [OF mem(1)] mem(2) by simp
  then have cM: "card M = peer_count ?n + 1" using card_Suc_Diff1 [OF m(5) a] by simp
  have sub: "S \<subseteq> M - {a}" using S(1) set_take_subset [of i ?ids] mem(2) by blast
  have "card (insert a S) = votes_received ?n"
    using sub m(5) S(2) finite_subset [of S M] by (subst card_insert_disjoint) auto
  then have "majority M (insert a S)"
    using sub a m(5) won mem(3) cM by (auto simp: majority_def election_won_def)
  moreover have "(a, current_term ?n, a) \<in> ballots s"
    using m(4,6,8) ok by (auto simp: pend_ok_def Let_def)
  ultimately show ?thesis using that [of "insert a S"] S(3) ok by (auto simp: pend_ok_def Let_def)
qed

lemma win_inv:
  assumes inv: "cluster_inv M s" and a: "a \<in> M" and p: "pend s a = Some (rq, i)"
    and won: "election_won (nodes s a)" and d: "disk_ok ev"
    and n: "raft_become_leader ev nt (nodes s a) = Some n"
  shows "cluster_inv M ((set_pend (set_node s a n) a None)
     \<lparr>winners := insert (current_term (nodes s a), a) (winners s), ae_reqs := leader_msgs (nodes s a) \<union> ae_reqs s\<rparr>)"
proof -
  let ?n = "nodes s a" and ?t = "current_term (nodes s a)"
  let ?l = "?n\<lparr>state := RAFT_STATE_LEADER, is_leader := True\<rparr>"
  obtain Q where Q: "majority M Q" "\<forall>v \<in> Q. (v, ?t, a) \<in> ballots s" and cand: "state ?n = RAFT_STATE_CANDIDATE"
    using pend_votes [OF inv a p won] .
  note i = inv [unfolded cluster_inv_def] and m = inv_memberD [OF inv a]
  have nw: "(?t, w) \<notin> winners s" for w using no_earlier_winner [OF inv a cand refl Q] .
  have nr: "(v, ?t) \<notin> resets s" for v using i nw by (auto simp: resets_inv_def)
  let ?s1 = "s\<lparr>nodes := (nodes s)(a := ?l), winners := insert (?t, a) (winners s),
               pend := (pend s)(a := None)\<rparr>"
  have self: "(a, ?t, a) \<in> ballots s" using m(4,6,8) cand by auto
  have el: "elected M ?s1 ?t a" using Q nr by (auto simp: elected_def)
  have "cluster_inv M ?s1"
    unfolding cluster_inv_def
  proof (intro conjI)
    have "durable (?l)" "member M a (?l)"
      using m(1,3) durable_cong [of "?l" ?n] by (simp_all add: member_def)
    then show "nodes_inv M ?s1" using i by (auto simp: nodes_inv_def Let_def)
    show "ballots_inv M ?s1" using i by (auto simp: ballots_inv_def)
    show "resets_inv ?s1" using i nr by (simp add: resets_inv_def) metis
    show "winners_inv M ?s1"
      using i self el by (auto simp: winners_inv_def intro: elected_mono [of M s])
    show "pend_inv M ?s1" using i by (auto simp: pend_inv_def pend_ok_def Let_def)
    show "msgs_inv M ?s1" using i by (auto simp: msgs_inv_def)
  qed
  note s1 = this
  obtain l where n': "n = raft_replicate ev nt (new_leader ?n l)"
    using n by (auto simp: become_leader_eq)
  have "durable (new_leader ?n l)" using m(3) durable_cong [of "new_leader ?n l" ?n] by simp
  then have calm: "calm (nodes ?s1 a) n"
    using calm_replicate [OF d, of "new_leader ?n l" nt] n' by (simp add: calm_def)
  have "member M a n"
    using member_same [OF m(1), of n] replicate_frame(1,11) [OF n'] new_leader_frame(2,11) [of ?n l]
    by (simp add: same_cluster_def)
  then have "cluster_inv M (set_pend (set_node ?s1 a n) a None)" by (rule calm_inv [OF s1 a calm])
  from grow_msgs [OF this, of "leader_msgs ?n"]
  have "cluster_inv M ((set_pend (set_node ?s1 a n) a None)\<lparr>ae_reqs := leader_msgs ?n \<union> ae_reqs s\<rparr>)"
    by (simp add: leader_msgs_def) blast
  then show ?thesis by (rule back_subst [of "cluster_inv M"]) (simp add: raft_cluster.equality)
qed

lemma request_vote_new_term:
  assumes "raft_request_vote ev n rq = (m, rsp)" "current_term m \<noteq> current_term n"
  shows "state m = RAFT_STATE_FOLLOWER" "\<not> is_leader m"
  by (cases rule: request_vote_cases [OF assms(1)]; use assms(2) in \<open>auto split: if_splits\<close>)+

lemma vote_granted_inv:
  assumes inv: "cluster_inv M s" and b: "b \<in> M" and p: "pend s b = None" and rq: "rq \<in> rv_reqs s"
    and d: "disk_ok ev" and h: "raft_request_vote ev (nodes s b) rq = (n, rsp)" and g: "vote_granted rsp"
  shows "cluster_inv M ((set_node s b n)\<lparr>ballots := insert (b, rv_term rq, candidate_id rq) (ballots s)\<rparr>)"
    (is "cluster_inv M ?s")
proof -
  let ?n = "nodes s b" and ?t = "rv_term rq" and ?c = "candidate_id rq"
  note i = inv [unfolded cluster_inv_def] and m = inv_memberD [OF inv b]
  note v = request_vote_granted [OF h g] and f = request_vote_frame [OF h]
  have c: "?c \<in> M" using rq i by (auto simp: msgs_inv_def)
  have vn: "voted_for n \<noteq> -1" using v(2) inv_memberD(4) [OF inv c] by simp
  have mem: "member M b n" using m(1) f(2,3) by (simp add: member_def)
  have dur: "durable n"
    by (cases rule: request_vote_cases [OF h]) (use d g in \<open>auto simp: durable_def\<close>)
  have cand: "current_term ?n = ?t" "?c = b" "state ?n = RAFT_STATE_CANDIDATE" if "state n = RAFT_STATE_CANDIDATE"
  proof -
    show t: "current_term ?n = ?t" using request_vote_new_term(1) [OF h] v(1) that by fastforce
    then show st: "state ?n = RAFT_STATE_CANDIDATE" using request_vote_same_term(1) [OF h] v(1) that by simp
    show "?c = b" using v(5) [OF t] m(4,6) st by auto
  qed
  have lead: "(current_term n, b) \<in> winners s" if "is_leader n"
  proof -
    have "current_term ?n = ?t" using request_vote_new_term(2) [OF h] v(1) that by fastforce
    then show ?thesis using request_vote_same_term(2) [OF h] v(1) that m(7) by simp
  qed
  have le: "t \<le> ?t" if "(b, t, c') \<in> ballots s" for t c'
    using inv_ballotD(3) [OF inv that] v(4) by simp
  have twice: "(b, ?t) \<in> resets s" if "(b, ?t, c') \<in> ballots s" "c' \<noteq> ?c" for c'
  proof -
    have t: "current_term ?n = ?t" using inv_ballotD(3) [OF inv that(1)] v(4) by simp
    show ?thesis
    proof (cases "voted_for ?n = -1")
      case True
      then show ?thesis using inv_ballotD(4) [OF inv that(1)] t by simp
    next
      case False
      then have "(b, ?t, ?c) \<in> ballots s" using v(5) [OF t] m(8) t by simp
      then show ?thesis using inv_ballotD(5) [OF inv that(1)] that(2) by blast
    qed
  qed
  show ?thesis
    unfolding cluster_inv_def
  proof (intro conjI)
    show "nodes_inv M ?s" using i mem dur v(1,2) cand(2) lead by (auto simp: nodes_inv_def Let_def)
    show "ballots_inv M ?s"
      using i b c v(1) vn twice le by (auto simp: ballots_inv_def)
    show "resets_inv ?s" using i cand v(1) by (auto simp: resets_inv_def)
    have nc: "state n \<noteq> RAFT_STATE_CANDIDATE" if "(current_term n, b) \<in> winners s"
    proof
      assume st: "state n = RAFT_STATE_CANDIDATE"
      have "(current_term ?n, b) \<in> winners s" using that cand(1) [OF st] v(1) by simp
      then show False using inv_winnerD(2) [OF inv] cand(3) [OF st] by blast
    qed
    show "winners_inv M ?s"
      unfolding winners_inv_def
    proof (intro allI impI conjI)
      fix t a assume "(t, a) \<in> winners ?s"
      then have w: "(t, a) \<in> winners s" by simp
      show "(a, t, a) \<in> ballots ?s" using inv_winnerD(1) [OF inv w] by simp
      show "elected M ?s t a" using inv_winnerD(3) [OF inv w] by (rule elected_mono) auto
      show "state (nodes ?s a) \<noteq> RAFT_STATE_CANDIDATE" if "t = current_term (nodes ?s a)"
        using inv_winnerD(2) [OF inv w] nc w that by (cases "a = b") auto
    qed
    show "pend_inv M ?s"
      unfolding pend_inv_def
    proof (intro ballI allI impI)
      fix a q k assume a: "a \<in> M" and "pend ?s a = Some (q, k)"
      then have "pend s a = Some (q, k)" "a \<noteq> b" using p by auto
      then have "pend_ok s a q k" using i a by (auto simp: pend_inv_def)
      then show "pend_ok ?s a q k" by (rule pend_ok_mono) (use \<open>a \<noteq> b\<close> in auto)
    qed
    show "msgs_inv M ?s" using i by (auto simp: msgs_inv_def)
  qed
qed

lemma append_reset_inv:
  assumes inv: "cluster_inv M s" and b: "b \<in> M" and p: "pend s b = None" and rq: "rq \<in> ae_reqs s"
    and d: "disk_ok ev" and h: "raft_append_entries ev (nodes s b) rq = Some (n, rsp)"
    and c: "state (nodes s b) = RAFT_STATE_CANDIDATE" and t: "ae_term rq = current_term (nodes s b)"
  shows "cluster_inv M ((set_node s b n)\<lparr>resets := insert (b, ae_term rq) (resets s)\<rparr>)" (is "cluster_inv M ?s")
proof -
  let ?t = "ae_term rq"
  note i = inv [unfolded cluster_inv_def] and m = inv_memberD [OF inv b]
  note f = append_entries_frame [OF h]
  have n: "current_term n = ?t" "voted_for n = -1" "state n = RAFT_STATE_FOLLOWER" "\<not> is_leader n"
    using f(4,10) c t by simp_all
  have mem: "member M b n" using m(1) f(1,2) by (simp add: member_def)
  have dur: "durable n" by (rule durable_append [OF h d m(3)])
  have self: "(b, ?t, b) \<in> ballots s" using m(4,6,8) c t by auto
  obtain w where w: "(?t, w) \<in> winners s" using rq i by (auto simp: msgs_inv_def)
  have nb: "(?t, b) \<notin> winners s" using i c t by (auto simp: winners_inv_def)
  have el: "elected M ?s u x" if ux: "(u, x) \<in> winners s" for u x
  proof -
    obtain Q where Q: "majority M Q" "\<forall>v \<in> Q. (v, u) \<notin> resets s \<and> (v, u, x) \<in> ballots s"
      using i ux unfolding winners_inv_def elected_def by blast
    have "b \<notin> Q" if "u = ?t"
    proof
      assume "b \<in> Q"
      then have "x = b" using Q(2) that self inv_ballotD(5) [OF inv, of b ?t x b] by blast
      then show False using ux nb that by simp
    qed
    then show ?thesis using Q unfolding elected_def by auto
  qed
  show ?thesis
    unfolding cluster_inv_def
  proof (intro conjI)
    show "nodes_inv M ?s" using i mem dur n by (auto simp: nodes_inv_def Let_def)
    show "ballots_inv M ?s" using i n t by (auto simp: ballots_inv_def)
    show "resets_inv ?s" using i n self w nb by (auto simp: resets_inv_def)
    show "winners_inv M ?s" using i n el by (auto simp: winners_inv_def)
    show "pend_inv M ?s" using i p by (auto simp: pend_inv_def pend_ok_def Let_def)
    show "msgs_inv M ?s" using i by (auto simp: msgs_inv_def)
  qed
qed

section \<open>Election safety\<close>

lemma cluster_inv_step:
  assumes "cluster_inv M s" "cluster_step M s s'"
  shows "cluster_inv M s'"
  using assms(2)
proof cases
  case (start_election a ev n)
  then show ?thesis using start_election_inv [OF assms(1)] by simp
next
  case (skip_peer a rq i)
  then show ?thesis using skip_peer_inv [OF assms(1)] by simp
next
  case (ask_peer a rq i ev out n stop)
  then show ?thesis using ask_peer_inv [OF assms(1)] by simp
next
  case (lose a rq)
  then show ?thesis
    using calm_inv [OF assms(1) _ calm_refl [OF inv_memberD(3) [OF assms(1)]] inv_memberD(1) [OF assms(1)], of a] by simp
next
  case (win a rq ev nt n)
  then show ?thesis using win_inv [OF assms(1)] by simp
next
  case (vote b rq ev n rsp)
  show ?thesis
  proof (cases "vote_granted rsp")
    case True
    from grow_replies [OF vote_granted_inv [OF assms(1) vote(2-6) True], of True b rq "rvr_term rsp"]
    show ?thesis unfolding vote(1) by (rule back_subst [of "cluster_inv M"]) (simp_all add: True)
  next
    case False
    note m = inv_memberD [OF assms(1) vote(2)] and f = request_vote_frame [OF vote(6)]
    have "cluster_inv M (set_node s b n)"
      by (rule calm_inv_idle [OF assms(1) vote(2) calm_vote_rejected [OF vote(6) False vote(5) m(3)] vote(3) f(2)])
         (simp add: same_cluster_def f(3))
    from grow_replies [OF this, of False b rq "rvr_term rsp"]
    show ?thesis unfolding vote(1) by (rule back_subst [of "cluster_inv M"]) (simp_all add: False)
  qed
next
  case (append b rq ev n rsp)
  note m = inv_memberD [OF assms(1) append(2)] and f = append_entries_frame [OF append(6)]
  show ?thesis
  proof (cases "state (nodes s b) = RAFT_STATE_CANDIDATE \<and> ae_term rq = current_term (nodes s b)")
    case True
    then show ?thesis using append_reset_inv [OF assms(1) append(2-6)] append(1) by simp
  next
    case False
    have "cluster_inv M (set_node s b n)"
      by (rule calm_inv_idle [OF assms(1) append(2) calm_append [OF append(6,5) m(3) False] append(3) f(1)])
         (simp add: same_cluster_def f(2))
    then show ?thesis
      unfolding append(1) by (rule back_subst [of "cluster_inv M"]) (simp add: if_not_P [OF False])
  qed
next
  case (replicate a ev n nt)
  note m = inv_memberD [OF assms(1) replicate(2)] and f = replicate_frame(1,11) [OF replicate(6)]
  have "cluster_inv M (set_node s a n)"
    using calm_inv_idle [OF assms(1) replicate(2) _ replicate(3) f] calm_replicate [OF replicate(4) m(3)] replicate(6)
    by simp
  from grow_msgs [OF this, of "leader_msgs (nodes s a)"] show ?thesis
    using m(2,7) replicate(1,5) by (auto simp: leader_msgs_def)
next
  case (submit a ev nt cmd n i)
  note m = inv_memberD [OF assms(1) submit(2)]
  note c = calm_submit [OF submit(6,5,4) m(3)]
  have "cluster_inv M (set_node s a n)" by (rule calm_inv_idle [OF assms(1) submit(2) c(1) submit(3) c(2,3)])
  from grow_msgs [OF this, of "leader_msgs (nodes s a)"] show ?thesis
    using m(2,7) submit(1,5) by (auto simp: leader_msgs_def)
next
  case (apply_committed a n)
  note m = inv_memberD [OF assms(1) apply_committed(2)]
  show ?thesis
    unfolding apply_committed(1,4)
    by (rule calm_inv_idle [OF assms(1) apply_committed(2) calm_apply [OF m(3)] apply_committed(3)])
       (simp_all add: same_cluster_def)
next
  case (restart a n0 n)
  note m = inv_memberD [OF assms(1) restart(2)]
  have "is_i32 (voted_for (nodes s a))"
    using inv_memberD(9) [OF assms(1) inv_ballotD(2) [OF assms(1) m(8)]] by (cases "voted_for (nodes s a) = -1") auto
  note c = calm_restart [OF m(3) restart(3,5,6) this]
  show ?thesis
    unfolding restart(1,7) by (rule calm_inv [OF assms(1) restart(2) c(1) member_same [OF restart(4) c(2,3)]])
qed

interpretation cluster_inv: invariant_system "cluster_init M" "cluster_step M" "cluster_inv M" for M
  by unfold_locales (auto intro: cluster_inv_init cluster_inv_step)

lemma winners_unique:
  assumes inv: "cluster_inv M s" and w: "(t, a) \<in> winners s" "(t, b) \<in> winners s"
  shows "a = b"
proof -
  have "\<forall>t a. (t, a) \<in> winners s \<longrightarrow> elected M s t a"
    using inv unfolding cluster_inv_def winners_inv_def by blast
  then obtain Q R where Q: "majority M Q" "\<And>v. v \<in> Q \<Longrightarrow> (v, t) \<notin> resets s \<and> (v, t, a) \<in> ballots s"
    and R: "majority M R" "\<And>v. v \<in> R \<Longrightarrow> (v, t) \<notin> resets s \<and> (v, t, b) \<in> ballots s"
    using w unfolding elected_def by meson
  show ?thesis
  proof (rule maj.chosen_unique [OF Q(1) _ R(1)])
    show "a = b" if "v \<in> Q \<or> v \<in> R" "(v, t, a) \<in> ballots s" "(v, t, b) \<in> ballots s" for v
      using inv_ballotD(5) [OF inv that(2,3)] that(1) Q(2) R(2) by blast
  qed (use Q(2) R(2) in blast)+
qed

text \<open>C1: election safety. In every reachable state of a cluster with fixed membership, at most one
  node has ever won the election of a term, and two nodes that are leader in the same term are the
  same node; this holds with lost, delayed, reordered and repeated messages and with crashes after
  which a node comes back from its state file.\<close>

theorem election_safety:
  assumes "reach (cluster_init M) (cluster_step M) s"
  shows "((t, a) \<in> winners s \<longrightarrow> (t, b) \<in> winners s \<longrightarrow> a = b) \<and>
    (a \<in> M \<longrightarrow> b \<in> M \<longrightarrow> is_leader (nodes s a) \<longrightarrow> is_leader (nodes s b) \<longrightarrow>
     current_term (nodes s a) = current_term (nodes s b) \<longrightarrow> a = b)"
proof -
  have inv: "cluster_inv M s" by (rule cluster_inv.inv_reach [OF assms])
  then show ?thesis
    using winners_unique [OF inv] inv_memberD(7) [OF inv, of a] inv_memberD(7) [OF inv, of b] by auto
qed

text \<open>A run of three nodes: node 1 stands for election, node 2 votes for it, node 3 is not reached, and
  node 1 wins term 1.\<close>

definition trio :: "int \<Rightarrow> RaftNode" where
  "trio a = (sample_node a 0 (sample_log 1 [] 0))\<lparr>cluster :=
     \<lparr>peers = map (\<lambda>b. sample_peer b 1) (filter (\<lambda>b. b \<noteq> a) [1, 2, 3]), quorum_size = 2, my_node_id = a\<rparr>\<rparr>"

definition trio_init :: raft_cluster where
  "trio_init = \<lparr>nodes = trio, pend = (\<lambda>_. None), rv_reqs = {}, rv_replies = {}, ae_reqs = {},
     ballots = {}, winners = {}, resets = {}\<rparr>"

lemma trio_init: "cluster_init {1, 2, 3} trio_init"
  by (auto simp: cluster_init_def trio_init_def members_ok_def trio_def sample_node_def sample_peer_def
      fresh_node_def member_def)

lemma log_wf_sample: "log_wf (sample_log 1 [] 0)"
  by code_simp

lemma election_safety_witness:
  "\<exists>s. reach (cluster_init {1, 2, 3}) (cluster_step {1, 2, 3}) s \<and> (1, 1) \<in> winners s \<and>
     (\<forall>b. (1, b) \<in> winners s \<longrightarrow> b = 1)"
proof -
  let ?M = "{1, 2, 3} :: int set" and ?reach = "reach (cluster_init {1, 2, 3}) (cluster_step {1, 2, 3})"
  define n1 where "n1 = election_begin sample_env (trio 1)"
  define rq where "rq = election_request n1"
  obtain n2 rsp where v: "raft_request_vote sample_env (trio 2) rq = (n2, rsp)" by fastforce
  have n1: "current_term n1 = 1" "node_id n1 = 1" "last_index (log n1) = 0" "quorum_size (cluster n1) = 2"
    "votes_received n1 = 1" "peers (cluster n1) = [sample_peer 2 1, sample_peer 3 1]" "running (trio 1)"
    "log_wf (log n1)" "log_length (log n1) = 0"
    using log_wf_sample by (simp_all add: n1_def election_begin_def trio_def sample_node_def sample_log_def sample_peer_def)
  have rq: "rv_term rq = 1" "candidate_id rq = 1" "last_log_index rq = 0" "last_log_term rq = 0"
    using n1 by (simp_all add: rq_def election_request_def raft_log_term_at_def raft_log_get_def log_wf_def)
  have rsp: "vote_granted rsp" "rvr_term rsp = 1"
    using v rq by (auto simp: raft_request_vote_def trio_def sample_node_def sample_log_def
        raft_is_log_up_to_date_def raft_log_term_at_def raft_log_get_def Let_def)
  obtain k1 st1 where k1: "election_peer sample_env (RPC_reply (1, True)) n1 0 = (k1, st1)" by fastforce
  have k1v: "\<not> st1" "votes_received k1 = 2" "current_term k1 = 1" "log k1 = log n1" "quorum_size (cluster k1) = 2"
    "peer_count k1 = 2" "is_active (peer_at k1 1)"
    using k1 n1 by (auto simp: election_peer_def raft_send_request_vote_def peer_at_def sample_peer_def)
  obtain k2 st2 where k2: "election_peer sample_env RPC_no_connection k1 1 = (k2, st2)" by fastforce
  have k2v: "\<not> st2" "election_won k2" "current_term k2 = 1" "log k2 = log n1" "peer_count k2 = 2"
    using k2 k1v by (auto simp: election_peer_def raft_send_request_vote_def election_won_def)
  have st: "peer_count n1 = 2" "is_active (peer_at n1 0)" "peer_id (peer_at n1 0) = 2"
    using n1 by (simp_all add: peer_at_def sample_peer_def)
  obtain l where "raft_log_append sample_env (log k2) [noop_entry sample_env k2] = Some l"
    using lg.app_some [of "log k2" sample_env "noop_entry sample_env k2"] n1(8,9) k2v(4) by auto
  then obtain ld where ld: "raft_become_leader sample_env quiet_net k2 = Some ld" by (simp add: become_leader_eq)
  have d: "disk_ok sample_env" by (simp add: disk_ok_def sample_env_def)
  have r0: "?reach trio_init" by (rule reach_init) (rule trio_init)
  define s1 where "s1 = (set_pend (set_node trio_init 1 n1) 1 (Some (rq, 0)))
     \<lparr>rv_reqs := insert rq (rv_reqs trio_init), ballots := insert (1, current_term n1, 1) (ballots trio_init)\<rparr>"
  have r1: "?reach s1"
    unfolding s1_def rq_def using n1(7) d n1_def
    by (intro reach_step [OF r0] cluster_step.start_election [of _ _ _ sample_env]) (simp_all add: trio_init_def)
  define s2 where "s2 = (set_node s1 2 n2)
     \<lparr>rv_replies := insert (2, rq, rvr_term rsp, vote_granted rsp) (rv_replies s1),
      ballots := (if vote_granted rsp then insert (2, rv_term rq, candidate_id rq) (ballots s1) else ballots s1)\<rparr>"
  have r2: "?reach s2"
    unfolding s2_def using v d
    by (intro reach_step [OF r1] cluster_step.vote [of _ _ _ _ sample_env]) (simp_all add: s1_def trio_init_def)
  define s3 where "s3 = set_pend (set_node s2 1 k1) 1 (if st1 then None else Some (rq, Suc 0))"
  have r3: "?reach s3"
    unfolding s3_def using k1 d st rsp k1v
    by (intro reach_step [OF r2] cluster_step.ask_peer [of _ _ _ _ _ sample_env "RPC_reply (1, True)"])
       (simp_all add: s2_def s1_def possible_reply_def)
  define s4 where "s4 = set_pend (set_node s3 1 k2) 1 (if st2 then None else Some (rq, Suc 1))"
  have r4: "?reach s4"
    unfolding s4_def using k2 d k1v
    by (intro reach_step [OF r3] cluster_step.ask_peer [of _ _ _ _ _ sample_env RPC_no_connection])
       (simp_all add: s3_def possible_reply_def)
  define s5 where "s5 = (set_pend (set_node s4 1 ld) 1 None)
     \<lparr>winners := insert (current_term (nodes s4 1), 1) (winners s4),
      ae_reqs := leader_msgs (nodes s4 1) \<union> ae_reqs s4\<rparr>"
  have r5: "?reach s5"
    unfolding s5_def using ld d k2v
    by (intro reach_step [OF r4] cluster_step.win [of _ _ _ rq sample_env quiet_net]) (simp_all add: s4_def)
  have w: "(1, 1) \<in> winners s5" using k2v by (simp add: s5_def s4_def)
  then have "b = 1" if "(1, b) \<in> winners s5" for b
    using election_safety [OF r5, of 1 1 b] that by simp
  then show ?thesis using r5 w by blast
qed

end
