(* ===== verification/Raft_Recovery.thy ===== *)
theory Raft_Recovery
  imports Raft_Leader
begin

text \<open>
  Restart: recovery of the log from its write-ahead file, snapshot files, and \<^verbatim>\<open>raft_init\<close>
  (\<^verbatim>\<open>consensus/raft_log.c\<close> and \<^verbatim>\<open>consensus/raft.c\<close>). The recovery loop reads the contents the file has
  when it is opened. The theorems: a log that was only appended to is recovered entry by entry; the
  first version of an entry wins over later ones, so an entry that replaced a truncated one is lost;
  the newest snapshot file is read back as it was written.
\<close>

section \<open>Recovery of the log\<close>

text \<open>The payload of an entry record is read with \<^verbatim>\<open>memcpy\<close>: a payload that is too short is read past
  its end.\<close>

definition decode_wal_entry :: "nat \<Rightarrow> bytes \<Rightarrow> RaftLogEntry option" where
  "decode_wal_entry index d = do {
     (t, d1) \<leftarrow> dec_u64 d;
     (ty, d2) \<leftarrow> dec_i32 d1;
     (size, d3) \<leftarrow> dec_i32 d2;
     (created, d4) \<leftarrow> dec_i64 d3;
     ety \<leftarrow> entry_type_of ty;
     data \<leftarrow> (if size > 0 then map_option (\<lambda>(x, _). Some x) (take_bytes (nat size) d4) else Some None);
     Some \<lparr>e_index = index, e_term = t, e_type = ety, command_size = size, command_data = data,
           created_at = created\<rparr>
   }"

definition recover_entry :: "RaftLog \<Rightarrow> RaftLogEntry \<Rightarrow> RaftLog option" where
  "recover_entry l e =
     (if e_index e > last_index l
      then if e_index e < first_index l then None
           else let l1 = raft_log_ensure_capacity l (e_index e - first_index l + 1)
                in map_option (\<lambda>a. l1\<lparr>entries := a, last_index := e_index e\<rparr>)
                     (array_store (entries l1) (e_index e - first_index l) e)
      else Some l)"

definition recover_record :: "env \<Rightarrow> RaftLog \<Rightarrow> nat \<times> nat \<times> bytes \<Rightarrow> RaftLog option" where
  "recover_record ev l r =
     (case r of (ty, index, data) \<Rightarrow>
        if ty = wal_type_code RAFT_WAL_ENTRY
        then (case decode_wal_entry index data of None \<Rightarrow> None | Some e \<Rightarrow> recover_entry l e)
        else if ty = wal_type_code RAFT_WAL_COMMIT
        then (case dec_u64 data of None \<Rightarrow> None
              | Some (c, _) \<Rightarrow> Some (if c > commit_index l \<and> c \<le> last_index l then l\<lparr>commit_index := c\<rparr> else l))
        else if ty = wal_type_code RAFT_WAL_TRUNCATE
        then (case dec_u64 data of None \<Rightarrow> None | Some (a, _) \<Rightarrow> Some (raft_log_truncate ev l a))
        else Some l)"

function recover_loop :: "env \<Rightarrow> RaftLog \<Rightarrow> bytes \<Rightarrow> RaftLog option" where
  "recover_loop ev l bs =
     (case raft_log_read_wal_record bs of None \<Rightarrow> Some l
      | Some (r, rest) \<Rightarrow>
          (case recover_record ev l r of None \<Rightarrow> None | Some l1 \<Rightarrow> recover_loop ev l1 rest))"
  by pat_completeness auto
termination
  by (relation "measure (\<lambda>(ev, l, bs). length bs)") (auto dest: read_wal_record_shorter)

declare recover_loop.simps [simp del]

definition raft_log_recover :: "env \<Rightarrow> RaftLog \<Rightarrow> RaftLog option" where
  "raft_log_recover ev l =
     (if \<not> persistence_enabled l \<or> wal_path l = None then Some l
      else case wal_files l (first_index l) of None \<Rightarrow> Some l
      | Some f \<Rightarrow>
          if length f < 32 \<or> le_nat (take 4 f) \<noteq> RAFT_WAL_MAGIC \<or> le_nat (take 4 (drop 4 f)) \<noteq> RAFT_WAL_VERSION
          then Some l
          else recover_loop ev (l\<lparr>first_index := le_nat (take 8 (drop 16 f))\<rparr>) (drop 32 f))"

section \<open>Snapshot files\<close>

definition snapshot_bytes :: "nat \<Rightarrow> nat \<Rightarrow> int \<Rightarrow> int \<Rightarrow> bytes option \<Rightarrow> bytes" where
  "snapshot_bytes idx t sz created data =
     le_bytes 8 idx @ le_bytes 8 t @ i32_bytes sz @ i64_bytes created @
     (case data of None \<Rightarrow> [] | Some d \<Rightarrow> if sz > 0 then take (nat sz) d else [])"

definition raft_log_create_snapshot :: "env \<Rightarrow> RaftLog \<Rightarrow> nat \<Rightarrow> bytes option \<Rightarrow> int \<Rightarrow> RaftLog option" where
  "raft_log_create_snapshot ev l idx data sz =
     (if \<not> persistence_enabled l \<or> wal_path l = None then Some l
      else let f = snapshot_bytes idx (raft_log_term_at l idx) sz (now ev) data
           in case disk ev of
                IO_open_fails \<Rightarrow> Some l
              | IO_write_fails k \<Rightarrow> Some (l\<lparr>snap_files := (snap_files l)(idx \<mapsto> take k f)\<rparr>)
              | IO_ok \<Rightarrow> raft_log_compact (l\<lparr>snap_files := (snap_files l)(idx \<mapsto> f)\<rparr>) idx)"

text \<open>\<open>names\<close> are the indices in the names of the snapshot files, in the order of \<^verbatim>\<open>readdir\<close>.\<close>

definition best_snapshot :: "nat list \<Rightarrow> nat" where
  "best_snapshot names = foldl (\<lambda>m i. if i > m then i else m) 0 names"

text \<open>The result is absent when the function returns before it sets the output parameters; the data is
  absent when the snapshot is empty.\<close>

definition raft_log_load_snapshot :: "nat list \<Rightarrow> RaftLog \<Rightarrow> (nat \<times> nat \<times> int \<times> bytes option) option" where
  "raft_log_load_snapshot names l =
     (if \<not> persistence_enabled l \<or> wal_path l = None \<or> best_snapshot names = 0 then None
      else do {
        f \<leftarrow> snap_files l (best_snapshot names);
        (idx, f1) \<leftarrow> dec_u64 f;
        (t, f2) \<leftarrow> dec_u64 f1;
        (size, f3) \<leftarrow> dec_i32 f2;
        (created, f4) \<leftarrow> dec_i64 f3;
        if size < 0 \<or> size > 1024 * 1024 * 1024 then None
        else if size > 0 then map_option (\<lambda>(d, _). (idx, t, size, Some d)) (take_bytes (nat size) f4)
        else Some (idx, t, size, None)
      })"

section \<open>Initialisation\<close>

definition init_node :: "env \<Rightarrow> int \<Rightarrow> RaftLog \<Rightarrow> bytes option \<Rightarrow> RaftNode" where
  "init_node ev me l sf =
     raft_reset_election_timeout ev
     \<lparr>current_term = 0, voted_for = -1, log = l, state = RAFT_STATE_FOLLOWER, node_id = me, leader_id = -1,
      cluster = \<lparr>peers = [], quorum_size = 1, my_node_id = me\<rparr>, election_timeout = 0,
      last_heartbeat = now ev, is_leader = False, apply_callback = False, elections_started = 0,
      elections_won = 0, append_entries_sent = 0, votes_received = 0, initialized = True, running = False,
      applied = [], state_file = sf, snapshot_buffer = None, snapshot_buffer_size = 0, snapshot_offset = 0,
      snapshot_last_index = 0\<rparr>"

definition raft_init ::
  "env \<Rightarrow> int \<Rightarrow> string option \<Rightarrow> (nat \<Rightarrow> bytes option) \<Rightarrow> (nat \<Rightarrow> bytes option) \<Rightarrow> bytes option \<Rightarrow> RaftNode option" where
  "raft_init ev me path wal snap sf =
     (let n = raft_load_state (init_node ev me (raft_log_init path wal snap) sf)
      in if persistence_enabled (log n)
         then map_option (\<lambda>l. n\<lparr>log := l\<rparr>) (raft_log_recover ev (log n))
         else Some n)"

section \<open>What recovery rebuilds\<close>

text \<open>Entries whose fields fit the integers of the record.\<close>

definition entry_ok :: "RaftLogEntry \<Rightarrow> bool" where
  "entry_ok e \<longleftrightarrow> is_u64 (e_index e) \<and> is_u64 (e_term e) \<and> is_i64 (created_at e) \<and>
     (case command_data e of None \<Rightarrow> command_size e = 0
      | Some d \<Rightarrow> 0 < command_size e \<and> command_size e = int (length d) \<and> length d < 2147483600)"

lemma decode_wal_entry_payload:
  assumes "entry_ok e"
  shows "decode_wal_entry (e_index e) (wal_entry_payload e) = Some e" "length (wal_entry_payload e) < 4294967296"
proof -
  show "decode_wal_entry (e_index e) (wal_entry_payload e) = Some e"
    using assms by (auto simp: decode_wal_entry_def wal_entry_payload_def entry_ok_def codec_simps take_bytes_def
        i64c.dec_enc [where rest = "[]", simplified] split: option.splits)
  show "length (wal_entry_payload e) < 4294967296"
    using assms by (auto simp: wal_entry_payload_def entry_ok_def split: option.splits)
qed

definition entry_record :: "RaftLogEntry \<Rightarrow> bytes" where
  "entry_record e = raft_log_write_wal_record RAFT_WAL_ENTRY (wal_entry_payload e) (e_index e)"

lemma read_entry_record:
  assumes "entry_ok e"
  shows "raft_log_read_wal_record (entry_record e @ rest) = Some ((1, e_index e, wal_entry_payload e), rest)"
  using read_write_wal_record [OF decode_wal_entry_payload(2) [OF assms], of "e_index e"] assms
  by (simp add: entry_record_def entry_ok_def)

lemma recover_loop_entry:
  assumes "entry_ok e"
  shows "recover_loop ev l (entry_record e @ rest) =
    (case recover_entry l e of None \<Rightarrow> None | Some l1 \<Rightarrow> recover_loop ev l1 rest)"
  using read_entry_record [OF assms, of rest] decode_wal_entry_payload(1) [OF assms]
  by (subst recover_loop.simps) (simp add: recover_record_def)

lemma recover_entry_old: "e_index e \<le> last_index l \<Longrightarrow> recover_entry l e = Some l"
  by (simp add: recover_entry_def)

lemma recover_entry_next:
  assumes wf: "log_wf l" and idx: "e_index e = last_index l + 1" and room: "log_length l < RAFT_MAX_LOG_ENTRIES"
  obtains l' where "recover_entry l e = Some l'" "log_wf l'" "log_entries l' = log_entries l @ [e]"
    "first_index l' = first_index l" "last_index l' = last_index l + 1" "commit_index l' = commit_index l"
proof -
  let ?m = "raft_log_ensure_capacity l (log_length l + 1)"
  let ?l' = "?m\<lparr>entries := (entries ?m)[log_length l := e], last_index := last_index l + 1\<rparr>"
  note ec = ensure_capacity_spec [OF wf, of "log_length l + 1"] and b = log_wf_bounds [OF wf]
  have fit: "log_length l < length (entries ?m)" using ec(2) room by simp
  have upd: "(entries ?m)[log_length l := e] =
      take (log_length ?m) (entries ?m) @ [e] @ drop (log_length ?m + length [e]) (entries ?m)"
    using fit by (simp add: upd_conv_take_nth_drop)
  have k: "last_index l + 1 - first_index l = log_length l" "e_index e - first_index l = log_length l"
    "e_index e - first_index l + 1 = log_length l + 1" "\<not> e_index e < first_index l"
    using idx b by simp_all
  show ?thesis
  proof (rule that [of ?l'])
    show "recover_entry l e = Some ?l'"
      using idx fit k by (simp add: recover_entry_def Let_def)
    show "log_wf ?l'" "log_entries ?l' = log_entries l @ [e]"
      using log_wf_extend [OF ec(1), of "[e]"] log_entries_extend [OF ec(1), of "[e]"] fit ec(3) idx upd by simp_all
  qed simp_all
qed

text \<open>Replaying records of consecutive indices: what is already there stays, the rest is added.\<close>

lemma recover_entries:
  assumes "log_wf l" "list_all entry_ok es" "\<forall>k < length es. e_index (es ! k) = i + k"
    and "first_index l \<le> i" "i \<le> last_index l + 1" "i - first_index l + length es \<le> RAFT_MAX_LOG_ENTRIES"
  shows "\<exists>l'. (\<forall>rest. recover_loop ev l (concat (map entry_record es) @ rest) = recover_loop ev l' rest) \<and>
    log_wf l' \<and> log_entries l' = log_entries l @ drop (last_index l + 1 - i) es \<and>
    first_index l' = first_index l \<and> commit_index l' = commit_index l"
  using assms
proof (induction es arbitrary: l i)
  case Nil
  then show ?case by auto
next
  case (Cons e es)
  have e: "entry_ok e" "e_index e = i" using Cons.prems(2) Cons.prems(3) [rule_format, of 0] by simp_all
  have idx: "\<forall>k < length es. e_index (es ! k) = Suc i + k"
    using Cons.prems(3) [rule_format, of "Suc k" for k] by simp
  have oks: "list_all entry_ok es" using Cons.prems(2) by simp
  show ?case
  proof (cases "i \<le> last_index l")
    case True
    have d: "last_index l + 1 - i = Suc (last_index l + 1 - Suc i)" using True by simp
    have "\<exists>l'. (\<forall>rest. recover_loop ev l (concat (map entry_record es) @ rest) = recover_loop ev l' rest) \<and>
      log_wf l' \<and> log_entries l' = log_entries l @ drop (last_index l + 1 - Suc i) es \<and>
      first_index l' = first_index l \<and> commit_index l' = commit_index l"
      using Cons.prems(4,6) True by (intro Cons.IH [OF Cons.prems(1) oks idx]) simp_all
    then show ?thesis
      using recover_loop_entry [OF e(1), of ev l "concat (map entry_record es) @ rest" for rest] e(2) True
      unfolding d by (simp add: recover_entry_old)
  next
    case False
    then have i: "i = last_index l + 1" using Cons.prems(5) by simp
    obtain l1 where l1: "recover_entry l e = Some l1" "log_wf l1" "log_entries l1 = log_entries l @ [e]"
      "first_index l1 = first_index l" "last_index l1 = last_index l + 1" "commit_index l1 = commit_index l"
      using recover_entry_next [OF Cons.prems(1), of e] e(2) i Cons.prems(6) by auto
    have "\<exists>l'. (\<forall>rest. recover_loop ev l1 (concat (map entry_record es) @ rest) = recover_loop ev l' rest) \<and>
      log_wf l' \<and> log_entries l' = log_entries l1 @ drop (last_index l1 + 1 - Suc i) es \<and>
      first_index l' = first_index l1 \<and> commit_index l' = commit_index l1"
      using Cons.prems(4,6) i l1(4,5) by (intro Cons.IH [OF l1(2) oks idx]) simp_all
    then show ?thesis
      using recover_loop_entry [OF e(1), of ev l "concat (map entry_record es) @ rest" for rest] l1 i by simp
  qed
qed

lemma recover_commit_record:
  assumes "is_u64 c"
  shows "recover_loop ev l (raft_log_write_wal_record RAFT_WAL_COMMIT (le_bytes 8 c) c @ rest) =
    recover_loop ev (if c > commit_index l \<and> c \<le> last_index l then l\<lparr>commit_index := c\<rparr> else l) rest"
  using read_write_wal_record [of "le_bytes 8 c" c RAFT_WAL_COMMIT rest] assms
    u64c.dec_enc [of c "[]"]
  by (subst recover_loop.simps) (simp add: recover_record_def)

lemma wal_dump_entries:
  assumes "log_wf l"
  shows "wal_dump l = concat (map entry_record (log_entries l)) @
    raft_log_write_wal_record RAFT_WAL_COMMIT (le_bytes 8 (commit_index l)) (commit_index l)"
proof -
  have "map (\<lambda>i. case raft_log_get l i of None \<Rightarrow> [] | Some e \<Rightarrow> entry_record e) [first_index l ..< Suc (last_index l)] =
      map entry_record (log_entries l)"
    using assms by (intro nth_equalityI) (auto simp: get_log_entries simp del: upt_Suc)
  then show ?thesis unfolding wal_dump_def entry_record_def [symmetric] by simp
qed

lemma log_entry_index: "log_wf l \<Longrightarrow> k < log_length l \<Longrightarrow> e_index (log_entries l ! k) = first_index l + k"
  by (simp add: log_wf_def log_entries_def)

text \<open>Replaying a dump of \<open>l\<close> on a log \<open>r\<close> with the same first index adds the entries behind the last one
  of \<open>r\<close>, and nothing else.\<close>

lemma recover_dump:
  assumes wf: "log_wf l" "log_wf r" and f: "first_index r = first_index l"
    and ok: "list_all entry_ok (log_entries l)" and u: "is_u64 (commit_index l)"
  obtains r' where "\<And>rest. recover_loop ev r (wal_dump l @ rest) = recover_loop ev r' rest" "log_wf r'"
    "log_entries r' = log_entries r @ drop (log_length r) (log_entries l)" "first_index r' = first_index l"
    "commit_index r' = (if commit_index l > commit_index r \<and> commit_index l \<le> last_index r' then commit_index l
                        else commit_index r)"
proof -
  note b = log_wf_bounds [OF wf(1)] log_wf_bounds [OF wf(2)]
  have idx: "\<forall>k < length (log_entries l). e_index (log_entries l ! k) = first_index l + k"
    using log_entry_index [OF wf(1)] wf(1) by simp
  have "\<exists>l'. (\<forall>rest. recover_loop ev r (concat (map entry_record (log_entries l)) @ rest) = recover_loop ev l' rest) \<and>
    log_wf l' \<and> log_entries l' = log_entries r @ drop (last_index r + 1 - first_index l) (log_entries l) \<and>
    first_index l' = first_index r \<and> commit_index l' = commit_index r"
    using b f wf(1) by (intro recover_entries [OF wf(2) ok idx]) auto
  then obtain q where q: "\<And>rest. recover_loop ev r (concat (map entry_record (log_entries l)) @ rest) = recover_loop ev q rest"
    "log_wf q" "log_entries q = log_entries r @ drop (log_length r) (log_entries l)"
    "first_index q = first_index l" "commit_index q = commit_index r"
    using f by auto
  let ?r' = "if commit_index l > commit_index q \<and> commit_index l \<le> last_index q then q\<lparr>commit_index := commit_index l\<rparr> else q"
  have "recover_loop ev r (wal_dump l @ rest) = recover_loop ev ?r' rest" for rest
    unfolding wal_dump_entries [OF wf(1)] append_assoc q(1) recover_commit_record [OF u] ..
  moreover have "log_wf ?r'" using q(2) by (auto simp: log_wf_def)
  moreover have "log_entries ?r' = log_entries q" by (simp add: log_entries_def)
  ultimately show ?thesis using q by (intro that [of ?r']) auto
qed

section \<open>Append-only histories\<close>

text \<open>\<open>wal_holds xs l\<close>: the write-ahead file of \<open>l\<close> has a header and, replayed on a fresh log, rebuilds the
  entries \<open>xs\<close>.\<close>

definition wal_holds :: "RaftLogEntry list \<Rightarrow> RaftLog \<Rightarrow> bool" where
  "wal_holds xs l \<longleftrightarrow> persistence_enabled l \<and> wal_path l \<noteq> None \<and> first_index l = 1 \<and>
     (\<exists>l0 t body. first_index l0 = 1 \<and> wal_files l 1 = Some (raft_log_write_wal_header l0 t @ body) \<and>
       (\<forall>ev wal snap. \<exists>r. log_wf r \<and> log_entries r = xs \<and> first_index r = 1 \<and>
          (\<forall>rest. recover_loop ev (raft_log_init (wal_path l) wal snap) (body @ rest) = recover_loop ev r rest)))"

lemma read_header:
  assumes "first_index l0 = 1"
  shows "raft_log_recover ev (raft_log_init (Some p) (wal(1 \<mapsto> raft_log_write_wal_header l0 t @ body)) snap) =
    recover_loop ev (raft_log_init (Some p) (wal(1 \<mapsto> raft_log_write_wal_header l0 t @ body)) snap) body"
  using assms
  by (simp add: raft_log_recover_def raft_log_init_def raft_log_write_wal_header_def padding_def codec_simps)

lemma recover_loop_end: "recover_loop ev r [] = Some r"
  by (subst recover_loop.simps) (simp add: raft_log_read_wal_record_def take_bytes_def)

text \<open>What a restart finds: the log as \<^verbatim>\<open>raft_init\<close> sets it up over the files of \<open>l\<close>.\<close>

definition reopened :: "RaftLog \<Rightarrow> RaftLog" where
  "reopened l = raft_log_init (wal_path l) (wal_files l) (snap_files l)"

lemma holds_recovers:
  assumes "wal_holds xs l"
  shows "\<exists>r. raft_log_recover ev (reopened l) = Some r \<and> log_wf r \<and> first_index r = 1 \<and> log_entries r = xs"
proof -
  obtain l0 t body p where h: "first_index l0 = 1" "wal_files l 1 = Some (raft_log_write_wal_header l0 t @ body)"
    "wal_path l = Some p"
    and rep: "\<forall>ev wal snap. \<exists>r. log_wf r \<and> log_entries r = xs \<and> first_index r = 1 \<and>
          (\<forall>rest. recover_loop ev (raft_log_init (wal_path l) wal snap) (body @ rest) = recover_loop ev r rest)"
    using assms unfolding wal_holds_def by blast
  have upd: "(wal_files l)(1 \<mapsto> raft_log_write_wal_header l0 t @ body) = wal_files l"
    using h(2) by (simp add: fun_upd_idem)
  obtain r where r: "log_wf r" "log_entries r = xs" "first_index r = 1"
    "\<And>rest. recover_loop ev (reopened l) (body @ rest) = recover_loop ev r rest"
    using rep unfolding reopened_def by blast
  have "raft_log_recover ev (reopened l) = recover_loop ev (reopened l) body"
    using read_header [OF h(1), of ev p "wal_files l" t body "snap_files l"] unfolding upd reopened_def h(3) .
  also have "\<dots> = Some r" using r(4) [of "[]"] recover_loop_end by simp
  finally show ?thesis using r by blast
qed

text \<open>Appending a dump of the log to its file.\<close>

lemma persist_dump [simp]: "wal_dump (raft_log_persist ev l) = wal_dump l"
  by (simp add: wal_dump_def frame_simps)

lemma holds_dump:
  assumes h: "wal_holds xs l" and wf: "log_wf l'" and f: "first_index l' = 1" "persistence_enabled l'" "wal_path l' = wal_path l"
    and fl: "wal_files l' 1 = map_option (\<lambda>f. f @ wal_dump l') (wal_files l 1)"
    and ok: "list_all entry_ok (log_entries l')" and u: "is_u64 (commit_index l')"
  shows "wal_holds (xs @ drop (length xs) (log_entries l')) l'"
proof -
  obtain l0 t body where b: "first_index l0 = 1" "wal_files l 1 = Some (raft_log_write_wal_header l0 t @ body)"
    "wal_path l \<noteq> None"
    and rep: "\<forall>ev wal snap. \<exists>r. log_wf r \<and> log_entries r = xs \<and> first_index r = 1 \<and>
          (\<forall>rest. recover_loop ev (raft_log_init (wal_path l) wal snap) (body @ rest) = recover_loop ev r rest)"
    using h unfolding wal_holds_def by blast
  have "\<exists>r. log_wf r \<and> log_entries r = xs @ drop (length xs) (log_entries l') \<and> first_index r = 1 \<and>
      (\<forall>rest. recover_loop ev (raft_log_init (wal_path l) wal snap) ((body @ wal_dump l') @ rest) = recover_loop ev r rest)"
    for ev wal snap
  proof -
    obtain r where r: "log_wf r" "log_entries r = xs" "first_index r = 1"
      "\<And>rest. recover_loop ev (raft_log_init (wal_path l) wal snap) (body @ rest) = recover_loop ev r rest"
      using rep by blast
    obtain r' where "\<And>rest. recover_loop ev r (wal_dump l' @ rest) = recover_loop ev r' rest" "log_wf r'"
      "log_entries r' = log_entries r @ drop (log_length r) (log_entries l')" "first_index r' = first_index l'"
      using recover_dump [OF wf r(1) _ ok u, of ev] r(3) f(1) by metis
    then show ?thesis using r length_log_entries [OF r(1)] f(1) by (intro exI [of _ r']) auto
  qed
  then show ?thesis
    unfolding wal_holds_def using f b fl
    by (intro conjI exI [of _ l0] exI [of _ t] exI [of _ "body @ wal_dump l'"]) simp_all
qed

lemma holds_first_dump:
  assumes wf: "log_wf l'" and f: "first_index l' = 1" "persistence_enabled l'" "wal_path l' \<noteq> None"
    and fl: "wal_files l' 1 = Some (raft_log_write_wal_header l0 t @ wal_dump l')" "first_index l0 = 1"
    and ok: "list_all entry_ok (log_entries l')" and u: "is_u64 (commit_index l')"
  shows "wal_holds (log_entries l') l'"
proof -
  have rep: "\<exists>r. log_wf r \<and> log_entries r = [] \<and> first_index r = 1 \<and>
      (\<forall>rest. recover_loop ev (raft_log_init (wal_path l') wal snap) ([] @ rest) = recover_loop ev r rest)" for ev wal snap
  proof -
    let ?r = "raft_log_init (wal_path l') wal snap"
    have "log_entries ?r = []" "first_index ?r = 1" by (simp_all add: log_entries_def raft_log_init_def)
    then show ?thesis by (intro exI [of _ ?r]) (simp add: log_wf_init)
  qed
  have "wal_holds [] (l'\<lparr>wal_files := (wal_files l')(1 \<mapsto> raft_log_write_wal_header l0 t)\<rparr>)"
    unfolding wal_holds_def
    by (intro conjI exI [of _ l0] exI [of _ t] exI [of _ "[]"]) (use f fl(2) rep in simp_all)
  from holds_dump [OF this wf f(1,2) _ _ ok u] show ?thesis using fl(1) by simp
qed

lemma append_persists:
  assumes "raft_log_append ev l es = Some l'" "es \<noteq> []" "persistence_enabled l" "log_wf l"
  obtains m where "l' = raft_log_persist ev m" "wal_files m = wal_files l" "wal_path m = wal_path l"
    "persistence_enabled m" "first_index m = first_index l"
proof -
  let ?m = "raft_log_ensure_capacity l (last_index l + 1 - first_index l + length es)"
  obtain a where a: "append_loop (now ev) ?m (last_index ?m + 1) es = Some (?m\<lparr>entries := a\<rparr>)"
    using assms append_loop_spec [of ?m "last_index ?m + 1" "now ev" es] log_wf_bounds(2) [OF assms(4)]
    by (auto simp: raft_log_append_def Let_def split: option.splits if_splits)
  then show ?thesis
    using assms that [of "?m\<lparr>entries := a, last_index := last_index ?m + length es\<rparr>"]
    by (simp add: raft_log_append_def Let_def)
qed

lemma append_fields:
  assumes "raft_log_append ev l es = Some l'" "log_wf l"
  shows "wal_path l' = wal_path l" "persistence_enabled l' = persistence_enabled l"
  using assms append_loop_spec [of "raft_log_ensure_capacity l (last_index l + 1 - first_index l + length es)"
      "last_index l + 1" "now ev" es] log_wf_bounds(2) [OF assms(2)]
  by (auto simp: raft_log_append_def Let_def frame_simps split: option.splits if_splits)

text \<open>One more append keeps the file in step with the log.\<close>

lemma append_holds:
  assumes l': "raft_log_append ev l es = Some l'" and es: "es \<noteq> []" and d: "disk_ok ev"
    and wf: "log_wf l" and l: "persistence_enabled l" "wal_path l \<noteq> None" "first_index l = 1"
    and h: "wal_holds xs l \<or> wal_files l 1 = None \<and> xs = []"
    and ok: "list_all entry_ok (log_entries l')" "is_u64 (commit_index l')"
  shows "wal_holds (xs @ drop (length xs) (log_entries l')) l'"
proof -
  obtain m where m: "l' = raft_log_persist ev m" "wal_files m = wal_files l" "wal_path m = wal_path l"
    "persistence_enabled m" "first_index m = first_index l"
    using append_persists [OF l' es l(1) wf] .
  have "wal_files (raft_log_persist ev m) 1 =
      Some ((case wal_files l 1 of None \<Rightarrow> raft_log_write_wal_header m (now ev) | Some f \<Rightarrow> f) @ wal_dump m)"
    using m(2-5) l d by (auto simp: raft_log_persist_def append_file_def disk_ok_def Let_def split: option.split)
  then have fl: "wal_files l' 1 =
      Some ((case wal_files l 1 of None \<Rightarrow> raft_log_write_wal_header m (now ev) | Some f \<Rightarrow> f) @ wal_dump l')"
    unfolding m(1) persist_dump .
  note a = append_SomeD(1,2) [OF wf l'] and f = append_fields [OF l' wf]
  show ?thesis
  proof (cases "wal_files l 1")
    case None
    then have "xs = []" using h by (auto simp: wal_holds_def)
    then show ?thesis
      using holds_first_dump [OF a(1) _ _ _ _ _ ok, of m "now ev"] a(2) f l fl None m(5) by simp
  next
    case (Some fb)
    then have "wal_holds xs l" using h by simp
    then show ?thesis
      using holds_dump [OF _ a(1) _ _ _ _ ok] a(2) f l fl Some by simp
  qed
qed

fun append_run :: "(env \<times> RaftLogEntry list) list \<Rightarrow> RaftLog \<Rightarrow> RaftLog option" where
  "append_run [] l = Some l"
| "append_run ((ev, es) # rs) l = (case raft_log_append ev l es of None \<Rightarrow> None | Some l1 \<Rightarrow> append_run rs l1)"

lemma append_run_grows:
  assumes "append_run rs l = Some l'" "log_wf l"
  shows "log_wf l' \<and> (\<exists>zs. log_entries l' = log_entries l @ zs) \<and> commit_index l' = commit_index l"
  using assms
proof (induction rs arbitrary: l)
  case (Cons r rs)
  obtain ev es l1 where r: "r = (ev, es)" "raft_log_append ev l es = Some l1" "append_run rs l1 = Some l'"
    using Cons.prems(1) by (cases r) (auto split: option.splits)
  note a = append_SomeD [OF Cons.prems(2) r(2)]
  show ?case using Cons.IH [OF r(3) a(1)] a(4,6) by auto
qed auto

lemma append_run_fields:
  assumes "append_run rs l = Some l'" "log_wf l"
  shows "first_index l' = first_index l \<and> wal_path l' = wal_path l \<and> persistence_enabled l' = persistence_enabled l"
  using assms
proof (induction rs arbitrary: l)
  case (Cons r rs)
  obtain ev es l1 where r: "r = (ev, es)" "raft_log_append ev l es = Some l1" "append_run rs l1 = Some l'"
    using Cons.prems(1) by (cases r) (auto split: option.splits)
  note a = append_SomeD [OF Cons.prems(2) r(2)] and f = append_fields [OF r(2) Cons.prems(2)]
  show ?case using Cons.IH [OF r(3) a(1)] a(2) f by simp
qed simp

lemma append_run_holds:
  assumes "append_run rs l = Some l'" "\<forall>(ev, es) \<in> set rs. disk_ok ev" "log_wf l"
    and "persistence_enabled l" "wal_path l \<noteq> None" "first_index l = 1"
    and "wal_holds (log_entries l) l \<or> wal_files l 1 = None \<and> log_entries l = []"
    and "list_all entry_ok (log_entries l')" "is_u64 (commit_index l')"
  shows "wal_holds (log_entries l') l' \<or> wal_files l' 1 = None \<and> log_entries l' = []"
  using assms
proof (induction rs arbitrary: l)
  case (Cons r rs)
  obtain ev es l1 where r: "r = (ev, es)" "raft_log_append ev l es = Some l1" "append_run rs l1 = Some l'"
    using Cons.prems(1) by (cases r) (auto split: option.splits)
  note a = append_SomeD [OF Cons.prems(3) r(2)] and f = append_fields [OF r(2) Cons.prems(3)]
  note g = append_run_grows [OF r(3) a(1)]
  have ok: "list_all entry_ok (log_entries l1)" "is_u64 (commit_index l1)"
    using g Cons.prems(8,9) by auto
  have "wal_holds (log_entries l1) l1 \<or> wal_files l1 1 = None \<and> log_entries l1 = []"
  proof (cases "es = []")
    case True
    then show ?thesis using r(2) Cons.prems(7) by (simp add: raft_log_append_def)
  next
    case False
    have "wal_holds (log_entries l @ drop (length (log_entries l)) (log_entries l1)) l1"
      using Cons.prems(2,7) r(1) by (intro append_holds [OF r(2) False _ Cons.prems(3-6) _ ok]) auto
    then show ?thesis using a(6) by simp
  qed
  then show ?case
    using Cons.prems(2,4-6,8,9) r f a(1,2) by (intro Cons.IH [OF r(3)]) auto
qed simp

lemma truncate_persists:
  assumes "persistence_enabled l" "i < last_index l" "first_index l \<le> i + 1"
  obtains m where "raft_log_truncate ev l i = raft_log_persist ev m" "wal_files m = wal_files l"
    "wal_path m = wal_path l" "persistence_enabled m" "first_index m = first_index l"
proof -
  let ?m = "l\<lparr>entries := free_data (i + 1 - first_index l) (last_index l + 1 - first_index l) (entries l),
      last_index := i, commit_index := (if commit_index l > i then i else commit_index l),
      last_applied := (if last_applied l > i then i else last_applied l)\<rparr>"
  have "\<not> i < first_index l - 1" using assms(3) by simp
  then have "raft_log_truncate ev l i = raft_log_persist ev ?m"
    using assms(1,2) by (simp add: raft_log_truncate_def Let_def)
  then show ?thesis by (rule that) (use assms(1) in simp_all)
qed

lemma truncate_holds:
  assumes h: "wal_holds xs l" and wf: "log_wf l" and i: "i < last_index l" and d: "disk_ok ev"
    and ok: "list_all entry_ok (log_entries l)" "is_u64 (commit_index l)"
  shows "wal_holds (xs @ drop (length xs) (take i (log_entries l))) (raft_log_truncate ev l i)"
proof -
  have l: "persistence_enabled l" "wal_path l \<noteq> None" "first_index l = 1" using h by (auto simp: wal_holds_def)
  let ?l' = "raft_log_truncate ev l i"
  note t = raft_log_truncate_spec [OF wf, of i ev, unfolded l(3), simplified]
  obtain m where m: "?l' = raft_log_persist ev m" "wal_files m = wal_files l" "wal_path m = wal_path l"
    "persistence_enabled m" "first_index m = first_index l"
    using truncate_persists [OF l(1) i, of ev] l(3) by auto
  obtain fb where fb: "wal_files l 1 = Some fb" using h by (auto simp: wal_holds_def)
  have "wal_files (raft_log_persist ev m) 1 = Some (fb @ wal_dump m)"
    using m(2-5) l d fb by (auto simp: raft_log_persist_def append_file_def disk_ok_def Let_def)
  then have fl: "wal_files ?l' 1 = map_option (\<lambda>f. f @ wal_dump ?l') (wal_files l 1)"
    unfolding m(1) persist_dump fb by simp
  have ok': "list_all entry_ok (log_entries ?l')" "is_u64 (commit_index ?l')"
    using ok t(2,5) by (auto simp: list_all_iff dest: in_set_takeD)
  have "persistence_enabled ?l'" "wal_path ?l' = wal_path l" unfolding m(1) using m(3,4) by (simp_all add: frame_simps)
  from holds_dump [OF h t(1) _ this fl ok'] show ?thesis using t(2,3) by simp
qed

section \<open>Properties\<close>

text \<open>C30: recovery of an append-only history. A log started over an empty directory and only appended
  to, with every write reaching the disk, is rebuilt by \<^verbatim>\<open>raft_log_recover\<close> after a restart: the same
  entries under the same indices.\<close>

theorem append_only_log_recovers:
  assumes "append_run rs (raft_log_init (Some p) wal snap) = Some l" "wal 1 = None"
    and "\<forall>(ev, es) \<in> set rs. disk_ok ev" "list_all entry_ok (log_entries l)"
  shows "\<exists>r. raft_log_recover ev (reopened l) = Some r \<and> log_wf r \<and> log_entries r = log_entries l \<and>
    (\<forall>i. raft_log_get r i = raft_log_get l i)"
proof -
  let ?l0 = "raft_log_init (Some p) wal snap"
  have l0: "log_wf ?l0" "persistence_enabled ?l0" "wal_path ?l0 \<noteq> None" "first_index ?l0 = 1" "log_entries ?l0 = []"
    "wal_files ?l0 = wal" "commit_index ?l0 = 0"
    by (simp_all add: log_wf_init) (simp_all add: raft_log_init_def log_entries_def)
  note g = append_run_grows [OF assms(1) l0(1)]
  have keep: "first_index l = 1"
    using append_run_fields [OF assms(1) l0(1)] l0(4) by simp
  have lk: "raft_log_get r = raft_log_get l" if "log_wf r" "first_index r = 1" "log_entries r = log_entries l" for r
    using that g keep by (simp add: fun_eq_iff get_log_entries)
  have "wal_holds (log_entries l) l \<or> wal_files l 1 = None \<and> log_entries l = []"
    using append_run_holds [OF assms(1,3) l0(1-4)] l0(5-7) assms(2,4) g by simp
  then show ?thesis
  proof
    assume "wal_holds (log_entries l) l"
    from holds_recovers [OF this, of ev] show ?thesis using lk by auto
  next
    assume n: "wal_files l 1 = None \<and> log_entries l = []"
    let ?r = "reopened l"
    have "raft_log_recover ev ?r = Some ?r"
      using n by (simp add: raft_log_recover_def reopened_def raft_log_init_def)
    moreover have "log_wf ?r" "first_index ?r = 1" "log_entries ?r = log_entries l"
      using n by (simp_all add: reopened_def log_wf_init) (simp_all add: raft_log_init_def log_entries_def)
    ultimately show ?thesis using lk by auto
  qed
qed

definition sample_run :: "(env \<times> RaftLogEntry list) list" where
  "sample_run = [(sample_env, [sample_entry 0 1, sample_entry 0 1]), (sample_env, [sample_entry 0 2])]"

lemma sample_run_result:
  obtains l where "append_run sample_run (raft_log_init (Some ''d'') (\<lambda>_. None) (\<lambda>_. None)) = Some l" "log_wf l"
    "log_entries l = [sample_entry 1 1, sample_entry 2 1, sample_entry 3 2]" "commit_index l = 0" "last_index l = 3"
    "wal_holds (log_entries l) l"
proof -
  let ?l0 = "raft_log_init (Some ''d'') (\<lambda>_. None) (\<lambda>_. None)"
  have l0: "log_wf ?l0" "last_index ?l0 = 0" "first_index ?l0 = 1" "commit_index ?l0 = 0" "log_entries ?l0 = []"
    "persistence_enabled ?l0" "wal_path ?l0 \<noteq> None" "wal_files ?l0 1 = None"
    by (simp_all add: log_wf_init) (simp_all add: raft_log_init_def log_entries_def)
  obtain l1 where l1: "raft_log_append sample_env ?l0 [sample_entry 0 1, sample_entry 0 1] = Some l1"
    using raft_log_append_spec [OF l0(1), of "[sample_entry 0 1, sample_entry 0 1]" sample_env] l0(2,3) by auto
  note a1 = append_SomeD [OF l0(1) l1]
  obtain l2 where l2: "raft_log_append sample_env l1 [sample_entry 0 2] = Some l2"
    using raft_log_append_spec [OF a1(1), of "[sample_entry 0 2]" sample_env] a1(2,3) l0 by auto
  note a2 = append_SomeD [OF a1(1) l2]
  have run: "append_run sample_run ?l0 = Some l2" using l1 l2 by (simp add: sample_run_def)
  have es: "log_entries l2 = [sample_entry 1 1, sample_entry 2 1, sample_entry 3 2]"
    using a1 a2 l0 by (simp add: copy_entry_def sample_entry_def)
  have ok: "list_all entry_ok (log_entries l2)" "is_u64 (commit_index l2)"
    unfolding es using a1 a2 l0 by (simp_all add: entry_ok_def sample_entry_def)
  have "wal_holds (log_entries l2) l2 \<or> wal_files l2 1 = None \<and> log_entries l2 = []"
    using append_run_holds [OF run _ l0(1,6,7,3) _ ok] l0(5,8)
    by (simp add: sample_run_def disk_ok_def sample_env_def)
  then have "wal_holds (log_entries l2) l2" using es by simp
  moreover have "commit_index l2 = 0" "last_index l2 = 3" using a1 a2 l0 by simp_all
  ultimately show ?thesis using that run a2(1) es by blast
qed

lemma append_only_log_recovers_witness:
  "\<exists>l r. append_run sample_run (raft_log_init (Some ''d'') (\<lambda>_. None) (\<lambda>_. None)) = Some l \<and>
     raft_log_recover sample_env (reopened l) = Some r \<and>
     log_entries r = [sample_entry 1 1, sample_entry 2 1, sample_entry 3 2]"
proof -
  obtain l where l: "append_run sample_run (raft_log_init (Some ''d'') (\<lambda>_. None) (\<lambda>_. None)) = Some l"
    "log_entries l = [sample_entry 1 1, sample_entry 2 1, sample_entry 3 2]"
    using sample_run_result by blast
  have "list_all entry_ok (log_entries l)" "\<forall>(ev, es) \<in> set sample_run. disk_ok ev"
    unfolding l(2) by (simp_all add: entry_ok_def sample_entry_def sample_run_def disk_ok_def sample_env_def)
  from append_only_log_recovers [OF l(1) refl this(2,1), of sample_env] show ?thesis using l by auto
qed

text \<open>recovery brings back truncated entries. When the file is in step with the log, and then a
  conflicting suffix is truncated and another entry appended in its place, as
  \<^verbatim>\<open>raft_append_entries\<close> does, a restart recovers the truncated entries and not the new one.\<close>

theorem recovery_resurrects_truncated:
  assumes h: "wal_holds (log_entries l) l" and wf: "log_wf l" and i: "i < last_index l" and d: "disk_ok ev"
    and l2: "raft_log_append ev (raft_log_truncate ev l i) [e] = Some l2"
    and ok: "list_all entry_ok (log_entries l)" "is_u64 (commit_index l)" "list_all entry_ok (log_entries l2)"
  shows "\<exists>r. raft_log_recover ev' (reopened l2) = Some r \<and> log_entries r = log_entries l \<and>
    raft_log_get r (i + 1) = raft_log_get l (i + 1) \<and> map_option e_term (raft_log_get l2 (i + 1)) = Some (e_term e)"
proof -
  have l: "persistence_enabled l" "wal_path l \<noteq> None" "first_index l = 1" using h by (auto simp: wal_holds_def)
  let ?t = "raft_log_truncate ev l i"
  note t = raft_log_truncate_spec [OF wf, of i ev, unfolded l(3), simplified]
  have "wal_holds (log_entries l @ drop (length (log_entries l)) (take i (log_entries l))) ?t"
    by (rule truncate_holds [OF h wf i d ok(1,2)])
  then have ht: "wal_holds (log_entries l) ?t" by simp
  then have lt: "persistence_enabled ?t" "wal_path ?t \<noteq> None" "first_index ?t = 1" by (auto simp: wal_holds_def)
  note a = append_SomeD [OF t(1) l2]
  have u: "is_u64 (commit_index l2)" using a(4) t(5) ok(2) by simp
  have len: "length (log_entries l2) = i + 1" "length (log_entries l) = last_index l"
    using a(1-3) t(3,4) l(3) i wf by simp_all
  have "wal_holds (log_entries l @ drop (length (log_entries l)) (log_entries l2)) l2"
    using ht by (intro append_holds [OF l2 _ d t(1) lt _ ok(3) u]) simp_all
  then have "wal_holds (log_entries l) l2" using len i by simp
  from holds_recovers [OF this, of ev'] obtain r where r: "raft_log_recover ev' (reopened l2) = Some r"
    "log_wf r" "first_index r = 1" "log_entries r = log_entries l" by auto
  have "raft_log_get l2 (i + 1) = Some (copy_entry (now ev) (i + 1) e)"
    using lg.get_app [OF t(1) l2, of "i + 1"] t(3,4) i len t by simp
  then show ?thesis using r wf l(3) by (simp add: get_log_entries copy_entry_def)
qed

lemma recovery_resurrects_truncated_witness:
  "\<exists>l l2 r. append_run sample_run (raft_log_init (Some ''d'') (\<lambda>_. None) (\<lambda>_. None)) = Some l \<and>
     raft_log_append sample_env (raft_log_truncate sample_env l 2) [sample_entry 0 5] = Some l2 \<and>
     raft_log_recover sample_env (reopened l2) = Some r \<and>
     log_entries r = [sample_entry 1 1, sample_entry 2 1, sample_entry 3 2]"
proof -
  obtain l where l: "append_run sample_run (raft_log_init (Some ''d'') (\<lambda>_. None) (\<lambda>_. None)) = Some l" "log_wf l"
    "log_entries l = [sample_entry 1 1, sample_entry 2 1, sample_entry 3 2]" "commit_index l = 0" "last_index l = 3"
    "wal_holds (log_entries l) l"
    using sample_run_result by blast
  have f: "first_index l = 1" using l(6) by (simp add: wal_holds_def)
  note t = raft_log_truncate_spec [OF l(2), of 2 sample_env]
  have wt: "log_wf (raft_log_truncate sample_env l 2)" "first_index (raft_log_truncate sample_env l 2) = 1"
    "last_index (raft_log_truncate sample_env l 2) = 2" "log_entries (raft_log_truncate sample_env l 2) = take 2 (log_entries l)"
    using t f l(5) by simp_all
  obtain l2 where l2: "raft_log_append sample_env (raft_log_truncate sample_env l 2) [sample_entry 0 5] = Some l2"
    using raft_log_append_spec [OF wt(1), of "[sample_entry 0 5]" sample_env] wt(2,3) by auto
  have e2: "log_entries l2 = [sample_entry 1 1, sample_entry 2 1, sample_entry 3 5]"
    using append_SomeD(6) [OF wt(1) l2] wt(3,4) l(3) by (simp add: copy_entry_def sample_entry_def)
  have h: "2 < last_index l" "disk_ok sample_env" "list_all entry_ok (log_entries l)" "is_u64 (commit_index l)"
    "list_all entry_ok (log_entries l2)"
    unfolding e2 l(3-5) by (simp_all add: entry_ok_def sample_entry_def disk_ok_def sample_env_def)
  from recovery_resurrects_truncated [OF l(6,2) h(1,2) l2 h(3-5), of sample_env]
  show ?thesis using l(1,3) l2 by auto
qed

text \<open>a snapshot is read back. If a snapshot of an applied index is written without failure and no
  other snapshot file has a higher index, loading gives the index, the term of the log there, the size
  and the data that were written.\<close>

theorem snapshot_roundtrip:
  assumes "log_wf l" "persistence_enabled l" "wal_path l \<noteq> None" "disk_ok ev"
    and "0 < idx" "idx \<le> last_applied l" "\<forall>i \<in> set names. i \<le> idx" "idx \<in> set names"
    and "0 < length d" "length d \<le> 1024 * 1024 * 1024"
    and "is_u64 idx" "is_u64 (raft_log_term_at l idx)" "is_i64 (now ev)"
  shows "\<exists>l'. raft_log_create_snapshot ev l idx (Some d) (int (length d)) = Some l' \<and> log_wf l' \<and>
    raft_log_load_snapshot names l' = Some (idx, raft_log_term_at l idx, int (length d), Some d)"
proof -
  let ?f = "snapshot_bytes idx (raft_log_term_at l idx) (int (length d)) (now ev) (Some d)"
  let ?m = "l\<lparr>snap_files := (snap_files l)(idx \<mapsto> ?f)\<rparr>"
  have wf: "log_wf ?m" using assms(1) by (simp add: log_wf_def)
  obtain l' where l': "raft_log_compact ?m idx = Some l'" "log_wf l'"
    using raft_log_compact_spec [OF wf, of idx] assms(6) by metis
  then have fields: "snap_files l' = snap_files ?m" "persistence_enabled l'" "wal_path l' \<noteq> None"
    using assms(2,3) by (auto simp: raft_log_compact_def Let_def split: if_splits)
  have "foldl (\<lambda>m i. if i > m then i else m) k xs = b"
    if "\<forall>i \<in> set xs. i \<le> b" "k \<le> b" "k = b \<or> b \<in> set xs" for k b :: nat and xs
    using that by (induction xs arbitrary: k) auto
  then have best: "best_snapshot names = idx"
    using assms(7,8) by (simp add: best_snapshot_def)
  have "raft_log_create_snapshot ev l idx (Some d) (int (length d)) = Some l'"
    using assms(2-4) l'(1) by (auto simp: raft_log_create_snapshot_def disk_ok_def)
  moreover have "raft_log_load_snapshot names l' = Some (idx, raft_log_term_at l idx, int (length d), Some d)"
    using fields best assms(5,9-13) by (simp add: raft_log_load_snapshot_def snapshot_bytes_def codec_simps take_bytes_def)
  ultimately show ?thesis using l'(2) by blast
qed

lemma snapshot_roundtrip_witness:
  "\<exists>l'. raft_log_create_snapshot sample_env ((sample_log 1 [1, 1, 2] 2)\<lparr>persistence_enabled := True, wal_path := Some ''d''\<rparr>)
      2 (Some [9, 8]) 2 = Some l' \<and> raft_log_load_snapshot [1, 2] l' = Some (2, 1, 2, Some [9, 8])"
proof -
  let ?l = "(sample_log 1 [1, 1, 2] 2)\<lparr>persistence_enabled := True, wal_path := Some ''d''\<rparr>"
  have h: "log_wf ?l" "persistence_enabled ?l" "wal_path ?l \<noteq> None" "disk_ok sample_env"
    "(0::nat) < 2" "2 \<le> last_applied ?l" "\<forall>i \<in> set [1, 2]. i \<le> (2::nat)" "2 \<in> set [1, 2::nat]"
    by code_simp+
  have t: "raft_log_term_at ?l 2 = 1" by code_simp
  have n: "0 < length [9, 8 :: u8]" "length [9, 8 :: u8] \<le> 1024 * 1024 * 1024"
    "is_u64 2" "is_u64 (raft_log_term_at ?l 2)" "is_i64 (now sample_env)"
    unfolding t by (simp_all add: sample_env_def)
  show ?thesis using snapshot_roundtrip [OF h n] unfolding t by auto
qed

text \<open>term and vote survive a restart. When the last write of the state file succeeded, the node
  that \<^verbatim>\<open>raft_init\<close> builds from it is a follower with the same term and the same vote.\<close>

theorem restart_restores_term_and_vote:
  assumes "mirrored n" "is_u64 (current_term n)" "is_i32 (voted_for n)"
  shows "\<exists>m. raft_init ev me None wal snap (state_file n) = Some m \<and> current_term m = current_term n \<and>
    voted_for m = voted_for n \<and> state m = RAFT_STATE_FOLLOWER \<and> \<not> is_leader m \<and> node_id m = me"
proof -
  let ?n0 = "init_node ev me (raft_log_init None wal snap) (state_file n)"
  have "raft_load_state ?n0 = ?n0\<lparr>current_term := current_term n, voted_for := voted_for n\<rparr>"
    using load_state_mirrored [of ?n0] assms by (simp add: mirrored_def init_node_def)
  moreover have "\<not> persistence_enabled (log ?n0)" by (simp add: init_node_def raft_log_init_def)
  ultimately show ?thesis by (simp add: raft_init_def) (simp add: init_node_def)
qed

lemma restart_restores_term_and_vote_witness:
  "\<exists>m. raft_init sample_env 1 None (\<lambda>_. None) (\<lambda>_. None)
      (state_file (raft_become_candidate sample_env (sample_node 1 4 (sample_log 1 [] 0)))) = Some m \<and>
     current_term m = 5 \<and> voted_for m = 1"
proof -
  let ?n = "raft_become_candidate sample_env (sample_node 1 4 (sample_log 1 [] 0))"
  have "mirrored ?n" "is_u64 (current_term ?n)" "is_i32 (voted_for ?n)" "current_term ?n = 5" "voted_for ?n = 1"
    by (simp_all add: disk_ok_def sample_env_def) (simp_all add: sample_node_def)
  then show ?thesis
    using restart_restores_term_and_vote [of ?n sample_env 1 "\<lambda>_. None" "\<lambda>_. None"] by auto
qed

text \<open>a torn write forgets the vote. If the write of the state file breaks off after the eight bytes of
  the term, the node has granted its vote, yet after a restart it is in that term without a vote, and so
  may vote again.\<close>

theorem torn_state_write_forgets_vote:
  assumes "raft_request_vote ev n rq = (m, rsp)" "vote_granted rsp" "disk ev = IO_write_fails k"
    and "8 \<le> k" "k < 12" "is_u64 (rv_term rq)"
  shows "\<exists>r. raft_init ev' me None wal snap (state_file m) = Some r \<and> current_term r = rv_term rq \<and> voted_for r = -1"
proof -
  have f: "state_file m = Some (take k (state_bytes (rv_term rq) (candidate_id rq)))"
    using assms(2,3) by (cases rule: request_vote_cases [OF assms(1)]) (auto simp: raft_persist_state_def)
  let ?n0 = "init_node ev' me (raft_log_init None wal snap) (state_file m)"
  have "length (state_bytes (rv_term rq) (candidate_id rq)) = 12"
    "take 8 (take k (state_bytes (rv_term rq) (candidate_id rq))) = le_bytes 8 (rv_term rq)"
    using assms(4) by (simp_all add: state_bytes_def)
  then have "raft_load_state ?n0 = ?n0\<lparr>current_term := rv_term rq\<rparr>"
    using f assms(4-6) by (simp add: raft_load_state_def init_node_def codec_simps)
  then show ?thesis by (simp add: raft_init_def) (simp add: init_node_def raft_log_init_def)
qed

lemma torn_state_write_forgets_vote_witness:
  "\<exists>m rsp r. raft_request_vote (sample_env\<lparr>disk := IO_write_fails 8\<rparr>) (sample_node 1 0 (sample_log 1 [] 0))
      (sample_vote 3 2) = (m, rsp) \<and> vote_granted rsp \<and>
     raft_init sample_env 1 None (\<lambda>_. None) (\<lambda>_. None) (state_file m) = Some r \<and> current_term r = 3 \<and> voted_for r = -1"
proof -
  let ?ev = "sample_env\<lparr>disk := IO_write_fails 8\<rparr>" and ?n = "sample_node 1 0 (sample_log 1 [] 0)"
  obtain m rsp where v: "raft_request_vote ?ev ?n (sample_vote 3 2) = (m, rsp)" by fastforce
  have g: "vote_granted rsp"
    using v by (auto simp: raft_request_vote_def sample_vote_def sample_node_def sample_log_def
        raft_is_log_up_to_date_def raft_log_term_at_def raft_log_get_def Let_def)
  have t: "rv_term (sample_vote 3 2) = 3" by (simp add: sample_vote_def)
  show ?thesis
    using torn_state_write_forgets_vote [OF v g, of 8 sample_env 1 "\<lambda>_. None" "\<lambda>_. None"] v g t by auto
qed

end
