(* ===== verification/Raft_Snapshot.thy ===== *)
theory Raft_Snapshot
  imports Raft_Recovery
begin

text \<open>
  Snapshot transfer (\<^verbatim>\<open>consensus/raft.c\<close>): a leader sends its newest snapshot in chunks of 64 KB, a
  follower assembles the chunks in the static variables of \<^verbatim>\<open>raft_install_snapshot\<close>, saves the
  result and installs it. The callback that applies a snapshot is a parameter \<open>cb\<close>, absent when none is
  registered. A call that would allocate more than \<^verbatim>\<open>MaxAllocSize\<close> does not return, and neither
  does one that compacts outside the array: both are \<^const>\<open>None\<close>. The theorems: the chunks a leader
  sends are reassembled to exactly the snapshot; what installing does to the indices of the log; and
  that an empty snapshot counts as sent even when the call failed.
\<close>

abbreviation (input) MaxAllocSize :: int where "MaxAllocSize \<equiv> 0x3fffffff"
abbreviation (input) CHUNK :: nat where "CHUNK \<equiv> 65536"

type_synonym snapshot_cb = "(nat \<Rightarrow> nat \<Rightarrow> bytes option \<Rightarrow> int \<Rightarrow> bool) option"

section \<open>The follower\<close>

definition reset_snapshot_buffer :: "RaftNode \<Rightarrow> RaftNode" where
  "reset_snapshot_buffer n = n\<lparr>snapshot_buffer := None, snapshot_buffer_size := 0, snapshot_offset := 0\<rparr>"

text \<open>Growing the buffer and copying a chunk behind what has been received.\<close>

definition store_chunk :: "RaftNode \<Rightarrow> InstallSnapshotRequest \<Rightarrow> RaftNode option" where
  "store_chunk n rq =
     (case is_data rq of None \<Rightarrow> Some n
      | Some d \<Rightarrow>
          if data_size rq > 0
          then let new_size = snapshot_offset n + data_size rq;
                   alloc_size = (if new_size > snapshot_buffer_size n then (new_size div 65536 + 1) * 65536
                                 else snapshot_buffer_size n)
               in if alloc_size > MaxAllocSize \<or> nat (data_size rq) > length d then None
                  else Some (n\<lparr>snapshot_buffer := Some (take (nat (snapshot_offset n)) (case_option [] id (snapshot_buffer n)) @
                                                       take (nat (data_size rq)) d),
                               snapshot_buffer_size := alloc_size, snapshot_offset := new_size\<rparr>)
          else Some n)"

text \<open>The writes of the snapshot file are not checked; the data is \<^verbatim>\<open>snapshot_offset\<close> bytes of the buffer.\<close>

definition save_snapshot :: "env \<Rightarrow> RaftNode \<Rightarrow> InstallSnapshotRequest \<Rightarrow> RaftNode" where
  "save_snapshot ev n rq =
     (if persistence_enabled (log n) \<and> wal_path (log n) \<noteq> None
      then let f = snapshot_bytes (last_included_index rq) (last_included_term rq) (snapshot_offset n) (now ev)
                     (snapshot_buffer n)
           in (case disk ev of IO_open_fails \<Rightarrow> n
               | IO_write_fails k \<Rightarrow>
                   n\<lparr>log := (log n)\<lparr>snap_files := (snap_files (log n))(last_included_index rq \<mapsto> take k f)\<rparr>\<rparr>
               | IO_ok \<Rightarrow> n\<lparr>log := (log n)\<lparr>snap_files := (snap_files (log n))(last_included_index rq \<mapsto> f)\<rparr>\<rparr>)
      else n)"

definition install_indices :: "RaftNode \<Rightarrow> InstallSnapshotRequest \<Rightarrow> RaftNode option" where
  "install_indices n rq =
     (case raft_log_compact (log n) (last_included_index rq) of None \<Rightarrow> None
      | Some l \<Rightarrow>
          let l1 = (if last_included_index rq > last_applied l then l\<lparr>last_applied := last_included_index rq\<rparr> else l);
              l2 = (if last_included_index rq > commit_index l1 then l1\<lparr>commit_index := last_included_index rq\<rparr> else l1)
          in Some (n\<lparr>log := l2\<rparr>))"

definition finish_snapshot :: "env \<Rightarrow> snapshot_cb \<Rightarrow> RaftNode \<Rightarrow> InstallSnapshotRequest \<Rightarrow> RaftNode option" where
  "finish_snapshot ev cb n rq =
     (let n1 = save_snapshot ev n rq;
          ok = (case cb of None \<Rightarrow> True
                | Some f \<Rightarrow> f (last_included_index rq) (last_included_term rq) (snapshot_buffer n1) (snapshot_offset n1))
      in case (if ok then install_indices n1 rq else Some n1) of None \<Rightarrow> None
         | Some n2 \<Rightarrow> Some (reset_snapshot_buffer n2))"

definition raft_install_snapshot ::
  "env \<Rightarrow> snapshot_cb \<Rightarrow> RaftNode \<Rightarrow> InstallSnapshotRequest \<Rightarrow> (RaftNode \<times> InstallSnapshotResponse) option" where
  "raft_install_snapshot ev cb n rq =
     (let rsp = \<lparr>isr_term = current_term n, isr_node_id = node_id n, bytes_received = 0, isr_success = False\<rparr>
      in if is_term rq < current_term n then Some (n, rsp)
         else
           let n1 = (if is_term rq > current_term n then raft_become_follower ev n (is_term rq) else n);
               n2 = (raft_reset_election_timeout ev n1)\<lparr>leader_id := is_leader_id rq\<rparr>;
               rsp1 = rsp\<lparr>isr_term := current_term n2\<rparr>;
               n3 = (if is_offset rq = 0
                     then (reset_snapshot_buffer n2)\<lparr>snapshot_last_index := last_included_index rq\<rparr> else n2)
           in if is_offset rq \<noteq> snapshot_offset n3 then Some (reset_snapshot_buffer n3, rsp1)
              else (case store_chunk n3 rq of None \<Rightarrow> None
                    | Some n4 \<Rightarrow>
                        let rsp2 = rsp1\<lparr>bytes_received := snapshot_offset n4, isr_success := True\<rparr>
                        in if is_done rq
                           then map_option (\<lambda>m. (m, rsp2)) (finish_snapshot ev cb n4 rq)
                           else Some (n4, rsp2)))"

section \<open>The leader\<close>

definition raft_send_install_snapshot_rpc ::
  "env \<Rightarrow> (nat \<times> int \<times> bool) rpc_outcome \<Rightarrow> RaftPeer \<Rightarrow> RaftPeer \<times> InstallSnapshotResponse" where
  "raft_send_install_snapshot_rpc ev out p =
     (let rsp = \<lparr>isr_term = 0, isr_node_id = peer_id p, bytes_received = 0, isr_success = False\<rparr>
      in case out of
           RPC_no_connection \<Rightarrow> (p\<lparr>connection := False\<rparr>, rsp)
         | RPC_query_failed \<Rightarrow> (p\<lparr>connection := True, is_active := False\<rparr>, rsp)
         | RPC_reply (t, b, s) \<Rightarrow> (p\<lparr>connection := True, last_contact := now ev\<rparr>,
                                     rsp\<lparr>isr_term := t, bytes_received := b, isr_success := s\<rparr>))"

definition snapshot_request :: "RaftNode \<Rightarrow> nat \<Rightarrow> nat \<Rightarrow> bytes \<Rightarrow> nat \<Rightarrow> InstallSnapshotRequest" where
  "snapshot_request n idx t d offset =
     (let this_chunk = min CHUNK (length d - offset)
      in \<lparr>is_term = current_term n, is_leader_id = node_id n, last_included_index = idx, last_included_term = t,
          is_offset = int offset, is_data = (if this_chunk > 0 then Some (drop offset d) else None),
          data_size = int this_chunk, is_done = (offset + this_chunk \<ge> length d)\<rparr>)"

text \<open>The sending loop: the node and peer it ends with, the offset reached, and the requests sent.\<close>

function send_chunks ::
  "env \<Rightarrow> (InstallSnapshotRequest \<Rightarrow> (nat \<times> int \<times> bool) rpc_outcome) \<Rightarrow> nat \<Rightarrow> nat \<Rightarrow> bytes \<Rightarrow> nat \<Rightarrow>
   RaftNode \<Rightarrow> RaftPeer \<Rightarrow> RaftNode \<times> RaftPeer \<times> nat \<times> InstallSnapshotRequest list" where
  "send_chunks ev out idx t d offset n p =
     (if offset < length d \<or> (offset = 0 \<and> length d = 0)
      then let rq = snapshot_request n idx t d offset;
               (p1, rsp) = raft_send_install_snapshot_rpc ev (out rq) p
           in if isr_term rsp > current_term n
              then (raft_become_follower ev n (isr_term rsp), p1, offset, [rq])
              else if \<not> isr_success rsp then (n, p1, offset, [rq])
              else let p2 = p1\<lparr>last_contact := now ev\<rparr>
                   in if length d = 0 then (n, p2, offset, [rq])
                      else (case send_chunks ev out idx t d (offset + min CHUNK (length d - offset)) n p2 of
                              (n', p', o', rqs) \<Rightarrow> (n', p', o', rq # rqs))
      else (n, p, offset, []))"
  by pat_completeness auto
termination
  by (relation "measure (\<lambda>(ev, out, idx, t, d, offset, n, p). length d - offset)") auto

declare send_chunks.simps [simp del]

definition raft_send_install_snapshot ::
  "env \<Rightarrow> (InstallSnapshotRequest \<Rightarrow> (nat \<times> int \<times> bool) rpc_outcome) \<Rightarrow> nat list \<Rightarrow> RaftNode \<Rightarrow> nat \<Rightarrow>
   RaftNode \<times> bool \<times> InstallSnapshotRequest list" where
  "raft_send_install_snapshot ev out names n i =
     (if \<not> is_leader n then (n, False, [])
      else case raft_log_load_snapshot names (log n) of None \<Rightarrow> (n, False, [])
      | Some (idx, t, sz, data) \<Rightarrow>
          if data = None \<and> sz = 0 \<and> idx = 0 then (n, False, [])
          else let d = case_option [] id data
               in (case send_chunks ev out idx t d 0 n (peer_at n i) of
                     (n1, p1, o1, rqs) \<Rightarrow>
                       if o1 \<ge> length d
                       then (set_peer n1 i (p1\<lparr>next_index := idx + 1, peer_match_index := idx\<rparr>), True, rqs)
                       else (set_peer n1 i p1, False, rqs)))"

text \<open>\<open>get_state\<close> is what the callback returns: the data, absent for a null pointer, and the size.\<close>

definition raft_create_snapshot :: "env \<Rightarrow> bytes option \<times> int \<Rightarrow> RaftNode \<Rightarrow> (RaftNode \<times> bool) option" where
  "raft_create_snapshot ev get_state n =
     (if last_applied (log n) < first_index (log n) then Some (n, False)
      else case get_state of (data, sz) \<Rightarrow>
        if data = None \<and> sz > 0 then Some (n, False)
        else map_option (\<lambda>l. (n\<lparr>log := l\<rparr>, True))
               (raft_log_create_snapshot ev (log n) (last_applied (log n)) data sz))"

section \<open>Reassembly\<close>

fun install_all :: "env \<Rightarrow> snapshot_cb \<Rightarrow> RaftNode \<Rightarrow> InstallSnapshotRequest list \<Rightarrow> RaftNode option" where
  "install_all ev cb m [] = Some m"
| "install_all ev cb m (rq # rqs) =
     (case raft_install_snapshot ev cb m rq of None \<Rightarrow> None | Some (m1, _) \<Rightarrow> install_all ev cb m1 rqs)"

function chunk_requests :: "RaftNode \<Rightarrow> nat \<Rightarrow> nat \<Rightarrow> bytes \<Rightarrow> nat \<Rightarrow> InstallSnapshotRequest list" where
  "chunk_requests n idx t d offset =
     (if offset < length d
      then snapshot_request n idx t d offset # chunk_requests n idx t d (offset + min CHUNK (length d - offset))
      else [])"
  by pat_completeness auto
termination
  by (relation "measure (\<lambda>(n, idx, t, d, offset). length d - offset)") auto

declare chunk_requests.simps [simp del]

text \<open>The replies of a peer that takes every chunk.\<close>

definition accepting :: "RaftNode \<Rightarrow> (InstallSnapshotRequest \<Rightarrow> (nat \<times> int \<times> bool) rpc_outcome) \<Rightarrow> bool" where
  "accepting n out \<longleftrightarrow> (\<forall>rq. \<exists>t b. out rq = RPC_reply (t, b, True) \<and> t \<le> current_term n)"

lemma send_chunks_accepted:
  assumes "accepting n out" "offset \<le> length d" "d \<noteq> []"
  shows "\<exists>p'. send_chunks ev out idx t d offset n p = (n, p', length d, chunk_requests n idx t d offset)"
  using assms(2)
proof (induction "length d - offset" arbitrary: offset p rule: less_induct)
  case less
  show ?case
  proof (cases "offset < length d")
    case False
    then show ?thesis
      using less.prems assms(3) by (subst send_chunks.simps, subst chunk_requests.simps) simp
  next
    case True
    let ?rq = "snapshot_request n idx t d offset" and ?o = "offset + min CHUNK (length d - offset)"
    have o: "length d - ?o < length d - offset" "?o \<le> length d" using True by simp_all
    obtain u b where out: "out ?rq = RPC_reply (u, b, True)" "u \<le> current_term n"
      using assms(1) unfolding accepting_def by blast
    obtain p' where p': "send_chunks ev out idx t d ?o n (p\<lparr>connection := True, last_contact := now ev\<rparr>) =
        (n, p', length d, chunk_requests n idx t d ?o)"
      using less.hyps [of ?o "p\<lparr>connection := True, last_contact := now ev\<rparr>"] True o by blast
    show ?thesis
      using True out p' assms(3)
      by (subst send_chunks.simps, subst chunk_requests.simps)
         (simp add: Let_def raft_send_install_snapshot_rpc_def)
  qed
qed

text \<open>A follower that has received the first \<open>k\<close> bytes of \<open>d\<close>.\<close>

definition received :: "RaftLog \<Rightarrow> nat \<Rightarrow> bytes \<Rightarrow> nat \<Rightarrow> RaftNode \<Rightarrow> bool" where
  "received l t d k m \<longleftrightarrow> current_term m = t \<and> log m = l \<and> snapshot_offset m = int k \<and>
     case_option [] id (snapshot_buffer m) = take k d \<and> snapshot_buffer_size m \<le> MaxAllocSize"

lemma alloc_bound: "length d < 1073676288 \<Longrightarrow> k \<le> length d \<Longrightarrow> (int k div 65536 + 1) * 65536 \<le> MaxAllocSize"
  using zdiv_mono1 [of "int k" 1073676287 65536] by simp

lemma store_chunk_received:
  assumes "received l t d k m" "k < length d" "length d < 1073676288"
  shows "\<exists>m'. store_chunk m (snapshot_request n idx u d k) = Some m' \<and> received l t d (k + min CHUNK (length d - k)) m' \<and>
    snapshot_buffer m' = Some (take (k + min CHUNK (length d - k)) d)"
proof -
  let ?c = "min CHUNK (length d - k)"
  have c: "0 < ?c" "k + ?c \<le> length d" using assms(2) by simp_all
  have "take k d @ take ?c (drop k d) = take (k + ?c) d" by (rule take_add [symmetric])
  moreover have "take k (take k d) = take k d" by simp
  ultimately show ?thesis
    using assms(1,2) c alloc_bound [OF assms(3) c(2)]
    by (auto simp: store_chunk_def snapshot_request_def received_def Let_def)
qed

lemma snapshot_request_fields [simp]:
  "is_term (snapshot_request n idx u d k) = current_term n" "is_offset (snapshot_request n idx u d k) = int k"
  "is_leader_id (snapshot_request n idx u d k) = node_id n" "last_included_index (snapshot_request n idx u d k) = idx"
  "last_included_term (snapshot_request n idx u d k) = u"
  "is_done (snapshot_request n idx u d k) \<longleftrightarrow> length d \<le> k + min CHUNK (length d - k)"
  by (simp_all add: snapshot_request_def Let_def)

lemma install_step:
  assumes "received l (current_term n) d k m" "k < length d" "length d < 1073676288"
  obtains m' rsp where "received l (current_term n) d (k + min CHUNK (length d - k)) m'"
    "snapshot_buffer m' = Some (take (k + min CHUNK (length d - k)) d)"
    "raft_install_snapshot ev cb m (snapshot_request n idx u d k) =
       (if length d \<le> k + min CHUNK (length d - k)
        then map_option (\<lambda>x. (x, rsp)) (finish_snapshot ev cb m' (snapshot_request n idx u d k))
        else Some (m', rsp))"
proof -
  let ?rq = "snapshot_request n idx u d k"
  let ?m2 = "(raft_reset_election_timeout ev m)\<lparr>leader_id := node_id n\<rparr>"
  define m3 where "m3 = (if int k = 0 then (reset_snapshot_buffer ?m2)\<lparr>snapshot_last_index := idx\<rparr> else ?m2)"
  have r3: "received l (current_term n) d k m3"
    using assms(1) by (simp add: m3_def received_def reset_snapshot_buffer_def raft_reset_election_timeout_def)
  obtain m' where m': "store_chunk m3 ?rq = Some m'" "received l (current_term n) d (k + min CHUNK (length d - k)) m'"
    "snapshot_buffer m' = Some (take (k + min CHUNK (length d - k)) d)"
    using store_chunk_received [OF r3 assms(2,3), of n idx u] by blast
  have t: "current_term m = current_term n" "int k = snapshot_offset m3"
    using assms(1) r3 by (simp_all add: received_def)
  have eq: "raft_install_snapshot ev cb m ?rq =
      (if int k \<noteq> snapshot_offset m3 then Some (reset_snapshot_buffer m3,
            \<lparr>isr_term = current_term n, isr_node_id = node_id m, bytes_received = 0, isr_success = False\<rparr>)
       else case store_chunk m3 ?rq of None \<Rightarrow> None
         | Some n4 \<Rightarrow> if is_done ?rq
             then map_option (\<lambda>x. (x, \<lparr>isr_term = current_term n, isr_node_id = node_id m,
                    bytes_received = snapshot_offset n4, isr_success = True\<rparr>)) (finish_snapshot ev cb n4 ?rq)
             else Some (n4, \<lparr>isr_term = current_term n, isr_node_id = node_id m,
                    bytes_received = snapshot_offset n4, isr_success = True\<rparr>))"
    using t(1) unfolding raft_install_snapshot_def Let_def m3_def by (simp cong: if_cong option.case_cong)
  show ?thesis by (rule that [OF m'(2,3)]) (use eq t(2) m'(1) in simp)
qed

lemma install_chunks:
  assumes "received l (current_term n) d k m" "k < length d" "length d < 1073676288"
  shows "\<exists>m' rq. install_all ev cb m (chunk_requests n idx u d k) = finish_snapshot ev cb m' rq \<and>
    received l (current_term n) d (length d) m' \<and> snapshot_buffer m' = Some d \<and>
    last_included_index rq = idx \<and> last_included_term rq = u"
  using assms(1,2)
proof (induction "length d - k" arbitrary: k m rule: less_induct)
  case less
  let ?k = "k + min CHUNK (length d - k)"
  obtain m' rsp where m': "received l (current_term n) d ?k m'" "snapshot_buffer m' = Some (take ?k d)"
    "raft_install_snapshot ev cb m (snapshot_request n idx u d k) =
       (if length d \<le> ?k then map_option (\<lambda>x. (x, rsp)) (finish_snapshot ev cb m' (snapshot_request n idx u d k))
        else Some (m', rsp))"
    using install_step [OF less.prems assms(3)] .
  have unf: "chunk_requests n idx u d k = snapshot_request n idx u d k # chunk_requests n idx u d ?k"
    using less.prems(2) by (subst chunk_requests.simps) simp
  show ?case
  proof (cases "length d \<le> ?k")
    case True
    then have k: "?k = length d" using less.prems(2) by simp
    have "chunk_requests n idx u d ?k = []" using True by (subst chunk_requests.simps) simp
    then have "install_all ev cb m (chunk_requests n idx u d k) = finish_snapshot ev cb m' (snapshot_request n idx u d k)"
      using m'(3) True unf by (auto split: option.splits)
    then show ?thesis using m'(1,2) k by (intro exI [of _ m'] exI [of _ "snapshot_request n idx u d k"]) simp
  next
    case False
    have "length d - ?k < length d - k" "?k < length d" using less.prems(2) False by simp_all
    note ih = less.hyps [OF this(1) m'(1) this(2)]
    have "raft_install_snapshot ev cb m (snapshot_request n idx u d k) = Some (m', rsp)"
      unfolding m'(3) if_not_P [OF False] ..
    then have "install_all ev cb m (chunk_requests n idx u d k) = install_all ev cb m' (chunk_requests n idx u d ?k)"
      unfolding unf by simp
    then show ?thesis using ih by simp
  qed
qed

lemma install_first:
  assumes "is_offset rq = 0" "current_term m \<le> is_term rq"
  shows "raft_install_snapshot ev cb m rq =
    raft_install_snapshot ev cb (reset_snapshot_buffer
      (if current_term m < is_term rq then raft_become_follower ev m (is_term rq) else m)) rq"
proof -
  let ?n1 = "if current_term m < is_term rq then raft_become_follower ev m (is_term rq) else m"
  have t: "current_term ?n1 = is_term rq" "current_term (reset_snapshot_buffer ?n1) = is_term rq"
    "node_id (reset_snapshot_buffer ?n1) = node_id m"
    using assms(2) by (auto simp: reset_snapshot_buffer_def)
  have c: "reset_snapshot_buffer ((raft_reset_election_timeout ev (reset_snapshot_buffer ?n1))\<lparr>leader_id := x\<rparr>) =
      reset_snapshot_buffer ((raft_reset_election_timeout ev ?n1)\<lparr>leader_id := x\<rparr>)" for x
    by (simp add: reset_snapshot_buffer_def raft_reset_election_timeout_def)
  show ?thesis
    using assms t c unfolding raft_install_snapshot_def Let_def
    by (simp add: not_less [symmetric] reset_snapshot_buffer_def raft_reset_election_timeout_def
        split: option.split)
qed

lemma finish_snapshot_spec:
  assumes r: "received l t d (length d) m" "snapshot_buffer m = Some d" and wf: "log_wf l" and d: "disk_ok ev"
    and p: "persistence_enabled l" "wal_path l \<noteq> None" "d \<noteq> []"
  obtains m' where "finish_snapshot ev None m rq = Some m'" "current_term m' = t"
    "snap_files (log m') (last_included_index rq) =
       Some (snapshot_bytes (last_included_index rq) (last_included_term rq) (int (length d)) (now ev) (Some d))"
    "last_applied (log m') = max (last_applied l) (last_included_index rq)"
    "commit_index (log m') = max (commit_index l) (last_included_index rq)"
    "last_index (log m') = last_index l" "wal_path (log m') = wal_path l" "persistence_enabled (log m')"
proof -
  let ?idx = "last_included_index rq"
  let ?f = "snapshot_bytes ?idx (last_included_term rq) (int (length d)) (now ev) (Some d)"
  let ?l = "l\<lparr>snap_files := (snap_files l)(?idx \<mapsto> ?f)\<rparr>"
  have m: "current_term m = t" "log m = l" "snapshot_offset m = int (length d)"
    using r by (simp_all add: received_def)
  have save: "save_snapshot ev m rq = m\<lparr>log := ?l\<rparr>"
    using m r(2) p(1,2) d by (auto simp: save_snapshot_def disk_ok_def)
  have wf': "log_wf ?l" using wf by (simp add: log_wf_def)
  obtain l' where l': "raft_log_compact ?l ?idx = Some l'"
    using raft_log_compact_spec [OF wf', of ?idx] by metis
  then have f: "snap_files l' = snap_files ?l" "last_applied l' = last_applied l" "commit_index l' = commit_index l"
    "last_index l' = last_index l" "wal_path l' = wal_path l" "persistence_enabled l' = persistence_enabled l"
    by (auto simp: raft_log_compact_def Let_def split: if_splits)
  let ?l1 = "if ?idx > last_applied l' then l'\<lparr>last_applied := ?idx\<rparr> else l'"
  let ?l2 = "if ?idx > commit_index ?l1 then ?l1\<lparr>commit_index := ?idx\<rparr> else ?l1"
  have "finish_snapshot ev None m rq = Some (reset_snapshot_buffer (m\<lparr>log := ?l2\<rparr>))"
    using l' by (simp add: finish_snapshot_def save install_indices_def Let_def)
  then show ?thesis
    by (rule that) (use m f p in \<open>simp_all add: reset_snapshot_buffer_def max_def\<close>)
qed

section \<open>Properties\<close>

text \<open>a snapshot transfer delivers the snapshot. When a leader has loaded a snapshot and the peer takes
  every chunk, the call reports success and records the peer as being at the snapshot's index; and a
  follower of no higher term that installs the chunks sent, in order, ends in the leader's term with a
  snapshot file that holds exactly the leader's bytes, index and term.\<close>

theorem snapshot_transfer_delivers:
  assumes "is_leader n" "raft_log_load_snapshot names (log n) = Some (idx, t, int (length d), Some d)"
    and "accepting n out" "d \<noteq> []" "length d < 1073676288" "i < peer_count n"
    and "log_wf (log m)" "persistence_enabled (log m)" "wal_path (log m) \<noteq> None" "disk_ok ev"
    and "current_term m \<le> current_term n"
  shows "\<exists>n' rqs m'. raft_send_install_snapshot ev out names n i = (n', True, rqs) \<and>
    peer_match_index (peer_at n' i) = idx \<and> next_index (peer_at n' i) = idx + 1 \<and>
    install_all ev None m rqs = Some m' \<and> current_term m' = current_term n \<and>
    snap_files (log m') idx = Some (snapshot_bytes idx t (int (length d)) (now ev) (Some d)) \<and>
    last_applied (log m') = max (last_applied (log m)) idx"
proof -
  let ?rqs = "chunk_requests n idx t d 0"
  obtain p' where sc: "send_chunks ev out idx t d 0 n (peer_at n i) = (n, p', length d, ?rqs)"
    using send_chunks_accepted [OF assms(3) _ assms(4)] by blast
  let ?n' = "set_peer n i (p'\<lparr>next_index := idx + 1, peer_match_index := idx\<rparr>)"
  have send: "raft_send_install_snapshot ev out names n i = (?n', True, ?rqs)"
    using assms(1,2) sc by (simp add: raft_send_install_snapshot_def)
  define m0 where "m0 = reset_snapshot_buffer (if current_term m < current_term n
    then raft_become_follower ev m (current_term n) else m)"
  have r0: "received (log m) (current_term n) d 0 m0"
    using assms(11) by (simp add: m0_def received_def reset_snapshot_buffer_def)
  have pos: "0 < length d" using assms(4) by simp
  have "raft_install_snapshot ev None m (snapshot_request n idx t d 0) =
      raft_install_snapshot ev None m0 (snapshot_request n idx t d 0)"
    using install_first [of "snapshot_request n idx t d 0" m ev None] assms(11) by (simp add: m0_def)
  then have first: "install_all ev None m ?rqs = install_all ev None m0 ?rqs"
    using pos by (subst (1 2) chunk_requests.simps) simp
  obtain k rq where k: "install_all ev None m0 ?rqs = finish_snapshot ev None k rq"
    "received (log m) (current_term n) d (length d) k" "snapshot_buffer k = Some d"
    "last_included_index rq = idx" "last_included_term rq = t"
    using install_chunks [OF r0 pos assms(5)] by blast
  obtain m' where m': "finish_snapshot ev None k rq = Some m'" "current_term m' = current_term n"
    "snap_files (log m') idx = Some (snapshot_bytes idx t (int (length d)) (now ev) (Some d))"
    "last_applied (log m') = max (last_applied (log m)) idx"
    using finish_snapshot_spec [OF k(2,3) assms(7,10,8,9,4), of rq] k(4,5) by metis
  show ?thesis
    using send first k(1) m' assms(6) by (intro exI [of _ ?n'] exI [of _ ?rqs] exI [of _ m']) (simp add: peer_at_def)
qed

definition sample_disk_log :: "bytes option \<Rightarrow> RaftLog" where
  "sample_disk_log d = (sample_log 1 [1, 1, 2] 2)\<lparr>persistence_enabled := True, wal_path := Some ''d'',
     snap_files := [2 \<mapsto> snapshot_bytes 2 1 (case d of None \<Rightarrow> 0 | Some x \<Rightarrow> int (length x)) 0 d]\<rparr>"

lemma sample_disk_log_load:
  "raft_log_load_snapshot [2] (sample_disk_log (Some [9, 8])) = Some (2, 1, int (length [9, 8 :: u8]), Some [9, 8])"
  "raft_log_load_snapshot [2] (sample_disk_log None) = Some (2, 1, 0, None)"
  by (simp_all add: raft_log_load_snapshot_def sample_disk_log_def best_snapshot_def snapshot_bytes_def codec_simps
      i64c.dec_enc [where rest = "[]", simplified] take_bytes_def)

lemma snapshot_transfer_delivers_witness:
  "\<exists>n' rqs m'. raft_send_install_snapshot sample_env (\<lambda>_. RPC_reply (1, 0, True)) [2]
      (sample_trio\<lparr>log := sample_disk_log (Some [9, 8])\<rparr>) 0 = (n', True, rqs) \<and>
    install_all sample_env None (sample_node 2 1 (sample_disk_log None)) rqs = Some m' \<and>
    snap_files (log m') 2 = Some (snapshot_bytes 2 1 2 1000 (Some [9, 8]))"
proof -
  let ?n = "sample_trio\<lparr>log := sample_disk_log (Some [9, 8])\<rparr>" and ?m = "sample_node 2 1 (sample_disk_log None)"
  have wf: "log_wf (sample_log 1 [1, 1, 2] 2)" by code_simp
  have h: "is_leader ?n" "raft_log_load_snapshot [2] (log ?n) = Some (2, 1, int (length [9, 8 :: u8]), Some [9, 8])"
    "accepting ?n (\<lambda>_. RPC_reply (1, 0, True))" "[9, 8 :: u8] \<noteq> []" "length [9, 8 :: u8] < 1073676288"
    "0 < peer_count ?n" "log_wf (log ?m)" "persistence_enabled (log ?m)" "wal_path (log ?m) \<noteq> None"
    "disk_ok sample_env" "current_term ?m \<le> current_term ?n"
    using wf sample_disk_log_load(1)
    by (simp_all add: accepting_def sample_trio_def sample_leader_def sample_node_def disk_ok_def sample_env_def)
       (simp_all add: sample_disk_log_def log_wf_def)
  have t: "now sample_env = 1000" "int (length [9, 8 :: u8]) = 2" by (simp_all add: sample_env_def)
  show ?thesis using snapshot_transfer_delivers [OF h] unfolding t by blast
qed

text \<open>a failed transfer of an empty snapshot counts as done. The leader reports success and records
  the peer at the snapshot's index although no chunk reached it.\<close>

theorem empty_snapshot_failure_counts_as_sent:
  assumes "is_leader n" "raft_log_load_snapshot names (log n) = Some (idx, t, 0, None)" "0 < idx" "i < peer_count n"
    and "out (snapshot_request n idx t [] 0) = RPC_no_connection"
  shows "\<exists>n' rqs. raft_send_install_snapshot ev out names n i = (n', True, rqs) \<and>
    peer_match_index (peer_at n' i) = idx"
  using assms
  by (simp add: raft_send_install_snapshot_def send_chunks.simps raft_send_install_snapshot_rpc_def Let_def peer_at_def)

lemma empty_snapshot_failure_counts_as_sent_witness:
  "\<exists>n' rqs. raft_send_install_snapshot sample_env (\<lambda>_. RPC_no_connection) [2]
      (sample_trio\<lparr>log := sample_disk_log None\<rparr>) 0 = (n', True, rqs) \<and> peer_match_index (peer_at n' 0) = 2"
  by (rule empty_snapshot_failure_counts_as_sent [where t = 1])
     (simp_all add: sample_disk_log_load, simp_all add: sample_trio_def sample_leader_def sample_node_def)

text \<open>after a snapshot that is ahead of the follower's log, the commit index lies beyond the end of the
  log, and the follower rejects every AppendEntries that continues from the snapshot's index: the log is
  compacted but not restarted behind the snapshot.\<close>

theorem snapshot_ahead_of_log_strands_follower:
  assumes "received (log m) (current_term m) d (length d) m" "snapshot_buffer m = Some d" "log_wf (log m)" "disk_ok ev"
    and "persistence_enabled (log m)" "wal_path (log m) \<noteq> None" "d \<noteq> []"
    and "last_index (log m) < last_included_index rq" "prev_log_index ae = last_included_index rq"
  shows "\<exists>m'. finish_snapshot ev None m rq = Some m' \<and> last_index (log m') < commit_index (log m') \<and> \<not> ae_accepts m' ae"
proof -
  obtain m' where m': "finish_snapshot ev None m rq = Some m'"
    "commit_index (log m') = max (commit_index (log m)) (last_included_index rq)" "last_index (log m') = last_index (log m)"
    using finish_snapshot_spec [OF assms(1-7), of rq] by metis
  show ?thesis
    using m' assms(8,9) by (intro exI [of _ m']) (simp add: ae_accepts_def)
qed

lemma snapshot_ahead_of_log_strands_follower_witness:
  "\<exists>m'. finish_snapshot sample_env None ((sample_node 2 1 (sample_disk_log None))
        \<lparr>snapshot_buffer := Some [9, 8], snapshot_offset := 2, snapshot_buffer_size := 65536\<rparr>)
        (snapshot_request sample_trio 7 1 [9, 8] 0) = Some m' \<and>
     last_index (log m') < commit_index (log m') \<and> \<not> ae_accepts m' (sample_append 2 7 1 [2] 7)"
proof -
  let ?m = "(sample_node 2 1 (sample_disk_log None))
    \<lparr>snapshot_buffer := Some [9, 8], snapshot_offset := 2, snapshot_buffer_size := 65536\<rparr>"
  have wf: "log_wf (sample_log 1 [1, 1, 2] 2)" by code_simp
  have h: "received (log ?m) (current_term ?m) [9, 8] (length [9, 8 :: u8]) ?m" "snapshot_buffer ?m = Some [9, 8]"
    "log_wf (log ?m)" "disk_ok sample_env" "persistence_enabled (log ?m)" "wal_path (log ?m) \<noteq> None" "[9, 8 :: u8] \<noteq> []"
    "last_index (log ?m) < last_included_index (snapshot_request sample_trio 7 1 [9, 8] 0)"
    "prev_log_index (sample_append 2 7 1 [2] 7) = last_included_index (snapshot_request sample_trio 7 1 [9, 8] 0)"
    using wf by (simp_all add: received_def sample_node_def disk_ok_def sample_env_def sample_append_def)
       (simp_all add: sample_disk_log_def log_wf_def sample_log_def)
  show ?thesis by (rule snapshot_ahead_of_log_strands_follower [OF h])
qed

end
