(* ===== verification/Compression.thy ===== *)
theory Compression
  imports Prelude
begin

text \<open>
  The byte codecs of \<^verbatim>\<open>storage/compression.c\<close> that the extension implements itself: run-length
  encoding, zigzag and varint integers, and the delta encoding of integer columns built on them.

  A compressor receives the input and the capacity of the output buffer. Its result is \<^const>\<open>None\<close>
  where the C code writes outside the output buffer, \<open>Some Fail\<close> where it returns \<open>-1\<close>, and
  \<open>Some (Out c)\<close> where it returns the size of the bytes \<open>c\<close> it wrote. A decompressor receives the
  compressed bytes and the output buffer, whose length is \<^verbatim>\<open>expected_size\<close> and whose content is what
  \<^verbatim>\<open>palloc\<close> left there; it returns the size it reports and the buffer afterwards. Columns of integers
  are arrays of 64-bit words; the extension is built with \<^verbatim>\<open>-fwrapv\<close>, as PostgreSQL is, so the
  subtractions of \<^verbatim>\<open>compress_delta\<close> wrap.
\<close>

unbundle bit_operations_syntax

datatype comp_result = Fail | Out bytes

type_synonym compressor = "bytes \<Rightarrow> nat \<Rightarrow> comp_result option"
type_synonym decompressor = "bytes \<Rightarrow> bytes \<Rightarrow> (nat \<times> bytes) option"

text \<open>\<^verbatim>\<open>memcpy(output, input, input_size)\<close> into a buffer of \<open>cap\<close> bytes.\<close>

definition copy_out :: "bytes \<Rightarrow> nat \<Rightarrow> comp_result option" where
  "copy_out input cap = (if length input \<le> cap then Some (Out input) else None)"

text \<open>Writing \<open>ws\<close> at the front of a buffer.\<close>

definition fill_front :: "bytes \<Rightarrow> bytes \<Rightarrow> bytes option" where
  "fill_front ws buf = (if length ws \<le> length buf then Some (ws @ drop (length ws) buf) else None)"

lemma fill_front_full [simp]: "length ws = length buf \<Longrightarrow> fill_front ws buf = Some ws"
  by (simp add: fill_front_def)

section \<open>Run-length encoding\<close>

fun rle_run :: "u8 \<Rightarrow> nat \<Rightarrow> bytes \<Rightarrow> nat \<times> bytes" where
  "rle_run val n [] = (n, [])"
| "rle_run val n (x # xs) = (if x = val \<and> n < 255 then rle_run val (Suc n) xs else (n, x # xs))"

lemma rle_run_length: "rle_run v n xs = (k, rest) \<Longrightarrow> length rest \<le> length xs"
  by (induction v n xs rule: rle_run.induct) (auto split: if_splits)

function compress_rle_loop :: "nat \<Rightarrow> bytes \<Rightarrow> bytes \<Rightarrow> bytes" where
  "compress_rle_loop cap out [] = out"
| "compress_rle_loop cap out (v # xs) =
     (if length out + 2 \<le> cap
      then case rle_run v 1 xs of (n, rest) \<Rightarrow> compress_rle_loop cap (out @ [v, word_of_nat n]) rest
      else out)"
  by pat_completeness auto
termination
  by (relation "measure (\<lambda>(cap, out, xs). length xs)") (auto dest!: sym rle_run_length)

definition compress_rle :: compressor where
  "compress_rle input max_output_size = Some (Out (compress_rle_loop max_output_size [] input))"

fun decompress_rle_loop :: "nat \<Rightarrow> bytes \<Rightarrow> bytes \<Rightarrow> bytes" where
  "decompress_rle_loop expected_size out (val # count # rest) =
     (if length out < expected_size
      then decompress_rle_loop expected_size
             (out @ replicate (min (unat count) (expected_size - length out)) val) rest
      else out)"
| "decompress_rle_loop expected_size out _ = out"

definition decompress_rle :: decompressor where
  "decompress_rle input output =
     (let written = decompress_rle_loop (length output) [] input
      in map_option (\<lambda>buf. (length written, buf)) (fill_front written output))"

lemma rle_run_split:
  "rle_run v n xs = (k, rest) \<Longrightarrow> n \<le> 255 \<Longrightarrow>
     xs = replicate (k - n) v @ rest \<and> n \<le> k \<and> k \<le> 255"
proof (induction v n xs rule: rle_run.induct)
  case (2 v n x xs)
  show ?case
  proof (cases "x = v \<and> n < 255")
    case True
    then have "xs = replicate (k - Suc n) v @ rest \<and> Suc n \<le> k \<and> k \<le> 255"
      using 2 by simp
    moreover from this have "k - n = Suc (k - Suc n)" by linarith
    ultimately show ?thesis using True by simp
  qed (use 2 in auto)
qed simp

text \<open>The encoder stays inside its output buffer and writes whole pairs.\<close>

lemma compress_rle_loop_size:
  "length out \<le> cap \<Longrightarrow> length (compress_rle_loop cap out xs) \<le> cap"
  by (induction cap out xs rule: compress_rle_loop.induct) (auto split: prod.splits)

lemma compress_rle_loop_even:
  "even (length out) \<Longrightarrow> even (length (compress_rle_loop cap out xs))"
  by (induction cap out xs rule: compress_rle_loop.induct) (auto split: prod.splits)

text \<open>\<open>rle_done cap out xs\<close>: the loop consumed the whole input instead of stopping at the end of the
  output buffer.\<close>

function rle_done :: "nat \<Rightarrow> nat \<Rightarrow> bytes \<Rightarrow> bool" where
  "rle_done cap n [] = True"
| "rle_done cap n (v # xs) = (n + 2 \<le> cap \<and> rle_done cap (n + 2) (snd (rle_run v 1 xs)))"
  by pat_completeness auto
termination
  by (relation "measure (\<lambda>(cap, n, xs). length xs)")
     (auto simp: less_Suc_eq_le dest: rle_run_length intro: prod.exhaust_sel)

lemma rle_decode_pairs:
  "rle_done cap (length out) xs \<Longrightarrow> length dst + length xs \<le> n \<Longrightarrow>
   \<exists>ps. compress_rle_loop cap out xs = out @ ps \<and> decompress_rle_loop n dst ps = dst @ xs"
proof (induction cap out xs arbitrary: dst rule: compress_rle_loop.induct)
  case (1 cap out)
  then show ?case by simp
next
  case (2 cap out v xs)
  obtain k rest where run: "rle_run v 1 xs = (k, rest)" by fastforce
  have split: "xs = replicate (k - 1) v @ rest" "1 \<le> k" "k \<le> 255"
    using rle_run_split [OF run] by auto
  have vxs: "v # xs = replicate k v @ rest"
    using split by (cases k) auto
  have cnt: "unat (word_of_nat k :: u8) = k"
    using split by (simp add: unat_byte_of_nat)
  have room: "length out + 2 \<le> cap" and dn: "rle_done cap (length (out @ [v, word_of_nat k])) rest"
    using 2(2) run by auto
  have len: "length (dst @ replicate k v) + length rest \<le> n" "min k (n - length dst) = k"
    using 2(3) vxs by auto
  obtain ps where ps: "compress_rle_loop cap (out @ [v, word_of_nat k]) rest = (out @ [v, word_of_nat k]) @ ps"
    and dec: "decompress_rle_loop n (dst @ replicate k v) ps = (dst @ replicate k v) @ rest"
    using 2(1) [OF room run [symmetric] dn len(1)] by auto
  have "length dst < n" using 2(3) by simp
  then have "decompress_rle_loop n dst (v # word_of_nat k # ps) = dst @ (v # xs)"
    using dec len(2) cnt vxs by simp
  then show ?case using ps room run by (intro exI [of _ "v # word_of_nat k # ps"]) simp
qed

lemma rle_stopped_full:
  "\<not> rle_done cap (length out) xs \<Longrightarrow> cap \<le> length (compress_rle_loop cap out xs) + 1"
proof (induction cap out xs rule: compress_rle_loop.induct)
  case (2 cap out v xs)
  then show ?case by (cases "rle_run v 1 xs") (auto simp del: rle_done.simps(1))
qed simp

lemma compress_rle_lossless:
  assumes "even (length input)" and "compress_rle input (length input) = Some (Out c)"
    and "length c < length input" and "length buf = length input"
  shows "decompress_rle c buf = Some (length input, input)"
proof -
  have c: "c = compress_rle_loop (length input) [] input"
    using assms(2) by (simp add: compress_rle_def)
  have "even (length c)" using compress_rle_loop_even [of "[]"] c by simp
  then have "length c + 1 < length input" using assms(1,3) by presburger
  then have "rle_done (length input) (length ([] :: bytes)) input"
    using rle_stopped_full [of "length input" "[]" input] c by auto
  from rle_decode_pairs [OF this, of "[]" "length input"]
  have "decompress_rle_loop (length input) [] c = input" using c by auto
  then show ?thesis by (simp add: decompress_rle_def assms(4))
qed

section \<open>Zigzag and varint integers\<close>

definition zigzag_encode :: "u64 \<Rightarrow> u64" where
  "zigzag_encode n = (push_bit 1 n) XOR (signed_drop_bit 63 n)"

definition zigzag_decode :: "u64 \<Rightarrow> u64" where
  "zigzag_decode n = (drop_bit 1 n) XOR - (n AND 1)"

lemma signed_drop_bit_63: "signed_drop_bit 63 (n :: u64) = (if bit n 63 then - 1 else 0)"
  by (rule bit_word_eqI) (auto simp: bit_signed_drop_bit_iff min_def Suc_le_eq)

lemma and_one_word: "(n :: u64) AND 1 = (if bit n 0 then 1 else 0)"
  by (simp add: and_one_eq bit_0 mod2_eq_if)

lemma bit_zigzag_encode:
  "k < 64 \<Longrightarrow> bit (zigzag_encode n) k = ((1 \<le> k \<and> bit n (k - 1)) \<noteq> bit n 63)"
  unfolding zigzag_encode_def bit_xor_iff bit_push_bit_iff signed_drop_bit_63
  by (auto simp: bit_minus_1_iff dest: bit_imp_le_length)

lemma bit_zigzag_decode:
  "k < 64 \<Longrightarrow> bit (zigzag_decode n) k = ((k < 63 \<and> bit n (k + 1)) \<noteq> bit n 0)"
  unfolding zigzag_decode_def bit_xor_iff bit_drop_bit_eq and_one_word
  by (auto simp: bit_minus_1_iff dest: bit_imp_le_length)

lemma zigzag_decode_encode [simp]: "zigzag_decode (zigzag_encode n) = n"
proof (rule bit_word_eqI)
  fix k assume "k < LENGTH(64)"
  then consider "k < 63" | "k = 63" by fastforce
  then show "bit (zigzag_decode (zigzag_encode n)) k = bit n k"
    by cases (auto simp: bit_zigzag_decode bit_zigzag_encode)
qed

lemma drop_bit_7_less: "0x80 \<le> (v :: u64) \<Longrightarrow> unat (drop_bit 7 v) < unat v"
  using unat_drop_bit_eq [of 7 v] by (simp add: drop_bit_eq_div word_le_nat_alt)

function encode_varint :: "u64 \<Rightarrow> bytes" where
  "encode_varint value =
     (if 0x80 \<le> value
      then ucast ((value AND 0x7F) OR 0x80) # encode_varint (drop_bit 7 value)
      else [ucast value])"
  by pat_completeness auto
termination
  by (relation "measure unat") (auto simp: drop_bit_7_less)

declare encode_varint.simps [simp del]

text \<open>A shift by 64 or more, like a read past the end of the buffer, is undefined.\<close>

fun decode_varint_loop :: "u64 \<Rightarrow> nat \<Rightarrow> bytes \<Rightarrow> (u64 \<times> bytes) option" where
  "decode_varint_loop result shift [] = None"
| "decode_varint_loop result shift (b # bs) =
     (if shift < 64
      then let result = result OR push_bit shift (ucast (b AND 0x7F))
           in if b AND 0x80 \<noteq> 0 then decode_varint_loop result (shift + 7) bs
              else Some (result, bs)
      else None)"

definition decode_varint :: "bytes \<Rightarrow> (u64 \<times> bytes) option" where
  "decode_varint input = decode_varint_loop 0 0 input"

lemma varint_masks:
  "(0x7F :: u64) = mask 7" "(0x7F :: u8) = mask 7" "(0x80 :: u64) = push_bit 7 1" "(0x80 :: u8) = push_bit 7 1"
  "(0x80 :: int) = push_bit 7 1"
  by (simp_all add: mask_eq_exp_minus_1)

lemma bit_80: "bit (0x80 :: u64) n \<longleftrightarrow> n = 7" "bit (0x80 :: u8) n \<longleftrightarrow> n = 7"
  "bit (0x80 :: int) n \<longleftrightarrow> n = 7"
  unfolding varint_masks bit_push_bit_iff by (auto simp: bit_1_iff)

lemmas varint_bits = bit_80 bit_and_iff bit_or_iff bit_unsigned_iff bit_mask_iff bit_push_bit_iff
  bit_drop_bit_eq bit_1_iff

lemma varint_byte_more:
  "ucast ((ucast (((v :: u64) AND 0x7F) OR 0x80) :: u8) AND 0x7F) = v AND 0x7F"
  "(ucast (((v :: u64) AND 0x7F) OR 0x80) :: u8) AND 0x80 \<noteq> 0"
proof -
  show "ucast ((ucast ((v AND 0x7F) OR 0x80) :: u8) AND 0x7F) = v AND 0x7F"
    unfolding varint_masks by (rule bit_word_eqI) (auto simp: varint_bits)
  have "bit ((ucast ((v AND 0x7F) OR 0x80) :: u8) AND 0x80) 7"
    unfolding varint_masks by (simp add: varint_bits)
  then show "(ucast ((v AND 0x7F) OR 0x80) :: u8) AND 0x80 \<noteq> 0" by auto
qed

lemma varint_byte_last:
  assumes "\<not> 0x80 \<le> (v :: u64)"
  shows "ucast ((ucast v :: u8) AND 0x7F) = v" and "(ucast v :: u8) AND 0x80 = 0"
proof -
  have "unat v < 2 ^ 7" using assms by (simp add: word_le_nat_alt)
  then have "take_bit 7 (unat v) = unat v" by (simp add: take_bit_nat_eq_self)
  then have hi: "k < 7" if "bit v k" for k
    using that bit_unsigned_iff [of v k, where ?'a = nat]
    by (metis bit_take_bit_iff not_less possible_bit_nat)
  show "ucast ((ucast v :: u8) AND 0x7F) = v"
    unfolding varint_masks by (rule bit_word_eqI) (auto simp: varint_bits dest: hi)
  show "(ucast v :: u8) AND 0x80 = 0"
    unfolding varint_masks by (rule bit_word_eqI) (auto simp: varint_bits dest: hi)
qed

lemma varint_split:
  "push_bit s (v AND 0x7F) OR push_bit (s + 7) (drop_bit 7 v) = push_bit s (v :: u64)"
proof -
  have *: "7 + (n - (s + 7)) = n - s" if "\<not> n - s < 7" for n
    using that by simp
  show ?thesis
    unfolding varint_masks by (intro bit_word_eqI) (auto simp: varint_bits intro: ccontr dest!: *)
qed

lemma decode_varint_loop_encode:
  assumes "shift < 64" and "unat v < 2 ^ (64 - shift)"
  shows "decode_varint_loop r shift (encode_varint v @ rest) = Some (r OR push_bit shift v, rest)"
  using assms
proof (induction v arbitrary: r shift rule: encode_varint.induct)
  case (1 v)
  show ?case
  proof (cases "0x80 \<le> v")
    case True
    then have big: "128 \<le> unat v" by (simp add: word_le_nat_alt)
    have "(2 :: nat) ^ 7 < 2 ^ (64 - shift)"
      using big 1(3) by simp
    then have sh: "shift + 7 < 64"
      by (subst (asm) power_strict_increasing_iff) auto
    have "2 ^ (64 - shift) = 2 ^ 7 * (2 :: nat) ^ (64 - (shift + 7))"
      unfolding power_add [symmetric] using sh by (intro arg_cong [of _ _ "power 2"]) linarith
    then have small: "unat (drop_bit 7 v) < 2 ^ (64 - (shift + 7))"
      using 1(3) by (simp add: drop_bit_eq_div unat_div div_less_iff_less_mult mult.commute)
    show ?thesis
      using 1(1) [OF True sh small] 1(2) True
      by (simp add: encode_varint.simps [of v] Let_def varint_byte_more varint_split or.assoc del: push_bit_and)
  next
    case False
    then show ?thesis
      using 1(2) by (simp add: encode_varint.simps [of v] Let_def varint_byte_last)
  qed
qed

interpretation varint: prefix_codec encode_varint decode_varint "\<lambda>_. True"
  by unfold_locales
     (simp add: decode_varint_def decode_varint_loop_encode unsigned_less [where ?'b = 64, simplified])

lemma length_encode_varint:
  "unat v < 128 ^ n \<Longrightarrow> 0 < n \<Longrightarrow> length (encode_varint v) \<le> n"
proof (induction n arbitrary: v)
  case (Suc n)
  show ?case
  proof (cases "0x80 \<le> v")
    case True
    then have "128 \<le> unat v" by (simp add: word_le_nat_alt)
    then have "n \<noteq> 0" using Suc.prems by (cases n) auto
    moreover have "unat (drop_bit 7 v) < 128 ^ n"
      using Suc.prems by (simp add: drop_bit_eq_div unat_div div_less_iff_less_mult mult.commute)
    ultimately show ?thesis
      using Suc.IH [of "drop_bit 7 v"] True by (simp add: encode_varint.simps [of v])
  next
    case False
    then show ?thesis by (simp add: encode_varint.simps [of v])
  qed
qed simp

lemma length_encode_varint_max: "length (encode_varint v) \<le> 10" "encode_varint v \<noteq> []"
proof -
  have "unat v < 2 ^ 64" using unsigned_less [of v] by simp
  then show "length (encode_varint v) \<le> 10"
    by (intro length_encode_varint) simp_all
  show "encode_varint v \<noteq> []" by (subst encode_varint.simps) simp
qed

section \<open>Arrays of 64-bit integers\<close>

definition word_bytes :: "u64 \<Rightarrow> bytes" where
  "word_bytes w = le_bytes 8 (unat w)"

function i64_array :: "bytes \<Rightarrow> u64 list" where
  "i64_array bs =
     (if length bs < 8 then [] else word_of_nat (le_nat (take 8 bs)) # i64_array (drop 8 bs))"
  by pat_completeness auto
termination
  by (relation "measure length") auto

declare i64_array.simps [simp del]

definition array_bytes :: "u64 list \<Rightarrow> bytes" where
  "array_bytes ws = concat (map word_bytes ws)"

lemma length_word_bytes [simp]: "length (word_bytes w) = 8"
  by (simp add: word_bytes_def)

lemma array_bytes_simps [simp]:
  "array_bytes [] = []" "array_bytes (w # ws) = word_bytes w @ array_bytes ws"
  "array_bytes (xs @ ys) = array_bytes xs @ array_bytes ys"
  by (simp_all add: array_bytes_def)

lemma length_array_bytes [simp]: "length (array_bytes ws) = 8 * length ws"
  by (induction ws) auto

lemma le_nat_less: "le_nat bs < 256 ^ length bs"
proof (induction bs)
  case (Cons b bs)
  have "unat b < 256" using unsigned_less [of b] by simp
  then show ?case using Cons by simp
qed simp

lemma le_bytes_le_nat: "le_bytes (length bs) (le_nat bs) = bs"
proof (induction bs)
  case (Cons b bs)
  have "unat b < 256" using unsigned_less [of b] by simp
  moreover have "(word_of_nat (unat b + 256 * le_nat bs) :: u8) = b"
    by (rule unsigned_word_eqI [where ?'a = nat]) (use calculation in \<open>simp only: unat_byte_of_nat mod_mult_self2 mod_less\<close>)
  ultimately show ?case using Cons by simp
qed simp

lemma word_of_word_bytes [simp]: "word_of_nat (le_nat (word_bytes w)) = w"
proof -
  have "unat w < 18446744073709551616" using unsigned_less [of w] by simp
  then show ?thesis by (simp add: word_bytes_def le_nat_u64)
qed

lemma word_bytes_of_bytes: "length bs = 8 \<Longrightarrow> word_bytes (word_of_nat (le_nat bs)) = bs"
  using le_nat_less [of bs] le_bytes_le_nat [of bs]
  by (simp add: word_bytes_def unat_of_nat)

lemma i64_array_word_bytes [simp]: "i64_array (word_bytes w @ bs) = w # i64_array bs"
  by (subst i64_array.simps) simp

lemma i64_array_Nil [simp]: "i64_array [] = []"
  by (simp add: i64_array.simps)

lemma i64_array_bytes [simp]: "i64_array (array_bytes ws) = ws"
  by (induction ws) auto

lemma array_bytes_i64_array: "array_bytes (i64_array bs) = take (8 * (length bs div 8)) bs"
proof (induction bs rule: i64_array.induct)
  case (1 bs)
  show ?case
  proof (cases "length bs < 8")
    case False
    then have "8 * (length bs div 8) = 8 + 8 * ((length bs - 8) div 8)"
      by (subst le_div_geq) simp_all
    then show ?thesis
      using False 1 by (simp add: i64_array.simps [of bs] word_bytes_of_bytes take_add)
  qed (simp add: i64_array.simps [of bs])
qed

lemma length_i64_array [simp]: "length (i64_array bs) = length bs div 8"
  using arg_cong [OF array_bytes_i64_array [of bs], of length] by (simp add: min_def split: if_splits)

lemma whole_array:
  assumes "8 dvd length bs"
  obtains ws where "bs = array_bytes ws" "length bs = 8 * length ws"
proof (rule that [of "i64_array bs"])
  show "bs = array_bytes (i64_array bs)" using assms by (simp add: array_bytes_i64_array)
  show "length bs = 8 * length (i64_array bs)" using assms by simp
qed

section \<open>Delta encoding\<close>

fun compress_delta_loop :: "nat \<Rightarrow> bytes \<Rightarrow> u64 \<Rightarrow> u64 list \<Rightarrow> bytes option" where
  "compress_delta_loop max_output_size out prev [] = Some out"
| "compress_delta_loop max_output_size out prev (v # values) =
     (if length out + 10 > max_output_size then None
      else compress_delta_loop max_output_size (out @ encode_varint (zigzag_encode (v - prev))) v values)"

definition compress_delta :: compressor where
  "compress_delta input max_output_size =
     (let values = i64_array input
      in if max_output_size < 8 then Some Fail
         else case compress_delta_loop max_output_size (le_bytes 8 (length values)) 0 values of
                None \<Rightarrow> copy_out input max_output_size
              | Some out \<Rightarrow>
                  (if length input \<le> length out then copy_out input max_output_size
                   else Some (Out out)))"

fun delta_varints :: "nat \<Rightarrow> u64 \<Rightarrow> bytes \<Rightarrow> u64 list option" where
  "delta_varints 0 prev bs = Some []"
| "delta_varints (Suc n) prev bs =
     (if bs = [] then Some []
      else case decode_varint bs of None \<Rightarrow> None
           | Some (zigzag, bs') \<Rightarrow>
               (let v = prev + zigzag_decode zigzag
                in map_option (\<lambda>vs. v # vs) (delta_varints n v bs')))"

fun prefix_sums :: "u64 \<Rightarrow> u64 list \<Rightarrow> u64 list" where
  "prefix_sums prev [] = []"
| "prefix_sums prev (d # ds) = (prev + d) # prefix_sums (prev + d) ds"

definition decompress_delta :: decompressor where
  "decompress_delta input output =
     (let count = length output div 8;
          values = (if 8 \<le> length input \<and> i64_value (take 8 input) = int count
                    then delta_varints count 0 (drop 8 input)
                    else Some (prefix_sums 0 (i64_array input)))
      in case values of None \<Rightarrow> None
         | Some vs \<Rightarrow> map_option (\<lambda>buf. (length output, buf)) (fill_front (array_bytes vs) output))"

fun delta_stream :: "u64 \<Rightarrow> u64 list \<Rightarrow> bytes" where
  "delta_stream prev [] = []"
| "delta_stream prev (v # vs) = encode_varint (zigzag_encode (v - prev)) @ delta_stream v vs"

lemma compress_delta_loop_stream:
  "compress_delta_loop cap out prev vs = Some c \<Longrightarrow> c = out @ delta_stream prev vs"
  by (induction vs arbitrary: out prev) (fastforce split: if_splits)+

lemma compress_delta_loop_size:
  "compress_delta_loop cap out prev vs = Some c \<Longrightarrow> length out \<le> cap \<Longrightarrow> length c \<le> cap"
proof (induction vs arbitrary: out prev)
  case (Cons v vs)
  have "length (out @ encode_varint (zigzag_encode (v - prev))) \<le> cap"
    using Cons.prems length_encode_varint_max(1) [of "zigzag_encode (v - prev)"] by (auto split: if_splits)
  then show ?case using Cons by (auto split: if_splits)
qed simp

lemma delta_varints_stream: "delta_varints (length vs) prev (delta_stream prev vs) = Some vs"
proof (induction vs arbitrary: prev)
  case (Cons v vs)
  have "decode_varint (encode_varint (zigzag_encode (v - prev)) @ delta_stream v vs) =
        Some (zigzag_encode (v - prev), delta_stream v vs)"
    by (rule varint.dec_enc) simp
  then show ?case using Cons by (simp add: Let_def length_encode_varint_max)
qed simp

lemma compress_delta_lossless:
  assumes dvd: "8 dvd length input" and comp: "compress_delta input cap = Some (Out c)"
    and small: "length c < length input" and i64: "length input < 9223372036854775808"
    and buf: "length buf = length input"
  shows "decompress_delta c buf = Some (length input, input)"
proof -
  obtain ws where ws: "input = array_bytes ws" "length input = 8 * length ws"
    using dvd by (rule whole_array)
  obtain out where loop: "compress_delta_loop cap (le_bytes 8 (length ws)) 0 ws = Some out"
    and c: "c = out"
    using comp small ws by (auto simp: compress_delta_def Let_def copy_out_def split: if_splits option.splits)
  have c: "c = le_bytes 8 (length ws) @ delta_stream 0 ws"
    using compress_delta_loop_stream [OF loop] c by simp
  have "i64_value (le_bytes 8 (length ws)) = int (length ws)"
    using i64_value_bytes [of "int (length ws)"] i64 ws by (simp add: i64_bytes_def)
  then show ?thesis
    using c ws buf delta_varints_stream [of ws 0] by (simp add: decompress_delta_def Let_def)
qed

end
