(* ===== verification/Gorilla.thy ===== *)
theory Gorilla
  imports Compression
begin

text \<open>
  The Gorilla codec for columns of doubles (\<^verbatim>\<open>compress_gorilla\<close> and \<^verbatim>\<open>decompress_gorilla\<close> of
  \<^verbatim>\<open>storage/compression.c\<close>): every double is XORed with its predecessor and only the window of
  meaningful bits of the result is stored. The bit writer and the bit reader of the two macros
  \<^verbatim>\<open>WRITE_BITS\<close> and \<^verbatim>\<open>READ_BITS\<close> are modelled with their partial byte and bit position and refine
  lists of bits, most significant bit first; the codec is verified on the lists.
\<close>

unbundle bit_operations_syntax

section \<open>Bits, most significant first\<close>

definition word_bits :: "nat \<Rightarrow> u64 \<Rightarrow> bool list" where
  "word_bits n v = map (bit v) (rev [0 ..< n])"

definition byte_bits :: "u8 \<Rightarrow> bool list" where
  "byte_bits b = map (bit b) (rev [0 ..< 8])"

definition bits_of_bytes :: "bytes \<Rightarrow> bool list" where
  "bits_of_bytes bs = concat (map byte_bits bs)"

lemma length_word_bits [simp]: "length (word_bits n v) = n"
  by (simp add: word_bits_def)

lemma length_byte_bits [simp]: "length (byte_bits b) = 8"
  by (simp add: byte_bits_def)

lemma nth_word_bits: "i < n \<Longrightarrow> word_bits n v ! i = bit v (n - 1 - i)"
  by (simp add: word_bits_def rev_nth)

lemma nth_byte_bits: "i < 8 \<Longrightarrow> byte_bits b ! i = bit b (7 - i)"
  by (simp add: byte_bits_def rev_nth)

lemma bits_of_bytes_simps [simp]:
  "bits_of_bytes [] = []" "bits_of_bytes (b # bs) = byte_bits b @ bits_of_bytes bs"
  "bits_of_bytes (xs @ ys) = bits_of_bytes xs @ bits_of_bytes ys"
  by (simp_all add: bits_of_bytes_def)

lemma length_bits_of_bytes [simp]: "length (bits_of_bytes bs) = 8 * length bs"
  by (induction bs) auto

section \<open>Counting zeros\<close>

text \<open>\<open>clz64\<close> and \<open>ctz64\<close> are the compiler builtins \<^verbatim>\<open>__builtin_clzll\<close> and \<^verbatim>\<open>__builtin_ctzll\<close>.\<close>

definition clz64 :: "u64 \<Rightarrow> nat" where
  "clz64 x = length (takeWhile Not (map (bit x) (rev [0 ..< 64])))"

definition ctz64 :: "u64 \<Rightarrow> nat" where
  "ctz64 x = length (takeWhile Not (map (bit x) [0 ..< 64]))"

definition count_leading_zeros :: "u64 \<Rightarrow> nat" where
  "count_leading_zeros x = (if x = 0 then 64 else clz64 x)"

definition count_trailing_zeros :: "u64 \<Rightarrow> nat" where
  "count_trailing_zeros x = (if x = 0 then 64 else ctz64 x)"

text \<open>The branches for other compilers, a binary search by shifting.\<close>

definition clz_step :: "u64 \<Rightarrow> nat \<Rightarrow> nat \<times> u64 \<Rightarrow> nat \<times> u64" where
  "clz_step m k s = (case s of (n, x) \<Rightarrow> if x AND m = 0 then (n + k, push_bit k x) else (n, x))"

definition count_leading_zeros_portable :: "u64 \<Rightarrow> nat" where
  "count_leading_zeros_portable x =
     (if x = 0 then 64
      else fst (clz_step 0x8000000000000000 1
                 (clz_step 0xC000000000000000 2
                   (clz_step 0xF000000000000000 4
                     (clz_step 0xFF00000000000000 8
                       (clz_step 0xFFFF000000000000 16
                         (clz_step 0xFFFFFFFF00000000 32 (0, x))))))))"

definition ctz_step :: "u64 \<Rightarrow> nat \<Rightarrow> nat \<times> u64 \<Rightarrow> nat \<times> u64" where
  "ctz_step m k s = (case s of (n, x) \<Rightarrow> if x AND m = 0 then (n + k, drop_bit k x) else (n, x))"

definition count_trailing_zeros_portable :: "u64 \<Rightarrow> nat" where
  "count_trailing_zeros_portable x =
     (if x = 0 then 64
      else fst (ctz_step 0x1 1
                 (ctz_step 0x3 2
                   (ctz_step 0xF 4
                     (ctz_step 0xFF 8
                       (ctz_step 0xFFFF 16
                         (ctz_step 0xFFFFFFFF 32 (0, x))))))))"

lemma length_takeWhile_ge:
  "k \<le> length (takeWhile P xs) \<longleftrightarrow> k \<le> length xs \<and> (\<forall>i < k. P (xs ! i))"
proof (induction xs arbitrary: k)
  case (Cons x xs)
  then show ?case by (cases k) (auto simp: All_less_Suc2)
qed auto

lemma clz64_ge: "k \<le> clz64 x \<longleftrightarrow> k \<le> 64 \<and> (\<forall>i < 64. 64 - k \<le> i \<longrightarrow> \<not> bit x i)"
proof -
  have "(\<forall>i < k. \<not> bit x (63 - i)) \<longleftrightarrow> (\<forall>i < 64. 64 - k \<le> i \<longrightarrow> \<not> bit x i)" if "k \<le> 64"
  proof (intro iffI allI impI)
    fix i assume "\<forall>i < k. \<not> bit x (63 - i)" "i < 64" "64 - k \<le> i"
    then show "\<not> bit x i" using that by (auto dest!: spec [of _ "63 - i"])
  next
    fix i assume "\<forall>i < 64. 64 - k \<le> i \<longrightarrow> \<not> bit x i" "i < k"
    then show "\<not> bit x (63 - i)" using that by (auto dest!: spec [of _ "63 - i"])
  qed
  then show ?thesis
    unfolding clz64_def length_takeWhile_ge by (auto simp: rev_nth)
qed

lemma ctz64_ge: "k \<le> ctz64 x \<longleftrightarrow> k \<le> 64 \<and> (\<forall>i < k. \<not> bit x i)"
  unfolding ctz64_def length_takeWhile_ge by auto

lemma clz64_eqI:
  assumes "h < 64" "bit x h" "\<And>i. h < i \<Longrightarrow> i < 64 \<Longrightarrow> \<not> bit x i"
  shows "clz64 x = 63 - h"
proof -
  have "63 - h \<le> clz64 x" unfolding clz64_ge using assms by auto
  moreover have "\<not> 64 - h \<le> clz64 x" unfolding clz64_ge using assms by auto
  ultimately show ?thesis by linarith
qed

lemma ctz64_eqI:
  assumes "h < 64" "bit x h" "\<And>i. i < h \<Longrightarrow> \<not> bit x i"
  shows "ctz64 x = h"
proof -
  have "h \<le> ctz64 x" unfolding ctz64_ge using assms by auto
  moreover have "\<not> Suc h \<le> ctz64 x" unfolding ctz64_ge using assms by auto
  ultimately show ?thesis by linarith
qed

lemma nonzero_bit:
  assumes "(x :: u64) \<noteq> 0"
  shows "\<exists>i < 64. bit x i"
proof (rule ccontr)
  assume "\<not> (\<exists>i < 64. bit x i)"
  then have "x = 0" by (intro bit_word_eqI) auto
  then show False using assms by simp
qed

lemma clz64_top:
  assumes "x \<noteq> 0"
  shows "clz64 x < 64" and "bit x (63 - clz64 x)"
proof -
  show less: "clz64 x < 64"
    using nonzero_bit [OF assms] clz64_ge [of 64 x] by (auto simp: not_le [symmetric])
  have "\<not> Suc (clz64 x) \<le> clz64 x" by simp
  then obtain i where i: "i < 64" "64 - Suc (clz64 x) \<le> i" "bit x i"
    unfolding clz64_ge [of "Suc (clz64 x)"] using less by auto
  moreover have "\<not> 64 - clz64 x \<le> i"
    using i clz64_ge [of "clz64 x" x] by auto
  ultimately have "i = 63 - clz64 x" by linarith
  then show "bit x (63 - clz64 x)" using i by simp
qed

lemma ctz64_low:
  assumes "x \<noteq> 0"
  shows "ctz64 x < 64" and "bit x (ctz64 x)"
proof -
  show less: "ctz64 x < 64"
    using nonzero_bit [OF assms] ctz64_ge [of 64 x] by (auto simp: not_le [symmetric])
  have "\<not> Suc (ctz64 x) \<le> ctz64 x" by simp
  then obtain i where "i \<le> ctz64 x" "bit x i"
    unfolding ctz64_ge [of "Suc (ctz64 x)"] using less by (auto simp: less_Suc_eq_le)
  moreover have "\<not> bit x i" if "i < ctz64 x" for i
    using that ctz64_ge [of "ctz64 x" x] by auto
  ultimately show "bit x (ctz64 x)" by (cases "i < ctz64 x") auto
qed

lemma clz64_push_bit:
  assumes "x \<noteq> 0" "k \<le> clz64 x"
  shows "clz64 (push_bit k x) = clz64 x - k" and "push_bit k x \<noteq> 0"
proof -
  have top: "clz64 x < 64" "bit x (63 - clz64 x)" using clz64_top [OF assms(1)] .
  have "\<not> bit x i" if "63 - clz64 x < i" "i < 64" for i
    using that clz64_ge [of "clz64 x" x] by auto
  then have "clz64 (push_bit k x) = 63 - (63 - clz64 x + k)"
    using top assms(2) by (intro clz64_eqI) (auto simp: bit_push_bit_iff)
  then show "clz64 (push_bit k x) = clz64 x - k" using top assms(2) by simp
  have "bit (push_bit k x) (63 - clz64 x + k)"
    using top assms(2) by (simp add: bit_push_bit_iff) linarith
  then show "push_bit k x \<noteq> 0" by auto
qed

lemma ctz64_drop_bit:
  assumes "x \<noteq> 0" "k \<le> ctz64 x"
  shows "ctz64 (drop_bit k x) = ctz64 x - k" and "drop_bit k x \<noteq> 0"
proof -
  have low: "ctz64 x < 64" "bit x (ctz64 x)" using ctz64_low [OF assms(1)] .
  have "\<not> bit x i" if "i < ctz64 x" for i
    using that ctz64_ge [of "ctz64 x" x] by auto
  then show "ctz64 (drop_bit k x) = ctz64 x - k"
    using low assms(2) by (intro ctz64_eqI) (auto simp: bit_drop_bit_eq)
  have "bit (drop_bit k x) (ctz64 x - k)"
    using low assms(2) by (simp add: bit_drop_bit_eq)
  then show "drop_bit k x \<noteq> 0" by auto
qed

text \<open>One step of the search halves the range of the count.\<close>

definition clz_inv :: "nat \<Rightarrow> nat \<Rightarrow> nat \<times> u64 \<Rightarrow> bool" where
  "clz_inv t bound s \<longleftrightarrow>
     (case s of (n, x) \<Rightarrow> x \<noteq> 0 \<and> n + clz64 x = t \<and> clz64 x < bound)"

definition ctz_inv :: "nat \<Rightarrow> nat \<Rightarrow> nat \<times> u64 \<Rightarrow> bool" where
  "ctz_inv t bound s \<longleftrightarrow>
     (case s of (n, x) \<Rightarrow> x \<noteq> 0 \<and> n + ctz64 x = t \<and> ctz64 x < bound)"

lemma top_mask_zero:
  assumes "m = push_bit (64 - k) (mask k)" "k \<le> 64"
  shows "(x :: u64) AND m = 0 \<longleftrightarrow> k \<le> clz64 x"
proof
  assume z: "x AND m = 0"
  have "\<not> bit x i" if "i < 64" "64 - k \<le> i" for i
  proof
    assume "bit x i"
    then have "bit (x AND m) i"
      using that assms by (auto simp: bit_and_iff bit_push_bit_iff bit_mask_iff)
    then show False using z by simp
  qed
  then show "k \<le> clz64 x" using assms by (auto simp: clz64_ge)
next
  assume "k \<le> clz64 x"
  then show "x AND m = 0"
    unfolding assms(1) clz64_ge
    by (intro bit_word_eqI) (auto simp: bit_and_iff bit_push_bit_iff bit_mask_iff)
qed

lemma low_mask_zero:
  assumes "m = mask k" "k \<le> 64"
  shows "(x :: u64) AND m = 0 \<longleftrightarrow> k \<le> ctz64 x"
proof
  assume z: "x AND m = 0"
  have "\<not> bit x i" if "i < k" for i
  proof
    assume "bit x i"
    then have "bit (x AND m) i"
      using that assms by (auto simp: bit_and_iff bit_mask_iff)
    then show False using z by simp
  qed
  then show "k \<le> ctz64 x" using assms by (auto simp: ctz64_ge)
next
  assume "k \<le> ctz64 x"
  then show "x AND m = 0"
    unfolding assms(1) ctz64_ge by (intro bit_word_eqI) (auto simp: bit_and_iff bit_mask_iff)
qed

lemma clz_step_inv:
  assumes "clz_inv t b s" "b = 2 * k" "m = push_bit (64 - k) (mask k)" "k \<le> 64"
  shows "clz_inv t k (clz_step m k s)"
  using assms top_mask_zero [OF assms(3,4)] clz64_push_bit
  by (auto simp: clz_inv_def clz_step_def split: prod.splits)

lemma ctz_step_inv:
  assumes "ctz_inv t b s" "b = 2 * k" "m = mask k" "k \<le> 64"
  shows "ctz_inv t k (ctz_step m k s)"
  using assms low_mask_zero [OF assms(3,4)] ctz64_drop_bit
  by (auto simp: ctz_inv_def ctz_step_def split: prod.splits)

lemma clz_steps:
  "clz_inv t 64 s \<Longrightarrow> clz_inv t 32 (clz_step 0xFFFFFFFF00000000 32 s)"
  "clz_inv t 32 s \<Longrightarrow> clz_inv t 16 (clz_step 0xFFFF000000000000 16 s)"
  "clz_inv t 16 s \<Longrightarrow> clz_inv t 8 (clz_step 0xFF00000000000000 8 s)"
  "clz_inv t 8 s \<Longrightarrow> clz_inv t 4 (clz_step 0xF000000000000000 4 s)"
  "clz_inv t 4 s \<Longrightarrow> clz_inv t 2 (clz_step 0xC000000000000000 2 s)"
  "clz_inv t 2 s \<Longrightarrow> clz_inv t 1 (clz_step 0x8000000000000000 1 s)"
  by (rule clz_step_inv, assumption, simp_all add: mask_eq_exp_minus_1 push_bit_eq_mult)+

lemma ctz_steps:
  "ctz_inv t 64 s \<Longrightarrow> ctz_inv t 32 (ctz_step 0xFFFFFFFF 32 s)"
  "ctz_inv t 32 s \<Longrightarrow> ctz_inv t 16 (ctz_step 0xFFFF 16 s)"
  "ctz_inv t 16 s \<Longrightarrow> ctz_inv t 8 (ctz_step 0xFF 8 s)"
  "ctz_inv t 8 s \<Longrightarrow> ctz_inv t 4 (ctz_step 0xF 4 s)"
  "ctz_inv t 4 s \<Longrightarrow> ctz_inv t 2 (ctz_step 0x3 2 s)"
  "ctz_inv t 2 s \<Longrightarrow> ctz_inv t 1 (ctz_step 0x1 1 s)"
  by (rule ctz_step_inv, assumption, simp_all add: mask_eq_exp_minus_1)+

lemma clz_portable: "count_leading_zeros_portable x = count_leading_zeros x"
proof (cases "x = 0")
  case False
  have "clz_inv (clz64 x) 64 (0, x)"
    using False clz64_top(1) [OF False] by (simp add: clz_inv_def)
  from this [THEN clz_steps(1), THEN clz_steps(2), THEN clz_steps(3), THEN clz_steps(4),
      THEN clz_steps(5), THEN clz_steps(6)]
  have "fst (clz_step 0x8000000000000000 1 (clz_step 0xC000000000000000 2 (clz_step 0xF000000000000000 4 (clz_step 0xFF00000000000000 8 (clz_step 0xFFFF000000000000 16 (clz_step 0xFFFFFFFF00000000 32 (0, x))))))) = clz64 x"
    by (auto simp only: clz_inv_def split_beta)
  then show ?thesis
    unfolding count_leading_zeros_portable_def count_leading_zeros_def using False by presburger
qed (simp add: count_leading_zeros_portable_def count_leading_zeros_def)

lemma ctz_portable: "count_trailing_zeros_portable x = count_trailing_zeros x"
proof (cases "x = 0")
  case False
  have "ctz_inv (ctz64 x) 64 (0, x)"
    using False ctz64_low(1) [OF False] by (simp add: ctz_inv_def)
  from this [THEN ctz_steps(1), THEN ctz_steps(2), THEN ctz_steps(3), THEN ctz_steps(4),
      THEN ctz_steps(5), THEN ctz_steps(6)]
  have "fst (ctz_step 0x1 1 (ctz_step 0x3 2 (ctz_step 0xF 4 (ctz_step 0xFF 8 (ctz_step 0xFFFF 16 (ctz_step 0xFFFFFFFF 32 (0, x))))))) = ctz64 x"
    by (auto simp only: ctz_inv_def split_beta)
  then show ?thesis
    unfolding count_trailing_zeros_portable_def count_trailing_zeros_def using False by presburger
qed (simp add: count_trailing_zeros_portable_def count_trailing_zeros_def)

section \<open>The bit writer and the bit reader\<close>

text \<open>The state of \<^verbatim>\<open>WRITE_BITS\<close>: the bytes already stored, the partial byte and how many of its bits
  are used. A store past the end of the output buffer (of \<open>cap\<close> bytes) is undefined.\<close>

record bit_writer =
  bw_out :: bytes
  bw_current_byte :: u8
  bw_bit_pos :: nat

function write_bits :: "nat \<Rightarrow> u64 \<Rightarrow> nat \<Rightarrow> bit_writer \<Rightarrow> bit_writer option" where
  "write_bits cap val remaining w =
     (if remaining = 0 then Some w
      else let bits_in_byte = 8 - bw_bit_pos w;
               bits_to_write = (if remaining < bits_in_byte then remaining else bits_in_byte);
               shift = remaining - bits_to_write;
               byte = bw_current_byte w OR
                        ucast (push_bit (bits_in_byte - bits_to_write)
                                 (drop_bit shift val AND mask bits_to_write));
               pos = bw_bit_pos w + bits_to_write
           in if 8 \<le> bw_bit_pos w then None
              else if pos = 8
              then if length (bw_out w) < cap
                   then write_bits cap val shift
                          \<lparr>bw_out = bw_out w @ [byte], bw_current_byte = 0, bw_bit_pos = 0\<rparr>
                   else None
              else write_bits cap val shift (w\<lparr>bw_current_byte := byte, bw_bit_pos := pos\<rparr>))"
  by pat_completeness auto
termination
  by (relation "measure (\<lambda>(cap, val, remaining, w). remaining)") (auto simp: Let_def split: if_splits)

declare write_bits.simps [simp del]

definition bw_ok :: "bit_writer \<Rightarrow> bool" where
  "bw_ok w \<longleftrightarrow> bw_bit_pos w < 8 \<and> (\<forall>i < 8 - bw_bit_pos w. \<not> bit (bw_current_byte w) i)"

definition bw_bits :: "bit_writer \<Rightarrow> bool list" where
  "bw_bits w = bits_of_bytes (bw_out w) @ take (bw_bit_pos w) (byte_bits (bw_current_byte w))"

text \<open>The bits of the partial byte after one round of the loop.\<close>

lemma byte_after_write:
  fixes b :: u8 and v :: u64
  assumes "p + k \<le> 8" "k \<le> n" "n \<le> 64" "\<forall>i < 8 - p. \<not> bit b i"
  defines "b' \<equiv> b OR ucast (push_bit (8 - p - k) (drop_bit (n - k) v AND mask k) :: u64)"
  shows "take (p + k) (byte_bits b') = take p (byte_bits b) @ take k (word_bits n v)"
    and "\<forall>i < 8 - (p + k). \<not> bit b' i"
proof -
  have bit': "bit b' i = (bit b i \<or> 8 - p - k \<le> i \<and> i - (8 - p - k) < k \<and> bit v (i - (8 - p - k) + (n - k)))"
    if "i < 8" for i
    using that unfolding b'_def
    by (auto simp: bit_or_iff bit_unsigned_iff bit_push_bit_iff bit_and_iff bit_mask_iff bit_drop_bit_eq add.commute)
  show "\<forall>i < 8 - (p + k). \<not> bit b' i"
    using bit' assms(1,4) by auto
  show "take (p + k) (byte_bits b') = take p (byte_bits b) @ take k (word_bits n v)"
  proof (rule nth_equalityI)
    show "length (take (p + k) (byte_bits b')) = length (take p (byte_bits b) @ take k (word_bits n v))"
      using assms(1,2) by simp
  next
    fix i assume "i < length (take (p + k) (byte_bits b'))"
    then have i: "i < p + k" "i < 8" using assms(1) by auto
    show "take (p + k) (byte_bits b') ! i = (take p (byte_bits b) @ take k (word_bits n v)) ! i"
    proof (cases "i < p")
      case True
      then have "\<not> 7 - i - (8 - p - k) < k" using assms(1) by linarith
      then show ?thesis using True i assms(1) by (simp add: nth_append nth_byte_bits bit')
    next
      case False
      have e: "7 - i - (8 - p - k) + (n - k) = n - 1 - (i - p)" "7 - i - (8 - p - k) < k" "8 - p - k \<le> 7 - i"
        using False i assms(1,2) by linarith+
      have "\<not> bit b (7 - i)" using assms(4) False i by auto
      then show ?thesis
        using False i assms(1,2) e by (simp add: nth_append nth_byte_bits nth_word_bits bit')
    qed
  qed
qed

lemma drop_word_bits: "k \<le> n \<Longrightarrow> drop k (word_bits n v) = word_bits (n - k) v"
  by (simp add: word_bits_def drop_map rev_drop drop_rev)

lemma take_word_bits_append: "k \<le> n \<Longrightarrow> take k (word_bits n v) @ word_bits (n - k) v = word_bits n v"
  by (metis append_take_drop_id drop_word_bits)

lemma write_bits_refines:
  assumes "write_bits cap v n w = Some w'" "bw_ok w" "n \<le> 64" "length (bw_out w) \<le> cap"
  shows "bw_ok w' \<and> bw_bits w' = bw_bits w @ word_bits n v \<and> length (bw_out w') \<le> cap \<and>
           (\<exists>ys. bw_out w' = bw_out w @ ys)"
  using assms
proof (induction cap v n w rule: write_bits.induct)
  case (1 cap v n w)
  show ?case
  proof (cases "n = 0")
    case True
    then show ?thesis using 1(3-) by (simp add: write_bits.simps word_bits_def)
  next
    case False
    define k where "k = (if n < 8 - bw_bit_pos w then n else 8 - bw_bit_pos w)"
    define b where "b = bw_current_byte w OR
        ucast (push_bit (8 - bw_bit_pos w - k) (drop_bit (n - k) v AND mask k))"
    have ok: "bw_bit_pos w < 8" "\<forall>i < 8 - bw_bit_pos w. \<not> bit (bw_current_byte w) i"
      using 1(4) by (auto simp: bw_ok_def)
    have k: "bw_bit_pos w + k \<le> 8" "k \<le> n" "0 < k" using False ok by (auto simp: k_def)
    have nk: "n - k \<le> 64" using 1(5) by simp
    note byte = byte_after_write [OF k(1,2) 1(5) ok(2), of v, folded b_def]
    have bits: "take k (word_bits n v) @ word_bits (n - k) v = word_bits n v"
      using k by (simp add: take_word_bits_append)
    show ?thesis
    proof (cases "bw_bit_pos w + k = 8")
      case True
      let ?w = "\<lparr>bw_out = bw_out w @ [b], bw_current_byte = 0, bw_bit_pos = 0\<rparr>"
      have len: "length (bw_out w) < cap" and rest: "write_bits cap v (n - k) ?w = Some w'"
        using 1(3) False True ok
        unfolding write_bits.simps [of cap v n w] Let_def k_def [symmetric] b_def [symmetric]
        by (auto split: if_splits)
      have "bw_ok ?w" by (simp add: bw_ok_def)
      moreover have "bw_bits ?w = bw_bits w @ take k (word_bits n v)"
        using byte(1) True by (simp add: bw_bits_def)
      ultimately show ?thesis
        using 1(1) [OF False refl k_def refl b_def refl _ _ len] rest True ok nk len bits by auto
    next
      case npos: False
      let ?w = "w\<lparr>bw_current_byte := b, bw_bit_pos := bw_bit_pos w + k\<rparr>"
      have rest: "write_bits cap v (n - k) ?w = Some w'"
        using 1(3) False npos ok
        unfolding write_bits.simps [of cap v n w] Let_def k_def [symmetric] b_def [symmetric]
        by (auto split: if_splits)
      have "bw_ok ?w" using byte(2) k npos by (simp add: bw_ok_def)
      moreover have "bw_bits ?w = bw_bits w @ take k (word_bits n v)"
        using byte(1) by (simp add: bw_bits_def)
      ultimately show ?thesis
        using 1(2) [OF False refl k_def refl b_def refl _ npos] rest ok nk 1(6) bits by auto
    qed
  qed
qed

text \<open>The state of \<^verbatim>\<open>READ_BITS\<close>: the byte it is at and the bit inside it. A read past the end of the
  input is undefined.\<close>

record bit_reader =
  br_in_idx :: nat
  br_bit_pos :: nat

function read_bits :: "bytes \<Rightarrow> nat \<Rightarrow> u64 \<Rightarrow> bit_reader \<Rightarrow> (u64 \<times> bit_reader) option" where
  "read_bits input needed res r =
     (if needed = 0 then Some (res, r)
      else let bits_in_byte = 8 - br_bit_pos r;
               bits_to_read = (if needed < bits_in_byte then needed else bits_in_byte);
               shift = bits_in_byte - bits_to_read;
               pos = br_bit_pos r + bits_to_read
           in if 8 \<le> br_bit_pos r \<or> length input \<le> br_in_idx r then None
              else let res' = push_bit bits_to_read res OR
                              ucast (drop_bit shift (input ! br_in_idx r) AND mask bits_to_read)
                   in read_bits input (needed - bits_to_read) res'
                        (if pos = 8 then \<lparr>br_in_idx = br_in_idx r + 1, br_bit_pos = 0\<rparr>
                         else r\<lparr>br_bit_pos := pos\<rparr>))"
  by pat_completeness auto
termination
  by (relation "measure (\<lambda>(input, needed, res, r). needed)") (auto simp: Let_def split: if_splits)

declare read_bits.simps [simp del]

definition br_bits :: "bytes \<Rightarrow> bit_reader \<Rightarrow> bool list" where
  "br_bits input r = drop (8 * br_in_idx r + br_bit_pos r) (bits_of_bytes input)"

definition bits_word :: "u64 \<Rightarrow> bool list \<Rightarrow> u64" where
  "bits_word acc bs = foldl (\<lambda>a b. push_bit 1 a OR of_bool b) acc bs"

lemma bits_word_append [simp]: "bits_word acc (xs @ ys) = bits_word (bits_word acc xs) ys"
  by (simp add: bits_word_def)

lemma bits_word_Nil [simp]: "bits_word acc [] = acc"
  by (simp add: bits_word_def)

lemma bit_bits_word:
  "i < 64 \<Longrightarrow> bit (bits_word acc bs) i =
     (if i < length bs then bs ! (length bs - 1 - i) else bit acc (i - length bs))"
proof (induction bs arbitrary: i rule: rev_induct)
  case (snoc b bs)
  have e: "bits_word acc (bs @ [b]) = push_bit 1 (bits_word acc bs) OR of_bool b"
    by (simp add: bits_word_def)
  show ?case
  proof (cases i)
    case 0
    then show ?thesis by (simp only: e bit_or_iff bit_push_bit_iff) (simp add: bit_of_bool_iff)
  next
    case (Suc j)
    then show ?thesis
      using snoc by (simp only: e bit_or_iff bit_push_bit_iff) (auto simp: bit_of_bool_iff nth_append)
  qed
qed simp

lemma bits_word_word_bits: "n \<le> 64 \<Longrightarrow> bits_word 0 (word_bits n v) = v AND mask n"
  by (rule bit_word_eqI) (auto simp: bit_bits_word nth_word_bits bit_and_iff bit_mask_iff)

lemma byte_read:
  fixes b :: u8 and res :: u64
  assumes "p + k \<le> 8"
  shows "push_bit k res OR ucast (drop_bit (8 - p - k) b AND mask k) =
         bits_word res (take k (drop p (byte_bits b)))"
proof (rule bit_word_eqI)
  fix i assume "i < LENGTH(64)"
  then have i: "i < 64" by simp
  have len: "length (take k (drop p (byte_bits b))) = k" using assms by simp
  show "bit (push_bit k res OR ucast (drop_bit (8 - p - k) b AND mask k)) i =
        bit (bits_word res (take k (drop p (byte_bits b)))) i"
  proof (cases "i < k")
    case True
    have e: "7 - (p + (k - 1 - i)) = 8 - p - k + i" "p + (k - 1 - i) < 8"
      using True assms by linarith+
    then show ?thesis
      using True i assms len
      by (simp add: bit_bits_word bit_or_iff bit_push_bit_iff bit_unsigned_iff bit_and_iff bit_mask_iff
          bit_drop_bit_eq nth_byte_bits)
  next
    case False
    then show ?thesis
      using i len
      by (simp add: bit_bits_word bit_or_iff bit_push_bit_iff bit_unsigned_iff bit_and_iff bit_mask_iff)
  qed
qed

lemma bits_of_bytes_from:
  "i < length bs \<Longrightarrow> drop (8 * i) (bits_of_bytes bs) = byte_bits (bs ! i) @ drop (8 * Suc i) (bits_of_bytes bs)"
proof (induction bs arbitrary: i)
  case (Cons b bs)
  then show ?case by (cases i) auto
qed simp

lemma br_bits_byte:
  assumes "br_in_idx r < length input" "br_bit_pos r < 8"
  shows "br_bits input r = drop (br_bit_pos r) (byte_bits (input ! br_in_idx r)) @
           drop (8 * Suc (br_in_idx r)) (bits_of_bytes input)"
proof -
  have "br_bits input r = drop (br_bit_pos r) (drop (8 * br_in_idx r) (bits_of_bytes input))"
    by (simp add: br_bits_def add.commute)
  then show ?thesis using assms by (simp add: bits_of_bytes_from)
qed

lemma read_bits_refines:
  assumes "br_bit_pos r < 8" "n \<le> length (br_bits input r)"
  shows "\<exists>r'. read_bits input n res r = Some (bits_word res (take n (br_bits input r)), r') \<and>
              br_bit_pos r' < 8 \<and> br_bits input r' = drop n (br_bits input r)"
  using assms
proof (induction input n res r rule: read_bits.induct)
  case (1 input n res r)
  show ?case
  proof (cases "n = 0")
    case True
    then show ?thesis using 1(2) by (simp add: read_bits.simps)
  next
    case False
    define k where "k = (if n < 8 - br_bit_pos r then n else 8 - br_bit_pos r)"
    define res' where "res' = push_bit k res OR
        ucast (drop_bit (8 - br_bit_pos r - k) (input ! br_in_idx r) AND mask k)"
    define r1 where "r1 = (if br_bit_pos r + k = 8 then \<lparr>br_in_idx = br_in_idx r + 1, br_bit_pos = 0\<rparr>
                           else r\<lparr>br_bit_pos := br_bit_pos r + k\<rparr>)"
    have k: "br_bit_pos r + k \<le> 8" "k \<le> n" "0 < k" using False 1(2) by (auto simp: k_def)
    have idx: "br_in_idx r < length input"
      using 1(2,3) False by (simp add: br_bits_def)
    have step: "read_bits input n res r = read_bits input (n - k) res' r1"
      using False 1(2) idx
      unfolding read_bits.simps [of input n res r] Let_def k_def [symmetric] res'_def [symmetric] r1_def
      by simp
    have r1: "br_bit_pos r1 < 8" "br_bits input r1 = drop k (br_bits input r)"
      using k 1(2) by (auto simp: r1_def br_bits_def intro!: arg_cong [of _ _ "\<lambda>n. drop n _"])
    have res': "res' = bits_word res (take k (br_bits input r))"
      using byte_read [OF k(1), of res "input ! br_in_idx r"] k(1) 1(2) idx
      by (simp add: br_bits_byte res'_def)
    have split: "take n (br_bits input r) = take k (br_bits input r) @ take (n - k) (drop k (br_bits input r))"
      using k(2) by (metis le_add_diff_inverse take_add)
    have "n - k \<le> length (br_bits input r1)" using 1(3) r1 by simp
    from 1(1) [OF False refl k_def refl refl _ res'_def, folded r1_def, OF _ r1(1) this]
    show ?thesis
      using step r1(2) res' split idx 1(2) k(2) by (auto simp: add.commute)
  qed
qed

section \<open>The encoder\<close>

record gorilla_enc =
  ge_prev_bits :: u64
  ge_prev_leading :: nat
  ge_prev_trailing :: nat
  ge_writer :: bit_writer

text \<open>One iteration of the loop of \<^verbatim>\<open>compress_gorilla\<close>. \<^verbatim>\<open>1ULL << 64\<close> is undefined, so a window of all
  64 bits is too.\<close>

definition window_mask :: "nat \<Rightarrow> u64 option" where
  "window_mask n = (if n < 64 then Some (push_bit n 1 - 1) else None)"

definition gorilla_write :: "nat \<Rightarrow> bool \<Rightarrow> u64 \<Rightarrow> gorilla_enc \<Rightarrow> gorilla_enc option" where
  "gorilla_write cap later curr_bits e =
     (let xor_result = curr_bits XOR ge_prev_bits e
      in if xor_result = 0
         then map_option (\<lambda>w. e\<lparr>ge_prev_bits := curr_bits, ge_writer := w\<rparr>) (write_bits cap 0 1 (ge_writer e))
         else let trailing = count_trailing_zeros xor_result;
                  meaningful_bits = 64 - count_leading_zeros xor_result - trailing;
                  leading = (if 31 < count_leading_zeros xor_result then 31
                             else count_leading_zeros xor_result)
              in if later \<and> ge_prev_leading e \<le> leading \<and> ge_prev_trailing e \<le> trailing
                 then let prev_meaningful = 64 - ge_prev_leading e - ge_prev_trailing e
                      in do {
                        m \<leftarrow> window_mask prev_meaningful;
                        w \<leftarrow> write_bits cap 2 2 (ge_writer e);
                        w \<leftarrow> write_bits cap (drop_bit (ge_prev_trailing e) xor_result AND m) prev_meaningful w;
                        Some (e\<lparr>ge_prev_bits := curr_bits, ge_writer := w\<rparr>)
                      }
                 else do {
                   m \<leftarrow> window_mask meaningful_bits;
                   w \<leftarrow> write_bits cap 3 2 (ge_writer e);
                   w \<leftarrow> write_bits cap (word_of_nat leading) 5 w;
                   w \<leftarrow> write_bits cap (word_of_nat meaningful_bits) 6 w;
                   w \<leftarrow> write_bits cap (drop_bit trailing xor_result AND m) meaningful_bits w;
                   Some \<lparr>ge_prev_bits = curr_bits, ge_prev_leading = leading,
                         ge_prev_trailing = trailing, ge_writer = w\<rparr>
                 })"

text \<open>The loop ends early, with \<open>Some None\<close>, when fewer than 16 bytes of the output remain.\<close>

fun gorilla_loop :: "nat \<Rightarrow> bool \<Rightarrow> u64 list \<Rightarrow> gorilla_enc \<Rightarrow> gorilla_enc option option" where
  "gorilla_loop cap later [] e = Some (Some e)"
| "gorilla_loop cap later (v # vs) e =
     (case gorilla_write cap later v e of
        None \<Rightarrow> None
      | Some e' \<Rightarrow> if cap \<le> length (bw_out (ge_writer e')) + 16 then Some None
                   else gorilla_loop cap True vs e')"

fun xor_deltas :: "u64 \<Rightarrow> u64 list \<Rightarrow> u64 list" where
  "xor_deltas prev [] = []"
| "xor_deltas prev (v # vs) = (v XOR prev) # xor_deltas v vs"

definition flush_bits :: "nat \<Rightarrow> bit_writer \<Rightarrow> bytes option" where
  "flush_bits cap w =
     (if 0 < bw_bit_pos w
      then if length (bw_out w) < cap then Some (bw_out w @ [bw_current_byte w]) else None
      else Some (bw_out w))"

definition compress_gorilla :: compressor where
  "compress_gorilla input max_output_size =
     (let values = i64_array input
      in if max_output_size < 8 + length values then Some Fail
         else case gorilla_loop max_output_size False values
                     \<lparr>ge_prev_bits = 0, ge_prev_leading = 0, ge_prev_trailing = 0,
                      ge_writer = \<lparr>bw_out = le_bytes 8 (length values), bw_current_byte = 0, bw_bit_pos = 0\<rparr>\<rparr> of
                None \<Rightarrow> None
              | Some None \<Rightarrow> copy_out (array_bytes (xor_deltas 0 values)) max_output_size
              | Some (Some e) \<Rightarrow> map_option Out (flush_bits max_output_size (ge_writer e)))"

section \<open>The decoder\<close>

record gorilla_dec =
  gd_prev_bits :: u64
  gd_prev_leading :: nat
  gd_prev_meaningful :: nat
  gd_reader :: bit_reader

definition gorilla_read :: "bytes \<Rightarrow> gorilla_dec \<Rightarrow> gorilla_dec option" where
  "gorilla_read input d = do {
     (first_bit, r) \<leftarrow> read_bits input 1 0 (gd_reader d);
     if first_bit = 0 then Some (d\<lparr>gd_reader := r\<rparr>)
     else do {
       (second_bit, r) \<leftarrow> read_bits input 1 0 r;
       if second_bit = 0
       then do {
         (significant, r) \<leftarrow> read_bits input (gd_prev_meaningful d) 0 r;
         if gd_prev_leading d + gd_prev_meaningful d \<le> 64
         then let xor_val = push_bit (64 - gd_prev_leading d - gd_prev_meaningful d) significant
              in Some (d\<lparr>gd_prev_bits := gd_prev_bits d XOR xor_val, gd_reader := r\<rparr>)
         else None
       }
       else do {
         (leading, r) \<leftarrow> read_bits input 5 0 r;
         (meaningful, r) \<leftarrow> read_bits input 6 0 r;
         let meaningful = (if meaningful = 0 then 64 else unat meaningful);
         (significant, r) \<leftarrow> read_bits input meaningful 0 r;
         let trailing = 64 - unat leading - meaningful;
         Some \<lparr>gd_prev_bits = gd_prev_bits d XOR push_bit trailing significant,
               gd_prev_leading = unat leading, gd_prev_meaningful = meaningful, gd_reader = r\<rparr>
       }
     }
   }"

fun gorilla_read_loop :: "bytes \<Rightarrow> nat \<Rightarrow> gorilla_dec \<Rightarrow> u64 list option" where
  "gorilla_read_loop input 0 d = Some []"
| "gorilla_read_loop input (Suc n) d =
     (if br_in_idx (gd_reader d) < length input
      then case gorilla_read input d of
             None \<Rightarrow> None
           | Some d' \<Rightarrow> map_option (\<lambda>vs. gd_prev_bits d' # vs) (gorilla_read_loop input n d')
      else Some [])"

fun undo_xor :: "u64 \<Rightarrow> u64 list \<Rightarrow> u64 list" where
  "undo_xor prev [] = []"
| "undo_xor prev (x # xs) = (x XOR prev) # undo_xor (x XOR prev) xs"

definition decompress_gorilla :: decompressor where
  "decompress_gorilla input output =
     (let count = length output div 8;
          values = (if 8 \<le> length input \<and> i64_value (take 8 input) = int count
                    then gorilla_read_loop input count
                           \<lparr>gd_prev_bits = 0, gd_prev_leading = 0, gd_prev_meaningful = 64,
                            gd_reader = \<lparr>br_in_idx = 8, br_bit_pos = 0\<rparr>\<rparr>
                    else Some (undo_xor 0 (i64_array input)))
      in case values of None \<Rightarrow> None
         | Some vs \<Rightarrow> map_option (\<lambda>buf. (length output, buf)) (fill_front (array_bytes vs) output))"

section \<open>The decoder inverts the encoder\<close>

definition reads :: "bytes \<Rightarrow> bit_reader \<Rightarrow> bool list \<Rightarrow> bool" where
  "reads input r bs \<longleftrightarrow> br_bit_pos r < 8 \<and> br_bits input r = bs"

lemma read_word:
  assumes "reads input r (word_bits n v @ rest)" "n \<le> 64"
  obtains r' where "read_bits input n 0 r = Some (v AND mask n, r')" "reads input r' rest"
  using read_bits_refines [of r n input 0] assms
  by (auto simp: reads_def bits_word_word_bits)

definition enc_ok :: "gorilla_enc \<Rightarrow> bool" where
  "enc_ok e \<longleftrightarrow> ge_prev_leading e + ge_prev_trailing e < 64"

definition dec_rel :: "gorilla_enc \<Rightarrow> gorilla_dec \<Rightarrow> bool" where
  "dec_rel e d \<longleftrightarrow> gd_prev_bits d = ge_prev_bits e \<and> gd_prev_leading d = ge_prev_leading e \<and>
     gd_prev_meaningful d = 64 - ge_prev_leading e - ge_prev_trailing e"

text \<open>\<open>decodes e bs e'\<close>: reading the bits \<open>bs\<close> takes a decoder that is in step with the encoder state
  \<open>e\<close> to one that is in step with \<open>e'\<close>.\<close>

definition decodes :: "gorilla_enc \<Rightarrow> bool list \<Rightarrow> gorilla_enc \<Rightarrow> bool" where
  "decodes e bs e' \<longleftrightarrow>
     (\<forall>input d rest. dec_rel e d \<longrightarrow> reads input (gd_reader d) (bs @ rest) \<longrightarrow>
        (\<exists>d'. gorilla_read input d = Some d' \<and> dec_rel e' d' \<and> reads input (gd_reader d') rest))"

lemma tag_bits:
  "word_bits 2 2 = word_bits 1 1 @ word_bits 1 0" "word_bits 2 3 = word_bits 1 1 @ word_bits 1 1"
  by (simp_all add: word_bits_def upt_rec bit_numeral_rec)

lemma window_restores:
  fixes x :: u64
  assumes "x \<noteq> 0" "l \<le> clz64 x" "t \<le> ctz64 x" "l + t < 64"
  shows "push_bit t (drop_bit t x AND mask (64 - l - t)) = x"
proof (rule bit_word_eqI)
  fix i assume "i < LENGTH(64)"
  then have i: "i < 64" by simp
  have "i < 64 - l" "t \<le> i" if "bit x i"
  proof -
    show "i < 64 - l" using that i assms(2) clz64_ge [of l x] by (auto simp: not_le [symmetric])
    show "t \<le> i" using that assms(3) ctz64_ge [of t x] by (auto simp: not_le [symmetric])
  qed
  then show "bit (push_bit t (drop_bit t x AND mask (64 - l - t))) i = bit x i"
    using i assms(4) by (auto simp: bit_push_bit_iff bit_and_iff bit_mask_iff bit_drop_bit_eq)
qed

lemma window_mask_Some: "window_mask n = Some m \<Longrightarrow> m = mask n \<and> n < 64"
  by (auto simp: window_mask_def mask_eq_exp_minus_1 push_bit_eq_mult split: if_splits)

lemma decodes_same:
  "decodes e (word_bits 1 0) (e\<lparr>ge_prev_bits := ge_prev_bits e, ge_writer := w\<rparr>)"
  unfolding decodes_def
proof (intro allI impI)
  fix input d rest
  assume rel: "dec_rel e d" and rd: "reads input (gd_reader d) (word_bits 1 0 @ rest)"
  obtain r where "read_bits input 1 0 (gd_reader d) = Some (0, r)" "reads input r rest"
    using read_word [OF rd] by auto
  then show "\<exists>d'. gorilla_read input d = Some d' \<and>
      dec_rel (e\<lparr>ge_prev_bits := ge_prev_bits e, ge_writer := w\<rparr>) d' \<and> reads input (gd_reader d') rest"
    using rel by (simp add: gorilla_read_def dec_rel_def)
qed

lemma decodes_reuse:
  assumes ok: "enc_ok e" and x: "x = v XOR ge_prev_bits e" "x \<noteq> 0"
    and win: "ge_prev_leading e \<le> clz64 x" "ge_prev_trailing e \<le> ctz64 x"
    and pm: "pm = 64 - ge_prev_leading e - ge_prev_trailing e"
  shows "decodes e (word_bits 2 2 @ word_bits pm (drop_bit (ge_prev_trailing e) x AND mask pm))
           (e\<lparr>ge_prev_bits := v, ge_writer := w\<rparr>)"
  unfolding decodes_def
proof (intro allI impI)
  fix input d rest
  let ?s = "drop_bit (ge_prev_trailing e) x AND mask pm"
  assume rel: "dec_rel e d" and "reads input (gd_reader d) ((word_bits 2 2 @ word_bits pm ?s) @ rest)"
  then have rd: "reads input (gd_reader d) (word_bits 1 1 @ word_bits 1 0 @ word_bits pm ?s @ rest)"
    by (simp add: tag_bits)
  obtain r1 where r1: "read_bits input 1 0 (gd_reader d) = Some (1, r1)"
    "reads input r1 (word_bits 1 0 @ word_bits pm ?s @ rest)"
    using read_word [OF rd] by auto
  obtain r2 where r2: "read_bits input 1 0 r1 = Some (0, r2)" "reads input r2 (word_bits pm ?s @ rest)"
    using read_word [OF r1(2)] by auto
  obtain r3 where r3: "read_bits input pm 0 r2 = Some (?s, r3)" "reads input r3 rest"
    using read_word [OF r2(2)] pm by (auto simp: and.assoc)
  have sh: "64 - ge_prev_leading e - pm = ge_prev_trailing e" "ge_prev_leading e + pm \<le> 64"
    using ok pm by (auto simp: enc_ok_def)
  have "push_bit (ge_prev_trailing e) ?s = x"
    unfolding pm using window_restores [OF x(2) win] ok by (simp add: enc_ok_def)
  moreover have "ge_prev_bits e XOR x = v" unfolding x by (simp add: xor.left_commute)
  ultimately show "\<exists>d'. gorilla_read input d = Some d' \<and>
      dec_rel (e\<lparr>ge_prev_bits := v, ge_writer := w\<rparr>) d' \<and> reads input (gd_reader d') rest"
    using rel r1(1) r2(1) r3 sh pm by (simp add: gorilla_read_def dec_rel_def Let_def)
qed

lemma unat_small_field: "l < 2 ^ n \<Longrightarrow> n < 64 \<Longrightarrow> unat ((word_of_nat l :: u64) AND mask n) = l"
proof -
  assume l: "l < 2 ^ n" and n: "n < 64"
  have "(2 :: nat) ^ n < 2 ^ 64" using n by (intro power_strict_increasing) auto
  then have "l < 2 ^ 64" using l by linarith
  then show ?thesis
    using l by (simp flip: take_bit_eq_mask add: unsigned_take_bit_eq unat_of_nat take_bit_nat_eq_self)
qed

lemma decodes_new:
  assumes x: "x = v XOR ge_prev_bits e" "x \<noteq> 0"
    and l: "l = clz64 x" "l \<le> 31" and t: "t = ctz64 x" and m: "m = 64 - l - t" "m < 64" "l + t < 64"
  shows "decodes e (word_bits 2 3 @ word_bits 5 (word_of_nat l) @ word_bits 6 (word_of_nat m) @
                      word_bits m (drop_bit t x AND mask m))
           \<lparr>ge_prev_bits = v, ge_prev_leading = l, ge_prev_trailing = t, ge_writer = w\<rparr>"
  unfolding decodes_def
proof (intro allI impI)
  fix input d rest
  let ?s = "drop_bit t x AND mask m"
  let ?body = "word_bits 5 (word_of_nat l) @ word_bits 6 (word_of_nat m) @ word_bits m ?s @ rest"
  assume rel: "dec_rel e d"
    and "reads input (gd_reader d) ((word_bits 2 3 @ word_bits 5 (word_of_nat l) @
           word_bits 6 (word_of_nat m) @ word_bits m ?s) @ rest)"
  then have rd: "reads input (gd_reader d) (word_bits 1 1 @ word_bits 1 1 @ ?body)"
    by (simp add: tag_bits)
  obtain r1 where r1: "read_bits input 1 0 (gd_reader d) = Some (1, r1)"
    "reads input r1 (word_bits 1 1 @ ?body)"
    using read_word [OF rd] by auto
  obtain r2 where r2: "read_bits input 1 0 r1 = Some (1, r2)" "reads input r2 ?body"
    using read_word [OF r1(2)] by auto
  obtain r3 where r3: "read_bits input 5 0 r2 = Some (word_of_nat l AND mask 5, r3)"
    "reads input r3 (word_bits 6 (word_of_nat m) @ word_bits m ?s @ rest)"
    using read_word [OF r2(2)] by auto
  obtain r4 where r4: "read_bits input 6 0 r3 = Some (word_of_nat m AND mask 6, r4)"
    "reads input r4 (word_bits m ?s @ rest)"
    using read_word [OF r3(2)] by auto
  obtain r5 where r5: "read_bits input m 0 r4 = Some (?s, r5)" "reads input r5 rest"
    using read_word [OF r4(2)] m by (auto simp: and.assoc)
  have fields: "unat ((word_of_nat l :: u64) AND mask 5) = l" "unat ((word_of_nat m :: u64) AND mask 6) = m"
    using l m by (intro unat_small_field; simp)+
  have "0 < m" using m by simp
  then have nz: "(word_of_nat m :: u64) AND mask 6 \<noteq> 0" using fields(2) by auto
  have "push_bit t ?s = x"
    unfolding m(1) using window_restores [OF x(2), of l t] l t m by simp
  moreover have "ge_prev_bits e XOR x = v" unfolding x by (simp add: xor.left_commute)
  moreover have "64 - l - m = t" using m by simp
  ultimately show "\<exists>d'. gorilla_read input d = Some d' \<and>
      dec_rel \<lparr>ge_prev_bits = v, ge_prev_leading = l, ge_prev_trailing = t, ge_writer = w\<rparr> d' \<and>
      reads input (gd_reader d') rest"
    using rel r1(1) r2(1) r3(1) r4(1) r5 fields nz m(1)
    by (simp add: gorilla_read_def dec_rel_def Let_def)
qed

lemma clz_ctz_less: "x \<noteq> 0 \<Longrightarrow> clz64 x + ctz64 x < 64"
proof -
  assume "x \<noteq> 0"
  then have top: "clz64 x < 64" "bit x (63 - clz64 x)" using clz64_top by auto
  then have "\<not> 63 - clz64 x < ctz64 x" using ctz64_ge [of "ctz64 x" x] by auto
  then show ?thesis using top by linarith
qed

definition writer_ok :: "nat \<Rightarrow> bytes \<Rightarrow> bit_writer \<Rightarrow> bool" where
  "writer_ok cap h w \<longleftrightarrow> bw_ok w \<and> length (bw_out w) \<le> cap \<and> take (length h) (bw_out w) = h"

lemma write_bits_ok:
  assumes "write_bits cap v n w = Some w'" "writer_ok cap h w" "n \<le> 64"
  shows "writer_ok cap h w'" "bw_bits w' = bw_bits w @ word_bits n v"
proof -
  have "length h \<le> length (bw_out w)"
    using assms(2) unfolding writer_ok_def by (metis length_take min.absorb_iff2 min.commute)
  then show "writer_ok cap h w'" "bw_bits w' = bw_bits w @ word_bits n v"
    using write_bits_refines [OF assms(1)] assms(2,3) by (auto simp: writer_ok_def)
qed

text \<open>The XORs the encoder can represent: at most 31 leading zeros.\<close>

definition short_lead :: "u64 \<Rightarrow> bool" where
  "short_lead x \<longleftrightarrow> x = 0 \<or> count_leading_zeros x \<le> 31"

lemma xor_zero_iff: "(a :: u64) XOR b = 0 \<longleftrightarrow> a = b"
proof
  assume z: "a XOR b = 0"
  have "a = (a XOR b) XOR b" by (simp add: xor.assoc)
  then show "a = b" using z by simp
qed simp

lemma gorilla_write_decodes:
  assumes wr: "gorilla_write cap later v e = Some e'" and ok: "enc_ok e" "writer_ok cap h (ge_writer e)"
    and short: "short_lead (v XOR ge_prev_bits e)"
  shows "\<exists>bs. bs \<noteq> [] \<and> bw_bits (ge_writer e') = bw_bits (ge_writer e) @ bs \<and> decodes e bs e' \<and>
           enc_ok e' \<and> writer_ok cap h (ge_writer e') \<and> ge_prev_bits e' = v"
proof (cases "v XOR ge_prev_bits e = 0")
  case True
  then have v: "v = ge_prev_bits e" by (simp add: xor_zero_iff)
  obtain w where w: "write_bits cap 0 1 (ge_writer e) = Some w"
    "e' = e\<lparr>ge_prev_bits := ge_prev_bits e, ge_writer := w\<rparr>"
    using wr True v by (auto simp: gorilla_write_def)
  have "word_bits 1 0 \<noteq> []" by (simp add: word_bits_def)
  then show ?thesis
    using write_bits_ok [OF w(1) ok(2)] decodes_same [of e w] ok(1) w(2) v
    by (intro exI [of _ "word_bits 1 0"]) (simp add: enc_ok_def)
next
  case False
  define x where "x = v XOR ge_prev_bits e"
  have x: "x \<noteq> 0" "clz64 x \<le> 31" "count_leading_zeros x = clz64 x" "count_trailing_zeros x = ctz64 x"
    using False short by (auto simp: x_def short_lead_def count_leading_zeros_def count_trailing_zeros_def)
  show ?thesis
  proof (cases "later \<and> ge_prev_leading e \<le> clz64 x \<and> ge_prev_trailing e \<le> ctz64 x")
    case True
    define pm where "pm = 64 - ge_prev_leading e - ge_prev_trailing e"
    obtain m w1 w2 where w: "window_mask pm = Some m" "write_bits cap 2 2 (ge_writer e) = Some w1"
      "write_bits cap (drop_bit (ge_prev_trailing e) x AND m) pm w1 = Some w2"
      "e' = e\<lparr>ge_prev_bits := v, ge_writer := w2\<rparr>"
      using wr False True x unfolding gorilla_write_def Let_def x_def [symmetric] pm_def
      by (auto split: option.splits Option.bind_splits if_splits)
    have m: "m = mask pm" "pm \<le> 64" using window_mask_Some [OF w(1)] by auto
    note w1 = write_bits_ok [OF w(2) ok(2), simplified]
    note w2 = write_bits_ok [OF w(3) w1(1) m(2)]
    show ?thesis
      using decodes_reuse [OF ok(1) x_def x(1) _ _ pm_def, of w2] True w1 w2 w(4) ok(1) m
      by (intro exI [of _ "word_bits 2 2 @ word_bits pm (drop_bit (ge_prev_trailing e) x AND mask pm)"])
         (auto simp: enc_ok_def dest: arg_cong [of _ _ length])
  next
    case nre: False
    define m where "m = 64 - clz64 x - ctz64 x"
    obtain k w1 w2 w3 w4 where w: "window_mask m = Some k" "write_bits cap 3 2 (ge_writer e) = Some w1"
      "write_bits cap (word_of_nat (clz64 x)) 5 w1 = Some w2" "write_bits cap (word_of_nat m) 6 w2 = Some w3"
      "write_bits cap (drop_bit (ctz64 x) x AND k) m w3 = Some w4"
      "e' = \<lparr>ge_prev_bits = v, ge_prev_leading = clz64 x, ge_prev_trailing = ctz64 x, ge_writer = w4\<rparr>"
      using wr False nre x unfolding gorilla_write_def Let_def x_def [symmetric] m_def
      by (auto split: option.splits Option.bind_splits if_splits)
    have k: "k = mask m" "m < 64" using window_mask_Some [OF w(1)] by auto
    note w1 = write_bits_ok [OF w(2) ok(2), simplified]
    note w2 = write_bits_ok [OF w(3) w1(1), simplified]
    note w3 = write_bits_ok [OF w(4) w2(1), simplified]
    note w4 = write_bits_ok [OF w(5) w3(1), simplified]
    show ?thesis
      using decodes_new [OF x_def x(1) refl x(2) refl m_def k(2) clz_ctz_less [OF x(1)], of w4]
        w1 w2 w3 w4 k w(6) clz_ctz_less [OF x(1)]
      by (intro exI [of _ "word_bits 2 3 @ word_bits 5 (word_of_nat (clz64 x)) @ word_bits 6 (word_of_nat m) @
                             word_bits m (drop_bit (ctz64 x) x AND mask m)"])
         (auto simp: enc_ok_def dest: arg_cong [of _ _ length])
  qed
qed

lemma reads_in_range: "reads input r bs \<Longrightarrow> bs \<noteq> [] \<Longrightarrow> br_in_idx r < length input"
  by (auto simp: reads_def br_bits_def)

lemma gorilla_loop_decodes:
  assumes "gorilla_loop cap later vs e = Some (Some e')" "enc_ok e" "writer_ok cap h (ge_writer e)"
    "list_all short_lead (xor_deltas (ge_prev_bits e) vs)"
  shows "\<exists>bs. bw_bits (ge_writer e') = bw_bits (ge_writer e) @ bs \<and> writer_ok cap h (ge_writer e') \<and>
           (\<forall>input d rest. dec_rel e d \<longrightarrow> reads input (gd_reader d) (bs @ rest) \<longrightarrow>
              gorilla_read_loop input (length vs) d = Some vs)"
  using assms
proof (induction vs arbitrary: later e)
  case (Cons v vs)
  obtain e1 where e1: "gorilla_write cap later v e = Some e1" "gorilla_loop cap True vs e1 = Some (Some e')"
    using Cons.prems(1) by (auto split: option.splits if_splits)
  obtain b where b: "b \<noteq> []" "bw_bits (ge_writer e1) = bw_bits (ge_writer e) @ b" "decodes e b e1"
    "enc_ok e1" "writer_ok cap h (ge_writer e1)" "ge_prev_bits e1 = v"
    using gorilla_write_decodes [OF e1(1) Cons.prems(2,3)] Cons.prems(4) by auto
  obtain bs where bs: "bw_bits (ge_writer e') = bw_bits (ge_writer e1) @ bs" "writer_ok cap h (ge_writer e')"
    "\<And>input d rest. dec_rel e1 d \<Longrightarrow> reads input (gd_reader d) (bs @ rest) \<Longrightarrow>
        gorilla_read_loop input (length vs) d = Some vs"
    using Cons.IH [OF e1(2) b(4,5)] b(6) Cons.prems(4) by auto
  have "gorilla_read_loop input (length (v # vs)) d = Some (v # vs)"
    if rel: "dec_rel e d" and rd: "reads input (gd_reader d) ((b @ bs) @ rest)" for input d rest
  proof -
    obtain d' where "gorilla_read input d = Some d'" "dec_rel e1 d'" "reads input (gd_reader d') (bs @ rest)"
      using b(3) rel rd unfolding decodes_def append_assoc by blast
    then show ?thesis
      using bs(3) b(6) reads_in_range [OF rd] b(1) by (auto simp: dec_rel_def)
  qed
  then show ?case using b(2) bs(1,2) by (intro exI [of _ "b @ bs"]) auto
qed (auto simp: word_bits_def)

lemma flush_bits_stream:
  assumes "flush_bits cap w = Some c" "writer_ok cap h w"
  shows "\<exists>pad. bits_of_bytes c = bw_bits w @ pad" and "take (length h) c = h"
proof -
  show "\<exists>pad. bits_of_bytes c = bw_bits w @ pad"
    using assms(1) append_take_drop_id [of "bw_bit_pos w" "byte_bits (bw_current_byte w)"]
    by (auto simp: flush_bits_def bw_bits_def split: if_splits
        intro!: exI [of _ "drop (bw_bit_pos w) (byte_bits (bw_current_byte w))"])
  have "length h \<le> length (bw_out w)"
    using assms(2) unfolding writer_ok_def by (metis length_take min.absorb_iff2 min.commute)
  then show "take (length h) c = h"
    using assms by (auto simp: flush_bits_def writer_ok_def split: if_splits)
qed

lemma length_xor_deltas [simp]: "length (xor_deltas prev vs) = length vs"
  by (induction vs arbitrary: prev) auto

lemma compress_gorilla_lossless:
  assumes dvd: "8 dvd length input" and comp: "compress_gorilla input cap = Some (Out c)"
    and small: "length c < length input" and i64: "length input < 9223372036854775808"
    and short: "list_all short_lead (xor_deltas 0 (i64_array input))"
    and buf: "length buf = length input"
  shows "decompress_gorilla c buf = Some (length input, input)"
proof -
  obtain ws where ws: "input = array_bytes ws" "length input = 8 * length ws"
    using dvd by (rule whole_array)
  let ?h = "le_bytes 8 (length ws)"
  let ?e = "\<lparr>ge_prev_bits = 0, ge_prev_leading = 0, ge_prev_trailing = 0,
             ge_writer = \<lparr>bw_out = ?h, bw_current_byte = 0, bw_bit_pos = 0\<rparr>\<rparr>"
  let ?d = "\<lparr>gd_prev_bits = 0, gd_prev_leading = 0, gd_prev_meaningful = 64,
             gd_reader = \<lparr>br_in_idx = 8, br_bit_pos = 0\<rparr>\<rparr>"
  obtain e where loop: "gorilla_loop cap False ws ?e = Some (Some e)" and fl: "flush_bits cap (ge_writer e) = Some c"
    and cap: "8 \<le> cap"
    using comp small ws
    by (auto simp: compress_gorilla_def Let_def copy_out_def split: if_splits option.splits)
  have init: "enc_ok ?e" "writer_ok cap ?h (ge_writer ?e)"
    using cap by (auto simp: enc_ok_def writer_ok_def bw_ok_def)
  obtain bs where bs: "bw_bits (ge_writer e) = bits_of_bytes ?h @ bs" "writer_ok cap ?h (ge_writer e)"
    "\<And>input d rest. dec_rel ?e d \<Longrightarrow> reads input (gd_reader d) (bs @ rest) \<Longrightarrow>
        gorilla_read_loop input (length ws) d = Some ws"
    using gorilla_loop_decodes [OF loop init] short ws by (auto simp: bw_bits_def)
  obtain pad where c: "bits_of_bytes c = bits_of_bytes ?h @ bs @ pad" "take 8 c = ?h"
    using flush_bits_stream [OF fl bs(2)] bs(1) by auto
  have "reads c (gd_reader ?d) (bs @ pad)"
    using c(1) by (simp add: reads_def br_bits_def)
  then have vs: "gorilla_read_loop c (length ws) ?d = Some ws"
    by (intro bs(3)) (auto simp: dec_rel_def)
  have len: "8 \<le> length c" using arg_cong [OF c(2), of length] by simp
  have "i64_value ?h = int (length ws)"
    using i64_value_bytes [of "int (length ws)"] i64 ws by (simp add: i64_bytes_def)
  then show ?thesis
    using vs c(2) len ws buf by (simp add: decompress_gorilla_def Let_def)
qed

section \<open>When the encoder stays defined\<close>

definition room :: "nat \<Rightarrow> bit_writer \<Rightarrow> nat" where
  "room cap w = 8 * cap - (8 * length (bw_out w) + bw_bit_pos w)"

lemma write_bits_room:
  assumes "bw_bit_pos w < 8" "n \<le> room cap w"
  shows "\<exists>w'. write_bits cap v n w = Some w' \<and> bw_bit_pos w' < 8 \<and> room cap w' = room cap w - n"
  using assms
proof (induction cap v n w rule: write_bits.induct)
  case (1 cap v n w)
  show ?case
  proof (cases "n = 0")
    case True
    then show ?thesis using 1(3) by (simp add: write_bits.simps)
  next
    case False
    define k where "k = (if n < 8 - bw_bit_pos w then n else 8 - bw_bit_pos w)"
    define b where "b = bw_current_byte w OR
        ucast (push_bit (8 - bw_bit_pos w - k) (drop_bit (n - k) v AND mask k))"
    have k: "bw_bit_pos w + k \<le> 8" "k \<le> n" "0 < k" using False 1(3) by (auto simp: k_def)
    have len: "length (bw_out w) < cap" using 1(4) False by (auto simp: room_def)
    show ?thesis
    proof (cases "bw_bit_pos w + k = 8")
      case True
      let ?w = "\<lparr>bw_out = bw_out w @ [b], bw_current_byte = 0, bw_bit_pos = 0\<rparr>"
      have "n - k \<le> room cap ?w" "room cap ?w = room cap w - k"
        using 1(4) True len k by (auto simp: room_def)
      moreover have "write_bits cap v n w = write_bits cap v (n - k) ?w"
        using 1(3) False True len
        unfolding write_bits.simps [of cap v n w] Let_def k_def [symmetric] b_def [symmetric] by simp
      ultimately show ?thesis
        using 1(1) [OF False refl k_def refl b_def refl _ _ len] True 1(3) k(2) by simp
    next
      case npos: False
      let ?w = "w\<lparr>bw_current_byte := b, bw_bit_pos := bw_bit_pos w + k\<rparr>"
      have "n - k \<le> room cap ?w" "room cap ?w = room cap w - k" "bw_bit_pos ?w < 8"
        using 1(4) npos len k by (auto simp: room_def)
      moreover have "write_bits cap v n w = write_bits cap v (n - k) ?w"
        using 1(3) False npos
        unfolding write_bits.simps [of cap v n w] Let_def k_def [symmetric] b_def [symmetric] by simp
      ultimately show ?thesis
        using 1(2) [OF False refl k_def refl b_def refl _ npos] 1(3) k(2) by simp
    qed
  qed
qed

text \<open>A XOR whose window is narrower than 64 bits.\<close>

definition narrow :: "u64 \<Rightarrow> bool" where
  "narrow x \<longleftrightarrow> x = 0 \<or> 0 < count_leading_zeros x + count_trailing_zeros x"

definition window_set :: "gorilla_enc \<Rightarrow> bool" where
  "window_set e \<longleftrightarrow> 0 < ge_prev_leading e + ge_prev_trailing e"

lemma gorilla_write_defined:
  assumes w: "bw_bit_pos (ge_writer e) < 8" "76 \<le> room cap (ge_writer e)"
    and x: "narrow (v XOR ge_prev_bits e)" and win: "window_set e \<or> \<not> later \<and> v XOR ge_prev_bits e \<noteq> 0"
  shows "\<exists>e'. gorilla_write cap later v e = Some e' \<and> window_set e' \<and> bw_bit_pos (ge_writer e') < 8 \<and>
           ge_prev_bits e' = v"
proof (cases "v XOR ge_prev_bits e = 0")
  case True
  then show ?thesis
    using write_bits_room [OF w(1), of 1 cap 0] w(2) win by (auto simp: gorilla_write_def window_set_def)
next
  case False
  define x where "x = v XOR ge_prev_bits e"
  have nz: "x \<noteq> 0" "0 < clz64 x + ctz64 x" "count_leading_zeros x = clz64 x" "count_trailing_zeros x = ctz64 x"
    using False x by (auto simp: x_def narrow_def count_leading_zeros_def count_trailing_zeros_def)
  define l where "l = (if 31 < clz64 x then 31 else clz64 x)"
  have lset: "0 < l + ctz64 x" using nz(2) by (auto simp: l_def)
  note wr = write_bits_room [where cap = cap]
  show ?thesis
  proof (cases "later \<and> ge_prev_leading e \<le> l \<and> ge_prev_trailing e \<le> ctz64 x")
    case True
    define pm where "pm = 64 - ge_prev_leading e - ge_prev_trailing e"
    have pm: "pm < 64" "window_set e" using win True by (auto simp: pm_def window_set_def)
    then obtain m where m: "window_mask pm = Some m" by (auto simp: window_mask_def)
    obtain w1 where w1: "write_bits cap 2 2 (ge_writer e) = Some w1" "bw_bit_pos w1 < 8"
      "room cap w1 = room cap (ge_writer e) - 2" using wr [OF w(1), of 2 2] w(2) by auto
    obtain w2 where w2: "write_bits cap (drop_bit (ge_prev_trailing e) x AND m) pm w1 = Some w2"
      "bw_bit_pos w2 < 8" using wr [OF w1(2), of pm] w1(3) w(2) pm(1) by fastforce
    have "gorilla_write cap later v e = Some (e\<lparr>ge_prev_bits := v, ge_writer := w2\<rparr>)"
      using True nz m w1(1) w2(1)
      unfolding gorilla_write_def Let_def x_def [symmetric] pm_def [symmetric] nz(3,4) l_def [symmetric] by simp
    then show ?thesis using w2(2) pm(2) by (simp add: window_set_def)
  next
    case nre: False
    define m where "m = 64 - clz64 x - ctz64 x"
    have m: "m < 64" using nz(2) by (simp add: m_def)
    then obtain k where k: "window_mask m = Some k" by (auto simp: window_mask_def)
    obtain w1 where w1: "write_bits cap 3 2 (ge_writer e) = Some w1" "bw_bit_pos w1 < 8"
      "room cap w1 = room cap (ge_writer e) - 2" using wr [OF w(1), of 2 3] w(2) by auto
    obtain w2 where w2: "write_bits cap (word_of_nat l) 5 w1 = Some w2" "bw_bit_pos w2 < 8"
      "room cap w2 = room cap w1 - 5" using wr [OF w1(2), of 5] w1(3) w(2) by fastforce
    obtain w3 where w3: "write_bits cap (word_of_nat m) 6 w2 = Some w3" "bw_bit_pos w3 < 8"
      "room cap w3 = room cap w2 - 6" using wr [OF w2(2), of 6] w2(3) w1(3) w(2) by fastforce
    obtain w4 where w4: "write_bits cap (drop_bit (ctz64 x) x AND k) m w3 = Some w4" "bw_bit_pos w4 < 8"
      using wr [OF w3(2), of m] w3(3) w2(3) w1(3) w(2) m by fastforce
    have "gorilla_write cap later v e = Some \<lparr>ge_prev_bits = v, ge_prev_leading = l,
        ge_prev_trailing = ctz64 x, ge_writer = w4\<rparr>"
      using nre nz k w1(1) w2(1) w3(1) w4(1)
      unfolding gorilla_write_def Let_def x_def [symmetric] nz(3,4) l_def [symmetric] m_def [symmetric] by auto
    then show ?thesis using w4(2) lset by (simp add: window_set_def)
  qed
qed

lemma gorilla_loop_defined:
  assumes "bw_bit_pos (ge_writer e) < 8" "list_all narrow (xor_deltas (ge_prev_bits e) vs)"
    and "vs = [] \<or> length (bw_out (ge_writer e)) + 16 \<le> cap"
    and "window_set e \<or> \<not> later \<and> (vs = [] \<or> hd vs \<noteq> ge_prev_bits e)"
  shows "\<exists>r. gorilla_loop cap later vs e = Some r \<and>
           (\<forall>e'. r = Some e' \<longrightarrow> bw_bit_pos (ge_writer e') < 8 \<and>
              (vs = [] \<and> e' = e \<or> length (bw_out (ge_writer e')) + 16 < cap))"
  using assms
proof (induction vs arbitrary: later e)
  case (Cons v vs)
  have rm: "76 \<le> room cap (ge_writer e)" using Cons.prems(1,3) by (auto simp: room_def)
  have win: "window_set e \<or> \<not> later \<and> v XOR ge_prev_bits e \<noteq> 0"
    using Cons.prems(4) by (auto simp: xor_zero_iff)
  obtain e1 where e1: "gorilla_write cap later v e = Some e1" "window_set e1"
    "bw_bit_pos (ge_writer e1) < 8" "ge_prev_bits e1 = v"
    using gorilla_write_defined [OF Cons.prems(1) rm _ win] Cons.prems(2) by auto
  show ?case
  proof (cases "cap \<le> length (bw_out (ge_writer e1)) + 16")
    case True
    then show ?thesis using e1 by simp
  next
    case False
    then obtain r where r: "gorilla_loop cap True vs e1 = Some r"
      "\<forall>e'. r = Some e' \<longrightarrow> bw_bit_pos (ge_writer e') < 8 \<and>
         (vs = [] \<and> e' = e1 \<or> length (bw_out (ge_writer e')) + 16 < cap)"
      using Cons.IH [of e1 True] e1 Cons.prems(2) by auto
    then show ?thesis using e1(1) False by auto
  qed
qed auto

text \<open>Three or more doubles, the first of them not zero, and no XOR that spans all 64 bits: the encoder
  returns, with no more bytes than it was given.\<close>

lemma compress_gorilla_returns:
  assumes "3 \<le> length ws" "hd ws \<noteq> 0" "list_all narrow (xor_deltas 0 ws)"
  shows "\<exists>c. compress_gorilla (array_bytes ws) (8 * length ws) = Some (Out c) \<and> length c \<le> 8 * length ws"
proof -
  let ?e = "\<lparr>ge_prev_bits = 0, ge_prev_leading = 0, ge_prev_trailing = 0,
             ge_writer = \<lparr>bw_out = le_bytes 8 (length ws), bw_current_byte = 0, bw_bit_pos = 0\<rparr>\<rparr>"
  obtain r where r: "gorilla_loop (8 * length ws) False ws ?e = Some r"
    "\<forall>e'. r = Some e' \<longrightarrow> ws = [] \<and> e' = ?e \<or> length (bw_out (ge_writer e')) + 16 < 8 * length ws"
    using gorilla_loop_defined [of ?e ws "8 * length ws" False] assms by auto
  show ?thesis
    using r assms(1)
    by (cases r) (auto simp: compress_gorilla_def Let_def flush_bits_def copy_out_def)
qed

text \<open>the portable counts of leading and trailing zeros, a binary search by masking and shifting, agree
  with the compiler builtins that the other branch of the conditional compilation uses, on every 64-bit
  word.\<close>

theorem portable_zero_counts_agree:
  "count_leading_zeros_portable x = count_leading_zeros x \<and>
   count_trailing_zeros_portable x = count_trailing_zeros x"
  by (simp add: clz_portable ctz_portable)

end
