(* ===== verification/Dictionary.thy ===== *)
theory Dictionary
  imports Compression
begin

text \<open>
  The dictionary codec for text columns (\<^verbatim>\<open>compress_dictionary\<close> and \<^verbatim>\<open>decompress_dictionary\<close> of
  \<^verbatim>\<open>storage/compression.c\<close>): the distinct NUL-terminated strings are collected through a hash table
  of 1024 slots with linear probing and every value is stored as an index. The probe loop has no
  bound in the source, so it is a \<^verbatim>\<open>partial_function\<close> whose value \<^const>\<open>None\<close> says that it never
  returns; a compressor that does not return, or that leaves its buffers, is \<^const>\<open>None\<close>.
\<close>

unbundle bit_operations_syntax

abbreviation (input) DICT_MAX_ENTRIES :: nat where "DICT_MAX_ENTRIES \<equiv> 65535"
abbreviation (input) DICT_SMALL_THRESHOLD :: nat where "DICT_SMALL_THRESHOLD \<equiv> 256"
abbreviation (input) DICT_HASH_SIZE :: nat where "DICT_HASH_SIZE \<equiv> 1024"

section \<open>The hash table\<close>

definition dict_hash :: "bytes \<Rightarrow> u32" where
  "dict_hash str = foldl (\<lambda>hash c. (push_bit 5 hash + hash) + ucast c) 5381 str"

text \<open>\<open>c_str bs\<close> is the C string at the front of \<open>bs\<close>; \<^verbatim>\<open>strlen\<close> runs out of the buffer when there is
  no NUL.\<close>

definition c_str :: "bytes \<Rightarrow> bytes option" where
  "c_str bs = (let s = takeWhile (\<lambda>b. b \<noteq> 0) bs in if length s < length bs then Some s else None)"

text \<open>A slot is \<^const>\<open>None\<close> where the source has \<^verbatim>\<open>(uint32)-1\<close>. The probe returns the slot where it
  stopped and the dictionary index it found, if any.\<close>

partial_function (option) dict_probe ::
    "bytes list \<Rightarrow> nat option list \<Rightarrow> bytes \<Rightarrow> nat \<Rightarrow> (nat \<times> nat option) option" where
  [code]: "dict_probe dict hash_table str h =
     (case hash_table ! h of
        None \<Rightarrow> Some (h, None)
      | Some idx \<Rightarrow>
          if dict ! idx = str then Some (h, Some idx)
          else dict_probe dict hash_table str ((h + 1) mod DICT_HASH_SIZE))"

record dict_state =
  ds_dict :: "bytes list"
  ds_hash_table :: "nat option list"
  ds_indices :: "nat list"

text \<open>The value \<open>Some None\<close> is the fallback for too many distinct strings. \<open>slots\<close> is the length of the
  array \<^verbatim>\<open>indices\<close>.\<close>

definition dict_insert :: "nat \<Rightarrow> bytes \<Rightarrow> dict_state \<Rightarrow> dict_state option option" where
  "dict_insert slots str s =
     (case dict_probe (ds_dict s) (ds_hash_table s) str (unat (dict_hash str) mod DICT_HASH_SIZE) of
        None \<Rightarrow> None
      | Some (h, found) \<Rightarrow>
          if found = None \<and> DICT_MAX_ENTRIES \<le> length (ds_dict s) then Some None
          else if length (ds_indices s) < slots
          then Some (Some
                 (case found of
                    Some idx \<Rightarrow> s\<lparr>ds_indices := ds_indices s @ [idx]\<rparr>
                  | None \<Rightarrow> \<lparr>ds_dict = ds_dict s @ [str],
                             ds_hash_table = (ds_hash_table s)[h := Some (length (ds_dict s))],
                             ds_indices = ds_indices s @ [length (ds_dict s)]\<rparr>))
          else None)"

function dict_build :: "nat \<Rightarrow> bytes \<Rightarrow> dict_state \<Rightarrow> dict_state option option" where
  "dict_build slots ptr s =
     (if ptr = [] then Some (Some s)
      else case c_str ptr of
             None \<Rightarrow> None
           | Some str \<Rightarrow>
               (case dict_insert slots str s of
                  None \<Rightarrow> None
                | Some None \<Rightarrow> Some None
                | Some (Some s') \<Rightarrow> dict_build slots (drop (length str + 1) ptr) s'))"
  by pat_completeness auto
termination
  by (relation "measure (\<lambda>(slots, ptr, s). length ptr)") auto

declare dict_build.simps [simp del]

section \<open>The codec\<close>

definition dict_copy :: "bytes \<Rightarrow> nat \<Rightarrow> comp_result option" where
  "dict_copy input max_output_size =
     (if max_output_size < length input then Some Fail else Some (Out input))"

definition dict_bytes :: "bytes list \<Rightarrow> bytes" where
  "dict_bytes ss = concat (map (\<lambda>s. s @ [0]) ss)"

definition index_width :: "nat \<Rightarrow> nat" where
  "index_width dict_size = (if dict_size \<le> DICT_SMALL_THRESHOLD then 1 else 2)"

definition compress_dictionary :: compressor where
  "compress_dictionary input max_output_size =
     (case dict_build (length input div 2 + 1) input
             \<lparr>ds_dict = [], ds_hash_table = replicate DICT_HASH_SIZE None, ds_indices = []\<rparr> of
        None \<Rightarrow> None
      | Some None \<Rightarrow> dict_copy input max_output_size
      | Some (Some s) \<Rightarrow>
          (let dict = ds_dict s;
               width = index_width (length dict);
               estimated_size = 8 + length (dict_bytes dict) + length (ds_indices s) * width
           in if length input \<le> estimated_size \<or> max_output_size < estimated_size
              then dict_copy input max_output_size
              else Some (Out (le_bytes 4 (length dict) @ le_bytes 4 (length (ds_indices s)) @
                              dict_bytes dict @ concat (map (le_bytes width) (ds_indices s))))))"

text \<open>The entries the decoder finds before the end of the input; the pointers of the others stay
  NULL.\<close>

fun read_dict :: "nat \<Rightarrow> bytes \<Rightarrow> (bytes list \<times> bytes) option" where
  "read_dict 0 bs = Some ([], bs)"
| "read_dict (Suc n) bs =
     (if bs = [] then Some ([], [])
      else case c_str bs of
             None \<Rightarrow> None
           | Some s \<Rightarrow>
               map_option (\<lambda>(ss, rest). (s # ss, rest)) (read_dict n (drop (length s + 1) bs)))"

text \<open>\<open>read_values\<close> follows the two loops over the indices: an index of one byte is read for every
  value once there is any input left, one of two bytes only while it lies in the input. An index
  outside the dictionary is skipped and a NULL entry is undefined.\<close>

fun read_values :: "nat \<Rightarrow> nat \<Rightarrow> nat \<Rightarrow> bytes list \<Rightarrow> bytes \<Rightarrow> bytes option" where
  "read_values width dict_size 0 dict bs = Some []"
| "read_values width dict_size (Suc n) dict bs =
     (if length bs < width then (if width = 1 then None else Some [])
      else let idx = le_nat (take width bs)
           in if dict_size \<le> idx then read_values width dict_size n dict (drop width bs)
              else if length dict \<le> idx then None
              else map_option (\<lambda>out. dict ! idx @ [0] @ out)
                     (read_values width dict_size n dict (drop width bs)))"

definition decompress_dictionary :: decompressor where
  "decompress_dictionary input output =
     (let dict_size = le_nat (take 4 input);
          value_count = le_nat (take 4 (drop 4 input));
          width = index_width dict_size
      in if length input < 8 \<or> dict_size = 0 \<or> DICT_MAX_ENTRIES < dict_size \<or> value_count = 0
         then map_option (\<lambda>buf. (length input, buf)) (fill_front input output)
         else case read_dict dict_size (drop 8 input) of
                None \<Rightarrow> None
              | Some (dict, rest) \<Rightarrow>
                  (case (if rest = [] \<or> 2147483648 \<le> value_count then Some []
                         else read_values width dict_size value_count dict rest) of
                     None \<Rightarrow> None
                   | Some out \<Rightarrow>
                       map_option (\<lambda>buf. (if out = [] then length output else length out, buf))
                         (fill_front out output)))"

section \<open>Probing\<close>

definition slot :: "nat option list \<Rightarrow> nat \<Rightarrow> nat \<Rightarrow> nat option" where
  "slot t h e = t ! ((h + e) mod DICT_HASH_SIZE)"

definition probe_stops :: "bytes list \<Rightarrow> nat option list \<Rightarrow> bytes \<Rightarrow> nat \<Rightarrow> nat \<Rightarrow> nat option \<Rightarrow> bool" where
  "probe_stops dict t str h e found \<longleftrightarrow>
     (\<forall>j < e. \<exists>i. slot t h j = Some i \<and> dict ! i \<noteq> str) \<and> slot t h e = found \<and>
     (\<forall>i. found = Some i \<longrightarrow> dict ! i = str)"

lemma slot_Suc: "slot t ((h + 1) mod DICT_HASH_SIZE) j = slot t h (Suc j)"
  by (simp add: slot_def mod_simps)

lemma probe_stops_Suc:
  assumes "slot t h 0 = Some i" "dict ! i \<noteq> str"
  shows "probe_stops dict t str h (Suc e) found =
           probe_stops dict t str ((h + 1) mod DICT_HASH_SIZE) e found"
  unfolding probe_stops_def slot_Suc All_less_Suc2 using assms by auto

lemma dict_probe_Some:
  assumes "dict_probe dict t str h = Some y"
  shows "h < DICT_HASH_SIZE \<longrightarrow>
           (\<exists>e. fst y = (h + e) mod DICT_HASH_SIZE \<and> probe_stops dict t str h e (snd y))"
  using assms
proof (rule dict_probe.raw_induct [rotated])
  fix probe dict t str h y
  assume IH: "\<And>dict t str h y. probe dict t str h = Some y \<Longrightarrow> h < DICT_HASH_SIZE \<longrightarrow>
      (\<exists>e. fst y = (h + e) mod DICT_HASH_SIZE \<and> probe_stops dict t str h e (snd y))"
    and body: "(case t ! h of None \<Rightarrow> Some (h, None)
      | Some idx \<Rightarrow> if dict ! idx = str then Some (h, Some idx)
                   else probe dict t str ((h + 1) mod DICT_HASH_SIZE)) = Some y"
  show "h < DICT_HASH_SIZE \<longrightarrow>
      (\<exists>e. fst y = (h + e) mod DICT_HASH_SIZE \<and> probe_stops dict t str h e (snd y))"
  proof
    assume h: "h < DICT_HASH_SIZE"
    then have s0: "slot t h 0 = t ! h" by (simp add: slot_def)
    show "\<exists>e. fst y = (h + e) mod DICT_HASH_SIZE \<and> probe_stops dict t str h e (snd y)"
    proof (cases "\<exists>i. t ! h = Some i \<and> dict ! i \<noteq> str")
      case True
      then obtain i where i: "t ! h = Some i" "dict ! i \<noteq> str" by auto
      then obtain e where "fst y = ((h + 1) mod DICT_HASH_SIZE + e) mod DICT_HASH_SIZE"
        "probe_stops dict t str ((h + 1) mod DICT_HASH_SIZE) e (snd y)"
        using IH [of dict t str "(h + 1) mod DICT_HASH_SIZE" y] body by auto
      then show ?thesis
        using i s0 by (intro exI [of _ "Suc e"]) (simp add: probe_stops_Suc mod_simps)
    next
      case False
      then show ?thesis
        using body h s0 by (intro exI [of _ 0]) (auto simp: probe_stops_def split: option.splits if_splits)
    qed
  qed
qed

lemma dict_probe_returns:
  "probe_stops dict t str h e found \<Longrightarrow> h < DICT_HASH_SIZE \<Longrightarrow>
   dict_probe dict t str h = Some ((h + e) mod DICT_HASH_SIZE, found)"
proof (induction e arbitrary: h)
  case 0
  then have "t ! h = found" "\<forall>i. found = Some i \<longrightarrow> dict ! i = str"
    by (auto simp: probe_stops_def slot_def)
  then show ?case using 0 by (subst dict_probe.simps) (auto split: option.splits)
next
  case (Suc e)
  then obtain i where i: "slot t h 0 = Some i" "dict ! i \<noteq> str"
    unfolding probe_stops_def All_less_Suc2 by auto
  then have "probe_stops dict t str ((h + 1) mod DICT_HASH_SIZE) e found"
    using Suc.prems(1) by (simp add: probe_stops_Suc)
  from Suc.IH [OF this] i show ?case
    using Suc.prems(2) by (subst dict_probe.simps) (simp add: slot_def mod_simps)
qed

section \<open>The table stays consistent\<close>

definition home :: "bytes \<Rightarrow> nat" where
  "home str = unat (dict_hash str) mod DICT_HASH_SIZE"

text \<open>\<open>dict_inv ss s\<close>: after the strings \<open>ss\<close> the dictionary lists their distinct values, the indices
  reproduce them, every slot points into the dictionary, as many slots are used as there are
  entries, and every entry is found by probing from its home slot.\<close>

definition findable :: "bytes list \<Rightarrow> nat option list \<Rightarrow> bool" where
  "findable dict t \<longleftrightarrow>
     (\<forall>i < length dict. \<exists>e. slot t (home (dict ! i)) e = Some i \<and>
        (\<forall>j < e. slot t (home (dict ! i)) j \<noteq> None))"

definition used_slots :: "nat option list \<Rightarrow> nat set" where
  "used_slots t = {h. h < DICT_HASH_SIZE \<and> t ! h \<noteq> None}"

definition table_ok :: "bytes list \<Rightarrow> nat option list \<Rightarrow> bool" where
  "table_ok dict t \<longleftrightarrow> length t = DICT_HASH_SIZE \<and> distinct dict \<and> card (used_slots t) = length dict \<and>
     (\<forall>h i. h < DICT_HASH_SIZE \<longrightarrow> t ! h = Some i \<longrightarrow> i < length dict) \<and> findable dict t"

lemma home_less: "home str < DICT_HASH_SIZE"
  by (simp add: home_def)

lemma table_ok_empty: "table_ok [] (replicate DICT_HASH_SIZE None)"
  by (auto simp: table_ok_def findable_def used_slots_def)

lemma probe_miss_new:
  assumes ok: "table_ok dict t" and miss: "probe_stops dict t str (home str) e None"
  shows "str \<notin> set dict"
proof
  assume "str \<in> set dict"
  then obtain i where i: "i < length dict" "dict ! i = str" by (auto simp: in_set_conv_nth)
  then obtain d where d: "slot t (home str) d = Some i" "\<forall>j < d. slot t (home str) j \<noteq> None"
    using ok by (auto simp: table_ok_def findable_def)
  have "\<not> e < d" using d miss by (auto simp: probe_stops_def)
  moreover have "\<not> d < e" using d i miss by (auto simp: probe_stops_def)
  ultimately show False using d miss by (cases "d = e") (auto simp: probe_stops_def)
qed

lemma probe_hit:
  assumes ok: "table_ok dict t" and hit: "probe_stops dict t str h e (Some i)"
  shows "i < length dict \<and> dict ! i = str"
proof -
  have "(h + e) mod DICT_HASH_SIZE < DICT_HASH_SIZE" by simp
  then show ?thesis using assms unfolding probe_stops_def table_ok_def slot_def by blast
qed

text \<open>Some slot is always reached within one turn.\<close>

lemma slots_cover: "h < DICT_HASH_SIZE \<Longrightarrow> p < DICT_HASH_SIZE \<Longrightarrow> \<exists>e. (h + e) mod DICT_HASH_SIZE = p"
  by (rule exI [of _ "p + DICT_HASH_SIZE - h"]) simp

lemma first_such:
  fixes P :: "nat \<Rightarrow> bool"
  assumes "P e"
  obtains e' where "P e'" "\<forall>j < e'. \<not> P j"
  using assms LeastI [of P e] not_less_Least by blast

lemma probe_finds_end:
  assumes ok: "table_ok dict t" and room: "str \<in> set dict \<or> length dict < DICT_HASH_SIZE"
  shows "\<exists>e found. probe_stops dict t str (home str) e found"
proof -
  let ?stop = "\<lambda>e. case slot t (home str) e of None \<Rightarrow> True | Some i \<Rightarrow> dict ! i = str"
  have "\<exists>e. ?stop e"
  proof (cases "str \<in> set dict")
    case True
    then obtain i where "i < length dict" "dict ! i = str" by (auto simp: in_set_conv_nth)
    then obtain e where "slot t (home str) e = Some i" "dict ! i = str"
      using ok by (auto simp: table_ok_def findable_def)
    then show ?thesis by (intro exI [of _ e]) simp
  next
    case False
    then have "card (used_slots t) < DICT_HASH_SIZE" using room ok by (simp add: table_ok_def)
    then have "card (used_slots t) \<noteq> card {h. h < DICT_HASH_SIZE}"
      unfolding card_Collect_less_nat by (rule less_imp_neq)
    then have "used_slots t \<noteq> {h. h < DICT_HASH_SIZE}" by (rule contrapos_nn) (rule arg_cong)
    then obtain p where "p < DICT_HASH_SIZE" "t ! p = None" unfolding used_slots_def by blast
    then obtain e where "slot t (home str) e = None"
      using slots_cover [OF home_less] by (metis slot_def)
    then show ?thesis by (metis option.simps(4))
  qed
  then obtain e where e: "?stop e" "\<forall>j < e. \<not> ?stop j"
    using first_such [of ?stop] by metis
  then have "probe_stops dict t str (home str) e (slot t (home str) e)"
    by (auto simp: probe_stops_def split: option.splits)
  then show ?thesis by blast
qed

lemma slot_update:
  assumes "length t = DICT_HASH_SIZE" "t ! p = None" "p < DICT_HASH_SIZE"
  shows "slot (t[p := Some k]) h j = (if (h + j) mod DICT_HASH_SIZE = p then Some k else slot t h j)"
  using assms by (auto simp: slot_def nth_list_update)

lemma table_ok_insert:
  assumes ok: "table_ok dict t" and miss: "probe_stops dict t str (home str) e None"
    and p: "p = (home str + e) mod DICT_HASH_SIZE"
  shows "table_ok (dict @ [str]) (t[p := Some (length dict)])"
proof -
  have t: "length t = DICT_HASH_SIZE" "t ! p = None" "p < DICT_HASH_SIZE"
    using ok miss p by (auto simp: table_ok_def probe_stops_def slot_def)
  have used: "used_slots (t[p := Some (length dict)]) = insert p (used_slots t)"
    using t by (auto simp: used_slots_def nth_list_update)
  have "p \<notin> used_slots t" "finite (used_slots t)" using t by (auto simp: used_slots_def)
  then have card: "card (used_slots (t[p := Some (length dict)])) = length (dict @ [str])"
    using used ok by (simp add: table_ok_def)
  have "findable (dict @ [str]) (t[p := Some (length dict)])"
    unfolding findable_def
  proof (intro allI impI)
    fix i assume i: "i < length (dict @ [str])"
    show "\<exists>e. slot (t[p := Some (length dict)]) (home ((dict @ [str]) ! i)) e = Some i \<and>
        (\<forall>j < e. slot (t[p := Some (length dict)]) (home ((dict @ [str]) ! i)) j \<noteq> None)"
    proof (cases "i < length dict")
      case True
      then obtain d where d: "slot t (home (dict ! i)) d = Some i" "\<forall>j < d. slot t (home (dict ! i)) j \<noteq> None"
        using ok by (auto simp: table_ok_def findable_def)
      then have "(home (dict ! i) + d) mod DICT_HASH_SIZE \<noteq> p" using t by (auto simp: slot_def)
      then show ?thesis using True d t by (intro exI [of _ d]) (auto simp: slot_update nth_append)
    next
      case False
      then have "i = length dict" using i by simp
      then show ?thesis
        using miss p t by (intro exI [of _ e]) (auto simp: slot_update probe_stops_def)
    qed
  qed
  moreover have "i < length (dict @ [str])"
    if "h < DICT_HASH_SIZE" "t[p := Some (length dict)] ! h = Some i" for h i
    using that t ok by (cases "h = p") (auto simp: table_ok_def less_Suc_eq)
  ultimately show ?thesis
    using probe_miss_new [OF ok miss] card ok by (auto simp: table_ok_def)
qed

definition dict_inv :: "bytes list \<Rightarrow> dict_state \<Rightarrow> bool" where
  "dict_inv ss s \<longleftrightarrow> table_ok (ds_dict s) (ds_hash_table s) \<and> set (ds_dict s) = set ss \<and>
     list_all (\<lambda>i. i < length (ds_dict s)) (ds_indices s) \<and> map ((!) (ds_dict s)) (ds_indices s) = ss"

lemma dict_inv_length: "dict_inv ss s \<Longrightarrow> length (ds_indices s) = length ss \<and> length (ds_dict s) = card (set ss)"
  unfolding dict_inv_def table_ok_def by (metis distinct_card length_map)

lemma map_nth_append:
  "list_all (\<lambda>i. i < length xs) is \<Longrightarrow> map ((!) (xs @ ys)) is = map ((!) xs) is"
  by (auto simp: list_all_iff nth_append)

lemma table_ok_bound: "table_ok dict t \<Longrightarrow> length dict \<le> DICT_HASH_SIZE"
proof -
  assume "table_ok dict t"
  moreover have "card (used_slots t) \<le> card {h. h < DICT_HASH_SIZE}"
    by (rule card_mono) (auto simp: used_slots_def)
  ultimately show ?thesis by (simp add: table_ok_def)
qed

lemma dict_insert_step:
  assumes inv: "dict_inv ss s" and slots: "length ss < slots"
    and st: "probe_stops (ds_dict s) (ds_hash_table s) str (home str) e found"
  shows "\<exists>s'. dict_insert slots str s = Some (Some s') \<and> dict_inv (ss @ [str]) s'"
proof -
  note len = dict_inv_length [OF inv]
  have ok: "table_ok (ds_dict s) (ds_hash_table s)" and set: "set (ds_dict s) = set ss"
    using inv by (auto simp: dict_inv_def)
  let ?p = "(home str + e) mod DICT_HASH_SIZE"
  have probe: "dict_probe (ds_dict s) (ds_hash_table s) str (home str) = Some (?p, found)"
    using dict_probe_returns [OF st home_less] .
  show ?thesis
  proof (cases found)
    case (Some i)
    have i: "i < length (ds_dict s)" "ds_dict s ! i = str"
      using probe_hit [OF ok] st Some by blast+
    then have "str \<in> set ss" using set nth_mem by blast
    then show ?thesis
      using probe Some inv i slots len
      by (auto simp: dict_insert_def home_def dict_inv_def insert_absorb)
  next
    case None
    have ins: "dict_insert slots str s = Some (Some
        \<lparr>ds_dict = ds_dict s @ [str], ds_hash_table = (ds_hash_table s)[?p := Some (length (ds_dict s))],
         ds_indices = ds_indices s @ [length (ds_dict s)]\<rparr>)"
      using probe None slots len table_ok_bound [OF ok] unfolding dict_insert_def home_def [symmetric] by simp
    have "list_all (\<lambda>i. i < Suc (length (ds_dict s))) (ds_indices s)"
      using inv by (auto simp: dict_inv_def list_all_iff)
    then show ?thesis
      using inv table_ok_insert [OF ok st [unfolded None] refl] unfolding ins
      by (simp add: dict_inv_def map_nth_append)
  qed
qed

lemma dict_insert_ok:
  assumes inv: "dict_inv ss s" and slots: "length ss < slots"
    and few: "card (insert str (set ss)) \<le> DICT_HASH_SIZE"
  shows "\<exists>s'. dict_insert slots str s = Some (Some s') \<and> dict_inv (ss @ [str]) s'"
proof -
  have ok: "table_ok (ds_dict s) (ds_hash_table s)" and set: "set (ds_dict s) = set ss"
    using inv by (auto simp: dict_inv_def)
  have "str \<in> set (ds_dict s) \<or> length (ds_dict s) < DICT_HASH_SIZE"
    using few dict_inv_length [OF inv] unfolding set by (cases "str \<in> set ss") auto
  then obtain e found where "probe_stops (ds_dict s) (ds_hash_table s) str (home str) e found"
    using probe_finds_end [OF ok] by blast
  then show ?thesis by (rule dict_insert_step [OF inv slots])
qed

lemma dict_insert_Some:
  assumes "dict_insert slots str s = Some r" "dict_inv ss s"
  shows "\<exists>s'. r = Some s' \<and> dict_inv (ss @ [str]) s'"
proof -
  have bound: "length (ds_dict s) \<le> DICT_HASH_SIZE"
    using assms(2) table_ok_bound by (auto simp: dict_inv_def)
  obtain y where y: "dict_probe (ds_dict s) (ds_hash_table s) str (home str) = Some y"
    "length (ds_indices s) < slots"
    using assms(1) bound unfolding dict_insert_def home_def [symmetric]
    by (auto split: option.splits if_splits)
  then obtain e where "probe_stops (ds_dict s) (ds_hash_table s) str (home str) e (snd y)"
    using dict_probe_Some home_less by blast
  with y(2) show ?thesis
    using dict_insert_step [OF assms(2)] dict_inv_length [OF assms(2)] assms(1) by fastforce
qed

section \<open>Building the dictionary\<close>

lemma c_str_prefix [simp]: "0 \<notin> set s \<Longrightarrow> c_str (s @ 0 # rest) = Some s"
proof -
  assume "0 \<notin> set s"
  then have "takeWhile (\<lambda>b. b \<noteq> 0) s = s" by (auto simp: takeWhile_eq_all_conv)
  then show ?thesis by (simp add: c_str_def Let_def takeWhile_append)
qed

lemma dict_bytes_simps [simp]:
  "dict_bytes [] = []" "dict_bytes (s # ss) = s @ 0 # dict_bytes ss"
  by (simp_all add: dict_bytes_def)

abbreviation no_nul :: "bytes list \<Rightarrow> bool" where
  "no_nul ss \<equiv> list_all (\<lambda>s. 0 \<notin> set s) ss"

lemma dict_build_Nil: "dict_build slots [] s = Some (Some s)"
  by (simp add: dict_build.simps)

lemma dict_build_Cons:
  "0 \<notin> set str \<Longrightarrow> dict_build slots (dict_bytes (str # ss)) s =
     (case dict_insert slots str s of
        None \<Rightarrow> None
      | Some None \<Rightarrow> Some None
      | Some (Some s') \<Rightarrow> dict_build slots (dict_bytes ss) s')"
  by (subst dict_build.simps) (simp split: option.splits)

lemma dict_build_ok:
  assumes "dict_inv done s" "no_nul ss" "length done + length ss \<le> slots"
    "card (set done \<union> set ss) \<le> DICT_HASH_SIZE"
  shows "\<exists>s'. dict_build slots (dict_bytes ss) s = Some (Some s') \<and> dict_inv (done @ ss) s'"
  using assms
proof (induction ss arbitrary: "done" s)
  case (Cons str ss)
  have "card (insert str (set done)) \<le> card (set done \<union> set (str # ss))"
    by (rule card_mono) auto
  then have few: "card (insert str (set done)) \<le> DICT_HASH_SIZE"
    using Cons.prems(4) by (rule order_trans)
  have "length done < slots" using Cons.prems(3) by simp
  from dict_insert_ok [OF Cons.prems(1) this few]
  obtain s' where s': "dict_insert slots str s = Some (Some s')" "dict_inv (done @ [str]) s'"
    by blast
  have "set (done @ [str]) \<union> set ss = set done \<union> set (str # ss)" by auto
  then have "\<exists>s''. dict_build slots (dict_bytes ss) s' = Some (Some s'') \<and> dict_inv ((done @ [str]) @ ss) s''"
    using Cons.IH [OF s'(2)] Cons.prems by simp
  moreover have "dict_build slots (dict_bytes (str # ss)) s = dict_build slots (dict_bytes ss) s'"
    using Cons.prems(2) s'(1) by (subst dict_build_Cons) auto
  ultimately show ?case by (simp del: dict_bytes_simps)
qed (simp add: dict_build_Nil)

text \<open>What a returning build has done, without a bound on the number of strings.\<close>

lemma c_str_split: "c_str bs = Some s \<Longrightarrow> bs = s @ 0 # drop (length s + 1) bs \<and> 0 \<notin> set s"
proof -
  assume "c_str bs = Some s"
  then have s: "s = takeWhile (\<lambda>b. b \<noteq> 0) bs" "length s < length bs"
    by (auto simp: c_str_def Let_def split: if_splits)
  have "bs = take (length s) bs @ bs ! length s # drop (length s + 1) bs"
    using s(2) by (simp add: id_take_nth_drop [symmetric])
  moreover have "take (length s) bs = s" using s(1) by (simp add: takeWhile_eq_take [symmetric])
  moreover have "bs ! length s = 0"
    using s nth_length_takeWhile [of "\<lambda>b. b \<noteq> 0" bs] by auto
  moreover have "0 \<notin> set s" using s(1) set_takeWhileD by fastforce
  ultimately show ?thesis by simp
qed

lemma dict_build_Some:
  assumes "dict_build slots ptr s = Some r" "dict_inv done s"
  shows "\<exists>ss s'. ptr = dict_bytes ss \<and> no_nul ss \<and> r = Some s' \<and> dict_inv (done @ ss) s'"
  using assms
proof (induction slots ptr s arbitrary: "done" rule: dict_build.induct)
  case (1 slots ptr s)
  show ?case
  proof (cases "ptr = []")
    case True
    then show ?thesis using 1(2,3) by (intro exI [of _ "[]"]) (auto simp: dict_build_Nil)
  next
    case False
    obtain str where str: "c_str ptr = Some str"
      using 1(2) False by (cases "c_str ptr") (auto simp: dict_build.simps [of slots ptr])
    have "dict_insert slots str s \<noteq> None"
      using 1(2) False str by (cases "dict_insert slots str s") (auto simp: dict_build.simps [of slots ptr])
    then obtain s1 where s1: "dict_insert slots str s = Some (Some s1)" "dict_inv (done @ [str]) s1"
      using dict_insert_Some [OF _ 1(3)] by blast
    have "dict_build slots (drop (length str + 1) ptr) s1 = Some r"
      using 1(2) False str s1(1) by (simp add: dict_build.simps [of slots ptr])
    from 1(1) [OF False str s1(1) refl this s1(2)]
    obtain ss s' where "drop (length str + 1) ptr = dict_bytes ss" "no_nul ss" "r = Some s'"
      "dict_inv (done @ str # ss) s'" by auto
    then show ?thesis
      using c_str_split [OF str] by (intro exI [of _ "str # ss"] exI [of _ s']) auto
  qed
qed

section \<open>The decoder inverts the encoder\<close>

lemma read_dict_bytes: "no_nul dict \<Longrightarrow> read_dict (length dict) (dict_bytes dict @ rest) = Some (dict, rest)"
  by (induction dict) auto

lemma read_values_indices:
  assumes "list_all (\<lambda>i. i < length dict) is" "length dict \<le> 256 ^ width" "0 < width"
  shows "read_values width (length dict) (length is) dict (concat (map (le_bytes width) is)) =
         Some (dict_bytes (map ((!) dict) is))"
  using assms
proof (induction "is")
  case (Cons i "is")
  then have "le_nat (le_bytes width i) = i" by (intro le_nat_le_bytes_id) simp
  then show ?case using Cons by (simp add: Let_def)
qed simp

lemma index_width_fits: "n \<le> DICT_HASH_SIZE \<Longrightarrow> n \<le> 256 ^ index_width n" "0 < index_width n"
  by (auto simp: index_width_def)

lemma dict_inv_init:
  "dict_inv [] \<lparr>ds_dict = [], ds_hash_table = replicate DICT_HASH_SIZE None, ds_indices = []\<rparr>"
  unfolding dict_inv_def using table_ok_empty by simp

lemma compress_dictionary_lossless:
  assumes comp: "compress_dictionary input cap = Some (Out c)" and small: "length c < length input"
    and i32: "length input < 2147483648" and buf: "length buf = length input"
  shows "decompress_dictionary c buf = Some (length input, input)"
proof -
  let ?init = "\<lparr>ds_dict = [], ds_hash_table = replicate DICT_HASH_SIZE None, ds_indices = []\<rparr>"
  obtain r where r: "dict_build (length input div 2 + 1) input ?init = Some r"
    using comp by (auto simp: compress_dictionary_def split: option.splits)
  obtain ss s where ss: "input = dict_bytes ss" "no_nul ss" "r = Some s" "dict_inv ss s"
    using dict_build_Some [OF r dict_inv_init] by auto
  define d where "d = ds_dict s"
  define w where "w = index_width (length d)"
  have c: "c = le_bytes 4 (length d) @ le_bytes 4 (length (ds_indices s)) @ dict_bytes d @
               concat (map (le_bytes w) (ds_indices s))"
    using comp r ss(3) small
    by (auto simp: compress_dictionary_def dict_copy_def Let_def d_def w_def split: if_splits)
  have ok: "table_ok d (ds_hash_table s)" and idx: "list_all (\<lambda>i. i < length d) (ds_indices s)"
    "map ((!) d) (ds_indices s) = ss" and set: "set d = set ss"
    using ss(4) by (auto simp: dict_inv_def d_def)
  have bound: "length d \<le> DICT_HASH_SIZE" using table_ok_bound [OF ok] .
  have "ss \<noteq> []" using ss(1) small by auto
  then have dpos: "d \<noteq> []" "ds_indices s \<noteq> []" using set idx(2) by auto
  have nn: "no_nul d" using ss(2) set by (auto simp: list_all_iff)
  have cnt: "length (ds_indices s) = length ss" using idx(2) by (metis length_map)
  have "length ss \<le> length (dict_bytes ss)" by (induction ss) auto
  then have vals: "length (ds_indices s) < 2147483648" using cnt i32 ss(1) by simp
  have tail: "concat (map (le_bytes w) (ds_indices s)) \<noteq> []"
    using dpos(2) index_width_fits(2) [of "length d"]
    by (cases "ds_indices s") (auto simp: w_def dest!: arg_cong [of _ _ length])
  have "read_values w (length d) (length (ds_indices s)) d (concat (map (le_bytes w) (ds_indices s))) =
        Some input"
    using read_values_indices [OF idx(1)] index_width_fits [of "length d"] bound idx(2) ss(1)
    unfolding w_def by simp
  moreover have "le_nat (le_bytes 4 (length d)) = length d"
    "le_nat (le_bytes 4 (length (ds_indices s))) = length (ds_indices s)"
    using bound vals by (intro le_nat_le_bytes_id; simp)+
  moreover have "read_dict (length d) (dict_bytes d @ concat (map (le_bytes w) (ds_indices s))) =
      Some (d, concat (map (le_bytes w) (ds_indices s)))"
    using nn by (rule read_dict_bytes)
  ultimately show ?thesis
    using c dpos bound vals tail buf
    by (simp add: decompress_dictionary_def Let_def w_def [symmetric] del: concat_eq_Nil_conv)
qed

section \<open>When the encoder returns\<close>

lemma compress_dictionary_returns:
  assumes "no_nul ss" "length ss \<le> length (dict_bytes ss) div 2 + 1" "card (set ss) \<le> DICT_HASH_SIZE"
  shows "\<exists>r. compress_dictionary (dict_bytes ss) cap = Some r"
proof -
  obtain s where "dict_build (length (dict_bytes ss) div 2 + 1) (dict_bytes ss)
      \<lparr>ds_dict = [], ds_hash_table = replicate DICT_HASH_SIZE None, ds_indices = []\<rparr> = Some (Some s)"
    using dict_build_ok [OF dict_inv_init assms(1)] assms(2,3) by auto
  then show ?thesis by (simp add: compress_dictionary_def dict_copy_def Let_def)
qed

lemma dict_bytes_inj: "no_nul ss \<Longrightarrow> no_nul ts \<Longrightarrow> dict_bytes ss = dict_bytes ts \<Longrightarrow> ss = ts"
proof (induction ss arbitrary: ts)
  case Nil
  then show ?case by (cases ts) auto
next
  case (Cons s ss)
  then obtain t ts' where ts: "ts = t # ts'" by (cases ts) auto
  have "c_str (dict_bytes (s # ss)) = c_str (dict_bytes (t # ts'))" using Cons.prems(3) ts by simp
  then have "s = t" using Cons.prems(1,2) ts by simp
  then show ?case using Cons ts by simp
qed

lemma compress_dictionary_hangs:
  assumes "no_nul ss" "DICT_HASH_SIZE < card (set ss)"
  shows "compress_dictionary (dict_bytes ss) cap = None"
proof (rule ccontr)
  assume "compress_dictionary (dict_bytes ss) cap \<noteq> None"
  then obtain r where "dict_build (length (dict_bytes ss) div 2 + 1) (dict_bytes ss)
      \<lparr>ds_dict = [], ds_hash_table = replicate DICT_HASH_SIZE None, ds_indices = []\<rparr> = Some r"
    by (auto simp: compress_dictionary_def split: option.splits)
  from dict_build_Some [OF this dict_inv_init]
  obtain ss' s where ss': "dict_bytes ss = dict_bytes ss'" "no_nul ss'" "dict_inv ss' s" by auto
  have "ss' = ss" using dict_bytes_inj [OF assms(1) ss'(2,1)] by simp
  moreover have "length (ds_dict s) \<le> DICT_HASH_SIZE"
    using ss'(3) table_ok_bound unfolding dict_inv_def by blast
  ultimately show False using assms(2) dict_inv_length [OF ss'(3)] by simp
qed

text \<open>The array of indices has room for half as many entries as the input has bytes, and one more.\<close>

lemma dict_insert_slots: "dict_insert slots str s = Some (Some s') \<Longrightarrow> length (ds_indices s') \<le> slots"
  by (auto simp: dict_insert_def split: option.splits if_splits)

lemma dict_build_slots:
  "dict_build slots ptr s = Some (Some s') \<Longrightarrow> length (ds_indices s) \<le> slots \<Longrightarrow> length (ds_indices s') \<le> slots"
proof (induction slots ptr s rule: dict_build.induct)
  case (1 slots ptr s)
  show ?case
  proof (cases "ptr = []")
    case False
    then obtain str s1 where "c_str ptr = Some str" "dict_insert slots str s = Some (Some s1)"
        "dict_build slots (drop (length str + 1) ptr) s1 = Some (Some s')"
      using 1(2) by (auto simp: dict_build.simps [of slots ptr] split: option.splits)
    with 1(1) [OF False] dict_insert_slots show ?thesis by blast
  qed (use 1 in \<open>simp add: dict_build_Nil\<close>)
qed

lemma compress_dictionary_overflows:
  assumes "no_nul ss" "length (dict_bytes ss) div 2 + 1 < length ss"
  shows "compress_dictionary (dict_bytes ss) cap = None"
proof (rule ccontr)
  assume "compress_dictionary (dict_bytes ss) cap \<noteq> None"
  then obtain r where r: "dict_build (length (dict_bytes ss) div 2 + 1) (dict_bytes ss)
      \<lparr>ds_dict = [], ds_hash_table = replicate DICT_HASH_SIZE None, ds_indices = []\<rparr> = Some r"
    by (auto simp: compress_dictionary_def split: option.splits)
  from dict_build_Some [OF this dict_inv_init]
  obtain ss' s where ss': "dict_bytes ss = dict_bytes ss'" "no_nul ss'" "r = Some s" "dict_inv ss' s" by auto
  have "ss' = ss" using dict_bytes_inj [OF assms(1) ss'(2,1)] by simp
  then show False using dict_build_slots [OF r [unfolded ss'(3)]] dict_inv_length [OF ss'(4)] assms(2) by simp
qed

text \<open>C31: on a sequence of NUL-terminated strings (whose index array can be allocated) the dictionary encoder returns exactly
  when the strings have at most 1024 distinct values and are no more than half the bytes of the input plus one. With a 1025th
  distinct string the probe finds neither the string nor an empty slot and goes round the table for ever; with more strings, as
  when most of them are empty, an index is written behind the end of the index array.\<close>

theorem dictionary_returns_iff:
  assumes "no_nul ss" "4 * (length (dict_bytes ss) div 2 + 1) \<le> 1073741823"
  shows "(\<exists>r. compress_dictionary (dict_bytes ss) cap = Some r) \<longleftrightarrow>
    card (set ss) \<le> DICT_HASH_SIZE \<and> length ss \<le> length (dict_bytes ss) div 2 + 1"
  using compress_dictionary_returns [OF assms(1), of cap] compress_dictionary_hangs [OF assms(1), of cap]
    compress_dictionary_overflows [OF assms(1), of cap]
  by (metis not_le option.distinct(1))

theorem dictionary_returns_iff_witness:
  "(\<exists>r. compress_dictionary (dict_bytes [[104, 105], [104, 105], [120]]) 100 = Some r) \<and>
   compress_dictionary (dict_bytes [[], [], [], []]) 100 = None"
  using dictionary_returns_iff [of "[[104, 105], [104, 105], [120]]" 100] dictionary_returns_iff [of "[[], [], [], []]" 100]
  by (simp add: card_insert_if)

end
