(* ===== verification/Columnar.thy ===== *)
theory Columnar
  imports Gorilla Dictionary
begin

text \<open>
  Column chunks (\<^verbatim>\<open>storage/columnar.c\<close> and the chunk rows of \<^verbatim>\<open>core/catalog.c\<close>): the choice of a
  codec by column type, the dispatch to the codecs, how a write buffer becomes a chunk, how the chunk is
  kept in the catalog and how a reader gets the values back, and the min/max statistics with the test
  that skips chunks.

  LZ4, ZSTD and PGLZ are parameters of the model (\<open>codec_libs\<close>); a library that was not compiled in is
  \<^const>\<open>None\<close>. Values of pass-by-value types are 64-bit Datums, all others the bytes they point to. A request for
  more memory than \<^verbatim>\<open>MaxAllocSize\<close> is an error.

  Two things stand between a chunk that was written and one that is read, and both are parameters of the definitions: the
  columns of the catalog table, because the schema the extension installs lacks the column that holds the data, and what the
  buffer \<^verbatim>\<open>orochi_catalog_read_chunk_data\<close> returns holds, because \<^verbatim>\<open>SPI_finish\<close> has freed it. The round trips are about the
  chunk itself: the bytes and the metadata that the writer keeps decode to the values it was given.
\<close>

unbundle bit_operations_syntax

datatype OrochiCompressionType =
  OROCHI_COMPRESS_NONE | OROCHI_COMPRESS_LZ4 | OROCHI_COMPRESS_ZSTD | OROCHI_COMPRESS_PGLZ |
  OROCHI_COMPRESS_DELTA | OROCHI_COMPRESS_GORILLA | OROCHI_COMPRESS_DICTIONARY | OROCHI_COMPRESS_RLE

section \<open>Codec dispatch\<close>

text \<open>The calls of a library: compressing returns \<^const>\<open>None\<close> on failure, decompressing too.\<close>

record codec_libs =
  lz4 :: "((bytes \<Rightarrow> nat \<Rightarrow> bytes option) \<times> (bytes \<Rightarrow> nat \<Rightarrow> bytes option)) option"
  zstd :: "((int \<Rightarrow> bytes \<Rightarrow> nat \<Rightarrow> bytes option) \<times> (bytes \<Rightarrow> nat \<Rightarrow> bytes option)) option"
  pglz_compress :: "bytes \<Rightarrow> bytes option"
  pglz_decompress :: "bytes \<Rightarrow> nat \<Rightarrow> bytes option"

definition compress_lz4 :: "codec_libs \<Rightarrow> bytes \<Rightarrow> nat \<Rightarrow> comp_result outcome" where
  "compress_lz4 lib input max_output_size =
     (case lz4 lib of
        None \<Rightarrow> Some (Inl (ERROR ''LZ4 support not compiled in''))
      | Some (f, _) \<Rightarrow>
          (case f input max_output_size of
             None \<Rightarrow> Some (Inl (ERROR ''LZ4 compression failed''))
           | Some c \<Rightarrow> Some (Inr (Out c))))"

definition decompress_lz4 :: "codec_libs \<Rightarrow> bytes \<Rightarrow> bytes \<Rightarrow> (nat \<times> bytes) outcome" where
  "decompress_lz4 lib input output =
     (case lz4 lib of
        None \<Rightarrow> Some (Inl (ERROR ''LZ4 support not compiled in''))
      | Some (_, f) \<Rightarrow>
          (case f input (length output) of
             None \<Rightarrow> Some (Inl (ERROR ''LZ4 decompression failed''))
           | Some d \<Rightarrow> map_option (\<lambda>buf. Inr (length d, buf)) (fill_front d output)))"

definition compress_zstd :: "codec_libs \<Rightarrow> int \<Rightarrow> bytes \<Rightarrow> nat \<Rightarrow> comp_result outcome" where
  "compress_zstd lib level input max_output_size =
     (case zstd lib of
        None \<Rightarrow> Some (Inl (ERROR ''ZSTD support not compiled in''))
      | Some (f, _) \<Rightarrow>
          (case f level input max_output_size of
             None \<Rightarrow> Some (Inl (ERROR ''ZSTD compression failed''))
           | Some c \<Rightarrow> Some (Inr (Out c))))"

definition decompress_zstd :: "codec_libs \<Rightarrow> bytes \<Rightarrow> bytes \<Rightarrow> (nat \<times> bytes) outcome" where
  "decompress_zstd lib input output =
     (case zstd lib of
        None \<Rightarrow> Some (Inl (ERROR ''ZSTD support not compiled in''))
      | Some (_, f) \<Rightarrow>
          (case f input (length output) of
             None \<Rightarrow> Some (Inl (ERROR ''ZSTD decompression failed''))
           | Some d \<Rightarrow> map_option (\<lambda>buf. Inr (length d, buf)) (fill_front d output)))"

text \<open>\<^verbatim>\<open>pglz_compress\<close> is not told the size of the output buffer.\<close>

definition compress_pglz :: "codec_libs \<Rightarrow> bytes \<Rightarrow> nat \<Rightarrow> comp_result outcome" where
  "compress_pglz lib input max_output_size =
     (case pglz_compress lib input of
        None \<Rightarrow> map_option Inr (copy_out input max_output_size)
      | Some c \<Rightarrow> map_option Inr (copy_out c max_output_size))"

definition decompress_pglz :: "codec_libs \<Rightarrow> bytes \<Rightarrow> bytes \<Rightarrow> (nat \<times> bytes) outcome" where
  "decompress_pglz lib input output =
     (case pglz_decompress lib input (length output) of
        None \<Rightarrow> Some (Inl (ERROR ''PGLZ decompression failed''))
      | Some d \<Rightarrow> map_option (\<lambda>buf. Inr (length d, buf)) (fill_front d output))"

definition columnar_compress_buffer ::
    "codec_libs \<Rightarrow> bytes \<Rightarrow> nat \<Rightarrow> OrochiCompressionType \<Rightarrow> int \<Rightarrow> comp_result outcome" where
  "columnar_compress_buffer lib input max_output_size type level =
     (case type of
        OROCHI_COMPRESS_NONE \<Rightarrow>
          if max_output_size < length input
          then Some (Inl (ERROR ''Output buffer too small for uncompressed data''))
          else Some (Inr (Out input))
      | OROCHI_COMPRESS_LZ4 \<Rightarrow> compress_lz4 lib input max_output_size
      | OROCHI_COMPRESS_ZSTD \<Rightarrow> compress_zstd lib level input max_output_size
      | OROCHI_COMPRESS_PGLZ \<Rightarrow> compress_pglz lib input max_output_size
      | OROCHI_COMPRESS_DELTA \<Rightarrow> map_option Inr (compress_delta input max_output_size)
      | OROCHI_COMPRESS_GORILLA \<Rightarrow> map_option Inr (compress_gorilla input max_output_size)
      | OROCHI_COMPRESS_DICTIONARY \<Rightarrow> map_option Inr (compress_dictionary input max_output_size)
      | OROCHI_COMPRESS_RLE \<Rightarrow> map_option Inr (compress_rle input max_output_size))"

text \<open>A size that differs from the expected one is only a warning.\<close>

definition columnar_decompress_buffer ::
    "codec_libs \<Rightarrow> bytes \<Rightarrow> bytes \<Rightarrow> OrochiCompressionType \<Rightarrow> (nat \<times> bytes) outcome" where
  "columnar_decompress_buffer lib input output type =
     (case type of
        OROCHI_COMPRESS_NONE \<Rightarrow> map_option (\<lambda>buf. Inr (length input, buf)) (fill_front input output)
      | OROCHI_COMPRESS_LZ4 \<Rightarrow> decompress_lz4 lib input output
      | OROCHI_COMPRESS_ZSTD \<Rightarrow> decompress_zstd lib input output
      | OROCHI_COMPRESS_PGLZ \<Rightarrow> decompress_pglz lib input output
      | OROCHI_COMPRESS_DELTA \<Rightarrow> map_option Inr (decompress_delta input output)
      | OROCHI_COMPRESS_GORILLA \<Rightarrow> map_option Inr (decompress_gorilla input output)
      | OROCHI_COMPRESS_DICTIONARY \<Rightarrow> map_option Inr (decompress_dictionary input output)
      | OROCHI_COMPRESS_RLE \<Rightarrow> map_option Inr (decompress_rle input output))"

text \<open>The column types that the choice of a codec distinguishes. \<open>hash\<close> stands for \<^verbatim>\<open>hash_any\<close> and the
  samples are the payloads of the text values.\<close>

datatype column_type =
  INT2 | INT4 | INT8 | TIMESTAMP | TIMESTAMPTZ | DATE | FLOAT4 | FLOAT8 | BOOL | TEXT | VARCHAR | BPCHAR | OTHER

definition columnar_select_compression ::
    "(bytes \<Rightarrow> u32) \<Rightarrow> column_type \<Rightarrow> bytes list \<Rightarrow> OrochiCompressionType" where
  "columnar_select_compression hash type_oid sample_values =
     (case type_oid of
        INT2 \<Rightarrow> OROCHI_COMPRESS_DELTA | INT4 \<Rightarrow> OROCHI_COMPRESS_DELTA | INT8 \<Rightarrow> OROCHI_COMPRESS_DELTA
      | TIMESTAMP \<Rightarrow> OROCHI_COMPRESS_DELTA | TIMESTAMPTZ \<Rightarrow> OROCHI_COMPRESS_DELTA
      | DATE \<Rightarrow> OROCHI_COMPRESS_DELTA
      | FLOAT4 \<Rightarrow> OROCHI_COMPRESS_GORILLA | FLOAT8 \<Rightarrow> OROCHI_COMPRESS_GORILLA
      | BOOL \<Rightarrow> OROCHI_COMPRESS_RLE
      | OTHER \<Rightarrow> OROCHI_COMPRESS_ZSTD
      | _ \<Rightarrow>
          (let unique_count = length (remdups (map hash sample_values));
               sample_count = length sample_values
           in if 0 < sample_count \<and> (10 * unique_count < sample_count \<or> unique_count < 256)
              then OROCHI_COMPRESS_DICTIONARY else OROCHI_COMPRESS_ZSTD))"

section \<open>Write buffers\<close>

datatype Datum = ByVal u64 | ByRef bytes

record attribute =
  attbyval :: bool
  attlen :: nat
  atttypid :: column_type

text \<open>A buffered value is \<^const>\<open>None\<close> where the row has NULL. The buffers start zeroed, so the statistics
  of a column without any value are the Datum 0.\<close>

record ColumnWriteBuffer =
  cw_values :: "Datum option list"
  cw_min_value :: Datum
  cw_max_value :: Datum
  cw_has_nulls :: bool

definition empty_buffer :: ColumnWriteBuffer where
  "empty_buffer = \<lparr>cw_values = [], cw_min_value = ByVal 0, cw_max_value = ByVal 0, cw_has_nulls = False\<rparr>"

text \<open>One column of \<^verbatim>\<open>columnar_write_row\<close>; \<open>cmp\<close> is the comparison function of the column's type, if it
  has one.\<close>

definition buffer_value ::
    "(Datum \<Rightarrow> Datum \<Rightarrow> int) option \<Rightarrow> Datum option \<Rightarrow> ColumnWriteBuffer \<Rightarrow> ColumnWriteBuffer" where
  "buffer_value cmp v buf =
     (let buf' = buf\<lparr>cw_values := cw_values buf @ [v]\<rparr>
      in case v of
           None \<Rightarrow> buf'\<lparr>cw_has_nulls := True\<rparr>
         | Some d \<Rightarrow>
             if cw_values buf = [] then buf'\<lparr>cw_min_value := d, cw_max_value := d\<rparr>
             else (case cmp of
                     None \<Rightarrow> buf'
                   | Some f \<Rightarrow>
                       buf'\<lparr>cw_min_value := (if f d (cw_min_value buf) < 0 then d else cw_min_value buf),
                            cw_max_value := (if f d (cw_max_value buf) > 0 then d else cw_max_value buf)\<rparr>))"

section \<open>Writing a chunk\<close>

abbreviation (input) MaxAllocSize :: nat where "MaxAllocSize \<equiv> 1073741823"

abbreviation (input) alloc_error :: pg_error where "alloc_error \<equiv> ERROR ''invalid memory alloc request size''"

record ColumnarColumnChunk =
  value_count :: nat
  null_count :: nat
  ch_has_nulls :: bool
  compression_type :: OrochiCompressionType
  compressed_size :: int
  decompressed_size :: nat
  value_buffer :: bytes
  null_buffer :: "bytes option"
  has_min_max :: bool
  ch_min_value :: Datum
  ch_max_value :: Datum

definition fixed_bytes :: "nat \<Rightarrow> Datum option \<Rightarrow> bytes" where
  "fixed_bytes len v =
     (case v of Some (ByVal w) \<Rightarrow> take len (word_bytes w) | _ \<Rightarrow> replicate len 0)"

definition var_bytes :: "Datum option \<Rightarrow> bytes" where
  "var_bytes v = (case v of Some (ByRef b) \<Rightarrow> le_bytes 8 (length b) @ b | _ \<Rightarrow> le_bytes 8 0)"

definition serialize_values :: "attribute \<Rightarrow> Datum option list \<Rightarrow> bytes" where
  "serialize_values attr vs =
     (if attbyval attr \<and> 0 < attlen attr then concat (map (fixed_bytes (attlen attr)) vs)
      else concat (map var_bytes vs))"

definition null_byte :: "Datum option list \<Rightarrow> nat \<Rightarrow> u8" where
  "null_byte vs k =
     foldl (\<lambda>b i. if k * 8 + i < length vs \<and> vs ! (k * 8 + i) = None then b OR push_bit i 1 else b) 0 [0 ..< 8]"

definition null_bitmap :: "Datum option list \<Rightarrow> bytes" where
  "null_bitmap vs = map (null_byte vs) [0 ..< (length vs + 7) div 8]"

text \<open>The text types read their samples through the Datums of all buffered rows; the Datum of a NULL row
  was never written.\<close>

definition column_samples :: "attribute \<Rightarrow> Datum option list \<Rightarrow> bytes list option" where
  "column_samples attr vs =
     (if atttypid attr \<in> {TEXT, VARCHAR, BPCHAR}
      then those (map (\<lambda>v. case v of Some (ByRef b) \<Rightarrow> Some b | _ \<Rightarrow> None) vs)
      else Some [])"

text \<open>What is kept of the two buffers. A compressor that returned \<open>-1\<close> is smaller than everything; the
  bytes of its buffer are then undetermined and never read.\<close>

definition keep_smaller ::
    "OrochiCompressionType \<Rightarrow> bytes \<Rightarrow> comp_result \<Rightarrow> OrochiCompressionType \<times> int \<times> bytes" where
  "keep_smaller type raw r =
     (case r of
        Fail \<Rightarrow> (type, - 1, [])
      | Out c \<Rightarrow> if length c < length raw then (type, int (length c), c)
                 else (OROCHI_COMPRESS_NONE, int (length raw), raw))"

text \<open>The buffer of a fixed-width column is one allocation; that of another column is a \<^verbatim>\<open>StringInfo\<close>, which must stay below
  the limit.\<close>

definition buffer_too_large :: "attribute \<Rightarrow> bytes \<Rightarrow> bool" where
  "buffer_too_large attr raw =
     (if attbyval attr \<and> 0 < attlen attr then MaxAllocSize < length raw else MaxAllocSize \<le> length raw)"

definition serialize_column ::
    "codec_libs \<Rightarrow> (bytes \<Rightarrow> u32) \<Rightarrow> int \<Rightarrow> attribute \<Rightarrow> ColumnWriteBuffer \<Rightarrow> ColumnarColumnChunk outcome" where
  "serialize_column lib hash level attr buf =
     (let vs = cw_values buf; raw = serialize_values attr vs
      in case column_samples attr vs of
           None \<Rightarrow> None
         | Some samples \<Rightarrow>
             if buffer_too_large attr raw then Some (Inl alloc_error)
             else
             (let type = columnar_select_compression hash (atttypid attr) samples
              in map_option
                   (\<lambda>r. case r of
                      Inl e \<Rightarrow> Inl e
                    | Inr c \<Rightarrow>
                        (case keep_smaller type raw c of (t, sz, bs) \<Rightarrow>
                           Inr \<lparr>value_count = length vs, null_count = length (filter (\<lambda>v. v = None) vs),
                                ch_has_nulls = cw_has_nulls buf, compression_type = t, compressed_size = sz,
                                decompressed_size = length raw, value_buffer = bs,
                                null_buffer = (if cw_has_nulls buf then Some (null_bitmap vs) else None),
                                has_min_max = (\<not> cw_has_nulls buf \<or>
                                               length (filter (\<lambda>v. v = None) vs) < length vs),
                                ch_min_value = cw_min_value buf, ch_max_value = cw_max_value buf\<rparr>))
                   (columnar_compress_buffer lib raw (length raw) type level)))"

section \<open>The catalog row of a chunk\<close>

text \<open>The row of a chunk, with \<^verbatim>\<open>chunk_data\<close> NULL when there are no bytes. The metadata that \<^verbatim>\<open>flush_stripe\<close> passes derives
  \<^verbatim>\<open>has_nulls\<close> from the count, and neither the null bitmap nor the statistics are part of the row.\<close>

record chunk_row =
  row_value_count :: nat
  row_null_count :: nat
  row_has_nulls :: bool
  row_compressed_size :: int
  row_decompressed_size :: nat
  row_compression :: OrochiCompressionType
  row_data :: "bytes option"

definition chunk_row_of :: "ColumnarColumnChunk \<Rightarrow> chunk_row" where
  "chunk_row_of ch =
     \<lparr>row_value_count = value_count ch, row_null_count = null_count ch, row_has_nulls = (0 < null_count ch),
      row_compressed_size = compressed_size ch, row_decompressed_size = decompressed_size ch,
      row_compression = compression_type ch,
      row_data = (if 0 < compressed_size ch then Some (take (nat (compressed_size ch)) (value_buffer ch)) else None)\<rparr>"

text \<open>The columns of \<^verbatim>\<open>orochi.orochi_column_chunks\<close>: as the extension's script creates the table, as \<^verbatim>\<open>orochi_catalog_init\<close> does
  where the schema does not exist yet, and as the INSERT names them.\<close>

definition installed_chunk_columns :: "string list" where
  "installed_chunk_columns = [''chunk_id'', ''stripe_id'', ''chunk_group_index'', ''column_index'', ''column_type'', ''value_count'',
     ''null_count'', ''has_nulls'', ''compressed_size'', ''decompressed_size'', ''compression'', ''min_value'', ''max_value'',
     ''min_is_null'', ''max_is_null'', ''data_offset'', ''created_at'']"

definition init_chunk_columns :: "string list" where
  "init_chunk_columns = [''chunk_id'', ''stripe_id'', ''chunk_group_index'', ''column_index'', ''column_type'', ''value_count'',
     ''null_count'', ''compressed_size'', ''decompressed_size'', ''compression'', ''min_value'', ''max_value'', ''has_nulls'',
     ''min_is_null'', ''max_is_null'', ''chunk_data'', ''null_bitmap'']"

definition inserted_columns :: "string list" where
  "inserted_columns = [''stripe_id'', ''chunk_group_index'', ''column_index'', ''column_type'', ''value_count'', ''null_count'',
     ''has_nulls'', ''compressed_size'', ''decompressed_size'', ''compression'', ''chunk_data'']"

text \<open>The catalog as chunks meet it: the columns of the table, and what the buffer for \<open>bs\<close> holds at an offset once it was freed.\<close>

record chunk_store =
  cs_columns :: "string list"
  cs_freed :: "bytes \<Rightarrow> nat \<Rightarrow> u8"

definition missing_column :: "string list \<Rightarrow> chunk_store \<Rightarrow> bool" where
  "missing_column names store = list_ex (\<lambda>c. c \<notin> set (cs_columns store)) names"

text \<open>The data are written as hexadecimal digits into a statement of \<open>rest\<close> more characters. The error of a statement that names a
  missing column is raised by \<^verbatim>\<open>SPI_execute\<close> itself.\<close>

definition orochi_catalog_create_column_chunk_with_data ::
    "chunk_store \<Rightarrow> nat \<Rightarrow> ColumnarColumnChunk \<Rightarrow> pg_error + chunk_row" where
  "orochi_catalog_create_column_chunk_with_data store rest ch =
     (if 0 < compressed_size ch \<and> MaxAllocSize \<le> 2 * nat (compressed_size ch) + rest then Inl alloc_error
      else if missing_column inserted_columns store then Inl (ERROR ''column does not exist'')
      else Inr (chunk_row_of ch))"

text \<open>The row is \<^const>\<open>None\<close> when there is none under the key. The copy of the data is allocated in the memory context of SPI, which
  is gone when the pointer is returned.\<close>

definition orochi_catalog_read_chunk_data :: "chunk_store \<Rightarrow> chunk_row option \<Rightarrow> pg_error + bytes option \<times> int" where
  "orochi_catalog_read_chunk_data store row =
     (if missing_column [''chunk_data'', ''compressed_size''] store then Inl (ERROR ''column does not exist'')
      else Inr (case row of
        None \<Rightarrow> (None, 0)
      | Some r \<Rightarrow>
          (map_option (\<lambda>bs. map (cs_freed store bs) [0 ..< length bs]) (row_data r),
           case row_data r of
             Some bs \<Rightarrow> (if bs = [] then row_compressed_size r else int (length bs))
           | None \<Rightarrow> row_compressed_size r)))"

section \<open>Reading a chunk\<close>

text \<open>\<open>fresh\<close> is what the memory that \<^verbatim>\<open>palloc\<close> returns holds.\<close>

definition palloc :: "(nat \<Rightarrow> u8) \<Rightarrow> nat \<Rightarrow> bytes" where
  "palloc fresh n = map fresh [0 ..< n]"

definition decode_fixed :: "nat \<Rightarrow> nat \<Rightarrow> nat \<Rightarrow> bytes \<Rightarrow> Datum option list option" where
  "decode_fixed len count n buf =
     those (map (\<lambda>j. if j * len < n
                     then if j * len + len \<le> length buf
                          then Some (Some (ByVal (word_of_nat (le_nat (take len (drop (j * len) buf))))))
                          else None
                     else Some None) [0 ..< count])"

function decode_var :: "nat \<Rightarrow> bytes \<Rightarrow> Datum option list" where
  "decode_var count bs =
     (if count = 0 then []
      else if length bs < 8 then replicate count None
      else let value_size = le_nat (take 8 bs); rest = drop 8 bs
           in if value_size = 0 then None # decode_var (count - 1) rest
              else if length rest < value_size then replicate count None
              else Some (ByRef (take value_size rest)) # decode_var (count - 1) (drop value_size rest))"
  by pat_completeness auto
termination
  by (relation "measure fst") auto

declare decode_var.simps [simp del]

definition load_decompress ::
    "codec_libs \<Rightarrow> (nat \<Rightarrow> u8) \<Rightarrow> chunk_row \<Rightarrow> bytes \<Rightarrow> (nat \<times> bytes) outcome" where
  "load_decompress lib fresh r c =
     (let n = (if row_decompressed_size r = 0 then length c else row_decompressed_size r);
          buf = palloc fresh n
      in if MaxAllocSize < n then Some (Inl alloc_error)
         else if row_compression r \<noteq> OROCHI_COMPRESS_NONE
         then map_option
                (\<lambda>x. case x of
                   Inl e \<Rightarrow> Inl e
                 | Inr (actual, buf') \<Rightarrow> Inr (if 0 < actual \<and> actual \<noteq> n then actual else n, buf'))
                (columnar_decompress_buffer lib c buf (row_compression r))
         else map_option (\<lambda>buf'. Inr (length c, buf')) (fill_front c buf))"

text \<open>The values in the bytes \<open>c\<close> of a chunk with metadata \<open>r\<close>.\<close>

definition decode_chunk ::
    "codec_libs \<Rightarrow> (nat \<Rightarrow> u8) \<Rightarrow> attribute \<Rightarrow> chunk_row \<Rightarrow> bytes \<Rightarrow> Datum option list outcome" where
  "decode_chunk lib fresh attr r c =
     (case load_decompress lib fresh r c of
        None \<Rightarrow> None
      | Some (Inl e) \<Rightarrow> Some (Inl e)
      | Some (Inr (n, buf)) \<Rightarrow>
          if attbyval attr \<and> 0 < attlen attr
          then map_option Inr (decode_fixed (attlen attr) (row_value_count r) n buf)
          else Some (Inr (decode_var (row_value_count r) (take n buf))))"

definition no_chunk_data :: "chunk_row \<Rightarrow> Datum option list" where
  "no_chunk_data r = replicate (row_value_count r) (if row_has_nulls r then None else Some (ByVal 0))"

definition load_column ::
    "codec_libs \<Rightarrow> (nat \<Rightarrow> u8) \<Rightarrow> chunk_store \<Rightarrow> attribute \<Rightarrow> chunk_row \<Rightarrow> Datum option list outcome" where
  "load_column lib fresh store attr r =
     (if MaxAllocSize < 8 * row_value_count r then Some (Inl alloc_error)
      else case orochi_catalog_read_chunk_data store (Some r) of
        Inl e \<Rightarrow> Some (Inl e)
      | Inr (Some c, sz) \<Rightarrow>
          if 0 < sz then if int (length c) < sz then None else decode_chunk lib fresh attr r c
          else Some (Inr (no_chunk_data r))
      | Inr (None, _) \<Rightarrow> Some (Inr (no_chunk_data r)))"

section \<open>Codecs that give a chunk back\<close>

text \<open>What the writer relies on: on the buffers \<open>ok\<close> accepts, and with an output buffer as large as the
  input, the compressor does not fail, and whatever it made smaller is restored.\<close>

locale chunk_codec =
  fixes type :: OrochiCompressionType
    and compress :: compressor
    and decompress :: decompressor
    and ok :: "bytes \<Rightarrow> bool"
  assumes coded: "type \<noteq> OROCHI_COMPRESS_NONE"
    and compresses: "columnar_compress_buffer lib b n type level = map_option Inr (compress b n)"
    and decompresses: "columnar_decompress_buffer lib c buf type = map_option Inr (decompress c buf)"
    and no_fail: "ok b \<Longrightarrow> compress b (length b) \<noteq> Some Fail"
    and restores: "ok b \<Longrightarrow> compress b (length b) = Some (Out c) \<Longrightarrow> length c < length b \<Longrightarrow>
        length buf = length b \<Longrightarrow> decompress c buf = Some (length b, b)"
    and nonempty: "ok b \<Longrightarrow> compress b (length b) = Some (Out c) \<Longrightarrow> b \<noteq> [] \<Longrightarrow> c \<noteq> []"
begin

lemma kept_bytes_load:
  assumes "ok b" "b \<noteq> []" "compress b (length b) = Some r" "keep_smaller type b r = (t, sz, bs)"
    and "row_compression row = t" "row_decompressed_size row = length b" "length b \<le> MaxAllocSize"
  shows "0 < sz \<and> sz = int (length bs) \<and> load_decompress lib fresh row bs = Some (Inr (length b, b))"
proof -
  obtain c where c: "r = Out c" using assms(1,3) no_fail by (cases r) auto
  show ?thesis
  proof (cases "length c < length b")
    case True
    have "decompress c (palloc fresh (length b)) = Some (length b, b)"
      using restores [OF assms(1)] assms(3) c True by (simp add: palloc_def)
    then show ?thesis
      using True assms c coded nonempty [of b c] decompresses
      by (auto simp: keep_smaller_def load_decompress_def Let_def)
  next
    case False
    then show ?thesis
      using assms c by (auto simp: keep_smaller_def load_decompress_def Let_def palloc_def)
  qed
qed

end

lemma compress_rle_loop_ne: "out \<noteq> [] \<Longrightarrow> compress_rle_loop cap out xs \<noteq> []"
  by (induction cap out xs rule: compress_rle_loop.induct) (auto split: prod.splits)

interpretation rle_chunk: chunk_codec OROCHI_COMPRESS_RLE compress_rle decompress_rle "\<lambda>b. even (length b)"
proof
  fix b c :: bytes
  assume "even (length b)" "compress_rle b (length b) = Some (Out c)" "b \<noteq> []"
  moreover from this obtain x xs where "b = x # xs" "2 \<le> length b"
    by (cases b) (auto elim!: oddE)
  ultimately show "c \<noteq> []"
    by (cases "rle_run x 1 xs") (auto simp: compress_rle_def compress_rle_loop_ne)
qed (simp_all add: columnar_compress_buffer_def columnar_decompress_buffer_def compress_rle_lossless,
     simp add: compress_rle_def)

definition delta_ok :: "bytes \<Rightarrow> bool" where
  "delta_ok b \<longleftrightarrow> 8 dvd length b \<and> b \<noteq> [] \<and> length b < 9223372036854775808"

lemma delta_not_fail: "8 \<le> cap \<Longrightarrow> compress_delta b cap \<noteq> Some Fail"
  by (auto simp: compress_delta_def Let_def copy_out_def split: option.splits)

lemma delta_length: "compress_delta b cap = Some (Out c) \<Longrightarrow> c = b \<or> 8 \<le> length c"
  using compress_delta_loop_stream
  by (fastforce simp: compress_delta_def Let_def copy_out_def split: option.splits if_splits)

lemma dvd_ge: "8 dvd length b \<Longrightarrow> b \<noteq> [] \<Longrightarrow> 8 \<le> length (b :: bytes)"
  by (rule dvd_imp_le) auto

interpretation delta_chunk: chunk_codec OROCHI_COMPRESS_DELTA compress_delta decompress_delta delta_ok
proof
  fix b c buf :: bytes
  show "delta_ok b \<Longrightarrow> compress_delta b (length b) \<noteq> Some Fail"
    by (rule delta_not_fail) (simp add: delta_ok_def dvd_ge)
  show "delta_ok b \<Longrightarrow> compress_delta b (length b) = Some (Out c) \<Longrightarrow> length c < length b \<Longrightarrow>
      length buf = length b \<Longrightarrow> decompress_delta c buf = Some (length b, b)"
    by (rule compress_delta_lossless) (auto simp: delta_ok_def)
  show "delta_ok b \<Longrightarrow> compress_delta b (length b) = Some (Out c) \<Longrightarrow> b \<noteq> [] \<Longrightarrow> c \<noteq> []"
    using delta_length by fastforce
qed (simp_all add: columnar_compress_buffer_def columnar_decompress_buffer_def)

text \<open>Two values at least, none of whose XORs has more than 31 leading zeros.\<close>

definition gorilla_ok :: "bytes \<Rightarrow> bool" where
  "gorilla_ok b \<longleftrightarrow> 8 dvd length b \<and> 16 \<le> length b \<and> length b < 9223372036854775808 \<and>
     list_all short_lead (xor_deltas 0 (i64_array b))"

interpretation gorilla_chunk: chunk_codec OROCHI_COMPRESS_GORILLA compress_gorilla decompress_gorilla gorilla_ok
proof
  fix b c buf :: bytes
  show "gorilla_ok b \<Longrightarrow> compress_gorilla b (length b) \<noteq> Some Fail"
    by (auto simp: gorilla_ok_def compress_gorilla_def Let_def copy_out_def split: option.splits)
  show "gorilla_ok b \<Longrightarrow> compress_gorilla b (length b) = Some (Out c) \<Longrightarrow> length c < length b \<Longrightarrow>
      length buf = length b \<Longrightarrow> decompress_gorilla c buf = Some (length b, b)"
    by (rule compress_gorilla_lossless) (auto simp: gorilla_ok_def)
  show "c \<noteq> []" if ok: "gorilla_ok b" and comp: "compress_gorilla b (length b) = Some (Out c)" and ne: "b \<noteq> []"
  proof
    assume "c = []"
    moreover have "decompress_gorilla [] (map (\<lambda>x. x + 1) b) = Some (length b, map (\<lambda>x. x + 1) b)"
      by (simp add: decompress_gorilla_def fill_front_def)
    ultimately have "map (\<lambda>x. x + 1) b = b"
      using compress_gorilla_lossless [OF _ comp, of "map (\<lambda>x. x + 1) b"] ok ne by (simp add: gorilla_ok_def)
    then show False using ne by (cases b) auto
  qed
qed (simp_all add: columnar_compress_buffer_def columnar_decompress_buffer_def)

definition dictionary_ok :: "bytes \<Rightarrow> bool" where
  "dictionary_ok b \<longleftrightarrow> length b < 2147483648"

interpretation dictionary_chunk:
  chunk_codec OROCHI_COMPRESS_DICTIONARY compress_dictionary decompress_dictionary dictionary_ok
proof
  fix b c buf :: bytes
  show "dictionary_ok b \<Longrightarrow> compress_dictionary b (length b) \<noteq> Some Fail"
    by (auto simp: compress_dictionary_def Let_def dict_copy_def split: option.splits)
  show "dictionary_ok b \<Longrightarrow> compress_dictionary b (length b) = Some (Out c) \<Longrightarrow> length c < length b \<Longrightarrow>
      length buf = length b \<Longrightarrow> decompress_dictionary c buf = Some (length b, b)"
    by (rule compress_dictionary_lossless) (auto simp: dictionary_ok_def)
  show "dictionary_ok b \<Longrightarrow> compress_dictionary b (length b) = Some (Out c) \<Longrightarrow> b \<noteq> [] \<Longrightarrow> c \<noteq> []"
    by (auto simp: compress_dictionary_def Let_def dict_copy_def dest!: arg_cong [of _ _ length]
        split: option.splits if_splits)
qed (simp_all add: columnar_compress_buffer_def columnar_decompress_buffer_def)

section \<open>A column written and read back\<close>

lemma those_map_Some [simp]: "those (map (\<lambda>x. Some (f x)) xs) = Some (map f xs)"
  by (induction xs) auto

lemma length_fixed_bytes [simp]: "len \<le> 8 \<Longrightarrow> length (fixed_bytes len v) = len"
  by (auto simp: fixed_bytes_def split: option.splits Datum.splits)

lemma length_concat_fixed: "len \<le> 8 \<Longrightarrow> length (concat (map (fixed_bytes len) vs)) = length vs * len"
  by (induction vs) auto

lemma nth_chunk:
  assumes "len \<le> 8" "j < length vs"
  shows "take len (drop (j * len) (concat (map (fixed_bytes len) vs))) = fixed_bytes len (vs ! j)"
  using assms(2)
proof (induction vs arbitrary: j)
  case (Cons v vs)
  then show ?case using assms(1) by (cases j) (auto simp: length_fixed_bytes)
qed simp

text \<open>The value a reader sees: the low \<open>len\<close> bytes of the Datum, and 0 for NULL.\<close>

definition stored_value :: "nat \<Rightarrow> Datum option \<Rightarrow> Datum" where
  "stored_value len v = ByVal (word_of_nat (le_nat (fixed_bytes len v)))"

lemma stored_value_8 [simp]: "stored_value 8 (Some (ByVal w)) = ByVal w" "stored_value 8 None = ByVal 0"
proof -
  have "le_nat (replicate 8 0) = 0" by (simp add: numeral_eq_Suc)
  then show "stored_value 8 None = ByVal 0" by (simp add: stored_value_def fixed_bytes_def)
  have "take 8 (word_bytes w) = word_bytes w" by simp
  then show "stored_value 8 (Some (ByVal w)) = ByVal w"
    unfolding stored_value_def fixed_bytes_def by simp
qed

lemma decode_fixed_values:
  assumes "0 < len" "len \<le> 8"
  shows "decode_fixed len (length vs) (length vs * len) (concat (map (fixed_bytes len) vs)) =
         Some (map (\<lambda>v. Some (stored_value len v)) vs)"
proof -
  have "(if j * len < length vs * len
         then if j * len + len \<le> length (concat (map (fixed_bytes len) vs))
              then Some (Some (ByVal (word_of_nat (le_nat (take len (drop (j * len)
                     (concat (map (fixed_bytes len) vs))))))))
              else None
         else Some None) = Some (Some (stored_value len (vs ! j)))" if "j < length vs" for j
  proof -
    have "(j + 1) * len \<le> length vs * len" using that by (intro mult_le_mono1) simp
    then show ?thesis
      using that assms by (simp add: length_concat_fixed nth_chunk stored_value_def)
  qed
  then have "decode_fixed len (length vs) (length vs * len) (concat (map (fixed_bytes len) vs)) =
      those (map (\<lambda>j. Some (Some (stored_value len (vs ! j)))) [0 ..< length vs])"
    unfolding decode_fixed_def by (intro arg_cong [of _ _ those] map_cong) auto
  also have "\<dots> = Some (map (\<lambda>v. Some (stored_value len v)) vs)"
    unfolding those_map_Some by (intro arg_cong [of _ _ Some] nth_equalityI) auto
  finally show ?thesis .
qed

lemma decode_chunk_fixed:
  assumes "attbyval attr" "0 < attlen attr" "attlen attr \<le> 8" "row_value_count r = length vs"
    and "load_decompress lib fresh r c = Some (Inr (length vs * attlen attr, concat (map (fixed_bytes (attlen attr)) vs)))"
  shows "decode_chunk lib fresh attr r c = Some (Inr (map (\<lambda>v. Some (stored_value (attlen attr) v)) vs))"
  using assms decode_fixed_values [OF assms(2,3)] by (simp add: decode_chunk_def)

text \<open>The chunk has data, and the size is that of the data.\<close>

definition stored_whole :: "ColumnarColumnChunk \<Rightarrow> bool" where
  "stored_whole ch = (0 < compressed_size ch \<and> compressed_size ch = int (length (value_buffer ch)))"

lemma row_of_simps [simp]:
  "row_value_count (chunk_row_of ch) = value_count ch" "row_compression (chunk_row_of ch) = compression_type ch"
  "row_decompressed_size (chunk_row_of ch) = decompressed_size ch" "row_has_nulls (chunk_row_of ch) = (0 < null_count ch)"
  "row_compressed_size (chunk_row_of ch) = compressed_size ch"
  "row_data (chunk_row_of ch) = (if 0 < compressed_size ch then Some (take (nat (compressed_size ch)) (value_buffer ch)) else None)"
  by (simp_all add: chunk_row_of_def)

context chunk_codec
begin

lemma column_reads_back:
  assumes attr: "attbyval attr" "0 < attlen attr" "attlen attr \<le> 8" "atttypid attr \<notin> {TEXT, VARCHAR, BPCHAR}"
    and sel: "columnar_select_compression hash (atttypid attr) [] = type"
    and vs: "cw_values buf \<noteq> []" "ok (serialize_values attr (cw_values buf))"
    and comp: "compress (serialize_values attr (cw_values buf)) (length (serialize_values attr (cw_values buf))) = Some r"
    and fits: "length (cw_values buf) * attlen attr \<le> MaxAllocSize"
  shows "\<exists>ch. serialize_column lib hash level attr buf = Some (Inr ch) \<and> stored_whole ch \<and> value_count ch = length (cw_values buf) \<and>
    decode_chunk lib fresh attr (chunk_row_of ch) (value_buffer ch) =
      Some (Inr (map (\<lambda>v. Some (stored_value (attlen attr) v)) (cw_values buf)))"
proof -
  define raw where "raw = serialize_values attr (cw_values buf)"
  obtain t sz bs where keep: "keep_smaller type raw r = (t, sz, bs)" using prod_cases3 by blast
  have raw: "raw = concat (map (fixed_bytes (attlen attr)) (cw_values buf))"
    "length raw = length (cw_values buf) * attlen attr"
    using attr by (simp_all add: raw_def serialize_values_def length_concat_fixed)
  have "0 < length raw" using raw(2) attr(2) vs(1) by simp
  then have ne: "raw \<noteq> []" by blast
  have "0 < sz \<and> sz = int (length bs) \<and> load_decompress lib fresh row bs = Some (Inr (length raw, raw))"
    if "row_compression row = t" "row_decompressed_size row = length raw" for row
    by (rule kept_bytes_load [OF vs(2) [folded raw_def] ne comp [folded raw_def] keep that]) (use fits raw(2) in simp)
  note load = this
  obtain ch where ch: "serialize_column lib hash level attr buf = Some (Inr ch)"
    "value_count ch = length (cw_values buf)" "compression_type ch = t" "compressed_size ch = sz"
    "decompressed_size ch = length raw" "value_buffer ch = bs"
    using attr(4) sel comp keep compresses [of lib raw "length raw" level]
      fits raw(2) attr(1,2)
    by (simp add: serialize_column_def column_samples_def raw_def [symmetric] buffer_too_large_def Let_def)
  have "decode_chunk lib fresh attr (chunk_row_of ch) (value_buffer ch) =
      Some (Inr (map (\<lambda>v. Some (stored_value (attlen attr) v)) (cw_values buf)))"
    using ch load [of "chunk_row_of ch"] raw by (intro decode_chunk_fixed attr(1-3)) auto
  moreover have "0 < sz \<and> sz = int (length bs)"
    using load [of "chunk_row_of ch"] ch(3,5) unfolding row_of_simps by blast
  then have "stored_whole ch" unfolding stored_whole_def ch(4,6) by blast
  ultimately show ?thesis using ch(1,2) by blast
qed

end

lemma delta_column_returns: "\<exists>r. compress_delta b (length b) = Some r"
  by (auto simp: compress_delta_def Let_def copy_out_def split: option.splits)

lemma serialize_8: "attbyval attr \<Longrightarrow> attlen attr = 8 \<Longrightarrow> length (serialize_values attr vs) = 8 * length vs"
  by (simp add: serialize_values_def length_concat_fixed)

definition int_column :: "attribute \<Rightarrow> bool" where
  "int_column attr \<longleftrightarrow> attbyval attr \<and> attlen attr = 8 \<and> atttypid attr \<in> {INT8, TIMESTAMP, TIMESTAMPTZ}"

lemma int_column_reads:
  assumes "int_column attr" "cw_values buf \<noteq> []" "8 * length (cw_values buf) \<le> MaxAllocSize"
  shows "\<exists>ch. serialize_column lib hash level attr buf = Some (Inr ch) \<and> stored_whole ch \<and> value_count ch = length (cw_values buf) \<and>
    decode_chunk lib fresh attr (chunk_row_of ch) (value_buffer ch) =
      Some (Inr (map (\<lambda>v. Some (stored_value 8 v)) (cw_values buf)))"
proof -
  let ?raw = "serialize_values attr (cw_values buf)"
  have len: "length ?raw = 8 * length (cw_values buf)" using assms(1) by (simp add: int_column_def serialize_8)
  then have "delta_ok ?raw" using assms(2,3) by (auto simp: delta_ok_def)
  moreover obtain r where "compress_delta ?raw (length ?raw) = Some r" using delta_column_returns by blast
  ultimately show ?thesis
    using delta_chunk.column_reads_back [of attr hash buf r lib level fresh] assms
    by (auto simp: int_column_def columnar_select_compression_def)
qed

text \<open>C23: a chunk of 64-bit integers or timestamps without NULLs decodes. The writer accepts it, and the bytes and metadata it
  keeps, compressed or raw, are decoded by the reader's loop to the values that were buffered. The values take at most
  \<^verbatim>\<open>MaxAllocSize\<close> bytes. Keeping the chunk in the catalog in between is not part of the statement.\<close>

theorem integer_column_roundtrip:
  assumes "int_column attr" "ws \<noteq> []" "8 * length ws \<le> 1073741823"
    and "cw_values buf = map (\<lambda>w. Some (ByVal w)) ws"
  shows "\<exists>ch. serialize_column lib hash level attr buf = Some (Inr ch) \<and> stored_whole ch \<and>
    decode_chunk lib fresh attr (chunk_row_of ch) (value_buffer ch) = Some (Inr (cw_values buf))"
  using int_column_reads [of attr buf lib hash level fresh] assms by (auto simp: o_def)

text \<open>NULLs of an integer column decode as zeros. The null bitmap is not stored, so a loaded chunk
  has no NULL and the value 0 in its place.\<close>

theorem integer_nulls_read_as_zero:
  assumes "int_column attr" "i < length (cw_values buf)" "cw_values buf ! i = None"
    and "8 * length (cw_values buf) \<le> 1073741823"
  shows "\<exists>ch vs. serialize_column lib hash level attr buf = Some (Inr ch) \<and>
    decode_chunk lib fresh attr (chunk_row_of ch) (value_buffer ch) = Some (Inr vs) \<and> vs ! i = Some (ByVal 0)"
proof -
  have "cw_values buf \<noteq> []" using assms(2) by auto
  from int_column_reads [OF assms(1) this assms(4), of lib hash level fresh]
  show ?thesis using assms(2,3) by auto
qed

definition int8_attr :: attribute where
  "int8_attr = \<lparr>attbyval = True, attlen = 8, atttypid = INT8\<rparr>"

definition no_libs :: codec_libs where
  "no_libs = \<lparr>lz4 = None, zstd = None, pglz_compress = (\<lambda>_. None), pglz_decompress = (\<lambda>_ _. None)\<rparr>"

theorem integer_column_roundtrip_witness:
  "\<exists>ch. serialize_column no_libs (\<lambda>_. 0) 3 int8_attr
      (empty_buffer\<lparr>cw_values := [Some (ByVal 5), Some (ByVal 7), Some (ByVal 9)]\<rparr>) = Some (Inr ch) \<and>
    decode_chunk no_libs (\<lambda>_. 0) int8_attr (chunk_row_of ch) (value_buffer ch) =
      Some (Inr [Some (ByVal 5), Some (ByVal 7), Some (ByVal 9)])"
  using integer_column_roundtrip [of int8_attr "[5, 7, 9]"
      "empty_buffer\<lparr>cw_values := [Some (ByVal 5), Some (ByVal 7), Some (ByVal 9)]\<rparr>" no_libs "\<lambda>_. 0" 3 "\<lambda>_. 0"]
  by (auto simp: int_column_def int8_attr_def)

theorem integer_nulls_read_as_zero_witness:
  "\<exists>ch vs. serialize_column no_libs (\<lambda>_. 0) 3 int8_attr
      (empty_buffer\<lparr>cw_values := [Some (ByVal 5), None], cw_has_nulls := True\<rparr>) = Some (Inr ch) \<and>
    decode_chunk no_libs (\<lambda>_. 0) int8_attr (chunk_row_of ch) (value_buffer ch) = Some (Inr vs) \<and>
    vs ! 1 = Some (ByVal 0)"
  using integer_nulls_read_as_zero [of int8_attr 1
      "empty_buffer\<lparr>cw_values := [Some (ByVal 5), None], cw_has_nulls := True\<rparr>" no_libs "\<lambda>_. 0" 3 "\<lambda>_. 0"]
  by (simp add: int_column_def int8_attr_def)

text \<open>C29: the Gorilla codec restores doubles. At least three doubles, the first of them not zero, whose neighbours differ, if at
  all, in one of the upper 32 bits and not across all 64 bits, are encoded without leaving the output buffer, which is as large
  as the input; the output is no longer than the input, and if it is shorter the decoder restores the doubles from it. (The
  writer keeps the raw bytes otherwise.)\<close>

theorem double_column_roundtrip:
  assumes "3 \<le> length ws" "length ws < 1152921504606846976" "hd ws \<noteq> 0"
    and "list_all (\<lambda>x. short_lead x \<and> narrow x) (xor_deltas 0 ws)" "length buf = 8 * length ws"
  shows "\<exists>c. compress_gorilla (array_bytes ws) (8 * length ws) = Some (Out c) \<and> length c \<le> 8 * length ws \<and>
    (length c < 8 * length ws \<longrightarrow> decompress_gorilla c buf = Some (8 * length ws, array_bytes ws))"
proof -
  have all: "list_all short_lead (xor_deltas 0 ws)" "list_all narrow (xor_deltas 0 ws)"
    using assms(4) by (auto simp: list_all_iff)
  obtain c where c: "compress_gorilla (array_bytes ws) (8 * length ws) = Some (Out c)" "length c \<le> 8 * length ws"
    using compress_gorilla_returns [OF assms(1,3) all(2)] by blast
  have "gorilla_ok (array_bytes ws)" using assms(1,2) all(1) by (simp add: gorilla_ok_def)
  then show ?thesis
    using gorilla_chunk.restores [of "array_bytes ws" c buf] c assms(5) by auto
qed

definition sample_doubles :: "u64 list" where
  "sample_doubles = [0x3FF0000000000000, 0x4000000000000000, 0x4000000000000000, 0x4000000000000000, 0x4000000000000000]"

lemma sample_doubles_encoded:
  "\<exists>e. gorilla_loop 40 False sample_doubles
      \<lparr>ge_prev_bits = 0, ge_prev_leading = 0, ge_prev_trailing = 0,
       ge_writer = \<lparr>bw_out = [5, 0, 0, 0, 0, 0, 0, 0], bw_current_byte = 0, bw_bit_pos = 0\<rparr>\<rparr> = Some (Some e) \<and>
     length (bw_out (ge_writer e)) < 20"
proof -
  have "case gorilla_loop 40 False sample_doubles
      \<lparr>ge_prev_bits = 0, ge_prev_leading = 0, ge_prev_trailing = 0,
       ge_writer = \<lparr>bw_out = [5, 0, 0, 0, 0, 0, 0, 0], bw_current_byte = 0, bw_bit_pos = 0\<rparr>\<rparr> of
      Some (Some e) \<Rightarrow> length (bw_out (ge_writer e)) < 20 | _ \<Rightarrow> False"
    by code_simp
  then show ?thesis by (auto split: option.splits)
qed

lemma sample_doubles_shrink:
  assumes "compress_gorilla (array_bytes sample_doubles) 40 = Some (Out c)"
  shows "length c < 40"
proof -
  have "le_bytes 8 5 = [5, 0, 0, 0, 0, 0, 0, 0]" "length sample_doubles = 5" by code_simp+
  then show ?thesis
    using assms sample_doubles_encoded by (auto simp: compress_gorilla_def flush_bits_def split: if_splits)
qed

theorem double_column_roundtrip_witness:
  "\<exists>c. compress_gorilla (array_bytes sample_doubles) 40 = Some (Out c) \<and> length c < 40 \<and>
     decompress_gorilla c (replicate 40 0) = Some (40, array_bytes sample_doubles)"
proof -
  have "list_all (\<lambda>x. short_lead x \<and> narrow x) (xor_deltas 0 sample_doubles)" by code_simp
  moreover have "length sample_doubles = 5" "hd sample_doubles \<noteq> 0" by (simp_all add: sample_doubles_def)
  ultimately show ?thesis
    using double_column_roundtrip [of sample_doubles "replicate 40 0"] sample_doubles_shrink by auto
qed

lemma fixed_bytes_1: "fixed_bytes (Suc 0) (Some (ByVal w)) = [word_of_nat (unat w)]"
proof -
  have "le_bytes 8 n = word_of_nat n # le_bytes 7 (n div 256)" for n
    using le_bytes.simps(2) [of 7 n] by simp
  then show ?thesis by (simp add: fixed_bytes_def word_bytes_def)
qed

text \<open>a boolean chunk decodes. An even number of booleans is decoded as it was written.\<close>

theorem boolean_column_roundtrip:
  assumes "attbyval attr" "attlen attr = 1" "atttypid attr = BOOL" "length bs \<le> 1073741823"
    and "bs \<noteq> []" "even (length bs)" "cw_values buf = map (\<lambda>b. Some (ByVal (of_bool b))) bs"
  shows "\<exists>ch. serialize_column lib hash level attr buf = Some (Inr ch) \<and> stored_whole ch \<and>
    decode_chunk lib fresh attr (chunk_row_of ch) (value_buffer ch) = Some (Inr (cw_values buf))"
proof -
  have len: "length (serialize_values attr (cw_values buf)) = length bs"
    using assms(1,2,7) length_concat_fixed [of 1 "cw_values buf"] by (simp add: serialize_values_def)
  have "stored_value 1 (Some (ByVal (of_bool b))) = ByVal (of_bool b)" for b
    by (cases b) (simp_all add: stored_value_def fixed_bytes_1)
  then show ?thesis
    using rle_chunk.column_reads_back [of attr hash buf _ lib level fresh] assms len
    by (auto simp: columnar_select_compression_def compress_rle_def o_def)
qed

definition bool_attr :: attribute where
  "bool_attr = \<lparr>attbyval = True, attlen = 1, atttypid = BOOL\<rparr>"

theorem boolean_column_roundtrip_witness:
  "\<exists>ch. serialize_column no_libs (\<lambda>_. 0) 3 bool_attr
      (empty_buffer\<lparr>cw_values := [Some (ByVal 1), Some (ByVal 0)]\<rparr>) = Some (Inr ch) \<and>
    decode_chunk no_libs (\<lambda>_. 0) bool_attr (chunk_row_of ch) (value_buffer ch) = Some (Inr [Some (ByVal 1), Some (ByVal 0)])"
  using boolean_column_roundtrip [of bool_attr "[True, False]"
      "empty_buffer\<lparr>cw_values := [Some (ByVal 1), Some (ByVal 0)]\<rparr>" no_libs "\<lambda>_. 0" 3 "\<lambda>_. 0"]
  by (auto simp: bool_attr_def)

text \<open>an odd number of booleans loses rows. Of the three rows true, false, true the encoder stores one
  pair and runs out of room; two bytes are less than three, so the pair is kept, and the last two rows
  decode as NULL.\<close>

theorem odd_boolean_column_loses_rows:
  "\<exists>ch. serialize_column lib hash level bool_attr
      (empty_buffer\<lparr>cw_values := [Some (ByVal 1), Some (ByVal 0), Some (ByVal 1)]\<rparr>) = Some (Inr ch) \<and>
    decode_chunk lib fresh bool_attr (chunk_row_of ch) (value_buffer ch) = Some (Inr [Some (ByVal 1), None, None])"
proof -
  have raw: "serialize_values bool_attr [Some (ByVal 1), Some (ByVal 0), Some (ByVal 1)] = [1, 0, 1]"
    by (simp add: serialize_values_def bool_attr_def fixed_bytes_1)
  have comp: "compress_rle [1, 0, 1] (length ([1, 0, 1] :: bytes)) = Some (Out [1, 1])"
    by (simp add: compress_rle_def)
  have sel: "columnar_select_compression hash (atttypid bool_attr) [] = OROCHI_COMPRESS_RLE"
    "column_samples bool_attr vs = Some []" for vs
    by (simp_all add: columnar_select_compression_def column_samples_def bool_attr_def)
  have small: "\<not> buffer_too_large bool_attr [1, 0, 1]" by (simp add: buffer_too_large_def)
  obtain ch where ch: "serialize_column lib hash level bool_attr
      (empty_buffer\<lparr>cw_values := [Some (ByVal 1), Some (ByVal 0), Some (ByVal 1)]\<rparr>) = Some (Inr ch)"
    "value_count ch = 3" "compression_type ch = OROCHI_COMPRESS_RLE" "decompressed_size ch = 3" "value_buffer ch = [1, 1]"
    using raw comp sel small by (simp add: serialize_column_def columnar_compress_buffer_def keep_smaller_def Let_def)
  have buf: "palloc fresh 3 = [fresh 0, fresh 1, fresh 2]" by (simp add: palloc_def upt_rec numeral_2_eq_2)
  have "load_decompress lib fresh (chunk_row_of ch) [1, 1] = Some (Inr (1, [1, fresh 1, fresh 2]))"
    using ch buf by (simp add: load_decompress_def Let_def columnar_decompress_buffer_def decompress_rle_def fill_front_def)
  then show ?thesis using ch by (simp add: decode_chunk_def bool_attr_def decode_fixed_def upt_rec)
qed

section \<open>Through the catalog\<close>

text \<open>If the table had the column and the freed buffer still held the data, loading a stored chunk would decode it.\<close>

lemma load_intact:
  assumes "stored_whole ch" "8 * value_count ch \<le> MaxAllocSize"
    and "\<not> missing_column [''chunk_data'', ''compressed_size''] store" "\<And>bs i. i < length bs \<Longrightarrow> cs_freed store bs i = bs ! i"
  shows "load_column lib fresh store attr (chunk_row_of ch) = decode_chunk lib fresh attr (chunk_row_of ch) (value_buffer ch)"
proof -
  have same: "map (cs_freed store bs) [0 ..< length bs] = bs" for bs using assms(4) by (auto intro: nth_equalityI)
  show ?thesis
    using assms(1-3) by (auto simp: load_column_def orochi_catalog_read_chunk_data_def stored_whole_def same)
qed

text \<open>The schema of the extension has no column \<^verbatim>\<open>chunk_data\<close>, and \<^verbatim>\<open>ensure_catalog_initialized\<close> adds nothing to a schema that
  exists: no chunk can be written, and no chunk can be read. A table made by \<^verbatim>\<open>orochi_catalog_init\<close> would take it.\<close>

theorem installed_schema_refuses_chunks:
  "cs_columns store = installed_chunk_columns \<Longrightarrow>
     (\<exists>e. orochi_catalog_create_column_chunk_with_data store rest ch = Inl e) \<and>
     (\<exists>e. load_column lib fresh store attr r = Some (Inl e)) \<and>
     \<not> missing_column inserted_columns (store\<lparr>cs_columns := init_chunk_columns\<rparr>)"
  by (auto simp: orochi_catalog_create_column_chunk_with_data_def load_column_def orochi_catalog_read_chunk_data_def missing_column_def
      installed_chunk_columns_def inserted_columns_def init_chunk_columns_def)

theorem installed_schema_refuses_chunks_witness:
  "\<exists>e. load_column no_libs (\<lambda>_. 0) \<lparr>cs_columns = installed_chunk_columns, cs_freed = (\<lambda>_ _. 0)\<rparr> int8_attr
     (chunk_row_of undefined) = Some (Inl e)"
  using installed_schema_refuses_chunks [of "\<lparr>cs_columns = installed_chunk_columns, cs_freed = (\<lambda>_ _. 0)\<rparr>"] by simp

text \<open>a chunk too small for the header is lost. When the whole column of a chunk has fewer than eight bytes
  of integers, or is a single double, the encoder returns \<open>-1\<close>, which counts as a compressed size smaller
  than the data; nothing is stored and, where chunks can be read at all, every row reads as 0.\<close>

theorem tiny_column_is_lost:
  assumes "attbyval attr" "0 < attlen attr" "attlen attr \<le> 8" "cw_values buf \<noteq> []"
    and "atttypid attr \<in> {INT2, INT4, DATE} \<and> length (cw_values buf) * attlen attr < 8 \<or>
         atttypid attr = FLOAT8 \<and> attlen attr = 8 \<and> length (cw_values buf) = 1"
    and "list_all (\<lambda>v. v \<noteq> None) (cw_values buf)"
    and "\<not> missing_column [''chunk_data'', ''compressed_size''] store"
  shows "\<exists>ch. serialize_column lib hash level attr buf = Some (Inr ch) \<and> compressed_size ch = -1 \<and>
    load_column lib fresh store attr (chunk_row_of ch) = Some (Inr (replicate (length (cw_values buf)) (Some (ByVal 0))))"
proof -
  let ?raw = "serialize_values attr (cw_values buf)"
  have len: "length ?raw = length (cw_values buf) * attlen attr"
    using assms(1-3) by (simp add: serialize_values_def length_concat_fixed)
  have nn: "filter (\<lambda>v. v = None) (cw_values buf) = []"
    using assms(6) by (auto simp: filter_empty_conv list_all_iff)
  have one: "i64_array ?raw \<noteq> []" if "length ?raw = 8"
    using that length_i64_array [of ?raw] by (metis div_self length_0_conv one_neq_zero zero_neq_numeral)
  have "length (cw_values buf) \<le> length (cw_values buf) * attlen attr" using assms(2) by (cases "attlen attr") auto
  moreover have "length (cw_values buf) * attlen attr \<le> 8" using assms(5) by auto
  ultimately have few: "length (cw_values buf) \<le> 8" "length ?raw \<le> 8" using len by linarith+
  have "columnar_compress_buffer lib ?raw (length ?raw) (columnar_select_compression hash (atttypid attr) []) level =
      Some (Inr Fail)"
    using assms(5) len one
    by (auto simp: columnar_select_compression_def columnar_compress_buffer_def
        compress_delta_def compress_gorilla_def Let_def)
  then show ?thesis
    using assms(5,7) nn few
    by (auto simp: serialize_column_def column_samples_def Let_def keep_smaller_def load_column_def no_chunk_data_def
        orochi_catalog_read_chunk_data_def buffer_too_large_def)
qed

theorem tiny_column_is_lost_witness:
  "\<exists>ch. serialize_column no_libs (\<lambda>_. 0) 3 \<lparr>attbyval = True, attlen = 4, atttypid = INT4\<rparr>
      (empty_buffer\<lparr>cw_values := [Some (ByVal 42)]\<rparr>) = Some (Inr ch) \<and> compressed_size ch = -1 \<and>
    load_column no_libs (\<lambda>_. 0) \<lparr>cs_columns = init_chunk_columns, cs_freed = (\<lambda>bs. (!) bs)\<rparr>
      \<lparr>attbyval = True, attlen = 4, atttypid = INT4\<rparr> (chunk_row_of ch) = Some (Inr [Some (ByVal 0)])"
  using tiny_column_is_lost [of "\<lparr>attbyval = True, attlen = 4, atttypid = INT4\<rparr>"
      "empty_buffer\<lparr>cw_values := [Some (ByVal 42)]\<rparr>" "\<lparr>cs_columns = init_chunk_columns, cs_freed = (\<lambda>bs. (!) bs)\<rparr>"
      no_libs "\<lambda>_. 0" 3 "\<lambda>_. 0"]
  by (simp add: missing_column_def init_chunk_columns_def)

section \<open>Statistics and skipping\<close>

datatype skip_op =
  Int4EqualOperator | Int8EqualOperator | Float8EqualOperator | Int4LessOperator | Int8LessOperator |
  Int4GreaterOperator | Int8GreaterOperator | Int84LEOperator | Int84GEOperator | OtherOperator

text \<open>A predicate of the scan: \<open>Column_op_Const\<close> with the column on the left or on the right of the
  operator, its attribute number and the constant, or any other expression.\<close>

datatype predicate =
  Column_op_Const skip_op bool int "int option"
| Other_predicate

record ColumnarSkipListEntry =
  se_stripe_id :: int
  se_chunk_group_index :: int
  se_column_index :: int
  se_min_value :: int
  se_max_value :: int

fun predicate_skips :: "ColumnarSkipListEntry \<Rightarrow> predicate \<Rightarrow> bool" where
  "predicate_skips entry Other_predicate = False"
| "predicate_skips entry (Column_op_Const opno column_left varattno constvalue) =
     (if varattno - 1 \<noteq> se_column_index entry then False
      else case constvalue of
             None \<Rightarrow> True
           | Some c \<Rightarrow>
               if opno \<in> {Int4EqualOperator, Int8EqualOperator, Float8EqualOperator}
               then c < se_min_value entry \<or> se_max_value entry < c
               else if opno \<in> {Int4LessOperator, Int8LessOperator} then c \<le> se_min_value entry
               else if opno \<in> {Int4GreaterOperator, Int8GreaterOperator} then se_max_value entry \<le> c
               else False)"

definition columnar_can_skip_chunk :: "ColumnarSkipListEntry \<Rightarrow> predicate list \<Rightarrow> bool" where
  "columnar_can_skip_chunk entry predicates \<longleftrightarrow> list_ex (predicate_skips entry) predicates"

definition columnar_get_matching_chunks ::
    "ColumnarSkipListEntry list \<Rightarrow> predicate list \<Rightarrow> ColumnarSkipListEntry list" where
  "columnar_get_matching_chunks skip_list predicates =
     filter (\<lambda>entry. \<not> columnar_can_skip_chunk entry predicates) skip_list"

text \<open>The entries that \<^verbatim>\<open>columnar_build_skip_list\<close> makes from the catalog rows of a stripe, given as the
  column indices in the order of the rows: the chunk group is always 0, and
  \<^verbatim>\<open>orochi_catalog_get_stripe_columns\<close> leaves the statistics 0.\<close>

definition columnar_build_skip_list :: "(int \<times> int list) list \<Rightarrow> ColumnarSkipListEntry list" where
  "columnar_build_skip_list stripes =
     concat (map (\<lambda>(stripe, columns).
       map (\<lambda>c. \<lparr>se_stripe_id = stripe, se_chunk_group_index = 0, se_column_index = c,
                 se_min_value = 0, se_max_value = 0\<rparr>) columns) stripes)"

text \<open>The test of \<^verbatim>\<open>executor/vectorized_scan.c\<close> before it loads a chunk group.\<close>

definition vectorized_skips ::
    "ColumnarSkipListEntry list \<Rightarrow> predicate list \<Rightarrow> int \<Rightarrow> int \<Rightarrow> bool" where
  "vectorized_skips skip_list predicates stripe cg \<longleftrightarrow>
     predicates \<noteq> [] \<and>
     list_all (\<lambda>entry. se_stripe_id entry = stripe \<and> se_chunk_group_index entry = cg \<longrightarrow>
                       columnar_can_skip_chunk entry predicates) skip_list"

text \<open>\<open>predicate_holds col v p\<close>: a row whose column \<open>col\<close> is the integer \<open>v\<close> satisfies \<open>p\<close> as far as that column
  is concerned.\<close>

definition op_holds :: "skip_op \<Rightarrow> int \<Rightarrow> int \<Rightarrow> bool" where
  "op_holds opno a b =
     (if opno \<in> {Int4EqualOperator, Int8EqualOperator, Float8EqualOperator} then a = b
      else if opno \<in> {Int4LessOperator, Int8LessOperator} then a < b
      else if opno \<in> {Int4GreaterOperator, Int8GreaterOperator} then b < a
      else True)"

fun predicate_holds :: "int \<Rightarrow> int \<Rightarrow> predicate \<Rightarrow> bool" where
  "predicate_holds col v Other_predicate = True"
| "predicate_holds col v (Column_op_Const opno column_left varattno constvalue) =
     (varattno - 1 = col \<longrightarrow>
        (case constvalue of
           None \<Rightarrow> False
         | Some c \<Rightarrow> if column_left then op_holds opno v c else op_holds opno c v))"

text \<open>The predicates the test is right about: integer comparisons with the column on the left, and
  equalities.\<close>

fun column_on_left :: "predicate \<Rightarrow> bool" where
  "column_on_left (Column_op_Const opno column_left _ _) =
     (opno \<noteq> Float8EqualOperator \<and> (column_left \<or> opno \<in> {Int4EqualOperator, Int8EqualOperator}))"
| "column_on_left Other_predicate = True"

definition datum_int :: "Datum \<Rightarrow> int" where
  "datum_int d = (case d of ByVal w \<Rightarrow> sint w | ByRef _ \<Rightarrow> 0)"

definition int_cmp :: "Datum \<Rightarrow> Datum \<Rightarrow> int" where
  "int_cmp a b = sgn (datum_int a - datum_int b)"

definition buffer_rows :: "Datum option list \<Rightarrow> ColumnWriteBuffer" where
  "buffer_rows vs = foldl (\<lambda>b v. buffer_value (Some int_cmp) v b) empty_buffer vs"

definition covers :: "ColumnWriteBuffer \<Rightarrow> bool" where
  "covers buf \<longleftrightarrow> (\<forall>d. Some d \<in> set (cw_values buf) \<longrightarrow>
     datum_int (cw_min_value buf) \<le> datum_int d \<and> datum_int d \<le> datum_int (cw_max_value buf))"

lemma buffer_value_covers: "covers buf \<Longrightarrow> covers (buffer_value (Some int_cmp) v buf)"
  by (cases v) (force simp: covers_def buffer_value_def Let_def int_cmp_def)+

lemma buffer_rows_values: "cw_values (buffer_rows vs) = vs"
proof -
  have "cw_values (buffer_value cmp v b) = cw_values b @ [v]" for cmp v b
    by (auto simp: buffer_value_def Let_def split: option.splits)
  then have "cw_values (foldl (\<lambda>b v. buffer_value (Some int_cmp) v b) b vs) = cw_values b @ vs" for b
    by (induction vs arbitrary: b) auto
  then show ?thesis by (simp add: buffer_rows_def empty_buffer_def)
qed

lemma buffer_rows_covers: "covers (buffer_rows vs)"
proof -
  have "covers b \<Longrightarrow> covers (foldl (\<lambda>b v. buffer_value (Some int_cmp) v b) b vs)" for b
    by (induction vs arbitrary: b) (auto simp: buffer_value_covers)
  then show ?thesis by (simp add: buffer_rows_def covers_def empty_buffer_def)
qed

lemma predicate_skips_sound:
  assumes "predicate_skips entry p" "column_on_left p" "se_min_value entry \<le> v" "v \<le> se_max_value entry"
  shows "\<not> predicate_holds (se_column_index entry) v p"
proof (cases p)
  case (Column_op_Const opno left attno c)
  then show ?thesis
    using assms by (cases c; cases opno; cases left) (auto simp: op_holds_def split: if_splits)
qed (use assms in simp)

text \<open>skipping with true statistics loses no row. If a chunk is skipped on the minimum and maximum that
  the writer collected for an integer column, NULLs included in any position, and the comparisons have the
  column on the left, then no value of the chunk satisfies all the predicates.\<close>

theorem chunk_skip_is_sound:
  assumes "columnar_can_skip_chunk entry preds" "list_all column_on_left preds"
    and "se_min_value entry = datum_int (cw_min_value (buffer_rows vs))"
    and "se_max_value entry = datum_int (cw_max_value (buffer_rows vs))"
    and "Some d \<in> set vs"
  shows "\<not> list_all (predicate_holds (se_column_index entry) (datum_int d)) preds"
proof -
  obtain p where p: "p \<in> set preds" "predicate_skips entry p" "column_on_left p"
    using assms(1,2) by (auto simp: columnar_can_skip_chunk_def list_ex_iff list_all_iff)
  have "covers (buffer_rows vs)" by (rule buffer_rows_covers)
  then have "\<not> predicate_holds (se_column_index entry) (datum_int d) p"
    using p assms(3-5) by (intro predicate_skips_sound) (auto simp: covers_def buffer_rows_values)
  then show ?thesis using p(1) by (auto simp: list_all_iff)
qed

theorem chunk_skip_is_sound_witness:
  "\<not> list_all (predicate_holds 0 3) [Column_op_Const Int8GreaterOperator True 1 (Some 7)]"
proof -
  have rows: "cw_min_value (buffer_rows [Some (ByVal 3), None, Some (ByVal 7)]) = ByVal 3"
    "cw_max_value (buffer_rows [Some (ByVal 3), None, Some (ByVal 7)]) = ByVal 7"
    by (simp_all add: buffer_rows_def empty_buffer_def buffer_value_def int_cmp_def datum_int_def)
  show ?thesis
    using chunk_skip_is_sound [of "\<lparr>se_stripe_id = 1, se_chunk_group_index = 0, se_column_index = 0,
        se_min_value = 3, se_max_value = 7\<rparr>" "[Column_op_Const Int8GreaterOperator True 1 (Some 7)]"
        "[Some (ByVal 3), None, Some (ByVal 7)]" "ByVal 3"] rows
    by (simp add: columnar_can_skip_chunk_def datum_int_def)
qed

text \<open>every chunk group but the first is skipped. The skip list the reader builds names chunk group 0
  only, so as soon as a scan has a predicate, whatever it is, the test of the vectorized scan skips all later chunk
  groups of every stripe.\<close>

theorem later_chunk_groups_are_skipped:
  assumes "predicates \<noteq> []" "cg \<noteq> 0"
  shows "vectorized_skips (columnar_build_skip_list stripes) predicates stripe cg"
  using assms by (auto simp: vectorized_skips_def columnar_build_skip_list_def list_all_iff)

theorem later_chunk_groups_are_skipped_witness:
  "vectorized_skips (columnar_build_skip_list [(7, [0, 1])]) [Other_predicate] 7 1"
  using later_chunk_groups_are_skipped [of "[Other_predicate]" 1 "[(7, [0, 1])]" 7] by simp

end
