(* ===== verification/Shard_Catalog.thy ===== *)
theory Shard_Catalog
  imports Prelude
begin

text \<open>
  The catalog of distributed tables (\<^verbatim>\<open>core/catalog.c\<close>): the tables \<open>orochi_tables\<close>,
  \<open>orochi_shards\<close> and \<open>orochi_nodes\<close> as the schema in \<^verbatim>\<open>orochi_catalog_init\<close> declares them, and the
  functions that read and write them. A catalog function is one SQL statement sent through SPI; the
  statement is modelled as its effect on the rows, with the constraints of the schema (a violated
  constraint aborts the transaction, so an error carries no new state). The order of the rows of a
  table is the order in which they were inserted; where a query without \<^verbatim>\<open>ORDER BY\<close> takes one row, the
  first match is taken, and the theorems that depend on it show that the match is unique.

  The functions that return a table, a shard, a node or a list of them (\<^verbatim>\<open>orochi_catalog_get_table\<close>,
  \<^verbatim>\<open>orochi_catalog_get_shard\<close> and the others) allocate what they return in the memory context of SPI, which \<^verbatim>\<open>SPI_finish\<close>
  deletes before they return. The model idealises this: a getter gives the row it found, as the callers expect. What the
  callers really read is freed memory, and the lifetimes of allocations are not modelled.

  The invariant \<open>hash_partition\<close> says that every 32-bit hash belongs to exactly one shard of a table.
\<close>

section \<open>Rows and records\<close>

text \<open>Enumerations are kept as the integers the columns hold.\<close>

abbreviation (input) OROCHI_SHARD_HASH :: int where "OROCHI_SHARD_HASH \<equiv> 0"
abbreviation (input) OROCHI_SHARD_REFERENCE :: int where "OROCHI_SHARD_REFERENCE \<equiv> 4"
abbreviation (input) OROCHI_NODE_WORKER :: int where "OROCHI_NODE_WORKER \<equiv> 1"

record OrochiTableInfo =
  relid :: nat
  schema_name :: "string option"
  table_name :: "string option"
  storage_type :: int
  shard_strategy :: int
  shard_count :: int
  distribution_column :: "string option"
  is_distributed :: bool
  is_timeseries :: bool
  time_column :: "string option"
  chunk_interval :: "string option"
  compression :: int
  compression_level :: int

text \<open>A row of \<open>orochi_shards\<close>; \<open>node_id\<close> is the only column that can be NULL.\<close>

record shard_row =
  r_shard_id :: int
  r_table_oid :: nat
  r_shard_index :: int
  r_hash_min :: int
  r_hash_max :: int
  r_node_id :: "int option"
  r_row_count :: int
  r_size_bytes :: int
  r_storage_tier :: int
  r_created_at :: int
  r_last_accessed :: int

record OrochiShardInfo =
  shard_id :: int
  table_oid :: nat
  shard_index :: int
  hash_min :: int
  hash_max :: int
  s_node_id :: int
  s_row_count :: int
  s_size_bytes :: int
  s_storage_tier :: int
  s_created_at :: int
  s_last_accessed :: int

text \<open>The CPU and memory utilisation of a node, two doubles that are only copied, are left out.\<close>

record OrochiNodeInfo =
  n_node_id :: int
  hostname :: string
  n_port :: int
  n_role :: int
  n_is_active :: bool
  n_shard_count :: int
  n_total_size :: int
  n_last_heartbeat :: int

record catalog =
  c_tables :: "nat \<Rightarrow> OrochiTableInfo option"
  c_shards :: "shard_row list"
  c_shard_seq :: int
  c_nodes :: "OrochiNodeInfo list"
  c_node_seq :: int

section \<open>Tables\<close>

definition orochi_catalog_register_table :: "OrochiTableInfo \<Rightarrow> catalog \<Rightarrow> pg_error + catalog" where
  "orochi_catalog_register_table ti c =
     (if schema_name ti = None \<or> table_name ti = None
      then Inl (ERROR ''null value violates not-null constraint'')
      else let row = (case c_tables c (relid ti) of None \<Rightarrow> ti
                      | Some old \<Rightarrow> ti\<lparr>schema_name := schema_name old, table_name := table_name old\<rparr>)
           in Inr (c\<lparr>c_tables := (c_tables c)(relid ti := Some row)\<rparr>))"

text \<open>\<open>chunk_interval\<close> is not among the columns read.\<close>

definition orochi_catalog_get_table :: "catalog \<Rightarrow> nat \<Rightarrow> OrochiTableInfo option" where
  "orochi_catalog_get_table c oid = map_option (\<lambda>ti. ti\<lparr>chunk_interval := None\<rparr>) (c_tables c oid)"

definition orochi_catalog_is_orochi_table :: "catalog \<Rightarrow> nat \<Rightarrow> bool" where
  "orochi_catalog_is_orochi_table c oid \<longleftrightarrow> orochi_catalog_get_table c oid \<noteq> None"

definition orochi_catalog_remove_table :: "nat \<Rightarrow> catalog \<Rightarrow> catalog" where
  "orochi_catalog_remove_table oid c =
     c\<lparr>c_tables := (c_tables c)(oid := None),
       c_shards := (if c_tables c oid = None then c_shards c
                    else filter (\<lambda>r. r_table_oid r \<noteq> oid) (c_shards c))\<rparr>"

section \<open>Shards\<close>

text \<open>\<^verbatim>\<open>INSERT INTO orochi.orochi_shards\<close>: the foreign key, the NOT NULL constraint of
  \<open>shard_index\<close> and the unique key on table and index. The sequence of \<open>shard_id\<close> supplies the key.\<close>

definition insert_shard ::
    "int \<Rightarrow> nat \<Rightarrow> int option \<Rightarrow> int \<Rightarrow> int \<Rightarrow> int option \<Rightarrow> catalog \<Rightarrow> pg_error + int \<times> catalog" where
  "insert_shard now oid idx hmin hmax node c =
     (case idx of None \<Rightarrow> Inl (ERROR ''null value in column shard_index violates not-null constraint'')
      | Some i \<Rightarrow>
          if c_tables c oid = None then Inl (ERROR ''insert violates foreign key constraint'')
          else if list_ex (\<lambda>r. r_table_oid r = oid \<and> r_shard_index r = i) (c_shards c)
          then Inl (ERROR ''duplicate key value violates unique constraint'')
          else Inr (c_shard_seq c,
                 c\<lparr>c_shards := c_shards c @
                     [\<lparr>r_shard_id = c_shard_seq c, r_table_oid = oid, r_shard_index = i,
                       r_hash_min = hmin, r_hash_max = hmax, r_node_id = node, r_row_count = 0,
                       r_size_bytes = 0, r_storage_tier = 0, r_created_at = now,
                       r_last_accessed = now\<rparr>],
                   c_shard_seq := c_shard_seq c + 1\<rparr>))"

text \<open>The bounds of shard \<open>i\<close> of \<open>count\<close> shards.\<close>

definition shard_hash_min :: "int \<Rightarrow> int \<Rightarrow> int" where
  "shard_hash_min hash_range i = (if i = 0 then INT32_MIN else INT32_MIN + i * hash_range)"

definition shard_hash_max :: "int \<Rightarrow> int \<Rightarrow> int \<Rightarrow> int" where
  "shard_hash_max count hash_range i =
     (if i = count - 1 then INT32_MAX else INT32_MIN + (i + 1) * hash_range - 1)"

text \<open>\<^verbatim>\<open>INT32_MAX / shard_count\<close> is undefined for no shards.\<close>

definition orochi_catalog_create_shards :: "int \<Rightarrow> nat \<Rightarrow> int \<Rightarrow> catalog \<Rightarrow> catalog outcome" where
  "orochi_catalog_create_shards now oid count c =
     (if count = 0 then None
      else let hash_range = c_div INT32_MAX count
           in Some (fold_err
                (\<lambda>i c. case insert_shard now oid (Some i) (shard_hash_min hash_range i)
                                (shard_hash_max count hash_range i) None c of
                          Inl e \<Rightarrow> Inl e | Inr (_, c') \<Rightarrow> Inr c')
                (map int [0 ..< nat count]) c))"

text \<open>Reading a row. The test for NULL before \<open>node_id\<close> looks at the flag of the column read before
  it, \<open>hash_max\<close>, which is never NULL; a NULL \<open>node_id\<close> is read as the Datum 0.\<close>

definition shard_info :: "shard_row \<Rightarrow> OrochiShardInfo" where
  "shard_info r =
     \<lparr>shard_id = r_shard_id r, table_oid = r_table_oid r, shard_index = r_shard_index r,
      hash_min = r_hash_min r, hash_max = r_hash_max r,
      s_node_id = (case r_node_id r of None \<Rightarrow> 0 | Some n \<Rightarrow> n),
      s_row_count = r_row_count r, s_size_bytes = r_size_bytes r, s_storage_tier = r_storage_tier r,
      s_created_at = r_created_at r, s_last_accessed = r_last_accessed r\<rparr>"

definition orochi_catalog_get_shard :: "catalog \<Rightarrow> int \<Rightarrow> OrochiShardInfo option" where
  "orochi_catalog_get_shard c sid = map_option shard_info (find (\<lambda>r. r_shard_id r = sid) (c_shards c))"

definition orochi_catalog_get_table_shards :: "catalog \<Rightarrow> nat \<Rightarrow> OrochiShardInfo list" where
  "orochi_catalog_get_table_shards c oid =
     map shard_info (sort_key r_shard_index (filter (\<lambda>r. r_table_oid r = oid) (c_shards c)))"

definition holds_hash :: "nat \<Rightarrow> int \<Rightarrow> shard_row \<Rightarrow> bool" where
  "holds_hash oid h r \<longleftrightarrow> r_table_oid r = oid \<and> r_hash_min r \<le> h \<and> r_hash_max r \<ge> h"

text \<open>The two timestamps are not copied here.\<close>

definition orochi_catalog_get_shard_for_hash :: "catalog \<Rightarrow> nat \<Rightarrow> int \<Rightarrow> OrochiShardInfo option" where
  "orochi_catalog_get_shard_for_hash c oid h =
     map_option (\<lambda>r. (shard_info r)\<lparr>s_created_at := 0, s_last_accessed := 0\<rparr>)
       (find (holds_hash oid h) (c_shards c))"

definition update_shard :: "int \<Rightarrow> (shard_row \<Rightarrow> shard_row) \<Rightarrow> catalog \<Rightarrow> catalog" where
  "update_shard sid f c = c\<lparr>c_shards := update_where (\<lambda>r. r_shard_id r = sid) f (c_shards c)\<rparr>"

definition orochi_catalog_update_shard_placement :: "int \<Rightarrow> int \<Rightarrow> catalog \<Rightarrow> catalog" where
  "orochi_catalog_update_shard_placement sid nid c = update_shard sid (\<lambda>r. r\<lparr>r_node_id := Some nid\<rparr>) c"

definition orochi_catalog_update_shard_stats :: "int \<Rightarrow> int \<Rightarrow> int \<Rightarrow> catalog \<Rightarrow> catalog" where
  "orochi_catalog_update_shard_stats sid rows bytes c =
     update_shard sid (\<lambda>r. r\<lparr>r_row_count := rows, r_size_bytes := bytes\<rparr>) c"

definition orochi_catalog_record_shard_access :: "int \<Rightarrow> int \<Rightarrow> catalog \<Rightarrow> catalog" where
  "orochi_catalog_record_shard_access now sid c = update_shard sid (\<lambda>r. r\<lparr>r_last_accessed := now\<rparr>) c"

text \<open>The insert of \<^verbatim>\<open>orochi_catalog_create_shard\<close> names no \<open>shard_index\<close>.\<close>

definition orochi_catalog_create_shard ::
    "int \<Rightarrow> nat \<Rightarrow> int \<Rightarrow> int \<Rightarrow> int \<Rightarrow> catalog \<Rightarrow> pg_error + int \<times> catalog" where
  "orochi_catalog_create_shard now oid hmin hmax nid c = insert_shard now oid None hmin hmax (Some nid) c"

definition orochi_catalog_update_shard_range :: "int \<Rightarrow> int \<Rightarrow> int \<Rightarrow> catalog \<Rightarrow> catalog" where
  "orochi_catalog_update_shard_range sid hmin hmax c =
     update_shard sid (\<lambda>r. r\<lparr>r_hash_min := hmin, r_hash_max := hmax\<rparr>) c"

definition orochi_catalog_delete_shard :: "int \<Rightarrow> catalog \<Rightarrow> catalog" where
  "orochi_catalog_delete_shard sid c = c\<lparr>c_shards := filter (\<lambda>r. r_shard_id r \<noteq> sid) (c_shards c)\<rparr>"

section \<open>Nodes\<close>

definition orochi_catalog_add_node :: "int \<Rightarrow> string \<Rightarrow> int \<Rightarrow> int \<Rightarrow> catalog \<Rightarrow> int \<times> catalog" where
  "orochi_catalog_add_node now host p role c =
     (case find (\<lambda>n. hostname n = host \<and> n_port n = p) (c_nodes c) of
        Some n \<Rightarrow>
          (n_node_id n,
           c\<lparr>c_nodes := update_where (\<lambda>m. hostname m = host \<and> n_port m = p)
               (\<lambda>m. m\<lparr>n_role := role, n_is_active := True\<rparr>) (c_nodes c)\<rparr>)
      | None \<Rightarrow>
          (c_node_seq c,
           c\<lparr>c_nodes := c_nodes c @ [\<lparr>n_node_id = c_node_seq c, hostname = host, n_port = p,
               n_role = role, n_is_active = True, n_shard_count = 0, n_total_size = 0,
               n_last_heartbeat = now\<rparr>], c_node_seq := c_node_seq c + 1\<rparr>))"

definition orochi_catalog_get_active_nodes :: "catalog \<Rightarrow> OrochiNodeInfo list" where
  "orochi_catalog_get_active_nodes c = sort_key n_node_id (filter n_is_active (c_nodes c))"

definition orochi_catalog_get_node :: "catalog \<Rightarrow> int \<Rightarrow> OrochiNodeInfo option" where
  "orochi_catalog_get_node c nid = find (\<lambda>n. n_node_id n = nid) (c_nodes c)"

definition update_node :: "int \<Rightarrow> (OrochiNodeInfo \<Rightarrow> OrochiNodeInfo) \<Rightarrow> catalog \<Rightarrow> catalog" where
  "update_node nid f c = c\<lparr>c_nodes := update_where (\<lambda>n. n_node_id n = nid) f (c_nodes c)\<rparr>"

definition orochi_catalog_record_heartbeat :: "int \<Rightarrow> int \<Rightarrow> catalog \<Rightarrow> catalog" where
  "orochi_catalog_record_heartbeat now nid c = update_node nid (\<lambda>n. n\<lparr>n_last_heartbeat := now\<rparr>) c"

definition orochi_catalog_update_node_status :: "int \<Rightarrow> bool \<Rightarrow> catalog \<Rightarrow> catalog" where
  "orochi_catalog_update_node_status nid active c = update_node nid (\<lambda>n. n\<lparr>n_is_active := active\<rparr>) c"

definition orochi_catalog_update_node_stats :: "int \<Rightarrow> int \<Rightarrow> int \<Rightarrow> int \<Rightarrow> catalog \<Rightarrow> catalog" where
  "orochi_catalog_update_node_stats now nid shards bytes c =
     update_node nid (\<lambda>n. n\<lparr>n_shard_count := shards, n_total_size := bytes, n_last_heartbeat := now\<rparr>) c"

definition orochi_catalog_remove_node :: "int \<Rightarrow> catalog \<Rightarrow> catalog" where
  "orochi_catalog_remove_node nid c = c\<lparr>c_nodes := filter (\<lambda>n. n_node_id n \<noteq> nid) (c_nodes c)\<rparr>"

section \<open>Invariants\<close>

text \<open>What the schema enforces: keys are unique and shards belong to registered tables. The hash ranges
  are not constrained by the schema.\<close>

definition catalog_wf :: "catalog \<Rightarrow> bool" where
  "catalog_wf c \<longleftrightarrow>
     distinct (map r_shard_id (c_shards c)) \<and>
     distinct (map (\<lambda>r. (r_table_oid r, r_shard_index r)) (c_shards c)) \<and>
     list_all (\<lambda>r. r_shard_id r < c_shard_seq c \<and> c_tables c (r_table_oid r) \<noteq> None) (c_shards c) \<and>
     distinct (map n_node_id (c_nodes c)) \<and> list_all (\<lambda>n. n_node_id n < c_node_seq c) (c_nodes c)"

definition ranges_ok :: "catalog \<Rightarrow> bool" where
  "ranges_ok c \<longleftrightarrow>
     list_all (\<lambda>r. INT32_MIN \<le> r_hash_min r \<and> r_hash_min r \<le> r_hash_max r \<and> r_hash_max r \<le> INT32_MAX)
       (c_shards c)"

definition hash_partition :: "catalog \<Rightarrow> nat \<Rightarrow> bool" where
  "hash_partition c oid \<longleftrightarrow> (\<forall>h. is_i32 h \<longrightarrow> (\<exists>!r. r \<in> set (c_shards c) \<and> holds_hash oid h r))"

lemmas catalog_ops =
  orochi_catalog_update_shard_placement_def orochi_catalog_update_shard_stats_def
  orochi_catalog_record_shard_access_def orochi_catalog_update_shard_range_def update_shard_def

lemma find_SomeD: "find P xs = Some x \<Longrightarrow> x \<in> set xs \<and> P x"
  by (induction xs) (auto split: if_splits)

lemma find_unique:
  assumes "\<exists>!x. x \<in> set xs \<and> P x"
  shows "\<exists>x. find P xs = Some x \<and> x \<in> set xs \<and> P x \<and> (\<forall>y \<in> set xs. P y \<longrightarrow> y = x)"
proof -
  obtain x where x: "x \<in> set xs" "P x" "\<forall>y \<in> set xs. P y \<longrightarrow> y = x"
    using assms by blast
  have "find P xs \<noteq> None"
    using x(1,2) unfolding find_None_iff by blast
  then obtain y where "find P xs = Some y" by blast
  then show ?thesis using find_SomeD [of P xs y] x by blast
qed

lemma find_distinct_key:
  "distinct (map k xs) \<Longrightarrow> x \<in> set xs \<Longrightarrow> find (\<lambda>y. k y = k x) xs = Some x"
proof (induction xs)
  case (Cons a xs)
  then show ?case
    by (cases "a = x") (auto simp: image_iff)
qed simp

lemma get_shard_Some:
  assumes "orochi_catalog_get_shard c sid = Some s"
  obtains r where "r \<in> set (c_shards c)" "r_shard_id r = sid" "s = shard_info r"
  using assms by (auto simp: orochi_catalog_get_shard_def dest: find_SomeD)

lemma get_shard_row:
  "catalog_wf c \<Longrightarrow> r \<in> set (c_shards c) \<Longrightarrow>
   orochi_catalog_get_shard c (r_shard_id r) = Some (shard_info r)"
  by (simp add: orochi_catalog_get_shard_def catalog_wf_def find_distinct_key)

text \<open>Updating a row by its id, seen from the set of rows.\<close>

lemma set_update_shard:
  assumes "catalog_wf c" "r \<in> set (c_shards c)"
  shows "set (c_shards (update_shard (r_shard_id r) f c)) = insert (f r) (set (c_shards c) - {r})"
proof -
  have "\<And>x. x \<in> set (c_shards c) \<Longrightarrow> r_shard_id x = r_shard_id r \<Longrightarrow> x = r"
    using assms by (auto simp: catalog_wf_def distinct_map inj_on_def)
  then have "\<And>x. x \<in> set (c_shards c) \<Longrightarrow> (if r_shard_id x = r_shard_id r then f x else x) = (if x = r then f r else x)"
    by auto
  then have "set (c_shards (update_shard (r_shard_id r) f c)) = (\<lambda>x. if x = r then f r else x) ` set (c_shards c)"
    by (simp add: update_shard_def update_where_def)
  then show ?thesis using assms(2) by auto
qed

lemma update_shard_frame [frame_simps]:
  "c_tables (update_shard sid f c) = c_tables c" "c_nodes (update_shard sid f c) = c_nodes c"
  "c_node_seq (update_shard sid f c) = c_node_seq c" "c_shard_seq (update_shard sid f c) = c_shard_seq c"
  by (simp_all add: update_shard_def)

lemma update_shard_wf [wf_intros]:
  assumes "catalog_wf c"
    and "\<And>r. r_shard_id (f r) = r_shard_id r" "\<And>r. r_table_oid (f r) = r_table_oid r"
    and "\<And>r. r_shard_index (f r) = r_shard_index r"
  shows "catalog_wf (update_shard sid f c)"
proof -
  have "map r_shard_id (c_shards (update_shard sid f c)) = map r_shard_id (c_shards c)"
    "map (\<lambda>r. (r_table_oid r, r_shard_index r)) (c_shards (update_shard sid f c)) =
     map (\<lambda>r. (r_table_oid r, r_shard_index r)) (c_shards c)"
    by (simp_all add: update_shard_def map_update_where assms)
  moreover have "list_all (\<lambda>r. r_shard_id r < c_shard_seq c \<and> c_tables c (r_table_oid r) \<noteq> None)
      (c_shards (update_shard sid f c))"
    using assms by (auto simp: catalog_wf_def update_shard_def list_all_iff update_where_def)
  ultimately show ?thesis
    using assms(1) unfolding catalog_wf_def update_shard_frame by metis
qed

lemma update_shard_ranges [wf_intros]:
  assumes "ranges_ok c" "\<And>r. r_hash_min (f r) = r_hash_min r" "\<And>r. r_hash_max (f r) = r_hash_max r"
  shows "ranges_ok (update_shard sid f c)"
  using assms by (auto simp: ranges_ok_def update_shard_def list_all_iff update_where_def)

text \<open>An update that keeps table, bounds and id keeps the partition.\<close>

lemma update_shard_partition [wf_intros]:
  assumes wf: "catalog_wf c" and part: "hash_partition c oid"
    and f: "\<And>r. r_shard_id (f r) = r_shard_id r" "\<And>h r. holds_hash oid h (f r) = holds_hash oid h r"
  shows "hash_partition (update_shard sid f c) oid"
  unfolding hash_partition_def
proof (intro allI impI)
  fix h assume "is_i32 h"
  then obtain r where r: "r \<in> set (c_shards c)" "holds_hash oid h r"
    and uniq: "\<And>y. y \<in> set (c_shards c) \<Longrightarrow> holds_hash oid h y \<Longrightarrow> y = r"
    using part unfolding hash_partition_def by blast
  define g where "g = (\<lambda>x. if r_shard_id x = sid then f x else x)"
  have rows: "set (c_shards (update_shard sid f c)) = g ` set (c_shards c)"
    by (simp add: update_shard_def update_where_def g_def)
  have hg: "\<And>x. holds_hash oid h (g x) = holds_hash oid h x"
    by (simp add: g_def f)
  show "\<exists>!y. y \<in> set (c_shards (update_shard sid f c)) \<and> holds_hash oid h y"
  proof (rule ex1I [of _ "g r"])
    show "g r \<in> set (c_shards (update_shard sid f c)) \<and> holds_hash oid h (g r)"
      using r by (simp add: rows hg)
    fix y assume "y \<in> set (c_shards (update_shard sid f c)) \<and> holds_hash oid h y"
    then show "y = g r" using uniq by (auto simp: rows hg)
  qed
qed

section \<open>The shards of a new table\<close>

definition new_shard_row :: "int \<Rightarrow> nat \<Rightarrow> int \<Rightarrow> int \<Rightarrow> int \<Rightarrow> nat \<Rightarrow> shard_row" where
  "new_shard_row now oid count hash_range sid i =
     \<lparr>r_shard_id = sid + int i, r_table_oid = oid, r_shard_index = int i,
      r_hash_min = shard_hash_min hash_range (int i),
      r_hash_max = shard_hash_max count hash_range (int i), r_node_id = None, r_row_count = 0,
      r_size_bytes = 0, r_storage_tier = 0, r_created_at = now, r_last_accessed = now\<rparr>"

lemma new_shard_row_sel [simp]:
  "r_shard_id (new_shard_row now oid count hr sid i) = sid + int i"
  "r_table_oid (new_shard_row now oid count hr sid i) = oid"
  "r_shard_index (new_shard_row now oid count hr sid i) = int i"
  "r_hash_min (new_shard_row now oid count hr sid i) = shard_hash_min hr (int i)"
  "r_hash_max (new_shard_row now oid count hr sid i) = shard_hash_max count hr (int i)"
  "r_node_id (new_shard_row now oid count hr sid i) = None"
  by (simp_all add: new_shard_row_def)

lemma create_shards_loop:
  assumes "c_tables c oid \<noteq> None" "\<forall>r \<in> set (c_shards c). r_table_oid r \<noteq> oid"
  shows "fold_err
      (\<lambda>i c. case insert_shard now oid (Some i) (shard_hash_min hr i) (shard_hash_max count hr i) None c of
                Inl e \<Rightarrow> Inl e | Inr (_, c') \<Rightarrow> Inr c')
      (map int [0 ..< k]) c =
    Inr (c\<lparr>c_shards := c_shards c @ map (new_shard_row now oid count hr (c_shard_seq c)) [0 ..< k],
           c_shard_seq := c_shard_seq c + int k\<rparr>)"
proof (induction k)
  case (Suc k)
  have "\<not> list_ex (\<lambda>r. r_table_oid r = oid \<and> r_shard_index r = int k)
          (c_shards c @ map (new_shard_row now oid count hr (c_shard_seq c)) [0 ..< k])"
    using assms(2) by (simp add: list_ex_iff bex_Un)
  then have "insert_shard now oid (Some (int k)) (shard_hash_min hr (int k)) (shard_hash_max count hr (int k)) None
      (c\<lparr>c_shards := c_shards c @ map (new_shard_row now oid count hr (c_shard_seq c)) [0 ..< k],
         c_shard_seq := c_shard_seq c + int k\<rparr>) =
    Inr (c_shard_seq c + int k,
      c\<lparr>c_shards := c_shards c @ map (new_shard_row now oid count hr (c_shard_seq c)) [0 ..< Suc k],
         c_shard_seq := c_shard_seq c + int (Suc k)\<rparr>)"
    using assms(1) by (simp add: insert_shard_def) (simp add: new_shard_row_def)
  then show ?case by (simp add: fold_err_append Suc.IH)
qed simp

text \<open>The index of the shard that owns a hash: the last shard takes everything that is left.\<close>

definition hash_owner :: "int \<Rightarrow> int \<Rightarrow> int" where
  "hash_owner count h = min (count - 1) ((h - INT32_MIN) div (INT32_MAX div count))"

lemma hash_range_pos: "1 \<le> count \<Longrightarrow> count \<le> INT32_MAX \<Longrightarrow> 1 \<le> INT32_MAX div count"
  using pos_imp_zdiv_pos_iff [of count INT32_MAX] by linarith

lemma hash_owner_range:
  assumes "1 \<le> count" "count \<le> INT32_MAX" "INT32_MIN \<le> h"
  shows "0 \<le> hash_owner count h \<and> hash_owner count h < count"
  using assms hash_range_pos [OF assms(1,2)] by (auto simp: hash_owner_def pos_imp_zdiv_nonneg_iff)

lemma shard_range_iff:
  assumes count: "1 \<le> count" "count \<le> INT32_MAX" and i: "0 \<le> i" "i < count" and h: "is_i32 h"
  defines "hr \<equiv> INT32_MAX div count"
  shows "shard_hash_min hr i \<le> h \<and> h \<le> shard_hash_max count hr i \<longleftrightarrow> i = hash_owner count h"
proof -
  define x where "x = h - INT32_MIN"
  have hr: "1 \<le> hr" using hash_range_pos [OF count] by (simp add: hr_def)
  have low: "shard_hash_min hr i \<le> h \<longleftrightarrow> i \<le> x div hr"
    using hr le_zdiv_iff [of hr i x] unfolding shard_hash_min_def x_def by auto
  have high: "h \<le> shard_hash_max count hr i \<longleftrightarrow> i = count - 1 \<or> x div hr \<le> i"
    using hr h zdiv_le_iff [of hr x i] unfolding shard_hash_max_def x_def by auto
  show ?thesis
    unfolding low high hash_owner_def hr_def [symmetric] x_def [symmetric] using i by auto
qed

lemma create_shards_result:
  assumes "1 \<le> count" "c_tables c oid \<noteq> None" "\<forall>r \<in> set (c_shards c). r_table_oid r \<noteq> oid"
  shows "orochi_catalog_create_shards now oid count c =
    Some (Inr (c\<lparr>c_shards := c_shards c @
        map (new_shard_row now oid count (INT32_MAX div count) (c_shard_seq c)) [0 ..< nat count],
      c_shard_seq := c_shard_seq c + count\<rparr>))"
  using assms create_shards_loop [OF assms(2,3), where k = "nat count" and hr = "INT32_MAX div count"]
  by (simp add: orochi_catalog_create_shards_def Let_def)

lemma new_row_holds:
  assumes "1 \<le> count" "count \<le> INT32_MAX" "i < nat count" "is_i32 h"
  shows "holds_hash oid h (new_shard_row now oid count (INT32_MAX div count) sid i) \<longleftrightarrow>
         i = nat (hash_owner count h)"
  using shard_range_iff [OF assms(1,2), of "int i" h] assms(3,4)
    hash_owner_range [OF assms(1,2), of h]
  by (auto simp: holds_hash_def)

lemma new_row_ranges:
  assumes "1 \<le> count" "count \<le> INT32_MAX" "i < nat count"
  defines "hr \<equiv> INT32_MAX div count"
  shows "INT32_MIN \<le> shard_hash_min hr (int i) \<and> shard_hash_min hr (int i) \<le> shard_hash_max count hr (int i) \<and>
         shard_hash_max count hr (int i) \<le> INT32_MAX"
proof -
  have hr: "1 \<le> hr" using hash_range_pos [OF assms(1,2)] by (simp add: hr_def)
  have "(int i + 1) * hr \<le> count * hr" using assms(3) hr by (intro mult_right_mono) auto
  also have "\<dots> \<le> INT32_MAX"
    using assms(1) le_zdiv_iff [of count hr INT32_MAX] by (simp add: hr_def mult.commute)
  finally have "(int i + 1) * hr \<le> INT32_MAX" .
  then show ?thesis
    using hr by (auto simp: shard_hash_min_def shard_hash_max_def algebra_simps)
qed

lemma create_shards_wf:
  assumes "1 \<le> count" "count \<le> INT32_MAX" "c_tables c oid \<noteq> None"
    and "\<forall>r \<in> set (c_shards c). r_table_oid r \<noteq> oid"
    and "orochi_catalog_create_shards now oid count c = Some (Inr c')"
  shows "catalog_wf c \<Longrightarrow> catalog_wf c'" "ranges_ok c \<Longrightarrow> ranges_ok c'"
proof -
  have c': "c' = c\<lparr>c_shards := c_shards c @
        map (new_shard_row now oid count (INT32_MAX div count) (c_shard_seq c)) [0 ..< nat count],
      c_shard_seq := c_shard_seq c + count\<rparr>"
    using assms(5) create_shards_result [OF assms(1,3,4)] by simp
  show "catalog_wf c'" if wf: "catalog_wf c"
  proof -
    let ?rows = "map (new_shard_row now oid count (INT32_MAX div count) (c_shard_seq c)) [0 ..< nat count]"
    have "distinct (map r_shard_id (c_shards c @ ?rows))"
    proof -
      have ids: "map r_shard_id ?rows = map (\<lambda>i. c_shard_seq c + int i) [0 ..< nat count]" by simp
      have "distinct (map r_shard_id ?rows)" unfolding ids by (simp add: distinct_map inj_on_def)
      moreover have "set (map r_shard_id (c_shards c)) \<inter> set (map r_shard_id ?rows) = {}"
        using wf unfolding ids by (force simp: catalog_wf_def list_all_iff)
      ultimately show ?thesis using wf by (simp only: catalog_wf_def map_append distinct_append simp_thms)
    qed
    moreover have "distinct (map (\<lambda>r. (r_table_oid r, r_shard_index r)) (c_shards c @ ?rows))"
    proof -
      have keys: "map (\<lambda>r. (r_table_oid r, r_shard_index r)) ?rows = map (\<lambda>i. (oid, int i)) [0 ..< nat count]"
        by simp
      have "distinct (map (\<lambda>r. (r_table_oid r, r_shard_index r)) ?rows)"
        unfolding keys by (simp add: distinct_map inj_on_def)
      moreover have "set (map (\<lambda>r. (r_table_oid r, r_shard_index r)) (c_shards c)) \<inter>
          set (map (\<lambda>r. (r_table_oid r, r_shard_index r)) ?rows) = {}"
        using assms(4) unfolding keys by auto
      ultimately show ?thesis using wf by (simp only: catalog_wf_def map_append distinct_append simp_thms)
    qed
    moreover have "list_all (\<lambda>r. r_shard_id r < c_shard_seq c + count \<and> c_tables c (r_table_oid r) \<noteq> None)
        (c_shards c @ ?rows)"
      using wf assms(1,3) by (fastforce simp: catalog_wf_def list_all_iff)
    ultimately show ?thesis
      using wf by (simp add: c' catalog_wf_def)
  qed
  show "ranges_ok c \<Longrightarrow> ranges_ok c'"
    using new_row_ranges [OF assms(1,2)] by (simp add: c' ranges_ok_def list_all_iff ball_Un)
qed

lemma create_shards_partitions:
  assumes "1 \<le> count" "count \<le> INT32_MAX" "c_tables c oid \<noteq> None"
    and "\<forall>r \<in> set (c_shards c). r_table_oid r \<noteq> oid"
    and "orochi_catalog_create_shards now oid count c = Some (Inr c')"
  shows "hash_partition c' oid"
    and "is_i32 h \<Longrightarrow> \<exists>s. orochi_catalog_get_shard_for_hash c' oid h = Some s \<and> table_oid s = oid \<and>
           shard_index s = hash_owner count h \<and> hash_min s \<le> h \<and> h \<le> hash_max s"
proof -
  define row where "row = new_shard_row now oid count (INT32_MAX div count) (c_shard_seq c)"
  have rows: "c_shards c' = c_shards c @ map row [0 ..< nat count]"
    using assms(5) create_shards_result [OF assms(1,3,4)] by (auto simp: row_def)
  have uniq: "\<exists>!r. r \<in> set (c_shards c') \<and> holds_hash oid h r"
      and own: "\<And>r. r \<in> set (c_shards c') \<Longrightarrow> holds_hash oid h r \<Longrightarrow> r_shard_index r = hash_owner count h"
    if h: "is_i32 h" for h
  proof -
    let ?k = "nat (hash_owner count h)"
    have k: "?k < nat count" "int ?k = hash_owner count h"
      using hash_owner_range [OF assms(1,2), of h] h by auto
    have old: "\<not> holds_hash oid h r" if "r \<in> set (c_shards c)" for r
      using assms(4) that by (auto simp: holds_hash_def)
    have new: "holds_hash oid h (row i) \<longleftrightarrow> i = ?k" if "i < nat count" for i
      using new_row_holds [OF assms(1,2) that h] by (simp add: row_def)
    show "\<exists>!r. r \<in> set (c_shards c') \<and> holds_hash oid h r"
      by (rule ex1I [of _ "row ?k"]) (use k old new in \<open>auto simp: rows\<close>)
    show "r_shard_index r = hash_owner count h" if "r \<in> set (c_shards c')" "holds_hash oid h r" for r
      using that k old new by (auto simp: rows row_def)
  qed
  then show "hash_partition c' oid" by (simp add: hash_partition_def)
  show "\<exists>s. orochi_catalog_get_shard_for_hash c' oid h = Some s \<and> table_oid s = oid \<and>
           shard_index s = hash_owner count h \<and> hash_min s \<le> h \<and> h \<le> hash_max s" if h: "is_i32 h"
  proof -
    obtain r where "find (holds_hash oid h) (c_shards c') = Some r" "r \<in> set (c_shards c')" "holds_hash oid h r"
      using find_unique [OF uniq [OF h]] by blast
    then show ?thesis
      using own [OF h, of r] by (auto simp: orochi_catalog_get_shard_for_hash_def shard_info_def holds_hash_def)
  qed
qed

end
