(* ===== verification/Sharding.thy ===== *)
theory Sharding
  imports Shard_Catalog
begin

unbundle bit_operations_syntax

text \<open>
  Distributed tables (\<^verbatim>\<open>sharding/distribution.c\<close>): the CRC-32 hash of a distribution value and the two
  ways a hash is turned into a shard (by hash range in the catalog, by remainder in
  \<^verbatim>\<open>orochi_get_shard_index\<close>), co-location groups, the placement of shards on nodes, and the operations
  that move, split and merge shards.
\<close>

section \<open>The hash\<close>

definition crc32_bit :: "u32 \<Rightarrow> u32" where
  "crc32_bit crc = (if crc AND 1 \<noteq> 0 then drop_bit 1 crc XOR 0xEDB88320 else drop_bit 1 crc)"

definition init_crc32_table :: "u32 list" where
  "init_crc32_table = map (\<lambda>i. (crc32_bit ^^ 8) (word_of_nat i)) [0 ..< 256]"

definition crc32_hash_step :: "u32 \<Rightarrow> u8 \<Rightarrow> u32" where
  "crc32_hash_step crc b = init_crc32_table ! unat ((crc XOR ucast b) AND 0xFF) XOR drop_bit 8 crc"

definition orochi_crc32_hash :: "bytes \<Rightarrow> u32" where
  "orochi_crc32_hash data = foldl crc32_hash_step 0xFFFFFFFF data XOR 0xFFFFFFFF"

text \<open>A Datum with the type the caller passes. Values of the types listed in the \<^verbatim>\<open>switch\<close> are taken
  apart; for every other type the eight bytes of the Datum are hashed, which hold the value for a
  pass-by-value type and an address for a pass-by-reference type.\<close>

datatype type_oid =
  INT2OID | INT4OID | INT8OID | TEXTOID | VARCHAROID | UUIDOID | DATEOID | TIMESTAMPOID | TIMESTAMPTZOID |
  OTHEROID nat

datatype datum =
  Int2 u16 | Int4 u32 | Int8 u64 | Text bytes | Varchar bytes | Uuid bytes |
  ByValue type_oid u64 | ByReference type_oid u64 bytes

fun datum_type :: "datum \<Rightarrow> type_oid" where
  "datum_type (Int2 _) = INT2OID"
| "datum_type (Int4 _) = INT4OID"
| "datum_type (Int8 _) = INT8OID"
| "datum_type (Text _) = TEXTOID"
| "datum_type (Varchar _) = VARCHAROID"
| "datum_type (Uuid _) = UUIDOID"
| "datum_type (ByValue t _) = t"
| "datum_type (ByReference t _ _) = t"

fun orochi_hash_datum :: "datum \<Rightarrow> int" where
  "orochi_hash_datum (Int2 v) = sint (orochi_crc32_hash (le_bytes 2 (unat v)))"
| "orochi_hash_datum (Int4 v) = sint (orochi_crc32_hash (le_bytes 4 (unat v)))"
| "orochi_hash_datum (Int8 v) = sint (orochi_crc32_hash (le_bytes 8 (unat v)))"
| "orochi_hash_datum (Text bs) = sint (orochi_crc32_hash bs)"
| "orochi_hash_datum (Varchar bs) = sint (orochi_crc32_hash bs)"
| "orochi_hash_datum (Uuid bs) = sint (orochi_crc32_hash (take 16 bs))"
| "orochi_hash_datum (ByValue _ w) = sint (orochi_crc32_hash (le_bytes 8 (unat w)))"
| "orochi_hash_datum (ByReference _ addr _) = sint (orochi_crc32_hash (le_bytes 8 (unat addr)))"

definition orochi_get_shard_index :: "int \<Rightarrow> int \<Rightarrow> int" where
  "orochi_get_shard_index hash_value count =
     (if count \<le> 0 then 0 else wrap_i32 (hash_value mod 4294967296 mod count))"

definition orochi_compute_shard_for_value :: "datum \<Rightarrow> int \<Rightarrow> int" where
  "orochi_compute_shard_for_value v count = orochi_get_shard_index (orochi_hash_datum v) count"

section \<open>Distributed and reference tables\<close>

definition orochi_is_distributed_table :: "catalog \<Rightarrow> nat \<Rightarrow> bool" where
  "orochi_is_distributed_table c oid =
     (case orochi_catalog_get_table c oid of None \<Rightarrow> False | Some ti \<Rightarrow> is_distributed ti)"

definition orochi_is_reference_table :: "catalog \<Rightarrow> nat \<Rightarrow> bool" where
  "orochi_is_reference_table c oid =
     (case orochi_catalog_get_table c oid of None \<Rightarrow> False
      | Some ti \<Rightarrow> is_distributed ti \<and> shard_strategy ti = OROCHI_SHARD_REFERENCE)"

definition orochi_get_distribution_column :: "catalog \<Rightarrow> nat \<Rightarrow> string option" where
  "orochi_get_distribution_column c oid =
     (case orochi_catalog_get_table c oid of None \<Rightarrow> None | Some ti \<Rightarrow> distribution_column ti)"

definition orochi_get_shard_count :: "catalog \<Rightarrow> nat \<Rightarrow> int" where
  "orochi_get_shard_count c oid =
     (case orochi_catalog_get_table c oid of None \<Rightarrow> 0 | Some ti \<Rightarrow> shard_count ti)"

text \<open>The names of the relation and its schema come from the system catalogs.\<close>

definition orochi_create_reference_table_internal ::
    "string option \<Rightarrow> string option \<Rightarrow> nat \<Rightarrow> catalog \<Rightarrow> pg_error + catalog" where
  "orochi_create_reference_table_internal sch name oid c =
     orochi_catalog_register_table
       \<lparr>relid = oid, schema_name = sch, table_name = name, storage_type = 0,
        shard_strategy = OROCHI_SHARD_REFERENCE, shard_count = 1, distribution_column = None,
        is_distributed = True, is_timeseries = False, time_column = None, chunk_interval = None,
        compression = 0, compression_level = 0\<rparr> c"

definition orochi_can_be_reference_table :: "catalog \<Rightarrow> nat \<Rightarrow> bool" where
  "orochi_can_be_reference_table c oid = (\<not> orochi_is_distributed_table c oid)"

definition orochi_create_reference_table_sql ::
    "string option \<Rightarrow> string option \<Rightarrow> nat \<Rightarrow> catalog \<Rightarrow> pg_error + catalog" where
  "orochi_create_reference_table_sql sch name oid c =
     (if orochi_can_be_reference_table c oid then orochi_create_reference_table_internal sch name oid c
      else Inr c)"

text \<open>\<open>att_type\<close> is the type of the column in \<^verbatim>\<open>pg_attribute\<close>, if the column exists.\<close>

definition orochi_validate_distribution_column :: "type_oid option \<Rightarrow> pg_error + bool" where
  "orochi_validate_distribution_column att_type =
     (case att_type of
        None \<Rightarrow> Inl (ERROR ''column does not exist'')
      | Some t \<Rightarrow>
          (case t of OTHEROID _ \<Rightarrow> Inl (ERROR ''column type is not supported for distribution'')
           | _ \<Rightarrow> Inr True))"

section \<open>Co-location groups\<close>

text \<open>A row of \<open>orochi_colocation_groups\<close>: id, shard count and strategy. The table has no unique
  constraint besides its key, so \<^verbatim>\<open>ON CONFLICT DO NOTHING\<close> never takes effect.\<close>

record colocation =
  cg_rows :: "(int \<times> int \<times> int) list"
  cg_seq :: int

definition orochi_create_colocation_group :: "int \<Rightarrow> int \<Rightarrow> colocation \<Rightarrow> int \<times> colocation" where
  "orochi_create_colocation_group count strategy g =
     (cg_seq g, g\<lparr>cg_rows := cg_rows g @ [(cg_seq g, count, strategy)], cg_seq := cg_seq g + 1\<rparr>)"

definition orochi_get_colocation_group :: "catalog \<Rightarrow> nat \<Rightarrow> colocation \<Rightarrow> int \<times> colocation" where
  "orochi_get_colocation_group c oid g =
     (case orochi_catalog_get_table c oid of
        None \<Rightarrow> (-1, g)
      | Some ti \<Rightarrow>
          if \<not> is_distributed ti then (-1, g)
          else (case find (\<lambda>(_, n, st). n = shard_count ti \<and> st = shard_strategy ti) (cg_rows g) of
                  Some (gid, _) \<Rightarrow> (gid, g)
                | None \<Rightarrow> orochi_create_colocation_group (shard_count ti) (shard_strategy ti) g))"

definition orochi_tables_are_colocated :: "catalog \<Rightarrow> nat \<Rightarrow> nat \<Rightarrow> colocation \<Rightarrow> bool \<times> colocation" where
  "orochi_tables_are_colocated c t1 t2 g =
     (if t1 = t2 then (True, g)
      else if orochi_is_reference_table c t1 \<or> orochi_is_reference_table c t2 then (True, g)
      else let (group1, g1) = orochi_get_colocation_group c t1 g;
               (group2, g2) = orochi_get_colocation_group c t2 g1
           in (group1 = group2 \<and> group1 \<noteq> -1, g2))"

section \<open>Routing by hash range\<close>

definition orochi_route_to_shard :: "catalog \<Rightarrow> nat \<Rightarrow> datum \<Rightarrow> OrochiShardInfo option" where
  "orochi_route_to_shard c oid v = orochi_catalog_get_shard_for_hash c oid (orochi_hash_datum v)"

definition orochi_get_shards_in_range :: "catalog \<Rightarrow> nat \<Rightarrow> int \<Rightarrow> int \<Rightarrow> OrochiShardInfo list" where
  "orochi_get_shards_in_range c oid min_hash max_hash =
     filter (\<lambda>s. hash_max s \<ge> min_hash \<and> hash_min s \<le> max_hash) (orochi_catalog_get_table_shards c oid)"

section \<open>Placement\<close>

definition orochi_get_shard_node :: "catalog \<Rightarrow> int \<Rightarrow> OrochiNodeInfo option" where
  "orochi_get_shard_node c sid =
     (case orochi_catalog_get_shard c sid of None \<Rightarrow> None
      | Some s \<Rightarrow> if s_node_id s < 0 then None else orochi_catalog_get_node c (s_node_id s))"

abbreviation (input) SHARD_MOVE_PENDING :: int where "SHARD_MOVE_PENDING \<equiv> 0"
abbreviation (input) SHARD_MOVE_COPYING :: int where "SHARD_MOVE_COPYING \<equiv> 1"
abbreviation (input) SHARD_MOVE_COMPLETED :: int where "SHARD_MOVE_COMPLETED \<equiv> 2"
abbreviation (input) SHARD_MOVE_FAILED :: int where "SHARD_MOVE_FAILED \<equiv> 3"

record shard_move =
  mv_id :: int
  mv_shard_id :: int
  mv_source :: int
  mv_target :: int
  mv_status :: int
  mv_bytes_copied :: int
  mv_bytes_total :: int
  mv_completed_at :: "int option"
  mv_error :: "string option"

record moves =
  mv_rows :: "shard_move list"
  mv_seq :: int

definition create_shard_move_record :: "int \<Rightarrow> int \<Rightarrow> int \<Rightarrow> int \<Rightarrow> moves \<Rightarrow> int \<times> moves" where
  "create_shard_move_record sid source target bytes m =
     (mv_seq m,
      m\<lparr>mv_rows := mv_rows m @ [\<lparr>mv_id = mv_seq m, mv_shard_id = sid, mv_source = source, mv_target = target,
          mv_status = SHARD_MOVE_PENDING, mv_bytes_copied = 0, mv_bytes_total = bytes,
          mv_completed_at = None, mv_error = None\<rparr>], mv_seq := mv_seq m + 1\<rparr>)"

definition update_shard_move_progress ::
    "int \<Rightarrow> int \<Rightarrow> int \<Rightarrow> int \<Rightarrow> string option \<Rightarrow> moves \<Rightarrow> moves" where
  "update_shard_move_progress now mid status bytes err m =
     m\<lparr>mv_rows := update_where (\<lambda>r. mv_id r = mid)
        (\<lambda>r. if status = SHARD_MOVE_COMPLETED \<or> status = SHARD_MOVE_FAILED
             then r\<lparr>mv_status := status, mv_bytes_copied := bytes, mv_completed_at := Some now,
                    mv_error := (case err of None \<Rightarrow> mv_error r | Some e \<Rightarrow> Some e)\<rparr>
             else r\<lparr>mv_status := status, mv_bytes_copied := bytes\<rparr>) (mv_rows m)\<rparr>"

definition orochi_move_shard :: "int \<Rightarrow> int \<Rightarrow> int \<Rightarrow> catalog \<times> moves \<Rightarrow> pg_error + catalog \<times> moves" where
  "orochi_move_shard now sid target cm =
     (let (c, m) = cm
      in case orochi_catalog_get_shard c sid of
           None \<Rightarrow> Inl (ERROR ''shard does not exist'')
         | Some s \<Rightarrow>
             if s_node_id s = target then Inr (c, m)
             else let (mid, m1) = create_shard_move_record sid (s_node_id s) target (s_size_bytes s) m;
                      m2 = update_shard_move_progress now mid SHARD_MOVE_COPYING 0 None m1;
                      c1 = orochi_catalog_update_shard_placement sid target c;
                      m3 = update_shard_move_progress now mid SHARD_MOVE_COMPLETED (s_size_bytes s) None m2
                  in Inr (c1, m3))"

fun select_node_loop :: "OrochiNodeInfo list \<Rightarrow> int \<Rightarrow> int \<Rightarrow> int" where
  "select_node_loop [] best_node min_shards = best_node"
| "select_node_loop (n # ns) best_node min_shards =
     (if n_role n = OROCHI_NODE_WORKER \<and> n_shard_count n < min_shards
      then select_node_loop ns (n_node_id n) (n_shard_count n)
      else select_node_loop ns best_node min_shards)"

definition orochi_select_node_for_shard :: "catalog \<Rightarrow> int" where
  "orochi_select_node_for_shard c =
     select_node_loop (orochi_catalog_get_active_nodes c) (-1) 9223372036854775807"

text \<open>\<^verbatim>\<open>orochi_move_shard_with_data\<close> runs the same UPDATE as \<^verbatim>\<open>orochi_catalog_update_shard_placement\<close>.\<close>

definition orochi_move_shard_with_data :: "int \<Rightarrow> int \<Rightarrow> catalog \<Rightarrow> pg_error + catalog" where
  "orochi_move_shard_with_data sid target c =
     (case orochi_catalog_get_shard c sid of
        None \<Rightarrow> Inl (ERROR ''shard does not exist'')
      | Some s \<Rightarrow> if s_node_id s = target then Inr c
                  else Inr (update_shard sid (\<lambda>r. r\<lparr>r_node_id := Some target\<rparr>) c))"

definition active_worker :: "OrochiNodeInfo \<Rightarrow> bool" where
  "active_worker n \<longleftrightarrow> n_role n = OROCHI_NODE_WORKER \<and> n_is_active n"

text \<open>The inner loop of the rebalancer: the node id of the worker at position \<open>cur\<close>, -1 if there is none.\<close>

fun worker_at :: "OrochiNodeInfo list \<Rightarrow> nat \<Rightarrow> nat \<Rightarrow> int" where
  "worker_at [] idx cur = -1"
| "worker_at (n # ns) idx cur =
     (if active_worker n then if idx = cur then n_node_id n else worker_at ns (idx + 1) cur
      else worker_at ns idx cur)"

fun rebalance_loop ::
    "OrochiNodeInfo list \<Rightarrow> nat \<Rightarrow> nat \<Rightarrow> OrochiShardInfo list \<Rightarrow> catalog \<Rightarrow> pg_error + catalog" where
  "rebalance_loop nodes node_count cur [] c = Inr c"
| "rebalance_loop nodes node_count cur (s # ss) c =
     (let target_node = worker_at nodes 0 cur
      in case (if target_node \<ge> 0 \<and> s_node_id s \<noteq> target_node
               then orochi_move_shard_with_data (shard_id s) target_node c else Inr c) of
           Inl e \<Rightarrow> Inl e
         | Inr c' \<Rightarrow> rebalance_loop nodes node_count ((cur + 1) mod node_count) ss c')"

definition orochi_rebalance_table_shards :: "nat \<Rightarrow> catalog \<Rightarrow> pg_error + catalog" where
  "orochi_rebalance_table_shards oid c =
     (if \<not> orochi_is_distributed_table c oid then Inl (ERROR ''table is not distributed'')
      else let shards = orochi_catalog_get_table_shards c oid;
               nodes = orochi_catalog_get_active_nodes c;
               node_count = length (filter active_worker nodes)
           in if node_count = 0 then Inr c else rebalance_loop nodes node_count 0 shards c)"

section \<open>Splitting and merging\<close>

text \<open>The difference of the bounds is computed in 32 bits: its overflow is undefined.\<close>

definition orochi_split_shard_impl :: "int \<Rightarrow> int \<Rightarrow> catalog \<Rightarrow> catalog outcome" where
  "orochi_split_shard_impl now sid c =
     (case orochi_catalog_get_shard c sid of
        None \<Rightarrow> Some (Inl (ERROR ''shard does not exist''))
      | Some s \<Rightarrow>
          if \<not> is_i32 (hash_max s - hash_min s) then None
          else let mid_hash = hash_min s + c_div (hash_max s - hash_min s) 2;
                   c1 = orochi_catalog_update_shard_range sid (hash_min s) mid_hash c
               in (case orochi_catalog_create_shard now (table_oid s) (mid_hash + 1) (hash_max s) (s_node_id s) c1 of
                     Inl e \<Rightarrow> Some (Inl e)
                   | Inr (_, c2) \<Rightarrow> Some (Inr c2)))"

definition orochi_merge_shards_impl :: "int \<Rightarrow> int \<Rightarrow> catalog \<Rightarrow> pg_error + catalog" where
  "orochi_merge_shards_impl sid1 sid2 c =
     (case (orochi_catalog_get_shard c sid1, orochi_catalog_get_shard c sid2) of
        (Some s1, Some s2) \<Rightarrow>
          if table_oid s1 \<noteq> table_oid s2 then Inl (ERROR ''shards belong to different tables'')
          else let new_min = (if hash_min s1 < hash_min s2 then hash_min s1 else hash_min s2);
                   new_max = (if hash_max s1 > hash_max s2 then hash_max s1 else hash_max s2)
               in Inr (orochi_catalog_delete_shard sid2
                    (orochi_catalog_update_shard_range sid1 new_min new_max c))
      | _ \<Rightarrow> Inl (ERROR ''one or both shards do not exist''))"

record ShardPlacementInfo =
  sp_shard_id :: int
  sp_table_oid :: nat
  sp_node_id :: int
  sp_shard_index :: int
  sp_hash_min :: int
  sp_hash_max :: int
  sp_row_count :: int
  sp_size_bytes :: int

definition orochi_get_shard_placements :: "catalog \<Rightarrow> nat \<Rightarrow> ShardPlacementInfo list" where
  "orochi_get_shard_placements c oid =
     map (\<lambda>s. \<lparr>sp_shard_id = shard_id s, sp_table_oid = table_oid s, sp_node_id = s_node_id s,
             sp_shard_index = shard_index s, sp_hash_min = hash_min s, sp_hash_max = hash_max s,
             sp_row_count = s_row_count s, sp_size_bytes = s_size_bytes s\<rparr>)
       (orochi_catalog_get_table_shards c oid)"

section \<open>Lemmas: the hash\<close>

lemma and_1_bit: "(x :: u32) AND 1 \<noteq> 0 \<longleftrightarrow> bit x 0"
  by (simp add: and_one_eq bit_0 odd_iff_mod_2_eq_one)

lemma crc32_bit_alt: "crc32_bit x = drop_bit 1 x XOR (if bit x 0 then 0xEDB88320 else 0)"
  by (simp add: crc32_bit_def and_1_bit)

lemma crc32_bit_xor: "crc32_bit (x XOR y) = crc32_bit x XOR crc32_bit y"
  by (simp add: crc32_bit_alt bit_xor_iff drop_bit_xor ac_simps)

lemma crc32_bits_xor: "(crc32_bit ^^ n) (x XOR y) = (crc32_bit ^^ n) x XOR (crc32_bit ^^ n) y"
  by (induction n) (simp_all add: crc32_bit_xor)

lemma crc32_bits_shift: "\<forall>k < n. \<not> bit x k \<Longrightarrow> (crc32_bit ^^ n) x = drop_bit n x"
proof (induction n)
  case (Suc n)
  then have "(crc32_bit ^^ n) x = drop_bit n x" "\<not> bit (drop_bit n x) 0"
    by (simp_all add: bit_drop_bit_eq)
  then show ?case using crc32_bit_alt [of "drop_bit n x"] by (simp add: drop_bit_drop_bit)
qed simp

lemma low_byte: "(x :: u32) AND 0xFF = take_bit 8 x"
  by (simp add: take_bit_eq_mask mask_eq_exp_minus_1)

lemma crc32_table_lookup: "init_crc32_table ! unat (take_bit 8 x) = (crc32_bit ^^ 8) (take_bit 8 x)"
proof -
  have "unat (take_bit 8 x) < 256"
    using unsigned_take_bit_eq [of 8 x, where 'a = nat] by (simp add: take_bit_eq_mod)
  then show ?thesis by (simp add: init_crc32_table_def)
qed

text \<open>One table step is eight steps of the shift register.\<close>

lemma crc32_hash_step_bits: "crc32_hash_step crc b = (crc32_bit ^^ 8) (crc XOR ucast b)"
proof -
  define x where "x = crc XOR ucast b"
  define y where "y = x XOR take_bit 8 x"
  have low: "\<forall>k < 8. \<not> bit y k"
    by (auto simp: y_def bit_xor_iff bit_take_bit_iff)
  have high: "drop_bit 8 y = drop_bit 8 crc"
    by (rule bit_word_eqI)
      (auto simp: y_def x_def bit_drop_bit_eq bit_xor_iff bit_take_bit_iff bit_ucast_iff
        dest: bit_imp_le_length)
  have "x = take_bit 8 x XOR y"
    by (simp add: y_def ac_simps flip: xor.assoc)
  then have "(crc32_bit ^^ 8) x = (crc32_bit ^^ 8) (take_bit 8 x) XOR drop_bit 8 crc"
    using crc32_bits_xor [of 8 "take_bit 8 x" y] crc32_bits_shift [OF low] high by metis
  then show ?thesis
    by (simp only: crc32_hash_step_def low_byte crc32_table_lookup x_def)
qed

lemma crc32_hash_bits:
  "orochi_crc32_hash data =
     foldl (\<lambda>crc b. (crc32_bit ^^ 8) (crc XOR ucast b)) 0xFFFFFFFF data XOR 0xFFFFFFFF"
proof -
  have "crc32_hash_step = (\<lambda>crc b. (crc32_bit ^^ 8) (crc XOR ucast b))"
    by (intro ext) (rule crc32_hash_step_bits)
  then show ?thesis by (simp add: orochi_crc32_hash_def)
qed

lemma funpow_8: "(f ^^ 8) x = f (f (f (f (f (f (f (f x)))))))"
  by (simp add: eval_nat_numeral)

lemmas crc32_eval = crc32_hash_bits funpow_8 crc32_bit_def

text \<open>The table-driven checksum of \<^verbatim>\<open>orochi_crc32_hash\<close> is the bit-serial CRC-32 with the reflected
  polynomial 0xEDB88320, for every input.\<close>

theorem crc32_hash_is_bit_serial:
  "orochi_crc32_hash data =
     foldl (\<lambda>crc b. (crc32_bit ^^ 8) (crc XOR ucast b)) 0xFFFFFFFF data XOR 0xFFFFFFFF"
  by (rule crc32_hash_bits)

section \<open>Lemmas: from hash to shard\<close>

lemma orochi_hash_datum_i32: "is_i32 (orochi_hash_datum v)"
proof -
  have "is_i32 (sint w)" for w :: u32
    using sint_range_size [of w] by (simp add: word_size)
  then show ?thesis by (cases v) simp_all
qed

lemma shard_index_mod:
  assumes "0 < count" "count \<le> INT32_MAX"
  shows "orochi_get_shard_index h count = h mod 4294967296 mod count"
proof -
  have "0 \<le> h mod 4294967296 mod count" "h mod 4294967296 mod count < count"
    using assms by simp_all
  then have "wrap_i32 (h mod 4294967296 mod count) = h mod 4294967296 mod count"
    using assms by (intro wrap_i32_id) linarith+
  then show ?thesis using assms by (simp add: orochi_get_shard_index_def)
qed

text \<open>C33: For every shard count \<^verbatim>\<open>orochi_get_shard_index\<close> returns an index of an existing shard: below
  the count, not negative, whatever the sign of the hash; for a count that is not positive it is 0. Two
  hashes get the same index exactly when they are congruent as unsigned 32-bit numbers.\<close>

theorem shard_index_in_bounds:
  assumes "is_i32 h" "is_i32 h'" "is_i32 count"
  shows "0 \<le> orochi_get_shard_index h count \<and> orochi_get_shard_index h count < max count 1 \<and>
    (0 < count \<longrightarrow>
       (orochi_get_shard_index h count = orochi_get_shard_index h' count \<longleftrightarrow>
        count dvd h mod 4294967296 - h' mod 4294967296))"
  using assms shard_index_mod [of count h] shard_index_mod [of count h']
  by (cases "0 < count") (auto simp: orochi_get_shard_index_def mod_eq_dvd_iff)

theorem shard_index_in_bounds_witness:
  "0 \<le> orochi_get_shard_index (-1) 7 \<and> orochi_get_shard_index (-1) 7 < 7 \<and>
   orochi_get_shard_index (-1) 7 \<noteq> orochi_get_shard_index 1 7"
  using shard_index_in_bounds [of "-1" 1 7] by simp

text \<open>C19: The shards created for a new table partition the hash space: every distribution value is
  routed to a shard of the table, the one whose range holds its hash, and no other shard of the table
  holds that hash. The bounds of all shards are 32-bit numbers in order (no computation overflows), and
  the keys of the catalog stay unique.\<close>

theorem new_table_routes_every_value:
  assumes "1 \<le> count" "count \<le> INT32_MAX" "c_tables c oid \<noteq> None"
    and "\<forall>r \<in> set (c_shards c). r_table_oid r \<noteq> oid" "catalog_wf c" "ranges_ok c"
  shows "\<exists>c'. orochi_catalog_create_shards now oid count c = Some (Inr c') \<and>
     catalog_wf c' \<and> ranges_ok c' \<and> hash_partition c' oid \<and>
     (\<exists>s. orochi_route_to_shard c' oid v = Some s \<and> table_oid s = oid \<and>
          shard_index s = hash_owner count (orochi_hash_datum v) \<and>
          hash_min s \<le> orochi_hash_datum v \<and> orochi_hash_datum v \<le> hash_max s)"
proof -
  obtain c' where c': "orochi_catalog_create_shards now oid count c = Some (Inr c')"
    using create_shards_result [OF assms(1,3,4)] by simp
  note created = assms(1-4) c'
  show ?thesis
    using create_shards_wf [OF created] create_shards_partitions [OF created] assms(5,6) c'
      orochi_hash_datum_i32 [of v]
    by (auto simp: orochi_route_to_shard_def)
qed

definition example_table :: "nat \<Rightarrow> int \<Rightarrow> OrochiTableInfo" where
  "example_table oid count =
     \<lparr>relid = oid, schema_name = Some ''public'', table_name = Some ''t'', storage_type = 0,
      shard_strategy = 0, shard_count = count, distribution_column = Some ''id'', is_distributed = True,
      is_timeseries = False, time_column = None, chunk_interval = None, compression = 0,
      compression_level = 3\<rparr>"

definition example_catalog :: "int \<Rightarrow> catalog" where
  "example_catalog count =
     \<lparr>c_tables = Map.empty(7 \<mapsto> example_table 7 count), c_shards = [], c_shard_seq = 1, c_nodes = [],
      c_node_seq = 1\<rparr>"

theorem new_table_routes_every_value_witness:
  "\<exists>c'. orochi_catalog_create_shards 0 7 4 (example_catalog 4) = Some (Inr c') \<and>
     catalog_wf c' \<and> ranges_ok c' \<and> hash_partition c' 7 \<and>
     (\<exists>s. orochi_route_to_shard c' 7 (Int4 42) = Some s \<and> table_oid s = 7 \<and>
          shard_index s = hash_owner 4 (orochi_hash_datum (Int4 42)) \<and>
          hash_min s \<le> orochi_hash_datum (Int4 42) \<and> orochi_hash_datum (Int4 42) \<le> hash_max s)"
  by (rule new_table_routes_every_value) (simp_all add: example_catalog_def catalog_wf_def ranges_ok_def)

text \<open>\<^verbatim>\<open>orochi_get_shards_in_range\<close> returns exactly the shards of the table that own a hash of the
  interval.\<close>

theorem shards_in_range_exact:
  assumes "ranges_ok c" "lo \<le> hi"
  shows "s \<in> set (orochi_get_shards_in_range c oid lo hi) \<longleftrightarrow>
    s \<in> set (orochi_catalog_get_table_shards c oid) \<and>
    (\<exists>h. lo \<le> h \<and> h \<le> hi \<and> hash_min s \<le> h \<and> h \<le> hash_max s)"
proof -
  have "hash_min s \<le> hash_max s" if "s \<in> set (orochi_catalog_get_table_shards c oid)"
    using that assms(1)
    by (auto simp: orochi_catalog_get_table_shards_def ranges_ok_def list_all_iff shard_info_def)
  moreover have "(\<exists>h. lo \<le> h \<and> h \<le> hi \<and> hash_min s \<le> h \<and> h \<le> hash_max s) \<longleftrightarrow>
      hash_max s \<ge> lo \<and> hash_min s \<le> hi" if "hash_min s \<le> hash_max s"
    using that assms(2) by (auto intro: exI [of _ "max lo (hash_min s)"])
  ultimately show ?thesis
    by (auto simp: orochi_get_shards_in_range_def)
qed

definition example_shards :: "int \<Rightarrow> catalog" where
  "example_shards count =
     (case orochi_catalog_create_shards 0 7 count (example_catalog count) of
        Some (Inr c) \<Rightarrow> c | _ \<Rightarrow> example_catalog count)"

lemma example_shards_4:
  "catalog_wf (example_shards 4)" "ranges_ok (example_shards 4)" "hash_partition (example_shards 4) 7"
proof -
  obtain c' where c': "orochi_catalog_create_shards 0 7 4 (example_catalog 4) = Some (Inr c')"
    using create_shards_result [of 4 "example_catalog 4" 7 0] by (simp add: example_catalog_def)
  have ex: "catalog_wf (example_catalog 4)" "ranges_ok (example_catalog 4)"
    "c_tables (example_catalog 4) 7 \<noteq> None" "\<forall>r \<in> set (c_shards (example_catalog 4)). r_table_oid r \<noteq> 7"
    by (simp_all add: example_catalog_def catalog_wf_def ranges_ok_def)
  have eq: "example_shards 4 = c'" by (simp add: example_shards_def c')
  show "catalog_wf (example_shards 4)" "ranges_ok (example_shards 4)"
    using create_shards_wf [OF _ _ ex(3,4) c'] ex(1,2) by (simp_all add: eq)
  show "hash_partition (example_shards 4) 7"
    using create_shards_partitions(1) [OF _ _ ex(3,4) c'] by (simp add: eq)
qed

theorem shards_in_range_exact_witness:
  "\<forall>s. s \<in> set (orochi_get_shards_in_range (example_shards 4) 7 0 5) \<longleftrightarrow>
    s \<in> set (orochi_catalog_get_table_shards (example_shards 4) 7) \<and>
    (\<exists>h. 0 \<le> h \<and> h \<le> 5 \<and> hash_min s \<le> h \<and> h \<le> hash_max s)"
  using shards_in_range_exact [OF example_shards_4(2), of 0 5] by simp

section \<open>Lemmas: splitting and merging\<close>

lemma split_not_Inr: "orochi_split_shard_impl now sid c \<noteq> Some (Inr c')"
  by (simp add: orochi_split_shard_impl_def orochi_catalog_create_shard_def insert_shard_def Let_def
      split: option.split)

text \<open>Splitting never succeeds. For an existing shard the insert of the second half leaves
  \<open>shard_index\<close> to its default, which the NOT NULL constraint of the catalog refuses, and for a shard
  that owns more than half of the hash space, as the last shard of every table does, the width of the
  range overflows before that.\<close>

theorem split_never_succeeds:
  "(\<exists>e. orochi_split_shard_impl now sid c = Some (Inl e)) \<or> orochi_split_shard_impl now sid c = None"
  using split_not_Inr [of now sid c] by (metis not_None_eq obj_sumE)

lemma last_shard_width:
  assumes "1 \<le> count" "count \<le> INT32_MAX"
  shows "\<not> is_i32 (shard_hash_max count (INT32_MAX div count) (count - 1) -
      shard_hash_min (INT32_MAX div count) (count - 1))"
proof -
  have "(count - 1) * (INT32_MAX div count) \<le> count * (INT32_MAX div count)"
    using hash_range_pos [OF assms] by (intro mult_right_mono) auto
  also have "\<dots> \<le> INT32_MAX"
    using assms(1) le_zdiv_iff [of count "INT32_MAX div count" INT32_MAX] by (simp add: mult.commute)
  finally show ?thesis by (auto simp: shard_hash_max_def shard_hash_min_def)
qed

lemma merge_rows:
  assumes "catalog_wf c" "r1 \<in> set (c_shards c)" "r2 \<in> set (c_shards c)" "r_table_oid r1 = r_table_oid r2"
  defines "r \<equiv> r1\<lparr>r_hash_min := min (r_hash_min r1) (r_hash_min r2),
                   r_hash_max := max (r_hash_max r1) (r_hash_max r2)\<rparr>"
  shows "\<exists>c'. orochi_merge_shards_impl (r_shard_id r1) (r_shard_id r2) c = Inr c' \<and>
    set (c_shards c') = (if r1 = r2 then set (c_shards c) - {r1} else insert r (set (c_shards c) - {r1, r2}))"
proof -
  let ?c1 = "update_shard (r_shard_id r1) (\<lambda>x. x\<lparr>r_hash_min := r_hash_min r, r_hash_max := r_hash_max r\<rparr>) c"
  have inj: "x = y" if "x \<in> set (c_shards c)" "y \<in> set (c_shards c)" "r_shard_id x = r_shard_id y" for x y
    using that assms(1) by (auto simp: catalog_wf_def distinct_map inj_on_def)
  have rows1: "set (c_shards ?c1) = insert r (set (c_shards c) - {r1})"
    using set_update_shard [OF assms(1,2)] by (simp add: r_def)
  have "orochi_merge_shards_impl (r_shard_id r1) (r_shard_id r2) c =
      Inr (orochi_catalog_delete_shard (r_shard_id r2) ?c1)"
    using assms(4) get_shard_row [OF assms(1,2)] get_shard_row [OF assms(1,3)]
    by (simp add: orochi_merge_shards_impl_def shard_info_def orochi_catalog_update_shard_range_def r_def
        min_def max_def not_less Let_def)
  moreover have "set (c_shards (orochi_catalog_delete_shard (r_shard_id r2) ?c1)) =
      {x \<in> insert r (set (c_shards c) - {r1}). r_shard_id x \<noteq> r_shard_id r2}"
    using rows1 by (auto simp: orochi_catalog_delete_shard_def)
  moreover have "r_shard_id r = r_shard_id r1" by (simp add: r_def)
  ultimately show ?thesis using inj assms(2,3) by auto
qed

text \<open>The hashes between two disjoint ranges, and what they decide: the merged range is the union of the
  two ranges and the gap between them.\<close>

definition in_gap :: "shard_row \<Rightarrow> shard_row \<Rightarrow> int \<Rightarrow> bool" where
  "in_gap r1 r2 h \<longleftrightarrow> r_hash_max r1 < h \<and> h < r_hash_min r2 \<or> r_hash_max r2 < h \<and> h < r_hash_min r1"

lemma partition_disjoint:
  assumes "ranges_ok c" "hash_partition c oid" "r1 \<in> set (c_shards c)" "r2 \<in> set (c_shards c)"
    and "r_table_oid r1 = oid" "r_table_oid r2 = oid" "r1 \<noteq> r2"
  shows "r_hash_max r1 < r_hash_min r2 \<or> r_hash_max r2 < r_hash_min r1"
proof (rule ccontr)
  let ?h = "max (r_hash_min r1) (r_hash_min r2)"
  assume "\<not> ?thesis"
  then have "is_i32 ?h" "holds_hash oid ?h r1" "holds_hash oid ?h r2"
    using assms by (auto simp: ranges_ok_def list_all_iff holds_hash_def le_max_iff_disj)
  then show False using assms(2-4,7) unfolding hash_partition_def by blast
qed

lemma no_gap_iff_adjacent:
  assumes "ranges_ok c" "r1 \<in> set (c_shards c)" "r2 \<in> set (c_shards c)"
    and disj: "r_hash_max r1 < r_hash_min r2 \<or> r_hash_max r2 < r_hash_min r1"
  shows "(\<forall>h. is_i32 h \<longrightarrow> \<not> in_gap r1 r2 h) \<longleftrightarrow>
    r_hash_max r1 + 1 = r_hash_min r2 \<or> r_hash_max r2 + 1 = r_hash_min r1" (is "?L \<longleftrightarrow> ?R")
proof
  have rng: "is_i32 (r_hash_min x) \<and> is_i32 (r_hash_max x) \<and> r_hash_min x \<le> r_hash_max x"
    if "x \<in> set (c_shards c)" for x
    using assms(1) that by (auto simp: ranges_ok_def list_all_iff)
  show ?R if ?L
  proof (rule ccontr)
    assume "\<not> ?R"
    then have "in_gap r1 r2 (r_hash_max r1 + 1) \<and> is_i32 (r_hash_max r1 + 1) \<or>
        in_gap r1 r2 (r_hash_max r2 + 1) \<and> is_i32 (r_hash_max r2 + 1)"
      using disj rng [OF assms(2)] rng [OF assms(3)] by (auto simp: in_gap_def)
    then show False using that by blast
  qed
  show ?L if ?R
    using that rng [OF assms(2)] rng [OF assms(3)] by (auto simp: in_gap_def)
qed

lemma merged_partition_iff:
  assumes part: "hash_partition c oid" and fresh: "r \<notin> set (c_shards c) - {r1, r2}"
    and r1: "r1 \<in> set (c_shards c)" and r2: "r2 \<in> set (c_shards c)"
    and rows: "set (c_shards c') = insert r (set (c_shards c) - {r1, r2})"
    and holds: "\<And>h. holds_hash oid h r \<longleftrightarrow> holds_hash oid h r1 \<or> holds_hash oid h r2 \<or> in_gap r1 r2 h"
    and gap: "\<And>h. in_gap r1 r2 h \<Longrightarrow> \<not> holds_hash oid h r1 \<and> \<not> holds_hash oid h r2"
  shows "hash_partition c' oid \<longleftrightarrow> (\<forall>h. is_i32 h \<longrightarrow> \<not> in_gap r1 r2 h)"
proof
  have owner: "\<exists>!x. x \<in> set (c_shards c) \<and> holds_hash oid h x" if "is_i32 h" for h
    using part that by (simp add: hash_partition_def)
  show "\<forall>h. is_i32 h \<longrightarrow> \<not> in_gap r1 r2 h" if p: "hash_partition c' oid"
  proof (intro allI impI notI)
    fix h assume h: "is_i32 h" "in_gap r1 r2 h"
    then obtain x where "x \<in> set (c_shards c)" "holds_hash oid h x" using owner by blast
    moreover have "x \<noteq> r1" "x \<noteq> r2" using gap [OF h(2)] calculation by auto
    moreover have "holds_hash oid h r" using holds h by blast
    ultimately show False
      using p h(1) fresh unfolding hash_partition_def rows by blast
  qed
  show "hash_partition c' oid" if nogap: "\<forall>h. is_i32 h \<longrightarrow> \<not> in_gap r1 r2 h"
    unfolding hash_partition_def
  proof (intro allI impI)
    fix h assume h: "is_i32 h"
    obtain x where x: "x \<in> set (c_shards c)" "holds_hash oid h x"
      and uniq: "\<And>y. y \<in> set (c_shards c) \<Longrightarrow> holds_hash oid h y \<Longrightarrow> y = x"
      using owner [OF h] by blast
    show "\<exists>!x. x \<in> set (c_shards c') \<and> holds_hash oid h x"
    proof (cases "x = r1 \<or> x = r2")
      case True
      then show ?thesis using x uniq holds unfolding rows by blast
    next
      case False
      then have "\<not> holds_hash oid h r" using holds nogap h uniq r1 r2 by blast
      then show ?thesis using False x uniq unfolding rows by blast
    qed
  qed
qed

lemma merge_partition_iff:
  assumes wf: "catalog_wf c" "ranges_ok c" and part: "hash_partition c oid"
    and r1: "r1 \<in> set (c_shards c)" "r_table_oid r1 = oid"
    and r2: "r2 \<in> set (c_shards c)" "r_table_oid r2 = oid"
  shows "\<exists>c'. orochi_merge_shards_impl (r_shard_id r1) (r_shard_id r2) c = Inr c' \<and>
    (hash_partition c' oid \<longleftrightarrow>
       r1 \<noteq> r2 \<and> (r_hash_max r1 + 1 = r_hash_min r2 \<or> r_hash_max r2 + 1 = r_hash_min r1))"
proof -
  define r where "r = r1\<lparr>r_hash_min := min (r_hash_min r1) (r_hash_min r2),
                   r_hash_max := max (r_hash_max r1) (r_hash_max r2)\<rparr>"
  obtain c' where c': "orochi_merge_shards_impl (r_shard_id r1) (r_shard_id r2) c = Inr c'"
    and rows: "set (c_shards c') =
      (if r1 = r2 then set (c_shards c) - {r1} else insert r (set (c_shards c) - {r1, r2}))"
    using merge_rows [OF wf(1) r1(1) r2(1)] r1(2) r2(2) unfolding r_def by auto
  have rng: "is_i32 (r_hash_min x) \<and> is_i32 (r_hash_max x) \<and> r_hash_min x \<le> r_hash_max x"
    if "x \<in> set (c_shards c)" for x
    using wf(2) that by (auto simp: ranges_ok_def list_all_iff)
  have "hash_partition c' oid \<longleftrightarrow>
       r1 \<noteq> r2 \<and> (r_hash_max r1 + 1 = r_hash_min r2 \<or> r_hash_max r2 + 1 = r_hash_min r1)"
  proof (cases "r1 = r2")
    case True
    have h: "is_i32 (r_hash_min r1)" "holds_hash oid (r_hash_min r1) r1"
      using rng [OF r1(1)] r1(2) by (auto simp: holds_hash_def)
    then have "\<not> hash_partition c' oid"
      using part r1(1) True unfolding hash_partition_def rows by (metis Diff_iff insertI1)
    then show ?thesis using True by simp
  next
    case False
    note disj = partition_disjoint [OF wf(2) part r1(1) r2(1) r1(2) r2(2) False]
    have "r_shard_id r = r_shard_id r1" by (simp add: r_def)
    then have "r \<notin> set (c_shards c) - {r1, r2}"
      using wf(1) r1(1) by (auto simp: catalog_wf_def distinct_map inj_on_def)
    moreover have "holds_hash oid h r \<longleftrightarrow> holds_hash oid h r1 \<or> holds_hash oid h r2 \<or> in_gap r1 r2 h" for h
      using disj rng [OF r1(1)] rng [OF r2(1)] r1(2) r2(2) by (auto simp: holds_hash_def r_def in_gap_def)
    moreover have "in_gap r1 r2 h \<Longrightarrow> \<not> holds_hash oid h r1 \<and> \<not> holds_hash oid h r2" for h
      using rng [OF r1(1)] rng [OF r2(1)] by (auto simp: holds_hash_def in_gap_def)
    ultimately have "hash_partition c' oid \<longleftrightarrow> (\<forall>h. is_i32 h \<longrightarrow> \<not> in_gap r1 r2 h)"
      using merged_partition_iff [OF part _ r1(1) r2(1)] rows False by simp
    then show ?thesis
      using no_gap_iff_adjacent [OF wf(2) r1(1) r2(1) disj] False by simp
  qed
  then show ?thesis using c' by blast
qed

text \<open>Merging two shards of a table keeps the hash space partitioned exactly when the shards are
  different and their ranges are adjacent. \<^verbatim>\<open>orochi_merge_shards_impl\<close> checks neither: shards apart from
  each other give a shard whose range overlaps those between them, and a shard merged with itself is
  deleted.\<close>

theorem merge_keeps_partition_iff_adjacent:
  assumes wf: "catalog_wf c" "ranges_ok c" and part: "hash_partition c oid"
    and r1: "r1 \<in> set (c_shards c)" "r_table_oid r1 = oid"
    and r2: "r2 \<in> set (c_shards c)" "r_table_oid r2 = oid"
  shows "\<exists>c'. orochi_merge_shards_impl (r_shard_id r1) (r_shard_id r2) c = Inr c' \<and>
    (hash_partition c' oid \<longleftrightarrow>
       r1 \<noteq> r2 \<and> (r_hash_max r1 + 1 = r_hash_min r2 \<or> r_hash_max r2 + 1 = r_hash_min r1))"
  using assms by (rule merge_partition_iff)

theorem merge_keeps_partition_iff_adjacent_witness:
  "\<exists>c'. orochi_merge_shards_impl 1 3 (example_shards 4) = Inr c' \<and> \<not> hash_partition c' 7"
proof -
  let ?r1 = "c_shards (example_shards 4) ! 0" and ?r2 = "c_shards (example_shards 4) ! 2"
  have rows: "?r1 \<in> set (c_shards (example_shards 4))" "?r2 \<in> set (c_shards (example_shards 4))"
    "r_table_oid ?r1 = 7" "r_table_oid ?r2 = 7" "r_shard_id ?r1 = 1" "r_shard_id ?r2 = 3"
    "\<not> (r_hash_max ?r1 + 1 = r_hash_min ?r2 \<or> r_hash_max ?r2 + 1 = r_hash_min ?r1)"
    by code_simp+
  show ?thesis
    using merge_keeps_partition_iff_adjacent [OF example_shards_4 rows(1,3,2,4)] rows(5-7) by auto
qed

section \<open>Lemmas: rebalancing\<close>

lemma worker_at_nth:
  "idx \<le> cur \<Longrightarrow> cur - idx < length (filter active_worker ns) \<Longrightarrow>
   worker_at ns idx cur = n_node_id (filter active_worker ns ! (cur - idx))"
proof (induction ns idx cur rule: worker_at.induct)
  case (2 n ns idx cur)
  then show ?case by (auto simp: nth_Cons' Suc_diff_le split: if_splits)
qed simp

text \<open>The node that the loop gives to the shard with id \<open>sid\<close>, if the shard is among those visited.\<close>

fun assigned :: "(nat \<Rightarrow> int) \<Rightarrow> nat \<Rightarrow> nat \<Rightarrow> OrochiShardInfo list \<Rightarrow> int \<Rightarrow> int option \<Rightarrow> int option" where
  "assigned t n cur [] sid old = old"
| "assigned t n cur (s # ss) sid old =
     (if shard_id s = sid then Some (t cur) else assigned t n ((cur + 1) mod n) ss sid old)"

lemma assigned_other: "sid \<notin> shard_id ` set ss \<Longrightarrow> assigned t n cur ss sid old = old"
  by (induction ss arbitrary: cur) auto

lemma assigned_nth:
  "distinct (map shard_id ss) \<Longrightarrow> k < length ss \<Longrightarrow> cur < n \<Longrightarrow>
   assigned t n cur ss (shard_id (ss ! k)) old = Some (t ((cur + k) mod n))"
proof (induction ss arbitrary: k cur)
  case (Cons s ss)
  show ?case
  proof (cases k)
    case 0
    then show ?thesis using Cons.prems(3) by simp
  next
    case (Suc j)
    then have "shard_id s \<noteq> shard_id (ss ! j)" using Cons.prems(1,2) by auto
    moreover have "((cur + 1) mod n + j) mod n = (cur + Suc j) mod n" by (simp add: mod_simps)
    ultimately show ?thesis using Cons Suc by simp
  qed
qed simp

lemma move_with_data_rows:
  assumes "catalog_wf c" "r \<in> set (c_shards c)" "0 < target"
  shows "(if target \<ge> 0 \<and> s_node_id (shard_info r) \<noteq> target
          then orochi_move_shard_with_data (r_shard_id r) target c else Inr c) =
    Inr (update_shard (r_shard_id r) (\<lambda>x. x\<lparr>r_node_id := Some target\<rparr>) c)"
proof (cases "s_node_id (shard_info r) = target")
  case True
  then have node: "r_node_id r = Some target"
    using assms(3) by (auto simp: shard_info_def split: option.splits)
  have "update_where (\<lambda>x. r_shard_id x = r_shard_id r) (\<lambda>x. x\<lparr>r_node_id := Some target\<rparr>) (c_shards c) = c_shards c"
    unfolding update_where_def
  proof (rule map_idI)
    fix x assume "x \<in> set (c_shards c)"
    then have "r_shard_id x = r_shard_id r \<Longrightarrow> x = r"
      using assms(1,2) by (auto simp: catalog_wf_def distinct_map inj_on_def)
    moreover have "r\<lparr>r_node_id := Some target\<rparr> = r" using node by simp
    ultimately show "(if r_shard_id x = r_shard_id r then x\<lparr>r_node_id := Some target\<rparr> else x) = x" by auto
  qed
  then show ?thesis using True by (simp add: update_shard_def)
next
  case False
  then show ?thesis
    using assms by (simp add: orochi_move_shard_with_data_def get_shard_row)
qed

lemma rebalance_loop_rows:
  assumes "catalog_wf c" "distinct (map shard_id ss)" "\<forall>s \<in> set ss. \<exists>r \<in> set (c_shards c). s = shard_info r"
    and "\<And>k. k < n \<Longrightarrow> 0 < worker_at nodes 0 k" "cur < n"
  shows "rebalance_loop nodes n cur ss c =
    Inr (c\<lparr>c_shards := map (\<lambda>r. r\<lparr>r_node_id := assigned (worker_at nodes 0) n cur ss (r_shard_id r) (r_node_id r)\<rparr>)
           (c_shards c)\<rparr>)"
  using assms
proof (induction ss arbitrary: cur c)
  case Nil
  then show ?case by (simp add: map_idI)
next
  case (Cons s ss)
  let ?t = "worker_at nodes 0"
  obtain r where r: "r \<in> set (c_shards c)" "s = shard_info r" using Cons.prems(3) by auto
  have sid: "shard_id s = r_shard_id r" by (simp add: r(2) shard_info_def)
  define c1 where "c1 = update_shard (r_shard_id r) (\<lambda>x. x\<lparr>r_node_id := Some (?t cur)\<rparr>) c"
  have wf1: "catalog_wf c1" unfolding c1_def using Cons.prems(1) by (intro update_shard_wf) auto
  have rows1: "\<forall>s' \<in> set ss. \<exists>r' \<in> set (c_shards c1). s' = shard_info r'"
  proof
    fix s' assume s': "s' \<in> set ss"
    then obtain r' where r': "r' \<in> set (c_shards c)" "s' = shard_info r'" using Cons.prems(3) by auto
    have "r_shard_id r' \<noteq> r_shard_id r"
      using s' Cons.prems(2) r' sid by (auto simp: shard_info_def image_iff)
    then have "r' \<in> set (c_shards c1)"
      using r' set_update_shard [OF Cons.prems(1) r(1)] by (auto simp: c1_def)
    then show "\<exists>r' \<in> set (c_shards c1). s' = shard_info r'" using r' by blast
  qed
  have "rebalance_loop nodes n cur (s # ss) c = rebalance_loop nodes n ((cur + 1) mod n) ss c1"
    using move_with_data_rows [OF Cons.prems(1) r(1) Cons.prems(4) [OF Cons.prems(5)]]
    by (simp only: rebalance_loop.simps Let_def sid r(2) [symmetric] c1_def sum.case)
  also have "\<dots> = Inr (c1\<lparr>c_shards := map (\<lambda>x. x\<lparr>r_node_id :=
      assigned ?t n ((cur + 1) mod n) ss (r_shard_id x) (r_node_id x)\<rparr>) (c_shards c1)\<rparr>)"
    using Cons.prems by (intro Cons.IH wf1 rows1) auto
  also have "\<dots> = Inr (c\<lparr>c_shards := map (\<lambda>x. x\<lparr>r_node_id :=
      assigned ?t n cur (s # ss) (r_shard_id x) (r_node_id x)\<rparr>) (c_shards c)\<rparr>)"
    using Cons.prems(2) assigned_other [of "r_shard_id r" ss ?t n "(cur + 1) mod n"] sid
    by (auto simp: c1_def update_shard_def update_where_def)
  finally show ?case .
qed

lemma sort_key_map: "(\<And>x. k (f x) = k x) \<Longrightarrow> sort_key k (map f xs) = map f (sort_key k xs)"
proof -
  assume k: "\<And>x. k (f x) = k x"
  have "insort_key k (f x) (map f ys) = map f (insort_key k x ys)" for x ys
    by (induction ys) (simp_all add: k)
  then show ?thesis by (induction xs) simp_all
qed

lemma count_mod:
  "j < n \<Longrightarrow> length (filter (\<lambda>k. k mod n = j) [0 ..< m]) = m div n + (if j < m mod n then 1 else 0)"
proof (induction m)
  case (Suc m)
  have "m mod n < n" using Suc.prems by simp
  then show ?case using Suc by (auto simp: div_Suc mod_Suc)
qed simp

lemma rebalanced_shards:
  assumes wf: "catalog_wf c" and dist: "orochi_is_distributed_table c oid"
    and pos: "\<forall>n \<in> set (c_nodes c). 0 < n_node_id n"
  defines "ws \<equiv> filter active_worker (orochi_catalog_get_active_nodes c)"
  assumes ws: "ws \<noteq> []"
  shows "\<exists>c'. orochi_rebalance_table_shards oid c = Inr c' \<and>
    map s_node_id (orochi_catalog_get_table_shards c' oid) =
      map (\<lambda>k. n_node_id (ws ! (k mod length ws))) [0 ..< length (orochi_catalog_get_table_shards c oid)] \<and>
    map (\<lambda>r. r\<lparr>r_node_id := None\<rparr>) (c_shards c') = map (\<lambda>r. r\<lparr>r_node_id := None\<rparr>) (c_shards c)"
proof -
  define nodes where "nodes = orochi_catalog_get_active_nodes c"
  define rows where "rows = sort_key r_shard_index (filter (\<lambda>r. r_table_oid r = oid) (c_shards c))"
  let ?ss = "map shard_info rows" and ?n = "length ws" and ?t = "worker_at nodes 0"
  define f where "f r = r\<lparr>r_node_id := assigned ?t ?n 0 ?ss (r_shard_id r) (r_node_id r)\<rparr>" for r :: shard_row
  have t: "?t k = n_node_id (ws ! k)" if "k < ?n" for k
    using worker_at_nth [of 0 k nodes] that by (simp add: ws_def nodes_def)
  have tpos: "0 < ?t k" if "k < ?n" for k
  proof -
    have "ws ! k \<in> set ws" using that by simp
    then have "ws ! k \<in> set (c_nodes c)" by (auto simp: ws_def orochi_catalog_get_active_nodes_def)
    then show ?thesis using pos t [OF that] by simp
  qed
  have ids: "distinct (map shard_id ?ss)"
    using wf by (auto simp: rows_def catalog_wf_def distinct_map shard_info_def comp_def inj_on_def)
  have "rebalance_loop nodes ?n 0 ?ss c = Inr (c\<lparr>c_shards := map f (c_shards c)\<rparr>)" (is "_ = Inr ?c'")
  proof -
    have A: "\<forall>s \<in> set ?ss. \<exists>r \<in> set (c_shards c). s = shard_info r" by (auto simp: rows_def)
    have feq: "f = (\<lambda>r. r\<lparr>r_node_id := assigned ?t ?n 0 ?ss (r_shard_id r) (r_node_id r)\<rparr>)"
      by (intro ext) (rule f_def)
    show ?thesis unfolding feq by (rule rebalance_loop_rows [OF wf ids A tpos]) (use ws in simp_all)
  qed
  then have result: "orochi_rebalance_table_shards oid c = Inr ?c'"
    using dist ws by (simp add: orochi_rebalance_table_shards_def Let_def nodes_def ws_def rows_def
        orochi_catalog_get_table_shards_def)
  have "filter (\<lambda>r. r_table_oid r = oid) (map f (c_shards c)) = map f (filter (\<lambda>r. r_table_oid r = oid) (c_shards c))"
    by (simp add: filter_map comp_def f_def)
  then have shards': "orochi_catalog_get_table_shards ?c' oid = map (\<lambda>r. shard_info (f r)) rows"
    by (simp add: orochi_catalog_get_table_shards_def rows_def sort_key_map f_def)
  have "map s_node_id (orochi_catalog_get_table_shards ?c' oid) = map (\<lambda>k. n_node_id (ws ! (k mod ?n))) [0 ..< length rows]"
  proof (rule nth_equalityI)
    fix k assume "k < length (map s_node_id (orochi_catalog_get_table_shards ?c' oid))"
    then have k: "k < length rows" by (simp add: shards')
    then have "r_node_id (f (rows ! k)) = Some (?t (k mod ?n))"
      using assigned_nth [OF ids, of k 0 ?n ?t] ws by (simp add: f_def shard_info_def)
    then show "map s_node_id (orochi_catalog_get_table_shards ?c' oid) ! k =
        map (\<lambda>k. n_node_id (ws ! (k mod ?n))) [0 ..< length rows] ! k"
      using k t [of "k mod ?n"] ws by (simp add: shards' shard_info_def)
  qed (simp add: shards')
  then show ?thesis
    using result by (auto simp: f_def comp_def rows_def orochi_catalog_get_table_shards_def)
qed

text \<open>Rebalancing a distributed table spreads its shards evenly: it succeeds, changes nothing but the
  placement of shards, and afterwards every active worker holds the number of shards of the table
  divided by the number of workers, rounded down or up.\<close>

theorem rebalance_is_even:
  assumes "catalog_wf c" "orochi_is_distributed_table c oid" "\<forall>n \<in> set (c_nodes c). 0 < n_node_id n"
    and "w \<in> set (filter active_worker (orochi_catalog_get_active_nodes c))"
  shows "\<exists>c'. orochi_rebalance_table_shards oid c = Inr c' \<and>
    (let m = length (orochi_catalog_get_table_shards c oid);
         n = length (filter active_worker (orochi_catalog_get_active_nodes c));
         held = length (filter (\<lambda>s. s_node_id s = n_node_id w) (orochi_catalog_get_table_shards c' oid))
     in m div n \<le> held \<and> held \<le> m div n + 1) \<and>
    map (\<lambda>r. r\<lparr>r_node_id := None\<rparr>) (c_shards c') = map (\<lambda>r. r\<lparr>r_node_id := None\<rparr>) (c_shards c)"
proof -
  let ?ws = "filter active_worker (orochi_catalog_get_active_nodes c)"
  let ?m = "length (orochi_catalog_get_table_shards c oid)" and ?n = "length ?ws"
  obtain c' where c': "orochi_rebalance_table_shards oid c = Inr c'"
    and placed: "map s_node_id (orochi_catalog_get_table_shards c' oid) = map (\<lambda>k. n_node_id (?ws ! (k mod ?n))) [0 ..< ?m]"
    and frame: "map (\<lambda>r. r\<lparr>r_node_id := None\<rparr>) (c_shards c') = map (\<lambda>r. r\<lparr>r_node_id := None\<rparr>) (c_shards c)"
    using rebalanced_shards [OF assms(1-3)] assms(4) by fastforce
  obtain j where j: "j < ?n" "w = ?ws ! j" using assms(4) by (metis in_set_conv_nth)
  have "distinct (map n_node_id ?ws)"
    using assms(1) by (auto simp: catalog_wf_def orochi_catalog_get_active_nodes_def distinct_map inj_on_def)
  then have same: "n_node_id (?ws ! (k mod ?n)) = n_node_id w \<longleftrightarrow> k mod ?n = j" for k
  proof -
    have "k mod ?n < ?n" using j(1) by (intro mod_less_divisor) linarith
    then show ?thesis
      using nth_eq_iff_index_eq [OF \<open>distinct (map n_node_id ?ws)\<close>, of "k mod ?n" j] j by simp
  qed
  have "length (filter (\<lambda>s. s_node_id s = n_node_id w) (orochi_catalog_get_table_shards c' oid)) =
      length (filter (\<lambda>x. x = n_node_id w) (map s_node_id (orochi_catalog_get_table_shards c' oid)))"
    by (simp add: filter_map comp_def)
  also have "\<dots> = length (filter (\<lambda>k. k mod ?n = j) [0 ..< ?m])"
    by (simp add: placed filter_map comp_def same)
  also have "\<dots> = ?m div ?n + (if j < ?m mod ?n then 1 else 0)" by (rule count_mod [OF j(1)])
  finally show ?thesis using c' frame by (auto simp: Let_def)
qed

definition example_cluster :: catalog where
  "example_cluster = (example_shards 4)\<lparr>c_nodes := map (\<lambda>i.
     \<lparr>n_node_id = i, hostname = ''w'', n_port = i, n_role = OROCHI_NODE_WORKER, n_is_active = True,
      n_shard_count = 0, n_total_size = 0, n_last_heartbeat = 0\<rparr>) [1, 2, 3], c_node_seq := 4\<rparr>"

theorem rebalance_is_even_witness:
  "\<exists>c'. orochi_rebalance_table_shards 7 example_cluster = Inr c' \<and>
    length (orochi_catalog_get_table_shards example_cluster 7) = 4 \<and>
    length (filter (\<lambda>s. s_node_id s = 3) (orochi_catalog_get_table_shards c' 7)) \<in> {1, 2}"
proof -
  let ?w = "c_nodes example_cluster ! 2"
  have wf: "catalog_wf example_cluster"
    using example_shards_4(1) by (simp add: catalog_wf_def example_cluster_def)
  have facts: "orochi_is_distributed_table example_cluster 7" "\<forall>n \<in> set (c_nodes example_cluster). 0 < n_node_id n"
    "?w \<in> set (filter active_worker (orochi_catalog_get_active_nodes example_cluster))"
    "length (orochi_catalog_get_table_shards example_cluster 7) = 4"
    "length (filter active_worker (orochi_catalog_get_active_nodes example_cluster)) = 3" "n_node_id ?w = 3"
    by code_simp+
  show ?thesis
    using rebalance_is_even [OF wf facts(1-3)] unfolding facts(4-6) Let_def by auto
qed

section \<open>Lemmas: choosing a node\<close>

lemma select_node_loop_min:
  "select_node_loop ns best m = b \<Longrightarrow>
   (b = best \<and> (\<forall>n \<in> set ns. n_role n = OROCHI_NODE_WORKER \<longrightarrow> m \<le> n_shard_count n)) \<or>
   (\<exists>n \<in> set ns. n_role n = OROCHI_NODE_WORKER \<and> n_node_id n = b \<and> n_shard_count n < m \<and>
      (\<forall>n' \<in> set ns. n_role n' = OROCHI_NODE_WORKER \<longrightarrow> n_shard_count n \<le> n_shard_count n'))"
proof (induction ns best m rule: select_node_loop.induct)
  case (2 n ns best m)
  then show ?case by (auto split: if_splits)
qed simp

lemma active_nodes_iff: "n \<in> set (orochi_catalog_get_active_nodes c) \<longleftrightarrow> n \<in> set (c_nodes c) \<and> n_is_active n"
  by (auto simp: orochi_catalog_get_active_nodes_def)

text \<open>A new shard is placed on an active worker with the fewest shards, and -1 is returned exactly when
  there is no active worker (counts are below the largest 64-bit number).\<close>

lemma select_node_is_least_loaded:
  assumes "\<forall>n \<in> set (c_nodes c). n_shard_count n < 9223372036854775807 \<and> 0 \<le> n_node_id n"
  shows "if \<exists>n \<in> set (c_nodes c). active_worker n
    then \<exists>n \<in> set (c_nodes c). active_worker n \<and> orochi_select_node_for_shard c = n_node_id n \<and>
           (\<forall>n' \<in> set (c_nodes c). active_worker n' \<longrightarrow> n_shard_count n \<le> n_shard_count n')
    else orochi_select_node_for_shard c = -1"
proof -
  have worker: "active_worker n \<longleftrightarrow> n \<in> set (orochi_catalog_get_active_nodes c) \<and> n_role n = OROCHI_NODE_WORKER"
    if "n \<in> set (c_nodes c)" for n
    using that by (auto simp: active_nodes_iff active_worker_def)
  have nodes: "n \<in> set (c_nodes c)" if "n \<in> set (orochi_catalog_get_active_nodes c)" for n
    using that by (simp add: active_nodes_iff)
  show ?thesis
    using select_node_loop_min [OF orochi_select_node_for_shard_def [symmetric, of c]]
  proof
    assume none: "orochi_select_node_for_shard c = - 1 \<and>
      (\<forall>n \<in> set (orochi_catalog_get_active_nodes c). n_role n = OROCHI_NODE_WORKER \<longrightarrow> 9223372036854775807 \<le> n_shard_count n)"
    then have "\<not> (\<exists>n \<in> set (c_nodes c). active_worker n)"
      using assms worker by (metis linorder_not_less)
    then show ?thesis using none by simp
  next
    assume "\<exists>n \<in> set (orochi_catalog_get_active_nodes c). n_role n = OROCHI_NODE_WORKER \<and>
      n_node_id n = orochi_select_node_for_shard c \<and> n_shard_count n < 9223372036854775807 \<and>
      (\<forall>n' \<in> set (orochi_catalog_get_active_nodes c). n_role n' = OROCHI_NODE_WORKER \<longrightarrow> n_shard_count n \<le> n_shard_count n')"
    then have "\<exists>n \<in> set (c_nodes c). active_worker n \<and> orochi_select_node_for_shard c = n_node_id n \<and>
        (\<forall>n' \<in> set (c_nodes c). active_worker n' \<longrightarrow> n_shard_count n \<le> n_shard_count n')"
      using worker nodes by metis
    then show ?thesis by auto
  qed
qed

section \<open>Lemmas: co-location\<close>

text \<open>The groups of the table are keyed: an id belongs to one pair of shard count and strategy.\<close>

definition colocation_wf :: "colocation \<Rightarrow> bool" where
  "colocation_wf g \<longleftrightarrow> distinct (map fst (cg_rows g)) \<and> 0 < cg_seq g \<and>
     list_all (\<lambda>row. 0 < fst row \<and> fst row < cg_seq g) (cg_rows g)"

lemma colocation_group_lookup:
  assumes "colocation_wf g" "orochi_catalog_get_table c oid = Some ti" "is_distributed ti"
    and "orochi_get_colocation_group c oid g = (gid, g')"
  shows "colocation_wf g' \<and> (gid, shard_count ti, shard_strategy ti) \<in> set (cg_rows g') \<and>
    set (cg_rows g) \<subseteq> set (cg_rows g') \<and> 0 < gid"
proof (cases "find (\<lambda>(_, n, st). n = shard_count ti \<and> st = shard_strategy ti) (cg_rows g)")
  case None
  then show ?thesis
    using assms by (fastforce simp: orochi_get_colocation_group_def orochi_create_colocation_group_def
        colocation_wf_def list_all_iff)
next
  case (Some row)
  then show ?thesis
    using assms find_SomeD [OF Some]
    by (cases row) (auto simp: orochi_get_colocation_group_def colocation_wf_def list_all_iff)
qed

lemma find_snoc: "find P xs = None \<Longrightarrow> P x \<Longrightarrow> find P (xs @ [x]) = Some x"
  by (induction xs) (auto split: if_splits)

lemma colocation_group_stable:
  assumes "orochi_catalog_get_table c oid = Some ti" "is_distributed ti"
    and "orochi_get_colocation_group c oid g = (gid, g')"
  shows "\<exists>row. find (\<lambda>(_, n, st). n = shard_count ti \<and> st = shard_strategy ti) (cg_rows g') = Some (gid, row)"
  using assms
  by (cases "find (\<lambda>(_, n, st). n = shard_count ti \<and> st = shard_strategy ti) (cg_rows g)")
    (auto simp: orochi_get_colocation_group_def orochi_create_colocation_group_def find_snoc)

text \<open>Two different distributed tables that are not reference tables are co-located exactly when
  they have the same shard count and the same strategy; the group table stays keyed. Neither the
  columns nor their types are compared.\<close>

theorem colocated_iff_same_layout:
  assumes "colocation_wf g" "t1 \<noteq> t2"
    and "orochi_catalog_get_table c t1 = Some ti1" "is_distributed ti1" "shard_strategy ti1 \<noteq> OROCHI_SHARD_REFERENCE"
    and "orochi_catalog_get_table c t2 = Some ti2" "is_distributed ti2" "shard_strategy ti2 \<noteq> OROCHI_SHARD_REFERENCE"
  shows "(fst (orochi_tables_are_colocated c t1 t2 g) \<longleftrightarrow>
      shard_count ti1 = shard_count ti2 \<and> shard_strategy ti1 = shard_strategy ti2) \<and>
    colocation_wf (snd (orochi_tables_are_colocated c t1 t2 g))"
proof -
  obtain a g1 where a: "orochi_get_colocation_group c t1 g = (a, g1)" by fastforce
  obtain b g2 where b: "orochi_get_colocation_group c t2 g1 = (b, g2)" by fastforce
  note A = colocation_group_lookup [OF assms(1,3,4) a]
  note B = colocation_group_lookup [OF conjunct1 [OF A] assms(6,7) b]
  have rows: "(a, shard_count ti1, shard_strategy ti1) \<in> set (cg_rows g2)"
    "(b, shard_count ti2, shard_strategy ti2) \<in> set (cg_rows g2)" using A B by auto
  have uniq: "x = y" if "x \<in> set (cg_rows g2)" "y \<in> set (cg_rows g2)" "fst x = fst y" for x y
    using B that by (auto simp: colocation_wf_def distinct_map inj_on_def)
  have "a = b" if "shard_count ti1 = shard_count ti2" "shard_strategy ti1 = shard_strategy ti2"
    using colocation_group_stable [OF assms(3,4) a] that assms(6,7) b
    by (auto simp: orochi_get_colocation_group_def)
  moreover have "shard_count ti1 = shard_count ti2 \<and> shard_strategy ti1 = shard_strategy ti2" if "a = b"
    using uniq [OF rows] that by simp
  moreover have "orochi_tables_are_colocated c t1 t2 g = (a = b \<and> a \<noteq> -1, g2)"
    using assms a b by (simp add: orochi_tables_are_colocated_def orochi_is_reference_table_def)
  moreover have "a \<noteq> -1" using A by auto
  ultimately show ?thesis using B by auto
qed

definition two_tables :: catalog where
  "two_tables = (example_catalog 4)\<lparr>c_tables := Map.empty(7 \<mapsto> example_table 7 4, 8 \<mapsto> example_table 8 4)\<rparr>"

theorem colocated_iff_same_layout_witness:
  "fst (orochi_tables_are_colocated two_tables 7 8 \<lparr>cg_rows = [], cg_seq = 1\<rparr>)"
  using colocated_iff_same_layout [of "\<lparr>cg_rows = [], cg_seq = 1\<rparr>" 7 8 two_tables
      "(example_table 7 4)\<lparr>chunk_interval := None\<rparr>" "(example_table 8 4)\<lparr>chunk_interval := None\<rparr>"]
  by (simp add: colocation_wf_def two_tables_def orochi_catalog_get_table_def example_table_def)

section \<open>The catalog as a state machine\<close>

text \<open>The operations on the catalog of shards, in any order. Creating the shards of a table presupposes
  that the table is registered and has none, as \<^verbatim>\<open>create_distributed_table\<close> does; merging is restricted
  to adjacent ranges, which its comment names and the code does not check.\<close>

definition adjacent :: "shard_row \<Rightarrow> shard_row \<Rightarrow> bool" where
  "adjacent r1 r2 \<longleftrightarrow> r_hash_max r1 + 1 = r_hash_min r2 \<or> r_hash_max r2 + 1 = r_hash_min r1"

inductive catalog_step :: "catalog \<Rightarrow> catalog \<Rightarrow> bool" where
  step_register:
    "orochi_catalog_register_table ti c = Inr c' \<Longrightarrow> catalog_step c c'"
| step_create:
    "c_tables c oid \<noteq> None \<Longrightarrow> \<forall>r \<in> set (c_shards c). r_table_oid r \<noteq> oid \<Longrightarrow> 1 \<le> count \<Longrightarrow>
     count \<le> INT32_MAX \<Longrightarrow> orochi_catalog_create_shards now oid count c = Some (Inr c') \<Longrightarrow> catalog_step c c'"
| step_remove: "catalog_step c (orochi_catalog_remove_table oid c)"
| step_move: "orochi_move_shard now sid target (c, m) = Inr (c', m') \<Longrightarrow> catalog_step c c'"
| step_move_data: "orochi_move_shard_with_data sid target c = Inr c' \<Longrightarrow> catalog_step c c'"
| step_rebalance: "orochi_rebalance_table_shards oid c = Inr c' \<Longrightarrow> catalog_step c c'"
| step_stats: "catalog_step c (orochi_catalog_update_shard_stats sid rows bytes c)"
| step_access: "catalog_step c (orochi_catalog_record_shard_access now sid c)"
| step_split: "orochi_split_shard_impl now sid c = Some (Inr c') \<Longrightarrow> catalog_step c c'"
| step_merge:
    "r1 \<in> set (c_shards c) \<Longrightarrow> r2 \<in> set (c_shards c) \<Longrightarrow> adjacent r1 r2 \<Longrightarrow>
     orochi_merge_shards_impl (r_shard_id r1) (r_shard_id r2) c = Inr c' \<Longrightarrow> catalog_step c c'"

definition catalog_inv :: "catalog \<Rightarrow> bool" where
  "catalog_inv c \<longleftrightarrow> catalog_wf c \<and> ranges_ok c \<and> (\<forall>r \<in> set (c_shards c). hash_partition c (r_table_oid r))"

text \<open>Whether a table is partitioned depends on its own rows only.\<close>

lemma partition_cong:
  assumes "\<And>r. r_table_oid r = oid \<Longrightarrow> r \<in> set (c_shards c') \<longleftrightarrow> r \<in> set (c_shards c)"
  shows "hash_partition c' oid \<longleftrightarrow> hash_partition c oid"
proof -
  have "r \<in> set (c_shards c') \<and> holds_hash oid h r \<longleftrightarrow> r \<in> set (c_shards c) \<and> holds_hash oid h r" for h r
    using assms [of r] by (auto simp: holds_hash_def)
  then show ?thesis by (simp add: hash_partition_def)
qed

lemma update_shard_inv:
  assumes "catalog_inv c"
    and "\<And>r. r_shard_id (f r) = r_shard_id r" "\<And>r. r_table_oid (f r) = r_table_oid r"
    and "\<And>r. r_shard_index (f r) = r_shard_index r" "\<And>r. r_hash_min (f r) = r_hash_min r"
    and "\<And>r. r_hash_max (f r) = r_hash_max r"
  shows "catalog_inv (update_shard sid f c)"
  unfolding catalog_inv_def
proof (intro conjI ballI)
  show "catalog_wf (update_shard sid f c)" "ranges_ok (update_shard sid f c)"
    using assms by (auto simp: catalog_inv_def intro: wf_intros)
  fix r assume "r \<in> set (c_shards (update_shard sid f c))"
  then obtain r0 where "r0 \<in> set (c_shards c)" "r_table_oid r = r_table_oid r0"
    using assms(3) by (auto simp: update_shard_def update_where_def)
  then show "hash_partition (update_shard sid f c) (r_table_oid r)"
    using assms by (auto simp: catalog_inv_def holds_hash_def intro!: update_shard_partition)
qed

lemma delete_shard_wf: "catalog_wf c \<Longrightarrow> catalog_wf (orochi_catalog_delete_shard sid c)"
  by (auto simp: catalog_wf_def orochi_catalog_delete_shard_def list_all_iff distinct_map_filter)

lemma merge_wf:
  assumes "catalog_wf c" "orochi_merge_shards_impl sid1 sid2 c = Inr c'"
  shows "catalog_wf c'"
  using assms
  by (auto simp: orochi_merge_shards_impl_def orochi_catalog_update_shard_range_def Let_def
      intro!: delete_shard_wf update_shard_wf split: option.splits if_splits)

lemma merge_inv:
  assumes inv: "catalog_inv c" and r1: "r1 \<in> set (c_shards c)" and r2: "r2 \<in> set (c_shards c)"
    and adj: "adjacent r1 r2" and c': "orochi_merge_shards_impl (r_shard_id r1) (r_shard_id r2) c = Inr c'"
  shows "catalog_inv c'"
proof -
  have wf: "catalog_wf c" "ranges_ok c" and part: "hash_partition c (r_table_oid r1)"
    using inv r1 by (auto simp: catalog_inv_def)
  have tab: "r_table_oid r1 = r_table_oid r2"
    using c' get_shard_row [OF wf(1) r1] get_shard_row [OF wf(1) r2]
    by (auto simp: orochi_merge_shards_impl_def shard_info_def split: if_splits)
  have neq: "r1 \<noteq> r2"
    using adj wf(2) r1 by (auto simp: adjacent_def ranges_ok_def list_all_iff)
  have rows: "set (c_shards c') = insert (r1\<lparr>r_hash_min := min (r_hash_min r1) (r_hash_min r2),
      r_hash_max := max (r_hash_max r1) (r_hash_max r2)\<rparr>) (set (c_shards c) - {r1, r2})"
    using merge_rows [OF wf(1) r1 r2 tab] c' neq by auto
  have "hash_partition c' (r_table_oid r1)"
    using merge_partition_iff [OF wf part r1 refl r2] tab neq adj c' by (auto simp: adjacent_def)
  moreover have "hash_partition c' oid" if "oid \<noteq> r_table_oid r1" "hash_partition c oid" for oid
    using that tab by (subst partition_cong [of oid c' c]) (auto simp: rows)
  moreover have "ranges_ok c'"
    using wf(2) r1 r2 by (auto simp: ranges_ok_def list_all_iff rows min_le_iff_disj le_max_iff_disj)
  moreover have "hash_partition c' (r_table_oid r)" if "r \<in> set (c_shards c')" for r
    using calculation(1,2) that inv
    by (cases "r_table_oid r = r_table_oid r1") (auto simp: catalog_inv_def rows)
  ultimately show ?thesis
    using merge_wf [OF wf(1) c'] by (simp add: catalog_inv_def)
qed

lemma move_inv: "catalog_inv c \<Longrightarrow> orochi_move_shard_with_data sid target c = Inr c' \<Longrightarrow> catalog_inv c'"
  by (auto simp: orochi_move_shard_with_data_def intro!: update_shard_inv split: option.splits if_splits)

lemma rebalance_loop_inv:
  "catalog_inv c \<Longrightarrow> rebalance_loop nodes n cur ss c = Inr c' \<Longrightarrow> catalog_inv c'"
proof (induction ss arbitrary: cur c)
  case (Cons s ss)
  then show ?case by (auto simp: Let_def split: sum.splits if_splits dest: move_inv)
qed simp

lemma create_inv:
  assumes inv: "catalog_inv c" and new: "c_tables c oid \<noteq> None" "\<forall>r \<in> set (c_shards c). r_table_oid r \<noteq> oid"
    and count: "1 \<le> count" "count \<le> INT32_MAX" and c': "orochi_catalog_create_shards now oid count c = Some (Inr c')"
  shows "catalog_inv c'"
proof -
  obtain xs where rows: "c_shards c' = c_shards c @ xs" and xs: "\<forall>r \<in> set xs. r_table_oid r = oid"
    using c' create_shards_result [OF count(1) new] by auto
  have "hash_partition c' o'" if "o' \<noteq> oid" "hash_partition c o'" for o'
    using that xs by (subst partition_cong [of o' c' c]) (auto simp: rows)
  then show ?thesis
    using create_shards_wf [OF count new c'] create_shards_partitions(1) [OF count new c'] inv xs
    by (fastforce simp: catalog_inv_def rows)
qed

lemma remove_inv:
  assumes "catalog_inv c"
  shows "catalog_inv (orochi_catalog_remove_table oid c)"
proof -
  let ?c' = "orochi_catalog_remove_table oid c"
  have rows: "c_shards ?c' = filter (\<lambda>r. r_table_oid r \<noteq> oid) (c_shards c)"
    using assms
    by (auto simp: orochi_catalog_remove_table_def catalog_inv_def catalog_wf_def list_all_iff
        intro!: filter_True [symmetric])
  have "catalog_wf ?c'"
    using assms unfolding catalog_inv_def catalog_wf_def rows
    by (auto simp: orochi_catalog_remove_table_def list_all_iff distinct_map_filter)
  moreover have "hash_partition ?c' o'" if "o' \<noteq> oid" "hash_partition c o'" for o'
    using that by (subst partition_cong [of o' ?c' c]) (auto simp: rows)
  moreover have "ranges_ok ?c'"
    using assms by (auto simp: catalog_inv_def ranges_ok_def list_all_iff rows)
  ultimately show ?thesis using assms by (auto simp: catalog_inv_def rows)
qed

lemma register_inv:
  assumes "catalog_inv c" "orochi_catalog_register_table ti c = Inr c'"
  shows "catalog_inv c'"
proof -
  have eq: "c_shards c' = c_shards c" "c_nodes c' = c_nodes c" "c_shard_seq c' = c_shard_seq c"
    "c_node_seq c' = c_node_seq c" "\<And>x. c_tables c x \<noteq> None \<Longrightarrow> c_tables c' x \<noteq> None"
    using assms(2) by (auto simp: orochi_catalog_register_table_def Let_def split: if_splits)
  have "hash_partition c' x = hash_partition c x" for x by (rule partition_cong) (simp add: eq)
  then show ?thesis
    using assms(1) eq(5) by (auto simp: catalog_inv_def catalog_wf_def ranges_ok_def eq(1-4) list_all_iff)
qed

interpretation catalog_machine: invariant_system "\<lambda>c. c_shards c = [] \<and> c_nodes c = []" catalog_step catalog_inv
proof
  fix c :: catalog assume "c_shards c = [] \<and> c_nodes c = []"
  then show "catalog_inv c" by (simp add: catalog_inv_def catalog_wf_def ranges_ok_def)
next
  fix c c' assume inv: "catalog_inv c" and "catalog_step c c'"
  from this(2) show "catalog_inv c'"
  proof cases
    case (step_move now sid target m m')
    then show ?thesis
      using inv by (auto simp: orochi_move_shard_def orochi_catalog_update_shard_placement_def Let_def
          intro!: update_shard_inv split: option.splits if_splits prod.splits)
  next
    case (step_rebalance oid)
    then show ?thesis
      using inv by (auto simp: orochi_rebalance_table_shards_def Let_def intro: rebalance_loop_inv split: if_splits)
  next
    case (step_split now sid)
    then show ?thesis by (simp add: split_not_Inr)
  qed (use inv in \<open>auto intro: register_inv create_inv remove_inv move_inv merge_inv
      simp: orochi_catalog_update_shard_stats_def orochi_catalog_record_shard_access_def
      intro!: update_shard_inv\<close>)
qed

text \<open>C17: Starting from an empty catalog, whatever tables are created, removed, re-registered, moved
  between nodes or merged along adjacent ranges, the keys of the catalog stay unique and every hash
  belongs to exactly one shard of every table that has shards: routing by hash range always finds a
  shard, and only one.\<close>

theorem every_reachable_catalog_routes:
  assumes "reach (\<lambda>c. c_shards c = [] \<and> c_nodes c = []) catalog_step c"
    and "r \<in> set (c_shards c)" "r_table_oid r = oid"
  shows "catalog_wf c \<and> (\<exists>s. orochi_route_to_shard c oid v = Some s \<and> table_oid s = oid \<and>
    hash_min s \<le> orochi_hash_datum v \<and> orochi_hash_datum v \<le> hash_max s \<and>
    (\<forall>r' \<in> set (c_shards c). holds_hash oid (orochi_hash_datum v) r' \<longrightarrow> r_shard_id r' = shard_id s))"
proof -
  have inv: "catalog_wf c" "hash_partition c oid"
    using catalog_machine.inv_reach [OF assms(1)] assms(2,3) by (auto simp: catalog_inv_def)
  obtain x where "find (holds_hash oid (orochi_hash_datum v)) (c_shards c) = Some x"
    and "holds_hash oid (orochi_hash_datum v) x"
    and "\<forall>y \<in> set (c_shards c). holds_hash oid (orochi_hash_datum v) y \<longrightarrow> y = x"
    using find_unique [of "c_shards c" "holds_hash oid (orochi_hash_datum v)"] inv(2) orochi_hash_datum_i32
    unfolding hash_partition_def by metis
  then show ?thesis
    using inv(1) by (auto simp: orochi_route_to_shard_def orochi_catalog_get_shard_for_hash_def
        holds_hash_def shard_info_def)
qed

theorem every_reachable_catalog_routes_witness:
  "\<exists>s. orochi_route_to_shard (example_shards 4) 7 (Text [1, 2, 3]) = Some s \<and> table_oid s = 7"
proof -
  let ?r = "c_shards (example_shards 4) ! 1"
  have "?r \<in> set (c_shards (example_shards 4))" "r_table_oid ?r = 7" by code_simp+
  moreover have "reach (\<lambda>c. c_shards c = [] \<and> c_nodes c = []) catalog_step (example_shards 4)"
  proof (rule reach_step [OF reach_init])
    show "c_shards (example_catalog 4) = [] \<and> c_nodes (example_catalog 4) = []"
      by (simp add: example_catalog_def)
    have new: "c_tables (example_catalog 4) 7 \<noteq> None" "\<forall>r \<in> set (c_shards (example_catalog 4)). r_table_oid r \<noteq> 7"
      by (simp_all add: example_catalog_def)
    then have "orochi_catalog_create_shards 0 7 4 (example_catalog 4) = Some (Inr (example_shards 4))"
      using create_shards_result [of 4 "example_catalog 4" 7 0] by (simp add: example_shards_def)
    then show "catalog_step (example_catalog 4) (example_shards 4)"
      using new by (intro step_create) auto
  qed
  ultimately show ?thesis
    using every_reachable_catalog_routes [of "example_shards 4" ?r 7 "Text [1, 2, 3]"] by auto
qed

end
