(* ===== verification/Shard_Routing.thy ===== *)
theory Shard_Routing
  imports Sharding "HOL-Library.Multiset"
begin

text \<open>
  Physical shard tables and the queries on them (\<^verbatim>\<open>sharding/physical_sharding.c\<close>, the SQL functions of
  \<^verbatim>\<open>sharding/distribution.c\<close> and the shard pruning of \<^verbatim>\<open>planner/distributed_planner.c\<close>): the shard tables
  of a distributed table, the triggers that route its rows, the redistribution of existing rows, and the
  analysis of WHERE clauses that decides which shards a query reads.

  The triggers are PL/pgSQL texts which the code installs; they are modelled by their effect on the
  tables. A row is its distribution value (or NULL) and the rest of its columns. Where a statement takes
  one of several matching rows (\<^verbatim>\<open>LIMIT 1\<close>), the first one stored is taken. What the constraints of a table,
  which \<^verbatim>\<open>LIKE ... INCLUDING ALL\<close> copies to the shard tables, say of a row is a parameter, kept in the state.
\<close>

section \<open>Shard tables\<close>

record dist_row =
  dv :: "datum option"
  payload :: string

text \<open>The parent table, its shard tables by number (\<^const>\<open>None\<close> for a table that does not exist), whether the
  routing triggers and the view exist, and whether the constraints of the parent and of a shard table admit a row
  beside the rows that are there.\<close>

record phys =
  parent :: "dist_row list"
  shard_tables :: "nat \<Rightarrow> dist_row list option"
  router :: "int option"
  all_shards_view :: "nat option"
  parent_accepts :: "dist_row list \<Rightarrow> dist_row \<Rightarrow> bool"
  shard_accepts :: "dist_row list \<Rightarrow> dist_row \<Rightarrow> bool"

abbreviation (input) no_relation :: pg_error where "no_relation \<equiv> ERROR ''relation does not exist''"

abbreviation (input) constraint_violation :: pg_error where "constraint_violation \<equiv> ERROR ''row violates a constraint''"

definition insert_row :: "(dist_row list \<Rightarrow> dist_row \<Rightarrow> bool) \<Rightarrow> dist_row \<Rightarrow> dist_row list \<Rightarrow> pg_error + dist_row list" where
  "insert_row accepts new rows = (if accepts rows new then Inr (rows @ [new]) else Inl constraint_violation)"

fun create_shard_tables :: "nat \<Rightarrow> phys \<Rightarrow> phys" where
  "create_shard_tables 0 t = t"
| "create_shard_tables (Suc i) t =
     (let t' = create_shard_tables i t
      in case shard_tables t' i of Some _ \<Rightarrow> t'
         | None \<Rightarrow> t'\<lparr>shard_tables := (shard_tables t')(i := Some [])\<rparr>)"

definition orochi_create_physical_shards :: "int \<Rightarrow> phys \<Rightarrow> phys" where
  "orochi_create_physical_shards cnt t = create_shard_tables (nat cnt) t"

definition orochi_drop_physical_shards :: "OrochiTableInfo option \<Rightarrow> phys \<Rightarrow> phys" where
  "orochi_drop_physical_shards info t =
     (case info of None \<Rightarrow> t
      | Some ti \<Rightarrow> if \<not> is_distributed ti then t
                   else t\<lparr>shard_tables := (\<lambda>i. if int i < shard_count ti then None else shard_tables t i)\<rparr>)"

section \<open>Routing triggers\<close>

definition orochi_hash_value_sql :: "datum option \<Rightarrow> int option" where
  "orochi_hash_value_sql v = map_option orochi_hash_datum v"

text \<open>Declared STRICT: NULL for a NULL argument.\<close>

definition orochi_get_shard_index_sql :: "int option \<Rightarrow> int \<Rightarrow> pg_error + int option" where
  "orochi_get_shard_index_sql h cnt =
     (case h of None \<Rightarrow> Inr None
      | Some h \<Rightarrow> if cnt \<le> 0 then Inl (ERROR ''shard_count must be positive'')
                  else Inr (Some (orochi_get_shard_index h cnt)))"

definition orochi_get_shard_for_value_sql :: "catalog \<Rightarrow> nat \<Rightarrow> datum option \<Rightarrow> pg_error + int option" where
  "orochi_get_shard_for_value_sql c oid v =
     (case v of None \<Rightarrow> Inr None
      | Some d \<Rightarrow>
          (case orochi_catalog_get_table c oid of
             None \<Rightarrow> Inl (ERROR ''table is not distributed'')
           | Some ti \<Rightarrow> if \<not> is_distributed ti then Inl (ERROR ''table is not distributed'')
                        else Inr (Some (orochi_get_shard_index (orochi_hash_datum d) (shard_count ti)))))"

text \<open>\<^verbatim>\<open>EXECUTE format('... t_shard_%s ...', shard_idx)\<close>: the table named by the index; a NULL index
  formats as the empty string, which names no shard table.\<close>

definition on_shard ::
    "datum option \<Rightarrow> int \<Rightarrow> (dist_row list \<Rightarrow> pg_error + dist_row list) \<Rightarrow> phys \<Rightarrow> pg_error + phys" where
  "on_shard v cnt f t =
     (case orochi_get_shard_index_sql (orochi_hash_value_sql v) cnt of
        Inl e \<Rightarrow> Inl e
      | Inr None \<Rightarrow> Inl no_relation
      | Inr (Some i) \<Rightarrow>
          (case shard_tables t (nat i) of
             None \<Rightarrow> Inl no_relation
           | Some rows \<Rightarrow>
               (case f rows of
                  Inl e \<Rightarrow> Inl e
                | Inr rows' \<Rightarrow> Inr (t\<lparr>shard_tables := (shard_tables t)(nat i \<mapsto> rows')\<rparr>))))"

text \<open>\<^verbatim>\<open>WHERE key = $1\<close>, never true of NULL. Both sides have the type of the column, which is one of those that
  \<^verbatim>\<open>orochi_validate_distribution_column\<close> accepts; two such values are equal exactly if they are the same Datum value.\<close>

fun delete_one :: "datum option \<Rightarrow> dist_row list \<Rightarrow> dist_row list" where
  "delete_one v [] = []"
| "delete_one v (r # rs) = (if v \<noteq> None \<and> dv r = v then rs else r # delete_one v rs)"

definition delete_all :: "datum option \<Rightarrow> dist_row list \<Rightarrow> dist_row list" where
  "delete_all v rows = filter (\<lambda>r. \<not> (v \<noteq> None \<and> dv r = v)) rows"

definition route_insert :: "int \<Rightarrow> dist_row \<Rightarrow> phys \<Rightarrow> pg_error + phys" where
  "route_insert cnt new t = on_shard (dv new) cnt (insert_row (shard_accepts t) new) t"

definition route_delete :: "int \<Rightarrow> dist_row \<Rightarrow> phys \<Rightarrow> pg_error + phys" where
  "route_delete cnt old t = on_shard (dv old) cnt (\<lambda>rows. Inr (delete_one (dv old) rows)) t"

text \<open>Both indices are computed before the two statements run.\<close>

definition view_update :: "int \<Rightarrow> dist_row \<Rightarrow> dist_row \<Rightarrow> phys \<Rightarrow> pg_error + phys" where
  "view_update cnt old new t =
     (case orochi_get_shard_index_sql (orochi_hash_value_sql (dv new)) cnt of
        Inl e \<Rightarrow> Inl e
      | Inr _ \<Rightarrow>
          (case on_shard (dv old) cnt (\<lambda>rows. Inr (delete_all (dv old) rows)) t of
             Inl e \<Rightarrow> Inl e
           | Inr t' \<Rightarrow> on_shard (dv new) cnt (insert_row (shard_accepts t') new) t'))"

definition orochi_install_routing_trigger :: "int \<Rightarrow> phys \<Rightarrow> phys" where
  "orochi_install_routing_trigger cnt t = (if cnt \<le> 0 then t else t\<lparr>router := Some cnt\<rparr>)"

definition orochi_remove_routing_trigger :: "phys \<Rightarrow> phys" where
  "orochi_remove_routing_trigger t = t\<lparr>router := None\<rparr>"

text \<open>INSERT and DELETE on the parent. A BEFORE trigger that returns NULL suppresses the operation.\<close>

definition parent_insert :: "dist_row \<Rightarrow> phys \<Rightarrow> pg_error + phys" where
  "parent_insert r t =
     (case router t of
        None \<Rightarrow> (case insert_row (parent_accepts t) r (parent t) of Inl e \<Rightarrow> Inl e | Inr rows \<Rightarrow> Inr (t\<lparr>parent := rows\<rparr>))
      | Some cnt \<Rightarrow> route_insert cnt r t)"

definition parent_delete_all :: "phys \<Rightarrow> pg_error + phys" where
  "parent_delete_all t =
     (case router t of None \<Rightarrow> Inr (t\<lparr>parent := []\<rparr>)
      | Some cnt \<Rightarrow> fold_err (route_delete cnt) (parent t) t)"

section \<open>The view over all shards\<close>

definition orochi_create_union_view :: "string option \<Rightarrow> int \<Rightarrow> phys \<Rightarrow> phys" where
  "orochi_create_union_view dist_column cnt t =
     (if cnt \<le> 0 \<or> dist_column = None then t else t\<lparr>all_shards_view := Some (nat cnt)\<rparr>)"

definition orochi_drop_union_view :: "phys \<Rightarrow> phys" where
  "orochi_drop_union_view t = t\<lparr>all_shards_view := None\<rparr>"

definition shard_rows :: "phys \<Rightarrow> nat \<Rightarrow> dist_row list" where
  "shard_rows t i = (case shard_tables t i of None \<Rightarrow> [] | Some rows \<Rightarrow> rows)"

definition view_rows :: "nat \<Rightarrow> phys \<Rightarrow> dist_row list" where
  "view_rows n t = concat (map (shard_rows t) [0 ..< n])"

section \<open>Redistribution\<close>

definition in_hash_range :: "int \<Rightarrow> int \<Rightarrow> dist_row \<Rightarrow> bool" where
  "in_hash_range lo hi r =
     (case orochi_hash_value_sql (dv r) of None \<Rightarrow> False | Some h \<Rightarrow> lo \<le> h \<and> h \<le> hi)"

text \<open>One \<^verbatim>\<open>INSERT INTO t_shard_i SELECT * FROM t WHERE ...\<close> per shard, with the bounds computed as in the
  catalog, then \<^verbatim>\<open>DELETE FROM t\<close>.\<close>

definition fill_shard :: "int \<Rightarrow> nat \<Rightarrow> phys \<Rightarrow> pg_error + phys" where
  "fill_shard cnt i t =
     (let hash_range = c_div INT32_MAX cnt
      in case shard_tables t i of
           None \<Rightarrow> Inl no_relation
         | Some rows \<Rightarrow>
             (case fold_err (insert_row (shard_accepts t))
                     (filter (in_hash_range (shard_hash_min hash_range (int i))
                                (shard_hash_max cnt hash_range (int i))) (parent t)) rows of
                Inl e \<Rightarrow> Inl e
              | Inr rows' \<Rightarrow> Inr (t\<lparr>shard_tables := (shard_tables t)(i \<mapsto> rows')\<rparr>)))"

definition orochi_redistribute_data :: "OrochiTableInfo option \<Rightarrow> phys \<Rightarrow> pg_error + phys" where
  "orochi_redistribute_data info t =
     (case info of None \<Rightarrow> Inr t
      | Some ti \<Rightarrow>
          if \<not> is_distributed ti then Inr t
          else (case fold_err (fill_shard (shard_count ti)) [0 ..< nat (shard_count ti)] t of
                  Inl e \<Rightarrow> Inl e | Inr t' \<Rightarrow> parent_delete_all t'))"

section \<open>Creating and undistributing a table\<close>

text \<open>\<open>att_type\<close>, \<open>sch\<close> and \<open>name\<close> are what the system catalogs hold for the column and the table.\<close>

definition orochi_create_distributed_table_sql ::
    "type_oid option \<Rightarrow> string option \<Rightarrow> string option \<Rightarrow> int \<Rightarrow> nat \<Rightarrow> string \<Rightarrow> int \<Rightarrow> int \<Rightarrow>
     catalog \<times> phys \<Rightarrow> (catalog \<times> phys) outcome" where
  "orochi_create_distributed_table_sql att_type sch name now oid dist_col strategy cnt ct =
     (let (c, t) = ct
      in case orochi_validate_distribution_column att_type of
           Inl e \<Rightarrow> Some (Inl e)
         | Inr _ \<Rightarrow>
             if orochi_is_distributed_table c oid then Some (Inl (ERROR ''table is already distributed''))
             else (case orochi_catalog_register_table
                          \<lparr>relid = oid, schema_name = sch, table_name = name, storage_type = 0,
                           shard_strategy = strategy, shard_count = cnt,
                           distribution_column = Some dist_col, is_distributed = True,
                           is_timeseries = False, time_column = None, chunk_interval = None,
                           compression = 0, compression_level = 3\<rparr> c of
                     Inl e \<Rightarrow> Some (Inl e)
                   | Inr c1 \<Rightarrow>
                       (case orochi_catalog_create_shards now oid cnt c1 of
                          None \<Rightarrow> None
                        | Some (Inl e) \<Rightarrow> Some (Inl e)
                        | Some (Inr c2) \<Rightarrow>
                            let t1 = orochi_create_physical_shards cnt t;
                                t2 = orochi_install_routing_trigger cnt t1
                            in (case orochi_redistribute_data (orochi_catalog_get_table c2 oid) t2 of
                                  Inl e \<Rightarrow> Some (Inl e)
                                | Inr t3 \<Rightarrow>
                                    Some (Inr (c2, orochi_create_union_view (Some dist_col) cnt t3))))))"

definition orochi_undistribute_table_sql :: "nat \<Rightarrow> catalog \<times> phys \<Rightarrow> pg_error + catalog \<times> phys" where
  "orochi_undistribute_table_sql oid ct =
     (let (c, t) = ct
      in if \<not> orochi_is_distributed_table c oid then Inl (ERROR ''table is not distributed'')
         else let t1 = orochi_remove_routing_trigger t;
                  t2 = orochi_drop_union_view t1;
                  t3 = orochi_drop_physical_shards (orochi_catalog_get_table c oid) t2
              in Inr (orochi_catalog_remove_table oid c, t3))"

section \<open>Which shards a query reads\<close>

text \<open>Expression trees of the planner: a variable is a range table index and an attribute number, a
  constant carries its typed Datum or NULL.\<close>

datatype boolop = AND_EXPR | OR_EXPR | NOT_EXPR

datatype node =
  Var nat nat
| Const "datum option"
| OpExpr string "node list"
| BoolExpr boolop "node list"
| OtherNode nat

record ShardRestriction =
  sr_table_oid :: nat
  sr_distribution_column :: "string option"
  sr_shard_ids :: "type_oid list"
  sr_is_equality :: bool
  sr_equality_value :: "datum option"

text \<open>\<open>att\<close> gives the name of an attribute of the table, if it exists. The range table index of the
  variable is not looked at. Comparing with a distribution column that is NULL is undefined.\<close>

definition var_is_distribution_column :: "(nat \<Rightarrow> string option) \<Rightarrow> nat \<Rightarrow> string option \<Rightarrow> bool option" where
  "var_is_distribution_column att varattno dist_column =
     (case att varattno of None \<Rightarrow> Some False
      | Some a \<Rightarrow> map_option (\<lambda>d. a = d) dist_column)"

fun extract_const_value :: "node \<Rightarrow> datum option" where
  "extract_const_value (Const v) = v"
| "extract_const_value _ = None"

text \<open>The operand pair of \<^verbatim>\<open>Var op Const\<close> or \<^verbatim>\<open>Const op Var\<close>.\<close>

fun var_const_pair :: "node list \<Rightarrow> (nat \<times> node) option" where
  "var_const_pair [Var _ a, Const v] = Some (a, Const v)"
| "var_const_pair [Const v, Var _ a] = Some (a, Const v)"
| "var_const_pair _ = None"

definition note_equality :: "datum \<Rightarrow> ShardRestriction \<Rightarrow> ShardRestriction" where
  "note_equality v r = r\<lparr>sr_is_equality := True, sr_equality_value := Some v, sr_shard_ids := [datum_type v]\<rparr>"

fun analyze_qual_node ::
    "(nat \<Rightarrow> string option) \<Rightarrow> string option \<Rightarrow> node \<Rightarrow> ShardRestriction \<Rightarrow> ShardRestriction option"
and analyze_and_args ::
    "(nat \<Rightarrow> string option) \<Rightarrow> string option \<Rightarrow> node list \<Rightarrow> ShardRestriction \<Rightarrow> ShardRestriction option" where
  "analyze_qual_node att dist_column (OpExpr opname args) r =
     (case var_const_pair args of
        None \<Rightarrow> Some r
      | Some (attno, const) \<Rightarrow>
          if opname \<noteq> ''='' then Some r
          else (case var_is_distribution_column att attno dist_column of
                  None \<Rightarrow> None
                | Some False \<Rightarrow> Some r
                | Some True \<Rightarrow>
                    (case extract_const_value const of None \<Rightarrow> Some r
                     | Some v \<Rightarrow> Some (note_equality v r))))"
| "analyze_qual_node att dist_column (BoolExpr AND_EXPR args) r = analyze_and_args att dist_column args r"
| "analyze_qual_node att dist_column _ r = Some r"
| "analyze_and_args att dist_column [] r = Some r"
| "analyze_and_args att dist_column (q # qs) r =
     (case analyze_qual_node att dist_column q r of
        None \<Rightarrow> None
      | Some r' \<Rightarrow> if sr_is_equality r' then Some r' else analyze_and_args att dist_column qs r')"

text \<open>\<^const>\<open>None\<close> is undefined behaviour, \<open>Some None\<close> the NULL pointer.\<close>

definition orochi_analyze_quals_for_pruning ::
    "catalog \<Rightarrow> (nat \<Rightarrow> string option) \<Rightarrow> node \<Rightarrow> nat \<Rightarrow> ShardRestriction option option" where
  "orochi_analyze_quals_for_pruning c att quals oid =
     (case orochi_catalog_get_table c oid of
        None \<Rightarrow> Some None
      | Some ti \<Rightarrow>
          if \<not> is_distributed ti then Some None
          else map_option Some (analyze_qual_node att (distribution_column ti) quals
                 \<lparr>sr_table_oid = oid, sr_distribution_column = distribution_column ti, sr_shard_ids = [],
                  sr_is_equality = False, sr_equality_value = None\<rparr>))"

text \<open>The target index computed from the first usable equality restriction.\<close>

fun equality_target :: "int \<Rightarrow> ShardRestriction list \<Rightarrow> int option" where
  "equality_target cnt [] = None"
| "equality_target cnt (r # rs) =
     (case (sr_is_equality r, sr_shard_ids r, sr_equality_value r) of
        (True, _ # _, Some v) \<Rightarrow> Some (orochi_get_shard_index (orochi_hash_datum v) cnt)
      | _ \<Rightarrow> equality_target cnt rs)"

definition orochi_prune_shards :: "catalog \<Rightarrow> nat \<Rightarrow> ShardRestriction list \<Rightarrow> OrochiShardInfo list" where
  "orochi_prune_shards c oid predicates =
     (let all_shards = orochi_catalog_get_table_shards c oid
      in if predicates = [] then all_shards
         else case orochi_catalog_get_table c oid of None \<Rightarrow> all_shards
              | Some ti \<Rightarrow>
                  (case equality_target (shard_count ti) predicates of
                     None \<Rightarrow> all_shards
                   | Some target \<Rightarrow>
                       if target < 0 then all_shards
                       else (case find (\<lambda>s. shard_index s = target) all_shards of
                               None \<Rightarrow> all_shards | Some s \<Rightarrow> [s])))"

text \<open>The numbers of the shard tables that a query with a WHERE clause reads (a shard table that does
  not exist is left out).\<close>

definition orochi_get_target_shards_for_query ::
    "catalog \<Rightarrow> phys \<Rightarrow> (nat \<Rightarrow> string option) \<Rightarrow> nat \<Rightarrow> node option \<Rightarrow> nat list option" where
  "orochi_get_target_shards_for_query c t att oid quals =
     (case orochi_catalog_get_table c oid of
        None \<Rightarrow> Some []
      | Some ti \<Rightarrow>
          if \<not> is_distributed ti then Some []
          else (case (case quals of None \<Rightarrow> Some [] | Some q \<Rightarrow>
                        map_option (\<lambda>r. case r of None \<Rightarrow> [] | Some r \<Rightarrow> [r])
                          (orochi_analyze_quals_for_pruning c att q oid)) of
                  None \<Rightarrow> None
                | Some restrictions \<Rightarrow>
                    let pruned = orochi_prune_shards c oid restrictions;
                        idxs = (if length pruned > 0 then map (\<lambda>s. nat (shard_index s)) pruned
                                else [0 ..< nat (shard_count ti)])
                    in Some (filter (\<lambda>i. shard_tables t i \<noteq> None) idxs)))"

definition orochi_should_rewrite_query :: "catalog \<Rightarrow> nat \<Rightarrow> bool" where
  "orochi_should_rewrite_query c oid =
     (case orochi_catalog_get_table c oid of None \<Rightarrow> False
      | Some ti \<Rightarrow> is_distributed ti \<and> shard_count ti > 1)"

section \<open>Query classification\<close>

datatype OrochiQueryType =
  OROCHI_QUERY_LOCAL | OROCHI_QUERY_SINGLE_SHARD | OROCHI_QUERY_MULTI_SHARD | OROCHI_QUERY_COORDINATOR

text \<open>Of a query: the relations of its range table (\<^const>\<open>None\<close> for other entries), its WHERE clause and
  whether it aggregates or groups.\<close>

record query =
  q_rtable :: "nat option list"
  q_quals :: "node option"
  q_has_aggs :: bool
  q_group_clause :: bool

definition contains_distributed_table :: "catalog \<Rightarrow> query \<Rightarrow> bool" where
  "contains_distributed_table c q \<longleftrightarrow>
     list_ex (\<lambda>rte. case rte of None \<Rightarrow> False | Some oid \<Rightarrow> orochi_is_distributed_table c oid) (q_rtable q)"

definition orochi_get_distributed_tables :: "catalog \<Rightarrow> query \<Rightarrow> nat list" where
  "orochi_get_distributed_tables c q =
     filter (orochi_is_distributed_table c) (List.map_filter id (q_rtable q))"

definition orochi_analyze_predicates ::
    "catalog \<Rightarrow> (nat \<Rightarrow> nat \<Rightarrow> string option) \<Rightarrow> query \<Rightarrow> nat \<Rightarrow> ShardRestriction list option" where
  "orochi_analyze_predicates c att q oid =
     (case q_quals q of None \<Rightarrow> Some []
      | Some quals \<Rightarrow>
          map_option (\<lambda>r. case r of None \<Rightarrow> [] | Some r \<Rightarrow> [r])
            (orochi_analyze_quals_for_pruning c (att oid) quals oid))"

definition orochi_get_query_shards ::
    "catalog \<Rightarrow> (nat \<Rightarrow> nat \<Rightarrow> string option) \<Rightarrow> query \<Rightarrow> nat \<Rightarrow> OrochiShardInfo list option" where
  "orochi_get_query_shards c att q oid =
     map_option (\<lambda>restrictions.
         if length restrictions > 0 then orochi_prune_shards c oid restrictions
         else orochi_catalog_get_table_shards c oid)
       (orochi_analyze_predicates c att q oid)"

text \<open>Whether the inner loop over the restrictions of a table leaves \<open>single_shard_possible\<close> set.\<close>

fun restrictions_single :: "ShardRestriction list \<Rightarrow> bool" where
  "restrictions_single [] = True"
| "restrictions_single (r # rs) =
     (if sr_is_equality r \<and> length (sr_shard_ids r) = 1 then restrictions_single rs
      else if length (sr_shard_ids r) > 1 then False
      else restrictions_single rs)"

fun single_shard_loop ::
    "catalog \<Rightarrow> (nat \<Rightarrow> nat \<Rightarrow> string option) \<Rightarrow> query \<Rightarrow> nat list \<Rightarrow> bool \<Rightarrow> bool option" where
  "single_shard_loop c att q [] possible = Some possible"
| "single_shard_loop c att q (oid # oids) possible =
     (case orochi_analyze_predicates c att q oid of
        None \<Rightarrow> None
      | Some restrictions \<Rightarrow>
          if restrictions = [] then Some False
          else single_shard_loop c att q oids (possible \<and> restrictions_single restrictions))"

definition orochi_analyze_query ::
    "catalog \<Rightarrow> (nat \<Rightarrow> nat \<Rightarrow> string option) \<Rightarrow> query \<Rightarrow> OrochiQueryType option" where
  "orochi_analyze_query c att q =
     (let distributed_tables = orochi_get_distributed_tables c q
      in if distributed_tables = [] then Some OROCHI_QUERY_LOCAL
         else map_option (\<lambda>single.
                if single then OROCHI_QUERY_SINGLE_SHARD
                else if q_has_aggs q \<or> q_group_clause q then OROCHI_QUERY_COORDINATOR
                else OROCHI_QUERY_MULTI_SHARD)
              (single_shard_loop c att q distributed_tables True))"

section \<open>Joins\<close>

record JoinAnalysis =
  ja_is_colocated :: bool
  ja_has_reference :: bool
  ja_needs_repartition :: bool

fun analyze_join_loop ::
    "catalog \<Rightarrow> nat \<Rightarrow> nat list \<Rightarrow> JoinAnalysis \<times> colocation \<Rightarrow> JoinAnalysis \<times> colocation" where
  "analyze_join_loop c first [] (a, g) = (a, g)"
| "analyze_join_loop c first (oid # oids) (a, g) =
     (if orochi_is_reference_table c oid then analyze_join_loop c first oids (a\<lparr>ja_has_reference := True\<rparr>, g)
      else let (co, g') = orochi_tables_are_colocated c first oid g
           in analyze_join_loop c first oids
                (if co then (a, g') else (a\<lparr>ja_is_colocated := False, ja_needs_repartition := True\<rparr>, g')))"

definition orochi_analyze_join :: "catalog \<Rightarrow> query \<Rightarrow> colocation \<Rightarrow> JoinAnalysis \<times> colocation" where
  "orochi_analyze_join c q g =
     (let a = \<lparr>ja_is_colocated = True, ja_has_reference = False, ja_needs_repartition = False\<rparr>
      in case orochi_get_distributed_tables c q of
           first # oids \<Rightarrow> if oids = [] then (a, g) else analyze_join_loop c first oids (a, g)
         | [] \<Rightarrow> (a, g))"

text \<open>The name of the operator is not looked at.\<close>

definition joins_distribution_columns ::
    "(nat \<Rightarrow> string option) \<Rightarrow> (nat \<Rightarrow> string option) \<Rightarrow> string \<Rightarrow> string \<Rightarrow> node \<Rightarrow> bool" where
  "joins_distribution_columns att1 att2 d1 d2 condition =
     (case condition of
        OpExpr _ [l, r] \<Rightarrow>
          let is1 = (\<lambda>x. case x of Var _ a \<Rightarrow> att1 a = Some d1 | _ \<Rightarrow> False);
              is2 = (\<lambda>x. case x of Var _ a \<Rightarrow> att2 a = Some d2 | _ \<Rightarrow> False)
          in is1 l \<and> is2 r \<or> is2 l \<and> is1 r
      | _ \<Rightarrow> False)"

definition orochi_can_join_locally ::
    "catalog \<Rightarrow> (nat \<Rightarrow> nat \<Rightarrow> string option) \<Rightarrow> nat \<Rightarrow> nat \<Rightarrow> node list \<Rightarrow> colocation \<Rightarrow> bool \<times> colocation" where
  "orochi_can_join_locally c att t1 t2 conditions g =
     (if orochi_is_reference_table c t1 \<or> orochi_is_reference_table c t2 then (True, g)
      else let (co, g') = orochi_tables_are_colocated c t1 t2 g
           in if \<not> co then (False, g')
              else (case (orochi_catalog_get_table c t1, orochi_catalog_get_table c t2) of
                      (Some ti1, Some ti2) \<Rightarrow>
                        (case (distribution_column ti1, distribution_column ti2) of
                           (Some d1, Some d2) \<Rightarrow>
                             (list_ex (joins_distribution_columns (att t1) (att t2) d1 d2) conditions, g')
                         | _ \<Rightarrow> (False, g'))
                    | _ \<Rightarrow> (False, g')))"

section \<open>Buckets\<close>

text \<open>Every shard table exists and holds only rows whose hash is owned by its number.\<close>

definition bucketed :: "(int \<Rightarrow> int \<Rightarrow> int) \<Rightarrow> int \<Rightarrow> phys \<Rightarrow> bool" where
  "bucketed owner n t \<longleftrightarrow>
     (\<forall>i < nat n. \<exists>rows. shard_tables t i = Some rows \<and>
        list_all (\<lambda>r. \<exists>v. dv r = Some v \<and> owner n (orochi_hash_datum v) = int i) rows)"

lemma filter_concat_single:
  assumes "k < m" "\<And>i. i < m \<Longrightarrow> i \<noteq> k \<Longrightarrow> filter P (f i) = []"
  shows "filter P (concat (map f [0 ..< m])) = filter P (f k)"
proof -
  have "[0 ..< m] = [0 ..< k] @ k # [Suc k ..< m]"
    using assms(1) upt_add_eq_append [of 0 k "m - k"] by (simp add: upt_conv_Cons)
  moreover have "filter P (concat (map f [0 ..< k])) = []" "filter P (concat (map f [Suc k ..< m])) = []"
    using assms(1) by (simp_all add: filter_concat comp_def assms(2))
  ultimately show ?thesis by simp
qed

lemma mset_concat_upd:
  "k < m \<Longrightarrow> mset (concat (map (f(k := x)) [0 ..< m])) + mset (f k) = mset (concat (map f [0 ..< m])) + mset x"
proof (induction m)
  case (Suc m)
  show ?case
  proof (cases "k = m")
    case True
    then have "map (f(k := x)) [0 ..< m] = map f [0 ..< m]" by simp
    then show ?thesis using True by (simp only: upt_Suc_append map_append concat_append mset_append) simp
  next
    case False
    then show ?thesis using Suc by (simp add: ac_simps)
  qed
qed simp

text \<open>A routing function that assigns every hash an existing shard: an equality on the distribution
  column then concerns one shard.\<close>

locale hash_buckets =
  fixes owner :: "int \<Rightarrow> int \<Rightarrow> int"
  assumes owner_range:
    "1 \<le> n \<Longrightarrow> n \<le> INT32_MAX \<Longrightarrow> is_i32 h \<Longrightarrow> 0 \<le> owner n h \<and> owner n h < n"
begin

lemma owner_nat:
  assumes "1 \<le> n" "n \<le> INT32_MAX"
  shows "nat (owner n (orochi_hash_datum v)) < nat n" "int (nat (owner n (orochi_hash_datum v))) = owner n (orochi_hash_datum v)"
  using owner_range [OF assms orochi_hash_datum_i32 [of v]] assms(1) by auto

lemma lookup_one_bucket:
  assumes "1 \<le> n" "n \<le> INT32_MAX" "bucketed owner n t" "\<And>r. P r \<Longrightarrow> dv r = Some v"
  shows "filter P (view_rows (nat n) t) = filter P (shard_rows t (nat (owner n (orochi_hash_datum v))))"
  unfolding view_rows_def
proof (rule filter_concat_single)
  show "nat (owner n (orochi_hash_datum v)) < nat n" by (rule owner_nat [OF assms(1,2)])
  fix i assume "i < nat n" "i \<noteq> nat (owner n (orochi_hash_datum v))"
  then show "filter P (shard_rows t i) = []"
    using assms(3,4) by (fastforce simp: bucketed_def shard_rows_def filter_empty_conv list_all_iff)
qed

lemma bucketed_update:
  assumes "bucketed owner n t" "i < nat n"
    and "\<And>r. r \<in> set rows \<Longrightarrow> r \<in> set (shard_rows t i) \<or> (\<exists>v. dv r = Some v \<and> owner n (orochi_hash_datum v) = int i)"
  shows "bucketed owner n (t\<lparr>shard_tables := (shard_tables t)(i \<mapsto> rows)\<rparr>)"
  using assms unfolding bucketed_def list_all_iff shard_rows_def by fastforce

end

interpretation by_index: hash_buckets "\<lambda>n h. orochi_get_shard_index h n"
  by unfold_locales (simp_all add: shard_index_mod)

interpretation by_range: hash_buckets hash_owner
  by unfold_locales (auto simp: hash_owner_range)

text \<open>The rows that the triggers maintain are bucketed by the index.\<close>

abbreviation routed :: "int \<Rightarrow> phys \<Rightarrow> bool" where
  "routed n t \<equiv> bucketed (\<lambda>n h. orochi_get_shard_index h n) n t"

lemma on_shard_result:
  fixes v :: datum
  assumes "1 \<le> n" "n \<le> INT32_MAX" "routed n t"
  defines "k \<equiv> nat (orochi_get_shard_index (orochi_hash_datum v) n)"
  shows "on_shard (Some v) n f t =
      (case f (shard_rows t k) of Inl e \<Rightarrow> Inl e | Inr rows \<Rightarrow> Inr (t\<lparr>shard_tables := (shard_tables t)(k \<mapsto> rows)\<rparr>))"
    and "k < nat n"
proof -
  show k: "k < nat n" using by_index.owner_nat(1) [OF assms(1,2)] by (simp add: k_def)
  then obtain rows where "shard_tables t k = Some rows" using assms(3) by (auto simp: bucketed_def)
  then show "on_shard (Some v) n f t =
      (case f (shard_rows t k) of Inl e \<Rightarrow> Inl e | Inr rows \<Rightarrow> Inr (t\<lparr>shard_tables := (shard_tables t)(k \<mapsto> rows)\<rparr>))"
    using assms(1) by (simp add: on_shard_def orochi_get_shard_index_sql_def orochi_hash_value_sql_def
        shard_rows_def k_def cong: sum.case_cong_weak split: sum.split)
qed

lemma view_rows_upd:
  assumes "k < n"
  shows "mset (view_rows n (t\<lparr>shard_tables := (shard_tables t)(k \<mapsto> rows)\<rparr>)) + mset (shard_rows t k) =
         mset (view_rows n t) + mset rows"
proof -
  have "shard_rows (t\<lparr>shard_tables := (shard_tables t)(k \<mapsto> rows)\<rparr>) = (shard_rows t)(k := rows)"
    by (auto simp: shard_rows_def)
  then show ?thesis using mset_concat_upd [OF assms, of "shard_rows t" rows] by (simp add: view_rows_def)
qed

lemma delete_one_mset:
  "mset (delete_one (Some v) rs) =
    (case find (\<lambda>r. dv r = Some v) rs of None \<Rightarrow> mset rs | Some r \<Rightarrow> mset rs - {#r#})"
proof (induction rs)
  case (Cons r rs)
  then show ?case by (auto split: option.splits dest: find_SomeD)
qed simp

lemma set_delete_one: "set (delete_one v rs) \<subseteq> set rs"
  by (induction rs) auto

section \<open>Refinement of a multiset of rows\<close>

text \<open>What a client of the view expects is a bag of rows: inserting adds a row, deleting takes the old row away, and
  updating puts the new row in the place of the old one.\<close>

datatype dml = Insert dist_row | Delete dist_row | Update dist_row dist_row

fun exec_dml :: "int \<Rightarrow> dml \<Rightarrow> phys \<Rightarrow> pg_error + phys" where
  "exec_dml n (Insert r) t = route_insert n r t"
| "exec_dml n (Delete r) t = route_delete n r t"
| "exec_dml n (Update old new) t = view_update n old new t"

fun dml_keys :: "dml \<Rightarrow> datum option list" where
  "dml_keys (Insert r) = [dv r]"
| "dml_keys (Delete r) = [dv r]"
| "dml_keys (Update old new) = [dv old, dv new]"

fun bag_dml :: "dml \<Rightarrow> dist_row multiset \<Rightarrow> dist_row multiset" where
  "bag_dml (Insert r) b = add_mset r b"
| "bag_dml (Delete r) b = b - {#r#}"
| "bag_dml (Update old new) b = add_mset new (b - {#old#})"

text \<open>The triggers find the old row by its distribution value alone. This is the old row if every row with this value is the
  same row; an update deletes all of them, so there must be no second one.\<close>

fun key_identifies :: "dml \<Rightarrow> dist_row multiset \<Rightarrow> bool" where
  "key_identifies (Insert r) b = True"
| "key_identifies (Delete r) b = (\<forall>x \<in># b. dv x = dv r \<longrightarrow> x = r)"
| "key_identifies (Update old new) b = ({#x \<in># b. dv x = dv old#} \<subseteq># {#old#})"

text \<open>The number of the shard of a row.\<close>

definition home_shard :: "int \<Rightarrow> dist_row \<Rightarrow> nat" where
  "home_shard n r = (case dv r of None \<Rightarrow> 0 | Some v \<Rightarrow> nat (orochi_get_shard_index (orochi_hash_datum v) n))"

text \<open>The constraints of the shard of the new row admit it beside the rows that are left there.\<close>

fun dml_admitted :: "int \<Rightarrow> dml \<Rightarrow> phys \<Rightarrow> bool" where
  "dml_admitted n (Insert r) t = shard_accepts t (shard_rows t (home_shard n r)) r"
| "dml_admitted n (Delete r) t = True"
| "dml_admitted n (Update old new) t =
     shard_accepts t (filter (\<lambda>x. dv x \<noteq> dv old) (shard_rows t (home_shard n new))) new"

lemma shard_rows_in_view: "k < n \<Longrightarrow> r \<in> set (shard_rows t k) \<Longrightarrow> r \<in># mset (view_rows n t)"
  by (auto simp: view_rows_def)

lemma insert_refines:
  assumes "1 \<le> n" "n \<le> INT32_MAX" "routed n t" "dv r = Some v"
  shows "shard_accepts t (shard_rows t (home_shard n r)) r \<Longrightarrow>
      \<exists>t'. route_insert n r t = Inr t' \<and> routed n t' \<and> parent t' = parent t \<and>
        mset (view_rows (nat n) t') = add_mset r (mset (view_rows (nat n) t))"
    and "\<not> shard_accepts t (shard_rows t (home_shard n r)) r \<Longrightarrow> route_insert n r t = Inl constraint_violation"
proof -
  let ?k = "nat (orochi_get_shard_index (orochi_hash_datum v) n)"
  note res = on_shard_result [OF assms(1-3), of v]
  have home: "home_shard n r = ?k" using assms(4) by (simp add: home_shard_def)
  have "routed n (t\<lparr>shard_tables := (shard_tables t)(?k \<mapsto> shard_rows t ?k @ [r])\<rparr>)"
    using assms(4) by_index.owner_nat(2) [OF assms(1,2), of v]
    by (intro by_index.bucketed_update [OF assms(3) res(2)]) auto
  then show "\<exists>t'. route_insert n r t = Inr t' \<and> routed n t' \<and> parent t' = parent t \<and>
      mset (view_rows (nat n) t') = add_mset r (mset (view_rows (nat n) t))"
    if "shard_accepts t (shard_rows t (home_shard n r)) r"
    using that res view_rows_upd [OF res(2), of t "shard_rows t ?k @ [r]"] assms(4)
    by (auto simp: route_insert_def insert_row_def home)
  show "route_insert n r t = Inl constraint_violation" if "\<not> shard_accepts t (shard_rows t (home_shard n r)) r"
    using that res(1) assms(4) by (simp add: route_insert_def insert_row_def home)
qed

lemma delete_refines:
  assumes "1 \<le> n" "n \<le> INT32_MAX" "routed n t" "dv r = Some v"
    and key: "key_identifies (Delete r) (mset (view_rows (nat n) t))"
  shows "\<exists>t'. route_delete n r t = Inr t' \<and> routed n t' \<and> parent t' = parent t \<and>
    mset (view_rows (nat n) t') = mset (view_rows (nat n) t) - {#r#}"
proof -
  let ?k = "nat (orochi_get_shard_index (orochi_hash_datum v) n)"
  let ?rows = "shard_rows t ?k"
  let ?t' = "t\<lparr>shard_tables := (shard_tables t)(?k \<mapsto> delete_one (Some v) ?rows)\<rparr>"
  note res = on_shard_result [OF assms(1-3), of v] and upd = view_rows_upd [of ?k "nat n" t "delete_one (Some v) ?rows"]
  have "routed n ?t'"
    using set_delete_one by (intro by_index.bucketed_update [OF assms(3) res(2)]) blast
  moreover have "mset (view_rows (nat n) ?t') = mset (view_rows (nat n) t) - {#r#}"
  proof (cases "find (\<lambda>r. dv r = Some v) ?rows")
    case None
    have "filter (\<lambda>x. dv x = Some v) (view_rows (nat n) t) = filter (\<lambda>x. dv x = Some v) ?rows"
      by (rule by_index.lookup_one_bucket [OF assms(1-3)])
    then have "r \<notin># mset (view_rows (nat n) t)"
      using None assms(4) by (auto simp: find_None_iff filter_empty_conv)
    then show ?thesis using upd [OF res(2)] None by (simp add: delete_one_mset diff_single_trivial)
  next
    case (Some x)
    then have x: "x \<in> set ?rows" "dv x = dv r" using find_SomeD [OF Some] assms(4) by auto
    then have "x = r" using key shard_rows_in_view [OF res(2) x(1)] by simp
    moreover have "mset (view_rows (nat n) ?t') + mset ?rows = mset (view_rows (nat n) t) + (mset ?rows - {#x#})"
      using upd [OF res(2)] Some by (simp add: delete_one_mset)
    moreover obtain b where "mset ?rows = add_mset x b" using x(1) by (metis in_multiset_in_set insert_DiffM)
    ultimately have "add_mset r (mset (view_rows (nat n) ?t')) = mset (view_rows (nat n) t)" by simp
    then show ?thesis by (metis add_mset_remove_trivial)
  qed
  ultimately show ?thesis using res(1) assms(4) by (auto simp: route_delete_def)
qed

lemma replace_in_bag:
  assumes "filter_mset P V = filter_mset P R" "A + R = V + filter_mset (\<lambda>x. \<not> P x) R"
  shows "A = filter_mset (\<lambda>x. \<not> P x) V"
proof (rule multiset_eqI)
  fix x
  have "count A x + count R x = count V x + count (filter_mset (\<lambda>x. \<not> P x) R) x"
    using assms(2) by (metis count_union)
  moreover have "P x \<Longrightarrow> count V x = count R x" using assms(1) by (metis count_filter_mset)
  ultimately show "count A x = count (filter_mset (\<lambda>x. \<not> P x) V) x" by (cases "P x") simp_all
qed

text \<open>The first half of an update: every row with the old distribution value goes, from whichever shard one looks at.\<close>

lemma delete_all_refines:
  assumes "1 \<le> n" "n \<le> INT32_MAX" "routed n t" "w = Some v"
  shows "\<exists>t'. on_shard w n (\<lambda>rows. Inr (delete_all w rows)) t = Inr t' \<and> routed n t' \<and> parent t' = parent t \<and>
    shard_accepts t' = shard_accepts t \<and> (\<forall>i < nat n. shard_rows t' i = filter (\<lambda>r. dv r \<noteq> w) (shard_rows t i)) \<and>
    mset (view_rows (nat n) t') = {#r \<in># mset (view_rows (nat n) t). dv r \<noteq> w#}"
proof -
  let ?k = "nat (orochi_get_shard_index (orochi_hash_datum v) n)"
  let ?rows = "shard_rows t ?k" and ?P = "\<lambda>r. dv r = Some v"
  let ?t' = "t\<lparr>shard_tables := (shard_tables t)(?k \<mapsto> delete_all (Some v) ?rows)\<rparr>"
  note res = on_shard_result [OF assms(1-3), of v]
  have keep: "delete_all (Some v) ?rows = filter (\<lambda>r. \<not> ?P r) ?rows" by (simp add: delete_all_def)
  have "routed n ?t'"
    by (intro by_index.bucketed_update [OF assms(3) res(2)]) (auto simp: keep)
  moreover have "mset (view_rows (nat n) ?t') = filter_mset (\<lambda>r. \<not> ?P r) (mset (view_rows (nat n) t))"
  proof -
    have "filter ?P (view_rows (nat n) t) = filter ?P ?rows"
      by (rule by_index.lookup_one_bucket [OF assms(1-3)])
    then have "filter_mset ?P (mset (view_rows (nat n) t)) = filter_mset ?P (mset ?rows)"
      by (metis mset_filter)
    moreover have "mset (view_rows (nat n) ?t') + mset ?rows =
        mset (view_rows (nat n) t) + filter_mset (\<lambda>r. \<not> ?P r) (mset ?rows)"
      using view_rows_upd [OF res(2), of t "delete_all (Some v) ?rows"] by (simp add: keep)
    ultimately show ?thesis by (intro replace_in_bag)
  qed
  moreover have "shard_rows ?t' i = filter (\<lambda>r. dv r \<noteq> w) (shard_rows t i)" if "i < nat n" for i
  proof (cases "i = ?k")
    case False
    then have "filter (\<lambda>r. dv r \<noteq> w) (shard_rows t i) = shard_rows t i"
      using that assms(3,4) by (fastforce simp: bucketed_def shard_rows_def list_all_iff filter_id_conv)
    then show ?thesis using False by (simp add: shard_rows_def)
  qed (simp add: shard_rows_def delete_all_def assms(4))
  ultimately show ?thesis using res(1) assms(4) by auto
qed

lemma remove_only_row:
  assumes "{#x \<in># b. P x#} \<subseteq># {#y#}" "P y"
  shows "{#x \<in># b. \<not> P x#} = b - {#y#}"
proof (cases "y \<in># b")
  case True
  then have "y \<in># {#x \<in># b. P x#}" using assms(2) by simp
  then have "{#x \<in># b. P x#} = {#y#}"
    using assms(1) by (metis mset_subset_eq_single subset_mset.antisym)
  then show ?thesis using multiset_partition [of b P] by (metis add_diff_cancel_left')
next
  case False
  then have "{#x \<in># b. P x#} = {#}"
    using assms(1) by (metis (no_types, lifting) filter_mset_eq_conv mset_subset_eqD multiset_nonemptyE mem_Collect_eq set_mset_filter
        set_mset_single singletonD)
  then show ?thesis using multiset_partition [of b P] False by (metis add_0 diff_single_trivial)
qed

lemma update_refines:
  assumes "1 \<le> n" "n \<le> INT32_MAX" "routed n t" "dv old = Some v" "dv new = Some w"
  shows "dml_admitted n (Update old new) t \<Longrightarrow>
      \<exists>t'. view_update n old new t = Inr t' \<and> routed n t' \<and> parent t' = parent t \<and>
        mset (view_rows (nat n) t') = add_mset new {#r \<in># mset (view_rows (nat n) t). dv r \<noteq> dv old#}"
    and "\<not> dml_admitted n (Update old new) t \<Longrightarrow> view_update n old new t = Inl constraint_violation"
proof -
  obtain t1 where t1: "on_shard (dv old) n (\<lambda>rows. Inr (delete_all (dv old) rows)) t = Inr t1" "routed n t1" "parent t1 = parent t"
      "shard_accepts t1 = shard_accepts t" "\<forall>i < nat n. shard_rows t1 i = filter (\<lambda>r. dv r \<noteq> dv old) (shard_rows t i)"
      "mset (view_rows (nat n) t1) = {#r \<in># mset (view_rows (nat n) t). dv r \<noteq> dv old#}"
    using delete_all_refines [OF assms(1-4)] by blast
  have "home_shard n new < nat n" using by_index.owner_nat(1) [OF assms(1,2), of w] assms(5) by (simp add: home_shard_def)
  then have adm: "dml_admitted n (Update old new) t \<longleftrightarrow> shard_accepts t1 (shard_rows t1 (home_shard n new)) new"
    using t1(4,5) by simp
  have upd: "view_update n old new t = route_insert n new t1"
    using t1(1) assms(1,5)
    by (simp add: view_update_def route_insert_def orochi_get_shard_index_sql_def orochi_hash_value_sql_def)
  note ins = insert_refines [OF assms(1,2) t1(2) assms(5)]
  show "\<exists>t'. view_update n old new t = Inr t' \<and> routed n t' \<and> parent t' = parent t \<and>
      mset (view_rows (nat n) t') = add_mset new {#r \<in># mset (view_rows (nat n) t). dv r \<noteq> dv old#}"
    if "dml_admitted n (Update old new) t"
    using ins(1) that t1(3,6) unfolding adm upd by auto
  show "view_update n old new t = Inl constraint_violation" if "\<not> dml_admitted n (Update old new) t"
    using ins(2) that unfolding adm upd by blast
qed

text \<open>C16: For rows with a distribution value the triggers implement a bag. From a state in which every row is in the shard of
  its hash, an insert, a delete of a row all of whose namesakes (rows with its distribution value) are the same row, and an
  update of a row without namesakes do to the rows of the view what the operation does to a bag, leave the parent table alone
  and every row in the shard of its hash, provided that the constraints copied to the shard of the new row admit it; otherwise
  the statement is refused.\<close>

theorem triggers_refine_bag:
  assumes "1 \<le> n" "n \<le> INT32_MAX" "routed n t" "None \<notin> set (dml_keys d)"
    and "key_identifies d (mset (view_rows (nat n) t))"
  shows "if dml_admitted n d t
    then \<exists>t'. exec_dml n d t = Inr t' \<and> routed n t' \<and> parent t' = parent t \<and>
           mset (view_rows (nat n) t') = bag_dml d (mset (view_rows (nat n) t))
    else exec_dml n d t = Inl constraint_violation"
proof (cases d)
  case (Insert r)
  then obtain v where "dv r = Some v" using assms(4) by (cases "dv r") auto
  then show ?thesis using insert_refines [OF assms(1-3)] Insert by simp
next
  case (Delete r)
  then obtain v where "dv r = Some v" using assms(4) by (cases "dv r") auto
  then show ?thesis using delete_refines [OF assms(1-3)] Delete assms(5) by simp
next
  case (Update old new)
  then obtain v w where v: "dv old = Some v" "dv new = Some w"
    using assms(4) by (cases "dv old"; cases "dv new") auto
  have "{#r \<in># mset (view_rows (nat n) t). dv r \<noteq> dv old#} = mset (view_rows (nat n) t) - {#old#}"
    using remove_only_row [of "\<lambda>r. dv r = dv old" _ old] assms(5) Update by simp
  then show ?thesis
    using Update update_refines [OF assms(1-3) v] by auto
qed

definition empty_shards :: "nat \<Rightarrow> phys" where
  "empty_shards n = \<lparr>parent = [], shard_tables = (\<lambda>i. if i < n then Some [] else None), router = Some (int n),
     all_shards_view = Some n, parent_accepts = (\<lambda>rows r. True), shard_accepts = (\<lambda>rows r. True)\<rparr>"

lemma routed_empty: "routed n (empty_shards (nat n))"
  by (simp add: bucketed_def empty_shards_def)

theorem triggers_refine_bag_witness:
  "\<exists>t'. exec_dml 4 (Insert \<lparr>dv = Some (Int4 42), payload = ''x''\<rparr>) (empty_shards 4) = Inr t' \<and> routed 4 t' \<and>
    mset (view_rows 4 t') = {#\<lparr>dv = Some (Int4 42), payload = ''x''\<rparr>#}"
proof -
  have "view_rows 4 (empty_shards 4) = []" "shard_accepts (empty_shards 4) rows r" for rows r
    by (simp_all add: view_rows_def shard_rows_def empty_shards_def)
  then show ?thesis
    using triggers_refine_bag [of 4 "empty_shards 4" "Insert \<lparr>dv = Some (Int4 42), payload = ''x''\<rparr>"]
      routed_empty [of 4] by auto
qed

section \<open>Pruning reads every matching row\<close>

text \<open>When a WHERE clause is true of a row: equality compares values, integers of all widths by their
  number and pass-by-reference values by what they point to; conjunctions are true when all arguments are; every other node is decided by \<open>other\<close>.
  \<open>vals i a\<close> is the value of attribute \<open>a\<close> of the row of range table entry \<open>i\<close>.\<close>

fun int_value :: "datum \<Rightarrow> int option" where
  "int_value (Int2 w) = Some (sint w)"
| "int_value (Int4 w) = Some (sint w)"
| "int_value (Int8 w) = Some (sint w)"
| "int_value _ = None"

fun ref_value :: "datum \<Rightarrow> (type_oid \<times> bytes) option" where
  "ref_value (ByReference t _ bs) = Some (t, bs)"
| "ref_value _ = None"

definition sql_eq :: "datum option \<Rightarrow> datum option \<Rightarrow> bool" where
  "sql_eq v w = (case (v, w) of
     (Some a, Some b) \<Rightarrow>
       a = b \<or> (int_value a \<noteq> None \<and> int_value a = int_value b) \<or> (ref_value a \<noteq> None \<and> ref_value a = ref_value b)
   | _ \<Rightarrow> False)"

fun sat :: "(nat \<Rightarrow> nat \<Rightarrow> datum option) \<Rightarrow> (node \<Rightarrow> bool) \<Rightarrow> node \<Rightarrow> bool" where
  "sat vals other (OpExpr opname args) =
     (if opname \<noteq> ''='' then other (OpExpr opname args)
      else case args of
             [Var i a, Const v] \<Rightarrow> sql_eq (vals i a) v
           | [Const v, Var i a] \<Rightarrow> sql_eq v (vals i a)
           | _ \<Rightarrow> other (OpExpr opname args))"
| "sat vals other (BoolExpr AND_EXPR args) = list_all (sat vals other) args"
| "sat vals other q = other q"

text \<open>The constants compared with the distribution column have its type.\<close>

fun typed_quals :: "(nat \<Rightarrow> string option) \<Rightarrow> string \<Rightarrow> type_oid \<Rightarrow> node \<Rightarrow> bool" where
  "typed_quals att d T (OpExpr opname args) =
     (case var_const_pair args of
        Some (a, Const (Some v)) \<Rightarrow> (att a = Some d \<longrightarrow> datum_type v = T) | _ \<Rightarrow> True)"
| "typed_quals att d T (BoolExpr bop args) = list_all (typed_quals att d T) args"
| "typed_quals att d T q = True"

text \<open>A value of the types that \<^verbatim>\<open>orochi_validate_distribution_column\<close> accepts.\<close>

definition dist_value :: "datum \<Rightarrow> bool" where
  "dist_value v \<longleftrightarrow>
     (case v of ByReference _ _ _ \<Rightarrow> False
      | ByValue t _ \<Rightarrow> t \<in> {DATEOID, TIMESTAMPOID, TIMESTAMPTZOID} | _ \<Rightarrow> True)"

lemma sql_eq_same_type:
  "sql_eq (Some a) (Some b) \<Longrightarrow> datum_type a = datum_type b \<Longrightarrow> dist_value a \<Longrightarrow> a = b"
  by (cases a; cases b) (auto simp: sql_eq_def dist_value_def dest: signed_word_eqI)

lemma sql_eq_sym: "sql_eq v w = sql_eq w v"
  by (cases v; cases w) (auto simp: sql_eq_def eq_commute)

lemma var_const_pair_cases:
  assumes "var_const_pair args = Some (a, k)"
  obtains i v where "k = Const v" "args = [Var i a, Const v] \<or> args = [Const v, Var i a]"
  using assms by (cases args rule: var_const_pair.cases) auto

text \<open>The analysis finds an equality that every row that satisfies the clause fulfils.\<close>

lemma analyze_sound:
  "analyze_qual_node att (Some d) q r = Some r' \<Longrightarrow> \<not> sr_is_equality r \<Longrightarrow> sr_is_equality r' \<Longrightarrow>
   sat (\<lambda>_. row) other q \<Longrightarrow> typed_quals att d T q \<Longrightarrow>
   \<exists>a v. sr_equality_value r' = Some v \<and> sr_shard_ids r' = [T] \<and> att a = Some d \<and> datum_type v = T \<and>
         sql_eq (row a) (Some v)"
  "analyze_and_args att (Some d) qs r = Some r' \<Longrightarrow> \<not> sr_is_equality r \<Longrightarrow> sr_is_equality r' \<Longrightarrow>
   list_all (sat (\<lambda>_. row) other) qs \<Longrightarrow> list_all (typed_quals att d T) qs \<Longrightarrow>
   \<exists>a v. sr_equality_value r' = Some v \<and> sr_shard_ids r' = [T] \<and> att a = Some d \<and> datum_type v = T \<and>
         sql_eq (row a) (Some v)"
proof (induction att "Some d" q r and att "Some d" qs r arbitrary: r' and r'
    rule: analyze_qual_node_analyze_and_args.induct)
  case (1 att opname args r)
  show ?case
  proof (cases "var_const_pair args")
    case None
    then show ?thesis using 1 by simp
  next
    case (Some p)
    then obtain a i v where p: "p = (a, Const v)" and args: "args = [Var i a, Const v] \<or> args = [Const v, Var i a]"
      by (metis surj_pair var_const_pair_cases)
    show ?thesis
      using 1 Some p args
      by (auto simp: var_is_distribution_column_def note_equality_def sql_eq_sym
          split: if_splits option.splits bool.splits)
  qed
qed (auto split: option.splits if_splits)

lemma prune_all_or_target:
  assumes "orochi_catalog_get_table c oid = Some ti"
    and "\<forall>i < nat (shard_count ti). \<exists>s \<in> set (orochi_catalog_get_table_shards c oid). shard_index s = int i"
    and "1 \<le> shard_count ti" "shard_count ti \<le> INT32_MAX"
  shows "orochi_prune_shards c oid [r] = orochi_catalog_get_table_shards c oid \<and>
      \<not> (sr_is_equality r \<and> sr_shard_ids r \<noteq> [] \<and> sr_equality_value r \<noteq> None) \<or>
    (\<exists>s v. orochi_prune_shards c oid [r] = [s] \<and> sr_is_equality r \<and> sr_equality_value r = Some v \<and>
       shard_index s = orochi_get_shard_index (orochi_hash_datum v) (shard_count ti))"
proof (cases "sr_is_equality r \<and> sr_shard_ids r \<noteq> [] \<and> sr_equality_value r \<noteq> None")
  case False
  then show ?thesis
    using assms(1) by (auto simp: orochi_prune_shards_def Let_def split: bool.splits list.splits option.splits)
next
  case True
  then obtain v T Ts where v: "sr_equality_value r = Some v" "sr_shard_ids r = T # Ts" "sr_is_equality r"
    by (auto simp: neq_Nil_conv)
  let ?i = "orochi_get_shard_index (orochi_hash_datum v) (shard_count ti)"
  have "nat ?i < nat (shard_count ti)" "int (nat ?i) = ?i"
    using by_index.owner_nat [OF assms(3,4), of v] by auto
  then obtain s where "s \<in> set (orochi_catalog_get_table_shards c oid)" "shard_index s = ?i"
    using assms(2) by metis
  then have "find (\<lambda>s. shard_index s = ?i) (orochi_catalog_get_table_shards c oid) \<noteq> None"
    unfolding find_None_iff by blast
  then obtain s' where "find (\<lambda>s. shard_index s = ?i) (orochi_catalog_get_table_shards c oid) = Some s'" by blast
  moreover have "0 \<le> ?i" using \<open>int (nat ?i) = ?i\<close> by linarith
  ultimately show ?thesis
    using assms(1) v find_SomeD [of "\<lambda>s. shard_index s = ?i" "orochi_catalog_get_table_shards c oid" s']
    by (auto simp: orochi_prune_shards_def Let_def)
qed

text \<open>C18: A query on a distributed table whose rows were routed by the triggers reads, after pruning, every
  row that its WHERE clause is true of, provided the constants compared with the distribution column have
  the type of the column and the variables belong to the table.\<close>

theorem pruned_query_is_complete:
  assumes ti: "orochi_catalog_get_table c oid = Some ti" "is_distributed ti" "distribution_column ti = Some d"
    and n: "1 \<le> shard_count ti" "shard_count ti \<le> INT32_MAX" and t: "routed (shard_count ti) t"
    and shards: "\<forall>i < nat (shard_count ti). \<exists>s \<in> set (orochi_catalog_get_table_shards c oid). shard_index s = int i"
    and att: "\<forall>a. att a = Some d \<longrightarrow> vals r a = dv r"
    and typed: "typed_quals att d T q"
    and idxs: "orochi_get_target_shards_for_query c t att oid (Some q) = Some idxs"
    and row: "r \<in> set (view_rows (nat (shard_count ti)) t)" "dv r = Some w" "datum_type w = T" "dist_value w"
    and true: "sat (\<lambda>_. vals r) other q"
  shows "r \<in> set (concat (map (shard_rows t) idxs))"
proof -
  let ?n = "shard_count ti"
  obtain sr where sr: "analyze_qual_node att (Some d) q
      \<lparr>sr_table_oid = oid, sr_distribution_column = Some d, sr_shard_ids = [], sr_is_equality = False,
       sr_equality_value = None\<rparr> = Some sr"
    and idx: "idxs = (let pruned = orochi_prune_shards c oid [sr];
        ix = (if length pruned > 0 then map (\<lambda>s. nat (shard_index s)) pruned else [0 ..< nat ?n])
      in filter (\<lambda>i. shard_tables t i \<noteq> None) ix)"
    using idxs ti by (auto simp: orochi_get_target_shards_for_query_def orochi_analyze_quals_for_pruning_def
        Let_def split: option.splits)
  obtain k where k: "k < nat ?n" "r \<in> set (shard_rows t k)" "shard_tables t k \<noteq> None"
    using row(1) t by (auto simp: view_rows_def bucketed_def)
  have home: "orochi_get_shard_index (orochi_hash_datum w) ?n = int k"
    using t k row(2) by (fastforce simp: bucketed_def shard_rows_def list_all_iff split: option.splits)
  from prune_all_or_target [OF ti(1) shards n, of sr]
  have "k \<in> set idxs"
  proof
    assume all: "orochi_prune_shards c oid [sr] = orochi_catalog_get_table_shards c oid \<and>
      \<not> (sr_is_equality sr \<and> sr_shard_ids sr \<noteq> [] \<and> sr_equality_value sr \<noteq> None)"
    obtain s where "s \<in> set (orochi_catalog_get_table_shards c oid)" "shard_index s = int k"
      using shards k(1) by blast
    then show ?thesis using all k(3) by (force simp: idx Let_def)
  next
    assume "\<exists>s v. orochi_prune_shards c oid [sr] = [s] \<and> sr_is_equality sr \<and> sr_equality_value sr = Some v \<and>
       shard_index s = orochi_get_shard_index (orochi_hash_datum v) ?n"
    then obtain s v where s: "orochi_prune_shards c oid [sr] = [s]" "sr_is_equality sr" "sr_equality_value sr = Some v"
      "shard_index s = orochi_get_shard_index (orochi_hash_datum v) ?n" by blast
    have "sql_eq (Some w) (Some v)" "datum_type v = T"
      using analyze_sound(1) [OF sr _ s(2) true typed] s(3) att row(2) by auto
    then have "w = v" using sql_eq_same_type row(3,4) by blast
    then show ?thesis using s home k(3) by (simp add: idx)
  qed
  then show ?thesis using k(2) by auto
qed

lemma equality_target_shard:
  assumes ti: "orochi_catalog_get_table c oid = Some ti" "is_distributed ti" "distribution_column ti = Some d"
    and n: "1 \<le> shard_count ti" "shard_count ti \<le> INT32_MAX" and t: "routed (shard_count ti) t"
    and shards: "\<forall>i < nat (shard_count ti). \<exists>s \<in> set (orochi_catalog_get_table_shards c oid). shard_index s = int i"
    and att: "att a = Some d"
  shows "orochi_get_target_shards_for_query c t att oid (Some (OpExpr ''='' [Var i a, Const (Some v)])) =
    Some [nat (orochi_get_shard_index (orochi_hash_datum v) (shard_count ti))]"
proof -
  let ?sr = "note_equality v \<lparr>sr_table_oid = oid, sr_distribution_column = Some d, sr_shard_ids = [],
       sr_is_equality = False, sr_equality_value = None\<rparr>"
  have "orochi_analyze_quals_for_pruning c att (OpExpr ''='' [Var i a, Const (Some v)]) oid = Some (Some ?sr)"
    using ti att by (simp add: orochi_analyze_quals_for_pruning_def var_is_distribution_column_def)
  moreover obtain s where "orochi_prune_shards c oid [?sr] = [s]"
    "shard_index s = orochi_get_shard_index (orochi_hash_datum v) (shard_count ti)"
    using prune_all_or_target [OF ti(1) shards n, of ?sr] by (auto simp: note_equality_def)
  moreover have "shard_tables t (nat (orochi_get_shard_index (orochi_hash_datum v) (shard_count ti))) \<noteq> None"
    using t by_index.owner_nat(1) [OF n, of v] unfolding bucketed_def by blast
  ultimately show ?thesis
    using ti by (simp add: orochi_get_target_shards_for_query_def Let_def)
qed

definition one_row :: "datum \<Rightarrow> phys" where
  "one_row v =
     (empty_shards 4)\<lparr>shard_tables := (shard_tables (empty_shards 4))
        (nat (orochi_get_shard_index (orochi_hash_datum v) 4) \<mapsto> [\<lparr>dv = Some v, payload = ''x''\<rparr>])\<rparr>"

lemma one_row_inserted:
  "route_insert 4 \<lparr>dv = Some v, payload = ''x''\<rparr> (empty_shards 4) = Inr (one_row v)" and one_row_routed: "routed 4 (one_row v)"
proof -
  have e: "routed 4 (empty_shards 4)" using routed_empty [of 4] by simp
  show "route_insert 4 \<lparr>dv = Some v, payload = ''x''\<rparr> (empty_shards 4) = Inr (one_row v)"
    using on_shard_result(1) [OF _ _ e, of v]
    by (simp add: route_insert_def insert_row_def one_row_def shard_rows_def empty_shards_def)
  then show "routed 4 (one_row v)"
    using insert_refines(1) [OF _ _ e, of "\<lparr>dv = Some v, payload = ''x''\<rparr>" v] by (auto simp: empty_shards_def)
qed

definition id_attribute :: "nat \<Rightarrow> string option" where
  "id_attribute a = (if a = 1 then Some ''id'' else None)"

lemma example_shards_4_layout:
  "orochi_catalog_get_table (example_shards 4) 7 = Some (example_table 7 4)"
  "\<forall>i < nat 4. \<exists>s \<in> set (orochi_catalog_get_table_shards (example_shards 4) 7). shard_index s = int i"
proof -
  show "orochi_catalog_get_table (example_shards 4) 7 = Some (example_table 7 4)"
    by (simp add: example_shards_def create_shards_result example_catalog_def orochi_catalog_get_table_def example_table_def)
  have "map shard_index (orochi_catalog_get_table_shards (example_shards 4) 7) = [0, 1, 2, 3]" by code_simp
  then have "shard_index ` set (orochi_catalog_get_table_shards (example_shards 4) 7) = {0, 1, 2, 3}"
    by (metis list.set_map list.simps(15) empty_set)
  moreover have "int i \<in> {0, 1, 2, 3}" if "i < nat 4" for i using that by auto
  ultimately show "\<forall>i < nat 4. \<exists>s \<in> set (orochi_catalog_get_table_shards (example_shards 4) 7). shard_index s = int i"
    by (metis imageE)
qed

lemma example_table_sel [simp]:
  "shard_count (example_table oid n) = n" "is_distributed (example_table oid n)"
  "distribution_column (example_table oid n) = Some ''id''"
  by (simp_all add: example_table_def)

lemma example_target:
  "orochi_get_target_shards_for_query (example_shards 4) (one_row w) id_attribute 7
     (Some (OpExpr ''='' [Var i 1, Const (Some v)])) = Some [nat (orochi_get_shard_index (orochi_hash_datum v) 4)]"
  using equality_target_shard [OF example_shards_4_layout(1), of "''id''" "one_row w" id_attribute 1 i v]
    example_shards_4_layout(2) one_row_routed [of w] by (simp add: id_attribute_def)

theorem pruned_query_is_complete_witness:
  "\<exists>idxs. orochi_get_target_shards_for_query (example_shards 4) (one_row (Int4 5)) id_attribute 7
       (Some (OpExpr ''='' [Var 1 1, Const (Some (Int4 5))])) = Some idxs \<and> length idxs = 1 \<and>
     \<lparr>dv = Some (Int4 5), payload = ''x''\<rparr> \<in> set (concat (map (shard_rows (one_row (Int4 5))) idxs))"
proof -
  let ?r = "\<lparr>dv = Some (Int4 5), payload = ''x''\<rparr>"
  let ?k = "nat (orochi_get_shard_index (orochi_hash_datum (Int4 5)) 4)"
  have k: "?k < 4" using by_index.owner_nat(1) [of 4 "Int4 5"] by simp
  have "?r \<in> set (view_rows (nat 4) (one_row (Int4 5)))"
    using k shard_rows_in_view [of ?k 4 ?r "one_row (Int4 5)"] by (simp add: one_row_def shard_rows_def)
  then have "?r \<in> set (concat (map (shard_rows (one_row (Int4 5))) [?k]))"
    using pruned_query_is_complete [OF example_shards_4_layout(1), of "''id''" "one_row (Int4 5)" id_attribute
        "\<lambda>r _. dv r" ?r INT4OID "OpExpr ''='' [Var 1 1, Const (Some (Int4 5))]" "[?k]" "Int4 5" "\<lambda>_. True"]
      example_shards_4_layout(2) one_row_routed [of "Int4 5"] example_target [of "Int4 5" 1 "Int4 5"]
    by (simp add: sql_eq_def dist_value_def)
  then show ?thesis using example_target [of "Int4 5" 1 "Int4 5"] by simp
qed

section \<open>Where the routing goes wrong\<close>

text \<open>A query with a constant of another integer width than the distribution column misses rows: the
  hash depends on the width. With four shards the row with the bigint key 5 is stored in another shard
  than the one that \<^verbatim>\<open>id = 5\<close> with an integer constant is pruned to, although the two values are equal.\<close>

theorem other_integer_width_misses_row:
  "sql_eq (Some (Int8 5)) (Some (Int4 5)) \<and>
   orochi_get_target_shards_for_query (example_shards 4) (one_row (Int8 5)) id_attribute 7
     (Some (OpExpr ''='' [Var 1 1, Const (Some (Int4 5))])) = Some [2] \<and>
   view_rows 4 (one_row (Int8 5)) = [\<lparr>dv = Some (Int8 5), payload = ''x''\<rparr>] \<and>
   shard_rows (one_row (Int8 5)) 2 = []"
proof -
  have h: "orochi_get_shard_index (orochi_hash_datum (Int4 5)) 4 = 2"
    "orochi_get_shard_index (orochi_hash_datum (Int8 5)) 4 = 1"
    by (simp_all add: le_bytes_numeral crc32_eval shard_index_mod)
  show ?thesis
    using example_target [of "Int8 5" 1 "Int4 5"]
    by (simp add: h one_row_def shard_rows_def view_rows_def empty_shards_def sql_eq_def upt_rec
        del: orochi_hash_datum.simps)
qed

text \<open>Updating a row through the view deletes every other row with the same distribution value, since
  the trigger deletes by the distribution column alone.\<close>

theorem view_update_deletes_siblings:
  assumes "1 \<le> n" "n \<le> INT32_MAX" "routed n t" "dv old = Some v" "dv new = Some w"
    and "sibling \<in> set (view_rows (nat n) t)" "dv sibling = Some v" "sibling \<noteq> new"
    and "dml_admitted n (Update old new) t"
  shows "\<exists>t'. view_update n old new t = Inr t' \<and> sibling \<notin> set (view_rows (nat n) t')"
proof -
  obtain t' where "view_update n old new t = Inr t'"
    and rows: "mset (view_rows (nat n) t') = add_mset new {#r \<in># mset (view_rows (nat n) t). dv r \<noteq> dv old#}"
    using update_refines(1) [OF assms(1-5)] assms(9) by blast
  moreover have "set (view_rows (nat n) t') = insert new {r \<in> set (view_rows (nat n) t). dv r \<noteq> dv old}"
    using arg_cong [OF rows, of set_mset] by simp
  ultimately show ?thesis using assms(4,7,8) by auto
qed

theorem view_update_deletes_siblings_witness:
  "\<exists>t'. view_update 4 \<lparr>dv = Some (Int4 5), payload = ''y''\<rparr> \<lparr>dv = Some (Int4 5), payload = ''z''\<rparr> (one_row (Int4 5)) = Inr t' \<and>
     \<lparr>dv = Some (Int4 5), payload = ''x''\<rparr> \<notin> set (view_rows 4 t')"
proof -
  let ?r = "\<lparr>dv = Some (Int4 5), payload = ''x''\<rparr>"
  let ?k = "nat (orochi_get_shard_index (orochi_hash_datum (Int4 5)) 4)"
  have "?k < 4" using by_index.owner_nat(1) [of 4 "Int4 5"] by simp
  then have "?r \<in> set (view_rows (nat 4) (one_row (Int4 5)))"
    using shard_rows_in_view [of ?k 4 ?r "one_row (Int4 5)"] by (simp add: one_row_def shard_rows_def)
  then show ?thesis
    using view_update_deletes_siblings [of 4 "one_row (Int4 5)" "\<lparr>dv = Some (Int4 5), payload = ''y''\<rparr>" "Int4 5"
        "\<lparr>dv = Some (Int4 5), payload = ''z''\<rparr>" "Int4 5" ?r] one_row_routed [of "Int4 5"]
    by (simp add: one_row_def empty_shards_def)
qed

text \<open>The analysis of a clause is defined when the table has a distribution column, and its list of types
  has at most one element.\<close>

lemma analyze_total:
  "length (sr_shard_ids r) \<le> 1 \<Longrightarrow>
     \<exists>r'. analyze_qual_node att (Some d) q r = Some r' \<and> length (sr_shard_ids r') \<le> 1"
  "length (sr_shard_ids r) \<le> 1 \<Longrightarrow>
     \<exists>r'. analyze_and_args att (Some d) qs r = Some r' \<and> length (sr_shard_ids r') \<le> 1"
proof (induction att "Some d" q r and att "Some d" qs r rule: analyze_qual_node_analyze_and_args.induct)
  case (1 att opname args r)
  then show ?case
    by (auto simp: var_is_distribution_column_def note_equality_def split: option.splits prod.splits bool.splits)
qed fastforce+

text \<open>Every query with a WHERE clause on distributed tables is classified as a single-shard query, also
  when the clause says nothing about a distribution column, and whether or not it aggregates: the
  classification only tests for more than one entry in a list that never has more than one.\<close>

theorem where_clause_means_single_shard:
  assumes "q_quals q = Some quals" "orochi_get_distributed_tables c q \<noteq> []"
    and "\<forall>oid \<in> set (orochi_get_distributed_tables c q). orochi_get_distribution_column c oid \<noteq> None"
  shows "orochi_analyze_query c att q = Some OROCHI_QUERY_SINGLE_SHARD"
proof -
  have "single_shard_loop c att q oids True = Some True"
    if "set oids \<subseteq> set (orochi_get_distributed_tables c q)" for oids
    using that
  proof (induction oids)
    case (Cons oid oids)
    then have "oid \<in> set (orochi_get_distributed_tables c q)" by simp
    then have "orochi_is_distributed_table c oid" "orochi_get_distribution_column c oid \<noteq> None"
      using assms(3) by (simp_all add: orochi_get_distributed_tables_def)
    then obtain ti d where ti: "orochi_catalog_get_table c oid = Some ti" "is_distributed ti" "distribution_column ti = Some d"
      by (auto simp: orochi_is_distributed_table_def orochi_get_distribution_column_def split: option.splits)
    obtain r where "orochi_analyze_predicates c att q oid = Some [r]" "length (sr_shard_ids r) \<le> 1"
      using analyze_total(1) [of "\<lparr>sr_table_oid = oid, sr_distribution_column = Some d, sr_shard_ids = [],
          sr_is_equality = False, sr_equality_value = None\<rparr>" "att oid" d quals] ti assms(1)
      by (auto simp: orochi_analyze_predicates_def orochi_analyze_quals_for_pruning_def)
    then show ?case using Cons by simp
  qed simp
  then show ?thesis using assms(2) by (simp add: orochi_analyze_query_def Let_def)
qed

theorem where_clause_means_single_shard_witness:
  "orochi_analyze_query (example_shards 4) (\<lambda>_. id_attribute)
     \<lparr>q_rtable = [Some 7], q_quals = Some (OpExpr ''>'' [Var 1 2, Const (Some (Int4 3))]), q_has_aggs = True,
      q_group_clause = False\<rparr> = Some OROCHI_QUERY_SINGLE_SHARD"
  by (rule where_clause_means_single_shard)
    (simp_all add: orochi_get_distributed_tables_def orochi_is_distributed_table_def List.map_filter_def
      orochi_get_distribution_column_def example_shards_4_layout(1))

lemma fill_shards_result:
  assumes "\<forall>i < m. shard_tables t i \<noteq> None \<and>
    fold_err (insert_row (shard_accepts t)) (filter (in_hash_range (shard_hash_min (c_div INT32_MAX cnt) (int i))
        (shard_hash_max cnt (c_div INT32_MAX cnt) (int i))) (parent t)) (shard_rows t i) = Inr (rows i)"
  shows "fold_err (fill_shard cnt) [0 ..< m] t =
    Inr (t\<lparr>shard_tables := (\<lambda>i. if i < m then Some (rows i) else shard_tables t i)\<rparr>)"
  using assms
proof (induction m)
  case (Suc m)
  then obtain old where "shard_tables t m = Some old" by auto
  then show ?case
    using Suc by (simp add: fold_err_append fill_shard_def Let_def shard_rows_def less_Suc_eq fun_eq_iff)
qed simp

lemma delete_keeps_parent:
  "on_shard v n f t = Inr t' \<Longrightarrow> parent t' = parent t \<and> router t' = router t"
  by (auto simp: on_shard_def split: sum.splits option.splits)

lemma route_deletes_keep_parent:
  "fold_err (route_delete n) rs t = Inr t' \<Longrightarrow> parent t' = parent t"
proof (induction rs arbitrary: t)
  case (Cons r rs)
  then show ?case
    by (auto simp: route_delete_def dest: delete_keeps_parent split: sum.splits)
qed simp

text \<open>Distributing a table that already has rows does not move them. The routing triggers are installed
  before the rows are redistributed, so the final \<^verbatim>\<open>DELETE\<close> on the parent is routed to the shards and
  suppressed on the parent: the row stays in the parent, and it is taken out again of the shard it was
  copied to when that is the shard of its index; otherwise the copy remains in a shard where no routed
  query looks for it.\<close>

theorem existing_row_is_not_moved:
  assumes n: "1 \<le> n" "n \<le> INT32_MAX" and ti: "is_distributed ti" "shard_count ti = n"
    and t: "router t = Some n" "parent t = [r]" "dv r = Some v" "\<forall>i < nat n. shard_tables t i = Some []" "shard_accepts t [] r"
  shows "\<exists>t'. orochi_redistribute_data (Some ti) t = Inr t' \<and> parent t' = [r] \<and>
    (if hash_owner n (orochi_hash_datum v) = orochi_get_shard_index (orochi_hash_datum v) n
     then view_rows (nat n) t' = []
     else shard_rows t' (nat (hash_owner n (orochi_hash_datum v))) = [r] \<and>
          shard_rows t' (nat (orochi_get_shard_index (orochi_hash_datum v) n)) = [])"
proof -
  let ?h = "orochi_hash_datum v" and ?hr = "INT32_MAX div n"
  let ?o = "nat (hash_owner n ?h)" and ?k = "nat (orochi_get_shard_index ?h n)"
  define t1 where "t1 = t\<lparr>shard_tables := (\<lambda>i. if i < nat n then Some (if i = ?o then [r] else []) else shard_tables t i)\<rparr>"
  note o = by_range.owner_nat [OF n, of v] and k = by_index.owner_nat [OF n, of v]
  have "in_hash_range (shard_hash_min ?hr (int i)) (shard_hash_max n ?hr (int i)) r \<longleftrightarrow> i = ?o" if "i < nat n" for i
    using shard_range_iff [OF n, of "int i" ?h] that orochi_hash_datum_i32 [of v] t(3) o(2)
    by (auto simp: in_hash_range_def orochi_hash_value_sql_def)
  then have fill: "fold_err (fill_shard n) [0 ..< nat n] t = Inr t1"
    using fill_shards_result [of "nat n" t n "\<lambda>i. if i = ?o then [r] else []"] t n
    by (auto simp: t1_def shard_rows_def insert_row_def fun_eq_iff)
  define t2 where "t2 = t1\<lparr>shard_tables := (shard_tables t1)(?k \<mapsto> delete_one (dv r) (shard_rows t1 ?k))\<rparr>"
  have "shard_tables t1 ?k \<noteq> None" using k by (simp add: t1_def)
  then have "route_delete n r t1 = Inr t2"
    using n t(3) by (auto simp: route_delete_def on_shard_def orochi_get_shard_index_sql_def
        orochi_hash_value_sql_def t2_def shard_rows_def)
  then have res: "orochi_redistribute_data (Some ti) t = Inr t2"
    using ti t fill by (simp add: orochi_redistribute_data_def parent_delete_all_def t1_def)
  have rows: "shard_rows t2 i = (if i = ?o \<and> i \<noteq> ?k then [r] else [])" if "i < nat n" for i
    using that t(3) k(1) by (auto simp: t2_def t1_def shard_rows_def)
  have same: "?o = ?k \<longleftrightarrow> hash_owner n ?h = orochi_get_shard_index ?h n" using o(2) k(2) by metis
  have "view_rows (nat n) t2 = []" if "?o = ?k"
    using rows that by (auto simp: view_rows_def)
  moreover have "parent t2 = [r]" using t(2) by (simp add: t2_def t1_def)
  ultimately show ?thesis
    using res rows [OF o(1)] rows [OF k(1)] same by auto
qed

text \<open>The catalog entry of a table with a shard count.\<close>

theorem existing_row_is_not_moved_witness:
  "\<exists>t'. orochi_redistribute_data (Some (example_table 7 4))
       ((empty_shards 4)\<lparr>parent := [\<lparr>dv = Some (Text [104]), payload = ''x''\<rparr>]\<rparr>) = Inr t' \<and>
     parent t' = [\<lparr>dv = Some (Text [104]), payload = ''x''\<rparr>] \<and>
     shard_rows t' 0 = [\<lparr>dv = Some (Text [104]), payload = ''x''\<rparr>] \<and> shard_rows t' 3 = []"
proof -
  have h: "orochi_get_shard_index (orochi_hash_datum (Text [104])) 4 = 3" "hash_owner 4 (orochi_hash_datum (Text [104])) = 0"
    by (simp_all add: crc32_eval shard_index_mod hash_owner_def)
  show ?thesis
    using existing_row_is_not_moved [of 4 "example_table 7 4"
        "(empty_shards 4)\<lparr>parent := [\<lparr>dv = Some (Text [104]), payload = ''x''\<rparr>]\<rparr>" _ "Text [104]"]
    by (simp add: h empty_shards_def del: orochi_hash_datum.simps)
qed

text \<open>Undistributing a table drops its shard tables and leaves the parent as it is: all rows that were
  inserted while the table was distributed are gone.\<close>

theorem undistribute_drops_rows:
  assumes "orochi_catalog_get_table c oid = Some ti" "is_distributed ti"
  shows "\<exists>c' t'. orochi_undistribute_table_sql oid (c, t) = Inr (c', t') \<and>
    view_rows (nat (shard_count ti)) t' = [] \<and> parent t' = parent t \<and> orochi_catalog_get_table c' oid = None"
  using assms
  by (auto simp: orochi_undistribute_table_sql_def orochi_is_distributed_table_def orochi_drop_physical_shards_def
      orochi_drop_union_view_def orochi_remove_routing_trigger_def view_rows_def shard_rows_def Let_def
      orochi_catalog_remove_table_def orochi_catalog_get_table_def)

theorem undistribute_drops_rows_witness:
  "\<exists>c' t'. orochi_undistribute_table_sql 7 (example_shards 4, one_row (Int4 5)) = Inr (c', t') \<and>
    view_rows 4 t' = [] \<and> parent t' = []"
  using undistribute_drops_rows [OF example_shards_4_layout(1), of "one_row (Int4 5)"]
  by (auto simp: one_row_def empty_shards_def)

end
