(* ===== verification/Vector_Batch.thy ===== *)
theory Vector_Batch
  imports Prelude
begin

text \<open>
  Batches of the vectorized executor (\<^verbatim>\<open>executor/vectorized.h\<close> and the first half of
  \<^verbatim>\<open>executor/vectorized.c\<close>): column buffers with their NULL bitmaps, the selection vector with its
  compaction, intersection and union, and the filters in their AVX2 and scalar versions.

  A batch \<open>b\<close> stands for the list \<open>active b\<close> of the rows that are still selected; \<open>batch_wf\<close> is its
  representation invariant. The filters are shown to refine the \<^const>\<open>filter\<close> of lists. A column buffer is
  an array of words of the width of its type; doubles and floats are their IEEE 754 bit patterns, compared
  as the standard prescribes. \<open>avx2\<close> says whether the code was compiled with \<^verbatim>\<open>__AVX2__\<close>. A reading of a
  buffer with another width than that of its type is undefined.
\<close>

unbundle bit_operations_syntax

section \<open>Types\<close>

datatype VectorizedCompareOp =
  VECTORIZED_CMP_EQ | VECTORIZED_CMP_NE | VECTORIZED_CMP_LT | VECTORIZED_CMP_LE |
  VECTORIZED_CMP_GT | VECTORIZED_CMP_GE | VECTORIZED_CMP_IS_NULL | VECTORIZED_CMP_IS_NOT_NULL

datatype VectorizedDataType =
  VECTORIZED_TYPE_INT32 | VECTORIZED_TYPE_INT64 | VECTORIZED_TYPE_FLOAT32 | VECTORIZED_TYPE_FLOAT64 |
  VECTORIZED_TYPE_BOOL | VECTORIZED_TYPE_STRING | VECTORIZED_TYPE_TIMESTAMP | VECTORIZED_TYPE_DATE |
  VECTORIZED_TYPE_UNKNOWN

datatype column_data = Data64 "u64 list" | Data32 "u32 list" | Data8 "u8 list"

record VectorColumn =
  vc_data_type :: VectorizedDataType
  vc_type_len :: int
  vc_type_byval :: bool
  vc_type_oid :: nat
  vc_data :: column_data
  vc_nulls :: "u64 list"
  vc_has_nulls :: bool
  vc_offsets :: "int list option"

record VectorBatch =
  vb_capacity :: nat
  vb_count :: nat
  vb_column_count :: nat
  vb_columns :: "VectorColumn option list"
  vb_selection :: "nat list"
  vb_selected_count :: nat
  vb_has_selection :: bool
  vb_rows_processed :: nat
  vb_rows_filtered :: nat

abbreviation (input) VECTORIZED_BATCH_SIZE :: nat where "VECTORIZED_BATCH_SIZE \<equiv> 1024"
abbreviation (input) VECTORIZED_MAX_COLUMNS :: nat where "VECTORIZED_MAX_COLUMNS \<equiv> 256"

section \<open>Batches\<close>

text \<open>The selection vector is not cleared when it is allocated: \<open>garbage\<close> is what memory holds.\<close>

definition vector_batch_create :: "(nat \<Rightarrow> nat) \<Rightarrow> int \<Rightarrow> int \<Rightarrow> pg_error + VectorBatch" where
  "vector_batch_create garbage capacity column_count =
     (let cap = (if capacity < 1 then VECTORIZED_BATCH_SIZE else nat capacity) in
      if column_count < 1 \<or> column_count > int VECTORIZED_MAX_COLUMNS
      then Inl (ERROR ''invalid column count'')
      else Inr \<lparr>vb_capacity = cap, vb_count = 0, vb_column_count = nat column_count,
                vb_columns = replicate (nat column_count) None,
                vb_selection = map garbage [0..<cap], vb_selected_count = 0, vb_has_selection = False,
                vb_rows_processed = 0, vb_rows_filtered = 0\<rparr>)"

definition vector_batch_reset :: "VectorBatch \<Rightarrow> VectorBatch" where
  "vector_batch_reset b =
     b\<lparr>vb_count := 0, vb_selected_count := 0, vb_has_selection := False,
       vb_columns := map (map_option (\<lambda>c. c\<lparr>vc_has_nulls := False\<rparr>)) (vb_columns b)\<rparr>"

fun column_buffer :: "VectorizedDataType \<Rightarrow> nat \<Rightarrow> int \<times> bool \<times> column_data" where
  "column_buffer VECTORIZED_TYPE_INT32 cap = (4, True, Data32 (replicate cap 0))"
| "column_buffer VECTORIZED_TYPE_DATE cap = (4, True, Data32 (replicate cap 0))"
| "column_buffer VECTORIZED_TYPE_INT64 cap = (8, True, Data64 (replicate cap 0))"
| "column_buffer VECTORIZED_TYPE_TIMESTAMP cap = (8, True, Data64 (replicate cap 0))"
| "column_buffer VECTORIZED_TYPE_FLOAT32 cap = (4, True, Data32 (replicate cap 0))"
| "column_buffer VECTORIZED_TYPE_FLOAT64 cap = (8, True, Data64 (replicate cap 0))"
| "column_buffer VECTORIZED_TYPE_BOOL cap = (1, True, Data8 (replicate cap 0))"
| "column_buffer VECTORIZED_TYPE_STRING cap = (- 1, False, Data64 (replicate cap 0))"
| "column_buffer VECTORIZED_TYPE_UNKNOWN cap = (8, False, Data64 (replicate cap 0))"

definition vector_batch_add_column ::
  "VectorBatch \<Rightarrow> int \<Rightarrow> VectorizedDataType \<Rightarrow> nat \<Rightarrow> pg_error + VectorBatch" where
  "vector_batch_add_column b column_index data_type type_oid =
     (if column_index < 0 \<or> column_index \<ge> int (vb_column_count b)
      then Inl (ERROR ''invalid column index'')
      else let (len, byval, buf) = column_buffer data_type (vb_capacity b);
               column = \<lparr>vc_data_type = data_type, vc_type_len = len, vc_type_byval = byval,
                         vc_type_oid = type_oid, vc_data = buf,
                         vc_nulls = replicate ((vb_capacity b + 63) div 64) 0, vc_has_nulls = False,
                         vc_offsets = (if data_type = VECTORIZED_TYPE_STRING
                                       then Some (replicate (vb_capacity b) 0) else None)\<rparr>
           in Inr (b\<lparr>vb_columns := (vb_columns b)[nat column_index := Some column]\<rparr>))"

text \<open>The OIDs of \<^verbatim>\<open>pg_type.h\<close>.\<close>

definition vectorized_type_from_oid :: "nat \<Rightarrow> VectorizedDataType" where
  "vectorized_type_from_oid type_oid =
     (if type_oid = 21 \<or> type_oid = 23 then VECTORIZED_TYPE_INT32
      else if type_oid = 20 then VECTORIZED_TYPE_INT64
      else if type_oid = 700 then VECTORIZED_TYPE_FLOAT32
      else if type_oid = 701 then VECTORIZED_TYPE_FLOAT64
      else if type_oid = 16 then VECTORIZED_TYPE_BOOL
      else if type_oid = 25 \<or> type_oid = 1043 \<or> type_oid = 1042 then VECTORIZED_TYPE_STRING
      else if type_oid = 1114 \<or> type_oid = 1184 then VECTORIZED_TYPE_TIMESTAMP
      else if type_oid = 1082 then VECTORIZED_TYPE_DATE
      else VECTORIZED_TYPE_UNKNOWN)"

text \<open>The checks that open every public filter and sum.\<close>

definition batch_column :: "VectorBatch \<Rightarrow> int \<Rightarrow> VectorColumn outcome" where
  "batch_column b column_index =
     (if column_index < 0 \<or> column_index \<ge> int (vb_column_count b)
      then Some (Inl (ERROR ''invalid batch or column index''))
      else case array_get (vb_columns b) (nat column_index) of
             None \<Rightarrow> None
           | Some None \<Rightarrow> Some (Inl (ERROR ''column not initialized''))
           | Some (Some column) \<Rightarrow> Some (Inr column))"

fun data64 :: "VectorColumn \<Rightarrow> u64 list option" where
  "data64 c = (case vc_data c of Data64 xs \<Rightarrow> Some xs | _ \<Rightarrow> None)"

fun data32 :: "VectorColumn \<Rightarrow> u32 list option" where
  "data32 c = (case vc_data c of Data32 xs \<Rightarrow> Some xs | _ \<Rightarrow> None)"

fun data8 :: "VectorColumn \<Rightarrow> u8 list option" where
  "data8 c = (case vc_data c of Data8 xs \<Rightarrow> Some xs | _ \<Rightarrow> None)"

text \<open>The test of a bit of the NULL bitmap, and the test that first looks at \<^verbatim>\<open>has_nulls\<close>.\<close>

definition null_bit :: "VectorColumn \<Rightarrow> nat \<Rightarrow> bool option" where
  "null_bit c i = map_option (\<lambda>w. w AND push_bit (i mod 64) 1 \<noteq> 0) (array_get (vc_nulls c) (i div 64))"

definition row_null :: "VectorColumn \<Rightarrow> nat \<Rightarrow> bool option" where
  "row_null c i = (if vc_has_nulls c then null_bit c i else Some False)"

section \<open>Selection vectors\<close>

definition init_full_selection :: "VectorBatch \<Rightarrow> VectorBatch option" where
  "init_full_selection b =
     map_option (\<lambda>sel. b\<lparr>vb_selection := sel, vb_selected_count := vb_count b, vb_has_selection := True\<rparr>)
       (fold_opt (\<lambda>i sel. array_store sel i i) [0..<vb_count b] (vb_selection b))"

definition ensure_selection :: "VectorBatch \<Rightarrow> VectorBatch option" where
  "ensure_selection b = (if vb_has_selection b then Some b else init_full_selection b)"

function compact_loop :: "bool list \<Rightarrow> nat \<Rightarrow> nat \<Rightarrow> nat \<Rightarrow> nat list \<Rightarrow> (nat list \<times> nat) option" where
  "compact_loop msk n i write_pos sel =
     (if i < n then
        do { s \<leftarrow> array_get sel i;
             m \<leftarrow> array_get msk s;
             (if m then do { sel' \<leftarrow> array_store sel write_pos s;
                             compact_loop msk n (Suc i) (Suc write_pos) sel' }
              else compact_loop msk n (Suc i) write_pos sel) }
      else Some (sel, write_pos))"
  by pat_completeness auto
termination by (relation "measure (\<lambda>(msk, n, i, w, sel). n - i)") auto

declare compact_loop.simps [simp del]

definition compact_selection :: "VectorBatch \<Rightarrow> bool list \<Rightarrow> VectorBatch option" where
  "compact_selection b msk =
     map_option (\<lambda>(sel, write_pos).
         b\<lparr>vb_selection := sel,
           vb_rows_filtered := vb_rows_filtered b + (vb_selected_count b - write_pos),
           vb_selected_count := write_pos\<rparr>)
       (compact_loop msk (vb_selected_count b) 0 0 (vb_selection b))"

text \<open>The merging loops run over what is left of the two vectors.\<close>

fun and_loop :: "nat list \<Rightarrow> nat list \<Rightarrow> nat list" where
  "and_loop (x # xs) (y # ys) =
     (if x = y then x # and_loop xs ys
      else if x < y then and_loop xs (y # ys)
      else and_loop (x # xs) ys)"
| "and_loop _ _ = []"

fun or_loop :: "nat list \<Rightarrow> nat list \<Rightarrow> nat list" where
  "or_loop [] ys = ys"
| "or_loop xs [] = xs"
| "or_loop (x # xs) (y # ys) =
     (if x = y then x # or_loop xs ys
      else if x < y then x # or_loop xs (y # ys)
      else y # or_loop (x # xs) ys)"

text \<open>\<^verbatim>\<open>new_selection\<close> has room for \<^verbatim>\<open>capacity\<close> entries, which are then copied to the front of the
  selection vector.\<close>

definition replace_selection :: "VectorBatch \<Rightarrow> nat list \<Rightarrow> VectorBatch option" where
  "replace_selection b sel =
     (if length sel \<le> vb_capacity b \<and> length sel \<le> length (vb_selection b)
      then Some (b\<lparr>vb_selection := sel @ drop (length sel) (vb_selection b),
                   vb_selected_count := length sel\<rparr>)
      else None)"

definition vectorized_selection_and :: "VectorBatch \<Rightarrow> nat list \<Rightarrow> VectorBatch option" where
  "vectorized_selection_and b other =
     do { b' \<leftarrow> ensure_selection b;
          replace_selection b' (and_loop (take (vb_selected_count b') (vb_selection b')) other) }"

definition vectorized_selection_or :: "VectorBatch \<Rightarrow> nat list \<Rightarrow> VectorBatch option" where
  "vectorized_selection_or b other =
     (if \<not> vb_has_selection b then Some b
      else replace_selection b (or_loop (take (vb_selected_count b) (vb_selection b)) other))"

section \<open>Comparisons\<close>

text \<open>C comparisons of signed integers; operators that compare no value select nothing.\<close>

definition signed_cmp :: "VectorizedCompareOp \<Rightarrow> 'a::len word \<Rightarrow> 'a word \<Rightarrow> bool" where
  "signed_cmp op x v =
     (case op of
        VECTORIZED_CMP_EQ \<Rightarrow> x = v
      | VECTORIZED_CMP_NE \<Rightarrow> x \<noteq> v
      | VECTORIZED_CMP_LT \<Rightarrow> sint x < sint v
      | VECTORIZED_CMP_LE \<Rightarrow> sint x \<le> sint v
      | VECTORIZED_CMP_GT \<Rightarrow> sint x > sint v
      | VECTORIZED_CMP_GE \<Rightarrow> sint x \<ge> sint v
      | _ \<Rightarrow> False)"

text \<open>IEEE 754: a NaN has an exponent of ones and a non-zero fraction, that is a magnitude above that of
  infinity; other numbers are ordered by sign and magnitude, the two zeros being equal.\<close>

definition f_mag :: "'a::len word \<Rightarrow> int" where
  "f_mag x = uint (x AND mask (LENGTH('a) - 1))"

definition f_key :: "'a::len word \<Rightarrow> int" where
  "f_key x = (if bit x (LENGTH('a) - 1) then - f_mag x else f_mag x)"

definition f_inf :: "'a::len word \<Rightarrow> int" where
  "f_inf x = (if LENGTH('a) = 64 then 0x7FF0000000000000 else 0x7F800000)"

definition f_nan :: "'a::len word \<Rightarrow> bool" where "f_nan x = (f_inf x < f_mag x)"

definition f_eq :: "'a::len word \<Rightarrow> 'a word \<Rightarrow> bool" where
  "f_eq x y = (\<not> f_nan x \<and> \<not> f_nan y \<and> f_key x = f_key y)"

definition f_less :: "'a::len word \<Rightarrow> 'a word \<Rightarrow> bool" where
  "f_less x y = (\<not> f_nan x \<and> \<not> f_nan y \<and> f_key x < f_key y)"

definition f_le :: "'a::len word \<Rightarrow> 'a word \<Rightarrow> bool" where
  "f_le x y = (\<not> f_nan x \<and> \<not> f_nan y \<and> f_key x \<le> f_key y)"

definition float_cmp :: "VectorizedCompareOp \<Rightarrow> 'a::len word \<Rightarrow> 'a word \<Rightarrow> bool" where
  "float_cmp op x v =
     (case op of
        VECTORIZED_CMP_EQ \<Rightarrow> f_eq x v
      | VECTORIZED_CMP_NE \<Rightarrow> \<not> f_eq x v
      | VECTORIZED_CMP_LT \<Rightarrow> f_less x v
      | VECTORIZED_CMP_LE \<Rightarrow> f_le x v
      | VECTORIZED_CMP_GT \<Rightarrow> f_less v x
      | VECTORIZED_CMP_GE \<Rightarrow> f_le v x
      | _ \<Rightarrow> False)"

text \<open>AVX2 intrinsics on the lanes of a register: a lane of a comparison is all ones or zero.\<close>

definition lane_test :: "('a::len word \<Rightarrow> 'a word \<Rightarrow> bool) \<Rightarrow> 'a word list \<Rightarrow> 'a word list \<Rightarrow> 'a word list" where
  "lane_test p xs ys = map2 (\<lambda>x y. if p x y then - 1 else 0) xs ys"

definition mm256_cmpeq :: "'a::len word list \<Rightarrow> 'a word list \<Rightarrow> 'a word list" where
  "mm256_cmpeq = lane_test (=)"

definition mm256_cmpgt :: "'a::len word list \<Rightarrow> 'a word list \<Rightarrow> 'a word list" where
  "mm256_cmpgt = lane_test (\<lambda>x y. sint x > sint y)"

definition mm256_xor :: "'a::len word list \<Rightarrow> 'a word list \<Rightarrow> 'a word list" where
  "mm256_xor xs ys = map2 (XOR) xs ys"

text \<open>The switches of the SIMD loops; \<^const>\<open>None\<close> is the \<^verbatim>\<open>default\<close> label.\<close>

definition int64_lanes :: "VectorizedCompareOp \<Rightarrow> u64 list \<Rightarrow> u64 list \<Rightarrow> u64 list option" where
  "int64_lanes op data_vec val_vec =
     (case op of
        VECTORIZED_CMP_EQ \<Rightarrow> Some (mm256_cmpeq data_vec val_vec)
      | VECTORIZED_CMP_GT \<Rightarrow> Some (mm256_cmpgt data_vec val_vec)
      | VECTORIZED_CMP_LT \<Rightarrow> Some (mm256_cmpgt val_vec data_vec)
      | VECTORIZED_CMP_GE \<Rightarrow> Some (mm256_xor (mm256_cmpgt val_vec data_vec) (replicate 4 (- 1)))
      | VECTORIZED_CMP_LE \<Rightarrow> Some (mm256_xor (mm256_cmpgt data_vec val_vec) (replicate 4 (- 1)))
      | VECTORIZED_CMP_NE \<Rightarrow> Some (mm256_xor (mm256_cmpeq data_vec val_vec) (replicate 4 (- 1)))
      | _ \<Rightarrow> None)"

definition int32_lanes :: "VectorizedCompareOp \<Rightarrow> u32 list \<Rightarrow> u32 list \<Rightarrow> u32 list option" where
  "int32_lanes op data_vec val_vec =
     (case op of
        VECTORIZED_CMP_EQ \<Rightarrow> Some (mm256_cmpeq data_vec val_vec)
      | VECTORIZED_CMP_GT \<Rightarrow> Some (mm256_cmpgt data_vec val_vec)
      | VECTORIZED_CMP_LT \<Rightarrow> Some (mm256_cmpgt val_vec data_vec)
      | _ \<Rightarrow> None)"

text \<open>The ordered, quiet predicates: none of them holds of a NaN, \<^verbatim>\<open>_CMP_NEQ_OQ\<close> included.\<close>

definition float_lanes ::
  "VectorizedCompareOp \<Rightarrow> 'a::len word list \<Rightarrow> 'a word list \<Rightarrow> 'a word list option" where
  "float_lanes op data_vec val_vec =
     (case op of
        VECTORIZED_CMP_EQ \<Rightarrow> Some (lane_test f_eq data_vec val_vec)
      | VECTORIZED_CMP_NE \<Rightarrow>
          Some (lane_test (\<lambda>x y. \<not> f_nan x \<and> \<not> f_nan y \<and> \<not> f_eq x y) data_vec val_vec)
      | VECTORIZED_CMP_LT \<Rightarrow> Some (lane_test f_less data_vec val_vec)
      | VECTORIZED_CMP_LE \<Rightarrow> Some (lane_test f_le data_vec val_vec)
      | VECTORIZED_CMP_GT \<Rightarrow> Some (lane_test (\<lambda>x y. f_less y x) data_vec val_vec)
      | VECTORIZED_CMP_GE \<Rightarrow> Some (lane_test (\<lambda>x y. f_le y x) data_vec val_vec)
      | _ \<Rightarrow> None)"

definition float32_lanes :: "VectorizedCompareOp \<Rightarrow> u32 list \<Rightarrow> u32 list \<Rightarrow> u32 list option" where
  "float32_lanes op data_vec val_vec =
     (case float_lanes op data_vec val_vec of None \<Rightarrow> Some (replicate 8 0) | r \<Rightarrow> r)"

section \<open>Masks\<close>

text \<open>The loops of the filters append one entry per row to the mask; what \<^verbatim>\<open>palloc\<close> leaves behind it is never
  read or is the \<^const>\<open>False\<close> of a \<^verbatim>\<open>memset\<close>.\<close>

definition simd_rows ::
  "nat \<Rightarrow> (VectorizedCompareOp \<Rightarrow> 'w::len word list \<Rightarrow> 'w word list \<Rightarrow> 'w word list option) \<Rightarrow> 'w word list \<Rightarrow>
   nat \<Rightarrow> VectorizedCompareOp \<Rightarrow> 'w word \<Rightarrow> (nat \<times> bool list) outcome" where
  "simd_rows L lanes data n op value =
     lane_loop L (\<lambda>data_vec msk.
         case lanes op data_vec (replicate L value) of
           None \<Rightarrow> Inl (ERROR ''unsupported comparison operator'')
         | Some results \<Rightarrow> Inr (msk @ map (\<lambda>r. r \<noteq> 0) results))
       data n 0 []"

definition plain_rows ::
  "(VectorizedCompareOp \<Rightarrow> 'w \<Rightarrow> 'w \<Rightarrow> bool) \<Rightarrow> 'w list \<Rightarrow> VectorizedCompareOp \<Rightarrow> 'w \<Rightarrow> nat list \<Rightarrow>
   bool list \<Rightarrow> bool list option" where
  "plain_rows cmp data op value =
     fold_opt (\<lambda>i msk. do { x \<leftarrow> array_get data i; Some (msk @ [cmp op x value]) })"

definition scalar_rows ::
  "(VectorizedCompareOp \<Rightarrow> 'w \<Rightarrow> 'w \<Rightarrow> bool) \<Rightarrow> VectorColumn \<Rightarrow> 'w list \<Rightarrow> VectorizedCompareOp \<Rightarrow> 'w \<Rightarrow>
   nat list \<Rightarrow> bool list \<Rightarrow> bool list option" where
  "scalar_rows cmp column data op value =
     fold_opt (\<lambda>i msk. do { isnull \<leftarrow> row_null column i;
                              if isnull then Some (msk @ [False])
                              else do { x \<leftarrow> array_get data i; Some (msk @ [cmp op x value]) } })"

definition null_pass :: "VectorColumn \<Rightarrow> nat \<Rightarrow> bool list \<Rightarrow> bool list option" where
  "null_pass column n msk =
     (if vc_has_nulls column
      then fold_opt (\<lambda>i msk. do { isnull \<leftarrow> null_bit column i;
                                    if isnull then array_store msk i False else Some msk }) [0..<n] msk
      else Some msk)"

definition filter_mask_avx2 ::
  "nat \<Rightarrow> (VectorizedCompareOp \<Rightarrow> 'w::len word list \<Rightarrow> 'w word list \<Rightarrow> 'w word list option) \<Rightarrow>
   (VectorizedCompareOp \<Rightarrow> 'w word \<Rightarrow> 'w word \<Rightarrow> bool) \<Rightarrow> VectorBatch \<Rightarrow> VectorColumn \<Rightarrow> 'w word list \<Rightarrow>
   VectorizedCompareOp \<Rightarrow> 'w word \<Rightarrow> bool list outcome" where
  "filter_mask_avx2 L lanes cmp b column data op value =
     do { r \<leftarrow> simd_rows L lanes data (vb_count b) op value;
          case r of
            Inl e \<Rightarrow> Some (Inl e)
          | Inr (i, msk) \<Rightarrow>
              do { msk \<leftarrow> plain_rows cmp data op value [i..<vb_count b] msk;
                   msk \<leftarrow> null_pass column (vb_count b) msk;
                   Some (Inr (msk @ replicate (vb_capacity b - vb_count b) False)) } }"

definition apply_mask :: "VectorBatch \<Rightarrow> bool list outcome \<Rightarrow> VectorBatch outcome" where
  "apply_mask b msk =
     (case msk of
        None \<Rightarrow> None
      | Some (Inl e) \<Rightarrow> Some (Inl e)
      | Some (Inr m) \<Rightarrow> map_option Inr (compact_selection b m))"

section \<open>Filters\<close>

definition filter_int64_avx2 :: "VectorBatch \<Rightarrow> VectorColumn \<Rightarrow> VectorizedCompareOp \<Rightarrow> u64 \<Rightarrow> VectorBatch outcome" where
  "filter_int64_avx2 b column op value =
     do { data \<leftarrow> data64 column;
          b' \<leftarrow> ensure_selection b;
          apply_mask b' (filter_mask_avx2 4 int64_lanes signed_cmp b' column data op value) }"

definition filter_int64_scalar :: "VectorBatch \<Rightarrow> VectorColumn \<Rightarrow> VectorizedCompareOp \<Rightarrow> u64 \<Rightarrow> VectorBatch outcome" where
  "filter_int64_scalar b column op value =
     do { data \<leftarrow> data64 column;
          b' \<leftarrow> ensure_selection b;
          apply_mask b' (map_option Inr (scalar_rows signed_cmp column data op value [0..<vb_count b'] [])) }"

definition filter_float64_avx2 :: "VectorBatch \<Rightarrow> VectorColumn \<Rightarrow> VectorizedCompareOp \<Rightarrow> u64 \<Rightarrow> VectorBatch outcome" where
  "filter_float64_avx2 b column op value =
     do { data \<leftarrow> data64 column;
          b' \<leftarrow> ensure_selection b;
          apply_mask b' (filter_mask_avx2 4 float_lanes float_cmp b' column data op value) }"

definition filter_float64_scalar :: "VectorBatch \<Rightarrow> VectorColumn \<Rightarrow> VectorizedCompareOp \<Rightarrow> u64 \<Rightarrow> VectorBatch outcome" where
  "filter_float64_scalar b column op value =
     do { data \<leftarrow> data64 column;
          b' \<leftarrow> ensure_selection b;
          apply_mask b' (map_option Inr (scalar_rows float_cmp column data op value [0..<vb_count b'] [])) }"

definition vectorized_filter_int64 ::
  "bool \<Rightarrow> VectorBatch \<Rightarrow> int \<Rightarrow> VectorizedCompareOp \<Rightarrow> u64 \<Rightarrow> VectorBatch outcome" where
  "vectorized_filter_int64 avx2 b column_index op value =
     do { c \<leftarrow> batch_column b column_index;
          case c of Inl e \<Rightarrow> Some (Inl e)
          | Inr column \<Rightarrow> (if avx2 then filter_int64_avx2 else filter_int64_scalar) b column op value }"

definition vectorized_filter_float64 ::
  "bool \<Rightarrow> VectorBatch \<Rightarrow> int \<Rightarrow> VectorizedCompareOp \<Rightarrow> u64 \<Rightarrow> VectorBatch outcome" where
  "vectorized_filter_float64 avx2 b column_index op value =
     do { c \<leftarrow> batch_column b column_index;
          case c of Inl e \<Rightarrow> Some (Inl e)
          | Inr column \<Rightarrow> (if avx2 then filter_float64_avx2 else filter_float64_scalar) b column op value }"

text \<open>The 32-bit integer filter compares with EQ, GT and LT in SIMD and starts again with the scalar loop for
  the other operators.\<close>

definition filter_mask_int32 ::
  "bool \<Rightarrow> VectorBatch \<Rightarrow> VectorColumn \<Rightarrow> u32 list \<Rightarrow> VectorizedCompareOp \<Rightarrow> u32 \<Rightarrow> bool list option" where
  "filter_mask_int32 avx2 b column data op value =
     do { msk \<leftarrow>
            (if avx2 then
               do { r \<leftarrow> simd_rows 8 int32_lanes data (vb_count b) op value;
                    case r of
                      Inl _ \<Rightarrow> scalar_rows signed_cmp column data op value [0..<vb_count b] []
                    | Inr (i, msk) \<Rightarrow> scalar_rows signed_cmp column data op value [i..<vb_count b] msk }
             else scalar_rows signed_cmp column data op value [0..<vb_count b] []);
          null_pass column (vb_count b) msk }"

definition vectorized_filter_int32 ::
  "bool \<Rightarrow> VectorBatch \<Rightarrow> int \<Rightarrow> VectorizedCompareOp \<Rightarrow> u32 \<Rightarrow> VectorBatch outcome" where
  "vectorized_filter_int32 avx2 b column_index op value =
     do { c \<leftarrow> batch_column b column_index;
          case c of Inl e \<Rightarrow> Some (Inl e)
          | Inr column \<Rightarrow>
              do { data \<leftarrow> data32 column;
                   b' \<leftarrow> ensure_selection b;
                   apply_mask b' (map_option Inr (filter_mask_int32 avx2 b' column data op value)) } }"

definition filter_mask_float32 ::
  "bool \<Rightarrow> VectorBatch \<Rightarrow> VectorColumn \<Rightarrow> u32 list \<Rightarrow> VectorizedCompareOp \<Rightarrow> u32 \<Rightarrow> bool list outcome" where
  "filter_mask_float32 avx2 b column data op value =
     do { r \<leftarrow> (if avx2 then simd_rows 8 float32_lanes data (vb_count b) op value else Some (Inr (0, [])));
          case r of
            Inl e \<Rightarrow> Some (Inl e)
          | Inr (i, msk) \<Rightarrow>
              do { msk \<leftarrow> scalar_rows float_cmp column data op value [i..<vb_count b] msk;
                   map_option Inr (null_pass column (vb_count b) msk) } }"

definition vectorized_filter_float32 ::
  "bool \<Rightarrow> VectorBatch \<Rightarrow> int \<Rightarrow> VectorizedCompareOp \<Rightarrow> u32 \<Rightarrow> VectorBatch outcome" where
  "vectorized_filter_float32 avx2 b column_index op value =
     do { c \<leftarrow> batch_column b column_index;
          case c of Inl e \<Rightarrow> Some (Inl e)
          | Inr column \<Rightarrow>
              do { data \<leftarrow> data32 column;
                   b' \<leftarrow> ensure_selection b;
                   apply_mask b' (filter_mask_float32 avx2 b' column data op value) } }"

text \<open>A \<^verbatim>\<open>Datum\<close> is a 64-bit word, of which the low half is a 32-bit value.\<close>

record VectorizedFilterState =
  vf_column_index :: int
  vf_compare_op :: VectorizedCompareOp
  vf_data_type :: VectorizedDataType
  vf_const_value :: u64
  vf_const_is_null :: bool

definition vectorized_filter_generic :: "bool \<Rightarrow> VectorBatch \<Rightarrow> VectorizedFilterState \<Rightarrow> VectorBatch outcome" where
  "vectorized_filter_generic avx2 b f =
     (let c = vf_column_index f; op = vf_compare_op f; v = vf_const_value f in
      case vf_data_type f of
        VECTORIZED_TYPE_INT64 \<Rightarrow> vectorized_filter_int64 avx2 b c op v
      | VECTORIZED_TYPE_TIMESTAMP \<Rightarrow> vectorized_filter_int64 avx2 b c op v
      | VECTORIZED_TYPE_INT32 \<Rightarrow> vectorized_filter_int32 avx2 b c op (ucast v)
      | VECTORIZED_TYPE_DATE \<Rightarrow> vectorized_filter_int32 avx2 b c op (ucast v)
      | VECTORIZED_TYPE_FLOAT64 \<Rightarrow> vectorized_filter_float64 avx2 b c op v
      | VECTORIZED_TYPE_FLOAT32 \<Rightarrow> vectorized_filter_float32 avx2 b c op (ucast v)
      | _ \<Rightarrow> Some (Inl (ERROR ''vectorized filter not supported for this data type'')))"

section \<open>The representation invariant\<close>

definition data_fits :: "VectorizedDataType \<Rightarrow> nat \<Rightarrow> column_data \<Rightarrow> bool" where
  "data_fits t cap d =
     (case d of
        Data64 xs \<Rightarrow> length xs = cap \<and> t \<in> {VECTORIZED_TYPE_INT64, VECTORIZED_TYPE_TIMESTAMP,
          VECTORIZED_TYPE_FLOAT64, VECTORIZED_TYPE_STRING, VECTORIZED_TYPE_UNKNOWN}
      | Data32 xs \<Rightarrow> length xs = cap \<and> t \<in> {VECTORIZED_TYPE_INT32, VECTORIZED_TYPE_DATE,
          VECTORIZED_TYPE_FLOAT32}
      | Data8 xs \<Rightarrow> length xs = cap \<and> t = VECTORIZED_TYPE_BOOL)"

definition column_wf :: "nat \<Rightarrow> VectorColumn \<Rightarrow> bool" where
  "column_wf cap c = (data_fits (vc_data_type c) cap (vc_data c) \<and> length (vc_nulls c) = (cap + 63) div 64)"

definition columns_wf :: "nat \<Rightarrow> VectorColumn option list \<Rightarrow> bool" where
  "columns_wf cap = list_all (\<lambda>c. case c of None \<Rightarrow> True | Some col \<Rightarrow> column_wf cap col)"

definition active :: "VectorBatch \<Rightarrow> nat list" where
  "active b = (if vb_has_selection b then take (vb_selected_count b) (vb_selection b) else [0..<vb_count b])"

definition batch_wf :: "VectorBatch \<Rightarrow> bool" where
  "batch_wf b =
     (0 < vb_capacity b \<and> vb_count b \<le> vb_capacity b \<and>
      0 < vb_column_count b \<and> vb_column_count b \<le> VECTORIZED_MAX_COLUMNS \<and>
      length (vb_columns b) = vb_column_count b \<and>
      length (vb_selection b) = vb_capacity b \<and>
      columns_wf (vb_capacity b) (vb_columns b) \<and>
      (vb_has_selection b \<longrightarrow>
         vb_selected_count b \<le> vb_capacity b \<and> sorted_wrt (<) (active b) \<and>
         list_all (\<lambda>r. r < vb_count b) (active b)))"

text \<open>Whether a row of a column is NULL, and whether a filter keeps it.\<close>

definition col_null :: "VectorColumn \<Rightarrow> nat \<Rightarrow> bool" where
  "col_null c i = (vc_has_nulls c \<and> bit (vc_nulls c ! (i div 64)) (i mod 64))"

definition row_hit ::
  "(VectorizedCompareOp \<Rightarrow> 'w \<Rightarrow> 'w \<Rightarrow> bool) \<Rightarrow> VectorColumn \<Rightarrow> 'w list \<Rightarrow> VectorizedCompareOp \<Rightarrow> 'w \<Rightarrow> nat \<Rightarrow> bool"
where
  "row_hit cmp c data op value i = (\<not> col_null c i \<and> cmp op (data ! i) value)"

lemma column_wf_nulls: "column_wf cap c \<Longrightarrow> i < cap \<Longrightarrow> i div 64 < length (vc_nulls c)"
  by (auto simp: column_wf_def)

lemma null_bit_eq:
  assumes "column_wf cap c" and "i < cap"
  shows "null_bit c i = Some (bit (vc_nulls c ! (i div 64)) (i mod 64))"
proof -
  have "w AND push_bit k 1 \<noteq> 0 \<longleftrightarrow> bit w k" if "k < 64" for w :: u64 and k
    using that by (metis and_exp_eq_0_iff_not_bit push_bit_of_1)
  then show ?thesis using column_wf_nulls [OF assms] by (simp add: null_bit_def array_get_less)
qed

lemma row_null_eq: "column_wf cap c \<Longrightarrow> i < cap \<Longrightarrow> row_null c i = Some (col_null c i)"
  by (auto simp: row_null_def col_null_def null_bit_eq)

lemma active_less: "batch_wf b \<Longrightarrow> r \<in> set (active b) \<Longrightarrow> r < vb_count b"
  by (auto simp: batch_wf_def active_def list_all_iff split: if_splits)

lemma active_sorted: "batch_wf b \<Longrightarrow> sorted_wrt (<) (active b)"
  by (cases "vb_has_selection b") (auto simp: batch_wf_def active_def)

lemma batch_wf_count: "batch_wf b \<Longrightarrow> vb_count b \<le> vb_capacity b"
  by (simp add: batch_wf_def)

lemma active_less_capacity: "batch_wf b \<Longrightarrow> r \<in> set (active b) \<Longrightarrow> r < vb_capacity b"
  using active_less batch_wf_count order_less_le_trans by blast

lemma batch_column_wf: "batch_wf b \<Longrightarrow> batch_column b k = Some (Inr c) \<Longrightarrow> column_wf (vb_capacity b) c"
  by (auto simp: batch_wf_def columns_wf_def batch_column_def list_all_length split: if_splits option.splits)

lemma batch_column_defined: "batch_wf b \<Longrightarrow> batch_column b k \<noteq> None"
  by (auto simp: batch_wf_def batch_column_def array_get_def split: option.splits)

section \<open>Masks are evaluated row by row\<close>

lemma plain_rows_eq:
  "\<forall>i \<in> set rows. i < length data \<Longrightarrow>
     plain_rows cmp data op v rows m = Some (m @ map (\<lambda>i. cmp op (data ! i) v) rows)"
  by (simp add: plain_rows_def array_get_less fold_snoc_map
        fold_opt_total [where g = "\<lambda>i msk. msk @ [cmp op (data ! i) v]"])

lemma scalar_rows_eq:
  assumes "column_wf cap c" and "length data = cap" and "\<forall>i \<in> set rows. i < cap"
  shows "scalar_rows cmp c data op v rows m = Some (m @ map (row_hit cmp c data op v) rows)"
  unfolding scalar_rows_def
  by (subst fold_opt_total [where g = "\<lambda>i msk. msk @ [row_hit cmp c data op v i]"])
     (use assms in \<open>auto simp: row_null_eq array_get_less row_hit_def fold_snoc_map\<close>)

lemma null_pass_prefix:
  assumes c: "column_wf cap c" "vc_has_nulls c" "n \<le> cap" "length m = n" and k: "k \<le> n"
  shows "fold_opt (\<lambda>i msk. do { isnull \<leftarrow> null_bit c i; if isnull then array_store msk i False else Some msk })
           [0..<k] m = Some (map (\<lambda>i. \<not> col_null c i \<and> m ! i) [0..<k] @ drop k m)"
  using k
proof (induction k)
  case 0
  then show ?case by simp
next
  case (Suc k)
  let ?m = "map (\<lambda>i. \<not> col_null c i \<and> m ! i) [0..<k] @ drop k m"
  have "null_bit c k = Some (col_null c k)"
    using Suc.prems c by (simp add: null_bit_eq col_null_def)
  moreover have "drop k m = m ! k # drop (Suc k) m"
    using Suc.prems c(4) by (simp add: Cons_nth_drop_Suc)
  ultimately show ?case
    using Suc by (auto simp: fold_opt_append array_store_def list_update_append)
qed

lemma null_pass_eq:
  assumes "column_wf cap c" and "n \<le> cap" and "length m = n"
  shows "null_pass c n m = Some (map (\<lambda>i. \<not> col_null c i \<and> m ! i) [0..<n])"
proof (cases "vc_has_nulls c")
  case True
  with null_pass_prefix [OF assms(1) True assms(2,3), of n] assms(3) show ?thesis
    by (simp add: null_pass_def)
next
  case False
  then show ?thesis using assms(3) by (auto simp: null_pass_def col_null_def map_nth)
qed

section \<open>SIMD lanes agree with scalar comparisons\<close>

text \<open>What a filter relies on of a switch over lane comparisons: where \<open>ok\<close> holds, a lane of the result is
  non-zero exactly where the scalar comparison is true.\<close>

locale lane_compare =
  fixes L :: nat
    and lanes :: "VectorizedCompareOp \<Rightarrow> 'w::len word list \<Rightarrow> 'w word list \<Rightarrow> 'w word list option"
    and cmp :: "VectorizedCompareOp \<Rightarrow> 'w word \<Rightarrow> 'w word \<Rightarrow> bool"
    and supported :: "VectorizedCompareOp \<Rightarrow> bool"
    and ok :: "VectorizedCompareOp \<Rightarrow> 'w word \<Rightarrow> 'w word \<Rightarrow> bool"
  assumes L_pos: "0 < L"
    and lanes_supported: "supported op \<Longrightarrow> length xs = L \<Longrightarrow> \<forall>x \<in> set xs. ok op x v \<Longrightarrow>
          \<exists>rs. lanes op xs (replicate L v) = Some rs \<and> map (\<lambda>r. r \<noteq> 0) rs = map (\<lambda>x. cmp op x v) xs"
    and lanes_unsupported: "\<not> supported op \<Longrightarrow> lanes op xs (replicate L v) = None"
begin

lemma simd_rows_eq:
  assumes op: "supported op" and n: "n \<le> length data" and ok: "\<forall>i < n. ok op (data ! i) v"
  shows "simd_rows L lanes data n op v =
           Some (Inr (n - n mod L, map (\<lambda>i. cmp op (data ! i) v) [0..<n - n mod L]))"
proof -
  have "\<exists>s'. simd_rows L lanes data n op v = Some (Inr (n - n mod L, s')) \<and>
             s' = map (\<lambda>i. cmp op (data ! i) v) [0..<n - n mod L]"
    unfolding simd_rows_def
  proof (rule lane_loop_induct [where P = "\<lambda>i m. m = map (\<lambda>i. cmp op (data ! i) v) [0..<i]"])
    fix k m assume k: "k + L \<le> n" and m: "m = map (\<lambda>i. cmp op (data ! i) v) [0..<k]"
    let ?xs = "take L (drop k data)"
    have len: "length ?xs = L" using k n by simp
    have "?xs = map (\<lambda>i. data ! i) [k..<k + L]"
      using k n by (intro nth_equalityI) auto
    then have xs: "map (\<lambda>x. cmp op x v) ?xs = map (\<lambda>i. cmp op (data ! i) v) [k..<k + L]"
      and "\<forall>x \<in> set ?xs. ok op x v"
      using ok k by (auto simp: o_def)
    then obtain rs where "lanes op ?xs (replicate L v) = Some rs"
        and "map (\<lambda>r. r \<noteq> 0) rs = map (\<lambda>i. cmp op (data ! i) v) [k..<k + L]"
      using lanes_supported [OF op len] by metis
    then show "\<exists>s'. (case lanes op ?xs (replicate L v) of
          None \<Rightarrow> Inl (ERROR ''unsupported comparison operator'')
        | Some results \<Rightarrow> Inr (m @ map (\<lambda>r. r \<noteq> 0) results)) = Inr s' \<and>
        s' = map (\<lambda>i. cmp op (data ! i) v) [0..<k + L]"
      by (simp add: m upt_add_eq_append [of 0 k L])
  qed (use L_pos n in auto)
  then show ?thesis by simp
qed

lemma simd_rows_unsupported:
  "\<not> supported op \<Longrightarrow> L \<le> n \<Longrightarrow> n \<le> length data \<Longrightarrow>
     simd_rows L lanes data n op v = Some (Inl (ERROR ''unsupported comparison operator''))"
  using L_pos by (simp add: simd_rows_def lane_loop.simps [of L _ data n 0] lanes_unsupported)

lemma filter_mask_avx2_eq:
  assumes "supported op" and c: "column_wf (vb_capacity b) c" and len: "length data = vb_capacity b"
    and n: "vb_count b \<le> vb_capacity b" and ok: "\<forall>i < vb_count b. ok op (data ! i) v"
  shows "filter_mask_avx2 L lanes cmp b c data op v =
           Some (Inr (map (row_hit cmp c data op v) [0..<vb_count b] @
                      replicate (vb_capacity b - vb_count b) False))"
proof -
  let ?n = "vb_count b"
  let ?k = "?n - ?n mod L"
  have simd: "simd_rows L lanes data ?n op v = Some (Inr (?k, map (\<lambda>i. cmp op (data ! i) v) [0..<?k]))"
    using simd_rows_eq [OF assms(1)] len n ok by simp
  have "plain_rows cmp data op v [?k..<?n] (map (\<lambda>i. cmp op (data ! i) v) [0..<?k]) =
          Some (map (\<lambda>i. cmp op (data ! i) v) [0..<?n])"
    using len n by (subst plain_rows_eq) (auto simp flip: map_append upt_add_eq_append [of 0 ?k "?n - ?k", simplified])
  moreover have "null_pass c ?n (map (\<lambda>i. cmp op (data ! i) v) [0..<?n]) =
          Some (map (row_hit cmp c data op v) [0..<?n])"
    using c n by (simp add: null_pass_eq row_hit_def cong: map_cong)
  ultimately show ?thesis using simd by (simp add: filter_mask_avx2_def)
qed

end

definition compares_values :: "VectorizedCompareOp \<Rightarrow> bool" where
  "compares_values op = (op \<notin> {VECTORIZED_CMP_IS_NULL, VECTORIZED_CMP_IS_NOT_NULL})"

lemma lane_test_replicate:
  "length xs = n \<Longrightarrow> map (\<lambda>r. r \<noteq> 0) (lane_test p xs (replicate n v)) = map (\<lambda>x. p x v) xs"
  "length xs = n \<Longrightarrow> map (\<lambda>r. r \<noteq> 0) (lane_test p (replicate n v) xs) = map (\<lambda>x. p v x) xs"
  "length xs = n \<Longrightarrow> map (\<lambda>r. r \<noteq> 0) (mm256_xor (lane_test p xs (replicate n v)) (replicate n (- 1))) =
     map (\<lambda>x. \<not> p x v) xs"
  "length xs = n \<Longrightarrow> map (\<lambda>r. r \<noteq> 0) (mm256_xor (lane_test p (replicate n v) xs) (replicate n (- 1))) =
     map (\<lambda>x. \<not> p v x) xs"
  by (induction xs arbitrary: n) (auto simp: lane_test_def mm256_xor_def)

lemmas lane_facts = mm256_cmpeq_def mm256_cmpgt_def lane_test_replicate not_less not_le

interpretation int64_simd: lane_compare 4 int64_lanes signed_cmp compares_values "\<lambda>op x v. True"
proof (unfold_locales, goal_cases)
  case (2 op xs v)
  then show ?case
    by (cases op) (simp_all add: int64_lanes_def signed_cmp_def compares_values_def lane_facts)
next
  case (3 op xs v)
  then show ?case by (cases op) (simp_all add: int64_lanes_def compares_values_def)
qed simp

interpretation int32_simd: lane_compare 8 int32_lanes signed_cmp
  "\<lambda>op. op \<in> {VECTORIZED_CMP_EQ, VECTORIZED_CMP_GT, VECTORIZED_CMP_LT}" "\<lambda>op x v. True"
proof (unfold_locales, goal_cases)
  case (2 op xs v)
  then show ?case
    by (cases op) (simp_all add: int32_lanes_def signed_cmp_def lane_facts)
next
  case (3 op xs v)
  then show ?case by (cases op) (simp_all add: int32_lanes_def)
qed simp

text \<open>Not-equal is the one operator for which lanes and C differ, on NaNs.\<close>

definition float_ok :: "VectorizedCompareOp \<Rightarrow> 'a::len word \<Rightarrow> 'a word \<Rightarrow> bool" where
  "float_ok op x v = (op = VECTORIZED_CMP_NE \<longrightarrow> \<not> f_nan x \<and> \<not> f_nan v)"

lemma float_lanes_agree:
  fixes xs :: "'a::len word list"
  assumes "compares_values op" and "\<forall>x \<in> set xs. float_ok op x v"
  shows "\<exists>rs. float_lanes op xs (replicate (length xs) v) = Some rs \<and>
              map (\<lambda>r. r \<noteq> 0) rs = map (\<lambda>x. float_cmp op x v) xs"
  using assms
  by (cases op) (auto simp: float_lanes_def float_cmp_def compares_values_def lane_facts float_ok_def)

interpretation float64_simd: lane_compare 4 "float_lanes :: VectorizedCompareOp \<Rightarrow> u64 list \<Rightarrow> _"
  float_cmp compares_values float_ok
proof (unfold_locales, goal_cases)
  case (2 op xs v)
  then show ?case using float_lanes_agree [of op xs v] by simp
next
  case (3 op xs v)
  then show ?case by (cases op) (simp_all add: float_lanes_def compares_values_def)
qed simp

interpretation float32_simd: lane_compare 8 float32_lanes float_cmp "\<lambda>op. True" float_ok
proof (unfold_locales, goal_cases)
  case (2 op xs v)
  show ?case
  proof (cases "compares_values op")
    case True
    with 2 obtain rs where "float_lanes op xs (replicate 8 v) = Some rs"
        "map (\<lambda>r. r \<noteq> 0) rs = map (\<lambda>x. float_cmp op x v) xs"
      using float_lanes_agree [of op xs v] by auto
    then show ?thesis by (simp add: float32_lanes_def)
  next
    case False
    then have "float_lanes op xs (replicate 8 v) = None" "\<And>x. \<not> float_cmp op x v"
      by (auto simp: compares_values_def float_lanes_def float_cmp_def)
    with 2(2) show ?thesis by (simp add: float32_lanes_def map_replicate_const)
  qed
qed simp_all

section \<open>Filters refine the filter of lists\<close>

text \<open>\<open>same_rows\<close>: the batches hold the same data, whatever is selected. \<open>filtered b P r\<close>: the operation returned
  a well-formed batch with the rows of \<open>b\<close> that satisfy \<open>P\<close>.\<close>

definition same_rows :: "VectorBatch \<Rightarrow> VectorBatch \<Rightarrow> bool" where
  "same_rows b b' =
     (vb_capacity b' = vb_capacity b \<and> vb_count b' = vb_count b \<and> vb_column_count b' = vb_column_count b \<and>
      vb_columns b' = vb_columns b \<and> vb_rows_processed b' = vb_rows_processed b)"

definition filtered :: "VectorBatch \<Rightarrow> (nat \<Rightarrow> bool) \<Rightarrow> VectorBatch outcome \<Rightarrow> bool" where
  "filtered b P r =
     (\<exists>b'. r = Some (Inr b') \<and> batch_wf b' \<and> same_rows b b' \<and> vb_has_selection b' \<and>
           active b' = filter P (active b) \<and>
           vb_rows_filtered b' + length (active b') = vb_rows_filtered b + length (active b))"

lemma compact_loop_eq:
  assumes "i \<le> n" "n \<le> length sel" "w \<le> i" "\<forall>s \<in> set (drop i (take n sel)). s < length msk"
  shows "\<exists>sel'. compact_loop msk n i w sel =
                  Some (sel', w + length (filter (\<lambda>s. msk ! s) (drop i (take n sel)))) \<and>
                length sel' = length sel \<and>
                take (w + length (filter (\<lambda>s. msk ! s) (drop i (take n sel)))) sel' =
                  take w sel @ filter (\<lambda>s. msk ! s) (drop i (take n sel))"
  using assms
proof (induction "n - i" arbitrary: i w sel)
  case 0
  then show ?case by (subst compact_loop.simps) simp
next
  case (Suc k)
  then have i: "i < n" by simp
  then have split: "drop i (take n sel) = sel ! i # drop (Suc i) (take n sel)"
    using Suc.prems(2) Cons_nth_drop_Suc [of i "take n sel"] by simp
  have get: "array_get sel i = Some (sel ! i)" "array_get msk (sel ! i) = Some (msk ! (sel ! i))"
    using i Suc.prems(2,4) split by (simp_all add: array_get_less)
  show ?case
  proof (cases "msk ! (sel ! i)")
    case True
    let ?sel = "sel[w := sel ! i]"
    have w: "w < length sel" using Suc.prems i by simp
    have rest: "drop (Suc i) (take n ?sel) = drop (Suc i) (take n sel)"
      using Suc.prems(3) by (simp add: take_update_swap drop_update_cancel)
    have "k = n - Suc i" "Suc i \<le> n" "n \<le> length ?sel" "Suc w \<le> Suc i"
        "\<forall>s \<in> set (drop (Suc i) (take n ?sel)). s < length msk"
      using Suc.hyps(2) Suc.prems i unfolding rest by (simp_all add: split)
    from Suc.hyps(1) [OF this] obtain sel' where sel':
        "compact_loop msk n (Suc i) (Suc w) ?sel =
           Some (sel', Suc w + length (filter (\<lambda>s. msk ! s) (drop (Suc i) (take n sel))))"
        "length sel' = length sel"
        "take (Suc w + length (filter (\<lambda>s. msk ! s) (drop (Suc i) (take n sel)))) sel' =
           take w sel @ sel ! i # filter (\<lambda>s. msk ! s) (drop (Suc i) (take n sel))"
      unfolding rest by (auto simp: take_Suc_update w)
    have "compact_loop msk n i w sel = compact_loop msk n (Suc i) (Suc w) ?sel"
      by (subst compact_loop.simps) (simp only: i get True w array_store_def if_True bind.bind_lunit)
    with True sel' show ?thesis by (auto simp: split)
  next
    case False
    have "compact_loop msk n i w sel = compact_loop msk n (Suc i) w sel"
      by (subst compact_loop.simps) (simp only: i get False if_True if_False bind.bind_lunit)
    with False Suc.hyps(1) [of "Suc i" sel w] Suc.hyps(2) Suc.prems i split show ?thesis by simp
  qed
qed

lemma compact_selection_eq:
  assumes wf: "batch_wf b" and sel: "vb_has_selection b" and msk: "vb_count b \<le> length msk"
  shows "filtered b (\<lambda>r. msk ! r) (map_option Inr (compact_selection b msk))"
proof -
  let ?n = "vb_selected_count b" and ?F = "filter (\<lambda>s. msk ! s) (active b)"
  have act: "active b = take ?n (vb_selection b)" and n: "?n \<le> length (vb_selection b)"
    using wf sel by (auto simp: active_def batch_wf_def)
  have less: "\<forall>r \<in> set (active b). r < length msk"
    using active_less [OF wf] msk by fastforce
  obtain sel' where sel': "compact_loop msk ?n 0 0 (vb_selection b) = Some (sel', length ?F)"
      "length sel' = length (vb_selection b)" "take (length ?F) sel' = ?F"
    using compact_loop_eq [of 0 ?n "vb_selection b" 0 msk] n less act by auto
  have F: "length ?F \<le> ?n" "sorted_wrt (<) ?F" "\<forall>r \<in> set ?F. r < vb_count b"
    using act n length_filter_le [of "\<lambda>s. msk ! s" "active b"] active_sorted [OF wf] active_less [OF wf]
    by (auto intro: sorted_wrt_filter)
  let ?b = "b\<lparr>vb_selection := sel', vb_rows_filtered := vb_rows_filtered b + (?n - length ?F),
             vb_selected_count := length ?F\<rparr>"
  have "active ?b = ?F" using sel sel'(3) by (simp add: active_def)
  moreover from this have "batch_wf ?b"
    using wf sel sel'(2) F n by (simp add: batch_wf_def list_all_iff)
  ultimately show ?thesis
    using sel sel' F n act by (simp add: filtered_def compact_selection_def same_rows_def)
qed

lemma init_selection_prefix:
  "n \<le> length sel \<Longrightarrow> fold_opt (\<lambda>i sel. array_store sel i i) [0..<n] sel = Some ([0..<n] @ drop n sel)"
proof (induction n)
  case (Suc n)
  then have "drop n sel = sel ! n # drop (Suc n) sel" by (simp add: Cons_nth_drop_Suc)
  with Suc show ?case by (simp add: fold_opt_append array_store_def list_update_append)
qed simp

lemma ensure_selection_eq:
  assumes "batch_wf b"
  shows "\<exists>b'. ensure_selection b = Some b' \<and> batch_wf b' \<and> vb_has_selection b' \<and> active b' = active b \<and>
              same_rows b b' \<and> vb_rows_filtered b' = vb_rows_filtered b"
proof (cases "vb_has_selection b")
  case True
  with assms show ?thesis by (simp add: ensure_selection_def same_rows_def)
next
  case False
  let ?b = "b\<lparr>vb_selection := [0..<vb_count b] @ drop (vb_count b) (vb_selection b),
             vb_selected_count := vb_count b, vb_has_selection := True\<rparr>"
  have "init_full_selection b = Some ?b"
    using assms by (simp add: init_full_selection_def init_selection_prefix batch_wf_def)
  moreover have "active ?b = active b" using False by (simp add: active_def)
  moreover from this have "batch_wf ?b"
    using assms False by (auto simp: batch_wf_def list_all_iff active_def)
  ultimately show ?thesis using False by (simp add: ensure_selection_def same_rows_def)
qed

text \<open>What every filter does once its mask holds the verdict on each row.\<close>

lemma mask_filters:
  assumes wf: "batch_wf b"
    and mask: "\<And>b'. same_rows b b' \<Longrightarrow> batch_wf b' \<Longrightarrow>
                \<exists>rest. m b' = Some (Inr (map P [0..<vb_count b] @ rest))"
  shows "filtered b P (do { b' \<leftarrow> ensure_selection b; apply_mask b' (m b') })"
proof -
  obtain b' where b': "ensure_selection b = Some b'" "batch_wf b'" "vb_has_selection b'"
      "active b' = active b" "same_rows b b'" "vb_rows_filtered b' = vb_rows_filtered b"
    using ensure_selection_eq [OF wf] by blast
  obtain rest where rest: "m b' = Some (Inr (map P [0..<vb_count b] @ rest))"
    using mask b' by blast
  let ?m = "map P [0..<vb_count b] @ rest"
  have "filtered b' (\<lambda>r. ?m ! r) (map_option Inr (compact_selection b' ?m))"
    using b' by (intro compact_selection_eq) (auto simp: same_rows_def)
  moreover have "filter (\<lambda>r. ?m ! r) (active b) = filter P (active b)"
    using active_less [OF wf] by (intro filter_cong) (auto simp: nth_append)
  ultimately show ?thesis
    using b' rest by (auto simp: filtered_def same_rows_def apply_mask_def)
qed

lemma same_rows_column: "same_rows b b' \<Longrightarrow> batch_column b' k = batch_column b k"
  by (simp add: same_rows_def batch_column_def)

lemma data64_length: "column_wf cap c \<Longrightarrow> data64 c = Some data \<Longrightarrow> length data = cap"
  by (auto simp: column_wf_def data_fits_def split: column_data.splits)

lemma data32_length: "column_wf cap c \<Longrightarrow> data32 c = Some data \<Longrightarrow> length data = cap"
  by (auto simp: column_wf_def data_fits_def split: column_data.splits)

lemma scalar_mask:
  "column_wf cap c \<Longrightarrow> length data = cap \<Longrightarrow> n \<le> cap \<Longrightarrow>
     scalar_rows cmp c data op v [0..<n] [] = Some (map (row_hit cmp c data op v) [0..<n])"
  using scalar_rows_eq [of cap c data "[0..<n]" cmp op v "[]"] by simp

lemma int64_filter_refines:
  assumes wf: "batch_wf b" and c: "batch_column b k = Some (Inr c)" and data: "data64 c = Some data"
    and op: "avx2 \<longrightarrow> compares_values op"
  shows "filtered b (row_hit signed_cmp c data op v) (vectorized_filter_int64 avx2 b k op v)"
proof -
  have col: "column_wf (vb_capacity b) c" "length data = vb_capacity b" "vb_count b \<le> vb_capacity b"
    using batch_column_wf [OF wf c] data64_length [OF _ data] batch_wf_count [OF wf] by auto
  show ?thesis
  proof (cases avx2)
    case True
    have "filtered b (row_hit signed_cmp c data op v)
        (do { b' \<leftarrow> ensure_selection b; apply_mask b' (filter_mask_avx2 4 int64_lanes signed_cmp b' c data op v) })"
      using col op True by (intro mask_filters [OF wf]) (simp add: int64_simd.filter_mask_avx2_eq same_rows_def)
    with True show ?thesis using data by (simp add: vectorized_filter_int64_def filter_int64_avx2_def c del: data64.simps)
  next
    case False
    have "filtered b (row_hit signed_cmp c data op v)
        (do { b' \<leftarrow> ensure_selection b;
              apply_mask b' (map_option Inr (scalar_rows signed_cmp c data op v [0..<vb_count b'] [])) })"
      using col by (intro mask_filters [OF wf]) (simp add: scalar_mask same_rows_def)
    with False show ?thesis using data by (simp add: vectorized_filter_int64_def filter_int64_scalar_def c del: data64.simps)
  qed
qed

lemma float64_filter_refines:
  assumes wf: "batch_wf b" and c: "batch_column b k = Some (Inr c)" and data: "data64 c = Some data"
    and op: "avx2 \<longrightarrow> compares_values op \<and> (\<forall>i < vb_count b. float_ok op (data ! i) v)"
  shows "filtered b (row_hit float_cmp c data op v) (vectorized_filter_float64 avx2 b k op v)"
proof -
  have col: "column_wf (vb_capacity b) c" "length data = vb_capacity b" "vb_count b \<le> vb_capacity b"
    using batch_column_wf [OF wf c] data64_length [OF _ data] batch_wf_count [OF wf] by auto
  show ?thesis
  proof (cases avx2)
    case True
    have "filtered b (row_hit float_cmp c data op v)
        (do { b' \<leftarrow> ensure_selection b; apply_mask b' (filter_mask_avx2 4 float_lanes float_cmp b' c data op v) })"
      using col op True by (intro mask_filters [OF wf]) (simp add: float64_simd.filter_mask_avx2_eq same_rows_def)
    with True show ?thesis using data by (simp add: vectorized_filter_float64_def filter_float64_avx2_def c del: data64.simps)
  next
    case False
    have "filtered b (row_hit float_cmp c data op v)
        (do { b' \<leftarrow> ensure_selection b;
              apply_mask b' (map_option Inr (scalar_rows float_cmp c data op v [0..<vb_count b'] [])) })"
      using col by (intro mask_filters [OF wf]) (simp add: scalar_mask same_rows_def)
    with False show ?thesis using data by (simp add: vectorized_filter_float64_def filter_float64_scalar_def c del: data64.simps)
  qed
qed

text \<open>The 32-bit filters mix SIMD groups without and scalar rows with the NULL test; the pass over the NULLs
  makes up for the difference.\<close>

lemma mixed_mask:
  assumes col: "column_wf cap c" "length data = cap" "n \<le> cap" and k: "k \<le> n"
  shows "Option.bind (scalar_rows cmp c data op v [k..<n] (map (\<lambda>i. cmp op (data ! i) v) [0..<k])) (null_pass c n) =
           Some (map (row_hit cmp c data op v) [0..<n])"
proof -
  have "scalar_rows cmp c data op v [k..<n] (map (\<lambda>i. cmp op (data ! i) v) [0..<k]) =
          Some (map (\<lambda>i. cmp op (data ! i) v) [0..<k] @ map (row_hit cmp c data op v) [k..<n])"
    using col by (intro scalar_rows_eq) auto
  moreover have "null_pass c n (map (\<lambda>i. cmp op (data ! i) v) [0..<k] @ map (row_hit cmp c data op v) [k..<n]) =
                   Some (map (row_hit cmp c data op v) [0..<n])"
    using col k by (subst null_pass_eq) (auto simp: nth_append row_hit_def intro!: map_cong)
  ultimately show ?thesis by simp
qed

lemma filter_mask_int32_eq:
  assumes col: "column_wf cap c" "length data = cap" "vb_count b \<le> cap"
  shows "filter_mask_int32 avx2 b c data op v = Some (map (row_hit signed_cmp c data op v) [0..<vb_count b])"
proof -
  let ?n = "vb_count b"
  have scalar: "Option.bind (scalar_rows signed_cmp c data op v [0..<?n] []) (null_pass c ?n) =
                  Some (map (row_hit signed_cmp c data op v) [0..<?n])"
    using mixed_mask [OF col, of 0 signed_cmp op v] by simp
  consider (scalar) "\<not> avx2" | (simd) avx2 "op \<in> {VECTORIZED_CMP_EQ, VECTORIZED_CMP_GT, VECTORIZED_CMP_LT}"
    | (fallback) avx2 "op \<notin> {VECTORIZED_CMP_EQ, VECTORIZED_CMP_GT, VECTORIZED_CMP_LT}" "8 \<le> ?n"
    | (short) avx2 "?n < 8" by linarith
  then show ?thesis
  proof cases
    case simd
    have "simd_rows 8 int32_lanes data ?n op v =
            Some (Inr (?n - ?n mod 8, map (\<lambda>i. signed_cmp op (data ! i) v) [0..<?n - ?n mod 8]))"
      using simd col by (intro int32_simd.simd_rows_eq) auto
    with simd(1) mixed_mask [OF col, of "?n - ?n mod 8" signed_cmp op v] show ?thesis
      by (simp add: filter_mask_int32_def)
  next
    case fallback
    have "simd_rows 8 int32_lanes data ?n op v = Some (Inl (ERROR ''unsupported comparison operator''))"
      using fallback col by (intro int32_simd.simd_rows_unsupported) auto
    with scalar fallback(1) show ?thesis by (simp add: filter_mask_int32_def)
  next
    case short
    then have "simd_rows 8 int32_lanes data ?n op v = Some (Inr (0, []))"
      by (simp add: simd_rows_def lane_loop.simps)
    with scalar short(1) show ?thesis by (simp add: filter_mask_int32_def)
  qed (use scalar in \<open>simp add: filter_mask_int32_def\<close>)
qed

lemma int32_filter_refines:
  assumes wf: "batch_wf b" and c: "batch_column b k = Some (Inr c)" and data: "data32 c = Some data"
  shows "filtered b (row_hit signed_cmp c data op v) (vectorized_filter_int32 avx2 b k op v)"
proof -
  have col: "column_wf (vb_capacity b) c" "length data = vb_capacity b" "vb_count b \<le> vb_capacity b"
    using batch_column_wf [OF wf c] data32_length [OF _ data] batch_wf_count [OF wf] by auto
  have "filtered b (row_hit signed_cmp c data op v)
      (do { b' \<leftarrow> ensure_selection b;
            apply_mask b' (map_option Inr (filter_mask_int32 avx2 b' c data op v)) })"
    using col by (intro mask_filters [OF wf]) (simp add: filter_mask_int32_eq [of "vb_capacity b"] same_rows_def)
  then show ?thesis using data by (simp add: vectorized_filter_int32_def c del: data32.simps)
qed

lemma float32_filter_refines:
  assumes wf: "batch_wf b" and c: "batch_column b k = Some (Inr c)" and data: "data32 c = Some data"
    and ok: "avx2 \<longrightarrow> (\<forall>i < vb_count b. float_ok op (data ! i) v)"
  shows "filtered b (row_hit float_cmp c data op v) (vectorized_filter_float32 avx2 b k op v)"
proof -
  let ?n = "vb_count b"
  let ?k = "if avx2 then ?n - ?n mod 8 else 0"
  have col: "column_wf (vb_capacity b) c" "length data = vb_capacity b" "?n \<le> vb_capacity b"
    using batch_column_wf [OF wf c] data32_length [OF _ data] batch_wf_count [OF wf] by auto
  have "(if avx2 then simd_rows 8 float32_lanes data ?n op v else Some (Inr (0, []))) =
          Some (Inr (?k, map (\<lambda>i. float_cmp op (data ! i) v) [0..<?k]))"
    using ok col by (auto intro!: float32_simd.simd_rows_eq)
  with mixed_mask [OF col, of ?k float_cmp op v]
  have mask: "filter_mask_float32 avx2 b' c data op v = Some (Inr (map (row_hit float_cmp c data op v) [0..<?n]))"
    if "vb_count b' = ?n" for b'
    using that by (auto simp: filter_mask_float32_def bind_eq_Some_conv)
  have "filtered b (row_hit float_cmp c data op v)
      (do { b' \<leftarrow> ensure_selection b; apply_mask b' (filter_mask_float32 avx2 b' c data op v) })"
    by (intro mask_filters [OF wf]) (simp add: mask same_rows_def)
  then show ?thesis using data by (simp add: vectorized_filter_float32_def c del: data32.simps)
qed

section \<open>The generic filter\<close>

text \<open>When a filter may be applied to a column: the types agree and are numeric, and where the code was
  compiled for AVX2 the operator has lanes and, for not-equal, no NaN is compared.\<close>

definition filter_ready :: "bool \<Rightarrow> VectorBatch \<Rightarrow> VectorizedFilterState \<Rightarrow> VectorColumn \<Rightarrow> bool" where
  "filter_ready avx2 b f c =
     (batch_column b (vf_column_index f) = Some (Inr c) \<and> vf_data_type f = vc_data_type c \<and>
      (case vf_data_type f of
         VECTORIZED_TYPE_INT64 \<Rightarrow> avx2 \<longrightarrow> compares_values (vf_compare_op f)
       | VECTORIZED_TYPE_TIMESTAMP \<Rightarrow> avx2 \<longrightarrow> compares_values (vf_compare_op f)
       | VECTORIZED_TYPE_FLOAT64 \<Rightarrow> avx2 \<longrightarrow> compares_values (vf_compare_op f) \<and>
           list_all (\<lambda>i. float_ok (vf_compare_op f) (the (data64 c) ! i) (vf_const_value f)) [0..<vb_count b]
       | VECTORIZED_TYPE_INT32 \<Rightarrow> True
       | VECTORIZED_TYPE_DATE \<Rightarrow> True
       | VECTORIZED_TYPE_FLOAT32 \<Rightarrow> avx2 \<longrightarrow>
           list_all (\<lambda>i. float_ok (vf_compare_op f) (the (data32 c) ! i) (ucast (vf_const_value f))) [0..<vb_count b]
       | _ \<Rightarrow> False))"

definition filter_hit :: "VectorizedFilterState \<Rightarrow> VectorColumn \<Rightarrow> nat \<Rightarrow> bool" where
  "filter_hit f c i =
     (\<not> col_null c i \<and>
      (case vf_data_type f of
         VECTORIZED_TYPE_INT32 \<Rightarrow> signed_cmp (vf_compare_op f) (the (data32 c) ! i) (ucast (vf_const_value f))
       | VECTORIZED_TYPE_DATE \<Rightarrow> signed_cmp (vf_compare_op f) (the (data32 c) ! i) (ucast (vf_const_value f))
       | VECTORIZED_TYPE_FLOAT32 \<Rightarrow> float_cmp (vf_compare_op f) (the (data32 c) ! i) (ucast (vf_const_value f))
       | VECTORIZED_TYPE_FLOAT64 \<Rightarrow> float_cmp (vf_compare_op f) (the (data64 c) ! i) (vf_const_value f)
       | _ \<Rightarrow> signed_cmp (vf_compare_op f) (the (data64 c) ! i) (vf_const_value f)))"

lemma column_wf_data:
  assumes "column_wf cap c"
  shows "vc_data_type c \<in> {VECTORIZED_TYPE_INT64, VECTORIZED_TYPE_TIMESTAMP, VECTORIZED_TYPE_FLOAT64} \<Longrightarrow>
           data64 c = Some (the (data64 c))"
    and "vc_data_type c \<in> {VECTORIZED_TYPE_INT32, VECTORIZED_TYPE_DATE, VECTORIZED_TYPE_FLOAT32} \<Longrightarrow>
           data32 c = Some (the (data32 c))"
  using assms by (auto simp: column_wf_def data_fits_def split: column_data.splits)

lemma filter_generic_refines:
  assumes wf: "batch_wf b" and ready: "filter_ready avx2 b f c"
  shows "filtered b (filter_hit f c) (vectorized_filter_generic avx2 b f)"
proof -
  have c: "batch_column b (vf_column_index f) = Some (Inr c)" and t: "vf_data_type f = vc_data_type c"
    using ready by (auto simp: filter_ready_def)
  note cw = column_wf_data [OF batch_column_wf [OF wf c]]
  show ?thesis
    using ready t int64_filter_refines [OF wf c cw(1), of avx2] float64_filter_refines [OF wf c cw(1), of avx2]
      int32_filter_refines [OF wf c cw(2), of _ _ avx2] float32_filter_refines [OF wf c cw(2), of avx2]
    by (cases "vf_data_type f")
       (auto simp: filter_ready_def vectorized_filter_generic_def filter_hit_def [abs_def] row_hit_def [abs_def]
          list_all_iff simp del: data64.simps data32.simps)
qed

section \<open>Selection vectors as sets\<close>

lemma and_loop_correct:
  "sorted_wrt (<) xs \<Longrightarrow> sorted_wrt (<) ys \<Longrightarrow> and_loop xs ys = filter (\<lambda>x. x \<in> set ys) xs"
proof (induction xs ys rule: and_loop.induct)
  case (1 x xs y ys)
  consider "x = y" | "x < y" | "y < x" by linarith
  then show ?case
  proof cases
    case 1
    then have "filter (\<lambda>z. z = y \<or> z \<in> set ys) xs = filter (\<lambda>z. z \<in> set ys) xs"
      using "1.prems" by (intro filter_cong) auto
    with 1 "1.IH"(1) "1.prems" show ?thesis by simp
  next
    case 2
    then have "x \<notin> set ys" using "1.prems" by auto
    with 2 "1.IH"(2) "1.prems" show ?thesis by simp
  next
    case 3
    then have "filter (\<lambda>z. z = y \<or> z \<in> set ys) (x # xs) = filter (\<lambda>z. z \<in> set ys) (x # xs)"
      using "1.prems" by (intro filter_cong) auto
    with 3 "1.IH"(3) "1.prems" show ?thesis by simp
  qed
qed simp_all

lemma or_loop_correct:
  "sorted_wrt (<) xs \<Longrightarrow> sorted_wrt (<) ys \<Longrightarrow>
     sorted_wrt (<) (or_loop xs ys) \<and> set (or_loop xs ys) = set xs \<union> set ys"
  by (induction xs ys rule: or_loop.induct) auto

lemma strict_sorted_bounded_length:
  "sorted_wrt (<) xs \<Longrightarrow> \<forall>x \<in> set xs. x < (n::nat) \<Longrightarrow> length xs \<le> n"
proof -
  assume s: "sorted_wrt (<) xs" and b: "\<forall>x \<in> set xs. x < n"
  have "distinct xs" using s by (simp add: strict_sorted_iff)
  then have "length xs = card (set xs)" by (simp add: distinct_card)
  also have "\<dots> \<le> card {..<n}" using b by (intro card_mono) auto
  finally show ?thesis by simp
qed

lemma replace_selection_eq:
  assumes wf: "batch_wf b" and has: "vb_has_selection b"
    and sel: "sorted_wrt (<) sel" "\<forall>r \<in> set sel. r < vb_count b"
  shows "\<exists>b'. replace_selection b sel = Some b' \<and> batch_wf b' \<and> same_rows b b' \<and> active b' = sel"
proof -
  have len: "length sel \<le> vb_capacity b"
    using strict_sorted_bounded_length [OF sel] batch_wf_count [OF wf] by simp
  let ?b = "b\<lparr>vb_selection := sel @ drop (length sel) (vb_selection b), vb_selected_count := length sel\<rparr>"
  have "replace_selection b sel = Some ?b"
    using wf len by (simp add: replace_selection_def batch_wf_def)
  moreover have "active ?b = sel" using has by (simp add: active_def)
  moreover from this have "batch_wf ?b"
    using wf has len sel by (simp add: batch_wf_def list_all_iff)
  ultimately show ?thesis by (simp add: same_rows_def)
qed

lemma selection_combine:
  assumes wf: "batch_wf b" and other: "sorted_wrt (<) other" "\<forall>r \<in> set other. r < vb_count b"
  shows "(\<exists>b'. vectorized_selection_and b other = Some b' \<and> batch_wf b' \<and> same_rows b b' \<and>
               active b' = filter (\<lambda>r. r \<in> set other) (active b)) \<and>
         (\<exists>b'. vectorized_selection_or b other = Some b' \<and> batch_wf b' \<and> same_rows b b' \<and>
               set (active b') = set (active b) \<union> set other)"
proof
  obtain b' where b': "ensure_selection b = Some b'" "batch_wf b'" "vb_has_selection b'"
      "active b' = active b" "same_rows b b'"
    using ensure_selection_eq [OF wf] by blast
  let ?sel = "filter (\<lambda>r. r \<in> set other) (active b)"
  have "and_loop (active b') other = ?sel"
    using and_loop_correct [OF active_sorted [OF b'(2)] other(1)] b'(4) by simp
  moreover have "\<exists>b''. replace_selection b' ?sel = Some b'' \<and> batch_wf b'' \<and> same_rows b' b'' \<and> active b'' = ?sel"
    using b' other active_sorted [OF wf]
    by (intro replace_selection_eq) (auto simp: same_rows_def intro: sorted_wrt_filter)
  moreover have "take (vb_selected_count b') (vb_selection b') = active b'"
    using b'(3) by (simp add: active_def)
  ultimately show "\<exists>b'. vectorized_selection_and b other = Some b' \<and> batch_wf b' \<and> same_rows b b' \<and>
               active b' = ?sel"
    using b' by (auto simp: vectorized_selection_and_def same_rows_def)
next
  show "\<exists>b'. vectorized_selection_or b other = Some b' \<and> batch_wf b' \<and> same_rows b b' \<and>
             set (active b') = set (active b) \<union> set other"
  proof (cases "vb_has_selection b")
    case False
    with wf other(2) show ?thesis
      by (auto simp: vectorized_selection_or_def same_rows_def active_def)
  next
    case True
    then have sel: "take (vb_selected_count b) (vb_selection b) = active b" by (simp add: active_def)
    let ?u = "or_loop (active b) other"
    have u: "sorted_wrt (<) ?u" "set ?u = set (active b) \<union> set other"
      using or_loop_correct [OF active_sorted [OF wf] other(1)] by auto
    then have "\<forall>r \<in> set ?u. r < vb_count b" using active_less [OF wf] other(2) by blast
    then obtain b' where "replace_selection b ?u = Some b'" "batch_wf b'" "same_rows b b'" "active b' = ?u"
      using replace_selection_eq [OF wf True u(1)] by blast
    with True sel u(2) show ?thesis by (simp add: vectorized_selection_or_def)
  qed
qed

text \<open>Combining the selection of a batch with another sorted selection of its rows never leaves the
  arrays, keeps the batch well-formed and its data as they were, and selects with AND the rows in both, with
  OR the rows in either selection, in order.\<close>

theorem selection_and_or_combine:
  assumes wf: "batch_wf b" and other: "sorted_wrt (<) other" "\<forall>r \<in> set other. r < vb_count b"
  shows "(\<exists>b'. vectorized_selection_and b other = Some b' \<and> batch_wf b' \<and> same_rows b b' \<and>
               active b' = filter (\<lambda>r. r \<in> set other) (active b)) \<and>
         (\<exists>b'. vectorized_selection_or b other = Some b' \<and> batch_wf b' \<and> same_rows b b' \<and>
               set (active b') = set (active b) \<union> set other)"
  by (rule selection_combine [OF assms])

definition sample_batch :: VectorBatch where
  "sample_batch =
     \<lparr>vb_capacity = 8, vb_count = 6, vb_column_count = 1,
      vb_columns = [Some \<lparr>vc_data_type = VECTORIZED_TYPE_INT64, vc_type_len = 8, vc_type_byval = True,
        vc_type_oid = 20, vc_data = Data64 [5, 7, - 3, 9, 0, 7, 0, 0], vc_nulls = [16], vc_has_nulls = True,
        vc_offsets = None\<rparr>],
      vb_selection = [0, 1, 3, 4, 0, 0, 0, 0], vb_selected_count = 4, vb_has_selection = True,
      vb_rows_processed = 6, vb_rows_filtered = 2\<rparr>"

lemma sample_batch_wf: "batch_wf sample_batch"
  by (simp add: sample_batch_def batch_wf_def columns_wf_def column_wf_def data_fits_def active_def)

lemma sample_batch_active: "active sample_batch = [0, 1, 3, 4]"
  by (simp add: sample_batch_def active_def)

theorem selection_and_or_combine_witness:
  "(\<exists>b'. vectorized_selection_and sample_batch [1, 2, 4] = Some b' \<and> active b' = [1, 4]) \<and>
   (\<exists>b'. vectorized_selection_or sample_batch [1, 2, 4] = Some b' \<and> set (active b') = {0, 1, 2, 3, 4})"
proof -
  have n: "vb_count sample_batch = 6" by (simp add: sample_batch_def)
  show ?thesis
    using selection_and_or_combine [OF sample_batch_wf, of "[1, 2, 4]"]
    by (auto simp: sample_batch_active n)
qed

section \<open>Operations keep batches well-formed\<close>

lemma create_wf: "vector_batch_create garbage cap n = Inr b \<Longrightarrow> batch_wf b"
proof -
  have "columns_wf k (replicate m None)" for k m by (simp add: columns_wf_def list_all_iff)
  then show "vector_batch_create garbage cap n = Inr b \<Longrightarrow> batch_wf b"
    by (auto simp: vector_batch_create_def batch_wf_def Let_def split: if_splits)
qed

lemma add_column_wf:
  assumes "batch_wf b" and "vector_batch_add_column b k t oid = Inr b'"
  shows "batch_wf b' \<and> (\<exists>c. batch_column b' k = Some (Inr c) \<and> vc_data_type c = t)"
proof -
  have fits: "data_fits t cap (snd (snd (column_buffer t cap)))" for cap
    by (cases t) (auto simp: data_fits_def)
  have upd: "columns_wf cap cs \<Longrightarrow> column_wf cap c \<Longrightarrow> columns_wf cap (cs[i := Some c])" for cap cs c i
    by (auto simp: columns_wf_def list_all_iff dest!: set_update_subset_insert [THEN subsetD])
  obtain len byval buf where buf: "column_buffer t (vb_capacity b) = (len, byval, buf)"
    by (cases "column_buffer t (vb_capacity b)")
  with assms fits [of "vb_capacity b"] show ?thesis
    by (auto simp: vector_batch_add_column_def batch_wf_def active_def batch_column_def column_wf_def
          array_get_def intro!: upd split: if_splits)
qed

lemma reset_wf: "batch_wf b \<Longrightarrow> batch_wf (vector_batch_reset b) \<and> active (vector_batch_reset b) = []"
  by (auto simp: vector_batch_reset_def batch_wf_def active_def columns_wf_def column_wf_def list_all_iff
        split: option.splits)

text \<open>C32: A batch that is created, extended by columns, filtered, combined with selections and reset is
  always well-formed: its buffers have the length of its capacity and the width of their types, and its
  selection holds rows of the batch in ascending order without repetition. Operations on a well-formed batch
  either raise an error or return one; none is undefined when filters are applied to columns of their type.\<close>

theorem batch_operations_keep_wf:
  "(vector_batch_create garbage cap n = Inr b0 \<longrightarrow> batch_wf b0) \<and>
   (batch_wf b \<longrightarrow>
      (vector_batch_add_column b k t oid = Inr b1 \<longrightarrow> batch_wf b1) \<and>
      batch_wf (vector_batch_reset b) \<and>
      (filter_ready avx2 b f c \<longrightarrow>
         (\<exists>b2. vectorized_filter_generic avx2 b f = Some (Inr b2) \<and> batch_wf b2 \<and> same_rows b b2)) \<and>
      (sorted_wrt (<) other \<and> (\<forall>r \<in> set other. r < vb_count b) \<longrightarrow>
         (\<exists>b3. vectorized_selection_and b other = Some b3 \<and> batch_wf b3) \<and>
         (\<exists>b4. vectorized_selection_or b other = Some b4 \<and> batch_wf b4)))"
proof -
  have sel: "(\<exists>b3. vectorized_selection_and b other = Some b3 \<and> batch_wf b3) \<and>
        (\<exists>b4. vectorized_selection_or b other = Some b4 \<and> batch_wf b4)"
    if wf: "batch_wf b" and other: "sorted_wrt (<) other" "\<forall>r \<in> set other. r < vb_count b"
    using selection_combine [OF wf other] by blast
  have flt: "\<exists>b2. vectorized_filter_generic avx2 b f = Some (Inr b2) \<and> batch_wf b2 \<and> same_rows b b2"
    if "batch_wf b" and "filter_ready avx2 b f c"
    using filter_generic_refines [OF that] by (auto simp: filtered_def)
  show ?thesis using create_wf add_column_wf reset_wf sel flt by blast
qed

theorem batch_operations_keep_wf_witness:
  "batch_wf (vector_batch_reset sample_batch) \<and>
   (\<exists>b3. vectorized_selection_and sample_batch [1] = Some b3 \<and> batch_wf b3)"
proof -
  have n: "vb_count sample_batch = 6" by (simp add: sample_batch_def)
  show ?thesis
    using batch_operations_keep_wf [of undefined 0 0 sample_batch sample_batch 0 VECTORIZED_TYPE_BOOL 0
        sample_batch True undefined undefined "[1]"] sample_batch_wf
    by (simp add: n)
qed

section \<open>Filter theorems\<close>

text \<open>C21: Applying a filter to a batch never leaves its arrays and selects, of the rows that were selected, in
  order, exactly those whose value is not NULL and satisfies the comparison with the constant, for the six comparison
  operators on columns of the filter's type, one of the integer, date, timestamp and floating-point types, compiled
  for AVX2 or not, except that in the AVX2 build \<open><>\<close> on floats must not meet a NaN. Floats are compared as IEEE 754
  has it; IS NULL and IS NOT NULL are not comparisons. The data stay as they were and the counter of filtered rows
  grows by the number of rows dropped.\<close>

theorem filter_selects_matching_rows:
  assumes "batch_wf b" and "filter_ready avx2 b f c"
  shows "filtered b (filter_hit f c) (vectorized_filter_generic avx2 b f)"
  by (rule filter_generic_refines [OF assms])

definition sample_filter :: VectorizedFilterState where
  "sample_filter = \<lparr>vf_column_index = 0, vf_compare_op = VECTORIZED_CMP_GE,
     vf_data_type = VECTORIZED_TYPE_INT64, vf_const_value = 7, vf_const_is_null = False\<rparr>"

lemma sample_column:
  "\<exists>c. filter_ready avx2 sample_batch sample_filter c \<and>
       filter (filter_hit sample_filter c) (active sample_batch) = [1, 3]"
  by (simp add: filter_ready_def batch_column_def sample_batch_def sample_filter_def array_get_def
        compares_values_def active_def filter_hit_def col_null_def signed_cmp_def upt_rec)

theorem filter_selects_matching_rows_witness:
  "\<exists>b'. vectorized_filter_generic True sample_batch sample_filter = Some (Inr b') \<and> active b' = [1, 3] \<and>
        vb_rows_filtered b' = 4"
proof -
  obtain c where c: "filter_ready True sample_batch sample_filter c"
      "filter (filter_hit sample_filter c) (active sample_batch) = [1, 3]"
    using sample_column by blast
  have "vb_rows_filtered sample_batch = 2" by (simp add: sample_batch_def)
  with filter_selects_matching_rows [OF sample_batch_wf c(1)] c(2) show ?thesis
    by (auto simp: filtered_def sample_batch_active)
qed

text \<open>The AVX2 and the scalar filters select the same rows, for every operator with SIMD lanes (and, for
  not-equal on floating-point columns, without NaNs).\<close>

theorem simd_filter_equals_scalar:
  assumes wf: "batch_wf b" and ready: "filter_ready True b f c"
  shows "\<exists>b1 b2. vectorized_filter_generic True b f = Some (Inr b1) \<and>
                 vectorized_filter_generic False b f = Some (Inr b2) \<and>
                 active b1 = active b2 \<and> vb_rows_filtered b1 = vb_rows_filtered b2 \<and> same_rows b1 b2"
proof -
  have "filter_ready False b f c"
    using ready by (cases "vf_data_type f") (auto simp: filter_ready_def)
  then have "filtered b (filter_hit f c) (vectorized_filter_generic False b f)"
    by (rule filter_generic_refines [OF wf])
  moreover have "filtered b (filter_hit f c) (vectorized_filter_generic True b f)"
    by (rule filter_generic_refines [OF wf ready])
  ultimately show ?thesis by (fastforce simp: filtered_def same_rows_def)
qed

theorem simd_filter_equals_scalar_witness:
  "\<exists>b1 b2. vectorized_filter_generic True sample_batch sample_filter = Some (Inr b1) \<and>
           vectorized_filter_generic False sample_batch sample_filter = Some (Inr b2) \<and> active b1 = active b2"
  using sample_column [of True] simd_filter_equals_scalar [OF sample_batch_wf] by blast

text \<open>The NULL tests are not implemented for 64-bit columns: IS NULL and IS NOT NULL select no row, and
  raise an error when the code was compiled for AVX2 and the batch has at least four rows.\<close>

theorem null_tests_select_nothing:
  assumes wf: "batch_wf b" and c: "batch_column b k = Some (Inr c)" and data: "data64 c = Some data"
    and op: "\<not> compares_values op"
  shows "(\<exists>b'. vectorized_filter_int64 False b k op v = Some (Inr b') \<and> active b' = []) \<and>
         (4 \<le> vb_count b \<longrightarrow>
            vectorized_filter_int64 True b k op v = Some (Inl (ERROR ''unsupported comparison operator'')))"
proof
  have "row_hit signed_cmp c data op v = (\<lambda>r. False)"
    using op by (auto simp: row_hit_def compares_values_def signed_cmp_def)
  with int64_filter_refines [OF wf c data, of False op v]
  show "\<exists>b'. vectorized_filter_int64 False b k op v = Some (Inr b') \<and> active b' = []"
    by (auto simp: filtered_def)
  obtain b' where b': "ensure_selection b = Some b'" "same_rows b b'"
    using ensure_selection_eq [OF wf] by blast
  have "vb_count b \<le> length data"
    using data64_length [OF batch_column_wf [OF wf c] data] batch_wf_count [OF wf] by simp
  then show "4 \<le> vb_count b \<longrightarrow>
            vectorized_filter_int64 True b k op v = Some (Inl (ERROR ''unsupported comparison operator''))"
    using int64_simd.simd_rows_unsupported [OF op, of "vb_count b" data v] b' data
    by (auto simp: vectorized_filter_int64_def filter_int64_avx2_def c filter_mask_avx2_def apply_mask_def
          same_rows_def simp del: data64.simps)
qed

theorem null_tests_select_nothing_witness:
  "\<exists>b'. vectorized_filter_int64 False sample_batch 0 VECTORIZED_CMP_IS_NULL 0 = Some (Inr b') \<and> active b' = []"
proof -
  have "\<exists>c. batch_column sample_batch 0 = Some (Inr c) \<and> data64 c \<noteq> None"
    by (simp add: batch_column_def sample_batch_def array_get_def)
  moreover have "\<not> compares_values VECTORIZED_CMP_IS_NULL" by (simp add: compares_values_def)
  ultimately show ?thesis using null_tests_select_nothing [OF sample_batch_wf] by blast
qed

text \<open>On a NaN the lanes of not-equal are false while the C operator is true: of five NaNs that are compared
  with 1.0 the SIMD code selects only the last one, which is outside the group of four.\<close>

lemma not_equal_on_nan:
  "float_lanes VECTORIZED_CMP_NE (replicate 4 (0x7FF8000000000000 :: u64)) (replicate 4 0x3FF0000000000000) =
     Some (replicate 4 0) \<and>
   float_cmp VECTORIZED_CMP_NE (0x7FF8000000000000 :: u64) 0x3FF0000000000000"
  by code_simp

end
