(* ===== verification/Vector_Agg.thy ===== *)
theory Vector_Agg
  imports Vector_Batch
begin

text \<open>
  Aggregation over batches (second half of \<^verbatim>\<open>executor/vectorized.c\<close>): sums with and without SIMD, counts,
  minima and maxima of one batch, the running state over many batches, and the delivery of the selected rows
  as tuples.

  PostgreSQL is compiled with wrapping integers, so sums are sums of words. Rounding arithmetic on doubles is
  a parameter (\<open>double_ops\<close>): the model keeps the order in which the code adds; comparisons of doubles are those of
  \<open>Vector_Batch\<close>.
\<close>

record double_ops =
  dadd :: "u64 \<Rightarrow> u64 \<Rightarrow> u64"
  dsub :: "u64 \<Rightarrow> u64 \<Rightarrow> u64"
  ddiv :: "u64 \<Rightarrow> u64 \<Rightarrow> u64"
  d_of_int64 :: "u64 \<Rightarrow> u64"
  d_of_float :: "u32 \<Rightarrow> u64"

section \<open>Sums\<close>

text \<open>One addition per row that is not NULL; \<open>widen\<close> is the conversion to the type of the sum.\<close>

definition sum_rows ::
  "('s \<Rightarrow> 's \<Rightarrow> 's) \<Rightarrow> ('w \<Rightarrow> 's) \<Rightarrow> VectorColumn \<Rightarrow> 'w list \<Rightarrow> nat list \<Rightarrow> 's \<Rightarrow> 's option" where
  "sum_rows add widen column data =
     fold_opt (\<lambda>i acc. do { isnull \<leftarrow> row_null column i;
                             if isnull then Some acc
                             else do { x \<leftarrow> array_get data i; Some (add acc (widen x)) } })"

text \<open>The loop that takes the NULLs of the SIMD groups out again.\<close>

definition subtract_nulls ::
  "('s \<Rightarrow> 's \<Rightarrow> 's) \<Rightarrow> ('w \<Rightarrow> 's) \<Rightarrow> nat \<Rightarrow> VectorColumn \<Rightarrow> 'w list \<Rightarrow> nat \<Rightarrow> 's \<Rightarrow> 's option" where
  "subtract_nulls sub widen L column data n acc =
     (if vc_has_nulls column
      then fold_opt (\<lambda>idx acc. do { isnull \<leftarrow> null_bit column idx;
                                     if isnull then do { x \<leftarrow> array_get data idx; Some (sub acc (widen x)) }
                                     else Some acc })
             (concat (map (\<lambda>k. map (\<lambda>j. k * L + j) [0..<L]) [0..<n div L])) acc
      else Some acc)"

text \<open>The selection vector or all rows.\<close>

definition sum_scalar ::
  "('s \<Rightarrow> 's \<Rightarrow> 's) \<Rightarrow> ('w \<Rightarrow> 's) \<Rightarrow> 's \<Rightarrow> VectorBatch \<Rightarrow> VectorColumn \<Rightarrow> 'w list \<Rightarrow> 's option" where
  "sum_scalar add widen zero b column data =
     (if vb_has_selection b
      then do { rows \<leftarrow> (if vb_selected_count b \<le> length (vb_selection b)
                         then Some (take (vb_selected_count b) (vb_selection b)) else None);
                sum_rows add widen column data rows zero }
      else sum_rows add widen column data [0..<vb_count b] zero)"

definition sum_simd ::
  "('s \<Rightarrow> 's \<Rightarrow> 's) \<Rightarrow> ('s \<Rightarrow> 's \<Rightarrow> 's) \<Rightarrow> ('w \<Rightarrow> 's) \<Rightarrow> nat \<Rightarrow> ('w list \<Rightarrow> 's list \<Rightarrow> 's list) \<Rightarrow> ('s list \<Rightarrow> 's) \<Rightarrow>
   's \<Rightarrow> VectorBatch \<Rightarrow> VectorColumn \<Rightarrow> 'w list \<Rightarrow> 's option" where
  "sum_simd add sub widen L accumulate horizontal zero b column data =
     do { r \<leftarrow> lane_loop L (\<lambda>data_vec sum_vec. Inr (accumulate data_vec sum_vec)) data (vb_count b) 0
                 [zero, zero, zero, zero];
          case r of
            Inl e \<Rightarrow> None
          | Inr (i, partial) \<Rightarrow>
              do { acc \<leftarrow> sum_rows add widen column data [i..<vb_count b] (horizontal partial);
                   subtract_nulls sub widen L column data (vb_count b) acc } }"

definition add4 :: "u64 list \<Rightarrow> u64" where
  "add4 p = p ! 0 + p ! 1 + p ! 2 + p ! 3"

definition sum_int64_avx2 :: "VectorBatch \<Rightarrow> VectorColumn \<Rightarrow> u64 option" where
  "sum_int64_avx2 b column =
     do { data \<leftarrow> data64 column;
          if vb_has_selection b then sum_scalar (+) id 0 b column data
          else sum_simd (+) (-) id 4 (\<lambda>v s. map2 (+) s v) add4 0 b column data }"

definition sum_int64_scalar :: "VectorBatch \<Rightarrow> VectorColumn \<Rightarrow> u64 option" where
  "sum_int64_scalar b column = do { data \<leftarrow> data64 column; sum_scalar (+) id 0 b column data }"

definition vectorized_sum_int64 :: "bool \<Rightarrow> VectorBatch \<Rightarrow> int \<Rightarrow> u64 outcome" where
  "vectorized_sum_int64 avx2 b column_index =
     do { c \<leftarrow> batch_column b column_index;
          case c of Inl e \<Rightarrow> Some (Inl e)
          | Inr column \<Rightarrow> map_option Inr ((if avx2 then sum_int64_avx2 else sum_int64_scalar) b column) }"

definition vectorized_sum_int32 :: "bool \<Rightarrow> VectorBatch \<Rightarrow> int \<Rightarrow> u64 outcome" where
  "vectorized_sum_int32 avx2 b column_index =
     do { c \<leftarrow> batch_column b column_index;
          case c of Inl e \<Rightarrow> Some (Inl e)
          | Inr column \<Rightarrow>
              do { data \<leftarrow> data32 column;
                   map_option Inr
                     (if avx2 \<and> \<not> vb_has_selection b
                      then sum_simd (+) (-) scast 8
                             (\<lambda>v s. map2 (+) (map2 (+) s (map scast (take 4 v))) (map scast (drop 4 v)))
                             add4 0 b column data
                      else sum_scalar (+) scast 0 b column data) } }"

text \<open>The horizontal sum of doubles adds the upper to the lower half and then the two lanes that are left.\<close>

definition hadd :: "double_ops \<Rightarrow> u64 list \<Rightarrow> u64" where
  "hadd fp p = dadd fp (dadd fp (p ! 2) (p ! 0)) (dadd fp (p ! 3) (p ! 1))"

definition sum_float64_avx2 :: "double_ops \<Rightarrow> VectorBatch \<Rightarrow> VectorColumn \<Rightarrow> u64 option" where
  "sum_float64_avx2 fp b column =
     do { data \<leftarrow> data64 column;
          if vb_has_selection b then sum_scalar (dadd fp) id 0 b column data
          else sum_simd (dadd fp) (dsub fp) id 4 (\<lambda>v s. map2 (dadd fp) s v) (hadd fp) 0 b column data }"

definition sum_float64_scalar :: "double_ops \<Rightarrow> VectorBatch \<Rightarrow> VectorColumn \<Rightarrow> u64 option" where
  "sum_float64_scalar fp b column = do { data \<leftarrow> data64 column; sum_scalar (dadd fp) id 0 b column data }"

definition vectorized_sum_float64 :: "double_ops \<Rightarrow> bool \<Rightarrow> VectorBatch \<Rightarrow> int \<Rightarrow> u64 outcome" where
  "vectorized_sum_float64 fp avx2 b column_index =
     do { c \<leftarrow> batch_column b column_index;
          case c of Inl e \<Rightarrow> Some (Inl e)
          | Inr column \<Rightarrow> map_option Inr ((if avx2 then sum_float64_avx2 else sum_float64_scalar) fp b column) }"

definition vectorized_sum_float32 :: "double_ops \<Rightarrow> bool \<Rightarrow> VectorBatch \<Rightarrow> int \<Rightarrow> u64 outcome" where
  "vectorized_sum_float32 fp avx2 b column_index =
     do { c \<leftarrow> batch_column b column_index;
          case c of Inl e \<Rightarrow> Some (Inl e)
          | Inr column \<Rightarrow>
              do { data \<leftarrow> data32 column;
                   map_option Inr
                     (if avx2 \<and> \<not> vb_has_selection b
                      then sum_simd (dadd fp) (dsub fp) (d_of_float fp) 8
                             (\<lambda>v s. map2 (dadd fp) (map2 (dadd fp) s (map (d_of_float fp) (take 4 v)))
                                                   (map (d_of_float fp) (drop 4 v)))
                             (hadd fp) 0 b column data
                      else sum_scalar (dadd fp) (d_of_float fp) 0 b column data) } }"

section \<open>Counts, minima and maxima\<close>

definition vectorized_count :: "VectorBatch \<Rightarrow> nat" where
  "vectorized_count b = (if vb_has_selection b then vb_selected_count b else vb_count b)"

text \<open>The lookup of the remaining aggregates: a bad column is not an error.\<close>

definition find_column :: "VectorBatch \<Rightarrow> int \<Rightarrow> VectorColumn option option" where
  "find_column b column_index =
     (if column_index < 0 \<or> column_index \<ge> int (vb_column_count b) then Some None
      else array_get (vb_columns b) (nat column_index))"

definition batch_rows :: "VectorBatch \<Rightarrow> nat list option" where
  "batch_rows b =
     (if vb_has_selection b
      then (if vb_selected_count b \<le> length (vb_selection b)
            then Some (take (vb_selected_count b) (vb_selection b)) else None)
      else Some [0..<vb_count b])"

definition vectorized_count_column :: "VectorBatch \<Rightarrow> int \<Rightarrow> nat option" where
  "vectorized_count_column b column_index =
     do { c \<leftarrow> find_column b column_index;
          case c of
            None \<Rightarrow> Some 0
          | Some column \<Rightarrow>
              (if \<not> vc_has_nulls column then Some (vectorized_count b)
               else do { rows \<leftarrow> batch_rows b;
                         fold_opt (\<lambda>i n. do { isnull \<leftarrow> null_bit column i;
                                               Some (if isnull then n else Suc n) }) rows 0 }) }"

text \<open>The loops of the minimum and the maximum: \<open>better x y\<close> says that \<open>x\<close> replaces \<open>y\<close>.\<close>

definition best_rows ::
  "('w \<Rightarrow> 'w \<Rightarrow> bool) \<Rightarrow> VectorColumn \<Rightarrow> 'w list \<Rightarrow> nat list \<Rightarrow> 'w \<times> bool \<Rightarrow> ('w \<times> bool) option" where
  "best_rows better column data =
     fold_opt (\<lambda>i (val, found). do { isnull \<leftarrow> row_null column i;
                                      if isnull then Some (val, found)
                                      else do { x \<leftarrow> array_get data i;
                                                Some (if better x val then (x, True) else (val, found)) } })"

definition best_of_batch :: "(u64 \<Rightarrow> u64 \<Rightarrow> bool) \<Rightarrow> u64 \<Rightarrow> VectorBatch \<Rightarrow> int \<Rightarrow> (u64 \<times> bool) option" where
  "best_of_batch better init b column_index =
     do { c \<leftarrow> find_column b column_index;
          case c of
            None \<Rightarrow> Some (0, False)
          | Some column \<Rightarrow> do { data \<leftarrow> data64 column;
                                rows \<leftarrow> batch_rows b;
                                best_rows better column data rows (init, False) } }"

abbreviation (input) INT64_MAX :: u64 where "INT64_MAX \<equiv> 0x7FFFFFFFFFFFFFFF"
abbreviation (input) INT64_MIN :: u64 where "INT64_MIN \<equiv> 0x8000000000000000"
abbreviation (input) DBL_MAX :: u64 where "DBL_MAX \<equiv> 0x7FEFFFFFFFFFFFFF"
abbreviation (input) DBL_MAX_NEG :: u64 where "DBL_MAX_NEG \<equiv> 0xFFEFFFFFFFFFFFFF"

definition vectorized_min_int64 :: "VectorBatch \<Rightarrow> int \<Rightarrow> (u64 \<times> bool) option" where
  "vectorized_min_int64 = best_of_batch (\<lambda>x y. sint x < sint y) INT64_MAX"

definition vectorized_max_int64 :: "VectorBatch \<Rightarrow> int \<Rightarrow> (u64 \<times> bool) option" where
  "vectorized_max_int64 = best_of_batch (\<lambda>x y. sint x > sint y) INT64_MIN"

definition vectorized_min_float64 :: "VectorBatch \<Rightarrow> int \<Rightarrow> (u64 \<times> bool) option" where
  "vectorized_min_float64 = best_of_batch f_less DBL_MAX"

definition vectorized_max_float64 :: "VectorBatch \<Rightarrow> int \<Rightarrow> (u64 \<times> bool) option" where
  "vectorized_max_float64 = best_of_batch (\<lambda>x y. f_less y x) DBL_MAX_NEG"

section \<open>The running state\<close>

datatype VectorizedAggType =
  VECTORIZED_AGG_COUNT | VECTORIZED_AGG_SUM | VECTORIZED_AGG_AVG | VECTORIZED_AGG_MIN | VECTORIZED_AGG_MAX

record VectorizedAggState =
  va_agg_type :: VectorizedAggType
  va_column_index :: int
  va_data_type :: VectorizedDataType
  va_count :: u64
  va_sum_int64 :: u64
  va_sum_float64 :: u64
  va_min_int64 :: u64
  va_max_int64 :: u64
  va_min_float64 :: u64
  va_max_float64 :: u64
  va_has_value :: bool

definition add_int_sum :: "VectorizedAggState \<Rightarrow> u64 outcome \<Rightarrow> VectorizedAggState outcome" where
  "add_int_sum s r = map_option (map_sum id (\<lambda>v. s\<lparr>va_sum_int64 := va_sum_int64 s + v, va_has_value := True\<rparr>)) r"

definition add_float_sum :: "double_ops \<Rightarrow> (u64 \<Rightarrow> u64) \<Rightarrow> VectorizedAggState \<Rightarrow> u64 outcome \<Rightarrow> VectorizedAggState outcome"
where
  "add_float_sum fp convert s r =
     map_option (map_sum id (\<lambda>v. s\<lparr>va_sum_float64 := dadd fp (va_sum_float64 s) (convert v), va_has_value := True\<rparr>)) r"

definition agg_min :: "VectorizedAggState \<Rightarrow> VectorBatch \<Rightarrow> VectorizedAggState option" where
  "agg_min s b =
     (case va_data_type s of
        t \<Rightarrow>
        if t = VECTORIZED_TYPE_INT64 \<or> t = VECTORIZED_TYPE_TIMESTAMP then
          do { (val, found) \<leftarrow> vectorized_min_int64 b (va_column_index s);
               Some (if found \<and> (\<not> va_has_value s \<or> sint val < sint (va_min_int64 s))
                     then s\<lparr>va_min_int64 := val, va_has_value := True\<rparr> else s) }
        else if t = VECTORIZED_TYPE_FLOAT64 then
          do { (val, found) \<leftarrow> vectorized_min_float64 b (va_column_index s);
               Some (if found \<and> (\<not> va_has_value s \<or> f_less val (va_min_float64 s))
                     then s\<lparr>va_min_float64 := val, va_has_value := True\<rparr> else s) }
        else Some s)"

definition agg_max :: "VectorizedAggState \<Rightarrow> VectorBatch \<Rightarrow> VectorizedAggState option" where
  "agg_max s b =
     (case va_data_type s of
        t \<Rightarrow>
        if t = VECTORIZED_TYPE_INT64 \<or> t = VECTORIZED_TYPE_TIMESTAMP then
          do { (val, found) \<leftarrow> vectorized_max_int64 b (va_column_index s);
               Some (if found \<and> (\<not> va_has_value s \<or> sint val > sint (va_max_int64 s))
                     then s\<lparr>va_max_int64 := val, va_has_value := True\<rparr> else s) }
        else if t = VECTORIZED_TYPE_FLOAT64 then
          do { (val, found) \<leftarrow> vectorized_max_float64 b (va_column_index s);
               Some (if found \<and> (\<not> va_has_value s \<or> f_less (va_max_float64 s) val)
                     then s\<lparr>va_max_float64 := val, va_has_value := True\<rparr> else s) }
        else Some s)"

definition vectorized_agg_update ::
  "double_ops \<Rightarrow> bool \<Rightarrow> VectorizedAggState \<Rightarrow> VectorBatch \<Rightarrow> VectorizedAggState outcome" where
  "vectorized_agg_update fp avx2 s b =
     (let c = va_column_index s; t = va_data_type s in
      case va_agg_type s of
        VECTORIZED_AGG_COUNT \<Rightarrow>
          do { n \<leftarrow> (if c < 0 then Some (vectorized_count b) else vectorized_count_column b c);
               Some (Inr (s\<lparr>va_count := va_count s + word_of_nat n\<rparr>)) }
      | VECTORIZED_AGG_SUM \<Rightarrow>
          (case t of
             VECTORIZED_TYPE_INT64 \<Rightarrow> add_int_sum s (vectorized_sum_int64 avx2 b c)
           | VECTORIZED_TYPE_TIMESTAMP \<Rightarrow> add_int_sum s (vectorized_sum_int64 avx2 b c)
           | VECTORIZED_TYPE_INT32 \<Rightarrow> add_int_sum s (vectorized_sum_int32 avx2 b c)
           | VECTORIZED_TYPE_DATE \<Rightarrow> add_int_sum s (vectorized_sum_int32 avx2 b c)
           | VECTORIZED_TYPE_FLOAT64 \<Rightarrow> add_float_sum fp id s (vectorized_sum_float64 fp avx2 b c)
           | VECTORIZED_TYPE_FLOAT32 \<Rightarrow> add_float_sum fp id s (vectorized_sum_float32 fp avx2 b c)
           | _ \<Rightarrow> Some (Inr s))
      | VECTORIZED_AGG_MIN \<Rightarrow> map_option Inr (agg_min s b)
      | VECTORIZED_AGG_MAX \<Rightarrow> map_option Inr (agg_max s b)
      | VECTORIZED_AGG_AVG \<Rightarrow>
          do { n \<leftarrow> vectorized_count_column b c;
               let s = s\<lparr>va_count := va_count s + word_of_nat n\<rparr> in
               case t of
                 VECTORIZED_TYPE_INT64 \<Rightarrow> add_float_sum fp (d_of_int64 fp) s (vectorized_sum_int64 avx2 b c)
               | VECTORIZED_TYPE_TIMESTAMP \<Rightarrow> add_float_sum fp (d_of_int64 fp) s (vectorized_sum_int64 avx2 b c)
               | VECTORIZED_TYPE_INT32 \<Rightarrow> add_float_sum fp (d_of_int64 fp) s (vectorized_sum_int32 avx2 b c)
               | VECTORIZED_TYPE_DATE \<Rightarrow> add_float_sum fp (d_of_int64 fp) s (vectorized_sum_int32 avx2 b c)
               | VECTORIZED_TYPE_FLOAT64 \<Rightarrow> add_float_sum fp id s (vectorized_sum_float64 fp avx2 b c)
               | VECTORIZED_TYPE_FLOAT32 \<Rightarrow> add_float_sum fp id s (vectorized_sum_float32 fp avx2 b c)
               | _ \<Rightarrow> Some (Inr s) })"

text \<open>The result is a Datum, or \<^const>\<open>None\<close> for \<^verbatim>\<open>is_null\<close>.\<close>

definition vectorized_agg_finalize :: "double_ops \<Rightarrow> VectorizedAggState \<Rightarrow> u64 option" where
  "vectorized_agg_finalize fp s =
     (case va_agg_type s of
        VECTORIZED_AGG_COUNT \<Rightarrow> Some (va_count s)
      | VECTORIZED_AGG_SUM \<Rightarrow>
          (if \<not> va_has_value s then None
           else case va_data_type s of
             VECTORIZED_TYPE_INT64 \<Rightarrow> Some (va_sum_int64 s)
           | VECTORIZED_TYPE_INT32 \<Rightarrow> Some (va_sum_int64 s)
           | VECTORIZED_TYPE_TIMESTAMP \<Rightarrow> Some (va_sum_int64 s)
           | VECTORIZED_TYPE_DATE \<Rightarrow> Some (va_sum_int64 s)
           | VECTORIZED_TYPE_FLOAT64 \<Rightarrow> Some (va_sum_float64 s)
           | VECTORIZED_TYPE_FLOAT32 \<Rightarrow> Some (va_sum_float64 s)
           | _ \<Rightarrow> None)
      | VECTORIZED_AGG_AVG \<Rightarrow>
          (if \<not> va_has_value s \<or> va_count s = 0 then None
           else Some (ddiv fp (va_sum_float64 s) (d_of_int64 fp (va_count s))))
      | VECTORIZED_AGG_MIN \<Rightarrow>
          (if \<not> va_has_value s then None
           else case va_data_type s of
             VECTORIZED_TYPE_INT64 \<Rightarrow> Some (va_min_int64 s)
           | VECTORIZED_TYPE_TIMESTAMP \<Rightarrow> Some (va_min_int64 s)
           | VECTORIZED_TYPE_FLOAT64 \<Rightarrow> Some (va_min_float64 s)
           | _ \<Rightarrow> None)
      | VECTORIZED_AGG_MAX \<Rightarrow>
          (if \<not> va_has_value s then None
           else case va_data_type s of
             VECTORIZED_TYPE_INT64 \<Rightarrow> Some (va_max_int64 s)
           | VECTORIZED_TYPE_TIMESTAMP \<Rightarrow> Some (va_max_int64 s)
           | VECTORIZED_TYPE_FLOAT64 \<Rightarrow> Some (va_max_float64 s)
           | _ \<Rightarrow> None))"

section \<open>Rows of a batch as tuples\<close>

text \<open>A slot holds one Datum per attribute, \<^const>\<open>None\<close> being NULL. \<^verbatim>\<open>Int32GetDatum\<close> extends the sign,
  \<^verbatim>\<open>Float4GetDatum\<close> does as well because it goes through an \<^verbatim>\<open>int32\<close>.\<close>

definition column_datum :: "VectorColumn \<Rightarrow> nat \<Rightarrow> u64 option" where
  "column_datum column row_idx =
     (if vc_data_type column \<in> {VECTORIZED_TYPE_INT32, VECTORIZED_TYPE_DATE, VECTORIZED_TYPE_FLOAT32}
      then do { data \<leftarrow> data32 column; x \<leftarrow> array_get data row_idx; Some (scast x) }
      else if vc_data_type column = VECTORIZED_TYPE_BOOL
      then do { data \<leftarrow> data8 column; x \<leftarrow> array_get data row_idx; Some (if x \<noteq> 0 then 1 else 0) }
      else do { data \<leftarrow> data64 column; array_get data row_idx })"

definition slot_value :: "VectorColumn option \<Rightarrow> nat \<Rightarrow> u64 option option" where
  "slot_value c row_idx =
     (case c of
        None \<Rightarrow> Some None
      | Some column \<Rightarrow>
          do { isnull \<leftarrow> row_null column row_idx;
               if isnull then Some None else map_option Some (column_datum column row_idx) })"

fun map_opt :: "('a \<Rightarrow> 'b option) \<Rightarrow> 'a list \<Rightarrow> 'b list option" where
  "map_opt f [] = Some []"
| "map_opt f (x # xs) = do { y \<leftarrow> f x; ys \<leftarrow> map_opt f xs; Some (y # ys) }"

definition vectorized_batch_to_slots :: "VectorBatch \<Rightarrow> nat \<Rightarrow> nat \<Rightarrow> u64 option list list option" where
  "vectorized_batch_to_slots b natts max_slots =
     do { rows \<leftarrow> batch_rows b;
          map_opt (\<lambda>row_idx. map_opt (\<lambda>c. slot_value c row_idx) (take natts (vb_columns b)))
            (take max_slots rows) }"

section \<open>Sums are sums over the selected rows\<close>

definition live_rows :: "VectorColumn \<Rightarrow> nat list \<Rightarrow> nat list" where
  "live_rows c rows = filter (\<lambda>i. \<not> col_null c i) rows"

lemma live_rows_simps [simp]:
  "live_rows c [] = []"
  "live_rows c (xs @ ys) = live_rows c xs @ live_rows c ys"
  "live_rows c (i # xs) = (if col_null c i then live_rows c xs else i # live_rows c xs)"
  by (simp_all add: live_rows_def)

lemma sum_rows_eq:
  assumes "column_wf cap c" and "length data = cap" and "\<forall>i \<in> set rows. i < cap"
  shows "sum_rows add widen c data rows z =
           Some (fold (\<lambda>i a. add a (widen (data ! i))) (live_rows c rows) z)"
  using assms(3)
proof (induction rows arbitrary: z)
  case (Cons i rows)
  then have "row_null c i = Some (col_null c i)" "i < length data"
    using assms(1,2) by (auto simp: row_null_eq)
  then show ?case using Cons by (simp add: sum_rows_def array_get_less)
qed (simp add: sum_rows_def)

lemma batch_rows_active: "batch_wf b \<Longrightarrow> batch_rows b = Some (active b)"
  by (auto simp: batch_rows_def active_def batch_wf_def)

lemma sum_scalar_eq:
  assumes "batch_wf b" and "column_wf (vb_capacity b) c" and "length data = vb_capacity b"
  shows "sum_scalar add widen z b c data =
           Some (fold (\<lambda>i a. add a (widen (data ! i))) (live_rows c (active b)) z)"
proof -
  have "sum_scalar add widen z b c data = sum_rows add widen c data (active b) z"
    using batch_rows_active [OF assms(1)] by (auto simp: sum_scalar_def batch_rows_def active_def split: if_splits)
  then show ?thesis using sum_rows_eq [OF assms(2,3), of "active b"] active_less_capacity [OF assms(1)] by simp
qed

lemma fold_plus_sum_list: "fold (\<lambda>i a. a + f i) xs z = z + sum_list (map f xs)" for z :: "'a::comm_monoid_add"
  by (induction xs arbitrary: z) (auto simp: add.assoc)

lemma fold_minus_sum_list: "fold (\<lambda>i a. a - f i) xs z = z - sum_list (map f xs)" for z :: "'a::ab_group_add"
  by (induction xs arbitrary: z) auto

lemma lane_indices: "concat (map (\<lambda>k. map (\<lambda>j. k * L + j) [0..<L]) [0..<m]) = [0..<m * L]"
proof (induction m)
  case (Suc m)
  have "map (\<lambda>j. m * L + j) [0..<L] = [m * L..<m * L + L]"
    by (simp add: map_add_upt [of "m * L" L, unfolded add.commute [of _ "m * L"]])
  with Suc show ?case using upt_add_eq_append [of 0 "m * L" L] by (simp add: add.commute)
qed simp

lemma subtract_nulls_eq:
  fixes z :: "'s::ab_group_add"
  assumes c: "column_wf cap c" and len: "length data = cap" and n: "n \<le> cap"
  shows "subtract_nulls (-) widen L c data n z =
           Some (z - sum_list (map (\<lambda>i. widen (data ! i)) (filter (col_null c) [0..<n - n mod L])))"
proof (cases "vc_has_nulls c")
  case True
  have k: "n div L * L = n - n mod L" by (simp add: minus_mod_eq_div_mult)
  have "fold_opt (\<lambda>idx acc. do { isnull \<leftarrow> null_bit c idx;
            if isnull then do { x \<leftarrow> array_get data idx; Some (acc - widen x) } else Some acc }) rows z =
          Some (fold (\<lambda>i a. a - widen (data ! i)) (filter (col_null c) rows) z)"
    if "\<forall>i \<in> set rows. i < cap" for rows z
    using that
  proof (induction rows arbitrary: z)
    case (Cons i rows)
    then have "null_bit c i = Some (col_null c i)" "i < length data"
      using c len True by (auto simp: null_bit_eq col_null_def)
    with Cons show ?case by (simp add: array_get_less)
  qed simp
  moreover have "\<forall>i \<in> set [0..<n - n mod L]. i < cap" using n by auto
  ultimately show ?thesis using True by (simp add: subtract_nulls_def lane_indices k fold_minus_sum_list)
next
  case False
  then show ?thesis by (simp add: subtract_nulls_def col_null_def)
qed

lemma sum_list_split_filter:
  "sum_list (map f xs) - sum_list (map f (filter P xs)) = sum_list (map f (filter (\<lambda>x. \<not> P x) xs))"
  for f :: "'a \<Rightarrow> 'b::ab_group_add"
  by (induction xs) (auto simp: algebra_simps)

text \<open>Accumulating in lanes, adding the rest and taking out the NULLs is the sum over the rows that are not NULL,
  whatever order the lanes are added in, as long as no lane is lost.\<close>

lemma sum_simd_eq:
  fixes widen :: "'w \<Rightarrow> u64"
  assumes wf: "batch_wf b" and sel: "\<not> vb_has_selection b" and c: "column_wf (vb_capacity b) c"
    and len: "length data = vb_capacity b" and L: "0 < L"
    and acc: "\<And>v s. length v = L \<Longrightarrow> length s = 4 \<Longrightarrow>
                length (accumulate v s) = 4 \<and> add4 (accumulate v s) = add4 s + sum_list (map widen v)"
  shows "sum_simd (+) (-) widen L accumulate add4 0 b c data =
           Some (sum_list (map (\<lambda>i. widen (data ! i)) (live_rows c (active b))))"
proof -
  let ?n = "vb_count b" and ?f = "\<lambda>i. widen (data ! i)"
  let ?k = "?n - ?n mod L"
  have n: "?n \<le> length data" "?n \<le> vb_capacity b" using batch_wf_count [OF wf] len by auto
  have "\<exists>s'. lane_loop L (\<lambda>v s. Inr (accumulate v s)) data ?n 0 [0, 0, 0, 0] = Some (Inr (?k, s')) \<and>
             length s' = 4 \<and> add4 s' = sum_list (map ?f [0..<?k])"
  proof (rule lane_loop_induct [where P = "\<lambda>i s. length s = 4 \<and> add4 s = sum_list (map ?f [0..<i])"])
    fix k s assume k: "k + L \<le> ?n" and s: "length s = 4 \<and> add4 s = sum_list (map ?f [0..<k])"
    have v: "take L (drop k data) = map ((!) data) [k..<k + L]"
      using k n by (intro nth_equalityI) auto
    then have "add4 (accumulate (take L (drop k data)) s) = sum_list (map ?f [0..<k]) + sum_list (map ?f [k..<k + L])"
      using acc [of "take L (drop k data)" s] s k n by (simp add: o_def)
    then show "\<exists>s'. (Inr (accumulate (take L (drop k data)) s) :: pg_error + u64 list) = Inr s' \<and>
        length s' = 4 \<and> add4 s' = sum_list (map ?f [0..<k + L])"
      using acc [of "take L (drop k data)" s] s k n by (simp add: upt_add_eq_append [of 0 k L])
  qed (use L n in \<open>auto simp: add4_def\<close>)
  then obtain p where p: "lane_loop L (\<lambda>v s. Inr (accumulate v s)) data ?n 0 [0, 0, 0, 0] = Some (Inr (?k, p))"
      "add4 p = sum_list (map ?f [0..<?k])" by blast
  have rest: "sum_rows (+) widen c data [?k..<?n] (add4 p) =
                Some (add4 p + sum_list (map ?f (live_rows c [?k..<?n])))"
    using sum_rows_eq [OF c len, of "[?k..<?n]" "(+)" widen "add4 p"] n by (simp add: fold_plus_sum_list)
  have "[0..<?n] = [0..<?k] @ [?k..<?n]"
    using upt_add_eq_append [of 0 ?k "?n - ?k"] by simp
  then have "sum_list (map ?f (live_rows c (active b))) =
      sum_list (map ?f (live_rows c [0..<?k])) + sum_list (map ?f (live_rows c [?k..<?n]))"
    using sel by (simp add: active_def)
  then show ?thesis
    using p rest subtract_nulls_eq [OF c len n(2), of widen L] sum_list_split_filter [of ?f "[0..<?k]" "col_null c"]
    by (simp add: sum_simd_def live_rows_def algebra_simps)
qed

text \<open>The values a column contributes to an aggregate, as integers.\<close>

definition column_ints :: "VectorBatch \<Rightarrow> int \<Rightarrow> int list" where
  "column_ints b k =
     (case batch_column b k of
        Some (Inr c) \<Rightarrow>
          (case vc_data c of
             Data64 xs \<Rightarrow> map (\<lambda>i. sint (xs ! i)) (live_rows c (active b))
           | Data32 xs \<Rightarrow> map (\<lambda>i. sint (xs ! i)) (live_rows c (active b))
           | Data8 xs \<Rightarrow> [])
      | _ \<Rightarrow> [])"

text \<open>\<open>int_typed t b k\<close>: column \<open>k\<close> of the well-formed batch is initialised and of the integer type \<open>t\<close>.\<close>

definition int_typed :: "VectorizedDataType \<Rightarrow> VectorBatch \<Rightarrow> int \<Rightarrow> bool" where
  "int_typed t b k =
     (batch_wf b \<and> t \<in> {VECTORIZED_TYPE_INT64, VECTORIZED_TYPE_TIMESTAMP, VECTORIZED_TYPE_INT32, VECTORIZED_TYPE_DATE} \<and>
      (case batch_column b k of Some (Inr c) \<Rightarrow> vc_data_type c = t | _ \<Rightarrow> False))"

lemma int_typedE:
  assumes "int_typed t b k"
  obtains (wide) c data where "batch_wf b" "batch_column b k = Some (Inr c)" "column_wf (vb_capacity b) c"
      "t = VECTORIZED_TYPE_INT64 \<or> t = VECTORIZED_TYPE_TIMESTAMP" "vc_data c = Data64 data" "length data = vb_capacity b"
      "column_ints b k = map (\<lambda>i. sint (data ! i)) (live_rows c (active b))"
  | (narrow) c data where "batch_wf b" "batch_column b k = Some (Inr c)" "column_wf (vb_capacity b) c"
      "t = VECTORIZED_TYPE_INT32 \<or> t = VECTORIZED_TYPE_DATE" "vc_data c = Data32 data" "length data = vb_capacity b"
      "column_ints b k = map (\<lambda>i. sint (data ! i)) (live_rows c (active b))"
proof -
  obtain c where c: "batch_wf b" "batch_column b k = Some (Inr c)" "vc_data_type c = t"
    using assms by (auto simp: int_typed_def split: option.splits sum.splits)
  have cw: "column_wf (vb_capacity b) c" by (rule batch_column_wf [OF c(1,2)])
  show thesis
  proof (cases "vc_data c")
    case (Data64 xs)
    then have "t = VECTORIZED_TYPE_INT64 \<or> t = VECTORIZED_TYPE_TIMESTAMP" "length xs = vb_capacity b"
      using assms cw c(3) by (auto simp: int_typed_def column_wf_def data_fits_def)
    with wide [OF c(1,2) cw _ Data64] c Data64 show thesis by (simp add: column_ints_def)
  next
    case (Data32 xs)
    then have "t = VECTORIZED_TYPE_INT32 \<or> t = VECTORIZED_TYPE_DATE" "length xs = vb_capacity b"
      using assms cw c(3) by (auto simp: int_typed_def column_wf_def data_fits_def)
    with narrow [OF c(1,2) cw _ Data32] c Data32 show thesis by (simp add: column_ints_def)
  next
    case (Data8 xs)
    then show thesis using assms cw c(3) by (auto simp: int_typed_def column_wf_def data_fits_def)
  qed
qed

lemma word_of_int_sum_list: "word_of_int (sum_list xs) = sum_list (map word_of_int xs)"
  by (induction xs) simp_all

lemma accumulate_int64:
  assumes "length v = 4" and "length s = 4"
  shows "length (map2 (+) s v) = 4 \<and> add4 (map2 (+) s v) = add4 s + sum_list (map id v)"
proof -
  obtain a0 a1 a2 a3 where "v = [a0, a1, a2, a3]" using assms(1) by (auto simp: eval_nat_numeral length_Suc_conv)
  moreover obtain s0 s1 s2 s3 where "s = [s0, s1, s2, s3]" using assms(2) by (auto simp: eval_nat_numeral length_Suc_conv)
  ultimately show ?thesis by (simp add: add4_def eval_nat_numeral algebra_simps)
qed

lemma accumulate_int32:
  fixes v :: "u32 list" and s :: "u64 list"
  assumes "length v = 8" and "length s = 4"
  shows "length (map2 (+) (map2 (+) s (map scast (take 4 v))) (map scast (drop 4 v))) = 4 \<and>
         add4 (map2 (+) (map2 (+) s (map scast (take 4 v))) (map scast (drop 4 v))) =
           add4 s + sum_list (map scast v)"
proof -
  obtain a0 a1 a2 a3 a4 a5 a6 a7 where "v = [a0, a1, a2, a3, a4, a5, a6, a7]"
    using assms(1) by (auto simp: eval_nat_numeral length_Suc_conv)
  moreover obtain s0 s1 s2 s3 where "s = [s0, s1, s2, s3]" using assms(2) by (auto simp: eval_nat_numeral length_Suc_conv)
  ultimately show ?thesis by (simp add: add4_def eval_nat_numeral algebra_simps)
qed

lemma sum_int64_eq:
  assumes wf: "batch_wf b" and c: "batch_column b k = Some (Inr c)" "column_wf (vb_capacity b) c"
    and data: "vc_data c = Data64 data" "length data = vb_capacity b"
  shows "vectorized_sum_int64 avx2 b k = Some (Inr (sum_list (map (\<lambda>i. data ! i) (live_rows c (active b)))))"
proof -
  have "sum_scalar (+) id 0 b c data = Some (sum_list (map (\<lambda>i. data ! i) (live_rows c (active b))))"
    using sum_scalar_eq [OF wf c(2) data(2), of "(+)" id 0] by (simp add: fold_plus_sum_list)
  moreover have "\<not> vb_has_selection b \<Longrightarrow>
      sum_simd (+) (-) id 4 (\<lambda>v s. map2 (+) s v) add4 0 b c data =
        Some (sum_list (map (\<lambda>i. data ! i) (live_rows c (active b))))"
    using sum_simd_eq [OF wf _ c(2) data(2), of 4 "\<lambda>v s. map2 (+) s v" id] accumulate_int64 by simp
  ultimately show ?thesis
    using data(1) by (simp add: vectorized_sum_int64_def c(1) sum_int64_avx2_def sum_int64_scalar_def)
qed

lemma sum_int32_eq:
  assumes wf: "batch_wf b" and c: "batch_column b k = Some (Inr c)" "column_wf (vb_capacity b) c"
    and data: "vc_data c = Data32 data" "length data = vb_capacity b"
  shows "vectorized_sum_int32 avx2 b k = Some (Inr (sum_list (map (\<lambda>i. scast (data ! i)) (live_rows c (active b)))))"
proof -
  have "sum_scalar (+) (scast :: u32 \<Rightarrow> u64) 0 b c data =
          Some (sum_list (map (\<lambda>i. scast (data ! i)) (live_rows c (active b))))"
    using sum_scalar_eq [OF wf c(2) data(2), of "(+)" scast 0] by (simp add: fold_plus_sum_list)
  moreover have "\<not> vb_has_selection b \<Longrightarrow>
      sum_simd (+) (-) scast 8 (\<lambda>v s. map2 (+) (map2 (+) s (map scast (take 4 v))) (map scast (drop 4 v))) add4 0 b c data =
        Some (sum_list (map (\<lambda>i. scast (data ! i)) (live_rows c (active b))))"
    by (rule sum_simd_eq [OF wf _ c(2) data(2)]) (assumption, simp, rule accumulate_int32)
  ultimately show ?thesis
    using data(1) by (simp add: vectorized_sum_int32_def c(1))
qed

text \<open>Both integer sums are the sum of the values modulo $2^{64}$, with and without SIMD.\<close>

lemma sum_column:
  assumes "int_typed t b k"
  shows "(t = VECTORIZED_TYPE_INT64 \<or> t = VECTORIZED_TYPE_TIMESTAMP \<longrightarrow>
            vectorized_sum_int64 avx2 b k = Some (Inr (word_of_int (sum_list (column_ints b k))))) \<and>
         (t = VECTORIZED_TYPE_INT32 \<or> t = VECTORIZED_TYPE_DATE \<longrightarrow>
            vectorized_sum_int32 avx2 b k = Some (Inr (word_of_int (sum_list (column_ints b k)))))"
  using assms
proof (cases rule: int_typedE)
  case (wide c data)
  then have "map word_of_int (column_ints b k) = map (\<lambda>i. data ! i) (live_rows c (active b))"
    by (simp add: o_def)
  with wide(4) sum_int64_eq [OF wide(1-3,5,6), of avx2] show ?thesis by (auto simp: word_of_int_sum_list)
next
  case (narrow c data)
  have "(scast (data ! i) :: u64) = word_of_int (sint (data ! i))" for i
    by (rule scast_eq)
  with narrow(7) have "map word_of_int (column_ints b k) = map (\<lambda>i. (scast (data ! i) :: u64)) (live_rows c (active b))"
    by (simp only: map_map o_def)
  with narrow(4) sum_int32_eq [OF narrow(1-3,5,6), of avx2] show ?thesis by (auto simp: word_of_int_sum_list)
qed

section \<open>Counts, minima and maxima over the selected rows\<close>

lemma find_column_batch: "batch_column b k = Some (Inr c) \<Longrightarrow> find_column b k = Some (Some c)"
  by (auto simp: batch_column_def find_column_def split: if_splits option.splits)

lemma count_column:
  assumes "int_typed t b k"
  shows "vectorized_count_column b k = Some (length (column_ints b k))"
proof -
  obtain c where wf: "batch_wf b" and c: "batch_column b k = Some (Inr c)" and cw: "column_wf (vb_capacity b) c"
      and vals: "length (column_ints b k) = length (live_rows c (active b))"
    using assms by (cases rule: int_typedE) auto
  have "fold_opt (\<lambda>i n. do { isnull \<leftarrow> null_bit c i; Some (if isnull then n else Suc n) }) rows m =
          Some (m + length (live_rows c rows))"
    if "vc_has_nulls c" and "\<forall>i \<in> set rows. i < vb_capacity b" for rows m
    using that(2)
    by (induction rows arbitrary: m) (auto simp: null_bit_eq [OF cw] col_null_def that(1))
  moreover have "\<not> vc_has_nulls c \<Longrightarrow> live_rows c (active b) = active b"
    by (simp add: live_rows_def col_null_def)
  moreover have "vectorized_count b = length (active b)"
    using wf by (auto simp: vectorized_count_def active_def batch_wf_def)
  ultimately show ?thesis
    using active_less_capacity [OF wf]
    by (simp add: vectorized_count_column_def find_column_batch [OF c] batch_rows_active [OF wf] vals)
qed

text \<open>The better of two values is the one with the smaller key: the value itself for the minimum, its negative
  for the maximum.\<close>

lemma best_fold:
  fixes key :: "'w \<Rightarrow> int"
  assumes "fold (\<lambda>x (val, found). if key x < key val then (x, True) else (val, found)) xs (z, f0) = (r, f)"
  shows "(f \<longleftrightarrow> f0 \<or> (\<exists>x \<in> set xs. key x < key z)) \<and> r \<in> insert z (set xs) \<and>
         (\<forall>x \<in> insert z (set xs). key r \<le> key x)"
  using assms
proof (induction xs arbitrary: z f0)
  case (Cons x xs)
  show ?case
  proof (cases "key x < key z")
    case True
    with Cons.prems Cons.IH [of x True] show ?thesis by force
  next
    case False
    with Cons.prems Cons.IH [of z f0] show ?thesis by force
  qed
qed auto

lemma best_rows_eq:
  assumes "column_wf cap c" and "length data = cap" and "\<forall>i \<in> set rows. i < cap"
  shows "best_rows better c data rows s =
           Some (fold (\<lambda>x (val, found). if better x val then (x, True) else (val, found))
                   (map (\<lambda>i. data ! i) (live_rows c rows)) s)"
  using assms(3)
proof (induction rows arbitrary: s)
  case (Cons i rows)
  obtain val found where s: "s = (val, found)" by (cases s)
  have "row_null c i = Some (col_null c i)" "i < length data"
    using Cons.prems assms(1,2) by (auto simp: row_null_eq)
  then show ?case using Cons by (simp add: best_rows_def array_get_less s)
qed (simp add: best_rows_def)

text \<open>\<open>best_so_far I h m seen\<close>: what the running state knows after the values \<open>seen\<close>, none of them above the
  initial value \<open>I\<close> of the loops: \<open>h\<close> whether one of them is below \<open>I\<close>, and then \<open>m\<close> the least of them.\<close>

definition best_so_far :: "int \<Rightarrow> bool \<Rightarrow> int \<Rightarrow> int set \<Rightarrow> bool" where
  "best_so_far I h m seen =
     ((\<forall>v \<in> seen. v \<le> I) \<and> (h \<longleftrightarrow> (\<exists>v \<in> seen. v < I)) \<and> (h \<longrightarrow> m \<in> seen \<and> (\<forall>v \<in> seen. m \<le> v)))"

lemma best_so_far_union:
  assumes "best_so_far I h m seen" and "best_so_far I found val vs"
  shows "best_so_far I (h \<or> found) (if found \<and> (\<not> h \<or> val < m) then val else m) (seen \<union> vs)"
proof -
  have le: "\<forall>v \<in> seen. v \<le> I" "\<forall>v \<in> vs. v \<le> I"
    and h: "h \<longleftrightarrow> (\<exists>v \<in> seen. v < I)" "found \<longleftrightarrow> (\<exists>v \<in> vs. v < I)"
    and m: "h \<Longrightarrow> m \<in> seen \<and> (\<forall>v \<in> seen. m \<le> v)" "found \<Longrightarrow> val \<in> vs \<and> (\<forall>v \<in> vs. val \<le> v)"
    using assms by (auto simp: best_so_far_def)
  have above: "h \<Longrightarrow> m \<le> I" "found \<Longrightarrow> val \<le> I" using m le by auto
  have none: "\<not> h \<Longrightarrow> v \<in> seen \<Longrightarrow> v = I" "\<not> found \<Longrightarrow> v \<in> vs \<Longrightarrow> v = I" for v
    using h le by (metis order_le_less)+
  let ?r = "if found \<and> (\<not> h \<or> val < m) then val else m"
  have "?r \<in> seen \<union> vs" if "h \<or> found" using that m by auto
  moreover have "?r \<le> v" if "h \<or> found" and "v \<in> seen \<union> vs" for v
    using that m above none [of v] by (cases "v \<in> seen"; cases h; cases found) force+
  ultimately show ?thesis using le h by (auto simp: best_so_far_def)
qed

lemma best_so_far_Min: "finite seen \<Longrightarrow> best_so_far I h m seen \<Longrightarrow> h \<Longrightarrow> m = Min seen"
  by (auto simp: best_so_far_def intro: Min_eqI [symmetric])

lemma best_of_batch_eq:
  fixes key :: "u64 \<Rightarrow> int" and dir :: int
  assumes col: "int_typed t b k" and t: "t = VECTORIZED_TYPE_INT64 \<or> t = VECTORIZED_TYPE_TIMESTAMP"
    and better: "better = (\<lambda>x y. key x < key y)" and top: "\<And>x. key x \<le> key init"
    and key: "\<And>x. key x = dir * sint x"
  shows "\<exists>val found. best_of_batch better init b k = Some (val, found) \<and>
           best_so_far (key init) found (key val) ((\<lambda>v. dir * v) ` set (column_ints b k))"
  using col
proof (cases rule: int_typedE)
  case (wide c data)
  let ?xs = "map (\<lambda>i. data ! i) (live_rows c (active b))"
  obtain val found where r: "fold (\<lambda>x (val, found). if key x < key val then (x, True) else (val, found)) ?xs (init, False) = (val, found)"
    by fastforce
  have "best_of_batch better init b k = Some (val, found)"
    using best_rows_eq [OF wide(3,6), of "active b" better "(init, False)"] active_less_capacity [OF wide(1)] wide(5) r
    by (simp add: best_of_batch_def find_column_batch [OF wide(2)] batch_rows_active [OF wide(1)] better)
  moreover have "(\<lambda>v. dir * v) ` set (column_ints b k) = key ` set ?xs"
    using wide(7) by (simp add: image_image key)
  moreover have "best_so_far (key init) found (key val) (key ` set ?xs)"
  proof -
    from best_fold [OF r] have f: "found \<longleftrightarrow> (\<exists>x \<in> set ?xs. key x < key init)"
      and val: "val \<in> insert init (set ?xs)" and least: "\<forall>x \<in> insert init (set ?xs). key val \<le> key x" by auto
    have "found \<Longrightarrow> key val \<in> key ` set ?xs"
      using f val least by (metis image_eqI insertE insertI2 leD)
    with f least show ?thesis using top by (auto simp: best_so_far_def)
  qed
  ultimately show ?thesis by auto
qed (use t in auto)

lemma sint_u64_range: "- 9223372036854775808 \<le> sint (x :: u64)" "sint (x :: u64) \<le> 9223372036854775807"
  using sint_greater_eq [of x] sint_less [of x] by simp_all

lemma sint_INT64: "sint (INT64_MAX) = 9223372036854775807" "sint (INT64_MIN) = - 9223372036854775808"
  by simp_all

lemma min_of_batch:
  assumes "int_typed t b k" and "t = VECTORIZED_TYPE_INT64 \<or> t = VECTORIZED_TYPE_TIMESTAMP"
  shows "\<exists>val found. vectorized_min_int64 b k = Some (val, found) \<and>
           best_so_far 9223372036854775807 found (sint val) (set (column_ints b k))"
  using best_of_batch_eq [OF assms, of "\<lambda>x y. sint x < sint y" sint INT64_MAX 1] sint_u64_range
  by (simp add: vectorized_min_int64_def)

lemma max_of_batch:
  assumes "int_typed t b k" and "t = VECTORIZED_TYPE_INT64 \<or> t = VECTORIZED_TYPE_TIMESTAMP"
  shows "\<exists>val found. vectorized_max_int64 b k = Some (val, found) \<and>
           best_so_far 9223372036854775808 found (- sint val) (uminus ` set (column_ints b k))"
proof -
  have "- sint x \<le> - sint INT64_MIN" for x :: u64 using sint_u64_range(1) [of x] by (simp add: sint_INT64)
  then obtain val found where "best_of_batch (\<lambda>x y. sint x > sint y) INT64_MIN b k = Some (val, found)"
      "best_so_far (- sint INT64_MIN) found (- sint val) ((\<lambda>v. - 1 * v) ` set (column_ints b k))"
    using best_of_batch_eq [OF assms, of "\<lambda>x y. sint x > sint y" "\<lambda>x. - sint x" INT64_MIN "- 1"]
    by (metis (no_types, lifting) mult_minus1 neg_less_iff_less)
  moreover have "(\<lambda>v::int. - 1 * v) = uminus" by auto
  ultimately show ?thesis by (simp only: vectorized_max_int64_def sint_INT64 minus_minus) blast
qed

section \<open>Aggregates over many batches\<close>

text \<open>The state that is updated with one batch after the other, from the zeros of \<^verbatim>\<open>palloc0\<close>.\<close>

fun agg_batches :: "double_ops \<Rightarrow> bool \<Rightarrow> VectorizedAggState \<Rightarrow> VectorBatch list \<Rightarrow> VectorizedAggState outcome" where
  "agg_batches fp avx2 s [] = Some (Inr s)"
| "agg_batches fp avx2 s (b # bs) =
     (case vectorized_agg_update fp avx2 s b of
        None \<Rightarrow> None
      | Some (Inl e) \<Rightarrow> Some (Inl e)
      | Some (Inr s') \<Rightarrow> agg_batches fp avx2 s' bs)"

definition agg_start :: "VectorizedAggType \<Rightarrow> int \<Rightarrow> VectorizedDataType \<Rightarrow> VectorizedAggState" where
  "agg_start a k t = \<lparr>va_agg_type = a, va_column_index = k, va_data_type = t, va_count = 0, va_sum_int64 = 0,
     va_sum_float64 = 0, va_min_int64 = 0, va_max_int64 = 0, va_min_float64 = 0, va_max_float64 = 0,
     va_has_value = False\<rparr>"

lemma agg_batches_induct:
  assumes "P s vs" and "list_all Q bs"
    and "\<And>s vs b. P s vs \<Longrightarrow> Q b \<Longrightarrow> \<exists>s'. vectorized_agg_update fp avx2 s b = Some (Inr s') \<and> P s' (vs @ f b)"
  shows "\<exists>s'. agg_batches fp avx2 s bs = Some (Inr s') \<and> P s' (vs @ concat (map f bs))"
  using assms(1,2)
proof (induction bs arbitrary: s vs)
  case (Cons b bs)
  then obtain s' where "vectorized_agg_update fp avx2 s b = Some (Inr s')" "P s' (vs @ f b)"
    using assms(3) [of s vs b] by auto
  with Cons.IH [of s' "vs @ f b"] Cons.prems show ?case by simp
qed simp

lemma sum_update:
  assumes "int_typed t b k" and s: "va_agg_type s = VECTORIZED_AGG_SUM" "va_column_index s = k" "va_data_type s = t"
  shows "vectorized_agg_update fp avx2 s b =
           Some (Inr (s\<lparr>va_sum_int64 := va_sum_int64 s + word_of_int (sum_list (column_ints b k)), va_has_value := True\<rparr>))"
proof -
  have "t \<in> {VECTORIZED_TYPE_INT64, VECTORIZED_TYPE_TIMESTAMP, VECTORIZED_TYPE_INT32, VECTORIZED_TYPE_DATE}"
    using assms(1) by (simp add: int_typed_def)
  with sum_column [OF assms(1), of avx2] s show ?thesis
    by (auto simp: vectorized_agg_update_def add_int_sum_def)
qed

lemma sum_over_batches:
  assumes cols: "list_all (\<lambda>b. int_typed t b k) bs"
  shows "\<exists>s. agg_batches fp avx2 (agg_start VECTORIZED_AGG_SUM k t) bs = Some (Inr s) \<and>
             vectorized_agg_finalize fp s =
               (if bs = [] then None else Some (word_of_int (sum_list (concat (map (\<lambda>b. column_ints b k) bs)))))"
proof (cases bs)
  case Nil
  then show ?thesis by (simp add: agg_start_def vectorized_agg_finalize_def)
next
  case (Cons b bs')
  let ?P = "\<lambda>s vs. va_agg_type s = VECTORIZED_AGG_SUM \<and> va_column_index s = k \<and> va_data_type s = t \<and>
              va_sum_int64 s = word_of_int (sum_list vs) \<and> va_has_value s"
  have b: "int_typed t b k" and bs': "list_all (\<lambda>b. int_typed t b k) bs'" using cols Cons by auto
  have s1: "vectorized_agg_update fp avx2 (agg_start VECTORIZED_AGG_SUM k t) b =
      Some (Inr ((agg_start VECTORIZED_AGG_SUM k t)\<lparr>va_sum_int64 := word_of_int (sum_list (column_ints b k)), va_has_value := True\<rparr>))"
    using sum_update [OF b, of "agg_start VECTORIZED_AGG_SUM k t"] by (simp add: agg_start_def)
  have "\<exists>s. agg_batches fp avx2 (agg_start VECTORIZED_AGG_SUM k t) bs = Some (Inr s) \<and>
            ?P s (column_ints b k @ concat (map (\<lambda>b. column_ints b k) bs'))"
    unfolding Cons agg_batches.simps s1 option.case sum.case
    by (rule agg_batches_induct [OF _ bs']) (auto simp: agg_start_def sum_update)
  moreover have "t \<in> {VECTORIZED_TYPE_INT64, VECTORIZED_TYPE_TIMESTAMP, VECTORIZED_TYPE_INT32, VECTORIZED_TYPE_DATE}"
    using b by (simp add: int_typed_def)
  ultimately obtain s where s: "agg_batches fp avx2 (agg_start VECTORIZED_AGG_SUM k t) bs = Some (Inr s)"
      "vectorized_agg_finalize fp s =
         Some (word_of_int (sum_list (column_ints b k @ concat (map (\<lambda>b. column_ints b k) bs'))))"
    unfolding vectorized_agg_finalize_def by fastforce
  have "concat (map (\<lambda>b. column_ints b k) bs) = column_ints b k @ concat (map (\<lambda>b. column_ints b k) bs')"
    by (simp add: Cons)
  with s Cons show ?thesis by (metis list.distinct(1))
qed

lemma count_over_batches:
  assumes cols: "list_all (\<lambda>b. int_typed t b k) bs"
  shows "\<exists>s. agg_batches fp avx2 (agg_start VECTORIZED_AGG_COUNT k t) bs = Some (Inr s) \<and>
             vectorized_agg_finalize fp s = Some (word_of_nat (length (concat (map (\<lambda>b. column_ints b k) bs))))"
proof -
  let ?P = "\<lambda>s vs. va_agg_type s = VECTORIZED_AGG_COUNT \<and> va_column_index s = k \<and> va_count s = word_of_nat (length vs)"
  have "\<not> k < 0" if "int_typed t b k" for b
    using that by (auto simp: int_typed_def batch_column_def split: if_splits)
  then have "\<exists>s. agg_batches fp avx2 (agg_start VECTORIZED_AGG_COUNT k t) bs = Some (Inr s) \<and>
            ?P s ([] @ concat (map (\<lambda>b. column_ints b k) bs))"
    by (intro agg_batches_induct [OF _ cols])
       (auto simp: agg_start_def vectorized_agg_update_def count_column)
  then show ?thesis by (auto simp: vectorized_agg_finalize_def)
qed

lemma word_of_int_sint: "word_of_int (sint w) = w" for w :: "'a::len word"
  by simp

lemma min_over_batches:
  assumes cols: "list_all (\<lambda>b. int_typed t b k) bs" and t: "t = VECTORIZED_TYPE_INT64 \<or> t = VECTORIZED_TYPE_TIMESTAMP"
    and vs: "vs = concat (map (\<lambda>b. column_ints b k) bs)"
  shows "\<exists>s. agg_batches fp avx2 (agg_start VECTORIZED_AGG_MIN k t) bs = Some (Inr s) \<and>
             vectorized_agg_finalize fp s =
               (if \<exists>v \<in> set vs. v < 9223372036854775807 then Some (word_of_int (Min (set vs))) else None)"
proof -
  let ?P = "\<lambda>s vs. va_agg_type s = VECTORIZED_AGG_MIN \<and> va_column_index s = k \<and> va_data_type s = t \<and>
              best_so_far 9223372036854775807 (va_has_value s) (sint (va_min_int64 s)) (set vs)"
  have "\<exists>s'. vectorized_agg_update fp avx2 s b = Some (Inr s') \<and> ?P s' (vs @ column_ints b k)"
    if P: "?P s vs" and b: "int_typed t b k" for s vs b
  proof -
    obtain val found where r: "vectorized_min_int64 b k = Some (val, found)"
        "best_so_far 9223372036854775807 found (sint val) (set (column_ints b k))"
      using min_of_batch [OF b t] by blast
    have "best_so_far 9223372036854775807 (va_has_value s \<or> found)
        (if found \<and> (\<not> va_has_value s \<or> sint val < sint (va_min_int64 s)) then sint val else sint (va_min_int64 s))
        (set vs \<union> set (column_ints b k))"
      using P by (intro best_so_far_union [OF _ r(2)]) simp
    with P r(1) t show ?thesis
      by (auto simp: vectorized_agg_update_def agg_min_def split: if_splits)
  qed
  then have "\<exists>s. agg_batches fp avx2 (agg_start VECTORIZED_AGG_MIN k t) bs = Some (Inr s) \<and> ?P s ([] @ vs)"
    unfolding vs by (intro agg_batches_induct [OF _ cols]) (simp_all add: agg_start_def best_so_far_def)
  then obtain s where s: "agg_batches fp avx2 (agg_start VECTORIZED_AGG_MIN k t) bs = Some (Inr s)" "?P s vs"
    by auto
  then have "va_has_value s \<Longrightarrow> va_min_int64 s = word_of_int (Min (set vs))"
    using best_so_far_Min [of "set vs"] by (metis List.finite_set word_of_int_sint)
  moreover have h: "va_has_value s \<longleftrightarrow> (\<exists>v \<in> set vs. v < 9223372036854775807)"
    using s(2) unfolding best_so_far_def by blast
  ultimately have "vectorized_agg_finalize fp s =
      (if \<exists>v \<in> set vs. v < 9223372036854775807 then Some (word_of_int (Min (set vs))) else None)"
    using s(2) t unfolding h [symmetric] by (auto simp: vectorized_agg_finalize_def)
  with s(1) show ?thesis by blast
qed

lemma Max_uminus: "finite A \<Longrightarrow> A \<noteq> {} \<Longrightarrow> Max A = - Min (uminus ` A)" for A :: "int set"
  by (simp add: minus_Min_eq_Max image_image)

lemma max_over_batches:
  assumes cols: "list_all (\<lambda>b. int_typed t b k) bs" and t: "t = VECTORIZED_TYPE_INT64 \<or> t = VECTORIZED_TYPE_TIMESTAMP"
    and vs: "vs = concat (map (\<lambda>b. column_ints b k) bs)"
  shows "\<exists>s. agg_batches fp avx2 (agg_start VECTORIZED_AGG_MAX k t) bs = Some (Inr s) \<and>
             vectorized_agg_finalize fp s =
               (if \<exists>v \<in> set vs. - 9223372036854775808 < v then Some (word_of_int (Max (set vs))) else None)"
proof -
  let ?P = "\<lambda>s vs. va_agg_type s = VECTORIZED_AGG_MAX \<and> va_column_index s = k \<and> va_data_type s = t \<and>
              best_so_far 9223372036854775808 (va_has_value s) (- sint (va_max_int64 s)) (uminus ` set vs)"
  have "\<exists>s'. vectorized_agg_update fp avx2 s b = Some (Inr s') \<and> ?P s' (vs @ column_ints b k)"
    if P: "?P s vs" and b: "int_typed t b k" for s vs b
  proof -
    obtain val found where r: "vectorized_max_int64 b k = Some (val, found)"
        "best_so_far 9223372036854775808 found (- sint val) (uminus ` set (column_ints b k))"
      using max_of_batch [OF b t] by blast
    have "best_so_far 9223372036854775808 (va_has_value s \<or> found)
        (if found \<and> (\<not> va_has_value s \<or> - sint val < - sint (va_max_int64 s)) then - sint val
         else - sint (va_max_int64 s))
        (uminus ` set vs \<union> uminus ` set (column_ints b k))"
      using P by (intro best_so_far_union [OF _ r(2)]) simp
    with P r(1) t show ?thesis
      by (auto simp: vectorized_agg_update_def agg_max_def image_Un split: if_splits)
  qed
  then have "\<exists>s. agg_batches fp avx2 (agg_start VECTORIZED_AGG_MAX k t) bs = Some (Inr s) \<and> ?P s ([] @ vs)"
    unfolding vs by (intro agg_batches_induct [OF _ cols]) (simp_all add: agg_start_def best_so_far_def)
  then obtain s where s: "agg_batches fp avx2 (agg_start VECTORIZED_AGG_MAX k t) bs = Some (Inr s)" "?P s vs"
    by auto
  then have "va_has_value s \<Longrightarrow> - sint (va_max_int64 s) = Min (uminus ` set vs)"
    using best_so_far_Min [of "uminus ` set vs"] by auto
  moreover have h: "va_has_value s \<longleftrightarrow> (\<exists>v \<in> set vs. - 9223372036854775808 < v)"
    using s(2) minus_less_iff [of "9223372036854775808::int"] unfolding best_so_far_def by auto
  ultimately have "va_has_value s \<Longrightarrow> va_max_int64 s = word_of_int (Max (set vs))"
    using Max_uminus [of "set vs"]
    by (metis List.finite_set add.inverse_inverse empty_iff word_of_int_sint)
  then have "vectorized_agg_finalize fp s =
      (if \<exists>v \<in> set vs. - 9223372036854775808 < v then Some (word_of_int (Max (set vs))) else None)"
    using s(2) t unfolding h [symmetric] by (auto simp: vectorized_agg_finalize_def)
  with s(1) show ?thesis by blast
qed

text \<open>C22: SUM and COUNT over any number of batches, with and without SIMD, with and without a selection: the
  result is the sum modulo $2^{64}$ and the number of the values of the selected rows that are not NULL, for the
  64-bit and the 32-bit integer types. No step leaves an array or fails.\<close>

theorem sum_and_count_over_batches:
  assumes "list_all (\<lambda>b. int_typed t b k) bs" and "bs \<noteq> []" and "vs = concat (map (\<lambda>b. column_ints b k) bs)"
  shows "(\<exists>s. agg_batches fp avx2 (agg_start VECTORIZED_AGG_SUM k t) bs = Some (Inr s) \<and>
              vectorized_agg_finalize fp s = Some (word_of_int (sum_list vs))) \<and>
         (\<exists>s. agg_batches fp avx2 (agg_start VECTORIZED_AGG_COUNT k t) bs = Some (Inr s) \<and>
              vectorized_agg_finalize fp s = Some (word_of_nat (length vs)))"
  using sum_over_batches [OF assms(1)] count_over_batches [OF assms(1)] assms(2,3) by auto

lemma sample_ints: "int_typed VECTORIZED_TYPE_INT64 sample_batch 0 \<and> column_ints sample_batch 0 = [5, 7, 9]"
proof
  show "int_typed VECTORIZED_TYPE_INT64 sample_batch 0"
    using sample_batch_wf by (simp add: int_typed_def sample_batch_def batch_column_def array_get_def)
  show "column_ints sample_batch 0 = [5, 7, 9]"
    by (simp add: column_ints_def sample_batch_def batch_column_def array_get_def active_def live_rows_def col_null_def)
qed

theorem sum_and_count_over_batches_witness:
  "\<forall>fp. (\<exists>s. agg_batches fp True (agg_start VECTORIZED_AGG_SUM 0 VECTORIZED_TYPE_INT64) [sample_batch, sample_batch] =
          Some (Inr s) \<and> vectorized_agg_finalize fp s = Some 42) \<and>
   (\<exists>s. agg_batches fp True (agg_start VECTORIZED_AGG_COUNT 0 VECTORIZED_TYPE_INT64) [sample_batch, sample_batch] =
          Some (Inr s) \<and> vectorized_agg_finalize fp s = Some 6)"
  using sum_and_count_over_batches [of VECTORIZED_TYPE_INT64 0 "[sample_batch, sample_batch]" "[5, 7, 9, 5, 7, 9]" _ True]
  by (simp add: sample_ints)

text \<open>MIN and MAX of 64-bit integers over any number of batches are the minimum and the maximum of the
  values of the selected rows that are not NULL, provided one of them is below the largest (above the smallest)
  64-bit integer; otherwise the result is NULL, also when the only values are that extreme one.\<close>

theorem min_and_max_over_batches:
  assumes "list_all (\<lambda>b. int_typed t b k) bs" and "t = VECTORIZED_TYPE_INT64 \<or> t = VECTORIZED_TYPE_TIMESTAMP"
    and "vs = concat (map (\<lambda>b. column_ints b k) bs)"
  shows "(\<exists>s. agg_batches fp avx2 (agg_start VECTORIZED_AGG_MIN k t) bs = Some (Inr s) \<and>
              vectorized_agg_finalize fp s =
                (if \<exists>v \<in> set vs. v < 9223372036854775807 then Some (word_of_int (Min (set vs))) else None)) \<and>
         (\<exists>s. agg_batches fp avx2 (agg_start VECTORIZED_AGG_MAX k t) bs = Some (Inr s) \<and>
              vectorized_agg_finalize fp s =
                (if \<exists>v \<in> set vs. - 9223372036854775808 < v then Some (word_of_int (Max (set vs))) else None))"
  using min_over_batches [OF assms] max_over_batches [OF assms] by blast

theorem min_and_max_over_batches_witness:
  "\<forall>fp. \<exists>s. agg_batches fp True (agg_start VECTORIZED_AGG_MIN 0 VECTORIZED_TYPE_INT64) [sample_batch] = Some (Inr s) \<and>
       vectorized_agg_finalize fp s = Some 5"
  using min_and_max_over_batches [of VECTORIZED_TYPE_INT64 0 "[sample_batch]" "[5, 7, 9]" _ True]
  by (simp add: sample_ints)

section \<open>Tuples\<close>

definition row_cell :: "VectorColumn option \<Rightarrow> nat \<Rightarrow> u64 option" where
  "row_cell c i =
     (case c of
        None \<Rightarrow> None
      | Some col \<Rightarrow>
          if col_null col i then None
          else Some (case vc_data col of Data64 xs \<Rightarrow> xs ! i | Data32 xs \<Rightarrow> scast (xs ! i)
                     | Data8 xs \<Rightarrow> if xs ! i \<noteq> 0 then 1 else 0))"

lemma map_opt_total: "\<forall>x \<in> set xs. f x = Some (g x) \<Longrightarrow> map_opt f xs = Some (map g xs)"
  by (induction xs) auto

lemma slot_value_eq:
  assumes "case c of None \<Rightarrow> True | Some col \<Rightarrow> column_wf cap col" and "i < cap"
  shows "slot_value c i = Some (row_cell c i)"
proof (cases c)
  case None
  then show ?thesis by (simp add: slot_value_def row_cell_def)
next
  case (Some col)
  then have cw: "column_wf cap col" using assms(1) by simp
  then have "column_datum col i = Some (case vc_data col of Data64 xs \<Rightarrow> xs ! i | Data32 xs \<Rightarrow> scast (xs ! i)
                     | Data8 xs \<Rightarrow> if xs ! i \<noteq> 0 then 1 else 0)"
    using assms(2)
    by (auto simp: column_datum_def column_wf_def data_fits_def array_get_less split: column_data.splits)
  then show ?thesis using row_null_eq [OF cw assms(2)] Some by (simp add: slot_value_def row_cell_def)
qed

lemma slots_are_rows:
  assumes wf: "batch_wf b"
  shows "vectorized_batch_to_slots b natts max_slots =
           Some (map (\<lambda>i. map (\<lambda>c. row_cell c i) (take natts (vb_columns b))) (take max_slots (active b)))"
proof -
  have "slot_value c i = Some (row_cell c i)" if "c \<in> set (take natts (vb_columns b))" "i < vb_capacity b" for c i
    using that wf by (intro slot_value_eq [where cap = "vb_capacity b"])
      (auto simp: batch_wf_def columns_wf_def list_all_iff dest: in_set_takeD)
  moreover have "i < vb_capacity b" if "i \<in> set (take max_slots (active b))" for i
    using that active_less_capacity [OF wf] by (auto dest: in_set_takeD)
  ultimately show ?thesis
    by (simp add: vectorized_batch_to_slots_def batch_rows_active [OF wf] map_opt_total)
qed

text \<open>The tuples delivered after a filter are exactly those of the rows the filter selects: the filter
  and the delivery compose to the selection of a relation, cut off at the number of slots.\<close>

theorem filtered_tuples:
  assumes wf: "batch_wf b" and ready: "filter_ready avx2 b f c"
  shows "\<exists>b'. vectorized_filter_generic avx2 b f = Some (Inr b') \<and>
              vectorized_batch_to_slots b' natts max_slots =
                Some (map (\<lambda>i. map (\<lambda>c. row_cell c i) (take natts (vb_columns b)))
                        (take max_slots (filter (filter_hit f c) (active b))))"
proof -
  obtain b' where "vectorized_filter_generic avx2 b f = Some (Inr b')" "batch_wf b'" "same_rows b b'"
      "active b' = filter (filter_hit f c) (active b)"
    using filter_generic_refines [OF wf ready] by (auto simp: filtered_def)
  then show ?thesis using slots_are_rows [of b' natts max_slots] by (auto simp: same_rows_def)
qed

theorem filtered_tuples_witness:
  "\<exists>b'. vectorized_filter_generic True sample_batch sample_filter = Some (Inr b') \<and>
        vectorized_batch_to_slots b' 1 10 = Some [[Some 7], [Some 9]]"
proof -
  obtain c where c: "filter_ready True sample_batch sample_filter c"
      "filter (filter_hit sample_filter c) (active sample_batch) = [1, 3]"
    using sample_column by blast
  have "map (\<lambda>i. map (\<lambda>c. row_cell c i) (take 1 (vb_columns sample_batch))) [1, 3] = [[Some 7], [Some 9]]"
    by (simp add: sample_batch_def row_cell_def col_null_def)
  with filtered_tuples [OF sample_batch_wf c(1), of 1 10] c(2) show ?thesis by simp
qed

end
