(* ===== verification/Vector_Scan.thy ===== *)
theory Vector_Scan
  imports Vector_Agg Columnar
begin

text \<open>
  The vectorized scan of a columnar table (\<^verbatim>\<open>executor/vectorized_scan.c\<close>): projection, loading of chunk groups
  into the batch, the loop over stripes and chunk groups, and predicate pushdown.

  A pass-by-reference Datum is stored in a batch as its address, \<open>ptr bytes\<close>. The catalog is the list of
  chunk rows with their stripe, chunk group and column, in the order of the keys.
\<close>

unbundle bit_operations_syntax

section \<open>Scan state\<close>

record ColumnarStripe =
  st_stripe_id :: int
  st_row_count :: nat
  st_chunk_group_count :: nat

text \<open>\<^verbatim>\<open>orochi_catalog_get_table_stripes\<close> derives the number of chunk groups from the rows of the stripe.\<close>

definition stripe_of_row :: "int \<Rightarrow> nat \<Rightarrow> ColumnarStripe" where
  "stripe_of_row stripe_id row_count =
     \<lparr>st_stripe_id = stripe_id, st_row_count = row_count,
      st_chunk_group_count = max 1 ((row_count + 9999) div 10000)\<rparr>"

text \<open>What \<^verbatim>\<open>orochi_catalog_get_stripe_columns\<close> fills in: the aliases \<^verbatim>\<open>compression_type\<close> and
  \<^verbatim>\<open>uncompressed_size\<close> keep the zeros of \<^verbatim>\<open>palloc0\<close>.\<close>

record OrochiColumnChunk =
  oc_column_index :: nat
  oc_value_count :: nat
  oc_has_nulls :: bool
  oc_compressed_size :: int
  oc_decompressed_size :: nat
  oc_uncompressed_size :: nat
  oc_compression :: OrochiCompressionType
  oc_compression_type :: OrochiCompressionType

type_synonym chunk_table = "((int \<times> nat \<times> nat) \<times> chunk_row) list"

definition orochi_catalog_get_stripe_columns :: "chunk_table \<Rightarrow> int \<Rightarrow> OrochiColumnChunk list" where
  "orochi_catalog_get_stripe_columns tab stripe_id =
     map (\<lambda>((_, _, col), r).
            \<lparr>oc_column_index = col, oc_value_count = row_value_count r, oc_has_nulls = row_has_nulls r,
             oc_compressed_size = row_compressed_size r, oc_decompressed_size = row_decompressed_size r,
             oc_uncompressed_size = 0, oc_compression = row_compression r,
             oc_compression_type = OROCHI_COMPRESS_NONE\<rparr>)
       (filter (\<lambda>((s, _, _), _). s = stripe_id) tab)"

record scan_env =
  en_stripes :: "ColumnarStripe list"
  en_chunks :: chunk_table
  en_store :: chunk_store
  en_skip_list :: "ColumnarSkipListEntry list option"
  en_attrs :: "attribute list"
  en_types :: "nat list"
  en_lib :: codec_libs
  en_fresh :: "nat \<Rightarrow> u8"
  en_ptr :: "bytes \<Rightarrow> u64"

text \<open>The chunk group in memory: its rows, which columns have metadata, and the column buffers that are loaded.
  A buffered value is \<^const>\<open>None\<close> where the buffer has NULL.\<close>

record ColumnarChunkGroup =
  cg_row_count :: nat
  cg_columns :: "bool list"
  cg_buffers :: "Datum option list option list"

record VectorizedScanState =
  vs_stripe_index :: int
  vs_stripe :: "ColumnarStripe option"
  vs_chunk_group_index :: nat
  vs_chunk_group :: "ColumnarChunkGroup option"
  vs_row_in_chunk :: nat
  vs_total_rows_read :: nat
  vs_projection_map :: "nat list"
  vs_batch :: VectorBatch
  vs_predicates :: "predicate list"
  vs_filters :: "VectorizedFilterState list"
  vs_batches_read :: nat
  vs_rows_scanned :: nat
  vs_chunks_skipped :: nat

fun add_columns :: "nat list \<Rightarrow> nat \<Rightarrow> nat list \<Rightarrow> VectorBatch \<Rightarrow> pg_error + VectorBatch" where
  "add_columns types i [] b = Inr b"
| "add_columns types i (col # cols) b =
     (case vector_batch_add_column b (int i) (vectorized_type_from_oid (types ! col)) (types ! col) of
        Inl e \<Rightarrow> Inl e
      | Inr b' \<Rightarrow> add_columns types (Suc i) cols b')"

text \<open>\<open>columns_needed\<close>: the needed columns of the table in ascending order; \<^const>\<open>None\<close> when the caller needs all.
  Dropped columns are not modelled.\<close>

definition vectorized_columnar_scan_begin ::
  "(nat \<Rightarrow> nat) \<Rightarrow> scan_env \<Rightarrow> nat list option \<Rightarrow> pg_error + VectorizedScanState" where
  "vectorized_columnar_scan_begin garbage env columns_needed =
     (let proj = (case columns_needed of
                    Some (c # cs) \<Rightarrow> filter (\<lambda>i. i \<in> set (c # cs)) [0..<length (en_attrs env)]
                  | _ \<Rightarrow> [0..<length (en_attrs env)]) in
      case vector_batch_create garbage (int VECTORIZED_BATCH_SIZE) (int (length proj)) of
        Inl e \<Rightarrow> Inl e
      | Inr b \<Rightarrow>
          (case add_columns (en_types env) 0 proj b of
             Inl e \<Rightarrow> Inl e
           | Inr b' \<Rightarrow>
               Inr \<lparr>vs_stripe_index = - 1, vs_stripe = None, vs_chunk_group_index = 0, vs_chunk_group = None,
                    vs_row_in_chunk = 0, vs_total_rows_read = 0, vs_projection_map = proj, vs_batch = b',
                    vs_predicates = [], vs_filters = [], vs_batches_read = 0, vs_rows_scanned = 0,
                    vs_chunks_skipped = 0\<rparr>))"

text \<open>The index of a table column in the projection.\<close>

fun find_batch_column :: "nat list \<Rightarrow> int \<Rightarrow> nat \<Rightarrow> nat option" where
  "find_batch_column [] column_index i = None"
| "find_batch_column (c # cs) column_index i =
     (if int c = column_index then Some i else find_batch_column cs column_index (Suc i))"

definition vectorized_scan_add_filter ::
  "VectorizedScanState \<Rightarrow> int \<Rightarrow> VectorizedCompareOp \<Rightarrow> u64 \<Rightarrow> VectorizedDataType \<Rightarrow> VectorizedScanState" where
  "vectorized_scan_add_filter s column_index op value data_type =
     (case find_batch_column (vs_projection_map s) column_index 0 of
        None \<Rightarrow> s
      | Some k \<Rightarrow>
          s\<lparr>vs_filters := vs_filters s @
              [\<lparr>vf_column_index = int k, vf_compare_op = op, vf_data_type = data_type,
                vf_const_value = value, vf_const_is_null = False\<rparr>]\<rparr>)"

section \<open>Loading a batch\<close>

definition datum_word :: "(bytes \<Rightarrow> u64) \<Rightarrow> Datum \<Rightarrow> u64" where
  "datum_word ptr d = (case d of ByVal w \<Rightarrow> w | ByRef bs \<Rightarrow> ptr bs)"

definition set_null_bit :: "u64 list \<Rightarrow> nat \<Rightarrow> u64 list option" where
  "set_null_bit nulls j =
     do { w \<leftarrow> array_get nulls (j div 64); array_store nulls (j div 64) (w OR push_bit (j mod 64) 1) }"

text \<open>A store into the buffer at the width of its type.\<close>

definition store_cell :: "column_data \<Rightarrow> nat \<Rightarrow> u64 \<Rightarrow> column_data option" where
  "store_cell d j w =
     (case d of
        Data64 xs \<Rightarrow> map_option Data64 (array_store xs j w)
      | Data32 xs \<Rightarrow> map_option Data32 (array_store xs j (ucast w))
      | Data8 xs \<Rightarrow> map_option Data8 (array_store xs j (if (ucast w :: u8) \<noteq> 0 then 1 else 0)))"

definition load_row :: "(bytes \<Rightarrow> u64) \<Rightarrow> Datum option list \<Rightarrow> nat \<Rightarrow> VectorColumn \<Rightarrow> VectorColumn option" where
  "load_row ptr src j vcol =
     do { v \<leftarrow> array_get src j;
          (case v of
             None \<Rightarrow> do { ns \<leftarrow> set_null_bit (vc_nulls vcol) j; Some (vcol\<lparr>vc_nulls := ns, vc_has_nulls := True\<rparr>) }
           | Some d \<Rightarrow> do { buf \<leftarrow> store_cell (vc_data vcol) j (datum_word ptr d); Some (vcol\<lparr>vc_data := buf\<rparr>) }) }"

text \<open>One projected column. The chunk the scan builds has no null buffer of its own.\<close>

definition load_batch_column ::
  "(bytes \<Rightarrow> u64) \<Rightarrow> ColumnarChunkGroup \<Rightarrow> nat \<Rightarrow> nat \<Rightarrow> VectorColumn \<Rightarrow> VectorColumn option" where
  "load_batch_column ptr grp row_count table_col vcol =
     (if table_col < length (cg_columns grp) \<and> cg_columns grp ! table_col
      then do { b \<leftarrow> array_get (cg_buffers grp) table_col;
                (case b of
                   None \<Rightarrow> Some vcol
                 | Some src \<Rightarrow> fold_opt (load_row ptr src) [0..<row_count] vcol) }
      else (if (row_count + 63) div 64 \<le> length (vc_nulls vcol)
            then Some (vcol\<lparr>vc_has_nulls := True,
                            vc_nulls := replicate ((row_count + 63) div 64) (- 1) @
                                        drop ((row_count + 63) div 64) (vc_nulls vcol)\<rparr>)
            else None))"

definition load_batch_from_chunk_group ::
  "(bytes \<Rightarrow> u64) \<Rightarrow> nat list \<Rightarrow> VectorBatch \<Rightarrow> ColumnarChunkGroup \<Rightarrow> VectorBatch option" where
  "load_batch_from_chunk_group ptr proj b grp =
     (let row_count = min (cg_row_count grp) (vb_capacity b) in
      map_option (\<lambda>cols. b\<lparr>vb_count := row_count, vb_columns := cols, vb_has_selection := False,
                           vb_selected_count := 0\<rparr>)
        (fold_opt (\<lambda>i cols.
             do { c \<leftarrow> array_get cols i;
                  vcol \<leftarrow> c;
                  vcol' \<leftarrow> load_batch_column ptr grp row_count (proj ! i) vcol;
                  array_store cols i (Some vcol') })
           [0..<length proj] (vb_columns b)))"

section \<open>Loading a chunk group\<close>

text \<open>The decoding loops. A fixed-width value that is not in the buffer keeps the zero and the non-NULL of
  \<^verbatim>\<open>palloc0\<close>.\<close>

definition decode_fixed_zero :: "nat \<Rightarrow> nat \<Rightarrow> nat \<Rightarrow> bytes \<Rightarrow> Datum option list option" where
  "decode_fixed_zero len n sz buf =
     map_opt (\<lambda>j. if j * len < sz
                  then if j * len + len \<le> length buf
                       then Some (Some (ByVal (word_of_nat (le_nat (take len (drop (j * len) buf))))))
                       else None
                  else Some (Some (ByVal 0))) [0..<n]"

definition scan_decompress :: "codec_libs \<Rightarrow> (nat \<Rightarrow> u8) \<Rightarrow> OrochiColumnChunk \<Rightarrow> bytes \<Rightarrow> (nat \<times> bytes) outcome" where
  "scan_decompress lib fresh chunk c =
     (let n = (if oc_uncompressed_size chunk = 0 then length c else oc_uncompressed_size chunk);
          buf = palloc fresh n
      in if MaxAllocSize < n then Some (Inl alloc_error)
         else if oc_compression_type chunk \<noteq> OROCHI_COMPRESS_NONE
         then map_option
                (\<lambda>x. case x of
                   Inl e \<Rightarrow> Inl e
                 | Inr (actual, buf') \<Rightarrow> Inr (if 0 < actual \<and> actual \<noteq> n then actual else n, buf'))
                (columnar_decompress_buffer lib c buf (oc_compression_type chunk))
         else map_option (\<lambda>buf'. Inr (length c, buf')) (fill_front c buf))"

definition scan_load_column ::
  "scan_env \<Rightarrow> int \<Rightarrow> nat \<Rightarrow> nat \<Rightarrow> nat \<Rightarrow> OrochiColumnChunk option \<Rightarrow> Datum option list outcome" where
  "scan_load_column env stripe_id cg col row_count chunk =
     (let attr = en_attrs env ! col in
      if MaxAllocSize < 8 * row_count then Some (Inl alloc_error)
      else case chunk of
        None \<Rightarrow> Some (Inr (replicate row_count None))
      | Some ch \<Rightarrow>
          (case orochi_catalog_read_chunk_data (en_store env) (map_of (en_chunks env) (stripe_id, cg, col)) of
             Inl e \<Rightarrow> Some (Inl e)
           | Inr (Some c, sz) \<Rightarrow>
               if 0 < sz
               then if int (length c) < sz then None
                    else case scan_decompress (en_lib env) (en_fresh env) ch c of
                      None \<Rightarrow> None
                    | Some (Inl e) \<Rightarrow> Some (Inl e)
                    | Some (Inr (n, buf)) \<Rightarrow>
                        if attbyval attr \<and> 0 < attlen attr
                        then map_option Inr (decode_fixed_zero (attlen attr) row_count n buf)
                        else Some (Inr (decode_var row_count (take n buf)))
               else Some (Inr (replicate row_count (if oc_has_nulls ch then None else Some (ByVal 0))))
           | Inr (None, _) \<Rightarrow> Some (Inr (replicate row_count (if oc_has_nulls ch then None else Some (ByVal 0))))))"

text \<open>The metadata of a column is that of its last chunk in the list.\<close>

definition chunk_meta :: "OrochiColumnChunk list \<Rightarrow> nat \<Rightarrow> OrochiColumnChunk option" where
  "chunk_meta chunks col = map_of (rev (map (\<lambda>c. (oc_column_index c, c)) chunks)) col"

fun load_columns ::
  "scan_env \<Rightarrow> nat list \<Rightarrow> ColumnarStripe \<Rightarrow> nat \<Rightarrow> OrochiColumnChunk list \<Rightarrow> nat list \<Rightarrow>
   Datum option list option list \<Rightarrow> Datum option list option list outcome" where
  "load_columns env proj stripe cg chunks [] acc = Some (Inr acc)"
| "load_columns env proj stripe cg chunks (col # cols) acc =
     (if col \<in> set proj
      then case scan_load_column env (st_stripe_id stripe) cg col (st_row_count stripe) (chunk_meta chunks col) of
             None \<Rightarrow> None
           | Some (Inl e) \<Rightarrow> Some (Inl e)
           | Some (Inr buf) \<Rightarrow> load_columns env proj stripe cg chunks cols (acc @ [Some buf])
      else load_columns env proj stripe cg chunks cols (acc @ [None]))"

definition scan_load_group :: "scan_env \<Rightarrow> nat list \<Rightarrow> ColumnarStripe \<Rightarrow> nat \<Rightarrow> ColumnarChunkGroup outcome" where
  "scan_load_group env proj stripe cg =
     (let chunks = orochi_catalog_get_stripe_columns (en_chunks env) (st_stripe_id stripe);
          natts = length (en_attrs env) in
      case load_columns env proj stripe cg chunks [0..<natts] [] of
        None \<Rightarrow> None
      | Some (Inl e) \<Rightarrow> Some (Inl e)
      | Some (Inr bufs) \<Rightarrow>
          Some (Inr \<lparr>cg_row_count = st_row_count stripe,
                     cg_columns = map (\<lambda>col. chunk_meta chunks col \<noteq> None) [0..<natts], cg_buffers = bufs\<rparr>))"

section \<open>The scan loop\<close>

text \<open>One iteration of the loop: the scan moves to the next chunk group, possibly of the next stripe, skips it
  or loads it, and then advances in it. \<^verbatim>\<open>rows_loaded\<close> is threaded through.\<close>

datatype scan_result = Finished VectorizedScanState nat | Continue VectorizedScanState nat

text \<open>Where the next chunk group is; \<^const>\<open>None\<close> after the last stripe. The index of the chunk group has been
  incremented already when the scan finds that there is no further stripe.\<close>

definition next_group :: "scan_env \<Rightarrow> VectorizedScanState \<Rightarrow> VectorizedScanState option" where
  "next_group env s =
     (let s = s\<lparr>vs_chunk_group_index := Suc (vs_chunk_group_index s)\<rparr> in
      if (case vs_stripe s of None \<Rightarrow> True | Some st \<Rightarrow> vs_chunk_group_index s \<ge> st_chunk_group_count st)
      then (if vs_stripe_index s + 1 \<ge> int (length (en_stripes env)) then None
            else Some (s\<lparr>vs_stripe_index := vs_stripe_index s + 1,
                         vs_stripe := Some (en_stripes env ! nat (vs_stripe_index s + 1)),
                         vs_chunk_group_index := 0\<rparr>))
      else Some s)"

definition exhausted :: "scan_env \<Rightarrow> VectorizedScanState \<Rightarrow> VectorizedScanState" where
  "exhausted env s =
     s\<lparr>vs_chunk_group_index := Suc (vs_chunk_group_index s), vs_stripe_index := vs_stripe_index s + 1\<rparr>"

definition scan_skips :: "scan_env \<Rightarrow> VectorizedScanState \<Rightarrow> ColumnarStripe \<Rightarrow> bool" where
  "scan_skips env s st =
     (case en_skip_list env of
        None \<Rightarrow> False
      | Some skip_list \<Rightarrow>
          vectorized_skips skip_list (vs_predicates s) (st_stripe_id st) (int (vs_chunk_group_index s)))"

text \<open>The part of the iteration after a chunk group is at hand.\<close>

definition take_rows :: "scan_env \<Rightarrow> VectorizedScanState \<Rightarrow> ColumnarChunkGroup \<Rightarrow> nat \<Rightarrow> scan_result option" where
  "take_rows env s grp rows_loaded =
     (let rows_available = cg_row_count grp - vs_row_in_chunk s;
          rows_to_load = min rows_available (VECTORIZED_BATCH_SIZE - rows_loaded) in
      do { (b, rows_loaded') \<leftarrow>
             (if vs_row_in_chunk s = 0 \<and> 0 < rows_to_load
              then do { b \<leftarrow> load_batch_from_chunk_group (en_ptr env) (vs_projection_map s) (vs_batch s) grp;
                        Some (b, vb_count b) }
              else Some (vs_batch s, rows_loaded));
           Some (Continue (s\<lparr>vs_batch := b, vs_row_in_chunk := vs_row_in_chunk s + rows_to_load,
                             vs_total_rows_read := vs_total_rows_read s + rows_to_load\<rparr>) rows_loaded') })"

definition at_group_end :: "VectorizedScanState \<Rightarrow> bool" where
  "at_group_end s = (case vs_chunk_group s of None \<Rightarrow> True | Some grp \<Rightarrow> vs_row_in_chunk s \<ge> cg_row_count grp)"

definition scan_step :: "scan_env \<Rightarrow> VectorizedScanState \<Rightarrow> nat \<Rightarrow> scan_result outcome" where
  "scan_step env s rows_loaded =
     (if at_group_end s
      then case next_group env s of
             None \<Rightarrow> Some (Inr (Finished (exhausted env s) rows_loaded))
           | Some s1 \<Rightarrow>
               (case vs_stripe s1 of
                  None \<Rightarrow> None
                | Some st \<Rightarrow>
                    if scan_skips env s1 st
                    then Some (Inr (Continue (s1\<lparr>vs_chunks_skipped := Suc (vs_chunks_skipped s1)\<rparr>) rows_loaded))
                    else (case scan_load_group env (vs_projection_map s1) st (vs_chunk_group_index s1) of
                            None \<Rightarrow> None
                          | Some (Inl e) \<Rightarrow> Some (Inl e)
                          | Some (Inr grp) \<Rightarrow>
                              map_option Inr (take_rows env
                                (s1\<lparr>vs_chunk_group := Some grp, vs_row_in_chunk := 0\<rparr>) grp rows_loaded)))
      else (case vs_chunk_group s of
              None \<Rightarrow> None
            | Some grp \<Rightarrow> map_option Inr (take_rows env s grp rows_loaded)))"

text \<open>Every iteration gets nearer to the end: a row position moves on, or a chunk group, or a stripe.\<close>

definition scan_measure :: "scan_env \<Rightarrow> VectorizedScanState \<Rightarrow> (nat \<times> nat \<times> nat)" where
  "scan_measure env s =
     (nat (int (length (en_stripes env)) - vs_stripe_index s),
      (case vs_stripe s of None \<Rightarrow> 0 | Some st \<Rightarrow> st_chunk_group_count st - vs_chunk_group_index s),
      (case vs_chunk_group s of None \<Rightarrow> 0 | Some grp \<Rightarrow> cg_row_count grp - vs_row_in_chunk s))"

lemma take_rows_position:
  assumes "take_rows env s grp n = Some r"
  shows "\<exists>s' n'. r = Continue s' n' \<and> vs_stripe_index s' = vs_stripe_index s \<and> vs_stripe s' = vs_stripe s \<and>
           vs_chunk_group_index s' = vs_chunk_group_index s \<and> vs_chunk_group s' = vs_chunk_group s \<and>
           vs_row_in_chunk s' =
             vs_row_in_chunk s + min (cg_row_count grp - vs_row_in_chunk s) (VECTORIZED_BATCH_SIZE - n)"
  using assms by (auto simp: take_rows_def Let_def split: if_splits bind_splits)

lemma next_group_measure:
  assumes "next_group env s = Some s1"
  shows "(fst (scan_measure env s1), fst (snd (scan_measure env s1))) \<noteq> (fst (scan_measure env s), fst (snd (scan_measure env s))) \<and>
         (fst (scan_measure env s1) < fst (scan_measure env s) \<or>
          fst (scan_measure env s1) = fst (scan_measure env s) \<and>
          fst (snd (scan_measure env s1)) < fst (snd (scan_measure env s)))"
  using assms
  by (auto simp: next_group_def scan_measure_def Let_def split: if_splits option.splits)

lemma scan_step_decreases:
  assumes "scan_step env s n = Some (Inr (Continue s' n'))" and "n < VECTORIZED_BATCH_SIZE"
  shows "(scan_measure env s', scan_measure env s) \<in> less_than <*lex*> less_than <*lex*> less_than"
proof (cases "at_group_end s")
  case True
  then obtain s1 where s1: "next_group env s = Some s1"
    and pos: "vs_stripe_index s' = vs_stripe_index s1" "vs_stripe s' = vs_stripe s1"
      "vs_chunk_group_index s' = vs_chunk_group_index s1"
    using assms(1)
    by (fastforce simp: scan_step_def dest!: take_rows_position
        split: option.splits if_splits sum.splits)
  have "fst (scan_measure env s') = fst (scan_measure env s1)"
    "fst (snd (scan_measure env s')) = fst (snd (scan_measure env s1))"
    using pos by (simp_all add: scan_measure_def split: option.split)
  with next_group_measure [OF s1] show ?thesis
    by (cases "scan_measure env s'"; cases "scan_measure env s") auto
next
  case False
  then obtain grp where grp: "vs_chunk_group s = Some grp" "vs_row_in_chunk s < cg_row_count grp"
    by (auto simp: at_group_end_def split: option.splits)
  with False assms(1) have "take_rows env s grp n = Some (Continue s' n')"
    by (auto simp: scan_step_def)
  from take_rows_position [OF this] grp assms(2) show ?thesis
    by (cases "vs_stripe s") (auto simp: scan_measure_def)
qed

text \<open>The loop \<^verbatim>\<open>while (rows_loaded < VECTORIZED_BATCH_SIZE)\<close>.\<close>

function scan_loop :: "scan_env \<Rightarrow> VectorizedScanState \<Rightarrow> nat \<Rightarrow> (VectorizedScanState \<times> nat) outcome" where
  "scan_loop env s rows_loaded =
     (if rows_loaded < VECTORIZED_BATCH_SIZE
      then case scan_step env s rows_loaded of
             None \<Rightarrow> None
           | Some (Inl e) \<Rightarrow> Some (Inl e)
           | Some (Inr (Finished s' n)) \<Rightarrow> Some (Inr (s', n))
           | Some (Inr (Continue s' n)) \<Rightarrow> scan_loop env s' n
      else Some (Inr (s, rows_loaded)))"
  by pat_completeness auto
termination
  by (relation "inv_image (less_than <*lex*> less_than <*lex*> less_than) (\<lambda>(env, s, n). scan_measure env s)")
     (auto intro: wf_lex_prod dest: scan_step_decreases)

declare scan_loop.simps [simp del]

text \<open>A call of the scan: the batch, or \<^const>\<open>None\<close> for NULL, and the state.\<close>

definition vectorized_columnar_scan ::
  "scan_env \<Rightarrow> VectorizedScanState \<Rightarrow> (VectorBatch option \<times> VectorizedScanState) outcome" where
  "vectorized_columnar_scan env s =
     (case scan_loop env (s\<lparr>vs_batch := vector_batch_reset (vs_batch s)\<rparr>) 0 of
        None \<Rightarrow> None
      | Some (Inl e) \<Rightarrow> Some (Inl e)
      | Some (Inr (s', n)) \<Rightarrow>
          if n = 0 then Some (Inr (None, s'))
          else let b = (vs_batch s')\<lparr>vb_count := n, vb_rows_processed := vb_rows_processed (vs_batch s') + n\<rparr>
               in Some (Inr (Some b, s'\<lparr>vs_batch := b, vs_rows_scanned := vs_rows_scanned s' + n,
                                        vs_batches_read := Suc (vs_batches_read s')\<rparr>)))"

section \<open>Predicate pushdown\<close>

definition pg_op_to_vectorized :: "skip_op \<Rightarrow> VectorizedCompareOp" where
  "pg_op_to_vectorized opno =
     (if opno \<in> {Int4EqualOperator, Int8EqualOperator, Float8EqualOperator} then VECTORIZED_CMP_EQ
      else if opno \<in> {Int4LessOperator, Int8LessOperator} then VECTORIZED_CMP_LT
      else if opno = Int84LEOperator then VECTORIZED_CMP_LE
      else if opno \<in> {Int4GreaterOperator, Int8GreaterOperator} then VECTORIZED_CMP_GT
      else if opno = Int84GEOperator then VECTORIZED_CMP_GE
      else VECTORIZED_CMP_EQ)"

definition reverse_op :: "VectorizedCompareOp \<Rightarrow> VectorizedCompareOp" where
  "reverse_op op =
     (case op of
        VECTORIZED_CMP_LT \<Rightarrow> VECTORIZED_CMP_GT
      | VECTORIZED_CMP_LE \<Rightarrow> VECTORIZED_CMP_GE
      | VECTORIZED_CMP_GT \<Rightarrow> VECTORIZED_CMP_LT
      | VECTORIZED_CMP_GE \<Rightarrow> VECTORIZED_CMP_LE
      | _ \<Rightarrow> op)"

text \<open>The type of a column variable is that of its attribute; \<open>vartype\<close> looks it up.\<close>

fun can_pushdown_predicate ::
  "(int \<Rightarrow> nat) \<Rightarrow> predicate \<Rightarrow> (int \<times> VectorizedCompareOp \<times> u64 \<times> VectorizedDataType) option" where
  "can_pushdown_predicate vartype Other_predicate = None"
| "can_pushdown_predicate vartype (Column_op_Const opno column_left varattno constvalue) =
     (case constvalue of
        None \<Rightarrow> None
      | Some c \<Rightarrow>
          let data_type = vectorized_type_from_oid (vartype varattno); op = pg_op_to_vectorized opno in
          if data_type = VECTORIZED_TYPE_UNKNOWN then None
          else Some (varattno - 1, if column_left then op else reverse_op op, word_of_int c, data_type))"

text \<open>The test for the early exit of both loops.\<close>

definition nothing_selected :: "VectorBatch \<Rightarrow> bool" where
  "nothing_selected b = (vb_has_selection b \<and> vb_selected_count b = 0)"

fun apply_filters :: "bool \<Rightarrow> VectorizedFilterState list \<Rightarrow> VectorBatch \<Rightarrow> VectorBatch outcome" where
  "apply_filters avx2 [] b = Some (Inr b)"
| "apply_filters avx2 (f # fs) b =
     (case vectorized_filter_generic avx2 b f of
        None \<Rightarrow> None
      | Some (Inl e) \<Rightarrow> Some (Inl e)
      | Some (Inr b') \<Rightarrow> if nothing_selected b' then Some (Inr b') else apply_filters avx2 fs b')"

definition apply_pushed ::
  "bool \<Rightarrow> nat list \<Rightarrow> VectorBatch \<Rightarrow> (int \<times> VectorizedCompareOp \<times> u64 \<times> VectorizedDataType) option \<Rightarrow> VectorBatch outcome"
where
  "apply_pushed avx2 proj b pushed =
     (case pushed of
        None \<Rightarrow> Some (Inr b)
      | Some (column_index, op, v, data_type) \<Rightarrow>
          (case find_batch_column proj column_index 0 of
             None \<Rightarrow> Some (Inr b)
           | Some k \<Rightarrow>
               (case data_type of
                  VECTORIZED_TYPE_INT64 \<Rightarrow> vectorized_filter_int64 avx2 b (int k) op v
                | VECTORIZED_TYPE_TIMESTAMP \<Rightarrow> vectorized_filter_int64 avx2 b (int k) op v
                | VECTORIZED_TYPE_INT32 \<Rightarrow> vectorized_filter_int32 avx2 b (int k) op (ucast v)
                | VECTORIZED_TYPE_DATE \<Rightarrow> vectorized_filter_int32 avx2 b (int k) op (ucast v)
                | VECTORIZED_TYPE_FLOAT64 \<Rightarrow> vectorized_filter_float64 avx2 b (int k) op v
                | VECTORIZED_TYPE_FLOAT32 \<Rightarrow> vectorized_filter_float32 avx2 b (int k) op (ucast v)
                | _ \<Rightarrow> Some (Inr b))))"

fun apply_quals ::
  "bool \<Rightarrow> nat list \<Rightarrow> (int \<Rightarrow> nat) \<Rightarrow> predicate list \<Rightarrow> VectorBatch \<Rightarrow> VectorBatch outcome" where
  "apply_quals avx2 proj vartype [] b = Some (Inr b)"
| "apply_quals avx2 proj vartype (p # ps) b =
     (case apply_pushed avx2 proj b (can_pushdown_predicate vartype p) of
        None \<Rightarrow> None
      | Some (Inl e) \<Rightarrow> Some (Inl e)
      | Some (Inr b') \<Rightarrow> if nothing_selected b' then Some (Inr b') else apply_quals avx2 proj vartype ps b')"

definition vectorized_apply_predicate ::
  "bool \<Rightarrow> (int \<Rightarrow> nat) \<Rightarrow> VectorizedScanState \<Rightarrow> VectorBatch \<Rightarrow> VectorBatch outcome" where
  "vectorized_apply_predicate avx2 vartype s b =
     (case apply_filters avx2 (vs_filters s) b of
        None \<Rightarrow> None
      | Some (Inl e) \<Rightarrow> Some (Inl e)
      | Some (Inr b') \<Rightarrow> apply_quals avx2 (vs_projection_map s) vartype (vs_predicates s) b')"

section \<open>Pushed predicates are a conjunction\<close>

lemma nothing_selected_active: "batch_wf b \<Longrightarrow> nothing_selected b \<Longrightarrow> active b = []"
  by (simp add: nothing_selected_def active_def)

lemma filter_ready_same_rows: "same_rows b b' \<Longrightarrow> filter_ready avx2 b f c \<Longrightarrow> filter_ready avx2 b' f c"
proof -
  assume same: "same_rows b b'" and ready: "filter_ready avx2 b f c"
  have "vb_count b' = vb_count b" using same by (simp add: same_rows_def)
  with same_rows_column [OF same] have "filter_ready avx2 b' f c = filter_ready avx2 b f c"
    by (simp only: filter_ready_def)
  with ready show ?thesis by simp
qed

lemma same_rows_trans: "same_rows a b \<Longrightarrow> same_rows b c \<Longrightarrow> same_rows a c"
  by (simp add: same_rows_def)

lemma same_rows_refl: "same_rows b b"
  by (simp add: same_rows_def)

text \<open>A loop that applies selections one after the other and stops when nothing is left selects the rows that
  pass all of them.\<close>

definition selects :: "VectorBatch \<Rightarrow> (nat \<Rightarrow> bool) \<Rightarrow> VectorBatch outcome \<Rightarrow> bool" where
  "selects b P r = (\<exists>b'. r = Some (Inr b') \<and> batch_wf b' \<and> same_rows b b' \<and> active b' = filter P (active b))"

lemma selects_id: "batch_wf b \<Longrightarrow> selects b (\<lambda>i. True) (Some (Inr b))"
  by (simp add: selects_def same_rows_refl)

lemma filtered_selects: "filtered b P r \<Longrightarrow> selects b P r"
  by (auto simp: filtered_def selects_def)

lemma selects_then:
  assumes first: "selects b P r"
    and rest: "\<And>b'. batch_wf b' \<Longrightarrow> same_rows b b' \<Longrightarrow> selects b' Q (k b')"
  shows "selects b (\<lambda>i. P i \<and> Q i)
     (case r of None \<Rightarrow> None | Some (Inl e) \<Rightarrow> Some (Inl e)
      | Some (Inr b') \<Rightarrow> if nothing_selected b' then Some (Inr b') else k b')"
proof -
  obtain b' where b': "r = Some (Inr b')" "batch_wf b'" "same_rows b b'" "active b' = filter P (active b)"
    using first by (auto simp: selects_def)
  have both: "filter (\<lambda>i. P i \<and> Q i) (active b) = filter Q (active b')"
    by (simp add: b'(4) conj_commute)
  show ?thesis
  proof (cases "nothing_selected b'")
    case True
    with nothing_selected_active [OF b'(2)] both b' show ?thesis by (auto simp: selects_def)
  next
    case False
    from rest [OF b'(2,3)] obtain b'' where "k b' = Some (Inr b'')" "batch_wf b''" "same_rows b' b''"
        "active b'' = filter Q (active b')" by (auto simp: selects_def)
    with False b' both same_rows_trans [of b b' b''] show ?thesis by (auto simp: selects_def)
  qed
qed

lemma apply_filters_eq:
  assumes "batch_wf b" and "list_all (\<lambda>f. filter_ready avx2 b f (col f)) fs"
  shows "selects b (\<lambda>i. list_all (\<lambda>f. filter_hit f (col f) i) fs) (apply_filters avx2 fs b)"
  using assms
proof (induction fs arbitrary: b)
  case Nil
  then show ?case by (simp add: selects_id)
next
  case (Cons f fs)
  have "selects b (filter_hit f (col f)) (vectorized_filter_generic avx2 b f)"
    using Cons.prems by (intro filtered_selects filter_generic_refines) auto
  moreover have "selects b' (\<lambda>i. list_all (\<lambda>f. filter_hit f (col f) i) fs) (apply_filters avx2 fs b')"
    if "batch_wf b'" "same_rows b b'" for b'
    using that Cons.prems filter_ready_same_rows by (intro Cons.IH) (auto simp: list_all_iff)
  ultimately show ?case using selects_then by fastforce
qed

text \<open>A predicate that is pushed down is the filter it stands for; one that is not, or whose column is not
  projected, lets every row pass.\<close>

definition qual_filter :: "nat list \<Rightarrow> (int \<Rightarrow> nat) \<Rightarrow> predicate \<Rightarrow> VectorizedFilterState option" where
  "qual_filter proj vartype p =
     (case can_pushdown_predicate vartype p of
        None \<Rightarrow> None
      | Some (column_index, op, v, data_type) \<Rightarrow>
          (case find_batch_column proj column_index 0 of
             None \<Rightarrow> None
           | Some k \<Rightarrow>
               if data_type \<in> {VECTORIZED_TYPE_BOOL, VECTORIZED_TYPE_STRING, VECTORIZED_TYPE_UNKNOWN} then None
               else Some \<lparr>vf_column_index = int k, vf_compare_op = op, vf_data_type = data_type,
                          vf_const_value = v, vf_const_is_null = False\<rparr>))"

lemma apply_pushed_filter:
  "apply_pushed avx2 proj b (can_pushdown_predicate vartype p) =
     (case qual_filter proj vartype p of None \<Rightarrow> Some (Inr b) | Some f \<Rightarrow> vectorized_filter_generic avx2 b f)"
  by (auto simp: apply_pushed_def qual_filter_def vectorized_filter_generic_def
        split: option.splits prod.splits VectorizedDataType.splits)

definition qual_hit :: "nat list \<Rightarrow> (int \<Rightarrow> nat) \<Rightarrow> (VectorizedFilterState \<Rightarrow> VectorColumn) \<Rightarrow> predicate \<Rightarrow> nat \<Rightarrow> bool" where
  "qual_hit proj vartype col p i =
     (case qual_filter proj vartype p of None \<Rightarrow> True | Some f \<Rightarrow> filter_hit f (col f) i)"

definition qual_ready :: "bool \<Rightarrow> nat list \<Rightarrow> (int \<Rightarrow> nat) \<Rightarrow> (VectorizedFilterState \<Rightarrow> VectorColumn) \<Rightarrow> VectorBatch \<Rightarrow> predicate \<Rightarrow> bool"
where
  "qual_ready avx2 proj vartype col b p =
     (case qual_filter proj vartype p of None \<Rightarrow> True | Some f \<Rightarrow> filter_ready avx2 b f (col f))"

lemma apply_quals_eq:
  assumes "batch_wf b" and "list_all (qual_ready avx2 proj vartype col b) ps"
  shows "selects b (\<lambda>i. list_all (\<lambda>p. qual_hit proj vartype col p i) ps) (apply_quals avx2 proj vartype ps b)"
  using assms
proof (induction ps arbitrary: b)
  case Nil
  then show ?case by (simp add: selects_id)
next
  case (Cons p ps)
  have "selects b (qual_hit proj vartype col p) (apply_pushed avx2 proj b (can_pushdown_predicate vartype p))"
  proof (cases "qual_filter proj vartype p")
    case None
    then show ?thesis using Cons.prems selects_id by (simp add: apply_pushed_filter qual_hit_def [abs_def])
  next
    case (Some f)
    then have "filter_ready avx2 b f (col f)" using Cons.prems by (simp add: qual_ready_def)
    with Some Cons.prems filter_generic_refines filtered_selects show ?thesis
      by (auto simp: apply_pushed_filter qual_hit_def [abs_def])
  qed
  moreover have "selects b' (\<lambda>i. list_all (\<lambda>p. qual_hit proj vartype col p i) ps) (apply_quals avx2 proj vartype ps b')"
    if "batch_wf b'" "same_rows b b'" for b'
  proof -
    have "qual_ready avx2 proj vartype col b q \<Longrightarrow> qual_ready avx2 proj vartype col b' q" for q
      using filter_ready_same_rows [OF that(2)] by (auto simp: qual_ready_def split: option.splits)
    with that Cons.prems show ?thesis by (intro Cons.IH) (auto simp: list_all_iff)
  qed
  ultimately show ?case using selects_then by fastforce
qed

text \<open>Applying the filters and the pushed predicates of a scan to a batch selects exactly the selected
  rows that pass every filter and every predicate, in order; stopping early when nothing is left changes
  nothing.\<close>

theorem predicates_are_conjunction:
  assumes "batch_wf b" and "list_all (\<lambda>f. filter_ready avx2 b f (col f)) (vs_filters s)"
    and "list_all (qual_ready avx2 (vs_projection_map s) vartype col b) (vs_predicates s)"
  shows "selects b (\<lambda>i. list_all (\<lambda>f. filter_hit f (col f) i) (vs_filters s) \<and>
                        list_all (\<lambda>p. qual_hit (vs_projection_map s) vartype col p i) (vs_predicates s))
           (vectorized_apply_predicate avx2 vartype s b)"
proof -
  obtain b' where b': "apply_filters avx2 (vs_filters s) b = Some (Inr b')" "batch_wf b'" "same_rows b b'"
      "active b' = filter (\<lambda>i. list_all (\<lambda>f. filter_hit f (col f) i) (vs_filters s)) (active b)"
    using apply_filters_eq [OF assms(1,2)] by (auto simp: selects_def)
  have "qual_ready avx2 (vs_projection_map s) vartype col b' q" if "qual_ready avx2 (vs_projection_map s) vartype col b q" for q
    using that filter_ready_same_rows [OF b'(3)] by (auto simp: qual_ready_def split: option.splits)
  then have "list_all (qual_ready avx2 (vs_projection_map s) vartype col b') (vs_predicates s)"
    using assms(3) by (auto simp: list_all_iff)
  from apply_quals_eq [OF b'(2) this] b' same_rows_trans [OF b'(3)] show ?thesis
    by (auto simp: selects_def vectorized_apply_predicate_def conj_commute)
qed

lemma sample_qual:
  "qual_filter [0] (\<lambda>_. 20) (Column_op_Const Int8LessOperator False 1 (Some 6)) =
     Some \<lparr>vf_column_index = 0, vf_compare_op = VECTORIZED_CMP_GT, vf_data_type = VECTORIZED_TYPE_INT64,
           vf_const_value = 6, vf_const_is_null = False\<rparr>"
  by (simp add: qual_filter_def pg_op_to_vectorized_def reverse_op_def vectorized_type_from_oid_def)

theorem predicates_are_conjunction_witness:
  "\<exists>s. vs_predicates s = [Column_op_Const Int8LessOperator False 1 (Some 6)] \<and> vs_filters s = [sample_filter] \<and>
       (\<exists>b'. vectorized_apply_predicate True (\<lambda>_. 20) s sample_batch = Some (Inr b') \<and> active b' = [1, 3])"
proof -
  obtain s :: VectorizedScanState where s: "vs_predicates s = [Column_op_Const Int8LessOperator False 1 (Some 6)]"
      "vs_filters s = [sample_filter]" "vs_projection_map s = [0]"
    by (metis VectorizedScanState.select_convs)
  define f where "f = \<lparr>vf_column_index = 0, vf_compare_op = VECTORIZED_CMP_GT, vf_data_type = VECTORIZED_TYPE_INT64,
           vf_const_value = (6 :: u64), vf_const_is_null = False\<rparr>"
  obtain c where c: "batch_column sample_batch 0 = Some (Inr c)"
      "c = \<lparr>vc_data_type = VECTORIZED_TYPE_INT64, vc_type_len = 8, vc_type_byval = True,
        vc_type_oid = 20, vc_data = Data64 [5, 7, - 3, 9, 0, 7, 0, 0], vc_nulls = [16], vc_has_nulls = True,
        vc_offsets = None\<rparr>"
    by (simp add: batch_column_def sample_batch_def array_get_def)
  have ready: "filter_ready True sample_batch sample_filter c" "filter_ready True sample_batch f c"
    using c by (simp_all add: filter_ready_def sample_filter_def f_def compares_values_def)
  have hits: "filter (\<lambda>i. filter_hit sample_filter c i \<and> filter_hit f c i) [0, 1, 3, 4] = [1, 3]"
    by (simp add: c(2) filter_hit_def sample_filter_def f_def col_null_def signed_cmp_def)
  have q: "qual_filter [0] (\<lambda>_. 20) (Column_op_Const Int8LessOperator False 1 (Some 6)) = Some f"
    using sample_qual by (simp add: f_def)
  have "selects sample_batch (\<lambda>i. list_all (\<lambda>f. filter_hit f c i) (vs_filters s) \<and>
           list_all (\<lambda>p. qual_hit (vs_projection_map s) (\<lambda>_. 20) (\<lambda>_. c) p i) (vs_predicates s))
           (vectorized_apply_predicate True (\<lambda>_. 20) s sample_batch)"
    using ready by (intro predicates_are_conjunction sample_batch_wf) (simp_all add: s qual_ready_def q)
  then obtain b' where "vectorized_apply_predicate True (\<lambda>_. 20) s sample_batch = Some (Inr b')"
      "active b' = filter (\<lambda>i. filter_hit sample_filter c i \<and> filter_hit f c i) [0, 1, 3, 4]"
    by (auto simp: selects_def s qual_hit_def q sample_batch_active)
  with s hits show ?thesis by auto
qed

text \<open>A comparison whose operator the scan does not know (not-equal among them) is pushed down as an equality:
  the batch keeps exactly the rows equal to the constant.\<close>

theorem unknown_operator_becomes_equality:
  assumes wf: "batch_wf b" and c: "batch_column b (int k) = Some (Inr c)" and data: "data64 c = Some data"
    and k: "find_batch_column proj (att - 1) 0 = Some k" and t: "vartype att = 20"
  shows "selects b (row_hit signed_cmp c data VECTORIZED_CMP_EQ (word_of_int v))
           (apply_quals avx2 proj vartype [Column_op_Const OtherOperator left att (Some v)] b)"
proof -
  have "can_pushdown_predicate vartype (Column_op_Const OtherOperator left att (Some v)) =
          Some (att - 1, VECTORIZED_CMP_EQ, word_of_int v, VECTORIZED_TYPE_INT64)"
    using t by (simp add: pg_op_to_vectorized_def reverse_op_def vectorized_type_from_oid_def)
  moreover have "selects b (row_hit signed_cmp c data VECTORIZED_CMP_EQ (word_of_int v))
      (vectorized_filter_int64 avx2 b (int k) VECTORIZED_CMP_EQ (word_of_int v))"
    by (rule filtered_selects [OF int64_filter_refines [OF wf c data]]) (simp add: compares_values_def)
  ultimately show ?thesis
    using k by (auto simp: apply_pushed_def selects_def)
qed

theorem unknown_operator_becomes_equality_witness:
  "\<exists>b'. apply_quals True [0] (\<lambda>_. 20) [Column_op_Const OtherOperator True 1 (Some 7)] sample_batch = Some (Inr b') \<and>
        active b' = [1]"
proof -
  obtain c data where c: "batch_column sample_batch 0 = Some (Inr c)" "data64 c = Some data"
      "filter (row_hit signed_cmp c data VECTORIZED_CMP_EQ (word_of_int 7)) [0, 1, 3, 4] = [1]"
    by (simp add: batch_column_def sample_batch_def array_get_def row_hit_def col_null_def signed_cmp_def)
  then have "selects sample_batch (row_hit signed_cmp c data VECTORIZED_CMP_EQ (word_of_int 7))
      (apply_quals True [0] (\<lambda>_. 20) [Column_op_Const OtherOperator True 1 (Some 7)] sample_batch)"
    by (intro unknown_operator_becomes_equality [OF sample_batch_wf, of 0]) simp_all
  with c(3) show ?thesis by (auto simp: selects_def sample_batch_active)
qed

section \<open>Loading a column\<close>

lemma bit_set_null: "j < 64 \<Longrightarrow> i < 64 \<Longrightarrow> bit (w OR 2 ^ j :: u64) i \<longleftrightarrow> bit w i \<or> i = j"
  by (auto simp: bit_or_iff bit_exp_iff)

lemma set_null_bit_eq:
  assumes "j div 64 < length nulls"
  shows "\<exists>ns. set_null_bit nulls j = Some ns \<and> length ns = length nulls \<and>
              (\<forall>r. r div 64 < length nulls \<longrightarrow>
                   bit (ns ! (r div 64)) (r mod 64) = (bit (nulls ! (r div 64)) (r mod 64) \<or> r = j))"
proof -
  have eq: "r = j \<longleftrightarrow> r div 64 = j div 64 \<and> r mod 64 = j mod 64" for r
    by (metis div_mult_mod_eq)
  let ?ns = "nulls[j div 64 := nulls ! (j div 64) OR push_bit (j mod 64) 1]"
  have "set_null_bit nulls j = Some ?ns"
    using assms by (simp add: set_null_bit_def array_get_less array_store_def)
  moreover have "bit (?ns ! (r div 64)) (r mod 64) = (bit (nulls ! (r div 64)) (r mod 64) \<or> r = j)"
    if "r div 64 < length nulls" for r
    using that assms eq [of r] by (cases "r div 64 = j div 64") (auto simp: bit_set_null)
  ultimately show ?thesis by auto
qed

text \<open>What a Datum reads back as from a buffer of the width of the column.\<close>

definition cell_of_word :: "VectorizedDataType \<Rightarrow> u64 \<Rightarrow> u64" where
  "cell_of_word t w =
     (if t \<in> {VECTORIZED_TYPE_INT32, VECTORIZED_TYPE_DATE, VECTORIZED_TYPE_FLOAT32} then scast (ucast w :: u32)
      else if t = VECTORIZED_TYPE_BOOL then (if (ucast w :: u8) \<noteq> 0 then 1 else 0)
      else w)"

definition data_cell :: "column_data \<Rightarrow> nat \<Rightarrow> u64" where
  "data_cell d i = (case d of Data64 xs \<Rightarrow> xs ! i | Data32 xs \<Rightarrow> scast (xs ! i)
                    | Data8 xs \<Rightarrow> if xs ! i \<noteq> 0 then 1 else 0)"

lemma row_cell_data: "row_cell (Some c) i = (if col_null c i then None else Some (data_cell (vc_data c) i))"
  by (simp add: row_cell_def data_cell_def)

lemma store_cell_eq:
  assumes "data_fits t cap d" and "j < cap"
  shows "\<exists>d'. store_cell d j w = Some d' \<and> data_fits t cap d' \<and> data_cell d' j = cell_of_word t w \<and>
              (\<forall>i. i \<noteq> j \<longrightarrow> data_cell d' i = data_cell d i)"
  using assms
  by (cases d) (auto simp: data_fits_def store_cell_def array_store_def data_cell_def cell_of_word_def)

text \<open>The loop over the rows: a NULL sets a bit and nothing ever clears one.\<close>

lemma load_rows_eq:
  assumes cw: "column_wf cap vcol" and n: "n \<le> cap" "n \<le> length src"
  shows "\<exists>v. fold_opt (load_row ptr src) [0..<n] vcol = Some v \<and> column_wf cap v \<and>
             vc_data_type v = vc_data_type vcol \<and>
             vc_has_nulls v = (vc_has_nulls vcol \<or> (\<exists>j < n. src ! j = None)) \<and>
             (\<forall>r < cap. bit (vc_nulls v ! (r div 64)) (r mod 64) =
                        (bit (vc_nulls vcol ! (r div 64)) (r mod 64) \<or> r < n \<and> src ! r = None)) \<and>
             (\<forall>r < n. \<forall>d. src ! r = Some d \<longrightarrow>
                        data_cell (vc_data v) r = cell_of_word (vc_data_type vcol) (datum_word ptr d))"
  using n
proof (induction n)
  case 0
  then show ?case using cw by simp
next
  case (Suc n)
  then obtain v where v: "fold_opt (load_row ptr src) [0..<n] vcol = Some v" "column_wf cap v"
      "vc_data_type v = vc_data_type vcol" "vc_has_nulls v = (vc_has_nulls vcol \<or> (\<exists>j < n. src ! j = None))"
      "\<forall>r < cap. bit (vc_nulls v ! (r div 64)) (r mod 64) =
                 (bit (vc_nulls vcol ! (r div 64)) (r mod 64) \<or> r < n \<and> src ! r = None)"
      "\<forall>r < n. \<forall>d. src ! r = Some d \<longrightarrow>
                 data_cell (vc_data v) r = cell_of_word (vc_data_type vcol) (datum_word ptr d)"
    by auto
  have step: "fold_opt (load_row ptr src) [0..<Suc n] vcol = load_row ptr src n v"
    using v(1) by (simp add: fold_opt_append split: option.split)
  show ?case
  proof (cases "src ! n")
    case None
    obtain ns where ns: "set_null_bit (vc_nulls v) n = Some ns" "length ns = length (vc_nulls v)"
        "\<forall>r. r div 64 < length (vc_nulls v) \<longrightarrow>
             bit (ns ! (r div 64)) (r mod 64) = (bit (vc_nulls v ! (r div 64)) (r mod 64) \<or> r = n)"
      using set_null_bit_eq column_wf_nulls [OF v(2), of n] Suc.prems by (metis Suc_le_lessD)
    have "load_row ptr src n v = Some (v\<lparr>vc_nulls := ns, vc_has_nulls := True\<rparr>)"
      using None ns(1) Suc.prems by (simp add: load_row_def array_get_less)
    moreover have "column_wf cap (v\<lparr>vc_nulls := ns, vc_has_nulls := True\<rparr>)"
      using v(2) ns(2) by (simp add: column_wf_def)
    ultimately show ?thesis
      using step v ns(3) None column_wf_nulls [OF v(2)] by (auto simp: less_Suc_eq)
  next
    case (Some d)
    obtain d' where d': "store_cell (vc_data v) n (datum_word ptr d) = Some d'"
        "data_fits (vc_data_type vcol) cap d'"
        "data_cell d' n = cell_of_word (vc_data_type vcol) (datum_word ptr d)"
        "\<forall>i. i \<noteq> n \<longrightarrow> data_cell d' i = data_cell (vc_data v) i"
      using store_cell_eq [of "vc_data_type vcol" cap "vc_data v" n] v(2,3) Suc.prems
      by (auto simp: column_wf_def)
    have "load_row ptr src n v = Some (v\<lparr>vc_data := d'\<rparr>)"
      using Some d'(1) Suc.prems by (simp add: load_row_def array_get_less)
    moreover have "column_wf cap (v\<lparr>vc_data := d'\<rparr>)"
      using v(2,3) d'(2) by (simp add: column_wf_def)
    ultimately show ?thesis using step v d' Some by (auto simp: less_Suc_eq)
  qed
qed

lemma load_batch_column_buffer:
  assumes "table_col < length (cg_columns grp)" and "cg_columns grp ! table_col"
    and "table_col < length (cg_buffers grp)" and "cg_buffers grp ! table_col = Some src"
  shows "load_batch_column ptr grp n table_col vcol = fold_opt (load_row ptr src) [0..<n] vcol"
  using assms by (simp add: load_batch_column_def array_get_less)

text \<open>Loading a column of a chunk group into a column of the batch whose bitmap is clear stays inside the
  arrays and makes every row read back as the value of the buffer, NULL where the buffer has NULL, cut to the
  width of the type.\<close>

theorem loaded_column_holds_buffer:
  assumes "table_col < length (cg_columns grp)" "cg_columns grp ! table_col"
    and "table_col < length (cg_buffers grp)" "cg_buffers grp ! table_col = Some src"
    and wf: "column_wf cap vcol" and n: "n \<le> cap" "n \<le> length src"
    and clear: "\<not> vc_has_nulls vcol" "\<forall>r < cap. \<not> bit (vc_nulls vcol ! (r div 64)) (r mod 64)"
  shows "\<exists>v. load_batch_column ptr grp n table_col vcol = Some v \<and> column_wf cap v \<and>
             (\<forall>r < n. row_cell (Some v) r =
                map_option (\<lambda>d. cell_of_word (vc_data_type vcol) (datum_word ptr d)) (src ! r))"
proof -
  obtain v where v: "fold_opt (load_row ptr src) [0..<n] vcol = Some v" "column_wf cap v"
      "vc_has_nulls v = (\<exists>j < n. src ! j = None)"
      "\<forall>r < cap. bit (vc_nulls v ! (r div 64)) (r mod 64) = (r < n \<and> src ! r = None)"
      "\<forall>r < n. \<forall>d. src ! r = Some d \<longrightarrow> data_cell (vc_data v) r = cell_of_word (vc_data_type vcol) (datum_word ptr d)"
    using load_rows_eq [OF wf n, of ptr] clear by auto
  have "row_cell (Some v) r = map_option (\<lambda>d. cell_of_word (vc_data_type vcol) (datum_word ptr d)) (src ! r)"
    if "r < n" for r
  proof -
    have "col_null v r \<longleftrightarrow> src ! r = None" using v(3,4) that n(1) by (auto simp: col_null_def)
    with v(5) that show ?thesis by (cases "src ! r") (auto simp: row_cell_data)
  qed
  with v(1,2) load_batch_column_buffer [OF assms(1-4)] show ?thesis by auto
qed

definition sample_group :: ColumnarChunkGroup where
  "sample_group = \<lparr>cg_row_count = 3, cg_columns = [True], cg_buffers = [Some [Some (ByVal 4), None, Some (ByVal 6)]]\<rparr>"

definition sample_vcol :: VectorColumn where
  "sample_vcol = \<lparr>vc_data_type = VECTORIZED_TYPE_INT64, vc_type_len = 8, vc_type_byval = True,
     vc_type_oid = 20, vc_data = Data64 [0, 0, 0, 0], vc_nulls = [0], vc_has_nulls = False, vc_offsets = None\<rparr>"

theorem loaded_column_holds_buffer_witness:
  "\<exists>v. load_batch_column (\<lambda>_. 0) sample_group 3 0 sample_vcol = Some v \<and>
       row_cell (Some v) 0 = Some 4 \<and> row_cell (Some v) 1 = None \<and> row_cell (Some v) 2 = Some 6"
proof -
  have "\<exists>v. load_batch_column (\<lambda>_. 0) sample_group 3 0 sample_vcol = Some v \<and> column_wf 4 v \<and>
      (\<forall>r < 3. row_cell (Some v) r =
         map_option (\<lambda>d. cell_of_word (vc_data_type sample_vcol) (datum_word (\<lambda>_. 0) d))
           ([Some (ByVal 4), None, Some (ByVal 6)] ! r))"
    by (rule loaded_column_holds_buffer)
       (simp_all add: sample_group_def sample_vcol_def column_wf_def data_fits_def)
  then obtain v where v: "load_batch_column (\<lambda>_. 0) sample_group 3 0 sample_vcol = Some v"
      "\<And>r. r < 3 \<Longrightarrow> row_cell (Some v) r =
         map_option (\<lambda>d. cell_of_word (vc_data_type sample_vcol) (datum_word (\<lambda>_. 0) d))
           ([Some (ByVal 4), None, Some (ByVal 6)] ! r)" by blast
  from v(2) [of 0] v(2) [of 1] v(2) [of 2] v(1) show ?thesis
    by (simp add: cell_of_word_def sample_vcol_def datum_word_def)
qed

text \<open>Resetting a batch forgets that a column has NULLs but leaves its bitmap: when the same batch is loaded
  again with a column that contains a NULL, rows that were NULL in the earlier load are NULL again although they
  now have a value.\<close>

theorem stale_null_survives_reset:
  assumes "table_col < length (cg_columns grp)" "cg_columns grp ! table_col"
    and "table_col < length (cg_buffers grp)" "cg_buffers grp ! table_col = Some src"
    and k: "array_get (vb_columns b) k = Some (Some vcol)" and wf: "column_wf cap vcol"
    and n: "n \<le> cap" "n \<le> length src"
    and stale: "bit (vc_nulls vcol ! (r div 64)) (r mod 64)" "r < n" and null: "j < n" "src ! j = None"
  shows "\<exists>c v. array_get (vb_columns (vector_batch_reset b)) k = Some (Some c) \<and>
               load_batch_column ptr grp n table_col c = Some v \<and> row_cell (Some v) r = None"
proof -
  let ?c = "vcol\<lparr>vc_has_nulls := False\<rparr>"
  have "array_get (vb_columns (vector_batch_reset b)) k = Some (Some ?c)"
    using k by (auto simp: vector_batch_reset_def array_get_def split: if_splits)
  moreover have "column_wf cap ?c" using wf by (simp add: column_wf_def)
  from load_rows_eq [OF this n, of ptr] obtain v where v: "fold_opt (load_row ptr src) [0..<n] ?c = Some v"
      "vc_has_nulls v" "bit (vc_nulls v ! (r div 64)) (r mod 64)"
    using null stale n(1) by auto
  ultimately show ?thesis
    using load_batch_column_buffer [OF assms(1-4)] by (auto simp: row_cell_data col_null_def)
qed

theorem stale_null_survives_reset_witness:
  "\<exists>b c v. array_get (vb_columns (vector_batch_reset b)) 0 = Some (Some c) \<and>
           load_batch_column (\<lambda>_. 0) sample_group 3 0 c = Some v \<and> row_cell (Some v) 2 = None \<and>
           cg_buffers sample_group ! 0 = Some [Some (ByVal 4), None, Some (ByVal 6)]"
proof -
  define b where "b = sample_batch\<lparr>vb_columns := [Some (sample_vcol\<lparr>vc_nulls := [4]\<rparr>)]\<rparr>"
  have "\<exists>c v. array_get (vb_columns (vector_batch_reset b)) 0 = Some (Some c) \<and>
           load_batch_column (\<lambda>_. 0) sample_group 3 0 c = Some v \<and> row_cell (Some v) 2 = None"
    by (rule stale_null_survives_reset [where j = 1 and cap = 4 and src = "[Some (ByVal 4), None, Some (ByVal 6)]"
          and vcol = "sample_vcol\<lparr>vc_nulls := [4]\<rparr>"])
       (simp_all add: b_def array_get_def sample_group_def sample_vcol_def column_wf_def data_fits_def)
  then show ?thesis by (auto simp: sample_group_def)
qed

section \<open>Compressed chunks\<close>

text \<open>The vectorized scan never decompresses. The metadata it looks at are fields that the catalog does not
  fill in, so it reads every stored chunk as if it were uncompressed: the values of a fixed-width column are cut
  out of the bytes it gets for the compressed ones.\<close>

theorem scan_reads_compressed_bytes_as_values:
  assumes ch: "ch \<in> set (orochi_catalog_get_stripe_columns (en_chunks env) stripe)"
    and row: "map_of (en_chunks env) (stripe, cg, col) = Some r" and data: "row_data r = Some bs" "bs \<noteq> []"
    and attr: "attbyval (en_attrs env ! col)" "0 < attlen (en_attrs env ! col)"
    and store: "\<not> missing_column [''chunk_data'', ''compressed_size''] (en_store env)"
    and size: "8 * n \<le> 1073741823" "length bs \<le> 1073741823"
  shows "scan_load_column env stripe cg col n (Some ch) =
           map_option Inr (decode_fixed_zero (attlen (en_attrs env ! col)) n (length bs)
             (map (cs_freed (en_store env) bs) [0..<length bs]))"
proof -
  let ?bs = "map (cs_freed (en_store env) bs) [0..<length bs]"
  have meta: "oc_compression_type ch = OROCHI_COMPRESS_NONE" "oc_uncompressed_size ch = 0"
    using ch by (auto simp: orochi_catalog_get_stripe_columns_def)
  have read: "orochi_catalog_read_chunk_data (en_store env) (Some r) = Inr (Some ?bs, int (length bs))"
    using data store by (simp add: orochi_catalog_read_chunk_data_def)
  have "fill_front ?bs (palloc (en_fresh env) (length bs)) = Some ?bs"
    by (simp add: fill_front_def palloc_def)
  then have "scan_decompress (en_lib env) (en_fresh env) ch ?bs = Some (Inr (length bs, ?bs))"
    using size by (simp add: scan_decompress_def meta Let_def)
  with read row data attr size show ?thesis by (simp add: scan_load_column_def)
qed

definition sample_env :: scan_env where
  "sample_env =
     \<lparr>en_stripes = [stripe_of_row 1 1],
      en_chunks = [((1, 0, 0), \<lparr>row_value_count = 1, row_null_count = 0, row_has_nulls = False, row_compressed_size = 8,
                     row_decompressed_size = 8, row_compression = OROCHI_COMPRESS_DELTA,
                     row_data = Some [9, 1, 0, 0, 0, 0, 0, 0]\<rparr>)],
      en_store = \<lparr>cs_columns = init_chunk_columns, cs_freed = (\<lambda>bs. (!) bs)\<rparr>,
      en_skip_list = None, en_attrs = [int8_attr], en_types = [20], en_lib = no_libs, en_fresh = (\<lambda>_. 0),
      en_ptr = (\<lambda>_. 0)\<rparr>"

theorem scan_reads_compressed_bytes_as_values_witness:
  "\<exists>ch. scan_load_column sample_env 1 0 0 1 (Some ch) = Some (Inr [Some (ByVal 265)])"
proof -
  let ?chs = "orochi_catalog_get_stripe_columns (en_chunks sample_env) 1"
  obtain ch where ch: "ch \<in> set ?chs"
    by (simp add: orochi_catalog_get_stripe_columns_def sample_env_def)
  have attr: "en_attrs sample_env ! 0 = int8_attr" by (simp add: sample_env_def)
  let ?bs = "[9, 1, 0, 0, 0, 0, 0, 0 :: u8]"
  have intact: "map (cs_freed (en_store sample_env) ?bs) [0..<length ?bs] = ?bs"
    by (simp add: sample_env_def upt_rec)
  have "scan_load_column sample_env 1 0 0 1 (Some ch) =
      map_option Inr (decode_fixed_zero (attlen (en_attrs sample_env ! 0)) 1 (length ?bs)
        (map (cs_freed (en_store sample_env) ?bs) [0..<length ?bs]))"
    by (rule scan_reads_compressed_bytes_as_values [OF ch, where r = "snd (hd (en_chunks sample_env))"])
       (simp_all add: sample_env_def int8_attr_def missing_column_def init_chunk_columns_def)
  also have "\<dots> = Some (Inr [Some (ByVal 265)])"
    by (simp only: intact) (simp add: attr int8_attr_def decode_fixed_zero_def)
  finally show ?thesis by blast
qed

section \<open>What a scan returns\<close>

lemma next_group_cong:
  "vs_stripe s' = vs_stripe s \<Longrightarrow> vs_chunk_group_index s' = vs_chunk_group_index s \<Longrightarrow>
   vs_stripe_index s' = vs_stripe_index s \<Longrightarrow> next_group env s = None \<Longrightarrow> next_group env s' = None"
  by (auto simp: next_group_def Let_def split: option.splits if_splits)

text \<open>The rest of a chunk group from which a batch has been taken is passed over without being returned.\<close>

lemma scan_drains:
  assumes "vs_chunk_group s = Some grp" and "0 < vs_row_in_chunk s" and "next_group env s = None"
  shows "\<exists>s'. scan_loop env s 0 = Some (Inr (s', 0))"
  using assms
proof (induction "cg_row_count grp - vs_row_in_chunk s" arbitrary: s rule: less_induct)
  case less
  show ?case
  proof (cases "vs_row_in_chunk s < cg_row_count grp")
    case False
    with less.prems have "scan_step env s 0 = Some (Inr (Finished (exhausted env s) 0))"
      by (simp add: scan_step_def at_group_end_def)
    then show ?thesis by (subst scan_loop.simps) simp
  next
    case True
    let ?k = "min (cg_row_count grp - vs_row_in_chunk s) 1024"
    let ?s = "s\<lparr>vs_row_in_chunk := vs_row_in_chunk s + ?k, vs_total_rows_read := vs_total_rows_read s + ?k\<rparr>"
    have "take_rows env s grp 0 = Some (Continue ?s 0)"
      using less.prems(2) by (simp add: take_rows_def Let_def)
    then have "scan_step env s 0 = Some (Inr (Continue ?s 0))"
      using True less.prems(1) by (simp add: scan_step_def at_group_end_def)
    moreover have "\<exists>s'. scan_loop env ?s 0 = Some (Inr (s', 0))"
      using less.prems True by (intro less.hyps) (auto intro: next_group_cong [of ?s s])
    ultimately show ?thesis by (subst scan_loop.simps) simp
  qed
qed

lemma scan_load_group_rows:
  assumes "scan_load_group env proj st cg = Some (Inr grp)"
  shows "cg_row_count grp = st_row_count st"
  using assms by (auto simp: scan_load_group_def Let_def split: option.splits sum.splits)

lemma load_batch_count:
  "load_batch_from_chunk_group ptr proj b grp = Some b' \<Longrightarrow> vb_count b' = min (cg_row_count grp) (vb_capacity b)"
  by (auto simp: load_batch_from_chunk_group_def Let_def)

text \<open>A table of one stripe with up to 10000 rows, a default chunk group: the first call of the scan returns a
  batch with the first 1024 rows, or all of them when there are no more, and the second call says that there are
  no more data. The rows of a chunk group beyond the first 1024 are never returned.\<close>

theorem scan_returns_first_batch_only:
  assumes n: "0 < n" "n \<le> 10000" and env: "en_stripes env = [stripe_of_row sid n]"
    and s: "vs_stripe_index s = - 1" "vs_stripe s = None" "vs_chunk_group_index s = 0" "vs_chunk_group s = None"
      "vs_predicates s = []" "vb_capacity (vs_batch s) = VECTORIZED_BATCH_SIZE"
    and grp: "scan_load_group env (vs_projection_map s) (stripe_of_row sid n) 0 = Some (Inr grp)"
    and load: "load_batch_from_chunk_group (en_ptr env) (vs_projection_map s) (vector_batch_reset (vs_batch s)) grp = Some b"
  shows "\<exists>b' s1 s2. vectorized_columnar_scan env s = Some (Inr (Some b', s1)) \<and>
           vb_count b' = min n VECTORIZED_BATCH_SIZE \<and> vb_columns b' = vb_columns b \<and>
           vectorized_columnar_scan env s1 = Some (Inr (None, s2))"
proof -
  let ?st = "stripe_of_row sid n" and ?k = "min n VECTORIZED_BATCH_SIZE"
  let ?s0 = "s\<lparr>vs_batch := vector_batch_reset (vs_batch s)\<rparr>"
  let ?s1 = "?s0\<lparr>vs_chunk_group_index := 0, vs_stripe_index := 0, vs_stripe := Some ?st,
               vs_chunk_group := Some grp, vs_row_in_chunk := 0\<rparr>"
  let ?s2 = "?s1\<lparr>vs_batch := b, vs_row_in_chunk := ?k, vs_total_rows_read := vs_total_rows_read s + ?k\<rparr>"
  have groups: "st_chunk_group_count ?st = 1" using n by (simp add: stripe_of_row_def)
  have rows: "cg_row_count grp = n" using scan_load_group_rows [OF grp] by (simp add: stripe_of_row_def)
  have b: "vb_count b = ?k"
    using load_batch_count [OF load] rows s(6) by (simp add: vector_batch_reset_def)
  have "next_group env ?s0 = Some (?s0\<lparr>vs_chunk_group_index := 0, vs_stripe_index := 0, vs_stripe := Some ?st\<rparr>)"
    using s env by (simp add: next_group_def)
  moreover have "take_rows env ?s1 grp 0 = Some (Continue ?s2 ?k)"
    using load rows b n by (simp add: take_rows_def Let_def)
  ultimately have step: "scan_step env ?s0 0 = Some (Inr (Continue ?s2 ?k))"
    using s grp
    by (simp add: scan_step_def at_group_end_def scan_skips_def vectorized_skips_def split: option.split)
  then have loop: "scan_loop env ?s0 0 = scan_loop env ?s2 ?k"
    by (subst scan_loop.simps) simp
  have none: "next_group env s' = None"
    if "vs_stripe s' = Some ?st" "vs_stripe_index s' \<ge> 0" for s'
    using that env groups by (auto simp: next_group_def)
  obtain s3 where s3: "scan_loop env ?s0 0 = Some (Inr (s3, ?k))" "vs_batch s3 = b"
      "vs_stripe s3 = Some ?st" "vs_stripe_index s3 \<ge> 0" "vs_chunk_group s3 = Some grp" "vs_row_in_chunk s3 = ?k"
  proof (cases "n < VECTORIZED_BATCH_SIZE")
    case True
    have "scan_step env ?s2 ?k = Some (Inr (Finished (exhausted env ?s2) ?k))"
      using none [of ?s2] rows True by (simp add: scan_step_def at_group_end_def)
    then have "scan_loop env ?s2 ?k = Some (Inr (exhausted env ?s2, ?k))"
      using True by (subst scan_loop.simps) simp
    with loop show thesis by (intro that [of "exhausted env ?s2"]) (simp_all add: exhausted_def)
  next
    case False
    then have "scan_loop env ?s2 ?k = Some (Inr (?s2, ?k))"
      by (subst scan_loop.simps) simp
    with loop show thesis by (intro that [of ?s2]) simp_all
  qed
  let ?b = "b\<lparr>vb_count := ?k, vb_rows_processed := vb_rows_processed b + ?k\<rparr>"
  let ?s4 = "s3\<lparr>vs_batch := ?b, vs_rows_scanned := vs_rows_scanned s3 + ?k, vs_batches_read := Suc (vs_batches_read s3)\<rparr>"
  have first: "vectorized_columnar_scan env s = Some (Inr (Some ?b, ?s4))"
    using s3(1,2) n by (simp add: vectorized_columnar_scan_def Let_def)
  let ?s5 = "?s4\<lparr>vs_batch := vector_batch_reset ?b\<rparr>"
  have "\<exists>s'. scan_loop env ?s5 0 = Some (Inr (s', 0))"
    using s3 n none [of ?s5] by (intro scan_drains) auto
  then have "\<exists>s2. vectorized_columnar_scan env ?s4 = Some (Inr (None, s2))"
    by (auto simp: vectorized_columnar_scan_def)
  with first show ?thesis by force
qed

definition long_env :: scan_env where
  "long_env = sample_env\<lparr>en_stripes := [stripe_of_row 1 5000], en_chunks := []\<rparr>"

lemma long_scan:
  "\<exists>s. vectorized_columnar_scan_begin (\<lambda>_. 0) long_env None = Inr s \<and>
       vs_stripe_index s = - 1 \<and> vs_stripe s = None \<and> vs_chunk_group_index s = 0 \<and> vs_chunk_group s = None \<and>
       vs_predicates s = [] \<and> vb_capacity (vs_batch s) = VECTORIZED_BATCH_SIZE \<and> vs_projection_map s = [0] \<and>
       (\<exists>c. vb_columns (vs_batch s) = [Some c] \<and> vc_nulls c = replicate 16 0)"
  by (simp add: vectorized_columnar_scan_begin_def long_env_def sample_env_def vector_batch_create_def
        vector_batch_add_column_def vectorized_type_from_oid_def)

theorem scan_returns_first_batch_only_witness:
  "\<exists>s b' s1 s2. vectorized_columnar_scan_begin (\<lambda>_. 0) long_env None = Inr s \<and>
     vectorized_columnar_scan long_env s = Some (Inr (Some b', s1)) \<and> vb_count b' = 1024 \<and>
     vectorized_columnar_scan long_env s1 = Some (Inr (None, s2))"
proof -
  obtain s c where s: "vectorized_columnar_scan_begin (\<lambda>_. 0) long_env None = Inr s"
      "vs_stripe_index s = - 1" "vs_stripe s = None" "vs_chunk_group_index s = 0" "vs_chunk_group s = None"
      "vs_predicates s = []" "vb_capacity (vs_batch s) = VECTORIZED_BATCH_SIZE" "vs_projection_map s = [0]"
      "vb_columns (vs_batch s) = [Some c]" "vc_nulls c = replicate 16 0"
    using long_scan by blast
  have stripes: "en_stripes long_env = [stripe_of_row 1 5000]" and chunks: "en_chunks long_env = []"
    and attrs: "en_attrs long_env = [int8_attr]"
    by (simp_all add: long_env_def sample_env_def)
  have grp: "scan_load_group long_env (vs_projection_map s) (stripe_of_row 1 5000) 0 =
      Some (Inr \<lparr>cg_row_count = 5000, cg_columns = [False], cg_buffers = [Some (replicate 5000 None)]\<rparr>)"
    by (simp add: scan_load_group_def chunks attrs s(8) orochi_catalog_get_stripe_columns_def chunk_meta_def
          scan_load_column_def stripe_of_row_def)
  obtain b where load: "load_batch_from_chunk_group (en_ptr long_env) (vs_projection_map s)
      (vector_batch_reset (vs_batch s))
      \<lparr>cg_row_count = 5000, cg_columns = [False], cg_buffers = [Some (replicate 5000 None)]\<rparr> = Some b"
    by (simp add: load_batch_from_chunk_group_def load_batch_column_def vector_batch_reset_def s(7-10)
          array_get_def array_store_def)
  have "min 5000 1024 = (1024 :: nat)" by simp
  with scan_returns_first_batch_only [OF _ _ stripes s(2-7) grp load] s(1) show ?thesis by auto
qed

end
