(* ===== verification/Hyperloglog.thy ===== *)
theory Hyperloglog
  imports Gorilla Complex_Main
begin

text \<open>
  The HyperLogLog sketch (\<^verbatim>\<open>approx/hyperloglog.c\<close>): MurmurHash3, registers, adding and merging, serialization and
  the functions of the SQL aggregate. The floating-point operations of \<^verbatim>\<open>hll_count\<close> are a parameter
  (\<open>fp_ops\<close>); \<open>exact_math\<close> instantiates them with the real numbers.

  A sketch stands for the set of hashes that were added to it: the registers are a function of that set, and
  merging is the union. Merging is the join of a semilattice, so partial sketches can be combined in any order.
\<close>

unbundle bit_operations_syntax

section \<open>MurmurHash3\<close>

definition rotl64 :: "u64 \<Rightarrow> nat \<Rightarrow> u64" where
  "rotl64 x r = push_bit r x OR drop_bit (64 - r) x"

definition fmix64 :: "u64 \<Rightarrow> u64" where
  "fmix64 k =
     (let k = k XOR drop_bit 33 k; k = k * 0xff51afd7ed558ccd;
          k = k XOR drop_bit 33 k; k = k * 0xc4ceb9fe1a85ec53
      in k XOR drop_bit 33 k)"

abbreviation (input) murmur_c1 :: u64 where "murmur_c1 \<equiv> 0x87c37b91114253d5"
abbreviation (input) murmur_c2 :: u64 where "murmur_c2 \<equiv> 0x4cf5ad432745937f"
abbreviation (input) MURMUR_SEED :: u64 where "MURMUR_SEED \<equiv> 42"

definition murmur_block :: "u64 \<Rightarrow> u64 \<Rightarrow> u64 \<times> u64 \<Rightarrow> u64 \<times> u64" where
  "murmur_block k1 k2 h =
     (let (h1, h2) = h;
          h1 = h1 XOR rotl64 (k1 * murmur_c1) 31 * murmur_c2;
          h1 = (rotl64 h1 27 + h2) * 5 + 0x52dce729;
          h2 = h2 XOR rotl64 (k2 * murmur_c2) 33 * murmur_c1;
          h2 = (rotl64 h2 31 + h1) * 5 + 0x38495ab5
      in (h1, h2))"

fun murmur_blocks :: "nat \<Rightarrow> bytes \<Rightarrow> u64 \<times> u64 \<Rightarrow> (u64 \<times> u64) \<times> bytes" where
  "murmur_blocks 0 bs h = (h, bs)"
| "murmur_blocks (Suc n) bs h =
     murmur_blocks n (drop 16 bs)
       (murmur_block (word_of_nat (le_nat (take 8 bs))) (word_of_nat (le_nat (take 8 (drop 8 bs)))) h)"

text \<open>The switch on the length of the tail falls through from the last byte to the first.\<close>

definition murmur_tail :: "bytes \<Rightarrow> u64 \<times> u64 \<Rightarrow> u64 \<times> u64" where
  "murmur_tail t h =
     (let (h1, h2) = h; n = length t;
          k2 = fold (\<lambda>j k. k XOR push_bit (8 * (j - 8)) (ucast (t ! j))) (rev [8..<n]) 0;
          k1 = fold (\<lambda>j k. k XOR push_bit (8 * j) (ucast (t ! j))) (rev [0..<min 8 n]) 0
      in (if 1 \<le> n then h1 XOR rotl64 (k1 * murmur_c1) 31 * murmur_c2 else h1,
          if 9 \<le> n then h2 XOR rotl64 (k2 * murmur_c2) 33 * murmur_c1 else h2))"

definition hll_murmurhash3_64 :: "bytes \<Rightarrow> u64 \<Rightarrow> u64" where
  "hll_murmurhash3_64 key seed =
     (let len = word_of_nat (length key);
          (h, t) = murmur_blocks (length key div 16) key (seed, seed);
          (h1, h2) = murmur_tail t h;
          h1 = h1 XOR len; h2 = h2 XOR len;
          h1 = h1 + h2; h2 = h2 + h1;
          h1 = fmix64 h1; h2 = fmix64 h2
      in h1 + h2)"

section \<open>Sketches\<close>

record HyperLogLog =
  hll_precision :: nat
  hll_sparse :: u8
  hll_flags :: u16
  hll_total_count :: u64
  hll_registers :: "u8 list"

abbreviation (input) HLL_PRECISION_DEFAULT :: nat where "HLL_PRECISION_DEFAULT \<equiv> 14"
abbreviation (input) HLL_PRECISION_MIN :: nat where "HLL_PRECISION_MIN \<equiv> 4"
abbreviation (input) HLL_PRECISION_MAX :: nat where "HLL_PRECISION_MAX \<equiv> 18"

text \<open>\<open>gnu\<close> says whether the compiler has \<^verbatim>\<open>__builtin_clzll\<close>; the branch without it is the binary search of
  \<^verbatim>\<open>storage/compression.c\<close>.\<close>

definition hll_leading_zeros :: "bool \<Rightarrow> u64 \<Rightarrow> nat" where
  "hll_leading_zeros gnu x =
     (if x = 0 then 64
      else if gnu then clz64 x
      else fst (clz_step 0x8000000000000000 1
                 (clz_step 0xC000000000000000 2
                   (clz_step 0xF000000000000000 4
                     (clz_step 0xFF00000000000000 8
                       (clz_step 0xFFFF000000000000 16
                         (clz_step 0xFFFFFFFF00000000 32 (0, x))))))))"

definition hll_create :: "nat \<Rightarrow> HyperLogLog" where
  "hll_create precision =
     (let p = (if precision < HLL_PRECISION_MIN then HLL_PRECISION_MIN
               else if precision > HLL_PRECISION_MAX then HLL_PRECISION_MAX else precision)
      in \<lparr>hll_precision = p, hll_sparse = 0, hll_flags = 0, hll_total_count = 0, hll_registers = replicate (2 ^ p) 0\<rparr>)"

definition hash_index :: "nat \<Rightarrow> u64 \<Rightarrow> nat" where
  "hash_index p hash = unat (drop_bit (64 - p) hash)"

definition hash_rank :: "bool \<Rightarrow> nat \<Rightarrow> u64 \<Rightarrow> u8" where
  "hash_rank gnu p hash = word_of_nat (hll_leading_zeros gnu (push_bit p hash OR push_bit (p - 1) 1)) + 1"

definition hll_add_hash :: "bool \<Rightarrow> HyperLogLog \<Rightarrow> u64 \<Rightarrow> HyperLogLog option" where
  "hll_add_hash gnu h hash =
     (let idx = hash_index (hll_precision h) hash; rank = hash_rank gnu (hll_precision h) hash in
      do { r \<leftarrow> array_get (hll_registers h) idx;
           regs \<leftarrow> (if rank > r then array_store (hll_registers h) idx rank else Some (hll_registers h));
           Some (h\<lparr>hll_registers := regs, hll_total_count := hll_total_count h + 1\<rparr>) })"

definition hll_add :: "bool \<Rightarrow> HyperLogLog \<Rightarrow> bytes \<Rightarrow> HyperLogLog option" where
  "hll_add gnu h data = hll_add_hash gnu h (hll_murmurhash3_64 data MURMUR_SEED)"

text \<open>A NULL sketch is \<^const>\<open>None\<close>.\<close>

definition hll_merge :: "HyperLogLog option \<Rightarrow> HyperLogLog option \<Rightarrow> HyperLogLog option outcome" where
  "hll_merge hll1 hll2 =
     (case (hll1, hll2) of
        (None, _) \<Rightarrow> Some (Inr hll2)
      | (_, None) \<Rightarrow> Some (Inr hll1)
      | (Some h1, Some h2) \<Rightarrow>
          if hll_precision h1 \<noteq> hll_precision h2
          then Some (Inl (ERROR ''cannot merge HyperLogLogs with different precisions''))
          else let result = hll_create (hll_precision h1) in
               do { regs \<leftarrow> fold_opt (\<lambda>i regs. do { a \<leftarrow> array_get (hll_registers h1) i;
                                                    b \<leftarrow> array_get (hll_registers h2) i;
                                                    array_store regs i (if a > b then a else b) })
                              [0..<2 ^ hll_precision h1] (hll_registers result);
                    Some (Inr (Some (result\<lparr>hll_registers := regs,
                                            hll_total_count := hll_total_count h1 + hll_total_count h2\<rparr>))) })"

definition hll_merge_inplace :: "HyperLogLog option \<Rightarrow> HyperLogLog option \<Rightarrow> HyperLogLog option outcome" where
  "hll_merge_inplace hll1 hll2 =
     (case (hll1, hll2) of
        (Some h1, Some h2) \<Rightarrow>
          if hll_precision h1 \<noteq> hll_precision h2
          then Some (Inl (ERROR ''cannot merge HyperLogLogs with different precisions''))
          else do { regs \<leftarrow> fold_opt (\<lambda>i regs. do { a \<leftarrow> array_get regs i;
                                                     b \<leftarrow> array_get (hll_registers h2) i;
                                                     if b > a then array_store regs i b else Some regs })
                              [0..<2 ^ hll_precision h1] (hll_registers h1);
                    Some (Inr (Some (h1\<lparr>hll_registers := regs,
                                        hll_total_count := hll_total_count h1 + hll_total_count h2\<rparr>))) }
      | _ \<Rightarrow> Some (Inr hll1))"

definition hll_reset :: "HyperLogLog \<Rightarrow> HyperLogLog option" where
  "hll_reset h =
     (if 2 ^ hll_precision h \<le> length (hll_registers h)
      then Some (h\<lparr>hll_registers := replicate (2 ^ hll_precision h) 0 @ drop (2 ^ hll_precision h) (hll_registers h),
                   hll_total_count := 0\<rparr>)
      else None)"

definition hll_size :: "HyperLogLog \<Rightarrow> nat" where
  "hll_size h = 16 + 2 ^ hll_precision h"

section \<open>The estimate\<close>

text \<open>The operations of a floating-point type; \<open>f_lit m k\<close> is the decimal literal of value \<open>m / 10 ^ k\<close>. \<^verbatim>\<open>float\<close> and
  \<^verbatim>\<open>double\<close> are two instances, and a \<^verbatim>\<open>float\<close> operand is widened.\<close>

record 'f fp_ops =
  fadd :: "'f \<Rightarrow> 'f \<Rightarrow> 'f"
  fsub :: "'f \<Rightarrow> 'f \<Rightarrow> 'f"
  fmul :: "'f \<Rightarrow> 'f \<Rightarrow> 'f"
  fdiv :: "'f \<Rightarrow> 'f \<Rightarrow> 'f"
  fneg :: "'f \<Rightarrow> 'f"
  fle :: "'f \<Rightarrow> 'f \<Rightarrow> bool"
  flt :: "'f \<Rightarrow> 'f \<Rightarrow> bool"
  flog :: "'f \<Rightarrow> 'f"
  fsqrt :: "'f \<Rightarrow> 'f"
  fround :: "'f \<Rightarrow> 'f"
  f_of_int :: "int \<Rightarrow> 'f"
  f_lit :: "int \<Rightarrow> nat \<Rightarrow> 'f"
  f_to_int64 :: "'f \<Rightarrow> int"

record ('s, 'f) hll_math =
  sp :: "'s fp_ops"
  dp :: "'f fp_ops"
  widen :: "'s \<Rightarrow> 'f"

definition hll_alpha :: "('s, 'f) hll_math \<Rightarrow> nat \<Rightarrow> 's" where
  "hll_alpha fm precision =
     (let m = 2 ^ precision; F = sp fm in
      if m = 16 then f_lit F 673 3
      else if m = 32 then f_lit F 697 3
      else if m = 64 then f_lit F 709 3
      else fdiv F (f_lit F 7213 4) (fadd F (f_lit F 10 1) (fdiv F (f_lit F 1079 3) (f_of_int F m))))"

definition hll_error_rate :: "('s, 'f) hll_math \<Rightarrow> nat \<Rightarrow> 's" where
  "hll_error_rate fm precision =
     (let F = sp fm in fdiv F (f_lit F 104 2) (fsqrt F (f_of_int F (2 ^ precision))))"

definition bias_thresholds :: "int list" where
  "bias_thresholds = [10, 20, 30, 40, 50, 60, 70, 80, 90, 100, 120, 140, 160, 180, 200, 220, 240, 260, 280, 300]"

text \<open>In units of 0.0001.\<close>

definition bias_data_p14 :: "int list" where
  "bias_data_p14 = [7153, 6800, 6566, 6333, 6100, 5867, 5634, 5400, 5167, 4934,
                    4600, 4267, 3934, 3600, 3267, 2933, 2600, 2267, 1934, 1600]"

definition interpolated_bias :: "'f fp_ops \<Rightarrow> 'f \<Rightarrow> nat \<Rightarrow> 'f" where
  "interpolated_bias F raw i =
     (let th = (\<lambda>j. f_of_int F (bias_thresholds ! j)); bd = (\<lambda>j. f_lit F (bias_data_p14 ! j) 4);
          t = fdiv F (fsub F raw (th i)) (fsub F (th (i + 1)) (th i))
      in fadd F (bd i) (fmul F t (fsub F (bd (i + 1)) (bd i))))"

definition apply_bias_correction :: "'f fp_ops \<Rightarrow> 'f \<Rightarrow> nat \<Rightarrow> 'f" where
  "apply_bias_correction F raw precision =
     (if precision \<noteq> 14 \<or> fle F (f_of_int F (bias_thresholds ! 19)) raw then raw
      else let bias = (case find (\<lambda>i. flt F raw (f_of_int F (bias_thresholds ! (i + 1)))) [0..<19] of
                         None \<Rightarrow> f_lit F 0 1 | Some i \<Rightarrow> interpolated_bias F raw i)
           in fsub F raw (fmul F bias raw))"

text \<open>The loop over the registers; a shift by 64 or more is undefined.\<close>

definition register_sums :: "'f fp_ops \<Rightarrow> HyperLogLog \<Rightarrow> ('f \<times> nat) option" where
  "register_sums F h =
     fold_opt (\<lambda>i (s, empty_registers).
         do { r \<leftarrow> array_get (hll_registers h) i;
              if unat r < 64
              then Some (fadd F s (fdiv F (f_lit F 10 1) (f_of_int F (2 ^ unat r))),
                         if r = 0 then empty_registers + 1 else empty_registers)
              else None })
       [0..<2 ^ hll_precision h] (f_lit F 0 1, 0)"

definition hll_count :: "('s, 'f) hll_math \<Rightarrow> HyperLogLog \<Rightarrow> int option" where
  "hll_count fm h =
     (let F = dp fm; num_registers = 2 ^ hll_precision h; m = f_of_int F num_registers;
          alpha = widen fm (hll_alpha fm (hll_precision h)); two32 = f_of_int F 4294967296 in
      do { (s, empty_registers) \<leftarrow> register_sums F h;
           let raw_estimate = fdiv F (fmul F (fmul F alpha m) m) s;
           let estimate =
                 (if fle F raw_estimate (widen fm (fmul (sp fm) (f_lit (sp fm) 25 1) (f_of_int (sp fm) num_registers)))
                  then if empty_registers > 0
                       then fmul F m (flog F (fdiv F m (f_of_int F (int empty_registers))))
                       else raw_estimate
                  else if fle F raw_estimate (fmul F (fdiv F (f_lit F 10 1) (f_lit F 300 1)) two32)
                  then raw_estimate
                  else fmul F (fneg F two32) (flog F (fsub F (f_lit F 10 1) (fdiv F raw_estimate two32))));
           let estimate = apply_bias_correction F estimate (hll_precision h);
           Some (f_to_int64 F (fround F estimate)) })"

section \<open>Serialization\<close>

definition hll_serialize :: "HyperLogLog \<Rightarrow> bytes option" where
  "hll_serialize h =
     (if 2 ^ hll_precision h \<le> length (hll_registers h)
      then Some ([word_of_nat (hll_precision h), hll_sparse h] @ le_bytes 2 (unat (hll_flags h)) @
                 le_bytes 8 (unat (hll_total_count h)) @ take (2 ^ hll_precision h) (hll_registers h))
      else None)"

text \<open>Reading past the end of the data, and copying more registers than were allocated, is undefined.\<close>

definition hll_deserialize :: "bytes \<Rightarrow> HyperLogLog option" where
  "hll_deserialize data =
     (if length data < 12 then None
      else let precision = unat (data ! 0); hll = hll_create precision; regs = drop 12 data in
           if length regs < 2 ^ precision \<or> length (hll_registers hll) < 2 ^ precision then None
           else Some (hll\<lparr>hll_sparse := data ! 1, hll_flags := word_of_nat (le_nat (take 2 (drop 2 data))),
                          hll_total_count := word_of_nat (le_nat (take 8 (drop 4 data))),
                          hll_registers := take (2 ^ precision) regs @ drop (2 ^ precision) (hll_registers hll)\<rparr>))"

section \<open>Hashing of SQL values\<close>

text \<open>A value with its type. Of a type without a case of its own the model has the result of its hash function,
  if it has one, and the Datum. The Datum of a by-reference type is an address, so a value of such a type that has no hash
  function is a different \<open>Value_other\<close> wherever a row is stored elsewhere: the code hashes the address.\<close>

datatype hll_value =
  Value_int2 u16 | Value_int4 u32 | Value_int8 u64 | Value_float4 u32 | Value_float8 u64 |
  Value_text bytes | Value_bytea bytes | Value_uuid bytes | Value_other "u32 option" u64

fun value_bytes :: "hll_value \<Rightarrow> bytes" where
  "value_bytes (Value_int2 v) = le_bytes 2 (unat v)"
| "value_bytes (Value_int4 v) = le_bytes 4 (unat v)"
| "value_bytes (Value_int8 v) = le_bytes 8 (unat v)"
| "value_bytes (Value_float4 v) = le_bytes 4 (unat v)"
| "value_bytes (Value_float8 v) = le_bytes 8 (unat v)"
| "value_bytes (Value_text bs) = bs"
| "value_bytes (Value_bytea bs) = bs"
| "value_bytes (Value_uuid bs) = bs"
| "value_bytes (Value_other (Some h) _) = le_bytes 4 (unat h)"
| "value_bytes (Value_other None d) = le_bytes 8 (unat d)"

definition hll_hash_datum :: "hll_value option \<Rightarrow> u64" where
  "hll_hash_datum v =
     (case v of
        None \<Rightarrow> hll_murmurhash3_64 (le_bytes 8 0xDEADBEEFCAFEBABE) MURMUR_SEED
      | Some x \<Rightarrow> hll_murmurhash3_64 (value_bytes x) MURMUR_SEED)"

section \<open>The aggregate and the SQL functions\<close>

definition hll_trans :: "bool \<Rightarrow> HyperLogLog option \<Rightarrow> hll_value option \<Rightarrow> HyperLogLog option" where
  "hll_trans gnu state v =
     (let h = (case state of None \<Rightarrow> hll_create HLL_PRECISION_DEFAULT | Some h \<Rightarrow> h) in
      case v of None \<Rightarrow> Some h | Some x \<Rightarrow> hll_add_hash gnu h (hll_hash_datum (Some x)))"

definition hll_combine :: "HyperLogLog option \<Rightarrow> HyperLogLog option \<Rightarrow> HyperLogLog option outcome" where
  "hll_combine state1 state2 =
     (if state1 = None \<and> state2 = None then Some (Inr None) else hll_merge state1 state2)"

definition hll_final :: "('s, 'f) hll_math \<Rightarrow> HyperLogLog option \<Rightarrow> int option" where
  "hll_final fm state = (case state of None \<Rightarrow> Some 0 | Some h \<Rightarrow> hll_count fm h)"

definition hll_serial :: "HyperLogLog option \<Rightarrow> bytes option option" where
  "hll_serial state = (case state of None \<Rightarrow> Some None | Some h \<Rightarrow> map_option Some (hll_serialize h))"

definition hll_deserial :: "bytes option \<Rightarrow> HyperLogLog option option" where
  "hll_deserial data = (case data of None \<Rightarrow> Some None | Some bs \<Rightarrow> map_option Some (hll_deserialize bs))"

definition hll_create_sql :: "int \<Rightarrow> pg_error + HyperLogLog" where
  "hll_create_sql precision =
     (if precision < int HLL_PRECISION_MIN \<or> precision > int HLL_PRECISION_MAX
      then Inl (ERROR ''HLL precision must be between 4 and 18'')
      else Inr (hll_create (nat precision)))"

definition hll_add_sql :: "bool \<Rightarrow> HyperLogLog option \<Rightarrow> hll_value option \<Rightarrow> HyperLogLog outcome" where
  "hll_add_sql gnu state v =
     (case state of
        None \<Rightarrow> Some (Inl (ERROR ''HLL cannot be NULL''))
      | Some h \<Rightarrow> map_option Inr (case v of None \<Rightarrow> Some h | Some x \<Rightarrow> hll_add_hash gnu h (hll_hash_datum (Some x))))"

definition hll_count_sql :: "('s, 'f) hll_math \<Rightarrow> HyperLogLog option \<Rightarrow> int option" where
  "hll_count_sql fm h = (case h of None \<Rightarrow> Some 0 | Some h \<Rightarrow> hll_count fm h)"

definition hll_merge_sql :: "HyperLogLog option \<Rightarrow> HyperLogLog option \<Rightarrow> HyperLogLog option outcome" where
  "hll_merge_sql hll1 hll2 =
     (if hll1 = None \<and> hll2 = None then Some (Inr None) else hll_merge hll1 hll2)"

text \<open>The text representation; \<^verbatim>\<open>sscanf\<close> with \<^verbatim>\<open>%d\<close> skips white space and reads a sign and digits. A number that does not fit
  an \<^verbatim>\<open>int\<close> is undefined.\<close>

definition scan_int :: "bytes \<Rightarrow> int option option" where
  "scan_int s =
     (let s = dropWhile (\<lambda>c. c = 32 \<or> 9 \<le> c \<and> c \<le> 13) s;
          (neg, s) = (case s of [] \<Rightarrow> (False, s) | c # cs \<Rightarrow> if c = 45 then (True, cs) else if c = 43 then (False, cs) else (False, s));
          ds = takeWhile is_digit s; v = (if neg then - int (digits_value ds) else int (digits_value ds))
      in if ds = [] then Some None else if is_i32 v then Some (Some v) else None)"

definition hll_in :: "bytes \<Rightarrow> HyperLogLog option" where
  "hll_in str =
     (let fmt = ascii ''HLL(precision='' in
      if take (length fmt) str = fmt
      then (case scan_int (drop (length fmt) str) of
              None \<Rightarrow> None
            | Some (Some precision) \<Rightarrow> Some (hll_create (nat (precision mod 256)))
            | Some None \<Rightarrow> Some (hll_create HLL_PRECISION_DEFAULT))
      else Some (hll_create HLL_PRECISION_DEFAULT))"

definition hll_out :: "('s, 'f) hll_math \<Rightarrow> HyperLogLog \<Rightarrow> bytes option" where
  "hll_out fm h =
     map_option (\<lambda>estimate. ascii ''HLL(precision='' @ decimal (hll_precision h) @ ascii '', estimate='' @ decimal_int estimate @
                  ascii '', total_added='' @ decimal_int (sint (hll_total_count h)) @ ascii '')'')
       (hll_count fm h)"

section \<open>Indices and ranks\<close>

lemma hll_leading_zeros_clz: "hll_leading_zeros gnu x = (if x = 0 then 64 else clz64 x)"
  using clz_portable [of x]
  by (auto simp: hll_leading_zeros_def count_leading_zeros_def count_leading_zeros_portable_def)

lemma hash_index_less:
  assumes "p \<le> 64"
  shows "hash_index p x < 2 ^ p"
proof -
  have "unat x < 2 ^ (64 - p) * 2 ^ p"
    using unsigned_less [of x] assms by (simp flip: power_add)
  then show ?thesis
    unfolding hash_index_def unat_drop_bit_eq by (simp only: drop_bit_eq_div less_mult_imp_div_less mult.commute)
qed

text \<open>The bit set below the shifted hash bounds the rank.\<close>

lemma hash_rank_bounds:
  assumes "0 < p" "p \<le> 64"
  shows "1 \<le> unat (hash_rank gnu p x)" and "unat (hash_rank gnu p x) \<le> 65 - p"
proof -
  let ?y = "push_bit p x OR push_bit (p - 1) 1"
  have b: "bit ?y (p - 1)" using assms by (auto simp: bit_simps)
  then have "?y \<noteq> 0" by auto
  moreover have "\<not> 65 - p \<le> clz64 ?y"
    unfolding clz64_ge using b assms by (auto intro!: exI [of _ "p - Suc 0"])
  ultimately have "hll_leading_zeros gnu ?y \<le> 64 - p" by (simp add: hll_leading_zeros_clz)
  moreover from this have "unat (hash_rank gnu p x) = hll_leading_zeros gnu ?y + 1"
    unfolding hash_rank_def using assms by (simp add: unat_word_ariths unat_of_nat)
  ultimately show "1 \<le> unat (hash_rank gnu p x)" "unat (hash_rank gnu p x) \<le> 65 - p"
    using assms by auto
qed

section \<open>Well-formed sketches\<close>

definition hll_wf :: "HyperLogLog \<Rightarrow> bool" where
  "hll_wf h \<longleftrightarrow> 4 \<le> hll_precision h \<and> hll_precision h \<le> 18 \<and> hll_sparse h = 0 \<and> hll_flags h = 0 \<and>
     length (hll_registers h) = 2 ^ hll_precision h \<and>
     list_all (\<lambda>r. unat r \<le> 65 - hll_precision h) (hll_registers h)"

text \<open>Adding and merging as total functions on well-formed sketches.\<close>

definition sketch_add :: "bool \<Rightarrow> HyperLogLog \<Rightarrow> u64 \<Rightarrow> HyperLogLog" where
  "sketch_add gnu h x =
     h\<lparr>hll_registers := (hll_registers h)[hash_index (hll_precision h) x :=
          max (hll_registers h ! hash_index (hll_precision h) x) (hash_rank gnu (hll_precision h) x)],
       hll_total_count := hll_total_count h + 1\<rparr>"

definition sketch_join :: "HyperLogLog \<Rightarrow> HyperLogLog \<Rightarrow> HyperLogLog" where
  "sketch_join h1 h2 =
     h1\<lparr>hll_registers := map2 max (hll_registers h1) (hll_registers h2),
        hll_total_count := hll_total_count h1 + hll_total_count h2\<rparr>"

lemma create_precision:
  "hll_precision (hll_create p) = (if p < 4 then 4 else if p > 18 then 18 else p)"
  "hll_registers (hll_create p) = replicate (2 ^ hll_precision (hll_create p)) 0"
  "hll_total_count (hll_create p) = 0" "hll_sparse (hll_create p) = 0" "hll_flags (hll_create p) = 0"
  by (simp_all add: hll_create_def Let_def)

lemma hll_wf_create [wf_intros]: "hll_wf (hll_create p)"
  by (auto simp: hll_wf_def create_precision list_all_iff)

lemma hll_wf_index: "hll_wf h \<Longrightarrow> hash_index (hll_precision h) x < length (hll_registers h)"
  using hash_index_less [of "hll_precision h" x] by (simp add: hll_wf_def)

lemma hll_add_hash_eq: "hll_wf h \<Longrightarrow> hll_add_hash gnu h x = Some (sketch_add gnu h x)"
  using hll_wf_index [of h x]
  by (auto simp: hll_add_hash_def sketch_add_def Let_def array_get_less array_store_def max_def)

lemma hll_wf_add [wf_intros]: "hll_wf h \<Longrightarrow> hll_wf (sketch_add gnu h x)"
  using hash_rank_bounds(2) [of "hll_precision h" gnu x] hll_wf_index [of h x]
  by (auto simp: hll_wf_def sketch_add_def list_all_length nth_list_update max_def)

lemma hll_wf_join [wf_intros]:
  "hll_wf h1 \<Longrightarrow> hll_wf h2 \<Longrightarrow> hll_precision h1 = hll_precision h2 \<Longrightarrow> hll_wf (sketch_join h1 h2)"
  by (auto simp: hll_wf_def sketch_join_def list_all_length max_def)

lemma map2_upt: "length xs = n \<Longrightarrow> length ys = n \<Longrightarrow> map (\<lambda>i. f (xs ! i) (ys ! i)) [0..<n] = map2 f xs ys"
  by (rule nth_equalityI) simp_all

lemma hll_merge_eq:
  assumes "hll_wf h1" "hll_wf h2" "hll_precision h1 = hll_precision h2"
  shows "hll_merge (Some h1) (Some h2) = Some (Inr (Some (sketch_join h1 h2)))"
proof -
  let ?n = "2 ^ hll_precision h1" and ?r = "hll_create (hll_precision h1)"
  have len: "length (hll_registers h1) = ?n" "length (hll_registers h2) = ?n" "length (hll_registers ?r) = ?n"
    using assms by (auto simp: hll_wf_def create_precision)
  have "fold_opt (\<lambda>i regs. do { a \<leftarrow> array_get (hll_registers h1) i; b \<leftarrow> array_get (hll_registers h2) i;
                                array_store regs i (if a > b then a else b) }) [0..<?n] (hll_registers ?r)
      = Some (map (\<lambda>i. max (hll_registers h1 ! i) (hll_registers h2 ! i)) [0..<?n] @ drop ?n (hll_registers ?r))"
    by (rule fold_opt_stores) (auto simp: len array_get_less array_store_def max_def)
  then show ?thesis
    using assms len by (simp add: hll_merge_def Let_def map2_upt sketch_join_def hll_wf_def hll_create_def)
qed

lemma list_update_same: "ys ! i = v \<Longrightarrow> ys = ys[i := v]"
  by auto

lemma hll_merge_inplace_eq:
  assumes "hll_wf h1" "hll_wf h2" "hll_precision h1 = hll_precision h2"
  shows "hll_merge_inplace (Some h1) (Some h2) = Some (Inr (Some (sketch_join h1 h2)))"
proof -
  let ?n = "2 ^ hll_precision h1"
  have len: "length (hll_registers h1) = ?n" "length (hll_registers h2) = ?n"
    using assms by (auto simp: hll_wf_def)
  have "fold_opt (\<lambda>i regs. do { a \<leftarrow> array_get regs i; b \<leftarrow> array_get (hll_registers h2) i;
                                if b > a then array_store regs i b else Some regs }) [0..<?n] (hll_registers h1)
      = Some (map (\<lambda>i. max (hll_registers h1 ! i) (hll_registers h2 ! i)) [0..<?n] @ drop ?n (hll_registers h1))"
    by (rule fold_opt_stores) (auto simp: len array_get_less array_store_def max_def list_update_same)
  then show ?thesis
    using assms len by (simp add: hll_merge_inplace_def map2_upt sketch_join_def)
qed

section \<open>A sketch is determined by the set of hashes\<close>

definition register_of :: "bool \<Rightarrow> nat \<Rightarrow> u64 set \<Rightarrow> nat \<Rightarrow> u8" where
  "register_of gnu p H i = Max (insert 0 (hash_rank gnu p ` {x \<in> H. hash_index p x = i}))"

lemma sketch_fields [frame_simps]:
  "hll_precision (sketch_add gnu h x) = hll_precision h" "hll_precision (sketch_join h h') = hll_precision h"
  "length (hll_registers (sketch_add gnu h x)) = length (hll_registers h)"
  "hll_precision (foldl (sketch_add gnu) h xs) = hll_precision h"
  by (simp_all add: sketch_add_def sketch_join_def, induction xs arbitrary: h) (simp_all add: sketch_add_def)

lemma hll_wf_foldl [wf_intros]: "hll_wf h \<Longrightarrow> hll_wf (foldl (sketch_add gnu) h xs)"
  by (induction xs arbitrary: h) (auto intro: wf_intros)

lemma Max_insert_max: "finite S \<Longrightarrow> Max (insert (max a b) S) = Max (insert (a :: u8) (insert b S))"
  by (cases "S = {}") (simp_all add: max.assoc)

lemma foldl_register:
  assumes "hll_wf h" "i < 2 ^ hll_precision h"
  shows "hll_registers (foldl (sketch_add gnu) h xs) ! i =
         Max (insert (hll_registers h ! i)
               (hash_rank gnu (hll_precision h) ` {x \<in> set xs. hash_index (hll_precision h) x = i}))"
  using assms
proof (induction xs arbitrary: h)
  case (Cons x xs)
  let ?p = "hll_precision h" and ?h = "sketch_add gnu h x"
  let ?S = "hash_rank gnu ?p ` {x \<in> set xs. hash_index ?p x = i}"
  have reg: "hll_registers ?h ! i =
      (if hash_index ?p x = i then max (hll_registers h ! i) (hash_rank gnu ?p x) else hll_registers h ! i)"
    using Cons.prems hll_wf_index [of h x] by (auto simp: sketch_add_def hll_wf_def nth_list_update)
  have "hll_registers (foldl (sketch_add gnu) h (x # xs)) ! i = Max (insert (hll_registers ?h ! i) ?S)"
    using Cons.IH [of ?h] Cons.prems by (simp add: wf_intros frame_simps)
  also have "\<dots> = Max (insert (hll_registers h ! i)
      (hash_rank gnu ?p ` {y \<in> set (x # xs). hash_index ?p y = i}))"
  proof (cases "hash_index ?p x = i")
    case True
    then have "{y \<in> set (x # xs). hash_index ?p y = i} = insert x {y \<in> set xs. hash_index ?p y = i}" by auto
    then show ?thesis using True Max_insert_max [of ?S] by (simp add: reg)
  next
    case False
    then have "{y \<in> set (x # xs). hash_index ?p y = i} = {y \<in> set xs. hash_index ?p y = i}" by auto
    then show ?thesis using False by (simp add: reg)
  qed
  finally show ?case .
qed simp

lemma sketch_registers:
  "hll_registers (foldl (sketch_add gnu) (hll_create p) xs) =
   map (register_of gnu (hll_precision (hll_create p)) (set xs)) [0..<2 ^ hll_precision (hll_create p)]"
  (is "?l = ?r")
proof (rule nth_equalityI)
  have "hll_wf (foldl (sketch_add gnu) (hll_create p) xs)" by (intro wf_intros)
  then show len: "length ?l = length ?r" by (simp add: hll_wf_def frame_simps)
  fix i assume "i < length ?l"
  then have i: "i < 2 ^ hll_precision (hll_create p)" using len by simp
  with foldl_register [OF hll_wf_create i] show "?l ! i = ?r ! i"
    by (simp add: register_of_def create_precision(2))
qed

section \<open>Mergeable summaries\<close>

text \<open>The contract of a summary that can be computed in parts: adding to one part commutes with joining the
  parts. Whoever joins partial summaries then gets the summary of the concatenation.\<close>

locale mergeable_summary =
  fixes wf :: "'s \<Rightarrow> bool"
    and init :: 's
    and add :: "'s \<Rightarrow> 'a \<Rightarrow> 's"
    and join :: "'s \<Rightarrow> 's \<Rightarrow> 's"
  assumes wf_init: "wf init"
    and wf_add: "wf s \<Longrightarrow> wf (add s x)"
    and join_init: "wf s \<Longrightarrow> join s init = s"
    and join_add: "wf s \<Longrightarrow> wf t \<Longrightarrow> join s (add t x) = add (join s t) x"
begin

lemma wf_foldl: "wf s \<Longrightarrow> wf (foldl add s xs)"
  by (induction xs arbitrary: s) (auto intro: wf_add)

lemma join_foldl: "wf s \<Longrightarrow> join s (foldl add init xs) = foldl add s xs"
  by (induction xs rule: rev_induct) (simp_all add: join_init join_add wf_foldl wf_init)

lemma join_parts: "foldl join init (map (foldl add init) parts) = foldl add init (concat parts)"
  by (induction parts rule: rev_induct) (simp_all add: join_foldl wf_foldl wf_init)

end

lemma join_add_registers:
  assumes "length xs = length ys" "i < length ys"
  shows "map2 max xs (ys[i := max (ys ! i) k]) = (map2 max xs ys)[i := max (max (xs ! i) (ys ! i)) (k :: u8)]"
  using assms by (intro nth_equalityI) (auto simp: nth_list_update max.assoc)

lemma map2_max_zero: "length xs = n \<Longrightarrow> map2 max xs (replicate n (0 :: u8)) = xs"
  by (intro nth_equalityI) (auto simp: max_absorb1)

interpretation hll14: mergeable_summary
  "\<lambda>h. hll_wf h \<and> hll_precision h = 14" "hll_create 14" "sketch_add gnu" sketch_join for gnu
proof
  show "hll_wf (hll_create 14) \<and> hll_precision (hll_create 14) = 14"
    by (simp add: wf_intros create_precision)
  fix s t x
  assume s: "hll_wf s \<and> hll_precision s = 14"
  then show "hll_wf (sketch_add gnu s x) \<and> hll_precision (sketch_add gnu s x) = 14"
    by (simp add: wf_intros frame_simps)
  show "sketch_join s (hll_create 14) = s"
    using s by (simp add: sketch_join_def create_precision map2_max_zero hll_wf_def)
  assume t: "hll_wf t \<and> hll_precision t = 14"
  have len: "length (hll_registers s) = 16384" "length (hll_registers t) = 16384"
    using s t by (simp_all add: hll_wf_def)
  moreover have "hash_index 14 x < 16384" using hash_index_less [of 14 x] by simp
  ultimately show "sketch_join s (sketch_add gnu t x) = sketch_add gnu (sketch_join s t) x"
    using s t by (simp add: sketch_join_def sketch_add_def join_add_registers add.assoc)
qed

section \<open>Serialization and reset\<close>

lemma hll_deserialize_serialize:
  assumes "hll_wf h"
  shows "Option.bind (hll_serialize h) hll_deserialize = Some h"
proof -
  let ?p = "hll_precision h"
  have p: "4 \<le> ?p" "?p \<le> 18" and len: "length (hll_registers h) = 2 ^ ?p" using assms by (auto simp: hll_wf_def)
  have u: "unat (word_of_nat ?p :: u8) = ?p" using p by (simp add: unat_of_nat)
  have "word_of_nat (le_nat (le_bytes 8 (unat (hll_total_count h)))) = hll_total_count h"
    using word_of_word_bytes [of "hll_total_count h"] unfolding word_bytes_def .
  moreover have "le_nat (le_bytes 2 (unat (hll_flags h))) = 0"
    using assms by (simp add: hll_wf_def le_nat_le_bytes)
  moreover have "hll_precision (hll_create ?p) = ?p" using p by (simp add: create_precision)
  moreover have "length (hll_registers (hll_create ?p)) = 2 ^ ?p" using p by (simp add: create_precision)
  ultimately show ?thesis
    using assms len u
    by (simp add: hll_serialize_def hll_deserialize_def Let_def hll_wf_def drop_Cons' take_Cons' create_precision)
qed

lemma hll_reset_eq: "hll_wf h \<Longrightarrow> hll_reset h = Some (hll_create (hll_precision h))"
  by (cases h) (auto simp: hll_reset_def hll_wf_def hll_create_def Let_def)

section \<open>The aggregate, sequential and in parts\<close>

definition row_hashes :: "hll_value option list \<Rightarrow> u64 list" where
  "row_hashes vs = map hll_hash_datum (filter (\<lambda>v. v \<noteq> None) vs)"

definition hll_aggregate :: "bool \<Rightarrow> hll_value option list \<Rightarrow> HyperLogLog option option" where
  "hll_aggregate gnu vs = fold_opt (\<lambda>v state. map_option Some (hll_trans gnu state v)) vs None"

text \<open>Each worker aggregates its part and serializes the state; the leader combines what it deserializes.\<close>

fun hll_parallel :: "bool \<Rightarrow> hll_value option list list \<Rightarrow> HyperLogLog option \<Rightarrow> HyperLogLog option outcome" where
  "hll_parallel gnu [] state = Some (Inr state)"
| "hll_parallel gnu (vs # parts) state =
     do { partial \<leftarrow> hll_aggregate gnu vs;
          bs \<leftarrow> hll_serial partial;
          partial' \<leftarrow> hll_deserial bs;
          r \<leftarrow> hll_combine state partial';
          case r of Inl e \<Rightarrow> Some (Inl e) | Inr state' \<Rightarrow> hll_parallel gnu parts state' }"

definition aggregate_state :: "bool \<Rightarrow> hll_value option list \<Rightarrow> HyperLogLog option" where
  "aggregate_state gnu vs = (if vs = [] then None else Some (foldl (sketch_add gnu) (hll_create 14) (row_hashes vs)))"

lemma hll_trans_state: "hll_trans gnu (aggregate_state gnu vs) v = aggregate_state gnu (vs @ [v])"
  by (cases v) (auto simp: hll_trans_def aggregate_state_def row_hashes_def hll_add_hash_eq wf_intros)

lemma hll_aggregate_state: "hll_aggregate gnu vs = Some (aggregate_state gnu vs)"
proof (induction vs rule: rev_induct)
  case Nil
  then show ?case by (simp add: hll_aggregate_def aggregate_state_def)
next
  case (snoc v vs)
  moreover have "aggregate_state gnu (vs @ [v]) \<noteq> None" by (simp add: aggregate_state_def)
  ultimately show ?case
    by (auto simp: hll_aggregate_def fold_opt_append hll_trans_state)
qed

lemma hll_wf_aggregate: "aggregate_state gnu vs = Some h \<Longrightarrow> hll_wf h \<and> hll_precision h = 14"
  by (auto simp: aggregate_state_def wf_intros frame_simps create_precision split: if_splits)

lemma hll_serial_state: "Option.bind (hll_serial (aggregate_state gnu vs)) hll_deserial = Some (aggregate_state gnu vs)"
proof (cases "aggregate_state gnu vs")
  case (Some h)
  then have "Option.bind (hll_serialize h) hll_deserialize = Some h"
    using hll_wf_aggregate hll_deserialize_serialize by blast
  then show ?thesis by (auto simp: Some hll_serial_def hll_deserial_def bind_eq_Some_conv)
qed (simp add: hll_serial_def hll_deserial_def)

lemma hll_combine_state:
  "hll_combine (aggregate_state gnu us) (aggregate_state gnu vs) = Some (Inr (aggregate_state gnu (us @ vs)))"
proof (cases "us = [] \<or> vs = []")
  case True
  then show ?thesis by (auto simp: hll_combine_def hll_merge_def aggregate_state_def split: option.splits)
next
  case False
  let ?a = "foldl (sketch_add gnu) (hll_create 14) (row_hashes us)"
  let ?b = "foldl (sketch_add gnu) (hll_create 14) (row_hashes vs)"
  have wf: "hll_wf ?a" "hll_wf ?b" and p: "hll_precision ?a = 14" "hll_precision ?b = 14"
    by (simp_all add: wf_intros frame_simps create_precision)
  have "sketch_join ?a ?b = foldl (sketch_add gnu) ?a (row_hashes vs)"
    using wf p by (intro hll14.join_foldl) simp
  then show ?thesis
    using False wf p by (simp add: hll_combine_def aggregate_state_def hll_merge_eq row_hashes_def)
qed

lemma hll_parallel_state:
  "hll_parallel gnu parts (aggregate_state gnu us) = Some (Inr (aggregate_state gnu (us @ concat parts)))"
proof (induction parts arbitrary: us)
  case (Cons vs parts)
  obtain bs where "hll_serial (aggregate_state gnu vs) = Some bs" "hll_deserial bs = Some (aggregate_state gnu vs)"
    using hll_serial_state [of gnu vs] by (auto simp: bind_eq_Some_conv)
  then show ?case by (simp add: hll_aggregate_state hll_combine_state Cons.IH)
qed simp

section \<open>The estimate in exact arithmetic\<close>

definition exact_ops :: "real fp_ops" where
  "exact_ops = \<lparr>fadd = (+), fsub = (-), fmul = (*), fdiv = (/), fneg = uminus, fle = (\<le>), flt = (<),
     flog = ln, fsqrt = sqrt, fround = (\<lambda>x. of_int (round x)), f_of_int = of_int,
     f_lit = (\<lambda>m k. of_int m / 10 ^ k), f_to_int64 = floor\<rparr>"

definition exact_math :: "(real, real) hll_math" where
  "exact_math = \<lparr>sp = exact_ops, dp = exact_ops, widen = id\<rparr>"

text \<open>On a well-formed sketch every shift is defined.\<close>

lemma register_sums_eq:
  assumes "hll_wf h"
  shows "register_sums F h = Some (fold (\<lambda>i (s, e). (fadd F s (fdiv F (f_lit F 10 1) (f_of_int F (2 ^ unat (hll_registers h ! i)))),
            if hll_registers h ! i = 0 then e + 1 else e)) [0..<2 ^ hll_precision h] (f_lit F 0 1, 0))"
  unfolding register_sums_def
proof (rule fold_opt_total, intro ballI allI)
  fix i and s :: "'a \<times> nat"
  assume "i \<in> set [0..<2 ^ hll_precision h]"
  then have i: "i < length (hll_registers h)" using assms by (simp add: hll_wf_def)
  then have "unat (hll_registers h ! i) < 64" using assms by (auto simp: hll_wf_def list_all_length)
  with i show "(case s of (s, e) \<Rightarrow> do { r \<leftarrow> array_get (hll_registers h) i;
      if unat r < 64 then Some (fadd F s (fdiv F (f_lit F 10 1) (f_of_int F (2 ^ unat r))), if r = 0 then e + 1 else e)
      else None }) = Some ((\<lambda>i (s, e). (fadd F s (fdiv F (f_lit F 10 1) (f_of_int F (2 ^ unat (hll_registers h ! i)))),
            if hll_registers h ! i = 0 then e + 1 else e)) i s)"
    by (cases s) (simp add: array_get_less)
qed

lemma hll_count_defined: "hll_wf h \<Longrightarrow> \<exists>c. hll_count fm h = Some c"
  unfolding hll_count_def Let_def using register_sums_eq [of h "dp fm"] by (auto split: prod.splits)

lemma hll_count_registers:
  "hll_precision h = hll_precision h' \<Longrightarrow> hll_registers h = hll_registers h' \<Longrightarrow> hll_count fm h = hll_count fm h'"
  by (simp add: hll_count_def register_sums_def)

lemma fold_sum_count:
  "fold (\<lambda>i (s, e). (s + f i, if P i then e + 1 else e)) [0..<n] (s0 :: real, e0 :: nat) =
   (s0 + (\<Sum>i<n. f i), e0 + card {i. i < n \<and> P i})"
proof (induction n)
  case (Suc n)
  have "{i. i < Suc n \<and> P i} = (if P n then insert n else id) {i. i < n \<and> P i}"
    by (auto simp: less_Suc_eq)
  then show ?case by (simp add: Suc)
qed simp

text \<open>A sketch of one hash has one register that is not zero.\<close>

lemma one_register:
  "register_of gnu 14 {x} i = (if i = hash_index 14 x then hash_rank gnu 14 x else 0)"
proof (cases "i = hash_index 14 x")
  case True
  then have "{y \<in> {x}. hash_index 14 y = i} = {x}" by auto
  with True show ?thesis by (simp add: register_of_def max_absorb2)
next
  case False
  then have "{y \<in> {x}. hash_index 14 y = i} = {}" by auto
  then have "register_of gnu 14 {x} i = Max (insert 0 (hash_rank gnu 14 ` {}))" by (simp only: register_of_def)
  with False show ?thesis by simp
qed

lemma one_hash_sums:
  assumes "hll_precision h = 14" "hll_wf h" "hll_registers h = map (register_of gnu 14 {x}) [0..<16384]"
  shows "register_sums exact_ops h = Some (16383 + 1 / 2 ^ unat (hash_rank gnu 14 x), 16383)"
proof -
  let ?k = "hash_index 14 x" and ?r = "hash_rank gnu 14 x"
  have k: "?k < 16384" using hash_index_less [of 14 x] by simp
  have r: "?r \<noteq> 0" using hash_rank_bounds(1) [of 14 gnu x] by auto
  have reg: "hll_registers h ! i = (if i = ?k then ?r else 0)" if "i < 16384" for i
    using that assms(3) by (simp add: one_register del: upt_rec_numeral)
  let ?f = "\<lambda>i. 1 / 2 ^ unat (hll_registers h ! i) :: real"
  have "(\<Sum>i<16384. ?f i) = ?f ?k + (\<Sum>i\<in>{..<16384} - {?k}. ?f i)"
    using k by (subst sum.remove [of _ ?k]) auto
  also have "(\<Sum>i\<in>{..<16384} - {?k}. ?f i) = (\<Sum>i\<in>{..<16384} - {?k}. 1)"
    by (rule sum.cong) (auto simp: reg)
  also have "\<dots> = 16383" using k by simp
  finally have s: "(\<Sum>i<16384. ?f i) = 16383 + 1 / 2 ^ unat ?r" using k by (simp add: reg)
  have "{i. i < 16384 \<and> hll_registers h ! i = 0} = {..<16384} - {?k}"
    using r reg by auto
  then have c: "card {i. i < 16384 \<and> hll_registers h ! i = 0} = 16383" using k by simp
  show ?thesis
    unfolding register_sums_eq [OF assms(2)] assms(1)
    using fold_sum_count [of ?f "\<lambda>i. hll_registers h ! i = 0" "2 ^ 14" 0 0] s c
    by (simp add: exact_ops_def del: upt_rec_numeral)
qed

lemma one_value_bias:
  fixes e :: real
  assumes "0 \<le> e" "e \<le> 16384 / 16383"
  shows "round (apply_bias_correction exact_ops e 14) = 0"
proof -
  have "apply_bias_correction exact_ops e 14 = e * (0.2494 + 0.00353 * e)"
    using assms by (simp add: apply_bias_correction_def exact_ops_def bias_thresholds_def bias_data_p14_def
      interpolated_bias_def upt_conv_Cons Let_def field_simps)
  moreover have "0 \<le> e * (0.2494 + 0.00353 * e)" using assms by simp
  moreover have "e * (0.2494 + 0.00353 * e) \<le> (16384 / 16383) * (0.2494 + 0.00353 * (16384 / 16383))"
    using assms by (intro mult_mono add_mono) auto
  ultimately show ?thesis by (intro round_unique') simp
qed

lemma one_hash_count:
  assumes "hll_precision h = 14" "hll_wf h" "hll_registers h = map (register_of gnu 14 {x}) [0..<16384]"
  shows "hll_count exact_math h = Some 0"
proof -
  define s :: real where "s = 16383 + 1 / 2 ^ unat (hash_rank gnu 14 x)"
  define a :: real where "a = 0.7213 / (1 + 1.079 / 16384)"
  have s: "16383 \<le> s" by (simp add: s_def)
  have "a * 16384 * 16384 / s \<le> a * 16384 * 16384 / 16383"
    using s by (intro divide_left_mono) (simp_all add: a_def)
  also have "\<dots> \<le> 2.5 * 16384" by (simp add: a_def)
  finally have raw: "a * 16384 * 16384 / s \<le> 2.5 * 16384" .
  let ?e = "16384 * ln (16384 / 16383) :: real"
  have "ln (1 + 1 / 16383 :: real) \<le> 1 / 16383" by (rule ln_add_one_self_le_self) simp
  then have "round (apply_bias_correction exact_ops ?e 14) = 0" by (intro one_value_bias) simp_all
  moreover have "hll_alpha exact_math 14 = a"
    by (simp add: hll_alpha_def exact_math_def exact_ops_def a_def Let_def)
  moreover have "dp exact_math = exact_ops" "sp exact_math = exact_ops" "widen exact_math = id"
    by (simp_all add: exact_math_def)
  ultimately show ?thesis
    using raw one_hash_sums [OF assms]
    by (simp add: hll_count_def assms(1) Let_def s_def) (simp add: exact_ops_def)
qed

section \<open>Text and merging\<close>

lemma scan_int_decimal:
  assumes "int n \<le> INT32_MAX" "\<not> is_digit c"
  shows "scan_int (decimal n @ c # cs) = Some (Some (int n))"
proof -
  obtain d ds where d: "decimal n = d # ds" "is_digit d"
    using decimal_digits [of n] by (cases "decimal n") auto
  then have "\<not> (d = 32 \<or> 9 \<le> d \<and> d \<le> 13)" "d \<noteq> 45" "d \<noteq> 43"
    by (auto simp: is_digit_def word_le_nat_alt)
  then have "scan_int (decimal n @ c # cs) =
      (let ds = takeWhile is_digit (decimal n @ c # cs); v = int (digits_value ds)
       in if ds = [] then Some None else if is_i32 v then Some (Some v) else None)"
    by (auto simp: scan_int_def d Let_def)
  then show ?thesis
    using assms decimal_digits [of n] by (simp only: takeWhile_decimal [OF assms(2)] Let_def) simp
qed

lemma map2_max_commute: "length xs = length ys \<Longrightarrow> map2 max xs ys = map2 max ys (xs :: u8 list)"
  by (intro nth_equalityI) (auto simp: max.commute)

lemma map2_max_assoc:
  "length xs = length ys \<Longrightarrow> length ys = length zs \<Longrightarrow> map2 max (map2 max xs ys) zs = map2 max xs (map2 max ys (zs :: u8 list))"
  by (intro nth_equalityI) (auto simp: max.assoc)

lemma sketch_join_commute:
  "hll_wf h1 \<Longrightarrow> hll_wf h2 \<Longrightarrow> hll_precision h1 = hll_precision h2 \<Longrightarrow> sketch_join h1 h2 = sketch_join h2 h1"
  by (cases h1; cases h2) (auto simp: sketch_join_def hll_wf_def map2_max_commute add.commute)

section \<open>Properties\<close>

text \<open>C24: a parallel aggregate gives what the sequential one gives. However the rows are divided among the workers,
  aggregating each part, serializing and deserializing the partial states and combining them ends without an error and
  with the state that the transition function reaches on all the rows, the count of added elements included.\<close>

theorem parallel_hll_equals_sequential:
  "\<exists>state. hll_aggregate gnu (concat parts) = Some state \<and> hll_parallel gnu parts None = Some (Inr state)"
  using hll_parallel_state [of gnu parts "[]"] by (simp add: hll_aggregate_state aggregate_state_def)

text \<open>the estimate depends on the set of values only. Two inputs with the same set of values that are not NULL, in any
  order and with any repetitions, leave the same registers, and register \<open>i\<close> is the greatest rank of a hash with index
  \<open>i\<close>; whatever the floating-point operations, both get the same, defined, estimate.\<close>

theorem hll_depends_on_value_set:
  assumes "set vs - {None} = set ws - {None}" "vs \<noteq> []" "ws \<noteq> []"
  shows "\<exists>h h' c. hll_aggregate gnu vs = Some (Some h) \<and> hll_aggregate gnu ws = Some (Some h') \<and>
     hll_registers h = map (register_of gnu 14 (hll_hash_datum ` (set vs - {None}))) [0..<2 ^ 14] \<and>
     hll_registers h' = hll_registers h \<and> hll_final fm (Some h) = Some c \<and> hll_final fm (Some h') = Some c"
proof -
  let ?h = "\<lambda>us. foldl (sketch_add gnu) (hll_create 14) (row_hashes us)"
  have set: "set (row_hashes us) = hll_hash_datum ` (set us - {None})" for us by (auto simp: row_hashes_def)
  have p: "hll_precision (hll_create 14) = 14" by (simp add: create_precision)
  have regs: "hll_registers (?h us) = map (register_of gnu 14 (hll_hash_datum ` (set us - {None}))) [0..<2 ^ 14]" for us
    unfolding sketch_registers p set ..
  have "hll_wf (?h vs)" by (intro wf_intros)
  then obtain c where c: "hll_count fm (?h vs) = Some c" using hll_count_defined by blast
  moreover have "hll_count fm (?h ws) = hll_count fm (?h vs)"
    using assms(1) by (intro hll_count_registers) (simp_all only: regs frame_simps)
  ultimately show ?thesis
    using assms regs [of vs] regs [of ws]
    by (simp only: hll_aggregate_state aggregate_state_def if_False hll_final_def option.case option.inject) simp
qed

theorem hll_depends_on_value_set_witness:
  "\<forall>gnu fm. \<exists>h h' c. hll_aggregate gnu [Some (Value_int4 3), None, Some (Value_int4 5), Some (Value_int4 3)] = Some (Some h) \<and>
     hll_aggregate gnu [Some (Value_int4 5), Some (Value_int4 3)] = Some (Some h') \<and>
     hll_registers h' = hll_registers h \<and> hll_final fm (Some h) = Some c \<and> hll_final fm (Some h') = Some c"
proof (intro allI)
  fix gnu and fm :: "('s, 'f) hll_math"
  have "set [Some (Value_int4 3), None, Some (Value_int4 5), Some (Value_int4 3)] - {None} =
        set [Some (Value_int4 5), Some (Value_int4 3)] - {None}" by auto
  from hll_depends_on_value_set [OF this, of gnu fm]
  show "\<exists>h h' c. hll_aggregate gnu [Some (Value_int4 3), None, Some (Value_int4 5), Some (Value_int4 3)] = Some (Some h) \<and>
     hll_aggregate gnu [Some (Value_int4 5), Some (Value_int4 3)] = Some (Some h') \<and>
     hll_registers h' = hll_registers h \<and> hll_final fm (Some h) = Some c \<and> hll_final fm (Some h') = Some c"
    by blast
qed

text \<open>every operation on a sketch keeps it well-formed and stays inside the register array. A sketch created with any
  precision is well-formed; on a well-formed sketch adding a hash and resetting are defined and give well-formed
  sketches with the same precision; two sketches merge into a well-formed one if their precisions agree and otherwise the
  merge, in place or not, raises the error.\<close>

theorem hll_operations_keep_wf:
  assumes "hll_wf h" "hll_wf h'"
  shows "hll_wf (hll_create p) \<and>
     (\<exists>a. hll_add_hash gnu h x = Some a \<and> hll_wf a \<and> hll_precision a = hll_precision h) \<and>
     (\<exists>r. hll_reset h = Some r \<and> hll_wf r \<and> hll_precision r = hll_precision h) \<and>
     (if hll_precision h = hll_precision h'
      then \<exists>m. hll_merge (Some h) (Some h') = Some (Inr (Some m)) \<and> hll_merge_inplace (Some h) (Some h') = Some (Inr (Some m)) \<and>
               hll_wf m \<and> hll_precision m = hll_precision h
      else hll_merge (Some h) (Some h') = Some (Inl (ERROR ''cannot merge HyperLogLogs with different precisions'')) \<and>
           hll_merge_inplace (Some h) (Some h') = Some (Inl (ERROR ''cannot merge HyperLogLogs with different precisions'')))"
proof -
  have "hll_precision (hll_create (hll_precision h)) = hll_precision h"
    using assms(1) by (simp add: hll_wf_def create_precision)
  moreover have "hll_merge (Some h) (Some h') = Some (Inl (ERROR ''cannot merge HyperLogLogs with different precisions''))"
    "hll_merge_inplace (Some h) (Some h') = Some (Inl (ERROR ''cannot merge HyperLogLogs with different precisions''))"
    if "hll_precision h \<noteq> hll_precision h'"
    using that by (simp_all add: hll_merge_def hll_merge_inplace_def)
  ultimately show ?thesis
    using assms by (simp add: wf_intros frame_simps hll_add_hash_eq hll_reset_eq hll_merge_eq hll_merge_inplace_eq)
qed

theorem hll_operations_keep_wf_witness:
  "hll_wf (hll_create 4) \<and> hll_wf (hll_create 9) \<and> hll_precision (hll_create 4) \<noteq> hll_precision (hll_create 9) \<and>
   hll_merge (Some (hll_create 4)) (Some (hll_create 9)) =
     Some (Inl (ERROR ''cannot merge HyperLogLogs with different precisions''))"
  using hll_operations_keep_wf [of "hll_create 4" "hll_create 9" 0 True 0]
  by (simp add: hll_wf_create create_precision)

text \<open>merging is the join of a semilattice. On well-formed sketches of one precision \<^verbatim>\<open>hll_merge\<close> is commutative and
  associative, the count of added elements included, and merging a sketch with itself keeps its registers.\<close>

theorem hll_merge_semilattice:
  assumes "hll_wf a" "hll_wf b" "hll_wf c" "hll_precision a = hll_precision b" "hll_precision b = hll_precision c"
  shows "\<exists>ab bc abc aa.
     hll_merge (Some a) (Some b) = Some (Inr (Some ab)) \<and> hll_merge (Some b) (Some a) = Some (Inr (Some ab)) \<and>
     hll_merge (Some b) (Some c) = Some (Inr (Some bc)) \<and>
     hll_merge (Some ab) (Some c) = Some (Inr (Some abc)) \<and> hll_merge (Some a) (Some bc) = Some (Inr (Some abc)) \<and>
     hll_merge (Some a) (Some a) = Some (Inr (Some aa)) \<and> hll_registers aa = hll_registers a"
proof -
  have wf: "hll_wf (sketch_join a b)" "hll_wf (sketch_join b c)" using assms by (auto intro: wf_intros)
  have "sketch_join (sketch_join a b) c = sketch_join a (sketch_join b c)"
    using assms by (simp add: sketch_join_def hll_wf_def map2_max_assoc add.assoc)
  moreover have "sketch_join b a = sketch_join a b" using assms by (intro sketch_join_commute) auto
  moreover have "hll_registers (sketch_join a a) = hll_registers a"
    by (simp add: sketch_join_def list_eq_iff_nth_eq)
  ultimately show ?thesis
    using assms wf hll_merge_eq [of "sketch_join a b" c] hll_merge_eq [of a "sketch_join b c"]
    by (simp add: hll_merge_eq frame_simps)
qed

theorem hll_merge_semilattice_witness:
  "\<exists>ab aa. hll_merge (Some (hll_create 4)) (Some (sketch_add True (hll_create 4) 7)) = Some (Inr (Some ab)) \<and>
     hll_merge (Some (sketch_add True (hll_create 4) 7)) (Some (hll_create 4)) = Some (Inr (Some ab)) \<and>
     hll_merge (Some (hll_create 4)) (Some (hll_create 4)) = Some (Inr (Some aa)) \<and>
     hll_registers aa = hll_registers (hll_create 4)"
  using hll_merge_semilattice [of "hll_create 4" "sketch_add True (hll_create 4) 7" "hll_create 4"]
  by (fastforce simp: wf_intros frame_simps)

text \<open>a sketch survives serialization: deserializing what \<^verbatim>\<open>hll_serialize\<close> wrote gives the sketch back, with
  every field. A header with a precision above 18 makes \<^verbatim>\<open>hll_deserialize\<close> copy more registers than it allocated,
  whatever follows.\<close>

theorem hll_serialize_roundtrip:
  assumes "hll_wf h" "18 < unat b"
  shows "Option.bind (hll_serialize h) hll_deserialize = Some h \<and> hll_deserialize (b # bs) = None"
proof -
  have "(2 :: nat) ^ 18 < 2 ^ unat b" using assms(2) by (intro power_strict_increasing) auto
  then have "length (hll_registers (hll_create (unat b))) < 2 ^ unat b" using assms(2) by (simp add: create_precision)
  then show ?thesis using hll_deserialize_serialize [OF assms(1)] by (simp add: hll_deserialize_def Let_def)
qed

theorem hll_serialize_roundtrip_witness:
  "Option.bind (hll_serialize (sketch_add True (hll_create 5) 99)) hll_deserialize = Some (sketch_add True (hll_create 5) 99) \<and>
   hll_deserialize (19 # replicate 100 0) = None"
  using hll_serialize_roundtrip [of "sketch_add True (hll_create 5) 99" 19 "replicate 100 0"] by (simp add: wf_intros)

text \<open>the text form of a sketch keeps its precision only. Reading what \<^verbatim>\<open>hll_out\<close> printed gives the empty sketch of
  the same precision, whatever the sketch counted.\<close>

theorem hll_text_keeps_precision_only:
  assumes "hll_wf h"
  shows "Option.bind (hll_out fm h) hll_in = Some (hll_create (hll_precision h)) \<and>
     (\<forall>r \<in> set (hll_registers (hll_create (hll_precision h))). r = 0)"
proof -
  obtain c where c: "hll_count fm h = Some c" using hll_count_defined [OF assms] by blast
  let ?p = "hll_precision h"
  have p: "?p \<le> 18" using assms by (simp add: hll_wf_def)
  have comma: "ascii '', estimate='' @ r = 44 # tl (ascii '', estimate='') @ r" for r by (simp add: ascii_def)
  have "\<not> is_digit 44" by (simp add: is_digit_def)
  then have "scan_int (decimal ?p @ ascii '', estimate='' @ r) = Some (Some (int ?p))" for r
    unfolding comma using p by (intro scan_int_decimal) auto
  moreover have "nat (int ?p mod 256) = ?p" using p by simp
  ultimately show ?thesis by (simp add: hll_out_def c hll_in_def Let_def create_precision)
qed

theorem hll_text_keeps_precision_only_witness:
  "Option.bind (hll_out exact_math (sketch_add True (hll_create 5) 99)) hll_in = Some (hll_create 5)"
  using hll_text_keeps_precision_only [of "sketch_add True (hll_create 5) 99" exact_math]
  by (simp add: wf_intros frame_simps create_precision)

text \<open>at the default precision one distinct value is counted as none. Even with exact arithmetic, the aggregate over any
  number of copies of one value estimates 0: the bias correction subtracts the tabulated fraction of the
  linear-counting estimate, three quarters of it for a cardinality of one.\<close>

theorem one_distinct_value_counts_as_none:
  "Option.bind (hll_aggregate gnu (replicate (Suc n) (Some v))) (hll_final exact_math) = Some 0"
proof -
  let ?vs = "replicate (Suc n) (Some v)" and ?x = "hll_hash_datum (Some v)"
  let ?h = "foldl (sketch_add gnu) (hll_create 14) (row_hashes ?vs)"
  have p: "hll_precision (hll_create 14) = 14" by (simp add: create_precision)
  have "set (row_hashes ?vs) = {?x}" by (auto simp: row_hashes_def)
  then have "hll_registers ?h = map (register_of gnu 14 {?x}) [0..<2 ^ 14]" by (simp only: sketch_registers p)
  then have "hll_registers ?h = map (register_of gnu 14 {?x}) [0..<16384]" by (simp del: upt_rec_numeral)
  moreover have "hll_wf ?h" by (intro wf_intros)
  moreover have "hll_precision ?h = 14" by (simp only: frame_simps p)
  ultimately have "hll_count exact_math ?h = Some 0" by (intro one_hash_count)
  then show ?thesis by (simp add: hll_aggregate_state aggregate_state_def hll_final_def)
qed

end
