(* ===== verification/Jit_Expr.thy ===== *)
theory Jit_Expr
  imports Vector_Agg
begin

text \<open>
  Expression trees of the JIT compiler (\<^verbatim>\<open>jit/jit.h\<close>, the builders of \<^verbatim>\<open>jit/jit_compile.c\<close> and
  \<^verbatim>\<open>jit/jit_expr.c\<close>): building, evaluation of a row, the batch filter and constant folding.

  An evaluator returns a value and the flag \<^verbatim>\<open>is_null\<close>; following a NULL pointer, reading outside a column buffer and
  dividing the least integer by -1 are undefined. A column is read as memory: the evaluator for \<^verbatim>\<open>int64\<close> takes eight
  bytes per row whatever the type of the column. \<open>tv_cond\<close> is a reference in three-valued
  logic over the machine's arithmetic, which the evaluators approximate from below: what they decide, it decides in the
  same way. Its connectives and comparisons with NULL are those of SQL. Its arithmetic is not that of PostgreSQL, where an
  integer overflow and a division by zero are errors and NaN equals itself: sums and products wrap at 64 bits, \<open>x / 0\<close> and
  \<open>x % 0\<close> are NULL, and floats are compared as IEEE 754 has it.
\<close>

unbundle bit_operations_syntax

section \<open>Nodes\<close>

datatype JitExprType =
  JIT_EXPR_CONST | JIT_EXPR_COLUMN | JIT_EXPR_ARITH_ADD | JIT_EXPR_ARITH_SUB | JIT_EXPR_ARITH_MUL |
  JIT_EXPR_ARITH_DIV | JIT_EXPR_ARITH_MOD | JIT_EXPR_ARITH_NEG | JIT_EXPR_CMP_EQ | JIT_EXPR_CMP_NE |
  JIT_EXPR_CMP_LT | JIT_EXPR_CMP_LE | JIT_EXPR_CMP_GT | JIT_EXPR_CMP_GE | JIT_EXPR_BOOL_AND | JIT_EXPR_BOOL_OR |
  JIT_EXPR_BOOL_NOT | JIT_EXPR_IS_NULL | JIT_EXPR_IS_NOT_NULL | JIT_EXPR_BETWEEN | JIT_EXPR_IN | JIT_EXPR_CASE |
  JIT_EXPR_COALESCE | JIT_EXPR_CAST

record jit_node =
  jn_type :: JitExprType
  jn_result_type :: VectorizedDataType
  jn_is_nullable :: bool
  jn_const_value :: u64
  jn_const_is_null :: bool
  jn_column_index :: int
  jn_cast_to_type :: VectorizedDataType
  jn_depth :: int
  jn_cost :: int

datatype JitExprNode =
  JitExprNode (je_node: jit_node) (je_left: "JitExprNode option") (je_right: "JitExprNode option")
              (je_children: "JitExprNode list")

abbreviation (input) je_type :: "JitExprNode \<Rightarrow> JitExprType" where "je_type e \<equiv> jn_type (je_node e)"
abbreviation (input) je_result_type :: "JitExprNode \<Rightarrow> VectorizedDataType" where
  "je_result_type e \<equiv> jn_result_type (je_node e)"
abbreviation (input) je_depth :: "JitExprNode \<Rightarrow> int" where "je_depth e \<equiv> jn_depth (je_node e)"
abbreviation (input) je_cost :: "JitExprNode \<Rightarrow> int" where "je_cost e \<equiv> jn_cost (je_node e)"
abbreviation (input) je_is_nullable :: "JitExprNode \<Rightarrow> bool" where "je_is_nullable e \<equiv> jn_is_nullable (je_node e)"

section \<open>Building trees\<close>

definition jit_expr_alloc :: "JitExprType \<Rightarrow> VectorizedDataType \<Rightarrow> jit_node" where
  "jit_expr_alloc ty result_type =
     \<lparr>jn_type = ty, jn_result_type = result_type, jn_is_nullable = True, jn_const_value = 0, jn_const_is_null = False,
      jn_column_index = 0, jn_cast_to_type = VECTORIZED_TYPE_INT32, jn_depth = 0, jn_cost = 1\<rparr>"

definition const_node :: "VectorizedDataType \<Rightarrow> u64 \<Rightarrow> JitExprNode" where
  "const_node ty datum =
     JitExprNode ((jit_expr_alloc JIT_EXPR_CONST ty)\<lparr>jn_const_value := datum, jn_const_is_null := False,
                    jn_is_nullable := False, jn_cost := 0\<rparr>) None None []"

definition jit_expr_const_int64 :: "u64 \<Rightarrow> JitExprNode" where
  "jit_expr_const_int64 v = const_node VECTORIZED_TYPE_INT64 v"

definition jit_expr_const_int32 :: "u32 \<Rightarrow> JitExprNode" where
  "jit_expr_const_int32 v = const_node VECTORIZED_TYPE_INT32 (scast v)"

definition jit_expr_const_float64 :: "u64 \<Rightarrow> JitExprNode" where
  "jit_expr_const_float64 v = const_node VECTORIZED_TYPE_FLOAT64 v"

definition jit_expr_const_float32 :: "u32 \<Rightarrow> JitExprNode" where
  "jit_expr_const_float32 v = const_node VECTORIZED_TYPE_FLOAT32 (scast v)"

definition jit_expr_const_bool :: "bool \<Rightarrow> JitExprNode" where
  "jit_expr_const_bool v = const_node VECTORIZED_TYPE_BOOL (if v then 1 else 0)"

definition jit_expr_const_null :: "VectorizedDataType \<Rightarrow> JitExprNode" where
  "jit_expr_const_null ty =
     JitExprNode ((jit_expr_alloc JIT_EXPR_CONST ty)\<lparr>jn_const_value := 0, jn_const_is_null := True,
                    jn_is_nullable := True, jn_cost := 0\<rparr>) None None []"

definition jit_expr_column :: "int \<Rightarrow> VectorizedDataType \<Rightarrow> JitExprNode" where
  "jit_expr_column column_index data_type =
     JitExprNode ((jit_expr_alloc JIT_EXPR_COLUMN data_type)\<lparr>jn_column_index := column_index, jn_cost := 1\<rparr>) None None []"

definition jit_expr_binary :: "JitExprType \<Rightarrow> JitExprNode \<Rightarrow> JitExprNode \<Rightarrow> VectorizedDataType \<Rightarrow> JitExprNode" where
  "jit_expr_binary ty left right result_type =
     JitExprNode ((jit_expr_alloc ty result_type)
         \<lparr>jn_depth := 1 + (if je_depth left > je_depth right then je_depth left else je_depth right),
          jn_cost := 1 + je_cost left + je_cost right,
          jn_is_nullable := je_is_nullable left \<or> je_is_nullable right\<rparr>) (Some left) (Some right) []"

definition jit_expr_unary :: "JitExprType \<Rightarrow> JitExprNode \<Rightarrow> VectorizedDataType \<Rightarrow> JitExprNode" where
  "jit_expr_unary ty operand result_type =
     JitExprNode ((jit_expr_alloc ty result_type)
         \<lparr>jn_depth := 1 + je_depth operand, jn_cost := 1 + je_cost operand, jn_is_nullable := je_is_nullable operand\<rparr>)
       (Some operand) None []"

definition jit_arith_result_type :: "VectorizedDataType \<Rightarrow> VectorizedDataType \<Rightarrow> VectorizedDataType" where
  "jit_arith_result_type left right =
     (if left = VECTORIZED_TYPE_FLOAT64 \<or> right = VECTORIZED_TYPE_FLOAT64 then VECTORIZED_TYPE_FLOAT64
      else if left = VECTORIZED_TYPE_FLOAT32 \<or> right = VECTORIZED_TYPE_FLOAT32 then VECTORIZED_TYPE_FLOAT64
      else if left = VECTORIZED_TYPE_INT64 \<or> right = VECTORIZED_TYPE_INT64 then VECTORIZED_TYPE_INT64
      else VECTORIZED_TYPE_INT64)"

definition jit_expr_add :: "JitExprNode \<Rightarrow> JitExprNode \<Rightarrow> JitExprNode" where
  "jit_expr_add l r = jit_expr_binary JIT_EXPR_ARITH_ADD l r (jit_arith_result_type (je_result_type l) (je_result_type r))"

definition jit_expr_sub :: "JitExprNode \<Rightarrow> JitExprNode \<Rightarrow> JitExprNode" where
  "jit_expr_sub l r = jit_expr_binary JIT_EXPR_ARITH_SUB l r (jit_arith_result_type (je_result_type l) (je_result_type r))"

definition jit_expr_mul :: "JitExprNode \<Rightarrow> JitExprNode \<Rightarrow> JitExprNode" where
  "jit_expr_mul l r = jit_expr_binary JIT_EXPR_ARITH_MUL l r (jit_arith_result_type (je_result_type l) (je_result_type r))"

definition jit_expr_div :: "JitExprNode \<Rightarrow> JitExprNode \<Rightarrow> JitExprNode" where
  "jit_expr_div l r = jit_expr_binary JIT_EXPR_ARITH_DIV l r VECTORIZED_TYPE_FLOAT64"

definition jit_expr_mod :: "JitExprNode \<Rightarrow> JitExprNode \<Rightarrow> JitExprNode" where
  "jit_expr_mod l r = jit_expr_binary JIT_EXPR_ARITH_MOD l r VECTORIZED_TYPE_INT64"

definition jit_expr_neg :: "JitExprNode \<Rightarrow> JitExprNode" where
  "jit_expr_neg x = jit_expr_unary JIT_EXPR_ARITH_NEG x (je_result_type x)"

definition jit_expr_eq :: "JitExprNode \<Rightarrow> JitExprNode \<Rightarrow> JitExprNode" where
  "jit_expr_eq l r = jit_expr_binary JIT_EXPR_CMP_EQ l r VECTORIZED_TYPE_BOOL"

definition jit_expr_ne :: "JitExprNode \<Rightarrow> JitExprNode \<Rightarrow> JitExprNode" where
  "jit_expr_ne l r = jit_expr_binary JIT_EXPR_CMP_NE l r VECTORIZED_TYPE_BOOL"

definition jit_expr_lt :: "JitExprNode \<Rightarrow> JitExprNode \<Rightarrow> JitExprNode" where
  "jit_expr_lt l r = jit_expr_binary JIT_EXPR_CMP_LT l r VECTORIZED_TYPE_BOOL"

definition jit_expr_le :: "JitExprNode \<Rightarrow> JitExprNode \<Rightarrow> JitExprNode" where
  "jit_expr_le l r = jit_expr_binary JIT_EXPR_CMP_LE l r VECTORIZED_TYPE_BOOL"

definition jit_expr_gt :: "JitExprNode \<Rightarrow> JitExprNode \<Rightarrow> JitExprNode" where
  "jit_expr_gt l r = jit_expr_binary JIT_EXPR_CMP_GT l r VECTORIZED_TYPE_BOOL"

definition jit_expr_ge :: "JitExprNode \<Rightarrow> JitExprNode \<Rightarrow> JitExprNode" where
  "jit_expr_ge l r = jit_expr_binary JIT_EXPR_CMP_GE l r VECTORIZED_TYPE_BOOL"

definition jit_expr_and :: "JitExprNode \<Rightarrow> JitExprNode \<Rightarrow> JitExprNode" where
  "jit_expr_and l r = jit_expr_binary JIT_EXPR_BOOL_AND l r VECTORIZED_TYPE_BOOL"

definition jit_expr_or :: "JitExprNode \<Rightarrow> JitExprNode \<Rightarrow> JitExprNode" where
  "jit_expr_or l r = jit_expr_binary JIT_EXPR_BOOL_OR l r VECTORIZED_TYPE_BOOL"

definition jit_expr_not :: "JitExprNode \<Rightarrow> JitExprNode" where
  "jit_expr_not x = jit_expr_unary JIT_EXPR_BOOL_NOT x VECTORIZED_TYPE_BOOL"

fun set_not_nullable :: "JitExprNode \<Rightarrow> JitExprNode" where
  "set_not_nullable (JitExprNode n l r cs) = JitExprNode (n\<lparr>jn_is_nullable := False\<rparr>) l r cs"

definition jit_expr_is_null :: "JitExprNode \<Rightarrow> JitExprNode" where
  "jit_expr_is_null x = set_not_nullable (jit_expr_unary JIT_EXPR_IS_NULL x VECTORIZED_TYPE_BOOL)"

definition jit_expr_is_not_null :: "JitExprNode \<Rightarrow> JitExprNode" where
  "jit_expr_is_not_null x = set_not_nullable (jit_expr_unary JIT_EXPR_IS_NOT_NULL x VECTORIZED_TYPE_BOOL)"

definition jit_expr_between :: "JitExprNode \<Rightarrow> JitExprNode \<Rightarrow> JitExprNode \<Rightarrow> JitExprNode" where
  "jit_expr_between v low high =
     JitExprNode ((jit_expr_alloc JIT_EXPR_BETWEEN VECTORIZED_TYPE_BOOL)
         \<lparr>jn_depth := 1 + je_depth v, jn_cost := je_cost v + je_cost low + je_cost high + 2,
          jn_is_nullable := je_is_nullable v \<or> je_is_nullable low \<or> je_is_nullable high\<rparr>) None None [v, low, high]"

definition jit_expr_cast :: "JitExprNode \<Rightarrow> VectorizedDataType \<Rightarrow> JitExprNode" where
  "jit_expr_cast operand target_type =
     (case jit_expr_unary JIT_EXPR_CAST operand target_type of
        JitExprNode n l r cs \<Rightarrow> JitExprNode (n\<lparr>jn_cast_to_type := target_type\<rparr>) l r cs)"

section \<open>Conversions\<close>

text \<open>The floating-point operations, on bit patterns, are a parameter; a conversion to an integer that does not fit is
  whatever the machine gives.\<close>

record jit_math =
  jm_double :: double_ops
  dmul :: "u64 \<Rightarrow> u64 \<Rightarrow> u64"
  dneg :: "u64 \<Rightarrow> u64"
  d_to_int64 :: "u64 \<Rightarrow> u64"
  d_to_int32 :: "u64 \<Rightarrow> u32"
  d_to_float :: "u64 \<Rightarrow> u32"
  s_of_int64 :: "u64 \<Rightarrow> u32"
  s_to_int64 :: "u32 \<Rightarrow> u64"
  s_to_int32 :: "u32 \<Rightarrow> u32"

abbreviation (input) datum_int32 :: "u64 \<Rightarrow> u32" where "datum_int32 d \<equiv> ucast d"
abbreviation (input) DBL_ONE :: u64 where "DBL_ONE \<equiv> 0x3FF0000000000000"
abbreviation (input) FLT_ONE :: u32 where "FLT_ONE \<equiv> 0x3F800000"

definition datum_bool :: "u64 \<Rightarrow> bool" where
  "datum_bool d = ((ucast d :: u8) \<noteq> 0)"

definition jit_convert_to_int64 :: "jit_math \<Rightarrow> u64 \<Rightarrow> VectorizedDataType \<Rightarrow> u64" where
  "jit_convert_to_int64 fm v from_type =
     (case from_type of
        VECTORIZED_TYPE_INT64 \<Rightarrow> v
      | VECTORIZED_TYPE_TIMESTAMP \<Rightarrow> v
      | VECTORIZED_TYPE_INT32 \<Rightarrow> scast (datum_int32 v)
      | VECTORIZED_TYPE_DATE \<Rightarrow> scast (datum_int32 v)
      | VECTORIZED_TYPE_FLOAT64 \<Rightarrow> d_to_int64 fm v
      | VECTORIZED_TYPE_FLOAT32 \<Rightarrow> s_to_int64 fm (datum_int32 v)
      | VECTORIZED_TYPE_BOOL \<Rightarrow> (if datum_bool v then 1 else 0)
      | _ \<Rightarrow> 0)"

definition jit_convert_to_int32 :: "jit_math \<Rightarrow> u64 \<Rightarrow> VectorizedDataType \<Rightarrow> u32" where
  "jit_convert_to_int32 fm v from_type =
     (case from_type of
        VECTORIZED_TYPE_INT64 \<Rightarrow> ucast v
      | VECTORIZED_TYPE_TIMESTAMP \<Rightarrow> ucast v
      | VECTORIZED_TYPE_INT32 \<Rightarrow> datum_int32 v
      | VECTORIZED_TYPE_DATE \<Rightarrow> datum_int32 v
      | VECTORIZED_TYPE_FLOAT64 \<Rightarrow> d_to_int32 fm v
      | VECTORIZED_TYPE_FLOAT32 \<Rightarrow> s_to_int32 fm (datum_int32 v)
      | VECTORIZED_TYPE_BOOL \<Rightarrow> (if datum_bool v then 1 else 0)
      | _ \<Rightarrow> 0)"

definition jit_convert_to_float64 :: "jit_math \<Rightarrow> u64 \<Rightarrow> VectorizedDataType \<Rightarrow> u64" where
  "jit_convert_to_float64 fm v from_type =
     (case from_type of
        VECTORIZED_TYPE_INT64 \<Rightarrow> d_of_int64 (jm_double fm) v
      | VECTORIZED_TYPE_TIMESTAMP \<Rightarrow> d_of_int64 (jm_double fm) v
      | VECTORIZED_TYPE_INT32 \<Rightarrow> d_of_int64 (jm_double fm) (scast (datum_int32 v))
      | VECTORIZED_TYPE_DATE \<Rightarrow> d_of_int64 (jm_double fm) (scast (datum_int32 v))
      | VECTORIZED_TYPE_FLOAT64 \<Rightarrow> v
      | VECTORIZED_TYPE_FLOAT32 \<Rightarrow> d_of_float (jm_double fm) (datum_int32 v)
      | VECTORIZED_TYPE_BOOL \<Rightarrow> (if datum_bool v then DBL_ONE else 0)
      | _ \<Rightarrow> 0)"

definition jit_convert_to_float32 :: "jit_math \<Rightarrow> u64 \<Rightarrow> VectorizedDataType \<Rightarrow> u32" where
  "jit_convert_to_float32 fm v from_type =
     (case from_type of
        VECTORIZED_TYPE_INT64 \<Rightarrow> s_of_int64 fm v
      | VECTORIZED_TYPE_TIMESTAMP \<Rightarrow> s_of_int64 fm v
      | VECTORIZED_TYPE_INT32 \<Rightarrow> s_of_int64 fm (scast (datum_int32 v))
      | VECTORIZED_TYPE_DATE \<Rightarrow> s_of_int64 fm (scast (datum_int32 v))
      | VECTORIZED_TYPE_FLOAT64 \<Rightarrow> d_to_float fm v
      | VECTORIZED_TYPE_FLOAT32 \<Rightarrow> datum_int32 v
      | VECTORIZED_TYPE_BOOL \<Rightarrow> (if datum_bool v then FLT_ONE else 0)
      | _ \<Rightarrow> 0)"

definition jit_convert_to_bool :: "u64 \<Rightarrow> VectorizedDataType \<Rightarrow> bool" where
  "jit_convert_to_bool v from_type =
     (case from_type of
        VECTORIZED_TYPE_INT64 \<Rightarrow> v \<noteq> 0
      | VECTORIZED_TYPE_TIMESTAMP \<Rightarrow> v \<noteq> 0
      | VECTORIZED_TYPE_INT32 \<Rightarrow> datum_int32 v \<noteq> 0
      | VECTORIZED_TYPE_DATE \<Rightarrow> datum_int32 v \<noteq> 0
      | VECTORIZED_TYPE_FLOAT64 \<Rightarrow> \<not> f_eq v 0
      | VECTORIZED_TYPE_FLOAT32 \<Rightarrow> \<not> f_eq (datum_int32 v) 0
      | VECTORIZED_TYPE_BOOL \<Rightarrow> datum_bool v
      | _ \<Rightarrow> False)"

section \<open>Evaluation of a row\<close>

definition column_bytes :: "column_data \<Rightarrow> bytes" where
  "column_bytes d =
     (case d of Data64 xs \<Rightarrow> concat (map (\<lambda>x. le_bytes 8 (unat x)) xs)
      | Data32 xs \<Rightarrow> concat (map (\<lambda>x. le_bytes 4 (unat x)) xs)
      | Data8 xs \<Rightarrow> xs)"

text \<open>\<^verbatim>\<open>((T *)col->data)[row_idx]\<close> for a type of \<open>k\<close> bytes: undefined outside the buffer.\<close>

definition read_at :: "nat \<Rightarrow> column_data \<Rightarrow> nat \<Rightarrow> nat option" where
  "read_at k d i =
     (let bs = column_bytes d in if (i + 1) * k \<le> length bs then Some (le_nat (take k (drop (i * k) bs))) else None)"

text \<open>The case \<^verbatim>\<open>JIT_EXPR_COLUMN\<close> of the evaluators: \<^term>\<open>Some None\<close> is a NULL.\<close>

definition column_cell :: "nat \<Rightarrow> VectorBatch \<Rightarrow> JitExprNode \<Rightarrow> nat \<Rightarrow> nat option option" where
  "column_cell k b e row_idx =
     (let ci = jn_column_index (je_node e) in
      if ci < 0 then None
      else do { c \<leftarrow> array_get (vb_columns b) (nat ci);
                col \<leftarrow> c;
                isnull \<leftarrow> row_null col row_idx;
                if isnull then Some None else map_option Some (read_at k (vc_data col) row_idx) })"

definition cell_word :: "nat option option \<Rightarrow> ('a::len word \<times> bool) option" where
  "cell_word c = map_option (\<lambda>v. case v of None \<Rightarrow> (0, True) | Some n \<Rightarrow> (word_of_nat n, False)) c"

definition cell_bool :: "nat option option \<Rightarrow> (bool \<times> bool) option" where
  "cell_bool c = map_option (\<lambda>v. case v of None \<Rightarrow> (False, True) | Some n \<Rightarrow> (n \<noteq> 0, False)) c"

text \<open>Operands are evaluated from left to right; the result is NULL if one of them is.\<close>

definition lift1 :: "('a \<Rightarrow> 'b) \<Rightarrow> ('a \<times> bool) option \<Rightarrow> ('b \<times> bool) option" where
  "lift1 f r = map_option (\<lambda>(x, isnull). (f x, isnull)) r"

definition lift2 :: "('a \<Rightarrow> 'b \<Rightarrow> 'c) \<Rightarrow> ('a \<times> bool) option \<Rightarrow> ('b \<times> bool) option \<Rightarrow> ('c \<times> bool) option" where
  "lift2 f ra rb = do { (x, xn) \<leftarrow> ra; (y, yn) \<leftarrow> rb; Some (f x y, xn \<or> yn) }"

definition int_div :: "(int \<Rightarrow> int \<Rightarrow> int) \<Rightarrow> (u64 \<times> bool) option \<Rightarrow> (u64 \<times> bool) option \<Rightarrow> (u64 \<times> bool) option" where
  "int_div f ra rb =
     do { (x, xn) \<leftarrow> ra; (y, yn) \<leftarrow> rb;
          if y = 0 then Some (0, True)
          else if x = INT64_MIN \<and> y = - 1 then None
          else Some (word_of_int (f (sint x) (sint y)), xn \<or> yn) }"

definition float_div :: "jit_math \<Rightarrow> (u64 \<times> bool) option \<Rightarrow> (u64 \<times> bool) option \<Rightarrow> (u64 \<times> bool) option" where
  "float_div fm ra rb =
     do { (x, xn) \<leftarrow> ra; (y, yn) \<leftarrow> rb;
          if f_eq y 0 then Some (0, True) else Some (ddiv (jm_double fm) x y, xn \<or> yn) }"

definition c_mod :: "int \<Rightarrow> int \<Rightarrow> int" where
  "c_mod a b = a - c_div a b * b"

definition compare2 :: "('a \<Rightarrow> 'a \<Rightarrow> bool) \<Rightarrow> ('a \<times> bool) option \<Rightarrow> ('a \<times> bool) option \<Rightarrow> (bool \<times> bool) option" where
  "compare2 f ra rb = do { (x, xn) \<leftarrow> ra; (y, yn) \<leftarrow> rb; Some (if xn \<or> yn then (False, True) else (f x y, False)) }"

fun compare_op :: "JitExprType \<Rightarrow> VectorizedCompareOp option" where
  "compare_op JIT_EXPR_CMP_EQ = Some VECTORIZED_CMP_EQ"
| "compare_op JIT_EXPR_CMP_NE = Some VECTORIZED_CMP_NE"
| "compare_op JIT_EXPR_CMP_LT = Some VECTORIZED_CMP_LT"
| "compare_op JIT_EXPR_CMP_LE = Some VECTORIZED_CMP_LE"
| "compare_op JIT_EXPR_CMP_GT = Some VECTORIZED_CMP_GT"
| "compare_op JIT_EXPR_CMP_GE = Some VECTORIZED_CMP_GE"
| "compare_op _ = None"

lemma left_smaller: "je_left e = Some l \<Longrightarrow> size l < size e"
  by (cases e) auto

lemma right_smaller: "je_right e = Some r \<Longrightarrow> size r < size e"
  by (cases e) auto

lemma child_smaller: "c \<in> set (je_children e) \<Longrightarrow> size c < size e"
  using size_list_estimation' [of c "je_children e" "size c" size] by (cases e) auto

lemma children_smaller:
  "je_children e = c0 # c1 # c2 # cs \<Longrightarrow> size c0 < size e \<and> size c1 < size e \<and> size c2 < size e"
  by (simp add: child_smaller)

text \<open>The evaluator of floats falls back to that of doubles on the same node.\<close>

definition eval_size :: "jit_math \<times> VectorBatch \<times> JitExprNode \<times> nat \<Rightarrow> nat" where
  "eval_size a = (case a of (fm, b, e, i) \<Rightarrow> 2 * size e)"

function
  jit_eval_int64 :: "jit_math \<Rightarrow> VectorBatch \<Rightarrow> JitExprNode \<Rightarrow> nat \<Rightarrow> (u64 \<times> bool) option" and
  jit_eval_int32 :: "jit_math \<Rightarrow> VectorBatch \<Rightarrow> JitExprNode \<Rightarrow> nat \<Rightarrow> (u32 \<times> bool) option" and
  jit_eval_float64 :: "jit_math \<Rightarrow> VectorBatch \<Rightarrow> JitExprNode \<Rightarrow> nat \<Rightarrow> (u64 \<times> bool) option" and
  jit_eval_float32 :: "jit_math \<Rightarrow> VectorBatch \<Rightarrow> JitExprNode \<Rightarrow> nat \<Rightarrow> (u32 \<times> bool) option" and
  jit_eval_bool :: "jit_math \<Rightarrow> VectorBatch \<Rightarrow> JitExprNode \<Rightarrow> nat \<Rightarrow> (bool \<times> bool) option"
where
  "jit_eval_int64 fm b e i =
     (case je_type e of
        JIT_EXPR_CONST \<Rightarrow> Some (jit_convert_to_int64 fm (jn_const_value (je_node e)) (je_result_type e), jn_const_is_null (je_node e))
      | JIT_EXPR_COLUMN \<Rightarrow> cell_word (column_cell 8 b e i)
      | JIT_EXPR_ARITH_ADD \<Rightarrow>
          (case (je_left e, je_right e) of
             (Some l, Some r) \<Rightarrow> lift2 (+) (jit_eval_int64 fm b l i) (jit_eval_int64 fm b r i) | _ \<Rightarrow> None)
      | JIT_EXPR_ARITH_SUB \<Rightarrow>
          (case (je_left e, je_right e) of
             (Some l, Some r) \<Rightarrow> lift2 (-) (jit_eval_int64 fm b l i) (jit_eval_int64 fm b r i) | _ \<Rightarrow> None)
      | JIT_EXPR_ARITH_MUL \<Rightarrow>
          (case (je_left e, je_right e) of
             (Some l, Some r) \<Rightarrow> lift2 (*) (jit_eval_int64 fm b l i) (jit_eval_int64 fm b r i) | _ \<Rightarrow> None)
      | JIT_EXPR_ARITH_DIV \<Rightarrow>
          (case (je_left e, je_right e) of
             (Some l, Some r) \<Rightarrow> int_div c_div (jit_eval_int64 fm b l i) (jit_eval_int64 fm b r i) | _ \<Rightarrow> None)
      | JIT_EXPR_ARITH_MOD \<Rightarrow>
          (case (je_left e, je_right e) of
             (Some l, Some r) \<Rightarrow> int_div c_mod (jit_eval_int64 fm b l i) (jit_eval_int64 fm b r i) | _ \<Rightarrow> None)
      | JIT_EXPR_ARITH_NEG \<Rightarrow>
          (case je_left e of Some l \<Rightarrow> lift1 uminus (jit_eval_int64 fm b l i) | None \<Rightarrow> None)
      | JIT_EXPR_CAST \<Rightarrow>
          (case je_left e of
             None \<Rightarrow> None
           | Some l \<Rightarrow>
               (case je_result_type l of
                  VECTORIZED_TYPE_INT64 \<Rightarrow> jit_eval_int64 fm b l i
                | VECTORIZED_TYPE_TIMESTAMP \<Rightarrow> jit_eval_int64 fm b l i
                | VECTORIZED_TYPE_INT32 \<Rightarrow> lift1 scast (jit_eval_int32 fm b l i)
                | VECTORIZED_TYPE_DATE \<Rightarrow> lift1 scast (jit_eval_int32 fm b l i)
                | VECTORIZED_TYPE_FLOAT64 \<Rightarrow> lift1 (d_to_int64 fm) (jit_eval_float64 fm b l i)
                | VECTORIZED_TYPE_FLOAT32 \<Rightarrow> lift1 (s_to_int64 fm) (jit_eval_float32 fm b l i)
                | VECTORIZED_TYPE_BOOL \<Rightarrow> lift1 (\<lambda>v. if v then 1 else 0) (jit_eval_bool fm b l i)
                | _ \<Rightarrow> Some (0, False)))
      | _ \<Rightarrow> Some (0, True))"
| "jit_eval_int32 fm b e i =
     (case je_type e of
        JIT_EXPR_CONST \<Rightarrow> Some (jit_convert_to_int32 fm (jn_const_value (je_node e)) (je_result_type e), jn_const_is_null (je_node e))
      | JIT_EXPR_COLUMN \<Rightarrow> cell_word (column_cell 4 b e i)
      | JIT_EXPR_ARITH_ADD \<Rightarrow>
          (case (je_left e, je_right e) of
             (Some l, Some r) \<Rightarrow> lift2 (+) (jit_eval_int32 fm b l i) (jit_eval_int32 fm b r i) | _ \<Rightarrow> None)
      | JIT_EXPR_ARITH_SUB \<Rightarrow>
          (case (je_left e, je_right e) of
             (Some l, Some r) \<Rightarrow> lift2 (-) (jit_eval_int32 fm b l i) (jit_eval_int32 fm b r i) | _ \<Rightarrow> None)
      | JIT_EXPR_ARITH_MUL \<Rightarrow>
          (case (je_left e, je_right e) of
             (Some l, Some r) \<Rightarrow> lift2 (*) (jit_eval_int32 fm b l i) (jit_eval_int32 fm b r i) | _ \<Rightarrow> None)
      | JIT_EXPR_ARITH_NEG \<Rightarrow>
          (case je_left e of Some l \<Rightarrow> lift1 uminus (jit_eval_int32 fm b l i) | None \<Rightarrow> None)
      | JIT_EXPR_CAST \<Rightarrow>
          (case je_left e of Some l \<Rightarrow> lift1 ucast (jit_eval_int64 fm b l i) | None \<Rightarrow> None)
      | _ \<Rightarrow> Some (0, True))"
| "jit_eval_float64 fm b e i =
     (case je_type e of
        JIT_EXPR_CONST \<Rightarrow> Some (jit_convert_to_float64 fm (jn_const_value (je_node e)) (je_result_type e), jn_const_is_null (je_node e))
      | JIT_EXPR_COLUMN \<Rightarrow> cell_word (column_cell 8 b e i)
      | JIT_EXPR_ARITH_ADD \<Rightarrow>
          (case (je_left e, je_right e) of
             (Some l, Some r) \<Rightarrow> lift2 (dadd (jm_double fm)) (jit_eval_float64 fm b l i) (jit_eval_float64 fm b r i) | _ \<Rightarrow> None)
      | JIT_EXPR_ARITH_SUB \<Rightarrow>
          (case (je_left e, je_right e) of
             (Some l, Some r) \<Rightarrow> lift2 (dsub (jm_double fm)) (jit_eval_float64 fm b l i) (jit_eval_float64 fm b r i) | _ \<Rightarrow> None)
      | JIT_EXPR_ARITH_MUL \<Rightarrow>
          (case (je_left e, je_right e) of
             (Some l, Some r) \<Rightarrow> lift2 (dmul fm) (jit_eval_float64 fm b l i) (jit_eval_float64 fm b r i) | _ \<Rightarrow> None)
      | JIT_EXPR_ARITH_DIV \<Rightarrow>
          (case (je_left e, je_right e) of
             (Some l, Some r) \<Rightarrow> float_div fm (jit_eval_float64 fm b l i) (jit_eval_float64 fm b r i) | _ \<Rightarrow> None)
      | JIT_EXPR_ARITH_NEG \<Rightarrow>
          (case je_left e of Some l \<Rightarrow> lift1 (dneg fm) (jit_eval_float64 fm b l i) | None \<Rightarrow> None)
      | JIT_EXPR_CAST \<Rightarrow>
          (case je_left e of
             None \<Rightarrow> None
           | Some l \<Rightarrow>
               (case je_result_type l of
                  VECTORIZED_TYPE_INT64 \<Rightarrow> lift1 (d_of_int64 (jm_double fm)) (jit_eval_int64 fm b l i)
                | VECTORIZED_TYPE_TIMESTAMP \<Rightarrow> lift1 (d_of_int64 (jm_double fm)) (jit_eval_int64 fm b l i)
                | VECTORIZED_TYPE_INT32 \<Rightarrow> lift1 (\<lambda>v. d_of_int64 (jm_double fm) (scast v)) (jit_eval_int32 fm b l i)
                | VECTORIZED_TYPE_DATE \<Rightarrow> lift1 (\<lambda>v. d_of_int64 (jm_double fm) (scast v)) (jit_eval_int32 fm b l i)
                | VECTORIZED_TYPE_FLOAT64 \<Rightarrow> jit_eval_float64 fm b l i
                | VECTORIZED_TYPE_FLOAT32 \<Rightarrow> lift1 (d_of_float (jm_double fm)) (jit_eval_float32 fm b l i)
                | _ \<Rightarrow> Some (0, False)))
      | _ \<Rightarrow> Some (0, True))"
| "jit_eval_float32 fm b e i =
     (case je_type e of
        JIT_EXPR_CONST \<Rightarrow> Some (jit_convert_to_float32 fm (jn_const_value (je_node e)) (je_result_type e), jn_const_is_null (je_node e))
      | JIT_EXPR_COLUMN \<Rightarrow> cell_word (column_cell 4 b e i)
      | JIT_EXPR_CAST \<Rightarrow>
          (case je_left e of Some l \<Rightarrow> lift1 (d_to_float fm) (jit_eval_float64 fm b l i) | None \<Rightarrow> None)
      | _ \<Rightarrow> lift1 (d_to_float fm) (jit_eval_float64 fm b e i))"
| "jit_eval_bool fm b e i =
     (case compare_op (je_type e) of
        Some op \<Rightarrow>
          (case (je_left e, je_right e) of
             (Some l, Some r) \<Rightarrow>
               (if je_result_type r = VECTORIZED_TYPE_FLOAT64 \<or> je_result_type l = VECTORIZED_TYPE_FLOAT64
                then compare2 (float_cmp op) (jit_eval_float64 fm b l i) (jit_eval_float64 fm b r i)
                else compare2 (signed_cmp op) (jit_eval_int64 fm b l i) (jit_eval_int64 fm b r i))
           | _ \<Rightarrow> None)
      | None \<Rightarrow>
          (case je_type e of
             JIT_EXPR_CONST \<Rightarrow> Some (jit_convert_to_bool (jn_const_value (je_node e)) (je_result_type e), jn_const_is_null (je_node e))
           | JIT_EXPR_COLUMN \<Rightarrow> cell_bool (column_cell 1 b e i)
           | JIT_EXPR_BOOL_AND \<Rightarrow>
               (case je_left e of
                  None \<Rightarrow> None
                | Some l \<Rightarrow>
                    do { (x, xn) \<leftarrow> jit_eval_bool fm b l i;
                         if xn then Some (False, True)
                         else if \<not> x then Some (False, False)
                         else (case je_right e of None \<Rightarrow> None | Some r \<Rightarrow> jit_eval_bool fm b r i) })
           | JIT_EXPR_BOOL_OR \<Rightarrow>
               (case je_left e of
                  None \<Rightarrow> None
                | Some l \<Rightarrow>
                    do { (x, xn) \<leftarrow> jit_eval_bool fm b l i;
                         if xn then Some (False, True)
                         else if x then Some (True, False)
                         else (case je_right e of None \<Rightarrow> None | Some r \<Rightarrow> jit_eval_bool fm b r i) })
           | JIT_EXPR_BOOL_NOT \<Rightarrow>
               (case je_left e of Some l \<Rightarrow> lift1 Not (jit_eval_bool fm b l i) | None \<Rightarrow> None)
           | JIT_EXPR_IS_NULL \<Rightarrow>
               (case je_left e of Some l \<Rightarrow> map_option (\<lambda>(_, isnull). (isnull, False)) (jit_eval_bool fm b l i) | None \<Rightarrow> None)
           | JIT_EXPR_IS_NOT_NULL \<Rightarrow>
               (case je_left e of Some l \<Rightarrow> map_option (\<lambda>(_, isnull). (\<not> isnull, False)) (jit_eval_bool fm b l i) | None \<Rightarrow> None)
           | JIT_EXPR_BETWEEN \<Rightarrow>
               (case je_children e of
                  c0 # c1 # c2 # _ \<Rightarrow>
                    do { (v, vn) \<leftarrow> jit_eval_float64 fm b c0 i;
                         (low, ln) \<leftarrow> jit_eval_float64 fm b c1 i;
                         (high, hn) \<leftarrow> jit_eval_float64 fm b c2 i;
                         Some (if vn \<or> ln \<or> hn then (False, True) else (f_le low v \<and> f_le v high, False)) }
                | _ \<Rightarrow> Some (False, True))
           | _ \<Rightarrow> Some (False, True)))"
  by pat_completeness auto

termination
  by (relation "measure (case_sum (case_sum eval_size eval_size)
                          (case_sum eval_size (case_sum (\<lambda>a. eval_size a + 1) eval_size)))")
     (auto simp: eval_size_def dest!: left_smaller right_smaller children_smaller
        left_smaller [OF sym] right_smaller [OF sym] children_smaller [OF sym])

declare jit_eval_int64.simps [simp del] jit_eval_int32.simps [simp del] jit_eval_float64.simps [simp del]
  jit_eval_float32.simps [simp del] jit_eval_bool.simps [simp del]

section \<open>The batch filter and tree utilities\<close>

definition jit_batch_filter_internal :: "jit_math \<Rightarrow> VectorBatch \<Rightarrow> JitExprNode \<Rightarrow> bool list \<Rightarrow> bool list option" where
  "jit_batch_filter_internal fm b e out_mask =
     fold_opt (\<lambda>i msk. do { (v, isnull) \<leftarrow> jit_eval_bool fm b e i;
                              msk \<leftarrow> array_store msk i v;
                              if isnull then array_store msk i False else Some msk })
       [0..<vb_count b] out_mask"

definition jit_expr_is_const :: "JitExprNode option \<Rightarrow> bool" where
  "jit_expr_is_const e = (case e of None \<Rightarrow> False | Some x \<Rightarrow> je_type x = JIT_EXPR_CONST)"

definition jit_expr_is_column :: "JitExprNode option \<Rightarrow> bool" where
  "jit_expr_is_column e = (case e of None \<Rightarrow> False | Some x \<Rightarrow> je_type x = JIT_EXPR_COLUMN)"

definition jit_expr_is_simple_comparison :: "JitExprNode option \<Rightarrow> bool" where
  "jit_expr_is_simple_comparison e =
     (case e of
        None \<Rightarrow> False
      | Some x \<Rightarrow>
          compare_op (je_type x) \<noteq> None \<and>
          (jit_expr_is_column (je_left x) \<and> jit_expr_is_const (je_right x) \<or>
           jit_expr_is_const (je_left x) \<and> jit_expr_is_column (je_right x)))"

function jit_extract_column_refs :: "nat \<Rightarrow> JitExprNode \<Rightarrow> int list \<Rightarrow> int list" where
  "jit_extract_column_refs max_columns e cols =
     (if length cols \<ge> max_columns then cols
      else if je_type e = JIT_EXPR_COLUMN
      then (if jn_column_index (je_node e) \<in> set cols then cols else cols @ [jn_column_index (je_node e)])
      else let cols = (case je_left e of None \<Rightarrow> cols | Some l \<Rightarrow> jit_extract_column_refs max_columns l cols);
               cols = (case je_right e of None \<Rightarrow> cols | Some r \<Rightarrow> jit_extract_column_refs max_columns r cols)
           in fold (jit_extract_column_refs max_columns) (je_children e) cols)"
  by pat_completeness auto
termination
  by (relation "measure (\<lambda>(m, e, cols). size e)")
     (auto dest!: left_smaller right_smaller child_smaller)

declare jit_extract_column_refs.simps [simp del]

section \<open>Constant folding\<close>

abbreviation (input) const_int64 :: "jit_math \<Rightarrow> JitExprNode \<Rightarrow> u64" where
  "const_int64 fm e \<equiv> jit_convert_to_int64 fm (jn_const_value (je_node e)) (je_result_type e)"
abbreviation (input) const_float64 :: "jit_math \<Rightarrow> JitExprNode \<Rightarrow> u64" where
  "const_float64 fm e \<equiv> jit_convert_to_float64 fm (jn_const_value (je_node e)) (je_result_type e)"
abbreviation (input) const_bool :: "JitExprNode \<Rightarrow> bool" where
  "const_bool e \<equiv> jit_convert_to_bool (jn_const_value (je_node e)) (je_result_type e)"

definition fold_int64 :: "JitExprType \<Rightarrow> u64 \<Rightarrow> u64 \<Rightarrow> u64 option" where
  "fold_int64 ty x y =
     (case ty of
        JIT_EXPR_ARITH_ADD \<Rightarrow> Some (x + y)
      | JIT_EXPR_ARITH_SUB \<Rightarrow> Some (x - y)
      | JIT_EXPR_ARITH_MUL \<Rightarrow> Some (x * y)
      | JIT_EXPR_ARITH_DIV \<Rightarrow>
          (if y = 0 then Some 0 else if x = INT64_MIN \<and> y = - 1 then None else Some (word_of_int (c_div (sint x) (sint y))))
      | JIT_EXPR_ARITH_MOD \<Rightarrow>
          (if y = 0 then Some 0 else if x = INT64_MIN \<and> y = - 1 then None else Some (word_of_int (c_mod (sint x) (sint y))))
      | _ \<Rightarrow> Some 0)"

definition fold_float64 :: "jit_math \<Rightarrow> JitExprType \<Rightarrow> u64 \<Rightarrow> u64 \<Rightarrow> u64" where
  "fold_float64 fm ty x y =
     (case ty of
        JIT_EXPR_ARITH_ADD \<Rightarrow> dadd (jm_double fm) x y
      | JIT_EXPR_ARITH_SUB \<Rightarrow> dsub (jm_double fm) x y
      | JIT_EXPR_ARITH_MUL \<Rightarrow> dmul fm x y
      | JIT_EXPR_ARITH_DIV \<Rightarrow> (if f_eq y 0 then 0 else ddiv (jm_double fm) x y)
      | _ \<Rightarrow> 0)"

text \<open>Both operands are constants: \<^term>\<open>Some None\<close> falls through to the rules below.\<close>

definition fold_constants :: "jit_math \<Rightarrow> JitExprNode \<Rightarrow> JitExprNode \<Rightarrow> JitExprNode \<Rightarrow> JitExprNode option option" where
  "fold_constants fm e l r =
     (if je_type e \<in> {JIT_EXPR_ARITH_ADD, JIT_EXPR_ARITH_SUB, JIT_EXPR_ARITH_MUL, JIT_EXPR_ARITH_DIV, JIT_EXPR_ARITH_MOD}
      then (if je_result_type e = VECTORIZED_TYPE_INT64
            then map_option (\<lambda>v. Some (jit_expr_const_int64 v)) (fold_int64 (je_type e) (const_int64 fm l) (const_int64 fm r))
            else if je_result_type e = VECTORIZED_TYPE_FLOAT64
            then Some (Some (jit_expr_const_float64 (fold_float64 fm (je_type e) (const_float64 fm l) (const_float64 fm r))))
            else Some None)
      else case compare_op (je_type e) of
             Some op \<Rightarrow> Some (Some (jit_expr_const_bool (float_cmp op (const_float64 fm l) (const_float64 fm r))))
           | None \<Rightarrow>
               (if je_type e = JIT_EXPR_BOOL_AND then Some (Some (jit_expr_const_bool (const_bool l \<and> const_bool r)))
                else if je_type e = JIT_EXPR_BOOL_OR then Some (Some (jit_expr_const_bool (const_bool l \<or> const_bool r)))
                else Some None))"

definition simplify_bool :: "JitExprNode \<Rightarrow> JitExprNode option" where
  "simplify_bool e =
     (let lconst = jit_expr_is_const (je_left e); rconst = jit_expr_is_const (je_right e) in
      if je_type e = JIT_EXPR_BOOL_AND \<and> lconst
      then (if \<not> const_bool (the (je_left e)) then Some (jit_expr_const_bool False) else je_right e)
      else if je_type e = JIT_EXPR_BOOL_AND \<and> rconst
      then (if \<not> const_bool (the (je_right e)) then Some (jit_expr_const_bool False) else je_left e)
      else if je_type e = JIT_EXPR_BOOL_OR \<and> lconst
      then (if const_bool (the (je_left e)) then Some (jit_expr_const_bool True) else je_right e)
      else if je_type e = JIT_EXPR_BOOL_OR \<and> rconst
      then (if const_bool (the (je_right e)) then Some (jit_expr_const_bool True) else je_left e)
      else if je_type e = JIT_EXPR_BOOL_NOT \<and> lconst
      then Some (jit_expr_const_bool (\<not> const_bool (the (je_left e))))
      else Some e)"

text \<open>The part of \<^verbatim>\<open>jit_optimize_expr\<close> after its recursive calls. The result is undefined, NULL or a node.\<close>

definition optimize_node :: "jit_math \<Rightarrow> JitExprNode \<Rightarrow> JitExprNode option option" where
  "optimize_node fm e =
     (case (je_left e, je_right e) of
        (Some l, Some r) \<Rightarrow>
          if jit_expr_is_const (Some l) \<and> jit_expr_is_const (Some r)
          then do { c \<leftarrow> fold_constants fm e l r;
                    case c of Some n \<Rightarrow> Some (Some n) | None \<Rightarrow> Some (simplify_bool e) }
          else Some (simplify_bool e)
      | _ \<Rightarrow> Some (simplify_bool e))"

function jit_optimize_expr :: "jit_math \<Rightarrow> JitExprNode \<Rightarrow> JitExprNode option option" where
  "jit_optimize_expr fm e =
     do { l \<leftarrow> (case je_left e of None \<Rightarrow> Some None | Some l \<Rightarrow> jit_optimize_expr fm l);
          r \<leftarrow> (case je_right e of None \<Rightarrow> Some None | Some r \<Rightarrow> jit_optimize_expr fm r);
          optimize_node fm (JitExprNode (je_node e) l r (je_children e)) }"
  by pat_completeness auto
termination
  by (relation "measure (\<lambda>(fm, e). size e)") (auto dest!: left_smaller right_smaller)

declare jit_optimize_expr.simps [simp del]

section \<open>Conditions\<close>

text \<open>Conditions over 64-bit integer, timestamp and 64-bit float columns with constants other than NULL, \<^verbatim>\<open>BETWEEN\<close> on floats
  and boolean columns; the trees that the builders make of them; and their value in three-valued logic: \<^const>\<open>None\<close> is NULL.\<close>

datatype int_exp =
  IConst u64 | ICol nat | IAdd int_exp int_exp | ISub int_exp int_exp | IMul int_exp int_exp | INeg int_exp |
  IMod int_exp u64

datatype float_exp =
  FConst u64 | FCol nat | FAdd float_exp float_exp | FSub float_exp float_exp | FMul float_exp float_exp |
  FDiv float_exp float_exp | FNeg float_exp

datatype cond =
  CInt VectorizedCompareOp int_exp int_exp | CFloat VectorizedCompareOp float_exp float_exp |
  CBetween float_exp float_exp float_exp | CCol nat | CAnd cond cond | COr cond cond | CNot cond |
  CIsNull nat VectorizedDataType | CIsNotNull nat VectorizedDataType

primrec int_node :: "int_exp \<Rightarrow> JitExprNode" where
  "int_node (IConst v) = jit_expr_const_int64 v"
| "int_node (ICol c) = jit_expr_column (int c) VECTORIZED_TYPE_INT64"
| "int_node (IAdd x y) = jit_expr_add (int_node x) (int_node y)"
| "int_node (ISub x y) = jit_expr_sub (int_node x) (int_node y)"
| "int_node (IMul x y) = jit_expr_mul (int_node x) (int_node y)"
| "int_node (INeg x) = jit_expr_neg (int_node x)"
| "int_node (IMod x m) = jit_expr_mod (int_node x) (jit_expr_const_int64 m)"

primrec float_node :: "float_exp \<Rightarrow> JitExprNode" where
  "float_node (FConst v) = jit_expr_const_float64 v"
| "float_node (FCol c) = jit_expr_column (int c) VECTORIZED_TYPE_FLOAT64"
| "float_node (FAdd x y) = jit_expr_add (float_node x) (float_node y)"
| "float_node (FSub x y) = jit_expr_sub (float_node x) (float_node y)"
| "float_node (FMul x y) = jit_expr_mul (float_node x) (float_node y)"
| "float_node (FDiv x y) = jit_expr_div (float_node x) (float_node y)"
| "float_node (FNeg x) = jit_expr_neg (float_node x)"

definition compare_node :: "VectorizedCompareOp \<Rightarrow> JitExprNode \<Rightarrow> JitExprNode \<Rightarrow> JitExprNode" where
  "compare_node op l r =
     (case op of
        VECTORIZED_CMP_EQ \<Rightarrow> jit_expr_eq l r
      | VECTORIZED_CMP_NE \<Rightarrow> jit_expr_ne l r
      | VECTORIZED_CMP_LT \<Rightarrow> jit_expr_lt l r
      | VECTORIZED_CMP_LE \<Rightarrow> jit_expr_le l r
      | VECTORIZED_CMP_GT \<Rightarrow> jit_expr_gt l r
      | _ \<Rightarrow> jit_expr_ge l r)"

primrec cond_node :: "cond \<Rightarrow> JitExprNode" where
  "cond_node (CInt op x y) = compare_node op (int_node x) (int_node y)"
| "cond_node (CFloat op x y) = compare_node op (float_node x) (float_node y)"
| "cond_node (CBetween v x y) = jit_expr_between (float_node v) (float_node x) (float_node y)"
| "cond_node (CCol c) = jit_expr_column (int c) VECTORIZED_TYPE_BOOL"
| "cond_node (CAnd p q) = jit_expr_and (cond_node p) (cond_node q)"
| "cond_node (COr p q) = jit_expr_or (cond_node p) (cond_node q)"
| "cond_node (CNot p) = jit_expr_not (cond_node p)"
| "cond_node (CIsNull c t) = jit_expr_is_null (jit_expr_column (int c) t)"
| "cond_node (CIsNotNull c t) = jit_expr_is_not_null (jit_expr_column (int c) t)"

definition the_column :: "VectorBatch \<Rightarrow> nat \<Rightarrow> VectorColumn" where
  "the_column b c = the (vb_columns b ! c)"

definition tv_cell :: "VectorBatch \<Rightarrow> nat \<Rightarrow> nat \<Rightarrow> u64 option" where
  "tv_cell b c i = (if col_null (the_column b c) i then None else Some (the (data64 (the_column b c)) ! i))"

definition null2 :: "('a \<Rightarrow> 'b \<Rightarrow> 'c) \<Rightarrow> 'a option \<Rightarrow> 'b option \<Rightarrow> 'c option" where
  "null2 f x y = (case (x, y) of (Some a, Some b) \<Rightarrow> Some (f a b) | _ \<Rightarrow> None)"

primrec tv_int :: "VectorBatch \<Rightarrow> int_exp \<Rightarrow> nat \<Rightarrow> u64 option" where
  "tv_int b (IConst v) i = Some v"
| "tv_int b (ICol c) i = tv_cell b c i"
| "tv_int b (IAdd x y) i = null2 (+) (tv_int b x i) (tv_int b y i)"
| "tv_int b (ISub x y) i = null2 (-) (tv_int b x i) (tv_int b y i)"
| "tv_int b (IMul x y) i = null2 (*) (tv_int b x i) (tv_int b y i)"
| "tv_int b (INeg x) i = map_option uminus (tv_int b x i)"
| "tv_int b (IMod x m) i =
     (if m = 0 then None else map_option (\<lambda>v. word_of_int (c_mod (sint v) (sint m))) (tv_int b x i))"

primrec tv_float :: "jit_math \<Rightarrow> VectorBatch \<Rightarrow> float_exp \<Rightarrow> nat \<Rightarrow> u64 option" where
  "tv_float fm b (FConst v) i = Some v"
| "tv_float fm b (FCol c) i = tv_cell b c i"
| "tv_float fm b (FAdd x y) i = null2 (dadd (jm_double fm)) (tv_float fm b x i) (tv_float fm b y i)"
| "tv_float fm b (FSub x y) i = null2 (dsub (jm_double fm)) (tv_float fm b x i) (tv_float fm b y i)"
| "tv_float fm b (FMul x y) i = null2 (dmul fm) (tv_float fm b x i) (tv_float fm b y i)"
| "tv_float fm b (FDiv x y) i =
     (case tv_float fm b y i of
        None \<Rightarrow> None
      | Some d \<Rightarrow> if f_eq d 0 then None else map_option (\<lambda>n. ddiv (jm_double fm) n d) (tv_float fm b x i))"
| "tv_float fm b (FNeg x) i = map_option (dneg fm) (tv_float fm b x i)"

text \<open>Kleene's connectives.\<close>

definition k_and :: "bool option \<Rightarrow> bool option \<Rightarrow> bool option" where
  "k_and x y = (if x = Some False \<or> y = Some False then Some False else null2 (\<and>) x y)"

definition k_or :: "bool option \<Rightarrow> bool option \<Rightarrow> bool option" where
  "k_or x y = (if x = Some True \<or> y = Some True then Some True else null2 (\<or>) x y)"

primrec tv_cond :: "jit_math \<Rightarrow> VectorBatch \<Rightarrow> cond \<Rightarrow> nat \<Rightarrow> bool option" where
  "tv_cond fm b (CInt op x y) i = null2 (signed_cmp op) (tv_int b x i) (tv_int b y i)"
| "tv_cond fm b (CFloat op x y) i = null2 (float_cmp op) (tv_float fm b x i) (tv_float fm b y i)"
| "tv_cond fm b (CBetween v x y) i =
     k_and (null2 f_le (tv_float fm b x i) (tv_float fm b v i)) (null2 f_le (tv_float fm b v i) (tv_float fm b y i))"
| "tv_cond fm b (CCol c) i =
     (if col_null (the_column b c) i then None else Some (the (data8 (the_column b c)) ! i \<noteq> 0))"
| "tv_cond fm b (CAnd p q) i = k_and (tv_cond fm b p i) (tv_cond fm b q i)"
| "tv_cond fm b (COr p q) i = k_or (tv_cond fm b p i) (tv_cond fm b q i)"
| "tv_cond fm b (CNot p) i = map_option Not (tv_cond fm b p i)"
| "tv_cond fm b (CIsNull c t) i = Some (col_null (the_column b c) i)"
| "tv_cond fm b (CIsNotNull c t) i = Some (\<not> col_null (the_column b c) i)"

text \<open>The columns have the type at which they are used; a modulus is a constant other than -1.\<close>

definition col_ok :: "VectorizedDataType set \<Rightarrow> VectorBatch \<Rightarrow> nat \<Rightarrow> bool" where
  "col_ok ts b c = (c < length (vb_columns b) \<and> vb_columns b ! c \<noteq> None \<and> vc_data_type (the_column b c) \<in> ts)"

primrec int_ok :: "VectorBatch \<Rightarrow> int_exp \<Rightarrow> bool" where
  "int_ok b (IConst v) = True"
| "int_ok b (ICol c) = col_ok {VECTORIZED_TYPE_INT64, VECTORIZED_TYPE_TIMESTAMP} b c"
| "int_ok b (IAdd x y) = (int_ok b x \<and> int_ok b y)"
| "int_ok b (ISub x y) = (int_ok b x \<and> int_ok b y)"
| "int_ok b (IMul x y) = (int_ok b x \<and> int_ok b y)"
| "int_ok b (INeg x) = int_ok b x"
| "int_ok b (IMod x m) = (int_ok b x \<and> m \<noteq> - 1)"

primrec float_ready :: "VectorBatch \<Rightarrow> float_exp \<Rightarrow> bool" where
  "float_ready b (FConst v) = True"
| "float_ready b (FCol c) = col_ok {VECTORIZED_TYPE_FLOAT64} b c"
| "float_ready b (FAdd x y) = (float_ready b x \<and> float_ready b y)"
| "float_ready b (FSub x y) = (float_ready b x \<and> float_ready b y)"
| "float_ready b (FMul x y) = (float_ready b x \<and> float_ready b y)"
| "float_ready b (FDiv x y) = (float_ready b x \<and> float_ready b y)"
| "float_ready b (FNeg x) = float_ready b x"

primrec cond_ok :: "VectorBatch \<Rightarrow> cond \<Rightarrow> bool" where
  "cond_ok b (CInt op x y) = (compares_values op \<and> int_ok b x \<and> int_ok b y)"
| "cond_ok b (CFloat op x y) = (compares_values op \<and> float_ready b x \<and> float_ready b y)"
| "cond_ok b (CBetween v x y) = (float_ready b v \<and> float_ready b x \<and> float_ready b y)"
| "cond_ok b (CCol c) = col_ok {VECTORIZED_TYPE_BOOL} b c"
| "cond_ok b (CAnd p q) = (cond_ok b p \<and> cond_ok b q)"
| "cond_ok b (COr p q) = (cond_ok b p \<and> cond_ok b q)"
| "cond_ok b (CNot p) = cond_ok b p"
| "cond_ok b (CIsNull c t) = col_ok UNIV b c"
| "cond_ok b (CIsNotNull c t) = col_ok UNIV b c"

text \<open>No left operand of a connective and no operand of BETWEEN is NULL on row \<open>i\<close>.\<close>

primrec left_known :: "jit_math \<Rightarrow> VectorBatch \<Rightarrow> cond \<Rightarrow> nat \<Rightarrow> bool" where
  "left_known fm b (CInt op x y) i = True"
| "left_known fm b (CFloat op x y) i = True"
| "left_known fm b (CBetween v x y) i =
     (tv_float fm b v i \<noteq> None \<and> tv_float fm b x i \<noteq> None \<and> tv_float fm b y i \<noteq> None)"
| "left_known fm b (CCol c) i = True"
| "left_known fm b (CAnd p q) i = (tv_cond fm b p i \<noteq> None \<and> left_known fm b p i \<and> left_known fm b q i)"
| "left_known fm b (COr p q) i = (tv_cond fm b p i \<noteq> None \<and> left_known fm b p i \<and> left_known fm b q i)"
| "left_known fm b (CNot p) i = left_known fm b p i"
| "left_known fm b (CIsNull c t) i = True"
| "left_known fm b (CIsNotNull c t) i = True"

section \<open>The evaluators compute the reference values\<close>

definition known :: "('a \<times> bool) option \<Rightarrow> 'a option option" where
  "known r = map_option (\<lambda>(v, isnull). if isnull then None else Some v) r"

lemmas builder_defs = const_node_def jit_expr_const_int64_def jit_expr_const_float64_def jit_expr_const_bool_def
  jit_expr_column_def jit_expr_binary_def jit_expr_unary_def jit_expr_alloc_def jit_expr_add_def jit_expr_sub_def
  jit_expr_mul_def jit_expr_div_def jit_expr_mod_def jit_expr_neg_def jit_expr_eq_def jit_expr_ne_def jit_expr_lt_def
  jit_expr_le_def jit_expr_gt_def jit_expr_ge_def jit_expr_and_def jit_expr_or_def jit_expr_not_def
  jit_expr_is_null_def jit_expr_is_not_null_def jit_expr_between_def

lemma known_pair [simp]: "known (Some (v, isnull)) = Some (if isnull then None else Some v)"
  by (simp add: known_def)

lemma known_SomeE:
  assumes "known r = Some x"
  obtains v where "r = Some (v, False)" "x = Some v" | v where "r = Some (v, True)" "x = None"
  using assms by (auto simp: known_def split: if_splits)

lemma known_lift1: "known r = Some x \<Longrightarrow> known (lift1 f r) = Some (map_option f x)"
  by (elim known_SomeE) (simp_all add: lift1_def)

lemma known_lift2: "known ra = Some x \<Longrightarrow> known rb = Some y \<Longrightarrow> known (lift2 f ra rb) = Some (null2 f x y)"
  by (elim known_SomeE) (simp_all add: lift2_def null2_def)

lemma known_compare2: "known ra = Some x \<Longrightarrow> known rb = Some y \<Longrightarrow> known (compare2 f ra rb) = Some (null2 f x y)"
  by (elim known_SomeE) (simp_all add: compare2_def null2_def)

lemma known_int_div:
  "known ra = Some x \<Longrightarrow> m \<noteq> - 1 \<Longrightarrow>
   known (int_div f ra (Some (m, False))) = Some (if m = 0 then None else map_option (\<lambda>v. word_of_int (f (sint v) (sint m))) x)"
  by (elim known_SomeE) (simp_all add: int_div_def)

lemma known_float_div:
  "known ra = Some x \<Longrightarrow> known rb = Some y \<Longrightarrow>
   known (float_div fm ra rb) =
     Some (case y of None \<Rightarrow> None | Some d \<Rightarrow> if f_eq d 0 then None else map_option (\<lambda>n. ddiv (jm_double fm) n d) x)"
  by (elim known_SomeE) (simp_all add: float_div_def)

text \<open>Reading a buffer at the width of its type.\<close>

lemma concat_blocks:
  assumes "\<forall>x \<in> set xs. length (f x) = k"
  shows "length (concat (map f xs)) = length xs * k"
    and "i < length xs \<Longrightarrow> take k (drop (i * k) (concat (map f xs))) = f (xs ! i)"
proof -
  show "length (concat (map f xs)) = length xs * k" using assms by (induction xs) auto
  show "i < length xs \<Longrightarrow> take k (drop (i * k) (concat (map f xs))) = f (xs ! i)"
    using assms
  proof (induction xs arbitrary: i)
    case (Cons x xs)
    then show ?case by (cases i) auto
  qed simp
qed

lemma read_at_data64: "i < length xs \<Longrightarrow> read_at 8 (Data64 xs) i = Some (unat (xs ! i))"
proof -
  assume i: "i < length xs"
  have "length (column_bytes (Data64 xs)) = length xs * 8"
    "take 8 (drop (i * 8) (column_bytes (Data64 xs))) = le_bytes 8 (unat (xs ! i))"
    unfolding column_bytes_def column_data.case using i concat_blocks [of xs "\<lambda>x. le_bytes 8 (unat x)" 8] by simp_all
  moreover have "unat (xs ! i) < 18446744073709551616" using unsigned_less [of "xs ! i", where 'a = nat] by simp
  moreover have "(i + 1) * 8 \<le> length xs * 8" using i by simp
  ultimately show ?thesis by (simp add: read_at_def Let_def le_nat_u64)
qed

lemma read_at_data8: "i < length xs \<Longrightarrow> read_at 1 (Data8 xs) i = Some (unat (xs ! i))"
  by (simp add: read_at_def column_bytes_def take_Suc_conv_app_nth drop_Suc_Cons hd_drop_conv_nth take_Suc)

lemma read_byte_defined:
  assumes "column_wf cap c" "i < cap"
  shows "\<exists>n. read_at 1 (vc_data c) i = Some n"
proof -
  have "cap \<le> length (column_bytes (vc_data c))"
    using assms(1)
    by (auto simp: column_wf_def data_fits_def column_bytes_def concat_blocks(1) [where k = 8] concat_blocks(1) [where k = 4]
        split: column_data.splits)
  then show ?thesis using assms(2) by (simp add: read_at_def Let_def)
qed

lemma col_okE:
  assumes "batch_wf b" "col_ok ts b c"
  shows "array_get (vb_columns b) c = Some (Some (the_column b c))" "column_wf (vb_capacity b) (the_column b c)"
    "vc_data_type (the_column b c) \<in> ts"
  using assms
  by (auto simp: col_ok_def the_column_def batch_wf_def columns_wf_def list_all_length array_get_def split: option.splits)

lemma column_cell_eq:
  assumes "batch_wf b" "col_ok ts b c" "i < vb_capacity b"
  shows "column_cell k b (jit_expr_column (int c) t) i =
     (if col_null (the_column b c) i then Some None else map_option Some (read_at k (vc_data (the_column b c)) i))"
  using col_okE(2) [OF assms(1,2)] assms(3)
  by (simp add: column_cell_def builder_defs Let_def row_null_eq col_okE(1) [OF assms(1,2)] del: array_get_Some)

lemma column_cell64:
  assumes "batch_wf b" "col_ok ts b c" "i < vb_capacity b"
    and "ts \<subseteq> {VECTORIZED_TYPE_INT64, VECTORIZED_TYPE_TIMESTAMP, VECTORIZED_TYPE_FLOAT64}"
  shows "known (cell_word (column_cell 8 b (jit_expr_column (int c) t) i)) = Some (tv_cell b c i)"
proof -
  have wf: "column_wf (vb_capacity b) (the_column b c)" using col_okE [OF assms(1,2)] by blast
  have "vc_data_type (the_column b c) \<in> {VECTORIZED_TYPE_INT64, VECTORIZED_TYPE_TIMESTAMP, VECTORIZED_TYPE_FLOAT64}"
    using col_okE(3) [OF assms(1,2)] assms(4) by blast
  then obtain xs where "vc_data (the_column b c) = Data64 xs" "length xs = vb_capacity b"
    using wf by (auto simp: column_wf_def data_fits_def split: column_data.splits)
  then show ?thesis
    using assms(3) by (simp add: column_cell_eq [OF assms(1-3)] tv_cell_def cell_word_def read_at_data64)
qed

lemma int_node_type: "je_result_type (int_node e) = VECTORIZED_TYPE_INT64"
  by (induction e) (simp_all add: builder_defs jit_arith_result_type_def)

lemma float_node_type: "je_result_type (float_node e) = VECTORIZED_TYPE_FLOAT64"
  by (induction e) (simp_all add: builder_defs jit_arith_result_type_def)

lemma eval_column64:
  "jit_eval_int64 fm b (jit_expr_column c t) i = cell_word (column_cell 8 b (jit_expr_column c t) i)"
  "jit_eval_float64 fm b (jit_expr_column c t) i = cell_word (column_cell 8 b (jit_expr_column c t) i)"
  "jit_eval_bool fm b (jit_expr_column c t) i = cell_bool (column_cell 1 b (jit_expr_column c t) i)"
  by (subst jit_eval_int64.simps jit_eval_float64.simps jit_eval_bool.simps; simp add: builder_defs)+

lemma eval_int_ops:
  "jit_eval_int64 fm b (jit_expr_const_int64 v) i = Some (v, False)"
  "jit_eval_int64 fm b (jit_expr_add x y) i = lift2 (+) (jit_eval_int64 fm b x i) (jit_eval_int64 fm b y i)"
  "jit_eval_int64 fm b (jit_expr_sub x y) i = lift2 (-) (jit_eval_int64 fm b x i) (jit_eval_int64 fm b y i)"
  "jit_eval_int64 fm b (jit_expr_mul x y) i = lift2 (*) (jit_eval_int64 fm b x i) (jit_eval_int64 fm b y i)"
  "jit_eval_int64 fm b (jit_expr_neg x) i = lift1 uminus (jit_eval_int64 fm b x i)"
  "jit_eval_int64 fm b (jit_expr_mod x y) i = int_div c_mod (jit_eval_int64 fm b x i) (jit_eval_int64 fm b y i)"
  by (subst jit_eval_int64.simps; simp add: builder_defs jit_convert_to_int64_def)+

lemma eval_float_ops:
  "jit_eval_float64 fm b (jit_expr_const_float64 v) i = Some (v, False)"
  "jit_eval_float64 fm b (jit_expr_add x y) i = lift2 (dadd (jm_double fm)) (jit_eval_float64 fm b x i) (jit_eval_float64 fm b y i)"
  "jit_eval_float64 fm b (jit_expr_sub x y) i = lift2 (dsub (jm_double fm)) (jit_eval_float64 fm b x i) (jit_eval_float64 fm b y i)"
  "jit_eval_float64 fm b (jit_expr_mul x y) i = lift2 (dmul fm) (jit_eval_float64 fm b x i) (jit_eval_float64 fm b y i)"
  "jit_eval_float64 fm b (jit_expr_div x y) i = float_div fm (jit_eval_float64 fm b x i) (jit_eval_float64 fm b y i)"
  "jit_eval_float64 fm b (jit_expr_neg x) i = lift1 (dneg fm) (jit_eval_float64 fm b x i)"
  by (subst jit_eval_float64.simps; simp add: builder_defs jit_convert_to_float64_def)+

lemma eval_int_tv:
  assumes "batch_wf b" "i < vb_capacity b" "int_ok b e"
  shows "known (jit_eval_int64 fm b (int_node e) i) = Some (tv_int b e i)"
  using assms(3)
proof (induction e)
  case (ICol c)
  then show ?case using assms by (simp add: eval_column64 column_cell64)
qed (auto simp: eval_int_ops known_lift1 known_lift2 known_int_div)

lemma eval_float_tv:
  assumes "batch_wf b" "i < vb_capacity b" "float_ready b e"
  shows "known (jit_eval_float64 fm b (float_node e) i) = Some (tv_float fm b e i)"
  using assms(3)
proof (induction e)
  case (FCol c)
  then show ?case using assms by (simp add: eval_column64 column_cell64)
qed (auto simp: eval_float_ops known_lift1 known_lift2 known_float_div split: option.splits)

text \<open>A verdict of the evaluator approximates that of the reference: it is NULL or the same.\<close>

definition approximates :: "'a option \<Rightarrow> 'a option \<Rightarrow> bool" where
  "approximates r v = (r = None \<or> r = v)"

lemma eval_compare:
  assumes "compares_values op"
  shows "jit_eval_bool fm b (compare_node op l r) i =
     (if je_result_type r = VECTORIZED_TYPE_FLOAT64 \<or> je_result_type l = VECTORIZED_TYPE_FLOAT64
      then compare2 (float_cmp op) (jit_eval_float64 fm b l i) (jit_eval_float64 fm b r i)
      else compare2 (signed_cmp op) (jit_eval_int64 fm b l i) (jit_eval_int64 fm b r i))"
  using assms by (cases op) (subst jit_eval_bool.simps; simp add: compare_node_def builder_defs compares_values_def)+

text \<open>The connectives as the evaluator computes them: a NULL on the left decides.\<close>

definition strict_and :: "bool option \<Rightarrow> bool option \<Rightarrow> bool option" where
  "strict_and x y = (case x of None \<Rightarrow> None | Some False \<Rightarrow> Some False | Some True \<Rightarrow> y)"

definition strict_or :: "bool option \<Rightarrow> bool option \<Rightarrow> bool option" where
  "strict_or x y = (case x of None \<Rightarrow> None | Some True \<Rightarrow> Some True | Some False \<Rightarrow> y)"

lemma eval_and_node:
  assumes "known (jit_eval_bool fm b l i) = Some x" "known (jit_eval_bool fm b r i) = Some y" "jn_type n = JIT_EXPR_BOOL_AND"
  shows "known (jit_eval_bool fm b (JitExprNode n (Some l) (Some r) cs) i) = Some (strict_and x y)"
  using assms by (subst jit_eval_bool.simps) (elim known_SomeE; simp add: strict_and_def split: bool.splits)

lemma eval_or_node:
  assumes "known (jit_eval_bool fm b l i) = Some x" "known (jit_eval_bool fm b r i) = Some y" "jn_type n = JIT_EXPR_BOOL_OR"
  shows "known (jit_eval_bool fm b (JitExprNode n (Some l) (Some r) cs) i) = Some (strict_or x y)"
  using assms by (subst jit_eval_bool.simps) (elim known_SomeE; simp add: strict_or_def split: bool.splits)

lemma eval_not_node:
  "known (jit_eval_bool fm b l i) = Some x \<Longrightarrow> jn_type n = JIT_EXPR_BOOL_NOT \<Longrightarrow>
   known (jit_eval_bool fm b (JitExprNode n (Some l) r cs) i) = Some (map_option Not x)"
  by (subst jit_eval_bool.simps) (simp add: known_lift1)

lemma eval_and:
  assumes "known (jit_eval_bool fm b l i) = Some x" "known (jit_eval_bool fm b r i) = Some y"
  shows "known (jit_eval_bool fm b (jit_expr_and l r) i) = Some (strict_and x y)"
  unfolding jit_expr_and_def jit_expr_binary_def using assms by (rule eval_and_node) (simp add: jit_expr_alloc_def)

lemma eval_or:
  assumes "known (jit_eval_bool fm b l i) = Some x" "known (jit_eval_bool fm b r i) = Some y"
  shows "known (jit_eval_bool fm b (jit_expr_or l r) i) = Some (strict_or x y)"
  unfolding jit_expr_or_def jit_expr_binary_def using assms by (rule eval_or_node) (simp add: jit_expr_alloc_def)

lemma eval_not:
  "known (jit_eval_bool fm b l i) = Some x \<Longrightarrow> known (jit_eval_bool fm b (jit_expr_not l) i) = Some (map_option Not x)"
  unfolding jit_expr_not_def jit_expr_unary_def by (rule eval_not_node) (simp_all add: jit_expr_alloc_def)

lemma eval_null_tests:
  assumes "known (jit_eval_bool fm b l i) = Some x"
  shows "known (jit_eval_bool fm b (jit_expr_is_null l) i) = Some (Some (x = None))"
    "known (jit_eval_bool fm b (jit_expr_is_not_null l) i) = Some (Some (x \<noteq> None))"
  using assms by (subst jit_eval_bool.simps; elim known_SomeE; simp add: builder_defs)+

lemma eval_between:
  assumes "known (jit_eval_float64 fm b v i) = Some x" "known (jit_eval_float64 fm b low i) = Some y"
    "known (jit_eval_float64 fm b high i) = Some z"
  shows "known (jit_eval_bool fm b (jit_expr_between v low high) i) = Some (null2 (\<and>) (null2 f_le y x) (null2 f_le x z))"
  using assms by (subst jit_eval_bool.simps) (elim known_SomeE; simp add: builder_defs null2_def)

lemma eval_bool_column:
  assumes "batch_wf b" "i < vb_capacity b" "col_ok ts b c"
  shows "\<exists>v. known (jit_eval_bool fm b (jit_expr_column (int c) t) i) =
               Some (if col_null (the_column b c) i then None else Some v) \<and>
             (ts = {VECTORIZED_TYPE_BOOL} \<longrightarrow> v = (the (data8 (the_column b c)) ! i \<noteq> 0))"
proof -
  note wf = col_okE [OF assms(1,3)]
  obtain n where n: "read_at 1 (vc_data (the_column b c)) i = Some n"
    using read_byte_defined [OF wf(2) assms(2)] by blast
  have "n = unat (the (data8 (the_column b c)) ! i)" if "ts = {VECTORIZED_TYPE_BOOL}"
    using wf(2,3) that n assms(2) read_at_data8 [of i]
    by (auto simp: column_wf_def data_fits_def split: column_data.splits)
  then have "ts = {VECTORIZED_TYPE_BOOL} \<longrightarrow> (n \<noteq> 0) = (the (data8 (the_column b c)) ! i \<noteq> 0)"
    by (auto simp: unat_eq_zero)
  then show ?thesis
    by (intro exI [of _ "n \<noteq> 0"])
       (simp add: eval_column64 column_cell_eq [OF assms(1,3,2)] cell_bool_def n [unfolded One_nat_def])
qed

lemma approximates_connectives:
  "approximates r x \<Longrightarrow> approximates r' x' \<Longrightarrow> approximates (strict_and r r') (k_and x x')"
  "approximates r x \<Longrightarrow> approximates r' x' \<Longrightarrow> approximates (strict_or r r') (k_or x x')"
  "approximates r x \<Longrightarrow> approximates (map_option Not r) (map_option Not x)"
  "approximates (null2 (\<and>) p q) (k_and p q)"
  by (auto simp: approximates_def strict_and_def strict_or_def k_and_def k_or_def null2_def split: option.splits bool.splits)

lemma strict_connectives:
  "x \<noteq> None \<Longrightarrow> strict_and x y = k_and x y" "x \<noteq> None \<Longrightarrow> strict_or x y = k_or x y"
  "x \<noteq> None \<Longrightarrow> y \<noteq> None \<Longrightarrow> null2 (\<and>) x y = k_and x y"
  by (auto simp: strict_and_def strict_or_def k_and_def k_or_def null2_def split: option.splits bool.splits)

lemma null2_None: "null2 f x y = None \<longleftrightarrow> x = None \<or> y = None"
  by (auto simp: null2_def split: option.splits)

lemma eval_cond_tv:
  assumes "batch_wf b" "i < vb_capacity b" "cond_ok b c"
  shows "\<exists>r. known (jit_eval_bool fm b (cond_node c) i) = Some r \<and> approximates r (tv_cond fm b c i) \<and>
             (left_known fm b c i \<longrightarrow> r = tv_cond fm b c i)"
  using assms(3)
proof (induction c)
  case (CInt op x y)
  then show ?case
    using eval_int_tv [OF assms(1,2), of x fm] eval_int_tv [OF assms(1,2), of y fm]
    by (simp add: eval_compare int_node_type known_compare2 approximates_def)
next
  case (CFloat op x y)
  then show ?case
    using eval_float_tv [OF assms(1,2), of x fm] eval_float_tv [OF assms(1,2), of y fm]
    by (simp add: eval_compare float_node_type known_compare2 approximates_def)
next
  case (CBetween v x y)
  then have "known (jit_eval_bool fm b (cond_node (CBetween v x y)) i) =
      Some (null2 (\<and>) (null2 f_le (tv_float fm b x i) (tv_float fm b v i)) (null2 f_le (tv_float fm b v i) (tv_float fm b y i)))"
    using eval_float_tv [OF assms(1,2)] by (simp add: eval_between)
  then show ?case by (simp add: approximates_connectives strict_connectives null2_None del: not_None_eq)
next
  case (CCol c)
  then show ?case
    using eval_bool_column [OF assms(1,2), of "{VECTORIZED_TYPE_BOOL}" c fm VECTORIZED_TYPE_BOOL]
    by (auto simp: approximates_def simp del: data8.simps)
next
  case (CAnd p q)
  then obtain r r' where "known (jit_eval_bool fm b (cond_node p) i) = Some r" "approximates r (tv_cond fm b p i)"
    "known (jit_eval_bool fm b (cond_node q) i) = Some r'" "approximates r' (tv_cond fm b q i)"
    "left_known fm b p i \<longrightarrow> r = tv_cond fm b p i" "left_known fm b q i \<longrightarrow> r' = tv_cond fm b q i" by auto
  then show ?case by (auto simp: eval_and approximates_connectives strict_connectives simp del: not_None_eq)
next
  case (COr p q)
  then obtain r r' where "known (jit_eval_bool fm b (cond_node p) i) = Some r" "approximates r (tv_cond fm b p i)"
    "known (jit_eval_bool fm b (cond_node q) i) = Some r'" "approximates r' (tv_cond fm b q i)"
    "left_known fm b p i \<longrightarrow> r = tv_cond fm b p i" "left_known fm b q i \<longrightarrow> r' = tv_cond fm b q i" by auto
  then show ?case by (auto simp: eval_or approximates_connectives strict_connectives simp del: not_None_eq)
next
  case (CNot p)
  then show ?case by (auto simp: eval_not approximates_connectives)
next
  case (CIsNull c t)
  then obtain v where "known (jit_eval_bool fm b (jit_expr_column (int c) t) i) =
      Some (if col_null (the_column b c) i then None else Some v)"
    using eval_bool_column [OF assms(1,2), of UNIV c fm t] by auto
  then show ?case by (simp add: eval_null_tests approximates_def)
next
  case (CIsNotNull c t)
  then obtain v where "known (jit_eval_bool fm b (jit_expr_column (int c) t) i) =
      Some (if col_null (the_column b c) i then None else Some v)"
    using eval_bool_column [OF assms(1,2), of UNIV c fm t] by auto
  then show ?case by (simp add: eval_null_tests approximates_def)
qed

definition jit_verdict :: "jit_math \<Rightarrow> VectorBatch \<Rightarrow> JitExprNode \<Rightarrow> nat \<Rightarrow> bool" where
  "jit_verdict fm b e i = (jit_eval_bool fm b e i = Some (True, False))"

lemma batch_filter_eq:
  assumes "batch_wf b" "cond_ok b c" "length m = vb_capacity b"
  shows "jit_batch_filter_internal fm b (cond_node c) m =
     Some (map (jit_verdict fm b (cond_node c)) [0..<vb_count b] @ drop (vb_count b) m)"
  unfolding jit_batch_filter_internal_def
proof (rule fold_opt_stores)
  show "vb_count b \<le> length m" using assms by (simp add: batch_wf_def)
  fix i and ys :: "bool list" assume i: "i < vb_count b" and ys: "length ys = length m"
  have cap: "i < vb_capacity b" using i assms(1) by (simp add: batch_wf_def)
  then obtain r where "known (jit_eval_bool fm b (cond_node c) i) = Some r"
    using eval_cond_tv [OF assms(1) _ assms(2)] by blast
  then show "(do { (v, isnull) \<leftarrow> jit_eval_bool fm b (cond_node c) i; msk \<leftarrow> array_store ys i v;
      if isnull then array_store msk i False else Some msk }) = Some (ys[i := jit_verdict fm b (cond_node c) i])"
    using cap ys assms(3) by (elim known_SomeE) (auto simp: jit_verdict_def array_store_def)
qed

section \<open>Constant folding keeps verdicts\<close>






lemmas fold_defs = optimize_node_def fold_constants_def simplify_bool_def jit_expr_is_const_def Let_def
  jit_convert_to_int64_def jit_convert_to_float64_def fold_int64_def fold_float64_def






lemma optimize_leaf:
  "jit_optimize_expr fm (jit_expr_const_int64 v) = Some (Some (jit_expr_const_int64 v))"
  "jit_optimize_expr fm (jit_expr_const_float64 v) = Some (Some (jit_expr_const_float64 v))"
  "jit_optimize_expr fm (jit_expr_column c t) = Some (Some (jit_expr_column c t))"
  by (subst jit_optimize_expr.simps; simp add: builder_defs fold_defs)+






text \<open>A folded condition: a constant is not NULL, and the verdict refines the original one.\<close>

definition bool_folded :: "JitExprNode \<Rightarrow> bool" where
  "bool_folded e \<longleftrightarrow> (je_type e = JIT_EXPR_CONST \<longrightarrow> (\<exists>v. e = jit_expr_const_bool v))"

lemma eval_const_bool [simp]: "jit_eval_bool fm b (jit_expr_const_bool v) i = Some (v, False)"
  by (subst jit_eval_bool.simps) (simp add: builder_defs jit_convert_to_bool_def datum_bool_def)

lemma const_bool_node [simp]:
  "je_type (jit_expr_const_bool v) = JIT_EXPR_CONST" "const_bool (jit_expr_const_bool v) = v"
  by (simp_all add: builder_defs jit_convert_to_bool_def datum_bool_def)



lemma connective_simps [simp]:
  "strict_and None y = None" "strict_and (Some False) y = Some False" "strict_and (Some True) y = y"
  "strict_or None y = None" "strict_or (Some True) y = Some True" "strict_or (Some False) y = y"
  "k_and (Some False) y = Some False" "k_and x (Some False) = Some False" "k_and (Some True) y = y" "k_and x (Some True) = x"
  "k_or (Some True) y = Some True" "k_or x (Some True) = Some True" "k_or (Some False) y = y" "k_or x (Some False) = x"
  by (simp_all add: strict_and_def strict_or_def)
     (cases x; cases y; force simp: k_and_def k_or_def null2_def)+







text \<open>The verdicts of a tree, where they are defined.\<close>

definition verdict :: "jit_math \<Rightarrow> VectorBatch \<Rightarrow> JitExprNode \<Rightarrow> nat \<Rightarrow> bool option" where
  "verdict fm b e i = the (known (jit_eval_bool fm b e i))"


lemma verdict_const [simp]: "verdict fm b (jit_expr_const_bool c) i = Some c"
  by (simp add: verdict_def)



lemmas node_defs = optimize_node_def fold_constants_def simplify_bool_def jit_expr_is_const_def Let_def bool_folded_def





lemma optimize_binary_cond:
  assumes "jit_optimize_expr fm p = Some (Some p')" "jit_optimize_expr fm q = Some (Some q')"
  shows "jit_optimize_expr fm (jit_expr_binary ty p q t) = optimize_node fm (JitExprNode (je_node (jit_expr_binary ty p q t)) (Some p') (Some q') [])"
  using assms by (subst jit_optimize_expr.simps) (simp add: jit_expr_binary_def)





section \<open>Columns read at another type\<close>

lemma le_nat_append: "le_nat (xs @ ys) = le_nat xs + 256 ^ length xs * le_nat ys"
  by (induction xs) (simp_all add: algebra_simps)

lemma read_pair:
  assumes "2 * i + 1 < length xs"
  shows "read_at 8 (Data32 xs) i = Some (unat (xs ! (2 * i)) + 4294967296 * unat (xs ! (2 * i + 1)))"
proof -
  let ?bs = "column_bytes (Data32 xs)"
  have len: "length ?bs = length xs * 4"
    by (simp add: column_bytes_def concat_blocks(1) [where k = 4])
  have blk: "take 4 (drop (j * 4) ?bs) = le_bytes 4 (unat (xs ! j))" if "j < length xs" for j
    unfolding column_bytes_def column_data.case using that by (intro concat_blocks(2)) simp_all
  have "take 8 (drop (i * 8) ?bs) = take 4 (drop (2 * i * 4) ?bs) @ take 4 (drop ((2 * i + 1) * 4) ?bs)"
    using take_add [of 4 4 "drop (i * 8) ?bs"] by (simp add: algebra_simps)
  also have "\<dots> = le_bytes 4 (unat (xs ! (2 * i))) @ le_bytes 4 (unat (xs ! (2 * i + 1)))"
    using assms by (simp only: blk)
  finally have "le_nat (take 8 (drop (i * 8) ?bs)) = unat (xs ! (2 * i)) + 4294967296 * unat (xs ! (2 * i + 1))"
    using unsigned_less [of "xs ! (2 * i)", where 'a = nat] unsigned_less [of "xs ! (2 * i + 1)", where 'a = nat]
    by (simp add: le_nat_append le_nat_le_bytes_id)
  moreover have "(i + 1) * 8 \<le> length xs * 4" using assms by simp
  ultimately show ?thesis by (simp add: read_at_def Let_def len)
qed

lemma read_past_end: "length xs \<le> 2 * i + 1 \<Longrightarrow> read_at 8 (Data32 xs) i = None"
  by (simp add: read_at_def Let_def column_bytes_def concat_blocks(1) [where k = 4])

lemma f_key_le_uint: "f_key (v :: u64) \<le> uint v"
proof -
  have "f_mag v \<le> uint v"
    by (simp add: f_mag_def uint_and AND_upper1)
  moreover have "0 \<le> f_mag v" "0 \<le> uint v" by (simp_all add: f_mag_def)
  ultimately show ?thesis by (auto simp: f_key_def)
qed

section \<open>Properties\<close>





text \<open>constant folding forgets NULL. \<^verbatim>\<open>NOT NULL\<close> is folded to TRUE and \<^verbatim>\<open>NULL + v\<close> to \<open>v\<close>, while both
  evaluate to NULL.\<close>

theorem folding_forgets_null:
  "jit_optimize_expr fm (jit_expr_not (jit_expr_const_null VECTORIZED_TYPE_BOOL)) = Some (Some (jit_expr_const_bool True)) \<and>
   known (jit_eval_bool fm b (jit_expr_not (jit_expr_const_null VECTORIZED_TYPE_BOOL)) i) = Some None \<and>
   jit_optimize_expr fm (jit_expr_add (jit_expr_const_null VECTORIZED_TYPE_INT64) (jit_expr_const_int64 v)) =
     Some (Some (jit_expr_const_int64 v)) \<and>
   known (jit_eval_int64 fm b (jit_expr_add (jit_expr_const_null VECTORIZED_TYPE_INT64) (jit_expr_const_int64 v)) i) = Some None"
proof -
  have null: "jit_optimize_expr fm (jit_expr_const_null t) = Some (Some (jit_expr_const_null t))" for t
    by (subst jit_optimize_expr.simps) (simp add: jit_expr_const_null_def jit_expr_alloc_def fold_defs)
  have "jit_eval_bool fm b (jit_expr_const_null VECTORIZED_TYPE_BOOL) i = Some (False, True)"
    by (subst jit_eval_bool.simps) (simp add: jit_expr_const_null_def jit_expr_alloc_def jit_convert_to_bool_def datum_bool_def)
  moreover have "jit_eval_int64 fm b (jit_expr_const_null VECTORIZED_TYPE_INT64) i = Some (0, True)"
    by (subst jit_eval_int64.simps) (simp add: jit_expr_const_null_def jit_expr_alloc_def jit_convert_to_int64_def)
  moreover have "jit_optimize_expr fm (jit_expr_not (jit_expr_const_null VECTORIZED_TYPE_BOOL)) = Some (Some (jit_expr_const_bool True))"
    by (subst jit_optimize_expr.simps) (simp add: builder_defs null, simp add: jit_expr_const_null_def jit_expr_alloc_def node_defs
      jit_convert_to_bool_def datum_bool_def jit_expr_const_bool_def const_node_def)
  moreover have "jit_optimize_expr fm (jit_expr_add (jit_expr_const_null VECTORIZED_TYPE_INT64) (jit_expr_const_int64 v)) =
      Some (Some (jit_expr_const_int64 v))"
    unfolding jit_expr_add_def optimize_binary_cond [OF null optimize_leaf(1)]
    by (simp add: jit_expr_const_null_def builder_defs jit_arith_result_type_def fold_defs)
  ultimately show ?thesis
    using eval_not [of fm b "jit_expr_const_null VECTORIZED_TYPE_BOOL" i None] by (simp add: eval_int_ops lift2_def)
qed

text \<open>comparisons read a 32-bit column in pairs. The evaluator of integers reads eight bytes per row: row \<open>i\<close> of an
  \<^verbatim>\<open>int32\<close> column is made of the rows \<open>2 i\<close> and \<open>2 i + 1\<close>, and for the second half of a buffer the read is outside it.\<close>

theorem int32_rows_read_in_pairs:
  assumes "batch_wf b" "col_ok {VECTORIZED_TYPE_INT32, VECTORIZED_TYPE_DATE} b c" "i < vb_capacity b" "\<not> col_null (the_column b c) i"
  shows "jit_eval_int64 fm b (jit_expr_column (int c) t) i =
     (if 2 * i + 1 < vb_capacity b
      then Some (ucast (the (data32 (the_column b c)) ! (2 * i)) + push_bit 32 (ucast (the (data32 (the_column b c)) ! (2 * i + 1))), False)
      else None)"
proof -
  note wf = col_okE [OF assms(1,2)]
  obtain xs where xs: "vc_data (the_column b c) = Data32 xs" "length xs = vb_capacity b"
    using wf(2,3) by (auto simp: column_wf_def data_fits_def split: column_data.splits)
  have "word_of_nat (unat a + 4294967296 * unat d) = (ucast a + push_bit 32 (ucast d) :: u64)" for a d :: u32
    by (simp add: push_bit_eq_mult mult.commute)
  then show ?thesis
    using xs assms(4) read_pair [of i xs] read_past_end [of xs i]
    by (simp add: eval_column64 column_cell_eq [OF assms(1-3)] cell_word_def)
qed

definition sample32_batch :: VectorBatch where
  "sample32_batch =
     \<lparr>vb_capacity = 4, vb_count = 4, vb_column_count = 1,
      vb_columns = [Some \<lparr>vc_data_type = VECTORIZED_TYPE_INT32, vc_type_len = 4, vc_type_byval = True,
        vc_type_oid = 23, vc_data = Data32 [5, 7, 9, 11], vc_nulls = [0], vc_has_nulls = False, vc_offsets = None\<rparr>],
      vb_selection = [0, 0, 0, 0], vb_selected_count = 0, vb_has_selection = False,
      vb_rows_processed = 0, vb_rows_filtered = 0\<rparr>"

theorem int32_rows_read_in_pairs_witness:
  "\<forall>fm t. jit_eval_int64 fm sample32_batch (jit_expr_column (int 0) t) 1 = Some (0xB00000009, False) \<and>
          jit_eval_int64 fm sample32_batch (jit_expr_column (int 0) t) 2 = None"
proof -
  have wf: "batch_wf sample32_batch" "col_ok {VECTORIZED_TYPE_INT32, VECTORIZED_TYPE_DATE} sample32_batch 0"
    by (simp_all add: sample32_batch_def batch_wf_def columns_wf_def column_wf_def data_fits_def active_def col_ok_def the_column_def)
  have "vb_capacity sample32_batch = 4" "\<not> col_null (the_column sample32_batch 0) i"
    "the (data32 (the_column sample32_batch 0)) = [5, 7, 9, 11]" for i
    by (simp_all add: sample32_batch_def the_column_def col_null_def)
  then show ?thesis
    using int32_rows_read_in_pairs [OF wf, of 1] int32_rows_read_in_pairs [OF wf, of 2]
    by (simp add: push_bit_eq_mult del: data32.simps)
qed

text \<open>BETWEEN on an integer column compares bit patterns. With a lower bound of at least 1 no row of a 64-bit integer
  column whose value is below 4607182418800017408 (the bit pattern of 1.0) passes, even if it lies between the bounds:
  the evaluator reads the integers as doubles. The conversion of the bound is only required to be at least 1.0.\<close>

theorem integer_between_rejects_rows:
  assumes "batch_wf b" "col_ok {VECTORIZED_TYPE_INT64} b c" "i < vb_capacity b"
    and "the (data64 (the_column b c)) ! i < DBL_ONE" "f_le DBL_ONE (d_of_int64 (jm_double fm) low)"
  shows "jit_eval_bool fm b (jit_expr_between (jit_expr_column (int c) VECTORIZED_TYPE_INT64) (jit_expr_const_int64 low)
     (jit_expr_const_int64 high)) i = Some (False, col_null (the_column b c) i)"
proof -
  let ?v = "the (data64 (the_column b c)) ! i"
  have cell: "known (jit_eval_float64 fm b (jit_expr_column (int c) VECTORIZED_TYPE_INT64) i) = Some (tv_cell b c i)"
    using assms by (simp add: eval_column64 column_cell64)
  have const: "jit_eval_float64 fm b (jit_expr_const_int64 v) i = Some (d_of_int64 (jm_double fm) v, False)" for v
    by (subst jit_eval_float64.simps) (simp add: builder_defs jit_convert_to_float64_def)
  have "f_key DBL_ONE = 4607182418800017408" by (simp add: f_key_def f_mag_def mask_eq_exp_minus_1)
  moreover have "uint ?v < 4607182418800017408" using assms(4) by (simp add: word_less_def)
  ultimately have "\<not> f_le (d_of_int64 (jm_double fm) low) ?v"
    using assms(5) f_key_le_uint [of ?v] by (auto simp: f_le_def)
  then show ?thesis
    using cell by (elim known_SomeE; subst jit_eval_bool.simps)
      (simp_all add: jit_expr_between_def jit_expr_alloc_def const tv_cell_def split: if_splits)
qed

definition sample_math :: jit_math where
  "sample_math =
     \<lparr>jm_double = \<lparr>dadd = (+), dsub = (-), ddiv = (\<lambda>x y. x), d_of_int64 = (\<lambda>v. if v = 1 then DBL_ONE else 0x4024000000000000),
        d_of_float = ucast\<rparr>, dmul = (*), dneg = uminus, d_to_int64 = id, d_to_int32 = ucast, d_to_float = ucast,
      s_of_int64 = ucast, s_to_int64 = ucast, s_to_int32 = id\<rparr>"

theorem integer_between_rejects_rows_witness:
  "jit_eval_bool sample_math sample_batch (jit_expr_between (jit_expr_column (int 0) VECTORIZED_TYPE_INT64) (jit_expr_const_int64 1)
     (jit_expr_const_int64 10)) 0 = Some (False, False)"
proof -
  have "col_ok {VECTORIZED_TYPE_INT64} sample_batch 0" "0 < vb_capacity sample_batch"
    "the (data64 (the_column sample_batch 0)) ! 0 < DBL_ONE" "\<not> col_null (the_column sample_batch 0) 0"
    by (simp_all add: sample_batch_def col_ok_def the_column_def col_null_def)
  moreover have "f_le DBL_ONE (d_of_int64 (jm_double sample_math) 1)"
    by (simp add: sample_math_def f_le_def f_nan_def f_inf_def f_mag_def mask_eq_exp_minus_1)
  ultimately show ?thesis
    using integer_between_rejects_rows [OF sample_batch_wf, of 0 0 sample_math 1 10] by simp
qed

end
