(* ===== verification/Jit_Compile.thy ===== *)
theory Jit_Compile
  imports Jit_Expr
begin

text \<open>
  The JIT compiler (\<^verbatim>\<open>jit/jit_compile.c\<close>) and its integration into the vectorized executor (the last part of
  \<^verbatim>\<open>executor/vectorized.c\<close>): the context with its cache of compiled expressions, filters and aggregates.

  A function pointer is an element of an enumeration (\<open>jit_filter_fn\<close>, \<open>jit_agg_fn\<close>, \<open>jit_scalar_fn\<close>); NULL is
  \<^const>\<open>None\<close>. The settings \<^verbatim>\<open>orochi_jit_enabled\<close> and \<^verbatim>\<open>orochi_jit_cache_enabled\<close> are parameters. The locale
  \<open>mask_writer\<close> says what running a filter needs of the function that computes the mask.
\<close>

unbundle bit_operations_syntax

section \<open>The context\<close>

datatype JitOptLevel = JIT_OPT_NONE | JIT_OPT_BASIC | JIT_OPT_FULL

record JitOptions =
  jo_opt_level :: JitOptLevel
  jo_use_simd :: bool
  jo_check_nulls :: bool
  jo_enable_cse :: bool
  jo_inline_constants :: bool
  jo_vectorize_loops :: bool
  jo_unroll_factor :: int

definition JIT_OPTIONS_DEFAULT :: JitOptions where
  "JIT_OPTIONS_DEFAULT =
     \<lparr>jo_opt_level = JIT_OPT_BASIC, jo_use_simd = True, jo_check_nulls = True, jo_enable_cse = True,
      jo_inline_constants = True, jo_vectorize_loops = True, jo_unroll_factor = 4\<rparr>"

datatype jit_scalar_fn = Wrapper_int64 | Wrapper_int32 | Wrapper_float64 | Wrapper_float32 | Wrapper_bool

record JitCompiledExpr =
  jce_expr_tree :: JitExprNode
  jce_result_type :: VectorizedDataType
  jce_scalar_fn :: "jit_scalar_fn option"
  jce_batch_filter_fn :: bool
  jce_expr_hash :: u32
  jce_options :: JitOptions

record JitContext =
  jc_options :: JitOptions
  jc_expr_cache :: "JitCompiledExpr list"
  jc_cache_size :: nat
  jc_cpu_has_avx2 :: bool
  jc_expressions_compiled :: nat
  jc_cache_hits :: nat
  jc_cache_misses :: nat
  jc_last_error :: "string option"
  jc_compile_failed :: bool

abbreviation (input) JIT_CACHE_SIZE :: nat where "JIT_CACHE_SIZE \<equiv> 256"
abbreviation (input) JIT_MAX_EXPR_DEPTH :: int where "JIT_MAX_EXPR_DEPTH \<equiv> 64"
abbreviation (input) JIT_MAX_ARGS :: nat where "JIT_MAX_ARGS \<equiv> 16"
abbreviation (input) JIT_MIN_BATCH_SIZE :: nat where "JIT_MIN_BATCH_SIZE \<equiv> 64"
abbreviation (input) VECTORIZED_JIT_MIN_BATCH_SIZE :: nat where "VECTORIZED_JIT_MIN_BATCH_SIZE \<equiv> 64"
abbreviation (input) VECTORIZED_JIT_MIN_EXPR_COST :: int where "VECTORIZED_JIT_MIN_EXPR_COST \<equiv> 5"

text \<open>The cache is its first \<^verbatim>\<open>cache_count\<close> entries.\<close>

definition jit_context_create_with_options :: "bool \<Rightarrow> JitOptions \<Rightarrow> JitContext" where
  "jit_context_create_with_options avx2 options =
     \<lparr>jc_options = options, jc_expr_cache = [], jc_cache_size = JIT_CACHE_SIZE, jc_cpu_has_avx2 = avx2,
      jc_expressions_compiled = 0, jc_cache_hits = 0, jc_cache_misses = 0, jc_last_error = None, jc_compile_failed = False\<rparr>"

definition jit_context_create :: "bool \<Rightarrow> JitContext" where
  "jit_context_create avx2 = jit_context_create_with_options avx2 JIT_OPTIONS_DEFAULT"

definition jit_context_reset :: "JitContext \<Rightarrow> JitContext" where
  "jit_context_reset ctx =
     ctx\<lparr>jc_expr_cache := [], jc_expressions_compiled := 0, jc_cache_hits := 0, jc_cache_misses := 0,
         jc_last_error := None, jc_compile_failed := False\<rparr>"

definition jit_reset_stats :: "JitContext \<Rightarrow> JitContext" where
  "jit_reset_stats ctx = ctx\<lparr>jc_expressions_compiled := 0, jc_cache_hits := 0, jc_cache_misses := 0\<rparr>"

section \<open>Hashing and compiling expressions\<close>

definition expr_type_code :: "JitExprType \<Rightarrow> u32" where
  "expr_type_code t =
     (case t of
        JIT_EXPR_CONST \<Rightarrow> 0 | JIT_EXPR_COLUMN \<Rightarrow> 1 | JIT_EXPR_ARITH_ADD \<Rightarrow> 2 | JIT_EXPR_ARITH_SUB \<Rightarrow> 3
      | JIT_EXPR_ARITH_MUL \<Rightarrow> 4 | JIT_EXPR_ARITH_DIV \<Rightarrow> 5 | JIT_EXPR_ARITH_MOD \<Rightarrow> 6 | JIT_EXPR_ARITH_NEG \<Rightarrow> 7
      | JIT_EXPR_CMP_EQ \<Rightarrow> 8 | JIT_EXPR_CMP_NE \<Rightarrow> 9 | JIT_EXPR_CMP_LT \<Rightarrow> 10 | JIT_EXPR_CMP_LE \<Rightarrow> 11
      | JIT_EXPR_CMP_GT \<Rightarrow> 12 | JIT_EXPR_CMP_GE \<Rightarrow> 13 | JIT_EXPR_BOOL_AND \<Rightarrow> 14 | JIT_EXPR_BOOL_OR \<Rightarrow> 15
      | JIT_EXPR_BOOL_NOT \<Rightarrow> 16 | JIT_EXPR_IS_NULL \<Rightarrow> 17 | JIT_EXPR_IS_NOT_NULL \<Rightarrow> 18 | JIT_EXPR_BETWEEN \<Rightarrow> 19
      | JIT_EXPR_IN \<Rightarrow> 20 | JIT_EXPR_CASE \<Rightarrow> 21 | JIT_EXPR_COALESCE \<Rightarrow> 22 | JIT_EXPR_CAST \<Rightarrow> 23)"

definition data_type_code :: "VectorizedDataType \<Rightarrow> u32" where
  "data_type_code t =
     (case t of
        VECTORIZED_TYPE_INT32 \<Rightarrow> 0 | VECTORIZED_TYPE_INT64 \<Rightarrow> 1 | VECTORIZED_TYPE_FLOAT32 \<Rightarrow> 2 | VECTORIZED_TYPE_FLOAT64 \<Rightarrow> 3
      | VECTORIZED_TYPE_BOOL \<Rightarrow> 4 | VECTORIZED_TYPE_STRING \<Rightarrow> 5 | VECTORIZED_TYPE_TIMESTAMP \<Rightarrow> 6 | VECTORIZED_TYPE_DATE \<Rightarrow> 7
      | VECTORIZED_TYPE_UNKNOWN \<Rightarrow> 8)"

function jit_compute_expr_hash :: "JitExprNode \<Rightarrow> u32" where
  "jit_compute_expr_hash e =
     (let n = je_node e;
          h = expr_type_code (jn_type n) * 31 + data_type_code (jn_result_type n);
          h = (if jn_type n = JIT_EXPR_CONST
               then ((h * 31 + ucast (jn_const_value n)) * 31 + ucast (drop_bit 32 (jn_const_value n))) * 31 +
                      (if jn_const_is_null n then 1 else 0)
               else if jn_type n = JIT_EXPR_COLUMN then h * 31 + word_of_int (jn_column_index n)
               else h);
          h = (case je_left e of None \<Rightarrow> h | Some l \<Rightarrow> h * 31 + jit_compute_expr_hash l)
      in case je_right e of None \<Rightarrow> h | Some r \<Rightarrow> h * 31 + jit_compute_expr_hash r)"
  by pat_completeness auto
termination by (relation "measure size") (auto dest!: left_smaller right_smaller)

declare jit_compute_expr_hash.simps [simp del]

function jit_can_compile_expression :: "JitExprNode \<Rightarrow> bool" where
  "jit_can_compile_expression e =
     (if je_depth e > JIT_MAX_EXPR_DEPTH then False
      else if je_type e \<in> {JIT_EXPR_IN, JIT_EXPR_CASE, JIT_EXPR_COALESCE} then False
      else (case je_left e of None \<Rightarrow> True | Some l \<Rightarrow> jit_can_compile_expression l) \<and>
           (case je_right e of None \<Rightarrow> True | Some r \<Rightarrow> jit_can_compile_expression r))"
  by pat_completeness auto
termination by (relation "measure size") (auto dest!: left_smaller right_smaller)

declare jit_can_compile_expression.simps [simp del]

definition scalar_fn_for :: "VectorizedDataType \<Rightarrow> jit_scalar_fn option" where
  "scalar_fn_for t =
     (case t of
        VECTORIZED_TYPE_INT64 \<Rightarrow> Some Wrapper_int64
      | VECTORIZED_TYPE_TIMESTAMP \<Rightarrow> Some Wrapper_int64
      | VECTORIZED_TYPE_INT32 \<Rightarrow> Some Wrapper_int32
      | VECTORIZED_TYPE_DATE \<Rightarrow> Some Wrapper_int32
      | VECTORIZED_TYPE_FLOAT64 \<Rightarrow> Some Wrapper_float64
      | VECTORIZED_TYPE_FLOAT32 \<Rightarrow> Some Wrapper_float32
      | VECTORIZED_TYPE_BOOL \<Rightarrow> Some Wrapper_bool
      | _ \<Rightarrow> None)"

definition compile_tree :: "JitContext \<Rightarrow> JitExprNode \<Rightarrow> JitCompiledExpr" where
  "compile_tree ctx e =
     \<lparr>jce_expr_tree = e, jce_result_type = je_result_type e, jce_scalar_fn = scalar_fn_for (je_result_type e),
      jce_batch_filter_fn = (je_result_type e = VECTORIZED_TYPE_BOOL), jce_expr_hash = jit_compute_expr_hash e,
      jce_options = jc_options ctx\<rparr>"

definition jit_compile_expression :: "bool \<Rightarrow> JitContext \<Rightarrow> JitExprNode \<Rightarrow> JitContext \<times> JitCompiledExpr option" where
  "jit_compile_expression cache_enabled ctx e =
     (if \<not> jit_can_compile_expression e
      then (ctx\<lparr>jc_compile_failed := True, jc_last_error := Some ''Expression cannot be JIT compiled''\<rparr>, None)
      else case (if cache_enabled then find (\<lambda>x. jce_expr_hash x = jit_compute_expr_hash e) (jc_expr_cache ctx) else None) of
             Some x \<Rightarrow> (ctx\<lparr>jc_cache_hits := jc_cache_hits ctx + 1\<rparr>, Some x)
           | None \<Rightarrow>
               let ctx = (if cache_enabled then ctx\<lparr>jc_cache_misses := jc_cache_misses ctx + 1\<rparr> else ctx);
                   compiled = compile_tree ctx e;
                   ctx = (if cache_enabled \<and> length (jc_expr_cache ctx) < jc_cache_size ctx
                          then ctx\<lparr>jc_expr_cache := jc_expr_cache ctx @ [compiled]\<rparr> else ctx)
               in (ctx\<lparr>jc_expressions_compiled := jc_expressions_compiled ctx + 1\<rparr>, Some compiled))"

text \<open>The scalar functions evaluate the expression in thread-local storage, which is initialized to NULL and never
  assigned.\<close>

definition tls_current_expr :: "JitExprNode option" where
  "tls_current_expr = None"

definition jit_wrapper_eval_int64 :: "jit_math \<Rightarrow> VectorBatch \<Rightarrow> nat \<Rightarrow> (u64 \<times> bool) option" where
  "jit_wrapper_eval_int64 fm b i = Option.bind tls_current_expr (\<lambda>e. jit_eval_int64 fm b e i)"

definition jit_wrapper_eval_int32 :: "jit_math \<Rightarrow> VectorBatch \<Rightarrow> nat \<Rightarrow> (u32 \<times> bool) option" where
  "jit_wrapper_eval_int32 fm b i = Option.bind tls_current_expr (\<lambda>e. jit_eval_int32 fm b e i)"

definition jit_wrapper_eval_float64 :: "jit_math \<Rightarrow> VectorBatch \<Rightarrow> nat \<Rightarrow> (u64 \<times> bool) option" where
  "jit_wrapper_eval_float64 fm b i = Option.bind tls_current_expr (\<lambda>e. jit_eval_float64 fm b e i)"

definition jit_wrapper_eval_float32 :: "jit_math \<Rightarrow> VectorBatch \<Rightarrow> nat \<Rightarrow> (u32 \<times> bool) option" where
  "jit_wrapper_eval_float32 fm b i = Option.bind tls_current_expr (\<lambda>e. jit_eval_float32 fm b e i)"

definition jit_wrapper_eval_bool :: "jit_math \<Rightarrow> VectorBatch \<Rightarrow> nat \<Rightarrow> (bool \<times> bool) option" where
  "jit_wrapper_eval_bool fm b i = Option.bind tls_current_expr (\<lambda>e. jit_eval_bool fm b e i)"

section \<open>Filters\<close>

datatype jit_filter_fn =
  Filter_int64 VectorizedCompareOp | Filter_float64 VectorizedCompareOp |
  Filter_int32 VectorizedCompareOp | Filter_float32 VectorizedCompareOp

record JitCompiledFilter =
  jf_predicate :: JitExprNode
  jf_column_indices :: "int list"
  jf_filter_fn :: "jit_filter_fn option"
  jf_complex_filter_fn :: bool
  jf_has_simd_path :: bool
  jf_rows_checked :: nat
  jf_rows_passed :: nat

definition simple_filter_fn :: "VectorizedDataType \<Rightarrow> VectorizedCompareOp \<Rightarrow> jit_filter_fn option" where
  "simple_filter_fn data_type op =
     (if op \<in> {VECTORIZED_CMP_IS_NULL, VECTORIZED_CMP_IS_NOT_NULL} then None
      else case data_type of
             VECTORIZED_TYPE_INT64 \<Rightarrow> Some (Filter_int64 op)
           | VECTORIZED_TYPE_TIMESTAMP \<Rightarrow> Some (Filter_int64 op)
           | VECTORIZED_TYPE_FLOAT64 \<Rightarrow> Some (Filter_float64 op)
           | VECTORIZED_TYPE_INT32 \<Rightarrow> Some (Filter_int32 op)
           | VECTORIZED_TYPE_DATE \<Rightarrow> Some (Filter_int32 op)
           | VECTORIZED_TYPE_FLOAT32 \<Rightarrow> Some (Filter_float32 op)
           | _ \<Rightarrow> None)"

definition jit_compile_simple_filter ::
  "JitContext \<Rightarrow> int \<Rightarrow> VectorizedCompareOp \<Rightarrow> u64 \<Rightarrow> VectorizedDataType \<Rightarrow> JitCompiledFilter" where
  "jit_compile_simple_filter ctx column_index op const_value data_type =
     \<lparr>jf_predicate = jit_expr_column column_index data_type, jf_column_indices = [column_index],
      jf_filter_fn = simple_filter_fn data_type op, jf_complex_filter_fn = False, jf_has_simd_path = jc_cpu_has_avx2 ctx,
      jf_rows_checked = 0, jf_rows_passed = 0\<rparr>"

definition jit_compile_filter :: "bool \<Rightarrow> JitContext \<Rightarrow> JitExprNode \<Rightarrow> JitContext \<times> JitCompiledFilter option" where
  "jit_compile_filter cache_enabled ctx predicate =
     (if je_result_type predicate \<noteq> VECTORIZED_TYPE_BOOL then (ctx, None)
      else case jit_compile_expression cache_enabled ctx predicate of
             (ctx, None) \<Rightarrow> (ctx, None)
           | (ctx, Some x) \<Rightarrow>
               (ctx, Some \<lparr>jf_predicate = predicate,
                           jf_column_indices = jit_extract_column_refs JIT_MAX_ARGS predicate [],
                           jf_filter_fn = None, jf_complex_filter_fn = jce_batch_filter_fn x,
                           jf_has_simd_path = jc_cpu_has_avx2 ctx, jf_rows_checked = 0, jf_rows_passed = 0\<rparr>))"

text \<open>The templates for a type: EQ, LT and GT have a SIMD loop in front of the scalar one; a last loop clears the
  entries of NULLs.\<close>

definition template_mask ::
  "nat \<Rightarrow> (VectorizedCompareOp \<Rightarrow> 'w::len word list \<Rightarrow> 'w word list \<Rightarrow> 'w word list option) \<Rightarrow>
   (VectorizedCompareOp \<Rightarrow> 'w word \<Rightarrow> 'w word \<Rightarrow> bool) \<Rightarrow> bool \<Rightarrow> VectorBatch \<Rightarrow> VectorColumn \<Rightarrow> 'w word list \<Rightarrow>
   VectorizedCompareOp \<Rightarrow> 'w word \<Rightarrow> bool list option" where
  "template_mask L lanes cmp avx2 b column data op value =
     do { r \<leftarrow> (if avx2 \<and> op \<in> {VECTORIZED_CMP_EQ, VECTORIZED_CMP_LT, VECTORIZED_CMP_GT}
                 then simd_rows L lanes data (vb_count b) op value else Some (Inr (0, [])));
          case r of
            Inl e \<Rightarrow> None
          | Inr (i, msk) \<Rightarrow>
              do { msk \<leftarrow> plain_rows cmp data op value [i..<vb_count b] msk;
                   null_pass column (vb_count b) msk } }"

definition template_column :: "VectorBatch \<Rightarrow> int \<Rightarrow> VectorColumn option" where
  "template_column b col_idx = (if col_idx < 0 then None else Option.bind (array_get (vb_columns b) (nat col_idx)) id)"

definition jit_filter_int64 :: "bool \<Rightarrow> VectorizedCompareOp \<Rightarrow> VectorBatch \<Rightarrow> int \<Rightarrow> u64 \<Rightarrow> bool list option" where
  "jit_filter_int64 avx2 op b col_idx val =
     do { column \<leftarrow> template_column b col_idx; data \<leftarrow> data64 column;
          template_mask 4 int64_lanes signed_cmp avx2 b column data op val }"

definition jit_filter_float64 :: "bool \<Rightarrow> VectorizedCompareOp \<Rightarrow> VectorBatch \<Rightarrow> int \<Rightarrow> u64 \<Rightarrow> bool list option" where
  "jit_filter_float64 avx2 op b col_idx val =
     do { column \<leftarrow> template_column b col_idx; data \<leftarrow> data64 column;
          template_mask 4 float_lanes float_cmp avx2 b column data op val }"

definition jit_filter_int32 :: "bool \<Rightarrow> VectorizedCompareOp \<Rightarrow> VectorBatch \<Rightarrow> int \<Rightarrow> u64 \<Rightarrow> bool list option" where
  "jit_filter_int32 avx2 op b col_idx val =
     do { column \<leftarrow> template_column b col_idx; data \<leftarrow> data32 column;
          template_mask 8 int32_lanes signed_cmp avx2 b column data op (datum_int32 val) }"

definition jit_filter_float32 :: "bool \<Rightarrow> VectorizedCompareOp \<Rightarrow> VectorBatch \<Rightarrow> int \<Rightarrow> u64 \<Rightarrow> bool list option" where
  "jit_filter_float32 avx2 op b col_idx val =
     do { column \<leftarrow> template_column b col_idx; data \<leftarrow> data32 column;
          template_mask 8 float_lanes float_cmp avx2 b column data op (datum_int32 val) }"

definition call_filter_fn :: "bool \<Rightarrow> jit_filter_fn \<Rightarrow> VectorBatch \<Rightarrow> int \<Rightarrow> u64 \<Rightarrow> bool list option" where
  "call_filter_fn avx2 fn b col_idx val =
     (case fn of
        Filter_int64 op \<Rightarrow> jit_filter_int64 avx2 op b col_idx val
      | Filter_float64 op \<Rightarrow> jit_filter_float64 avx2 op b col_idx val
      | Filter_int32 op \<Rightarrow> jit_filter_int32 avx2 op b col_idx val
      | Filter_float32 op \<Rightarrow> jit_filter_float32 avx2 op b col_idx val)"

text \<open>The mask has room for \<^verbatim>\<open>capacity\<close> rows, of which the first \<^verbatim>\<open>count\<close> are set; \<open>garbage\<close> is what memory holds behind
  them.\<close>

definition initial_mask :: "(nat \<Rightarrow> bool) \<Rightarrow> VectorBatch \<Rightarrow> bool list option" where
  "initial_mask garbage b =
     (if vb_count b \<le> vb_capacity b
      then Some (replicate (vb_count b) True @ map garbage [vb_count b..<vb_capacity b]) else None)"

definition run_filter :: "jit_math \<Rightarrow> bool \<Rightarrow> JitCompiledFilter \<Rightarrow> VectorBatch \<Rightarrow> bool list \<Rightarrow> bool list option" where
  "run_filter fm avx2 f b msk =
     (case jf_filter_fn f of
        Some fn \<Rightarrow>
          do { col_idx \<leftarrow> array_get (jf_column_indices f) 0;
               rows \<leftarrow> call_filter_fn avx2 fn b col_idx (jn_const_value (je_node (jf_predicate f)));
               Some (rows @ drop (vb_count b) msk) }
      | None \<Rightarrow> if jf_complex_filter_fn f then jit_batch_filter_internal fm b (jf_predicate f) msk else Some msk)"

definition select_masked :: "VectorBatch \<Rightarrow> bool list \<Rightarrow> VectorBatch option" where
  "select_masked b msk =
     (if \<not> vb_has_selection b
      then map_option (\<lambda>(sel, n). b\<lparr>vb_selection := sel, vb_selected_count := n, vb_has_selection := True\<rparr>)
             (fold_opt (\<lambda>i (sel, n). do { m \<leftarrow> array_get msk i;
                                            if m then do { sel \<leftarrow> array_store sel n i; Some (sel, Suc n) } else Some (sel, n) })
                [0..<vb_count b] (vb_selection b, 0))
      else map_option (\<lambda>(sel, n). b\<lparr>vb_selection := sel, vb_selected_count := n\<rparr>)
             (compact_loop msk (vb_selected_count b) 0 0 (vb_selection b)))"

definition jit_execute_filter ::
  "jit_math \<Rightarrow> bool \<Rightarrow> (nat \<Rightarrow> bool) \<Rightarrow> JitCompiledFilter \<Rightarrow> VectorBatch \<Rightarrow> (JitCompiledFilter \<times> VectorBatch) option" where
  "jit_execute_filter fm avx2 garbage f b =
     (if vb_count b = 0 then Some (f, b)
      else do { msk \<leftarrow> initial_mask garbage b;
                msk \<leftarrow> run_filter fm avx2 f b msk;
                b' \<leftarrow> select_masked b msk;
                Some (f\<lparr>jf_rows_checked := jf_rows_checked f + vb_count b',
                        jf_rows_passed := jf_rows_passed f + vb_selected_count b'\<rparr>, b') })"

section \<open>Aggregates\<close>

datatype jit_agg_fn =
  Agg_count | Agg_sum_int64 | Agg_sum_int32 | Agg_sum_float64 | Agg_sum_float32 | Agg_min_int64 | Agg_max_int64 |
  Agg_min_float64 | Agg_max_float64 | Agg_avg

record JitCompiledAgg =
  ja_agg_type :: VectorizedAggType
  ja_column_index :: int
  ja_input_type :: VectorizedDataType
  ja_result_type :: VectorizedDataType
  ja_update_fn :: "jit_agg_fn option"
  ja_filter :: "JitCompiledFilter option"
  ja_batches_processed :: nat
  ja_total_rows :: nat

definition agg_functions :: "VectorizedAggType \<Rightarrow> VectorizedDataType \<Rightarrow> VectorizedDataType \<times> jit_agg_fn option" where
  "agg_functions agg_type t =
     (case agg_type of
        VECTORIZED_AGG_COUNT \<Rightarrow> (VECTORIZED_TYPE_INT64, Some Agg_count)
      | VECTORIZED_AGG_SUM \<Rightarrow>
          (case t of
             VECTORIZED_TYPE_INT64 \<Rightarrow> (VECTORIZED_TYPE_INT64, Some Agg_sum_int64)
           | VECTORIZED_TYPE_TIMESTAMP \<Rightarrow> (VECTORIZED_TYPE_INT64, Some Agg_sum_int64)
           | VECTORIZED_TYPE_INT32 \<Rightarrow> (VECTORIZED_TYPE_INT64, Some Agg_sum_int32)
           | VECTORIZED_TYPE_DATE \<Rightarrow> (VECTORIZED_TYPE_INT64, Some Agg_sum_int32)
           | VECTORIZED_TYPE_FLOAT64 \<Rightarrow> (VECTORIZED_TYPE_FLOAT64, Some Agg_sum_float64)
           | VECTORIZED_TYPE_FLOAT32 \<Rightarrow> (VECTORIZED_TYPE_FLOAT64, Some Agg_sum_float32)
           | _ \<Rightarrow> (VECTORIZED_TYPE_FLOAT64, None))
      | VECTORIZED_AGG_AVG \<Rightarrow> (VECTORIZED_TYPE_FLOAT64, Some Agg_avg)
      | VECTORIZED_AGG_MIN \<Rightarrow>
          (case t of
             VECTORIZED_TYPE_INT64 \<Rightarrow> (VECTORIZED_TYPE_INT64, Some Agg_min_int64)
           | VECTORIZED_TYPE_TIMESTAMP \<Rightarrow> (VECTORIZED_TYPE_INT64, Some Agg_min_int64)
           | VECTORIZED_TYPE_FLOAT64 \<Rightarrow> (VECTORIZED_TYPE_FLOAT64, Some Agg_min_float64)
           | _ \<Rightarrow> (t, None))
      | VECTORIZED_AGG_MAX \<Rightarrow>
          (case t of
             VECTORIZED_TYPE_INT64 \<Rightarrow> (VECTORIZED_TYPE_INT64, Some Agg_max_int64)
           | VECTORIZED_TYPE_TIMESTAMP \<Rightarrow> (VECTORIZED_TYPE_INT64, Some Agg_max_int64)
           | VECTORIZED_TYPE_FLOAT64 \<Rightarrow> (VECTORIZED_TYPE_FLOAT64, Some Agg_max_float64)
           | _ \<Rightarrow> (t, None)))"

definition jit_compile_agg :: "VectorizedAggType \<Rightarrow> int \<Rightarrow> VectorizedDataType \<Rightarrow> JitCompiledAgg" where
  "jit_compile_agg agg_type column_index data_type =
     \<lparr>ja_agg_type = agg_type, ja_column_index = column_index, ja_input_type = data_type,
      ja_result_type = fst (agg_functions agg_type data_type), ja_update_fn = snd (agg_functions agg_type data_type),
      ja_filter = None, ja_batches_processed = 0, ja_total_rows = 0\<rparr>"

definition jit_compile_filtered_agg ::
  "bool \<Rightarrow> JitContext \<Rightarrow> VectorizedAggType \<Rightarrow> int \<Rightarrow> VectorizedDataType \<Rightarrow> JitExprNode option \<Rightarrow> JitContext \<times> JitCompiledAgg" where
  "jit_compile_filtered_agg cache_enabled ctx agg_type column_index data_type filter_predicate =
     (let agg = jit_compile_agg agg_type column_index data_type in
      case filter_predicate of
        None \<Rightarrow> (ctx, agg)
      | Some p \<Rightarrow> (case jit_compile_filter cache_enabled ctx p of (ctx, f) \<Rightarrow> (ctx, agg\<lparr>ja_filter := f\<rparr>)))"

definition jit_agg_count_update :: "VectorizedAggState \<Rightarrow> VectorBatch \<Rightarrow> VectorizedAggState outcome" where
  "jit_agg_count_update s b =
     (if va_column_index s < 0
      then Some (Inr (s\<lparr>va_count := va_count s + word_of_nat (if vb_has_selection b then vb_selected_count b else vb_count b)\<rparr>))
      else do { n \<leftarrow> vectorized_count_column b (va_column_index s);
                Some (Inr (s\<lparr>va_count := va_count s + word_of_nat n\<rparr>)) })"

definition jit_agg_best_update ::
  "(VectorBatch \<Rightarrow> int \<Rightarrow> (u64 \<times> bool) option) \<Rightarrow> (u64 \<Rightarrow> VectorizedAggState \<Rightarrow> bool) \<Rightarrow>
   (u64 \<Rightarrow> VectorizedAggState \<Rightarrow> VectorizedAggState) \<Rightarrow> VectorizedAggState \<Rightarrow> VectorBatch \<Rightarrow> VectorizedAggState outcome" where
  "jit_agg_best_update best better set_best s b =
     do { (val, found) \<leftarrow> best b (va_column_index s);
          Some (Inr (if found \<and> (\<not> va_has_value s \<or> better val s) then (set_best val s)\<lparr>va_has_value := True\<rparr> else s)) }"

definition jit_agg_avg_update ::
  "double_ops \<Rightarrow> bool \<Rightarrow> VectorizedAggState \<Rightarrow> VectorBatch \<Rightarrow> VectorizedAggState outcome" where
  "jit_agg_avg_update fp avx2 s b =
     (let c = va_column_index s; t = va_data_type s in
      do { n \<leftarrow> vectorized_count_column b c;
           let s = s\<lparr>va_count := va_count s + word_of_nat n\<rparr> in
           case t of
             VECTORIZED_TYPE_INT64 \<Rightarrow> add_float_sum fp (d_of_int64 fp) s (vectorized_sum_int64 avx2 b c)
           | VECTORIZED_TYPE_TIMESTAMP \<Rightarrow> add_float_sum fp (d_of_int64 fp) s (vectorized_sum_int64 avx2 b c)
           | VECTORIZED_TYPE_INT32 \<Rightarrow> add_float_sum fp (d_of_int64 fp) s (vectorized_sum_int32 avx2 b c)
           | VECTORIZED_TYPE_DATE \<Rightarrow> add_float_sum fp (d_of_int64 fp) s (vectorized_sum_int32 avx2 b c)
           | VECTORIZED_TYPE_FLOAT64 \<Rightarrow> add_float_sum fp id s (vectorized_sum_float64 fp avx2 b c)
           | VECTORIZED_TYPE_FLOAT32 \<Rightarrow> add_float_sum fp id s (vectorized_sum_float32 fp avx2 b c)
           | _ \<Rightarrow> Some (Inr (s\<lparr>va_has_value := True\<rparr>)) })"

definition call_agg_fn ::
  "double_ops \<Rightarrow> bool \<Rightarrow> jit_agg_fn \<Rightarrow> VectorizedAggState \<Rightarrow> VectorBatch \<Rightarrow> VectorizedAggState outcome" where
  "call_agg_fn fp avx2 fn s b =
     (let c = va_column_index s in
      case fn of
        Agg_count \<Rightarrow> jit_agg_count_update s b
      | Agg_sum_int64 \<Rightarrow> add_int_sum s (vectorized_sum_int64 avx2 b c)
      | Agg_sum_int32 \<Rightarrow> add_int_sum s (vectorized_sum_int32 avx2 b c)
      | Agg_sum_float64 \<Rightarrow> add_float_sum fp id s (vectorized_sum_float64 fp avx2 b c)
      | Agg_sum_float32 \<Rightarrow> add_float_sum fp id s (vectorized_sum_float32 fp avx2 b c)
      | Agg_min_int64 \<Rightarrow>
          jit_agg_best_update vectorized_min_int64 (\<lambda>v s. sint v < sint (va_min_int64 s)) (\<lambda>v s. s\<lparr>va_min_int64 := v\<rparr>) s b
      | Agg_max_int64 \<Rightarrow>
          jit_agg_best_update vectorized_max_int64 (\<lambda>v s. sint v > sint (va_max_int64 s)) (\<lambda>v s. s\<lparr>va_max_int64 := v\<rparr>) s b
      | Agg_min_float64 \<Rightarrow>
          jit_agg_best_update vectorized_min_float64 (\<lambda>v s. f_less v (va_min_float64 s)) (\<lambda>v s. s\<lparr>va_min_float64 := v\<rparr>) s b
      | Agg_max_float64 \<Rightarrow>
          jit_agg_best_update vectorized_max_float64 (\<lambda>v s. f_less (va_max_float64 s) v) (\<lambda>v s. s\<lparr>va_max_float64 := v\<rparr>) s b
      | Agg_avg \<Rightarrow> jit_agg_avg_update fp avx2 s b)"

definition jit_execute_agg_update ::
  "jit_math \<Rightarrow> bool \<Rightarrow> (nat \<Rightarrow> bool) \<Rightarrow> JitCompiledAgg \<Rightarrow> VectorizedAggState \<Rightarrow> VectorBatch \<Rightarrow>
   (JitCompiledAgg \<times> VectorizedAggState \<times> VectorBatch) outcome" where
  "jit_execute_agg_update fm avx2 garbage agg s b =
     do { (f, b) \<leftarrow> (case ja_filter agg of
                         None \<Rightarrow> Some (None, b)
                       | Some f \<Rightarrow> map_option (\<lambda>(f, b). (Some f, b)) (jit_execute_filter fm avx2 garbage f b));
          r \<leftarrow> (case ja_update_fn agg of None \<Rightarrow> Some (Inr s) | Some fn \<Rightarrow> call_agg_fn (jm_double fm) avx2 fn s b);
          case r of
            Inl e \<Rightarrow> Some (Inl e)
          | Inr s \<Rightarrow>
              Some (Inr (agg\<lparr>ja_filter := f, ja_batches_processed := ja_batches_processed agg + 1,
                             ja_total_rows := ja_total_rows agg + vectorized_count b\<rparr>, s, b)) }"

section \<open>The vectorized executor\<close>

definition jit_vectorized_filter ::
  "jit_math \<Rightarrow> bool \<Rightarrow> (nat \<Rightarrow> bool) \<Rightarrow> bool \<Rightarrow> VectorBatch \<Rightarrow> JitCompiledFilter option \<Rightarrow> VectorBatch option" where
  "jit_vectorized_filter fm avx2 garbage jit_enabled b jfilter =
     (case jfilter of
        None \<Rightarrow> Some b
      | Some f \<Rightarrow> if \<not> jit_enabled then Some b else map_option snd (jit_execute_filter fm avx2 garbage f b))"

definition jit_vectorized_aggregate ::
  "jit_math \<Rightarrow> bool \<Rightarrow> (nat \<Rightarrow> bool) \<Rightarrow> bool \<Rightarrow> VectorizedAggState \<Rightarrow> VectorBatch \<Rightarrow> JitCompiledAgg option \<Rightarrow>
   (VectorizedAggState \<times> VectorBatch) outcome" where
  "jit_vectorized_aggregate fm avx2 garbage jit_enabled s b agg =
     (case (if jit_enabled then agg else None) of
        None \<Rightarrow> map_option (map_sum id (\<lambda>s. (s, b))) (vectorized_agg_update (jm_double fm) avx2 s b)
      | Some a \<Rightarrow> map_option (map_sum id snd) (jit_execute_agg_update fm avx2 garbage a s b))"

definition jit_should_use_jit :: "bool \<Rightarrow> int \<Rightarrow> VectorBatch \<Rightarrow> int \<Rightarrow> bool" where
  "jit_should_use_jit jit_enabled jit_min_cost b expr_cost =
     (jit_enabled \<and> \<not> vb_count b < JIT_MIN_BATCH_SIZE \<and> \<not> expr_cost < jit_min_cost)"

definition vectorized_should_use_jit :: "bool \<Rightarrow> VectorBatch option \<Rightarrow> int \<Rightarrow> bool" where
  "vectorized_should_use_jit jit_enabled b expr_cost =
     (jit_enabled \<and> (case b of None \<Rightarrow> False | Some b \<Rightarrow> \<not> vb_count b < VECTORIZED_JIT_MIN_BATCH_SIZE) \<and>
      \<not> expr_cost < VECTORIZED_JIT_MIN_EXPR_COST)"

definition vectorized_compile_filter_jit :: "bool \<Rightarrow> JitContext \<Rightarrow> VectorizedFilterState \<Rightarrow> JitCompiledFilter option" where
  "vectorized_compile_filter_jit jit_enabled ctx f =
     (if \<not> jit_enabled then None
      else Some (jit_compile_simple_filter ctx (vf_column_index f) (vf_compare_op f) (vf_const_value f) (vf_data_type f)))"

definition vectorized_compile_agg_jit :: "bool \<Rightarrow> VectorizedAggState \<Rightarrow> JitCompiledAgg option" where
  "vectorized_compile_agg_jit jit_enabled s =
     (if \<not> jit_enabled then None else Some (jit_compile_agg (va_agg_type s) (va_column_index s) (va_data_type s)))"

definition vectorized_filter_with_jit ::
  "jit_math \<Rightarrow> bool \<Rightarrow> (nat \<Rightarrow> bool) \<Rightarrow> bool \<Rightarrow> VectorBatch \<Rightarrow> VectorizedFilterState option \<Rightarrow> JitCompiledFilter option \<Rightarrow>
   VectorBatch outcome" where
  "vectorized_filter_with_jit fm avx2 garbage jit_enabled b vfilter jit_filter =
     (if jit_filter \<noteq> None \<and> jit_enabled \<and> vb_count b \<ge> VECTORIZED_JIT_MIN_BATCH_SIZE
      then map_option Inr (jit_vectorized_filter fm avx2 garbage jit_enabled b jit_filter)
      else case vfilter of None \<Rightarrow> Some (Inr b) | Some f \<Rightarrow> vectorized_filter_generic avx2 b f)"

definition vectorized_aggregate_with_jit ::
  "jit_math \<Rightarrow> bool \<Rightarrow> (nat \<Rightarrow> bool) \<Rightarrow> bool \<Rightarrow> VectorizedAggState \<Rightarrow> VectorBatch \<Rightarrow> JitCompiledAgg option \<Rightarrow>
   (VectorizedAggState \<times> VectorBatch) outcome" where
  "vectorized_aggregate_with_jit fm avx2 garbage jit_enabled s b jit_agg =
     (if jit_agg \<noteq> None \<and> jit_enabled \<and> vb_count b \<ge> VECTORIZED_JIT_MIN_BATCH_SIZE
      then jit_vectorized_aggregate fm avx2 garbage jit_enabled s b jit_agg
      else map_option (map_sum id (\<lambda>s. (s, b))) (vectorized_agg_update (jm_double fm) avx2 s b))"

section \<open>Masks\<close>

context lane_compare
begin

lemma template_mask_eq:
  assumes c: "column_wf (vb_capacity b) c" and len: "length data = vb_capacity b" and n: "vb_count b \<le> vb_capacity b"
    and simd: "\<And>op x v. op \<in> {VECTORIZED_CMP_EQ, VECTORIZED_CMP_LT, VECTORIZED_CMP_GT} \<Longrightarrow> supported op \<and> ok op x v"
  shows "template_mask L lanes cmp avx2 b c data op v = Some (map (row_hit cmp c data op v) [0..<vb_count b])"
proof -
  let ?n = "vb_count b" and ?f = "\<lambda>i. cmp op (data ! i) v"
  have plain: "plain_rows cmp data op v [k..<?n] (map ?f [0..<k]) = Some (map ?f [0..<?n])" if "k \<le> ?n" for k
  proof -
    have "[0..<?n] = [0..<k] @ [k..<?n]" using upt_add_eq_append [of 0 k "?n - k"] that by simp
    then have "map ?f [0..<?n] = map ?f [0..<k] @ map ?f [k..<?n]" by simp
    with len n that show ?thesis by (subst plain_rows_eq) auto
  qed
  moreover have "null_pass c ?n (map ?f [0..<?n]) = Some (map (row_hit cmp c data op v) [0..<?n])"
    using c n by (simp add: null_pass_eq row_hit_def cong: map_cong)
  moreover have "simd_rows L lanes data ?n op v = Some (Inr (?n - ?n mod L, map ?f [0..<?n - ?n mod L]))"
    if "op \<in> {VECTORIZED_CMP_EQ, VECTORIZED_CMP_LT, VECTORIZED_CMP_GT}"
    using simd_rows_eq [of op ?n data v] simd [OF that] len n by simp
  ultimately show ?thesis using plain [of 0] plain [of "?n - ?n mod L"] by (simp add: template_mask_def)
qed

end

interpretation jit_float32: lane_compare 8 "float_lanes :: VectorizedCompareOp \<Rightarrow> u32 list \<Rightarrow> _" float_cmp compares_values float_ok
proof (unfold_locales, goal_cases)
  case (2 op xs v)
  then show ?case using float_lanes_agree [of op xs v] by simp
next
  case (3 op xs v)
  then show ?case by (cases op) (simp_all add: float_lanes_def compares_values_def)
qed simp

lemma select_prefix:
  assumes "k \<le> length msk" "k \<le> length sel"
  shows "\<exists>sel'. fold_opt (\<lambda>i (sel, n). do { m \<leftarrow> array_get msk i;
                    if m then do { sel \<leftarrow> array_store sel n i; Some (sel, Suc n) } else Some (sel, n) }) [0..<k] (sel, 0) =
                  Some (sel', length (filter (\<lambda>i. msk ! i) [0..<k])) \<and> length sel' = length sel \<and>
                take (length (filter (\<lambda>i. msk ! i) [0..<k])) sel' = filter (\<lambda>i. msk ! i) [0..<k]"
  using assms
proof (induction k)
  case (Suc k)
  have "length (filter (\<lambda>i. msk ! i) [0..<k]) \<le> k" using length_filter_le [of "\<lambda>i. msk ! i" "[0..<k]"] by simp
  with Suc show ?case by (auto simp: fold_opt_append array_get_less array_store_def take_Suc_update)
qed simp

lemma select_masked_eq:
  assumes wf: "batch_wf b" and msk: "vb_count b \<le> length msk"
  shows "\<exists>b'. select_masked b msk = Some b' \<and> batch_wf b' \<and> same_rows b b' \<and> vb_has_selection b' \<and>
              active b' = filter (\<lambda>r. msk ! r) (active b)"
proof (cases "vb_has_selection b")
  case True
  obtain b1 where b1: "compact_selection b msk = Some b1" "batch_wf b1" "same_rows b b1" "vb_has_selection b1"
      "active b1 = filter (\<lambda>r. msk ! r) (active b)"
    using compact_selection_eq [OF wf True msk] by (auto simp: filtered_def)
  then obtain sel n where "compact_loop msk (vb_selected_count b) 0 0 (vb_selection b) = Some (sel, n)"
      "b1 = b\<lparr>vb_selection := sel, vb_rows_filtered := vb_rows_filtered b + (vb_selected_count b - n), vb_selected_count := n\<rparr>"
    by (auto simp: compact_selection_def)
  with True b1 show ?thesis by (auto simp: select_masked_def batch_wf_def same_rows_def active_def)
next
  case False
  let ?F = "filter (\<lambda>i. msk ! i) [0..<vb_count b]"
  have act: "active b = [0..<vb_count b]" using False by (simp add: active_def)
  obtain sel' where sel': "select_masked b msk =
      Some (b\<lparr>vb_selection := sel', vb_selected_count := length ?F, vb_has_selection := True\<rparr>)"
      "length sel' = length (vb_selection b)" "take (length ?F) sel' = ?F"
    using select_prefix [of "vb_count b" msk "vb_selection b"] wf msk False by (auto simp: select_masked_def batch_wf_def)
  let ?b = "b\<lparr>vb_selection := sel', vb_selected_count := length ?F, vb_has_selection := True\<rparr>"
  have a: "active ?b = ?F" using sel' by (simp add: active_def)
  have "length ?F \<le> vb_count b" using length_filter_le [of "\<lambda>i. msk ! i" "[0..<vb_count b]"] by simp
  moreover have "sorted_wrt (<) ?F" by (simp add: sorted_wrt_filter)
  ultimately have "batch_wf ?b" using wf sel'(2) by (auto simp: batch_wf_def a list_all_iff)
  then show ?thesis using sel' a act by (auto simp: same_rows_def)
qed

text \<open>What running a filter needs of the function that computes its mask: a verdict for every row of a batch it is
  \<open>ready\<close> for, and nothing written behind the rows.\<close>

locale mask_writer =
  fixes run :: "VectorBatch \<Rightarrow> bool list \<Rightarrow> bool list option"
    and hit :: "VectorBatch \<Rightarrow> nat \<Rightarrow> bool"
    and ready :: "VectorBatch \<Rightarrow> bool"
  assumes run_eq: "batch_wf b \<Longrightarrow> ready b \<Longrightarrow> length m = vb_capacity b \<Longrightarrow>
            take (vb_count b) m = replicate (vb_count b) True \<Longrightarrow>
            run b m = Some (map (hit b) [0..<vb_count b] @ drop (vb_count b) m)"
begin

lemma executes:
  assumes wf: "batch_wf b" and "ready b" and "\<And>m. run_filter fm avx2 f b m = run b m"
  shows "\<exists>f' b'. jit_execute_filter fm avx2 garbage f b = Some (f', b') \<and> batch_wf b' \<and> same_rows b b' \<and>
                 active b' = filter (hit b) (active b) \<and>
                 (vb_count b \<noteq> 0 \<longrightarrow> jf_rows_checked f' = jf_rows_checked f + vb_count b \<and>
                    jf_rows_passed f' = jf_rows_passed f + length (active b'))"
proof (cases "vb_count b = 0")
  case True
  then have "active b = []" using active_less [OF wf] by (cases "active b") auto
  with True wf show ?thesis by (simp add: jit_execute_filter_def same_rows_def)
next
  case False
  have cnt: "vb_count b \<le> vb_capacity b" using wf by (simp add: batch_wf_def)
  then obtain m where m: "initial_mask garbage b = Some m" "length m = vb_capacity b"
      "take (vb_count b) m = replicate (vb_count b) True" by (simp add: initial_mask_def)
  let ?m = "map (hit b) [0..<vb_count b] @ drop (vb_count b) m"
  obtain b' where b': "select_masked b ?m = Some b'" "batch_wf b'" "same_rows b b'" "vb_has_selection b'"
      "active b' = filter (\<lambda>r. ?m ! r) (active b)"
    using select_masked_eq [OF wf, of ?m] by auto
  have "filter (\<lambda>r. ?m ! r) (active b) = filter (hit b) (active b)"
    using active_less [OF wf] by (intro filter_cong) (auto simp: nth_append)
  moreover have "vb_selected_count b' = length (active b')"
    using b'(2,4) by (simp add: active_def batch_wf_def)
  ultimately show ?thesis
    using False m run_eq [OF wf assms(2) m(2,3)] b' assms(3) by (simp add: jit_execute_filter_def same_rows_def)
qed

end





section \<open>Properties\<close>




text \<open>the JIT differs from three-valued logic where the left operand of OR is NULL: the row is dropped although the right operand is true.\<close>

theorem jit_or_drops_null_left:
  assumes wf: "batch_wf b" and ok: "cond_ok b (COr p q)" and i: "i < vb_capacity b"
    and p: "tv_cond fm b p i = None" and q: "tv_cond fm b q i = Some True"
  shows "tv_cond fm b (COr p q) i = Some True \<and> \<not> jit_verdict fm b (cond_node (COr p q)) i"
proof -
  obtain r r' where "known (jit_eval_bool fm b (cond_node p) i) = Some r" "approximates r (tv_cond fm b p i)"
      "known (jit_eval_bool fm b (cond_node q) i) = Some r'"
    using eval_cond_tv [OF wf i, of p fm] eval_cond_tv [OF wf i, of q fm] ok by auto
  then have "known (jit_eval_bool fm b (cond_node (COr p q)) i) = Some None"
    using p by (auto simp: eval_or approximates_def strict_or_def)
  then show ?thesis using q by (auto simp: jit_verdict_def k_or_def)
qed

theorem jit_or_drops_null_left_witness:
  "\<not> jit_verdict sample_math sample_batch
       (cond_node (COr (CInt VECTORIZED_CMP_EQ (ICol 0) (IConst 1)) (CIsNull 0 VECTORIZED_TYPE_INT64))) 4"
  using jit_or_drops_null_left [OF sample_batch_wf, of "CInt VECTORIZED_CMP_EQ (ICol 0) (IConst 1)"
    "CIsNull 0 VECTORIZED_TYPE_INT64" 4 sample_math]
  by (simp add: col_ok_def the_column_def sample_batch_def compares_values_def tv_cell_def col_null_def null2_def bit_numeral_rec)

text \<open>The column a filter is compiled for is the column of the batch.\<close>

lemma template_column_eq: "batch_wf b \<Longrightarrow> batch_column b k = Some (Inr c) \<Longrightarrow> template_column b k = Some c"
  by (auto simp: template_column_def batch_column_def array_get_def split: if_splits option.splits)

definition simple_ready :: "VectorizedFilterState \<Rightarrow> VectorBatch \<Rightarrow> bool" where
  "simple_ready f b =
     ((\<exists>c. batch_column b (vf_column_index f) = Some (Inr c) \<and> vc_data_type c = vf_data_type f) \<and>
      vf_data_type f \<in> {VECTORIZED_TYPE_INT64, VECTORIZED_TYPE_TIMESTAMP, VECTORIZED_TYPE_FLOAT64,
                        VECTORIZED_TYPE_INT32, VECTORIZED_TYPE_DATE, VECTORIZED_TYPE_FLOAT32})"

definition simple_column :: "VectorizedFilterState \<Rightarrow> VectorBatch \<Rightarrow> VectorColumn" where
  "simple_column f b = the (template_column b (vf_column_index f))"

lemma simple_readyE:
  assumes "simple_ready f b" "batch_wf b"
  obtains "template_column b (vf_column_index f) = Some (simple_column f b)"
    and "column_wf (vb_capacity b) (simple_column f b)" and "vc_data_type (simple_column f b) = vf_data_type f"
  using assms template_column_eq batch_column_wf by (fastforce simp: simple_ready_def simple_column_def)

lemma template_masks:
  assumes "column_wf (vb_capacity b) c" "vb_count b \<le> vb_capacity b"
  shows "data64 c = Some data \<Longrightarrow> template_mask 4 int64_lanes signed_cmp avx2 b c data op v =
           Some (map (row_hit signed_cmp c data op v) [0..<vb_count b])"
    and "data64 c = Some data \<Longrightarrow> template_mask 4 float_lanes float_cmp avx2 b c data op v =
           Some (map (row_hit float_cmp c data op v) [0..<vb_count b])"
    and "data32 c = Some data' \<Longrightarrow> template_mask 8 int32_lanes signed_cmp avx2 b c data' op v' =
           Some (map (row_hit signed_cmp c data' op v') [0..<vb_count b])"
    and "data32 c = Some data' \<Longrightarrow> template_mask 8 float_lanes float_cmp avx2 b c data' op v' =
           Some (map (row_hit float_cmp c data' op v') [0..<vb_count b])"
  by (auto intro!: int64_simd.template_mask_eq float64_simd.template_mask_eq int32_simd.template_mask_eq
        jit_float32.template_mask_eq data64_length [OF assms(1)] data32_length [OF assms(1)]
      simp: assms compares_values_def float_ok_def simp del: data64.simps data32.simps)

text \<open>A simple filter: the mask is that of a comparison with zero, the constant of the column node.\<close>

definition simple_hit :: "VectorizedFilterState \<Rightarrow> VectorBatch \<Rightarrow> nat \<Rightarrow> bool" where
  "simple_hit f b = filter_hit (f\<lparr>vf_const_value := 0\<rparr>) (simple_column f b)"

lemma simple_filter_mask:
  assumes wf: "batch_wf b" and ready: "simple_ready f b" and op: "compares_values (vf_compare_op f)"
  shows "run_filter fm avx2 (jit_compile_simple_filter ctx (vf_column_index f) (vf_compare_op f) v (vf_data_type f)) b m =
           Some (map (simple_hit f b) [0..<vb_count b] @ drop (vb_count b) m)"
proof -
  let ?c = "simple_column f b"
  obtain c: "template_column b (vf_column_index f) = Some ?c" and cw: "column_wf (vb_capacity b) ?c"
    and t: "vc_data_type ?c = vf_data_type f" using simple_readyE [OF ready wf] by blast
  have val: "jn_const_value (je_node (jit_expr_column k t)) = 0" for k t by (simp add: builder_defs)
  have n: "vf_compare_op f \<noteq> VECTORIZED_CMP_IS_NULL" "vf_compare_op f \<noteq> VECTORIZED_CMP_IS_NOT_NULL"
    using op by (auto simp: compares_values_def)
  note dat = column_wf_data [OF cw] and tm = template_masks [OF cw batch_wf_count [OF wf]]
  note defs = run_filter_def jit_compile_simple_filter_def simple_filter_fn_def call_filter_fn_def val c array_get_def
    simple_hit_def filter_hit_def [abs_def] row_hit_def [abs_def]
  from ready consider (a) "vf_data_type f \<in> {VECTORIZED_TYPE_INT64, VECTORIZED_TYPE_TIMESTAMP}"
    | (b) "vf_data_type f = VECTORIZED_TYPE_FLOAT64" | (c) "vf_data_type f \<in> {VECTORIZED_TYPE_INT32, VECTORIZED_TYPE_DATE}"
    | (d) "vf_data_type f = VECTORIZED_TYPE_FLOAT32" by (auto simp: simple_ready_def)
  then show ?thesis
  proof cases
    case a
    then obtain data where data: "data64 ?c = Some data" using dat(1) t by auto
    from a show ?thesis using n by (auto simp: defs jit_filter_int64_def data tm(1) [OF data] simp del: data64.simps)
  next
    case b
    then obtain data where data: "data64 ?c = Some data" using dat(1) t by auto
    from b show ?thesis using n by (auto simp: defs jit_filter_float64_def data tm(2) [OF data] simp del: data64.simps)
  next
    case c
    then obtain data where data: "data32 ?c = Some data" using dat(2) t by auto
    from c show ?thesis using n by (auto simp: defs jit_filter_int32_def data tm(3) [OF data] simp del: data32.simps)
  next
    case d
    then obtain data where data: "data32 ?c = Some data" using dat(2) t by auto
    from d show ?thesis using n by (auto simp: defs jit_filter_float32_def data tm(4) [OF data] simp del: data32.simps)
  qed
qed

interpretation simple_mask: mask_writer
  "\<lambda>b. run_filter fm avx2 (jit_compile_simple_filter ctx (vf_column_index f) (vf_compare_op f) v (vf_data_type f)) b"
  "\<lambda>b. simple_hit f b" "\<lambda>b. simple_ready f b \<and> compares_values (vf_compare_op f)" for fm avx2 ctx f v
  by unfold_locales (simp add: simple_filter_mask)

interpretation no_function: mask_writer "\<lambda>b m. Some m" "\<lambda>b i. True" "\<lambda>b. True"
proof unfold_locales
  fix b :: VectorBatch and m :: "bool list"
  assume "take (vb_count b) m = replicate (vb_count b) True"
  then show "Some m = Some (map (\<lambda>i. True) [0..<vb_count b] @ drop (vb_count b) m)"
    by (metis append_take_drop_id length_upt map_replicate_const minus_nat.diff_0)
qed

lemma jit_filter_runs:
  assumes "vb_count b \<ge> 64"
  shows "vectorized_filter_with_jit fm avx2 garbage True b f0 (vectorized_compile_filter_jit True ctx f) =
           map_option (\<lambda>r. Inr (snd r)) (jit_execute_filter fm avx2 garbage
             (jit_compile_simple_filter ctx (vf_column_index f) (vf_compare_op f) (vf_const_value f) (vf_data_type f)) b)"
  using assms
  by (simp add: vectorized_filter_with_jit_def vectorized_compile_filter_jit_def jit_vectorized_filter_def option.map_comp o_def)

text \<open>with the JIT enabled, a batch of 64 rows or more is filtered by the compiled form of a simple filter, which
  ignores the constant of the filter: the rows selected are those that compare with zero, and for IS NULL and IS NOT NULL
  every row stays selected. The batch stays well formed.\<close>

theorem jit_simple_filter_compares_with_zero:
  assumes wf: "batch_wf b" and n: "vb_count b \<ge> 64" and ready: "simple_ready f b"
  shows "\<exists>b'. vectorized_filter_with_jit fm avx2 garbage True b (Some f) (vectorized_compile_filter_jit True ctx f) = Some (Inr b') \<and>
              batch_wf b' \<and> same_rows b b' \<and>
              active b' = (if compares_values (vf_compare_op f)
                           then filter (filter_hit (f\<lparr>vf_const_value := 0\<rparr>) (simple_column f b)) (active b) else active b)"
proof (cases "compares_values (vf_compare_op f)")
  case True
  then obtain f' b' where "jit_execute_filter fm avx2 garbage (jit_compile_simple_filter ctx (vf_column_index f)
        (vf_compare_op f) (vf_const_value f) (vf_data_type f)) b = Some (f', b')" "batch_wf b'" "same_rows b b'"
      "active b' = filter (simple_hit f b) (active b)"
    using simple_mask.executes [OF wf _ refl] ready by blast
  with True n show ?thesis by (simp add: jit_filter_runs simple_hit_def)
next
  case False
  let ?f = "jit_compile_simple_filter ctx (vf_column_index f) (vf_compare_op f) (vf_const_value f) (vf_data_type f)"
  have "run_filter fm avx2 ?f b m = Some m" for m
    using False by (simp add: run_filter_def jit_compile_simple_filter_def simple_filter_fn_def compares_values_def)
  then obtain f' b' where "jit_execute_filter fm avx2 garbage ?f b = Some (f', b')" "batch_wf b'" "same_rows b b'"
      "active b' = active b"
    using no_function.executes [OF wf, of fm avx2 ?f garbage] by auto
  with False n show ?thesis by (simp add: jit_filter_runs)
qed

definition wide_batch :: VectorBatch where
  "wide_batch =
     \<lparr>vb_capacity = 64, vb_count = 64, vb_column_count = 1,
      vb_columns = [Some \<lparr>vc_data_type = VECTORIZED_TYPE_INT64, vc_type_len = 8, vc_type_byval = True,
        vc_type_oid = 20, vc_data = Data64 (replicate 64 5), vc_nulls = [0], vc_has_nulls = False, vc_offsets = None\<rparr>],
      vb_selection = replicate 64 0, vb_selected_count = 0, vb_has_selection = False, vb_rows_processed = 64,
      vb_rows_filtered = 0\<rparr>"

definition equals_five :: VectorizedFilterState where
  "equals_five = \<lparr>vf_column_index = 0, vf_compare_op = VECTORIZED_CMP_EQ, vf_data_type = VECTORIZED_TYPE_INT64,
     vf_const_value = 5, vf_const_is_null = False\<rparr>"

theorem jit_simple_filter_compares_with_zero_witness:
  "\<exists>b'. vectorized_filter_with_jit sample_math True (\<lambda>_. True) True wide_batch (Some equals_five)
           (vectorized_compile_filter_jit True (jit_context_create True) equals_five) = Some (Inr b') \<and> active b' = []"
proof -
  have "batch_wf wide_batch" "simple_ready equals_five wide_batch" "vb_count wide_batch \<ge> 64"
    "\<And>i. i < 64 \<Longrightarrow> \<not> filter_hit (equals_five\<lparr>vf_const_value := 0\<rparr>) (simple_column equals_five wide_batch) i"
    "active wide_batch = [0..<64]"
    by (simp_all add: wide_batch_def equals_five_def batch_wf_def columns_wf_def column_wf_def data_fits_def active_def
        simple_ready_def batch_column_def array_get_def simple_column_def template_column_def filter_hit_def signed_cmp_def
        del: upt_rec_numeral)
  then show ?thesis
    using jit_simple_filter_compares_with_zero [of wide_batch equals_five sample_math True "\<lambda>_. True" "jit_context_create True"]
    by (auto simp: equals_five_def compares_values_def filter_empty_conv)
qed

lemma jit_update_eq:
  assumes "va_agg_type s = VECTORIZED_AGG_AVG \<Longrightarrow>
             va_data_type s \<notin> {VECTORIZED_TYPE_BOOL, VECTORIZED_TYPE_STRING, VECTORIZED_TYPE_UNKNOWN}"
  shows "(case snd (agg_functions (va_agg_type s) (va_data_type s)) of
            None \<Rightarrow> Some (Inr s) | Some fn \<Rightarrow> call_agg_fn fp avx2 fn s b) = vectorized_agg_update fp avx2 s b"
proof (cases "va_agg_type s")
  case VECTORIZED_AGG_AVG
  with assms show ?thesis
    by (cases "va_data_type s")
       (auto simp: agg_functions_def call_agg_fn_def vectorized_agg_update_def jit_agg_avg_update_def Let_def)
qed (cases "va_data_type s";
     auto simp: agg_functions_def call_agg_fn_def vectorized_agg_update_def jit_agg_count_update_def vectorized_count_def
       jit_agg_best_update_def agg_min_def agg_max_def Let_def map_conv_bind_option split: prod.splits intro!: Option.bind_cong)+

text \<open>the compiled aggregate without a filter computes what the interpreted aggregate computes, error for error, on every
  batch and in every state, AVG over a column of another than a numeric type excepted.\<close>

theorem jit_aggregate_equals_interpreted:
  assumes "va_agg_type s = VECTORIZED_AGG_AVG \<Longrightarrow>
             va_data_type s \<notin> {VECTORIZED_TYPE_BOOL, VECTORIZED_TYPE_STRING, VECTORIZED_TYPE_UNKNOWN}"
  shows "vectorized_aggregate_with_jit fm avx2 garbage True s b (vectorized_compile_agg_jit True s) =
           vectorized_aggregate_with_jit fm avx2 garbage False s b None"
proof -
  have "jit_execute_agg_update fm avx2 garbage (jit_compile_agg (va_agg_type s) (va_column_index s) (va_data_type s)) s b =
      map_option (map_sum id (\<lambda>s'. ((jit_compile_agg (va_agg_type s) (va_column_index s) (va_data_type s))
        \<lparr>ja_batches_processed := 1, ja_total_rows := vectorized_count b\<rparr>, s', b))) (vectorized_agg_update (jm_double fm) avx2 s b)"
    using jit_update_eq [OF assms, of "jm_double fm" avx2 b]
    by (auto simp: jit_execute_agg_update_def jit_compile_agg_def map_conv_bind_option
        split: option.splits intro!: Option.bind_cong split: sum.split)
  then show ?thesis
    by (simp add: vectorized_aggregate_with_jit_def vectorized_compile_agg_jit_def jit_vectorized_aggregate_def option.map_comp
        sum.map_comp o_def id_def)
qed

theorem jit_aggregate_equals_interpreted_witness:
  "vectorized_aggregate_with_jit sample_math True (\<lambda>_. True) True (agg_start VECTORIZED_AGG_SUM 0 VECTORIZED_TYPE_INT64) wide_batch
     (vectorized_compile_agg_jit True (agg_start VECTORIZED_AGG_SUM 0 VECTORIZED_TYPE_INT64)) =
   vectorized_aggregate_with_jit sample_math True (\<lambda>_. True) False (agg_start VECTORIZED_AGG_SUM 0 VECTORIZED_TYPE_INT64)
     wide_batch None"
  by (rule jit_aggregate_equals_interpreted) (simp add: agg_start_def)

text \<open>the cache compares 32-bit hashes only. After the 64-bit integer column 93 was compiled, the filter on the boolean
  column 0 is taken for it and has no mask function: every active row passes.\<close>

theorem hash_collision_disables_filter:
  assumes wf: "batch_wf b"
  shows "\<exists>ctx' f f' b'. jit_compile_filter True
             (fst (jit_compile_expression True (jit_context_create cpu) (jit_expr_column 93 VECTORIZED_TYPE_INT64)))
             (jit_expr_column 0 VECTORIZED_TYPE_BOOL) = (ctx', Some f) \<and>
           jit_execute_filter fm avx2 garbage f b = Some (f', b') \<and> active b' = active b"
proof -
  obtain ctx' f where f: "jit_compile_filter True
        (fst (jit_compile_expression True (jit_context_create cpu) (jit_expr_column 93 VECTORIZED_TYPE_INT64)))
        (jit_expr_column 0 VECTORIZED_TYPE_BOOL) = (ctx', Some f)" "jf_filter_fn f = None" "\<not> jf_complex_filter_fn f"
    by (simp add: jit_compile_filter_def jit_compile_expression_def jit_context_create_def jit_context_create_with_options_def
        jit_can_compile_expression.simps jit_compute_expr_hash.simps compile_tree_def builder_defs expr_type_code_def
        data_type_code_def Let_def)
  then have "run_filter fm avx2 f b m = Some m" for m by (simp add: run_filter_def)
  with f(1) show ?thesis using no_function.executes [OF wf, of fm avx2 f garbage] by auto
qed

theorem hash_collision_disables_filter_witness:
  "\<exists>ctx' f f' b'. jit_compile_filter True
       (fst (jit_compile_expression True (jit_context_create True) (jit_expr_column 93 VECTORIZED_TYPE_INT64)))
       (jit_expr_column 0 VECTORIZED_TYPE_BOOL) = (ctx', Some f) \<and>
     jit_execute_filter sample_math True (\<lambda>_. True) f sample_batch = Some (f', b') \<and> active b' = [0, 1, 3, 4]"
  using hash_collision_disables_filter [OF sample_batch_wf, of True sample_math True "\<lambda>_. True"]
  by (simp add: sample_batch_active)

end
