(* ===== verification/Slots.thy ===== *)
theory Slots
  imports Prelude
begin

text \<open>
  Fixed arrays of slots in shared memory, as the workload manager, the governor and the caches keep them: searching
  the first slot that satisfies a condition, changing it, and how counts and sums over all slots move with one slot.
  Also 64-bit arithmetic that wraps (the extension is compiled with \<^verbatim>\<open>-fwrapv\<close>) and names that ignore case.
\<close>

section \<open>64-bit integers\<close>

definition wrap_i64 :: "int \<Rightarrow> int" where
  "wrap_i64 x = (x + 9223372036854775808) mod 18446744073709551616 - 9223372036854775808"

lemma wrap_i64_id [simp]: "is_i64 x \<Longrightarrow> wrap_i64 x = x"
  by (simp add: wrap_i64_def)

lemma wrap_i64_range: "is_i64 (wrap_i64 x)"
  using pos_mod_bound [of 18446744073709551616 "x + 9223372036854775808"]
    pos_mod_sign [of 18446744073709551616 "x + 9223372036854775808"]
  unfolding wrap_i64_def by linarith

section \<open>The first slot that satisfies a condition\<close>

fun find_index :: "('a \<Rightarrow> bool) \<Rightarrow> 'a list \<Rightarrow> nat option" where
  "find_index P [] = None"
| "find_index P (x # xs) = (if P x then Some 0 else map_option Suc (find_index P xs))"

text \<open>\<^verbatim>\<open>for (i ...) if (P) { ...; break; }\<close>.\<close>

definition modify_first :: "('a \<Rightarrow> bool) \<Rightarrow> ('a \<Rightarrow> 'a) \<Rightarrow> 'a list \<Rightarrow> 'a list" where
  "modify_first P f xs = (case find_index P xs of None \<Rightarrow> xs | Some i \<Rightarrow> xs[i := f (xs ! i)])"

lemma find_index_Some:
  "find_index P xs = Some i \<longleftrightarrow> i < length xs \<and> P (xs ! i) \<and> (\<forall>j < i. \<not> P (xs ! j))"
  by (induction xs arbitrary: i) (auto simp: less_Suc_eq_0_disj nth_Cons split: nat.splits)

lemma find_index_None: "find_index P xs = None \<longleftrightarrow> (\<forall>x \<in> set xs. \<not> P x)"
  by (induction xs) auto

lemma find_index_SomeD: "find_index P xs = Some i \<Longrightarrow> i < length xs \<and> P (xs ! i)"
  by (simp add: find_index_Some)

lemma find_index_cong: "(\<And>x. x \<in> set xs \<Longrightarrow> P x = Q x) \<Longrightarrow> find_index P xs = find_index Q xs"
  by (induction xs) auto

lemma find_index_unique:
  assumes "i < length xs" "P (xs ! i)" "\<And>j. j < length xs \<Longrightarrow> P (xs ! j) \<Longrightarrow> j = i"
  shows "find_index P xs = Some i"
proof -
  have "\<not> P (xs ! j)" if "j < i" for j using assms(1) assms(3) [of j] that by auto
  with assms(1,2) show ?thesis by (simp add: find_index_Some)
qed

lemma find_index_map: "find_index P (map f xs) = find_index (P \<circ> f) xs"
  by (induction xs) auto

lemma find_index_update_same:
  assumes "i < length xs" "P v = P (xs ! i)"
  shows "find_index P (xs[i := v]) = find_index P xs"
  using assms by (induction xs arbitrary: i) (auto split: nat.splits)

lemma find_conv_index: "find P xs = map_option ((!) xs) (find_index P xs)"
  by (induction xs) (auto simp: option.map_comp o_def)

lemma length_modify_first [simp]: "length (modify_first P f xs) = length xs"
  by (simp add: modify_first_def split: option.splits)

lemma modify_first_None: "find_index P xs = None \<Longrightarrow> modify_first P f xs = xs"
  by (simp add: modify_first_def)

lemma modify_first_Some: "find_index P xs = Some i \<Longrightarrow> modify_first P f xs = xs[i := f (xs ! i)]"
  by (simp add: modify_first_def)

lemma map_modify_first: "(\<And>x. g (f x) = g x) \<Longrightarrow> map g (modify_first P f xs) = map g xs"
  by (auto simp: modify_first_def map_update list_update_same_conv find_index_Some split: option.splits)

section \<open>Counts and sums over all slots\<close>

definition count_if :: "('a \<Rightarrow> bool) \<Rightarrow> 'a list \<Rightarrow> int" where
  "count_if P xs = int (length (filter P xs))"

lemma count_if_Nil [simp]: "count_if P [] = 0"
  by (simp add: count_if_def)

lemma count_if_Cons [simp]: "count_if P (x # xs) = of_bool (P x) + count_if P xs"
  by (simp add: count_if_def)

lemma count_if_update:
  "i < length xs \<Longrightarrow> count_if P (xs[i := v]) = count_if P xs - of_bool (P (xs ! i)) + of_bool (P v)"
  by (induction xs arbitrary: i) (auto split: nat.splits)

lemma count_if_nonneg: "0 \<le> count_if P xs"
  by (simp add: count_if_def)

lemma count_if_0: "count_if P xs = 0 \<longleftrightarrow> (\<forall>x \<in> set xs. \<not> P x)"
  by (auto simp: count_if_def filter_empty_conv)

lemma count_if_replicate: "\<not> P x \<Longrightarrow> count_if P (replicate n x) = 0"
  by (simp add: count_if_def)

definition sum_slots :: "('a \<Rightarrow> int) \<Rightarrow> 'a list \<Rightarrow> int" where
  "sum_slots f xs = sum_list (map f xs)"

lemma sum_slots_Nil [simp]: "sum_slots f [] = 0"
  by (simp add: sum_slots_def)

lemma sum_slots_Cons [simp]: "sum_slots f (x # xs) = f x + sum_slots f xs"
  by (simp add: sum_slots_def)

lemma sum_slots_update: "i < length xs \<Longrightarrow> sum_slots f (xs[i := v]) = sum_slots f xs - f (xs ! i) + f v"
  by (induction xs arbitrary: i) (auto split: nat.splits)

lemma sum_slots_replicate: "f x = 0 \<Longrightarrow> sum_slots f (replicate n x) = 0"
  by (induction n) auto

lemma set_update_all: "(\<forall>x \<in> set xs. P x) \<Longrightarrow> P v \<Longrightarrow> \<forall>x \<in> set (xs[i := v]). P x"
  using set_update_subset_insert [of xs i v] by auto

section \<open>Names that ignore case\<close>

definition lower :: "char \<Rightarrow> char" where
  "lower c = (let n = of_char c :: nat in if 65 \<le> n \<and> n \<le> 90 then char_of (n + 32) else c)"

definition same_name :: "string \<Rightarrow> string \<Rightarrow> bool" where
  "same_name a b = (map lower a = map lower b)"

end
