(* ===== verification/Workload.thy ===== *)
theory Workload
  imports Slots
begin

text \<open>
  The workload manager (\<^verbatim>\<open>workload/workload.c\<close>, \<^verbatim>\<open>workload/workload.h\<close>): resource pools, workload classes, admission of
  queries, the waiting queue and the sessions, all of them arrays of slots in shared memory.

  Every function runs under a lock of the shared state, so a call is one step. A free slot is one whose id (pid) is 0.
  The counters that hand out ids are static variables, one copy per process: the record \<open>workload_statics\<close>. The clock
  is the argument \<open>now\<close>, the GUC variables the record \<open>workload_gucs\<close>. Locks are left out; the shared segment is
  attached (\<^verbatim>\<open>WorkloadState\<close> is not NULL).
\<close>

section \<open>The shared state\<close>

abbreviation (input) WORKLOAD_MAX_POOLS :: nat where "WORKLOAD_MAX_POOLS \<equiv> 32"
abbreviation (input) WORKLOAD_MAX_CLASSES :: nat where "WORKLOAD_MAX_CLASSES \<equiv> 64"
abbreviation (input) WORKLOAD_MAX_SESSIONS :: nat where "WORKLOAD_MAX_SESSIONS \<equiv> 1024"
abbreviation (input) WORKLOAD_QUEUE_SIZE :: nat where "WORKLOAD_QUEUE_SIZE \<equiv> 1024"
abbreviation (input) WORKLOAD_MAX_POOL_NAME :: nat where "WORKLOAD_MAX_POOL_NAME \<equiv> 64"
abbreviation (input) WORKLOAD_MAX_CLASS_NAME :: nat where "WORKLOAD_MAX_CLASS_NAME \<equiv> 64"
abbreviation (input) WORKLOAD_SESSION_IDLE_TIMEOUT :: int where "WORKLOAD_SESSION_IDLE_TIMEOUT \<equiv> 1800000000"

datatype QueryPriority = QUERY_PRIORITY_LOW | QUERY_PRIORITY_NORMAL | QUERY_PRIORITY_HIGH | QUERY_PRIORITY_CRITICAL

text \<open>The enumeration is ordered by its numbers.\<close>

fun priority_number :: "QueryPriority \<Rightarrow> int" where
  "priority_number QUERY_PRIORITY_LOW = 0"
| "priority_number QUERY_PRIORITY_NORMAL = 1"
| "priority_number QUERY_PRIORITY_HIGH = 2"
| "priority_number QUERY_PRIORITY_CRITICAL = 3"

instantiation QueryPriority :: linorder
begin

definition less_eq_QueryPriority :: "QueryPriority \<Rightarrow> QueryPriority \<Rightarrow> bool" where
  "less_eq_QueryPriority p q = (priority_number p \<le> priority_number q)"

definition less_QueryPriority :: "QueryPriority \<Rightarrow> QueryPriority \<Rightarrow> bool" where
  "less_QueryPriority p q = (priority_number p < priority_number q)"

instance
proof
  fix p q :: QueryPriority assume "p \<le> q" "q \<le> p"
  then show "p = q" unfolding less_eq_QueryPriority_def by (cases p; cases q; simp)
qed (auto simp: less_eq_QueryPriority_def less_QueryPriority_def)

end

datatype ResourcePoolState = POOL_STATE_ACTIVE | POOL_STATE_DRAINING | POOL_STATE_DISABLED

datatype WorkloadClassState = CLASS_STATE_ACTIVE | CLASS_STATE_DISABLED

record ResourceLimits =
  rl_cpu_percent :: int
  rl_memory_mb :: int
  rl_io_read_mbps :: int
  rl_io_write_mbps :: int
  rl_max_concurrency :: int
  rl_max_queue_size :: int
  rl_query_timeout_ms :: int
  rl_idle_timeout_ms :: int

record ResourceUsage =
  ru_cpu_time_us :: int
  ru_memory_bytes :: int
  ru_peak_memory_bytes :: int
  ru_io_read_bytes :: int
  ru_io_write_bytes :: int
  ru_queries_executed :: int
  ru_queries_queued :: int
  ru_queries_rejected :: int
  ru_last_updated :: int

record ResourcePool =
  rp_pool_id :: int
  rp_pool_name :: string
  rp_limits :: ResourceLimits
  rp_usage :: ResourceUsage
  rp_state :: ResourcePoolState
  rp_active_queries :: int
  rp_queued_queries :: int
  rp_priority_weight :: int
  rp_is_internal :: bool
  rp_created_at :: int

record WorkloadClass =
  wc_class_id :: int
  wc_class_name :: string
  wc_pool_id :: int
  wc_default_priority :: QueryPriority
  wc_limits :: ResourceLimits
  wc_state :: WorkloadClassState
  wc_queries_executed :: int
  wc_queries_rejected :: int
  wc_created_at :: int

record QueryEntry =
  qe_backend_pid :: int
  qe_pool_id :: int
  qe_class_id :: int
  qe_priority :: QueryPriority
  qe_enqueue_time :: int
  qe_start_time :: int
  qe_estimated_cost :: int
  qe_memory_requested :: int
  qe_is_active :: bool

record SessionResourceTracker =
  st_backend_pid :: int
  st_pool_id :: int
  st_class_id :: int
  st_usage :: ResourceUsage
  st_active_queries :: int
  st_session_start :: int
  st_last_activity :: int
  st_is_active :: bool

record WorkloadSharedState =
  ws_num_pools :: int
  ws_num_classes :: int
  ws_num_sessions :: int
  ws_total_active_queries :: int
  ws_total_queued_queries :: int
  ws_pools :: "ResourcePool list"
  ws_classes :: "WorkloadClass list"
  ws_queue :: "QueryEntry list"
  ws_sessions :: "SessionResourceTracker list"
  ws_is_initialized :: bool

record workload_gucs =
  workload_enabled :: bool
  default_pool_concurrency :: int
  default_query_timeout_ms :: int

record workload_statics =
  next_pool_id :: int
  next_class_id :: int

text \<open>What \<^verbatim>\<open>memset(..., 0, ...)\<close> leaves.\<close>

definition zero_limits :: ResourceLimits where
  "zero_limits = \<lparr>rl_cpu_percent = 0, rl_memory_mb = 0, rl_io_read_mbps = 0, rl_io_write_mbps = 0, rl_max_concurrency = 0,
     rl_max_queue_size = 0, rl_query_timeout_ms = 0, rl_idle_timeout_ms = 0\<rparr>"

definition zero_usage :: ResourceUsage where
  "zero_usage = \<lparr>ru_cpu_time_us = 0, ru_memory_bytes = 0, ru_peak_memory_bytes = 0, ru_io_read_bytes = 0, ru_io_write_bytes = 0,
     ru_queries_executed = 0, ru_queries_queued = 0, ru_queries_rejected = 0, ru_last_updated = 0\<rparr>"

definition free_pool :: ResourcePool where
  "free_pool = \<lparr>rp_pool_id = 0, rp_pool_name = [], rp_limits = zero_limits, rp_usage = zero_usage, rp_state = POOL_STATE_ACTIVE,
     rp_active_queries = 0, rp_queued_queries = 0, rp_priority_weight = 0, rp_is_internal = False, rp_created_at = 0\<rparr>"

definition free_class :: WorkloadClass where
  "free_class = \<lparr>wc_class_id = 0, wc_class_name = [], wc_pool_id = 0, wc_default_priority = QUERY_PRIORITY_LOW,
     wc_limits = zero_limits, wc_state = CLASS_STATE_ACTIVE, wc_queries_executed = 0, wc_queries_rejected = 0, wc_created_at = 0\<rparr>"

definition free_entry :: QueryEntry where
  "free_entry = \<lparr>qe_backend_pid = 0, qe_pool_id = 0, qe_class_id = 0, qe_priority = QUERY_PRIORITY_LOW, qe_enqueue_time = 0,
     qe_start_time = 0, qe_estimated_cost = 0, qe_memory_requested = 0, qe_is_active = False\<rparr>"

definition free_session :: SessionResourceTracker where
  "free_session = \<lparr>st_backend_pid = 0, st_pool_id = 0, st_class_id = 0, st_usage = zero_usage, st_active_queries = 0,
     st_session_start = 0, st_last_activity = 0, st_is_active = False\<rparr>"

definition initial_workload :: WorkloadSharedState where
  "initial_workload =
     \<lparr>ws_num_pools = 0, ws_num_classes = 0, ws_num_sessions = 0, ws_total_active_queries = 0, ws_total_queued_queries = 0,
      ws_pools = replicate WORKLOAD_MAX_POOLS free_pool, ws_classes = replicate WORKLOAD_MAX_CLASSES free_class,
      ws_queue = replicate WORKLOAD_QUEUE_SIZE free_entry, ws_sessions = replicate WORKLOAD_MAX_SESSIONS free_session,
      ws_is_initialized = True\<rparr>"

section \<open>Resource pools\<close>

definition orochi_validate_limits :: "ResourceLimits option \<Rightarrow> bool" where
  "orochi_validate_limits limits =
     (case limits of
        None \<Rightarrow> True
      | Some l \<Rightarrow> 0 \<le> rl_cpu_percent l \<and> rl_cpu_percent l \<le> 100 \<and> 0 \<le> rl_memory_mb l \<and> 0 \<le> rl_max_concurrency l \<and>
                  0 \<le> rl_query_timeout_ms l)"

definition orochi_create_default_limits :: "workload_gucs \<Rightarrow> ResourceLimits" where
  "orochi_create_default_limits g = zero_limits\<lparr>rl_cpu_percent := 100, rl_query_timeout_ms := default_query_timeout_ms g\<rparr>"

definition orochi_copy_limits :: "ResourceLimits option \<Rightarrow> ResourceLimits option \<Rightarrow> ResourceLimits option" where
  "orochi_copy_limits dst src = (if dst \<noteq> None \<and> src \<noteq> None then src else dst)"

definition allocate_pool_id :: "workload_statics \<Rightarrow> int \<times> workload_statics" where
  "allocate_pool_id st = (next_pool_id st, st\<lparr>next_pool_id := next_pool_id st + 1\<rparr>)"

definition find_free_pool_slot :: "WorkloadSharedState \<Rightarrow> nat option" where
  "find_free_pool_slot s = find_index (\<lambda>p. rp_pool_id p = 0) (ws_pools s)"

text \<open>The search that opens most functions, and a change of the pool found.\<close>

definition find_pool :: "WorkloadSharedState \<Rightarrow> int \<Rightarrow> nat option" where
  "find_pool s pool_id = find_index (\<lambda>p. rp_pool_id p = pool_id) (ws_pools s)"

definition update_pool :: "int \<Rightarrow> (ResourcePool \<Rightarrow> ResourcePool) \<Rightarrow> WorkloadSharedState \<Rightarrow> WorkloadSharedState" where
  "update_pool pool_id f s = s\<lparr>ws_pools := modify_first (\<lambda>p. rp_pool_id p = pool_id) f (ws_pools s)\<rparr>"

definition orochi_create_resource_pool ::
  "workload_gucs \<Rightarrow> int \<Rightarrow> workload_statics \<Rightarrow> string \<Rightarrow> ResourceLimits option \<Rightarrow> int \<Rightarrow> WorkloadSharedState \<Rightarrow>
   pg_error + (workload_statics \<times> WorkloadSharedState \<times> int)" where
  "orochi_create_resource_pool g now st pool_name limits priority_weight s =
     (if pool_name = [] then Inl (ERROR ''pool name cannot be empty'')
      else if length pool_name \<ge> WORKLOAD_MAX_POOL_NAME then Inl (ERROR ''pool name too long'')
      else if list_ex (\<lambda>p. rp_pool_id p \<noteq> 0 \<and> rp_pool_name p = pool_name) (take (nat (ws_num_pools s)) (ws_pools s))
      then Inl (ERROR ''resource pool already exists'')
      else case find_free_pool_slot s of
             None \<Rightarrow> Inl (ERROR ''maximum number of resource pools reached'')
           | Some i \<Rightarrow>
               let (pool_id, st) = allocate_pool_id st;
                   pool = (ws_pools s ! i)
                     \<lparr>rp_pool_id := pool_id, rp_pool_name := pool_name,
                      rp_limits := (case limits of
                                      Some l \<Rightarrow> l
                                    | None \<Rightarrow> zero_limits\<lparr>rl_cpu_percent := 100,
                                                          rl_query_timeout_ms := default_query_timeout_ms g\<rparr>),
                      rp_usage := zero_usage, rp_state := POOL_STATE_ACTIVE, rp_active_queries := 0, rp_queued_queries := 0,
                      rp_priority_weight := (if priority_weight > 0 then priority_weight else 50), rp_is_internal := False,
                      rp_created_at := now\<rparr>
               in Inr (st, s\<lparr>ws_pools := (ws_pools s)[i := pool], ws_num_pools := ws_num_pools s + 1\<rparr>, pool_id))"

definition orochi_alter_resource_pool ::
  "int \<Rightarrow> ResourceLimits option \<Rightarrow> int \<Rightarrow> WorkloadSharedState \<Rightarrow> pg_error + (WorkloadSharedState \<times> bool)" where
  "orochi_alter_resource_pool pool_id new_limits priority_weight s =
     (if find_pool s pool_id = None then Inl (ERROR ''resource pool does not exist'')
      else if \<not> orochi_validate_limits new_limits then Inl (ERROR ''invalid resource limits'')
      else Inr (update_pool pool_id
                  (\<lambda>p. p\<lparr>rp_limits := (case new_limits of Some l \<Rightarrow> l | None \<Rightarrow> rp_limits p),
                         rp_priority_weight := (if priority_weight > 0 then priority_weight else rp_priority_weight p)\<rparr>) s, True))"

definition orochi_drop_resource_pool ::
  "int \<Rightarrow> bool \<Rightarrow> WorkloadSharedState \<Rightarrow> pg_error + (WorkloadSharedState \<times> bool)" where
  "orochi_drop_resource_pool pool_id if_exists s =
     (case find_pool s pool_id of
        None \<Rightarrow> if if_exists then Inr (s, False) else Inl (ERROR ''resource pool does not exist'')
      | Some i \<Rightarrow>
          if rp_is_internal (ws_pools s ! i) then Inl (ERROR ''cannot drop internal resource pool'')
          else if rp_active_queries (ws_pools s ! i) > 0 then Inl (ERROR ''resource pool has active queries'')
          else Inr (s\<lparr>ws_pools := (ws_pools s)[i := free_pool], ws_num_pools := ws_num_pools s - 1\<rparr>, True))"

definition orochi_get_resource_pool :: "WorkloadSharedState \<Rightarrow> int \<Rightarrow> ResourcePool option" where
  "orochi_get_resource_pool s pool_id = find (\<lambda>p. rp_pool_id p = pool_id) (ws_pools s)"

definition orochi_get_resource_pool_by_name :: "WorkloadSharedState \<Rightarrow> string \<Rightarrow> ResourcePool option" where
  "orochi_get_resource_pool_by_name s pool_name = find (\<lambda>p. rp_pool_id p \<noteq> 0 \<and> rp_pool_name p = pool_name) (ws_pools s)"

definition orochi_list_resource_pools :: "WorkloadSharedState \<Rightarrow> ResourcePool list" where
  "orochi_list_resource_pools s = filter (\<lambda>p. rp_pool_id p \<noteq> 0) (ws_pools s)"

definition orochi_enable_resource_pool :: "int \<Rightarrow> WorkloadSharedState \<Rightarrow> WorkloadSharedState \<times> bool" where
  "orochi_enable_resource_pool pool_id s =
     (update_pool pool_id (\<lambda>p. p\<lparr>rp_state := POOL_STATE_ACTIVE\<rparr>) s, find_pool s pool_id \<noteq> None)"

definition orochi_disable_resource_pool :: "int \<Rightarrow> WorkloadSharedState \<Rightarrow> pg_error + (WorkloadSharedState \<times> bool)" where
  "orochi_disable_resource_pool pool_id s =
     (case find_pool s pool_id of
        None \<Rightarrow> Inr (s, False)
      | Some i \<Rightarrow>
          if rp_is_internal (ws_pools s ! i) then Inl (ERROR ''cannot disable internal pool'')
          else Inr (update_pool pool_id (\<lambda>p. p\<lparr>rp_state := POOL_STATE_DRAINING\<rparr>) s, True))"

definition orochi_get_pool_usage :: "WorkloadSharedState \<Rightarrow> int \<Rightarrow> ResourceUsage option" where
  "orochi_get_pool_usage s pool_id = map_option rp_usage (orochi_get_resource_pool s pool_id)"

text \<open>The first two pools, marked as internal, and the state after startup.\<close>

definition mark_internal :: "WorkloadSharedState \<Rightarrow> WorkloadSharedState" where
  "mark_internal s =
     (let k = nat (ws_num_pools s) in
      s\<lparr>ws_pools := update_where (\<lambda>p. rp_pool_name p = ''default'' \<or> rp_pool_name p = ''admin'')
                      (\<lambda>p. p\<lparr>rp_is_internal := True\<rparr>) (take k (ws_pools s)) @ drop k (ws_pools s)\<rparr>)"

definition init_default_pools ::
  "workload_gucs \<Rightarrow> int \<Rightarrow> workload_statics \<Rightarrow> WorkloadSharedState \<Rightarrow> pg_error + (workload_statics \<times> WorkloadSharedState)" where
  "init_default_pools g now st s =
     (case orochi_create_resource_pool g now st ''default''
             (Some (zero_limits\<lparr>rl_cpu_percent := 100, rl_max_concurrency := default_pool_concurrency g,
                               rl_query_timeout_ms := default_query_timeout_ms g\<rparr>)) 50 s of
        Inl e \<Rightarrow> Inl e
      | Inr (st, s, _) \<Rightarrow>
          (case orochi_create_resource_pool g now st ''admin'' (Some (zero_limits\<lparr>rl_cpu_percent := 100\<rparr>)) 100 s of
             Inl e \<Rightarrow> Inl e
           | Inr (st, s, _) \<Rightarrow> Inr (st, mark_internal s)))"

definition orochi_workload_shmem_startup :: "workload_gucs \<Rightarrow> int \<Rightarrow> pg_error + (workload_statics \<times> WorkloadSharedState)" where
  "orochi_workload_shmem_startup g now = init_default_pools g now \<lparr>next_pool_id = 1, next_class_id = 1\<rparr> initial_workload"

section \<open>Workload classes\<close>

definition allocate_class_id :: "workload_statics \<Rightarrow> int \<times> workload_statics" where
  "allocate_class_id st = (next_class_id st, st\<lparr>next_class_id := next_class_id st + 1\<rparr>)"

definition find_free_class_slot :: "WorkloadSharedState \<Rightarrow> nat option" where
  "find_free_class_slot s = find_index (\<lambda>c. wc_class_id c = 0) (ws_classes s)"

definition find_class :: "WorkloadSharedState \<Rightarrow> int \<Rightarrow> nat option" where
  "find_class s class_id = find_index (\<lambda>c. wc_class_id c = class_id) (ws_classes s)"

definition orochi_create_workload_class ::
  "int \<Rightarrow> workload_statics \<Rightarrow> string \<Rightarrow> int \<Rightarrow> QueryPriority \<Rightarrow> ResourceLimits option \<Rightarrow> WorkloadSharedState \<Rightarrow>
   pg_error + (workload_statics \<times> WorkloadSharedState \<times> int)" where
  "orochi_create_workload_class now st class_name pool_id default_priority limits s =
     (if class_name = [] then Inl (ERROR ''class name cannot be empty'')
      else if find_pool s pool_id = None then Inl (ERROR ''resource pool does not exist'')
      else if list_ex (\<lambda>c. wc_class_id c \<noteq> 0 \<and> wc_class_name c = class_name) (ws_classes s)
      then Inl (ERROR ''workload class already exists'')
      else case find_free_class_slot s of
             None \<Rightarrow> Inl (ERROR ''maximum number of workload classes reached'')
           | Some i \<Rightarrow>
               let (class_id, st) = allocate_class_id st;
                   c = \<lparr>wc_class_id = class_id, wc_class_name = take (WORKLOAD_MAX_CLASS_NAME - 1) class_name,
                        wc_pool_id = pool_id, wc_default_priority = default_priority,
                        wc_limits = (case limits of Some l \<Rightarrow> l | None \<Rightarrow> zero_limits), wc_state = CLASS_STATE_ACTIVE,
                        wc_queries_executed = 0, wc_queries_rejected = 0, wc_created_at = now\<rparr>
               in Inr (st, s\<lparr>ws_classes := (ws_classes s)[i := c], ws_num_classes := ws_num_classes s + 1\<rparr>, class_id))"

definition orochi_alter_workload_class ::
  "int \<Rightarrow> int \<Rightarrow> QueryPriority \<Rightarrow> ResourceLimits option \<Rightarrow> WorkloadSharedState \<Rightarrow> pg_error + (WorkloadSharedState \<times> bool)" where
  "orochi_alter_workload_class class_id pool_id priority limits s =
     (case find_class s class_id of
        None \<Rightarrow> Inl (ERROR ''workload class does not exist'')
      | Some i \<Rightarrow>
          if pool_id > 0 \<and> find_pool s pool_id = None then Inl (ERROR ''resource pool does not exist'')
          else let c = ws_classes s ! i;
                   c = (if pool_id > 0 then c\<lparr>wc_pool_id := pool_id\<rparr> else c);
                   c = c\<lparr>wc_default_priority := priority, wc_limits := (case limits of Some l \<Rightarrow> l | None \<Rightarrow> wc_limits c)\<rparr>
               in Inr (s\<lparr>ws_classes := (ws_classes s)[i := c]\<rparr>, True))"

definition orochi_drop_workload_class ::
  "int \<Rightarrow> bool \<Rightarrow> WorkloadSharedState \<Rightarrow> pg_error + (WorkloadSharedState \<times> bool)" where
  "orochi_drop_workload_class class_id if_exists s =
     (case find_class s class_id of
        None \<Rightarrow> if if_exists then Inr (s, False) else Inl (ERROR ''workload class does not exist'')
      | Some i \<Rightarrow> Inr (s\<lparr>ws_classes := (ws_classes s)[i := free_class], ws_num_classes := ws_num_classes s - 1\<rparr>, True))"

definition orochi_get_workload_class :: "WorkloadSharedState \<Rightarrow> int \<Rightarrow> WorkloadClass option" where
  "orochi_get_workload_class s class_id = find (\<lambda>c. wc_class_id c = class_id) (ws_classes s)"

definition orochi_get_workload_class_by_name :: "WorkloadSharedState \<Rightarrow> string \<Rightarrow> WorkloadClass option" where
  "orochi_get_workload_class_by_name s class_name =
     find (\<lambda>c. wc_class_id c \<noteq> 0 \<and> wc_class_name c = class_name) (ws_classes s)"

definition orochi_list_workload_classes :: "WorkloadSharedState \<Rightarrow> WorkloadClass list" where
  "orochi_list_workload_classes s = filter (\<lambda>c. wc_class_id c \<noteq> 0) (ws_classes s)"

section \<open>Admission and the waiting queue\<close>

definition check_pool_resources :: "ResourcePool \<Rightarrow> int \<Rightarrow> bool" where
  "check_pool_resources pool memory_requested =
     (if rl_max_concurrency (rp_limits pool) > 0 \<and> rp_active_queries pool \<ge> rl_max_concurrency (rp_limits pool) then False
      else if rl_memory_mb (rp_limits pool) > 0
      then let available = wrap_i64 (wrap_i64 (rl_memory_mb (rp_limits pool) * 1024 * 1024) - ru_memory_bytes (rp_usage pool))
           in \<not> memory_requested > available
      else True)"

definition admit_in_pool :: "int \<Rightarrow> ResourcePool \<Rightarrow> ResourcePool" where
  "admit_in_pool memory_requested p =
     p\<lparr>rp_active_queries := rp_active_queries p + 1,
       rp_usage := (rp_usage p)\<lparr>ru_queries_executed := ru_queries_executed (rp_usage p) + 1,
                                ru_memory_bytes := wrap_i64 (ru_memory_bytes (rp_usage p) + memory_requested)\<rparr>\<rparr>"

definition orochi_admit_query ::
  "workload_gucs \<Rightarrow> int \<Rightarrow> int \<Rightarrow> QueryPriority \<Rightarrow> int \<Rightarrow> int \<Rightarrow> WorkloadSharedState \<Rightarrow> WorkloadSharedState \<times> bool" where
  "orochi_admit_query g backend_pid pool_id priority estimated_cost memory_requested s =
     (if \<not> workload_enabled g then (s, True)
      else case find_pool s pool_id of
             None \<Rightarrow> (s, True)
           | Some i \<Rightarrow>
               let pool = ws_pools s ! i in
               if rp_state pool \<noteq> POOL_STATE_ACTIVE then (s, False)
               else if check_pool_resources pool memory_requested
               then ((update_pool pool_id (admit_in_pool memory_requested) s)
                       \<lparr>ws_total_active_queries := ws_total_active_queries s + 1\<rparr>, True)
               else (update_pool pool_id
                       (\<lambda>p. p\<lparr>rp_usage := (rp_usage p)\<lparr>ru_queries_queued := ru_queries_queued (rp_usage p) + 1\<rparr>\<rparr>) s, False))"

definition find_queue_slot :: "WorkloadSharedState \<Rightarrow> nat option" where
  "find_queue_slot s = find_index (\<lambda>e. qe_backend_pid e = 0) (ws_queue s)"

definition orochi_queue_query ::
  "int \<Rightarrow> int \<Rightarrow> int \<Rightarrow> QueryPriority \<Rightarrow> int \<Rightarrow> WorkloadSharedState \<Rightarrow> WorkloadSharedState \<times> bool" where
  "orochi_queue_query now backend_pid pool_id priority estimated_cost s =
     (case find_pool s pool_id of
        None \<Rightarrow> (s, False)
      | Some i \<Rightarrow>
          let pool = ws_pools s ! i in
          if rl_max_queue_size (rp_limits pool) > 0 \<and> rp_queued_queries pool \<ge> rl_max_queue_size (rp_limits pool)
          then (update_pool pool_id
                  (\<lambda>p. p\<lparr>rp_usage := (rp_usage p)\<lparr>ru_queries_rejected := ru_queries_rejected (rp_usage p) + 1\<rparr>\<rparr>) s, False)
          else case find_queue_slot s of
                 None \<Rightarrow> (s, False)
               | Some k \<Rightarrow>
                   let entry = (ws_queue s ! k)\<lparr>qe_backend_pid := backend_pid, qe_pool_id := pool_id, qe_priority := priority,
                                 qe_enqueue_time := now, qe_start_time := 0, qe_estimated_cost := estimated_cost,
                                 qe_is_active := False\<rparr>
                   in ((update_pool pool_id (\<lambda>p. p\<lparr>rp_queued_queries := rp_queued_queries p + 1\<rparr>) s)
                         \<lparr>ws_queue := (ws_queue s)[k := entry], ws_total_queued_queries := ws_total_queued_queries s + 1\<rparr>, True))"

definition compare_query_priority :: "QueryEntry \<Rightarrow> QueryEntry \<Rightarrow> int" where
  "compare_query_priority qa qb =
     (if qe_priority qa \<noteq> qe_priority qb then priority_number (qe_priority qb) - priority_number (qe_priority qa)
      else if qe_enqueue_time qa < qe_enqueue_time qb then - 1
      else if qe_enqueue_time qa > qe_enqueue_time qb then 1
      else 0)"

definition update_pool_usage :: "int \<Rightarrow> ResourceUsage \<Rightarrow> ResourcePool \<Rightarrow> ResourcePool" where
  "update_pool_usage now delta p =
     (let u = rp_usage p;
          u = u\<lparr>ru_cpu_time_us := ru_cpu_time_us u + ru_cpu_time_us delta,
                ru_memory_bytes := wrap_i64 (ru_memory_bytes u + ru_memory_bytes delta),
                ru_io_read_bytes := ru_io_read_bytes u + ru_io_read_bytes delta,
                ru_io_write_bytes := ru_io_write_bytes u + ru_io_write_bytes delta,
                ru_queries_executed := ru_queries_executed u + ru_queries_executed delta,
                ru_queries_queued := ru_queries_queued u + ru_queries_queued delta,
                ru_queries_rejected := ru_queries_rejected u + ru_queries_rejected delta\<rparr>;
          u = (if ru_memory_bytes u > ru_peak_memory_bytes u then u\<lparr>ru_peak_memory_bytes := ru_memory_bytes u\<rparr> else u)
      in p\<lparr>rp_usage := u\<lparr>ru_last_updated := now\<rparr>\<rparr>)"

definition remove_from_queue :: "int \<Rightarrow> WorkloadSharedState \<Rightarrow> WorkloadSharedState" where
  "remove_from_queue backend_pid s =
     (case find_index (\<lambda>e. qe_backend_pid e = backend_pid) (ws_queue s) of
        None \<Rightarrow> s
      | Some i \<Rightarrow>
          (update_pool (qe_pool_id (ws_queue s ! i)) (\<lambda>p. p\<lparr>rp_queued_queries := rp_queued_queries p - 1\<rparr>) s)
            \<lparr>ws_queue := (ws_queue s)[i := free_entry], ws_total_queued_queries := ws_total_queued_queries s - 1\<rparr>)"

text \<open>The loop over the pools in \<^verbatim>\<open>orochi_release_query\<close> has an empty body.\<close>

definition orochi_release_query :: "workload_gucs \<Rightarrow> int \<Rightarrow> WorkloadSharedState \<Rightarrow> WorkloadSharedState" where
  "orochi_release_query g backend_pid s =
     (if \<not> workload_enabled g then s
      else let s = remove_from_queue backend_pid s in s\<lparr>ws_total_active_queries := ws_total_active_queries s - 1\<rparr>)"

text \<open>The search for the best waiting entry: \<open>best\<close> is its index.\<close>

definition is_waiting :: "int \<Rightarrow> QueryEntry \<Rightarrow> bool" where
  "is_waiting pool_id e = (qe_backend_pid e \<noteq> 0 \<and> qe_pool_id e = pool_id \<and> \<not> qe_is_active e)"

definition better_entry :: "QueryEntry \<Rightarrow> QueryEntry \<Rightarrow> bool" where
  "better_entry e best =
     (qe_priority e > qe_priority best \<or> qe_priority e = qe_priority best \<and> qe_enqueue_time e < qe_enqueue_time best)"

fun dequeue_scan :: "QueryEntry list \<Rightarrow> int \<Rightarrow> nat list \<Rightarrow> nat option \<Rightarrow> nat option" where
  "dequeue_scan q pool_id [] best = best"
| "dequeue_scan q pool_id (i # is) best =
     dequeue_scan q pool_id is
       (if is_waiting pool_id (q ! i) \<and> (case best of None \<Rightarrow> True | Some j \<Rightarrow> better_entry (q ! i) (q ! j)) then Some i else best)"

definition orochi_dequeue_next_query :: "int \<Rightarrow> int \<Rightarrow> WorkloadSharedState \<Rightarrow> WorkloadSharedState \<times> int option" where
  "orochi_dequeue_next_query now pool_id s =
     (case dequeue_scan (ws_queue s) pool_id [0..<length (ws_queue s)] None of
        None \<Rightarrow> (s, None)
      | Some i \<Rightarrow>
          ((update_pool pool_id (\<lambda>p. p\<lparr>rp_active_queries := rp_active_queries p + 1,
                                        rp_queued_queries := rp_queued_queries p - 1\<rparr>) s)
             \<lparr>ws_queue := (ws_queue s)[i := (ws_queue s ! i)\<lparr>qe_is_active := True, qe_start_time := now\<rparr>],
              ws_total_active_queries := ws_total_active_queries s + 1,
              ws_total_queued_queries := ws_total_queued_queries s - 1\<rparr>,
           Some (qe_backend_pid (ws_queue s ! i))))"

definition orochi_get_queue_length :: "WorkloadSharedState \<Rightarrow> int \<Rightarrow> int" where
  "orochi_get_queue_length s pool_id = (case orochi_get_resource_pool s pool_id of None \<Rightarrow> 0 | Some p \<Rightarrow> rp_queued_queries p)"

definition orochi_cancel_queued_query :: "int \<Rightarrow> WorkloadSharedState \<Rightarrow> WorkloadSharedState \<times> bool" where
  "orochi_cancel_queued_query backend_pid s =
     (if list_ex (\<lambda>e. qe_backend_pid e = backend_pid) (ws_queue s) then (remove_from_queue backend_pid s, True) else (s, False))"

text \<open>\<^verbatim>\<open>qsort\<close> of the C library is the parameter \<open>sort_by\<close>.\<close>

definition orochi_get_queued_queries ::
  "((QueryEntry \<Rightarrow> QueryEntry \<Rightarrow> int) \<Rightarrow> QueryEntry list \<Rightarrow> QueryEntry list) \<Rightarrow> WorkloadSharedState \<Rightarrow> int \<Rightarrow> QueryEntry list" where
  "orochi_get_queued_queries sort_by s pool_id =
     (if \<not> ws_is_initialized s then []
      else let queries = filter (\<lambda>e. qe_backend_pid e \<noteq> 0 \<and> (pool_id = 0 \<or> qe_pool_id e = pool_id) \<and> \<not> qe_is_active e) (ws_queue s)
           in if length queries > 1 then sort_by compare_query_priority queries else queries)"

definition drain_pool :: "ResourcePool \<Rightarrow> ResourcePool" where
  "drain_pool p =
     p\<lparr>rp_queued_queries := max 0 (rp_queued_queries p - 1),
       rp_usage := (rp_usage p)\<lparr>ru_queries_rejected := ru_queries_rejected (rp_usage p) + 1\<rparr>\<rparr>"

fun drain_loop :: "int \<Rightarrow> nat list \<Rightarrow> WorkloadSharedState \<times> int \<Rightarrow> WorkloadSharedState \<times> int" where
  "drain_loop pool_id [] r = r"
| "drain_loop pool_id (i # is) (s, drained) =
     (if is_waiting pool_id (ws_queue s ! i)
      then drain_loop pool_id is (update_pool pool_id drain_pool (s\<lparr>ws_queue := (ws_queue s)[i := free_entry]\<rparr>), drained + 1)
      else drain_loop pool_id is (s, drained))"

definition orochi_drain_pool_queue :: "int \<Rightarrow> WorkloadSharedState \<Rightarrow> WorkloadSharedState" where
  "orochi_drain_pool_queue pool_id s =
     (if \<not> ws_is_initialized s then s
      else let (s, drained) = drain_loop pool_id [0..<length (ws_queue s)] (s, 0)
           in s\<lparr>ws_total_queued_queries := max 0 (ws_total_queued_queries s - drained)\<rparr>)"

section \<open>Frames\<close>

lemma update_pool_frame [frame_simps]:
  "ws_queue (update_pool k f s) = ws_queue s" "ws_total_queued_queries (update_pool k f s) = ws_total_queued_queries s"
  "ws_total_active_queries (update_pool k f s) = ws_total_active_queries s" "ws_classes (update_pool k f s) = ws_classes s"
  "ws_sessions (update_pool k f s) = ws_sessions s" "ws_num_pools (update_pool k f s) = ws_num_pools s"
  "ws_is_initialized (update_pool k f s) = ws_is_initialized s"
  "ws_pools (update_pool k f s) = modify_first (\<lambda>p. rp_pool_id p = k) f (ws_pools s)"
  by (simp_all add: update_pool_def)

section \<open>The counters of waiting queries\<close>

definition unique_ids :: "ResourcePool list \<Rightarrow> bool" where
  "unique_ids ps = (\<forall>i < length ps. \<forall>j < length ps. rp_pool_id (ps ! i) = rp_pool_id (ps ! j) \<longrightarrow> rp_pool_id (ps ! i) \<noteq> 0 \<longrightarrow> i = j)"

definition counts_exact :: "ResourcePool list \<Rightarrow> QueryEntry list \<Rightarrow> bool" where
  "counts_exact ps q = (\<forall>p \<in> set ps. rp_pool_id p \<noteq> 0 \<longrightarrow> rp_queued_queries p = count_if (is_waiting (rp_pool_id p)) q)"

definition waits :: "QueryEntry \<Rightarrow> bool" where
  "waits e = (qe_backend_pid e \<noteq> 0 \<and> \<not> qe_is_active e)"

text \<open>No pool has the id and no query waits for it.\<close>

definition unused_id :: "int \<Rightarrow> WorkloadSharedState \<Rightarrow> bool" where
  "unused_id k s = ((\<forall>p \<in> set (ws_pools s). rp_pool_id p \<noteq> k) \<and> (\<forall>e \<in> set (ws_queue s). \<not> is_waiting k e))"

definition workload_inv :: "WorkloadSharedState \<Rightarrow> bool" where
  "workload_inv s =
     (unique_ids (ws_pools s) \<and> counts_exact (ws_pools s) (ws_queue s) \<and> ws_total_queued_queries s = count_if waits (ws_queue s))"

lemma unique_ids_map: "map rp_pool_id ps' = map rp_pool_id ps \<Longrightarrow> unique_ids ps' = unique_ids ps"
  by (metis (no_types, lifting) length_map nth_map unique_ids_def)

lemma unique_ids_update:
  assumes un: "unique_ids ps" and v: "rp_pool_id v = 0 \<or> (\<forall>p \<in> set ps. rp_pool_id p \<noteq> rp_pool_id v)"
  shows "unique_ids (ps[i := v])"
  unfolding unique_ids_def
proof (intro allI impI)
  fix a b assume ab: "a < length (ps[i := v])" "b < length (ps[i := v])"
    "rp_pool_id (ps[i := v] ! a) = rp_pool_id (ps[i := v] ! b)" "rp_pool_id (ps[i := v] ! a) \<noteq> 0"
  then have len: "a < length ps" "b < length ps" by simp_all
  show "a = b"
  proof (cases "a = i \<or> b = i")
    case True
    with ab len v show ?thesis by (cases "a = i"; cases "b = i") (auto dest: nth_mem)
  next
    case False
    with ab len un show ?thesis by (simp add: unique_ids_def)
  qed
qed

lemma ids_modify [simp]:
  assumes "\<And>p. rp_pool_id (f p) = rp_pool_id p"
  shows "unique_ids (modify_first P f ps) = unique_ids ps"
  using assms by (intro unique_ids_map map_modify_first)

text \<open>One pool counter moves with the number of entries that wait for that pool.\<close>

lemma counts_modify:
  assumes ex: "counts_exact ps q" and un: "unique_ids ps" and f: "\<And>p. rp_pool_id (f p) = rp_pool_id p"
    and other: "\<And>j. j \<noteq> k \<Longrightarrow> count_if (is_waiting j) q' = count_if (is_waiting j) q"
    and moved: "\<And>p. rp_pool_id p = k \<Longrightarrow> rp_queued_queries p = count_if (is_waiting k) q \<Longrightarrow>
                 rp_queued_queries (f p) = count_if (is_waiting k) q'"
  shows "counts_exact (modify_first (\<lambda>p. rp_pool_id p = k) f ps) q'"
proof (cases "find_index (\<lambda>p. rp_pool_id p = k) ps")
  case None
  with ex other show ?thesis by (auto simp: modify_first_None counts_exact_def find_index_None)
next
  case (Some i)
  note i = find_index_SomeD [OF Some]
  have "rp_queued_queries (ps[i := f (ps ! i)] ! j) = count_if (is_waiting (rp_pool_id (ps[i := f (ps ! i)] ! j))) q'"
    if j: "j < length ps" and nz: "rp_pool_id (ps[i := f (ps ! i)] ! j) \<noteq> 0" for j
  proof (cases "j = i")
    case True
    then show ?thesis using i ex nz f moved [of "ps ! i"] by (simp add: counts_exact_def)
  next
    case False
    then have "rp_pool_id (ps ! j) \<noteq> k" using un i j nz unfolding unique_ids_def by fastforce
    then show ?thesis using False j nz ex other by (simp add: counts_exact_def)
  qed
  then show ?thesis unfolding modify_first_Some [OF Some] counts_exact_def by (auto simp: all_set_conv_all_nth)
qed

lemma counts_keep:
  assumes "counts_exact ps q" "unique_ids ps" "\<And>p. rp_pool_id (f p) = rp_pool_id p"
    and "\<And>p. rp_queued_queries (f p) = rp_queued_queries p"
  shows "counts_exact (modify_first (\<lambda>p. rp_pool_id p = k) f ps) q"
  using assms by (intro counts_modify [where q = q]) auto

lemma inv_keep:
  assumes "workload_inv s" and "\<And>p. rp_pool_id (f p) = rp_pool_id p" and "\<And>p. rp_queued_queries (f p) = rp_queued_queries p"
  shows "workload_inv (update_pool k f s)"
  using assms by (auto simp: workload_inv_def frame_simps intro: counts_keep)

lemma inv_total_active [simp]: "workload_inv (s\<lparr>ws_total_active_queries := n\<rparr>) = workload_inv s"
  by (simp add: workload_inv_def)

text \<open>Replacing an entry changes the counts of the two pools concerned.\<close>

lemma inv_entry:
  assumes inv: "workload_inv s" and i: "i < length (ws_queue s)" and f: "\<And>p. rp_pool_id (f p) = rp_pool_id p"
    and other: "\<And>j. j \<noteq> k \<Longrightarrow> is_waiting j e = is_waiting j (ws_queue s ! i)"
    and q: "\<And>p. rp_queued_queries (f p) = rp_queued_queries p + of_bool (is_waiting k e) - of_bool (is_waiting k (ws_queue s ! i))"
    and t: "t = ws_total_queued_queries s + of_bool (waits e) - of_bool (waits (ws_queue s ! i))"
  shows "workload_inv ((update_pool k f s)\<lparr>ws_queue := (ws_queue s)[i := e], ws_total_queued_queries := t\<rparr>)"
proof -
  have "counts_exact (modify_first (\<lambda>p. rp_pool_id p = k) f (ws_pools s)) ((ws_queue s)[i := e])"
    by (rule counts_modify [where q = "ws_queue s"])
       (use inv f other q i in \<open>auto simp: workload_inv_def count_if_update\<close>)
  then show ?thesis using inv f t i by (auto simp: workload_inv_def frame_simps count_if_update)
qed

section \<open>Every operation keeps the counters exact\<close>

lemma inv_create:
  assumes inv: "workload_inv s" and r: "orochi_create_resource_pool g now st name limits w s = Inr (st', s', k)"
    and unused: "unused_id k s"
  shows "workload_inv s'"
proof -
  obtain i where i: "find_index (\<lambda>p. rp_pool_id p = 0) (ws_pools s) = Some i"
    using r by (auto simp: orochi_create_resource_pool_def find_free_pool_slot_def split: if_splits option.splits)
  then obtain pool where s': "s' = s\<lparr>ws_pools := (ws_pools s)[i := pool], ws_num_pools := ws_num_pools s + 1\<rparr>"
      "rp_pool_id pool = k" "rp_queued_queries pool = 0"
    using r by (auto simp: orochi_create_resource_pool_def find_free_pool_slot_def allocate_pool_id_def split: if_splits)
  have "unique_ids ((ws_pools s)[i := pool])"
    using inv unused s'(2) by (auto simp: workload_inv_def unused_id_def intro: unique_ids_update)
  moreover have "counts_exact ((ws_pools s)[i := pool]) (ws_queue s)"
    using inv s' unused
    by (auto simp: workload_inv_def unused_id_def counts_exact_def count_if_0 dest: set_update_subset_insert [THEN subsetD])
  ultimately show ?thesis using inv s' by (simp add: workload_inv_def)
qed

lemma inv_drop:
  assumes inv: "workload_inv s" and r: "orochi_drop_resource_pool k if_exists s = Inr (s', b)"
  shows "workload_inv s'"
proof (cases "find_pool s k")
  case None
  then show ?thesis using inv r by (simp add: orochi_drop_resource_pool_def split: if_splits)
next
  case (Some i)
  then have s': "s' = s\<lparr>ws_pools := (ws_pools s)[i := free_pool], ws_num_pools := ws_num_pools s - 1\<rparr>"
    using r by (simp add: orochi_drop_resource_pool_def split: if_splits)
  have "unique_ids ((ws_pools s)[i := free_pool])"
    using inv by (auto simp: workload_inv_def free_pool_def intro: unique_ids_update)
  then show ?thesis
    using inv s' by (fastforce simp: workload_inv_def counts_exact_def free_pool_def dest: set_update_subset_insert [THEN subsetD])
qed

lemma inv_admit: "workload_inv s \<Longrightarrow> workload_inv (fst (orochi_admit_query g pid k pr cost mem s))"
  by (auto simp: orochi_admit_query_def admit_in_pool_def Let_def intro!: inv_keep split: option.split)

lemma inv_queue:
  assumes inv: "workload_inv s" and "pid \<noteq> 0"
  shows "workload_inv (fst (orochi_queue_query now pid k pr cost s))"
proof (cases "find_pool s k")
  case None
  then show ?thesis using inv by (simp add: orochi_queue_query_def)
next
  case (Some i)
  show ?thesis
  proof (cases "find_queue_slot s")
    case None
    then show ?thesis using inv Some by (auto simp: orochi_queue_query_def Let_def intro!: inv_keep)
  next
    case slot: (Some n)
    then have "n < length (ws_queue s)" "qe_backend_pid (ws_queue s ! n) = 0"
      using find_index_SomeD by (fastforce simp: find_queue_slot_def)+
    then show ?thesis using inv Some slot assms(2)
      by (auto simp: orochi_queue_query_def Let_def waits_def is_waiting_def intro!: inv_keep inv_entry)
  qed
qed

text \<open>What cancelling and releasing should be restricted to: the entry of the backend, if it has one, still waits.\<close>

definition not_running :: "int \<Rightarrow> WorkloadSharedState \<Rightarrow> bool" where
  "not_running pid s = (pid \<noteq> 0 \<and>
     (case find_index (\<lambda>e. qe_backend_pid e = pid) (ws_queue s) of None \<Rightarrow> True | Some i \<Rightarrow> \<not> qe_is_active (ws_queue s ! i)))"

lemma inv_remove:
  assumes "workload_inv s" "not_running pid s"
  shows "workload_inv (remove_from_queue pid s)"
proof (cases "find_index (\<lambda>e. qe_backend_pid e = pid) (ws_queue s)")
  case (Some i)
  with assms find_index_SomeD [OF Some] show ?thesis
    by (auto simp: remove_from_queue_def not_running_def free_entry_def waits_def is_waiting_def intro!: inv_entry)
qed (use assms in \<open>simp add: remove_from_queue_def\<close>)

lemma dequeue_scan_member:
  "dequeue_scan q k is best = Some i \<Longrightarrow> best = Some i \<or> i \<in> set is \<and> is_waiting k (q ! i)"
  by (induction q k "is" best rule: dequeue_scan.induct) (auto split: if_splits)

lemma inv_dequeue:
  assumes inv: "workload_inv s"
  shows "workload_inv (fst (orochi_dequeue_next_query now k s))"
proof (cases "dequeue_scan (ws_queue s) k [0..<length (ws_queue s)] None")
  case (Some i)
  then have i: "i < length (ws_queue s)" "is_waiting k (ws_queue s ! i)" by (auto dest: dequeue_scan_member)
  let ?e = "(ws_queue s ! i)\<lparr>qe_is_active := True, qe_start_time := now\<rparr>"
  have "workload_inv ((update_pool k (\<lambda>p. p\<lparr>rp_active_queries := rp_active_queries p + 1,
      rp_queued_queries := rp_queued_queries p - 1\<rparr>) s)
      \<lparr>ws_queue := (ws_queue s)[i := ?e], ws_total_queued_queries := ws_total_queued_queries s - 1\<rparr>)"
    using i by (intro inv_entry [OF inv i(1)]) (auto simp: is_waiting_def waits_def)
  moreover have "fst (orochi_dequeue_next_query now k s) = (update_pool k (\<lambda>p. p\<lparr>rp_active_queries := rp_active_queries p + 1,
      rp_queued_queries := rp_queued_queries p - 1\<rparr>) s)\<lparr>ws_queue := (ws_queue s)[i := ?e],
      ws_total_queued_queries := ws_total_queued_queries s - 1\<rparr>\<lparr>ws_total_active_queries := ws_total_active_queries s + 1\<rparr>"
    using Some by (simp add: orochi_dequeue_next_query_def)
  ultimately show ?thesis by simp
qed (use inv in \<open>simp add: orochi_dequeue_next_query_def\<close>)

lemma total_after_drain:
  "drain_loop k is (s, d) = (s', d') \<Longrightarrow> ws_total_queued_queries s' = ws_total_queued_queries s"
  by (induction k "is" "(s, d)" arbitrary: s d rule: drain_loop.induct) (auto simp: frame_simps split: if_splits)

lemma inv_drain_loop:
  assumes "drain_loop k is (s, d) = (s', d')" and "\<forall>i \<in> set is. i < length (ws_queue s)"
    and "workload_inv (s\<lparr>ws_total_queued_queries := t - d\<rparr>)"
  shows "workload_inv (s'\<lparr>ws_total_queued_queries := t - d'\<rparr>)"
  using assms
proof (induction "is" arbitrary: s d)
  case (Cons i "is")
  show ?case
  proof (cases "is_waiting k (ws_queue s ! i)")
    case False
    with Cons show ?thesis by simp
  next
    case True
    let ?u = "update_pool k drain_pool (s\<lparr>ws_queue := (ws_queue s)[i := free_entry]\<rparr>)"
    let ?t = "s\<lparr>ws_total_queued_queries := t - d\<rparr>"
    have "count_if (is_waiting k) (ws_queue s) \<noteq> 0" using True Cons.prems(2) by (force simp: count_if_0)
    then have pos: "max 0 (count_if (is_waiting k) (ws_queue s) - 1) = count_if (is_waiting k) (ws_queue s) - 1"
      using count_if_nonneg [of "is_waiting k" "ws_queue s"] by simp
    have "counts_exact (modify_first (\<lambda>p. rp_pool_id p = k) drain_pool (ws_pools s)) ((ws_queue s)[i := free_entry])"
      by (rule counts_modify [where q = "ws_queue s"])
         (use Cons.prems True pos in \<open>auto simp: workload_inv_def drain_pool_def count_if_update free_entry_def is_waiting_def\<close>)
    then have "workload_inv (?u\<lparr>ws_total_queued_queries := t - (d + 1)\<rparr>)"
      using Cons.prems True
      by (auto simp: workload_inv_def frame_simps drain_pool_def count_if_update waits_def is_waiting_def free_entry_def)
    then show ?thesis using Cons.IH [of ?u "d + 1"] Cons.prems True by (simp add: frame_simps)
  qed
qed simp

lemma inv_drain:
  assumes inv: "workload_inv s"
  shows "workload_inv (orochi_drain_pool_queue k s)"
proof -
  obtain s' d where r: "drain_loop k [0..<length (ws_queue s)] (s, 0) = (s', d)" by fastforce
  have t: "ws_total_queued_queries s' = ws_total_queued_queries s" using total_after_drain [OF r] by simp
  have w: "workload_inv (s'\<lparr>ws_total_queued_queries := ws_total_queued_queries s - d\<rparr>)"
    using inv_drain_loop [OF r] inv by simp
  then have "0 \<le> ws_total_queued_queries s - d" by (simp add: workload_inv_def count_if_nonneg)
  then show ?thesis using inv w r t by (simp add: orochi_drain_pool_queue_def)
qed

section \<open>The total is never too large\<close>

definition total_bounded :: "WorkloadSharedState \<Rightarrow> bool" where
  "total_bounded s = (ws_total_queued_queries s \<le> count_if waits (ws_queue s))"

lemma total_queue: "pid \<noteq> 0 \<Longrightarrow> total_bounded s \<Longrightarrow> total_bounded (fst (orochi_queue_query now pid k pr cost s))"
  by (auto simp: total_bounded_def orochi_queue_query_def Let_def frame_simps count_if_update waits_def find_queue_slot_def
      dest: find_index_SomeD split: option.splits)

lemma total_remove: "total_bounded s \<Longrightarrow> total_bounded (remove_from_queue pid s)"
  by (auto simp: total_bounded_def remove_from_queue_def frame_simps count_if_update waits_def free_entry_def
      dest: find_index_SomeD split: option.splits)

lemma total_dequeue: "total_bounded s \<Longrightarrow> total_bounded (fst (orochi_dequeue_next_query now k s))"
  by (auto simp: total_bounded_def orochi_dequeue_next_query_def frame_simps count_if_update waits_def is_waiting_def
      dest!: dequeue_scan_member split: option.splits)

lemma waits_after_drain:
  "drain_loop k is (s, d) = (s', d') \<Longrightarrow> \<forall>i \<in> set is. i < length (ws_queue s) \<Longrightarrow>
   count_if waits (ws_queue s') = count_if waits (ws_queue s) - (d' - d)"
proof (induction "is" arbitrary: s d)
  case (Cons i "is")
  show ?case
  proof (cases "is_waiting k (ws_queue s ! i)")
    case False
    with Cons show ?thesis by simp
  next
    case True
    let ?u = "update_pool k drain_pool (s\<lparr>ws_queue := (ws_queue s)[i := free_entry]\<rparr>)"
    have "count_if waits (ws_queue s') = count_if waits (ws_queue ?u) - (d' - (d + 1))"
      using Cons.IH [of ?u "d + 1"] Cons.prems True by (simp add: frame_simps)
    moreover have "waits (ws_queue s ! i)" "\<not> waits free_entry"
      using True by (simp_all add: waits_def is_waiting_def free_entry_def)
    ultimately show ?thesis using Cons.prems(2) by (simp add: frame_simps count_if_update)
  qed
qed simp

lemma total_drain:
  assumes "total_bounded s"
  shows "total_bounded (orochi_drain_pool_queue k s)"
proof -
  obtain s' d where r: "drain_loop k [0..<length (ws_queue s)] (s, 0) = (s', d)" by fastforce
  have "count_if waits (ws_queue s') = count_if waits (ws_queue s) - d" using waits_after_drain [OF r] by simp
  then show ?thesis
    using assms r total_after_drain [OF r] count_if_nonneg [of waits "ws_queue s'"]
    by (simp add: total_bounded_def orochi_drain_pool_queue_def)
qed

section \<open>Running system\<close>

text \<open>Calls of all processes; \<open>st\<close> is the id counter of the process that creates a pool. The flag records whether the counters
  can be trusted: it is lost when a query that is running, and was counted out of the queue when it started, is cancelled or
  released, and when a pool gets an id that is in use. The operations themselves are not restricted; a backend has a pid.\<close>

inductive workload_step :: "workload_gucs \<Rightarrow> bool \<times> WorkloadSharedState \<Rightarrow> bool \<times> WorkloadSharedState \<Rightarrow> bool" for g where
  create: "orochi_create_resource_pool g now st name limits w s = Inr (st', s', k) \<Longrightarrow> workload_step g (ok, s) (ok \<and> unused_id k s, s')"
| alter: "orochi_alter_resource_pool k limits w s = Inr (s', b) \<Longrightarrow> workload_step g (ok, s) (ok, s')"
| drop: "orochi_drop_resource_pool k if_exists s = Inr (s', b) \<Longrightarrow> workload_step g (ok, s) (ok, s')"
| enable: "workload_step g (ok, s) (ok, fst (orochi_enable_resource_pool k s))"
| disable: "orochi_disable_resource_pool k s = Inr (s', b) \<Longrightarrow> workload_step g (ok, s) (ok, s')"
| admit: "workload_step g (ok, s) (ok, fst (orochi_admit_query g pid k pr cost mem s))"
| enqueue: "pid \<noteq> 0 \<Longrightarrow> workload_step g (ok, s) (ok, fst (orochi_queue_query now pid k pr cost s))"
| dequeue: "workload_step g (ok, s) (ok, fst (orochi_dequeue_next_query now k s))"
| cancel: "workload_step g (ok, s) (ok \<and> not_running pid s, fst (orochi_cancel_queued_query pid s))"
| release: "workload_step g (ok, s) (ok \<and> not_running pid s, orochi_release_query g pid s)"
| drain: "workload_step g (ok, s) (ok, orochi_drain_pool_queue k s)"

definition workload_started :: "workload_gucs \<Rightarrow> int \<Rightarrow> bool \<times> WorkloadSharedState \<Rightarrow> bool" where
  "workload_started g now c = (fst c \<and> (\<exists>st. orochi_workload_shmem_startup g now = Inr (st, snd c)))"

lemma inv_workload_step: "workload_step g c c' \<Longrightarrow> fst c' \<Longrightarrow> (fst c \<Longrightarrow> workload_inv (snd c)) \<Longrightarrow> workload_inv (snd c')"
proof (induction rule: workload_step.induct)
  case (alter k limits w s s' b ok)
  then show ?case by (auto simp: orochi_alter_resource_pool_def intro!: inv_keep split: if_splits)
next
  case (enable ok s k)
  then show ?case by (auto simp: orochi_enable_resource_pool_def intro!: inv_keep)
next
  case (disable k s s' b ok)
  then show ?case by (auto simp: orochi_disable_resource_pool_def intro!: inv_keep split: option.splits if_splits)
next
  case (cancel ok s pid)
  then show ?case by (auto simp: orochi_cancel_queued_query_def intro: inv_remove)
next
  case (release ok s pid)
  then show ?case by (auto simp: orochi_release_query_def Let_def intro: inv_remove)
qed (auto intro: inv_create inv_drop inv_admit inv_queue inv_dequeue inv_drain)

lemma total_workload_step: "workload_step g c c' \<Longrightarrow> total_bounded (snd c) \<Longrightarrow> total_bounded (snd c')"
proof (induction rule: workload_step.induct)
  case (create now st name limits w s st' s' k ok)
  then show ?case
    by (auto simp: total_bounded_def orochi_create_resource_pool_def Let_def split: if_splits option.splits prod.splits)
next
  case (alter k limits w s s' b ok)
  then show ?case by (auto simp: total_bounded_def orochi_alter_resource_pool_def frame_simps split: if_splits)
next
  case (drop k if_exists s s' b ok)
  then show ?case by (auto simp: total_bounded_def orochi_drop_resource_pool_def Let_def split: if_splits option.splits)
next
  case (enable ok s k)
  then show ?case by (auto simp: total_bounded_def orochi_enable_resource_pool_def frame_simps)
next
  case (disable k s s' b ok)
  then show ?case by (auto simp: total_bounded_def orochi_disable_resource_pool_def frame_simps split: option.splits if_splits)
next
  case (admit ok s pid k pr cost mem)
  then show ?case by (auto simp: total_bounded_def orochi_admit_query_def Let_def frame_simps split: option.split)
next
  case (cancel ok s pid)
  then show ?case by (simp add: orochi_cancel_queued_query_def total_remove)
next
  case (release ok s pid)
  then show ?case using total_remove [of s pid] by (simp add: orochi_release_query_def Let_def total_bounded_def)
qed (simp_all add: total_queue total_dequeue total_drain)

lemma inv_initial: "workload_inv initial_workload"
  by (auto simp: workload_inv_def initial_workload_def unique_ids_def counts_exact_def free_pool_def free_entry_def waits_def count_if_replicate)

lemma inv_mark_internal: "workload_inv s \<Longrightarrow> workload_inv (mark_internal s)"
proof -
  have "map (\<lambda>p. (rp_pool_id p, rp_queued_queries p)) (ws_pools (mark_internal s)) =
        map (\<lambda>p. (rp_pool_id p, rp_queued_queries p)) (ws_pools s)"
    by (simp add: mark_internal_def Let_def map_update_where) (metis append_take_drop_id map_append)
  then have m: "map rp_pool_id (ws_pools (mark_internal s)) = map rp_pool_id (ws_pools s)"
    and z: "(\<lambda>p. (rp_pool_id p, rp_queued_queries p)) ` set (ws_pools (mark_internal s)) =
            (\<lambda>p. (rp_pool_id p, rp_queued_queries p)) ` set (ws_pools s)"
    by (metis (no_types, lifting) comp_apply fst_conv list.map_comp map_eq_conv, metis list.set_map)
  have c: "counts_exact ps q \<longleftrightarrow> (\<forall>(k, n) \<in> (\<lambda>p. (rp_pool_id p, rp_queued_queries p)) ` set ps. k \<noteq> 0 \<longrightarrow> n = count_if (is_waiting k) q)"
    for ps q
    by (auto simp: counts_exact_def)
  assume "workload_inv s"
  then show ?thesis
    using unique_ids_map [OF m] unfolding workload_inv_def c z by (simp add: mark_internal_def Let_def)
qed

text \<open>The first two pools get the ids 1 and 2.\<close>

lemma created_pool:
  assumes "orochi_create_resource_pool g now st name limits w s = Inr (st', s', k)"
  shows "k = next_pool_id st" "next_pool_id st' = next_pool_id st + 1" "ws_queue s' = ws_queue s"
    "rp_pool_id ` set (ws_pools s') \<subseteq> insert k (rp_pool_id ` set (ws_pools s))"
proof -
  obtain i pool where "ws_pools s' = (ws_pools s)[i := pool]" "rp_pool_id pool = k"
    using assms by (auto simp: orochi_create_resource_pool_def allocate_pool_id_def Let_def split: if_splits option.splits)
  then show "rp_pool_id ` set (ws_pools s') \<subseteq> insert k (rp_pool_id ` set (ws_pools s))"
    using set_update_subset_insert [of "ws_pools s" i pool] by auto
qed (use assms in \<open>auto simp: orochi_create_resource_pool_def allocate_pool_id_def Let_def split: if_splits option.splits\<close>)

lemma startup_inv:
  assumes "orochi_workload_shmem_startup g now = Inr (st, s)"
  shows "workload_inv s"
proof -
  let ?st = "\<lparr>next_pool_id = 1, next_class_id = 1\<rparr>"
  obtain st1 s1 k1 st2 s2 k2 l1 l2 where
    c: "orochi_create_resource_pool g now ?st ''default'' l1 50 initial_workload = Inr (st1, s1, k1)"
      "orochi_create_resource_pool g now st1 ''admin'' l2 100 s1 = Inr (st2, s2, k2)" "s = mark_internal s2"
    using assms unfolding orochi_workload_shmem_startup_def init_default_pools_def by (auto split: sum.splits prod.splits)
  note p = created_pool [OF c(1)] created_pool [OF c(2)]
  have q: "\<forall>p \<in> set (ws_pools initial_workload). rp_pool_id p = 0" "\<forall>e \<in> set (ws_queue initial_workload). \<not> is_waiting k e" for k
    by (simp_all add: initial_workload_def free_pool_def free_entry_def is_waiting_def)
  have "unused_id k1 initial_workload" using q p(1) by (auto simp: unused_id_def)
  with c(1) have i: "workload_inv s1" by (rule inv_create [OF inv_initial])
  have "rp_pool_id ` set (ws_pools s1) \<subseteq> {1, 0}" using p(1,4) q(1) by auto
  then have "unused_id k2 s1" using q(2) p(1-3,5) by (auto simp: unused_id_def)
  with c(2) have "workload_inv s2" by (rule inv_create [OF i])
  then show ?thesis using c(3) inv_mark_internal by simp
qed

interpretation workload: invariant_system "workload_started g now" "workload_step g"
  "\<lambda>c. (fst c \<longrightarrow> workload_inv (snd c)) \<and> total_bounded (snd c)" for g now
proof
  fix c c' assume c: "(fst c \<longrightarrow> workload_inv (snd c)) \<and> total_bounded (snd c)" "workload_step g c c'"
  then show "(fst c' \<longrightarrow> workload_inv (snd c')) \<and> total_bounded (snd c')"
    using inv_workload_step [OF c(2)] total_workload_step [OF c(2)] by blast
qed (auto simp: workload_started_def total_bounded_def workload_inv_def dest: startup_inv)

section \<open>The choice of the next query\<close>

text \<open>\<open>serves_first q k i\<close>: entry \<open>i\<close> waits for pool \<open>k\<close>, and every other waiting entry has a lower priority, or the
  same priority and a later time, or agrees in both and stands behind it.\<close>

definition same_rank :: "QueryEntry \<Rightarrow> QueryEntry \<Rightarrow> bool" where
  "same_rank a b = (qe_priority a = qe_priority b \<and> qe_enqueue_time a = qe_enqueue_time b)"

definition serves_first :: "QueryEntry list \<Rightarrow> int \<Rightarrow> nat \<Rightarrow> bool" where
  "serves_first q k i =
     (i < length q \<and> is_waiting k (q ! i) \<and>
      (\<forall>j < length q. is_waiting k (q ! j) \<longrightarrow> j = i \<or> better_entry (q ! i) (q ! j) \<or> same_rank (q ! i) (q ! j) \<and> i < j))"

lemma better_trichotomy: "better_entry a b \<or> same_rank a b \<or> better_entry b a"
  by (auto simp: better_entry_def same_rank_def)

lemma better_trans:
  "better_entry a b \<Longrightarrow> better_entry b c \<or> same_rank b c \<Longrightarrow> better_entry a c"
  by (auto simp: better_entry_def same_rank_def)

text \<open>The invariant of the scan after \<open>n\<close> slots.\<close>

definition first_of :: "QueryEntry list \<Rightarrow> int \<Rightarrow> nat \<Rightarrow> nat option \<Rightarrow> bool" where
  "first_of q k n r =
     (case r of
        None \<Rightarrow> \<forall>j < n. \<not> is_waiting k (q ! j)
      | Some i \<Rightarrow> i < n \<and> is_waiting k (q ! i) \<and>
          (\<forall>j < n. is_waiting k (q ! j) \<longrightarrow> j = i \<or> better_entry (q ! i) (q ! j) \<or> same_rank (q ! i) (q ! j) \<and> i < j))"

lemma first_of_Suc:
  assumes "first_of q k n r"
  shows "first_of q k (Suc n)
           (if is_waiting k (q ! n) \<and> (case r of None \<Rightarrow> True | Some j \<Rightarrow> better_entry (q ! n) (q ! j)) then Some n else r)"
proof (cases "is_waiting k (q ! n)")
  case False
  with assms show ?thesis by (auto simp: first_of_def less_Suc_eq split: option.splits)
next
  case wait: True
  show ?thesis
  proof (cases r)
    case None
    with assms wait show ?thesis by (auto simp: first_of_def less_Suc_eq)
  next
    case (Some i)
    with assms have i: "i < n" "is_waiting k (q ! i)"
        "\<And>j. j < n \<Longrightarrow> is_waiting k (q ! j) \<Longrightarrow> j = i \<or> better_entry (q ! i) (q ! j) \<or> same_rank (q ! i) (q ! j) \<and> i < j"
      by (simp_all add: first_of_def)
    show ?thesis
    proof (cases "better_entry (q ! n) (q ! i)")
      case True
      then have "better_entry (q ! n) (q ! j)" if "j < n" "is_waiting k (q ! j)" for j
        using i(3) [OF that] better_trans by blast
      with True wait Some show ?thesis by (simp add: first_of_def less_Suc_eq)
    next
      case False
      then have "better_entry (q ! i) (q ! n) \<or> same_rank (q ! i) (q ! n) \<and> i < n"
        using better_trichotomy [of "q ! i" "q ! n"] i(1) by blast
      with False wait Some i show ?thesis by (auto simp: first_of_def less_Suc_eq)
    qed
  qed
qed

lemma dequeue_scan_append:
  "dequeue_scan q k (xs @ [n]) b =
     (let b' = dequeue_scan q k xs b in
      if is_waiting k (q ! n) \<and> (case b' of None \<Rightarrow> True | Some j \<Rightarrow> better_entry (q ! n) (q ! j)) then Some n else b')"
  by (induction q k xs b rule: dequeue_scan.induct) (simp_all add: Let_def)

lemma dequeue_scan_first: "first_of q k n (dequeue_scan q k [0..<n] None)"
  by (induction n) (simp_all add: first_of_def [of _ _ 0] dequeue_scan_append Let_def first_of_Suc)

lemma dequeue_serves:
  "case dequeue_scan q k [0..<length q] None of None \<Rightarrow> (\<forall>e \<in> set q. \<not> is_waiting k e) | Some i \<Rightarrow> serves_first q k i"
  using dequeue_scan_first [of q k "length q"]
  by (auto simp: first_of_def serves_first_def in_set_conv_nth split: option.splits)

text \<open>What the C library promises of \<^verbatim>\<open>qsort\<close> with a comparison that orders the elements.\<close>

definition orders :: "('a \<Rightarrow> 'a \<Rightarrow> int) \<Rightarrow> bool" where
  "orders cmp = ((\<forall>a b. cmp a b \<le> 0 \<or> cmp b a \<le> 0) \<and> (\<forall>a b c. cmp a b \<le> 0 \<longrightarrow> cmp b c \<le> 0 \<longrightarrow> cmp a c \<le> 0))"

definition qsort_spec :: "((QueryEntry \<Rightarrow> QueryEntry \<Rightarrow> int) \<Rightarrow> QueryEntry list \<Rightarrow> QueryEntry list) \<Rightarrow> bool" where
  "qsort_spec sort_by = (\<forall>cmp xs. orders cmp \<longrightarrow>
     set (sort_by cmp xs) = set xs \<and> length (sort_by cmp xs) = length xs \<and> sorted_wrt (\<lambda>a b. cmp a b \<le> 0) (sort_by cmp xs))"

lemma compare_le: "compare_query_priority a b \<le> 0 \<longleftrightarrow> better_entry a b \<or> same_rank a b"
  by (cases "qe_priority a"; cases "qe_priority b")
     (simp_all add: compare_query_priority_def better_entry_def same_rank_def less_QueryPriority_def)

lemma compare_orders: "orders compare_query_priority"
  unfolding orders_def compare_le by (auto simp: better_entry_def same_rank_def)

lemma rank_refl: "same_rank a a"
  by (simp add: same_rank_def)

lemma rank_antisym: "better_entry a b \<or> same_rank a b \<Longrightarrow> better_entry b a \<or> same_rank b a \<Longrightarrow> same_rank b a"
  by (auto simp: same_rank_def better_entry_def)

section \<open>Properties\<close>

text \<open>C6: In every state reachable by creating, changing and dropping pools and by admitting, queueing, starting, draining,
  cancelling and releasing queries, by any processes, the total of waiting queries is at most the number of entries that wait in
  the queue. As long as no query that already runs was cancelled or released and no pool was given an id in use, the counter of
  every pool and the total are exactly the numbers of entries that wait.\<close>

theorem queue_counters_exact:
  assumes "reach (workload_started g now) (workload_step g) (ok, s)"
  shows "ws_total_queued_queries s \<le> count_if waits (ws_queue s) \<and>
    (ok \<longrightarrow>
       (\<forall>p \<in> set (ws_pools s). rp_pool_id p \<noteq> 0 \<longrightarrow> rp_queued_queries p = count_if (is_waiting (rp_pool_id p)) (ws_queue s)) \<and>
       ws_total_queued_queries s = count_if waits (ws_queue s))"
  using workload.inv_reach [OF assms] by (simp add: workload_inv_def counts_exact_def total_bounded_def)

definition sample_gucs :: workload_gucs where
  "sample_gucs = \<lparr>workload_enabled = True, default_pool_concurrency = 1, default_query_timeout_ms = 30000\<rparr>"

lemma startup_succeeds: "\<exists>st s. orochi_workload_shmem_startup g now = Inr (st, s)"
  by (simp add: orochi_workload_shmem_startup_def init_default_pools_def orochi_create_resource_pool_def find_free_pool_slot_def
      allocate_pool_id_def initial_workload_def free_pool_def numeral_eq_Suc Let_def)

theorem queue_counters_exact_witness:
  "\<exists>s. reach (workload_started sample_gucs 0) (workload_step sample_gucs) (True, fst (orochi_queue_query 5 77 1 QUERY_PRIORITY_HIGH 10 s)) \<and>
     ws_total_queued_queries (fst (orochi_queue_query 5 77 1 QUERY_PRIORITY_HIGH 10 s)) =
       count_if waits (ws_queue (fst (orochi_queue_query 5 77 1 QUERY_PRIORITY_HIGH 10 s)))"
proof -
  obtain st s where "orochi_workload_shmem_startup sample_gucs 0 = Inr (st, s)" using startup_succeeds by blast
  then have r: "reach (workload_started sample_gucs 0) (workload_step sample_gucs)
      (True, fst (orochi_queue_query 5 77 1 QUERY_PRIORITY_HIGH 10 s))"
    by (intro reach_step [OF reach_init, of _ "(True, s)"] workload_step.enqueue) (simp_all add: workload_started_def)
  from queue_counters_exact [OF r] r show ?thesis by blast
qed

text \<open>C7: starting the next query of a pool picks the waiting entry of the highest priority, among those the one queued first,
  among those the one in the lowest slot, and nothing only if nothing waits. With any \<^verbatim>\<open>qsort\<close> that sorts, the listing of the
  waiting queries begins with an entry of the same rank.\<close>

theorem dequeue_serves_first_waiting:
  assumes qsort: "qsort_spec sort_by" and k: "k \<noteq> 0" and init: "ws_is_initialized s"
  shows "case orochi_dequeue_next_query now k s of
           (s', None) \<Rightarrow> s' = s \<and> (\<forall>e \<in> set (ws_queue s). \<not> is_waiting k e) \<and> orochi_get_queued_queries sort_by s k = []
         | (s', Some pid) \<Rightarrow>
             \<exists>i. serves_first (ws_queue s) k i \<and> pid = qe_backend_pid (ws_queue s ! i) \<and>
                 ws_queue s' = (ws_queue s)[i := (ws_queue s ! i)\<lparr>qe_is_active := True, qe_start_time := now\<rparr>] \<and>
                 orochi_get_queued_queries sort_by s k \<noteq> [] \<and>
                 same_rank (hd (orochi_get_queued_queries sort_by s k)) (ws_queue s ! i)"
proof -
  let ?q = "ws_queue s" let ?w = "filter (is_waiting k) ?q" let ?l = "orochi_get_queued_queries sort_by s k"
  have l: "?l = (if length ?w > 1 then sort_by compare_query_priority ?w else ?w)"
    using init k by (simp add: orochi_get_queued_queries_def is_waiting_def [abs_def] Let_def)
  then have set_l: "set ?l = set ?w" and sorted: "sorted_wrt (\<lambda>a b. compare_query_priority a b \<le> 0) ?l"
    using qsort compare_orders by (auto simp: qsort_spec_def numeral_2_eq_2 not_less sorted_wrt01)
  show ?thesis
  proof (cases "dequeue_scan ?q k [0..<length ?q] None")
    case None
    then show ?thesis using dequeue_serves [of ?q k] l by (simp add: orochi_dequeue_next_query_def filter_empty_conv)
  next
    case (Some i)
    then have i: "serves_first ?q k i" using dequeue_serves [of ?q k] by simp
    then have "?q ! i \<in> set ?l" using set_l by (simp add: serves_first_def)
    moreover then obtain h t where ht: "?l = h # t" by (cases ?l) auto
    ultimately have h: "h = ?q ! i \<or> compare_query_priority h (?q ! i) \<le> 0" using sorted unfolding ht by auto
    have "h \<in> set ?w" using ht set_l by auto
    then obtain j where j: "j < length ?q" "is_waiting k (?q ! j)" "h = ?q ! j"
      by (auto simp: in_set_conv_nth)
    have "\<forall>j < length ?q. is_waiting k (?q ! j) \<longrightarrow> j = i \<or> better_entry (?q ! i) (?q ! j) \<or> same_rank (?q ! i) (?q ! j)"
      using i unfolding serves_first_def by blast
    with j have "j = i \<or> better_entry (?q ! i) h \<or> same_rank (?q ! i) h" by blast
    then have "same_rank h (?q ! i)" using h j(3) rank_antisym rank_refl unfolding compare_le by metis
    then have "same_rank (hd ?l) (?q ! i)" by (simp add: ht)
    moreover have "?l \<noteq> []" by (simp add: ht)
    ultimately show ?thesis using i Some by (simp add: orochi_dequeue_next_query_def) blast
  qed
qed

text \<open>Insertion sort keeps the promise.\<close>

fun insert_by :: "('a \<Rightarrow> 'a \<Rightarrow> int) \<Rightarrow> 'a \<Rightarrow> 'a list \<Rightarrow> 'a list" where
  "insert_by cmp x [] = [x]"
| "insert_by cmp x (y # ys) = (if cmp x y \<le> 0 then x # y # ys else y # insert_by cmp x ys)"

definition insertion_sort :: "('a \<Rightarrow> 'a \<Rightarrow> int) \<Rightarrow> 'a list \<Rightarrow> 'a list" where
  "insertion_sort cmp xs = foldr (insert_by cmp) xs []"

lemma insert_by_set: "set (insert_by cmp x ys) = insert x (set ys) \<and> length (insert_by cmp x ys) = Suc (length ys)"
  by (induction ys) auto

lemma insert_by_sorted:
  "orders cmp \<Longrightarrow> sorted_wrt (\<lambda>a b. cmp a b \<le> 0) ys \<Longrightarrow> sorted_wrt (\<lambda>a b. cmp a b \<le> 0) (insert_by cmp x ys)"
proof (induction ys)
  case (Cons y ys)
  show ?case
  proof (cases "cmp x y \<le> 0")
    case True
    with Cons.prems show ?thesis by (auto simp: orders_def)
  next
    case False
    then have "cmp y x \<le> 0" using Cons.prems by (auto simp: orders_def)
    with False Cons show ?thesis by (auto simp: insert_by_set)
  qed
qed simp

lemma insertion_sort_spec: "qsort_spec insertion_sort"
proof -
  have "set (foldr (insert_by cmp) xs []) = set xs \<and> length (foldr (insert_by cmp) xs []) = length xs" for cmp and xs :: "QueryEntry list"
    by (induction xs) (auto simp: insert_by_set)
  moreover have "sorted_wrt (\<lambda>a b. cmp a b \<le> 0) (foldr (insert_by cmp) xs [])" if "orders cmp" for cmp and xs :: "QueryEntry list"
    using that by (induction xs) (auto intro: insert_by_sorted)
  ultimately show ?thesis by (simp add: qsort_spec_def insertion_sort_def)
qed

definition sample_queue :: "QueryEntry list" where
  "sample_queue =
     [free_entry\<lparr>qe_backend_pid := 11, qe_pool_id := 3, qe_priority := QUERY_PRIORITY_LOW, qe_enqueue_time := 1\<rparr>,
      free_entry\<lparr>qe_backend_pid := 12, qe_pool_id := 3, qe_priority := QUERY_PRIORITY_HIGH, qe_enqueue_time := 9\<rparr>,
      free_entry\<lparr>qe_backend_pid := 13, qe_pool_id := 3, qe_priority := QUERY_PRIORITY_HIGH, qe_enqueue_time := 4\<rparr>]"

theorem dequeue_serves_first_waiting_witness:
  "snd (orochi_dequeue_next_query 20 3 (initial_workload\<lparr>ws_queue := sample_queue\<rparr>)) = Some 13 \<and>
   same_rank (hd (orochi_get_queued_queries insertion_sort (initial_workload\<lparr>ws_queue := sample_queue\<rparr>) 3)) (sample_queue ! 2)"
proof -
  let ?s = "initial_workload\<lparr>ws_queue := sample_queue\<rparr>"
  have scan: "dequeue_scan sample_queue 3 [0..<length sample_queue] None = Some 2"
    by (simp add: sample_queue_def free_entry_def is_waiting_def better_entry_def less_QueryPriority_def upt_rec numeral_2_eq_2)
  then have r: "orochi_dequeue_next_query 20 3 ?s = (fst (orochi_dequeue_next_query 20 3 ?s), Some 13)"
    by (simp add: orochi_dequeue_next_query_def sample_queue_def)
  have "length sample_queue = 3" "qe_backend_pid (sample_queue ! 0) = 11" "qe_backend_pid (sample_queue ! 1) = 12"
    by (simp_all add: sample_queue_def)
  moreover have "j = 0 \<or> j = 1 \<or> j = 2" if "j < 3" for j :: nat using that by linarith
  ultimately have un: "j = 2" if "serves_first sample_queue 3 j" "13 = qe_backend_pid (sample_queue ! j)" for j
    using that unfolding serves_first_def by fastforce
  show ?thesis
    using dequeue_serves_first_waiting [OF insertion_sort_spec, of 3 ?s 20] r un
    by (auto simp: initial_workload_def split: prod.splits option.splits)
qed

text \<open>a query is admitted to an active pool only below its concurrency limit and within its memory limit; the pool then
  counts one active query more and the memory requested, and the other slots stay as they are. If it is not admitted, the
  active queries and the memory of every pool stay as they are.\<close>

theorem admission_respects_limits:
  assumes en: "workload_enabled g" and i: "find_pool s k = Some i" and r: "orochi_admit_query g pid k pr cost mem s = (s', admitted)"
    and memory: "0 \<le> mem" "0 \<le> ru_memory_bytes (rp_usage (ws_pools s ! i))"
      "ru_memory_bytes (rp_usage (ws_pools s ! i)) + mem < 9223372036854775808"
      "0 \<le> rl_memory_mb (rp_limits (ws_pools s ! i))" "rl_memory_mb (rp_limits (ws_pools s ! i)) * 1048576 < 9223372036854775808"
  shows "let p = ws_pools s ! i; p' = ws_pools s' ! i; lim = rp_limits p in
         (\<forall>j. j \<noteq> i \<longrightarrow> ws_pools s' ! j = ws_pools s ! j) \<and>
         (if admitted
          then rp_state p = POOL_STATE_ACTIVE \<and> rp_active_queries p' = rp_active_queries p + 1 \<and>
               ru_memory_bytes (rp_usage p') = ru_memory_bytes (rp_usage p) + mem \<and>
               (0 < rl_max_concurrency lim \<longrightarrow> rp_active_queries p' \<le> rl_max_concurrency lim) \<and>
               (0 < rl_memory_mb lim \<longrightarrow> ru_memory_bytes (rp_usage p') \<le> rl_memory_mb lim * 1048576)
          else rp_active_queries p' = rp_active_queries p \<and> ru_memory_bytes (rp_usage p') = ru_memory_bytes (rp_usage p))"
proof -
  let ?p = "ws_pools s ! i"
  have pools: "ws_pools (update_pool k f s) = (ws_pools s)[i := f ?p]" for f
    using i by (simp add: frame_simps find_pool_def modify_first_Some)
  have len: "i < length (ws_pools s)" using find_index_SomeD [OF i [unfolded find_pool_def]] by simp
  have "wrap_i64 (rl_memory_mb (rp_limits ?p) * 1024 * 1024) = rl_memory_mb (rp_limits ?p) * 1048576"
    "wrap_i64 (rl_memory_mb (rp_limits ?p) * 1048576 - ru_memory_bytes (rp_usage ?p)) =
       rl_memory_mb (rp_limits ?p) * 1048576 - ru_memory_bytes (rp_usage ?p)" using memory by simp_all
  then show ?thesis using r i en memory len pools
    by (auto simp: orochi_admit_query_def check_pool_resources_def admit_in_pool_def Let_def split: if_splits)
qed

text \<open>A pool that admits one query, the first in a state of its own.\<close>

definition narrow_pool :: ResourcePool where
  "narrow_pool = free_pool\<lparr>rp_pool_id := 3, rp_limits := zero_limits\<lparr>rl_max_concurrency := 1, rl_memory_mb := 1\<rparr>\<rparr>"

definition narrow_state :: WorkloadSharedState where
  "narrow_state = initial_workload\<lparr>ws_num_pools := 1, ws_pools := [narrow_pool], ws_queue := replicate 4 free_entry\<rparr>"

lemmas narrow_defs = narrow_state_def narrow_pool_def initial_workload_def free_pool_def zero_limits_def zero_usage_def find_pool_def

theorem admission_respects_limits_witness:
  "rp_active_queries (ws_pools (fst (orochi_admit_query sample_gucs 7 3 QUERY_PRIORITY_LOW 0 100 narrow_state)) ! 0) \<le> 1"
proof -
  obtain s' a where r: "orochi_admit_query sample_gucs 7 3 QUERY_PRIORITY_LOW 0 100 narrow_state = (s', a)" by fastforce
  moreover have "find_pool narrow_state 3 = Some 0" "ws_pools narrow_state ! 0 = narrow_pool" by (simp_all add: narrow_defs)
  moreover have "workload_enabled sample_gucs" "ru_memory_bytes (rp_usage narrow_pool) = 0" "rl_memory_mb (rp_limits narrow_pool) = 1"
    "rl_max_concurrency (rp_limits narrow_pool) = 1" "rp_active_queries narrow_pool = 0"
    by (simp_all add: sample_gucs_def narrow_defs)
  ultimately show ?thesis
    using admission_respects_limits [of sample_gucs narrow_state 3 0 7 QUERY_PRIORITY_LOW 0 100 s' a]
    by (simp add: Let_def split: if_splits)
qed

text \<open>Calls made while queries come and go.\<close>

inductive traffic :: "workload_gucs \<Rightarrow> WorkloadSharedState \<Rightarrow> WorkloadSharedState \<Rightarrow> bool" for g where
  t_admit: "traffic g s (fst (orochi_admit_query g pid k pr cost mem s))"
| t_queue: "traffic g s (fst (orochi_queue_query now pid k pr cost s))"
| t_dequeue: "traffic g s (fst (orochi_dequeue_next_query now k s))"
| t_cancel: "traffic g s (fst (orochi_cancel_queued_query pid s))"
| t_release: "traffic g s (orochi_release_query g pid s)"
| t_drain: "traffic g s (orochi_drain_pool_queue k s)"

text \<open>\<open>no_fewer ps ps'\<close>: ids, limits and states agree and no pool has fewer active queries.\<close>

definition no_fewer :: "ResourcePool list \<Rightarrow> ResourcePool list \<Rightarrow> bool" where
  "no_fewer = list_all2 (\<lambda>p p'. rp_pool_id p' = rp_pool_id p \<and> rp_limits p' = rp_limits p \<and> rp_state p' = rp_state p \<and>
                                rp_active_queries p \<le> rp_active_queries p')"

lemma no_fewer_refl [simp]: "no_fewer ps ps"
  by (simp add: no_fewer_def list.rel_refl)

lemma no_fewer_modify:
  assumes "no_fewer ps ps'" and "\<And>p. rp_pool_id (f p) = rp_pool_id p \<and> rp_limits (f p) = rp_limits p \<and> rp_state (f p) = rp_state p \<and>
                           rp_active_queries p \<le> rp_active_queries (f p)"
  shows "no_fewer ps (modify_first P f ps')"
proof (cases "find_index P ps'")
  case (Some i)
  with find_index_SomeD [OF Some] assms show ?thesis
    unfolding modify_first_Some [OF Some] no_fewer_def list_all2_conv_all_nth
    by (auto simp: nth_list_update) (metis order_trans)
qed (use assms in \<open>simp add: modify_first_None\<close>)

lemma no_fewer_drain: "no_fewer ps (ws_pools s) \<Longrightarrow> no_fewer ps (ws_pools (fst (drain_loop k is (s, d))))"
proof (induction "is" arbitrary: s d)
  case (Cons i "is")
  have "no_fewer ps (ws_pools (update_pool k drain_pool (s\<lparr>ws_queue := q\<rparr>)))" for q
    using Cons.prems by (auto simp: frame_simps drain_pool_def intro!: no_fewer_modify)
  with Cons show ?case by simp
qed simp

lemma no_fewer_remove: "no_fewer (ws_pools s) (ws_pools (remove_from_queue pid s))"
  by (auto simp: remove_from_queue_def frame_simps intro!: no_fewer_modify split: option.splits)

lemma traffic_no_fewer: "traffic g s s' \<Longrightarrow> no_fewer (ws_pools s) (ws_pools s')"
proof (induction rule: traffic.induct)
  case (t_drain s k)
  then show ?case using no_fewer_drain [of "ws_pools s" s k "[0..<length (ws_queue s)]" 0]
    by (auto simp: orochi_drain_pool_queue_def split: prod.splits)
qed (auto simp: orochi_admit_query_def admit_in_pool_def orochi_queue_query_def orochi_dequeue_next_query_def
      orochi_cancel_queued_query_def orochi_release_query_def no_fewer_remove frame_simps Let_def
      intro!: no_fewer_modify split: option.splits)

lemma no_fewer_trans: "no_fewer a b \<Longrightarrow> no_fewer b c \<Longrightarrow> no_fewer a c"
  unfolding no_fewer_def by (erule (1) list_all2_trans [rotated]) auto

text \<open>C37: finished queries never give their place back: \<^verbatim>\<open>orochi_release_query\<close> leaves the pools alone. Once a pool has as many
  active queries as its limit allows, no sequence of admissions, releases, cancellations, starts and drains makes it admit
  another query.\<close>

theorem full_pool_stays_full:
  assumes en: "workload_enabled g" and i: "find_pool s k = Some i"
    and full: "0 < rl_max_concurrency (rp_limits (ws_pools s ! i))"
      "rl_max_concurrency (rp_limits (ws_pools s ! i)) \<le> rp_active_queries (ws_pools s ! i)"
    and run: "reach (\<lambda>s0. s0 = s) (traffic g) s'"
  shows "snd (orochi_admit_query g pid k pr cost mem s') = False"
proof -
  from run have nf: "no_fewer (ws_pools s) (ws_pools s')"
    by (induction rule: reach.induct) (auto intro: no_fewer_trans traffic_no_fewer)
  have "map rp_pool_id (ws_pools s') = map rp_pool_id (ws_pools s)"
    using nf unfolding no_fewer_def list_all2_conv_all_nth by (auto intro: nth_equalityI)
  then have i': "find_pool s' k = Some i"
    using i find_index_map [of "\<lambda>j. j = k" rp_pool_id "ws_pools s"] find_index_map [of "\<lambda>j. j = k" rp_pool_id "ws_pools s'"]
    by (simp add: find_pool_def o_def)
  then have "i < length (ws_pools s')" by (auto simp: find_pool_def dest: find_index_SomeD)
  with nf full have "\<not> check_pool_resources (ws_pools s' ! i) mem"
    unfolding no_fewer_def list_all2_conv_all_nth by (auto simp: check_pool_resources_def)
  with en i' show ?thesis by (simp add: orochi_admit_query_def Let_def)
qed

theorem full_pool_stays_full_witness:
  "snd (orochi_admit_query sample_gucs 8 3 QUERY_PRIORITY_LOW 0 0
          (orochi_release_query sample_gucs 7 (fst (orochi_admit_query sample_gucs 7 3 QUERY_PRIORITY_LOW 0 0 narrow_state)))) = False"
proof -
  let ?s = "fst (orochi_admit_query sample_gucs 7 3 QUERY_PRIORITY_LOW 0 0 narrow_state)"
  have s: "ws_pools ?s = [admit_in_pool 0 narrow_pool]"
    by (simp add: orochi_admit_query_def sample_gucs_def narrow_defs check_pool_resources_def frame_simps modify_first_def)
  have "reach (\<lambda>s0. s0 = ?s) (traffic sample_gucs) (orochi_release_query sample_gucs 7 ?s)"
    by (intro reach_step [OF reach_init, of _ ?s] traffic.t_release) simp
  moreover have "find_pool ?s 3 = Some 0" by (simp add: find_pool_def s admit_in_pool_def narrow_pool_def)
  ultimately show ?thesis
    using s by (intro full_pool_stays_full [of sample_gucs ?s 3 0])
               (simp_all add: sample_gucs_def admit_in_pool_def narrow_pool_def free_pool_def zero_limits_def)
qed

text \<open>releasing a query that was started from the queue counts it out of the queue a second time: the counter of the pool
  and the total are then one below the number of waiting queries.\<close>

theorem release_after_dequeue_miscounts:
  assumes en: "workload_enabled g" and inv: "workload_inv s" and i: "find_pool s k = Some i" and k: "k \<noteq> 0"
    and deq: "orochi_dequeue_next_query now k s = (s1, Some pid)"
    and once: "\<forall>a < length (ws_queue s). \<forall>b < length (ws_queue s).
                 qe_backend_pid (ws_queue s ! a) = pid \<longrightarrow> qe_backend_pid (ws_queue s ! b) = pid \<longrightarrow> a = b"
  shows "let s2 = orochi_release_query g pid s1 in
         rp_queued_queries (ws_pools s2 ! i) = count_if (is_waiting k) (ws_queue s2) - 1 \<and>
         ws_total_queued_queries s2 = count_if waits (ws_queue s2) - 1"
proof -
  obtain n where n: "dequeue_scan (ws_queue s) k [0..<length (ws_queue s)] None = Some n" "pid = qe_backend_pid (ws_queue s ! n)"
      "ws_queue s1 = (ws_queue s)[n := (ws_queue s ! n)\<lparr>qe_is_active := True, qe_start_time := now\<rparr>]"
    using deq by (auto simp: orochi_dequeue_next_query_def split: option.splits)
  then have w: "n < length (ws_queue s)" "is_waiting k (ws_queue s ! n)" by (auto dest: dequeue_scan_member)
  have inv1: "workload_inv s1" using inv_dequeue [OF inv, of now k] deq by simp
  have ids: "map rp_pool_id (ws_pools s1) = map rp_pool_id (ws_pools s)"
    using deq n(1) by (auto simp: orochi_dequeue_next_query_def frame_simps map_modify_first)
  then have i1: "find_index (\<lambda>p. rp_pool_id p = k) (ws_pools s1) = Some i"
    using i find_index_map [of "\<lambda>j. j = k" rp_pool_id "ws_pools s"] find_index_map [of "\<lambda>j. j = k" rp_pool_id "ws_pools s1"]
    by (simp add: find_pool_def o_def)
  have "find_index (\<lambda>e. qe_backend_pid e = pid) (ws_queue s1) = Some n"
    using n w once by (intro find_index_unique) (auto simp: nth_list_update split: if_splits)
  then have s2: "remove_from_queue pid s1 = (update_pool k (\<lambda>p. p\<lparr>rp_queued_queries := rp_queued_queries p - 1\<rparr>) s1)
      \<lparr>ws_queue := (ws_queue s1)[n := free_entry], ws_total_queued_queries := ws_total_queued_queries s1 - 1\<rparr>"
    using n w by (simp add: remove_from_queue_def is_waiting_def)
  have "rp_queued_queries (ws_pools s1 ! i) = count_if (is_waiting k) (ws_queue s1)"
    using inv1 find_index_SomeD [OF i1] k by (auto simp: workload_inv_def counts_exact_def)
  moreover have "count_if (is_waiting k) ((ws_queue s1)[n := free_entry]) = count_if (is_waiting k) (ws_queue s1)"
    "count_if waits ((ws_queue s1)[n := free_entry]) = count_if waits (ws_queue s1)"
    using n w by (simp_all add: count_if_update is_waiting_def waits_def free_entry_def)
  ultimately show ?thesis
    using en s2 inv1 find_index_SomeD [OF i1]
    by (simp add: orochi_release_query_def Let_def frame_simps modify_first_Some [OF i1] workload_inv_def)
qed

theorem release_after_dequeue_miscounts_witness:
  "let s = fst (orochi_queue_query 5 77 3 QUERY_PRIORITY_HIGH 10 narrow_state);
       s2 = orochi_release_query sample_gucs 77 (fst (orochi_dequeue_next_query 6 3 s))
   in ws_total_queued_queries s2 = count_if waits (ws_queue s2) - 1"
proof -
  let ?s = "fst (orochi_queue_query 5 77 3 QUERY_PRIORITY_HIGH 10 narrow_state)"
  let ?e = "free_entry\<lparr>qe_backend_pid := 77, qe_pool_id := 3, qe_priority := QUERY_PRIORITY_HIGH, qe_enqueue_time := 5,
              qe_estimated_cost := 10\<rparr>"
  have "workload_inv narrow_state"
    by (auto simp: workload_inv_def narrow_defs unique_ids_def counts_exact_def free_entry_def is_waiting_def waits_def
        count_if_replicate)
  then have inv: "workload_inv ?s" by (rule inv_queue) simp
  have q: "ws_queue ?s = ?e # replicate 3 free_entry" "ws_pools ?s = [narrow_pool\<lparr>rp_queued_queries := 1\<rparr>]"
    by (simp_all add: orochi_queue_query_def narrow_defs find_queue_slot_def free_entry_def frame_simps modify_first_def
        numeral_eq_Suc)
  then have f: "find_pool ?s 3 = Some 0" by (simp add: find_pool_def narrow_pool_def)
  have "dequeue_scan (ws_queue ?s) 3 [0..<length (ws_queue ?s)] None = Some 0"
    unfolding q by (simp add: free_entry_def is_waiting_def numeral_eq_Suc upt_rec)
  then have d: "orochi_dequeue_next_query 6 3 ?s = (fst (orochi_dequeue_next_query 6 3 ?s), Some 77)"
    by (simp add: orochi_dequeue_next_query_def q)
  have "\<forall>a < length (ws_queue ?s). qe_backend_pid (ws_queue ?s ! a) = 77 \<longrightarrow> a = 0"
    unfolding q by (auto simp: nth_Cons' free_entry_def)
  then have o: "\<forall>a < length (ws_queue ?s). \<forall>b < length (ws_queue ?s).
      qe_backend_pid (ws_queue ?s ! a) = 77 \<longrightarrow> qe_backend_pid (ws_queue ?s ! b) = 77 \<longrightarrow> a = b" by blast
  have "workload_enabled sample_gucs" by (simp add: sample_gucs_def)
  then show ?thesis using release_after_dequeue_miscounts [OF _ inv f _ d o] unfolding Let_def by simp
qed

end
