(* ===== verification/Workload_Sessions.thy ===== *)
theory Workload_Sessions
  imports Workload
begin

text \<open>
  The sessions of the workload manager (the second half of \<^verbatim>\<open>workload/workload.c\<close>): a hash table with linear probing in
  shared memory, the usage tracked per session and pool, names, and the SQL functions.
\<close>

section \<open>The session table\<close>

definition session_hash_slot :: "int \<Rightarrow> nat" where
  "session_hash_slot backend_pid = unat ((word_of_int backend_pid :: u32) * 2654435761) mod WORKLOAD_MAX_SESSIONS"

text \<open>Sixteen probes; an empty slot ends the search.\<close>

fun find_session_probe :: "SessionResourceTracker list \<Rightarrow> int \<Rightarrow> nat \<Rightarrow> nat \<Rightarrow> nat option" where
  "find_session_probe ss pid slot 0 = None"
| "find_session_probe ss pid slot (Suc n) =
     (let entry = ss ! slot in
      if st_backend_pid entry = 0 then None
      else if st_backend_pid entry = pid \<and> st_is_active entry then Some slot
      else find_session_probe ss pid ((slot + 1) mod WORKLOAD_MAX_SESSIONS) n)"

definition find_session_slot :: "WorkloadSharedState \<Rightarrow> int \<Rightarrow> nat option" where
  "find_session_slot s pid =
     (if \<not> ws_is_initialized s then None else find_session_probe (ws_sessions s) pid (session_hash_slot pid) 16)"

fun free_session_probe :: "int \<Rightarrow> SessionResourceTracker list \<Rightarrow> nat \<Rightarrow> nat \<Rightarrow> nat option" where
  "free_session_probe now ss slot 0 = None"
| "free_session_probe now ss slot (Suc n) =
     (let entry = ss ! slot in
      if st_backend_pid entry = 0 then Some slot
      else if \<not> st_is_active entry then Some slot
      else if st_last_activity entry > 0 \<and> now - st_last_activity entry > WORKLOAD_SESSION_IDLE_TIMEOUT then Some slot
      else free_session_probe now ss ((slot + 1) mod WORKLOAD_MAX_SESSIONS) n)"

text \<open>An expired entry is counted out when it is taken over.\<close>

definition find_free_session_slot :: "int \<Rightarrow> int \<Rightarrow> WorkloadSharedState \<Rightarrow> WorkloadSharedState \<times> nat option" where
  "find_free_session_slot now pid s =
     (case free_session_probe now (ws_sessions s) (session_hash_slot pid) 16 of
        None \<Rightarrow> (s, None)
      | Some i \<Rightarrow>
          if st_backend_pid (ws_sessions s ! i) \<noteq> 0 \<and> st_is_active (ws_sessions s ! i)
          then (s\<lparr>ws_sessions := (ws_sessions s)[i := (ws_sessions s ! i)\<lparr>st_is_active := False\<rparr>],
                  ws_num_sessions := ws_num_sessions s - 1\<rparr>, Some i)
          else (s, Some i))"

definition update_session :: "nat \<Rightarrow> (SessionResourceTracker \<Rightarrow> SessionResourceTracker) \<Rightarrow> WorkloadSharedState \<Rightarrow> WorkloadSharedState" where
  "update_session i f s = s\<lparr>ws_sessions := (ws_sessions s)[i := f (ws_sessions s ! i)]\<rparr>"

definition new_session :: "int \<Rightarrow> int \<Rightarrow> int \<Rightarrow> int \<Rightarrow> ResourceUsage \<Rightarrow> SessionResourceTracker" where
  "new_session now pid pool_id class_id u =
     \<lparr>st_backend_pid = pid, st_pool_id = pool_id, st_class_id = class_id, st_usage = u, st_active_queries = 0,
      st_session_start = now, st_last_activity = now, st_is_active = True\<rparr>"

definition orochi_assign_workload_class :: "int \<Rightarrow> int \<Rightarrow> int \<Rightarrow> WorkloadSharedState \<Rightarrow> WorkloadSharedState \<times> bool" where
  "orochi_assign_workload_class now pid class_id s =
     (if \<not> ws_is_initialized s then (s, False)
      else case orochi_get_workload_class s class_id of
             None \<Rightarrow> (s, False)
           | Some c \<Rightarrow>
               (case find_session_slot s pid of
                  Some i \<Rightarrow> (update_session i (\<lambda>e. e\<lparr>st_class_id := class_id, st_pool_id := wc_pool_id c, st_last_activity := now\<rparr>) s, True)
                | None \<Rightarrow>
                    (case find_free_session_slot now pid s of
                       (s, None) \<Rightarrow> (s, False)
                     | (s, Some i) \<Rightarrow>
                         ((update_session i (\<lambda>_. new_session now pid (wc_pool_id c) class_id zero_usage) s)
                            \<lparr>ws_num_sessions := ws_num_sessions s + 1\<rparr>, True))))"

definition orochi_assign_workload_class_by_name :: "int \<Rightarrow> int \<Rightarrow> string \<Rightarrow> WorkloadSharedState \<Rightarrow> WorkloadSharedState \<times> bool" where
  "orochi_assign_workload_class_by_name now pid class_name s =
     (case orochi_get_workload_class_by_name s class_name of
        None \<Rightarrow> (s, False)
      | Some c \<Rightarrow> orochi_assign_workload_class now pid (wc_class_id c) s)"

definition orochi_get_session_class_id :: "WorkloadSharedState \<Rightarrow> int \<Rightarrow> int" where
  "orochi_get_session_class_id s pid = (case find_session_slot s pid of None \<Rightarrow> 0 | Some i \<Rightarrow> st_class_id (ws_sessions s ! i))"

definition orochi_register_session :: "int \<Rightarrow> int \<Rightarrow> int \<Rightarrow> int \<Rightarrow> WorkloadSharedState \<Rightarrow> WorkloadSharedState \<times> bool" where
  "orochi_register_session now pid pool_id class_id s =
     (if \<not> ws_is_initialized s then (s, False)
      else case find_session_slot s pid of
             Some i \<Rightarrow> (update_session i (\<lambda>e. e\<lparr>st_pool_id := pool_id, st_class_id := class_id, st_last_activity := now\<rparr>) s, True)
           | None \<Rightarrow>
               (case find_free_session_slot now pid s of
                  (s, None) \<Rightarrow> (s, False)
                | (s, Some i) \<Rightarrow>
                    ((update_session i (\<lambda>_. new_session now pid pool_id class_id (zero_usage\<lparr>ru_last_updated := now\<rparr>)) s)
                       \<lparr>ws_num_sessions := ws_num_sessions s + 1\<rparr>, True)))"

definition orochi_unregister_session :: "int \<Rightarrow> WorkloadSharedState \<Rightarrow> WorkloadSharedState" where
  "orochi_unregister_session pid s =
     (case find_session_slot s pid of
        None \<Rightarrow> s
      | Some i \<Rightarrow>
          let u = st_usage (ws_sessions s ! i);
              s = update_pool (st_pool_id (ws_sessions s ! i))
                    (\<lambda>p. p\<lparr>rp_usage := (rp_usage p)
                           \<lparr>ru_cpu_time_us := ru_cpu_time_us (rp_usage p) + ru_cpu_time_us u,
                            ru_io_read_bytes := ru_io_read_bytes (rp_usage p) + ru_io_read_bytes u,
                            ru_io_write_bytes := ru_io_write_bytes (rp_usage p) + ru_io_write_bytes u\<rparr>\<rparr>) s
          in (update_session i (\<lambda>e. e\<lparr>st_backend_pid := 0, st_pool_id := 0, st_class_id := 0, st_is_active := False,
                                      st_active_queries := 0, st_usage := zero_usage\<rparr>) s)
               \<lparr>ws_num_sessions := max 0 (ws_num_sessions s - 1)\<rparr>)"

definition orochi_get_session_tracker :: "WorkloadSharedState \<Rightarrow> int \<Rightarrow> SessionResourceTracker option" where
  "orochi_get_session_tracker s pid = map_option (\<lambda>i. ws_sessions s ! i) (find_session_slot s pid)"

definition orochi_update_session_activity :: "int \<Rightarrow> int \<Rightarrow> WorkloadSharedState \<Rightarrow> WorkloadSharedState" where
  "orochi_update_session_activity now pid s =
     (case find_session_slot s pid of
        None \<Rightarrow> s
      | Some i \<Rightarrow> update_session i (\<lambda>e. e\<lparr>st_last_activity := now, st_usage := (st_usage e)\<lparr>ru_last_updated := now\<rparr>\<rparr>) s)"

section \<open>Usage of sessions and pools\<close>

definition orochi_track_session_cpu :: "int \<Rightarrow> int \<Rightarrow> int \<Rightarrow> WorkloadSharedState \<Rightarrow> WorkloadSharedState" where
  "orochi_track_session_cpu now pid cpu_time_us s =
     (if cpu_time_us \<le> 0 then s
      else case find_session_slot s pid of
             None \<Rightarrow> s
           | Some i \<Rightarrow>
               update_pool (st_pool_id (ws_sessions s ! i))
                 (\<lambda>p. p\<lparr>rp_usage := (rp_usage p)\<lparr>ru_cpu_time_us := ru_cpu_time_us (rp_usage p) + cpu_time_us, ru_last_updated := now\<rparr>\<rparr>)
                 (update_session i (\<lambda>e. e\<lparr>st_usage := (st_usage e)\<lparr>ru_cpu_time_us := ru_cpu_time_us (st_usage e) + cpu_time_us,
                                                                       ru_last_updated := now\<rparr>, st_last_activity := now\<rparr>) s))"

definition orochi_track_session_memory :: "int \<Rightarrow> int \<Rightarrow> int \<Rightarrow> WorkloadSharedState \<Rightarrow> WorkloadSharedState" where
  "orochi_track_session_memory now pid memory_bytes s =
     (case find_session_slot s pid of
        None \<Rightarrow> s
      | Some i \<Rightarrow>
          update_pool (st_pool_id (ws_sessions s ! i)) (\<lambda>p. p\<lparr>rp_usage := (rp_usage p)\<lparr>ru_last_updated := now\<rparr>\<rparr>)
            (update_session i
               (\<lambda>e. e\<lparr>st_usage := (st_usage e)\<lparr>ru_memory_bytes := memory_bytes,
                        ru_peak_memory_bytes := max (ru_peak_memory_bytes (st_usage e)) memory_bytes, ru_last_updated := now\<rparr>,
                      st_last_activity := now\<rparr>) s))"

definition add_io :: "int \<Rightarrow> int \<Rightarrow> int \<Rightarrow> ResourceUsage \<Rightarrow> ResourceUsage" where
  "add_io now read_bytes write_bytes u =
     u\<lparr>ru_io_read_bytes := (if read_bytes > 0 then ru_io_read_bytes u + read_bytes else ru_io_read_bytes u),
       ru_io_write_bytes := (if write_bytes > 0 then ru_io_write_bytes u + write_bytes else ru_io_write_bytes u),
       ru_last_updated := now\<rparr>"

definition orochi_track_session_io :: "int \<Rightarrow> int \<Rightarrow> int \<Rightarrow> int \<Rightarrow> WorkloadSharedState \<Rightarrow> WorkloadSharedState" where
  "orochi_track_session_io now pid read_bytes write_bytes s =
     (if read_bytes \<le> 0 \<and> write_bytes \<le> 0 then s
      else case find_session_slot s pid of
             None \<Rightarrow> s
           | Some i \<Rightarrow>
               update_pool (st_pool_id (ws_sessions s ! i)) (\<lambda>p. p\<lparr>rp_usage := add_io now read_bytes write_bytes (rp_usage p)\<rparr>)
                 (update_session i
                    (\<lambda>e. e\<lparr>st_usage := add_io now read_bytes write_bytes (st_usage e), st_last_activity := now\<rparr>) s))"

section \<open>Names and SQL functions\<close>

fun orochi_priority_name :: "QueryPriority \<Rightarrow> string" where
  "orochi_priority_name QUERY_PRIORITY_LOW = ''low''"
| "orochi_priority_name QUERY_PRIORITY_NORMAL = ''normal''"
| "orochi_priority_name QUERY_PRIORITY_HIGH = ''high''"
| "orochi_priority_name QUERY_PRIORITY_CRITICAL = ''critical''"

definition orochi_parse_priority :: "string \<Rightarrow> QueryPriority" where
  "orochi_parse_priority name =
     (if same_name name ''low'' then QUERY_PRIORITY_LOW
      else if same_name name ''normal'' then QUERY_PRIORITY_NORMAL
      else if same_name name ''high'' then QUERY_PRIORITY_HIGH
      else if same_name name ''critical'' then QUERY_PRIORITY_CRITICAL
      else QUERY_PRIORITY_NORMAL)"

fun orochi_pool_state_name :: "ResourcePoolState \<Rightarrow> string" where
  "orochi_pool_state_name POOL_STATE_ACTIVE = ''active''"
| "orochi_pool_state_name POOL_STATE_DRAINING = ''draining''"
| "orochi_pool_state_name POOL_STATE_DISABLED = ''disabled''"

definition orochi_parse_pool_state :: "string \<Rightarrow> ResourcePoolState" where
  "orochi_parse_pool_state name =
     (if same_name name ''active'' then POOL_STATE_ACTIVE
      else if same_name name ''draining'' then POOL_STATE_DRAINING
      else if same_name name ''disabled'' then POOL_STATE_DISABLED
      else POOL_STATE_ACTIVE)"

text \<open>A SQL argument that is NULL is \<^const>\<open>None\<close>.\<close>

definition orochi_create_resource_pool_sql ::
  "workload_gucs \<Rightarrow> int \<Rightarrow> workload_statics \<Rightarrow> string \<Rightarrow> int option \<Rightarrow> int option \<Rightarrow> int option \<Rightarrow> int option \<Rightarrow> WorkloadSharedState \<Rightarrow>
   pg_error + (workload_statics \<times> WorkloadSharedState \<times> int)" where
  "orochi_create_resource_pool_sql g now st pool_name cpu_percent memory_mb max_concurrency priority_weight s =
     orochi_create_resource_pool g now st pool_name
       (Some (zero_limits\<lparr>rl_cpu_percent := case_option 100 id cpu_percent, rl_memory_mb := case_option 0 id memory_mb,
                         rl_max_concurrency := case_option 0 id max_concurrency,
                         rl_query_timeout_ms := default_query_timeout_ms g\<rparr>))
       (case_option 50 id priority_weight) s"

definition orochi_alter_resource_pool_sql ::
  "int \<Rightarrow> int option \<Rightarrow> int option \<Rightarrow> int option \<Rightarrow> int option \<Rightarrow> WorkloadSharedState \<Rightarrow> pg_error + (WorkloadSharedState \<times> bool)" where
  "orochi_alter_resource_pool_sql pool_id cpu_percent memory_mb max_concurrency priority_weight s =
     (case orochi_get_resource_pool s pool_id of
        None \<Rightarrow> Inr (s, False)
      | Some current \<Rightarrow>
          let pick = (\<lambda>v old. if case_option (- 1) id v \<ge> (0::int) then case_option (- 1) id v else old);
              l = rp_limits current
          in orochi_alter_resource_pool pool_id
               (Some (l\<lparr>rl_cpu_percent := pick cpu_percent (rl_cpu_percent l), rl_memory_mb := pick memory_mb (rl_memory_mb l),
                        rl_max_concurrency := pick max_concurrency (rl_max_concurrency l)\<rparr>))
               (case_option (- 1) id priority_weight) s)"

definition orochi_drop_resource_pool_sql :: "string \<Rightarrow> bool option \<Rightarrow> WorkloadSharedState \<Rightarrow> pg_error + (WorkloadSharedState \<times> bool)" where
  "orochi_drop_resource_pool_sql pool_name if_exists s =
     (case orochi_get_resource_pool_by_name s pool_name of
        Some pool \<Rightarrow> orochi_drop_resource_pool (rp_pool_id pool) (case_option False id if_exists) s
      | None \<Rightarrow> if case_option False id if_exists then Inr (s, False) else Inl (ERROR ''resource pool does not exist''))"

definition orochi_assign_workload_class_sql :: "int \<Rightarrow> int \<Rightarrow> string \<Rightarrow> WorkloadSharedState \<Rightarrow> WorkloadSharedState \<times> bool" where
  "orochi_assign_workload_class_sql now my_pid class_name s = orochi_assign_workload_class_by_name now my_pid class_name s"

section \<open>Probing\<close>

definition sessions_wf :: "WorkloadSharedState \<Rightarrow> bool" where
  "sessions_wf s = (ws_is_initialized s \<and> length (ws_sessions s) = WORKLOAD_MAX_SESSIONS)"

lemma hash_slot_less: "session_hash_slot pid < 1024"
  by (simp add: session_hash_slot_def)

text \<open>A slot that may be taken over.\<close>

definition reusable :: "int \<Rightarrow> SessionResourceTracker \<Rightarrow> bool" where
  "reusable now e = (st_backend_pid e = 0 \<or> \<not> st_is_active e \<or>
     st_last_activity e > 0 \<and> now - st_last_activity e > WORKLOAD_SESSION_IDLE_TIMEOUT)"

lemma free_probe_step:
  "free_session_probe now ss slot (Suc n) =
     (if reusable now (ss ! slot) then Some slot else free_session_probe now ss ((slot + 1) mod 1024) n)"
  by (auto simp: reusable_def Let_def)

lemma free_probe_found:
  "free_session_probe now ss slot n = Some i \<Longrightarrow> slot < 1024 \<Longrightarrow> i < 1024 \<and> reusable now (ss ! i)"
  by (induction n arbitrary: slot) (auto simp: free_probe_step simp del: free_session_probe.simps(2) split: if_splits)

lemma find_probe_found:
  "find_session_probe ss pid slot n = Some i \<Longrightarrow> slot < 1024 \<Longrightarrow>
     i < 1024 \<and> st_backend_pid (ss ! i) = pid \<and> st_is_active (ss ! i) \<and> pid \<noteq> 0"
  by (induction n arbitrary: slot) (auto simp: Let_def split: if_splits)

text \<open>A new entry in the free slot is found from the same start.\<close>

lemma find_probe_new:
  assumes "find_session_probe ss pid slot n = None" and "free_session_probe now ss slot n = Some i"
    and "slot < 1024" "length ss = 1024" "pid \<noteq> 0" "st_backend_pid e = pid" "st_is_active e"
  shows "find_session_probe (ss[i := e]) pid slot n = Some i"
  using assms
proof (induction n arbitrary: slot)
  case (Suc n)
  show ?case
  proof (cases "reusable now (ss ! slot)")
    case True
    with Suc.prems show ?thesis by (simp add: free_probe_step del: free_session_probe.simps(2))
  next
    case False
    with Suc.prems have f: "free_session_probe now ss ((slot + 1) mod 1024) n = Some i"
      by (simp add: free_probe_step del: free_session_probe.simps(2))
    then have "slot \<noteq> i" using False free_probe_found by auto
    moreover have "st_backend_pid (ss ! slot) \<noteq> 0" "st_backend_pid (ss ! slot) \<noteq> pid" "st_is_active (ss ! slot)"
      using False Suc.prems(1) by (auto simp: reusable_def Let_def split: if_splits)
    ultimately show ?thesis using Suc f by (simp add: Let_def split: if_splits)
  qed
qed simp

text \<open>Writing a used slot keeps the sessions of other backends in sight.\<close>

lemma find_probe_other:
  assumes "find_session_probe ss q slot n = Some j" and "i \<noteq> j" "slot < 1024" "length ss = 1024"
    and "st_backend_pid e \<noteq> 0" "st_backend_pid e \<noteq> q"
  shows "find_session_probe (ss[i := e]) q slot n = Some j"
  using assms
proof (induction n arbitrary: slot)
  case (Suc n)
  then show ?case by (cases "slot = i") (auto simp: Let_def split: if_splits)
qed simp

lemma find_probe_same:
  assumes "st_backend_pid e = st_backend_pid (ss ! i)" "st_is_active e = st_is_active (ss ! i)" "length ss = 1024" "slot < 1024"
  shows "find_session_probe (ss[i := e]) q slot n = find_session_probe ss q slot n"
  using assms(4)
proof (induction n arbitrary: slot)
  case (Suc n)
  then show ?case using assms(1-3) by (cases "slot = i") (simp_all add: Let_def)
qed simp

section \<open>Properties\<close>

lemma register_cases:
  assumes wf: "sessions_wf s" and r: "orochi_register_session now pid k c s = (s', True)"
  obtains (update) i where "find_session_slot s pid = Some i"
      "s' = update_session i (\<lambda>e. e\<lparr>st_pool_id := k, st_class_id := c, st_last_activity := now\<rparr>) s"
  | (insert) i n where "find_session_slot s pid = None" "free_session_probe now (ws_sessions s) (session_hash_slot pid) 16 = Some i"
      "i < 1024" "reusable now (ws_sessions s ! i)" "s' = s\<lparr>ws_sessions := (ws_sessions s)
         [i := new_session now pid k c (zero_usage\<lparr>ru_last_updated := now\<rparr>)], ws_num_sessions := n\<rparr>"
proof (cases "find_session_slot s pid")
  case None
  from r wf None obtain i where i: "free_session_probe now (ws_sessions s) (session_hash_slot pid) 16 = Some i"
    by (auto simp: orochi_register_session_def sessions_wf_def find_free_session_slot_def split: option.splits)
  note f = free_probe_found [OF i hash_slot_less]
  have "s' = s\<lparr>ws_sessions := (ws_sessions s)[i := new_session now pid k c (zero_usage\<lparr>ru_last_updated := now\<rparr>)],
      ws_num_sessions := ws_num_sessions s'\<rparr>"
    using r wf None i f by (cases s)
      (auto simp: orochi_register_session_def sessions_wf_def find_free_session_slot_def update_session_def split: if_splits)
  with None i f insert show ?thesis by blast
next
  case (Some i)
  then show ?thesis using r wf update by (simp add: orochi_register_session_def sessions_wf_def)
qed

text \<open>C15: a session that was registered is found under its pid with the pool and class given, and every other session that is
  not idle for longer than the timeout is found with what it had.\<close>

theorem registered_session_is_found:
  assumes wf: "sessions_wf s" and pid: "pid \<noteq> 0" and r: "orochi_register_session now pid k c s = (s', True)"
  shows "(\<exists>t. orochi_get_session_tracker s' pid = Some t \<and> st_backend_pid t = pid \<and> st_pool_id t = k \<and> st_class_id t = c) \<and>
         (\<forall>q t. q \<noteq> pid \<longrightarrow> orochi_get_session_tracker s q = Some t \<longrightarrow> \<not> reusable now t \<longrightarrow> orochi_get_session_tracker s' q = Some t) \<and>
         sessions_wf s'"
  using wf r
proof (cases rule: register_cases)
  case (update i)
  note f = find_probe_found [OF _ hash_slot_less]
  have i: "i < 1024" "st_backend_pid (ws_sessions s ! i) = pid"
    using f [of "ws_sessions s" pid pid 16 i] update(1) wf by (auto simp: find_session_slot_def split: if_splits)
  have "find_session_slot s' q = find_session_slot s q" for q
    using wf i update by (simp add: find_session_slot_def update_session_def sessions_wf_def find_probe_same hash_slot_less)
  moreover have "orochi_get_session_tracker s' q = Some t" if q: "q \<noteq> pid" "orochi_get_session_tracker s q = Some t" for q t
  proof -
    obtain j where j: "find_session_slot s q = Some j" "t = ws_sessions s ! j"
      using q(2) by (auto simp: orochi_get_session_tracker_def)
    then have "j \<noteq> i" using f [of "ws_sessions s" q q 16 j] q(1) i by (auto simp: find_session_slot_def split: if_splits)
    with j calculation update show ?thesis by (simp add: orochi_get_session_tracker_def update_session_def)
  qed
  ultimately show ?thesis
    using wf update i by (auto simp: orochi_get_session_tracker_def update_session_def sessions_wf_def)
next
  case (insert i n)
  let ?e = "new_session now pid k c (zero_usage\<lparr>ru_last_updated := now\<rparr>)"
  have e: "st_backend_pid ?e = pid" "st_is_active ?e" "st_pool_id ?e = k" "st_class_id ?e = c" by (simp_all add: new_session_def)
  have wf': "ws_is_initialized s" "length (ws_sessions s) = 1024" using wf by (simp_all add: sessions_wf_def)
  have "find_session_slot s' pid = Some i"
    using find_probe_new [OF _ insert(2) hash_slot_less] insert wf' pid e by (simp add: find_session_slot_def)
  moreover have "orochi_get_session_tracker s' q = Some t"
    if q: "q \<noteq> pid" "orochi_get_session_tracker s q = Some t" "\<not> reusable now t" for q t
  proof -
    obtain j where j: "find_session_probe (ws_sessions s) q (session_hash_slot q) 16 = Some j" "t = ws_sessions s ! j"
      using q(2) wf' by (auto simp: orochi_get_session_tracker_def find_session_slot_def)
    then have "i \<noteq> j" using q(3) insert(4) by auto
    then show ?thesis
      using find_probe_other [OF j(1) _ hash_slot_less] j insert wf' pid q(1) e
      by (simp add: orochi_get_session_tracker_def find_session_slot_def)
  qed
  ultimately show ?thesis using insert wf' e by (auto simp: orochi_get_session_tracker_def sessions_wf_def)
qed

text \<open>The first two of sixteen probes.\<close>

lemma find_probe_two:
  "find_session_probe ss pid slot (Suc (Suc n)) =
     (if st_backend_pid (ss ! slot) = 0 then None
      else if st_backend_pid (ss ! slot) = pid \<and> st_is_active (ss ! slot) then Some slot
      else let slot' = (slot + 1) mod 1024 in
           if st_backend_pid (ss ! slot') = 0 then None
           else if st_backend_pid (ss ! slot') = pid \<and> st_is_active (ss ! slot') then Some slot'
           else find_session_probe ss pid ((slot' + 1) mod 1024) n)"
  by (simp add: Let_def)

lemma find_probe_16:
  "find_session_probe ss pid slot 16 =
     (if st_backend_pid (ss ! slot) = 0 then None
      else if st_backend_pid (ss ! slot) = pid \<and> st_is_active (ss ! slot) then Some slot
      else let slot' = (slot + 1) mod 1024 in
           if st_backend_pid (ss ! slot') = 0 then None
           else if st_backend_pid (ss ! slot') = pid \<and> st_is_active (ss ! slot') then Some slot'
           else find_session_probe ss pid ((slot' + 1) mod 1024) 14)"
  using find_probe_two [of ss pid slot 14] by (simp add: Let_def del: find_session_probe.simps)

lemma free_probe_16:
  "free_session_probe now ss slot 16 =
     (if reusable now (ss ! slot) then Some slot
      else if reusable now (ss ! ((slot + 1) mod 1024)) then Some ((slot + 1) mod 1024)
      else free_session_probe now ss (((slot + 1) mod 1024 + 1) mod 1024) 14)"
  using free_probe_step [of now ss slot 15] free_probe_step [of now ss "(slot + 1) mod 1024" 14] by simp

lemma find_in_slot:
  "sessions_wf s \<Longrightarrow> st_backend_pid (ws_sessions s ! session_hash_slot pid) = pid \<Longrightarrow>
     st_is_active (ws_sessions s ! session_hash_slot pid) \<Longrightarrow> pid \<noteq> 0 \<Longrightarrow> find_session_slot s pid = Some (session_hash_slot pid)"
  by (simp add: find_session_slot_def sessions_wf_def find_probe_16)

lemma find_in_empty: "st_backend_pid (ws_sessions s ! session_hash_slot pid) = 0 \<Longrightarrow> find_session_slot s pid = None"
  by (simp add: find_session_slot_def find_probe_16)

lemma register_in_empty:
  assumes "sessions_wf s" "st_backend_pid (ws_sessions s ! session_hash_slot pid) = 0"
  shows "orochi_register_session now pid k c s =
     (s\<lparr>ws_sessions := (ws_sessions s)[session_hash_slot pid := new_session now pid k c (zero_usage\<lparr>ru_last_updated := now\<rparr>)],
        ws_num_sessions := ws_num_sessions s + 1\<rparr>, True)"
proof -
  have "free_session_probe now (ws_sessions s) (session_hash_slot pid) 16 = Some (session_hash_slot pid)"
    using assms(2) by (simp add: free_probe_16 reusable_def)
  then show ?thesis
    using assms find_in_empty [OF assms(2)]
    by (simp add: orochi_register_session_def sessions_wf_def find_free_session_slot_def update_session_def)
qed

theorem registered_session_is_found_witness:
  "\<exists>t. orochi_get_session_tracker (fst (orochi_register_session 5 77 1 2 initial_workload)) 77 = Some t \<and> st_class_id t = 2"
proof -
  have wf: "sessions_wf initial_workload" by (simp add: sessions_wf_def initial_workload_def)
  have "st_backend_pid (ws_sessions initial_workload ! session_hash_slot 77) = 0"
    using hash_slot_less [of 77] by (simp add: initial_workload_def free_session_def)
  then have "orochi_register_session 5 77 1 2 initial_workload = (fst (orochi_register_session 5 77 1 2 initial_workload), True)"
    using register_in_empty [OF wf] by simp
  then show ?thesis using registered_session_is_found [OF wf, of 77 5 1 2 "fst (orochi_register_session 5 77 1 2 initial_workload)"]
    by auto
qed

text \<open>unregistering a session empties its slot, and the search stops at empty slots: a session that was registered behind
  it in the same probe sequence is still in the table but no longer found.\<close>

theorem unregister_hides_other_session:
  assumes wf: "sessions_wf s" and pq: "p \<noteq> q" "p \<noteq> 0" "q \<noteq> 0" "session_hash_slot q = session_hash_slot p" and now: "0 < now"
    and empty: "st_backend_pid (ws_sessions s ! session_hash_slot p) = 0"
      "st_backend_pid (ws_sessions s ! ((session_hash_slot p + 1) mod 1024)) = 0"
  shows "let s1 = fst (orochi_register_session now p k c s); s2 = fst (orochi_register_session now q k' c' s1);
             s3 = orochi_unregister_session p s2
         in orochi_get_session_tracker s2 q \<noteq> None \<and> orochi_get_session_tracker s3 q = None \<and>
            (\<exists>i < 1024. st_backend_pid (ws_sessions s3 ! i) = q \<and> st_is_active (ws_sessions s3 ! i))"
proof -
  let ?h = "session_hash_slot p" let ?h' = "(?h + 1) mod 1024"
  let ?e = "\<lambda>p k c. new_session now p k c (zero_usage\<lparr>ru_last_updated := now\<rparr>)"
  define s1 where "s1 = fst (orochi_register_session now p k c s)"
  define s2 where "s2 = fst (orochi_register_session now q k' c' s1)"
  define s3 where "s3 = orochi_unregister_session p s2"
  have h: "?h < 1024" "?h' < 1024" "?h' \<noteq> ?h" using hash_slot_less [of p] by (auto simp: mod_if)
  have wf': "ws_is_initialized s" "length (ws_sessions s) = 1024" using wf by (simp_all add: sessions_wf_def)
  have s1: "ws_sessions s1 = (ws_sessions s)[?h := ?e p k c]" "sessions_wf s1"
    unfolding s1_def using register_in_empty [OF wf empty(1)] wf by (simp_all add: sessions_wf_def)
  have fn: "find_session_slot s1 q = None"
    using pq h wf' empty(2) s1 by (simp add: find_session_slot_def find_probe_16 new_session_def)
  have "free_session_probe now (ws_sessions s1) (session_hash_slot q) 16 = Some ?h'"
    using pq h wf' empty(2) s1 now by (simp add: free_probe_16 reusable_def new_session_def)
  then have s2: "ws_sessions s2 = (ws_sessions s1)[?h' := ?e q k' c']" "sessions_wf s2"
    unfolding s2_def using fn s1 h wf' empty(2)
    by (auto simp: orochi_register_session_def find_free_session_slot_def update_session_def sessions_wf_def)
  have q2: "find_session_slot s2 q = Some ?h'"
    using pq h wf' s1 s2 by (simp add: find_session_slot_def sessions_wf_def find_probe_16 new_session_def)
  have "find_session_slot s2 p = Some ?h"
    using find_in_slot [OF s2(2), of p] h wf' s1 s2 pq by (simp add: new_session_def)
  then have s3: "ws_sessions s3 = (ws_sessions s2)[?h := (ws_sessions s2 ! ?h)\<lparr>st_backend_pid := 0, st_pool_id := 0, st_class_id := 0,
      st_is_active := False, st_active_queries := 0, st_usage := zero_usage\<rparr>]"
    by (simp add: s3_def orochi_unregister_session_def update_session_def frame_simps Let_def)
  have "find_session_slot s3 q = None" using find_in_empty [of s3 q] s1 s2 s3 h wf' pq by simp
  moreover have "\<exists>i < 1024. st_backend_pid (ws_sessions s3 ! i) = q \<and> st_is_active (ws_sessions s3 ! i)"
    using s1 s2 s3 h wf' by (intro exI [of _ "?h'"]) (simp add: new_session_def)
  ultimately show ?thesis
    unfolding Let_def s1_def [symmetric] s2_def [symmetric] s3_def [symmetric]
    using q2 h(2) by (auto simp: orochi_get_session_tracker_def)
qed


lemma initial_sessions_empty: "sessions_wf initial_workload \<and> (\<forall>i < 1024. st_backend_pid (ws_sessions initial_workload ! i) = 0)"
  by (simp add: sessions_wf_def initial_workload_def free_session_def)

theorem unregister_hides_other_session_witness:
  "orochi_get_session_tracker (orochi_unregister_session 1
     (fst (orochi_register_session 9 1025 2 2 (fst (orochi_register_session 9 1 2 2 initial_workload))))) 1025 = None"
proof -
  have "session_hash_slot 1025 = session_hash_slot 1" by (simp add: session_hash_slot_def)
  then show ?thesis
    using unregister_hides_other_session [of initial_workload 1 1025 9 2 2 2 2] initial_sessions_empty hash_slot_less [of 1]
    by (simp add: Let_def)
qed

text \<open>the CPU time of a session is added to its pool when it is tracked and again when the session ends: a pool is charged
  twice for everything its sessions used.\<close>

theorem unregister_charges_pool_twice:
  assumes wf: "sessions_wf s" and i: "find_session_slot s pid = Some i" and t: "0 < t"
    and n: "find_pool s (st_pool_id (ws_sessions s ! i)) = Some n" and fresh: "ru_cpu_time_us (st_usage (ws_sessions s ! i)) = 0"
  shows "ru_cpu_time_us (rp_usage (ws_pools (orochi_unregister_session pid (orochi_track_session_cpu now pid t s)) ! n)) =
         ru_cpu_time_us (rp_usage (ws_pools s ! n)) + 2 * t"
proof -
  let ?k = "st_pool_id (ws_sessions s ! i)" let ?s = "orochi_track_session_cpu now pid t s"
  have len: "i < length (ws_sessions s)"
    using find_probe_found [OF _ hash_slot_less, of "ws_sessions s" pid pid 16 i] i wf
    by (auto simp: find_session_slot_def sessions_wf_def)
  have n': "find_index (\<lambda>p. rp_pool_id p = ?k) (ws_pools s) = Some n" using n by (simp add: find_pool_def)
  have ss: "ws_sessions ?s = (ws_sessions s)[i := (ws_sessions s ! i)
      \<lparr>st_usage := (st_usage (ws_sessions s ! i))\<lparr>ru_cpu_time_us := t, ru_last_updated := now\<rparr>, st_last_activity := now\<rparr>]"
    "ws_is_initialized ?s = ws_is_initialized s"
    using i t fresh by (simp_all add: orochi_track_session_cpu_def frame_simps update_session_def)
  have ps: "ws_pools ?s = (ws_pools s)[n := (ws_pools s ! n)\<lparr>rp_usage := (rp_usage (ws_pools s ! n))
      \<lparr>ru_cpu_time_us := ru_cpu_time_us (rp_usage (ws_pools s ! n)) + t, ru_last_updated := now\<rparr>\<rparr>]"
    using i t by (simp add: orochi_track_session_cpu_def frame_simps update_session_def modify_first_Some [OF n'])
  have "find_session_slot ?s pid = Some i"
    using i wf len ss by (simp add: find_session_slot_def sessions_wf_def find_probe_same hash_slot_less)
  moreover have "find_index (\<lambda>p. rp_pool_id p = ?k) (ws_pools ?s) = Some n"
    using n' find_index_SomeD [OF n'] by (simp add: ps find_index_update_same)
  ultimately show ?thesis
    using len ss ps find_index_SomeD [OF n']
    by (simp add: orochi_unregister_session_def frame_simps update_session_def Let_def modify_first_Some)
qed

theorem unregister_charges_pool_twice_witness:
  "let s = fst (orochi_register_session 5 77 3 2 narrow_state)
   in ru_cpu_time_us (rp_usage (ws_pools (orochi_unregister_session 77 (orochi_track_session_cpu 6 77 1000 s)) ! 0)) = 2000"
proof -
  let ?s = "fst (orochi_register_session 5 77 3 2 narrow_state)" let ?h = "session_hash_slot 77"
  have wf: "sessions_wf narrow_state" and e: "st_backend_pid (ws_sessions narrow_state ! ?h) = 0"
    using initial_sessions_empty hash_slot_less [of 77] by (simp_all add: narrow_state_def sessions_wf_def)
  have ss: "ws_sessions ?s = (ws_sessions narrow_state)[?h := new_session 5 77 3 2 (zero_usage\<lparr>ru_last_updated := 5\<rparr>)]"
    "ws_pools ?s = [narrow_pool]" "sessions_wf ?s"
    using register_in_empty [OF wf e] wf by (simp_all add: sessions_wf_def narrow_state_def)
  have len: "?h < length (ws_sessions narrow_state)" using wf hash_slot_less [of 77] by (simp add: sessions_wf_def)
  then have "find_session_slot ?s 77 = Some ?h" using find_in_slot [OF ss(3), of 77] ss by (simp add: new_session_def)
  then show ?thesis
    using unregister_charges_pool_twice [OF ss(3), of 77 ?h 1000 0 6] ss len
    by (simp add: find_pool_def new_session_def narrow_pool_def free_pool_def zero_usage_def Let_def)
qed


lemma create_slot:
  assumes r: "orochi_create_resource_pool g now st a limits w s = Inr (st', s', k)"
  shows "\<exists>i p. find_index (\<lambda>p. rp_pool_id p = 0) (ws_pools s) = Some i \<and> ws_pools s' = (ws_pools s)[i := p] \<and>
    rp_pool_id p = next_pool_id st \<and> rp_pool_name p = a \<and> k = next_pool_id st"
proof -
  obtain i where i: "find_index (\<lambda>p. rp_pool_id p = 0) (ws_pools s) = Some i"
    using r by (auto simp: orochi_create_resource_pool_def find_free_pool_slot_def split: if_splits option.splits)
  with r show ?thesis
    by (auto simp: orochi_create_resource_pool_def find_free_pool_slot_def allocate_pool_id_def split: if_splits)
qed

text \<open>the counters for ids are static variables of a process. Two backends forked from the same server give the same id to
  their pools, and the id then denotes the pool of the first: the second pool can be neither altered nor dropped nor used.\<close>

theorem pool_ids_collide_across_backends:
  assumes a: "orochi_create_resource_pool g now st a limits w s = Inr (st1, s1, k1)"
    and b: "orochi_create_resource_pool g now' st b limits' w' s1 = Inr (st2, s2, k2)"
    and ids: "\<forall>p \<in> set (ws_pools s). rp_pool_id p < next_pool_id st" and st: "0 < next_pool_id st"
  shows "k1 = k2 \<and> (\<exists>p. orochi_get_resource_pool s2 k2 = Some p \<and> rp_pool_name p = a)"
proof -
  obtain i p where i: "find_index (\<lambda>p. rp_pool_id p = 0) (ws_pools s) = Some i" "ws_pools s1 = (ws_pools s)[i := p]"
      "rp_pool_id p = next_pool_id st" "rp_pool_name p = a" "k1 = next_pool_id st"
    using create_slot [OF a] by blast
  obtain j q where j: "find_index (\<lambda>p. rp_pool_id p = 0) (ws_pools s1) = Some j" "ws_pools s2 = (ws_pools s1)[j := q]"
      "rp_pool_id q = next_pool_id st" "k2 = next_pool_id st"
    using create_slot [OF b] by blast
  have il: "i < length (ws_pools s)" "\<forall>n < i. rp_pool_id (ws_pools s ! n) \<noteq> 0" using i(1) by (simp_all add: find_index_Some)
  have "j > i"
    using j(1) il i(2,3) st by (auto simp: find_index_Some nth_list_update split: if_splits) (metis linorder_neqE_nat)
  moreover have "rp_pool_id (ws_pools s ! n) \<noteq> next_pool_id st" if "n < i" for n
    using ids il(1) that by (metis less_irrefl less_trans nth_mem)
  ultimately have "find_index (\<lambda>p. rp_pool_id p = k2) (ws_pools s2) = Some i" "ws_pools s2 ! i = p"
    using il i(2,3) j(2,4) by (auto simp: find_index_Some nth_list_update)
  then show ?thesis using i(4,5) j(4) by (simp add: orochi_get_resource_pool_def find_conv_index)
qed

theorem pool_ids_collide_across_backends_witness:
  "\<exists>st1 s1 st2 s2 k1 k2.
     orochi_create_resource_pool sample_gucs 0 \<lparr>next_pool_id = 3, next_class_id = 1\<rparr> ''a'' None 50
       (narrow_state\<lparr>ws_pools := [free_pool, free_pool]\<rparr>) = Inr (st1, s1, k1) \<and>
     orochi_create_resource_pool sample_gucs 0 \<lparr>next_pool_id = 3, next_class_id = 1\<rparr> ''b'' None 50 s1 = Inr (st2, s2, k2) \<and>
     map_option rp_pool_name (orochi_get_resource_pool s2 k2) = Some ''a''"
proof -
  let ?st = "\<lparr>next_pool_id = 3, next_class_id = 1\<rparr> :: workload_statics" let ?s = "narrow_state\<lparr>ws_pools := [free_pool, free_pool]\<rparr>"
  note defs = orochi_create_resource_pool_def find_free_pool_slot_def allocate_pool_id_def free_pool_def narrow_state_def Let_def
  have "\<exists>st1 s1 k1 p. orochi_create_resource_pool sample_gucs 0 ?st ''a'' None 50 ?s = Inr (st1, s1, k1) \<and>
      ws_pools s1 = [p, free_pool] \<and> rp_pool_name p = ''a'' \<and> rp_pool_id p = 3" by (simp add: defs)
  then obtain st1 s1 k1 p where a: "orochi_create_resource_pool sample_gucs 0 ?st ''a'' None 50 ?s = Inr (st1, s1, k1)"
      "ws_pools s1 = [p, free_pool]" "rp_pool_name p = ''a''" "rp_pool_id p = 3" by blast
  have "\<not> list_ex (\<lambda>p. rp_pool_id p \<noteq> 0 \<and> rp_pool_name p = ''b'') (take n (ws_pools s1))" for n
    using a(2,3) by (auto simp: list_ex_iff free_pool_def dest!: in_set_takeD)
  then have "\<exists>st2 s2 k2. orochi_create_resource_pool sample_gucs 0 ?st ''b'' None 50 s1 = Inr (st2, s2, k2)"
    using a(2,4) by (simp add: orochi_create_resource_pool_def find_free_pool_slot_def allocate_pool_id_def free_pool_def Let_def)
  then obtain st2 s2 k2 where b: "orochi_create_resource_pool sample_gucs 0 ?st ''b'' None 50 s1 = Inr (st2, s2, k2)" by blast
  have "\<exists>p. orochi_get_resource_pool s2 k2 = Some p \<and> rp_pool_name p = ''a''"
    using pool_ids_collide_across_backends [OF a(1) b] by (simp add: free_pool_def)
  with a(1) b show ?thesis by fastforce
qed

end
