(* ===== verification/Governor.thy ===== *)
theory Governor
  imports Workload
begin

text \<open>
  The resource governor (\<^verbatim>\<open>workload/resource_governor.c\<close>): CPU time, memory and I/O of every backend, kept in a table of
  1024 slots in shared memory, the limits checked against them, and the totals over all sessions.

  \<^verbatim>\<open>GovernorState\<close> is NULL before \<^verbatim>\<open>orochi_governor_init\<close>: the state is an \<open>option\<close>. Every function runs under the lock, so
  a call is one step; it reads the clock once (\<open>now\<close>, in microseconds), where the code may read it again within the call.
\<close>

section \<open>The shared state\<close>

abbreviation (input) MAX_TRACKED_SESSIONS :: nat where "MAX_TRACKED_SESSIONS \<equiv> 1024"
abbreviation (input) IO_WINDOW_MS :: int where "IO_WINDOW_MS \<equiv> 1000"
abbreviation (input) CPU_WINDOW_MS :: int where "CPU_WINDOW_MS \<equiv> 1000"

record SessionResourceState =
  ss_backend_pid :: int
  ss_pool_id :: int
  ss_class_id :: int
  ss_cpu_time_us :: int
  ss_cpu_limit_us :: int
  ss_cpu_window_start :: int
  ss_memory_bytes :: int
  ss_memory_limit_bytes :: int
  ss_peak_memory_bytes :: int
  ss_io_read_bytes :: int
  ss_io_write_bytes :: int
  ss_io_read_limit_bps :: int
  ss_io_write_limit_bps :: int
  ss_io_window_start :: int
  ss_io_read_window :: int
  ss_io_write_window :: int
  ss_active_queries :: int
  ss_query_start_time :: int
  ss_query_timeout_ms :: int
  ss_is_active :: bool
  ss_last_activity :: int

record GovernorSharedState =
  gs_sessions :: "SessionResourceState list"
  gs_num_sessions :: int
  gs_total_cpu_time_us :: int
  gs_total_memory_bytes :: int
  gs_total_io_bytes :: int

text \<open>What \<^verbatim>\<open>memset(session, 0, ...)\<close> leaves.\<close>

definition zero_session :: SessionResourceState where
  "zero_session = \<lparr>ss_backend_pid = 0, ss_pool_id = 0, ss_class_id = 0, ss_cpu_time_us = 0, ss_cpu_limit_us = 0,
     ss_cpu_window_start = 0, ss_memory_bytes = 0, ss_memory_limit_bytes = 0, ss_peak_memory_bytes = 0,
     ss_io_read_bytes = 0, ss_io_write_bytes = 0, ss_io_read_limit_bps = 0, ss_io_write_limit_bps = 0,
     ss_io_window_start = 0, ss_io_read_window = 0, ss_io_write_window = 0, ss_active_queries = 0,
     ss_query_start_time = 0, ss_query_timeout_ms = 0, ss_is_active = False, ss_last_activity = 0\<rparr>"

definition orochi_governor_init :: "GovernorSharedState option \<Rightarrow> GovernorSharedState" where
  "orochi_governor_init existing =
     (case existing of
        Some g \<Rightarrow> g
      | None \<Rightarrow> \<lparr>gs_sessions = replicate MAX_TRACKED_SESSIONS zero_session, gs_num_sessions = 0, gs_total_cpu_time_us = 0,
                 gs_total_memory_bytes = 0, gs_total_io_bytes = 0\<rparr>)"

section \<open>The session of a backend\<close>

definition find_session_state :: "GovernorSharedState \<Rightarrow> int \<Rightarrow> nat option" where
  "find_session_state g pid = find_index (\<lambda>s. ss_backend_pid s = pid \<and> ss_is_active s) (gs_sessions g)"

text \<open>A stale session: active, without queries, and idle for five minutes.\<close>

definition is_stale :: "int \<Rightarrow> SessionResourceState \<Rightarrow> bool" where
  "is_stale now s = (ss_is_active s \<and> ss_last_activity s < now - 300000 * 1000 \<and> ss_active_queries s = 0)"

definition clean_slot :: "int \<Rightarrow> nat \<Rightarrow> GovernorSharedState \<Rightarrow> GovernorSharedState" where
  "clean_slot now i g =
     (let s = gs_sessions g ! i in
      if is_stale now s
      then g\<lparr>gs_total_memory_bytes := wrap_i64 (gs_total_memory_bytes g - ss_memory_bytes s),
             gs_sessions := (gs_sessions g)[i := s\<lparr>ss_is_active := False, ss_backend_pid := 0\<rparr>],
             gs_num_sessions := gs_num_sessions g - 1\<rparr>
      else g)"

definition cleanup_inactive_sessions :: "int \<Rightarrow> GovernorSharedState \<Rightarrow> GovernorSharedState" where
  "cleanup_inactive_sessions now g = fold (clean_slot now) [0 ..< length (gs_sessions g)] g"

definition new_session_state :: "int \<Rightarrow> int \<Rightarrow> SessionResourceState" where
  "new_session_state now pid =
     zero_session\<lparr>ss_backend_pid := pid, ss_is_active := True, ss_cpu_window_start := now, ss_io_window_start := now,
       ss_last_activity := now\<rparr>"

definition create_session_state :: "int \<Rightarrow> int \<Rightarrow> nat \<Rightarrow> GovernorSharedState \<Rightarrow> GovernorSharedState" where
  "create_session_state now pid i g =
     g\<lparr>gs_sessions := (gs_sessions g)[i := new_session_state now pid], gs_num_sessions := gs_num_sessions g + 1\<rparr>"

definition find_or_create_session_state :: "int \<Rightarrow> int \<Rightarrow> GovernorSharedState \<Rightarrow> nat option \<times> GovernorSharedState" where
  "find_or_create_session_state now pid g =
     (case find_session_state g pid of
        Some i \<Rightarrow> (Some i, g)
      | None \<Rightarrow>
          (case find_index (\<lambda>s. \<not> ss_is_active s) (gs_sessions g) of
             Some i \<Rightarrow> (Some i, create_session_state now pid i g)
           | None \<Rightarrow>
               (let g' = cleanup_inactive_sessions now g in
                case find_index (\<lambda>s. \<not> ss_is_active s) (gs_sessions g') of
                  Some i \<Rightarrow> (Some i, create_session_state now pid i g')
                | None \<Rightarrow> (None, g'))))"

definition set_session :: "nat \<Rightarrow> (SessionResourceState \<Rightarrow> SessionResourceState) \<Rightarrow> GovernorSharedState \<Rightarrow> GovernorSharedState" where
  "set_session i f g = g\<lparr>gs_sessions := (gs_sessions g)[i := f (gs_sessions g ! i)]\<rparr>"

section \<open>CPU time\<close>

definition orochi_governor_track_cpu :: "int \<Rightarrow> int \<Rightarrow> int \<Rightarrow> GovernorSharedState option \<Rightarrow> GovernorSharedState option" where
  "orochi_governor_track_cpu now pid cpu_time = map_option (\<lambda>g.
     (case find_or_create_session_state now pid g of
        (None, g') \<Rightarrow> g'
      | (Some i, g') \<Rightarrow>
          (set_session i (\<lambda>s.
             (if c_div (now - ss_cpu_window_start s) 1000 \<ge> CPU_WINDOW_MS then s\<lparr>ss_cpu_window_start := now\<rparr> else s)
               \<lparr>ss_cpu_time_us := wrap_i64 (ss_cpu_time_us s + cpu_time), ss_last_activity := now\<rparr>) g')
            \<lparr>gs_total_cpu_time_us := wrap_i64 (gs_total_cpu_time_us g' + cpu_time)\<rparr>))"

definition orochi_governor_check_cpu_limit :: "GovernorSharedState option \<Rightarrow> int \<Rightarrow> bool" where
  "orochi_governor_check_cpu_limit gs pid =
     (case gs of None \<Rightarrow> False | Some g \<Rightarrow>
        (case find_session_state g pid of None \<Rightarrow> False | Some i \<Rightarrow>
           (let s = gs_sessions g ! i in ss_cpu_limit_us s > 0 \<and> ss_cpu_time_us s \<ge> ss_cpu_limit_us s)))"

definition orochi_governor_get_cpu_usage :: "GovernorSharedState option \<Rightarrow> int \<Rightarrow> int" where
  "orochi_governor_get_cpu_usage gs pid =
     (case gs of None \<Rightarrow> 0 | Some g \<Rightarrow>
        (case find_session_state g pid of None \<Rightarrow> 0 | Some i \<Rightarrow> ss_cpu_time_us (gs_sessions g ! i)))"

section \<open>Memory\<close>

text \<open>The check against the limit of the pool has no effect in the code: its branch is empty.\<close>

definition orochi_governor_request_memory ::
  "int \<Rightarrow> int \<Rightarrow> int \<Rightarrow> GovernorSharedState option \<Rightarrow> bool \<times> GovernorSharedState option" where
  "orochi_governor_request_memory now pid bytes gs =
     (case gs of None \<Rightarrow> (True, gs) | Some g \<Rightarrow>
        if bytes \<le> 0 then (True, gs) else
        (case find_or_create_session_state now pid g of
           (None, g') \<Rightarrow> (True, Some g')
         | (Some i, g') \<Rightarrow>
             (let s = gs_sessions g' ! i; held = wrap_i64 (ss_memory_bytes s + bytes) in
              if ss_memory_limit_bytes s > 0 \<and> held > ss_memory_limit_bytes s then (False, Some g')
              else (True, Some ((set_session i (\<lambda>s. s\<lparr>ss_memory_bytes := held,
                       ss_peak_memory_bytes := max held (ss_peak_memory_bytes s), ss_last_activity := now\<rparr>) g')
                     \<lparr>gs_total_memory_bytes := wrap_i64 (gs_total_memory_bytes g' + bytes)\<rparr>)))))"

definition orochi_governor_release_memory :: "int \<Rightarrow> int \<Rightarrow> int \<Rightarrow> GovernorSharedState option \<Rightarrow> GovernorSharedState option" where
  "orochi_governor_release_memory now pid bytes = map_option (\<lambda>g.
     if bytes \<le> 0 then g else
     (case find_session_state g pid of None \<Rightarrow> g | Some i \<Rightarrow>
        (set_session i (\<lambda>s. s\<lparr>ss_memory_bytes := max 0 (wrap_i64 (ss_memory_bytes s - bytes)), ss_last_activity := now\<rparr>) g)
          \<lparr>gs_total_memory_bytes := max 0 (wrap_i64 (gs_total_memory_bytes g - bytes))\<rparr>))"

definition orochi_governor_check_memory_limit :: "GovernorSharedState option \<Rightarrow> int \<Rightarrow> bool" where
  "orochi_governor_check_memory_limit gs pid =
     (case gs of None \<Rightarrow> False | Some g \<Rightarrow>
        (case find_session_state g pid of None \<Rightarrow> False | Some i \<Rightarrow>
           (let s = gs_sessions g ! i in ss_memory_limit_bytes s > 0 \<and> ss_memory_bytes s \<ge> ss_memory_limit_bytes s)))"

definition orochi_governor_get_memory_usage :: "GovernorSharedState option \<Rightarrow> int \<Rightarrow> int" where
  "orochi_governor_get_memory_usage gs pid =
     (case gs of None \<Rightarrow> 0 | Some g \<Rightarrow>
        (case find_session_state g pid of None \<Rightarrow> 0 | Some i \<Rightarrow> ss_memory_bytes (gs_sessions g ! i)))"

section \<open>I/O\<close>

definition orochi_governor_check_io_limit :: "int \<Rightarrow> GovernorSharedState option \<Rightarrow> int \<Rightarrow> int \<Rightarrow> bool \<Rightarrow> bool" where
  "orochi_governor_check_io_limit now gs pid bytes is_write =
     (case gs of None \<Rightarrow> True | Some g \<Rightarrow>
        if bytes \<le> 0 then True else
        (case find_session_state g pid of None \<Rightarrow> True | Some i \<Rightarrow>
           (let s = gs_sessions g ! i;
                elapsed_ms = c_div (now - ss_io_window_start s) 1000;
                limit_bps = (if is_write then ss_io_write_limit_bps s else ss_io_read_limit_bps s);
                window_bytes = (if is_write then ss_io_write_window s else ss_io_read_window s) in
            limit_bps > 0 \<longrightarrow>
              wrap_i64 (window_bytes + bytes) \<le> c_div (wrap_i64 (limit_bps * (if elapsed_ms \<le> 0 then 1 else elapsed_ms))) 1000)))"

definition reset_io_window :: "int \<Rightarrow> SessionResourceState \<Rightarrow> SessionResourceState" where
  "reset_io_window now s =
     (if c_div (now - ss_io_window_start s) 1000 \<ge> IO_WINDOW_MS
      then s\<lparr>ss_io_window_start := now, ss_io_read_window := 0, ss_io_write_window := 0\<rparr> else s)"

definition count_io :: "int \<Rightarrow> bool \<Rightarrow> SessionResourceState \<Rightarrow> SessionResourceState" where
  "count_io bytes is_write s =
     (if is_write
      then s\<lparr>ss_io_write_bytes := wrap_i64 (ss_io_write_bytes s + bytes), ss_io_write_window := wrap_i64 (ss_io_write_window s + bytes)\<rparr>
      else s\<lparr>ss_io_read_bytes := wrap_i64 (ss_io_read_bytes s + bytes), ss_io_read_window := wrap_i64 (ss_io_read_window s + bytes)\<rparr>)"

definition orochi_governor_track_io ::
  "int \<Rightarrow> int \<Rightarrow> int \<Rightarrow> bool \<Rightarrow> GovernorSharedState option \<Rightarrow> GovernorSharedState option" where
  "orochi_governor_track_io now pid bytes is_write = map_option (\<lambda>g.
     if bytes \<le> 0 then g else
     (case find_or_create_session_state now pid g of
        (None, g') \<Rightarrow> g'
      | (Some i, g') \<Rightarrow>
          (set_session i (\<lambda>s. (count_io bytes is_write (reset_io_window now s))\<lparr>ss_last_activity := now\<rparr>) g')
            \<lparr>gs_total_io_bytes := wrap_i64 (gs_total_io_bytes g' + bytes)\<rparr>))"

text \<open>\<^verbatim>\<open>orochi_governor_throttle_io\<close>: the microseconds the backend sleeps.\<close>

definition orochi_governor_throttle_io :: "int \<Rightarrow> int" where
  "orochi_governor_throttle_io delay_ms = (if delay_ms > 0 \<and> delay_ms < 10000 then delay_ms * 1000 else 0)"

section \<open>Concurrency and timeouts\<close>

definition orochi_governor_can_start_query :: "WorkloadSharedState \<Rightarrow> int \<Rightarrow> bool" where
  "orochi_governor_can_start_query w pool_id =
     (case orochi_get_resource_pool w pool_id of
        None \<Rightarrow> True
      | Some p \<Rightarrow> rl_max_concurrency (rp_limits p) > 0 \<longrightarrow> rp_active_queries p < rl_max_concurrency (rp_limits p))"

definition orochi_governor_get_active_queries :: "WorkloadSharedState \<Rightarrow> int \<Rightarrow> int" where
  "orochi_governor_get_active_queries w pool_id =
     (case orochi_get_resource_pool w pool_id of None \<Rightarrow> 0 | Some p \<Rightarrow> rp_active_queries p)"

definition orochi_governor_check_timeout :: "int \<Rightarrow> GovernorSharedState option \<Rightarrow> int \<Rightarrow> bool" where
  "orochi_governor_check_timeout now gs pid =
     (case gs of None \<Rightarrow> False | Some g \<Rightarrow>
        (case find_session_state g pid of None \<Rightarrow> False | Some i \<Rightarrow>
           (let s = gs_sessions g ! i in
            ss_query_timeout_ms s > 0 \<and> ss_query_start_time s \<noteq> 0 \<and>
            c_div (now - ss_query_start_time s) 1000 \<ge> ss_query_timeout_ms s)))"

definition orochi_governor_set_timeout :: "int \<Rightarrow> int \<Rightarrow> int \<Rightarrow> GovernorSharedState option \<Rightarrow> GovernorSharedState option" where
  "orochi_governor_set_timeout now pid timeout_ms = map_option (\<lambda>g.
     (case find_or_create_session_state now pid g of
        (None, g') \<Rightarrow> g'
      | (Some i, g') \<Rightarrow> set_session i (\<lambda>s. s\<lparr>ss_query_timeout_ms := timeout_ms, ss_query_start_time := now\<rparr>) g'))"

definition orochi_governor_clear_timeout :: "int \<Rightarrow> GovernorSharedState option \<Rightarrow> GovernorSharedState option" where
  "orochi_governor_clear_timeout pid = map_option (\<lambda>g.
     (case find_session_state g pid of None \<Rightarrow> g | Some i \<Rightarrow> set_session i (\<lambda>s. s\<lparr>ss_query_start_time := 0\<rparr>) g))"

section \<open>Limits and statistics\<close>

definition cpu_percent_us :: "int \<Rightarrow> int" where
  "cpu_percent_us percent = (if percent > 0 \<and> percent < 100 then c_div (percent * 1000000) 100 else 0)"

definition mb_bytes :: "int \<Rightarrow> int" where
  "mb_bytes mb = wrap_i64 (mb * 1024 * 1024)"

definition get_pool_cpu_limit :: "WorkloadSharedState \<Rightarrow> int \<Rightarrow> int" where
  "get_pool_cpu_limit w pool_id =
     (case orochi_get_resource_pool w pool_id of None \<Rightarrow> 0 | Some p \<Rightarrow> cpu_percent_us (rl_cpu_percent (rp_limits p)))"

definition get_pool_memory_limit :: "WorkloadSharedState \<Rightarrow> int \<Rightarrow> int" where
  "get_pool_memory_limit w pool_id =
     (case orochi_get_resource_pool w pool_id of
        None \<Rightarrow> 0
      | Some p \<Rightarrow> (if rl_memory_mb (rp_limits p) > 0 then mb_bytes (rl_memory_mb (rp_limits p)) else 0))"

definition get_pool_io_limit :: "WorkloadSharedState \<Rightarrow> int \<Rightarrow> bool \<Rightarrow> int" where
  "get_pool_io_limit w pool_id is_write =
     (case orochi_get_resource_pool w pool_id of
        None \<Rightarrow> 0
      | Some p \<Rightarrow>
          (if is_write \<and> rl_io_write_mbps (rp_limits p) > 0 then mb_bytes (rl_io_write_mbps (rp_limits p))
           else if \<not> is_write \<and> rl_io_read_mbps (rp_limits p) > 0 then mb_bytes (rl_io_read_mbps (rp_limits p)) else 0))"

definition get_pool_concurrency_limit :: "WorkloadSharedState \<Rightarrow> int \<Rightarrow> int" where
  "get_pool_concurrency_limit w pool_id =
     (case orochi_get_resource_pool w pool_id of None \<Rightarrow> 0 | Some p \<Rightarrow> rl_max_concurrency (rp_limits p))"

definition orochi_governor_get_stats :: "GovernorSharedState option \<Rightarrow> int \<times> int \<times> int \<times> int" where
  "orochi_governor_get_stats gs =
     (case gs of None \<Rightarrow> (0, 0, 0, 0)
      | Some g \<Rightarrow> (gs_total_cpu_time_us g, gs_total_memory_bytes g, gs_total_io_bytes g, gs_num_sessions g))"

definition orochi_governor_reset_session_stats :: "int \<Rightarrow> int \<Rightarrow> GovernorSharedState option \<Rightarrow> GovernorSharedState option" where
  "orochi_governor_reset_session_stats now pid = map_option (\<lambda>g.
     (case find_session_state g pid of None \<Rightarrow> g | Some i \<Rightarrow>
        (let s = gs_sessions g ! i in
         (set_session i (\<lambda>s. s\<lparr>ss_cpu_time_us := 0, ss_memory_bytes := 0, ss_peak_memory_bytes := 0, ss_io_read_bytes := 0,
              ss_io_write_bytes := 0, ss_cpu_window_start := now, ss_io_window_start := now, ss_io_read_window := 0,
              ss_io_write_window := 0\<rparr>) g)
           \<lparr>gs_total_cpu_time_us := wrap_i64 (gs_total_cpu_time_us g - ss_cpu_time_us s),
            gs_total_memory_bytes := wrap_i64 (gs_total_memory_bytes g - ss_memory_bytes s)\<rparr>)))"

definition limit_session :: "int \<Rightarrow> int \<Rightarrow> ResourceLimits option \<Rightarrow> SessionResourceState \<Rightarrow> SessionResourceState" where
  "limit_session pool_id class_id limits s =
     (let s' = s\<lparr>ss_pool_id := pool_id, ss_class_id := class_id\<rparr> in
      case limits of
        None \<Rightarrow> s'
      | Some l \<Rightarrow> s'\<lparr>ss_cpu_limit_us := cpu_percent_us (rl_cpu_percent l), ss_memory_limit_bytes := mb_bytes (rl_memory_mb l),
                    ss_io_read_limit_bps := mb_bytes (rl_io_read_mbps l), ss_io_write_limit_bps := mb_bytes (rl_io_write_mbps l),
                    ss_query_timeout_ms := rl_query_timeout_ms l\<rparr>)"

definition orochi_governor_set_session_limits ::
  "int \<Rightarrow> int \<Rightarrow> int \<Rightarrow> int \<Rightarrow> ResourceLimits option \<Rightarrow> GovernorSharedState option \<Rightarrow> GovernorSharedState option" where
  "orochi_governor_set_session_limits now pid pool_id class_id limits = map_option (\<lambda>g.
     (case find_or_create_session_state now pid g of
        (None, g') \<Rightarrow> g'
      | (Some i, g') \<Rightarrow> set_session i (limit_session pool_id class_id limits) g'))"

section \<open>The totals\<close>

definition held :: "SessionResourceState \<Rightarrow> int" where
  "held s = (if ss_is_active s then ss_memory_bytes s else 0)"

definition totals_exact :: "SessionResourceState list \<Rightarrow> int \<Rightarrow> int \<Rightarrow> bool" where
  "totals_exact ss n mem =
     (n = count_if ss_is_active ss \<and> mem = sum_slots held ss \<and> mem < 9223372036854775808 \<and> (\<forall>s \<in> set ss. 0 \<le> held s))"

abbreviation governor_inv :: "GovernorSharedState \<Rightarrow> bool" where
  "governor_inv g \<equiv> totals_exact (gs_sessions g) (gs_num_sessions g) (gs_total_memory_bytes g)"

lemma sum_slots_nonneg: "\<forall>x \<in> set xs. 0 \<le> f x \<Longrightarrow> 0 \<le> sum_slots f xs"
  by (induction xs) auto

lemma sum_slots_ge: "\<forall>x \<in> set xs. 0 \<le> f x \<Longrightarrow> i < length xs \<Longrightarrow> f (xs ! i) \<le> sum_slots f xs"
proof (induction xs arbitrary: i)
  case (Cons x xs)
  then show ?case using sum_slots_nonneg [of xs f] by (cases i) force+
qed simp

lemma totals_bounds:
  assumes "totals_exact ss n mem" "i < length ss"
  shows "0 \<le> held (ss ! i)" "held (ss ! i) \<le> mem" "0 \<le> mem" "mem < 9223372036854775808"
  using assms sum_slots_ge [of ss held i] sum_slots_nonneg [of ss held] by (auto simp: totals_exact_def)

text \<open>Replacing one slot moves the totals by what the slot contributes.\<close>

lemma totals_update:
  assumes "totals_exact ss n mem" "i < length ss" "0 \<le> held v"
    and "n' = n - of_bool (ss_is_active (ss ! i)) + of_bool (ss_is_active v)"
    and "mem2 = mem - held (ss ! i) + held v" "mem2 < 9223372036854775808"
  shows "totals_exact (ss[i := v]) n' mem2"
  using assms set_update_all [of ss "\<lambda>s. 0 \<le> held s" v i]
  by (simp add: totals_exact_def count_if_update sum_slots_update)

lemma clean_slot_inv:
  assumes inv: "governor_inv g" and i: "i < length (gs_sessions g)"
  shows "governor_inv (clean_slot now i g) \<and> length (gs_sessions (clean_slot now i g)) = length (gs_sessions g) \<and>
         gs_total_memory_bytes (clean_slot now i g) \<le> gs_total_memory_bytes g"
proof (cases "is_stale now (gs_sessions g ! i)")
  case True
  let ?s = "gs_sessions g ! i" and ?t = "gs_total_memory_bytes g"
  from True have act: "ss_is_active ?s" by (simp add: is_stale_def)
  then have m: "held ?s = ss_memory_bytes ?s" by (simp add: held_def)
  have b: "0 \<le> ss_memory_bytes ?s" "ss_memory_bytes ?s \<le> ?t" "?t < 9223372036854775808"
    using totals_bounds [OF inv i] by (simp_all add: m)
  have "totals_exact ((gs_sessions g)[i := ?s\<lparr>ss_is_active := False, ss_backend_pid := 0\<rparr>]) (gs_num_sessions g - 1)
          (?t - ss_memory_bytes ?s)"
    by (rule totals_update [OF inv i]) (use act m b in \<open>auto simp: held_def\<close>)
  with b show ?thesis using True by (simp add: clean_slot_def Let_def)
qed (use inv in \<open>simp add: clean_slot_def Let_def\<close>)

lemma fold_clean_inv:
  assumes "governor_inv g" "\<forall>i \<in> set js. i < length (gs_sessions g)"
  shows "governor_inv (fold (clean_slot now) js g) \<and>
         gs_total_memory_bytes (fold (clean_slot now) js g) \<le> gs_total_memory_bytes g"
  using assms
proof (induction js arbitrary: g)
  case (Cons i js)
  then have c: "governor_inv (clean_slot now i g)" "length (gs_sessions (clean_slot now i g)) = length (gs_sessions g)"
    "gs_total_memory_bytes (clean_slot now i g) \<le> gs_total_memory_bytes g"
    using clean_slot_inv [of g i now] by auto
  with Cons.IH [of "clean_slot now i g"] Cons.prems show ?case by auto
qed simp

lemma cleanup_inv:
  "governor_inv g \<Longrightarrow> governor_inv (cleanup_inactive_sessions now g) \<and>
     gs_total_memory_bytes (cleanup_inactive_sessions now g) \<le> gs_total_memory_bytes g"
  unfolding cleanup_inactive_sessions_def by (rule fold_clean_inv) auto

lemma create_session_inv:
  assumes inv: "governor_inv g" and f: "find_index (\<lambda>s. \<not> ss_is_active s) (gs_sessions g) = Some i"
  shows "governor_inv (create_session_state now pid i g)"
proof -
  have i: "i < length (gs_sessions g)" "\<not> ss_is_active (gs_sessions g ! i)" using f by (auto simp: find_index_Some)
  have "totals_exact ((gs_sessions g)[i := new_session_state now pid]) (gs_num_sessions g + 1) (gs_total_memory_bytes g)"
    by (rule totals_update [OF inv i(1)])
      (use i totals_bounds [OF inv i(1)] in \<open>auto simp: held_def new_session_state_def zero_session_def\<close>)
  then show ?thesis by (simp add: create_session_state_def)
qed

text \<open>The slot that was found or made belongs to the backend and is active.\<close>

lemma found_or_created:
  assumes "find_or_create_session_state now pid g = (Some i, g')"
  shows "i < length (gs_sessions g')" "ss_is_active (gs_sessions g' ! i)" "ss_backend_pid (gs_sessions g' ! i) = pid"
  using assms
  by (auto simp: find_or_create_session_state_def find_session_state_def create_session_state_def new_session_state_def
      find_index_Some Let_def split: option.splits)

lemma find_or_create_inv:
  assumes "governor_inv g" "find_or_create_session_state now pid g = (r, g')"
  shows "governor_inv g'" "gs_total_memory_bytes g' \<le> gs_total_memory_bytes g"
  using assms cleanup_inv [of g now] create_session_inv [of g] create_session_inv [of "cleanup_inactive_sessions now g"]
  by (auto simp: find_or_create_session_state_def Let_def create_session_state_def split: option.splits)

text \<open>A change of an active slot that stays active.\<close>

lemma set_session_inv:
  assumes inv: "governor_inv g" and i: "i < length (gs_sessions g)" "ss_is_active (gs_sessions g ! i)"
    and f: "ss_is_active (f (gs_sessions g ! i))" "0 \<le> ss_memory_bytes (f (gs_sessions g ! i))"
    and t: "mem2 = gs_total_memory_bytes g - ss_memory_bytes (gs_sessions g ! i) + ss_memory_bytes (f (gs_sessions g ! i))"
      "mem2 < 9223372036854775808"
  shows "totals_exact (gs_sessions (set_session i f g)) (gs_num_sessions g) mem2"
  unfolding set_session_def using i f t by (simp, intro totals_update [OF inv]) (auto simp: held_def)

lemma set_session_fields [simp]:
  "gs_num_sessions (set_session i f g) = gs_num_sessions g"
  "gs_total_memory_bytes (set_session i f g) = gs_total_memory_bytes g"
  by (simp_all add: set_session_def)

lemma set_session_same_memory:
  assumes inv: "governor_inv g" and i: "i < length (gs_sessions g)" "ss_is_active (gs_sessions g ! i)"
    and f: "\<And>s. ss_is_active (f s) = ss_is_active s" "\<And>s. ss_memory_bytes (f s) = ss_memory_bytes s"
  shows "totals_exact (gs_sessions (set_session i f g)) (gs_num_sessions g) (gs_total_memory_bytes g)"
  by (rule set_session_inv [OF inv i]) (use f i totals_bounds [OF inv i(1)] in \<open>auto simp: held_def\<close>)

lemma limit_session_frame [simp]:
  "ss_is_active (limit_session k c l s) = ss_is_active s" "ss_memory_bytes (limit_session k c l s) = ss_memory_bytes s"
  by (simp_all add: limit_session_def Let_def split: option.splits)

lemma count_io_frame [simp]:
  "ss_is_active (count_io b w s) = ss_is_active s" "ss_memory_bytes (count_io b w s) = ss_memory_bytes s"
  "ss_is_active (reset_io_window now s) = ss_is_active s" "ss_memory_bytes (reset_io_window now s) = ss_memory_bytes s"
  by (simp_all add: count_io_def reset_io_window_def)

lemma found_session: "find_session_state g pid = Some i \<Longrightarrow> i < length (gs_sessions g) \<and> ss_is_active (gs_sessions g ! i)"
  by (simp add: find_session_state_def find_index_Some)

lemma inv_request:
  assumes inv: "governor_inv g" and r: "orochi_governor_request_memory now pid b (Some g) = (ok, Some g')"
    and fits: "gs_total_memory_bytes g + b < 9223372036854775808"
  shows "governor_inv g'"
proof (cases "b \<le> 0")
  case False
  obtain r' g1 where fc: "find_or_create_session_state now pid g = (r', g1)" by fastforce
  note fi = find_or_create_inv [OF inv fc]
  show ?thesis
  proof (cases r')
    case (Some i)
    note fo = found_or_created [OF fc [unfolded Some]]
    let ?s = "gs_sessions g1 ! i" and ?t = "gs_total_memory_bytes g1"
    have b: "0 \<le> ss_memory_bytes ?s" "ss_memory_bytes ?s \<le> ?t" "?t + b < 9223372036854775808" "0 \<le> ?t"
      using totals_bounds [OF fi(1) fo(1)] fo(2) fi(2) fits by (simp_all add: held_def)
    have "totals_exact (gs_sessions (set_session i (\<lambda>s. s\<lparr>ss_memory_bytes := ss_memory_bytes ?s + b,
            ss_peak_memory_bytes := max (ss_memory_bytes ?s + b) (ss_peak_memory_bytes s), ss_last_activity := now\<rparr>) g1))
            (gs_num_sessions g1) (?t + b)"
      by (rule set_session_inv [OF fi(1) fo(1,2)]) (use b fo False in simp_all)
    with r fc Some False fi b show ?thesis by (auto simp: orochi_governor_request_memory_def Let_def split: if_splits)
  qed (use r fc fi False in \<open>auto simp: orochi_governor_request_memory_def\<close>)
qed (use r inv in \<open>simp add: orochi_governor_request_memory_def\<close>)

text \<open>A release that takes no more than the session of the backend holds, or finds no session.\<close>

definition within_held :: "GovernorSharedState \<Rightarrow> int \<Rightarrow> int \<Rightarrow> bool" where
  "within_held g pid b = (find_session_state g pid = None \<or> b \<le> orochi_governor_get_memory_usage (Some g) pid)"

lemma inv_release:
  assumes inv: "governor_inv g" and r: "orochi_governor_release_memory now pid b (Some g) = Some g'"
    and fits: "within_held g pid b"
  shows "governor_inv g'"
proof (cases "b \<le> 0 \<or> find_session_state g pid = None")
  case False
  then obtain i where f: "find_session_state g pid = Some i" and b: "0 < b" by auto
  let ?s = "gs_sessions g ! i" and ?t = "gs_total_memory_bytes g"
  note fo = found_session [OF f, THEN conjunct1] found_session [OF f, THEN conjunct2]
  have b': "b \<le> ss_memory_bytes ?s" "ss_memory_bytes ?s \<le> ?t" "?t < 9223372036854775808" 
    using totals_bounds [OF inv fo(1)] fo(2) fits f
    by (simp_all add: held_def within_held_def orochi_governor_get_memory_usage_def)
  have "totals_exact (gs_sessions (set_session i (\<lambda>s. s\<lparr>ss_memory_bytes := max 0 (wrap_i64 (ss_memory_bytes s - b)),
          ss_last_activity := now\<rparr>) g)) (gs_num_sessions g) (?t - b)"
    by (rule set_session_inv [OF inv fo]) (use b b' fo in simp_all)
  with r f b b' show ?thesis by (auto simp: orochi_governor_release_memory_def)
qed (use r inv in \<open>auto simp: orochi_governor_release_memory_def split: option.splits\<close>)

lemma inv_reset:
  assumes inv: "governor_inv g" and r: "orochi_governor_reset_session_stats now pid (Some g) = Some g'"
  shows "governor_inv g'"
proof (cases "find_session_state g pid")
  case (Some i)
  let ?s = "gs_sessions g ! i" and ?t = "gs_total_memory_bytes g"
  note fo = found_session [OF Some, THEN conjunct1] found_session [OF Some, THEN conjunct2]
  have b: "0 \<le> ss_memory_bytes ?s" "ss_memory_bytes ?s \<le> ?t" "?t < 9223372036854775808"
    using totals_bounds [OF inv fo(1)] fo(2) by (simp_all add: held_def)
  have "totals_exact (gs_sessions (set_session i (\<lambda>s. s\<lparr>ss_cpu_time_us := 0, ss_memory_bytes := 0, ss_peak_memory_bytes := 0,
          ss_io_read_bytes := 0, ss_io_write_bytes := 0, ss_cpu_window_start := now, ss_io_window_start := now,
          ss_io_read_window := 0, ss_io_write_window := 0\<rparr>) g)) (gs_num_sessions g) (?t - ss_memory_bytes ?s)"
    by (rule set_session_inv [OF inv fo]) (use b fo in simp_all)
  with r Some b show ?thesis by (auto simp: orochi_governor_reset_session_stats_def Let_def)
qed (use r inv in \<open>simp add: orochi_governor_reset_session_stats_def\<close>)

text \<open>The operations that find or make a session and leave its memory alone.\<close>

lemma inv_touch:
  assumes inv: "governor_inv g" and fc: "find_or_create_session_state now pid g = (Some i, g1)"
    and "\<And>s. ss_is_active (f s) = ss_is_active s" "\<And>s. ss_memory_bytes (f s) = ss_memory_bytes s"
  shows "totals_exact (gs_sessions (set_session i f g1)) (gs_num_sessions g1) (gs_total_memory_bytes g1)"
  by (rule set_session_same_memory [OF find_or_create_inv(1) [OF inv fc] found_or_created(1,2) [OF fc] assms(3,4)])

text \<open>The number of sessions is right whatever the memory accounts say.\<close>

definition sessions_exact :: "GovernorSharedState \<Rightarrow> bool" where
  "sessions_exact g = (gs_num_sessions g = count_if ss_is_active (gs_sessions g))"

lemma sessions_cleanup:
  assumes "sessions_exact g"
  shows "sessions_exact (cleanup_inactive_sessions now g)"
proof -
  have "sessions_exact (clean_slot now i g) \<and> length (gs_sessions (clean_slot now i g)) = length (gs_sessions g)"
    if "sessions_exact g" "i < length (gs_sessions g)" for i g
    using that by (simp add: sessions_exact_def clean_slot_def Let_def count_if_update is_stale_def)
  then have "sessions_exact (fold (clean_slot now) js g)" if "sessions_exact g" "\<forall>i \<in> set js. i < length (gs_sessions g)" for js g
    using that by (induction js arbitrary: g) auto
  then show ?thesis using assms by (simp add: cleanup_inactive_sessions_def)
qed

lemma sessions_create:
  "sessions_exact g \<Longrightarrow> find_index (\<lambda>s. \<not> ss_is_active s) (gs_sessions g) = Some i \<Longrightarrow> sessions_exact (create_session_state now pid i g)"
  by (auto simp: sessions_exact_def create_session_state_def count_if_update new_session_state_def find_index_Some)

lemma sessions_find_or_create:
  assumes "sessions_exact g" "find_or_create_session_state now pid g = (r, g')"
  shows "sessions_exact g'"
  using assms sessions_cleanup [of g now] sessions_create [of g] sessions_create [of "cleanup_inactive_sessions now g"]
  by (auto simp: find_or_create_session_state_def Let_def split: option.splits)

lemma sessions_set_session:
  assumes "sessions_exact g" "i < length (gs_sessions g)" "\<And>s. ss_is_active (f s) = ss_is_active s"
  shows "sessions_exact (set_session i f g)"
  using assms by (simp add: sessions_exact_def set_session_def count_if_update)

lemma sessions_exact_totals [simp]:
  "sessions_exact (g\<lparr>gs_total_memory_bytes := m\<rparr>) = sessions_exact g" "sessions_exact (g\<lparr>gs_total_cpu_time_us := c\<rparr>) = sessions_exact g"
  "sessions_exact (g\<lparr>gs_total_io_bytes := b\<rparr>) = sessions_exact g"
  by (simp_all add: sessions_exact_def)

text \<open>Every call of every backend. The flag records whether the memory accounts can be trusted: it is lost when a backend releases
  more than it holds and when the memory of all exceeds 63 bits. The operations themselves are not restricted.\<close>

inductive governor_step :: "bool \<times> GovernorSharedState \<Rightarrow> bool \<times> GovernorSharedState \<Rightarrow> bool" where
  cpu: "orochi_governor_track_cpu now pid us (Some g) = Some g' \<Longrightarrow> governor_step (ok, g) (ok, g')"
| request: "orochi_governor_request_memory now pid b (Some g) = (granted, Some g') \<Longrightarrow>
    governor_step (ok, g) (ok \<and> gs_total_memory_bytes g + b < 9223372036854775808, g')"
| release: "orochi_governor_release_memory now pid b (Some g) = Some g' \<Longrightarrow> governor_step (ok, g) (ok \<and> within_held g pid b, g')"
| io: "orochi_governor_track_io now pid b w (Some g) = Some g' \<Longrightarrow> governor_step (ok, g) (ok, g')"
| set_timeout: "orochi_governor_set_timeout now pid ms (Some g) = Some g' \<Longrightarrow> governor_step (ok, g) (ok, g')"
| clear_timeout: "orochi_governor_clear_timeout pid (Some g) = Some g' \<Longrightarrow> governor_step (ok, g) (ok, g')"
| reset_stats: "orochi_governor_reset_session_stats now pid (Some g) = Some g' \<Longrightarrow> governor_step (ok, g) (ok, g')"
| set_limits: "orochi_governor_set_session_limits now pid k c l (Some g) = Some g' \<Longrightarrow> governor_step (ok, g) (ok, g')"

lemma inv_governor_step:
  "governor_step c c' \<Longrightarrow> fst c' \<Longrightarrow> (fst c \<Longrightarrow> governor_inv (snd c)) \<Longrightarrow> governor_inv (snd c')"
proof (induction rule: governor_step.induct)
  case (cpu now pid us g g' ok)
  then show ?case using find_or_create_inv [of g now pid]
    by (auto simp: orochi_governor_track_cpu_def intro!: inv_touch split: option.splits prod.splits if_splits)
next
  case (io now pid b w g g' ok)
  then show ?case using find_or_create_inv [of g now pid]
    by (auto simp: orochi_governor_track_io_def intro!: inv_touch split: option.splits prod.splits if_splits)
next
  case (set_timeout now pid ms g g' ok)
  then show ?case using find_or_create_inv [of g now pid]
    by (auto simp: orochi_governor_set_timeout_def intro!: inv_touch split: option.splits prod.splits)
next
  case (clear_timeout pid g g' ok)
  then show ?case
    by (auto simp: orochi_governor_clear_timeout_def dest: found_session intro!: set_session_same_memory split: option.splits)
next
  case (set_limits now pid k c l g g' ok)
  then show ?case using find_or_create_inv [of g now pid]
    by (auto simp: orochi_governor_set_session_limits_def intro!: inv_touch split: option.splits prod.splits)
qed (auto intro: inv_request inv_release inv_reset)

lemma sessions_governor_step: "governor_step c c' \<Longrightarrow> sessions_exact (snd c) \<Longrightarrow> sessions_exact (snd c')"
proof (induction rule: governor_step.induct)
  case (cpu now pid us g g' ok)
  then show ?case using sessions_find_or_create [of g now pid] found_or_created [of now pid g]
    by (auto simp: orochi_governor_track_cpu_def intro!: sessions_set_session split: option.splits prod.splits if_splits)
next
  case (request now pid b g granted g' ok)
  then show ?case using sessions_find_or_create [of g now pid] found_or_created [of now pid g]
    by (auto simp: orochi_governor_request_memory_def Let_def intro!: sessions_set_session split: option.splits prod.splits if_splits)
next
  case (release now pid b g g' ok)
  then show ?case
    by (auto simp: orochi_governor_release_memory_def dest: found_session intro!: sessions_set_session split: option.splits if_splits)
next
  case (io now pid b w g g' ok)
  then show ?case using sessions_find_or_create [of g now pid] found_or_created [of now pid g]
    by (auto simp: orochi_governor_track_io_def intro!: sessions_set_session split: option.splits prod.splits if_splits)
next
  case (set_timeout now pid ms g g' ok)
  then show ?case using sessions_find_or_create [of g now pid] found_or_created [of now pid g]
    by (auto simp: orochi_governor_set_timeout_def intro!: sessions_set_session split: option.splits prod.splits)
next
  case (clear_timeout pid g g' ok)
  then show ?case
    by (auto simp: orochi_governor_clear_timeout_def dest: found_session intro!: sessions_set_session split: option.splits)
next
  case (reset_stats now pid g g' ok)
  then show ?case
    by (auto simp: orochi_governor_reset_session_stats_def Let_def dest: found_session intro!: sessions_set_session split: option.splits)
next
  case (set_limits now pid k c l g g' ok)
  then show ?case using sessions_find_or_create [of g now pid] found_or_created [of now pid g]
    by (auto simp: orochi_governor_set_session_limits_def intro!: sessions_set_session split: option.splits prod.splits)
qed

definition governor_started :: "bool \<times> GovernorSharedState \<Rightarrow> bool" where
  "governor_started c = (c = (True, orochi_governor_init None))"

lemma inv_governor_init: "governor_inv (orochi_governor_init None)"
  by (simp add: orochi_governor_init_def totals_exact_def count_if_replicate sum_slots_replicate held_def zero_session_def)

interpretation governor: invariant_system governor_started governor_step
  "\<lambda>c. (fst c \<longrightarrow> governor_inv (snd c)) \<and> sessions_exact (snd c)"
proof
  fix c c' assume c: "(fst c \<longrightarrow> governor_inv (snd c)) \<and> sessions_exact (snd c)" "governor_step c c'"
  then show "(fst c' \<longrightarrow> governor_inv (snd c')) \<and> sessions_exact (snd c')"
    using inv_governor_step [OF c(2)] sessions_governor_step [OF c(2)] by blast
qed (use inv_governor_init in \<open>auto simp: governor_started_def sessions_exact_def totals_exact_def\<close>)

text \<open>The empty table, with its first slots in view.\<close>

lemma find_index_replicate:
  "find_index P (replicate n x) = (if 0 < n \<and> P x then Some 0 else None)"
  by (cases n) (auto simp: find_index_None)

lemma sum_slots_replicate_mult: "sum_slots f (replicate n x) = int n * f x"
  by (induction n) (auto simp: algebra_simps)

lemma governor_init_slots:
  "orochi_governor_init None = \<lparr>gs_sessions = zero_session # zero_session # replicate 1022 zero_session, gs_num_sessions = 0,
     gs_total_cpu_time_us = 0, gs_total_memory_bytes = 0, gs_total_io_bytes = 0\<rparr>"
  by (simp add: orochi_governor_init_def numeral_eq_Suc)

lemmas governor_eval = governor_init_slots find_or_create_session_state_def find_session_state_def create_session_state_def
  new_session_state_def set_session_def find_index_replicate zero_session_def

definition two_sessions :: GovernorSharedState where
  "two_sessions = the (snd (orochi_governor_request_memory 7 12 50 (snd (orochi_governor_request_memory 5 11 100
     (Some (orochi_governor_init None))))))"

lemma two_sessions_slots:
  "two_sessions = \<lparr>gs_sessions = (new_session_state 5 11)\<lparr>ss_memory_bytes := 100, ss_peak_memory_bytes := 100\<rparr> #
     (new_session_state 7 12)\<lparr>ss_memory_bytes := 50, ss_peak_memory_bytes := 50\<rparr> # replicate 1022 zero_session, gs_num_sessions = 2,
     gs_total_cpu_time_us = 0, gs_total_memory_bytes = 150, gs_total_io_bytes = 0\<rparr>"
  by (simp add: two_sessions_def orochi_governor_request_memory_def governor_eval)

lemma two_sessions_reachable: "reach governor_started governor_step (True, two_sessions)"
proof -
  obtain g where g: "orochi_governor_request_memory 5 11 100 (Some (orochi_governor_init None)) = (True, Some g)"
      "gs_total_memory_bytes g = 100"
    by (simp add: orochi_governor_request_memory_def governor_eval)
  then have "orochi_governor_request_memory 7 12 50 (Some g) = (True, Some two_sessions)"
    unfolding two_sessions_def by (simp add: orochi_governor_request_memory_def split: option.splits prod.splits)
      (auto simp: Let_def orochi_governor_request_memory_def governor_eval)
  from governor_step.request [OF this, of True] g(2) have "governor_step (True, g) (True, two_sessions)" by simp
  moreover from governor_step.request [OF g(1), of True] have "governor_step (True, orochi_governor_init None) (True, g)"
    by (simp add: governor_init_slots)
  moreover have "governor_started (True, orochi_governor_init None)" by (simp add: governor_started_def)
  ultimately show ?thesis by (blast intro: reach.intros)
qed

text \<open>C8: In every state that the governor reaches from its initialization by any sequence of its operations, the number of
  sessions in the statistics is the number of active slots. As long as no backend released more than it holds and the memory
  of all fits 63 bits, the total memory in the statistics is the sum of what the active sessions hold, also after stale
  sessions were cleaned up.\<close>

theorem governor_totals_exact:
  assumes "reach governor_started governor_step (ok, g)"
    and "orochi_governor_get_stats (Some g) = (cpu, memory, io, sessions)"
  shows "sessions = count_if ss_is_active (gs_sessions g) \<and> (ok \<longrightarrow> memory = sum_slots held (gs_sessions g))"
  using governor.inv_reach [OF assms(1)] assms(2) by (simp add: sessions_exact_def totals_exact_def orochi_governor_get_stats_def)

theorem governor_totals_exact_witness:
  "(150 :: int) = sum_slots held (gs_sessions two_sessions) \<and> 2 = count_if ss_is_active (gs_sessions two_sessions)"
  using governor_totals_exact [OF two_sessions_reachable, of 0 150 0 2]
  by (simp add: orochi_governor_get_stats_def two_sessions_slots)

text \<open>A memory request of a known backend with a limit is granted exactly if what the backend holds and the bytes
  asked for stay within the limit (and fit 63 bits). A granted request adds the bytes to the usage of the backend, a
  refused one changes nothing.\<close>

theorem memory_request_respects_limit:
  assumes "find_session_state g pid = Some i" "0 < b"
    and "0 < ss_memory_limit_bytes (gs_sessions g ! i)"
    and "0 \<le> ss_memory_bytes (gs_sessions g ! i)" "ss_memory_bytes (gs_sessions g ! i) + b < 9223372036854775808"
  shows "case orochi_governor_request_memory now pid b (Some g) of (granted, g') \<Rightarrow>
      granted = (orochi_governor_get_memory_usage (Some g) pid + b \<le> ss_memory_limit_bytes (gs_sessions g ! i)) \<and>
      (if granted then orochi_governor_get_memory_usage g' pid = orochi_governor_get_memory_usage (Some g) pid + b
       else g' = Some g)"
proof -
  have i: "i < length (gs_sessions g)" using found_session [OF assms(1)] by simp
  have "find_session_state (set_session i f g\<lparr>gs_total_memory_bytes := t\<rparr>) pid = Some i"
    if "\<And>s. ss_backend_pid (f s) = ss_backend_pid s \<and> ss_is_active (f s) = ss_is_active s" for f t
    using assms(1) i that unfolding find_session_state_def set_session_def by (simp add: find_index_update_same)
  then show ?thesis
    using assms i
    by (simp add: orochi_governor_request_memory_def find_or_create_session_state_def orochi_governor_get_memory_usage_def Let_def)
      (simp add: set_session_def)
qed

definition limited_session :: GovernorSharedState where
  "limited_session = \<lparr>gs_sessions = [(new_session_state 5 11)\<lparr>ss_memory_bytes := 100, ss_memory_limit_bytes := 120, ss_cpu_limit_us := 500000,
     ss_cpu_time_us := 600000\<rparr>], gs_num_sessions = 1, gs_total_cpu_time_us = 600000, gs_total_memory_bytes = 100, gs_total_io_bytes = 0\<rparr>"

theorem memory_request_respects_limit_witness:
  "fst (orochi_governor_request_memory 9 11 20 (Some limited_session)) \<and>
   orochi_governor_request_memory 9 11 21 (Some limited_session) = (False, Some limited_session)"
  using memory_request_respects_limit [of limited_session 11 0 20 9] memory_request_respects_limit [of limited_session 11 0 21 9]
  by (auto simp: limited_session_def find_session_state_def new_session_state_def zero_session_def
      orochi_governor_get_memory_usage_def split: prod.splits)

text \<open>If a backend releases more than it holds, its own usage is set to zero but the whole amount is taken from
  the total: from then on the total is below the sum of what the sessions hold.\<close>

theorem release_overdraft_understates_total:
  assumes "reach governor_started governor_step (True, g)"
    and "find_session_state g pid = Some i"
    and "orochi_governor_get_memory_usage (Some g) pid < b" "b < 9223372036854775808"
    and "orochi_governor_get_memory_usage (Some g) pid < gs_total_memory_bytes g"
    and "orochi_governor_release_memory now pid b (Some g) = Some g'"
  shows "gs_total_memory_bytes g' < sum_slots held (gs_sessions g')"
proof -
  let ?s = "gs_sessions g ! i"
  have inv: "governor_inv g" using governor.inv_reach [OF assms(1)] by simp
  note fo = found_session [OF assms(2), THEN conjunct1] found_session [OF assms(2), THEN conjunct2]
  have u: "orochi_governor_get_memory_usage (Some g) pid = ss_memory_bytes ?s" "held ?s = ss_memory_bytes ?s"
    using assms(2) fo by (simp_all add: orochi_governor_get_memory_usage_def held_def)
  note b = totals_bounds [OF inv fo(1), unfolded u(2)] assms(3-5) [unfolded u(1)]
  have g': "g' = (set_session i (\<lambda>s. s\<lparr>ss_memory_bytes := 0, ss_last_activity := now\<rparr>) g)
              \<lparr>gs_total_memory_bytes := max 0 (gs_total_memory_bytes g - b)\<rparr>"
    using assms(2,6) b by (auto simp: orochi_governor_release_memory_def set_session_def)
  have "sum_slots held (gs_sessions g') = gs_total_memory_bytes g - ss_memory_bytes ?s"
    using inv fo u by (simp add: g' set_session_def sum_slots_update totals_exact_def held_def)
  then show ?thesis using b by (simp add: g')
qed

theorem release_overdraft_understates_total_witness:
  "gs_total_memory_bytes (the (orochi_governor_release_memory 9 11 120 (Some two_sessions))) = 30 \<and>
   30 < sum_slots held (gs_sessions (the (orochi_governor_release_memory 9 11 120 (Some two_sessions))))"
  using release_overdraft_understates_total [OF two_sessions_reachable, of 11 0 120 9
      "the (orochi_governor_release_memory 9 11 120 (Some two_sessions))"]
  by (simp add: two_sessions_slots orochi_governor_get_memory_usage_def find_session_state_def new_session_state_def
      orochi_governor_release_memory_def set_session_def zero_session_def)

section \<open>The CPU limit\<close>

text \<open>What a backend does to its own session, with CPU times that are not negative and do not overflow.\<close>

inductive own_traffic :: "int \<Rightarrow> GovernorSharedState \<Rightarrow> GovernorSharedState \<Rightarrow> bool" for pid where
  none: "own_traffic pid g g"
| cpu: "own_traffic pid g g1 \<Longrightarrow> 0 \<le> us \<Longrightarrow> orochi_governor_get_cpu_usage (Some g1) pid + us < 9223372036854775808 \<Longrightarrow>
    orochi_governor_track_cpu now pid us (Some g1) = Some g2 \<Longrightarrow> own_traffic pid g g2"
| request: "own_traffic pid g g1 \<Longrightarrow> orochi_governor_request_memory now pid b (Some g1) = (ok, Some g2) \<Longrightarrow> own_traffic pid g g2"
| release: "own_traffic pid g g1 \<Longrightarrow> orochi_governor_release_memory now pid b (Some g1) = Some g2 \<Longrightarrow> own_traffic pid g g2"
| io: "own_traffic pid g g1 \<Longrightarrow> orochi_governor_track_io now pid b w (Some g1) = Some g2 \<Longrightarrow> own_traffic pid g g2"
| set_timeout: "own_traffic pid g g1 \<Longrightarrow> orochi_governor_set_timeout now pid ms (Some g1) = Some g2 \<Longrightarrow> own_traffic pid g g2"
| clear_timeout: "own_traffic pid g g1 \<Longrightarrow> orochi_governor_clear_timeout pid (Some g1) = Some g2 \<Longrightarrow> own_traffic pid g g2"

definition over_limit :: "GovernorSharedState \<Rightarrow> int \<Rightarrow> nat \<Rightarrow> bool" where
  "over_limit g pid i = (find_session_state g pid = Some i \<and>
     0 < ss_cpu_limit_us (gs_sessions g ! i) \<and> ss_cpu_limit_us (gs_sessions g ! i) \<le> ss_cpu_time_us (gs_sessions g ! i))"

lemma check_cpu_over_limit: "orochi_governor_check_cpu_limit (Some g) pid \<longleftrightarrow> (\<exists>i. over_limit g pid i)"
  by (simp add: orochi_governor_check_cpu_limit_def over_limit_def Let_def split: option.splits)

lemma find_over: "over_limit g pid i \<Longrightarrow> find_session_state g pid = Some i"
  by (simp add: over_limit_def)

lemma find_or_create_over: "over_limit g pid i \<Longrightarrow> find_or_create_session_state now pid g = (Some i, g)"
  by (simp add: over_limit_def find_or_create_session_state_def)

lemma over_limit_set_session:
  assumes o: "over_limit g pid i"
    and f: "ss_backend_pid (f (gs_sessions g ! i)) = ss_backend_pid (gs_sessions g ! i)" "ss_is_active (f (gs_sessions g ! i)) = ss_is_active (gs_sessions g ! i)"
      "ss_cpu_limit_us (f (gs_sessions g ! i)) = ss_cpu_limit_us (gs_sessions g ! i)" "ss_cpu_time_us (gs_sessions g ! i) \<le> ss_cpu_time_us (f (gs_sessions g ! i))"
  shows "over_limit (set_session i f g) pid i"
  using assms found_session [of g pid i]
  by (simp add: over_limit_def set_session_def find_session_state_def find_index_update_same)

lemma over_limit_totals [simp]:
  "over_limit (g\<lparr>gs_total_cpu_time_us := c\<rparr>) pid i = over_limit g pid i"
  "over_limit (g\<lparr>gs_total_memory_bytes := m\<rparr>) pid i = over_limit g pid i"
  "over_limit (g\<lparr>gs_total_io_bytes := b\<rparr>) pid i = over_limit g pid i"
  by (simp_all add: over_limit_def find_session_state_def)

lemma count_io_frame_cpu [simp]:
  "ss_backend_pid (count_io b w s) = ss_backend_pid s" "ss_cpu_limit_us (count_io b w s) = ss_cpu_limit_us s"
  "ss_cpu_time_us (count_io b w s) = ss_cpu_time_us s" "ss_backend_pid (reset_io_window now s) = ss_backend_pid s"
  "ss_cpu_limit_us (reset_io_window now s) = ss_cpu_limit_us s" "ss_cpu_time_us (reset_io_window now s) = ss_cpu_time_us s"
  by (simp_all add: count_io_def reset_io_window_def)

lemma own_traffic_over: "own_traffic pid g g' \<Longrightarrow> over_limit g pid i \<Longrightarrow> over_limit g' pid i"
proof (induction rule: own_traffic.induct)
  case (cpu g g1 us now g2)
  then have o: "over_limit g1 pid i" by simp
  then have "wrap_i64 (ss_cpu_time_us (gs_sessions g1 ! i) + us) = ss_cpu_time_us (gs_sessions g1 ! i) + us"
    using cpu by (simp add: over_limit_def orochi_governor_get_cpu_usage_def)
  then show ?case using cpu
    by (auto simp: orochi_governor_track_cpu_def find_or_create_over [OF o] split: if_splits intro!: over_limit_set_session [OF o])
next
  case (request g g1 now b ok g2)
  then have o: "over_limit g1 pid i" by simp
  show ?case using request o
    by (auto simp: orochi_governor_request_memory_def find_or_create_over [OF o] Let_def split: if_splits
        intro!: over_limit_set_session [OF o])
next
  case (release g g1 now b g2)
  then have o: "over_limit g1 pid i" by simp
  show ?case using release o
    by (auto simp: orochi_governor_release_memory_def find_over [OF o] split: if_splits intro!: over_limit_set_session [OF o])
next
  case (io g g1 now b w g2)
  then have o: "over_limit g1 pid i" by simp
  show ?case using io o
    by (auto simp: orochi_governor_track_io_def find_or_create_over [OF o] split: if_splits intro!: over_limit_set_session [OF o])
next
  case (set_timeout g g1 now ms g2)
  then have o: "over_limit g1 pid i" by simp
  show ?case using set_timeout
    by (auto simp: orochi_governor_set_timeout_def find_or_create_over [OF o] intro!: over_limit_set_session [OF o])
next
  case (clear_timeout g g1 g2)
  then have o: "over_limit g1 pid i" by simp
  show ?case using clear_timeout o
    by (auto simp: orochi_governor_clear_timeout_def find_over [OF o] intro!: over_limit_set_session [OF o])
qed

text \<open>The CPU limit is in microseconds of each second, but it is compared with all CPU time of the session and no new
  window resets that time: once a backend is over its limit it stays over it, whatever it does and however much time
  passes, until its statistics are reset.\<close>

theorem cpu_limit_never_recovers:
  assumes "orochi_governor_check_cpu_limit (Some g) pid" "own_traffic pid g g'"
  shows "orochi_governor_check_cpu_limit (Some g') pid"
  using assms(1) own_traffic_over [OF assms(2)] unfolding check_cpu_over_limit by blast

theorem cpu_limit_never_recovers_witness:
  "orochi_governor_check_cpu_limit (orochi_governor_track_cpu 3600000000 11 0 (Some limited_session)) 11"
proof -
  obtain g where s: "orochi_governor_track_cpu 3600000000 11 0 (Some limited_session) = Some g"
    by (simp add: orochi_governor_track_cpu_def)
  have "own_traffic 11 limited_session g"
    by (rule own_traffic.cpu [OF own_traffic.none _ _ s])
      (simp_all add: orochi_governor_get_cpu_usage_def find_session_state_def limited_session_def new_session_state_def zero_session_def)
  moreover have "orochi_governor_check_cpu_limit (Some limited_session) 11"
    by (simp add: orochi_governor_check_cpu_limit_def find_session_state_def limited_session_def new_session_state_def zero_session_def)
  ultimately show ?thesis unfolding s by (rule cpu_limit_never_recovers [rotated])
qed

end
