(* ===== verification/Base64url.thy ===== *)
theory Base64url
  imports Prelude
begin

text \<open>
  Base64url encoding (\<^verbatim>\<open>auth/jwt.c\<close>, and the decoder of \<^verbatim>\<open>auth/auth.c\<close>, which has the same loop). Text is a string, the
  data encoded are bytes. The buffer is a 32-bit word from which bits that were used are never removed; they are shifted
  out on the left.
\<close>

unbundle bit_operations_syntax

definition base64url_chars :: string where
  "base64url_chars = ''ABCDEFGHIJKLMNOPQRSTUVWXYZabcdefghijklmnopqrstuvwxyz0123456789-_''"

text \<open>The table of 256 entries; \<open>- 1\<close> marks characters that are not digits.\<close>

definition base64url_decode_table :: "int list" where
  "base64url_decode_table =
     replicate 45 (- 1) @ [62, - 1, - 1] @ map int [52 ..< 62] @ replicate 7 (- 1) @ map int [0 ..< 26] @
     [- 1, - 1, - 1, - 1, 63, - 1] @ map int [26 ..< 52] @ replicate 133 (- 1)"

definition skipped_char :: "char \<Rightarrow> bool" where
  "skipped_char c = (c = CHR ''='' \<or> c = CHR 0x0A \<or> c = CHR 0x0D)"

text \<open>The loop over the input: \<open>None\<close> for a character that is neither a digit nor skipped.\<close>

fun base64url_decode_loop :: "32 word \<Rightarrow> nat \<Rightarrow> string \<Rightarrow> bytes option" where
  "base64url_decode_loop buffer bits [] = Some []"
| "base64url_decode_loop buffer bits (c # cs) =
     (let val = base64url_decode_table ! of_char c in
      if val < 0 then (if skipped_char c then base64url_decode_loop buffer bits cs else None)
      else let buffer' = push_bit 6 buffer OR word_of_int val; bits' = bits + 6 in
           if bits' \<ge> 8
           then map_option ((#) (ucast (drop_bit (bits' - 8) buffer' AND 0xFF))) (base64url_decode_loop buffer' (bits' - 8) cs)
           else base64url_decode_loop buffer' bits' cs)"

definition orochi_base64url_decode :: "string \<Rightarrow> bytes option" where
  "orochi_base64url_decode input = (if input = [] then Some [] else base64url_decode_loop 0 0 input)"

text \<open>\<^verbatim>\<open>while (bits >= 6) { bits -= 6; output[j++] = ...; }\<close>.\<close>

fun base64url_flush :: "32 word \<Rightarrow> nat \<Rightarrow> string \<times> nat" where
  "base64url_flush buffer bits =
     (if bits \<ge> 6
      then case base64url_flush buffer (bits - 6) of
             (cs, bits') \<Rightarrow> (base64url_chars ! unat (drop_bit (bits - 6) buffer AND 0x3F) # cs, bits')
      else ([], bits))"

declare base64url_flush.simps [simp del]

fun base64url_encode_loop :: "32 word \<Rightarrow> nat \<Rightarrow> bytes \<Rightarrow> string" where
  "base64url_encode_loop buffer bits [] =
     (if bits > 0 then [base64url_chars ! unat (push_bit (6 - bits) buffer AND 0x3F)] else [])"
| "base64url_encode_loop buffer bits (x # xs) =
     (let buffer' = push_bit 8 buffer OR ucast x in
      case base64url_flush buffer' (bits + 8) of (cs, bits') \<Rightarrow> cs @ base64url_encode_loop buffer' bits' xs)"

definition orochi_base64url_encode :: "bytes \<Rightarrow> string" where
  "orochi_base64url_encode input = base64url_encode_loop 0 0 input"

section \<open>Digits\<close>

lemma length_chars: "length base64url_chars = 64"
  by (simp add: base64url_chars_def)

lemma table_of_digit: "v < 64 \<Longrightarrow> base64url_decode_table ! of_char (base64url_chars ! v) = int v"
proof -
  have "list_all (\<lambda>v. base64url_decode_table ! of_char (base64url_chars ! v) = int v) [0 ..< 64]" by code_simp
  then show "v < 64 \<Longrightarrow> ?thesis" by (simp add: list_all_iff)
qed

lemma masks: "(0x3F :: 'a::len word) = mask 6" "(0xFF :: 'a::len word) = mask 8"
  by (simp_all add: mask_eq_exp_minus_1)

lemma low6_less: "unat (w AND 0x3F :: 32 word) < 64"
proof -
  have "w AND 0x3F < 2 ^ 6" unfolding masks by (rule and_mask_less_size) (simp add: word_size)
  then show ?thesis using unat_mono by fastforce
qed

section \<open>Round trip\<close>

abbreviation digit :: "32 word \<Rightarrow> char" where
  "digit v \<equiv> base64url_chars ! unat (v AND 0x3F)"

text \<open>Shifting a digit or a byte into the buffer, and the bits it then has.\<close>

definition in6 :: "32 word \<Rightarrow> 32 word \<Rightarrow> 32 word" where
  "in6 d q = push_bit 6 d OR (q AND 0x3F)"

definition in8 :: "32 word \<Rightarrow> u8 \<Rightarrow> 32 word" where
  "in8 b x = push_bit 8 b OR ucast x"

lemma bit_in6: "m < 32 \<Longrightarrow> bit (in6 d q) m = (if m < 6 then bit q m else bit d (m - 6))"
  unfolding in6_def masks by (auto simp: bit_simps)

lemma bit_in8: "m < 32 \<Longrightarrow> bit (in8 b x) m = (if m < 8 then bit x m else bit b (m - 8))"
  unfolding in8_def by (auto simp: bit_simps dest: bit_imp_le_length)

lemma byte_eqI: "(\<And>n. n < 8 \<Longrightarrow> bit (w :: 32 word) n = bit x n) \<Longrightarrow> ucast (w AND 0xFF) = (x :: u8)"
  unfolding masks by (rule bit_word_eqI) (simp add: bit_simps)

lemma Suc_Suc_diff: "\<not> n < 2 \<Longrightarrow> Suc (Suc (n - 2)) = n"
  by simp

lemmas buffer_bits = bit_drop_bit_eq bit_in6 bit_in8 bit_push_bit_iff Suc_Suc_diff

text \<open>One step of the decoder on a digit; the encoder on up to three bytes.\<close>

lemma decode_digit:
  "base64url_decode_loop d n (digit v # cs) =
     (if n + 6 \<ge> 8 then map_option ((#) (ucast (drop_bit (n + 6 - 8) (in6 d v) AND 0xFF))) (base64url_decode_loop (in6 d v) (n + 6 - 8) cs)
      else base64url_decode_loop (in6 d v) (n + 6) cs)"
  using low6_less [of v] by (simp add: table_of_digit Let_def in6_def)

declare base64url_decode_loop.simps(2) [simp del]

lemma encode_group:
  "base64url_encode_loop b 0 (x # y # z # xs) =
     digit (drop_bit 2 (in8 b x)) # digit (drop_bit 4 (in8 (in8 b x) y)) # digit (drop_bit 6 (in8 (in8 (in8 b x) y) z)) #
     digit (in8 (in8 (in8 b x) y) z) # base64url_encode_loop (in8 (in8 (in8 b x) y) z) 0 xs"
  unfolding in8_def by (simp add: Let_def base64url_flush.simps)

lemma encode_one: "base64url_encode_loop b 0 [x] = [digit (drop_bit 2 (in8 b x)), digit (push_bit 4 (in8 b x))]"
  unfolding in8_def by (simp add: Let_def base64url_flush.simps)

lemma encode_two:
  "base64url_encode_loop b 0 [x, y] =
     [digit (drop_bit 2 (in8 b x)), digit (drop_bit 4 (in8 (in8 b x) y)), digit (push_bit 2 (in8 (in8 b x) y))]"
  unfolding in8_def by (simp add: Let_def base64url_flush.simps)

lemma first_byte: "ucast (drop_bit 4 (in6 (in6 d (drop_bit 2 (in8 b x))) (drop_bit 4 (in8 (in8 b x) y))) AND 0xFF) = x"
  by (rule byte_eqI) (auto simp: buffer_bits)

lemma decode_group:
  "\<exists>d'. base64url_decode_loop d 0 (digit (drop_bit 2 (in8 b x)) # digit (drop_bit 4 (in8 (in8 b x) y)) #
       digit (drop_bit 6 (in8 (in8 (in8 b x) y) z)) # digit (in8 (in8 (in8 b x) y) z) # cs) =
     map_option (\<lambda>r. x # y # z # r) (base64url_decode_loop d' 0 cs)"
proof -
  have "ucast (drop_bit 2 (in6 (in6 d2 (drop_bit 4 (in8 b1 y))) (drop_bit 6 (in8 (in8 b1 y) z))) AND 0xFF) = y" for d2 b1
    by (rule byte_eqI) (auto simp: buffer_bits)
  moreover have "ucast (in6 (in6 d3 (drop_bit 6 (in8 b2 z))) (in8 b2 z) AND 0xFF) = z" for d3 b2
    by (rule byte_eqI) (auto simp: buffer_bits)
  ultimately show ?thesis by (simp add: decode_digit first_byte option.map_comp o_def) blast
qed

lemma decode_one: "base64url_decode_loop d 0 [digit (drop_bit 2 (in8 b x)), digit (push_bit 4 (in8 b x))] = Some [x]"
proof -
  have "ucast (drop_bit 4 (in6 (in6 d (drop_bit 2 (in8 b x))) (push_bit 4 (in8 b x))) AND 0xFF) = x"
    by (rule byte_eqI) (auto simp: buffer_bits)
  then show ?thesis by (simp add: decode_digit)
qed

lemma decode_two:
  "base64url_decode_loop d 0 [digit (drop_bit 2 (in8 b x)), digit (drop_bit 4 (in8 (in8 b x) y)), digit (push_bit 2 (in8 (in8 b x) y))]
     = Some [x, y]"
proof -
  have "ucast (drop_bit 2 (in6 (in6 d2 (drop_bit 4 (in8 b1 y))) (push_bit 2 (in8 b1 y))) AND 0xFF) = y" for d2 b1
    by (rule byte_eqI) (auto simp: buffer_bits)
  then show ?thesis by (simp add: decode_digit first_byte)
qed

lemma three_step_induct:
  assumes "P []" "\<And>x. P [x]" "\<And>x y. P [x, y]" "\<And>x y z zs. P zs \<Longrightarrow> P (x # y # z # zs)"
  shows "P xs"
proof (induction xs rule: length_induct)
  case (1 xs)
  consider "xs = []" | x where "xs = [x]" | x y where "xs = [x, y]" | x y z zs where "xs = x # y # z # zs"
    by (metis neq_Nil_conv)
  then show ?case using 1 assms by cases auto
qed

lemma decode_encode_loop: "base64url_decode_loop d 0 (base64url_encode_loop b 0 xs) = Some xs"
proof (induction xs arbitrary: b d rule: three_step_induct)
  case (4 x y z zs)
  obtain d' where "base64url_decode_loop d 0 (base64url_encode_loop b 0 (x # y # z # zs)) =
      map_option (\<lambda>r. x # y # z # r) (base64url_decode_loop d' 0 (base64url_encode_loop (in8 (in8 (in8 b x) y) z) 0 zs))"
    unfolding encode_group using decode_group by blast
  then show ?case by (simp only: "4.IH") simp
qed (simp_all only: encode_one encode_two decode_one decode_two, simp)

lemma base64url_roundtrip_bytes: "orochi_base64url_decode (orochi_base64url_encode bs) = Some bs"
  using decode_encode_loop [of 0 0 bs]
  by (cases "base64url_encode_loop 0 0 bs = []") (simp_all add: orochi_base64url_decode_def orochi_base64url_encode_def)

text \<open>Decoding what was encoded gives the bytes back, for every sequence of bytes.\<close>

theorem base64url_roundtrip: "orochi_base64url_decode (orochi_base64url_encode bs) = Some bs"
  by (rule base64url_roundtrip_bytes)

end
