(* ===== verification/Probe_Table.thy ===== *)
theory Probe_Table
  imports Slots
begin

text \<open>
  Open addressing with a bounded number of probes, as the caches of the extension use it: a table of \<open>N\<close> slots, a home
  slot for every key, and a search that looks at \<open>n\<close> slots from there on, modulo \<open>N\<close>. A search for a key stops at an
  empty slot; a search for a place takes the first slot that is empty, may be reused, or already has the key.
\<close>

text \<open>\<^verbatim>\<open>for (probe = 0; probe < n; probe++) { if (stop) return NULL; if (hit) return entry; slot = (slot + 1) % N; }\<close>.\<close>

fun probe_loop :: "nat \<Rightarrow> ('e \<Rightarrow> bool) \<Rightarrow> ('e \<Rightarrow> bool) \<Rightarrow> 'e list \<Rightarrow> nat \<Rightarrow> nat \<Rightarrow> nat option" where
  "probe_loop N stop hit xs slot 0 = None"
| "probe_loop N stop hit xs slot (Suc n) =
     (if stop (xs ! slot) then None
      else if hit (xs ! slot) then Some slot
      else probe_loop N stop hit xs ((slot + 1) mod N) n)"

lemma probe_loop_numeral:
  "probe_loop N stop hit xs slot (numeral k) =
     (if stop (xs ! slot) then None
      else if hit (xs ! slot) then Some slot
      else probe_loop N stop hit xs ((slot + 1) mod N) (pred_numeral k))"
  by (simp add: numeral_eq_Suc)

lemma probe_loop_hit: "probe_loop N stop hit xs slot n = Some i \<Longrightarrow> \<not> stop (xs ! i) \<and> hit (xs ! i)"
  by (induction n arbitrary: slot) (auto split: if_splits)

lemma probe_loop_less: "probe_loop N stop hit xs slot n = Some i \<Longrightarrow> slot < N \<Longrightarrow> i < N"
  by (induction n arbitrary: slot) (auto split: if_splits)

lemma probe_loop_cong:
  assumes "\<And>e. e \<in> set xs \<Longrightarrow> stop (f e) = stop e \<and> hit (f e) = hit e" "slot < N" "length xs = N"
  shows "probe_loop N stop hit (map f xs) slot n = probe_loop N stop hit xs slot n"
  using assms(2)
proof (induction n arbitrary: slot)
  case (Suc n)
  then have "0 < N" "xs ! slot \<in> set xs" "map f xs ! slot = f (xs ! slot)" using assms(3) by auto
  then show ?case using Suc.IH [of "(slot + 1) mod N"] assms(1) [of "xs ! slot"] by simp
qed simp

text \<open>Changing one slot so that the search sees no difference.\<close>

lemma probe_loop_update_same:
  assumes "stop v = stop (xs ! i)" "hit v = hit (xs ! i)"
  shows "probe_loop N stop hit (xs[i := v]) slot n = probe_loop N stop hit xs slot n"
proof (induction n arbitrary: slot)
  case (Suc n)
  show ?case
  proof (cases "slot = i \<and> i < length xs")
    case True
    then show ?thesis using Suc.IH assms by simp
  next
    case False
    then have "xs[i := v] ! slot = xs ! slot" by (cases "i < length xs") (auto simp: list_update_beyond)
    then show ?thesis using Suc.IH by simp
  qed
qed simp

lemma probe_loop_hit_cong:
  "(\<And>e. \<not> stop e \<Longrightarrow> hit e = hit' e) \<Longrightarrow> probe_loop N stop hit xs slot n = probe_loop N stop hit' xs slot n"
  by (induction n arbitrary: slot) auto

lemma probe_loop_none:
  assumes "\<And>e. e \<in> set xs \<Longrightarrow> \<not> hit e" "slot < N" "length xs = N"
  shows "probe_loop N stop hit xs slot n = None"
  using assms(2)
proof (induction n arbitrary: slot)
  case (Suc n)
  then have "0 < N" "xs ! slot \<in> set xs" using assms(3) by auto
  then show ?case using Suc.IH [of "(slot + 1) mod N"] assms(1) by simp
qed simp

text \<open>If no place was found, then no slot that was looked at has the key; a change elsewhere is not seen.\<close>

lemma probe_loop_implies_none:
  assumes "probe_loop N (\<lambda>e. False) free xs slot n = None" "\<And>e. hit e \<Longrightarrow> free e"
  shows "probe_loop N stop hit xs slot n = None"
  using assms(1) by (induction n arbitrary: slot) (auto split: if_splits dest: assms(2))

lemma probe_loop_update_outside:
  assumes "\<And>k. k < n \<Longrightarrow> (slot + k) mod N \<noteq> i" "slot < N"
  shows "probe_loop N stop hit (xs[i := v]) slot n = probe_loop N stop hit xs slot n"
  using assms
proof (induction n arbitrary: slot)
  case (Suc n)
  have "slot \<noteq> i" using Suc.prems(1) [of 0] Suc.prems(2) by simp
  moreover have "((slot + 1) mod N + k) mod N \<noteq> i" if "k < n" for k
    using Suc.prems(1) [of "Suc k"] that by (simp add: mod_add_left_eq)
  moreover have "(slot + 1) mod N < N" using Suc.prems(2) by simp
  ultimately show ?case using Suc.IH [of "(slot + 1) mod N"] by simp
qed simp

text \<open>What a table relies on: an entry has one key, an empty slot has none, and home slots are slots.\<close>

locale probe_table =
  fixes N n :: nat and home :: "'k \<Rightarrow> nat" and empty :: "'e \<Rightarrow> bool" and matches :: "'k \<Rightarrow> 'e \<Rightarrow> bool"
  assumes matches_unique: "matches k e \<Longrightarrow> matches k' e \<Longrightarrow> k' = k"
    and matches_filled: "matches k e \<Longrightarrow> \<not> empty e"
    and home_less: "home k < N"
begin

abbreviation lookup :: "'e list \<Rightarrow> 'k \<Rightarrow> nat option" where
  "lookup xs k \<equiv> probe_loop N empty (matches k) xs (home k) n"

abbreviation place :: "('e \<Rightarrow> bool) \<Rightarrow> 'e list \<Rightarrow> 'k \<Rightarrow> nat option" where
  "place free xs k \<equiv> probe_loop N (\<lambda>e. False) free xs (home k) n"

lemma lookup_matches: "lookup xs k = Some i \<Longrightarrow> matches k (xs ! i)"
  by (drule probe_loop_hit) simp

text \<open>What is stored in the place found for a key is found under the key.\<close>

lemma probe_after_store:
  assumes "probe_loop N (\<lambda>e. False) free xs slot m = Some i" "\<And>e. empty e \<or> matches k e \<Longrightarrow> free e"
    and "i < length xs" "matches k v"
  shows "probe_loop N empty (matches k) (xs[i := v]) slot m = Some i"
  using assms(1)
proof (induction m arbitrary: slot)
  case (Suc m)
  show ?case
  proof (cases "free (xs ! slot)")
    case True
    with Suc.prems assms(3,4) matches_filled show ?thesis by auto
  next
    case False
    with Suc.prems have r: "probe_loop N (\<lambda>e. False) free xs ((slot + 1) mod N) m = Some i" by simp
    have "slot \<noteq> i" using probe_loop_hit [OF r] False by blast
    with False r Suc.IH assms(2) show ?thesis by auto
  qed
qed simp

lemma lookup_after_store:
  assumes "place free xs k = Some i" "\<And>e. empty e \<or> matches k e \<Longrightarrow> free e" "length xs = N" "matches k v"
  shows "lookup (xs[i := v]) k = Some i"
  using probe_after_store [OF assms(1,2)] probe_loop_less [OF assms(1) home_less] assms(3,4) by simp

text \<open>Another key that was found in another slot is still found there.\<close>

lemma lookup_other_after_store:
  assumes "lookup xs k' = Some j" "j \<noteq> i" "matches k v" "k' \<noteq> k"
  shows "lookup (xs[i := v]) k' = Some j"
proof -
  have "probe_loop N empty (matches k') (xs[i := v]) slot m = Some j"
    if "probe_loop N empty (matches k') xs slot m = Some j" for slot m
    using that
  proof (induction m arbitrary: slot)
    case (Suc m)
    have v: "\<not> empty v" "\<not> matches k' v" using assms(3,4) matches_filled matches_unique by blast+
    show ?case
    proof (cases "slot = i")
      case True
      with Suc.prems assms(2) have "probe_loop N empty (matches k') xs ((slot + 1) mod N) m = Some j" by (auto split: if_splits)
      with True Suc.IH v Suc.prems show ?thesis by (cases "i < length xs") (simp_all add: list_update_beyond)
    next
      case False
      with Suc show ?thesis by (auto split: if_splits)
    qed
  qed simp
  with assms(1) show ?thesis by blast
qed

end

end
