(* ===== verification/Auth_Cache.thy ===== *)
theory Auth_Cache
  imports Probe_Table
begin

text \<open>
  The authentication caches in shared memory (\<^verbatim>\<open>auth/auth_cache.c\<close>, the structures of \<^verbatim>\<open>auth/auth.h\<close>): validated tokens,
  sessions, signing keys and rate limits. Tokens, sessions and rate limits are tables with bounded linear probing.

  A character array is the string up to its NUL, and \<^verbatim>\<open>strlcpy\<close> keeps as many characters as fit. The shared segment is
  attached; every function runs under its lock. The clock is the argument \<open>now\<close> in microseconds, the GUC variables are
  the record \<open>auth_gucs\<close>. Reading the signing keys and the revocations from tables, the audit log and the background
  workers are left out.
\<close>

section \<open>Data\<close>

abbreviation (input) OROCHI_AUTH_MAX_CACHED_TOKENS :: nat where "OROCHI_AUTH_MAX_CACHED_TOKENS \<equiv> 10000"
abbreviation (input) OROCHI_AUTH_MAX_CACHED_SESSIONS :: nat where "OROCHI_AUTH_MAX_CACHED_SESSIONS \<equiv> 5000"
abbreviation (input) OROCHI_AUTH_MAX_SIGNING_KEYS :: nat where "OROCHI_AUTH_MAX_SIGNING_KEYS \<equiv> 16"
abbreviation (input) OROCHI_AUTH_MAX_RATE_LIMITS :: nat where "OROCHI_AUTH_MAX_RATE_LIMITS \<equiv> 1024"
abbreviation (input) OROCHI_AUTH_TOKEN_HASH_SIZE :: nat where "OROCHI_AUTH_TOKEN_HASH_SIZE \<equiv> 64"
abbreviation (input) OROCHI_AUTH_SESSION_ID_SIZE :: nat where "OROCHI_AUTH_SESSION_ID_SIZE \<equiv> 32"
abbreviation (input) OROCHI_AUTH_USER_ID_SIZE :: nat where "OROCHI_AUTH_USER_ID_SIZE \<equiv> 36"
abbreviation (input) OROCHI_AUTH_TENANT_ID_SIZE :: nat where "OROCHI_AUTH_TENANT_ID_SIZE \<equiv> 36"
abbreviation (input) OROCHI_AUTH_RATE_LIMIT_KEY_SIZE :: nat where "OROCHI_AUTH_RATE_LIMIT_KEY_SIZE \<equiv> 256"
abbreviation (input) USECS_PER_SEC :: int where "USECS_PER_SEC \<equiv> 1000000"
abbreviation (input) DT_NOEND :: int where "DT_NOEND \<equiv> 9223372036854775807"

datatype OrochiAuthMethod = OROCHI_AUTH_NONE | OROCHI_AUTH_PASSWORD | OROCHI_AUTH_API_KEY | OROCHI_AUTH_JWT | OROCHI_AUTH_OAUTH |
  OROCHI_AUTH_MAGIC_LINK | OROCHI_AUTH_PHONE_OTP | OROCHI_AUTH_SAML | OROCHI_AUTH_CERTIFICATE | OROCHI_AUTH_CONNECTION_STRING

datatype OrochiTokenType = OROCHI_TOKEN_ACCESS | OROCHI_TOKEN_REFRESH | OROCHI_TOKEN_API_KEY | OROCHI_TOKEN_CONNECTION |
  OROCHI_TOKEN_INVITATION | OROCHI_TOKEN_PASSWORD_RESET | OROCHI_TOKEN_EMAIL_VERIFY

datatype OrochiSessionState = OROCHI_SESSION_ACTIVE | OROCHI_SESSION_IDLE | OROCHI_SESSION_EXPIRED | OROCHI_SESSION_REVOKED |
  OROCHI_SESSION_MFA_REQUIRED

datatype OrochiJwtAlgorithm = OROCHI_JWT_ALG_NONE | OROCHI_JWT_HS256 | OROCHI_JWT_HS384 | OROCHI_JWT_HS512 | OROCHI_JWT_RS256 |
  OROCHI_JWT_RS384 | OROCHI_JWT_RS512 | OROCHI_JWT_ES256 | OROCHI_JWT_ES384 | OROCHI_JWT_ES512

record OrochiSession =
  se_session_id :: string
  se_user_id :: string
  se_tenant_id :: string
  se_state :: OrochiSessionState
  se_auth_method :: OrochiAuthMethod
  se_ip_address :: string
  se_user_agent :: string
  se_device_id :: string
  se_geo_country :: string
  se_geo_city :: string
  se_created_at :: int
  se_last_activity :: int
  se_expires_at :: int
  se_refresh_count :: int
  se_mfa_verified :: bool
  se_aal :: string
  se_hash_slot :: nat

record OrochiToken =
  tk_token_hash :: string
  tk_token_type :: OrochiTokenType
  tk_session_id :: string
  tk_user_id :: string
  tk_tenant_id :: string
  tk_issued_at :: int
  tk_expires_at :: int
  tk_not_before :: int
  tk_scopes :: int
  tk_is_revoked :: bool
  tk_jti :: string
  tk_hash_slot :: nat
  tk_cached_at :: int

record OrochiSigningKey =
  sk_key_id :: string
  sk_tenant_id :: string
  sk_algorithm :: OrochiJwtAlgorithm
  sk_public_key :: string
  sk_private_key_encrypted :: string
  sk_created_at :: int
  sk_expires_at :: int
  sk_rotated_at :: int
  sk_is_current :: bool
  sk_is_active :: bool
  sk_version :: int

record OrochiRateLimit =
  rt_key :: string
  rt_count :: int
  rt_limit :: int
  rt_window_start :: int
  rt_window_seconds :: int
  rt_is_blocked :: bool
  rt_blocked_until :: int

record OrochiTokenValidation =
  tv_is_valid :: bool
  tv_error_code :: string
  tv_error_message :: string
  tv_user_id :: string
  tv_tenant_id :: string
  tv_session_id :: string
  tv_token_type :: OrochiTokenType
  tv_scopes :: int
  tv_issued_at :: int
  tv_expires_at :: int
  tv_is_expired :: bool
  tv_is_revoked :: bool
  tv_roles :: "string list"

record OrochiAuthCache =
  ac_token_cache_count :: int
  ac_token_cache_head :: nat
  ac_token_cache :: "OrochiToken list"
  ac_session_cache_count :: int
  ac_session_cache_head :: nat
  ac_session_cache :: "OrochiSession list"
  ac_signing_key_count :: nat
  ac_signing_keys :: "OrochiSigningKey list"
  ac_rate_limit_count :: int
  ac_rate_limits :: "OrochiRateLimit list"
  ac_total_auth_requests :: nat
  ac_cache_hits :: nat
  ac_cache_misses :: nat
  ac_failed_authentications :: nat
  ac_tokens_revoked :: nat
  ac_sessions_created :: nat
  ac_sessions_expired :: nat
  ac_last_cleanup :: int
  ac_is_initialized :: bool

record auth_gucs =
  orochi_auth_enabled :: bool
  orochi_auth_access_token_ttl :: int
  orochi_auth_session_ttl :: int
  orochi_auth_max_sessions_per_user :: int
  orochi_auth_rate_limit_enabled :: bool
  orochi_auth_rate_limit_window :: int
  orochi_auth_jwt_leeway :: int
  orochi_auth_key_rotation_days :: int

definition empty_token :: "nat \<Rightarrow> OrochiToken" where
  "empty_token i = \<lparr>tk_token_hash = [], tk_token_type = OROCHI_TOKEN_ACCESS, tk_session_id = [], tk_user_id = [], tk_tenant_id = [],
     tk_issued_at = 0, tk_expires_at = 0, tk_not_before = 0, tk_scopes = 0, tk_is_revoked = False, tk_jti = [], tk_hash_slot = i,
     tk_cached_at = 0\<rparr>"

definition zero_auth_session :: OrochiSession where
  "zero_auth_session = \<lparr>se_session_id = [], se_user_id = [], se_tenant_id = [], se_state = OROCHI_SESSION_ACTIVE,
     se_auth_method = OROCHI_AUTH_NONE, se_ip_address = [], se_user_agent = [], se_device_id = [], se_geo_country = [],
     se_geo_city = [], se_created_at = 0, se_last_activity = 0, se_expires_at = 0, se_refresh_count = 0, se_mfa_verified = False,
     se_aal = [], se_hash_slot = 0\<rparr>"

definition empty_auth_session :: "nat \<Rightarrow> OrochiSession" where
  "empty_auth_session i = zero_auth_session\<lparr>se_state := OROCHI_SESSION_EXPIRED, se_hash_slot := i\<rparr>"

definition empty_signing_key :: OrochiSigningKey where
  "empty_signing_key = \<lparr>sk_key_id = [], sk_tenant_id = [], sk_algorithm = OROCHI_JWT_ALG_NONE, sk_public_key = [],
     sk_private_key_encrypted = [], sk_created_at = 0, sk_expires_at = 0, sk_rotated_at = 0, sk_is_current = False,
     sk_is_active = False, sk_version = 0\<rparr>"

definition empty_rate_limit :: OrochiRateLimit where
  "empty_rate_limit = \<lparr>rt_key = [], rt_count = 0, rt_limit = 0, rt_window_start = 0, rt_window_seconds = 0, rt_is_blocked = False,
     rt_blocked_until = 0\<rparr>"

definition orochi_auth_shmem_init :: "int \<Rightarrow> OrochiAuthCache option \<Rightarrow> OrochiAuthCache" where
  "orochi_auth_shmem_init now existing =
     (case existing of
        Some c \<Rightarrow> c
      | None \<Rightarrow>
          \<lparr>ac_token_cache_count = 0, ac_token_cache_head = 0,
           ac_token_cache = map empty_token [0 ..< OROCHI_AUTH_MAX_CACHED_TOKENS],
           ac_session_cache_count = 0, ac_session_cache_head = 0,
           ac_session_cache = map empty_auth_session [0 ..< OROCHI_AUTH_MAX_CACHED_SESSIONS],
           ac_signing_key_count = 0, ac_signing_keys = replicate OROCHI_AUTH_MAX_SIGNING_KEYS empty_signing_key,
           ac_rate_limit_count = 0, ac_rate_limits = replicate OROCHI_AUTH_MAX_RATE_LIMITS empty_rate_limit,
           ac_total_auth_requests = 0, ac_cache_hits = 0, ac_cache_misses = 0, ac_failed_authentications = 0,
           ac_tokens_revoked = 0, ac_sessions_created = 0, ac_sessions_expired = 0, ac_last_cleanup = now,
           ac_is_initialized = True\<rparr>)"

section \<open>Tokens\<close>

text \<open>\<^verbatim>\<open>hash = hash * 31 + c\<close> in 32 bits.\<close>

definition hash_chars :: "nat \<Rightarrow> string \<Rightarrow> nat" where
  "hash_chars h s = foldl (\<lambda>h c. (h * 31 + of_char c) mod 4294967296) h s"

definition orochi_auth_cache_hash_slot :: "string \<Rightarrow> nat" where
  "orochi_auth_cache_hash_slot token_hash = hash_chars 0 (take 8 token_hash) mod OROCHI_AUTH_MAX_CACHED_TOKENS"

definition orochi_auth_cache_lookup :: "OrochiAuthCache \<Rightarrow> string \<Rightarrow> nat option" where
  "orochi_auth_cache_lookup c token_hash =
     (if \<not> ac_is_initialized c then None
      else probe_loop OROCHI_AUTH_MAX_CACHED_TOKENS (\<lambda>e. tk_token_hash e = []) (\<lambda>e. tk_token_hash e = token_hash)
             (ac_token_cache c) (orochi_auth_cache_hash_slot token_hash) 16)"

definition filled_token :: "int \<Rightarrow> OrochiTokenValidation \<Rightarrow> string \<Rightarrow> nat \<Rightarrow> OrochiToken" where
  "filled_token now v token_hash slot =
     \<lparr>tk_token_hash = take OROCHI_AUTH_TOKEN_HASH_SIZE token_hash, tk_token_type = OROCHI_TOKEN_ACCESS,
      tk_session_id = take OROCHI_AUTH_SESSION_ID_SIZE (tv_session_id v), tk_user_id = take OROCHI_AUTH_USER_ID_SIZE (tv_user_id v),
      tk_tenant_id = take OROCHI_AUTH_TENANT_ID_SIZE (tv_tenant_id v), tk_issued_at = now, tk_expires_at = tv_expires_at v,
      tk_not_before = 0, tk_scopes = tv_scopes v, tk_is_revoked = False, tk_jti = [], tk_hash_slot = slot, tk_cached_at = now\<rparr>"

definition token_slot_free :: "int \<Rightarrow> string \<Rightarrow> OrochiToken \<Rightarrow> bool" where
  "token_slot_free now token_hash e = (tk_token_hash e = [] \<or> tk_expires_at e < now \<or> tk_token_hash e = token_hash)"

definition orochi_auth_cache_token :: "int \<Rightarrow> OrochiTokenValidation \<Rightarrow> string \<Rightarrow> OrochiAuthCache \<Rightarrow> OrochiAuthCache" where
  "orochi_auth_cache_token now v token_hash c =
     (if \<not> ac_is_initialized c then c
      else case probe_loop OROCHI_AUTH_MAX_CACHED_TOKENS (\<lambda>e. False) (token_slot_free now token_hash) (ac_token_cache c)
                  (orochi_auth_cache_hash_slot token_hash) 16 of
        Some slot \<Rightarrow>
          c\<lparr>ac_token_cache := (ac_token_cache c)[slot := filled_token now v token_hash slot],
            ac_token_cache_count := (if ac_token_cache_count c < int OROCHI_AUTH_MAX_CACHED_TOKENS
                                     then ac_token_cache_count c + 1 else ac_token_cache_count c)\<rparr>
      | None \<Rightarrow>
          (let slot = ac_token_cache_head c in
           c\<lparr>ac_token_cache := (ac_token_cache c)[slot := filled_token now v token_hash slot],
             ac_token_cache_head := (slot + 1) mod OROCHI_AUTH_MAX_CACHED_TOKENS\<rparr>))"

definition orochi_auth_cache_invalidate_token :: "string \<Rightarrow> OrochiAuthCache \<Rightarrow> OrochiAuthCache" where
  "orochi_auth_cache_invalidate_token token_hash c =
     (case orochi_auth_cache_lookup c token_hash of
        None \<Rightarrow> c
      | Some i \<Rightarrow> c\<lparr>ac_token_cache := (ac_token_cache c)[i := (ac_token_cache c ! i)\<lparr>tk_is_revoked := True\<rparr>],
                   ac_tokens_revoked := ac_tokens_revoked c + 1\<rparr>)"

definition token_of_user :: "string \<Rightarrow> OrochiToken \<Rightarrow> bool" where
  "token_of_user user_id e = (tk_token_hash e \<noteq> [] \<and> tk_user_id e = user_id)"

definition orochi_auth_cache_invalidate_user :: "string option \<Rightarrow> OrochiAuthCache \<Rightarrow> OrochiAuthCache" where
  "orochi_auth_cache_invalidate_user user_id c =
     (case user_id of
        None \<Rightarrow> c
      | Some u \<Rightarrow> c\<lparr>ac_token_cache := update_where (token_of_user u) (\<lambda>e. e\<lparr>tk_is_revoked := True\<rparr>) (ac_token_cache c),
                   ac_tokens_revoked := ac_tokens_revoked c + length (filter (token_of_user u) (ac_token_cache c))\<rparr>)"

definition token_expired :: "int \<Rightarrow> OrochiToken \<Rightarrow> bool" where
  "token_expired now e = (tk_token_hash e \<noteq> [] \<and> tk_expires_at e < now)"

definition orochi_auth_cleanup_expired_tokens :: "int \<Rightarrow> OrochiAuthCache \<Rightarrow> OrochiAuthCache" where
  "orochi_auth_cleanup_expired_tokens now c =
     c\<lparr>ac_token_cache := update_where (token_expired now)
         (\<lambda>e. e\<lparr>tk_token_hash := [], tk_user_id := [], tk_tenant_id := [], tk_session_id := [], tk_is_revoked := False\<rparr>) (ac_token_cache c),
       ac_token_cache_count := max 0 (ac_token_cache_count c - count_if (token_expired now) (ac_token_cache c)),
       ac_last_cleanup := now\<rparr>"

section \<open>Sessions\<close>

definition orochi_auth_session_hash_slot :: "string \<Rightarrow> nat" where
  "orochi_auth_session_hash_slot session_id = hash_chars 0 (take 8 session_id) mod OROCHI_AUTH_MAX_CACHED_SESSIONS"

definition session_matches :: "string \<Rightarrow> OrochiSession \<Rightarrow> bool" where
  "session_matches session_id e = (se_session_id e = session_id \<and> se_state e \<noteq> OROCHI_SESSION_EXPIRED)"

definition orochi_auth_session_cache_lookup :: "OrochiAuthCache \<Rightarrow> string \<Rightarrow> nat option" where
  "orochi_auth_session_cache_lookup c session_id =
     (if \<not> ac_is_initialized c \<or> session_id = [] then None
      else probe_loop OROCHI_AUTH_MAX_CACHED_SESSIONS (\<lambda>e. se_session_id e = []) (session_matches session_id)
             (ac_session_cache c) (orochi_auth_session_hash_slot session_id) 16)"

definition session_slot_free :: "string \<Rightarrow> OrochiSession \<Rightarrow> bool" where
  "session_slot_free session_id e =
     (se_session_id e = [] \<or> se_state e = OROCHI_SESSION_EXPIRED \<or> se_session_id e = session_id)"

definition orochi_auth_cache_session :: "OrochiSession option \<Rightarrow> OrochiAuthCache \<Rightarrow> OrochiAuthCache" where
  "orochi_auth_cache_session session c =
     (case session of
        None \<Rightarrow> c
      | Some s \<Rightarrow>
          if \<not> ac_is_initialized c \<or> se_session_id s = [] then c
          else case probe_loop OROCHI_AUTH_MAX_CACHED_SESSIONS (\<lambda>e. False) (session_slot_free (se_session_id s)) (ac_session_cache c)
                      (orochi_auth_session_hash_slot (se_session_id s)) 16 of
            Some slot \<Rightarrow>
              c\<lparr>ac_session_cache := (ac_session_cache c)[slot := s\<lparr>se_hash_slot := slot\<rparr>],
                ac_session_cache_count := (if ac_session_cache_count c < int OROCHI_AUTH_MAX_CACHED_SESSIONS
                                           then ac_session_cache_count c + 1 else ac_session_cache_count c)\<rparr>
          | None \<Rightarrow>
              (let slot = ac_session_cache_head c in
               c\<lparr>ac_session_cache := (ac_session_cache c)[slot := s\<lparr>se_hash_slot := slot\<rparr>],
                 ac_session_cache_head := (slot + 1) mod OROCHI_AUTH_MAX_CACHED_SESSIONS\<rparr>))"

definition orochi_auth_cache_invalidate_session :: "string \<Rightarrow> OrochiAuthCache \<Rightarrow> OrochiAuthCache" where
  "orochi_auth_cache_invalidate_session session_id c =
     (case orochi_auth_session_cache_lookup c session_id of
        None \<Rightarrow> c
      | Some i \<Rightarrow> c\<lparr>ac_session_cache := (ac_session_cache c)[i := (ac_session_cache c ! i)\<lparr>se_state := OROCHI_SESSION_REVOKED\<rparr>],
                   ac_sessions_expired := ac_sessions_expired c + 1\<rparr>)"

definition session_over :: "int \<Rightarrow> OrochiSession \<Rightarrow> bool" where
  "session_over now e = (se_session_id e \<noteq> [] \<and> (se_expires_at e < now \<or> se_state e = OROCHI_SESSION_REVOKED))"

definition orochi_auth_cleanup_expired_sessions :: "int \<Rightarrow> OrochiAuthCache \<Rightarrow> OrochiAuthCache" where
  "orochi_auth_cleanup_expired_sessions now c =
     c\<lparr>ac_session_cache := update_where (session_over now) (\<lambda>e. e\<lparr>se_state := OROCHI_SESSION_EXPIRED, se_session_id := []\<rparr>) (ac_session_cache c),
       ac_session_cache_count := max 0 (ac_session_cache_count c - count_if (session_over now) (ac_session_cache c)),
       ac_sessions_expired := ac_sessions_expired c + length (filter (session_over now) (ac_session_cache c))\<rparr>"

definition orochi_auth_update_session_states :: "int \<Rightarrow> OrochiAuthCache \<Rightarrow> OrochiAuthCache" where
  "orochi_auth_update_session_states now c =
     c\<lparr>ac_session_cache := update_where
         (\<lambda>e. se_session_id e \<noteq> [] \<and> se_state e = OROCHI_SESSION_ACTIVE \<and> se_last_activity e < now - 30 * 60 * USECS_PER_SEC)
         (\<lambda>e. e\<lparr>se_state := OROCHI_SESSION_IDLE\<rparr>) (ac_session_cache c)\<rparr>"

definition active_of :: "string \<Rightarrow> OrochiSession \<Rightarrow> bool" where
  "active_of user_id e = (se_state e = OROCHI_SESSION_ACTIVE \<and> se_user_id e = user_id)"

fun oldest_scan :: "string \<Rightarrow> OrochiSession list \<Rightarrow> nat list \<Rightarrow> int \<Rightarrow> nat option \<Rightarrow> nat option" where
  "oldest_scan user_id ss [] oldest_time oldest_idx = oldest_idx"
| "oldest_scan user_id ss (j # js) oldest_time oldest_idx =
     (if active_of user_id (ss ! j) \<and> se_last_activity (ss ! j) < oldest_time
      then oldest_scan user_id ss js (se_last_activity (ss ! j)) (Some j)
      else oldest_scan user_id ss js oldest_time oldest_idx)"

definition revoke_oldest :: "nat \<Rightarrow> string \<Rightarrow> OrochiSession list \<Rightarrow> OrochiSession list" where
  "revoke_oldest cnt user_id ss =
     (case oldest_scan user_id ss [0 ..< cnt] DT_NOEND None of
        None \<Rightarrow> ss
      | Some j \<Rightarrow> ss[j := (ss ! j)\<lparr>se_state := OROCHI_SESSION_REVOKED\<rparr>])"

text \<open>\<^verbatim>\<open>while (count > max_per_user) { ...; count--; }\<close>.\<close>

fun revoke_rounds :: "nat \<Rightarrow> nat \<Rightarrow> string \<Rightarrow> OrochiSession list \<Rightarrow> OrochiSession list" where
  "revoke_rounds cnt 0 user_id ss = ss"
| "revoke_rounds cnt (Suc r) user_id ss = revoke_rounds cnt r user_id (revoke_oldest cnt user_id ss)"

definition enforce_slot :: "int \<Rightarrow> nat \<Rightarrow> OrochiSession list \<Rightarrow> nat \<Rightarrow> OrochiSession list" where
  "enforce_slot max_per_user cnt ss i =
     (let session = ss ! i; n = count_if (active_of (se_user_id session)) (take cnt ss) in
      if se_state session \<noteq> OROCHI_SESSION_ACTIVE \<or> n \<le> max_per_user then ss
      else revoke_rounds cnt (nat (n - max_per_user)) (se_user_id session) ss)"

definition orochi_auth_enforce_session_limits :: "auth_gucs \<Rightarrow> OrochiAuthCache \<Rightarrow> OrochiAuthCache" where
  "orochi_auth_enforce_session_limits g c =
     (if orochi_auth_max_sessions_per_user g \<le> 0 then c
      else let cnt = nat (ac_session_cache_count c) in
        c\<lparr>ac_session_cache := foldl (enforce_slot (orochi_auth_max_sessions_per_user g) cnt) (ac_session_cache c) [0 ..< cnt]\<rparr>)"

section \<open>Signing keys\<close>

definition orochi_auth_get_signing_key :: "OrochiAuthCache \<Rightarrow> string option \<Rightarrow> OrochiSigningKey option" where
  "orochi_auth_get_signing_key c tenant_id =
     find (\<lambda>k. sk_is_active k \<and> sk_is_current k \<and> (tenant_id = None \<or> sk_tenant_id k = [] \<or> tenant_id = Some (sk_tenant_id k)))
       (take (ac_signing_key_count c) (ac_signing_keys c))"

definition orochi_auth_get_signing_key_by_id :: "OrochiAuthCache \<Rightarrow> string option \<Rightarrow> OrochiSigningKey option" where
  "orochi_auth_get_signing_key_by_id c key_id =
     (case key_id of
        None \<Rightarrow> None
      | Some i \<Rightarrow> find (\<lambda>k. sk_is_active k \<and> sk_key_id k = i) (take (ac_signing_key_count c) (ac_signing_keys c)))"

definition orochi_auth_cache_signing_key :: "OrochiSigningKey option \<Rightarrow> OrochiAuthCache \<Rightarrow> OrochiAuthCache" where
  "orochi_auth_cache_signing_key key c =
     (case key of
        None \<Rightarrow> c
      | Some k \<Rightarrow>
          (case find_index (\<lambda>e. sk_key_id e = sk_key_id k) (take (ac_signing_key_count c) (ac_signing_keys c)) of
             Some i \<Rightarrow> c\<lparr>ac_signing_keys := (ac_signing_keys c)[i := k]\<rparr>
           | None \<Rightarrow>
               if ac_signing_key_count c < OROCHI_AUTH_MAX_SIGNING_KEYS
               then c\<lparr>ac_signing_keys := (ac_signing_keys c)[ac_signing_key_count c := k],
                      ac_signing_key_count := ac_signing_key_count c + 1\<rparr>
               else c))"

text \<open>\<^verbatim>\<open>orochi_auth_check_key_rotation\<close> also returns the ids it notifies listeners of.\<close>

definition needs_rotation :: "auth_gucs \<Rightarrow> int \<Rightarrow> OrochiSigningKey \<Rightarrow> bool" where
  "needs_rotation g now k =
     (sk_is_active k \<and> sk_is_current k \<and> sk_created_at k < now - orochi_auth_key_rotation_days g * 24 * 60 * 60 * USECS_PER_SEC)"

definition orochi_auth_check_key_rotation :: "auth_gucs \<Rightarrow> int \<Rightarrow> OrochiAuthCache \<Rightarrow> OrochiAuthCache \<times> string list" where
  "orochi_auth_check_key_rotation g now c =
     (let n = ac_signing_key_count c; ks = ac_signing_keys c in
      (c\<lparr>ac_signing_keys := update_where (needs_rotation g now) (\<lambda>k. k\<lparr>sk_is_current := False, sk_rotated_at := now\<rparr>) (take n ks) @ drop n ks\<rparr>,
       map sk_key_id (filter (needs_rotation g now) (take n ks))))"

section \<open>Rate limits\<close>

definition orochi_auth_rate_limit_hash :: "string \<Rightarrow> string \<Rightarrow> nat" where
  "orochi_auth_rate_limit_hash key action =
     hash_chars (hash_chars 0 key * 17 mod 4294967296) action mod OROCHI_AUTH_MAX_RATE_LIMITS"

text \<open>\<^verbatim>\<open>strncmp(entry->key, key, strlen(key)) == 0\<close>: the stored key begins with the key asked for.\<close>

definition key_begins :: "string \<Rightarrow> OrochiRateLimit \<Rightarrow> bool" where
  "key_begins key e = (take (length key) (rt_key e) = key)"

definition new_rate_limit :: "auth_gucs \<Rightarrow> int \<Rightarrow> string \<Rightarrow> string \<Rightarrow> int \<Rightarrow> OrochiRateLimit" where
  "new_rate_limit g now key action limit =
     \<lparr>rt_key = take OROCHI_AUTH_RATE_LIMIT_KEY_SIZE (key @ '':'' @ action), rt_count = 1, rt_limit = limit, rt_window_start = now,
      rt_window_seconds = orochi_auth_rate_limit_window g, rt_is_blocked = False, rt_blocked_until = 0\<rparr>"

definition window_end :: "OrochiRateLimit \<Rightarrow> int" where
  "window_end e = rt_window_start e + rt_window_seconds e * USECS_PER_SEC"

text \<open>The four cases for an entry that was found: the entry afterwards and whether the request is allowed; \<open>over\<close> tells
  that the limit was hit, which counts as a failed authentication.\<close>

definition hit_rate_limit :: "int \<Rightarrow> OrochiRateLimit \<Rightarrow> OrochiRateLimit \<times> bool \<times> bool" where
  "hit_rate_limit now e =
     (if rt_is_blocked e \<and> rt_blocked_until e > now then (e, False, False)
      else if now > window_end e then (e\<lparr>rt_count := 1, rt_window_start := now, rt_is_blocked := False\<rparr>, True, False)
      else if rt_count e \<ge> rt_limit e
           then (e\<lparr>rt_is_blocked := True, rt_blocked_until := now + rt_window_seconds e * USECS_PER_SEC\<rparr>, False, True)
      else (e\<lparr>rt_count := rt_count e + 1\<rparr>, True, False))"

definition orochi_auth_check_rate_limit ::
  "auth_gucs \<Rightarrow> int \<Rightarrow> string \<Rightarrow> string \<Rightarrow> int \<Rightarrow> OrochiAuthCache \<Rightarrow> OrochiAuthCache \<times> bool" where
  "orochi_auth_check_rate_limit g now key action limit c =
     (if \<not> orochi_auth_rate_limit_enabled g then (c, True)
      else case probe_loop OROCHI_AUTH_MAX_RATE_LIMITS (\<lambda>e. False) (\<lambda>e. rt_key e = [] \<or> key_begins key e) (ac_rate_limits c)
                  (orochi_auth_rate_limit_hash key action) 8 of
        None \<Rightarrow> (c, True)
      | Some i \<Rightarrow>
          (let e = ac_rate_limits c ! i in
           if rt_key e = []
           then (c\<lparr>ac_rate_limits := (ac_rate_limits c)[i := new_rate_limit g now key action limit],
                   ac_rate_limit_count := (if ac_rate_limit_count c < int OROCHI_AUTH_MAX_RATE_LIMITS
                                           then ac_rate_limit_count c + 1 else ac_rate_limit_count c)\<rparr>, True)
           else (case hit_rate_limit now e of (e', allowed, over) \<Rightarrow>
             (c\<lparr>ac_rate_limits := (ac_rate_limits c)[i := e'],
                ac_failed_authentications := ac_failed_authentications c + of_bool over\<rparr>, allowed))))"

definition orochi_auth_clear_rate_limit :: "string \<Rightarrow> string \<Rightarrow> OrochiAuthCache \<Rightarrow> OrochiAuthCache" where
  "orochi_auth_clear_rate_limit key action c =
     (case probe_loop OROCHI_AUTH_MAX_RATE_LIMITS (\<lambda>e. False) (\<lambda>e. rt_key e \<noteq> [] \<and> key_begins key e) (ac_rate_limits c)
             (orochi_auth_rate_limit_hash key action) 8 of
        None \<Rightarrow> c
      | Some i \<Rightarrow>
          c\<lparr>ac_rate_limits := (ac_rate_limits c)[i := (ac_rate_limits c ! i)\<lparr>rt_key := [], rt_count := 0, rt_is_blocked := False\<rparr>],
            ac_rate_limit_count := ac_rate_limit_count c - 1\<rparr>)"

definition rate_limit_idle :: "int \<Rightarrow> OrochiRateLimit \<Rightarrow> bool" where
  "rate_limit_idle now e = (rt_key e \<noteq> [] \<and> now > rt_window_start e + rt_window_seconds e * USECS_PER_SEC * 2)"

definition orochi_auth_cleanup_rate_limits :: "int \<Rightarrow> OrochiAuthCache \<Rightarrow> OrochiAuthCache" where
  "orochi_auth_cleanup_rate_limits now c =
     c\<lparr>ac_rate_limits := update_where (rate_limit_idle now) (\<lambda>e. e\<lparr>rt_key := [], rt_count := 0, rt_is_blocked := False\<rparr>) (ac_rate_limits c),
       ac_rate_limit_count := max 0 (ac_rate_limit_count c - count_if (rate_limit_idle now) (ac_rate_limits c))\<rparr>"

section \<open>Sessions: what is cached is found\<close>

lemma session_home_less: "orochi_auth_session_hash_slot k < 5000"
  by (simp add: orochi_auth_session_hash_slot_def)

interpretation sessions: probe_table 5000 16 orochi_auth_session_hash_slot "\<lambda>e. se_session_id e = []"
  "\<lambda>k e. session_matches k e \<and> se_session_id e \<noteq> []"
  by unfold_locales (auto simp: session_matches_def session_home_less)

lemma session_lookup_probe:
  "ac_is_initialized c \<Longrightarrow> k \<noteq> [] \<Longrightarrow> orochi_auth_session_cache_lookup c k = sessions.lookup (ac_session_cache c) k"
  unfolding orochi_auth_session_cache_lookup_def by (simp, rule probe_loop_hit_cong) simp

text \<open>A session that is cached while one of its sixteen slots is free is found under its id with all its data, and every
  session that was found in another slot is still found there.\<close>

theorem cached_session_is_found:
  assumes "ac_is_initialized c" "length (ac_session_cache c) = 5000"
    and "se_session_id s \<noteq> []" "se_state s \<noteq> OROCHI_SESSION_EXPIRED"
    and "probe_loop 5000 (\<lambda>e. False) (session_slot_free (se_session_id s)) (ac_session_cache c)
           (orochi_auth_session_hash_slot (se_session_id s)) 16 = Some i"
  shows "orochi_auth_session_cache_lookup (orochi_auth_cache_session (Some s) c) (se_session_id s) = Some i \<and>
    ac_session_cache (orochi_auth_cache_session (Some s) c) ! i = s\<lparr>se_hash_slot := i\<rparr> \<and>
    (\<forall>k j. orochi_auth_session_cache_lookup c k = Some j \<and> j \<noteq> i \<and> k \<noteq> se_session_id s \<longrightarrow>
       orochi_auth_session_cache_lookup (orochi_auth_cache_session (Some s) c) k = Some j)"
proof -
  let ?v = "s\<lparr>se_hash_slot := i\<rparr>" and ?c = "orochi_auth_cache_session (Some s) c"
  have c: "ac_is_initialized ?c" "ac_session_cache ?c = (ac_session_cache c)[i := ?v]"
    using assms by (simp_all add: orochi_auth_cache_session_def)
  have v: "session_matches (se_session_id s) ?v \<and> se_session_id ?v \<noteq> []" using assms by (simp add: session_matches_def)
  have i: "i < 5000" using probe_loop_less [OF assms(5) session_home_less] .
  have "sessions.lookup ((ac_session_cache c)[i := ?v]) (se_session_id s) = Some i"
    by (rule sessions.lookup_after_store [OF assms(5) _ assms(2) v]) (auto simp: session_slot_free_def session_matches_def)
  moreover have "sessions.lookup ((ac_session_cache c)[i := ?v]) k = Some j"
    if "orochi_auth_session_cache_lookup c k = Some j" "j \<noteq> i" "k \<noteq> se_session_id s" for k j
  proof -
    have "k \<noteq> []" using that(1) by (auto simp: orochi_auth_session_cache_lookup_def)
    with that assms(1) show ?thesis
      using sessions.lookup_other_after_store [OF _ that(2) v that(3)] by (simp add: session_lookup_probe)
  qed
  moreover have "k \<noteq> []" if "orochi_auth_session_cache_lookup c k = Some j" for k j
    using that by (auto simp: orochi_auth_session_cache_lookup_def)
  ultimately show ?thesis using c i assms(2,3) by (simp add: session_lookup_probe)
qed

definition sample_session :: "string \<Rightarrow> string \<Rightarrow> int \<Rightarrow> OrochiSession" where
  "sample_session k u t = zero_auth_session\<lparr>se_session_id := k, se_user_id := u, se_last_activity := t, se_expires_at := t + 1000\<rparr>"

lemma sample_session_fields [simp]:
  "se_session_id (sample_session k u t) = k" "se_user_id (sample_session k u t) = u" "se_last_activity (sample_session k u t) = t"
  "se_state (sample_session k u t) = OROCHI_SESSION_ACTIVE"
  by (simp_all add: sample_session_def zero_auth_session_def)

lemma hash_chars_simps [simp]:
  "hash_chars h [] = h" "hash_chars h (x # xs) = hash_chars ((h * 31 + of_char x) mod 4294967296) xs"
  by (simp_all add: hash_chars_def)

lemma init_sessions:
  "ac_is_initialized (orochi_auth_shmem_init now None)" "length (ac_session_cache (orochi_auth_shmem_init now None)) = 5000"
  "i < 5000 \<Longrightarrow> ac_session_cache (orochi_auth_shmem_init now None) ! i = empty_auth_session i"
  by (simp_all add: orochi_auth_shmem_init_def)

theorem cached_session_is_found_witness:
  "orochi_auth_session_cache_lookup (orochi_auth_cache_session (Some (sample_session ''a1'' ''u'' 5)) (orochi_auth_shmem_init 0 None)) ''a1''
     = Some (orochi_auth_session_hash_slot ''a1'')"
proof -
  have p: "probe_loop 5000 (\<lambda>e. False) (session_slot_free ''a1'') (ac_session_cache (orochi_auth_shmem_init 0 None))
             (orochi_auth_session_hash_slot ''a1'') 16 = Some (orochi_auth_session_hash_slot ''a1'')"
    by (simp add: probe_loop_numeral init_sessions session_home_less session_slot_free_def empty_auth_session_def zero_auth_session_def)
  show ?thesis
    using cached_session_is_found [of "orochi_auth_shmem_init 0 None" "sample_session ''a1'' ''u'' 5"
        "orochi_auth_session_hash_slot ''a1''"] init_sessions(1,2) [of 0] p
    by (simp add: sample_session_def zero_auth_session_def)
qed

text \<open>If all sixteen slots of a session are taken, the session is stored in the slot at the head of the ring, where no
  search looks for it unless the head happens to be one of the sixteen: a session that was just created does not exist.\<close>

theorem evicting_session_loses_it:
  assumes "ac_is_initialized c" "se_session_id s \<noteq> []"
    and "probe_loop 5000 (\<lambda>e. False) (session_slot_free (se_session_id s)) (ac_session_cache c)
           (orochi_auth_session_hash_slot (se_session_id s)) 16 = None"
    and "\<And>k. k < 16 \<Longrightarrow> (orochi_auth_session_hash_slot (se_session_id s) + k) mod 5000 \<noteq> ac_session_cache_head c"
  shows "orochi_auth_session_cache_lookup (orochi_auth_cache_session (Some s) c) (se_session_id s) = None"
proof -
  have "probe_loop 5000 stop (session_matches (se_session_id s)) (ac_session_cache c)
          (orochi_auth_session_hash_slot (se_session_id s)) 16 = None" for stop
    by (rule probe_loop_implies_none [OF assms(3)]) (simp add: session_slot_free_def session_matches_def)
  then show ?thesis
    using assms probe_loop_update_outside [OF assms(4) session_home_less, of 16 "\<lambda>e :: OrochiSession. se_session_id e = []"]
    by (simp add: orochi_auth_cache_session_def orochi_auth_session_cache_lookup_def Let_def)
qed

definition full_sessions :: OrochiAuthCache where
  "full_sessions = (orochi_auth_shmem_init 0 None)\<lparr>ac_session_cache := replicate 5000 (sample_session ''b7'' ''u'' 5)\<rparr>"

lemma full_sessions_fields:
  "ac_is_initialized full_sessions" "ac_session_cache full_sessions = replicate 5000 (sample_session ''b7'' ''u'' 5)"
  "ac_session_cache_head full_sessions = 0"
  by (simp_all add: full_sessions_def orochi_auth_shmem_init_def)

theorem evicting_session_loses_it_witness:
  "orochi_auth_session_cache_lookup (orochi_auth_cache_session (Some (sample_session ''a1'' ''u'' 5)) full_sessions)
     (se_session_id (sample_session ''a1'' ''u'' 5)) = None"
proof (rule evicting_session_loses_it)
  show "probe_loop 5000 (\<lambda>e. False) (session_slot_free (se_session_id (sample_session ''a1'' ''u'' 5))) (ac_session_cache full_sessions)
          (orochi_auth_session_hash_slot (se_session_id (sample_session ''a1'' ''u'' 5))) 16 = None"
    by (rule probe_loop_none) (auto simp: full_sessions_fields session_slot_free_def session_home_less)
  show "(orochi_auth_session_hash_slot (se_session_id (sample_session ''a1'' ''u'' 5)) + k) mod 5000 \<noteq> ac_session_cache_head full_sessions"
    if "k < 16" for k using that by (simp add: full_sessions_fields orochi_auth_session_hash_slot_def)
qed (simp_all add: full_sessions_fields)

section \<open>Limits on sessions\<close>

lemma oldest_scan_Some:
  "oldest_scan u ss js t b = Some j \<Longrightarrow> (j \<in> set js \<and> active_of u (ss ! j)) \<or> b = Some j"
  by (induction js arbitrary: t b) (fastforce split: if_splits)+

lemma oldest_scan_keeps_Some: "oldest_scan u ss js t (Some i) \<noteq> None"
  by (induction js arbitrary: t i) auto

lemma oldest_scan_None:
  "oldest_scan u ss js t None = None \<Longrightarrow> j \<in> set js \<Longrightarrow> active_of u (ss ! j) \<Longrightarrow> t \<le> se_last_activity (ss ! j)"
  by (induction js) (auto simp: oldest_scan_keeps_Some split: if_splits)

text \<open>\<open>fewer ss ss'\<close>: sessions keep their data, and only active ones may have become revoked.\<close>

definition only_revoked :: "OrochiSession list \<Rightarrow> OrochiSession list \<Rightarrow> bool" where
  "only_revoked ss ss' = (list_all2 (\<lambda>e e'. e' = e \<or> (se_state e = OROCHI_SESSION_ACTIVE \<and> e' = e\<lparr>se_state := OROCHI_SESSION_REVOKED\<rparr>)) ss ss')"

lemma only_revoked_refl: "only_revoked ss ss"
  by (simp add: only_revoked_def list_all2_refl)

lemma only_revoked_trans: "only_revoked a b \<Longrightarrow> only_revoked b c \<Longrightarrow> only_revoked a c"
  unfolding only_revoked_def by (rule list_all2_trans [rotated], assumption, assumption) auto

lemma only_revoked_update:
  "j < length ss \<Longrightarrow> se_state (ss ! j) = OROCHI_SESSION_ACTIVE \<Longrightarrow> only_revoked ss (ss[j := (ss ! j)\<lparr>se_state := OROCHI_SESSION_REVOKED\<rparr>])"
  unfolding only_revoked_def by (auto simp: list_all2_conv_all_nth nth_list_update)

lemma count_if_mono: "list_all2 (\<lambda>x y. P y \<longrightarrow> P x) xs ys \<Longrightarrow> count_if P ys \<le> count_if P xs"
  by (induction rule: list_all2_induct) auto

lemma only_revoked_count: "only_revoked ss ss' \<Longrightarrow> count_if (active_of u) (take n ss') \<le> count_if (active_of u) (take n ss)"
  unfolding only_revoked_def
  by (rule count_if_mono, rule list_all2_takeI, erule list_all2_mono) (auto simp: active_of_def)

lemma only_revoked_nth:
  "only_revoked ss ss' \<Longrightarrow> i < length ss \<Longrightarrow> se_user_id (ss' ! i) = se_user_id (ss ! i) \<and> se_last_activity (ss' ! i) = se_last_activity (ss ! i) \<and>
     (se_state (ss' ! i) = OROCHI_SESSION_ACTIVE \<longrightarrow> se_state (ss ! i) = OROCHI_SESSION_ACTIVE)"
  by (auto simp: only_revoked_def list_all2_conv_all_nth)

lemma only_revoked_length: "only_revoked ss ss' \<Longrightarrow> length ss' = length ss"
  by (simp add: only_revoked_def list_all2_lengthD)

definition timed :: "OrochiSession list \<Rightarrow> bool" where
  "timed ss = (\<forall>e \<in> set ss. se_last_activity e < DT_NOEND)"

lemma timed_only_revoked: "only_revoked ss ss' \<Longrightarrow> timed ss \<Longrightarrow> timed ss'"
  using only_revoked_nth [of ss ss'] only_revoked_length [of ss ss'] by (simp add: timed_def all_set_conv_all_nth)

text \<open>A round revokes one session of the user, the least recently used one, if there is one.\<close>

lemma revoke_oldest_spec:
  assumes "cnt \<le> length ss" "timed ss"
  shows "only_revoked ss (revoke_oldest cnt u ss) \<and> drop cnt (revoke_oldest cnt u ss) = drop cnt ss \<and>
         count_if (active_of u) (take cnt (revoke_oldest cnt u ss)) = max 0 (count_if (active_of u) (take cnt ss) - 1)"
proof (cases "oldest_scan u ss [0 ..< cnt] DT_NOEND None")
  case None
  have "\<not> active_of u e" if "e \<in> set (take cnt ss)" for e
  proof
    assume a: "active_of u e"
    obtain j where j: "j < cnt" "e = ss ! j" "j < length ss" using \<open>e \<in> set (take cnt ss)\<close> by (auto simp: in_set_conv_nth)
    then have "DT_NOEND \<le> se_last_activity (ss ! j)" using oldest_scan_None [OF None] a by simp
    moreover have "se_last_activity (ss ! j) < DT_NOEND" using assms(2) j by (simp add: timed_def)
    ultimately show False by simp
  qed
  then have "count_if (active_of u) (take cnt ss) = 0" by (simp add: count_if_0)
  with None show ?thesis by (simp add: revoke_oldest_def only_revoked_refl)
next
  case (Some j)
  then have j: "j < cnt" "active_of u (ss ! j)" using oldest_scan_Some [OF Some] by auto
  then have st: "se_state (ss ! j) = OROCHI_SESSION_ACTIVE" "j < length ss" using assms(1) by (simp_all add: active_of_def)
  have "take cnt ss ! j = ss ! j" "j < length (take cnt ss)" using j assms(1) by auto
  then have "count_if (active_of u) (take cnt (revoke_oldest cnt u ss)) = count_if (active_of u) (take cnt ss) - 1"
    using Some j by (simp add: revoke_oldest_def take_update_swap count_if_update) (simp add: active_of_def)
  moreover have "1 \<le> count_if (active_of u) (take cnt ss)"
    using count_if_nonneg [of "active_of u" "take cnt (revoke_oldest cnt u ss)"] calculation by linarith
  ultimately show ?thesis using Some j st by (simp add: revoke_oldest_def only_revoked_update)
qed

lemma revoke_rounds_spec:
  assumes "cnt \<le> length ss" "timed ss"
  shows "only_revoked ss (revoke_rounds cnt r u ss) \<and> drop cnt (revoke_rounds cnt r u ss) = drop cnt ss \<and>
         count_if (active_of u) (take cnt (revoke_rounds cnt r u ss)) = max 0 (count_if (active_of u) (take cnt ss) - int r)"
  using assms
proof (induction r arbitrary: ss)
  case 0
  then show ?case using count_if_nonneg [of "active_of u" "take cnt ss"] by (simp add: only_revoked_refl)
next
  case (Suc r)
  note o = revoke_oldest_spec [OF Suc.prems, of u]
  have "cnt \<le> length (revoke_oldest cnt u ss)" "timed (revoke_oldest cnt u ss)"
    using o Suc.prems by (auto simp: only_revoked_length intro: timed_only_revoked)
  from Suc.IH [OF this] o show ?case by (auto intro: only_revoked_trans)
qed

lemma enforce_slot_spec:
  assumes "cnt \<le> length ss" "timed ss" "0 \<le> m" "i < cnt"
  shows "only_revoked ss (enforce_slot m cnt ss i) \<and> drop cnt (enforce_slot m cnt ss i) = drop cnt ss \<and>
         (se_state (enforce_slot m cnt ss i ! i) = OROCHI_SESSION_ACTIVE \<longrightarrow>
          count_if (active_of (se_user_id (ss ! i))) (take cnt (enforce_slot m cnt ss i)) \<le> m)"
proof -
  note r = revoke_rounds_spec [OF assms(1,2), of "nat (count_if (active_of (se_user_id (ss ! i))) (take cnt ss) - m)" "se_user_id (ss ! i)"]
  show ?thesis using r assms(3) by (auto simp: enforce_slot_def Let_def only_revoked_refl)
qed

lemma enforce_all_spec:
  assumes "cnt \<le> length ss" "timed ss" "0 \<le> m" "k \<le> cnt"
  defines "ss' \<equiv> foldl (enforce_slot m cnt) ss [0 ..< k]"
  shows "only_revoked ss ss' \<and> drop cnt ss' = drop cnt ss \<and>
         (\<forall>i < k. se_state (ss' ! i) = OROCHI_SESSION_ACTIVE \<longrightarrow> count_if (active_of (se_user_id (ss' ! i))) (take cnt ss') \<le> m)"
  using assms(4) unfolding ss'_def
proof (induction k)
  case 0
  then show ?case by (simp add: only_revoked_refl)
next
  case (Suc k)
  let ?a = "foldl (enforce_slot m cnt) ss [0 ..< k]"
  let ?b = "enforce_slot m cnt ?a k"
  have ih: "only_revoked ss ?a" "drop cnt ?a = drop cnt ss"
    "\<And>i. i < k \<Longrightarrow> se_state (?a ! i) = OROCHI_SESSION_ACTIVE \<Longrightarrow> count_if (active_of (se_user_id (?a ! i))) (take cnt ?a) \<le> m"
    using Suc by auto
  have a: "cnt \<le> length ?a" "timed ?a" "k < cnt"
    using ih(1) assms(1,2) Suc.prems by (auto simp: only_revoked_length intro: timed_only_revoked)
  note e = enforce_slot_spec [OF a(1,2) assms(3) a(3)]
  have "count_if (active_of (se_user_id (?b ! i))) (take cnt ?b) \<le> m"
    if i: "i < Suc k" "se_state (?b ! i) = OROCHI_SESSION_ACTIVE" for i
  proof (cases "i = k")
    case True
    then show ?thesis using e i only_revoked_nth [of ?a ?b k] a by auto
  next
    case False
    then have "i < k" "i < length ?a" using i a by auto
    then show ?thesis using ih(3) [of i] only_revoked_nth [of ?a ?b i] only_revoked_count [of ?a ?b "se_user_id (?a ! i)" cnt] e i(2)
      by force
  qed
  then show ?case using e ih(1,2) by (auto intro: only_revoked_trans)
qed

text \<open>Enforcing the limit leaves every user with at most the allowed number of active sessions among the first
  \<^verbatim>\<open>session_cache_count\<close> slots, and changes nothing but revoking active sessions there. Slots behind them, where sessions
  are hashed to as well, are not looked at.\<close>

theorem session_limit_enforced:
  assumes "0 < orochi_auth_max_sessions_per_user g" "ac_session_cache_count c \<le> int (length (ac_session_cache c))"
    and "\<forall>e \<in> set (ac_session_cache c). se_last_activity e < DT_NOEND"
  defines "n \<equiv> nat (ac_session_cache_count c)" and "c' \<equiv> orochi_auth_enforce_session_limits g c"
  shows "count_if (active_of u) (take n (ac_session_cache c')) \<le> orochi_auth_max_sessions_per_user g \<and>
         only_revoked (ac_session_cache c) (ac_session_cache c') \<and>
         drop n (ac_session_cache c') = drop n (ac_session_cache c)"
proof -
  let ?ss = "ac_session_cache c'" and ?m = "orochi_auth_max_sessions_per_user g"
  have ss: "?ss = foldl (enforce_slot ?m n) (ac_session_cache c) [0 ..< n]"
    using assms(1) by (simp add: c'_def n_def orochi_auth_enforce_session_limits_def Let_def)
  have n: "n \<le> length (ac_session_cache c)" using assms(2) by (simp add: n_def)
  note a = enforce_all_spec [OF n _ _ order_refl, of ?m, folded ss] assms(1,3)
  have "count_if (active_of u) (take n ?ss) \<le> ?m"
  proof (cases "\<exists>e \<in> set (take n ?ss). active_of u e")
    case True
    then obtain i where "i < n" "active_of u (?ss ! i)" by (auto simp: in_set_conv_nth)
    then show ?thesis using a by (auto simp: active_of_def timed_def)
  next
    case False
    then have "count_if (active_of u) (take n ?ss) = 0" by (simp add: count_if_0)
    then show ?thesis using assms(1) by simp
  qed
  then show ?thesis using a by (simp add: timed_def)
qed

definition sample_auth_gucs :: auth_gucs where
  "sample_auth_gucs = \<lparr>orochi_auth_enabled = True, orochi_auth_access_token_ttl = 900, orochi_auth_session_ttl = 86400,
     orochi_auth_max_sessions_per_user = 10, orochi_auth_rate_limit_enabled = True, orochi_auth_rate_limit_window = 60,
     orochi_auth_jwt_leeway = 60, orochi_auth_key_rotation_days = 90\<rparr>"

theorem session_limit_enforced_witness:
  "count_if (active_of ''u'') (take 40 (ac_session_cache (orochi_auth_enforce_session_limits sample_auth_gucs
     (full_sessions\<lparr>ac_session_cache_count := 40\<rparr>)))) \<le> 10"
  using session_limit_enforced [of sample_auth_gucs "full_sessions\<lparr>ac_session_cache_count := 40\<rparr>" "''u''"]
  by (simp add: sample_auth_gucs_def full_sessions_fields)

section \<open>Signing keys\<close>

lemma find_update:
  assumes "i < length xs" "P v" "\<And>j. j < i \<Longrightarrow> \<not> P (xs ! j)"
  shows "find P (xs[i := v]) = Some v"
  using assms by (auto simp: find_Some_iff intro!: exI [of _ i])

lemma find_update_other:
  assumes "\<not> P v" "i < length xs \<Longrightarrow> \<not> P (xs ! i)"
  shows "find P (xs[i := v]) = find P xs"
  using assms by (induction xs arbitrary: i) (auto split: nat.splits)

text \<open>A signing key that is cached while there is room, or under an id that is already there, is returned for its id if it
  is active; the keys of other ids are returned as before.\<close>

theorem cached_key_is_returned:
  assumes "ac_signing_key_count c \<le> 16" "length (ac_signing_keys c) = 16" "sk_is_active k"
    and "ac_signing_key_count c < 16 \<or> sk_key_id k \<in> sk_key_id ` set (take (ac_signing_key_count c) (ac_signing_keys c))"
  shows "orochi_auth_get_signing_key_by_id (orochi_auth_cache_signing_key (Some k) c) (Some (sk_key_id k)) = Some k \<and>
    (\<forall>i. i \<noteq> sk_key_id k \<longrightarrow>
       orochi_auth_get_signing_key_by_id (orochi_auth_cache_signing_key (Some k) c) (Some i) = orochi_auth_get_signing_key_by_id c (Some i))"
proof (cases "find_index (\<lambda>e. sk_key_id e = sk_key_id k) (take (ac_signing_key_count c) (ac_signing_keys c))")
  case None
  let ?n = "ac_signing_key_count c" and ?ks = "ac_signing_keys c"
  have fresh: "\<forall>e \<in> set (take ?n ?ks). sk_key_id e \<noteq> sk_key_id k" using None by (simp add: find_index_None)
  with assms(4) have n: "?n < 16" by force
  have t: "take (Suc ?n) (?ks[?n := k]) = take ?n ?ks @ [k]" using n assms(2) by (simp add: take_Suc_update)
  have f: "find P (xs @ [k]) = (case find P xs of None \<Rightarrow> if P k then Some k else None | Some y \<Rightarrow> Some y)" for P xs
    by (induction xs) auto
  have "find (\<lambda>e. sk_is_active e \<and> sk_key_id e = sk_key_id k) (take ?n ?ks) = None"
    using fresh by (auto simp: find_None_iff)
  then show ?thesis
    using None n assms(3) by (simp add: orochi_auth_cache_signing_key_def orochi_auth_get_signing_key_by_id_def t f split: option.splits)
next
  case (Some i)
  let ?ts = "take (ac_signing_key_count c) (ac_signing_keys c)"
  have i: "i < length ?ts" "sk_key_id (?ts ! i) = sk_key_id k" "\<And>j. j < i \<Longrightarrow> sk_key_id (?ts ! j) \<noteq> sk_key_id k"
    using Some unfolding find_index_Some by blast+
  have "find (\<lambda>e. sk_is_active e \<and> sk_key_id e = sk_key_id k) (?ts[i := k]) = Some k"
    using i assms(3) by (intro find_update) auto
  moreover have "find (\<lambda>e. sk_is_active e \<and> sk_key_id e = j) (?ts[i := k]) = find (\<lambda>e. sk_is_active e \<and> sk_key_id e = j) ?ts"
    if "j \<noteq> sk_key_id k" for j using that i by (intro find_update_other) auto
  ultimately show ?thesis
    using Some by (simp add: orochi_auth_cache_signing_key_def orochi_auth_get_signing_key_by_id_def take_update_swap)
qed

definition sample_key :: "string \<Rightarrow> string \<Rightarrow> OrochiSigningKey" where
  "sample_key i t = empty_signing_key\<lparr>sk_key_id := i, sk_tenant_id := t, sk_algorithm := OROCHI_JWT_HS256, sk_public_key := ''secret'',
     sk_is_current := True, sk_is_active := True\<rparr>"

theorem cached_key_is_returned_witness:
  "orochi_auth_get_signing_key_by_id (orochi_auth_cache_signing_key (Some (sample_key ''k1'' ''t'')) (orochi_auth_shmem_init 0 None)) (Some ''k1'')
     = Some (sample_key ''k1'' ''t'')"
  using cached_key_is_returned [of "orochi_auth_shmem_init 0 None" "sample_key ''k1'' ''t''"]
  by (simp add: orochi_auth_shmem_init_def sample_key_def)

section \<open>The rate limiter\<close>

text \<open>A client that asks at the times \<open>ts\<close>: what it is told.\<close>

fun ask_all :: "auth_gucs \<Rightarrow> string \<Rightarrow> string \<Rightarrow> int \<Rightarrow> int list \<Rightarrow> OrochiAuthCache \<Rightarrow> OrochiAuthCache \<times> bool list" where
  "ask_all g key action limit [] c = (c, [])"
| "ask_all g key action limit (t # ts) c =
     (let (c1, ok) = orochi_auth_check_rate_limit g t key action limit c; (c2, oks) = ask_all g key action limit ts c1 in (c2, ok # oks))"

definition rate_slot :: "OrochiAuthCache \<Rightarrow> string \<Rightarrow> string \<Rightarrow> nat option" where
  "rate_slot c key action = probe_loop 1024 (\<lambda>e. False) (\<lambda>e. rt_key e = [] \<or> key_begins key e) (ac_rate_limits c)
     (orochi_auth_rate_limit_hash key action) 8"

lemma rate_home_less: "orochi_auth_rate_limit_hash key action < 1024"
  by (simp add: orochi_auth_rate_limit_hash_def)

lemma rate_slot_less: "rate_slot c key action = Some i \<Longrightarrow> i < 1024"
  unfolding rate_slot_def by (rule probe_loop_less [OF _ rate_home_less])

lemma rate_slot_update:
  assumes "rate_slot c key action = Some i" "key_begins key e" "ac_rate_limits c' = (ac_rate_limits c)[i := e]"
  shows "rate_slot c' key action = Some i"
  using assms probe_loop_hit [OF assms(1) [unfolded rate_slot_def]]
    probe_loop_update_same [of "\<lambda>e. False" e "ac_rate_limits c" i "\<lambda>e. rt_key e = [] \<or> key_begins key e"]
  by (simp add: rate_slot_def)

text \<open>An entry in its window: the next answers follow the count.\<close>

lemma ask_known:
  assumes "orochi_auth_rate_limit_enabled g" "length (ac_rate_limits c) = 1024" "rate_slot c key action = Some i"
    and "key_begins key (ac_rate_limits c ! i)" "rt_key (ac_rate_limits c ! i) \<noteq> []"
    and "\<forall>t \<in> set ts. t \<le> window_end (ac_rate_limits c ! i)"
    and "rt_is_blocked (ac_rate_limits c ! i) \<Longrightarrow> rt_limit (ac_rate_limits c ! i) \<le> rt_count (ac_rate_limits c ! i)"
  shows "snd (ask_all g key action limit ts c) =
           map (\<lambda>j. rt_count (ac_rate_limits c ! i) + int j < rt_limit (ac_rate_limits c ! i)) [0 ..< length ts]"
  using assms(2-)
proof (induction ts arbitrary: c)
  case (Cons t ts)
  let ?e = "ac_rate_limits c ! i"
  obtain e' ok ov where h: "hit_rate_limit t ?e = (e', ok, ov)" by (cases "hit_rate_limit t ?e") auto
  obtain c1 where r: "orochi_auth_check_rate_limit g t key action limit c = (c1, ok)"
      and c1: "ac_rate_limits c1 = (ac_rate_limits c)[i := e']"
    using Cons.prems assms(1) h by (simp add: orochi_auth_check_rate_limit_def rate_slot_def)
  have i: "i < 1024" using rate_slot_less Cons.prems(2) by blast
  have e': "key_begins key e'" "rt_key e' \<noteq> []" "window_end e' = window_end ?e" "rt_limit e' = rt_limit ?e"
      "ok = (rt_count ?e < rt_limit ?e)" "rt_count e' = (if ok then rt_count ?e + 1 else rt_count ?e)" "rt_is_blocked e' \<Longrightarrow> rt_limit e' \<le> rt_count e'"
    using h Cons.prems(3-) by (auto simp: hit_rate_limit_def key_begins_def window_end_def split: if_splits)
  have n: "ac_rate_limits c1 ! i = e'" using c1 i Cons.prems(1) by simp
  have "snd (ask_all g key action limit ts c1) = map (\<lambda>j. rt_count e' + int j < rt_limit e') [0 ..< length ts]"
    using Cons.IH [of c1] rate_slot_update [OF Cons.prems(2) e'(1) c1] Cons.prems(1,5) c1 e' n by simp
  moreover have "map (\<lambda>j. rt_count ?e + int j < rt_limit ?e) [0 ..< length (t # ts)] = ok # map (\<lambda>j. rt_count e' + int j < rt_limit e') [0 ..< length ts]"
    using e'(4-6) by (simp add: upt_conv_Cons map_Suc_upt [symmetric] del: upt_Suc) auto
  ultimately show ?case using r by (simp add: split_beta)
qed simp

text \<open>C35: A client that has no entry, for whose key (of at most 256 characters) a slot is free among those it may use, and
  that asks any number of times within one window, nobody else asking in between, is allowed exactly its first \<open>limit\<close>
  requests (at least one).\<close>

theorem rate_limit_allows_exactly_limit:
  assumes "orochi_auth_rate_limit_enabled g" "length (ac_rate_limits c) = 1024" "1 \<le> limit" "key \<noteq> []" "length key \<le> 256"
    and "rate_slot c key action = Some i" "rt_key (ac_rate_limits c ! i) = []"
    and "\<forall>t \<in> set ts. t \<le> t0 + orochi_auth_rate_limit_window g * 1000000"
  shows "snd (ask_all g key action limit (t0 # ts) c) = map (\<lambda>j. int j < limit) [0 ..< Suc (length ts)]"
proof -
  let ?e = "new_rate_limit g t0 key action limit"
  obtain c1 where r: "orochi_auth_check_rate_limit g t0 key action limit c = (c1, True)"
      and c1: "ac_rate_limits c1 = (ac_rate_limits c)[i := ?e]"
    using assms by (simp add: orochi_auth_check_rate_limit_def rate_slot_def)
  have i: "i < 1024" using rate_slot_less assms(6) by blast
  have e: "key_begins key ?e" "rt_key ?e \<noteq> []" "window_end ?e = t0 + orochi_auth_rate_limit_window g * 1000000"
    using assms(4,5) by (auto simp: new_rate_limit_def key_begins_def window_end_def min_def)
  have "snd (ask_all g key action limit ts c1) = map (\<lambda>j. 1 + int j < limit) [0 ..< length ts]"
    using ask_known [OF assms(1), of c1 key action i ts limit] rate_slot_update [OF assms(6) e(1) c1] c1 i e assms(2,8)
    by (simp add: new_rate_limit_def)
  moreover have "map (\<lambda>j. int j < limit) [0 ..< Suc (length ts)] = True # map (\<lambda>j. 1 + int j < limit) [0 ..< length ts]"
    using assms(3) by (simp add: upt_conv_Cons map_Suc_upt [symmetric] del: upt_Suc)
  ultimately show ?thesis using r by (simp add: split_beta)
qed

lemma init_rate_slot: "rate_slot (orochi_auth_shmem_init now None) key action = Some (orochi_auth_rate_limit_hash key action)"
  using rate_home_less [of key action] by (simp add: rate_slot_def probe_loop_numeral orochi_auth_shmem_init_def empty_rate_limit_def)

lemma init_rate_limits:
  "length (ac_rate_limits (orochi_auth_shmem_init now None)) = 1024"
  "i < 1024 \<Longrightarrow> ac_rate_limits (orochi_auth_shmem_init now None) ! i = empty_rate_limit"
  by (simp_all add: orochi_auth_shmem_init_def)

theorem rate_limit_allows_exactly_limit_witness:
  "snd (ask_all sample_auth_gucs ''10.0.1.200'' ''login'' 2 [100, 110, 120, 130] (orochi_auth_shmem_init 0 None)) = [True, True, False, False]"
  using rate_limit_allows_exactly_limit [of sample_auth_gucs "orochi_auth_shmem_init 0 None" 2 "''10.0.1.200''" "''login''"
      "orochi_auth_rate_limit_hash ''10.0.1.200'' ''login''" "[110, 120, 130]" 100]
    init_rate_slot rate_home_less [of "''10.0.1.200''" "''login''"]
  by (simp add: init_rate_limits sample_auth_gucs_def) (simp add: empty_rate_limit_def)

text \<open>Asking keeps the entry under its key.\<close>

lemma hit_rate_limit_key: "hit_rate_limit t e = (e', ok, ov) \<Longrightarrow> rt_key e' = rt_key e"
  by (auto simp: hit_rate_limit_def split: if_splits)

lemma ask_keeps_entry:
  assumes "rate_slot c key action = Some i" "length (ac_rate_limits c) = 1024" "rt_key (ac_rate_limits c ! i) \<noteq> []"
    and "key_begins key (ac_rate_limits c ! i)"
  shows "rt_key (ac_rate_limits (fst (ask_all g key action limit ts c)) ! i) = rt_key (ac_rate_limits c ! i) \<and>
         rate_slot (fst (ask_all g key action limit ts c)) key action = Some i"
  using assms
proof (induction ts arbitrary: c)
  case (Cons t ts)
  let ?e = "ac_rate_limits c ! i"
  obtain c1 ok where r: "orochi_auth_check_rate_limit g t key action limit c = (c1, ok)" by fastforce
  have i: "i < 1024" using rate_slot_less Cons.prems(1) by blast
  have "\<exists>e'. ac_rate_limits c1 = (ac_rate_limits c)[i := e'] \<and> rt_key e' = rt_key ?e"
  proof (cases "orochi_auth_rate_limit_enabled g")
    case True
    obtain e' ok' ov where h: "hit_rate_limit t ?e = (e', ok', ov)" by (cases "hit_rate_limit t ?e") auto
    with True r Cons.prems(1,3) have "ac_rate_limits c1 = (ac_rate_limits c)[i := e']"
      by (auto simp: orochi_auth_check_rate_limit_def rate_slot_def)
    with hit_rate_limit_key [OF h] show ?thesis by blast
  next
    case False
    with r have "c1 = c" by (simp add: orochi_auth_check_rate_limit_def)
    then show ?thesis by (intro exI [of _ ?e]) simp
  qed
  then obtain e' where e': "ac_rate_limits c1 = (ac_rate_limits c)[i := e']" "rt_key e' = rt_key ?e" by blast
  with Cons.prems have "key_begins key e'" by (simp add: key_begins_def)
  with Cons.IH [of c1] rate_slot_update [OF Cons.prems(1) _ e'(1)] e' i Cons.prems r show ?case by (simp add: split_beta)
qed simp

lemma ask_all_snoc:
  "snd (ask_all g key action limit (ts @ [t]) c) =
     snd (ask_all g key action limit ts c) @ [snd (orochi_auth_check_rate_limit g t key action limit (fst (ask_all g key action limit ts c)))]"
  by (induction ts arbitrary: c) (simp_all add: split_beta)

text \<open>The answer depends on the key only through the slot.\<close>

lemma check_same_slot:
  "rate_slot c key action = rate_slot c key' action' \<Longrightarrow> rate_slot c key action = Some i \<Longrightarrow> rt_key (ac_rate_limits c ! i) \<noteq> [] \<Longrightarrow>
     orochi_auth_check_rate_limit g t key action limit c = orochi_auth_check_rate_limit g t key' action' limit' c"
  by (simp add: orochi_auth_check_rate_limit_def rate_slot_def)

text \<open>Stored keys are compared on the length of the key asked for only. A client whose address is a prefix of the address of
  another one that hashes to the same slot is refused at its first request when the other has used up its limit.\<close>

theorem rate_limit_shared_by_prefix:
  assumes g: "orochi_auth_rate_limit_enabled g" "length (ac_rate_limits c) = 1024" "1 \<le> limit"
    and key: "key \<noteq> []" "take (length key) key' = key" "length key' \<le> 256"
      "orochi_auth_rate_limit_hash key' action = orochi_auth_rate_limit_hash key action"
    and free: "rt_key (ac_rate_limits c ! orochi_auth_rate_limit_hash key action) = []"
    and ts: "\<forall>t \<in> set (ts @ [t1]). t \<le> t0 + orochi_auth_rate_limit_window g * 1000000" "int (length ts) = limit - 1"
  shows "\<not> snd (orochi_auth_check_rate_limit g t1 key action limit (fst (ask_all g key' action limit (t0 # ts) c)))"
proof -
  let ?i = "orochi_auth_rate_limit_hash key action" and ?c = "fst (ask_all g key' action limit (t0 # ts) c)"
  have slot: "rate_slot c key' action = Some ?i" using free key(4) by (simp add: rate_slot_def probe_loop_numeral)
  let ?e = "new_rate_limit g t0 key' action limit"
  have k': "key' \<noteq> []" using key by auto
  obtain c1 where r: "orochi_auth_check_rate_limit g t0 key' action limit c = (c1, True)"
      and c1: "ac_rate_limits c1 = (ac_rate_limits c)[?i := ?e]"
    using g slot free by (simp add: orochi_auth_check_rate_limit_def rate_slot_def)
  have e: "key_begins key' ?e" "rt_key ?e \<noteq> []"
    using key k' by (auto simp: new_rate_limit_def key_begins_def min_def)
  have n: "ac_rate_limits c1 ! ?i = ?e" "length (ac_rate_limits c1) = 1024" using c1 g(2) rate_home_less by simp_all
  have kept: "rt_key (ac_rate_limits ?c ! ?i) = rt_key ?e \<and> rate_slot ?c key' action = Some ?i"
    using ask_keeps_entry [of c1 key' action ?i g limit ts] rate_slot_update [OF slot e(1) c1] n e r by (simp add: split_beta)
  have prefix: "length key \<le> length key'" using key(2) by (metis length_take min.cobounded1)
  have "take (length key) (rt_key ?e) = key"
    using key(2,3) prefix by (simp add: new_rate_limit_def min_def)
  then have "rate_slot ?c key action = Some ?i"
    using kept by (simp add: rate_slot_def probe_loop_numeral key_begins_def)
  then have "snd (orochi_auth_check_rate_limit g t1 key action limit ?c) = snd (orochi_auth_check_rate_limit g t1 key' action limit ?c)"
    using kept e(2) check_same_slot [of ?c key action key' action ?i g t1 limit limit] by simp
  also have "\<dots> = last (snd (ask_all g key' action limit (t0 # ts @ [t1]) c))"
    using ask_all_snoc [of g key' action limit "t0 # ts" t1 c] by simp
  also have "\<dots> = False"
  proof -
    have "snd (ask_all g key' action limit (ts @ [t1]) c1) = map (\<lambda>j. 1 + int j < limit) [0 ..< Suc (length ts)]"
      using ask_known [OF g(1) n(2), of key' action ?i "ts @ [t1]" limit] rate_slot_update [OF slot e(1) c1] n(1) e ts(1)
      by (simp add: new_rate_limit_def window_end_def)
    then show ?thesis using r ts(2) by (simp add: split_beta)
  qed
  finally show ?thesis by simp
qed

theorem rate_limit_shared_by_prefix_witness:
  "\<not> snd (orochi_auth_check_rate_limit sample_auth_gucs 130 ''10.0.1.2'' ''login'' 3
       (fst (ask_all sample_auth_gucs ''10.0.1.200'' ''login'' 3 [100, 110, 120] (orochi_auth_shmem_init 0 None))))"
  using rate_limit_shared_by_prefix [of sample_auth_gucs "orochi_auth_shmem_init 0 None" 3 "''10.0.1.2''" "''10.0.1.200''" "''login''"
      "[110, 120]" 130 100]
  by (simp add: init_rate_limits sample_auth_gucs_def orochi_auth_rate_limit_hash_def empty_rate_limit_def)

end
