(* ===== verification/Auth_Jwt.thy ===== *)
theory Auth_Jwt
  imports Base64url Auth_Cache
begin

text \<open>
  JSON Web Tokens (\<^verbatim>\<open>auth/jwt.c\<close>, \<^verbatim>\<open>auth/jwt.h\<close>): parsing, verification, creation, and the session variables that
  row-level security reads.

  PostgreSQL's \<^verbatim>\<open>jsonb\<close> parser and printer, the conversion of a numeric to 64 bits and OpenSSL are parameters: the record
  \<open>jwt_env\<close>. A \<^verbatim>\<open>jsonb\<close> value is a tree whose objects list their keys in storage order, which is the order of iteration; a
  numeric is kept as its text. \<^verbatim>\<open>getKeyJsonValueFromContainer\<close> asserts that it is given an object, and the code calls it on
  whatever the token holds: what it makes of any other value is the parameter \<open>other_lookup\<close>. \<^verbatim>\<open>ereport(ERROR)\<close> is \<open>Inl\<close>.
\<close>

section \<open>Parameters and data\<close>

datatype jsonb = JNull | JString string | JNumeric string | JBool bool | JArray "jsonb list" | JObject "(string \<times> jsonb) list"

datatype evp_md = EVP_sha256 | EVP_sha384 | EVP_sha512

record jwt_env =
  jsonb_in :: "string \<Rightarrow> jsonb option"
  jsonb_out :: "jsonb \<Rightarrow> string"
  other_lookup :: "jsonb \<Rightarrow> string \<Rightarrow> jsonb option"
  numeric_int8 :: "string \<Rightarrow> int option"
  hmac :: "evp_md \<Rightarrow> string \<Rightarrow> string \<Rightarrow> bytes option"
  rsa_verify :: "evp_md \<Rightarrow> string \<Rightarrow> string \<Rightarrow> bytes \<Rightarrow> bool"
  ecdsa_verify :: "evp_md \<Rightarrow> string \<Rightarrow> string \<Rightarrow> bytes \<Rightarrow> bytes \<Rightarrow> bool"

datatype OrochiJwtStatus = OROCHI_JWT_STATUS_VALID | OROCHI_JWT_STATUS_INVALID_FORMAT | OROCHI_JWT_STATUS_INVALID_HEADER |
  OROCHI_JWT_STATUS_INVALID_PAYLOAD | OROCHI_JWT_STATUS_INVALID_SIGNATURE | OROCHI_JWT_STATUS_EXPIRED |
  OROCHI_JWT_STATUS_NOT_YET_VALID | OROCHI_JWT_STATUS_UNSUPPORTED_ALGORITHM | OROCHI_JWT_STATUS_DECODE_ERROR |
  OROCHI_JWT_STATUS_VERIFICATION_ERROR

record OrochiJwtHeader =
  hd_alg :: OrochiJwtAlgorithm
  hd_typ :: "string option"
  hd_kid :: "string option"
  hd_raw_json :: string

record OrochiJwtStandardClaims =
  sc_iss :: "string option"
  sc_sub :: "string option"
  sc_aud :: "string option"
  sc_exp :: int
  sc_nbf :: int
  sc_iat :: int
  sc_jti :: "string option"
  sc_exp_unix :: int
  sc_nbf_unix :: int
  sc_iat_unix :: int

record OrochiJwtCustomClaims =
  cc_email :: "string option"
  cc_phone :: "string option"
  cc_role :: "string option"
  cc_session_id :: "string option"
  cc_aal :: "string option"
  cc_app_metadata :: "jsonb option"
  cc_user_metadata :: "jsonb option"
  cc_amr :: "jsonb option"

record OrochiJwtClaims =
  cl_standard :: OrochiJwtStandardClaims
  cl_custom :: OrochiJwtCustomClaims
  cl_raw_payload :: jsonb

record OrochiJwt =
  jw_header :: "OrochiJwtHeader option"
  jw_claims :: "OrochiJwtClaims option"
  jw_signature :: "bytes option"
  jw_header_b64 :: string
  jw_payload_b64 :: string
  jw_signature_b64 :: string
  jw_status :: OrochiJwtStatus
  jw_is_valid :: bool
  jw_error_message :: "string option"

record OrochiJwtValidationOptions =
  vo_verify_signature :: bool
  vo_verify_exp :: bool
  vo_verify_nbf :: bool
  vo_verify_iat :: bool
  vo_required_iss :: "string option"
  vo_required_aud :: "string option"
  vo_clock_skew_seconds :: int

definition OROCHI_JWT_DEFAULT_OPTIONS :: OrochiJwtValidationOptions where
  "OROCHI_JWT_DEFAULT_OPTIONS = \<lparr>vo_verify_signature = True, vo_verify_exp = True, vo_verify_nbf = True, vo_verify_iat = False,
     vo_required_iss = None, vo_required_aud = None, vo_clock_skew_seconds = 0\<rparr>"

abbreviation (input) JWT_MAX_TOKEN_SIZE :: nat where "JWT_MAX_TOKEN_SIZE \<equiv> 262144"

section \<open>Names and times\<close>

definition orochi_jwt_algorithm_from_string :: "string option \<Rightarrow> OrochiJwtAlgorithm" where
  "orochi_jwt_algorithm_from_string alg_str =
     (case alg_str of
        None \<Rightarrow> OROCHI_JWT_ALG_NONE
      | Some s \<Rightarrow>
          if s = ''HS256'' then OROCHI_JWT_HS256 else if s = ''HS384'' then OROCHI_JWT_HS384 else if s = ''HS512'' then OROCHI_JWT_HS512
          else if s = ''RS256'' then OROCHI_JWT_RS256 else if s = ''RS384'' then OROCHI_JWT_RS384 else if s = ''RS512'' then OROCHI_JWT_RS512
          else if s = ''ES256'' then OROCHI_JWT_ES256 else if s = ''ES384'' then OROCHI_JWT_ES384 else if s = ''ES512'' then OROCHI_JWT_ES512
          else OROCHI_JWT_ALG_NONE)"

fun orochi_jwt_algorithm_to_string :: "OrochiJwtAlgorithm \<Rightarrow> string" where
  "orochi_jwt_algorithm_to_string OROCHI_JWT_HS256 = ''HS256''"
| "orochi_jwt_algorithm_to_string OROCHI_JWT_HS384 = ''HS384''"
| "orochi_jwt_algorithm_to_string OROCHI_JWT_HS512 = ''HS512''"
| "orochi_jwt_algorithm_to_string OROCHI_JWT_RS256 = ''RS256''"
| "orochi_jwt_algorithm_to_string OROCHI_JWT_RS384 = ''RS384''"
| "orochi_jwt_algorithm_to_string OROCHI_JWT_RS512 = ''RS512''"
| "orochi_jwt_algorithm_to_string OROCHI_JWT_ES256 = ''ES256''"
| "orochi_jwt_algorithm_to_string OROCHI_JWT_ES384 = ''ES384''"
| "orochi_jwt_algorithm_to_string OROCHI_JWT_ES512 = ''ES512''"
| "orochi_jwt_algorithm_to_string OROCHI_JWT_ALG_NONE = ''none''"

fun orochi_jwt_status_message :: "OrochiJwtStatus \<Rightarrow> string" where
  "orochi_jwt_status_message OROCHI_JWT_STATUS_VALID = ''Token is valid''"
| "orochi_jwt_status_message OROCHI_JWT_STATUS_INVALID_FORMAT = ''Invalid token format''"
| "orochi_jwt_status_message OROCHI_JWT_STATUS_INVALID_HEADER = ''Invalid token header''"
| "orochi_jwt_status_message OROCHI_JWT_STATUS_INVALID_PAYLOAD = ''Invalid token payload''"
| "orochi_jwt_status_message OROCHI_JWT_STATUS_INVALID_SIGNATURE = ''Invalid signature''"
| "orochi_jwt_status_message OROCHI_JWT_STATUS_EXPIRED = ''Token has expired''"
| "orochi_jwt_status_message OROCHI_JWT_STATUS_NOT_YET_VALID = ''Token is not yet valid''"
| "orochi_jwt_status_message OROCHI_JWT_STATUS_UNSUPPORTED_ALGORITHM = ''Unsupported algorithm''"
| "orochi_jwt_status_message OROCHI_JWT_STATUS_DECODE_ERROR = ''Failed to decode token''"
| "orochi_jwt_status_message OROCHI_JWT_STATUS_VERIFICATION_ERROR = ''Signature verification failed''"

text \<open>PostgreSQL counts microseconds since 2000, Unix seconds since 1970.\<close>

abbreviation (input) pg_epoch_offset :: int where "pg_epoch_offset \<equiv> 946684800"

definition orochi_unix_to_timestamptz :: "int \<Rightarrow> int" where
  "orochi_unix_to_timestamptz unix_timestamp = wrap_i64 (wrap_i64 (unix_timestamp - pg_epoch_offset) * 1000000)"

definition orochi_timestamptz_to_unix :: "int \<Rightarrow> int" where
  "orochi_timestamptz_to_unix ts = c_div ts 1000000 + pg_epoch_offset"

section \<open>Header and claims\<close>

fun json_get :: "jwt_env \<Rightarrow> jsonb \<Rightarrow> string \<Rightarrow> jsonb option" where
  "json_get env (JObject kvs) key = map_of kvs key"
| "json_get env j key = other_lookup env j key"

definition extract_jsonb_string :: "jwt_env \<Rightarrow> jsonb \<Rightarrow> string \<Rightarrow> string option" where
  "extract_jsonb_string env j key = (case json_get env j key of Some (JString s) \<Rightarrow> Some s | _ \<Rightarrow> None)"

text \<open>The value and the flag \<^verbatim>\<open>found\<close>; a numeric outside 64 bits is an error of PostgreSQL.\<close>

definition extract_jsonb_int64 :: "jwt_env \<Rightarrow> jsonb \<Rightarrow> string \<Rightarrow> string + int \<times> bool" where
  "extract_jsonb_int64 env j key =
     (case json_get env j key of
        Some (JNumeric n) \<Rightarrow> (case numeric_int8 env n of Some i \<Rightarrow> Inr (i, True) | None \<Rightarrow> Inl ''bigint out of range'')
      | _ \<Rightarrow> Inr (0, False))"

definition extract_jsonb_object :: "jwt_env \<Rightarrow> jsonb \<Rightarrow> string \<Rightarrow> jsonb option" where
  "extract_jsonb_object env j key =
     (case json_get env j key of Some (JObject o') \<Rightarrow> Some (JObject o') | Some (JArray a) \<Rightarrow> Some (JArray a) | _ \<Rightarrow> None)"

definition orochi_jwt_parse_header :: "jwt_env \<Rightarrow> string \<Rightarrow> OrochiJwtHeader option" where
  "orochi_jwt_parse_header env json_str =
     (case jsonb_in env json_str of
        None \<Rightarrow> None
      | Some j \<Rightarrow>
          Some \<lparr>hd_alg = (case extract_jsonb_string env j ''alg'' of Some s \<Rightarrow> orochi_jwt_algorithm_from_string (Some s) | None \<Rightarrow> OROCHI_JWT_ALG_NONE),
                hd_typ = extract_jsonb_string env j ''typ'', hd_kid = extract_jsonb_string env j ''kid'', hd_raw_json = json_str\<rparr>)"

text \<open>A time claim: its Unix time, and its PostgreSQL time, 0 if it is not there.\<close>

definition time_claim :: "jwt_env \<Rightarrow> jsonb \<Rightarrow> string \<Rightarrow> string + int \<times> int" where
  "time_claim env j key =
     (case extract_jsonb_int64 env j key of
        Inl e \<Rightarrow> Inl e
      | Inr (i, found) \<Rightarrow> Inr (i, if found then orochi_unix_to_timestamptz i else 0))"

definition orochi_jwt_parse_claims :: "jwt_env \<Rightarrow> string \<Rightarrow> string + OrochiJwtClaims option" where
  "orochi_jwt_parse_claims env json_str =
     (case jsonb_in env json_str of
        None \<Rightarrow> Inr None
      | Some j \<Rightarrow>
          (case (time_claim env j ''exp'', time_claim env j ''nbf'', time_claim env j ''iat'') of
             (Inr (exp_unix, exp'), Inr (nbf_unix, nbf), Inr (iat_unix, iat)) \<Rightarrow>
               Inr (Some
                 \<lparr>cl_standard = \<lparr>sc_iss = extract_jsonb_string env j ''iss'', sc_sub = extract_jsonb_string env j ''sub'',
                    sc_aud = extract_jsonb_string env j ''aud'', sc_exp = exp', sc_nbf = nbf, sc_iat = iat,
                    sc_jti = extract_jsonb_string env j ''jti'', sc_exp_unix = exp_unix, sc_nbf_unix = nbf_unix, sc_iat_unix = iat_unix\<rparr>,
                  cl_custom = \<lparr>cc_email = extract_jsonb_string env j ''email'', cc_phone = extract_jsonb_string env j ''phone'',
                    cc_role = extract_jsonb_string env j ''role'', cc_session_id = extract_jsonb_string env j ''session_id'',
                    cc_aal = extract_jsonb_string env j ''aal'', cc_app_metadata = extract_jsonb_object env j ''app_metadata'',
                    cc_user_metadata = extract_jsonb_object env j ''user_metadata'', cc_amr = extract_jsonb_object env j ''amr''\<rparr>,
                  cl_raw_payload = j\<rparr>)
           | _ \<Rightarrow> Inl ''bigint out of range''))"

section \<open>Signatures\<close>

fun get_hmac_algorithm :: "OrochiJwtAlgorithm \<Rightarrow> evp_md option" where
  "get_hmac_algorithm OROCHI_JWT_HS256 = Some EVP_sha256"
| "get_hmac_algorithm OROCHI_JWT_HS384 = Some EVP_sha384"
| "get_hmac_algorithm OROCHI_JWT_HS512 = Some EVP_sha512"
| "get_hmac_algorithm _ = None"

fun get_rsa_digest_algorithm :: "OrochiJwtAlgorithm \<Rightarrow> evp_md option" where
  "get_rsa_digest_algorithm OROCHI_JWT_RS256 = Some EVP_sha256"
| "get_rsa_digest_algorithm OROCHI_JWT_RS384 = Some EVP_sha384"
| "get_rsa_digest_algorithm OROCHI_JWT_RS512 = Some EVP_sha512"
| "get_rsa_digest_algorithm _ = None"

fun get_ecdsa_digest_algorithm :: "OrochiJwtAlgorithm \<Rightarrow> evp_md option" where
  "get_ecdsa_digest_algorithm OROCHI_JWT_ES256 = Some EVP_sha256"
| "get_ecdsa_digest_algorithm OROCHI_JWT_ES384 = Some EVP_sha384"
| "get_ecdsa_digest_algorithm OROCHI_JWT_ES512 = Some EVP_sha512"
| "get_ecdsa_digest_algorithm _ = None"

fun coord_size :: "OrochiJwtAlgorithm \<Rightarrow> nat option" where
  "coord_size OROCHI_JWT_ES256 = Some 32"
| "coord_size OROCHI_JWT_ES384 = Some 48"
| "coord_size OROCHI_JWT_ES512 = Some 66"
| "coord_size _ = None"

definition verify_hmac_signature :: "jwt_env \<Rightarrow> string \<Rightarrow> bytes \<Rightarrow> string \<Rightarrow> OrochiJwtAlgorithm \<Rightarrow> bool" where
  "verify_hmac_signature env data signature secret alg =
     (case get_hmac_algorithm alg of
        None \<Rightarrow> False
      | Some md \<Rightarrow> (case hmac env md secret data of None \<Rightarrow> False | Some h \<Rightarrow> length signature = length h \<and> h = signature))"

definition verify_rsa_signature :: "jwt_env \<Rightarrow> string \<Rightarrow> bytes \<Rightarrow> string \<Rightarrow> OrochiJwtAlgorithm \<Rightarrow> bool" where
  "verify_rsa_signature env data signature public_key_pem alg =
     (case get_rsa_digest_algorithm alg of None \<Rightarrow> False | Some md \<Rightarrow> rsa_verify env md public_key_pem data signature)"

text \<open>\<^verbatim>\<open>ecdsa_sig_to_der\<close> takes the two halves of the signature, which must have the size of the curve.\<close>

definition verify_ecdsa_signature :: "jwt_env \<Rightarrow> string \<Rightarrow> bytes \<Rightarrow> string \<Rightarrow> OrochiJwtAlgorithm \<Rightarrow> bool" where
  "verify_ecdsa_signature env data signature public_key_pem alg =
     (case (get_ecdsa_digest_algorithm alg, coord_size alg) of
        (Some md, Some n) \<Rightarrow>
          length signature = n * 2 \<and> ecdsa_verify env md public_key_pem data (take n signature) (drop n signature)
      | _ \<Rightarrow> False)"

definition orochi_jwt_verify_signature :: "jwt_env \<Rightarrow> string \<Rightarrow> string \<Rightarrow> string \<Rightarrow> OrochiJwtAlgorithm \<Rightarrow> bool" where
  "orochi_jwt_verify_signature env header_payload signature_b64 secret alg =
     (case orochi_base64url_decode signature_b64 of
        None \<Rightarrow> False
      | Some sig \<Rightarrow>
          if alg \<in> {OROCHI_JWT_HS256, OROCHI_JWT_HS384, OROCHI_JWT_HS512} then verify_hmac_signature env header_payload sig secret alg
          else if alg \<in> {OROCHI_JWT_RS256, OROCHI_JWT_RS384, OROCHI_JWT_RS512} then verify_rsa_signature env header_payload sig secret alg
          else if alg \<in> {OROCHI_JWT_ES256, OROCHI_JWT_ES384, OROCHI_JWT_ES512} then verify_ecdsa_signature env header_payload sig secret alg
          else length sig = 0)"

section \<open>Tokens\<close>

text \<open>The text before the first dot, and the text after it if there is one.\<close>

definition split_dot :: "string \<Rightarrow> string \<times> string option" where
  "split_dot s = (takeWhile (\<lambda>c. c \<noteq> CHR ''.'') s, case dropWhile (\<lambda>c. c \<noteq> CHR ''.'') s of [] \<Rightarrow> None | _ # r \<Rightarrow> Some r)"

text \<open>Decoded bytes as a C string: up to the first NUL.\<close>

definition c_string :: "bytes \<Rightarrow> string" where
  "c_string bs = map (\<lambda>b. char_of (unat b)) (takeWhile (\<lambda>b. b \<noteq> 0) bs)"

definition new_jwt :: OrochiJwt where
  "new_jwt = \<lparr>jw_header = None, jw_claims = None, jw_signature = None, jw_header_b64 = [], jw_payload_b64 = [], jw_signature_b64 = [],
     jw_status = OROCHI_JWT_STATUS_INVALID_FORMAT, jw_is_valid = False, jw_error_message = None\<rparr>"

definition jwt_failed :: "OrochiJwt \<Rightarrow> OrochiJwtStatus \<Rightarrow> string \<Rightarrow> OrochiJwt" where
  "jwt_failed jwt status msg = jwt\<lparr>jw_status := status, jw_error_message := Some msg, jw_is_valid := False\<rparr>"

definition parse_parts :: "jwt_env \<Rightarrow> OrochiJwt \<Rightarrow> string + OrochiJwt" where
  "parse_parts env jwt =
     (case orochi_base64url_decode (jw_header_b64 jwt) of
        None \<Rightarrow> Inr (jwt_failed jwt OROCHI_JWT_STATUS_DECODE_ERROR ''Failed to decode header'')
      | Some hs \<Rightarrow>
          (case orochi_jwt_parse_header env (c_string hs) of
             None \<Rightarrow> Inr (jwt_failed jwt OROCHI_JWT_STATUS_INVALID_HEADER ''Failed to parse header JSON'')
           | Some h \<Rightarrow>
               (let jwt1 = jwt\<lparr>jw_header := Some h\<rparr> in
                case orochi_base64url_decode (jw_payload_b64 jwt) of
                  None \<Rightarrow> Inr (jwt_failed jwt1 OROCHI_JWT_STATUS_DECODE_ERROR ''Failed to decode payload'')
                | Some ps \<Rightarrow>
                    (case orochi_jwt_parse_claims env (c_string ps) of
                       Inl e \<Rightarrow> Inl e
                     | Inr None \<Rightarrow> Inr (jwt_failed jwt1 OROCHI_JWT_STATUS_INVALID_PAYLOAD ''Failed to parse payload JSON'')
                     | Inr (Some cl) \<Rightarrow>
                         Inr (jwt1\<lparr>jw_claims := Some cl, jw_signature := orochi_base64url_decode (jw_signature_b64 jwt),
                                   jw_status := OROCHI_JWT_STATUS_VALID\<rparr>)))))"

definition orochi_jwt_parse :: "jwt_env \<Rightarrow> string \<Rightarrow> string + OrochiJwt" where
  "orochi_jwt_parse env token =
     (if length token > JWT_MAX_TOKEN_SIZE then Inl ''JWT token exceeds maximum size''
      else case split_dot token of
        (h, None) \<Rightarrow> Inr (new_jwt\<lparr>jw_error_message := Some ''Invalid token format: missing first separator''\<rparr>)
      | (h, Some rest) \<Rightarrow>
          (case split_dot rest of
             (p, None) \<Rightarrow> Inr (new_jwt\<lparr>jw_error_message := Some ''Invalid token format: missing second separator''\<rparr>)
           | (p, Some s) \<Rightarrow> parse_parts env (new_jwt\<lparr>jw_header_b64 := h, jw_payload_b64 := p, jw_signature_b64 := s\<rparr>)))"

definition orochi_jwt_is_expired :: "int \<Rightarrow> OrochiJwt \<Rightarrow> int \<Rightarrow> bool" where
  "orochi_jwt_is_expired now jwt clock_skew_seconds =
     (case jw_claims jwt of
        None \<Rightarrow> True
      | Some cl \<Rightarrow> sc_exp_unix (cl_standard cl) \<noteq> 0 \<and>
                   orochi_timestamptz_to_unix now > wrap_i64 (sc_exp_unix (cl_standard cl) + clock_skew_seconds))"

definition orochi_jwt_is_not_yet_valid :: "int \<Rightarrow> OrochiJwt \<Rightarrow> int \<Rightarrow> bool" where
  "orochi_jwt_is_not_yet_valid now jwt clock_skew_seconds =
     (case jw_claims jwt of
        None \<Rightarrow> True
      | Some cl \<Rightarrow> sc_nbf_unix (cl_standard cl) \<noteq> 0 \<and>
                   orochi_timestamptz_to_unix now < wrap_i64 (sc_nbf_unix (cl_standard cl) - clock_skew_seconds))"

text \<open>The issuer and audience checks: a claim that is required and not there, or different, fails.\<close>

definition wrong_claim :: "string option \<Rightarrow> (OrochiJwtStandardClaims \<Rightarrow> string option) \<Rightarrow> OrochiJwt \<Rightarrow> bool" where
  "wrong_claim required get jwt = (case required of None \<Rightarrow> False | Some r \<Rightarrow> (get (cl_standard (the (jw_claims jwt))) \<noteq> Some r))"

definition orochi_jwt_decode_with_options ::
  "jwt_env \<Rightarrow> int \<Rightarrow> string \<Rightarrow> string \<Rightarrow> OrochiJwtAlgorithm \<Rightarrow> OrochiJwtValidationOptions \<Rightarrow> string + OrochiJwt" where
  "orochi_jwt_decode_with_options env now token secret expected_alg opts =
     (case orochi_jwt_parse env token of
        Inl e \<Rightarrow> Inl e
      | Inr jwt \<Rightarrow>
          Inr (if jw_status jwt \<noteq> OROCHI_JWT_STATUS_VALID then jwt
               else if hd_alg (the (jw_header jwt)) \<noteq> expected_alg
                    then jwt_failed jwt OROCHI_JWT_STATUS_UNSUPPORTED_ALGORITHM ''Algorithm mismatch''
               else if vo_verify_signature opts \<and>
                       \<not> orochi_jwt_verify_signature env (jw_header_b64 jwt @ ''.'' @ jw_payload_b64 jwt) (jw_signature_b64 jwt) secret expected_alg
                    then jwt_failed jwt OROCHI_JWT_STATUS_INVALID_SIGNATURE ''Signature verification failed''
               else if vo_verify_exp opts \<and> orochi_jwt_is_expired now jwt (vo_clock_skew_seconds opts)
                    then jwt_failed jwt OROCHI_JWT_STATUS_EXPIRED ''Token has expired''
               else if vo_verify_nbf opts \<and> orochi_jwt_is_not_yet_valid now jwt (vo_clock_skew_seconds opts)
                    then jwt_failed jwt OROCHI_JWT_STATUS_NOT_YET_VALID ''Token is not yet valid''
               else if wrong_claim (vo_required_iss opts) sc_iss jwt
                    then jwt_failed jwt OROCHI_JWT_STATUS_VERIFICATION_ERROR ''Invalid issuer''
               else if wrong_claim (vo_required_aud opts) sc_aud jwt
                    then jwt_failed jwt OROCHI_JWT_STATUS_VERIFICATION_ERROR ''Invalid audience''
               else jwt\<lparr>jw_status := OROCHI_JWT_STATUS_VALID, jw_is_valid := True, jw_error_message := None\<rparr>))"

definition orochi_jwt_decode :: "jwt_env \<Rightarrow> int \<Rightarrow> string \<Rightarrow> string \<Rightarrow> OrochiJwtAlgorithm \<Rightarrow> string + OrochiJwt" where
  "orochi_jwt_decode env now token secret expected_alg =
     orochi_jwt_decode_with_options env now token secret expected_alg OROCHI_JWT_DEFAULT_OPTIONS"

definition orochi_jwt_encode :: "jwt_env \<Rightarrow> jsonb \<Rightarrow> string \<Rightarrow> string option \<Rightarrow> string + string" where
  "orochi_jwt_encode env claims secret alg_text =
     (let alg = (case alg_text of None \<Rightarrow> OROCHI_JWT_HS256 | Some s \<Rightarrow> orochi_jwt_algorithm_from_string (Some s));
          header_json = ''{\"alg\":\"'' @ orochi_jwt_algorithm_to_string alg @ ''\",\"typ\":\"JWT\"}'';
          header_payload = orochi_base64url_encode (ascii header_json) @ ''.'' @ orochi_base64url_encode (ascii (jsonb_out env claims)) in
      case get_hmac_algorithm alg of
        None \<Rightarrow> Inl ''Unsupported JWT algorithm''
      | Some md \<Rightarrow>
          (case hmac env md secret header_payload of
             None \<Rightarrow> Inl ''Failed to compute HMAC signature''
           | Some sig \<Rightarrow> Inr (header_payload @ ''.'' @ orochi_base64url_encode sig)))"

section \<open>Access to claims\<close>

definition orochi_jwt_get_claim_text :: "jwt_env \<Rightarrow> OrochiJwt \<Rightarrow> string \<Rightarrow> string option" where
  "orochi_jwt_get_claim_text env jwt claim_name =
     (case jw_claims jwt of None \<Rightarrow> None | Some cl \<Rightarrow> extract_jsonb_string env (cl_raw_payload cl) claim_name)"

definition orochi_jwt_get_claim_jsonb :: "jwt_env \<Rightarrow> OrochiJwt \<Rightarrow> string \<Rightarrow> jsonb option" where
  "orochi_jwt_get_claim_jsonb env jwt claim_name =
     (case jw_claims jwt of None \<Rightarrow> None | Some cl \<Rightarrow> json_get env (cl_raw_payload cl) claim_name)"

definition orochi_jwt_has_claim :: "jwt_env \<Rightarrow> OrochiJwt \<Rightarrow> string \<Rightarrow> bool" where
  "orochi_jwt_has_claim env jwt claim_name =
     (case jw_claims jwt of None \<Rightarrow> False | Some cl \<Rightarrow> json_get env (cl_raw_payload cl) claim_name \<noteq> None)"

text \<open>The value and \<^verbatim>\<open>is_null\<close>: the flag \<^verbatim>\<open>found\<close> is written into \<^verbatim>\<open>is_null\<close>.\<close>

definition orochi_jwt_get_claim_int :: "jwt_env \<Rightarrow> OrochiJwt \<Rightarrow> string \<Rightarrow> string + int \<times> bool" where
  "orochi_jwt_get_claim_int env jwt claim_name =
     (case jw_claims jwt of None \<Rightarrow> Inr (0, True) | Some cl \<Rightarrow> extract_jsonb_int64 env (cl_raw_payload cl) claim_name)"

definition orochi_jwt_get_claim_bool :: "jwt_env \<Rightarrow> OrochiJwt \<Rightarrow> string \<Rightarrow> bool \<times> bool" where
  "orochi_jwt_get_claim_bool env jwt claim_name =
     (case jw_claims jwt of
        None \<Rightarrow> (False, True)
      | Some cl \<Rightarrow> (case json_get env (cl_raw_payload cl) claim_name of Some (JBool b) \<Rightarrow> (b, False) | _ \<Rightarrow> (False, True)))"

section \<open>Session variables\<close>

type_synonym settings = "string \<Rightarrow> string option"

definition claim_setting :: "string \<Rightarrow> string" where
  "claim_setting key = ''request.jwt.claim.'' @ key"

definition set_session_variable :: "string \<Rightarrow> string option \<Rightarrow> settings \<Rightarrow> settings" where
  "set_session_variable name val s = s(name \<mapsto> (case val of Some v \<Rightarrow> v | None \<Rightarrow> []))"

text \<open>What the iterator visits with \<^verbatim>\<open>skipNested = false\<close>: every key with a scalar value, at every depth, in storage order.\<close>

fun key_values :: "jsonb \<Rightarrow> (string \<times> jsonb) list" where
  "key_values (JObject kvs) = concat (map (\<lambda>(k, v). case v of JObject _ \<Rightarrow> key_values v | JArray _ \<Rightarrow> key_values v | _ \<Rightarrow> [(k, v)]) kvs)"
| "key_values (JArray vs) = concat (map key_values vs)"
| "key_values _ = []"

fun scalar_text :: "jsonb \<Rightarrow> string option" where
  "scalar_text (JString s) = Some s"
| "scalar_text (JNumeric n) = Some n"
| "scalar_text (JBool b) = Some (if b then ''true'' else ''false'')"
| "scalar_text _ = None"

definition set_claim_variable :: "string \<times> jsonb \<Rightarrow> settings \<Rightarrow> settings" where
  "set_claim_variable kv s = (case scalar_text (snd kv) of None \<Rightarrow> s | Some v \<Rightarrow> set_session_variable (claim_setting (fst kv)) (Some v) s)"

text \<open>The decimal text of a time, as \<^verbatim>\<open>snprintf(\"%ld\")\<close> prints it.\<close>

definition decimal_text :: "int \<Rightarrow> string" where
  "decimal_text i = map (\<lambda>b. char_of (unat b)) (decimal_int i)"

definition set_standard_variables :: "OrochiJwtStandardClaims \<Rightarrow> settings \<Rightarrow> settings" where
  "set_standard_variables st s =
     (let s1 = set_session_variable (claim_setting ''aud'') (sc_aud st)
                 (set_session_variable (claim_setting ''iss'') (sc_iss st) (set_session_variable (claim_setting ''sub'') (sc_sub st) s));
          s2 = (if sc_exp_unix st \<noteq> 0 then set_session_variable (claim_setting ''exp'') (Some (decimal_text (sc_exp_unix st))) s1 else s1) in
      if sc_iat_unix st \<noteq> 0 then set_session_variable (claim_setting ''iat'') (Some (decimal_text (sc_iat_unix st))) s2 else s2)"

definition set_custom_variables :: "jwt_env \<Rightarrow> OrochiJwtCustomClaims \<Rightarrow> settings \<Rightarrow> settings" where
  "set_custom_variables env cu s =
     (let s1 = set_session_variable (claim_setting ''phone'') (cc_phone cu) (set_session_variable (claim_setting ''email'') (cc_email cu) s);
          s2 = set_session_variable (claim_setting ''role'') (Some (case cc_role cu of Some r \<Rightarrow> r | None \<Rightarrow> ''authenticated'')) s1;
          s3 = set_session_variable (claim_setting ''session_id'') (cc_session_id cu) s2;
          s4 = set_session_variable (claim_setting ''aal'') (Some (case cc_aal cu of Some a \<Rightarrow> a | None \<Rightarrow> ''aal1'')) s3;
          s5 = (case cc_app_metadata cu of Some m \<Rightarrow> set_session_variable (claim_setting ''app_metadata'') (Some (jsonb_out env m)) s4 | None \<Rightarrow> s4) in
      case cc_user_metadata cu of Some m \<Rightarrow> set_session_variable (claim_setting ''user_metadata'') (Some (jsonb_out env m)) s5 | None \<Rightarrow> s5)"

definition orochi_jwt_set_session_context :: "jwt_env \<Rightarrow> OrochiJwt \<Rightarrow> settings \<Rightarrow> settings" where
  "orochi_jwt_set_session_context env jwt s =
     (case jw_claims jwt of
        None \<Rightarrow> s
      | Some cl \<Rightarrow>
          fold set_claim_variable (key_values (cl_raw_payload cl))
            (set_custom_variables env (cl_custom cl)
              (set_standard_variables (cl_standard cl)
                (set_session_variable ''request.jwt.claims'' (Some (jsonb_out env (cl_raw_payload cl))) s))))"

definition cleared_claims :: "string list" where
  "cleared_claims = [''sub'', ''iss'', ''aud'', ''exp'', ''iat'', ''email'', ''phone'', ''role'', ''session_id'', ''aal'', ''app_metadata'', ''user_metadata'']"

definition orochi_jwt_clear_session_context :: "settings \<Rightarrow> settings" where
  "orochi_jwt_clear_session_context s =
     fold (\<lambda>k. set_session_variable (claim_setting k) (Some [])) cleared_claims (set_session_variable ''request.jwt.claims'' (Some []) s)"

definition orochi_jwt_get_session_claim :: "settings \<Rightarrow> string \<Rightarrow> string option" where
  "orochi_jwt_get_session_claim s claim_name =
     (case s (claim_setting claim_name) of None \<Rightarrow> None | Some v \<Rightarrow> if v = [] then None else Some v)"

section \<open>SQL functions\<close>

definition orochi_jwt_verify :: "jwt_env \<Rightarrow> int \<Rightarrow> string option \<Rightarrow> string option \<Rightarrow> string + bool" where
  "orochi_jwt_verify env now token secret =
     (case (token, secret) of
        (Some t, Some k) \<Rightarrow> (case orochi_jwt_decode env now t k OROCHI_JWT_HS256 of Inl e \<Rightarrow> Inl e | Inr jwt \<Rightarrow> Inr (jw_is_valid jwt))
      | _ \<Rightarrow> Inr False)"

definition orochi_jwt_decode_claims :: "jwt_env \<Rightarrow> int \<Rightarrow> string option \<Rightarrow> string option \<Rightarrow> string + jsonb option" where
  "orochi_jwt_decode_claims env now token secret =
     (case (token, secret) of
        (Some t, Some k) \<Rightarrow>
          (case orochi_jwt_decode env now t k OROCHI_JWT_HS256 of
             Inl e \<Rightarrow> Inl e
           | Inr jwt \<Rightarrow> if jw_is_valid jwt then Inr (Some (cl_raw_payload (the (jw_claims jwt))))
                        else Inl (''JWT validation failed: '' @ the (jw_error_message jwt)))
      | _ \<Rightarrow> Inr None)"

definition orochi_jwt_get_claim :: "jwt_env \<Rightarrow> string option \<Rightarrow> string option \<Rightarrow> string + string option" where
  "orochi_jwt_get_claim env token claim_name =
     (case (token, claim_name) of
        (Some t, Some n) \<Rightarrow> (case orochi_jwt_parse env t of Inl e \<Rightarrow> Inl e | Inr jwt \<Rightarrow> Inr (orochi_jwt_get_claim_text env jwt n))
      | _ \<Rightarrow> Inr None)"

definition orochi_jwt_set_auth_context ::
  "jwt_env \<Rightarrow> int \<Rightarrow> string option \<Rightarrow> string option \<Rightarrow> settings \<Rightarrow> string + bool \<times> settings" where
  "orochi_jwt_set_auth_context env now token secret s =
     (case (token, secret) of
        (Some t, Some k) \<Rightarrow>
          (case orochi_jwt_decode env now t k OROCHI_JWT_HS256 of
             Inl e \<Rightarrow> Inl e
           | Inr jwt \<Rightarrow> if jw_is_valid jwt then Inr (True, orochi_jwt_set_session_context env jwt s)
                        else Inl (''JWT validation failed: '' @ the (jw_error_message jwt)))
      | _ \<Rightarrow> Inr (False, s))"

definition orochi_jwt_clear_auth_context :: "settings \<Rightarrow> settings" where
  "orochi_jwt_clear_auth_context s = orochi_jwt_clear_session_context s"

section \<open>Creating and checking\<close>

lemma digit_in_chars: "digit v \<in> set base64url_chars"
  using low6_less [of v] by (simp add: length_chars)

lemma flush_chars: "set (fst (base64url_flush b n)) \<subseteq> set base64url_chars"
proof (induction n rule: less_induct)
  case (less n)
  show ?case
  proof (cases "6 \<le> n")
    case True
    then have "set (fst (base64url_flush b (n - 6))) \<subseteq> set base64url_chars" by (intro less) simp
    with True show ?thesis by (subst base64url_flush.simps) (auto simp: digit_in_chars split: prod.splits)
  qed (subst base64url_flush.simps, simp)
qed

lemma encode_chars: "set (base64url_encode_loop b n xs) \<subseteq> set base64url_chars"
proof (induction xs arbitrary: b n)
  case (Cons x xs)
  then show ?case using flush_chars [of "push_bit 8 b OR ucast x" "n + 8"]
    by (cases "base64url_flush (push_bit 8 b OR ucast x) (n + 8)") (simp add: Let_def)
qed (auto simp: digit_in_chars)

lemma encode_no_dot: "CHR ''.'' \<notin> set (orochi_base64url_encode bs)"
proof -
  have "CHR ''.'' \<notin> set base64url_chars" by (simp add: base64url_chars_def)
  then show ?thesis using encode_chars [of 0 0 bs] by (auto simp: orochi_base64url_encode_def)
qed

lemma split_dot_append: "CHR ''.'' \<notin> set a \<Longrightarrow> split_dot (a @ ''.'' @ b) = (a, Some b)"
  unfolding split_dot_def by (induction a) auto

lemma split_dot_SomeD: "split_dot t = (a, Some b) \<Longrightarrow> t = a @ ''.'' @ b \<and> CHR ''.'' \<notin> set a"
  unfolding split_dot_def by (induction t arbitrary: a) (auto split: list.splits if_splits dest: set_takeWhileD)

lemma unat_of_char: "unat (of_char c :: u8) = of_char c"
proof -
  have "unat (of_nat (of_char c) :: u8) = of_char c" by (simp add: unat_of_nat del: of_nat_of_char)
  then show ?thesis by (simp add: of_nat_of_char)
qed

lemma c_string_ascii: "CHR 0x00 \<notin> set t \<Longrightarrow> c_string (ascii t) = t"
proof (induction t)
  case (Cons c t)
  have "(of_char c :: u8) \<noteq> 0"
  proof
    assume "(of_char c :: u8) = 0"
    then have "(of_char c :: nat) = of_char (CHR 0x00)" using unat_of_char [of c] by simp
    then show False using Cons.prems by (simp only: of_char_eq_iff) simp
  qed
  with Cons show ?case by (simp add: c_string_def ascii_def unat_of_char)
qed (simp add: c_string_def ascii_def)

lemma algorithm_names: "orochi_jwt_algorithm_from_string (Some (orochi_jwt_algorithm_to_string alg)) = alg"
  by (cases alg) (simp_all add: orochi_jwt_algorithm_from_string_def)

definition header_text :: "OrochiJwtAlgorithm \<Rightarrow> string" where
  "header_text alg = ''{\"alg\":\"'' @ orochi_jwt_algorithm_to_string alg @ ''\",\"typ\":\"JWT\"}''"

lemma header_text_no_nul: "CHR 0x00 \<notin> set (header_text alg)"
  by (cases alg) (simp_all add: header_text_def)

text \<open>What a token made of the two texts parses to.\<close>

lemma parse_encoded:
  assumes "length token \<le> 262144"
    and "token = (orochi_base64url_encode (ascii h) @ ''.'' @ orochi_base64url_encode (ascii q)) @ ''.'' @ orochi_base64url_encode sig"
    and "CHR 0x00 \<notin> set h" "CHR 0x00 \<notin> set q"
    and "orochi_jwt_parse_header env h = Some hdr" "orochi_jwt_parse_claims env q = Inr (Some cl)"
  shows "orochi_jwt_parse env token = Inr (new_jwt\<lparr>jw_header_b64 := orochi_base64url_encode (ascii h),
    jw_payload_b64 := orochi_base64url_encode (ascii q), jw_signature_b64 := orochi_base64url_encode sig,
    jw_header := Some hdr, jw_claims := Some cl, jw_signature := Some sig, jw_status := OROCHI_JWT_STATUS_VALID\<rparr>)"
  using assms
  by (simp add: orochi_jwt_parse_def split_dot_append encode_no_dot parse_parts_def base64url_roundtrip_bytes c_string_ascii
      del: append_Cons append_Nil)

lemma encoded_accepted:
  assumes json: "jsonb_in env (jsonb_out env claims) = Some claims" "CHR 0x00 \<notin> set (jsonb_out env claims)"
      "jsonb_in env (header_text alg) = Some (JObject [(''alg'', JString (orochi_jwt_algorithm_to_string alg)), (''typ'', JString ''JWT'')])"
    and enc: "orochi_jwt_encode env claims secret (Some (orochi_jwt_algorithm_to_string alg)) = Inr token"
    and size: "length token \<le> 262144"
    and cl: "orochi_jwt_parse_claims env (jsonb_out env claims) = Inr (Some cl)"
    and times: "sc_exp_unix (cl_standard cl) = 0 \<or> orochi_timestamptz_to_unix now \<le> wrap_i64 (sc_exp_unix (cl_standard cl))"
      "sc_nbf_unix (cl_standard cl) = 0 \<or> wrap_i64 (sc_nbf_unix (cl_standard cl)) \<le> orochi_timestamptz_to_unix now"
  shows "\<exists>jwt. orochi_jwt_decode env now token secret alg = Inr jwt \<and> jw_is_valid jwt \<and>
    orochi_jwt_get_claim_jsonb env jwt = json_get env claims"
proof -
  let ?h = "orochi_base64url_encode (ascii (header_text alg))" and ?q = "orochi_base64url_encode (ascii (jsonb_out env claims))"
  obtain md sig where md: "get_hmac_algorithm alg = Some md" "hmac env md secret (?h @ ''.'' @ ?q) = Some sig"
      and t: "token = (?h @ ''.'' @ ?q) @ ''.'' @ orochi_base64url_encode sig"
    using enc by (auto simp: orochi_jwt_encode_def algorithm_names header_text_def Let_def split: option.splits)
  obtain hdr where hdr: "orochi_jwt_parse_header env (header_text alg) = Some hdr" "hd_alg hdr = alg"
    using json(3) by (simp add: orochi_jwt_parse_header_def extract_jsonb_string_def algorithm_names)
  note p = parse_encoded [OF size t header_text_no_nul json(2) hdr(1) cl]
  have raw: "cl_raw_payload cl = claims"
    using cl json(1) by (auto simp: orochi_jwt_parse_claims_def split: sum.splits prod.splits)
  have "orochi_jwt_verify_signature env (?h @ ''.'' @ ?q) (orochi_base64url_encode sig) secret alg"
    using md by (cases alg) (simp_all add: orochi_jwt_verify_signature_def base64url_roundtrip_bytes verify_hmac_signature_def)
  then show ?thesis
    using p hdr(2) times raw
    by (auto simp: orochi_jwt_decode_def orochi_jwt_decode_with_options_def OROCHI_JWT_DEFAULT_OPTIONS_def wrong_claim_def
        orochi_jwt_is_expired_def orochi_jwt_is_not_yet_valid_def orochi_jwt_get_claim_jsonb_def fun_eq_iff)
qed

text \<open>C11: A token that \<^verbatim>\<open>orochi_jwt_encode\<close> created with an HMAC algorithm is accepted by \<^verbatim>\<open>orochi_jwt_decode\<close> with the same
  secret and algorithm, and its claims read as they were given, provided that the token has at most 262144 characters, that its
  claims can be read (the times fit 64 bits) and that \<open>exp\<close> has not passed and \<open>nbf\<close> has come. The SQL function
  \<^verbatim>\<open>orochi_jwt_verify\<close>, which always expects HS256, returns true for it when it was created with HS256. This relies on the
  parser of JSON reading what the printer wrote.\<close>

theorem encoded_token_verifies:
  assumes json: "jsonb_in env (jsonb_out env claims) = Some claims" "CHR 0x00 \<notin> set (jsonb_out env claims)"
      "jsonb_in env (header_text alg) = Some (JObject [(''alg'', JString (orochi_jwt_algorithm_to_string alg)), (''typ'', JString ''JWT'')])"
    and enc: "orochi_jwt_encode env claims secret (Some (orochi_jwt_algorithm_to_string alg)) = Inr token"
    and size: "length token \<le> 262144"
    and cl: "orochi_jwt_parse_claims env (jsonb_out env claims) = Inr (Some cl)"
    and times: "sc_exp_unix (cl_standard cl) = 0 \<or> orochi_timestamptz_to_unix now \<le> wrap_i64 (sc_exp_unix (cl_standard cl))"
      "sc_nbf_unix (cl_standard cl) = 0 \<or> wrap_i64 (sc_nbf_unix (cl_standard cl)) \<le> orochi_timestamptz_to_unix now"
  shows "(\<exists>jwt. orochi_jwt_decode env now token secret alg = Inr jwt \<and> jw_is_valid jwt \<and>
      orochi_jwt_get_claim_jsonb env jwt = json_get env claims) \<and>
    (alg = OROCHI_JWT_HS256 \<longrightarrow> orochi_jwt_verify env now (Some token) (Some secret) = Inr True)"
  using encoded_accepted [OF assms] by (auto simp: orochi_jwt_verify_def)

text \<open>A parser that knows the texts needed, and a keyed checksum in the place of HMAC.\<close>

definition sample_env :: jwt_env where
  "sample_env = \<lparr>jsonb_in = (\<lambda>t. if t = ''{}'' then Some (JObject [])
       else if t = header_text OROCHI_JWT_HS256 then Some (JObject [(''alg'', JString ''HS256''), (''typ'', JString ''JWT'')]) else None),
     jsonb_out = (\<lambda>j. ''{}''), other_lookup = (\<lambda>j key. None), numeric_int8 = (\<lambda>n. None), hmac = (\<lambda>md key data. Some [of_nat (length key + length data)]),
     rsa_verify = (\<lambda>md pem data sig. False), ecdsa_verify = (\<lambda>md pem data r s. False)\<rparr>"

lemma length_encode_loop: "length (base64url_encode_loop b 0 xs) \<le> 2 * length xs"
proof (induction xs arbitrary: b rule: three_step_induct)
  case (4 x y z zs)
  then show ?case by (simp add: encode_group del: base64url_encode_loop.simps) (meson le_SucI)
qed (simp_all only: encode_one encode_two, simp_all)

lemma length_encode: "length (orochi_base64url_encode xs) \<le> 2 * length xs"
  by (simp add: orochi_base64url_encode_def length_encode_loop)

lemma sample_parses:
  "\<exists>cl. orochi_jwt_parse_claims sample_env ''{}'' = Inr (Some cl) \<and> sc_exp_unix (cl_standard cl) = 0 \<and> sc_nbf_unix (cl_standard cl) = 0"
  "jsonb_in sample_env ''{}'' = Some (JObject [])" "jsonb_out sample_env c = ''{}''"
  "jsonb_in sample_env (header_text OROCHI_JWT_HS256) = Some (JObject [(''alg'', JString ''HS256''), (''typ'', JString ''JWT'')])"
  by (simp_all add: sample_env_def orochi_jwt_parse_claims_def time_claim_def extract_jsonb_int64_def header_text_def)

lemma short_sum: "a \<le> 54 \<Longrightarrow> b \<le> 4 \<Longrightarrow> c \<le> 2 \<Longrightarrow> a + (b + c) \<le> (262142 :: nat)"
  by simp

lemma sample_encodes:
  "\<exists>token. orochi_jwt_encode sample_env (JObject []) ''k'' (Some ''HS256'') = Inr token \<and> length token \<le> 262144"
  using length_encode [of "ascii (header_text OROCHI_JWT_HS256)"] length_encode [of "ascii ''{}''"]
    length_encode [of "[w]" for w]
  by (simp add: orochi_jwt_encode_def orochi_jwt_algorithm_from_string_def header_text_def sample_env_def Let_def ascii_def)
    (rule short_sum; assumption)

theorem encoded_token_verifies_witness:
  "\<exists>token jwt. orochi_jwt_encode sample_env (JObject []) ''k'' (Some ''HS256'') = Inr token \<and>
     orochi_jwt_decode sample_env 0 token ''k'' OROCHI_JWT_HS256 = Inr jwt \<and> jw_is_valid jwt \<and>
     orochi_jwt_verify sample_env 0 (Some token) (Some ''k'') = Inr True"
proof -
  obtain token cl where "orochi_jwt_encode sample_env (JObject []) ''k'' (Some ''HS256'') = Inr token" "length token \<le> 262144"
      "orochi_jwt_parse_claims sample_env ''{}'' = Inr (Some cl)" "sc_exp_unix (cl_standard cl) = 0" "sc_nbf_unix (cl_standard cl) = 0"
    using sample_encodes sample_parses(1) by blast
  then show ?thesis
    using encoded_token_verifies [of sample_env "JObject []" OROCHI_JWT_HS256 "''k''" token cl 0] by (auto simp: sample_parses)
qed

lemma parse_not_valid: "orochi_jwt_parse env token = Inr j \<Longrightarrow> \<not> jw_is_valid j"
  by (auto simp: orochi_jwt_parse_def parse_parts_def jwt_failed_def new_jwt_def Let_def
      split: if_splits prod.splits option.splits sum.splits)

lemma accepted_shape:
  assumes "orochi_jwt_decode env now token secret alg = Inr jwt" "jw_is_valid jwt"
  shows "\<exists>j. orochi_jwt_parse env token = Inr j \<and> jw_status j = OROCHI_JWT_STATUS_VALID \<and> hd_alg (the (jw_header j)) = alg \<and>
      orochi_jwt_verify_signature env (jw_header_b64 j @ ''.'' @ jw_payload_b64 j) (jw_signature_b64 j) secret alg \<and>
      \<not> orochi_jwt_is_expired now j 0 \<and> \<not> orochi_jwt_is_not_yet_valid now j 0 \<and> jw_claims jwt = jw_claims j"
proof (cases "orochi_jwt_parse env token")
  case (Inr j)
  have v: "jw_is_valid j \<Longrightarrow> jw_status j = OROCHI_JWT_STATUS_VALID" using parse_not_valid [OF Inr] by simp
  show ?thesis
    using assms Inr v
    by (simp add: orochi_jwt_decode_def orochi_jwt_decode_with_options_def OROCHI_JWT_DEFAULT_OPTIONS_def jwt_failed_def split: if_splits)
      (use v in auto)
qed (use assms in \<open>simp add: orochi_jwt_decode_def orochi_jwt_decode_with_options_def\<close>)

lemma parse_shape:
  assumes "orochi_jwt_parse env token = Inr j" "jw_status j = OROCHI_JWT_STATUS_VALID"
  shows "\<exists>h q sg hs hdr. token = h @ ''.'' @ q @ ''.'' @ sg \<and> CHR ''.'' \<notin> set h \<union> set q \<and>
      orochi_base64url_decode h = Some hs \<and> orochi_jwt_parse_header env (c_string hs) = Some hdr \<and> jw_header j = Some hdr \<and>
      jw_header_b64 j = h \<and> jw_payload_b64 j = q \<and> jw_signature_b64 j = sg"
proof -
  obtain h rest where a: "split_dot token = (h, Some rest)"
    using assms by (auto simp: orochi_jwt_parse_def new_jwt_def split: if_splits prod.splits option.splits)
  obtain q sg where b: "split_dot rest = (q, Some sg)"
    using assms a by (auto simp: orochi_jwt_parse_def new_jwt_def split: if_splits prod.splits option.splits)
  have "parse_parts env (new_jwt\<lparr>jw_header_b64 := h, jw_payload_b64 := q, jw_signature_b64 := sg\<rparr>) = Inr j"
    using assms(1) a b by (simp add: orochi_jwt_parse_def split: if_splits)
  then obtain hs hdr where "orochi_base64url_decode h = Some hs" "orochi_jwt_parse_header env (c_string hs) = Some hdr"
      "jw_header j = Some hdr" "jw_header_b64 j = h" "jw_payload_b64 j = q" "jw_signature_b64 j = sg"
    using assms(2) by (auto simp: parse_parts_def jwt_failed_def Let_def split: option.splits sum.splits)
  then show ?thesis using split_dot_SomeD [OF a] split_dot_SomeD [OF b] by (intro exI [of _ h] exI [of _ q] exI [of _ sg]) simp
qed

text \<open>C9: A token is accepted only if it has three parts, its header names the expected algorithm, its times allow it, and for an
  HMAC algorithm the decoded third part is the HMAC of the first two parts under the secret.\<close>

theorem accepted_token_is_signed:
  assumes "orochi_jwt_decode env now token secret alg = Inr jwt" "jw_is_valid jwt"
  shows "\<exists>h q sg hs hdr. token = h @ ''.'' @ q @ ''.'' @ sg \<and> CHR ''.'' \<notin> set h \<union> set q \<and>
    orochi_base64url_decode h = Some hs \<and> orochi_jwt_parse_header env (c_string hs) = Some hdr \<and> hd_alg hdr = alg \<and>
    orochi_jwt_verify_signature env (h @ ''.'' @ q) sg secret alg \<and>
    (\<forall>md. get_hmac_algorithm alg = Some md \<longrightarrow> hmac env md secret (h @ ''.'' @ q) = orochi_base64url_decode sg) \<and>
    \<not> orochi_jwt_is_expired now jwt 0 \<and> \<not> orochi_jwt_is_not_yet_valid now jwt 0"
proof -
  obtain j where j: "orochi_jwt_parse env token = Inr j" "jw_status j = OROCHI_JWT_STATUS_VALID" "hd_alg (the (jw_header j)) = alg"
      "orochi_jwt_verify_signature env (jw_header_b64 j @ ''.'' @ jw_payload_b64 j) (jw_signature_b64 j) secret alg"
      "\<not> orochi_jwt_is_expired now j 0" "\<not> orochi_jwt_is_not_yet_valid now j 0" "jw_claims jwt = jw_claims j"
    using accepted_shape [OF assms] by blast
  from parse_shape [OF j(1,2)] obtain h q sg hs hdr where p: "token = h @ ''.'' @ q @ ''.'' @ sg" "CHR ''.'' \<notin> set h \<union> set q"
      "orochi_base64url_decode h = Some hs" "orochi_jwt_parse_header env (c_string hs) = Some hdr" "jw_header j = Some hdr"
      "jw_header_b64 j = h" "jw_payload_b64 j = q" "jw_signature_b64 j = sg" by blast
  have "hmac env md secret (h @ ''.'' @ q) = orochi_base64url_decode sg" if "get_hmac_algorithm alg = Some md" for md
    using j(4) that unfolding p(6-8)
    by (cases alg) (auto simp: orochi_jwt_verify_signature_def verify_hmac_signature_def split: option.splits)
  moreover have "hd_alg hdr = alg" "\<not> orochi_jwt_is_expired now jwt 0" "\<not> orochi_jwt_is_not_yet_valid now jwt 0"
    using p(5) j(3,5-7) by (simp_all add: orochi_jwt_is_expired_def orochi_jwt_is_not_yet_valid_def)
  ultimately show ?thesis using p(1-4) j(4) [unfolded p(6-8)] by blast
qed

lemma sample_token_accepted:
  "\<exists>token jwt. orochi_jwt_encode sample_env (JObject []) ''k'' (Some ''HS256'') = Inr token \<and>
     orochi_jwt_decode sample_env 0 token ''k'' OROCHI_JWT_HS256 = Inr jwt \<and> jw_is_valid jwt"
proof -
  obtain token cl where "orochi_jwt_encode sample_env (JObject []) ''k'' (Some ''HS256'') = Inr token" "length token \<le> 262144"
      "orochi_jwt_parse_claims sample_env ''{}'' = Inr (Some cl)" "sc_exp_unix (cl_standard cl) = 0" "sc_nbf_unix (cl_standard cl) = 0"
    using sample_encodes sample_parses(1) by blast
  then show ?thesis
    using encoded_accepted [of sample_env "JObject []" OROCHI_JWT_HS256 "''k''" token cl 0] by (auto simp: sample_parses)
qed

theorem accepted_token_is_signed_witness:
  "\<exists>token h q sg. orochi_jwt_encode sample_env (JObject []) ''k'' (Some ''HS256'') = Inr token \<and> token = h @ ''.'' @ q @ ''.'' @ sg \<and>
     hmac sample_env EVP_sha256 ''k'' (h @ ''.'' @ q) = orochi_base64url_decode sg"
proof -
  obtain token jwt where t: "orochi_jwt_encode sample_env (JObject []) ''k'' (Some ''HS256'') = Inr token"
      "orochi_jwt_decode sample_env 0 token ''k'' OROCHI_JWT_HS256 = Inr jwt" "jw_is_valid jwt"
    using sample_token_accepted by blast
  from accepted_token_is_signed [OF t(2,3)] t(1) show ?thesis by fastforce
qed

section \<open>Claims in session variables\<close>

lemma fold_claims_other:
  "k \<notin> fst ` set kvs \<Longrightarrow> fold set_claim_variable kvs s (claim_setting k) = s (claim_setting k)"
  by (induction kvs arbitrary: s) (auto simp: set_claim_variable_def set_session_variable_def claim_setting_def split: option.splits)

text \<open>The variables are set for keys at every depth of the payload, the later ones last. A key inside a nested object, such
  as a \<open>role\<close> inside \<open>user_metadata\<close>, that is stored behind the claim of the same name replaces it.\<close>

theorem nested_claim_replaces_claim:
  assumes "jw_claims jwt = Some cl" "key_values (cl_raw_payload cl) = xs @ (k, JString v) # ys" "k \<notin> fst ` set ys" "v \<noteq> []"
  shows "orochi_jwt_get_session_claim (orochi_jwt_set_session_context env jwt s) k = Some v"
  using assms fold_claims_other [of k ys]
  by (simp add: orochi_jwt_set_session_context_def orochi_jwt_get_session_claim_def)
    (simp add: set_claim_variable_def set_session_variable_def)

definition role_payload :: jsonb where
  "role_payload = JObject [(''sub'', JString ''u1''), (''role'', JString ''authenticated''),
     (''user_metadata'', JObject [(''role'', JString ''service_role'')])]"

definition role_jwt :: OrochiJwt where
  "role_jwt = (case parse_parts (sample_env\<lparr>jsonb_in := (\<lambda>t. Some role_payload)\<rparr>) new_jwt of Inr j \<Rightarrow> j | Inl e \<Rightarrow> new_jwt)"

lemma role_claims: "\<exists>cl. jw_claims role_jwt = Some cl \<and> cl_raw_payload cl = role_payload \<and> cc_role (cl_custom cl) = Some ''authenticated''"
  by (simp add: role_jwt_def parse_parts_def new_jwt_def orochi_base64url_decode_def orochi_jwt_parse_header_def orochi_jwt_parse_claims_def
      role_payload_def time_claim_def extract_jsonb_int64_def extract_jsonb_string_def)

theorem nested_claim_replaces_claim_witness:
  "orochi_jwt_get_session_claim (orochi_jwt_set_session_context sample_env role_jwt (\<lambda>n. None)) ''role'' = Some ''service_role''"
proof -
  obtain cl where cl: "jw_claims role_jwt = Some cl" "cl_raw_payload cl = role_payload" using role_claims by blast
  have "key_values (cl_raw_payload cl) =
      [(''sub'', JString ''u1''), (''role'', JString ''authenticated'')] @ (''role'', JString ''service_role'') # []"
    by (simp add: cl(2) role_payload_def)
  from nested_claim_replaces_claim [OF cl(1) this] show ?thesis by simp
qed

text \<open>Clearing the context resets a fixed list of variables. A claim with any other name stays, and the next token of the
  session that does not have it leaves it in place.\<close>

theorem cleared_context_keeps_claim:
  assumes "jw_claims jwt = Some cl" "key_values (cl_raw_payload cl) = xs @ (k, JString v) # ys" "k \<notin> fst ` set ys" "v \<noteq> []"
    and "k \<notin> set cleared_claims"
    and "jw_claims jwt' = Some cl'" "k \<notin> fst ` set (key_values (cl_raw_payload cl'))"
  shows "orochi_jwt_get_session_claim
           (orochi_jwt_set_session_context env jwt' (orochi_jwt_clear_auth_context (orochi_jwt_set_session_context env jwt s))) k = Some v"
proof -
  let ?s = "orochi_jwt_set_session_context env jwt s"
  have "?s (claim_setting k) = Some v"
    using assms(1-3) fold_claims_other [of k ys]
    by (simp add: orochi_jwt_set_session_context_def) (simp add: set_claim_variable_def set_session_variable_def)
  moreover have "orochi_jwt_clear_auth_context t (claim_setting k) = t (claim_setting k)" for t
    using assms(5) by (simp add: orochi_jwt_clear_auth_context_def orochi_jwt_clear_session_context_def cleared_claims_def
        set_session_variable_def claim_setting_def)
  moreover have "orochi_jwt_set_session_context env jwt' t (claim_setting k) = t (claim_setting k)" for t
    using assms(5-7) by (simp add: orochi_jwt_set_session_context_def fold_claims_other)
      (simp add: set_custom_variables_def set_standard_variables_def cleared_claims_def set_session_variable_def claim_setting_def Let_def split: option.splits)
  ultimately show ?thesis using assms(4) by (simp add: orochi_jwt_get_session_claim_def)
qed

definition plain_jwt :: OrochiJwt where
  "plain_jwt = (case parse_parts (sample_env\<lparr>jsonb_in := (\<lambda>t. Some (JObject []))\<rparr>) new_jwt of Inr j \<Rightarrow> j | Inl e \<Rightarrow> new_jwt)"

definition org_jwt :: OrochiJwt where
  "org_jwt = (case parse_parts (sample_env\<lparr>jsonb_in := (\<lambda>t. Some (JObject [(''org'', JString ''acme'')]))\<rparr>) new_jwt of Inr j \<Rightarrow> j | Inl e \<Rightarrow> new_jwt)"

lemma plain_org_claims:
  "\<exists>cl. jw_claims plain_jwt = Some cl \<and> cl_raw_payload cl = JObject []"
  "\<exists>cl. jw_claims org_jwt = Some cl \<and> cl_raw_payload cl = JObject [(''org'', JString ''acme'')]"
  by (simp_all add: plain_jwt_def org_jwt_def parse_parts_def new_jwt_def orochi_base64url_decode_def orochi_jwt_parse_header_def
      orochi_jwt_parse_claims_def time_claim_def extract_jsonb_int64_def extract_jsonb_string_def)

theorem cleared_context_keeps_claim_witness:
  "orochi_jwt_get_session_claim (orochi_jwt_set_session_context sample_env plain_jwt
     (orochi_jwt_clear_auth_context (orochi_jwt_set_session_context sample_env org_jwt (\<lambda>n. None)))) ''org'' = Some ''acme''"
proof -
  obtain cl cl' where cl: "jw_claims org_jwt = Some cl" "cl_raw_payload cl = JObject [(''org'', JString ''acme'')]"
      "jw_claims plain_jwt = Some cl'" "cl_raw_payload cl' = JObject []"
    using plain_org_claims by blast
  show ?thesis
    by (rule cleared_context_keeps_claim [of org_jwt cl "[]" "''org''" "''acme''" "[]" plain_jwt cl'])
      (simp_all add: cl cleared_claims_def)
qed

end
