(* ===== verification/Auth_Token.thy ===== *)
theory Auth_Token
  imports Auth_Jwt
begin

text \<open>
  Validation of tokens and API keys (\<^verbatim>\<open>auth/auth.c\<close>) over the caches of \<^verbatim>\<open>Auth_Cache\<close>: the fast path through the token
  cache, the full check of a JWT against the signing key of a tenant, sessions and the session context.

  SHA-256 is the parameter \<open>sha\<close>; the parser of JSON and OpenSSL are those of \<^verbatim>\<open>jwt_env\<close>. The decoder of \<^verbatim>\<open>auth.c\<close> does not end
  its output with a NUL, so the parser of the header reads on into memory that was never written: the parameter \<open>junk\<close>
  is the text it finds there.
\<close>

abbreviation (input) OROCHI_AUTH_JWT_MAX_SIZE :: nat where "OROCHI_AUTH_JWT_MAX_SIZE \<equiv> 8192"
abbreviation (input) OROCHI_AUTH_ROLE_NAME_SIZE :: nat where "OROCHI_AUTH_ROLE_NAME_SIZE \<equiv> 64"
abbreviation (input) OROCHI_AUTH_MAX_ROLES :: nat where "OROCHI_AUTH_MAX_ROLES \<equiv> 32"
abbreviation (input) OROCHI_AUTH_API_KEY_PREFIX_SIZE :: nat where "OROCHI_AUTH_API_KEY_PREFIX_SIZE \<equiv> 8"

record OrochiApiKeyInfo =
  ak_key_id :: int
  ak_prefix :: string
  ak_name :: string
  ak_user_id :: string
  ak_tenant_id :: string
  ak_created_at :: int
  ak_last_used_at :: int
  ak_expires_at :: int
  ak_is_revoked :: bool
  ak_has_last_used :: bool
  ak_has_expires :: bool

definition zero_validation :: OrochiTokenValidation where
  "zero_validation = \<lparr>tv_is_valid = False, tv_error_code = [], tv_error_message = [], tv_user_id = [], tv_tenant_id = [], tv_session_id = [],
     tv_token_type = OROCHI_TOKEN_ACCESS, tv_scopes = 0, tv_issued_at = 0, tv_expires_at = 0, tv_is_expired = False, tv_is_revoked = False,
     tv_roles = []\<rparr>"

definition rejected :: "OrochiTokenValidation \<Rightarrow> string \<Rightarrow> string \<Rightarrow> OrochiTokenValidation" where
  "rejected v code msg = v\<lparr>tv_is_valid := False, tv_error_code := code, tv_error_message := msg\<rparr>"

section \<open>Hashing and the fast path\<close>

definition hex_char :: "nat \<Rightarrow> char" where
  "hex_char n = (if n < 10 then char_of (48 + n) else char_of (87 + n))"

definition orochi_auth_hash_token :: "(string \<Rightarrow> bytes) \<Rightarrow> string \<Rightarrow> string" where
  "orochi_auth_hash_token sha token =
     take OROCHI_AUTH_TOKEN_HASH_SIZE (concat (map (\<lambda>b. [hex_char (unat b div 16), hex_char (unat b mod 16)]) (sha token)))"

text \<open>\<open>None\<close>: the token is not in the cache.\<close>

definition orochi_auth_validate_token_fast ::
  "(string \<Rightarrow> bytes) \<Rightarrow> int \<Rightarrow> string \<Rightarrow> OrochiTokenValidation \<Rightarrow> OrochiAuthCache \<Rightarrow> (OrochiTokenValidation \<times> OrochiAuthCache) option" where
  "orochi_auth_validate_token_fast sha now token result c =
     (if \<not> ac_is_initialized c then None
      else case orochi_auth_cache_lookup c (orochi_auth_hash_token sha token) of
        None \<Rightarrow> None
      | Some i \<Rightarrow>
          (let e = ac_token_cache c ! i in
           if tk_expires_at e < now
           then Some ((rejected result ''TOKEN_EXPIRED'' ''Token has expired'')\<lparr>tv_is_expired := True\<rparr>, c)
           else if tk_is_revoked e
           then Some ((rejected result ''TOKEN_REVOKED'' ''Token has been revoked'')\<lparr>tv_is_revoked := True\<rparr>, c)
           else Some (result\<lparr>tv_is_valid := True, tv_user_id := tk_user_id e, tv_tenant_id := tk_tenant_id e, tv_session_id := tk_session_id e,
                        tv_scopes := tk_scopes e, tv_expires_at := tk_expires_at e\<rparr>,
                      c\<lparr>ac_cache_hits := ac_cache_hits c + 1\<rparr>)))"

section \<open>Claims\<close>

definition clipped_claim :: "jwt_env \<Rightarrow> nat \<Rightarrow> jsonb \<Rightarrow> string \<Rightarrow> string option" where
  "clipped_claim env n j key = map_option (take n) (extract_jsonb_string env j key)"

text \<open>Roles: a string claim \<open>role\<close>, then the strings of an array \<open>roles\<close>, at most 32.\<close>

fun string_elements :: "jsonb list \<Rightarrow> string list" where
  "string_elements [] = []"
| "string_elements (JString s # js) = s # string_elements js"
| "string_elements (_ # js) = string_elements js"

definition claim_roles :: "jwt_env \<Rightarrow> jsonb \<Rightarrow> string list" where
  "claim_roles env j =
     (let first = (case clipped_claim env OROCHI_AUTH_ROLE_NAME_SIZE j ''role'' of None \<Rightarrow> [] | Some r \<Rightarrow> [r]);
          more = (case json_get env j ''roles'' of Some (JArray js) \<Rightarrow> map (take OROCHI_AUTH_ROLE_NAME_SIZE) (string_elements js) | _ \<Rightarrow> []) in
      take OROCHI_AUTH_MAX_ROLES (first @ more))"

definition claim_text :: "jwt_env \<Rightarrow> nat \<Rightarrow> jsonb \<Rightarrow> string \<Rightarrow> string" where
  "claim_text env n j key = (case clipped_claim env n j key of Some s \<Rightarrow> s | None \<Rightarrow> [])"

text \<open>The tenant may stand in \<open>app_metadata\<close>, and \<open>email\<close> names the user if \<open>sub\<close> is missing.\<close>

definition claim_tenant :: "jwt_env \<Rightarrow> jsonb \<Rightarrow> string" where
  "claim_tenant env j =
     (let tenant = claim_text env OROCHI_AUTH_TENANT_ID_SIZE j ''tenant_id'' in
      if tenant = []
      then (case extract_jsonb_object env j ''app_metadata'' of Some m \<Rightarrow> claim_text env OROCHI_AUTH_TENANT_ID_SIZE m ''tenant_id'' | None \<Rightarrow> [])
      else tenant)"

definition claim_user :: "jwt_env \<Rightarrow> jsonb \<Rightarrow> string" where
  "claim_user env j =
     (let user = claim_text env OROCHI_AUTH_USER_ID_SIZE j ''sub'' in
      if user = [] then claim_text env OROCHI_AUTH_USER_ID_SIZE j ''email'' else user)"

definition claims_into :: "jwt_env \<Rightarrow> auth_gucs \<Rightarrow> int \<Rightarrow> jsonb \<Rightarrow> OrochiTokenValidation \<Rightarrow> string + OrochiTokenValidation" where
  "claims_into env g now j v =
     (case (extract_jsonb_int64 env j ''exp'', extract_jsonb_int64 env j ''scopes'') of
        (Inr (exp_unix, has_exp), Inr (scopes, _)) \<Rightarrow>
          Inr (v\<lparr>tv_user_id := claim_user env j, tv_tenant_id := claim_tenant env j,
                  tv_session_id := claim_text env OROCHI_AUTH_SESSION_ID_SIZE j ''session_id'', tv_scopes := scopes,
                  tv_expires_at := (if has_exp then orochi_unix_to_timestamptz exp_unix
                                    else now + orochi_auth_access_token_ttl g * USECS_PER_SEC),
                  tv_roles := claim_roles env j, tv_is_expired := False, tv_is_revoked := False\<rparr>)
      | _ \<Rightarrow> Inl ''bigint out of range'')"

text \<open>The flag tells whether the claims could be read.\<close>

definition orochi_auth_parse_jwt_claims ::
  "jwt_env \<Rightarrow> auth_gucs \<Rightarrow> int \<Rightarrow> string \<Rightarrow> OrochiTokenValidation \<Rightarrow> string + bool \<times> OrochiTokenValidation" where
  "orochi_auth_parse_jwt_claims env g now token v =
     (case split_dot token of
        (h, None) \<Rightarrow> Inr (False, v\<lparr>tv_error_code := ''INVALID_FORMAT'', tv_error_message := ''Invalid JWT format: missing first separator''\<rparr>)
      | (h, Some rest) \<Rightarrow>
          (case split_dot rest of
             (p, None) \<Rightarrow> Inr (False, v\<lparr>tv_error_code := ''INVALID_FORMAT'', tv_error_message := ''Invalid JWT format: missing second separator''\<rparr>)
           | (p, Some s) \<Rightarrow>
               if p = [] \<or> length p > OROCHI_AUTH_JWT_MAX_SIZE
               then Inr (False, v\<lparr>tv_error_code := ''INVALID_PAYLOAD'', tv_error_message := ''Invalid JWT payload size''\<rparr>)
               else case orochi_base64url_decode p of
                 None \<Rightarrow> Inr (False, v\<lparr>tv_error_code := ''DECODE_ERROR'', tv_error_message := ''Failed to base64url decode JWT payload''\<rparr>)
               | Some bs \<Rightarrow>
                   if bs = [] then Inr (False, v\<lparr>tv_error_code := ''DECODE_ERROR'', tv_error_message := ''Failed to base64url decode JWT payload''\<rparr>)
                   else case jsonb_in env (c_string bs) of
                     None \<Rightarrow> Inr (False, v\<lparr>tv_error_code := ''JSON_PARSE_ERROR'', tv_error_message := ''Failed to parse JWT payload as JSON''\<rparr>)
                   | Some j \<Rightarrow> map_sum id (Pair True) (claims_into env g now j v)))"

section \<open>Signatures\<close>

text \<open>The loop is that of \<^verbatim>\<open>orochi_base64url_decode\<close>; the output is not ended by a NUL.\<close>

definition auth_base64url_decode_internal :: "string \<Rightarrow> bytes option" where
  "auth_base64url_decode_internal input = (if input = [] then Some [] else base64url_decode_loop 0 0 input)"

fun get_evp_md_for_algorithm :: "OrochiJwtAlgorithm \<Rightarrow> evp_md option" where
  "get_evp_md_for_algorithm OROCHI_JWT_HS256 = Some EVP_sha256"
| "get_evp_md_for_algorithm OROCHI_JWT_RS256 = Some EVP_sha256"
| "get_evp_md_for_algorithm OROCHI_JWT_ES256 = Some EVP_sha256"
| "get_evp_md_for_algorithm OROCHI_JWT_HS384 = Some EVP_sha384"
| "get_evp_md_for_algorithm OROCHI_JWT_RS384 = Some EVP_sha384"
| "get_evp_md_for_algorithm OROCHI_JWT_ES384 = Some EVP_sha384"
| "get_evp_md_for_algorithm OROCHI_JWT_HS512 = Some EVP_sha512"
| "get_evp_md_for_algorithm OROCHI_JWT_RS512 = Some EVP_sha512"
| "get_evp_md_for_algorithm OROCHI_JWT_ES512 = Some EVP_sha512"
| "get_evp_md_for_algorithm OROCHI_JWT_ALG_NONE = None"

definition verify_hmac_signature_internal :: "jwt_env \<Rightarrow> string \<Rightarrow> bytes \<Rightarrow> string \<Rightarrow> OrochiJwtAlgorithm \<Rightarrow> bool" where
  "verify_hmac_signature_internal env data signature secret alg =
     (case get_evp_md_for_algorithm alg of
        None \<Rightarrow> False
      | Some md \<Rightarrow> (case hmac env md secret data of None \<Rightarrow> False | Some h \<Rightarrow> length signature = length h \<and> h = signature))"

definition verify_rsa_signature_internal :: "jwt_env \<Rightarrow> string \<Rightarrow> bytes \<Rightarrow> string \<Rightarrow> OrochiJwtAlgorithm \<Rightarrow> bool" where
  "verify_rsa_signature_internal env data signature public_key_pem alg =
     (if public_key_pem = [] then False
      else case get_evp_md_for_algorithm alg of None \<Rightarrow> False | Some md \<Rightarrow> rsa_verify env md public_key_pem data signature)"

text \<open>\<^verbatim>\<open>convert_ecdsa_jwt_sig_to_der\<close>: the two halves, if the length fits the curve.\<close>

definition convert_ecdsa_jwt_sig_to_der :: "bytes \<Rightarrow> OrochiJwtAlgorithm \<Rightarrow> (bytes \<times> bytes) option" where
  "convert_ecdsa_jwt_sig_to_der jwt_sig alg =
     (case coord_size alg of
        None \<Rightarrow> None
      | Some n \<Rightarrow> if length jwt_sig = n * 2 then Some (take n jwt_sig, drop n jwt_sig) else None)"

definition verify_ecdsa_signature_internal :: "jwt_env \<Rightarrow> string \<Rightarrow> bytes \<Rightarrow> string \<Rightarrow> OrochiJwtAlgorithm \<Rightarrow> bool" where
  "verify_ecdsa_signature_internal env data signature public_key_pem alg =
     (if public_key_pem = [] then False
      else case (get_evp_md_for_algorithm alg, convert_ecdsa_jwt_sig_to_der signature alg) of
        (Some md, Some (r, s)) \<Rightarrow> ecdsa_verify env md public_key_pem data r s
      | _ \<Rightarrow> False)"

definition orochi_auth_algorithm_from_string :: "string option \<Rightarrow> OrochiJwtAlgorithm" where
  "orochi_auth_algorithm_from_string alg =
     (case alg of
        None \<Rightarrow> OROCHI_JWT_RS256
      | Some s \<Rightarrow>
          (case orochi_jwt_algorithm_from_string (Some s) of OROCHI_JWT_ALG_NONE \<Rightarrow> OROCHI_JWT_RS256 | a \<Rightarrow> a))"

definition orochi_auth_algorithm_to_string :: "OrochiJwtAlgorithm \<Rightarrow> string" where
  "orochi_auth_algorithm_to_string alg =
     (if alg = OROCHI_JWT_ALG_NONE then ''RS256'' else orochi_jwt_algorithm_to_string alg)"

definition orochi_auth_check_algorithm :: "string option \<Rightarrow> bool" where
  "orochi_auth_check_algorithm newval =
     (case newval of
        None \<Rightarrow> True
      | Some s \<Rightarrow> s = [] \<or> s \<in> {''HS256'', ''HS384'', ''HS512'', ''RS256'', ''RS384'', ''RS512'', ''ES256'', ''ES384'', ''ES512''})"

definition parse_jwt_header_algorithm :: "jwt_env \<Rightarrow> string \<Rightarrow> string \<Rightarrow> OrochiJwtAlgorithm" where
  "parse_jwt_header_algorithm env junk token =
     (case split_dot token of
        (h, None) \<Rightarrow> OROCHI_JWT_RS256
      | (h, Some rest) \<Rightarrow>
          (case auth_base64url_decode_internal h of
             None \<Rightarrow> OROCHI_JWT_RS256
           | Some bs \<Rightarrow>
               (let text = (if 0 \<in> set bs then c_string bs else c_string bs @ junk) in
                case jsonb_in env text of
                  None \<Rightarrow> OROCHI_JWT_RS256
                | Some j \<Rightarrow> orochi_auth_algorithm_from_string (extract_jsonb_string env j ''alg''))))"

definition orochi_auth_verify_jwt_signature :: "jwt_env \<Rightarrow> string \<Rightarrow> string \<Rightarrow> OrochiSigningKey \<Rightarrow> bool" where
  "orochi_auth_verify_jwt_signature env junk token key =
     (case split_dot token of
        (h, None) \<Rightarrow> False
      | (h, Some rest) \<Rightarrow>
          (case split_dot rest of
             (p, None) \<Rightarrow> False
           | (p, Some s) \<Rightarrow>
               if parse_jwt_header_algorithm env junk token \<noteq> sk_algorithm key then False
               else case auth_base64url_decode_internal s of
                 None \<Rightarrow> False
               | Some sig \<Rightarrow>
                   (let alg = sk_algorithm key; data = h @ ''.'' @ p in
                    if alg \<in> {OROCHI_JWT_HS256, OROCHI_JWT_HS384, OROCHI_JWT_HS512}
                    then sk_public_key key \<noteq> [] \<and> verify_hmac_signature_internal env data sig (sk_public_key key) alg
                    else if alg \<in> {OROCHI_JWT_RS256, OROCHI_JWT_RS384, OROCHI_JWT_RS512}
                    then verify_rsa_signature_internal env data sig (sk_public_key key) alg
                    else if alg \<in> {OROCHI_JWT_ES256, OROCHI_JWT_ES384, OROCHI_JWT_ES512}
                    then verify_ecdsa_signature_internal env data sig (sk_public_key key) alg
                    else False)))"

section \<open>Validation\<close>

definition orochi_auth_validate_jwt_full ::
  "jwt_env \<Rightarrow> string \<Rightarrow> auth_gucs \<Rightarrow> int \<Rightarrow> string \<Rightarrow> string option \<Rightarrow> OrochiAuthCache \<Rightarrow> string + OrochiTokenValidation \<times> OrochiAuthCache" where
  "orochi_auth_validate_jwt_full env junk g now token tenant_id c =
     (case orochi_auth_parse_jwt_claims env g now token zero_validation of
        Inl e \<Rightarrow> Inl e
      | Inr (False, v) \<Rightarrow>
          Inr (if tv_error_code v = [] then rejected v ''INVALID_TOKEN'' ''Failed to parse token claims'' else v\<lparr>tv_is_valid := False\<rparr>, c)
      | Inr (True, v) \<Rightarrow>
          (case orochi_auth_get_signing_key c tenant_id of
             None \<Rightarrow> Inr (rejected v ''NO_SIGNING_KEY'' ''No signing key found for tenant'', c)
           | Some key \<Rightarrow>
               if \<not> orochi_auth_verify_jwt_signature env junk token key
               then Inr (rejected v ''INVALID_SIGNATURE'' ''Token signature verification failed'',
                         c\<lparr>ac_failed_authentications := ac_failed_authentications c + 1\<rparr>)
               else if tv_expires_at v < now - orochi_auth_jwt_leeway g * USECS_PER_SEC
               then Inr ((rejected v ''TOKEN_EXPIRED'' ''Token has expired'')\<lparr>tv_is_expired := True\<rparr>, c)
               else Inr (v\<lparr>tv_is_valid := True\<rparr>, c\<lparr>ac_total_auth_requests := ac_total_auth_requests c + 1\<rparr>)))"

definition orochi_auth_validate_token ::
  "jwt_env \<Rightarrow> string \<Rightarrow> auth_gucs \<Rightarrow> (string \<Rightarrow> bytes) \<Rightarrow> int \<Rightarrow> string option \<Rightarrow> string option \<Rightarrow> OrochiAuthCache \<Rightarrow>
   string + OrochiTokenValidation \<times> OrochiAuthCache" where
  "orochi_auth_validate_token env junk g sha now token tenant_id c =
     (if \<not> orochi_auth_enabled g then Inr (rejected zero_validation ''AUTH_DISABLED'' ''Authentication is disabled'', c)
      else case token of
        None \<Rightarrow> Inr (rejected zero_validation ''MISSING_TOKEN'' ''No token provided'', c)
      | Some t \<Rightarrow>
          if t = [] then Inr (rejected zero_validation ''MISSING_TOKEN'' ''No token provided'', c)
          else case orochi_auth_validate_token_fast sha now t zero_validation c of
            Some r \<Rightarrow> Inr r
          | None \<Rightarrow>
              (case orochi_auth_validate_jwt_full env junk g now t tenant_id (c\<lparr>ac_cache_misses := ac_cache_misses c + 1\<rparr>) of
                 Inl e \<Rightarrow> Inl e
               | Inr (v, c1) \<Rightarrow>
                   Inr (v, if tv_is_valid v then orochi_auth_cache_token now v (orochi_auth_hash_token sha t) c1 else c1)))"

text \<open>The row of an API key comes from the parameter \<open>lookup\<close>; recording its use is left out.\<close>

definition orochi_auth_validate_api_key ::
  "auth_gucs \<Rightarrow> (string \<Rightarrow> bytes) \<Rightarrow> (string \<Rightarrow> OrochiApiKeyInfo option) \<Rightarrow> int \<Rightarrow> string option \<Rightarrow> OrochiAuthCache \<Rightarrow>
   OrochiTokenValidation \<times> OrochiAuthCache" where
  "orochi_auth_validate_api_key g sha lookup now api_key c =
     (if \<not> orochi_auth_enabled g then (rejected zero_validation ''AUTH_DISABLED'' ''Authentication is disabled'', c)
      else case api_key of
        None \<Rightarrow> (rejected zero_validation ''INVALID_API_KEY'' ''Invalid API key format'', c)
      | Some k \<Rightarrow>
          if length k < OROCHI_AUTH_API_KEY_PREFIX_SIZE + 1 then (rejected zero_validation ''INVALID_API_KEY'' ''Invalid API key format'', c)
          else case lookup (orochi_auth_hash_token sha k) of
            None \<Rightarrow> (rejected zero_validation ''API_KEY_NOT_FOUND'' ''API key not found'', c)
          | Some i \<Rightarrow>
              if ak_is_revoked i then (rejected zero_validation ''API_KEY_REVOKED'' ''API key has been revoked'', c)
              else if ak_has_expires i \<and> ak_expires_at i < now then (rejected zero_validation ''API_KEY_EXPIRED'' ''API key has expired'', c)
              else (zero_validation\<lparr>tv_is_valid := True, tv_token_type := OROCHI_TOKEN_API_KEY, tv_user_id := ak_user_id i,
                      tv_tenant_id := ak_tenant_id i, tv_issued_at := ak_created_at i,
                      tv_expires_at := (if ak_has_expires i then ak_expires_at i else 0)\<rparr>,
                    c\<lparr>ac_total_auth_requests := ac_total_auth_requests c + 1\<rparr>))"

section \<open>Sessions and the session context\<close>

text \<open>The id of the session comes from the random source: the argument \<open>sid\<close>.\<close>

definition orochi_auth_create_session ::
  "auth_gucs \<Rightarrow> int \<Rightarrow> string \<Rightarrow> string option \<Rightarrow> string option \<Rightarrow> OrochiAuthMethod \<Rightarrow> string option \<Rightarrow> string option \<Rightarrow> OrochiAuthCache \<Rightarrow>
   OrochiSession \<times> OrochiAuthCache" where
  "orochi_auth_create_session g now sid user_id tenant_id auth_method ip user_agent c =
     (let opt = (\<lambda>n x. case x of Some s \<Rightarrow> take n s | None \<Rightarrow> []);
          s = zero_auth_session\<lparr>se_session_id := sid, se_user_id := opt OROCHI_AUTH_USER_ID_SIZE user_id,
                se_tenant_id := opt OROCHI_AUTH_TENANT_ID_SIZE tenant_id, se_state := OROCHI_SESSION_ACTIVE, se_auth_method := auth_method,
                se_ip_address := opt 64 ip, se_user_agent := opt 512 user_agent, se_created_at := now, se_last_activity := now,
                se_expires_at := now + orochi_auth_session_ttl g * USECS_PER_SEC, se_aal := ''aal1''\<rparr>;
          c1 = orochi_auth_cache_session (Some s) c in
      (s, c1\<lparr>ac_sessions_created := ac_sessions_created c1 + 1\<rparr>))"

definition orochi_auth_get_session :: "OrochiAuthCache \<Rightarrow> string \<Rightarrow> OrochiSession option" where
  "orochi_auth_get_session c session_id = map_option (\<lambda>i. ac_session_cache c ! i) (orochi_auth_session_cache_lookup c session_id)"

definition orochi_auth_touch_session :: "int \<Rightarrow> string \<Rightarrow> OrochiAuthCache \<Rightarrow> OrochiAuthCache" where
  "orochi_auth_touch_session now session_id c =
     (case orochi_auth_session_cache_lookup c session_id of
        None \<Rightarrow> c
      | Some i \<Rightarrow>
          (let s = ac_session_cache c ! i in
           c\<lparr>ac_session_cache := (ac_session_cache c)[i := s\<lparr>se_last_activity := now,
               se_state := (if se_state s = OROCHI_SESSION_IDLE then OROCHI_SESSION_ACTIVE else se_state s)\<rparr>]\<rparr>))"

definition orochi_auth_revoke_session :: "string \<Rightarrow> OrochiAuthCache \<Rightarrow> OrochiAuthCache" where
  "orochi_auth_revoke_session session_id c =
     (case orochi_auth_session_cache_lookup c session_id of
        None \<Rightarrow> c
      | Some i \<Rightarrow> c\<lparr>ac_session_cache := (ac_session_cache c)[i := (ac_session_cache c ! i)\<lparr>se_state := OROCHI_SESSION_REVOKED\<rparr>]\<rparr>)"

definition orochi_auth_set_session_context :: "OrochiTokenValidation \<Rightarrow> settings \<Rightarrow> settings" where
  "orochi_auth_set_session_context auth s =
     (if \<not> tv_is_valid auth then s
      else s(''orochi.auth_user_id'' \<mapsto> tv_user_id auth, ''orochi.auth_tenant_id'' \<mapsto> tv_tenant_id auth,
             ''orochi.auth_session_id'' \<mapsto> tv_session_id auth,
             ''orochi.auth_role'' \<mapsto> (case tv_roles auth of r # _ \<Rightarrow> r | [] \<Rightarrow> ''authenticated'')))"

definition orochi_auth_clear_session_context :: "settings \<Rightarrow> settings" where
  "orochi_auth_clear_session_context s =
     s(''orochi.auth_user_id'' \<mapsto> [], ''orochi.auth_tenant_id'' \<mapsto> [], ''orochi.auth_session_id'' \<mapsto> [], ''orochi.auth_role'' \<mapsto> ''anon'')"

definition current_setting :: "settings \<Rightarrow> string \<Rightarrow> string option" where
  "current_setting s name = (case s name of None \<Rightarrow> None | Some v \<Rightarrow> if v = [] then None else Some v)"

definition orochi_auth_get_current_user_id :: "settings \<Rightarrow> string option" where
  "orochi_auth_get_current_user_id s = current_setting s ''orochi.auth_user_id''"

definition orochi_auth_get_current_tenant_id :: "settings \<Rightarrow> string option" where
  "orochi_auth_get_current_tenant_id s = current_setting s ''orochi.auth_tenant_id''"

definition orochi_auth_get_current_role :: "settings \<Rightarrow> string" where
  "orochi_auth_get_current_role s = (case current_setting s ''orochi.auth_role'' of None \<Rightarrow> ''anon'' | Some r \<Rightarrow> r)"

fun orochi_auth_session_state_name :: "OrochiSessionState \<Rightarrow> string" where
  "orochi_auth_session_state_name OROCHI_SESSION_ACTIVE = ''active''"
| "orochi_auth_session_state_name OROCHI_SESSION_IDLE = ''idle''"
| "orochi_auth_session_state_name OROCHI_SESSION_EXPIRED = ''expired''"
| "orochi_auth_session_state_name OROCHI_SESSION_REVOKED = ''revoked''"
| "orochi_auth_session_state_name OROCHI_SESSION_MFA_REQUIRED = ''mfa_required''"

fun orochi_auth_method_name :: "OrochiAuthMethod \<Rightarrow> string" where
  "orochi_auth_method_name OROCHI_AUTH_NONE = ''none''"
| "orochi_auth_method_name OROCHI_AUTH_PASSWORD = ''password''"
| "orochi_auth_method_name OROCHI_AUTH_API_KEY = ''api_key''"
| "orochi_auth_method_name OROCHI_AUTH_JWT = ''jwt''"
| "orochi_auth_method_name OROCHI_AUTH_OAUTH = ''oauth''"
| "orochi_auth_method_name OROCHI_AUTH_MAGIC_LINK = ''magic_link''"
| "orochi_auth_method_name OROCHI_AUTH_PHONE_OTP = ''phone_otp''"
| "orochi_auth_method_name OROCHI_AUTH_SAML = ''saml''"
| "orochi_auth_method_name OROCHI_AUTH_CERTIFICATE = ''certificate''"
| "orochi_auth_method_name OROCHI_AUTH_CONNECTION_STRING = ''connection_string''"

section \<open>The token cache and validation\<close>

lemma token_home_less: "orochi_auth_cache_hash_slot k < 10000"
  by (simp add: orochi_auth_cache_hash_slot_def)

interpretation tokens: probe_table 10000 16 orochi_auth_cache_hash_slot "\<lambda>e. tk_token_hash e = []"
  "\<lambda>k e. tk_token_hash e = k \<and> tk_token_hash e \<noteq> []"
  by unfold_locales (auto simp: token_home_less)

lemma token_lookup_probe:
  "ac_is_initialized c \<Longrightarrow> orochi_auth_cache_lookup c k = tokens.lookup (ac_token_cache c) k"
  unfolding orochi_auth_cache_lookup_def by (simp, rule probe_loop_hit_cong) simp

lemma token_lookup_Some: "orochi_auth_cache_lookup c k = Some i \<Longrightarrow> i < 10000"
  by (auto simp: orochi_auth_cache_lookup_def token_home_less dest: probe_loop_less split: if_splits)

lemma hash_token_fits: "take 64 (orochi_auth_hash_token sha t) = orochi_auth_hash_token sha t"
  by (simp add: orochi_auth_hash_token_def)

text \<open>An accepted token has the claims it was read with, cut to the sizes of the cache.\<close>

lemma claim_text_length [simp]: "length (claim_text env n j k) \<le> n"
  by (auto simp: claim_text_def clipped_claim_def split: option.splits)

lemma claim_tenant_length [simp]: "length (claim_tenant env j) \<le> 36"
  by (simp add: claim_tenant_def Let_def split: option.splits)

lemma claim_user_length [simp]: "length (claim_user env j) \<le> 36"
  by (simp add: claim_user_def Let_def)

lemma claims_into_shape:
  assumes "claims_into env g now j zero_validation = Inr v"
  shows "length (tv_user_id v) \<le> 36 \<and> length (tv_tenant_id v) \<le> 36 \<and> length (tv_session_id v) \<le> 32 \<and>
    v = zero_validation\<lparr>tv_user_id := tv_user_id v, tv_tenant_id := tv_tenant_id v, tv_session_id := tv_session_id v,
          tv_scopes := tv_scopes v, tv_expires_at := tv_expires_at v, tv_roles := tv_roles v\<rparr>"
  using assms by (auto simp: claims_into_def zero_validation_def split: sum.splits prod.splits)

lemma map_sum_Pair_Inr: "map_sum id (Pair a) x = Inr (b, y) \<longleftrightarrow> a = b \<and> x = Inr y"
  by (cases x) auto

lemma parse_claims_read:
  "orochi_auth_parse_jwt_claims env g now t v = Inr (True, w) \<Longrightarrow> \<exists>j. claims_into env g now j v = Inr w"
  unfolding orochi_auth_parse_jwt_claims_def
  by (simp only: split: prod.split_asm option.split_asm if_split_asm) (auto simp: map_sum_Pair_Inr)

lemma parse_claims_shape:
  assumes "orochi_auth_parse_jwt_claims env g now t zero_validation = Inr (True, v)"
  shows "length (tv_user_id v) \<le> 36 \<and> length (tv_tenant_id v) \<le> 36 \<and> length (tv_session_id v) \<le> 32 \<and>
    v = zero_validation\<lparr>tv_user_id := tv_user_id v, tv_tenant_id := tv_tenant_id v, tv_session_id := tv_session_id v,
          tv_scopes := tv_scopes v, tv_expires_at := tv_expires_at v, tv_roles := tv_roles v\<rparr>"
  using parse_claims_read [OF assms] claims_into_shape by blast

lemma full_validation_shape:
  assumes "orochi_auth_validate_jwt_full env junk g now t ten c = Inr (v, c')" "tv_is_valid v"
  shows "length (tv_user_id v) \<le> 36 \<and> length (tv_tenant_id v) \<le> 36 \<and> length (tv_session_id v) \<le> 32 \<and>
    v = zero_validation\<lparr>tv_is_valid := True, tv_user_id := tv_user_id v, tv_tenant_id := tv_tenant_id v, tv_session_id := tv_session_id v,
          tv_scopes := tv_scopes v, tv_expires_at := tv_expires_at v, tv_roles := tv_roles v\<rparr> \<and>
    c' = c\<lparr>ac_total_auth_requests := ac_total_auth_requests c + 1\<rparr>"
proof -
  obtain w where w: "orochi_auth_parse_jwt_claims env g now t zero_validation = Inr (True, w)" "v = w\<lparr>tv_is_valid := True\<rparr>"
      "c' = c\<lparr>ac_total_auth_requests := ac_total_auth_requests c + 1\<rparr>"
    using assms
    by (auto simp: orochi_auth_validate_jwt_full_def rejected_def split: sum.splits prod.splits bool.splits option.splits if_splits)
  have "w = zero_validation\<lparr>tv_user_id := tv_user_id w, tv_tenant_id := tv_tenant_id w, tv_session_id := tv_session_id w,
          tv_scopes := tv_scopes w, tv_expires_at := tv_expires_at w, tv_roles := tv_roles w\<rparr>"
    using parse_claims_shape [OF w(1)] by blast
  then have "v = (zero_validation\<lparr>tv_user_id := tv_user_id w, tv_tenant_id := tv_tenant_id w, tv_session_id := tv_session_id w,
          tv_scopes := tv_scopes w, tv_expires_at := tv_expires_at w, tv_roles := tv_roles w\<rparr>)\<lparr>tv_is_valid := True\<rparr>"
    unfolding w(2) by (rule arg_cong)
  then show ?thesis using parse_claims_shape [OF w(1)] w(2,3) by (simp add: zero_validation_def)
qed

text \<open>C38: A token that passed the full validation for a tenant and got a free slot of the cache is accepted again until it expires,
  with the same user, tenant, session, scopes and expiry, but without its roles; and this holds whatever tenant the
  later call names, whatever signing keys are then in the cache and however the settings of the clock tolerance changed.\<close>

theorem cached_token_is_accepted_for_every_tenant:
  assumes "orochi_auth_validate_token env junk g sha now (Some t) tenant c = Inr (v, c')" "tv_is_valid v"
    and "ac_is_initialized c" "length (ac_token_cache c) = 10000" "orochi_auth_hash_token sha t \<noteq> []"
    and "orochi_auth_cache_lookup c (orochi_auth_hash_token sha t) = None"
    and "probe_loop 10000 (\<lambda>e. False) (token_slot_free now (orochi_auth_hash_token sha t)) (ac_token_cache c)
           (orochi_auth_cache_hash_slot (orochi_auth_hash_token sha t)) 16 = Some i"
    and "now' \<le> tv_expires_at v" "orochi_auth_enabled g'"
  shows "orochi_auth_validate_token env' junk' g' sha now' (Some t) tenant' (c'\<lparr>ac_signing_keys := ks, ac_signing_key_count := n\<rparr>) =
           Inr (v\<lparr>tv_roles := []\<rparr>, c'\<lparr>ac_signing_keys := ks, ac_signing_key_count := n, ac_cache_hits := ac_cache_hits c' + 1\<rparr>)"
proof -
  let ?h = "orochi_auth_hash_token sha t" and ?c0 = "c\<lparr>ac_cache_misses := ac_cache_misses c + 1\<rparr>"
  have t: "t \<noteq> []" "orochi_auth_enabled g"
    using assms(1,2) by (auto simp: orochi_auth_validate_token_def rejected_def split: if_splits)
  obtain c1 where full: "orochi_auth_validate_jwt_full env junk g now t tenant ?c0 = Inr (v, c1)"
      and c': "c' = orochi_auth_cache_token now v ?h c1"
    using assms(1-3,6) t
    by (auto simp: orochi_auth_validate_token_def orochi_auth_validate_token_fast_def split: sum.splits prod.splits if_splits)
  have c1: "c1 = ?c0\<lparr>ac_total_auth_requests := ac_total_auth_requests c + 1\<rparr>"
    using full_validation_shape [OF full assms(2)] by simp
  let ?e = "filled_token now v ?h i"
  have tc: "ac_token_cache c' = (ac_token_cache c)[i := ?e]" and ini: "ac_is_initialized c'"
    using assms(3,7) by (simp_all add: c' c1 orochi_auth_cache_token_def)
  have i: "i < 10000" using probe_loop_less [OF assms(7) token_home_less] .
  have e: "tk_token_hash ?e = ?h" by (simp add: filled_token_def hash_token_fits)
  have "tokens.lookup (ac_token_cache c') ?h = Some i"
    unfolding tc by (rule tokens.lookup_after_store [OF assms(7) _ assms(4)]) (use e assms(5) in \<open>auto simp: token_slot_free_def\<close>)
  then have l: "orochi_auth_cache_lookup (c'\<lparr>ac_signing_keys := ks, ac_signing_key_count := n\<rparr>) ?h = Some i"
    using ini by (simp add: token_lookup_probe)
  have v: "v = zero_validation\<lparr>tv_is_valid := True, tv_user_id := tv_user_id v, tv_tenant_id := tv_tenant_id v,
      tv_session_id := tv_session_id v, tv_scopes := tv_scopes v, tv_expires_at := tv_expires_at v, tv_roles := tv_roles v\<rparr>"
    and len: "length (tv_user_id v) \<le> 36" "length (tv_tenant_id v) \<le> 36" "length (tv_session_id v) \<le> 32"
    using full_validation_shape [OF full assms(2)] by blast+
  have "v\<lparr>tv_roles := []\<rparr> = zero_validation\<lparr>tv_is_valid := True, tv_user_id := tv_user_id v, tv_tenant_id := tv_tenant_id v,
      tv_session_id := tv_session_id v, tv_scopes := tv_scopes v, tv_expires_at := tv_expires_at v\<rparr>"
    by (subst v) (simp add: zero_validation_def)
  with l ini tc i len t(1) assms(4,8,9) show ?thesis
    by (simp add: orochi_auth_validate_token_def orochi_auth_validate_token_fast_def Let_def) (simp add: filled_token_def)
qed

definition two_tenants :: OrochiAuthCache where
  "two_tenants = (orochi_auth_shmem_init 0 None)\<lparr>ac_signing_key_count := 1,
     ac_signing_keys := [empty_signing_key\<lparr>sk_key_id := ''k1'', sk_tenant_id := ''acme'', sk_algorithm := OROCHI_JWT_HS256,
       sk_public_key := ''s'', sk_is_current := True, sk_is_active := True\<rparr>]\<rparr>"

definition acme_env :: jwt_env where
  "acme_env = \<lparr>jsonb_in = (\<lambda>s. Some (JObject [(''alg'', JString ''HS256''), (''sub'', JString ''u1''), (''role'', JString ''admin''),
       (''tenant_id'', JString ''acme'')])), jsonb_out = (\<lambda>j. []), other_lookup = (\<lambda>j key. None), numeric_int8 = (\<lambda>s. None), hmac = (\<lambda>md k d. Some [0]),
     rsa_verify = (\<lambda>md k d s. False), ecdsa_verify = (\<lambda>md k d r s. False)\<rparr>"

definition acme_gucs :: auth_gucs where
  "acme_gucs = \<lparr>orochi_auth_enabled = True, orochi_auth_access_token_ttl = 3600, orochi_auth_session_ttl = 86400,
     orochi_auth_max_sessions_per_user = 5, orochi_auth_rate_limit_enabled = True, orochi_auth_rate_limit_window = 60,
     orochi_auth_jwt_leeway = 0, orochi_auth_key_rotation_days = 90\<rparr>"

lemma table_A: "base64url_decode_table ! 65 = 0"
  by code_simp

lemma decode_AA: "orochi_base64url_decode ''AA'' = Some [0]" "auth_base64url_decode_internal ''AA'' = Some [0]"
  by (simp_all add: orochi_base64url_decode_def auth_base64url_decode_internal_def base64url_decode_loop.simps table_A)

lemma split_AA: "split_dot ''AA.AA.AA'' = (''AA'', Some ''AA.AA'')" "split_dot ''AA.AA'' = (''AA'', Some ''AA'')"
  by (simp_all add: split_dot_def)

lemma acme_claims:
  "orochi_auth_parse_jwt_claims acme_env acme_gucs 5 ''AA.AA.AA'' zero_validation = Inr (True,
     zero_validation\<lparr>tv_user_id := ''u1'', tv_tenant_id := ''acme'', tv_expires_at := 3600000005, tv_roles := [''admin'']\<rparr>)"
  by (simp add: orochi_auth_parse_jwt_claims_def split_AA decode_AA acme_env_def acme_gucs_def claims_into_def extract_jsonb_int64_def
      claim_user_def claim_tenant_def claim_roles_def claim_text_def clipped_claim_def extract_jsonb_string_def zero_validation_def)

lemma acme_key: "orochi_auth_get_signing_key (two_tenants\<lparr>ac_cache_misses := m\<rparr>) (Some ''acme'') = Some (empty_signing_key\<lparr>sk_key_id := ''k1'',
     sk_tenant_id := ''acme'', sk_algorithm := OROCHI_JWT_HS256, sk_public_key := ''s'', sk_is_current := True, sk_is_active := True\<rparr>)"
  by (simp add: two_tenants_def orochi_auth_get_signing_key_def)

lemma acme_signature: "orochi_auth_verify_jwt_signature acme_env [] ''AA.AA.AA'' (empty_signing_key\<lparr>sk_key_id := ''k1'',
     sk_tenant_id := ''acme'', sk_algorithm := OROCHI_JWT_HS256, sk_public_key := ''s'', sk_is_current := True, sk_is_active := True\<rparr>)"
  by (simp add: orochi_auth_verify_jwt_signature_def split_AA decode_AA parse_jwt_header_algorithm_def acme_env_def
      verify_hmac_signature_internal_def orochi_auth_algorithm_from_string_def orochi_jwt_algorithm_from_string_def extract_jsonb_string_def)

lemma two_tenants_fields:
  "ac_is_initialized two_tenants" "length (ac_token_cache two_tenants) = 10000"
  "i < 10000 \<Longrightarrow> ac_token_cache two_tenants ! i = empty_token i" "ac_cache_misses two_tenants = 0"
  by (simp_all add: two_tenants_def orochi_auth_shmem_init_def)

lemma two_tenants_free:
  "orochi_auth_cache_lookup two_tenants h = None"
  "probe_loop 10000 (\<lambda>e. False) (token_slot_free now h) (ac_token_cache two_tenants) (orochi_auth_cache_hash_slot h) 16 =
     Some (orochi_auth_cache_hash_slot h)"
  by (simp_all add: orochi_auth_cache_lookup_def probe_loop_numeral two_tenants_fields token_home_less token_slot_free_def empty_token_def)

lemma acme_accepted:
  "\<exists>c. orochi_auth_validate_token acme_env [] acme_gucs (\<lambda>t. [1]) 5 (Some ''AA.AA.AA'') (Some ''acme'') two_tenants =
     Inr (zero_validation\<lparr>tv_is_valid := True, tv_user_id := ''u1'', tv_tenant_id := ''acme'', tv_expires_at := 3600000005,
       tv_roles := [''admin'']\<rparr>, c)"
  by (simp add: orochi_auth_validate_token_def orochi_auth_validate_token_fast_def two_tenants_free orochi_auth_validate_jwt_full_def
      acme_claims acme_key acme_signature two_tenants_fields)
    (simp add: acme_gucs_def zero_validation_def)

theorem cached_token_is_accepted_for_every_tenant_witness:
  "\<exists>c c'. orochi_auth_validate_token acme_env [] acme_gucs (\<lambda>t. [1]) 6 (Some ''AA.AA.AA'') (Some ''other'') c =
     Inr (zero_validation\<lparr>tv_is_valid := True, tv_user_id := ''u1'', tv_tenant_id := ''acme'', tv_expires_at := 3600000005\<rparr>, c') \<and>
     orochi_auth_get_signing_key c (Some ''other'') = None"
proof -
  obtain c where c: "orochi_auth_validate_token acme_env [] acme_gucs (\<lambda>t. [1]) 5 (Some ''AA.AA.AA'') (Some ''acme'') two_tenants =
     Inr (zero_validation\<lparr>tv_is_valid := True, tv_user_id := ''u1'', tv_tenant_id := ''acme'', tv_expires_at := 3600000005,
       tv_roles := [''admin'']\<rparr>, c)" using acme_accepted by blast
  have h: "orochi_auth_hash_token (\<lambda>t. [1]) ''AA.AA.AA'' \<noteq> []" by (simp add: orochi_auth_hash_token_def)
  have g: "orochi_auth_enabled acme_gucs" by (simp add: acme_gucs_def)
  from cached_token_is_accepted_for_every_tenant [OF c _ two_tenants_fields(1,2) h two_tenants_free _ g,
      where now' = 6 and env' = acme_env and junk' = "[]" and tenant' = "Some ''other''" and ks = "ac_signing_keys two_tenants" and n = 1]
  show ?thesis
    by (intro exI) (rule conjI, simp add: zero_validation_def, simp add: orochi_auth_get_signing_key_def two_tenants_def)
qed

lemma lookup_after_revoking:
  "length (ac_token_cache c) = 10000 \<Longrightarrow>
   orochi_auth_cache_lookup (orochi_auth_cache_invalidate_user (Some u) c) k = orochi_auth_cache_lookup c k"
  unfolding orochi_auth_cache_lookup_def orochi_auth_cache_invalidate_user_def
  by (simp add: update_where_def, intro impI probe_loop_cong) (simp_all add: token_home_less)

lemma token_after_revoking:
  "length (ac_token_cache c) = 10000 \<Longrightarrow> i < 10000 \<Longrightarrow>
   ac_token_cache (orochi_auth_cache_invalidate_user (Some u) c) ! i =
     (if token_of_user u (ac_token_cache c ! i) then (ac_token_cache c ! i)\<lparr>tk_is_revoked := True\<rparr> else ac_token_cache c ! i)"
  by (simp add: orochi_auth_cache_invalidate_user_def update_where_def)

lemma lookup_filled: "orochi_auth_cache_lookup c k = Some i \<Longrightarrow> tk_token_hash (ac_token_cache c ! i) \<noteq> []"
  by (auto simp: orochi_auth_cache_lookup_def dest: probe_loop_hit split: if_splits)

text \<open>C10: Once the tokens of a user are revoked, the cache accepts no token of this user, and a token of another user that it
  accepted before is accepted with the same data.\<close>

theorem user_revocation_is_complete:
  assumes "length (ac_token_cache c) = 10000"
  shows "(\<forall>sha now t v c'. orochi_auth_validate_token_fast sha now t zero_validation (orochi_auth_cache_invalidate_user (Some u) c) = Some (v, c') \<and>
            tv_is_valid v \<longrightarrow> tv_user_id v \<noteq> u) \<and>
         (\<forall>sha now t v c'. orochi_auth_validate_token_fast sha now t zero_validation c = Some (v, c') \<and> tv_is_valid v \<and> tv_user_id v \<noteq> u \<longrightarrow>
            (\<exists>c''. orochi_auth_validate_token_fast sha now t zero_validation (orochi_auth_cache_invalidate_user (Some u) c) = Some (v, c'')))"
    (is "?A \<and> ?B")
proof -
  let ?c = "orochi_auth_cache_invalidate_user (Some u) c"
  have ini: "ac_is_initialized ?c = ac_is_initialized c" by (simp add: orochi_auth_cache_invalidate_user_def)
  have ?A
  proof (intro allI impI)
    fix sha now t v c'
    assume v: "orochi_auth_validate_token_fast sha now t zero_validation ?c = Some (v, c') \<and> tv_is_valid v"
    then obtain i where i: "orochi_auth_cache_lookup c (orochi_auth_hash_token sha t) = Some i"
      by (auto simp: orochi_auth_validate_token_fast_def lookup_after_revoking [OF assms] split: if_splits option.splits)
    with v show "tv_user_id v \<noteq> u"
      using lookup_filled [OF i]
      by (auto simp: orochi_auth_validate_token_fast_def lookup_after_revoking token_after_revoking token_lookup_Some [OF i] assms
          rejected_def zero_validation_def token_of_user_def Let_def split: if_splits)
  qed
  moreover have ?B
  proof (intro allI impI)
    fix sha now t v c'
    assume v: "orochi_auth_validate_token_fast sha now t zero_validation c = Some (v, c') \<and> tv_is_valid v \<and> tv_user_id v \<noteq> u"
    then obtain i where i: "orochi_auth_cache_lookup c (orochi_auth_hash_token sha t) = Some i"
      by (auto simp: orochi_auth_validate_token_fast_def split: if_splits option.splits)
    with v show "\<exists>c''. orochi_auth_validate_token_fast sha now t zero_validation ?c = Some (v, c'')"
      by (auto simp: orochi_auth_validate_token_fast_def lookup_after_revoking token_after_revoking token_lookup_Some [OF i] assms ini
          rejected_def zero_validation_def token_of_user_def Let_def split: if_splits)
  qed
  ultimately show ?thesis ..
qed

theorem user_revocation_is_complete_witness:
  "length (ac_token_cache two_tenants) = 10000 \<and>
   (\<forall>sha now t v c'. orochi_auth_validate_token_fast sha now t zero_validation
       (orochi_auth_cache_invalidate_user (Some ''u1'') (orochi_auth_cache_token 5 (zero_validation\<lparr>tv_user_id := ''u1''\<rparr>) ''01'' two_tenants)) \<noteq>
       Some (v\<lparr>tv_is_valid := True, tv_user_id := ''u1''\<rparr>, c'))"
proof -
  have "length (ac_token_cache (orochi_auth_cache_token 5 (zero_validation\<lparr>tv_user_id := ''u1''\<rparr>) ''01'' two_tenants)) = 10000"
    by (simp add: orochi_auth_cache_token_def two_tenants_fields Let_def split: option.splits)
  from user_revocation_is_complete [OF this, of "''u1''"] show ?thesis by (fastforce simp: two_tenants_fields)
qed

text \<open>Cleaning up empties the slots of expired tokens, and a search stops at an empty slot. A revoked token whose first slot
  held a token that has expired is therefore no longer known to be revoked: the cache answers that it has never seen it,
  and the token goes through the full validation again, which does not look at revocations.\<close>

theorem cleanup_forgets_revocation:
  assumes "ac_is_initialized c" "length (ac_token_cache c) = 10000"
    and "orochi_auth_cache_lookup c (orochi_auth_hash_token sha t) = Some i" "tk_is_revoked (ac_token_cache c ! i)"
    and "now \<le> tk_expires_at (ac_token_cache c ! i)"
    and "token_expired now (ac_token_cache c ! orochi_auth_cache_hash_slot (orochi_auth_hash_token sha t))"
  shows "(\<exists>v. orochi_auth_validate_token_fast sha now t zero_validation c = Some (v, c) \<and> tv_error_code v = ''TOKEN_REVOKED'') \<and>
    orochi_auth_validate_token_fast sha now t zero_validation (orochi_auth_cleanup_expired_tokens now c) = None"
proof -
  let ?h = "orochi_auth_cache_hash_slot (orochi_auth_hash_token sha t)" and ?c = "orochi_auth_cleanup_expired_tokens now c"
  have "tk_token_hash (ac_token_cache ?c ! ?h) = []"
    using assms(2,6) token_home_less by (simp add: orochi_auth_cleanup_expired_tokens_def update_where_def)
  then have "orochi_auth_cache_lookup ?c (orochi_auth_hash_token sha t) = None"
    by (simp add: orochi_auth_cache_lookup_def probe_loop_numeral)
  then show ?thesis
    using assms(1,3-5) by (simp add: orochi_auth_validate_token_fast_def rejected_def Let_def)
qed

definition revoked_behind :: OrochiAuthCache where
  "revoked_behind = two_tenants\<lparr>ac_token_cache :=
     (ac_token_cache two_tenants)[orochi_auth_cache_hash_slot ''01'' := (empty_token 0)\<lparr>tk_token_hash := ''99'', tk_expires_at := 3\<rparr>,
        orochi_auth_cache_hash_slot ''01'' + 1 := (empty_token 0)\<lparr>tk_token_hash := ''01'', tk_expires_at := 9, tk_is_revoked := True\<rparr>]\<rparr>"

lemma slot_01: "orochi_auth_cache_hash_slot ''01'' = 1537"
  by (simp add: orochi_auth_cache_hash_slot_def)

theorem cleanup_forgets_revocation_witness:
  "orochi_auth_validate_token_fast (\<lambda>t. [1]) 5 ''AA.AA.AA'' zero_validation (orochi_auth_cleanup_expired_tokens 5 revoked_behind) = None \<and>
   orochi_auth_validate_token_fast (\<lambda>t. [1]) 5 ''AA.AA.AA'' zero_validation revoked_behind \<noteq> None"
proof -
  have h: "orochi_auth_hash_token (\<lambda>t. [1]) ''AA.AA.AA'' = ''01''" by code_simp
  have c: "ac_is_initialized revoked_behind" "length (ac_token_cache revoked_behind) = 10000"
      "ac_token_cache revoked_behind ! 1538 = (empty_token 0)\<lparr>tk_token_hash := ''01'', tk_expires_at := 9, tk_is_revoked := True\<rparr>"
      "ac_token_cache revoked_behind ! 1537 = (empty_token 0)\<lparr>tk_token_hash := ''99'', tk_expires_at := 3\<rparr>"
    by (simp_all add: revoked_behind_def two_tenants_fields slot_01)
  then have l: "orochi_auth_cache_lookup revoked_behind ''01'' = Some 1538"
    by (simp add: orochi_auth_cache_lookup_def probe_loop_numeral slot_01)
  show ?thesis
    using cleanup_forgets_revocation [OF c(1,2), of "\<lambda>t. [1]" "''AA.AA.AA''" 1538 5] l c(3,4) h
    by (auto simp: slot_01 token_expired_def)
qed

end
