(* ===== verification/Dist_Executor.thy ===== *)
theory Dist_Executor
  imports Shard_Catalog Slots "HOL-Library.Monad_Syntax"
begin

text \<open>
  The distributed executor (\<^verbatim>\<open>executor/distributed_executor.c\<close>), first part: the pool of connections to the workers, remote
  tasks, the slow-start loop and the parallel loop.

  libpq and the workers are the parameter \<open>net\<close> of type \<open>libpq\<close>: one function per call of libpq on a state \<open>'w\<close> of the outside world, which the
  model passes along. A connection is a number. \<^verbatim>\<open>PQconnectdb\<close> gives no number when the status of the new connection is not
  \<^verbatim>\<open>CONNECTION_OK\<close>; the source closes such a connection at once. Log messages, sleeping and the executor hooks, which only
  call the next hook, are left out. \<open>pq_select\<close> is \<^verbatim>\<open>PQsocket\<close> followed by \<^verbatim>\<open>select\<close>; a connection without a socket gives a negative
  number, as a failed \<^verbatim>\<open>select\<close> does, and the source treats both alike.
\<close>

section \<open>Data\<close>

abbreviation (input) MAX_CONNECTION_POOL_SIZE :: nat where "MAX_CONNECTION_POOL_SIZE \<equiv> 64"
abbreviation (input) EXECUTOR_MAX_RETRIES :: int where "EXECUTOR_MAX_RETRIES \<equiv> 3"
abbreviation (input) EXECUTOR_SLOW_START_INTERVAL_MS :: int where "EXECUTOR_SLOW_START_INTERVAL_MS \<equiv> 10"
abbreviation (input) EXECUTOR_MAX_CONNECTIONS :: int where "EXECUTOR_MAX_CONNECTIONS \<equiv> 64"

datatype ExecStatusType = PGRES_COMMAND_OK | PGRES_TUPLES_OK | PGRES_FATAL_ERROR

text \<open>A result of libpq: types and rows of values in text form, \<^const>\<open>None\<close> for NULL.\<close>

record PGresult =
  pr_status :: ExecStatusType
  pr_ftypes :: "nat list"
  pr_rows :: "string option list list"
  pr_cmd_tuples :: string

record 'w libpq =
  pq_status :: "nat \<Rightarrow> 'w \<Rightarrow> bool"
  pq_finish :: "nat \<Rightarrow> 'w \<Rightarrow> 'w"
  pq_connectdb :: "string \<Rightarrow> 'w \<Rightarrow> nat option \<times> 'w"
  pq_exec :: "nat \<Rightarrow> string \<Rightarrow> 'w \<Rightarrow> PGresult \<times> 'w"
  pq_error_message :: "nat \<Rightarrow> 'w \<Rightarrow> string"
  pq_send_query :: "nat \<Rightarrow> string \<Rightarrow> 'w \<Rightarrow> bool \<times> 'w"
  pq_select :: "nat \<Rightarrow> int \<Rightarrow> 'w \<Rightarrow> int \<times> 'w"
  pq_consume_input :: "nat \<Rightarrow> 'w \<Rightarrow> bool \<times> 'w"
  pq_is_busy :: "nat \<Rightarrow> 'w \<Rightarrow> bool"
  pq_get_result :: "nat \<Rightarrow> 'w \<Rightarrow> PGresult option \<times> 'w"
  pq_cancel :: "nat \<Rightarrow> 'w \<Rightarrow> 'w"
  pq_clock :: "'w \<Rightarrow> int"

record FragmentQuery =
  fq_shard_id :: int
  fq_node_id :: int
  fq_query_string :: string

datatype TaskState = TASK_PENDING | TASK_RUNNING | TASK_COMPLETED | TASK_FAILED | TASK_CANCELLED

record RemoteTask =
  rk_fragment :: FragmentQuery
  rk_state :: TaskState
  rk_retry_count :: int
  rk_connection :: "nat option"
  rk_started_at :: int
  rk_completed_at :: int
  rk_result :: "PGresult option"
  rk_error_message :: "string option"
  rk_rows_affected :: int

record DistributedExecutorState =
  de_tasks :: "RemoteTask list"
  de_pending_count :: int
  de_running_count :: int
  de_completed_count :: int
  de_failed_count :: int
  de_max_parallel :: int
  de_all_completed :: bool
  de_has_error :: bool
  de_error_message :: "string option"

record ConnectionPoolEntry =
  ce_node_id :: int
  ce_conn :: "nat option"
  ce_in_use :: bool
  ce_last_used :: int

text \<open>What a backend keeps: the first \<^verbatim>\<open>connection_pool_size\<close> entries of the pool, the catalog, the name of its database, and the world.\<close>

record 'w backend =
  be_pool :: "ConnectionPoolEntry list"
  be_catalog :: catalog
  be_database :: string
  be_world :: 'w

section \<open>Text\<close>

definition decimal_string :: "int \<Rightarrow> string" where
  "decimal_string i = map (\<lambda>b. char_of (unat b)) (decimal_int i)"

text \<open>\<^verbatim>\<open>atol\<close> and \<^verbatim>\<open>atoll\<close>: spaces, a sign, digits, clamped to 64 bits; \<^verbatim>\<open>atoi\<close> keeps the low 32 bits.\<close>

definition char_space :: "char \<Rightarrow> bool" where
  "char_space c = (c = CHR '' '' \<or> (9 \<le> (of_char c :: nat) \<and> (of_char c :: nat) \<le> 13))"

definition char_digit :: "char \<Rightarrow> bool" where
  "char_digit c = (48 \<le> (of_char c :: nat) \<and> (of_char c :: nat) \<le> 57)"

definition leading_number :: "string \<Rightarrow> int" where
  "leading_number s = foldl (\<lambda>n c. 10 * n + (int (of_char c) - 48)) 0 (takeWhile char_digit s)"

definition strtol_value :: "string \<Rightarrow> int" where
  "strtol_value s = (case dropWhile char_space s of
       [] \<Rightarrow> 0
     | c # cs \<Rightarrow> if c = CHR ''-'' then - leading_number cs else if c = CHR ''+'' then leading_number cs else leading_number (c # cs))"

definition c_atol :: "string \<Rightarrow> int" where
  "c_atol s = max (- 9223372036854775808) (min 9223372036854775807 (strtol_value s))"

definition c_atoi :: "string \<Rightarrow> int" where
  "c_atoi s = wrap_i32 (c_atol s)"

text \<open>\<^verbatim>\<open>strstr(s, t) != NULL\<close>.\<close>

fun strstr_found :: "string \<Rightarrow> string \<Rightarrow> bool" where
  "strstr_found [] t = (t = [])"
| "strstr_found (c # s) t = (take (length t) (c # s) = t \<or> strstr_found s t)"

section \<open>The connection pool\<close>

definition build_connection_string :: "OrochiNodeInfo \<Rightarrow> string \<Rightarrow> string" where
  "build_connection_string node database =
     ''host='' @ hostname node @ '' port='' @ decimal_string (n_port node) @ '' dbname='' @ database @ '' connect_timeout='' @ decimal_string 30"

definition conn_alive :: "'w libpq \<Rightarrow> nat option \<Rightarrow> 'w \<Rightarrow> bool" where
  "conn_alive net c w = (case c of None \<Rightarrow> False | Some k \<Rightarrow> pq_status net k w)"

definition finish_conn :: "'w libpq \<Rightarrow> nat option \<Rightarrow> 'w \<Rightarrow> 'w" where
  "finish_conn net c w = (case c of None \<Rightarrow> w | Some k \<Rightarrow> pq_finish net k w)"

text \<open>The search for an idle connection; dead ones on the way are closed and their entries cleared.\<close>

fun pool_scan :: "'w libpq \<Rightarrow> int \<Rightarrow> ConnectionPoolEntry list \<Rightarrow> 'w \<Rightarrow> ConnectionPoolEntry list \<times> nat option \<times> 'w" where
  "pool_scan net node_id [] w = ([], None, w)"
| "pool_scan net node_id (e # es) w =
     (if ce_node_id e = node_id \<and> \<not> ce_in_use e
      then if conn_alive net (ce_conn e) w
           then (e\<lparr>ce_in_use := True, ce_last_used := pq_clock net w\<rparr> # es, ce_conn e, w)
           else (case pool_scan net node_id es (finish_conn net (ce_conn e) w) of
                   (es', r, w') \<Rightarrow> (e\<lparr>ce_conn := None, ce_node_id := 0\<rparr> # es', r, w'))
      else (case pool_scan net node_id es w of (es', r, w') \<Rightarrow> (e # es', r, w')))"

definition orochi_get_worker_connection :: "'w libpq \<Rightarrow> int \<Rightarrow> 'w backend \<Rightarrow> nat option \<times> 'w backend" where
  "orochi_get_worker_connection net node_id b =
     (case pool_scan net node_id (be_pool b) (be_world b) of
        (es, Some c, w) \<Rightarrow> (Some c, b\<lparr>be_pool := es, be_world := w\<rparr>)
      | (es, None, w) \<Rightarrow>
          (case orochi_catalog_get_node (be_catalog b) node_id of
             None \<Rightarrow> (None, b\<lparr>be_pool := es, be_world := w\<rparr>)
           | Some node \<Rightarrow>
               (case pq_connectdb net (build_connection_string node (be_database b)) w of
                  (None, w') \<Rightarrow> (None, b\<lparr>be_pool := es, be_world := w'\<rparr>)
                | (Some c, w') \<Rightarrow>
                    (Some c, b\<lparr>be_pool := (if length es < MAX_CONNECTION_POOL_SIZE
                                           then es @ [\<lparr>ce_node_id = node_id, ce_conn = Some c, ce_in_use = True, ce_last_used = pq_clock net w'\<rparr>]
                                           else es),
                               be_world := w'\<rparr>))))"

definition orochi_release_worker_connection :: "'w libpq \<Rightarrow> nat option \<Rightarrow> 'w backend \<Rightarrow> 'w backend" where
  "orochi_release_worker_connection net conn b =
     (case conn of
        None \<Rightarrow> b
      | Some c \<Rightarrow>
          (case find_index (\<lambda>e. ce_conn e = Some c) (be_pool b) of
             Some i \<Rightarrow> b\<lparr>be_pool := (be_pool b)[i := (be_pool b ! i)\<lparr>ce_in_use := False, ce_last_used := pq_clock net (be_world b)\<rparr>]\<rparr>
           | None \<Rightarrow> b\<lparr>be_world := pq_finish net c (be_world b)\<rparr>))"

definition orochi_close_all_connections :: "'w libpq \<Rightarrow> 'w backend \<Rightarrow> 'w backend" where
  "orochi_close_all_connections net b =
     b\<lparr>be_pool := [], be_world := fold (pq_finish net) (List.map_filter ce_conn (be_pool b)) (be_world b)\<rparr>"

section \<open>Remote tasks\<close>

definition status_ok :: "PGresult \<Rightarrow> bool" where
  "status_ok r = (pr_status r = PGRES_COMMAND_OK \<or> pr_status r = PGRES_TUPLES_OK)"

definition task_done :: "PGresult \<Rightarrow> RemoteTask \<Rightarrow> RemoteTask" where
  "task_done r t = t\<lparr>rk_state := TASK_COMPLETED, rk_result := Some r, rk_rows_affected := c_atol (pr_cmd_tuples r)\<rparr>"

definition task_failed :: "string \<Rightarrow> RemoteTask \<Rightarrow> RemoteTask" where
  "task_failed msg t = t\<lparr>rk_state := TASK_FAILED, rk_error_message := Some msg\<rparr>"

text \<open>The result of a query and the end of the task.\<close>

definition task_result :: "'w libpq \<Rightarrow> nat \<Rightarrow> PGresult \<Rightarrow> 'w \<Rightarrow> RemoteTask \<Rightarrow> RemoteTask" where
  "task_result net c r w t =
     (if status_ok r then task_done r t else task_failed (pq_error_message net c w) t)\<lparr>rk_completed_at := pq_clock net w\<rparr>"

definition orochi_execute_remote_task :: "'w libpq \<Rightarrow> RemoteTask \<Rightarrow> 'w backend \<Rightarrow> RemoteTask \<times> 'w backend" where
  "orochi_execute_remote_task net task b =
     (let t = task\<lparr>rk_state := TASK_RUNNING, rk_started_at := pq_clock net (be_world b)\<rparr> in
      case orochi_get_worker_connection net (fq_node_id (rk_fragment task)) b of
        (None, b1) \<Rightarrow> (task_failed ''Failed to connect to worker node'' t, b1)
      | (Some c, b1) \<Rightarrow>
          (case pq_exec net c (fq_query_string (rk_fragment task)) (be_world b1) of
             (r, w) \<Rightarrow> (task_result net c r w (t\<lparr>rk_connection := Some c\<rparr>), b1\<lparr>be_world := w\<rparr>)))"

definition orochi_wait_for_task :: "'w libpq \<Rightarrow> int \<Rightarrow> RemoteTask \<Rightarrow> 'w \<Rightarrow> bool \<times> RemoteTask \<times> 'w" where
  "orochi_wait_for_task net timeout_ms task w =
     (if rk_state task \<noteq> TASK_RUNNING then (rk_state task = TASK_COMPLETED, task, w)
      else case rk_connection task of
        None \<Rightarrow> (False, task, w)
      | Some c \<Rightarrow>
          (case pq_select net c timeout_ms w of
             (ret, w1) \<Rightarrow>
               if ret \<le> 0 then (False, task, w1)
               else case pq_consume_input net c w1 of
                 (False, w2) \<Rightarrow> (False, task_failed (pq_error_message net c w2) task, w2)
               | (True, w2) \<Rightarrow>
                   if pq_is_busy net c w2 then (False, task, w2)
                   else case pq_get_result net c w2 of
                     (None, w3) \<Rightarrow> (False, task, w3)
                   | (Some r, w3) \<Rightarrow> (let t = task_result net c r w3 task in (rk_state t = TASK_COMPLETED, t, w3))))"

text \<open>\<^verbatim>\<open>while (true) { res = PQgetResult(conn); if (res == NULL) break; ... }\<close> need not end.\<close>

partial_function (option) drain_results :: "'w libpq \<Rightarrow> nat \<Rightarrow> 'w \<Rightarrow> 'w option" where
  "drain_results net c w = (case pq_get_result net c w of (None, w') \<Rightarrow> Some w' | (Some r, w') \<Rightarrow> drain_results net c w')"

definition orochi_cancel_task :: "'w libpq \<Rightarrow> RemoteTask \<Rightarrow> 'w \<Rightarrow> (RemoteTask \<times> 'w) option" where
  "orochi_cancel_task net task w =
     (if rk_state task \<noteq> TASK_RUNNING then Some (task, w)
      else case rk_connection task of
        None \<Rightarrow> Some (task\<lparr>rk_state := TASK_CANCELLED\<rparr>, w)
      | Some c \<Rightarrow>
          (let w1 = pq_cancel net c w in
           map_option (Pair (task\<lparr>rk_state := TASK_CANCELLED, rk_completed_at := pq_clock net w1\<rparr>)) (drain_results net c w1)))"

definition orochi_retry_task :: "RemoteTask \<Rightarrow> bool \<times> RemoteTask" where
  "orochi_retry_task task =
     (if rk_retry_count task \<ge> EXECUTOR_MAX_RETRIES then (False, task)
      else (True, task\<lparr>rk_retry_count := rk_retry_count task + 1, rk_state := TASK_PENDING\<rparr>))"

definition orochi_is_retryable_error :: "string option \<Rightarrow> bool" where
  "orochi_is_retryable_error msg =
     (case msg of None \<Rightarrow> False | Some m \<Rightarrow> strstr_found m ''connection'' \<or> strstr_found m ''timeout'')"

definition orochi_handle_task_failure :: "RemoteTask \<Rightarrow> DistributedExecutorState \<Rightarrow> RemoteTask \<times> DistributedExecutorState" where
  "orochi_handle_task_failure task s =
     (case (if orochi_is_retryable_error (rk_error_message task) then orochi_retry_task task else (False, task)) of
        (True, t) \<Rightarrow> (t, s)
      | (False, t) \<Rightarrow> (t\<lparr>rk_state := TASK_FAILED\<rparr>,
          s\<lparr>de_failed_count := de_failed_count s + 1, de_has_error := True, de_error_message := rk_error_message t\<rparr>))"

definition orochi_propagate_error :: "DistributedExecutorState \<Rightarrow> string + unit" where
  "orochi_propagate_error s =
     (case de_error_message s of
        Some m \<Rightarrow> if de_has_error s then Inl (''distributed query failed: '' @ m) else Inr ()
      | None \<Rightarrow> Inr ())"

section \<open>Slow start\<close>

text \<open>\<^verbatim>\<open>foreach (lc, state->tasks)\<close>: start pending tasks while fewer than \<open>active\<close> are running.\<close>

fun start_pending :: "'w libpq \<Rightarrow> int \<Rightarrow> RemoteTask list \<Rightarrow> DistributedExecutorState \<Rightarrow> 'w backend \<Rightarrow>
  RemoteTask list \<times> DistributedExecutorState \<times> 'w backend" where
  "start_pending net active [] s b = ([], s, b)"
| "start_pending net active (t # ts) s b =
     (if rk_state t = TASK_PENDING \<and> de_running_count s < active
      then case orochi_execute_remote_task net t b of
        (t', b1) \<Rightarrow>
          (case start_pending net active ts (s\<lparr>de_pending_count := de_pending_count s - 1, de_running_count := de_running_count s + 1\<rparr>) b1 of
             (ts', s', b') \<Rightarrow> (t' # ts', s', b'))
      else case start_pending net active ts s b of (ts', s', b') \<Rightarrow> (t # ts', s', b'))"

fun wait_running :: "'w libpq \<Rightarrow> RemoteTask list \<Rightarrow> DistributedExecutorState \<Rightarrow> 'w \<Rightarrow> RemoteTask list \<times> DistributedExecutorState \<times> 'w" where
  "wait_running net [] s w = ([], s, w)"
| "wait_running net (t # ts) s w =
     (if rk_state t = TASK_RUNNING
      then case orochi_wait_for_task net EXECUTOR_SLOW_START_INTERVAL_MS t w of
        (ok, t', w1) \<Rightarrow>
          (case wait_running net ts
                  (if ok then s\<lparr>de_running_count := de_running_count s - 1, de_completed_count := de_completed_count s + 1\<rparr> else s) w1 of
             (ts', s', w') \<Rightarrow> (t' # ts', s', w'))
      else case wait_running net ts s w of (ts', s', w') \<Rightarrow> (t # ts', s', w'))"

definition adaptive_round :: "'w libpq \<Rightarrow> int \<Rightarrow> DistributedExecutorState \<Rightarrow> 'w backend \<Rightarrow> DistributedExecutorState \<times> 'w backend" where
  "adaptive_round net active s b =
     (case start_pending net active (de_tasks s) s b of
        (ts, s1, b1) \<Rightarrow>
          (case wait_running net ts s1 (be_world b1) of
             (ts2, s2, w2) \<Rightarrow>
               (s2\<lparr>de_tasks := ts2, de_all_completed := (de_completed_count s2 + de_failed_count s2 = int (length ts2))\<rparr>,
                b1\<lparr>be_world := w2\<rparr>)))"

partial_function (option) adaptive_loop ::
  "'w libpq \<Rightarrow> int \<Rightarrow> DistributedExecutorState \<Rightarrow> 'w backend \<Rightarrow> (DistributedExecutorState \<times> 'w backend) option" where
  "adaptive_loop net active s b =
     (if \<not> de_all_completed s \<and> \<not> de_has_error s
      then case adaptive_round net active s b of
        (s1, b1) \<Rightarrow> adaptive_loop net (if active < de_max_parallel s1 then active + 1 else active) s1 b1
      else Some (s, b))"

definition orochi_adaptive_execute ::
  "'w libpq \<Rightarrow> DistributedExecutorState \<Rightarrow> 'w backend \<Rightarrow> (DistributedExecutorState \<times> 'w backend) option" where
  "orochi_adaptive_execute net s b = adaptive_loop net 1 s b"

definition new_task :: "FragmentQuery \<Rightarrow> RemoteTask" where
  "new_task f = \<lparr>rk_fragment = f, rk_state = TASK_PENDING, rk_retry_count = 0, rk_connection = None, rk_started_at = 0,
     rk_completed_at = 0, rk_result = None, rk_error_message = None, rk_rows_affected = 0\<rparr>"

definition orochi_execute_distributed_plan ::
  "'w libpq \<Rightarrow> FragmentQuery list \<Rightarrow> DistributedExecutorState \<Rightarrow> 'w backend \<Rightarrow> (DistributedExecutorState \<times> 'w backend) option" where
  "orochi_execute_distributed_plan net fragments s b =
     orochi_adaptive_execute net
       (s\<lparr>de_tasks := map new_task fragments, de_pending_count := int (length fragments), de_running_count := 0, de_completed_count := 0,
          de_failed_count := 0, de_all_completed := False, de_has_error := False\<rparr>) b"

text \<open>\<^verbatim>\<open>orochi_adjust_parallelism\<close>; times are in microseconds and divisions of positive numbers.\<close>

definition timed_task :: "RemoteTask \<Rightarrow> bool" where
  "timed_task t = (rk_state t = TASK_COMPLETED \<and> rk_completed_at t > rk_started_at t)"

definition orochi_adjust_parallelism :: "DistributedExecutorState \<Rightarrow> DistributedExecutorState" where
  "orochi_adjust_parallelism s =
     (let ts = filter timed_task (de_tasks s);
          avg = sum_list (map (\<lambda>t. (rk_completed_at t - rk_started_at t) div 1000) ts) div int (length ts);
          p = de_max_parallel s in
      if ts = [] then s
      else s\<lparr>de_max_parallel :=
        (if avg < 10 then min (p * 2) EXECUTOR_MAX_CONNECTIONS
         else if avg < 50 then min (p + 2) EXECUTOR_MAX_CONNECTIONS
         else if avg > 1000 then max (p div 2) 1
         else if avg > 500 then max (p - 1) 1 else p)\<rparr>)"

section \<open>Parallel execution\<close>

definition orochi_start_async_task :: "'w libpq \<Rightarrow> RemoteTask \<Rightarrow> 'w backend \<Rightarrow> RemoteTask \<times> 'w backend" where
  "orochi_start_async_task net task b =
     (let t = task\<lparr>rk_state := TASK_RUNNING, rk_started_at := pq_clock net (be_world b)\<rparr> in
      case orochi_get_worker_connection net (fq_node_id (rk_fragment task)) b of
        (None, b1) \<Rightarrow> (task_failed ''Failed to connect to worker node'' t, b1)
      | (Some c, b1) \<Rightarrow>
          (case pq_send_query net c (fq_query_string (rk_fragment task)) (be_world b1) of
             (ok, w) \<Rightarrow>
               (let t1 = t\<lparr>rk_connection := Some c\<rparr> in
                (if ok then t1 else task_failed (pq_error_message net c w) t1, b1\<lparr>be_world := w\<rparr>))))"

definition orochi_check_task_completion :: "'w libpq \<Rightarrow> RemoteTask \<Rightarrow> 'w \<Rightarrow> bool \<times> RemoteTask \<times> 'w" where
  "orochi_check_task_completion net task w =
     (if rk_state task \<noteq> TASK_RUNNING then (True, task, w)
      else case rk_connection task of
        None \<Rightarrow> (True, task, w)
      | Some c \<Rightarrow>
          (case pq_consume_input net c w of
             (False, w1) \<Rightarrow> (True, (task_failed (pq_error_message net c w1) task)\<lparr>rk_completed_at := pq_clock net w1\<rparr>, w1)
           | (True, w1) \<Rightarrow>
               if pq_is_busy net c w1 then (False, task, w1)
               else case pq_get_result net c w1 of
                 (None, w2) \<Rightarrow> (True, task\<lparr>rk_state := TASK_COMPLETED, rk_completed_at := pq_clock net w2\<rparr>, w2)
               | (Some r, w2) \<Rightarrow> (True, task_result net c r w2 task, w2)))"

text \<open>The lists \<open>pending\<close> and \<open>running\<close> hold pointers to tasks: positions in \<open>ps_tasks\<close>.\<close>

record 'w parallel_state =
  ps_tasks :: "RemoteTask list"
  ps_pending :: "nat list"
  ps_running :: "nat list"
  ps_active :: int
  ps_completed :: int
  ps_failed :: int
  ps_backend :: "'w backend"

fun start_tasks :: "'w libpq \<Rightarrow> int \<Rightarrow> nat list \<Rightarrow> 'w parallel_state \<Rightarrow> 'w parallel_state" where
  "start_tasks net parallelism [] st = st\<lparr>ps_pending := []\<rparr>"
| "start_tasks net parallelism (k # ks) st =
     (if ps_active st < parallelism
      then case orochi_start_async_task net (ps_tasks st ! k) (ps_backend st) of
        (t, b) \<Rightarrow> start_tasks net parallelism ks
          (st\<lparr>ps_tasks := (ps_tasks st)[k := t], ps_running := ps_running st @ [k], ps_active := ps_active st + 1, ps_backend := b\<rparr>)
      else st\<lparr>ps_pending := k # ks\<rparr>)"

definition check_one :: "'w libpq \<Rightarrow> nat \<Rightarrow> 'w parallel_state \<Rightarrow> 'w parallel_state" where
  "check_one net k st =
     (case orochi_check_task_completion net (ps_tasks st ! k) (be_world (ps_backend st)) of
        (finished, t, w) \<Rightarrow>
          (let st1 = st\<lparr>ps_tasks := (ps_tasks st)[k := t], ps_backend := (ps_backend st)\<lparr>be_world := w\<rparr>\<rparr> in
           if \<not> finished then st1
           else let st2 = st1\<lparr>ps_running := remove1 k (ps_running st1), ps_active := ps_active st1 - 1\<rparr> in
             if rk_state t = TASK_COMPLETED then st2\<lparr>ps_completed := ps_completed st2 + 1\<rparr>
             else if rk_state t = TASK_FAILED
             then (case orochi_retry_task t of
                     (True, t') \<Rightarrow> st2\<lparr>ps_tasks := (ps_tasks st2)[k := t'], ps_pending := ps_pending st2 @ [k]\<rparr>
                   | (False, t') \<Rightarrow> st2\<lparr>ps_failed := ps_failed st2 + 1\<rparr>)
             else st2))"

text \<open>The loop over \<open>running\<close> takes the address of the next cell before it deletes a task. The cells of a list are an array:
  deleting one moves the others down, so that the address denotes the task after the next one, or, behind the last
  cell, the old copy of the last task.\<close>

function check_pass :: "'w libpq \<Rightarrow> nat \<Rightarrow> 'w parallel_state \<Rightarrow> 'w parallel_state" where
  "check_pass net i st =
     (if i < length (ps_running st)
      then let st1 = check_one net (ps_running st ! i) st in
        if \<not> Suc i < length (ps_running st) then st1
        else if \<not> length (ps_running st1) < length (ps_running st) then check_pass net (Suc i) st1
        else if Suc i < length (ps_running st1) then check_pass net (Suc i) st1
        else check_one net (last (ps_running st1)) st1
      else st)"
  by pat_completeness auto

termination
proof (relation "measure (\<lambda>(net, i, st). length (ps_running st) - i)")
  fix net :: "'w libpq" and i st st1
  assume "i < length (ps_running st)" "st1 = check_one net (ps_running st ! i) st"
  moreover have "length (ps_running (check_one net k st)) \<le> length (ps_running st)" for k
    by (auto simp: check_one_def Let_def length_remove1 split: prod.splits bool.splits)
  ultimately have "length (ps_running st1) - Suc i < length (ps_running st) - i" by (metis Suc_diff_Suc diff_le_mono le_imp_less_Suc)
  then show "((net, Suc i, st1), net, i, st) \<in> measure (\<lambda>(net, i, st). length (ps_running st) - i)"
    "((net, Suc i, st1), net, i, st) \<in> measure (\<lambda>(net, i, st). length (ps_running st) - i)" by simp_all
qed simp

declare check_pass.simps [simp del]

definition parallel_round :: "'w libpq \<Rightarrow> int \<Rightarrow> 'w parallel_state \<Rightarrow> 'w parallel_state" where
  "parallel_round net parallelism st = check_pass net 0 (start_tasks net parallelism (ps_pending st) st)"

partial_function (option) parallel_loop :: "'w libpq \<Rightarrow> int \<Rightarrow> 'w parallel_state \<Rightarrow> 'w parallel_state option" where
  "parallel_loop net parallelism st =
     (if ps_pending st \<noteq> [] \<or> ps_running st \<noteq> [] then parallel_loop net parallelism (parallel_round net parallelism st) else Some st)"

definition orochi_parallel_execute ::
  "'w libpq \<Rightarrow> DistributedExecutorState \<Rightarrow> int \<Rightarrow> 'w backend \<Rightarrow> (DistributedExecutorState \<times> 'w backend) option" where
  "orochi_parallel_execute net s parallelism b =
     map_option (\<lambda>st. (s\<lparr>de_tasks := ps_tasks st, de_completed_count := ps_completed st, de_failed_count := ps_failed st, de_all_completed := True\<rparr>,
                       ps_backend st))
       (parallel_loop net parallelism
          \<lparr>ps_tasks = de_tasks s, ps_pending = [0 ..< length (de_tasks s)], ps_running = [], ps_active = 0,
           ps_completed = de_completed_count s, ps_failed = de_failed_count s, ps_backend = b\<rparr>)"

section \<open>The slow-start loop does not end\<close>

lemma executed_task_state: "rk_state (fst (orochi_execute_remote_task net t b)) \<noteq> TASK_RUNNING"
  by (auto simp: orochi_execute_remote_task_def task_result_def task_done_def task_failed_def Let_def split: prod.splits option.splits)

lemma start_pending_finishes:
  "start_pending net active ts s b = (ts', s', b') \<Longrightarrow> \<forall>t \<in> set ts. rk_state t \<noteq> TASK_RUNNING \<Longrightarrow>
   (\<forall>t \<in> set ts'. rk_state t \<noteq> TASK_RUNNING) \<and> length ts' = length ts \<and> de_completed_count s' = de_completed_count s \<and>
   de_failed_count s' = de_failed_count s \<and> de_has_error s' = de_has_error s"
proof (induction ts arbitrary: s b ts' s' b')
  case (Cons t ts)
  obtain t1 b1 where e: "orochi_execute_remote_task net t b = (t1, b1)" by fastforce
  have t1: "rk_state t1 \<noteq> TASK_RUNNING" using executed_task_state [of net t b] e by simp
  show ?case
    using Cons.prems t1 by (auto simp: e split: if_splits prod.splits dest!: Cons.IH)
qed simp

lemma wait_running_none: "\<forall>t \<in> set ts. rk_state t \<noteq> TASK_RUNNING \<Longrightarrow> wait_running net ts s w = (ts, s, w)"
  by (induction ts) auto

definition stuck :: "DistributedExecutorState \<Rightarrow> bool" where
  "stuck s = (de_tasks s \<noteq> [] \<and> (\<forall>t \<in> set (de_tasks s). rk_state t \<noteq> TASK_RUNNING) \<and> de_completed_count s = 0 \<and> de_failed_count s = 0 \<and>
     \<not> de_all_completed s \<and> \<not> de_has_error s)"

lemma adaptive_round_stuck: "stuck s \<Longrightarrow> stuck (fst (adaptive_round net active s b))"
  by (auto simp: stuck_def adaptive_round_def wait_running_none split: prod.splits dest!: start_pending_finishes)

lemma adaptive_loop_stuck: "adaptive_loop net active s b = Some r \<Longrightarrow> \<not> stuck s"
proof (rule adaptive_loop.raw_induct [where P = "\<lambda>net active s b r. \<not> stuck s"])
  fix loop net active s b r
  assume IH: "\<And>net active s b r. loop net active s b = Some r \<Longrightarrow> \<not> stuck s"
    and body: "(if \<not> de_all_completed s \<and> \<not> de_has_error s
      then case adaptive_round net active s b of
        (s1, b1) \<Rightarrow> loop net (if active < de_max_parallel s1 then active + 1 else active) s1 b1
      else Some (s, b)) = Some r"
  obtain s1 b1 where r: "adaptive_round net active s b = (s1, b1)" by fastforce
  show "\<not> stuck s"
  proof
    assume "stuck s"
    with body r have "loop net (if active < de_max_parallel s1 then active + 1 else active) s1 b1 = Some r" by (simp add: stuck_def)
    with IH have "\<not> stuck s1" by blast
    with adaptive_round_stuck [OF \<open>stuck s\<close>, of net active b] r show False by simp
  qed
qed

text \<open>C39: A distributed plan with at least one fragment never returns. Its tasks are executed synchronously, so that none is ever
  found running by the part of the loop that counts finished tasks, and the count that would end the loop stays zero.\<close>

theorem distributed_plan_never_returns:
  assumes "fragments \<noteq> []"
  shows "orochi_execute_distributed_plan net fragments s b = None"
proof (rule ccontr)
  let ?s = "s\<lparr>de_tasks := map new_task fragments, de_pending_count := int (length fragments), de_running_count := 0, de_completed_count := 0,
          de_failed_count := 0, de_all_completed := False, de_has_error := False\<rparr>"
  assume "orochi_execute_distributed_plan net fragments s b \<noteq> None"
  then obtain r where "adaptive_loop net 1 ?s b = Some r"
    by (auto simp: orochi_execute_distributed_plan_def orochi_adaptive_execute_def)
  moreover have "stuck ?s" using assms by (simp add: stuck_def new_task_def)
  ultimately show False using adaptive_loop_stuck by blast
qed

text \<open>A network in which every query succeeds; the world counts the connections made so far.\<close>

definition ok_result :: PGresult where
  "ok_result = \<lparr>pr_status = PGRES_COMMAND_OK, pr_ftypes = [], pr_rows = [], pr_cmd_tuples = ''1''\<rparr>"

definition ok_net :: "nat libpq" where
  "ok_net = \<lparr>pq_status = (\<lambda>c w. True), pq_finish = (\<lambda>c w. w), pq_connectdb = (\<lambda>s w. (Some w, Suc w)), pq_exec = (\<lambda>c q w. (ok_result, w)),
     pq_error_message = (\<lambda>c w. []), pq_send_query = (\<lambda>c q w. (True, w)), pq_select = (\<lambda>c t w. (1, w)),
     pq_consume_input = (\<lambda>c w. (True, w)), pq_is_busy = (\<lambda>c w. False), pq_get_result = (\<lambda>c w. (Some ok_result, w)),
     pq_cancel = (\<lambda>c w. w), pq_clock = (\<lambda>w. 0)\<rparr>"

definition idle_state :: DistributedExecutorState where
  "idle_state = \<lparr>de_tasks = [], de_pending_count = 0, de_running_count = 0, de_completed_count = 0, de_failed_count = 0, de_max_parallel = 4,
     de_all_completed = False, de_has_error = False, de_error_message = None\<rparr>"

definition worker_node :: OrochiNodeInfo where
  "worker_node = \<lparr>n_node_id = 1, hostname = ''w1'', n_port = 5432, n_role = 1, n_is_active = True, n_shard_count = 0, n_total_size = 0,
     n_last_heartbeat = 0\<rparr>"

definition one_node :: "nat backend" where
  "one_node = \<lparr>be_pool = [], be_catalog = \<lparr>c_tables = (\<lambda>t. None), c_shards = [], c_shard_seq = 1, c_nodes = [worker_node], c_node_seq = 2\<rparr>,
     be_database = ''db'', be_world = 0\<rparr>"

definition sample_fragment :: FragmentQuery where
  "sample_fragment = \<lparr>fq_shard_id = 1, fq_node_id = 1, fq_query_string = ''SELECT 1''\<rparr>"

theorem distributed_plan_never_returns_witness:
  "orochi_execute_distributed_plan ok_net [sample_fragment] idle_state one_node = None \<and>
   rk_state (fst (orochi_execute_remote_task ok_net (new_task sample_fragment) one_node)) = TASK_COMPLETED"
  using distributed_plan_never_returns [of "[sample_fragment]" ok_net idle_state one_node]
  by (simp add: orochi_execute_remote_task_def orochi_get_worker_connection_def one_node_def sample_fragment_def worker_node_def new_task_def
      orochi_catalog_get_node_def ok_net_def ok_result_def task_result_def status_ok_def task_done_def)

section \<open>The parallel loop settles every task\<close>

definition attempts_left :: "RemoteTask \<Rightarrow> nat" where
  "attempts_left t = nat (3 - rk_retry_count t) + 1"

definition settled :: "RemoteTask \<Rightarrow> bool" where
  "settled t = (rk_state t = TASK_COMPLETED \<or> rk_state t = TASK_FAILED \<and> rk_retry_count t \<ge> 3)"

definition startable :: "RemoteTask \<Rightarrow> bool" where
  "startable t = (rk_state t = TASK_FAILED \<or> rk_state t = TASK_RUNNING \<and> rk_connection t \<noteq> None)"

definition open_tasks :: "'w parallel_state \<Rightarrow> nat list" where
  "open_tasks st = ps_pending st @ ps_running st"

definition work :: "'w parallel_state \<Rightarrow> nat" where
  "work st = sum_list (map (\<lambda>k. attempts_left (ps_tasks st ! k)) (open_tasks st))"

definition closed :: "'w parallel_state \<Rightarrow> TaskState \<Rightarrow> nat set" where
  "closed st x = {k. k < length (ps_tasks st) \<and> k \<notin> set (open_tasks st) \<and> rk_state (ps_tasks st ! k) = x}"

definition par_inv :: "nat \<Rightarrow> int \<Rightarrow> int \<Rightarrow> 'w parallel_state \<Rightarrow> bool" where
  "par_inv n c f st =
     (length (ps_tasks st) = n \<and> distinct (open_tasks st) \<and> set (open_tasks st) \<subseteq> {..< n} \<and> ps_active st = int (length (ps_running st)) \<and>
      (\<forall>k \<in> set (ps_running st). startable (ps_tasks st ! k)) \<and>
      (\<forall>k < n. k \<notin> set (open_tasks st) \<longrightarrow> settled (ps_tasks st ! k)) \<and>
      ps_completed st = c + int (card (closed st TASK_COMPLETED)) \<and> ps_failed st = f + int (card (closed st TASK_FAILED)))"

lemma started_task:
  "startable (fst (orochi_start_async_task net t b)) \<and> attempts_left (fst (orochi_start_async_task net t b)) = attempts_left t"
  by (auto simp: orochi_start_async_task_def startable_def attempts_left_def task_failed_def Let_def split: prod.splits option.splits)

lemma check_completion_cases:
  assumes "startable t" "orochi_check_task_completion net t w = (f, t', w')"
  shows "(\<not> f \<and> t' = t \<and> (\<exists>c. pq_consume_input net c w = (True, w') \<and> pq_is_busy net c w')) \<or>
     (f \<and> (rk_state t' = TASK_COMPLETED \<or> rk_state t' = TASK_FAILED) \<and> rk_retry_count t' = rk_retry_count t)"
  using assms
  by (auto simp: orochi_check_task_completion_def startable_def task_failed_def task_result_def task_done_def
      split: prod.splits option.splits if_splits bool.splits)

text \<open>What checking one task does: nothing but waiting, settling it, or giving it back.\<close>

lemma check_one_cases:
  assumes "startable (ps_tasks st ! k)"
  obtains (busy) c w where "check_one net k st = st\<lparr>ps_backend := (ps_backend st)\<lparr>be_world := w\<rparr>\<rparr>"
      "pq_consume_input net c (be_world (ps_backend st)) = (True, w)" "pq_is_busy net c w"
  | (settle) t w where "settled t" "check_one net k st = st\<lparr>ps_tasks := (ps_tasks st)[k := t], ps_running := remove1 k (ps_running st),
      ps_active := ps_active st - 1, ps_completed := ps_completed st + of_bool (rk_state t = TASK_COMPLETED),
      ps_failed := ps_failed st + of_bool (rk_state t = TASK_FAILED), ps_backend := (ps_backend st)\<lparr>be_world := w\<rparr>\<rparr>"
  | (again) t w where "attempts_left t < attempts_left (ps_tasks st ! k)"
      "check_one net k st = st\<lparr>ps_tasks := (ps_tasks st)[k := t], ps_pending := ps_pending st @ [k], ps_running := remove1 k (ps_running st),
      ps_active := ps_active st - 1, ps_backend := (ps_backend st)\<lparr>be_world := w\<rparr>\<rparr>"
proof -
  obtain f t w where o: "orochi_check_task_completion net (ps_tasks st ! k) (be_world (ps_backend st)) = (f, t, w)"
    by (metis prod_cases3)
  consider "\<not> f" "t = ps_tasks st ! k" "\<exists>c. pq_consume_input net c (be_world (ps_backend st)) = (True, w) \<and> pq_is_busy net c w"
    | "f" "rk_state t = TASK_COMPLETED" | "f" "rk_state t = TASK_FAILED" "rk_retry_count t = rk_retry_count (ps_tasks st ! k)"
    using check_completion_cases [OF assms o] by blast
  then show thesis
  proof cases
    case 1
    then show thesis using busy o by (auto simp: check_one_def)
  next
    case 2
    then show thesis using settle [of t w] o by (simp add: check_one_def settled_def)
  next
    case 3
    show thesis
    proof (cases "rk_retry_count t \<ge> 3")
      case True
      with 3 show thesis using settle [of t w] o by (simp add: check_one_def settled_def orochi_retry_task_def)
    next
      case False
      let ?t = "t\<lparr>rk_retry_count := rk_retry_count t + 1, rk_state := TASK_PENDING\<rparr>"
      have "attempts_left ?t < attempts_left (ps_tasks st ! k)" using False 3 by (simp add: attempts_left_def)
      with 3 False show thesis using again [of ?t w] o by (simp add: check_one_def orochi_retry_task_def Let_def)
    qed
  qed
qed

lemma sum_attempts_update:
  "k \<notin> set ks \<Longrightarrow> sum_list (map (\<lambda>j. attempts_left (ts[k := t] ! j)) ks) = sum_list (map (\<lambda>j. attempts_left (ts ! j)) ks)"
  by (rule arg_cong [of _ _ sum_list], rule map_cong) (simp_all, metis nth_list_update_neq)

lemma int_length_remove1: "k \<in> set xs \<Longrightarrow> int (length (remove1 k xs)) = int (length xs) - 1"
  using length_pos_if_in_set [of k xs] by (simp add: length_remove1 of_nat_diff Suc_leI)

lemma settle_inv:
  fixes st :: "'w parallel_state" and b :: "'w backend"
  assumes inv: "par_inv n c f st" and k: "k \<in> set (ps_running st)" and t: "settled t"
  defines "st' \<equiv> st\<lparr>ps_tasks := (ps_tasks st)[k := t], ps_running := remove1 k (ps_running st),
      ps_active := ps_active st - 1, ps_completed := ps_completed st + of_bool (rk_state t = TASK_COMPLETED),
      ps_failed := ps_failed st + of_bool (rk_state t = TASK_FAILED), ps_backend := b\<rparr>"
  shows "par_inv n c f st' \<and> work st' < work st"
proof -
  have d: "distinct (ps_running st)" "k \<notin> set (ps_pending st)" "k < n" "length (ps_tasks st) = n"
    using inv k by (auto simp: par_inv_def open_tasks_def)
  have o: "set (open_tasks st') = set (open_tasks st) - {k}" using d by (auto simp: st'_def open_tasks_def)
  have cl: "closed st' x = (if rk_state t = x then insert k (closed st x) else closed st x)" for x
    using d o k by (auto simp: closed_def st'_def open_tasks_def nth_list_update)
  have nk: "k \<notin> closed st x" "finite (closed st x)" for x
    using k by (auto simp: closed_def open_tasks_def intro: finite_subset [of _ "{..< length (ps_tasks st)}"])
  have "par_inv n c f st'"
    unfolding par_inv_def
  proof (intro conjI)
    show "distinct (open_tasks st')" using inv by (auto simp: par_inv_def open_tasks_def st'_def)
    show "set (open_tasks st') \<subseteq> {..< n}" using inv o by (auto simp: par_inv_def)
    show "ps_active st' = int (length (ps_running st'))"
      using inv k by (simp add: par_inv_def st'_def int_length_remove1)
    show "\<forall>j \<in> set (ps_running st'). startable (ps_tasks st' ! j)"
      using inv d by (auto simp: par_inv_def st'_def nth_list_update)
    show "\<forall>j < n. j \<notin> set (open_tasks st') \<longrightarrow> settled (ps_tasks st' ! j)"
      using inv t d unfolding o by (auto simp: par_inv_def st'_def nth_list_update)
  qed (use inv d in \<open>simp_all add: par_inv_def cl nk, simp_all add: st'_def\<close>)
  moreover have "work st = attempts_left (ps_tasks st ! k) + work st'"
    using k d by (simp add: work_def open_tasks_def st'_def sum_attempts_update sum_list_map_remove1 [of k "ps_running st"])
  ultimately show ?thesis by (simp add: attempts_left_def)
qed

lemma again_inv:
  fixes st :: "'w parallel_state" and b :: "'w backend"
  assumes inv: "par_inv n c f st" and k: "k \<in> set (ps_running st)" and t: "attempts_left t < attempts_left (ps_tasks st ! k)"
  defines "st' \<equiv> st\<lparr>ps_tasks := (ps_tasks st)[k := t], ps_pending := ps_pending st @ [k], ps_running := remove1 k (ps_running st),
      ps_active := ps_active st - 1, ps_backend := b\<rparr>"
  shows "par_inv n c f st' \<and> work st' < work st"
proof -
  have d: "distinct (ps_running st)" "k \<notin> set (ps_pending st)" "k < n" "length (ps_tasks st) = n"
    using inv k by (auto simp: par_inv_def open_tasks_def)
  have o: "set (open_tasks st') = set (open_tasks st)" using d k by (auto simp: st'_def open_tasks_def)
  have cl: "closed st' x = closed st x" for x
    using d o k by (auto simp: closed_def st'_def open_tasks_def nth_list_update)
  have "par_inv n c f st'"
    unfolding par_inv_def
  proof (intro conjI)
    show "distinct (open_tasks st')" using inv k by (auto simp: par_inv_def open_tasks_def st'_def)
    show "set (open_tasks st') \<subseteq> {..< n}" using inv o by (auto simp: par_inv_def)
    show "ps_active st' = int (length (ps_running st'))"
      using inv k by (simp add: par_inv_def st'_def int_length_remove1)
    show "\<forall>j \<in> set (ps_running st'). startable (ps_tasks st' ! j)"
      using inv d by (auto simp: par_inv_def st'_def nth_list_update)
    show "\<forall>j < n. j \<notin> set (open_tasks st') \<longrightarrow> settled (ps_tasks st' ! j)"
      using inv k unfolding o by (auto simp: par_inv_def st'_def nth_list_update open_tasks_def)
  qed (use inv d in \<open>simp_all add: par_inv_def cl, simp_all add: st'_def\<close>)
  moreover have "work st + attempts_left t = attempts_left (ps_tasks st ! k) + work st'"
    using k d by (simp add: work_def open_tasks_def st'_def sum_attempts_update sum_list_map_remove1 [of k "ps_running st"])
  ultimately show ?thesis using t by linarith
qed

definition polls_end :: "'w libpq \<Rightarrow> ('w \<Rightarrow> nat) \<Rightarrow> bool" where
  "polls_end net rank = (\<forall>c w w'. pq_consume_input net c w = (True, w') \<and> pq_is_busy net c w' \<longrightarrow> rank w' < rank w)"

definition world_of :: "'w parallel_state \<Rightarrow> 'w" where
  "world_of st = be_world (ps_backend st)"

definition same_lists :: "'w parallel_state \<Rightarrow> 'w parallel_state \<Rightarrow> bool" where
  "same_lists st st' = (work st' = work st \<and> ps_pending st' = ps_pending st \<and> ps_running st' = ps_running st)"

lemma par_inv_world: "par_inv n c f (st\<lparr>ps_backend := b\<rparr>) = par_inv n c f st" "work (st\<lparr>ps_backend := b\<rparr>) = work st"
  by (simp_all add: par_inv_def open_tasks_def closed_def work_def)

lemma check_one_inv:
  assumes inv: "par_inv n c f st" and k: "k \<in> set (ps_running st)" and p: "polls_end net rank"
  shows "par_inv n c f (check_one net k st) \<and>
    (work (check_one net k st) < work st \<or> same_lists st (check_one net k st) \<and> rank (world_of (check_one net k st)) < rank (world_of st))"
proof -
  have s: "startable (ps_tasks st ! k)" using inv k by (simp add: par_inv_def)
  show ?thesis using s
  proof (cases rule: check_one_cases [where net = net, consumes 1, case_names busy settle again])
    case (busy c w)
    then show ?thesis using inv p by (auto simp: par_inv_world same_lists_def world_of_def polls_end_def)
  next
    case (settle t w)
    then show ?thesis using settle_inv [OF inv k] by simp
  next
    case (again t w)
    then show ?thesis using again_inv [OF inv k] by simp
  qed
qed

lemma check_pass_inv:
  assumes "par_inv n c f st" "polls_end net rank"
  shows "par_inv n c f (check_pass net i st) \<and>
    (work (check_pass net i st) < work st \<or>
     same_lists st (check_pass net i st) \<and> rank (world_of (check_pass net i st)) \<le> rank (world_of st) \<and>
     (i < length (ps_running st) \<longrightarrow> rank (world_of (check_pass net i st)) < rank (world_of st)))"
  using assms
proof (induction net i st rule: check_pass.induct)
  case (1 net i st)
  show ?case
  proof (cases "i < length (ps_running st)")
    case True
    let ?s1 = "check_one net (ps_running st ! i) st"
    have one: "par_inv n c f ?s1" "work ?s1 < work st \<or> same_lists st ?s1 \<and> rank (world_of ?s1) < rank (world_of st)"
      using check_one_inv [OF "1.prems"(1) nth_mem [OF True] "1.prems"(2)] by blast+
    consider (over) "check_pass net i st = ?s1"
      | (go) "check_pass net i st = check_pass net (Suc i) ?s1" "Suc i < length (ps_running st)"
          "\<not> length (ps_running ?s1) < length (ps_running st) \<or> Suc i < length (ps_running ?s1)"
      | (stale) "check_pass net i st = check_one net (last (ps_running ?s1)) ?s1" "length (ps_running ?s1) < length (ps_running st)"
          "Suc i < length (ps_running st)"
      using True
      by (cases "Suc i < length (ps_running st)"; cases "length (ps_running ?s1) < length (ps_running st)"; cases "Suc i < length (ps_running ?s1)")
        (simp_all add: check_pass.simps [of net i st] Let_def)
    then show ?thesis
    proof cases
      case over
      then show ?thesis using one by auto
    next
      case go
      have "par_inv n c f (check_pass net (Suc i) ?s1) \<and>
          (work (check_pass net (Suc i) ?s1) < work ?s1 \<or>
           same_lists ?s1 (check_pass net (Suc i) ?s1) \<and> rank (world_of (check_pass net (Suc i) ?s1)) \<le> rank (world_of ?s1))"
        using "1.IH"(1) [OF True refl] "1.IH"(2) [OF True refl] go(2,3) one(1) "1.prems"(2) by blast
      then show ?thesis using one(2) unfolding go(1) same_lists_def by auto
    next
      case stale
      have "ps_running ?s1 \<noteq> []"
      proof -
        have "length (ps_running st) \<le> Suc (length (ps_running ?s1))"
          by (auto simp: check_one_def Let_def length_remove1 split: prod.splits bool.splits)
        then show ?thesis using stale(3) by auto
      qed
      from check_one_inv [OF one(1) last_in_set [OF this] "1.prems"(2)] one(2) show ?thesis
        unfolding stale(1) same_lists_def by auto
    qed
  next
    case False
    then show ?thesis using "1.prems" by (simp add: check_pass.simps [of net i st] same_lists_def)
  qed
qed

lemma start_one_inv:
  fixes st :: "'w parallel_state" and b :: "'w backend"
  assumes inv: "par_inv n c f (st\<lparr>ps_pending := k # ks\<rparr>)" and t: "startable t" "attempts_left t = attempts_left (ps_tasks st ! k)"
  defines "st' \<equiv> st\<lparr>ps_tasks := (ps_tasks st)[k := t], ps_running := ps_running st @ [k], ps_active := ps_active st + 1, ps_backend := b,
     ps_pending := ks\<rparr>"
  shows "par_inv n c f st' \<and> work st' = work (st\<lparr>ps_pending := k # ks\<rparr>)"
proof -
  let ?st = "st\<lparr>ps_pending := k # ks\<rparr>"
  have d: "k \<notin> set ks" "k \<notin> set (ps_running st)" "k < n" "length (ps_tasks st) = n"
    using inv by (auto simp: par_inv_def open_tasks_def)
  have o: "set (open_tasks st') = set (open_tasks ?st)" by (auto simp: st'_def open_tasks_def)
  have cl: "closed st' x = closed ?st x" for x
    using d by (auto simp: closed_def st'_def open_tasks_def nth_list_update)
  have "par_inv n c f st'"
    unfolding par_inv_def
  proof (intro conjI)
    show "distinct (open_tasks st')" using inv by (auto simp: par_inv_def open_tasks_def st'_def)
    show "set (open_tasks st') \<subseteq> {..< n}" using inv o by (auto simp: par_inv_def)
    show "\<forall>j \<in> set (ps_running st'). startable (ps_tasks st' ! j)"
      using inv d t(1) by (auto simp: par_inv_def st'_def nth_list_update)
    show "\<forall>j < n. j \<notin> set (open_tasks st') \<longrightarrow> settled (ps_tasks st' ! j)"
      using inv unfolding o by (auto simp: par_inv_def st'_def nth_list_update open_tasks_def)
  qed (use inv d in \<open>simp_all add: par_inv_def cl, simp_all add: st'_def\<close>)
  moreover have "work st' = work ?st"
    using d t(2) by (simp add: work_def open_tasks_def st'_def sum_attempts_update)
  ultimately show ?thesis ..
qed

lemma start_tasks_inv:
  assumes "par_inv n c f (st\<lparr>ps_pending := ks\<rparr>)"
  shows "par_inv n c f (start_tasks net par ks st) \<and> work (start_tasks net par ks st) = work (st\<lparr>ps_pending := ks\<rparr>) \<and>
    length (ps_pending (start_tasks net par ks st)) \<le> length ks \<and>
    (ks \<noteq> [] \<and> ps_active st < par \<longrightarrow> length (ps_pending (start_tasks net par ks st)) < length ks) \<and>
    (ps_running st \<noteq> [] \<or> ks \<noteq> [] \<and> ps_active st < par \<longrightarrow> ps_running (start_tasks net par ks st) \<noteq> [])"
  using assms
proof (induction ks arbitrary: st)
  case (Cons k ks)
  show ?case
  proof (cases "ps_active st < par")
    case True
    obtain t b where t: "orochi_start_async_task net (ps_tasks st ! k) (ps_backend st) = (t, b)" by fastforce
    let ?s1 = "st\<lparr>ps_tasks := (ps_tasks st)[k := t], ps_running := ps_running st @ [k], ps_active := ps_active st + 1, ps_backend := b\<rparr>"
    have "par_inv n c f (?s1\<lparr>ps_pending := ks\<rparr>)" "work (?s1\<lparr>ps_pending := ks\<rparr>) = work (st\<lparr>ps_pending := k # ks\<rparr>)"
      using start_one_inv [OF Cons.prems, of t b] started_task [of net "ps_tasks st ! k" "ps_backend st"] t by simp_all
    with True t Cons.IH [of ?s1] show ?thesis by auto
  next
    case False
    then show ?thesis using Cons.prems by simp
  qed
qed simp

definition loop_rank :: "('w \<Rightarrow> nat) \<Rightarrow> 'w parallel_state \<Rightarrow> nat \<times> nat \<times> nat" where
  "loop_rank rank st = (work st, length (ps_pending st), rank (world_of st))"

text \<open>A round of the loop makes progress.\<close>

lemma parallel_round_progress:
  assumes inv: "par_inv n c f st" and p: "polls_end net rank" "0 < par" and o: "ps_pending st \<noteq> [] \<or> ps_running st \<noteq> []"
  shows "par_inv n c f (parallel_round net par st) \<and>
    (loop_rank rank (parallel_round net par st), loop_rank rank st) \<in> less_than <*lex*> less_than <*lex*> less_than"
proof -
  let ?s1 = "start_tasks net par (ps_pending st) st"
  have eq: "st\<lparr>ps_pending := ps_pending st\<rparr> = st" by simp
  have s1: "par_inv n c f ?s1" "work ?s1 = work st" "length (ps_pending ?s1) \<le> length (ps_pending st)"
      "ps_pending st \<noteq> [] \<and> ps_active st < par \<Longrightarrow> length (ps_pending ?s1) < length (ps_pending st)"
      "ps_running st \<noteq> [] \<or> ps_pending st \<noteq> [] \<and> ps_active st < par \<Longrightarrow> ps_running ?s1 \<noteq> []"
    using start_tasks_inv [where st = st and ks = "ps_pending st" and net = net and par = par and n = n and c = c and f = f] inv unfolding eq by blast+
  have none: "?s1 = st" if "\<not> (ps_pending st \<noteq> [] \<and> ps_active st < par)"
    using that by (cases "ps_pending st") simp_all
  have run: "ps_running ?s1 \<noteq> []"
    using s1(5) o p(2) inv by (cases "ps_running st") (auto simp: par_inv_def)
  have ps: "par_inv n c f (check_pass net 0 ?s1)"
      "work (check_pass net 0 ?s1) < work ?s1 \<or>
       same_lists ?s1 (check_pass net 0 ?s1) \<and> rank (world_of (check_pass net 0 ?s1)) < rank (world_of ?s1)"
    using check_pass_inv [OF s1(1) p(1), of 0] run by auto
  show ?thesis
  proof (cases "ps_pending st \<noteq> [] \<and> ps_active st < par")
    case True
    then show ?thesis using ps s1(2) s1(4) [OF True] by (auto simp: parallel_round_def loop_rank_def same_lists_def)
  next
    case False
    then show ?thesis using ps none [OF False] by (auto simp: parallel_round_def loop_rank_def same_lists_def)
  qed
qed

lemma parallel_loop_returns:
  assumes "par_inv n c f st" "polls_end net rank" "0 < par"
  shows "\<exists>st'. parallel_loop net par st = Some st' \<and> par_inv n c f st' \<and> open_tasks st' = []"
  using assms(1)
proof (induction "loop_rank rank st" arbitrary: st rule: wf_induct_rule [OF wf_lex_prod [OF wf_less_than wf_lex_prod [OF wf_less_than wf_less_than]]])
  case 1
  show ?case
  proof (cases "ps_pending st \<noteq> [] \<or> ps_running st \<noteq> []")
    case True
    then show ?thesis
      using 1 parallel_round_progress [OF "1.prems" assms(2,3) True] by (simp add: parallel_loop.simps [of net par st])
  next
    case False
    then show ?thesis using "1.prems" by (simp add: parallel_loop.simps [of net par st] open_tasks_def)
  qed
qed

text \<open>C5: Parallel execution ends if every poll that finds a connection busy brings the outside world closer to an answer. Then every
  task is completed or has failed after three retries, and the counts grew by the numbers of completed and of failed tasks.\<close>

theorem parallel_execution_settles_every_task:
  assumes "polls_end net rank" "0 < parallelism"
  shows "\<exists>s' b'. orochi_parallel_execute net s parallelism b = Some (s', b') \<and> de_all_completed s' \<and>
    length (de_tasks s') = length (de_tasks s) \<and>
    (\<forall>t \<in> set (de_tasks s'). rk_state t = TASK_COMPLETED \<or> rk_state t = TASK_FAILED \<and> rk_retry_count t \<ge> EXECUTOR_MAX_RETRIES) \<and>
    de_completed_count s' = de_completed_count s + count_if (\<lambda>t. rk_state t = TASK_COMPLETED) (de_tasks s') \<and>
    de_failed_count s' = de_failed_count s + count_if (\<lambda>t. rk_state t = TASK_FAILED) (de_tasks s')"
proof -
  let ?n = "length (de_tasks s)" and ?st = "\<lparr>ps_tasks = de_tasks s, ps_pending = [0 ..< length (de_tasks s)], ps_running = [], ps_active = 0,
           ps_completed = de_completed_count s, ps_failed = de_failed_count s, ps_backend = b\<rparr>"
  have "par_inv ?n (de_completed_count s) (de_failed_count s) ?st"
    by (auto simp: par_inv_def open_tasks_def closed_def)
  then obtain st where st: "parallel_loop net parallelism ?st = Some st" "par_inv ?n (de_completed_count s) (de_failed_count s) st" "open_tasks st = []"
    using parallel_loop_returns [OF _ assms] by blast
  have card: "int (card (closed st x)) = count_if (\<lambda>t. rk_state t = x) (ps_tasks st)" for x
    using st(3) by (simp add: closed_def count_if_def length_filter_conv_card)
  from st show ?thesis
    by (auto simp: orochi_parallel_execute_def par_inv_def card settled_def in_set_conv_nth)
qed

theorem parallel_execution_settles_every_task_witness:
  "\<exists>s b. orochi_parallel_execute ok_net (idle_state\<lparr>de_tasks := [new_task sample_fragment, new_task sample_fragment]\<rparr>) 1 one_node = Some (s, b) \<and>
     de_all_completed s \<and> length (de_tasks s) = 2"
proof -
  have "polls_end ok_net (\<lambda>w. 0)" by (simp add: polls_end_def ok_net_def)
  from parallel_execution_settles_every_task [OF this, of 1 "idle_state\<lparr>de_tasks := [new_task sample_fragment, new_task sample_fragment]\<rparr>" one_node]
  show ?thesis by (auto simp: idle_state_def)
qed

end
