(* ===== verification/Dist_Txn.thy ===== *)
theory Dist_Txn
  imports Dist_Executor "HOL-Library.Sublist"
begin

text \<open>
  The distributed executor, second part: two-phase commit (\<^verbatim>\<open>executor/distributed_executor.c\<close>, Transaction Coordination).

  The coordinator of a backend is its connections, the transaction in progress, the static counter of global ids and, for the
  statements below, the list of the commands it sent to workers and of the decisions it logged through Raft, each with its
  outcome. The four entry points of Raft that the code calls are the parameter \<open>raft_calls\<close>. \<^verbatim>\<open>elog(ERROR)\<close> leaves the
  static variables and the workers as they are: the error is returned beside the state.
\<close>

record DistributedTransactionState =
  dx_gid :: string
  dx_participants :: "int list"
  dx_prepared :: bool

datatype decision = RAFT_PREPARE | RAFT_COMMIT | RAFT_ABORT

datatype event = Sent int string bool | Logged decision string bool

record 'w raft_calls =
  rc_is_leader :: "'w \<Rightarrow> bool"
  rc_prepare :: "string \<Rightarrow> int list \<Rightarrow> 'w \<Rightarrow> bool \<times> 'w"
  rc_commit :: "string \<Rightarrow> 'w \<Rightarrow> bool \<times> 'w"
  rc_wait :: "string \<Rightarrow> 'w \<Rightarrow> bool \<times> 'w"
  rc_abort :: "string \<Rightarrow> 'w \<Rightarrow> bool \<times> 'w"

record 'w coordinator =
  co_backend :: "'w backend"
  co_dtxn :: "DistributedTransactionState option"
  co_counter :: nat
  co_log :: "event list"

section \<open>Definitions\<close>

text \<open>\<^verbatim>\<open>snprintf\<close> with the format \<^verbatim>\<open>orochi_2pc_%d_%lu_%lu\<close> into 64 characters.\<close>

definition generate_transaction_gid :: "nat \<Rightarrow> nat \<Rightarrow> nat \<Rightarrow> string" where
  "generate_transaction_gid pid now counter =
     take 63 (''orochi_2pc_'' @ decimal_string (int pid) @ ''_'' @ decimal_string (int now) @ ''_'' @ decimal_string (int counter))"

definition command_2pc :: "string \<Rightarrow> string \<Rightarrow> int \<Rightarrow> string" where
  "command_2pc verb gid node_id = verb @ [CHR '' '', CHR 0x27] @ gid @ ''_'' @ decimal_string node_id @ [CHR 0x27]"

definition execute_2pc_command :: "'w libpq \<Rightarrow> nat \<Rightarrow> string \<Rightarrow> 'w backend \<Rightarrow> bool \<times> 'w backend" where
  "execute_2pc_command net conn command b =
     (case pq_exec net conn command (be_world b) of (r, w) \<Rightarrow> (pr_status r = PGRES_COMMAND_OK, b\<lparr>be_world := w\<rparr>))"

definition orochi_begin_distributed_transaction :: "nat \<Rightarrow> nat \<Rightarrow> 'w coordinator \<Rightarrow> 'w coordinator" where
  "orochi_begin_distributed_transaction pid now s =
     (case co_dtxn s of
        Some d \<Rightarrow> s
      | None \<Rightarrow>
          (let n = co_counter s + 1 in
           s\<lparr>co_counter := n, co_dtxn := Some \<lparr>dx_gid = generate_transaction_gid pid now n, dx_participants = [], dx_prepared = False\<rparr>\<rparr>))"

text \<open>The nodes of the tasks, each once, and the shards they were found with.\<close>

fun collect_participants :: "RemoteTask list \<Rightarrow> int list \<Rightarrow> int list \<Rightarrow> int list \<times> int list" where
  "collect_participants [] nodes shards = (nodes, shards)"
| "collect_participants (t # ts) nodes shards =
     (let f = rk_fragment t in
      if fq_node_id f \<in> set nodes then collect_participants ts nodes shards
      else collect_participants ts (nodes @ [fq_node_id f]) (shards @ [wrap_i32 (fq_shard_id f)]))"

text \<open>The loop of both phases: a command for every node, until one cannot be reached or refuses. The connection of a node that refuses
  is not released.\<close>

datatype failure = Unreachable int | Refused int

fun send_until_failure :: "'w libpq \<Rightarrow> (int \<Rightarrow> string) \<Rightarrow> int list \<Rightarrow> 'w backend \<Rightarrow> event list \<Rightarrow> failure option \<times> 'w backend \<times> event list" where
  "send_until_failure net cmd [] b es = (None, b, es)"
| "send_until_failure net cmd (node_id # ns) b es =
     (case orochi_get_worker_connection net node_id b of
        (None, b1) \<Rightarrow> (Some (Unreachable node_id), b1, es)
      | (Some c, b1) \<Rightarrow>
          (case execute_2pc_command net c (cmd node_id) b1 of
             (False, b2) \<Rightarrow> (Some (Refused node_id), b2, es @ [Sent node_id (cmd node_id) False])
           | (True, b2) \<Rightarrow>
               send_until_failure net cmd ns (orochi_release_worker_connection net (Some c) b2) (es @ [Sent node_id (cmd node_id) True])))"

fun commit_error :: "string \<Rightarrow> failure \<Rightarrow> string" where
  "commit_error gid (Unreachable n) = ''Failed to connect to node '' @ decimal_string n @ '' during 2PC commit - transaction '' @ gid @ ''_'' @
     decimal_string n @ '' may be left prepared''"
| "commit_error gid (Refused n) = ''COMMIT PREPARED failed on node '' @ decimal_string n @ '' - manual resolution may be required for '' @
     gid @ ''_'' @ decimal_string n"

text \<open>One command for every node, whatever the outcome; nodes that cannot be reached are left out.\<close>

fun send_all :: "'w libpq \<Rightarrow> (int \<Rightarrow> string) \<Rightarrow> int list \<Rightarrow> 'w backend \<Rightarrow> event list \<Rightarrow> 'w backend \<times> event list" where
  "send_all net cmd [] b es = (b, es)"
| "send_all net cmd (node_id # ns) b es =
     (case orochi_get_worker_connection net node_id b of
        (None, b1) \<Rightarrow> send_all net cmd ns b1 es
      | (Some c, b1) \<Rightarrow>
          (case execute_2pc_command net c (cmd node_id) b1 of
             (ok, b2) \<Rightarrow> send_all net cmd ns (orochi_release_worker_connection net (Some c) b2) (es @ [Sent node_id (cmd node_id) ok])))"

text \<open>A decision is logged if this node is the leader of Raft; the outcome has no influence on what follows.\<close>

definition log_decision :: "'w raft_calls \<Rightarrow> bool \<Rightarrow> decision \<Rightarrow> string \<Rightarrow> ('w \<Rightarrow> bool \<times> 'w) \<Rightarrow> 'w coordinator \<Rightarrow> 'w coordinator" where
  "log_decision rc use_raft d gid call s =
     (if use_raft \<and> rc_is_leader rc (be_world (co_backend s))
      then case call (be_world (co_backend s)) of
        (ok, w) \<Rightarrow> s\<lparr>co_backend := (co_backend s)\<lparr>be_world := w\<rparr>, co_log := co_log s @ [Logged d gid ok]\<rparr>
      else s)"

definition orochi_rollback_distributed_transaction :: "'w libpq \<Rightarrow> 'w raft_calls \<Rightarrow> bool \<Rightarrow> 'w coordinator \<Rightarrow> 'w coordinator" where
  "orochi_rollback_distributed_transaction net rc use_raft s =
     (case co_dtxn s of
        None \<Rightarrow> s
      | Some d \<Rightarrow>
          (let s1 = (if dx_prepared d then log_decision rc use_raft RAFT_ABORT (dx_gid d) (rc_abort rc (dx_gid d)) s else s);
               cmd = (if dx_prepared d then command_2pc ''ROLLBACK PREPARED'' (dx_gid d) else (\<lambda>n. ''ROLLBACK'')) in
           case send_all net cmd (dx_participants d) (co_backend s1) (co_log s1) of
             (b, es) \<Rightarrow> s1\<lparr>co_backend := b, co_log := es, co_dtxn := None\<rparr>))"

definition orochi_prepare_distributed_transaction ::
  "'w libpq \<Rightarrow> 'w raft_calls \<Rightarrow> bool \<Rightarrow> RemoteTask list \<Rightarrow> 'w coordinator \<Rightarrow> bool \<times> 'w coordinator" where
  "orochi_prepare_distributed_transaction net rc use_raft tasks s =
     (case co_dtxn s of
        None \<Rightarrow> (False, s)
      | Some d \<Rightarrow>
          (case collect_participants tasks (dx_participants d) [] of
             (nodes, shards) \<Rightarrow>
               (case send_until_failure net (command_2pc ''PREPARE TRANSACTION'' (dx_gid d)) nodes (co_backend s) (co_log s) of
                  (None, b, es) \<Rightarrow>
                    (True, log_decision rc use_raft RAFT_PREPARE (dx_gid d) (rc_prepare rc (dx_gid d) shards)
                             (s\<lparr>co_backend := b, co_log := es, co_dtxn := Some (d\<lparr>dx_participants := nodes, dx_prepared := True\<rparr>)\<rparr>))
                | (Some _, b, es) \<Rightarrow>
                    (False, orochi_rollback_distributed_transaction net rc use_raft
                              (s\<lparr>co_backend := b, co_log := es, co_dtxn := Some (d\<lparr>dx_participants := nodes\<rparr>)\<rparr>)))))"

definition commit_decision :: "'w raft_calls \<Rightarrow> string \<Rightarrow> 'w \<Rightarrow> bool \<times> 'w" where
  "commit_decision rc gid w = (case rc_commit rc gid w of (False, w1) \<Rightarrow> (False, w1) | (True, w1) \<Rightarrow> (True, snd (rc_wait rc gid w1)))"

definition orochi_commit_distributed_transaction ::
  "'w libpq \<Rightarrow> 'w raft_calls \<Rightarrow> bool \<Rightarrow> 'w coordinator \<Rightarrow> string option \<times> 'w coordinator" where
  "orochi_commit_distributed_transaction net rc use_raft s =
     (case co_dtxn s of
        None \<Rightarrow> (None, s)
      | Some d \<Rightarrow>
          if \<not> dx_prepared d then (None, s)
          else let s1 = log_decision rc use_raft RAFT_COMMIT (dx_gid d) (commit_decision rc (dx_gid d)) s in
            case send_until_failure net (command_2pc ''COMMIT PREPARED'' (dx_gid d)) (dx_participants d) (co_backend s1) (co_log s1) of
              (Some f, b, es) \<Rightarrow> (Some (commit_error (dx_gid d) f), s1\<lparr>co_backend := b, co_log := es\<rparr>)
            | (None, b, es) \<Rightarrow> (None, s1\<lparr>co_backend := b, co_log := es, co_dtxn := None\<rparr>))"

section \<open>What is sent\<close>

fun to_worker :: "event \<Rightarrow> bool" where
  "to_worker (Sent n c ok) = True"
| "to_worker (Logged d g ok) = False"

lemma log_decision_fields [simp]:
  "co_dtxn (log_decision rc u d g call s) = co_dtxn s" "filter to_worker (co_log (log_decision rc u d g call s)) = filter to_worker (co_log s)"
  "co_counter (log_decision rc u d g call s) = co_counter s"
  by (simp_all add: log_decision_def split: prod.splits)

text \<open>The nodes \<open>sent\<close> accepted; if the loop stopped early, a node behind them could not be reached or refused.\<close>

lemma send_until_failure_log:
  assumes "send_until_failure net cmd ns b es = (r, b', es')"
  shows "\<exists>sent xs. prefix sent ns \<and> (r = None \<longleftrightarrow> sent = ns) \<and> es' = es @ map (\<lambda>n. Sent n (cmd n) True) sent @ xs \<and>
    (xs = [] \<or> (\<exists>n. n \<in> set ns \<and> xs = [Sent n (cmd n) False] \<and> r \<noteq> None))"
  using assms
proof (induction ns arbitrary: b es)
  case (Cons n ns)
  obtain c b1 where g: "orochi_get_worker_connection net n b = (c, b1)" by fastforce
  show ?case
  proof (cases c)
    case None
    then show ?thesis using Cons.prems g by auto
  next
    case (Some k)
    obtain ok b2 where e: "execute_2pc_command net k (cmd n) b1 = (ok, b2)" by fastforce
    show ?thesis
    proof (cases ok)
      case False
      then show ?thesis using Cons.prems g Some e by (intro exI [of _ "[]"] exI [of _ "[Sent n (cmd n) False]"]) auto
    next
      case True
      from Cons.IH [of "orochi_release_worker_connection net (Some k) b2" "es @ [Sent n (cmd n) True]"] Cons.prems g Some e True
      obtain sent xs where "prefix sent ns" "r = None \<longleftrightarrow> sent = ns" "es' = es @ [Sent n (cmd n) True] @ map (\<lambda>n. Sent n (cmd n) True) sent @ xs"
          "xs = [] \<or> (\<exists>m. m \<in> set ns \<and> xs = [Sent m (cmd m) False] \<and> r \<noteq> None)"
        by auto
      then show ?thesis by (intro exI [of _ "n # sent"] exI [of _ xs]) auto
    qed
  qed
qed simp

lemma send_all_log:
  assumes "send_all net cmd ns b es = (b', es')"
  shows "\<exists>xs. es' = es @ xs \<and> (\<forall>e \<in> set xs. \<exists>n ok. n \<in> set ns \<and> e = Sent n (cmd n) ok)"
  using assms
proof (induction ns arbitrary: b es)
  case (Cons n ns)
  obtain c b1 where g: "orochi_get_worker_connection net n b = (c, b1)" by fastforce
  show ?case
  proof (cases c)
    case None
    then show ?thesis using Cons.prems g Cons.IH by fastforce
  next
    case (Some k)
    obtain ok b2 where e: "execute_2pc_command net k (cmd n) b1 = (ok, b2)" by fastforce
    from Cons.IH [of "orochi_release_worker_connection net (Some k) b2" "es @ [Sent n (cmd n) ok]"] Cons.prems g Some e
    obtain xs where "es' = es @ [Sent n (cmd n) ok] @ xs" "\<forall>e \<in> set xs. \<exists>m ok. m \<in> set ns \<and> e = Sent m (cmd m) ok" by auto
    then show ?thesis by (intro exI [of _ "Sent n (cmd n) ok # xs"]) auto
  qed
qed simp

text \<open>A node that gets no command could not be connected to.\<close>

definition unreachable_node :: "'w libpq \<Rightarrow> 'w backend \<Rightarrow> int \<Rightarrow> bool" where
  "unreachable_node net b n = (\<exists>b'. be_catalog b' = be_catalog b \<and> be_database b' = be_database b \<and>
     fst (orochi_get_worker_connection net n b') = None)"

lemma backend_frame:
  "be_catalog (snd (orochi_get_worker_connection net n b)) = be_catalog b"
  "be_database (snd (orochi_get_worker_connection net n b)) = be_database b"
  "be_catalog (snd (execute_2pc_command net k c b)) = be_catalog b"
  "be_database (snd (execute_2pc_command net k c b)) = be_database b"
  "be_catalog (orochi_release_worker_connection net k' b) = be_catalog b"
  "be_database (orochi_release_worker_connection net k' b) = be_database b"
  by (simp_all add: orochi_get_worker_connection_def execute_2pc_command_def orochi_release_worker_connection_def
      split: prod.splits option.splits)

lemma unreachable_cong:
  "be_catalog b = be_catalog b' \<Longrightarrow> be_database b = be_database b' \<Longrightarrow> unreachable_node net b = unreachable_node net b'"
  by (simp add: unreachable_node_def fun_eq_iff)

lemma send_until_failure_frame:
  assumes "send_until_failure net cmd ns b es = (r, b', es')"
  shows "be_catalog b' = be_catalog b \<and> be_database b' = be_database b"
  using assms
proof (induction ns arbitrary: b es)
  case (Cons n ns)
  obtain c b1 where g: "orochi_get_worker_connection net n b = (c, b1)" by fastforce
  have f1: "be_catalog b1 = be_catalog b" "be_database b1 = be_database b" using backend_frame(1,2) [of net n b] g by simp_all
  show ?case
  proof (cases c)
    case (Some k)
    obtain ok b2 where e: "execute_2pc_command net k (cmd n) b1 = (ok, b2)" by fastforce
    have "be_catalog b2 = be_catalog b" "be_database b2 = be_database b"
      using f1 backend_frame(3,4) [of net k "cmd n" b1] e by simp_all
    with Cons g Some e backend_frame(5,6) [of net "Some k" b2] show ?thesis by (fastforce split: if_splits bool.splits)
  qed (use Cons.prems g f1 in simp)
qed simp

lemma send_all_reaches:
  assumes "send_all net cmd ns b es = (b', es')"
  shows "\<exists>rs. es' = es @ map (\<lambda>(n, ok). Sent n (cmd n) ok) rs \<and> subseq (map fst rs) ns \<and>
    (\<forall>n \<in> set ns. n \<in> fst ` set rs \<or> unreachable_node net b n)"
  using assms
proof (induction ns arbitrary: b es)
  case (Cons n ns)
  obtain c b1 where g: "orochi_get_worker_connection net n b = (c, b1)" by fastforce
  have f1: "be_catalog b1 = be_catalog b" "be_database b1 = be_database b" using backend_frame(1,2) [of net n b] g by simp_all
  show ?case
  proof (cases c)
    case None
    have "unreachable_node net b n" using g None unfolding unreachable_node_def by (intro exI [of _ b]) simp
    moreover have "send_all net cmd ns b1 es = (b', es')" using Cons.prems g None by simp
    ultimately show ?thesis
      using Cons.IH [of b1 es] unreachable_cong [OF f1, of net] by (fastforce intro: subseq_Cons')
  next
    case (Some k)
    obtain ok b2 where e: "execute_2pc_command net k (cmd n) b1 = (ok, b2)" by fastforce
    let ?b = "orochi_release_worker_connection net (Some k) b2"
    have f2: "be_catalog ?b = be_catalog b" "be_database ?b = be_database b"
      using f1 backend_frame(3,4) [of net k "cmd n" b1] backend_frame(5,6) [of net "Some k" b2] e by simp_all
    from Cons.IH [of ?b "es @ [Sent n (cmd n) ok]"] Cons.prems g Some e
    obtain rs where "es' = es @ [Sent n (cmd n) ok] @ map (\<lambda>(n, ok). Sent n (cmd n) ok) rs" "subseq (map fst rs) ns"
        "\<forall>n \<in> set ns. n \<in> fst ` set rs \<or> unreachable_node net ?b n" by auto
    then show ?thesis
      using unreachable_cong [OF f2, of net] by (intro exI [of _ "(n, ok) # rs"]) auto
  qed
qed simp

lemma collect_participants_nodes:
  "distinct nodes \<Longrightarrow> distinct (fst (collect_participants ts nodes shards)) \<and>
     set (fst (collect_participants ts nodes shards)) = set nodes \<union> (\<lambda>t. fq_node_id (rk_fragment t)) ` set ts"
  by (induction ts nodes shards rule: collect_participants.induct) (auto simp: Let_def)

lemmas two_phase_defs = orochi_prepare_distributed_transaction_def orochi_commit_distributed_transaction_def
  orochi_rollback_distributed_transaction_def orochi_begin_distributed_transaction_def

text \<open>The results of preparing and committing in terms of the loop.\<close>

lemma prepared_shape:
  assumes "orochi_prepare_distributed_transaction net rc u tasks s = (True, s1)" "co_dtxn s = Some d"
  shows "\<exists>b es. send_until_failure net (command_2pc ''PREPARE TRANSACTION'' (dx_gid d)) (fst (collect_participants tasks (dx_participants d) []))
           (co_backend s) (co_log s) = (None, b, es) \<and> filter to_worker (co_log s1) = filter to_worker es \<and> set es \<subseteq> set (co_log s1) \<and>
    co_dtxn s1 = Some (d\<lparr>dx_participants := fst (collect_participants tasks (dx_participants d) []), dx_prepared := True\<rparr>)"
  using assms
  by (auto simp: orochi_prepare_distributed_transaction_def log_decision_def split: prod.splits option.splits if_splits)

lemma committed_shape:
  assumes "orochi_commit_distributed_transaction net rc u s = (err, s1)" "co_dtxn s = Some d" "dx_prepared d"
  shows "\<exists>r b0 l0 b es. send_until_failure net (command_2pc ''COMMIT PREPARED'' (dx_gid d)) (dx_participants d) b0 l0 = (r, b, es) \<and>
    filter to_worker l0 = filter to_worker (co_log s) \<and> (l0 = co_log s \<or> (\<exists>ok. l0 = co_log s @ [Logged RAFT_COMMIT (dx_gid d) ok])) \<and>
    co_log s1 = es \<and> (err = None \<longleftrightarrow> r = None) \<and> co_dtxn s1 = (if r = None then None else Some d)"
proof -
  let ?s1 = "log_decision rc u RAFT_COMMIT (dx_gid d) (commit_decision rc (dx_gid d)) s"
  obtain r b es where r: "send_until_failure net (command_2pc ''COMMIT PREPARED'' (dx_gid d)) (dx_participants d) (co_backend ?s1) (co_log ?s1) = (r, b, es)"
    by (metis prod_cases3)
  have "co_log ?s1 = co_log s \<or> (\<exists>ok. co_log ?s1 = co_log s @ [Logged RAFT_COMMIT (dx_gid d) ok])"
    by (auto simp: log_decision_def split: prod.splits)
  with r assms show ?thesis
    by (intro exI [of _ r] exI [of _ "co_backend ?s1"] exI [of _ "co_log ?s1"] exI [of _ b] exI [of _ es])
      (auto simp: orochi_commit_distributed_transaction_def split: option.splits)
qed

text \<open>C12: If preparing succeeds and committing raises no error, then the workers saw exactly this: every node that has a task accepted one
  PREPARE TRANSACTION, and only after all of them had, each of them accepted one COMMIT PREPARED with the same id.\<close>

theorem two_phase_commit_order:
  assumes "co_dtxn s = Some d" "dx_participants d = []"
    and "orochi_prepare_distributed_transaction net rc u tasks s = (True, s1)"
    and "orochi_commit_distributed_transaction net rc u' s1 = (None, s2)"
  shows "\<exists>ns. distinct ns \<and> set ns = (\<lambda>t. fq_node_id (rk_fragment t)) ` set tasks \<and> co_dtxn s2 = None \<and>
    filter to_worker (co_log s2) = filter to_worker (co_log s) @
      map (\<lambda>n. Sent n (command_2pc ''PREPARE TRANSACTION'' (dx_gid d) n) True) ns @
      map (\<lambda>n. Sent n (command_2pc ''COMMIT PREPARED'' (dx_gid d) n) True) ns"
proof -
  let ?ns = "fst (collect_participants tasks [] [])" and ?d = "d\<lparr>dx_participants := fst (collect_participants tasks [] []), dx_prepared := True\<rparr>"
  obtain b es where p: "send_until_failure net (command_2pc ''PREPARE TRANSACTION'' (dx_gid d)) ?ns (co_backend s) (co_log s) = (None, b, es)"
      "filter to_worker (co_log s1) = filter to_worker es" "co_dtxn s1 = Some ?d"
    using prepared_shape [OF assms(3,1)] assms(2) by auto
  obtain b0 l0 b' es' where c: "send_until_failure net (command_2pc ''COMMIT PREPARED'' (dx_gid d)) ?ns b0 l0 = (None, b', es')"
      "filter to_worker l0 = filter to_worker (co_log s1)" "co_log s2 = es'" "co_dtxn s2 = None"
    using committed_shape [OF assms(4) p(3)] by auto
  have "es = co_log s @ map (\<lambda>n. Sent n (command_2pc ''PREPARE TRANSACTION'' (dx_gid d) n) True) ?ns"
    using send_until_failure_log [OF p(1)] by auto
  moreover have "es' = l0 @ map (\<lambda>n. Sent n (command_2pc ''COMMIT PREPARED'' (dx_gid d) n) True) ?ns"
    using send_until_failure_log [OF c(1)] by auto
  ultimately show ?thesis
    using p(2) c(2-4) collect_participants_nodes [of "[]" tasks "[]"]
    by (intro exI [of _ ?ns]) (auto simp: filter_map o_def)
qed

text \<open>If committing fails at a node, the nodes before it have committed, the others were not told, and the transaction stays the
  current one: every later attempt to begin a distributed transaction in this backend is refused.\<close>

theorem failed_commit_is_partial_and_blocks:
  assumes "orochi_commit_distributed_transaction net rc u s = (Some err, s1)"
  shows "\<exists>d committed rest. co_dtxn s = Some d \<and> dx_participants d = committed @ rest \<and> rest \<noteq> [] \<and>
    (\<exists>xs. filter to_worker (co_log s1) = filter to_worker (co_log s) @
       map (\<lambda>n. Sent n (command_2pc ''COMMIT PREPARED'' (dx_gid d) n) True) committed @ xs \<and> (\<forall>e \<in> set xs. \<exists>n c. e = Sent n c False)) \<and>
    orochi_begin_distributed_transaction pid now s1 = s1"
proof -
  obtain d where d: "co_dtxn s = Some d" "dx_prepared d"
    using assms by (auto simp: orochi_commit_distributed_transaction_def split: option.splits if_splits)
  obtain r b0 l0 b es where c: "send_until_failure net (command_2pc ''COMMIT PREPARED'' (dx_gid d)) (dx_participants d) b0 l0 = (r, b, es)"
      "filter to_worker l0 = filter to_worker (co_log s)" "co_log s1 = es" "r \<noteq> None" "co_dtxn s1 = Some d"
    using committed_shape [OF assms d] by auto
  obtain sent xs where x: "prefix sent (dx_participants d)" "sent \<noteq> dx_participants d"
      "es = l0 @ map (\<lambda>n. Sent n (command_2pc ''COMMIT PREPARED'' (dx_gid d) n) True) sent @ xs"
      "xs = [] \<or> (\<exists>n. xs = [Sent n (command_2pc ''COMMIT PREPARED'' (dx_gid d) n) False])"
    using send_until_failure_log [OF c(1)] c(4) by auto
  from x(1) obtain rest where "dx_participants d = sent @ rest" by (auto simp: prefix_def)
  moreover have "filter to_worker (co_log s1) = filter to_worker (co_log s) @
       map (\<lambda>n. Sent n (command_2pc ''COMMIT PREPARED'' (dx_gid d) n) True) sent @ xs"
    using c(2,3) x(3,4) by (auto simp: filter_map o_def)
  ultimately show ?thesis
    using d(1) c(5) x(2,4) by (intro exI [of _ d] exI [of _ sent] exI [of _ rest]) (auto simp: orochi_begin_distributed_transaction_def)
qed

text \<open>C40: If preparing fails, every participant that can be connected to, the ones that had accepted PREPARE TRANSACTION among them, is
  sent a plain ROLLBACK, which does nothing to a prepared transaction. No ROLLBACK PREPARED is sent, whatever the outcome, and the
  coordinator forgets the transaction: it stays prepared on the nodes that accepted.\<close>

theorem failed_prepare_leaves_nodes_prepared:
  assumes "co_dtxn s = Some d" "\<not> dx_prepared d" "orochi_prepare_distributed_transaction net rc u tasks s = (False, s1)"
  shows "co_dtxn s1 = None \<and> (\<exists>prepared xs rs.
      prefix prepared (fst (collect_participants tasks (dx_participants d) [])) \<and>
      co_log s1 = co_log s @ map (\<lambda>n. Sent n (command_2pc ''PREPARE TRANSACTION'' (dx_gid d) n) True) prepared @ xs @
        map (\<lambda>(n, ok). Sent n ''ROLLBACK'' ok) rs \<and>
      (xs = [] \<or> (\<exists>n. xs = [Sent n (command_2pc ''PREPARE TRANSACTION'' (dx_gid d) n) False])) \<and>
      subseq (map fst rs) (fst (collect_participants tasks (dx_participants d) [])) \<and>
      (\<forall>n \<in> set (fst (collect_participants tasks (dx_participants d) [])). n \<in> fst ` set rs \<or> unreachable_node net (co_backend s) n))"
proof -
  obtain nodes shards where n: "collect_participants tasks (dx_participants d) [] = (nodes, shards)" by fastforce
  obtain r b es where p: "send_until_failure net (command_2pc ''PREPARE TRANSACTION'' (dx_gid d)) nodes (co_backend s) (co_log s) = (r, b, es)"
    by (metis prod_cases3)
  obtain b' es' where q: "send_all net (\<lambda>n. ''ROLLBACK'') nodes b es = (b', es')" by fastforce
  obtain f where "r = Some f" using assms n p by (cases r) (auto simp: orochi_prepare_distributed_transaction_def)
  then have "orochi_prepare_distributed_transaction net rc u tasks s =
      (False, orochi_rollback_distributed_transaction net rc u (s\<lparr>co_backend := b, co_log := es, co_dtxn := Some (d\<lparr>dx_participants := nodes\<rparr>)\<rparr>))"
    using assms(1) n p by (simp add: orochi_prepare_distributed_transaction_def)
  moreover have "orochi_rollback_distributed_transaction net rc u (s\<lparr>co_backend := b, co_log := es, co_dtxn := Some (d\<lparr>dx_participants := nodes\<rparr>)\<rparr>) =
      s\<lparr>co_backend := b', co_log := es', co_dtxn := None\<rparr>"
    using assms(2) q by (simp add: orochi_rollback_distributed_transaction_def Let_def)
  ultimately have s1: "co_dtxn s1 = None" "co_log s1 = es'" using assms(3) by simp_all
  obtain sent xs where x: "prefix sent nodes" "es = co_log s @ map (\<lambda>n. Sent n (command_2pc ''PREPARE TRANSACTION'' (dx_gid d) n) True) sent @ xs"
      "xs = [] \<or> (\<exists>n. xs = [Sent n (command_2pc ''PREPARE TRANSACTION'' (dx_gid d) n) False])"
    using send_until_failure_log [OF p] by auto
  obtain rs where rs: "es' = es @ map (\<lambda>(n, ok). Sent n ''ROLLBACK'' ok) rs" "subseq (map fst rs) nodes"
      "\<forall>n \<in> set nodes. n \<in> fst ` set rs \<or> unreachable_node net b n"
    using send_all_reaches [OF q] by auto
  have "unreachable_node net b = unreachable_node net (co_backend s)"
    by (rule unreachable_cong) (use send_until_failure_frame [OF p] in simp_all)
  with s1 x rs n show ?thesis by (intro conjI exI [of _ sent] exI [of _ xs] exI [of _ rs]) simp_all
qed

section \<open>No commit before every node is prepared\<close>

definition commit_after_prepare :: "event list \<Rightarrow> bool" where
  "commit_after_prepare l =
     (\<forall>xs n g ok ys. l = xs @ Sent n (command_2pc ''COMMIT PREPARED'' g n) ok # ys \<longrightarrow>
        Sent n (command_2pc ''PREPARE TRANSACTION'' g n) True \<in> set xs)"

definition is_commit :: "event \<Rightarrow> bool" where
  "is_commit e = (\<exists>n g ok. e = Sent n (command_2pc ''COMMIT PREPARED'' g n) ok)"

definition txn_inv :: "'w coordinator \<Rightarrow> bool" where
  "txn_inv s = (commit_after_prepare (co_log s) \<and>
     (\<forall>d. co_dtxn s = Some d \<and> dx_prepared d \<longrightarrow>
        (\<forall>n \<in> set (dx_participants d). Sent n (command_2pc ''PREPARE TRANSACTION'' (dx_gid d) n) True \<in> set (co_log s))))"

lemma command_2pc_inject [simp]: "command_2pc v g n = command_2pc v g' n \<longleftrightarrow> g = g'"
  by (simp add: command_2pc_def)

lemma not_commit [simp]:
  "\<not> is_commit (Sent n (command_2pc ''PREPARE TRANSACTION'' g m) ok)" "\<not> is_commit (Sent n (command_2pc ''ROLLBACK PREPARED'' g m) ok)"
  "\<not> is_commit (Sent n ''ROLLBACK'' ok)" "\<not> is_commit (Logged d g ok)"
  by (simp_all add: is_commit_def command_2pc_def)

lemma commit_after_prepare_Nil: "commit_after_prepare []"
  by (simp add: commit_after_prepare_def)

lemma commit_after_prepare_snoc:
  assumes "commit_after_prepare l" "\<And>n g ok. e = Sent n (command_2pc ''COMMIT PREPARED'' g n) ok \<Longrightarrow> Sent n (command_2pc ''PREPARE TRANSACTION'' g n) True \<in> set l"
  shows "commit_after_prepare (l @ [e])"
  unfolding commit_after_prepare_def
proof (intro allI impI)
  fix xs n g ok ys
  assume eq: "l @ [e] = xs @ Sent n (command_2pc ''COMMIT PREPARED'' g n) ok # ys"
  show "Sent n (command_2pc ''PREPARE TRANSACTION'' g n) True \<in> set xs"
  proof (cases ys rule: rev_cases)
    case Nil
    then show ?thesis using eq assms(2) by simp
  next
    case (snoc zs z)
    then have "l = xs @ Sent n (command_2pc ''COMMIT PREPARED'' g n) ok # zs" using eq by simp
    then show ?thesis using assms(1) unfolding commit_after_prepare_def by blast
  qed
qed

lemma commit_after_prepare_append:
  assumes "commit_after_prepare l"
    and "\<And>e n g ok. e \<in> set new \<Longrightarrow> e = Sent n (command_2pc ''COMMIT PREPARED'' g n) ok \<Longrightarrow> Sent n (command_2pc ''PREPARE TRANSACTION'' g n) True \<in> set l"
  shows "commit_after_prepare (l @ new)"
  using assms(2)
proof (induction new rule: rev_induct)
  case Nil
  then show ?case using assms(1) by simp
next
  case (snoc e new)
  have "commit_after_prepare (l @ new)" using snoc.IH snoc.prems by auto
  then have "commit_after_prepare ((l @ new) @ [e])"
    by (rule commit_after_prepare_snoc) (use snoc.prems [of e] in auto)
  then show ?case by simp
qed

lemma commit_after_prepare_harmless:
  "commit_after_prepare l \<Longrightarrow> \<forall>e \<in> set new. \<not> is_commit e \<Longrightarrow> commit_after_prepare (l @ new)"
  by (rule commit_after_prepare_append) (auto simp: is_commit_def)

lemma log_decision_inv:
  "txn_inv s \<Longrightarrow> txn_inv (log_decision rc u d g call s)"
  by (auto simp: txn_inv_def log_decision_def intro!: commit_after_prepare_harmless split: prod.splits)

lemma rollback_log:
  assumes "commit_after_prepare (co_log s)"
  shows "commit_after_prepare (co_log (orochi_rollback_distributed_transaction net rc u s))"
    "co_dtxn (orochi_rollback_distributed_transaction net rc u s) = None"
proof -
  have "commit_after_prepare (co_log (orochi_rollback_distributed_transaction net rc u s)) \<and>
      co_dtxn (orochi_rollback_distributed_transaction net rc u s) = None"
  proof (cases "co_dtxn s")
    case (Some d)
    define s1 where "s1 = (if dx_prepared d then log_decision rc u RAFT_ABORT (dx_gid d) (rc_abort rc (dx_gid d)) s else s)"
    define cmd where "cmd = (if dx_prepared d then command_2pc ''ROLLBACK PREPARED'' (dx_gid d) else (\<lambda>n. ''ROLLBACK''))"
    obtain b es where q: "send_all net cmd (dx_participants d) (co_backend s1) (co_log s1) = (b, es)" by fastforce
    have "commit_after_prepare (co_log s1)"
      using assms by (auto simp: s1_def log_decision_def intro!: commit_after_prepare_harmless split: prod.splits)
    moreover obtain xs where xs: "es = co_log s1 @ xs" "\<forall>e \<in> set xs. \<exists>n ok. n \<in> set (dx_participants d) \<and> e = Sent n (cmd n) ok"
      using send_all_log [OF q] by blast
    moreover have "\<not> is_commit (Sent n (cmd n) ok)" for n ok by (simp add: cmd_def)
    ultimately have "commit_after_prepare es" by (metis commit_after_prepare_harmless)
    then show ?thesis using Some q
      by (simp add: orochi_rollback_distributed_transaction_def s1_def [symmetric] cmd_def [symmetric])
  qed (use assms in \<open>simp add: orochi_rollback_distributed_transaction_def\<close>)
  then show "commit_after_prepare (co_log (orochi_rollback_distributed_transaction net rc u s))"
    "co_dtxn (orochi_rollback_distributed_transaction net rc u s) = None" by simp_all
qed

lemma rollback_inv: "txn_inv s \<Longrightarrow> txn_inv (orochi_rollback_distributed_transaction net rc u s)"
  by (simp add: txn_inv_def rollback_log)

lemma prepare_inv:
  assumes "txn_inv s"
  shows "txn_inv (snd (orochi_prepare_distributed_transaction net rc u tasks s))"
proof (cases "co_dtxn s")
  case (Some d)
  obtain nodes shards where n: "collect_participants tasks (dx_participants d) [] = (nodes, shards)" by fastforce
  obtain r b es where p: "send_until_failure net (command_2pc ''PREPARE TRANSACTION'' (dx_gid d)) nodes (co_backend s) (co_log s) = (r, b, es)"
    by (metis prod_cases3)
  obtain sent xs where x: "r = None \<longleftrightarrow> sent = nodes" "es = co_log s @ map (\<lambda>n. Sent n (command_2pc ''PREPARE TRANSACTION'' (dx_gid d) n) True) sent @ xs"
      "xs = [] \<or> (\<exists>n. xs = [Sent n (command_2pc ''PREPARE TRANSACTION'' (dx_gid d) n) False])"
    using send_until_failure_log [OF p] by auto
  have c: "commit_after_prepare es"
    unfolding x(2) by (rule commit_after_prepare_harmless) (use assms x(3) in \<open>auto simp: txn_inv_def\<close>)
  show ?thesis
  proof (cases r)
    case None
    have "txn_inv (s\<lparr>co_backend := b, co_log := es, co_dtxn := Some (d\<lparr>dx_participants := nodes, dx_prepared := True\<rparr>)\<rparr>)"
      using c x None by (auto simp: txn_inv_def)
    with None show ?thesis using Some n p by (simp add: orochi_prepare_distributed_transaction_def log_decision_inv)
  next
    case (Some f)
    then show ?thesis using \<open>co_dtxn s = Some d\<close> n p c by (simp add: orochi_prepare_distributed_transaction_def txn_inv_def rollback_log)
  qed
qed (use assms in \<open>simp add: orochi_prepare_distributed_transaction_def\<close>)

lemma commit_inv:
  assumes "txn_inv s"
  shows "txn_inv (snd (orochi_commit_distributed_transaction net rc u s))"
proof (cases "\<exists>d. co_dtxn s = Some d \<and> dx_prepared d")
  case True
  then obtain d where d: "co_dtxn s = Some d" "dx_prepared d" by blast
  obtain err s1 where e: "orochi_commit_distributed_transaction net rc u s = (err, s1)" by fastforce
  obtain r b0 l0 b es where c: "send_until_failure net (command_2pc ''COMMIT PREPARED'' (dx_gid d)) (dx_participants d) b0 l0 = (r, b, es)"
      "l0 = co_log s \<or> (\<exists>ok. l0 = co_log s @ [Logged RAFT_COMMIT (dx_gid d) ok])" "co_log s1 = es" "co_dtxn s1 = (if r = None then None else Some d)"
    using committed_shape [OF e d] by blast
  obtain sent xs where x: "prefix sent (dx_participants d)" "es = l0 @ map (\<lambda>n. Sent n (command_2pc ''COMMIT PREPARED'' (dx_gid d) n) True) sent @ xs"
      "xs = [] \<or> (\<exists>n. n \<in> set (dx_participants d) \<and> xs = [Sent n (command_2pc ''COMMIT PREPARED'' (dx_gid d) n) False])"
    using send_until_failure_log [OF c(1)] by blast
  have prep: "Sent n (command_2pc ''PREPARE TRANSACTION'' (dx_gid d) n) True \<in> set l0" if "n \<in> set (dx_participants d)" for n
    using assms d that c(2) by (auto simp: txn_inv_def)
  have "commit_after_prepare l0" using assms c(2) by (auto simp: txn_inv_def intro: commit_after_prepare_harmless)
  then have "commit_after_prepare es"
    unfolding x(2) by (rule commit_after_prepare_append) (use x(1,3) prep set_mono_prefix [OF x(1)] in auto)
  then show ?thesis using e c(3,4) x(2) prep by (auto simp: txn_inv_def)
next
  case False
  then show ?thesis using assms by (auto simp: orochi_commit_distributed_transaction_def split: option.splits)
qed

lemma begin_inv: "txn_inv s \<Longrightarrow> txn_inv (orochi_begin_distributed_transaction pid now s)"
  by (auto simp: txn_inv_def orochi_begin_distributed_transaction_def Let_def split: option.splits)

text \<open>What a backend can do with distributed transactions; between the calls its connections and the world change in any way.\<close>

inductive txn_step :: "'w libpq \<Rightarrow> 'w raft_calls \<Rightarrow> 'w coordinator \<Rightarrow> 'w coordinator \<Rightarrow> bool" for net rc where
  step_begin: "txn_step net rc s (orochi_begin_distributed_transaction pid now s)"
| step_prepare: "txn_step net rc s (snd (orochi_prepare_distributed_transaction net rc u tasks s))"
| step_commit: "txn_step net rc s (snd (orochi_commit_distributed_transaction net rc u s))"
| step_rollback: "txn_step net rc s (orochi_rollback_distributed_transaction net rc u s)"
| step_other: "txn_step net rc s (s\<lparr>co_backend := b\<rparr>)"

definition idle_coordinator :: "'w coordinator \<Rightarrow> bool" where
  "idle_coordinator s = (co_dtxn s = None \<and> co_log s = [])"

interpretation transactions: invariant_system idle_coordinator "txn_step net rc" txn_inv for net rc
proof unfold_locales
  show "idle_coordinator s \<Longrightarrow> txn_inv s" for s :: "'a coordinator"
    by (simp add: idle_coordinator_def txn_inv_def commit_after_prepare_Nil)
  show "txn_inv s \<Longrightarrow> txn_step net rc s t \<Longrightarrow> txn_inv t" for s t :: "'a coordinator"
    by (erule txn_step.cases) (auto simp: begin_inv prepare_inv commit_inv rollback_inv, simp add: txn_inv_def)
qed

text \<open>C4: Whatever transactions a backend runs and wherever they fail, a COMMIT PREPARED is sent to a node only after the node accepted the
  PREPARE TRANSACTION with the same id, and while a transaction counts as prepared all its participants have accepted.\<close>

theorem no_commit_before_prepare:
  assumes "reach idle_coordinator (txn_step net rc) s"
  shows "(\<forall>xs n g ok ys. co_log s = xs @ Sent n (command_2pc ''COMMIT PREPARED'' g n) ok # ys \<longrightarrow>
            Sent n (command_2pc ''PREPARE TRANSACTION'' g n) True \<in> set xs) \<and>
    (\<forall>d. co_dtxn s = Some d \<and> dx_prepared d \<longrightarrow>
        (\<forall>n \<in> set (dx_participants d). Sent n (command_2pc ''PREPARE TRANSACTION'' (dx_gid d) n) True \<in> set (co_log s)))"
  using transactions.inv_reach [OF assms] by (simp add: txn_inv_def commit_after_prepare_def)

section \<open>Examples\<close>

text \<open>One worker, node 1; node 2 is not in the catalog.\<close>

definition no_raft :: "nat raft_calls" where
  "no_raft = \<lparr>rc_is_leader = (\<lambda>w. False), rc_prepare = (\<lambda>g ss w. (False, w)), rc_commit = (\<lambda>g w. (False, w)), rc_wait = (\<lambda>g w. (False, w)),
     rc_abort = (\<lambda>g w. (False, w))\<rparr>"

definition coordinator_with :: "DistributedTransactionState option \<Rightarrow> nat coordinator" where
  "coordinator_with d = \<lparr>co_backend = one_node, co_dtxn = d, co_counter = 0, co_log = []\<rparr>"

definition fresh_txn :: DistributedTransactionState where
  "fresh_txn = \<lparr>dx_gid = ''g'', dx_participants = [], dx_prepared = False\<rparr>"

definition task_on :: "int \<Rightarrow> RemoteTask" where
  "task_on n = new_task (sample_fragment\<lparr>fq_node_id := n\<rparr>)"

lemma task_on_fields: "fq_node_id (rk_fragment (task_on n)) = n" "fq_shard_id (rk_fragment (task_on n)) = 1"
  by (simp_all add: task_on_def new_task_def sample_fragment_def)

lemmas example_simps = coordinator_with_def one_node_def worker_node_def orochi_get_worker_connection_def orochi_catalog_get_node_def
  orochi_release_worker_connection_def execute_2pc_command_def ok_net_def ok_result_def log_decision_def no_raft_def task_on_fields fresh_txn_def
  conn_alive_def

lemma example_commits:
  "\<exists>s1 s2. orochi_prepare_distributed_transaction ok_net no_raft True [task_on 1] (coordinator_with (Some fresh_txn)) = (True, s1) \<and>
     orochi_commit_distributed_transaction ok_net no_raft True s1 = (None, s2)"
  by (simp add: orochi_prepare_distributed_transaction_def orochi_commit_distributed_transaction_def example_simps Let_def)

theorem two_phase_commit_order_witness:
  "\<exists>s1 s2 ns. orochi_commit_distributed_transaction ok_net no_raft True s1 = (None, s2) \<and> set ns = {1} \<and>
     filter to_worker (co_log s2) = map (\<lambda>n. Sent n (command_2pc ''PREPARE TRANSACTION'' ''g'' n) True) ns @
       map (\<lambda>n. Sent n (command_2pc ''COMMIT PREPARED'' ''g'' n) True) ns"
proof -
  obtain s1 s2 where s: "orochi_prepare_distributed_transaction ok_net no_raft True [task_on 1] (coordinator_with (Some fresh_txn)) = (True, s1)"
      "orochi_commit_distributed_transaction ok_net no_raft True s1 = (None, s2)" using example_commits by blast
  have d: "co_dtxn (coordinator_with (Some fresh_txn)) = Some fresh_txn" "dx_participants fresh_txn = []" "dx_gid fresh_txn = ''g''"
      "co_log (coordinator_with (Some fresh_txn)) = []"
    by (simp_all add: coordinator_with_def fresh_txn_def)
  from two_phase_commit_order [OF d(1,2) s] s(2) show ?thesis unfolding d by (fastforce simp: task_on_fields)
qed

definition prepared_txn :: DistributedTransactionState where
  "prepared_txn = \<lparr>dx_gid = ''g'', dx_participants = [1, 2], dx_prepared = True\<rparr>"

lemma example_fails:
  "\<exists>err s1. orochi_commit_distributed_transaction ok_net no_raft True (coordinator_with (Some prepared_txn)) = (Some err, s1)"
  by (simp add: orochi_commit_distributed_transaction_def prepared_txn_def example_simps Let_def)

theorem failed_commit_is_partial_and_blocks_witness:
  "\<exists>err s1. orochi_commit_distributed_transaction ok_net no_raft True (coordinator_with (Some prepared_txn)) = (Some err, s1) \<and>
     orochi_begin_distributed_transaction 7 8 s1 = s1"
proof -
  obtain err s1 where "orochi_commit_distributed_transaction ok_net no_raft True (coordinator_with (Some prepared_txn)) = (Some err, s1)"
    using example_fails by blast
  with failed_commit_is_partial_and_blocks [OF this, of 7 8] show ?thesis by blast
qed

lemma example_not_prepared:
  "\<exists>s1. orochi_prepare_distributed_transaction ok_net no_raft True [task_on 1, task_on 2] (coordinator_with (Some fresh_txn)) = (False, s1) \<and>
     Sent 1 (command_2pc ''PREPARE TRANSACTION'' ''g'' 1) True \<in> set (co_log s1)"
  by (simp add: orochi_prepare_distributed_transaction_def orochi_rollback_distributed_transaction_def example_simps Let_def)

lemma ok_net_connects: "\<not> unreachable_node ok_net (co_backend (coordinator_with t)) 1"
  by (auto simp: unreachable_node_def orochi_get_worker_connection_def coordinator_with_def one_node_def worker_node_def
      orochi_catalog_get_node_def ok_net_def split: prod.splits option.splits)

theorem failed_prepare_leaves_nodes_prepared_witness:
  "\<exists>s1 ok. orochi_prepare_distributed_transaction ok_net no_raft True [task_on 1, task_on 2] (coordinator_with (Some fresh_txn)) = (False, s1) \<and>
     Sent 1 (command_2pc ''PREPARE TRANSACTION'' ''g'' 1) True \<in> set (co_log s1) \<and> Sent 1 ''ROLLBACK'' ok \<in> set (co_log s1) \<and> co_dtxn s1 = None"
proof -
  obtain s1 where s: "orochi_prepare_distributed_transaction ok_net no_raft True [task_on 1, task_on 2] (coordinator_with (Some fresh_txn)) = (False, s1)"
      "Sent 1 (command_2pc ''PREPARE TRANSACTION'' ''g'' 1) True \<in> set (co_log s1)" using example_not_prepared by blast
  have d: "co_dtxn (coordinator_with (Some fresh_txn)) = Some fresh_txn" "\<not> dx_prepared fresh_txn"
    by (simp_all add: coordinator_with_def fresh_txn_def)
  have "1 \<in> set (fst (collect_participants [task_on 1, task_on 2] (dx_participants fresh_txn) []))"
    by (simp add: fresh_txn_def task_on_fields Let_def)
  moreover obtain ys zs rs where
      r: "\<forall>n \<in> set (fst (collect_participants [task_on 1, task_on 2] (dx_participants fresh_txn) [])).
            n \<in> fst ` set rs \<or> unreachable_node ok_net (co_backend (coordinator_with (Some fresh_txn))) n"
        "co_log s1 = co_log (coordinator_with (Some fresh_txn)) @ ys @ zs @ map (\<lambda>(n, ok). Sent n ''ROLLBACK'' ok) rs" "co_dtxn s1 = None"
    using failed_prepare_leaves_nodes_prepared [OF d s(1)] by (elim exE conjE) (rule that)
  ultimately have "1 \<in> fst ` set rs" using ok_net_connects by blast
  then obtain ok where "(1, ok) \<in> set rs" by auto
  then have "Sent 1 ''ROLLBACK'' ok \<in> set (co_log s1)" unfolding r(2) by force
  then show ?thesis using s r(3) by blast
qed

theorem no_commit_before_prepare_witness:
  "\<exists>s1 d. orochi_prepare_distributed_transaction ok_net no_raft True [task_on 1] (orochi_begin_distributed_transaction 7 8 (coordinator_with None)) = (True, s1) \<and>
     co_dtxn s1 = Some d \<and> Sent 1 (command_2pc ''PREPARE TRANSACTION'' (dx_gid d) 1) True \<in> set (co_log s1)"
proof -
  let ?b = "orochi_begin_distributed_transaction 7 8 (coordinator_with None)"
  have "\<exists>s1 d. orochi_prepare_distributed_transaction ok_net no_raft True [task_on 1] ?b = (True, s1) \<and> co_dtxn s1 = Some d \<and> dx_prepared d \<and>
      dx_participants d = [1]"
    by (simp add: orochi_begin_distributed_transaction_def orochi_prepare_distributed_transaction_def example_simps Let_def)
  then obtain s1 d where s1: "orochi_prepare_distributed_transaction ok_net no_raft True [task_on 1] ?b = (True, s1)"
      "co_dtxn s1 = Some d" "dx_prepared d" "dx_participants d = [1]" by blast
  have i: "reach idle_coordinator (txn_step ok_net no_raft) (coordinator_with None)"
    by (rule reach_init) (simp add: idle_coordinator_def coordinator_with_def)
  have "reach idle_coordinator (txn_step ok_net no_raft) (snd (orochi_prepare_distributed_transaction ok_net no_raft True [task_on 1] ?b))"
    by (rule reach_step [OF reach_step [OF i step_begin] step_prepare])
  from no_commit_before_prepare [OF this] s1 show ?thesis by (intro exI [of _ s1] exI [of _ d]) simp
qed

section \<open>Global ids\<close>

lemma decimal_string_digits: "\<forall>c \<in> set (decimal_string (int n)). char_digit c"
proof -
  have "\<forall>b \<in> set (decimal n). is_digit b" using decimal_digits [of n] by (simp add: list_all_iff)
  then show ?thesis
    by (auto simp: decimal_string_def decimal_int_def char_digit_def is_digit_def word_le_nat_alt)
qed

lemma decimal_string_inject: "decimal_string (int m) = decimal_string (int n) \<longleftrightarrow> m = n"
proof
  assume "decimal_string (int m) = decimal_string (int n)"
  then have "map (\<lambda>b :: u8. char_of (unat b)) (decimal m) = map (\<lambda>b. char_of (unat b)) (decimal n)"
    by (simp add: decimal_string_def decimal_int_def)
  moreover have "inj (\<lambda>b :: u8. char_of (unat b))"
  proof (rule injI)
    fix a b :: u8
    assume "char_of (unat a) = char_of (unat b)"
    then have "of_char (char_of (unat a)) = (of_char (char_of (unat b)) :: nat)" by simp
    then have "unat a mod 256 = unat b mod 256" by (simp only: of_char_of)
    moreover have "unat w < 256" for w :: u8 using unsigned_less [of w, where 'a = nat] by simp
    ultimately show "a = b" by (simp add: word_unat_eq_iff)
  qed
  ultimately have "decimal m = decimal n" using inj_map_eq_map by blast
  then show "m = n" using decimal_digits by metis
qed simp

lemma separator_inject: "x \<notin> set a \<Longrightarrow> x \<notin> set b \<Longrightarrow> a @ x # r = b @ x # r' \<longleftrightarrow> a = b \<and> r = r'"
proof (induction a arbitrary: b)
  case Nil
  then show ?case by (cases b) auto
next
  case (Cons y a)
  then show ?case by (cases b) auto
qed

lemma decimal_length: "n < 10 ^ k \<Longrightarrow> 0 < k \<Longrightarrow> length (decimal n) \<le> k"
proof (induction k arbitrary: n)
  case (Suc k)
  show ?case
  proof (cases "n < 10")
    case True
    then show ?thesis by (simp add: decimal.simps [of n])
  next
    case False
    then have "n div 10 < 10 ^ k" "0 < k" using Suc.prems by (auto simp: less_mult_imp_div_less mult.commute intro: gr0I)
    then show ?thesis using Suc.IH [of "n div 10"] False by (simp add: decimal.simps [of n])
  qed
qed simp

text \<open>The global ids of two transactions are the same only if the process, the time and the counter are the same: nothing is cut off
  at the end of the 64 characters.\<close>

theorem transaction_gids_are_unique:
  assumes "pid < 2 ^ 31" "now < 2 ^ 63" "n < 2 ^ 64" "pid' < 2 ^ 31" "now' < 2 ^ 63" "n' < 2 ^ 64"
  shows "generate_transaction_gid pid now n = generate_transaction_gid pid' now' n' \<longleftrightarrow> pid = pid' \<and> now = now' \<and> n = n'"
proof -
  have fits: "length (decimal_string (int a)) \<le> k" if "a < 10 ^ k" "0 < k" for a k
    using decimal_length [OF that] by (simp add: decimal_string_def decimal_int_def)
  have full: "generate_transaction_gid p t c =
      ''orochi_2pc_'' @ decimal_string (int p) @ ''_'' @ decimal_string (int t) @ ''_'' @ decimal_string (int c)"
    if "p < 2 ^ 31" "t < 2 ^ 63" "c < 2 ^ 64" for p t c
  proof -
    have "length (decimal_string (int p)) \<le> 10" "length (decimal_string (int t)) \<le> 19" "length (decimal_string (int c)) \<le> 20"
      using that by (auto intro!: fits elim!: less_trans)
    then show ?thesis by (simp add: generate_transaction_gid_def)
  qed
  have u: "CHR ''_'' \<notin> set (decimal_string (int a))" for a
    using decimal_string_digits [of a] by (auto simp: char_digit_def)
  show ?thesis
    using full [OF assms(1-3)] full [OF assms(4-6)] by (simp add: separator_inject u decimal_string_inject)
qed

theorem transaction_gids_are_unique_witness:
  "generate_transaction_gid 4711 800000000000000 1 \<noteq> generate_transaction_gid 4711 800000000000000 2"
  using transaction_gids_are_unique [of 4711 800000000000000 1 4711 800000000000000 2] by simp

end
