(* ===== verification/Dist_Results.thy ===== *)
theory Dist_Results
  imports Dist_Executor
begin

text \<open>
  The distributed executor, third part: merging and streaming of results, aggregates computed on the workers, and the cache of
  query results (\<^verbatim>\<open>executor/distributed_executor.c\<close>).

  \<^verbatim>\<open>atof\<close>, the cast to a single-precision float and the division of an average are parameters. A hash table of PostgreSQL is a
  map. Characters are signed, as with the compilers the extension is built with.
\<close>

section \<open>Values\<close>

datatype pg_datum = DInt4 int | DInt8 int | DFloat4 u32 | DFloat8 u64 | DBool bool | DText string

record float_text =
  ft_atof :: "string \<Rightarrow> u64"
  ft_float4 :: "u64 \<Rightarrow> u32"

abbreviation (input) BOOLOID :: nat where "BOOLOID \<equiv> 16"
abbreviation (input) INT8OID :: nat where "INT8OID \<equiv> 20"
abbreviation (input) INT4OID :: nat where "INT4OID \<equiv> 23"
abbreviation (input) FLOAT4OID :: nat where "FLOAT4OID \<equiv> 700"
abbreviation (input) FLOAT8OID :: nat where "FLOAT8OID \<equiv> 701"

definition convert_value :: "float_text \<Rightarrow> nat \<Rightarrow> string \<Rightarrow> pg_datum" where
  "convert_value ft typid v =
     (if typid = INT4OID then DInt4 (c_atoi v)
      else if typid = INT8OID then DInt8 (c_atol v)
      else if typid = FLOAT4OID then DFloat4 (ft_float4 ft (ft_atof ft v))
      else if typid = FLOAT8OID then DFloat8 (ft_atof ft v)
      else if typid = BOOLOID then DBool (take 1 v = ''t'')
      else DText v)"

section \<open>Merging\<close>

record ResultMergerState =
  rm_completed_tasks :: "RemoteTask list"
  rm_current_task :: nat
  rm_current_row :: nat

definition orochi_init_result_merger :: "DistributedExecutorState \<Rightarrow> ResultMergerState" where
  "orochi_init_result_merger s =
     \<lparr>rm_completed_tasks = filter (\<lambda>t. rk_state t = TASK_COMPLETED) (de_tasks s), rm_current_task = 0, rm_current_row = 0\<rparr>"

text \<open>A row for the attributes of the slot; attributes behind the last field are NULL.\<close>

fun build_tuple :: "float_text \<Rightarrow> nat list \<Rightarrow> string option list \<Rightarrow> pg_datum option list" where
  "build_tuple ft [] vs = []"
| "build_tuple ft (typid # ts) [] = None # build_tuple ft ts []"
| "build_tuple ft (typid # ts) (v # vs) = map_option (convert_value ft typid) v # build_tuple ft ts vs"

function next_result :: "float_text \<Rightarrow> nat list \<Rightarrow> ResultMergerState \<Rightarrow> pg_datum option list option \<times> ResultMergerState" where
  "next_result ft typids m =
     (if rm_current_task m < length (rm_completed_tasks m)
      then case rk_result (rm_completed_tasks m ! rm_current_task m) of
        None \<Rightarrow> next_result ft typids (m\<lparr>rm_current_task := rm_current_task m + 1, rm_current_row := 0\<rparr>)
      | Some r \<Rightarrow>
          if rm_current_row m < length (pr_rows r)
          then (Some (build_tuple ft typids (pr_rows r ! rm_current_row m)), m\<lparr>rm_current_row := rm_current_row m + 1\<rparr>)
          else next_result ft typids (m\<lparr>rm_current_task := rm_current_task m + 1, rm_current_row := 0\<rparr>)
      else (None, m))"
  by pat_completeness auto

termination
  by (relation "measure (\<lambda>(ft, ts, m). length (rm_completed_tasks m) - rm_current_task m)") auto

declare next_result.simps [simp del]

definition orochi_get_next_result :: "float_text \<Rightarrow> nat list \<Rightarrow> ResultMergerState \<Rightarrow> pg_datum option list option \<times> ResultMergerState" where
  "orochi_get_next_result ft typids m = (if rm_completed_tasks m = [] then (None, m) else next_result ft typids m)"

section \<open>Aggregates\<close>

abbreviation (input) AGG_TYPE_COUNT :: int where "AGG_TYPE_COUNT \<equiv> 1"
abbreviation (input) AGG_TYPE_SUM :: int where "AGG_TYPE_SUM \<equiv> 2"
abbreviation (input) AGG_TYPE_MIN :: int where "AGG_TYPE_MIN \<equiv> 3"
abbreviation (input) AGG_TYPE_MAX :: int where "AGG_TYPE_MAX \<equiv> 4"
abbreviation (input) AGG_TYPE_AVG :: int where "AGG_TYPE_AVG \<equiv> 5"
abbreviation (input) PG_INT64_MAX :: int where "PG_INT64_MAX \<equiv> 9223372036854775807"
abbreviation (input) PG_INT64_MIN :: int where "PG_INT64_MIN \<equiv> - 9223372036854775808"

record PartialAggResult =
  pa_shard_id :: int
  pa_count :: int
  pa_sum :: int
  pa_min_val :: int
  pa_max_val :: int

definition zero_partial :: "int \<Rightarrow> PartialAggResult" where
  "zero_partial shard = \<lparr>pa_shard_id = shard, pa_count = 0, pa_sum = 0, pa_min_val = 0, pa_max_val = 0\<rparr>"

text \<open>Field \<open>i\<close> of the first row, or \<open>0\<close> if it is missing or NULL.\<close>

definition agg_field :: "string option list \<Rightarrow> nat \<Rightarrow> int" where
  "agg_field row i = (if i < length row then (case row ! i of Some v \<Rightarrow> c_atol v | None \<Rightarrow> 0) else 0)"

definition partial_of_result :: "int \<Rightarrow> PGresult \<Rightarrow> PartialAggResult" where
  "partial_of_result shard r =
     (case pr_rows r of
        row # _ \<Rightarrow> if pr_status r = PGRES_TUPLES_OK
                  then \<lparr>pa_shard_id = shard, pa_count = agg_field row 0, pa_sum = agg_field row 1, pa_min_val = agg_field row 2, pa_max_val = agg_field row 3\<rparr>
                  else zero_partial shard
      | [] \<Rightarrow> zero_partial shard)"

datatype agg_result = AggInt int | AggFloat u64

definition orochi_combine_partial_aggregates :: "(int \<Rightarrow> int \<Rightarrow> u64) \<Rightarrow> PartialAggResult list \<Rightarrow> int \<Rightarrow> agg_result" where
  "orochi_combine_partial_aggregates fdiv partials agg_type =
     (let total_count = foldl (\<lambda>a p. wrap_i64 (a + pa_count p)) 0 partials;
          total_sum = foldl (\<lambda>a p. wrap_i64 (a + pa_sum p)) 0 partials;
          min_val = foldl (\<lambda>a p. if pa_min_val p < a then pa_min_val p else a) PG_INT64_MAX partials;
          max_val = foldl (\<lambda>a p. if pa_max_val p > a then pa_max_val p else a) PG_INT64_MIN partials in
      if agg_type = AGG_TYPE_COUNT then AggInt total_count
      else if agg_type = AGG_TYPE_SUM then AggInt total_sum
      else if agg_type = AGG_TYPE_MIN then AggInt min_val
      else if agg_type = AGG_TYPE_MAX then AggInt max_val
      else if agg_type = AGG_TYPE_AVG then (if total_count > 0 then AggFloat (fdiv total_sum total_count) else AggFloat 0)
      else AggInt 0)"

text \<open>Phase 1: the partial results of the workers, one per query and task.\<close>

fun worker_partials :: "'w libpq \<Rightarrow> (string \<times> RemoteTask) list \<Rightarrow> 'w backend \<Rightarrow> PartialAggResult list \<times> 'w backend" where
  "worker_partials net [] b = ([], b)"
| "worker_partials net ((query, task) # qs) b =
     (let f = rk_fragment task in
      case orochi_get_worker_connection net (fq_node_id f) b of
        (None, b1) \<Rightarrow> (case worker_partials net qs b1 of (ps, b') \<Rightarrow> (zero_partial (fq_shard_id f) # ps, b'))
      | (Some c, b1) \<Rightarrow>
          (case pq_exec net c query (be_world b1) of
             (r, w) \<Rightarrow>
               (case worker_partials net qs (orochi_release_worker_connection net (Some c) (b1\<lparr>be_world := w\<rparr>)) of
                  (ps, b') \<Rightarrow> (partial_of_result (fq_shard_id f) r # ps, b'))))"

definition orochi_execute_aggregate_pushdown ::
  "'w libpq \<Rightarrow> (int \<Rightarrow> int \<Rightarrow> u64) \<Rightarrow> string list \<Rightarrow> RemoteTask list \<Rightarrow> int \<Rightarrow> 'w backend \<Rightarrow> agg_result \<times> 'w backend" where
  "orochi_execute_aggregate_pushdown net fdiv queries tasks agg_type b =
     (case worker_partials net (zip queries tasks) b of (ps, b') \<Rightarrow> (orochi_combine_partial_aggregates fdiv ps agg_type, b'))"

section \<open>Streaming\<close>

record StreamingResultState =
  sr_tasks :: "RemoteTask list"
  sr_current_shard :: nat
  sr_rows_processed :: nat
  sr_batch_size :: nat
  sr_is_complete :: bool

definition orochi_init_streaming_result :: "DistributedExecutorState \<Rightarrow> StreamingResultState" where
  "orochi_init_streaming_result s =
     \<lparr>sr_tasks = de_tasks s, sr_current_shard = 0, sr_rows_processed = 0, sr_batch_size = 1000, sr_is_complete = False\<rparr>"

definition batch_row :: "float_text \<Rightarrow> PGresult \<Rightarrow> string option list \<Rightarrow> pg_datum option list" where
  "batch_row ft r row = map2 (\<lambda>typid v. map_option (convert_value ft typid) v) (pr_ftypes r) row"

text \<open>The loop over the shards; \<^const>\<open>None\<close> is the division by zero for a result without rows.\<close>

function next_batch :: "float_text \<Rightarrow> StreamingResultState \<Rightarrow> pg_datum option list list \<Rightarrow> (pg_datum option list list \<times> StreamingResultState) option" where
  "next_batch ft st batch =
     (if sr_current_shard st < length (sr_tasks st)
      then let task = sr_tasks st ! sr_current_shard st; next = st\<lparr>sr_current_shard := sr_current_shard st + 1\<rparr> in
        case (if rk_state task = TASK_COMPLETED then rk_result task else None) of
          None \<Rightarrow> next_batch ft next batch
        | Some r \<Rightarrow>
            if pr_rows r = [] then None
            else let row_start = sr_rows_processed st mod length (pr_rows r) in
              if sr_rows_processed st > 0 \<and> row_start = 0 then next_batch ft next batch
              else let rows = take (sr_batch_size st - length batch) (drop row_start (pr_rows r));
                       batch' = batch @ map (batch_row ft r) rows;
                       processed = sr_rows_processed st + length rows in
                if length batch' \<ge> sr_batch_size st then Some (batch', st\<lparr>sr_rows_processed := processed\<rparr>)
                else next_batch ft (next\<lparr>sr_rows_processed := processed\<rparr>) batch'
      else Some (batch, st\<lparr>sr_is_complete := True\<rparr>))"
  by pat_completeness auto

termination
  by (relation "measure (\<lambda>(ft, st, batch). length (sr_tasks st) - sr_current_shard st)") auto

declare next_batch.simps [simp del]

definition orochi_get_next_batch :: "float_text \<Rightarrow> StreamingResultState \<Rightarrow> (pg_datum option list list \<times> StreamingResultState) option" where
  "orochi_get_next_batch ft st = (if sr_is_complete st then Some ([], st) else next_batch ft st [])"

section \<open>The cache of query results\<close>

abbreviation (input) MAX_DEPENDENT_TABLES :: nat where "MAX_DEPENDENT_TABLES \<equiv> 16"
abbreviation (input) CACHE_TTL :: int where "CACHE_TTL \<equiv> 5 * 60 * 1000000"

text \<open>\<open>qe_dependent_tables\<close> is only written by the source.\<close>

record QueryCacheEntry =
  qe_query_hash :: u64
  qe_result_data :: string
  qe_result_size :: int
  qe_cached_at :: int
  qe_hit_count :: int
  qe_dependent_tables :: "nat list"

record query_cache =
  qc_entries :: "(u64 \<Rightarrow> QueryCacheEntry option) option"
  qc_dependencies :: "(nat \<Rightarrow> u64 list option) option"

definition init_cache_dependencies :: "query_cache \<Rightarrow> query_cache" where
  "init_cache_dependencies c = (if qc_dependencies c = None then c\<lparr>qc_dependencies := Some (\<lambda>t. None)\<rparr> else c)"

definition register_cache_dependency :: "u64 \<Rightarrow> nat \<Rightarrow> query_cache \<Rightarrow> query_cache" where
  "register_cache_dependency query_hash tab c =
     (let m = (case qc_dependencies (init_cache_dependencies c) of Some m \<Rightarrow> m | None \<Rightarrow> (\<lambda>t. None));
          qs = (case m tab of Some qs \<Rightarrow> qs | None \<Rightarrow> []) in
      c\<lparr>qc_dependencies := Some (m(tab \<mapsto> (if length qs < 64 \<and> query_hash \<notin> set qs then qs @ [query_hash] else qs)))\<rparr>)"

definition orochi_init_query_cache :: "query_cache \<Rightarrow> query_cache" where
  "orochi_init_query_cache c = (if qc_entries c = None then c\<lparr>qc_entries := Some (\<lambda>h. None)\<rparr> else c)"

definition signed_char :: "char \<Rightarrow> int" where
  "signed_char c = (let n = of_char c :: int in if n < 128 then n else n - 256)"

definition compute_query_hash :: "string \<Rightarrow> u64" where
  "compute_query_hash q = foldl (\<lambda>hash c. push_bit 5 hash + hash + word_of_int (signed_char c)) 5381 q"

definition cache_map :: "query_cache \<Rightarrow> u64 \<Rightarrow> QueryCacheEntry option" where
  "cache_map c = (case qc_entries (orochi_init_query_cache c) of Some m \<Rightarrow> m | None \<Rightarrow> (\<lambda>h. None))"

definition orochi_cache_lookup :: "int \<Rightarrow> string \<Rightarrow> query_cache \<Rightarrow> QueryCacheEntry option \<times> query_cache" where
  "orochi_cache_lookup now q c =
     (let h = compute_query_hash q; m = cache_map c in
      case m h of
        None \<Rightarrow> (None, c\<lparr>qc_entries := Some m\<rparr>)
      | Some e \<Rightarrow>
          if now - qe_cached_at e < CACHE_TTL
          then (let e' = e\<lparr>qe_hit_count := qe_hit_count e + 1\<rparr> in (Some e', c\<lparr>qc_entries := Some (m(h \<mapsto> e'))\<rparr>))
          else (None, c\<lparr>qc_entries := Some (m(h := None))\<rparr>))"

definition new_cache_entry :: "int \<Rightarrow> u64 \<Rightarrow> string \<Rightarrow> int \<Rightarrow> nat list \<Rightarrow> QueryCacheEntry" where
  "new_cache_entry now h data size_bytes tables = \<lparr>qe_query_hash = h, qe_result_data = data, qe_result_size = size_bytes, qe_cached_at = now, qe_hit_count = 0,
     qe_dependent_tables = tables\<rparr>"

definition orochi_cache_store :: "int \<Rightarrow> string \<Rightarrow> string \<Rightarrow> int \<Rightarrow> query_cache \<Rightarrow> query_cache" where
  "orochi_cache_store now q data size_bytes c =
     (let h = compute_query_hash q; m = cache_map c in
      c\<lparr>qc_entries := Some (if m h = None then m(h \<mapsto> new_cache_entry now h data size_bytes []) else m)\<rparr>)"

definition orochi_cache_store_with_deps :: "int \<Rightarrow> string \<Rightarrow> string \<Rightarrow> int \<Rightarrow> nat list \<Rightarrow> query_cache \<Rightarrow> query_cache" where
  "orochi_cache_store_with_deps now q data size_bytes table_oids c =
     (let h = compute_query_hash q; m = cache_map c; ts = take MAX_DEPENDENT_TABLES table_oids in
      if m h = None
      then fold (register_cache_dependency h) ts (c\<lparr>qc_entries := Some (m(h \<mapsto> new_cache_entry now h data size_bytes ts))\<rparr>)
      else c\<lparr>qc_entries := Some m\<rparr>)"

definition orochi_cache_invalidate :: "nat \<Rightarrow> query_cache \<Rightarrow> query_cache" where
  "orochi_cache_invalidate tab c =
     (case qc_entries c of
        None \<Rightarrow> c
      | Some m \<Rightarrow>
          (case (case qc_dependencies c of None \<Rightarrow> None | Some d \<Rightarrow> d tab) of
             Some (h # hs) \<Rightarrow>
               c\<lparr>qc_entries := Some (\<lambda>k. if k \<in> set (take 64 (h # hs)) then None else m k),
                 qc_dependencies := map_option (\<lambda>d. d(tab \<mapsto> [])) (qc_dependencies c)\<rparr>
           | _ \<Rightarrow> c\<lparr>qc_entries := None\<rparr>))"

section \<open>Merged results\<close>

definition task_rows :: "RemoteTask \<Rightarrow> string option list list" where
  "task_rows t = (case rk_result t of None \<Rightarrow> [] | Some r \<Rightarrow> pr_rows r)"

text \<open>What a merger has still to deliver.\<close>

definition merger_left :: "ResultMergerState \<Rightarrow> string option list list" where
  "merger_left m =
     (if rm_current_task m < length (rm_completed_tasks m)
      then drop (rm_current_row m) (task_rows (rm_completed_tasks m ! rm_current_task m)) @
        concat (map task_rows (drop (Suc (rm_current_task m)) (rm_completed_tasks m)))
      else [])"

lemma merger_left_next:
  assumes "rm_current_task m < length (rm_completed_tasks m)"
  shows "merger_left (m\<lparr>rm_current_task := rm_current_task m + 1, rm_current_row := 0\<rparr>) =
    concat (map task_rows (drop (Suc (rm_current_task m)) (rm_completed_tasks m)))"
  by (simp add: merger_left_def Cons_nth_drop_Suc [symmetric])

lemma next_result_spec:
  "map_prod (\<lambda>r. r) merger_left (next_result ft typids m) =
     (case merger_left m of [] \<Rightarrow> (None, []) | row # rows \<Rightarrow> (Some (build_tuple ft typids row), rows))"
proof (induction ft typids m rule: next_result.induct)
  case (1 ft typids m)
  let ?t = "rm_completed_tasks m ! rm_current_task m" and ?m = "m\<lparr>rm_current_task := rm_current_task m + 1, rm_current_row := 0\<rparr>"
  consider (over) "\<not> rm_current_task m < length (rm_completed_tasks m)"
    | (skip) "rm_current_task m < length (rm_completed_tasks m)" "drop (rm_current_row m) (task_rows ?t) = []"
    | (row) r where "rm_current_task m < length (rm_completed_tasks m)" "rk_result ?t = Some r" "rm_current_row m < length (pr_rows r)"
    unfolding task_rows_def by (cases "rk_result ?t") (simp_all, (metis leI)+)
  then show ?case
  proof cases
    case over
    then show ?thesis by (simp add: next_result.simps [of ft typids m] merger_left_def)
  next
    case skip
    then have "merger_left m = merger_left ?m" by (simp add: merger_left_next [simplified]) (simp add: merger_left_def)
    moreover have "map_prod (\<lambda>r. r) merger_left (next_result ft typids m) = map_prod (\<lambda>r. r) merger_left (next_result ft typids ?m)"
      using skip by (simp add: next_result.simps [of ft typids m] task_rows_def split: option.splits)
    moreover have "map_prod (\<lambda>r. r) merger_left (next_result ft typids ?m) =
        (case merger_left ?m of [] \<Rightarrow> (None, []) | row # rows \<Rightarrow> (Some (build_tuple ft typids row), rows))"
      using 1 skip by (cases "rk_result ?t") (auto simp: task_rows_def)
    ultimately show ?thesis by simp
  next
    case (row r)
    then show ?thesis
      by (simp add: next_result.simps [of ft typids m] merger_left_def task_rows_def Cons_nth_drop_Suc [symmetric])
  qed
qed

text \<open>The results of \<open>n\<close> calls.\<close>

fun call_results :: "float_text \<Rightarrow> nat list \<Rightarrow> nat \<Rightarrow> ResultMergerState \<Rightarrow> pg_datum option list option list" where
  "call_results ft typids 0 m = []"
| "call_results ft typids (Suc n) m = (case orochi_get_next_result ft typids m of (r, m') \<Rightarrow> r # call_results ft typids n m')"

lemma get_next_result_spec:
  "map_prod (\<lambda>r. r) merger_left (orochi_get_next_result ft typids m) =
     (case merger_left m of [] \<Rightarrow> (None, []) | row # rows \<Rightarrow> (Some (build_tuple ft typids row), rows))"
  by (simp add: orochi_get_next_result_def next_result_spec) (simp add: merger_left_def)

lemma call_results_spec:
  "call_results ft typids n m = take n (map (\<lambda>row. Some (build_tuple ft typids row)) (merger_left m)) @ replicate (n - length (merger_left m)) None"
proof (induction n arbitrary: m)
  case (Suc n)
  obtain r m' where g: "orochi_get_next_result ft typids m = (r, m')" by fastforce
  show ?case
  proof (cases "merger_left m")
    case Nil
    then show ?thesis using get_next_result_spec [of ft typids m] g Suc.IH [of m'] by simp
  next
    case (Cons row rows)
    then show ?thesis using get_next_result_spec [of ft typids m] g Suc.IH [of m'] by simp
  qed
qed simp

text \<open>C13: The merger delivers the rows of the completed tasks one by one, task after task in the order of the plan, and nothing after them.\<close>

theorem merged_results_are_concatenated:
  "call_results ft typids n (orochi_init_result_merger s) =
     (let rows = concat (map task_rows (filter (\<lambda>t. rk_state t = TASK_COMPLETED) (de_tasks s))) in
      take n (map (\<lambda>row. Some (build_tuple ft typids row)) rows) @ replicate (n - length rows) None)"
proof -
  have "merger_left (orochi_init_result_merger s) = concat (map task_rows (filter (\<lambda>t. rk_state t = TASK_COMPLETED) (de_tasks s)))"
    by (cases "filter (\<lambda>t. rk_state t = TASK_COMPLETED) (de_tasks s)") (simp_all add: merger_left_def orochi_init_result_merger_def)
  then show ?thesis by (simp add: call_results_spec Let_def)
qed

section \<open>Combined aggregates\<close>

lemma wrap_i64_add: "wrap_i64 (wrap_i64 a + b) = wrap_i64 (a + b)"
  by (simp add: wrap_i64_def mod_simps algebra_simps)

lemma foldl_wrap: "foldl (\<lambda>a p. wrap_i64 (a + f p)) (wrap_i64 x) ps = wrap_i64 (x + sum_list (map f ps))"
  by (induction ps arbitrary: x) (simp_all add: wrap_i64_add algebra_simps)

lemma foldl_wrap_0: "foldl (\<lambda>a p. wrap_i64 (a + f p)) 0 ps = wrap_i64 (sum_list (map f ps))"
  using foldl_wrap [of f 0 ps] by simp

lemma Min_insert_min: "finite S \<Longrightarrow> Min (insert (min x y) S) = Min (insert x (insert y S))"
  by (cases "S = {}") (simp_all add: min.assoc)

lemma Max_insert_max_int: "finite S \<Longrightarrow> Max (insert (max x y) S) = Max (insert x (insert y S))"
  by (cases "S = {}") (simp_all add: max.assoc)

lemma foldl_min: "foldl (\<lambda>a p. if f p < a then f p else a) x ps = Min (insert (x :: int) (f ` set ps))"
proof (induction ps arbitrary: x)
  case (Cons p ps)
  have "(if f p < x then f p else x) = min x (f p)" by simp
  then show ?case using Cons.IH [of "min x (f p)"] by (simp add: Min_insert_min del: Min_insert)
qed simp

lemma foldl_max: "foldl (\<lambda>a p. if f p > a then f p else a) x ps = Max (insert (x :: int) (f ` set ps))"
proof (induction ps arbitrary: x)
  case (Cons p ps)
  have "(if f p > x then f p else x) = max x (f p)" by simp
  then show ?case using Cons.IH [of "max x (f p)"] by (simp add: Max_insert_max_int del: Max_insert)
qed simp

text \<open>\<open>p\<close> is what a worker reports for the values \<open>xs\<close> of its shard.\<close>

definition partial_for :: "PartialAggResult \<Rightarrow> int list \<Rightarrow> bool" where
  "partial_for p xs = (xs \<noteq> [] \<and> pa_count p = int (length xs) \<and> pa_sum p = sum_list xs \<and> pa_min_val p = Min (set xs) \<and> pa_max_val p = Max (set xs))"

lemma partials_sum:
  "list_all2 partial_for ps xss \<Longrightarrow> sum_list (map pa_count ps) = int (length (concat xss)) \<and> sum_list (map pa_sum ps) = sum_list (concat xss)"
  by (induction rule: list_all2_induct) (auto simp: partial_for_def)

lemma Min_insert_bound: "finite S \<Longrightarrow> S \<noteq> {} \<Longrightarrow> \<forall>x \<in> S. x \<le> (b :: int) \<Longrightarrow> Min (insert b S) = Min S"
  using Min_in [of S] by (simp add: min_absorb2)

lemma Max_insert_bound: "finite S \<Longrightarrow> S \<noteq> {} \<Longrightarrow> \<forall>x \<in> S. (b :: int) \<le> x \<Longrightarrow> Max (insert b S) = Max S"
  using Max_in [of S] by (simp add: max_absorb2)

lemma partials_min_max:
  "list_all2 partial_for ps xss \<Longrightarrow> Min (insert b (pa_min_val ` set ps)) = Min (insert b (set (concat xss))) \<and>
     Max (insert c (pa_max_val ` set ps)) = Max (insert c (set (concat xss)))"
proof (induction rule: list_all2_induct)
  case (Cons p ps xs xss)
  have "Min (insert b (insert (Min (set xs)) (pa_min_val ` set ps))) = min (Min (set xs)) (Min (insert b (set (concat xss))))"
    using Cons by (subst insert_commute) simp
  moreover have "Max (insert c (insert (Max (set xs)) (pa_max_val ` set ps))) = max (Max (set xs)) (Max (insert c (set (concat xss))))"
    using Cons by (subst insert_commute) simp
  moreover have "Min (insert b (set (concat (xs # xss)))) = min (Min (set xs)) (Min (insert b (set (concat xss))))"
      "Max (insert c (set (concat (xs # xss)))) = max (Max (set xs)) (Max (insert c (set (concat xss))))"
    using Cons(1) Min_Un [of "set xs" "insert b (set (concat xss))"] Max_Un [of "set xs" "insert c (set (concat xss))"]
    by (simp_all add: partial_for_def del: Min_insert Max_insert)
  ultimately show ?case using Cons(1) by (simp add: partial_for_def del: Min_insert Max_insert)
qed simp

text \<open>If every shard has values and reports their count, sum, minimum and maximum, the coordinator combines them to the count, sum,
  minimum and maximum of all values, provided that the sum is a 64-bit integer.\<close>

theorem combined_aggregates_are_exact:
  assumes "list_all2 partial_for ps xss" "xss \<noteq> []" "\<forall>x \<in> set (concat xss). is_i64 x" "is_i64 (sum_list (concat xss))"
    and "length (concat xss) < 2 ^ 63"
  shows "orochi_combine_partial_aggregates fdiv ps AGG_TYPE_COUNT = AggInt (int (length (concat xss))) \<and>
    orochi_combine_partial_aggregates fdiv ps AGG_TYPE_SUM = AggInt (sum_list (concat xss)) \<and>
    orochi_combine_partial_aggregates fdiv ps AGG_TYPE_MIN = AggInt (Min (set (concat xss))) \<and>
    orochi_combine_partial_aggregates fdiv ps AGG_TYPE_MAX = AggInt (Max (set (concat xss))) \<and>
    orochi_combine_partial_aggregates fdiv ps AGG_TYPE_AVG = AggFloat (fdiv (sum_list (concat xss)) (int (length (concat xss))))"
proof -
  have ne: "concat xss \<noteq> []" using assms(1,2) by (cases xss) (auto simp: list_all2_Cons2 partial_for_def)
  have "Min (insert PG_INT64_MAX (set (concat xss))) = Min (set (concat xss))" "Max (insert PG_INT64_MIN (set (concat xss))) = Max (set (concat xss))"
    using ne assms(3) by (intro Min_insert_bound Max_insert_bound; fastforce)+
  moreover have "is_i64 (int (length (concat xss)))" using assms(5) by simp
  moreover have "0 < int (length (concat xss))" using ne by simp
  ultimately show ?thesis
    using partials_sum [OF assms(1)] partials_min_max [OF assms(1)] assms(4)
    by (simp only: orochi_combine_partial_aggregates_def Let_def foldl_wrap_0 foldl_min foldl_max wrap_i64_id) simp
qed

theorem combined_aggregates_are_exact_witness:
  "orochi_combine_partial_aggregates (\<lambda>s c. 0)
     [\<lparr>pa_shard_id = 1, pa_count = 2, pa_sum = 12, pa_min_val = 5, pa_max_val = 7\<rparr>,
      \<lparr>pa_shard_id = 2, pa_count = 1, pa_sum = - 3, pa_min_val = - 3, pa_max_val = - 3\<rparr>] AGG_TYPE_MIN = AggInt (- 3)"
  using combined_aggregates_are_exact [of "[\<lparr>pa_shard_id = 1, pa_count = 2, pa_sum = 12, pa_min_val = 5, pa_max_val = 7\<rparr>,
      \<lparr>pa_shard_id = 2, pa_count = 1, pa_sum = - 3, pa_min_val = - 3, pa_max_val = - 3\<rparr>]" "[[5, 7], [- 3]]" "\<lambda>s c. 0"]
  by (simp add: partial_for_def)

text \<open>A shard that has no rows, or cannot be reached, contributes zeros. If no shard has a negative minimum, the combined minimum is
  then zero, although no row need have this value; the statement to the worker that finds no rows reports NULL.\<close>

theorem empty_shard_makes_minimum_zero:
  assumes "partial_of_result shard (r\<lparr>pr_status := PGRES_TUPLES_OK, pr_rows := [[Some ''0'', None, None, None]]\<rparr>) \<in> set ps"
    and "\<forall>p \<in> set ps. 0 \<le> pa_min_val p"
  shows "orochi_combine_partial_aggregates fdiv ps AGG_TYPE_MIN = AggInt 0"
proof -
  have "pa_min_val (partial_of_result shard (r\<lparr>pr_status := PGRES_TUPLES_OK, pr_rows := [[Some ''0'', None, None, None]]\<rparr>)) = 0"
    by (simp add: partial_of_result_def agg_field_def)
  with assms(1) have "0 \<in> pa_min_val ` set ps" by (metis imageI)
  then have "Min (insert PG_INT64_MAX (pa_min_val ` set ps)) = 0" using assms(2) by (intro Min_eqI) auto
  then show ?thesis by (simp add: orochi_combine_partial_aggregates_def foldl_min)
qed

theorem empty_shard_makes_minimum_zero_witness:
  "orochi_combine_partial_aggregates (\<lambda>s c. 0)
     [\<lparr>pa_shard_id = 1, pa_count = 2, pa_sum = 12, pa_min_val = 5, pa_max_val = 7\<rparr>,
      partial_of_result 2 (ok_result\<lparr>pr_status := PGRES_TUPLES_OK, pr_rows := [[Some ''0'', None, None, None]]\<rparr>)] AGG_TYPE_MIN = AggInt 0"
  by (rule empty_shard_makes_minimum_zero [of 2 ok_result]) (simp_all, simp add: partial_of_result_def agg_field_def)

section \<open>Streamed results\<close>

text \<open>\<open>k\<close> calls and what they deliver together.\<close>

fun stream_calls :: "float_text \<Rightarrow> nat \<Rightarrow> StreamingResultState \<Rightarrow> (pg_datum option list list \<times> StreamingResultState) option" where
  "stream_calls ft 0 st = Some ([], st)"
| "stream_calls ft (Suc k) st =
     (case stream_calls ft k st of
        None \<Rightarrow> None
      | Some (rows, st1) \<Rightarrow> map_option (\<lambda>(batch, st2). (rows @ batch, st2)) (orochi_get_next_batch ft st1))"

definition task_with :: "PGresult \<Rightarrow> RemoteTask" where
  "task_with r = (new_task sample_fragment)\<lparr>rk_state := TASK_COMPLETED, rk_result := Some r\<rparr>"

lemma one_shard_call:
  assumes "sr_tasks st = [t]" "rk_state t = TASK_COMPLETED" "rk_result t = Some r" "pr_rows r \<noteq> []" "sr_batch_size st = 1000"
    and "\<not> sr_is_complete st" "sr_current_shard st = 0" "sr_rows_processed st = 1000 * k" "1000 * k \<le> length (pr_rows r)"
  shows "\<exists>st'. orochi_get_next_batch ft st = Some (map (batch_row ft r) (take 1000 (drop (1000 * k) (pr_rows r))), st') \<and>
    sr_tasks st' = [t] \<and> sr_batch_size st' = 1000 \<and>
    (if 1000 * Suc k \<le> length (pr_rows r) then \<not> sr_is_complete st' \<and> sr_current_shard st' = 0 \<and> sr_rows_processed st' = 1000 * Suc k
     else sr_is_complete st')"
proof (cases "1000 * k = length (pr_rows r)")
  case True
  then show ?thesis
    using assms by (simp add: orochi_get_next_batch_def next_batch.simps [of ft st] next_batch.simps [of ft "st\<lparr>sr_current_shard := Suc 0\<rparr>"])
next
  case False
  with assms(9) have k: "1000 * k < length (pr_rows r)" "1000 * k mod length (pr_rows r) = 1000 * k" by simp_all
  show ?thesis
    using assms k
    by (auto simp: orochi_get_next_batch_def next_batch.simps [of ft st] next_batch.simps [of ft "st\<lparr>sr_current_shard := Suc 0, sr_rows_processed := x\<rparr>" for x] Let_def)
qed

lemma one_shard_calls:
  assumes "de_tasks s = [t]" "rk_state t = TASK_COMPLETED" "rk_result t = Some r" "pr_rows r \<noteq> []"
  shows "\<exists>st. stream_calls ft k (orochi_init_streaming_result s) = Some (map (batch_row ft r) (take (1000 * k) (pr_rows r)), st) \<and>
    sr_tasks st = [t] \<and> sr_batch_size st = 1000 \<and>
    (if 1000 * k \<le> length (pr_rows r) then \<not> sr_is_complete st \<and> sr_current_shard st = 0 \<and> sr_rows_processed st = 1000 * k
     else sr_is_complete st)"
proof (induction k)
  case 0
  then show ?case using assms by (simp add: orochi_init_streaming_result_def)
next
  case (Suc k)
  then obtain st where st: "stream_calls ft k (orochi_init_streaming_result s) = Some (map (batch_row ft r) (take (1000 * k) (pr_rows r)), st)"
      "sr_tasks st = [t]" "sr_batch_size st = 1000"
      "if 1000 * k \<le> length (pr_rows r) then \<not> sr_is_complete st \<and> sr_current_shard st = 0 \<and> sr_rows_processed st = 1000 * k
       else sr_is_complete st" by blast
  show ?case
  proof (cases "1000 * k \<le> length (pr_rows r)")
    case True
    with st(4) have c: "\<not> sr_is_complete st" "sr_current_shard st = 0" "sr_rows_processed st = 1000 * k" by simp_all
    obtain st' where st': "orochi_get_next_batch ft st = Some (map (batch_row ft r) (take 1000 (drop (1000 * k) (pr_rows r))), st')"
        "sr_tasks st' = [t]" "sr_batch_size st' = 1000"
        "if 1000 * Suc k \<le> length (pr_rows r) then \<not> sr_is_complete st' \<and> sr_current_shard st' = 0 \<and> sr_rows_processed st' = 1000 * Suc k
         else sr_is_complete st'"
      using one_shard_call [OF st(2) assms(2-4) st(3) c True] by blast
    have "take (1000 * Suc k) (pr_rows r) = take (1000 * k) (pr_rows r) @ take 1000 (drop (1000 * k) (pr_rows r))"
      by (metis mult_Suc_right add.commute take_add)
    then show ?thesis using st(1) st' by simp
  next
    case False
    with st have "sr_is_complete st" "take (1000 * k) (pr_rows r) = pr_rows r" "take (1000 * Suc k) (pr_rows r) = pr_rows r" by simp_all
    then show ?thesis using st False by (intro exI [of _ st]) (simp add: orochi_get_next_batch_def)
  qed
qed

text \<open>With one shard that has rows, \<open>k\<close> calls deliver the first \<open>1000 k\<close> rows in order, hence all rows and nothing else once there are
  enough calls.\<close>

theorem streaming_one_shard_delivers_rows:
  assumes "de_tasks s = [t]" "rk_state t = TASK_COMPLETED" "rk_result t = Some r" "pr_rows r \<noteq> []"
  shows "\<exists>st. stream_calls ft k (orochi_init_streaming_result s) = Some (map (batch_row ft r) (take (1000 * k) (pr_rows r)), st)"
  using one_shard_calls [OF assms, of ft k] by blast

definition three_rows :: PGresult where
  "three_rows = \<lparr>pr_status = PGRES_TUPLES_OK, pr_ftypes = [23], pr_rows = [[Some ''1''], [Some ''2''], [None]], pr_cmd_tuples = ''3''\<rparr>"

theorem streaming_one_shard_delivers_rows_witness:
  "\<exists>st. stream_calls \<lparr>ft_atof = (\<lambda>s. 0), ft_float4 = (\<lambda>w. 0)\<rparr> 2 (orochi_init_streaming_result (idle_state\<lparr>de_tasks := [task_with three_rows]\<rparr>)) =
     Some (map (batch_row \<lparr>ft_atof = (\<lambda>s. 0), ft_float4 = (\<lambda>w. 0)\<rparr> three_rows) (pr_rows three_rows), st)"
  using streaming_one_shard_delivers_rows [of "idle_state\<lparr>de_tasks := [task_with three_rows]\<rparr>" "task_with three_rows" three_rows
      "\<lparr>ft_atof = (\<lambda>s. 0), ft_float4 = (\<lambda>w. 0)\<rparr>" 2]
  by (simp add: task_with_def three_rows_def)

definition rows_of_task :: "nat \<Rightarrow> RemoteTask \<Rightarrow> bool" where
  "rows_of_task n t = (rk_state t = TASK_COMPLETED \<and> (\<exists>r. rk_result t = Some r \<and> length (pr_rows r) = n))"

lemma equal_shards_skipped:
  assumes "\<forall>t \<in> set (sr_tasks st). rows_of_task n t" "0 < n" "sr_rows_processed st = n"
  shows "\<exists>st'. next_batch ft st batch = Some (batch, st') \<and> sr_is_complete st'"
  using assms
proof (induction "length (sr_tasks st) - sr_current_shard st" arbitrary: st)
  case 0
  then show ?case by (simp add: next_batch.simps [of ft st])
next
  case (Suc m)
  then have lt: "sr_current_shard st < length (sr_tasks st)" by simp
  then obtain r where r: "rk_state (sr_tasks st ! sr_current_shard st) = TASK_COMPLETED" "rk_result (sr_tasks st ! sr_current_shard st) = Some r"
      "length (pr_rows r) = n"
    using bspec [OF Suc.prems(1) nth_mem [OF lt]] by (auto simp: rows_of_task_def)
  have "\<exists>st'. next_batch ft (st\<lparr>sr_current_shard := sr_current_shard st + 1\<rparr>) batch = Some (batch, st') \<and> sr_is_complete st'"
    using Suc.hyps(2) Suc.prems by (intro Suc.hyps(1)) auto
  with lt r Suc.prems(2,3) show ?case by (auto simp: next_batch.simps [of ft st])
qed

text \<open>The position in a shard is computed from the number of rows of all shards. If all shards have the same number of rows, fewer than
  a batch, then the rows of the first shard are delivered, all other shards are skipped, and the stream reports its end.\<close>

theorem streaming_skips_equal_shards:
  assumes "de_tasks s = t # ts" "\<forall>t \<in> set (de_tasks s). rows_of_task n t" "0 < n" "n < 1000" "rk_result t = Some r"
  shows "\<exists>st. orochi_get_next_batch ft (orochi_init_streaming_result s) = Some (map (batch_row ft r) (pr_rows r), st) \<and> sr_is_complete st"
proof -
  let ?st = "\<lparr>sr_tasks = t # ts, sr_current_shard = 0, sr_rows_processed = 0, sr_batch_size = 1000, sr_is_complete = False\<rparr>"
  have r: "rk_state t = TASK_COMPLETED" "length (pr_rows r) = n" using assms by (auto simp: rows_of_task_def)
  let ?st1 = "?st\<lparr>sr_current_shard := 1, sr_rows_processed := n\<rparr>"
  obtain st' where "next_batch ft ?st1 (map (batch_row ft r) (pr_rows r)) = Some (map (batch_row ft r) (pr_rows r), st')" "sr_is_complete st'"
    using equal_shards_skipped [of ?st1 n ft] assms(1-3) by auto
  then show ?thesis
    using assms r by (auto simp: orochi_get_next_batch_def next_batch.simps [of ft ?st] orochi_init_streaming_result_def)
qed

theorem streaming_skips_equal_shards_witness:
  "\<exists>st. orochi_get_next_batch \<lparr>ft_atof = (\<lambda>s. 0), ft_float4 = (\<lambda>w. 0)\<rparr>
       (orochi_init_streaming_result (idle_state\<lparr>de_tasks := [task_with three_rows, task_with (three_rows\<lparr>pr_rows := [[Some ''4''], [Some ''5''], [Some ''6'']]\<rparr>)]\<rparr>)) =
     Some (map (batch_row \<lparr>ft_atof = (\<lambda>s. 0), ft_float4 = (\<lambda>w. 0)\<rparr> three_rows) (pr_rows three_rows), st) \<and> sr_is_complete st"
  by (rule streaming_skips_equal_shards [where n = 3 and t = "task_with three_rows"
      and ts = "[task_with (three_rows\<lparr>pr_rows := [[Some ''4''], [Some ''5''], [Some ''6'']]\<rparr>)]"])
    (simp_all add: rows_of_task_def task_with_def three_rows_def)

section \<open>The cache\<close>

lemma cache_map_Some [simp]: "qc_entries c = Some m \<Longrightarrow> cache_map c = m"
  by (simp add: cache_map_def orochi_init_query_cache_def)

lemma cache_map_update [simp]: "cache_map (c\<lparr>qc_entries := Some m\<rparr>) = m"
  by simp

definition deps_of :: "query_cache \<Rightarrow> nat \<Rightarrow> u64 list" where
  "deps_of c t = (case qc_dependencies c of None \<Rightarrow> [] | Some d \<Rightarrow> (case d t of None \<Rightarrow> [] | Some qs \<Rightarrow> qs))"

lemma register_deps:
  "deps_of (register_cache_dependency h t c) t' =
     (if t' = t \<and> length (deps_of c t) < 64 \<and> h \<notin> set (deps_of c t) then deps_of c t @ [h] else deps_of c t')"
  "cache_map (register_cache_dependency h t c) = cache_map c" "qc_entries (register_cache_dependency h t c) = qc_entries c"
  by (auto simp: register_cache_dependency_def deps_of_def init_cache_dependencies_def Let_def cache_map_def orochi_init_query_cache_def
      split: option.splits)

text \<open>A table has room for a query if fewer than 64 queries are registered for it.\<close>

definition has_room :: "query_cache \<Rightarrow> u64 \<Rightarrow> nat list \<Rightarrow> bool" where
  "has_room c h ts = (length ts \<le> MAX_DEPENDENT_TABLES \<and> (\<forall>t \<in> set ts. length (deps_of c t) < 64 \<or> h \<in> set (deps_of c t)))"

definition cache_inv :: "query_cache \<Rightarrow> bool" where
  "cache_inv c = ((\<forall>h e t. cache_map c h = Some e \<and> t \<in> set (qe_dependent_tables e) \<longrightarrow> h \<in> set (deps_of c t)) \<and>
     (\<forall>t. length (deps_of c t) \<le> 64))"

lemma fold_register_mono: "set (deps_of c t) \<subseteq> set (deps_of (fold (register_cache_dependency h) ts c) t)"
proof (induction ts arbitrary: c)
  case (Cons a ts)
  show ?case using Cons.IH [of "register_cache_dependency h a c"] by (auto simp: register_deps split: if_splits)
qed simp

lemma fold_register_length:
  "length (deps_of c t) \<le> 64 \<Longrightarrow> length (deps_of (fold (register_cache_dependency h) ts c) t) \<le> 64"
  by (induction ts arbitrary: c) (simp_all add: register_deps)

lemma fold_register_map: "cache_map (fold (register_cache_dependency h) ts c) = cache_map c"
  by (induction ts arbitrary: c) (simp_all add: register_deps)

lemma fold_register_mem:
  "t \<in> set ts \<Longrightarrow> length (deps_of c t) < 64 \<or> h \<in> set (deps_of c t) \<Longrightarrow> h \<in> set (deps_of (fold (register_cache_dependency h) ts c) t)"
proof (induction ts arbitrary: c)
  case (Cons a ts)
  show ?case
  proof (cases "h \<in> set (deps_of (register_cache_dependency h a c) t)")
    case True
    then show ?thesis using fold_register_mono [of "register_cache_dependency h a c" t h ts] by auto
  next
    case False
    then have "t \<noteq> a" "t \<in> set ts" "length (deps_of (register_cache_dependency h a c) t) < 64"
      using Cons.prems by (auto simp: register_deps split: if_splits)
    then show ?thesis using Cons.IH by simp
  qed
qed simp

lemma deps_of_entries [simp]: "deps_of (c\<lparr>qc_entries := m\<rparr>) = deps_of c"
  by (simp add: deps_of_def fun_eq_iff)

lemma lookup_inv: "cache_inv c \<Longrightarrow> cache_inv (snd (orochi_cache_lookup now q c))"
  by (auto simp: cache_inv_def orochi_cache_lookup_def Let_def split: option.splits if_splits)

lemma store_inv: "cache_inv c \<Longrightarrow> cache_inv (orochi_cache_store now q data n c)"
  by (auto simp: cache_inv_def orochi_cache_store_def new_cache_entry_def Let_def split: if_splits)

lemma store_with_deps_inv:
  assumes "cache_inv c" "has_room c (compute_query_hash q) ts"
  shows "cache_inv (orochi_cache_store_with_deps now q data n ts c)"
proof (cases "cache_map c (compute_query_hash q)")
  case None
  let ?h = "compute_query_hash q"
  let ?c = "c\<lparr>qc_entries := Some ((cache_map c)(?h \<mapsto> new_cache_entry now ?h data n ts))\<rparr>"
  have ts: "take 16 ts = ts" using assms(2) by (simp add: has_room_def)
  have "cache_inv (fold (register_cache_dependency ?h) ts ?c)"
    unfolding cache_inv_def fold_register_map
  proof (intro conjI allI impI)
    fix k e t
    assume k: "cache_map ?c k = Some e \<and> t \<in> set (qe_dependent_tables e)"
    show "k \<in> set (deps_of (fold (register_cache_dependency ?h) ts ?c) t)"
    proof (cases "k = ?h")
      case True
      with k have "t \<in> set ts" by (auto simp: new_cache_entry_def)
      with True assms(2) show ?thesis by (auto simp: has_room_def intro!: fold_register_mem)
    next
      case False
      with k assms(1) have "k \<in> set (deps_of ?c t)" by (auto simp: cache_inv_def)
      with fold_register_mono show ?thesis by blast
    qed
  qed (use assms(1) in \<open>auto simp: cache_inv_def intro!: fold_register_length\<close>)
  with None ts show ?thesis by (simp add: orochi_cache_store_with_deps_def Let_def)
next
  case (Some e)
  then show ?thesis using assms(1) by (auto simp: orochi_cache_store_with_deps_def cache_inv_def)
qed

text \<open>What invalidating a table does to entries and dependencies.\<close>

lemma invalidate_tracked:
  assumes "qc_entries c = Some m" "deps_of c t \<noteq> []" "length (deps_of c t) \<le> 64"
  shows "cache_map (orochi_cache_invalidate t c) = (\<lambda>k. if k \<in> set (deps_of c t) then None else m k)"
    "deps_of (orochi_cache_invalidate t c) = (deps_of c)(t := [])"
proof -
  obtain d h hs where d: "qc_dependencies c = Some d" "d t = Some (h # hs)" "deps_of c t = h # hs"
    using assms(2) by (auto simp: deps_of_def neq_Nil_conv split: option.splits)
  then have i: "orochi_cache_invalidate t c = c\<lparr>qc_entries := Some (\<lambda>k. if k \<in> set (h # hs) then None else m k), qc_dependencies := Some (d(t \<mapsto> []))\<rparr>"
    using assms(1,3) by (simp add: orochi_cache_invalidate_def)
  show "cache_map (orochi_cache_invalidate t c) = (\<lambda>k. if k \<in> set (deps_of c t) then None else m k)"
    unfolding i d(3) by (subst cache_map_Some) simp_all
  show "deps_of (orochi_cache_invalidate t c) = (deps_of c)(t := [])"
    unfolding i using d by (auto simp: deps_of_def fun_eq_iff)
qed

lemma invalidate_untracked:
  assumes "qc_entries c = None \<or> deps_of c t = []"
  shows "cache_map (orochi_cache_invalidate t c) = (\<lambda>k. None)" "deps_of (orochi_cache_invalidate t c) = deps_of c"
proof -
  have "qc_entries (orochi_cache_invalidate t c) = None \<and> qc_dependencies (orochi_cache_invalidate t c) = qc_dependencies c"
    using assms by (auto simp: orochi_cache_invalidate_def deps_of_def split: option.splits list.splits)
  then show "cache_map (orochi_cache_invalidate t c) = (\<lambda>k. None)" "deps_of (orochi_cache_invalidate t c) = deps_of c"
    by (simp_all add: cache_map_def orochi_init_query_cache_def deps_of_def fun_eq_iff)
qed

lemma invalidate_inv:
  assumes "cache_inv c"
  shows "cache_inv (orochi_cache_invalidate t c) \<and> (\<forall>h e. cache_map (orochi_cache_invalidate t c) h = Some e \<longrightarrow> t \<notin> set (qe_dependent_tables e))"
proof (cases "qc_entries c = None \<or> deps_of c t = []")
  case True
  then show ?thesis using assms by (auto simp: cache_inv_def invalidate_untracked)
next
  case False
  then obtain m where m: "qc_entries c = Some m" "deps_of c t \<noteq> []" by auto
  with assms show ?thesis by (auto simp: cache_inv_def invalidate_tracked)
qed

inductive cache_step :: "query_cache \<Rightarrow> query_cache \<Rightarrow> bool" where
  step_lookup: "cache_step c (snd (orochi_cache_lookup now q c))"
| step_store: "has_room c (compute_query_hash q) ts \<Longrightarrow> cache_step c (orochi_cache_store_with_deps now q data n ts c)"
| step_plain: "cache_step c (orochi_cache_store now q data n c)"
| step_invalidate: "cache_step c (orochi_cache_invalidate t c)"

definition empty_cache :: query_cache where
  "empty_cache = \<lparr>qc_entries = None, qc_dependencies = None\<rparr>"

interpretation result_cache: invariant_system "\<lambda>c. c = empty_cache" cache_step cache_inv
proof unfold_locales
  show "c = empty_cache \<Longrightarrow> cache_inv c" for c
    by (simp add: empty_cache_def cache_inv_def cache_map_def orochi_init_query_cache_def deps_of_def)
  show "cache_inv c \<Longrightarrow> cache_step c c' \<Longrightarrow> cache_inv c'" for c c'
    by (erule cache_step.cases) (auto simp: lookup_inv store_inv store_with_deps_inv invalidate_inv)
qed

text \<open>C14: As long as no table has more than 64 registered queries and no query names more than 16 tables, invalidating a table leaves no
  result in the cache that was stored as depending on it: a later lookup never returns one.\<close>

theorem invalidation_is_complete:
  assumes "reach (\<lambda>c. c = empty_cache) cache_step c"
    and "fst (orochi_cache_lookup now q (orochi_cache_invalidate t c)) = Some e"
  shows "t \<notin> set (qe_dependent_tables e)"
proof -
  have "\<forall>h e. cache_map (orochi_cache_invalidate t c) h = Some e \<longrightarrow> t \<notin> set (qe_dependent_tables e)"
    using invalidate_inv [OF result_cache.inv_reach [OF assms(1)]] by blast
  then show ?thesis using assms(2) by (auto simp: orochi_cache_lookup_def Let_def split: option.splits if_splits)
qed

lemma empty_cache_fields [simp]: "cache_map empty_cache = (\<lambda>h. None)" "deps_of empty_cache t = []"
  by (simp_all add: empty_cache_def cache_map_def orochi_init_query_cache_def deps_of_def)

lemma hash_values: "compute_query_hash ''q'' = 177686" "compute_query_hash ''r'' = 177687"
  by code_simp+

definition sample_cache :: query_cache where
  "sample_cache = orochi_cache_store_with_deps 0 ''r'' ''y'' 1 [9] (orochi_cache_store_with_deps 0 ''q'' ''x'' 1 [8] empty_cache)"

lemma sample_cache_reached: "reach (\<lambda>c. c = empty_cache) cache_step sample_cache"
proof -
  have e: "reach (\<lambda>c. c = empty_cache) cache_step empty_cache" by (rule reach_init) simp
  have r: "has_room empty_cache (compute_query_hash ''q'') [8]" by (simp add: has_room_def)
  have q: "reach (\<lambda>c. c = empty_cache) cache_step (orochi_cache_store_with_deps 0 ''q'' ''x'' 1 [8] empty_cache)"
    by (rule reach_step [OF e]) (rule step_store, fact r)
  have r': "has_room (orochi_cache_store_with_deps 0 ''q'' ''x'' 1 [8] empty_cache) (compute_query_hash ''r'') [9]"
    by (simp add: has_room_def orochi_cache_store_with_deps_def register_deps Let_def)
  show ?thesis unfolding sample_cache_def by (rule reach_step [OF q]) (rule step_store, fact r')
qed

lemma sample_cache_fields:
  "deps_of sample_cache 8 = [177686]" "cache_map sample_cache 177687 = Some (new_cache_entry 0 177687 ''y'' 1 [9])"
  "\<exists>m. qc_entries sample_cache = Some m"
  by (simp_all add: sample_cache_def orochi_cache_store_with_deps_def register_deps hash_values Let_def)

theorem invalidation_is_complete_witness:
  "\<exists>e. fst (orochi_cache_lookup 5 ''r'' (orochi_cache_invalidate 8 sample_cache)) = Some e \<and> qe_result_data e = ''y'' \<and>
     8 \<notin> set (qe_dependent_tables e)"
proof -
  obtain m where m: "qc_entries sample_cache = Some m" using sample_cache_fields(3) by blast
  have "cache_map (orochi_cache_invalidate 8 sample_cache) 177687 = Some (new_cache_entry 0 177687 ''y'' 1 [9])"
    using invalidate_tracked(1) [OF m, of 8] sample_cache_fields cache_map_Some [OF m] by simp
  then obtain e where e: "fst (orochi_cache_lookup 5 ''r'' (orochi_cache_invalidate 8 sample_cache)) = Some e" "qe_result_data e = ''y''"
    by (simp add: orochi_cache_lookup_def hash_values new_cache_entry_def Let_def)
  with invalidation_is_complete [OF sample_cache_reached e(1)] show ?thesis by blast
qed

text \<open>The 65th query that depends on a table is stored but not registered: invalidating the table leaves it in the cache, and a
  lookup within five minutes returns the stale result.\<close>

theorem crowded_table_keeps_stale_result:
  assumes "length (deps_of c t) = 64" "compute_query_hash q \<notin> set (deps_of c t)" "cache_map c (compute_query_hash q) = None"
    and "now' - now < CACHE_TTL"
  shows "\<exists>e. fst (orochi_cache_lookup now' q (orochi_cache_invalidate t (orochi_cache_store_with_deps now q data n [t] c))) = Some e \<and>
    qe_result_data e = data \<and> qe_dependent_tables e = [t]"
proof -
  let ?h = "compute_query_hash q" and ?c = "orochi_cache_store_with_deps now q data n [t] c"
  have c: "deps_of ?c t = deps_of c t" "cache_map ?c ?h = Some (new_cache_entry now ?h data n [t])" "\<exists>m. qc_entries ?c = Some m"
    using assms(1,3) by (simp_all add: orochi_cache_store_with_deps_def register_deps Let_def)
  then obtain m where m: "qc_entries ?c = Some m" by blast
  have ne: "deps_of ?c t \<noteq> []" using assms(1) c(1) by auto
  have "cache_map (orochi_cache_invalidate t ?c) ?h = Some (new_cache_entry now ?h data n [t])"
    using invalidate_tracked(1) [OF m ne] c(1,2) assms(1,2) m by (simp add: cache_map_Some [OF m])
  then show ?thesis using assms(4) by (simp add: orochi_cache_lookup_def new_cache_entry_def Let_def)
qed

definition crowded_cache :: query_cache where
  "crowded_cache = \<lparr>qc_entries = Some (\<lambda>h. None), qc_dependencies = Some (\<lambda>t. Some (map word_of_nat [0 ..< 64]))\<rparr>"

theorem crowded_table_keeps_stale_result_witness:
  "\<exists>e. fst (orochi_cache_lookup 5 ''q'' (orochi_cache_invalidate 8 (orochi_cache_store_with_deps 0 ''q'' ''x'' 1 [8] crowded_cache))) = Some e \<and>
    qe_result_data e = ''x'' \<and> qe_dependent_tables e = [8]"
proof (rule crowded_table_keeps_stale_result)
  show "length (deps_of crowded_cache 8) = 64" "cache_map crowded_cache (compute_query_hash ''q'') = None" "(5 :: int) - 0 < 5 * 60 * 1000000"
    by (simp_all add: crowded_cache_def deps_of_def)
  have "(177686 :: u64) \<notin> word_of_nat ` {0 ..< 64}"
  proof
    assume "(177686 :: u64) \<in> word_of_nat ` {0 ..< 64}"
    then obtain k where k: "k < 64" "(177686 :: u64) = word_of_nat k" by auto
    have "unat (177686 :: u64) = unat (word_of_nat k :: u64)" by (rule arg_cong [OF k(2)])
    also have "\<dots> = k" using k(1) by (simp add: unat_of_nat)
    finally show False using k(1) by simp
  qed
  then show "compute_query_hash ''q'' \<notin> set (deps_of crowded_cache 8)" by (simp add: crowded_cache_def deps_of_def hash_values)
qed

text \<open>The cache is searched by a 64-bit hash of the text alone. Two texts with the same hash, which are easy to find, share an entry: the
  lookup of one returns the result of the other.\<close>

theorem hash_collision_returns_other_result:
  assumes "compute_query_hash q' = compute_query_hash q" "cache_map c (compute_query_hash q) = None" "now' - now < CACHE_TTL"
  shows "\<exists>e. fst (orochi_cache_lookup now' q' (orochi_cache_store now q data n c)) = Some e \<and> qe_result_data e = data"
  using assms by (simp add: orochi_cache_lookup_def orochi_cache_store_def new_cache_entry_def Let_def)

lemma colliding_texts: "compute_query_hash ''SELECT a FROM tBY'' = compute_query_hash ''SELECT a FROM tAz''"
  by code_simp

theorem hash_collision_returns_other_result_witness:
  "\<exists>e. fst (orochi_cache_lookup 5 ''SELECT a FROM tBY'' (orochi_cache_store 0 ''SELECT a FROM tAz'' ''x'' 1 empty_cache)) = Some e \<and>
    qe_result_data e = ''x''"
  by (rule hash_collision_returns_other_result [OF colliding_texts]) simp_all

end
