(* ===== verification/Spec2Isabelle.thy ===== *)
theory Spec2Isabelle
  imports Raft_Txn Raft_Wire Raft_Election Raft_Snapshot Columnar Shard_Routing Vector_Scan Hyperloglog Jit_Compile Workload_Sessions Governor Auth_Token Dist_Txn Dist_Results
begin

text \<open>
  \<^bold>\<open>Orochi DB.\<close> A development beside the PostgreSQL extension under \<^verbatim>\<open>src/extensions/postgres/src\<close>,
  which turns PostgreSQL into a distributed, columnar database. A table is split into shards by a hash of its
  distribution column; the planner sends a query to the shards it needs; Raft decides on transactions across nodes.
  Columnar tables are stored in compressed chunks and read by a vectorized executor, whose filters and aggregates
  have interpreted and JIT-compiled forms; approximate counts are HyperLogLog sketches. The distributed executor runs
  the fragments of a query on the workers, merges and caches their results and commits in two phases. A workload manager admits
  queries to resource pools and accounts for what they use. Connections are authenticated by JSON Web Tokens, with
  caches of tokens, sessions and keys in shared memory. All of these are modelled.

  \<^bold>\<open>The theories.\<close>

  \<^item> \<^verbatim>\<open>Prelude\<close>: C integers, little-endian bytes, self-delimiting encodings (locale \<^verbatim>\<open>prefix_codec\<close>), array
    stores, reachable states and inductive invariants (locale \<^verbatim>\<open>invariant_system\<close>).
  \<^item> \<^verbatim>\<open>Raft_Types\<close>: the structs and enums of \<^verbatim>\<open>consensus/raft.h\<close>; the clock, the random source and the
    outcome of disk writes of a call as the record \<^verbatim>\<open>env\<close>.
  \<^item> \<^verbatim>\<open>Raft_WAL\<close>, \<^verbatim>\<open>Raft_Log\<close>: \<^verbatim>\<open>consensus/raft_log.c\<close> without recovery: the CRC, WAL records and the
    in-memory log as an array of \<^verbatim>\<open>capacity\<close> cells with \<^verbatim>\<open>first_index\<close> and \<^verbatim>\<open>last_index\<close>; the invariant
    \<^verbatim>\<open>log_wf\<close> and the abstraction \<^verbatim>\<open>log_entries\<close> to a list, with one refinement lemma per operation.
  \<^item> \<^verbatim>\<open>Raft_Node\<close>: \<^verbatim>\<open>consensus/raft.c\<close>, the state file, role changes, the RequestVote and AppendEntries
    handlers and the apply loop: one vote per term, what AppendEntries installs and keeps, in-order
    application.
  \<^item> \<^verbatim>\<open>Raft_Leader\<close>: elections, replication, the commit rule, ticks, submission, waiting, membership and
    the three kinds of reads. Peers answer through the parameter \<^verbatim>\<open>net\<close>. \<^verbatim>\<open>node_wf\<close> is kept by every
    operation.
  \<^item> \<^verbatim>\<open>Raft_Election\<close>: a cluster of such nodes with a lossy, reordering, duplicating network and crashes
    as a step relation over the operations of \<^verbatim>\<open>Raft_Node\<close> and the pieces of \<^verbatim>\<open>raft_start_election\<close>; election
    safety from majorities (locale \<^verbatim>\<open>quorum_system\<close>) and an inductive invariant.
  \<^item> \<^verbatim>\<open>Raft_Recovery\<close>, \<^verbatim>\<open>Raft_Snapshot\<close>, \<^verbatim>\<open>Raft_Wire\<close>: restart from WAL, snapshot and state files; the chunked
    snapshot transfer; the binary formats and the JSON text of AppendEntries.
  \<^item> \<^verbatim>\<open>Raft_Txn\<close>: \<^verbatim>\<open>consensus/raft_integration.c\<close>, the transaction tracker in shared memory, submission, the
    apply callback, verification of commits and the SQL entry points of the RPCs.
  \<^item> \<^verbatim>\<open>Compression\<close>, \<^verbatim>\<open>Gorilla\<close>, \<^verbatim>\<open>Dictionary\<close>: the codecs of \<^verbatim>\<open>storage/compression.c\<close>. The bit writer and
    reader of the Gorilla codec refine lists of bits; the hash table of the dictionary codec has an
    invariant from which both its round trip and the exact condition for its return follow.
  \<^item> \<^verbatim>\<open>Columnar\<close>: \<^verbatim>\<open>storage/columnar.c\<close>, from the buffered rows of a column through the codec to the
    chunk and back to the values, and how chunks meet the catalog: the columns of the catalog table and what the reader's
    freed buffer holds are parameters, since the installed schema lacks the column for the data. The locale \<^verbatim>\<open>chunk_codec\<close> says what the writer needs of a codec and
    is interpreted on all four codecs of the extension.
  \<^item> \<^verbatim>\<open>Shard_Catalog\<close>, \<^verbatim>\<open>Sharding\<close>: the catalog rows of tables, shards and nodes (\<^verbatim>\<open>core/catalog.c\<close>) with the
    constraints of the schema, and hashing, placement, rebalancing, splitting and merging of shards
    (\<^verbatim>\<open>sharding/distribution.c\<close>). A partition of the hash space routes every value to one shard (locale
    \<^verbatim>\<open>hash_buckets\<close>); reachable catalogs keep it.
  \<^item> \<^verbatim>\<open>Shard_Routing\<close>: shard tables, triggers and the view over them (\<^verbatim>\<open>sharding/physical_sharding.c\<close>) refine one
    bag of rows as long as the distribution value identifies the row and the constraints, a parameter, admit it; shard pruning and query classification (\<^verbatim>\<open>planner/distributed_planner.c\<close>).
  \<^item> \<^verbatim>\<open>Vector_Batch\<close>, \<^verbatim>\<open>Vector_Agg\<close>, \<^verbatim>\<open>Vector_Scan\<close>: \<^verbatim>\<open>executor/vectorized.c\<close> and
    \<^verbatim>\<open>executor/vectorized_scan.c\<close>. A batch stands for the list of its selected rows and every filter refines
    \<^const>\<open>filter\<close> on it; AVX2 code is modelled lane by lane and agrees with the scalar code (locale
    \<^verbatim>\<open>lane_compare\<close>); aggregates over many batches; the scan loop with predicate pushdown.
  \<^item> \<^verbatim>\<open>Jit_Expr\<close>, \<^verbatim>\<open>Jit_Compile\<close>: \<^verbatim>\<open>jit/jit_expr.c\<close> and \<^verbatim>\<open>jit/jit_compile.c\<close>. Expression trees with their five
    evaluators against a three-valued reference with machine arithmetic, constant folding (locales \<^verbatim>\<open>constant_folding\<close>,
    \<^verbatim>\<open>connective\<close>), the cache, and running compiled filters (locale \<^verbatim>\<open>mask_writer\<close>) and aggregates.
  \<^item> \<^verbatim>\<open>Hyperloglog\<close>: \<^verbatim>\<open>approx/hyperloglog.c\<close>, the hash, the registers as a join-semilattice (locale
    \<^verbatim>\<open>mergeable_summary\<close>), so that parallel aggregation equals sequential aggregation, and the formats.
  \<^item> \<^verbatim>\<open>Slots\<close>: arrays of slots in shared memory: the first slot that satisfies a condition, counts and sums.
  \<^item> \<^verbatim>\<open>Workload\<close>, \<^verbatim>\<open>Workload_Sessions\<close>, \<^verbatim>\<open>Governor\<close>: \<^verbatim>\<open>workload/workload.c\<close> and
    \<^verbatim>\<open>workload/resource_governor.c\<close>. Resource pools, workload classes, admission, the waiting queue, the session
    table with bounded linear probing, and the accounting of CPU, memory and I/O. The step relations allow every
    call by every process, with a flag that is lost when a call is made that the code miscounts (releasing a query that was
    started, releasing more memory than is held, an id given twice): the queue total is never too large and the session count
    always exact, and all counters are exact while the flag stands. \<^verbatim>\<open>qsort\<close> is a
    parameter with the hypothesis that it sorts; counters of ids are static variables of each process.
  \<^item> \<^verbatim>\<open>Probe_Table\<close>: open addressing with a bounded number of probes (locale \<^verbatim>\<open>probe_table\<close>), interpreted on the
    caches of sessions and of tokens.
  \<^item> \<^verbatim>\<open>Auth_Cache\<close>, \<^verbatim>\<open>Base64url\<close>, \<^verbatim>\<open>Auth_Jwt\<close>, \<^verbatim>\<open>Auth_Token\<close>: \<^verbatim>\<open>auth/auth_cache.c\<close>, \<^verbatim>\<open>auth/jwt.c\<close> and \<^verbatim>\<open>auth/auth.c\<close>.
    Caches of tokens, sessions and signing keys, limits on sessions and rates, encoding, parsing and
    verification of tokens, claims in session variables, fast and full validation. The parser of JSON, the lookup of a key in a value that is no
    object, HMAC and the signature checks of OpenSSL are the record \<^verbatim>\<open>jwt_env\<close>, SHA-256 is a parameter, and so is the memory
    behind a buffer that the source reads without having written it.
  \<^item> \<^verbatim>\<open>Dist_Executor\<close>, \<^verbatim>\<open>Dist_Txn\<close>, \<^verbatim>\<open>Dist_Results\<close>: \<^verbatim>\<open>executor/distributed_executor.c\<close>. The connection pool, remote tasks,
    the slow-start loop, which is proved not to return, and the parallel loop, which is proved to return when no
    connection stays busy for ever (\<^verbatim>\<open>polls_end\<close>); two-phase commit as a step relation on the coordinator with the list
    of all commands sent; merging and streaming of results, aggregate pushdown and the cache of query results. libpq
    and the workers are the record \<^verbatim>\<open>libpq\<close> over an abstract state of the outside world, the calls of Raft are the record
    \<^verbatim>\<open>raft_calls\<close>, \<^verbatim>\<open>atof\<close> and the division of doubles are parameters.

  \<^bold>\<open>How C is modelled.\<close> A struct is a record, an enum a datatype, and a function that changes its arguments
  returns them changed. Undefined behaviour (an access outside an array or buffer, a shift by the width of the
  type) and a loop that never ends are the value \<^const>\<open>None\<close>; \<^verbatim>\<open>ereport(ERROR)\<close> is \<^verbatim>\<open>Inl\<close>. Loops are
  recursive functions with termination proofs; the probe of the dictionary's hash table, \<^verbatim>\<open>raft_wait_for_commit\<close>,
  \<^verbatim>\<open>raft_read_index\<close>, \<^verbatim>\<open>orochi_raft_wait_for_commit\<close>, the two loops of the distributed executor and the draining of a
  cancelled connection may run for ever and are partial functions; the theorems about them prove that they return, or,
  for the slow-start loop, that it does not. No fuel is used. Terms, log indices and sizes that the source keeps in
  \<^verbatim>\<open>uint64\<close> are natural numbers, since they only count up; where bytes are written the bounds are hypotheses
  (\<^verbatim>\<open>is_u64\<close>, \<^verbatim>\<open>is_i32\<close>). The codecs and hashes work on machine words.

  \<^bold>\<open>Idealisations.\<close> A call sees one reading of the clock, one random number and one outcome of its disk writes.
  Within one call a node handles no other message, as in the source, where a backend is single-threaded.
  Memory allocation succeeds, except that a request above \<^verbatim>\<open>MaxAllocSize\<close> for a chunk of a column or for a snapshot is an
  error.

  SQL statements sent through SPI are modelled by their effect on catalog rows or shard tables, for the catalog of tables,
  shards and nodes with the schema on which \<^verbatim>\<open>orochi_catalog_init\<close> and the installed script agree. The functions of
  the catalog that return a struct or a list return memory that \<^verbatim>\<open>SPI_finish\<close> has freed; for all of them but
  \<^verbatim>\<open>orochi_catalog_read_chunk_data\<close> the model gives the row that was found, as the callers expect, and the lifetimes of
  allocations are not modelled.

  \<^bold>\<open>Not modelled.\<close> What only talks to PostgreSQL (planner and executor hooks, GUCs, background worker
  registration), network and cloud I/O (S3, Kafka, HTTP), the decisions on
  branches and endpoints that are SQL text, vector distances and quantile sketches. The rounding of
  floating-point arithmetic (records \<^verbatim>\<open>double_ops\<close>, \<^verbatim>\<open>jit_math\<close>, \<^verbatim>\<open>fp_ops\<close>) and the third-party codecs LZ4, ZSTD and PGLZ
  are parameters; comparisons of floats are defined on their bits. Log messages are dropped.
\<close>

end
